(* ===== verification/Prelude.thy ===== *)
theory Prelude
  imports Main "HOL-Library.Char_ord"
begin

text \<open>
  Shared material of the development: the fragment of JavaScript's standard library that the
  modelled sources use (strings, nullish coalescing, insertion-ordered sets, stable sorting) and
  the generic facts about it that the component theories rest on.

  A JavaScript string is modelled by \<^typ>\<open>string\<close>, a list of code units in the range
  U+0000 to U+00FF. On such strings \<open>js_trim\<close> and \<open>js_toLowerCase\<close> agree with
  \<open>String.prototype.trim\<close> and \<open>String.prototype.toLowerCase\<close>. An optional
  property or a \<open>null\<close>/\<open>undefined\<close> union is an \<open>option\<close>.
\<close>

named_theorems js_simps \<open>rewriting with the JavaScript library fragment\<close>
named_theorems split_opts \<open>case splits on options and conditionals used by the components\<close>

subsection \<open>Nullish coalescing\<close>

text \<open>\<open>x ?? d\<close> with a plain default, and \<open>x ?? y\<close> with an optional right operand.\<close>

definition nullish :: "'a option \<Rightarrow> 'a \<Rightarrow> 'a" where
  "nullish x d = (case x of None \<Rightarrow> d | Some v \<Rightarrow> v)"

definition nullish_or :: "'a option \<Rightarrow> 'a option \<Rightarrow> 'a option" where
  "nullish_or x y = (case x of None \<Rightarrow> y | Some v \<Rightarrow> Some v)"

lemma nullish_simps [simp, js_simps]:
  "nullish None d = d" "nullish (Some v) d = v"
  by (simp_all add: nullish_def)

lemma nullish_or_simps [simp, js_simps]:
  "nullish_or None y = y" "nullish_or (Some v) y = Some v" "nullish_or x None = x"
  by (simp_all add: nullish_or_def split: option.split)

lemma nullish_or_None_iff [simp]: "nullish_or x y = None \<longleftrightarrow> x = None \<and> y = None"
  by (cases x) simp_all

lemma nullish_nullish_or: "nullish (nullish_or x y) d = nullish x (nullish y d)"
  by (cases x) simp_all

text \<open>\<open>truthy\<close> reads an optional boolean property in a condition.\<close>

abbreviation truthy :: "bool option \<Rightarrow> bool" where
  "truthy b \<equiv> b = Some True"

subsection \<open>Strings\<close>

text \<open>The white space and line terminators that \<open>trim\<close> strips, below U+0100.\<close>

definition js_space :: "char \<Rightarrow> bool" where
  "js_space c \<longleftrightarrow> (let n = (of_char c :: nat) in (9 \<le> n \<and> n \<le> 13) \<or> n = 32 \<or> n = 160)"

definition js_trimStart :: "string \<Rightarrow> string" where
  "js_trimStart s = dropWhile js_space s"

definition js_trimEnd :: "string \<Rightarrow> string" where
  "js_trimEnd s = rev (dropWhile js_space (rev s))"

definition js_trim :: "string \<Rightarrow> string" where
  "js_trim s = js_trimEnd (js_trimStart s)"

text \<open>Lower case of one code unit below U+0100: the ASCII letters and U+00C0 to U+00DE without
  the multiplication sign U+00D7.\<close>

definition js_lower_char :: "char \<Rightarrow> char" where
  "js_lower_char c =
     (let n = (of_char c :: nat)
      in if (65 \<le> n \<and> n \<le> 90) \<or> (192 \<le> n \<and> n \<le> 222 \<and> n \<noteq> 215)
         then char_of (n + 32) else c)"

definition js_toLowerCase :: "string \<Rightarrow> string" where
  "js_toLowerCase s = map js_lower_char s"

fun js_startsWith :: "string \<Rightarrow> string \<Rightarrow> bool" where
  "js_startsWith s [] = True"
| "js_startsWith [] (p # ps) = False"
| "js_startsWith (c # s) (p # ps) = (c = p \<and> js_startsWith s ps)"

definition js_endsWith :: "string \<Rightarrow> string \<Rightarrow> bool" where
  "js_endsWith s p = js_startsWith (rev s) (rev p)"

text \<open>Decimal printing of an integer, as \<open>String(n)\<close> does below 10 to the 21.\<close>

fun string_of_nat :: "nat \<Rightarrow> string" where
  "string_of_nat n =
     (if n < 10 then [char_of (48 + n)]
      else string_of_nat (n div 10) @ [char_of (48 + n mod 10)])"

declare string_of_nat.simps [simp del]

definition string_of_int :: "int \<Rightarrow> string" where
  "string_of_int i = (if i < 0 then CHR ''-'' # string_of_nat (nat (- i)) else string_of_nat (nat i))"

lemma digit_chars:
  "char_of (48::nat) = CHR ''0''" "char_of (49::nat) = CHR ''1''" "char_of (50::nat) = CHR ''2''"
  "char_of (51::nat) = CHR ''3''" "char_of (52::nat) = CHR ''4''" "char_of (53::nat) = CHR ''5''"
  "char_of (54::nat) = CHR ''6''" "char_of (55::nat) = CHR ''7''" "char_of (56::nat) = CHR ''8''"
  "char_of (57::nat) = CHR ''9''"
  by code_simp+

lemma js_startsWith_append [simp, js_simps]: "js_startsWith (p @ s) p"
  by (induction p) simp_all

lemma js_startsWith_iff: "js_startsWith s p \<longleftrightarrow> (\<exists>t. s = p @ t)"
  by (induction s p rule: js_startsWith.induct) auto

lemma js_endsWith_iff: "js_endsWith s p \<longleftrightarrow> (\<exists>t. s = t @ p)"
proof
  assume "js_endsWith s p"
  then obtain t where "rev s = rev p @ t" by (auto simp: js_endsWith_def js_startsWith_iff)
  then have "s = rev t @ p" by (metis rev_append rev_rev_ident)
  then show "\<exists>t. s = t @ p" ..
qed (auto simp: js_endsWith_def)

lemma js_trim_Nil [simp, js_simps]: "js_trim [] = []"
  by (simp add: js_trim_def js_trimStart_def js_trimEnd_def)

lemma js_trimEnd_last: "js_trimEnd s \<noteq> [] \<Longrightarrow> \<not> js_space (last (js_trimEnd s))"
  by (metis hd_dropWhile hd_rev js_trimEnd_def rev_is_Nil_conv rev_rev_ident)

lemma js_trimEnd_prefix: "\<exists>t. s = js_trimEnd s @ t"
  by (metis js_trimEnd_def rev_append rev_rev_ident takeWhile_dropWhile_id)

lemma js_trimEnd_id: "s = [] \<or> \<not> js_space (last s) \<Longrightarrow> js_trimEnd s = s"
  by (cases s rule: rev_cases) (simp_all add: js_trimEnd_def)

lemma js_trimStart_id: "s = [] \<or> \<not> js_space (hd s) \<Longrightarrow> js_trimStart s = s"
  by (cases s) (simp_all add: js_trimStart_def)

text \<open>A trimmed string starts and ends with no white space, and trimming again changes nothing.\<close>

lemma js_trim_ends:
  assumes "js_trim s \<noteq> []"
  shows "\<not> js_space (hd (js_trim s))" and "\<not> js_space (last (js_trim s))"
proof -
  obtain t where t: "js_trimStart s = js_trim s @ t"
    using js_trimEnd_prefix [of "js_trimStart s"] by (auto simp: js_trim_def)
  then have "js_trimStart s \<noteq> []" and "hd (js_trimStart s) = hd (js_trim s)"
    using assms by auto
  then show "\<not> js_space (hd (js_trim s))"
    by (metis hd_dropWhile js_trimStart_def)
  show "\<not> js_space (last (js_trim s))"
    using assms js_trimEnd_last by (simp add: js_trim_def)
qed

lemma js_trim_idem [simp, js_simps]: "js_trim (js_trim s) = js_trim s"
proof (cases "js_trim s = []")
  case False
  from js_trim_ends [OF False] show ?thesis
    by (simp add: js_trim_def [of "js_trim s"] js_trimStart_id js_trimEnd_id)
qed simp

lemma js_lower_char_idem [simp, js_simps]: "js_lower_char (js_lower_char c) = js_lower_char c"
proof -
  have "(of_char c :: nat) < 256" by simp
  then show ?thesis by (auto simp: js_lower_char_def Let_def)
qed

lemma js_toLowerCase_idem [simp, js_simps]: "js_toLowerCase (js_toLowerCase s) = js_toLowerCase s"
  by (simp add: js_toLowerCase_def)

lemma js_toLowerCase_length [simp]: "length (js_toLowerCase s) = length s"
  by (simp add: js_toLowerCase_def)

lemma js_toLowerCase_Nil_iff [simp]: "js_toLowerCase s = [] \<longleftrightarrow> s = []"
  by (simp add: js_toLowerCase_def)

lemma js_toLowerCase_append [simp]: "js_toLowerCase (s @ t) = js_toLowerCase s @ js_toLowerCase t"
  by (simp add: js_toLowerCase_def)

lemma js_space_lower [simp]: "js_space (js_lower_char c) = js_space c"
proof -
  have "(of_char c :: nat) < 256" by simp
  then show ?thesis by (auto simp: js_lower_char_def js_space_def Let_def)
qed

lemma js_trim_lower: "js_trim (js_toLowerCase s) = js_toLowerCase (js_trim s)"
  by (simp add: js_trim_def js_trimStart_def js_trimEnd_def js_toLowerCase_def dropWhile_map
      rev_map comp_def)

subsection \<open>Insertion-ordered sets\<close>

text \<open>A JavaScript \<open>Set\<close> iterates in insertion order; \<open>add\<close> of a present element
  leaves it unchanged. It is modelled by a distinct list.\<close>

definition js_set_add :: "'a list \<Rightarrow> 'a \<Rightarrow> 'a list" where
  "js_set_add s x = (if x \<in> set s then s else s @ [x])"

definition js_set_of :: "'a list \<Rightarrow> 'a list" where
  "js_set_of xs = foldl js_set_add [] xs"

lemma set_js_set_add [simp]: "set (js_set_add s x) = insert x (set s)"
  by (auto simp: js_set_add_def)

lemma distinct_js_set_add [simp]: "distinct s \<Longrightarrow> distinct (js_set_add s x)"
  by (simp add: js_set_add_def)

lemma foldl_js_set_add:
  "set (foldl js_set_add s xs) = set s \<union> set xs"
  "distinct s \<Longrightarrow> distinct (foldl js_set_add s xs)"
  by (induction xs arbitrary: s) auto

lemma set_js_set_of [simp, js_simps]: "set (js_set_of xs) = set xs"
  by (simp add: js_set_of_def foldl_js_set_add)

lemma distinct_js_set_of [simp, js_simps]: "distinct (js_set_of xs)"
  by (simp add: js_set_of_def foldl_js_set_add)

lemma js_set_of_Nil_iff [simp, js_simps]: "js_set_of xs = [] \<longleftrightarrow> xs = []"
  by (metis set_empty set_js_set_of)

lemma foldl_js_set_add_distinct:
  "distinct xs \<Longrightarrow> set s \<inter> set xs = {} \<Longrightarrow> foldl js_set_add s xs = s @ xs"
  by (induction xs arbitrary: s) (auto simp: js_set_add_def)

lemma js_set_of_distinct: "distinct xs \<Longrightarrow> js_set_of xs = xs"
  by (simp add: js_set_of_def foldl_js_set_add_distinct)

lemma js_set_of_idem [simp, js_simps]: "js_set_of (js_set_of xs) = js_set_of xs"
  by (simp add: js_set_of_distinct)

subsection \<open>Stable sorting with a comparator\<close>

text \<open>\<open>toSorted(compare)\<close> is a stable sort: an element moves behind another only when the
  comparator puts it strictly behind.\<close>

fun js_insert :: "('a \<Rightarrow> 'a \<Rightarrow> int) \<Rightarrow> 'a \<Rightarrow> 'a list \<Rightarrow> 'a list" where
  "js_insert cmp x [] = [x]"
| "js_insert cmp x (y # ys) = (if cmp x y \<le> 0 then x # y # ys else y # js_insert cmp x ys)"

fun js_toSorted :: "('a \<Rightarrow> 'a \<Rightarrow> int) \<Rightarrow> 'a list \<Rightarrow> 'a list" where
  "js_toSorted cmp [] = []"
| "js_toSorted cmp (x # xs) = js_insert cmp x (js_toSorted cmp xs)"

lemma set_js_insert [simp]: "set (js_insert cmp x xs) = insert x (set xs)"
  by (induction xs) auto

lemma set_js_toSorted [simp, js_simps]: "set (js_toSorted cmp xs) = set xs"
  by (induction xs) auto

lemma length_js_insert [simp]: "length (js_insert cmp x xs) = Suc (length xs)"
  by (induction xs) auto

lemma length_js_toSorted [simp, js_simps]: "length (js_toSorted cmp xs) = length xs"
  by (induction xs) auto

lemma js_toSorted_Nil_iff [simp]: "js_toSorted cmp xs = [] \<longleftrightarrow> xs = []"
  by (metis length_0_conv length_js_toSorted)

text \<open>The contract a comparator has to meet for the order of the result to be determined.\<close>

locale js_comparator =
  fixes cmp :: "'a \<Rightarrow> 'a \<Rightarrow> int"
  assumes cmp_total: "cmp x y \<le> 0 \<or> cmp y x \<le> 0"
    and cmp_trans: "cmp x y \<le> 0 \<Longrightarrow> cmp y z \<le> 0 \<Longrightarrow> cmp x z \<le> 0"
begin

lemma sorted_wrt_js_insert:
  "sorted_wrt (\<lambda>a b. cmp a b \<le> 0) xs \<Longrightarrow> sorted_wrt (\<lambda>a b. cmp a b \<le> 0) (js_insert cmp x xs)"
proof (induction xs)
  case (Cons y ys)
  show ?case
  proof (cases "cmp x y \<le> 0")
    case True
    with Cons.prems show ?thesis by (auto intro: cmp_trans)
  next
    case False
    then have "cmp y x \<le> 0" using cmp_total by blast
    with False Cons show ?thesis by auto
  qed
qed simp

lemma sorted_js_toSorted: "sorted_wrt (\<lambda>a b. cmp a b \<le> 0) (js_toSorted cmp xs)"
  by (induction xs) (auto intro: sorted_wrt_js_insert)

end

end
