(* ===== verification/Normalization.thy ===== *)
theory Normalization
  imports Prelude
begin

text \<open>
  The package \<open>packages/normalization-core\<close>: coercion of loosely typed values to trimmed
  strings (\<open>string-coerce.ts\<close>) and of lists of them to clean string lists
  (\<open>string-normalization.ts\<close>). A value of type \<open>unknown\<close> is a
  \<open>js_value\<close>; numbers are integral, as ids and flags are. The theorems say that the list
  normalizers return trimmed, non-empty (and, where promised, distinct or sorted) strings and that
  normalizing twice is normalizing once.
\<close>

datatype js_value =
    JUndefined
  | JNull
  | JBool bool
  | JNum int
  | JStr string
  | JArr "js_value list"
  | JObj "(string \<times> js_value) list"

fun js_join :: "string \<Rightarrow> string list \<Rightarrow> string" where
  "js_join sep [] = []"
| "js_join sep [x] = x"
| "js_join sep (x # y # zs) = x @ sep @ js_join sep (y # zs)"

text \<open>\<open>String(value)\<close>; inside an array \<open>null\<close> and \<open>undefined\<close> print as the empty string.\<close>

fun js_String :: "js_value \<Rightarrow> string" where
  "js_String JUndefined = ''undefined''"
| "js_String JNull = ''null''"
| "js_String (JBool b) = (if b then ''true'' else ''false'')"
| "js_String (JNum n) = string_of_int n"
| "js_String (JStr s) = s"
| "js_String (JArr xs) =
     js_join '','' (map (\<lambda>x. if x = JNull \<or> x = JUndefined then [] else js_String x) xs)"
| "js_String (JObj _) = ''[object Object]''"

subsection \<open>string-coerce.ts\<close>

definition readStringValue :: "js_value \<Rightarrow> string option" where
  "readStringValue v = (case v of JStr s \<Rightarrow> Some s | _ \<Rightarrow> None)"

definition normalizeNullableString :: "js_value \<Rightarrow> string option" where
  "normalizeNullableString v =
     (case v of JStr s \<Rightarrow> (let trimmed = js_trim s in if trimmed \<noteq> [] then Some trimmed else None)
      | _ \<Rightarrow> None)"

definition normalizeOptionalString :: "js_value \<Rightarrow> string option" where
  "normalizeOptionalString v = normalizeNullableString v"

definition normalizeStringifiedOptionalString :: "js_value \<Rightarrow> string option" where
  "normalizeStringifiedOptionalString v =
     (case v of
        JStr s \<Rightarrow> normalizeOptionalString (JStr s)
      | JNum n \<Rightarrow> normalizeOptionalString (JStr (js_String (JNum n)))
      | JBool b \<Rightarrow> normalizeOptionalString (JStr (js_String (JBool b)))
      | _ \<Rightarrow> None)"

definition normalizeStringifiedEntries :: "js_value list option \<Rightarrow> string list" where
  "normalizeStringifiedEntries values =
     List.map_filter normalizeStringifiedOptionalString (nullish values [])"

definition normalizeOptionalLowercaseString :: "js_value \<Rightarrow> string option" where
  "normalizeOptionalLowercaseString v = map_option js_toLowerCase (normalizeOptionalString v)"

definition normalizeLowercaseStringOrEmpty :: "js_value \<Rightarrow> string" where
  "normalizeLowercaseStringOrEmpty v = nullish (normalizeOptionalLowercaseString v) []"

datatype fast_mode = FastOff | FastOn | FastAuto

text \<open>Truthiness of a value: \<open>undefined\<close>, \<open>null\<close>, \<open>false\<close>, zero and the empty
  string are falsy.\<close>

fun js_truthy :: "js_value \<Rightarrow> bool" where
  "js_truthy JUndefined = False"
| "js_truthy JNull = False"
| "js_truthy (JBool b) = b"
| "js_truthy (JNum n) = (n \<noteq> 0)"
| "js_truthy (JStr s) = (s \<noteq> [])"
| "js_truthy (JArr _) = True"
| "js_truthy (JObj _) = True"

definition normalizeFastMode :: "js_value \<Rightarrow> fast_mode option" where
  "normalizeFastMode raw =
     (case raw of JBool b \<Rightarrow> Some (if b then FastOn else FastOff)
      | _ \<Rightarrow>
        if \<not> js_truthy raw then None
        else (let key = normalizeLowercaseStringOrEmpty raw in
          if List.member [''off'', ''false'', ''no'', ''0'', ''disable'', ''disabled'', ''normal''] key
          then Some FastOff
          else if List.member [''on'', ''true'', ''yes'', ''1'', ''enable'', ''enabled'', ''fast''] key
          then Some FastOn
          else if List.member [''auto'', ''automatic''] key then Some FastAuto
          else None))"

definition resolvePrimaryStringValue :: "js_value \<Rightarrow> string option" where
  "resolvePrimaryStringValue v =
     (case v of JStr s \<Rightarrow> normalizeOptionalString (JStr s)
      | JObj fields \<Rightarrow> normalizeOptionalString (nullish (map_of fields ''primary'') JUndefined)
      | _ \<Rightarrow> None)"

text \<open>A thread value is an integral number or a trimmed string.\<close>

definition normalizeOptionalThreadValue :: "js_value \<Rightarrow> js_value option" where
  "normalizeOptionalThreadValue v =
     (case v of JNum n \<Rightarrow> Some (JNum n) | _ \<Rightarrow> map_option JStr (normalizeOptionalString v))"

definition normalizeOptionalStringifiedId :: "js_value \<Rightarrow> string option" where
  "normalizeOptionalStringifiedId v = map_option js_String (normalizeOptionalThreadValue v)"

definition hasNonEmptyString :: "js_value \<Rightarrow> bool" where
  "hasNonEmptyString v \<longleftrightarrow> normalizeOptionalString v \<noteq> None"

subsection \<open>string-normalization.ts\<close>

definition normalizeStringEntries :: "js_value list option \<Rightarrow> string list" where
  "normalizeStringEntries list =
     filter (\<lambda>s. s \<noteq> [])
       (map (\<lambda>entry. nullish (normalizeOptionalString (JStr (js_String entry))) []) (nullish list []))"

definition normalizeStringEntriesLower :: "js_value list option \<Rightarrow> string list" where
  "normalizeStringEntriesLower list =
     map (\<lambda>entry. nullish (normalizeOptionalLowercaseString (JStr entry)) [])
       (normalizeStringEntries list)"

definition uniqueValues :: "'a list \<Rightarrow> 'a list" where
  "uniqueValues values = js_set_of values"

definition uniqueStrings :: "string list \<Rightarrow> string list" where
  "uniqueStrings values = uniqueValues values"

text \<open>Relational comparison of strings by code units.\<close>

fun js_less :: "string \<Rightarrow> string \<Rightarrow> bool" where
  "js_less [] [] = False"
| "js_less [] (_ # _) = True"
| "js_less (_ # _) [] = False"
| "js_less (a # s) (b # t) =
     (of_char a < (of_char b :: nat) \<or> (a = b \<and> js_less s t))"

definition compareCodeUnits :: "string \<Rightarrow> string \<Rightarrow> int" where
  "compareCodeUnits l r = (if js_less l r then -1 else if js_less r l then 1 else 0)"

definition sortUniqueStrings :: "string list \<Rightarrow> string list" where
  "sortUniqueStrings values = js_toSorted compareCodeUnits (uniqueStrings values)"

definition normalizeUniqueStringEntries :: "js_value list option \<Rightarrow> string list" where
  "normalizeUniqueStringEntries values = uniqueStrings (normalizeStringEntries values)"

definition normalizeUniqueStringEntriesLower :: "js_value list option \<Rightarrow> string list" where
  "normalizeUniqueStringEntriesLower values =
     uniqueStrings (filter (\<lambda>s. s \<noteq> []) (normalizeStringEntriesLower values))"

definition normalizeSortedUniqueStringEntries :: "js_value list option \<Rightarrow> string list" where
  "normalizeSortedUniqueStringEntries values =
     sortUniqueStrings (normalizeUniqueStringEntries values)"

definition normalizeTrimmedStringList :: "js_value \<Rightarrow> string list" where
  "normalizeTrimmedStringList v =
     (case v of
        JArr xs \<Rightarrow> concat (map (\<lambda>entry. case normalizeOptionalString entry of
                                     Some normalized \<Rightarrow> [normalized] | None \<Rightarrow> []) xs)
      | _ \<Rightarrow> [])"

definition normalizeUniqueTrimmedStringList :: "js_value \<Rightarrow> string list" where
  "normalizeUniqueTrimmedStringList v = uniqueStrings (normalizeTrimmedStringList v)"

definition normalizeSortedUniqueTrimmedStringList :: "js_value \<Rightarrow> string list" where
  "normalizeSortedUniqueTrimmedStringList v = sortUniqueStrings (normalizeTrimmedStringList v)"

definition normalizeOptionalTrimmedStringList :: "js_value \<Rightarrow> string list option" where
  "normalizeOptionalTrimmedStringList v =
     (let normalized = normalizeTrimmedStringList v
      in if length normalized > 0 then Some normalized else None)"

definition normalizeArrayBackedTrimmedStringList :: "js_value \<Rightarrow> string list option" where
  "normalizeArrayBackedTrimmedStringList v =
     (case v of JArr xs \<Rightarrow> Some (normalizeTrimmedStringList (JArr xs)) | _ \<Rightarrow> None)"

definition normalizeSingleOrTrimmedStringList :: "js_value \<Rightarrow> string list" where
  "normalizeSingleOrTrimmedStringList v =
     (case v of
        JArr xs \<Rightarrow> normalizeTrimmedStringList (JArr xs)
      | _ \<Rightarrow> (case normalizeOptionalString v of Some normalized \<Rightarrow> [normalized] | None \<Rightarrow> []))"

definition normalizeUniqueSingleOrTrimmedStringList :: "js_value \<Rightarrow> string list" where
  "normalizeUniqueSingleOrTrimmedStringList v = uniqueStrings (normalizeSingleOrTrimmedStringList v)"

fun js_split_char :: "char \<Rightarrow> string \<Rightarrow> string list" where
  "js_split_char d [] = [[]]"
| "js_split_char d (c # s) =
     (if c = d then [] # js_split_char d s
      else (case js_split_char d s of [] \<Rightarrow> [[c]] | w # ws \<Rightarrow> (c # w) # ws))"

definition normalizeCsvOrLooseStringList :: "js_value \<Rightarrow> string list" where
  "normalizeCsvOrLooseStringList v =
     (case v of
        JArr xs \<Rightarrow> normalizeStringEntries (Some xs)
      | JStr s \<Rightarrow> filter (\<lambda>e. e \<noteq> []) (map js_trim (js_split_char (CHR '','') s))
      | _ \<Rightarrow> [])"

subsection \<open>Facts\<close>

text \<open>A clean string is non-empty and equal to its own trim.\<close>

definition clean_string :: "string \<Rightarrow> bool" where
  "clean_string s \<longleftrightarrow> s \<noteq> [] \<and> js_trim s = s"

lemma normalizeOptionalString_JStr [js_simps]:
  "normalizeOptionalString (JStr s) = (if js_trim s = [] then None else Some (js_trim s))"
  by (simp add: normalizeOptionalString_def normalizeNullableString_def Let_def)

lemma normalizeOptionalString_clean:
  "normalizeOptionalString v = Some s \<Longrightarrow> clean_string s"
  by (auto simp: normalizeOptionalString_def normalizeNullableString_def clean_string_def Let_def
      split: js_value.splits if_splits)

lemma normalizeOptionalString_of_clean [simp]:
  "clean_string s \<Longrightarrow> normalizeOptionalString (JStr s) = Some s"
  by (simp add: normalizeOptionalString_JStr clean_string_def)

lemma uniqueStrings_simps [simp, js_simps]:
  "set (uniqueStrings xs) = set xs" "distinct (uniqueStrings xs)"
  "uniqueStrings xs = [] \<longleftrightarrow> xs = []" "uniqueStrings (uniqueStrings xs) = uniqueStrings xs"
  by (simp_all add: uniqueStrings_def uniqueValues_def)

lemma normalizeStringEntries_eq:
  "normalizeStringEntries (Some xs) = filter (\<lambda>s. s \<noteq> []) (map (js_trim \<circ> js_String) xs)"
  by (induction xs) (simp_all add: normalizeStringEntries_def normalizeOptionalString_JStr)

lemma normalizeStringEntries_None [simp]: "normalizeStringEntries None = []"
  by (simp add: normalizeStringEntries_def)

lemma normalizeStringEntries_Nil [simp]: "normalizeStringEntries (Some []) = []"
  by (simp add: normalizeStringEntries_def)

lemma normalizeStringEntries_append:
  "normalizeStringEntries (Some (xs @ ys)) =
     normalizeStringEntries (Some xs) @ normalizeStringEntries (Some ys)"
  by (simp add: normalizeStringEntries_eq)

lemma normalizeStringEntries_clean:
  "s \<in> set (normalizeStringEntries l) \<Longrightarrow> clean_string s"
  by (cases l) (auto simp: normalizeStringEntries_eq clean_string_def)

lemma normalizeStringEntries_of_clean:
  "(\<forall>s\<in>set ss. clean_string s) \<Longrightarrow> normalizeStringEntries (Some (map JStr ss)) = ss"
  by (induction ss) (auto simp: normalizeStringEntries_eq clean_string_def)

lemma normalizeStringEntries_idem:
  "normalizeStringEntries (Some (map JStr (normalizeStringEntries l))) = normalizeStringEntries l"
  by (rule normalizeStringEntries_of_clean) (simp add: normalizeStringEntries_clean)

lemma normalizeTrimmedStringList_clean:
  "s \<in> set (normalizeTrimmedStringList v) \<Longrightarrow> clean_string s"
  by (cases v) (auto simp: normalizeTrimmedStringList_def normalizeOptionalString_clean
      split: option.splits)

text \<open>Code-unit comparison is a linear order, so \<open>sortUniqueStrings\<close> sorts.\<close>

lemma js_less_irrefl [simp]: "\<not> js_less s s"
  by (induction s) simp_all

lemma js_less_trans: "js_less a b \<Longrightarrow> js_less b c \<Longrightarrow> js_less a c"
proof (induction a b arbitrary: c rule: js_less.induct)
  case (4 x s y t)
  then show ?case by (cases c) auto
qed (auto elim: js_less.elims)

lemma js_less_linear: "js_less a b \<or> a = b \<or> js_less b a"
proof (induction a b rule: js_less.induct)
  case (4 x s y t)
  have "of_char x < (of_char y :: nat) \<or> x = y \<or> of_char y < (of_char x :: nat)"
    by (metis linorder_cases of_char_eq_iff)
  with 4 show ?case by auto
qed simp_all

lemma js_less_asym: "js_less a b \<Longrightarrow> \<not> js_less b a"
  using js_less_trans js_less_irrefl by blast

lemma compareCodeUnits_le_iff: "compareCodeUnits a b \<le> 0 \<longleftrightarrow> js_less a b \<or> a = b"
  using js_less_linear [of a b] js_less_asym [of a b] by (auto simp: compareCodeUnits_def)

interpretation code_units: js_comparator compareCodeUnits
proof
  fix x y z
  show "compareCodeUnits x y \<le> 0 \<or> compareCodeUnits y x \<le> 0"
    using js_less_linear by (auto simp: compareCodeUnits_le_iff)
  show "compareCodeUnits x y \<le> 0 \<Longrightarrow> compareCodeUnits y z \<le> 0 \<Longrightarrow> compareCodeUnits x z \<le> 0"
    using js_less_trans by (auto simp: compareCodeUnits_le_iff)
qed

lemma distinct_js_insert: "x \<notin> set xs \<Longrightarrow> distinct xs \<Longrightarrow> distinct (js_insert cmp x xs)"
  by (induction xs) auto

lemma distinct_js_toSorted: "distinct xs \<Longrightarrow> distinct (js_toSorted cmp xs)"
  by (induction xs) (auto intro: distinct_js_insert)

lemma set_sortUniqueStrings [simp]: "set (sortUniqueStrings xs) = set xs"
  by (simp add: sortUniqueStrings_def)

lemma distinct_sortUniqueStrings [simp]: "distinct (sortUniqueStrings xs)"
  by (simp add: sortUniqueStrings_def distinct_js_toSorted)

lemma sorted_distinct_js_less:
  "sorted_wrt (\<lambda>a b. compareCodeUnits a b \<le> 0) xs \<Longrightarrow> distinct xs \<Longrightarrow> sorted_wrt js_less xs"
  by (induction xs) (auto simp: compareCodeUnits_le_iff)

lemma sorted_sortUniqueStrings: "sorted_wrt js_less (sortUniqueStrings xs)"
  by (rule sorted_distinct_js_less)
     (simp_all add: sortUniqueStrings_def code_units.sorted_js_toSorted distinct_js_toSorted)

end
