(* ===== verification/Access_Types.thy ===== *)
theory Access_Types
  imports Normalization
begin

text \<open>
  The data of the channel ingress access graph, from
  \<open>src/channels/message-access/types.ts\<close>, \<open>src/channels/mention-gating.ts\<close>,
  \<open>src/channels/command-gating.ts\<close> and \<open>src/config/types.access-groups.ts\<close>.
  A string-literal union is a datatype with one constructor per literal, an object type a record
  whose field names carry a prefix naming the record, and an optional property an option.
\<close>

subsection \<open>Mention and command facts\<close>

datatype implicit_mention_kind = ReplyToBot | QuotedBot | BotThreadParticipant | NativeMention

record mention_facts =
  mf_canDetectMention :: bool
  mf_wasMentioned :: bool
  mf_hasAnyMention :: "bool option"
  mf_implicitMentionKinds :: "implicit_mention_kind list option"

record implicit_mentions_config =
  im_replyToBot :: "bool option"
  im_quotedBot :: "bool option"
  im_threadParticipation :: "bool option"

record mention_policy =
  mp_isGroup :: bool
  mp_requireMention :: bool
  mp_implicitMentions :: "implicit_mentions_config option"
  mp_allowedImplicitMentionKinds :: "implicit_mention_kind list option"
  mp_allowTextCommands :: bool
  mp_hasControlCommand :: bool
  mp_commandAuthorized :: bool

record mention_decision =
  md_effectiveWasMentioned :: bool
  md_shouldSkip :: bool
  md_implicitMention :: bool
  md_matchedImplicitMentionKinds :: "implicit_mention_kind list"
  md_shouldBypassMention :: bool

record command_authorizer =
  ca_configured :: bool
  ca_allowed :: bool

datatype command_gating_mode = ModeAllow | ModeDeny | ModeConfigured

subsection \<open>Reason codes and gate vocabulary\<close>

datatype reason_code =
    R_allowed
  | R_route_blocked
  | R_route_sender_empty
  | R_dm_policy_disabled
  | R_dm_policy_open
  | R_dm_policy_allowlisted
  | R_dm_policy_pairing_required
  | R_dm_policy_not_allowlisted
  | R_group_policy_disabled
  | R_group_policy_open
  | R_group_policy_allowed
  | R_group_policy_empty_allowlist
  | R_group_policy_not_allowlisted
  | R_command_authorized
  | R_control_command_unauthorized
  | R_event_authorized
  | R_event_unauthorized
  | R_event_pairing_not_allowed
  | R_sender_not_required
  | R_origin_subject_missing
  | R_origin_subject_not_matched
  | R_activation_allowed
  | R_activation_skipped
  | R_access_group_missing
  | R_access_group_unsupported
  | R_access_group_failed
  | R_mutable_identifier_disabled
  | R_no_policy_match

datatype gate_phase = PhRoute | PhSender | PhCommand | PhEvent | PhActivation

datatype gate_kind =
    K_route | K_routeSender | K_dmSender | K_groupSender | K_membership | K_ownerAllowlist
  | K_nestedAllowlist | K_command | K_event | K_mention

datatype gate_effect =
    EffAllow | EffBlockDispatch | EffBlockCommand | EffSkip | EffObserve | EffIgnore

subsection \<open>Identifiers, entries and subjects\<close>

datatype identifier_kind = StableId | Username | Email | Phone | Role | PluginKind string

datatype sensitivity = SensNormal | SensPii

datatype match_context = CtxDm | CtxGroup | CtxRoute | CtxCommand

record match_material =
  mm_opaqueId :: string
  mm_kind :: identifier_kind
  mm_dangerous :: "bool option"
  mm_sensitivity :: "sensitivity option"
  mm_value :: string

record ingress_subject =
  sub_identifiers :: "match_material list"

record normalized_entry =
  ne_opaqueEntryId :: string
  ne_kind :: identifier_kind
  ne_dangerous :: "bool option"
  ne_sensitivity :: "sensitivity option"

record internal_entry = normalized_entry +
  ie_value :: string

record entry_diagnostic =
  ed_opaqueEntryId :: "string option"
  ed_reasonCode :: reason_code

record ingress_match =
  m_matched :: bool
  m_matchedEntryIds :: "string list"

record normalize_result =
  nr_matchable :: "internal_entry list"
  nr_invalid :: "entry_diagnostic list"
  nr_disabled :: "entry_diagnostic list"

text \<open>The channel-specific adapter: how entries are normalized and matched with a subject.\<close>

record ingress_adapter =
  normalizeEntries :: "string list \<Rightarrow> match_context \<Rightarrow> string \<Rightarrow> normalize_result"
  matchSubject :: "ingress_subject \<Rightarrow> internal_entry list \<Rightarrow> match_context \<Rightarrow> ingress_match"

subsection \<open>Access groups and resolved allowlists\<close>

datatype fact_source = SrcStatic | SrcDynamic

datatype group_failure = GfMissing | GfUnsupported | GfFailed

datatype membership_fact =
    FactMatched (fact_group: string) fact_source "string list"
  | FactNotMatched (fact_group: string) fact_source
  | FactFailure group_failure (fact_group: string) fact_source reason_code "string option"

datatype access_group_config =
    DiscordChannelAudience string string
  | MessageSenders "string \<rightharpoonup> string list"

record access_groups =
  ag_referenced :: "string list"
  ag_matched :: "string list"
  ag_missing :: "string list"
  ag_unsupported :: "string list"
  ag_failed :: "string list"

record resolved_allowlist =
  al_rawEntryCount :: nat
  al_normalizedEntries :: "normalized_entry list"
  al_invalidEntries :: "entry_diagnostic list"
  al_disabledEntries :: "entry_diagnostic list"
  al_matchedEntryIds :: "string list"
  al_hasConfiguredEntries :: bool
  al_hasMatchableEntries :: bool
  al_hasWildcard :: bool
  al_accessGroups :: access_groups
  al_match :: ingress_match

record allowlist_facts =
  af_configured :: bool
  af_matched :: bool
  af_reasonCode :: reason_code
  af_matchedEntryIds :: "string list"
  af_invalidEntryCount :: nat
  af_disabledEntryCount :: nat
  af_accessGroups :: access_groups

subsection \<open>Routes and events\<close>

datatype route_gate_state = GateNotConfigured | GateMatched | GateNotMatched | GateDisabled | GateLookupFailed

datatype route_sender_policy = SpInherit | SpReplace | SpDenyWhenEmpty

datatype route_sender_source = SrcEffectiveDm | SrcEffectiveGroup

datatype route_kind = RkRoute | RkRouteSender | RkMembership | RkOwnerAllowlist | RkNestedAllowlist

datatype route_effect = ReAllow | ReBlockDispatch | ReIgnore

record route_facts =
  rf_id :: string
  rf_kind :: route_kind
  rf_gate :: route_gate_state
  rf_effect :: route_effect
  rf_precedence :: int
  rf_senderPolicy :: route_sender_policy
  rf_senderAllowFrom :: "js_value list option"
  rf_senderAllowFromSource :: "route_sender_source option"
  rf_match :: "ingress_match option"

record resolved_route =
  rr_id :: string
  rr_kind :: route_kind
  rr_gate :: route_gate_state
  rr_effect :: route_effect
  rr_precedence :: int
  rr_senderPolicy :: route_sender_policy
  rr_match :: "ingress_match option"
  rr_senderAllowlist :: "resolved_allowlist option"

datatype event_kind = EvMessage | EvReaction | EvButton | EvPostback | EvNativeCommand | EvSlashCommand | EvSystem

datatype auth_mode = AuthInbound | AuthCommand | AuthOriginSubject | AuthRouteOnly | AuthNone

record event_input =
  ei_kind :: event_kind
  ei_authMode :: auth_mode
  ei_mayPair :: bool
  ei_originSubject :: "ingress_subject option"

record redacted_event =
  ev_kind :: event_kind
  ev_authMode :: auth_mode
  ev_mayPair :: bool
  ev_hasOriginSubject :: bool
  ev_originSubjectMatched :: bool

datatype conversation_kind = ConvDirect | ConvGroup | ConvChannel

record conversation =
  cv_kind :: conversation_kind
  cv_id :: string
  cv_parentId :: "string option"
  cv_threadId :: "string option"
  cv_title :: "string option"

subsection \<open>State and policy inputs\<close>

record allowlist_inputs =
  li_dm :: "js_value list option"
  li_group :: "js_value list option"
  li_commandOwner :: "js_value list option"
  li_commandGroup :: "js_value list option"
  li_pairingStore :: "js_value list option"

record state_input =
  si_channelId :: string
  si_accountId :: string
  si_subject :: ingress_subject
  si_conversation :: conversation
  si_adapter :: ingress_adapter
  si_accessGroups :: "(string \<rightharpoonup> access_group_config) option"
  si_accessGroupMembership :: "membership_fact list option"
  si_routeFacts :: "route_facts list option"
  si_mentionFacts :: "mention_facts option"
  si_event :: event_input
  si_allowlists :: allowlist_inputs

datatype dm_policy = DmPairing | DmAllowlist | DmOpen | DmDisabled

datatype group_policy = GroupAllowlist | GroupOpen | GroupDisabled

datatype mutable_matching = MutableDisabled | MutableEnabled

datatype activation_order = BeforeSender | AfterCommand

record activation_policy =
  ap_requireMention :: bool
  ap_allowTextCommands :: bool
  ap_implicitMentions :: "implicit_mentions_config option"
  ap_allowedImplicitMentionKinds :: "implicit_mention_kind list option"
  ap_order :: "activation_order option"

record command_policy =
  cp_useAccessGroups :: "bool option"
  cp_allowTextCommands :: bool
  cp_hasControlCommand :: bool
  cp_modeWhenAccessGroupsOff :: "command_gating_mode option"

record ingress_policy =
  pol_dmPolicy :: dm_policy
  pol_groupPolicy :: group_policy
  pol_groupAllowFromFallbackToAllowFrom :: "bool option"
  pol_mutableIdentifierMatching :: "mutable_matching option"
  pol_activation :: "activation_policy option"
  pol_command :: "command_policy option"

subsection \<open>Gates, states and decisions\<close>

datatype sender_policy = SenderDm dm_policy | SenderGroup group_policy

record command_facts =
  cf_useAccessGroups :: bool
  cf_allowTextCommands :: bool
  cf_modeWhenAccessGroupsOff :: "command_gating_mode option"
  cf_shouldBlockControlCommand :: bool

record activation_facts =
  act_hasMentionFacts :: bool
  act_requireMention :: bool
  act_allowTextCommands :: bool
  act_allowedImplicitMentionKinds :: "implicit_mention_kind list option"
  act_order :: "activation_order option"
  act_shouldSkip :: bool
  act_canDetectMention :: "bool option"
  act_wasMentioned :: "bool option"
  act_hasAnyMention :: "bool option"
  act_implicitMentionKinds :: "implicit_mention_kind list option"
  act_effectiveWasMentioned :: "bool option"
  act_shouldBypassMention :: "bool option"

record gate =
  g_id :: string
  g_phase :: gate_phase
  g_kind :: gate_kind
  g_effect :: gate_effect
  g_allowed :: bool
  g_reasonCode :: reason_code
  g_match :: "ingress_match option"
  g_allowlist :: "allowlist_facts option"
  g_sender :: "sender_policy option"
  g_command :: "command_facts option"
  g_event :: "redacted_event option"
  g_activation :: "activation_facts option"

record state_allowlists =
  sl_dm :: resolved_allowlist
  sl_pairingStore :: resolved_allowlist
  sl_group :: resolved_allowlist
  sl_commandOwner :: resolved_allowlist
  sl_commandGroup :: resolved_allowlist

record ingress_state =
  st_channelId :: string
  st_accountId :: string
  st_conversationKind :: conversation_kind
  st_event :: redacted_event
  st_mentionFacts :: "mention_facts option"
  st_routeFacts :: "resolved_route list"
  st_allowlists :: state_allowlists

datatype admission = AdmDispatch | AdmObserve | AdmSkip | AdmDrop | AdmPairingRequired

datatype decision_kind = DecAllow | DecBlock | DecPairing

record ingress_decision =
  d_admission :: admission
  d_decision :: decision_kind
  d_decisiveGateId :: string
  d_reasonCode :: reason_code
  d_gates :: "gate list"

end
