(* ===== verification/Access_Gating.thy ===== *)
theory Access_Gating
  imports Access_Types
begin

text \<open>
  The policy helpers the access graph calls: text-command authorization
  (\<open>src/channels/command-gating.ts\<close>), mention gating
  (\<open>src/channels/mention-gating.ts\<close>) and the merging of configured allow lists
  (\<open>src/channels/allow-from.ts\<close>).
\<close>

subsection \<open>command-gating.ts\<close>

definition resolveCommandAuthorizedFromAuthorizers ::
  "bool \<Rightarrow> command_authorizer list \<Rightarrow> command_gating_mode option \<Rightarrow> bool" where
  "resolveCommandAuthorizedFromAuthorizers useAccessGroups authorizers modeWhenAccessGroupsOff =
     (let mode = nullish modeWhenAccessGroupsOff ModeAllow in
      if \<not> useAccessGroups then
        (if mode = ModeAllow then True
         else if mode = ModeDeny then False
         else (let anyConfigured = list_ex ca_configured authorizers in
           if \<not> anyConfigured then True
           else list_ex (\<lambda>entry. ca_configured entry \<and> ca_allowed entry) authorizers))
      else list_ex (\<lambda>entry. ca_configured entry \<and> ca_allowed entry) authorizers)"

record control_command_gate =
  ccg_commandAuthorized :: bool
  ccg_shouldBlock :: bool

definition resolveControlCommandGate ::
  "bool \<Rightarrow> command_authorizer list \<Rightarrow> bool \<Rightarrow> bool \<Rightarrow> command_gating_mode option
   \<Rightarrow> control_command_gate" where
  "resolveControlCommandGate useAccessGroups authorizers allowTextCommands hasControlCommand
     modeWhenAccessGroupsOff =
     (let commandAuthorized =
        resolveCommandAuthorizedFromAuthorizers useAccessGroups authorizers modeWhenAccessGroupsOff
      in \<lparr>ccg_commandAuthorized = commandAuthorized,
          ccg_shouldBlock = allowTextCommands \<and> hasControlCommand \<and> \<not> commandAuthorized\<rparr>)"

definition resolveDualTextControlCommandGate ::
  "bool \<Rightarrow> bool \<Rightarrow> bool \<Rightarrow> bool \<Rightarrow> bool \<Rightarrow> bool \<Rightarrow> command_gating_mode option
   \<Rightarrow> control_command_gate" where
  "resolveDualTextControlCommandGate useAccessGroups primaryConfigured primaryAllowed
     secondaryConfigured secondaryAllowed hasControlCommand modeWhenAccessGroupsOff =
     resolveControlCommandGate useAccessGroups
       [\<lparr>ca_configured = primaryConfigured, ca_allowed = primaryAllowed\<rparr>,
        \<lparr>ca_configured = secondaryConfigured, ca_allowed = secondaryAllowed\<rparr>]
       True hasControlCommand modeWhenAccessGroupsOff"

subsection \<open>mention-gating.ts\<close>

definition implicitMentionKindWhen ::
  "implicit_mention_kind \<Rightarrow> bool \<Rightarrow> implicit_mention_kind list" where
  "implicitMentionKindWhen kind enabled = (if enabled then [kind] else [])"

definition allowedImplicitMentionKindsFromConfig ::
  "implicit_mentions_config \<Rightarrow> implicit_mention_kind list" where
  "allowedImplicitMentionKindsFromConfig config =
     implicitMentionKindWhen ReplyToBot (im_replyToBot config \<noteq> Some False)
     @ implicitMentionKindWhen QuotedBot (im_quotedBot config \<noteq> Some False)
     @ implicitMentionKindWhen BotThreadParticipant (im_threadParticipation config \<noteq> Some False)
     @ [NativeMention]"

text \<open>The loop of \<open>resolveMatchedImplicitMentionKinds\<close> over the input kinds, with the
  result list as accumulator.\<close>

fun matchedKindsLoop ::
  "implicit_mention_kind list option \<Rightarrow> implicit_mention_kind list \<Rightarrow> implicit_mention_kind list
   \<Rightarrow> implicit_mention_kind list" where
  "matchedKindsLoop allowedKinds matched [] = matched"
| "matchedKindsLoop allowedKinds matched (kind # kinds) =
     (if (case allowedKinds of Some allowed \<Rightarrow> kind \<notin> set allowed | None \<Rightarrow> False)
      then matchedKindsLoop allowedKinds matched kinds
      else if kind \<notin> set matched then matchedKindsLoop allowedKinds (matched @ [kind]) kinds
      else matchedKindsLoop allowedKinds matched kinds)"

definition resolveMatchedImplicitMentionKinds ::
  "implicit_mention_kind list option \<Rightarrow> implicit_mention_kind list option
   \<Rightarrow> implicit_mention_kind list" where
  "resolveMatchedImplicitMentionKinds implicitMentionKinds allowedImplicitMentionKinds =
     (let inputKinds = nullish implicitMentionKinds [] in
      if length inputKinds = 0 then []
      else matchedKindsLoop allowedImplicitMentionKinds [] inputKinds)"

definition resolveMentionDecisionCore ::
  "bool \<Rightarrow> bool \<Rightarrow> bool \<Rightarrow> implicit_mention_kind list option \<Rightarrow> implicit_mention_kind list option
   \<Rightarrow> bool \<Rightarrow> mention_decision" where
  "resolveMentionDecisionCore requireMention canDetectMention wasMentioned implicitMentionKinds
     allowedImplicitMentionKinds shouldBypassMention =
     (let matchedKinds =
            resolveMatchedImplicitMentionKinds implicitMentionKinds allowedImplicitMentionKinds;
          implicitMention = length matchedKinds > 0;
          effectiveWasMentioned = wasMentioned \<or> implicitMention \<or> shouldBypassMention;
          shouldSkip = requireMention \<and> canDetectMention \<and> \<not> effectiveWasMentioned
      in \<lparr>md_effectiveWasMentioned = effectiveWasMentioned,
          md_shouldSkip = shouldSkip,
          md_implicitMention = implicitMention,
          md_matchedImplicitMentionKinds = matchedKinds,
          md_shouldBypassMention = shouldBypassMention\<rparr>)"

definition resolveInboundMentionDecision ::
  "mention_facts \<Rightarrow> mention_policy \<Rightarrow> mention_decision" where
  "resolveInboundMentionDecision facts policy =
     (let allowedImplicitMentionKinds =
            nullish_or (mp_allowedImplicitMentionKinds policy)
              (map_option allowedImplicitMentionKindsFromConfig (mp_implicitMentions policy));
          shouldBypassMention =
            mp_isGroup policy \<and> mp_requireMention policy \<and> \<not> mf_wasMentioned facts
            \<and> \<not> nullish (mf_hasAnyMention facts) False \<and> mp_allowTextCommands policy
            \<and> mp_commandAuthorized policy \<and> mp_hasControlCommand policy
      in resolveMentionDecisionCore (mp_requireMention policy) (mf_canDetectMention facts)
           (mf_wasMentioned facts) (mf_implicitMentionKinds facts) allowedImplicitMentionKinds
           shouldBypassMention)"

subsection \<open>allow-from.ts\<close>

definition ACCESS_GROUP_ALLOW_FROM_PREFIX :: string where
  "ACCESS_GROUP_ALLOW_FROM_PREFIX = ''accessGroup:''"

definition parseAccessGroupAllowFromEntry :: "string \<Rightarrow> string option" where
  "parseAccessGroupAllowFromEntry entry =
     (let trimmed = js_trim entry in
      if \<not> js_startsWith trimmed ACCESS_GROUP_ALLOW_FROM_PREFIX then None
      else (let name = js_trim (drop (length ACCESS_GROUP_ALLOW_FROM_PREFIX) trimmed)
            in if length name > 0 then Some name else None))"

text \<open>The DM policy reaches these helpers as an optional string.\<close>

definition mergeDmAllowFromSources ::
  "js_value list option \<Rightarrow> js_value list option \<Rightarrow> string option \<Rightarrow> string list" where
  "mergeDmAllowFromSources allowFrom storeAllowFrom dmPolicy =
     (let storeEntries =
        (if dmPolicy = Some ''allowlist'' \<or> dmPolicy = Some ''open'' then []
         else nullish storeAllowFrom [])
      in normalizeStringEntries (Some (nullish allowFrom [] @ storeEntries)))"

definition resolveGroupAllowFromSources ::
  "js_value list option \<Rightarrow> js_value list option \<Rightarrow> bool option \<Rightarrow> string list" where
  "resolveGroupAllowFromSources allowFrom groupAllowFrom fallbackToAllowFrom =
     (let explicitGroupAllowFrom =
            (case groupAllowFrom of
               Some g \<Rightarrow> if length g > 0 then Some g else None
             | None \<Rightarrow> None);
          scoped =
            (case explicitGroupAllowFrom of
               Some g \<Rightarrow> g
             | None \<Rightarrow> if fallbackToAllowFrom = Some False then [] else nullish allowFrom [])
      in normalizeStringEntries (Some scoped))"

fun firstDefined :: "'a option list \<Rightarrow> 'a option" where
  "firstDefined [] = None"
| "firstDefined (v # vs) = (case v of Some x \<Rightarrow> Some x | None \<Rightarrow> firstDefined vs)"

definition isSenderIdAllowed ::
  "string list \<Rightarrow> bool \<Rightarrow> bool \<Rightarrow> string option \<Rightarrow> bool \<Rightarrow> bool" where
  "isSenderIdAllowed entries hasWildcard hasEntries senderId allowWhenEmpty =
     (if \<not> hasEntries then allowWhenEmpty
      else if hasWildcard then True
      else (case senderId of
              None \<Rightarrow> False
            | Some s \<Rightarrow> if s = [] then False else s \<in> set entries))"

subsection \<open>Facts\<close>

text \<open>With access groups on, or in the mode \<open>deny\<close>, only a configured and allowing
  authorizer authorizes.\<close>

lemma command_authorized_iff:
  "resolveCommandAuthorizedFromAuthorizers uag as m \<longleftrightarrow>
     (if uag then (\<exists>a\<in>set as. ca_configured a \<and> ca_allowed a)
      else (case nullish m ModeAllow of
              ModeAllow \<Rightarrow> True
            | ModeDeny \<Rightarrow> False
            | ModeConfigured \<Rightarrow> (\<exists>a\<in>set as. ca_configured a) \<longrightarrow> (\<exists>a\<in>set as. ca_configured a \<and> ca_allowed a)))"
  by (auto simp: resolveCommandAuthorizedFromAuthorizers_def Let_def list_ex_iff
      split: command_gating_mode.splits)

lemma matchedKindsLoop_props:
  "set (matchedKindsLoop allowed acc ks) =
     set acc \<union> {k \<in> set ks. \<forall>a. allowed = Some a \<longrightarrow> k \<in> set a}"
  "distinct acc \<Longrightarrow> distinct (matchedKindsLoop allowed acc ks)"
  by (induction ks arbitrary: acc) (auto split: option.splits)

lemma set_resolveMatchedImplicitMentionKinds:
  "set (resolveMatchedImplicitMentionKinds kinds allowed) =
     {k \<in> set (nullish kinds []). \<forall>a. allowed = Some a \<longrightarrow> k \<in> set a}"
  by (auto simp: resolveMatchedImplicitMentionKinds_def Let_def matchedKindsLoop_props)

lemma distinct_resolveMatchedImplicitMentionKinds:
  "distinct (resolveMatchedImplicitMentionKinds kinds allowed)"
  by (auto simp: resolveMatchedImplicitMentionKinds_def Let_def matchedKindsLoop_props)

text \<open>A group message that requires a mention is skipped exactly when mentions can be detected,
  none happened (explicitly or through an allowed implicit kind) and no authorized control command
  bypasses the requirement.\<close>

lemma mention_skip_iff:
  "md_shouldSkip (resolveInboundMentionDecision f p) \<longleftrightarrow>
     mp_requireMention p \<and> mf_canDetectMention f \<and> \<not> mf_wasMentioned f
     \<and> set (resolveMatchedImplicitMentionKinds (mf_implicitMentionKinds f)
          (nullish_or (mp_allowedImplicitMentionKinds p)
             (map_option allowedImplicitMentionKindsFromConfig (mp_implicitMentions p)))) = {}
     \<and> \<not> md_shouldBypassMention (resolveInboundMentionDecision f p)"
  by (auto simp: resolveInboundMentionDecision_def resolveMentionDecisionCore_def Let_def)

lemma mention_bypass_iff:
  "md_shouldBypassMention (resolveInboundMentionDecision f p) \<longleftrightarrow>
     mp_isGroup p \<and> mp_requireMention p \<and> \<not> mf_wasMentioned f \<and> mf_hasAnyMention f \<noteq> Some True
     \<and> mp_allowTextCommands p \<and> mp_commandAuthorized p \<and> mp_hasControlCommand p"
  by (cases "mf_hasAnyMention f")
     (auto simp: resolveInboundMentionDecision_def resolveMentionDecisionCore_def Let_def)

lemma mergeDmAllowFromSources_store_ignored:
  "p \<in> {''allowlist'', ''open''} \<Longrightarrow>
   mergeDmAllowFromSources allow store (Some p) = normalizeStringEntries (Some (nullish allow []))"
  by (auto simp: mergeDmAllowFromSources_def)

lemma parseAccessGroup_clean:
  "parseAccessGroupAllowFromEntry e = Some n \<Longrightarrow> clean_string n"
  by (auto simp: parseAccessGroupAllowFromEntry_def clean_string_def Let_def split: if_splits)

lemma parseAccessGroup_roundtrip:
  assumes "clean_string n"
  shows "parseAccessGroupAllowFromEntry (ACCESS_GROUP_ALLOW_FROM_PREFIX @ n) = Some n"
proof -
  let ?p = "ACCESS_GROUP_ALLOW_FROM_PREFIX"
  have n: "n \<noteq> []" "js_trim n = n" using assms by (auto simp: clean_string_def)
  then have "\<not> js_space (last n)" using js_trim_ends(2) [of n] by simp
  then have "js_trimEnd (?p @ n) = ?p @ n" using n by (intro js_trimEnd_id) simp
  moreover have "js_trimStart (?p @ n) = ?p @ n"
    by (rule js_trimStart_id) (simp add: ACCESS_GROUP_ALLOW_FROM_PREFIX_def js_space_def)
  ultimately have "js_trim (?p @ n) = ?p @ n" by (simp add: js_trim_def)
  with n show ?thesis by (simp add: parseAccessGroupAllowFromEntry_def Let_def)
qed

end
