(* ===== verification/Access_Decision.thy ===== *)
theory Access_Decision
  imports Access_Gating
begin

text \<open>
  The decision graph of channel ingress: \<open>allowlist.ts\<close>, \<open>sender-gates.ts\<close> and
  \<open>decision.ts\<close> of \<open>src/channels/message-access\<close>. \<open>decideChannelIngress\<close>
  runs the route, sender, command, event and activation gates in the source's order and returns
  the first decisive gate with the gates evaluated so far.
\<close>

subsection \<open>allowlist.ts\<close>

definition allowlistFailureReason :: "resolved_allowlist \<Rightarrow> reason_code option" where
  "allowlistFailureReason allowlist =
     (if length (ag_failed (al_accessGroups allowlist)) > 0 then Some R_access_group_failed
      else if length (ag_unsupported (al_accessGroups allowlist)) > 0
      then Some R_access_group_unsupported
      else if length (ag_missing (al_accessGroups allowlist)) > 0 then Some R_access_group_missing
      else None)"

definition redactedAllowlistDiagnostics :: "resolved_allowlist \<Rightarrow> reason_code \<Rightarrow> allowlist_facts" where
  "redactedAllowlistDiagnostics allowlist reasonCode =
     \<lparr>af_configured = al_hasConfiguredEntries allowlist,
      af_matched = m_matched (al_match allowlist),
      af_reasonCode = reasonCode,
      af_matchedEntryIds = al_matchedEntryIds allowlist,
      af_invalidEntryCount = length (al_invalidEntries allowlist),
      af_disabledEntryCount = length (al_disabledEntries allowlist),
      af_accessGroups = al_accessGroups allowlist\<rparr>"

definition mergeResolvedAllowlists :: "resolved_allowlist list \<Rightarrow> resolved_allowlist" where
  "mergeResolvedAllowlists allowlists =
     (let matches = map al_match allowlists;
          matchedEntryIds = uniqueStrings (concat (map al_matchedEntryIds allowlists));
          collect = (\<lambda>field. uniqueStrings (concat (map (field \<circ> al_accessGroups) allowlists)))
      in \<lparr>al_rawEntryCount = foldl (\<lambda>s allowlist. s + al_rawEntryCount allowlist) 0 allowlists,
          al_normalizedEntries = concat (map al_normalizedEntries allowlists),
          al_invalidEntries = concat (map al_invalidEntries allowlists),
          al_disabledEntries = concat (map al_disabledEntries allowlists),
          al_matchedEntryIds = matchedEntryIds,
          al_hasConfiguredEntries = list_ex al_hasConfiguredEntries allowlists,
          al_hasMatchableEntries = list_ex al_hasMatchableEntries allowlists,
          al_hasWildcard = list_ex al_hasWildcard allowlists,
          al_accessGroups =
            \<lparr>ag_referenced = collect ag_referenced, ag_matched = collect ag_matched,
             ag_missing = collect ag_missing, ag_unsupported = collect ag_unsupported,
             ag_failed = collect ag_failed\<rparr>,
          al_match =
            \<lparr>m_matched = list_ex m_matched matches \<or> length matchedEntryIds > 0,
             m_matchedEntryIds = matchedEntryIds\<rparr>\<rparr>)"

abbreviation entry_dangerous :: "normalized_entry \<Rightarrow> bool" where
  "entry_dangerous e \<equiv> truthy (ne_dangerous e)"

definition applyMutableIdentifierPolicy ::
  "resolved_allowlist \<Rightarrow> ingress_policy \<Rightarrow> resolved_allowlist" where
  "applyMutableIdentifierPolicy allowlist policy =
     (if pol_mutableIdentifierMatching policy = Some MutableEnabled then allowlist
      else (let dangerousEntryIds =
        js_set_of (map ne_opaqueEntryId (filter entry_dangerous (al_normalizedEntries allowlist))) in
        if length dangerousEntryIds = 0 then allowlist
        else (let matchedEntryIds =
              filter (\<lambda>i. i \<notin> set dangerousEntryIds) (al_matchedEntryIds allowlist);
            disabledEntries =
              al_disabledEntries allowlist
              @ map (\<lambda>entry. \<lparr>ed_opaqueEntryId = Some (ne_opaqueEntryId entry),
                              ed_reasonCode = R_mutable_identifier_disabled\<rparr>)
                  (filter entry_dangerous (al_normalizedEntries allowlist))
          in allowlist\<lparr>
               al_disabledEntries := disabledEntries,
               al_matchedEntryIds := matchedEntryIds,
               al_hasMatchableEntries :=
                 list_ex (\<lambda>entry. \<not> entry_dangerous entry) (al_normalizedEntries allowlist),
               al_match := \<lparr>m_matched = length matchedEntryIds > 0,
                            m_matchedEntryIds = matchedEntryIds\<rparr>\<rparr>)))"

text \<open>One iteration of the loop over the route facts in \<open>effectiveGroupSenderAllowlist\<close>.\<close>

definition applyRouteSender :: "resolved_allowlist \<Rightarrow> resolved_route \<Rightarrow> resolved_allowlist" where
  "applyRouteSender effective route =
     (case rr_senderAllowlist route of
        None \<Rightarrow> effective
      | Some senderAllowlist \<Rightarrow>
          if rr_gate route \<noteq> GateMatched then effective
          else if rr_senderPolicy route = SpInherit
          then mergeResolvedAllowlists [effective, senderAllowlist]
          else senderAllowlist)"

definition effectiveGroupSenderAllowlist :: "ingress_state \<Rightarrow> ingress_policy \<Rightarrow> resolved_allowlist" where
  "effectiveGroupSenderAllowlist state policy =
     (let initial =
        (if truthy (pol_groupAllowFromFallbackToAllowFrom policy)
            \<and> \<not> al_hasConfiguredEntries (sl_group (st_allowlists state))
         then sl_dm (st_allowlists state) else sl_group (st_allowlists state))
      in applyMutableIdentifierPolicy (foldl applyRouteSender initial (st_routeFacts state)) policy)"

subsection \<open>sender-gates.ts\<close>

definition senderGate ::
  "string \<Rightarrow> gate_kind \<Rightarrow> gate_effect \<Rightarrow> bool \<Rightarrow> reason_code \<Rightarrow> ingress_match \<Rightarrow> sender_policy
   \<Rightarrow> resolved_allowlist \<Rightarrow> gate" where
  "senderGate i kind effect allowed reasonCode match policy allowlistSource =
     \<lparr>g_id = i, g_phase = PhSender, g_kind = kind, g_effect = effect, g_allowed = allowed,
      g_reasonCode = reasonCode, g_match = Some match,
      g_allowlist = Some (redactedAllowlistDiagnostics allowlistSource reasonCode),
      g_sender = Some policy, g_command = None, g_event = None, g_activation = None\<rparr>"

definition senderGateForDirect :: "ingress_state \<Rightarrow> ingress_policy \<Rightarrow> gate" where
  "senderGateForDirect state policy =
     (let dm = applyMutableIdentifierPolicy (sl_dm (st_allowlists state)) policy;
          pairingStore = applyMutableIdentifierPolicy (sl_pairingStore (st_allowlists state)) policy;
          dmPolicy = pol_dmPolicy policy;
          allow = (\<lambda>reasonCode. senderGate ''sender:dm'' K_dmSender EffAllow True reasonCode
                     (al_match dm) (SenderDm dmPolicy) dm);
          block = (\<lambda>reasonCode. senderGate ''sender:dm'' K_dmSender EffBlockDispatch False reasonCode
                     (al_match dm) (SenderDm dmPolicy) dm)
      in if dmPolicy = DmDisabled then block R_dm_policy_disabled
         else if dmPolicy = DmOpen then
           (if al_hasWildcard dm then allow R_dm_policy_open
            else if m_matched (al_match dm) then allow R_dm_policy_allowlisted
            else block R_dm_policy_not_allowlisted)
         else if m_matched (al_match dm) then allow R_dm_policy_allowlisted
         else if dmPolicy = DmPairing \<and> m_matched (al_match pairingStore) then
           senderGate ''sender:dm'' K_dmSender EffAllow True R_dm_policy_allowlisted
             (al_match pairingStore) (SenderDm dmPolicy) pairingStore
         else if dmPolicy = DmPairing \<and> ev_mayPair (st_event state) then
           block R_dm_policy_pairing_required
         else block (if dmPolicy = DmPairing then R_event_pairing_not_allowed
                     else nullish (allowlistFailureReason dm) R_dm_policy_not_allowlisted))"

definition senderGateForGroup :: "ingress_state \<Rightarrow> ingress_policy \<Rightarrow> gate" where
  "senderGateForGroup state policy =
     (let group = effectiveGroupSenderAllowlist state policy;
          groupPolicy = pol_groupPolicy policy;
          allow = (\<lambda>reasonCode. senderGate ''sender:group'' K_groupSender EffAllow True reasonCode
                     (al_match group) (SenderGroup groupPolicy) group);
          block = (\<lambda>reasonCode. senderGate ''sender:group'' K_groupSender EffBlockDispatch False
                     reasonCode (al_match group) (SenderGroup groupPolicy) group)
      in if groupPolicy = GroupDisabled then block R_group_policy_disabled
         else if groupPolicy = GroupOpen then allow R_group_policy_open
         else if \<not> al_hasConfiguredEntries group then block R_group_policy_empty_allowlist
         else if m_matched (al_match group) then allow R_group_policy_allowed
         else block (nullish (allowlistFailureReason group) R_group_policy_not_allowlisted))"

definition applyEventAuthModeToSenderGate :: "ingress_state \<Rightarrow> gate \<Rightarrow> gate" where
  "applyEventAuthModeToSenderGate state senderGate' =
     (if ev_authMode (st_event state) = AuthInbound \<or> g_allowed senderGate' then senderGate'
      else senderGate'\<lparr>
        g_effect := EffIgnore, g_allowed := True, g_reasonCode := R_sender_not_required,
        g_allowlist :=
          map_option (\<lambda>facts. facts\<lparr>af_reasonCode := R_sender_not_required\<rparr>)
            (g_allowlist senderGate')\<rparr>)"

subsection \<open>decision.ts\<close>

definition decisiveDecision ::
  "admission \<Rightarrow> decision_kind \<Rightarrow> gate \<Rightarrow> gate list \<Rightarrow> ingress_decision" where
  "decisiveDecision adm dec gate gates =
     \<lparr>d_admission = adm, d_decision = dec, d_decisiveGateId = g_id gate,
      d_reasonCode = g_reasonCode gate, d_gates = gates\<rparr>"

fun gate_kind_of_route :: "route_kind \<Rightarrow> gate_kind" where
  "gate_kind_of_route RkRoute = K_route"
| "gate_kind_of_route RkRouteSender = K_routeSender"
| "gate_kind_of_route RkMembership = K_membership"
| "gate_kind_of_route RkOwnerAllowlist = K_ownerAllowlist"
| "gate_kind_of_route RkNestedAllowlist = K_nestedAllowlist"

fun gate_effect_of_route :: "route_effect \<Rightarrow> gate_effect" where
  "gate_effect_of_route ReAllow = EffAllow"
| "gate_effect_of_route ReBlockDispatch = EffBlockDispatch"
| "gate_effect_of_route ReIgnore = EffIgnore"

definition routeGates :: "ingress_state \<Rightarrow> gate list" where
  "routeGates state =
     map (\<lambda>route. \<lparr>g_id = rr_id route, g_phase = PhRoute,
           g_kind = gate_kind_of_route (rr_kind route),
           g_effect = gate_effect_of_route (rr_effect route),
           g_allowed = (rr_effect route \<noteq> ReBlockDispatch),
           g_reasonCode =
             (if rr_effect route = ReBlockDispatch then R_route_blocked else R_allowed),
           g_match = rr_match route, g_allowlist = None, g_sender = None, g_command = None,
           g_event = None, g_activation = None\<rparr>)
       (st_routeFacts state)"

definition routeSenderEmptyGate :: "ingress_state \<Rightarrow> gate option" where
  "routeSenderEmptyGate state =
     map_option (\<lambda>route.
         \<lparr>g_id = rr_id route @ '':sender'', g_phase = PhRoute, g_kind = K_routeSender,
          g_effect = EffBlockDispatch, g_allowed = False, g_reasonCode = R_route_sender_empty,
          g_match = rr_match route,
          g_allowlist =
            map_option (\<lambda>al. redactedAllowlistDiagnostics al R_route_sender_empty)
              (rr_senderAllowlist route),
          g_sender = None, g_command = None, g_event = None, g_activation = None\<rparr>)
       (find (\<lambda>fact. rr_senderPolicy fact = SpDenyWhenEmpty \<and> rr_gate fact = GateMatched
                \<and> \<not> truthy (map_option al_hasConfiguredEntries (rr_senderAllowlist fact)))
          (st_routeFacts state))"

definition mergeCommandMatch :: "ingress_match \<Rightarrow> ingress_match \<Rightarrow> ingress_match" where
  "mergeCommandMatch owner grp =
     (let matchedEntryIds = uniqueStrings (m_matchedEntryIds owner @ m_matchedEntryIds grp)
      in \<lparr>m_matched = m_matched owner \<or> m_matched grp \<or> length matchedEntryIds > 0,
          m_matchedEntryIds = matchedEntryIds\<rparr>)"

definition commandGate :: "ingress_state \<Rightarrow> ingress_policy \<Rightarrow> gate" where
  "commandGate state policy =
     (case pol_command policy of
        None \<Rightarrow>
          \<lparr>g_id = ''command'', g_phase = PhCommand, g_kind = K_command, g_effect = EffAllow,
           g_allowed = True, g_reasonCode = R_command_authorized, g_match = None,
           g_allowlist = None, g_sender = None, g_command = None, g_event = None,
           g_activation = None\<rparr>
      | Some command \<Rightarrow>
          (let useAccessGroups = nullish (cp_useAccessGroups command) True;
               owner = applyMutableIdentifierPolicy (sl_commandOwner (st_allowlists state)) policy;
               group = applyMutableIdentifierPolicy (sl_commandGroup (st_allowlists state)) policy;
               authorized = resolveCommandAuthorizedFromAuthorizers useAccessGroups
                 [\<lparr>ca_configured = al_hasConfiguredEntries owner, ca_allowed = m_matched (al_match owner)\<rparr>,
                  \<lparr>ca_configured = al_hasConfiguredEntries group, ca_allowed = m_matched (al_match group)\<rparr>]
                 (cp_modeWhenAccessGroupsOff command);
               shouldBlock = cp_allowTextCommands command \<and> cp_hasControlCommand command \<and> \<not> authorized
           in \<lparr>g_id = ''command'', g_phase = PhCommand, g_kind = K_command,
               g_effect = (if shouldBlock then EffBlockCommand else EffAllow),
               g_allowed = authorized,
               g_reasonCode =
                 (if shouldBlock then R_control_command_unauthorized else R_command_authorized),
               g_match = Some (mergeCommandMatch (al_match owner) (al_match group)),
               g_allowlist = None, g_sender = None,
               g_command = Some \<lparr>cf_useAccessGroups = useAccessGroups,
                 cf_allowTextCommands = cp_allowTextCommands command,
                 cf_modeWhenAccessGroupsOff = cp_modeWhenAccessGroupsOff command,
                 cf_shouldBlockControlCommand = shouldBlock\<rparr>,
               g_event = None, g_activation = None\<rparr>))"

definition eventGate :: "ingress_state \<Rightarrow> gate \<Rightarrow> gate \<Rightarrow> gate" where
  "eventGate state senderGate' commandGate' =
     (let event = st_event state;
          eventResult = (\<lambda>allowed reasonCode.
            \<lparr>g_id = ''event'', g_phase = PhEvent, g_kind = K_event,
             g_effect = (if allowed then EffAllow else EffBlockDispatch), g_allowed = allowed,
             g_reasonCode = reasonCode, g_match = None, g_allowlist = None, g_sender = None,
             g_command = None, g_event = Some event, g_activation = None\<rparr>)
      in case ev_authMode event of
           AuthNone \<Rightarrow> eventResult True R_event_authorized
         | AuthRouteOnly \<Rightarrow> eventResult True R_event_authorized
         | AuthCommand \<Rightarrow>
             eventResult (g_allowed commandGate')
               (if g_allowed commandGate' then R_event_authorized else R_event_unauthorized)
         | AuthOriginSubject \<Rightarrow>
             if \<not> ev_hasOriginSubject event then eventResult False R_origin_subject_missing
             else eventResult (ev_originSubjectMatched event)
                    (if ev_originSubjectMatched event then R_event_authorized
                     else R_origin_subject_not_matched)
         | AuthInbound \<Rightarrow>
             eventResult (g_allowed senderGate')
               (if g_allowed senderGate' then R_event_authorized else R_event_unauthorized))"

definition resolveAllowedImplicitMentionKinds ::
  "activation_policy option \<Rightarrow> implicit_mention_kind list option" where
  "resolveAllowedImplicitMentionKinds activation =
     nullish_or (Option.bind activation ap_allowedImplicitMentionKinds)
       (map_option allowedImplicitMentionKindsFromConfig (Option.bind activation ap_implicitMentions))"

definition activationMetadata ::
  "activation_policy option \<Rightarrow> mention_facts option \<Rightarrow> bool \<Rightarrow> bool option \<Rightarrow> bool option
   \<Rightarrow> activation_facts" where
  "activationMetadata activation mentionFacts shouldSkip effectiveWasMentioned shouldBypassMention =
     \<lparr>act_hasMentionFacts = (mentionFacts \<noteq> None),
      act_requireMention = nullish (map_option ap_requireMention activation) False,
      act_allowTextCommands = nullish (map_option ap_allowTextCommands activation) False,
      act_allowedImplicitMentionKinds = resolveAllowedImplicitMentionKinds activation,
      act_order = Option.bind activation ap_order,
      act_shouldSkip = shouldSkip,
      act_canDetectMention = map_option mf_canDetectMention mentionFacts,
      act_wasMentioned = map_option mf_wasMentioned mentionFacts,
      act_hasAnyMention = Option.bind mentionFacts mf_hasAnyMention,
      act_implicitMentionKinds = Option.bind mentionFacts mf_implicitMentionKinds,
      act_effectiveWasMentioned = effectiveWasMentioned,
      act_shouldBypassMention = shouldBypassMention\<rparr>"

definition activationGate :: "ingress_state \<Rightarrow> ingress_policy \<Rightarrow> gate \<Rightarrow> gate" where
  "activationGate state policy commandGate' =
     (let activation = pol_activation policy;
          mentionFacts = st_mentionFacts state;
          allowedImplicitMentionKinds = resolveAllowedImplicitMentionKinds activation;
          activationResult = (\<lambda>shouldSkip effectiveWasMentioned shouldBypassMention.
            \<lparr>g_id = ''activation'', g_phase = PhActivation, g_kind = K_mention,
             g_effect = (if shouldSkip then EffSkip else EffAllow),
             g_allowed = (\<not> shouldSkip),
             g_reasonCode = (if shouldSkip then R_activation_skipped else R_activation_allowed),
             g_match = None, g_allowlist = None, g_sender = None, g_command = None, g_event = None,
             g_activation = Some (activationMetadata activation mentionFacts shouldSkip
               effectiveWasMentioned shouldBypassMention)\<rparr>)
      in case (activation, mentionFacts) of
           (Some act, Some facts) \<Rightarrow>
             (let result = resolveInboundMentionDecision facts
                \<lparr>mp_isGroup = (st_conversationKind state \<noteq> ConvDirect),
                 mp_requireMention = ap_requireMention act,
                 mp_implicitMentions = None,
                 mp_allowedImplicitMentionKinds = allowedImplicitMentionKinds,
                 mp_allowTextCommands = ap_allowTextCommands act,
                 mp_hasControlCommand =
                   nullish (map_option cp_hasControlCommand (pol_command policy)) False,
                 mp_commandAuthorized = g_allowed commandGate'\<rparr>
              in activationResult (md_shouldSkip result) (Some (md_effectiveWasMentioned result))
                   (Some (md_shouldBypassMention result)))
         | _ \<Rightarrow>
             activationResult False
               (map_option (\<lambda>facts. mf_wasMentioned facts
                   \<or> nullish (mf_implicitMentionKinds facts) [] \<noteq> []) mentionFacts)
               None)"

text \<open>The gates that run after the sender gate has passed: command, event, activation.\<close>

definition decideAfterSender ::
  "ingress_state \<Rightarrow> ingress_policy \<Rightarrow> gate option \<Rightarrow> gate \<Rightarrow> gate list \<Rightarrow> ingress_decision" where
  "decideAfterSender state policy activationBeforeSender eventModeSender gates =
     (let command = commandGate state policy;
          gates1 = gates @ [command]
      in if g_effect command = EffBlockCommand
         then decisiveDecision AdmDrop DecBlock command gates1
         else (let event = eventGate state eventModeSender command;
                   gates2 = gates1 @ [event]
           in if \<not> g_allowed event then decisiveDecision AdmDrop DecBlock event gates2
              else (let activation = nullish activationBeforeSender (activationGate state policy command);
                        gates3 = (if activationBeforeSender = None then gates2 @ [activation] else gates2)
                in if g_effect activation = EffSkip
                   then decisiveDecision AdmSkip DecAllow activation gates3
                   else if g_effect activation = EffObserve
                   then decisiveDecision AdmObserve DecAllow activation gates3
                   else decisiveDecision AdmDispatch DecAllow activation gates3)))"

definition activationBeforeSenderGate :: "ingress_state \<Rightarrow> ingress_policy \<Rightarrow> gate option" where
  "activationBeforeSenderGate state policy =
     (case pol_activation policy of
        None \<Rightarrow> None
      | Some act \<Rightarrow>
          if ap_order act = Some BeforeSender \<and> \<not> ap_allowTextCommands act
          then Some (activationGate state policy (commandGate state (policy\<lparr>pol_command := None\<rparr>)))
          else None)"

text \<open>The sender gate with the event's authorization mode applied.\<close>

definition eventModeSenderGate :: "ingress_state \<Rightarrow> ingress_policy \<Rightarrow> gate" where
  "eventModeSenderGate state policy =
     applyEventAuthModeToSenderGate state
       (if st_conversationKind state = ConvDirect then senderGateForDirect state policy
        else senderGateForGroup state policy)"

definition decideFromSender ::
  "ingress_state \<Rightarrow> ingress_policy \<Rightarrow> gate option \<Rightarrow> gate list \<Rightarrow> ingress_decision" where
  "decideFromSender state policy activationBeforeSender gates =
     (let eventModeSender = eventModeSenderGate state policy;
          gates1 = gates @ [eventModeSender]
      in if \<not> g_allowed eventModeSender then
           (let pairing = (g_reasonCode eventModeSender = R_dm_policy_pairing_required)
            in decisiveDecision (if pairing then AdmPairingRequired else AdmDrop)
                 (if pairing then DecPairing else DecBlock) eventModeSender gates1)
         else decideAfterSender state policy activationBeforeSender eventModeSender gates1)"

definition decideChannelIngress :: "ingress_state \<Rightarrow> ingress_policy \<Rightarrow> ingress_decision" where
  "decideChannelIngress state policy =
     (let gates0 = routeGates state
            @ (case routeSenderEmptyGate state of Some gate \<Rightarrow> [gate] | None \<Rightarrow> [])
      in case find (\<lambda>entry. g_effect entry = EffBlockDispatch) gates0 of
           Some routeBlock \<Rightarrow> decisiveDecision AdmDrop DecBlock routeBlock gates0
         | None \<Rightarrow>
           (let activationBeforeSender = activationBeforeSenderGate state policy;
                gates1 = gates0
                  @ (case activationBeforeSender of Some gate \<Rightarrow> [gate] | None \<Rightarrow> [])
            in case activationBeforeSender of
                 Some gate \<Rightarrow>
                   if g_effect gate = EffSkip then decisiveDecision AdmSkip DecAllow gate gates1
                   else decideFromSender state policy activationBeforeSender gates1
               | None \<Rightarrow> decideFromSender state policy activationBeforeSender gates1))"

subsection \<open>Projections of the gates\<close>

lemma senderGate_simps [simp]:
  "g_phase (senderGate i k e a r m p al) = PhSender" "g_effect (senderGate i k e a r m p al) = e"
  "g_allowed (senderGate i k e a r m p al) = a" "g_reasonCode (senderGate i k e a r m p al) = r"
  "g_match (senderGate i k e a r m p al) = Some m" "g_kind (senderGate i k e a r m p al) = k"
  "g_id (senderGate i k e a r m p al) = i"
  by (simp_all add: senderGate_def)

lemma decisiveDecision_simps [simp]:
  "d_admission (decisiveDecision a d g gs) = a" "d_decision (decisiveDecision a d g gs) = d"
  "d_decisiveGateId (decisiveDecision a d g gs) = g_id g"
  "d_reasonCode (decisiveDecision a d g gs) = g_reasonCode g"
  "d_gates (decisiveDecision a d g gs) = gs"
  by (simp_all add: decisiveDecision_def)

subsection \<open>What the policy authorizes\<close>

text \<open>The authorization rules, stated on the configured lists and the event alone: no gate, no
  rewritten allowlist and none of the decision helpers occurs in them.

  \<open>admits pol als\<close>: the sender is admitted by the lists \<open>als\<close> taken together. Mutable
  identifiers count only where the policy enables them: otherwise, as soon as one of the lists has
  an entry on a mutable identifier, some matched entry has to be none of those.\<close>

definition mutable_entry_id :: "resolved_allowlist list \<Rightarrow> string \<Rightarrow> bool" where
  "mutable_entry_id als i \<longleftrightarrow>
     (\<exists>al\<in>set als. \<exists>e\<in>set (al_normalizedEntries al). ne_dangerous e = Some True \<and> ne_opaqueEntryId e = i)"

definition admits :: "ingress_policy \<Rightarrow> resolved_allowlist list \<Rightarrow> bool" where
  "admits pol als \<longleftrightarrow>
     (if pol_mutableIdentifierMatching pol = Some MutableEnabled \<or> \<not> (\<exists>i. mutable_entry_id als i)
      then (\<exists>al\<in>set als. m_matched (al_match al))
           \<or> (1 < length als \<and> (\<exists>al\<in>set als. al_matchedEntryIds al \<noteq> []))
      else (\<exists>al\<in>set als. \<exists>i\<in>set (al_matchedEntryIds al). \<not> mutable_entry_id als i))"

definition dm_sender_authorized :: "ingress_state \<Rightarrow> ingress_policy \<Rightarrow> bool" where
  "dm_sender_authorized st pol =
     (case pol_dmPolicy pol of
        DmDisabled \<Rightarrow> False
      | DmOpen \<Rightarrow> al_hasWildcard (sl_dm (st_allowlists st)) \<or> admits pol [sl_dm (st_allowlists st)]
      | DmAllowlist \<Rightarrow> admits pol [sl_dm (st_allowlists st)]
      | DmPairing \<Rightarrow> admits pol [sl_dm (st_allowlists st)]
                     \<or> admits pol [sl_pairingStore (st_allowlists st)])"

text \<open>The lists that rule over the senders of a group: the list of the last matched route that
  does not inherit, or the group's own list (the DM list where the policy falls back to it and the
  group has no entries) when there is none, with the lists of the inheriting routes after it.\<close>

definition route_sender_lists :: "resolved_route list \<Rightarrow> (route_sender_policy \<times> resolved_allowlist) list" where
  "route_sender_lists rs =
     [(rr_senderPolicy r, the (rr_senderAllowlist r)).
        r \<leftarrow> rs, rr_gate r = GateMatched \<and> rr_senderAllowlist r \<noteq> None]"

definition group_base_list :: "ingress_state \<Rightarrow> ingress_policy \<Rightarrow> resolved_allowlist" where
  "group_base_list st pol =
     (if pol_groupAllowFromFallbackToAllowFrom pol = Some True
         \<and> \<not> al_hasConfiguredEntries (sl_group (st_allowlists st))
      then sl_dm (st_allowlists st) else sl_group (st_allowlists st))"

definition ruling_lists ::
  "resolved_allowlist \<Rightarrow> (route_sender_policy \<times> resolved_allowlist) list \<Rightarrow> resolved_allowlist list" where
  "ruling_lists base ls =
     (let inherits = (\<lambda>l. fst l = SpInherit)
      in (case dropWhile inherits (rev ls) of [] \<Rightarrow> base | l # _ \<Rightarrow> snd l)
         # map snd (rev (takeWhile inherits (rev ls))))"

definition group_sender_authorized :: "ingress_state \<Rightarrow> ingress_policy \<Rightarrow> bool" where
  "group_sender_authorized st pol =
     (let lists = ruling_lists (group_base_list st pol) (route_sender_lists (st_routeFacts st))
      in case pol_groupPolicy pol of
           GroupDisabled \<Rightarrow> False
         | GroupOpen \<Rightarrow> True
         | GroupAllowlist \<Rightarrow> (\<exists>al\<in>set lists. al_hasConfiguredEntries al) \<and> admits pol lists)"

definition sender_authorized :: "ingress_state \<Rightarrow> ingress_policy \<Rightarrow> bool" where
  "sender_authorized st pol =
     (if st_conversationKind st = ConvDirect then dm_sender_authorized st pol
      else group_sender_authorized st pol)"

definition route_blocked :: "ingress_state \<Rightarrow> bool" where
  "route_blocked st \<longleftrightarrow>
     (\<exists>r\<in>set (st_routeFacts st). rr_effect r = ReBlockDispatch
        \<or> (rr_senderPolicy r = SpDenyWhenEmpty \<and> rr_gate r = GateMatched
           \<and> map_option al_hasConfiguredEntries (rr_senderAllowlist r) \<noteq> Some True))"

text \<open>Who may use commands: with access groups on (the default) a sender that a configured owner or
  group list admits; with access groups off everybody, nobody, or, in the mode \<open>configured\<close>,
  everybody until a list is configured. Without a command policy nothing is checked.\<close>

definition command_permitted :: "ingress_state \<Rightarrow> ingress_policy \<Rightarrow> bool" where
  "command_permitted st pol =
     (case pol_command pol of
        None \<Rightarrow> True
      | Some c \<Rightarrow>
          (let lists = [sl_commandOwner (st_allowlists st), sl_commandGroup (st_allowlists st)];
               listed = (\<exists>al\<in>set lists. al_hasConfiguredEntries al \<and> admits pol [al])
           in if cp_useAccessGroups c \<noteq> Some False then listed
              else if cp_modeWhenAccessGroupsOff c = Some ModeDeny then False
              else if cp_modeWhenAccessGroupsOff c = Some ModeConfigured
              then (\<forall>al\<in>set lists. \<not> al_hasConfiguredEntries al) \<or> listed
              else True))"

definition command_blocked :: "ingress_state \<Rightarrow> ingress_policy \<Rightarrow> bool" where
  "command_blocked st pol \<longleftrightarrow>
     (\<exists>c. pol_command pol = Some c \<and> cp_allowTextCommands c \<and> cp_hasControlCommand c)
     \<and> \<not> command_permitted st pol"

definition event_authorized :: "ingress_state \<Rightarrow> ingress_policy \<Rightarrow> bool" where
  "event_authorized st pol =
     (case ev_authMode (st_event st) of
        AuthInbound \<Rightarrow> sender_authorized st pol
      | AuthCommand \<Rightarrow> command_permitted st pol
      | AuthOriginSubject \<Rightarrow> ev_hasOriginSubject (st_event st) \<and> ev_originSubjectMatched (st_event st)
      | AuthRouteOnly \<Rightarrow> True
      | AuthNone \<Rightarrow> True)"

subsection \<open>The gates decide by the rules\<close>

text \<open>The allowlist \<open>al\<close> stands for the lists \<open>als\<close>: the same entries and matched entries.\<close>

definition stands_for :: "resolved_allowlist \<Rightarrow> resolved_allowlist list \<Rightarrow> bool" where
  "stands_for al als \<longleftrightarrow> als \<noteq> []
     \<and> set (al_normalizedEntries al) = \<Union> ((set \<circ> al_normalizedEntries) ` set als)
     \<and> set (al_matchedEntryIds al) = \<Union> ((set \<circ> al_matchedEntryIds) ` set als)
     \<and> (al_hasConfiguredEntries al \<longleftrightarrow> (\<exists>a\<in>set als. al_hasConfiguredEntries a))
     \<and> (m_matched (al_match al) \<longleftrightarrow> (\<exists>a\<in>set als. m_matched (al_match a))
          \<or> (1 < length als \<and> (\<exists>a\<in>set als. al_matchedEntryIds a \<noteq> [])))"

lemma stands_for_single [simp]: "stands_for al [al]"
  by (simp add: stands_for_def)

lemma stands_for_merge:
  assumes "stands_for al als"
  shows "stands_for (mergeResolvedAllowlists [al, a]) (als @ [a])"
proof -
  have ids: "al_matchedEntryIds al \<noteq> [] \<longleftrightarrow> (\<exists>a\<in>set als. al_matchedEntryIds a \<noteq> [])"
    using assms by (auto simp: stands_for_def simp flip: set_empty)
  show ?thesis
    using assms ids by (auto simp: stands_for_def mergeResolvedAllowlists_def Let_def)
qed

lemma ruling_lists_Nil [simp]: "ruling_lists base [] = [base]"
  by (simp add: ruling_lists_def)

lemma ruling_lists_snoc:
  "ruling_lists base (ls @ [(p, a)]) = (if p = SpInherit then ruling_lists base ls @ [a] else [a])"
  by (simp add: ruling_lists_def Let_def)

lemma route_sender_lists_snoc:
  "route_sender_lists (rs @ [r]) = route_sender_lists rs
     @ (case rr_senderAllowlist r of
          Some a \<Rightarrow> if rr_gate r = GateMatched then [(rr_senderPolicy r, a)] else []
        | None \<Rightarrow> [])"
  by (simp add: route_sender_lists_def split: option.split)

lemma stands_for_routes:
  "stands_for (foldl applyRouteSender base rs) (ruling_lists base (route_sender_lists rs))"
proof (induction rs rule: rev_induct)
  case Nil
  show ?case by (simp add: route_sender_lists_def)
next
  case (snoc r rs)
  then show ?case
    by (simp add: applyRouteSender_def route_sender_lists_snoc ruling_lists_snoc stands_for_merge
        split: option.split)
qed

lemma mutable_policy_keeps [simp]:
  "al_hasConfiguredEntries (applyMutableIdentifierPolicy al pol) = al_hasConfiguredEntries al"
  "al_hasWildcard (applyMutableIdentifierPolicy al pol) = al_hasWildcard al"
  by (simp_all add: applyMutableIdentifierPolicy_def Let_def)

lemma mutable_entry_ids:
  assumes "stands_for al als"
  shows "mutable_entry_id als i \<longleftrightarrow>
    i \<in> set (js_set_of (map ne_opaqueEntryId (filter entry_dangerous (al_normalizedEntries al))))"
  using assms by (auto simp: mutable_entry_id_def stands_for_def)

lemma matched_applyMutableIdentifierPolicy:
  assumes "stands_for al als"
  shows "m_matched (al_match (applyMutableIdentifierPolicy al pol)) \<longleftrightarrow> admits pol als"
proof -
  let ?dangerous = "js_set_of (map ne_opaqueEntryId (filter entry_dangerous (al_normalizedEntries al)))"
  have none: "(\<exists>i. mutable_entry_id als i) \<longleftrightarrow> ?dangerous \<noteq> []"
    unfolding mutable_entry_ids [OF assms] by (metis list.set_intros(1) neq_Nil_conv empty_iff list.set(1))
  have ids: "set (al_matchedEntryIds al) = (\<Union>a\<in>set als. set (al_matchedEntryIds a))"
    and matched: "m_matched (al_match al) \<longleftrightarrow> (\<exists>a\<in>set als. m_matched (al_match a))
        \<or> (1 < length als \<and> (\<exists>a\<in>set als. al_matchedEntryIds a \<noteq> []))"
    using assms by (simp_all add: stands_for_def)
  have rest: "filter (\<lambda>i. i \<notin> set ?dangerous) (al_matchedEntryIds al) \<noteq> [] \<longleftrightarrow>
      (\<exists>a\<in>set als. \<exists>i\<in>set (al_matchedEntryIds a). \<not> mutable_entry_id als i)"
    unfolding mutable_entry_ids [OF assms] filter_empty_conv ids by blast
  show ?thesis
    unfolding admits_def applyMutableIdentifierPolicy_def Let_def none
    using rest matched by (simp del: js_set_of_Nil_iff set_js_set_of)
qed

lemmas admits_single = matched_applyMutableIdentifierPolicy [OF stands_for_single]

lemma group_sender_list:
  "m_matched (al_match (effectiveGroupSenderAllowlist st pol)) \<longleftrightarrow>
     admits pol (ruling_lists (group_base_list st pol) (route_sender_lists (st_routeFacts st)))"
  "al_hasConfiguredEntries (effectiveGroupSenderAllowlist st pol) \<longleftrightarrow>
     (\<exists>al\<in>set (ruling_lists (group_base_list st pol) (route_sender_lists (st_routeFacts st))).
        al_hasConfiguredEntries al)"
  using stands_for_routes [of "group_base_list st pol" "st_routeFacts st"]
  by (simp_all add: effectiveGroupSenderAllowlist_def Let_def matched_applyMutableIdentifierPolicy
      flip: group_base_list_def) (simp add: stands_for_def)

lemma g_allowed_commandGate: "g_allowed (commandGate st pol) = command_permitted st pol"
  by (auto simp: commandGate_def command_permitted_def command_authorized_iff admits_single Let_def
      nullish_def split: option.split command_gating_mode.split)

lemma g_allowed_senderGateForDirect [simp]:
  "g_allowed (senderGateForDirect st pol) = dm_sender_authorized st pol"
  by (auto simp: senderGateForDirect_def dm_sender_authorized_def admits_single Let_def
      split: dm_policy.splits)

lemma g_allowed_senderGateForGroup [simp]:
  "g_allowed (senderGateForGroup st pol) = group_sender_authorized st pol"
  by (auto simp: senderGateForGroup_def group_sender_authorized_def group_sender_list Let_def
      split: group_policy.splits)

lemma g_allowed_eventModeSenderGate:
  "g_allowed (eventModeSenderGate st pol) \<longleftrightarrow>
     ev_authMode (st_event st) \<noteq> AuthInbound \<or> sender_authorized st pol"
  by (simp add: eventModeSenderGate_def applyEventAuthModeToSenderGate_def sender_authorized_def)

lemma allowlistFailureReason_range:
  "allowlistFailureReason al \<in>
     {None, Some R_access_group_failed, Some R_access_group_unsupported, Some R_access_group_missing}"
  by (simp add: allowlistFailureReason_def)

lemma failure_reason_not_pairing [simp]:
  "nullish (allowlistFailureReason al) R_dm_policy_not_allowlisted \<noteq> R_dm_policy_pairing_required"
  "nullish (allowlistFailureReason al) R_group_policy_not_allowlisted \<noteq> R_dm_policy_pairing_required"
  by (simp_all add: allowlistFailureReason_def)

lemma pairing_reason_direct:
  "g_reasonCode (senderGateForDirect st pol) = R_dm_policy_pairing_required \<longleftrightarrow>
     pol_dmPolicy pol = DmPairing \<and> \<not> dm_sender_authorized st pol \<and> ev_mayPair (st_event st)"
  by (auto simp: senderGateForDirect_def dm_sender_authorized_def admits_single Let_def
      split: dm_policy.splits)

lemma pairing_reason_group [simp]:
  "g_reasonCode (senderGateForGroup st pol) \<noteq> R_dm_policy_pairing_required"
  by (auto simp: senderGateForGroup_def Let_def)

lemma pairing_reason_eventMode:
  "g_reasonCode (eventModeSenderGate st pol) = R_dm_policy_pairing_required \<longleftrightarrow>
     ev_authMode (st_event st) = AuthInbound \<and> st_conversationKind st = ConvDirect
     \<and> pol_dmPolicy pol = DmPairing \<and> \<not> dm_sender_authorized st pol \<and> ev_mayPair (st_event st)"
  by (auto simp: eventModeSenderGate_def applyEventAuthModeToSenderGate_def pairing_reason_direct
      split: if_splits)

lemma gate_effect_of_route_block [simp]:
  "gate_effect_of_route e = EffBlockDispatch \<longleftrightarrow> e = ReBlockDispatch"
  by (cases e) simp_all

lemma routeSenderEmptyGate_None_iff:
  "routeSenderEmptyGate st = None \<longleftrightarrow>
     \<not> (\<exists>r\<in>set (st_routeFacts st). rr_senderPolicy r = SpDenyWhenEmpty \<and> rr_gate r = GateMatched
           \<and> map_option al_hasConfiguredEntries (rr_senderAllowlist r) \<noteq> Some True)"
  by (auto simp: routeSenderEmptyGate_def find_None_iff)

lemma routeSenderEmptyGate_effect:
  "routeSenderEmptyGate st = Some gate \<Longrightarrow> g_effect gate = EffBlockDispatch \<and> \<not> g_allowed gate
     \<and> g_phase gate = PhRoute"
  by (auto simp: routeSenderEmptyGate_def)

lemma find_block_iff:
  "find (\<lambda>entry. g_effect entry = EffBlockDispatch)
     (routeGates st @ (case routeSenderEmptyGate st of Some gate \<Rightarrow> [gate] | None \<Rightarrow> [])) = None
   \<longleftrightarrow> \<not> route_blocked st"
proof (cases "routeSenderEmptyGate st")
  case None
  have "route_blocked st \<longleftrightarrow> (\<exists>r\<in>set (st_routeFacts st). rr_effect r = ReBlockDispatch)"
    unfolding route_blocked_def bex_disj_distrib
    using None [unfolded routeSenderEmptyGate_None_iff] by (simp only: simp_thms)
  with None show ?thesis by (simp add: find_None_iff routeGates_def)
next
  case (Some gate)
  then have "routeSenderEmptyGate st \<noteq> None" by simp
  then have "route_blocked st"
    unfolding routeSenderEmptyGate_None_iff route_blocked_def by blast
  with Some routeSenderEmptyGate_effect [OF Some] show ?thesis
    by (auto simp add: find_None_iff)
qed

lemma g_effect_commandGate:
  "g_effect (commandGate st pol) = EffBlockCommand \<longleftrightarrow> command_blocked st pol"
  unfolding command_blocked_def g_allowed_commandGate [symmetric]
  by (auto simp: commandGate_def Let_def split: option.splits)

lemma g_allowed_eventGate:
  "g_allowed s \<longleftrightarrow> ev_authMode (st_event st) \<noteq> AuthInbound \<or> sender_authorized st pol \<Longrightarrow>
   g_allowed (eventGate st s (commandGate st pol)) = event_authorized st pol"
  by (auto simp: eventGate_def event_authorized_def g_allowed_commandGate Let_def
      split: auth_mode.splits)

lemma g_effect_activationGate [simp]:
  "g_effect (activationGate st pol c) \<noteq> EffObserve"
  "g_effect (activationGate st pol c) \<noteq> EffBlockDispatch"
  "g_effect (activationGate st pol c) \<noteq> EffBlockCommand"
  by (auto simp: activationGate_def Let_def split: option.splits)

subsection \<open>The admission the policy prescribes\<close>

text \<open>The mention requirement skips the event: it applies, mentions can be detected, and there
  was neither a mention, nor an allowed implicit one, nor an authorized control command.\<close>

definition implicit_mention_counts :: "activation_policy \<Rightarrow> implicit_mention_kind \<Rightarrow> bool" where
  "implicit_mention_counts act k =
     (case (ap_allowedImplicitMentionKinds act, ap_implicitMentions act) of
        (Some kinds, _) \<Rightarrow> k \<in> set kinds
      | (None, None) \<Rightarrow> True
      | (None, Some config) \<Rightarrow>
          (case k of
             ReplyToBot \<Rightarrow> im_replyToBot config \<noteq> Some False
           | QuotedBot \<Rightarrow> im_quotedBot config \<noteq> Some False
           | BotThreadParticipant \<Rightarrow> im_threadParticipation config \<noteq> Some False
           | NativeMention \<Rightarrow> True))"

definition mention_skips :: "ingress_state \<Rightarrow> ingress_policy \<Rightarrow> bool \<Rightarrow> bool" where
  "mention_skips st pol commandAuthorized \<longleftrightarrow>
     (\<exists>act facts. pol_activation pol = Some act \<and> st_mentionFacts st = Some facts
        \<and> ap_requireMention act \<and> mf_canDetectMention facts \<and> \<not> mf_wasMentioned facts
        \<and> \<not> (\<exists>kinds. mf_implicitMentionKinds facts = Some kinds
             \<and> (\<exists>k\<in>set kinds. implicit_mention_counts act k))
        \<and> \<not> (st_conversationKind st \<noteq> ConvDirect \<and> mf_hasAnyMention facts \<noteq> Some True
             \<and> ap_allowTextCommands act \<and> commandAuthorized
             \<and> (\<exists>c. pol_command pol = Some c \<and> cp_hasControlCommand c)))"

lemma nullish_map_False [simp]: "nullish (map_option f x) False \<longleftrightarrow> (\<exists>c. x = Some c \<and> f c)"
  by (cases x) simp_all

lemma allowed_kinds:
  "(\<forall>a. resolveAllowedImplicitMentionKinds (Some act) = Some a \<longrightarrow> k \<in> set a) \<longleftrightarrow>
     implicit_mention_counts act k"
  by (cases "ap_allowedImplicitMentionKinds act"; cases "ap_implicitMentions act"; cases k)
     (simp_all add: resolveAllowedImplicitMentionKinds_def implicit_mention_counts_def
        allowedImplicitMentionKindsFromConfig_def implicitMentionKindWhen_def nullish_or_def)

lemma activationGate_skip_iff:
  "g_effect (activationGate st pol c) = EffSkip \<longleftrightarrow> mention_skips st pol (g_allowed c)"
proof (cases "pol_activation pol")
  case None
  then show ?thesis by (simp add: activationGate_def mention_skips_def Let_def)
next
  case (Some act)
  show ?thesis
  proof (cases "st_mentionFacts st")
    case None
    with Some show ?thesis by (simp add: activationGate_def mention_skips_def Let_def)
  next
    case (Some facts)
    let ?allowed = "resolveAllowedImplicitMentionKinds (Some act)"
    have "set (resolveMatchedImplicitMentionKinds kinds ?allowed) = {} \<longleftrightarrow>
        \<not> (\<exists>ks. kinds = Some ks \<and> (\<exists>k\<in>set ks. implicit_mention_counts act k))" for kinds
      by (cases kinds) (auto simp: set_resolveMatchedImplicitMentionKinds allowed_kinds)
    with Some \<open>pol_activation pol = Some act\<close> show ?thesis
      by (auto simp: activationGate_def mention_skips_def Let_def mention_skip_iff
          mention_bypass_iff simp del: set_empty)
  qed
qed

definition skips_before_sender :: "ingress_state \<Rightarrow> ingress_policy \<Rightarrow> bool" where
  "skips_before_sender st pol \<longleftrightarrow>
     (\<exists>act. pol_activation pol = Some act \<and> ap_order act = Some BeforeSender
        \<and> \<not> ap_allowTextCommands act \<and> mention_skips st pol True)"

text \<open>The admission the policy prescribes: first for an event no route blocks, then in general.\<close>

definition admission_after_route :: "ingress_state \<Rightarrow> ingress_policy \<Rightarrow> admission" where
  "admission_after_route st pol =
     (if ev_authMode (st_event st) = AuthInbound \<and> \<not> sender_authorized st pol then
        (if st_conversationKind st = ConvDirect \<and> pol_dmPolicy pol = DmPairing
            \<and> ev_mayPair (st_event st) then AdmPairingRequired else AdmDrop)
      else if command_blocked st pol \<or> \<not> event_authorized st pol then AdmDrop
      else if mention_skips st pol (command_permitted st pol) then AdmSkip
      else AdmDispatch)"

definition admission_spec :: "ingress_state \<Rightarrow> ingress_policy \<Rightarrow> admission" where
  "admission_spec st pol =
     (if route_blocked st then AdmDrop
      else if skips_before_sender st pol then AdmSkip
      else admission_after_route st pol)"

lemma g_allowed_commandGate_None [simp]: "g_allowed (commandGate st (pol\<lparr>pol_command := None\<rparr>))"
  by (simp add: commandGate_def)

lemma mention_skips_no_text:
  "pol_activation pol = Some act \<Longrightarrow> \<not> ap_allowTextCommands act \<Longrightarrow>
     mention_skips st pol b = mention_skips st pol True"
  by (auto simp: mention_skips_def)

lemma g_phase_activationGate [simp]: "g_phase (activationGate st pol c) = PhActivation"
  by (simp add: activationGate_def Let_def split: option.split)

lemma activationBeforeSenderGate_None_iff:
  "activationBeforeSenderGate st pol = None \<longleftrightarrow>
     \<not> (\<exists>act. pol_activation pol = Some act \<and> ap_order act = Some BeforeSender
          \<and> \<not> ap_allowTextCommands act)"
  by (simp add: activationBeforeSenderGate_def split: option.split)

lemma activationBeforeSenderGate_Some:
  assumes "activationBeforeSenderGate st pol = Some g"
  shows "g_effect g = EffSkip \<longleftrightarrow> mention_skips st pol b" and "g_effect g \<noteq> EffObserve"
    and "g_effect g = EffSkip \<longleftrightarrow> skips_before_sender st pol"
    and "g_phase g = PhActivation"
proof -
  from assms obtain act where act: "pol_activation pol = Some act" "ap_order act = Some BeforeSender"
      "\<not> ap_allowTextCommands act"
    and g: "g = activationGate st pol (commandGate st (pol\<lparr>pol_command := None\<rparr>))"
    by (auto simp: activationBeforeSenderGate_def split: option.splits if_splits)
  from g have skip: "g_effect g = EffSkip \<longleftrightarrow> mention_skips st pol True"
    by (simp add: activationGate_skip_iff)
  then show "g_effect g = EffSkip \<longleftrightarrow> mention_skips st pol b"
    by (simp only: mention_skips_no_text [OF act(1,3), of st b])
  from skip act show "g_effect g = EffSkip \<longleftrightarrow> skips_before_sender st pol"
    by (auto simp: skips_before_sender_def)
  from g show "g_effect g \<noteq> EffObserve" and "g_phase g = PhActivation" by simp_all
qed

lemma admission_decideAfterSender:
  assumes before: "\<And>g. before = Some g \<Longrightarrow> (g_effect g = EffSkip
      \<longleftrightarrow> mention_skips st pol (command_permitted st pol)) \<and> g_effect g \<noteq> EffObserve"
    and sender: "g_allowed s \<longleftrightarrow> ev_authMode (st_event st) \<noteq> AuthInbound \<or> sender_authorized st pol"
  shows "d_admission (decideAfterSender st pol before s gates) =
     (if command_blocked st pol \<or> \<not> event_authorized st pol then AdmDrop
      else if mention_skips st pol (command_permitted st pol) then AdmSkip else AdmDispatch)"
  using before g_allowed_eventGate [OF sender]
  by (cases before)
     (simp_all add: decideAfterSender_def Let_def g_effect_commandGate g_allowed_commandGate
        activationGate_skip_iff)

lemma admission_decideFromSender:
  assumes before: "\<And>g. before = Some g \<Longrightarrow> (g_effect g = EffSkip
      \<longleftrightarrow> mention_skips st pol (command_permitted st pol)) \<and> g_effect g \<noteq> EffObserve"
  shows "d_admission (decideFromSender st pol before gates) =
     admission_after_route st pol"
proof (cases "g_allowed (eventModeSenderGate st pol)")
  case True
  with admission_decideAfterSender [OF before g_allowed_eventModeSenderGate] show ?thesis
    by (simp add: decideFromSender_def Let_def admission_after_route_def g_allowed_eventModeSenderGate)
next
  case False
  then show ?thesis
    by (simp add: decideFromSender_def Let_def g_allowed_eventModeSenderGate pairing_reason_eventMode
        admission_after_route_def sender_authorized_def split: if_splits)
qed

lemma admission_decideChannelIngress:
  "d_admission (decideChannelIngress st pol) = admission_spec st pol"
proof (cases "route_blocked st")
  case True
  then obtain g where "find (\<lambda>entry. g_effect entry = EffBlockDispatch)
     (routeGates st @ (case routeSenderEmptyGate st of Some gate \<Rightarrow> [gate] | None \<Rightarrow> [])) = Some g"
    using find_block_iff [of st] by (metis not_None_eq)
  with True show ?thesis by (simp add: decideChannelIngress_def admission_spec_def Let_def)
next
  case False
  then have free: "find (\<lambda>entry. g_effect entry = EffBlockDispatch)
     (routeGates st @ (case routeSenderEmptyGate st of Some gate \<Rightarrow> [gate] | None \<Rightarrow> [])) = None"
    by (simp add: find_block_iff)
  show ?thesis
  proof (cases "activationBeforeSenderGate st pol")
    case None
    then have "\<not> skips_before_sender st pol"
      by (auto simp: activationBeforeSenderGate_None_iff skips_before_sender_def)
    moreover have "d_admission (decideFromSender st pol None gates) = admission_after_route st pol"
      for gates by (intro admission_decideFromSender) simp
    ultimately show ?thesis using None False free
      by (simp add: decideChannelIngress_def admission_spec_def Let_def)
  next
    case (Some g)
    note before = activationBeforeSenderGate_Some [OF Some]
    have "d_admission (decideFromSender st pol (Some g) gates) = admission_after_route st pol"
      for gates using before(1,2) by (intro admission_decideFromSender) simp
    with Some False free before(3) show ?thesis
      by (simp add: decideChannelIngress_def admission_spec_def Let_def)
  qed
qed

subsection \<open>The graph records why\<close>

fun decision_of_admission :: "admission \<Rightarrow> decision_kind" where
  "decision_of_admission AdmDispatch = DecAllow"
| "decision_of_admission AdmObserve = DecAllow"
| "decision_of_admission AdmSkip = DecAllow"
| "decision_of_admission AdmDrop = DecBlock"
| "decision_of_admission AdmPairingRequired = DecPairing"

text \<open>A decision is explained by its graph: it names a recorded gate with that gate's reason, the
  gate's effect fits the admission, every other recorded gate let the event pass, and the decision
  is the one of the admission.\<close>

definition gate_passes :: "gate \<Rightarrow> bool" where
  "gate_passes g \<longleftrightarrow> g_effect g \<notin> {EffBlockDispatch, EffBlockCommand, EffSkip}"

definition explained :: "ingress_decision \<Rightarrow> bool" where
  "explained d \<longleftrightarrow>
     (\<exists>g\<in>set (d_gates d). d_decisiveGateId d = g_id g \<and> d_reasonCode d = g_reasonCode g
        \<and> (case d_admission d of
             AdmDispatch \<Rightarrow> g_phase g = PhActivation \<and> g_effect g = EffAllow
           | AdmObserve \<Rightarrow> False
           | AdmSkip \<Rightarrow> g_phase g = PhActivation \<and> g_effect g = EffSkip
           | AdmDrop \<Rightarrow> \<not> g_allowed g \<and> g_effect g \<in> {EffBlockDispatch, EffBlockCommand}
           | AdmPairingRequired \<Rightarrow> g_phase g = PhSender \<and> g_effect g = EffBlockDispatch)
        \<and> (d_admission d \<noteq> AdmDrop \<longrightarrow> (\<forall>h\<in>set (d_gates d). h \<noteq> g \<longrightarrow> gate_passes h)))
     \<and> d_decision d = decision_of_admission (d_admission d)"

lemma g_effect_activation_range:
  "g_effect (activationGate st pol c) = EffAllow \<or> g_effect (activationGate st pol c) = EffSkip"
  by (simp add: activationGate_def Let_def split: option.split)

lemma eventGate_effect:
  "g_effect (eventGate st s c) = (if g_allowed (eventGate st s c) then EffAllow else EffBlockDispatch)"
  by (auto simp: eventGate_def Let_def split: auth_mode.split)

lemma sender_gate_effect:
  "g_effect (senderGateForDirect st pol) =
     (if dm_sender_authorized st pol then EffAllow else EffBlockDispatch)"
  "g_effect (senderGateForGroup st pol) =
     (if group_sender_authorized st pol then EffAllow else EffBlockDispatch)"
  "g_phase (senderGateForDirect st pol) = PhSender" "g_phase (senderGateForGroup st pol) = PhSender"
  unfolding g_allowed_senderGateForDirect [symmetric] g_allowed_senderGateForGroup [symmetric]
  by (simp_all add: senderGateForDirect_def senderGateForGroup_def Let_def)

lemma eventModeSenderGate_effect:
  "g_effect (eventModeSenderGate st pol) =
     (if g_allowed (eventModeSenderGate st pol)
      then (if sender_authorized st pol then EffAllow else EffIgnore) else EffBlockDispatch)"
  "g_phase (eventModeSenderGate st pol) = PhSender"
  by (auto simp: eventModeSenderGate_def applyEventAuthModeToSenderGate_def sender_authorized_def
      sender_gate_effect)

lemma commandGate_blocked_not_allowed:
  "g_effect (commandGate st pol) = EffBlockCommand \<Longrightarrow> \<not> g_allowed (commandGate st pol)"
  by (auto simp: commandGate_def Let_def split: option.splits if_splits)

lemma commandGate_effect_range:
  "g_effect (commandGate st pol) = EffAllow \<or> g_effect (commandGate st pol) = EffBlockCommand"
  by (simp add: commandGate_def Let_def split: option.split)

lemma routeGates_pass:
  "\<not> route_blocked st \<Longrightarrow>
   \<forall>g\<in>set (routeGates st @ (case routeSenderEmptyGate st of Some gate \<Rightarrow> [gate] | None \<Rightarrow> [])).
     gate_passes g"
proof -
  assume "\<not> route_blocked st"
  then have "\<forall>r\<in>set (st_routeFacts st). rr_effect r \<noteq> ReBlockDispatch"
    and "routeSenderEmptyGate st = None"
    unfolding route_blocked_def routeSenderEmptyGate_None_iff by blast+
  moreover have "gate_effect_of_route e \<noteq> EffBlockCommand \<and> gate_effect_of_route e \<noteq> EffSkip" for e
    by (cases e) simp_all
  ultimately show ?thesis by (simp add: gate_passes_def routeGates_def)
qed

lemma explained_after_sender:
  assumes "\<forall>g\<in>set gates. gate_passes g"
    and "\<And>g. before = Some g \<Longrightarrow> g \<in> set gates \<and> g_phase g = PhActivation \<and> g_effect g = EffAllow"
  shows "explained (decideAfterSender st pol before s gates)"
  using assms commandGate_effect_range [of st pol] commandGate_blocked_not_allowed [of st pol]
    eventGate_effect [of st s "commandGate st pol"]
    g_effect_activation_range [of st pol "commandGate st pol"]
  by (cases before)
     (auto simp: decideAfterSender_def explained_def gate_passes_def Let_def)

lemma explained_from_sender:
  assumes "\<forall>g\<in>set gates. gate_passes g"
    and "\<And>g. before = Some g \<Longrightarrow> g \<in> set gates \<and> g_phase g = PhActivation \<and> g_effect g = EffAllow"
  shows "explained (decideFromSender st pol before gates)"
proof (cases "g_allowed (eventModeSenderGate st pol)")
  case True
  with assms eventModeSenderGate_effect(1) [of st pol] show ?thesis
    by (simp add: decideFromSender_def Let_def, intro explained_after_sender)
       (auto simp: gate_passes_def)
next
  case False
  with assms eventModeSenderGate_effect [of st pol] show ?thesis
    by (simp add: decideFromSender_def explained_def Let_def)
qed

lemma explained_decideChannelIngress: "explained (decideChannelIngress st pol)"
proof -
  let ?gates = "routeGates st @ (case routeSenderEmptyGate st of Some gate \<Rightarrow> [gate] | None \<Rightarrow> [])"
  show ?thesis
  proof (cases "find (\<lambda>entry. g_effect entry = EffBlockDispatch) ?gates")
    case (Some g)
    then have "g \<in> set ?gates" and "g_effect g = EffBlockDispatch"
      by (auto simp only: find_Some_iff2 find_Some_iff set_conv_nth)
    moreover from this have "\<not> g_allowed g"
      by (auto simp: routeGates_def dest: routeSenderEmptyGate_effect [OF sym] split: option.splits)
    ultimately show ?thesis using Some
      by (auto simp: decideChannelIngress_def explained_def Let_def)
  next
    case None
    then have pass: "\<forall>g\<in>set ?gates. gate_passes g"
      using routeGates_pass find_block_iff by blast
    show ?thesis
    proof (cases "activationBeforeSenderGate st pol")
      case none: None
      show ?thesis using None none pass explained_from_sender [of ?gates None st pol]
        by (simp add: decideChannelIngress_def Let_def)
    next
      case (Some g)
      then have range: "g_effect g = EffAllow \<or> g_effect g = EffSkip" and phase: "g_phase g = PhActivation"
        using g_effect_activation_range
        by (auto simp: activationBeforeSenderGate_def split: option.splits if_splits)
      show ?thesis
      proof (cases "g_effect g = EffSkip")
        case True
        with Some None pass phase show ?thesis
          by (auto simp: decideChannelIngress_def explained_def Let_def)
      next
        case False
        with range pass have "\<forall>h\<in>set (?gates @ [g]). gate_passes h" by (simp add: gate_passes_def)
        with Some None False range phase explained_from_sender [of "?gates @ [g]" "Some g" st pol]
        show ?thesis by (simp add: decideChannelIngress_def Let_def)
      qed
    qed
  qed
qed

subsection \<open>What cannot authorize\<close>

lemma mutable_policy_ids:
  assumes "pol_mutableIdentifierMatching pol \<noteq> Some MutableEnabled"
    and "i \<in> set (al_matchedEntryIds (applyMutableIdentifierPolicy al pol))"
    and "e \<in> set (al_normalizedEntries al)" and "entry_dangerous e"
  shows "ne_opaqueEntryId e \<noteq> i"
proof -
  from assms(3,4) have mem: "ne_opaqueEntryId e \<in> set (js_set_of (map ne_opaqueEntryId
      (filter entry_dangerous (al_normalizedEntries al))))" by simp
  then have "\<not> length (js_set_of (map ne_opaqueEntryId
      (filter entry_dangerous (al_normalizedEntries al)))) = 0" by (auto simp: filter_empty_conv)
  with assms(1,2) mem show ?thesis
    by (auto simp add: applyMutableIdentifierPolicy_def Let_def)
qed

text \<open>The sender matched this allowlist, if at all, through mutable identifiers only.\<close>

definition matched_only_by_mutable :: "resolved_allowlist \<Rightarrow> bool" where
  "matched_only_by_mutable al \<longleftrightarrow>
     (m_matched (al_match al) \<longrightarrow> al_matchedEntryIds al \<noteq> [])
     \<and> (\<forall>i\<in>set (al_matchedEntryIds al).
          \<exists>e\<in>set (al_normalizedEntries al). entry_dangerous e \<and> ne_opaqueEntryId e = i)"

lemma mutable_policy_unmatched:
  assumes "pol_mutableIdentifierMatching pol \<noteq> Some MutableEnabled"
    and "matched_only_by_mutable al"
  shows "\<not> m_matched (al_match (applyMutableIdentifierPolicy al pol))"
proof (cases "js_set_of (map ne_opaqueEntryId (filter entry_dangerous (al_normalizedEntries al))) = []")
  case True
  then have "\<not> (\<exists>e\<in>set (al_normalizedEntries al). entry_dangerous e)" by (auto simp: filter_empty_conv)
  with assms(2) have "\<not> m_matched (al_match al)"
    by (metis equals0I matched_only_by_mutable_def set_empty)
  with True assms(1) show ?thesis
    by (simp add: applyMutableIdentifierPolicy_def Let_def del: js_set_of_Nil_iff)
next
  case False
  have "filter (\<lambda>i. i \<notin> set (js_set_of (map ne_opaqueEntryId
      (filter entry_dangerous (al_normalizedEntries al))))) (al_matchedEntryIds al) = []"
    using assms(2) by (auto simp: matched_only_by_mutable_def filter_empty_conv)
  with False assms(1) show ?thesis
    by (simp add: applyMutableIdentifierPolicy_def Let_def del: js_set_of_Nil_iff set_js_set_of)
qed

text \<open>C4. While mutable identifier matching is not enabled, a direct message whose sender matches the
  DM allowlist and the pairing store through mutable identifiers (user names, display names) only is
  never dispatched, under every DM policy but \<open>open\<close>.\<close>

theorem mutable_identifiers_never_admit_dm:
  assumes "pol_mutableIdentifierMatching pol \<noteq> Some MutableEnabled"
    and "st_conversationKind st = ConvDirect" and "ev_authMode (st_event st) = AuthInbound"
    and "pol_dmPolicy pol \<noteq> DmOpen"
    and "matched_only_by_mutable (sl_dm (st_allowlists st))"
    and "matched_only_by_mutable (sl_pairingStore (st_allowlists st))"
  shows "d_admission (decideChannelIngress st pol) \<noteq> AdmDispatch"
proof -
  from assms have "\<not> sender_authorized st pol"
    by (cases "pol_dmPolicy pol")
       (simp_all add: sender_authorized_def dm_sender_authorized_def mutable_policy_unmatched
          flip: admits_single)
  with assms(3) show ?thesis
    by (simp add: admission_decideChannelIngress admission_spec_def admission_after_route_def)
qed

abbreviation with_pairing_store :: "ingress_state \<Rightarrow> resolved_allowlist \<Rightarrow> ingress_state" where
  "with_pairing_store st al \<equiv> st\<lparr>st_allowlists := (st_allowlists st)\<lparr>sl_pairingStore := al\<rparr>\<rparr>"

lemma pairing_store_frame [simp]:
  "routeGates (with_pairing_store st al) = routeGates st"
  "routeSenderEmptyGate (with_pairing_store st al) = routeSenderEmptyGate st"
  "commandGate (with_pairing_store st al) pol = commandGate st pol"
  "eventGate (with_pairing_store st al) s c = eventGate st s c"
  "activationGate (with_pairing_store st al) pol c = activationGate st pol c"
  "senderGateForGroup (with_pairing_store st al) pol = senderGateForGroup st pol"
  "applyEventAuthModeToSenderGate (with_pairing_store st al) s = applyEventAuthModeToSenderGate st s"
  by (simp_all add: routeGates_def routeSenderEmptyGate_def commandGate_def eventGate_def
      activationGate_def senderGateForGroup_def effectiveGroupSenderAllowlist_def
      applyEventAuthModeToSenderGate_def cong: option.case_cong)

lemma pairing_store_frame_direct:
  "pol_dmPolicy pol \<noteq> DmPairing \<Longrightarrow>
     senderGateForDirect (with_pairing_store st al) pol = senderGateForDirect st pol"
  by (simp add: senderGateForDirect_def Let_def)

lemma pairing_store_frame_after [simp]:
  "decideAfterSender (with_pairing_store st al) pol before s gates =
     decideAfterSender st pol before s gates"
  unfolding decideAfterSender_def pairing_store_frame ..

lemma pairing_store_frame_before [simp]:
  "activationBeforeSenderGate (with_pairing_store st al) pol = activationBeforeSenderGate st pol"
  unfolding activationBeforeSenderGate_def pairing_store_frame ..

lemma pairing_store_frame_from:
  "pol_dmPolicy pol \<noteq> DmPairing \<Longrightarrow>
     decideFromSender (with_pairing_store st al) pol before gates = decideFromSender st pol before gates"
  by (simp add: decideFromSender_def eventModeSenderGate_def pairing_store_frame_direct Let_def)

text \<open>C3. Under every DM policy but \<open>pairing\<close> the pairing store has no influence on any part of
  the decision: not on the admission, not on the reason, not on the recorded gates.\<close>

theorem pairing_store_irrelevant_outside_pairing:
  assumes "pol_dmPolicy pol \<noteq> DmPairing"
  shows "decideChannelIngress (with_pairing_store st al) pol = decideChannelIngress st pol"
  unfolding decideChannelIngress_def pairing_store_frame pairing_store_frame_before
    pairing_store_frame_from [OF assms] ..

lemma decideAfterSender_gates:
  "set gates \<subseteq> set (d_gates (decideAfterSender st pol before s gates))"
  "d_admission (decideAfterSender st pol before s gates) = AdmDispatch \<Longrightarrow>
     commandGate st pol \<in> set (d_gates (decideAfterSender st pol before s gates))
     \<and> eventGate st s (commandGate st pol) \<in> set (d_gates (decideAfterSender st pol before s gates))"
  by (auto simp: decideAfterSender_def Let_def)

lemma g_phase_gates [simp]:
  "g_phase (commandGate st pol) = PhCommand" "g_phase (eventGate st s c) = PhEvent"
  by (simp_all add: commandGate_def eventGate_def Let_def split: option.split auth_mode.split)

lemma dispatch_phases_from_sender:
  assumes "d_admission (decideFromSender st pol before gates) = AdmDispatch"
  shows "{PhSender, PhCommand, PhEvent} \<subseteq> g_phase ` set (d_gates (decideFromSender st pol before gates))"
proof (cases "g_allowed (eventModeSenderGate st pol)")
  case True
  let ?gates = "gates @ [eventModeSenderGate st pol]"
  let ?d = "decideAfterSender st pol before (eventModeSenderGate st pol) ?gates"
  from True have d: "decideFromSender st pol before gates = ?d"
    by (simp add: decideFromSender_def Let_def)
  with assms have "eventModeSenderGate st pol \<in> set (d_gates ?d)" "commandGate st pol \<in> set (d_gates ?d)"
      "eventGate st (eventModeSenderGate st pol) (commandGate st pol) \<in> set (d_gates ?d)"
    using decideAfterSender_gates(1) [of ?gates] decideAfterSender_gates(2) by auto
  then have "g_phase (eventModeSenderGate st pol) \<in> g_phase ` set (d_gates ?d)"
      "g_phase (commandGate st pol) \<in> g_phase ` set (d_gates ?d)"
      "g_phase (eventGate st (eventModeSenderGate st pol) (commandGate st pol)) \<in> g_phase ` set (d_gates ?d)"
    by (blast intro: imageI)+
  with d show ?thesis by (simp add: eventModeSenderGate_effect)
next
  case False
  with assms show ?thesis by (simp add: decideFromSender_def Let_def split: if_splits)
qed

lemma dispatch_from_sender:
  assumes "d_admission (decideChannelIngress st pol) = AdmDispatch"
  obtains before gates where "decideChannelIngress st pol = decideFromSender st pol before gates"
  using assms by (fastforce simp: decideChannelIngress_def Let_def split: option.splits if_splits)

lemma dispatch_phases:
  assumes "d_admission (decideChannelIngress st pol) = AdmDispatch"
  shows "{PhSender, PhCommand, PhEvent} \<subseteq> g_phase ` set (d_gates (decideChannelIngress st pol))"
  using assms dispatch_from_sender [OF assms] dispatch_phases_from_sender by metis

text \<open>C1. The gate pipeline refines the access policy: the admission of every event is the one
  \<open>admission_spec\<close> prescribes from the policy alone, and the reported decision is allow for
  dispatched and skipped events, block for dropped ones and pairing where a pairing request is due.\<close>

theorem ingress_decision_refines_policy:
  "d_admission (decideChannelIngress st pol) = admission_spec st pol
   \<and> d_decision (decideChannelIngress st pol) = decision_of_admission (admission_spec st pol)"
  using explained_decideChannelIngress [of st pol]
  by (simp add: admission_decideChannelIngress explained_def)

text \<open>C2. An event is dispatched only when a sender, a command, an event and an activation gate
  were all evaluated and recorded, and no recorded gate blocks or skips.\<close>

theorem dispatch_requires_every_gate:
  assumes "d_admission (decideChannelIngress st pol) = AdmDispatch"
  shows "{PhSender, PhCommand, PhEvent, PhActivation}
           \<subseteq> g_phase ` set (d_gates (decideChannelIngress st pol))
         \<and> (\<forall>g\<in>set (d_gates (decideChannelIngress st pol)).
              g_effect g \<notin> {EffBlockDispatch, EffBlockCommand, EffSkip})"
proof (rule conjI)
  from explained_decideChannelIngress [of st pol] assms obtain g where
    g: "g \<in> set (d_gates (decideChannelIngress st pol))" "g_phase g = PhActivation" "g_effect g = EffAllow"
    and rest: "\<forall>h\<in>set (d_gates (decideChannelIngress st pol)). h \<noteq> g \<longrightarrow> gate_passes h"
    by (auto simp: explained_def)
  from g(1) have "g_phase g \<in> g_phase ` set (d_gates (decideChannelIngress st pol))" by (rule imageI)
  with g(2) dispatch_phases [OF assms] show "{PhSender, PhCommand, PhEvent, PhActivation}
      \<subseteq> g_phase ` set (d_gates (decideChannelIngress st pol))" by simp
  from rest g(3) show "\<forall>g\<in>set (d_gates (decideChannelIngress st pol)).
      g_effect g \<notin> {EffBlockDispatch, EffBlockCommand, EffSkip}"
    by (force simp: gate_passes_def)
qed

subsection \<open>Concrete events\<close>

definition empty_match :: ingress_match where
  "empty_match = \<lparr>m_matched = False, m_matchedEntryIds = []\<rparr>"

definition empty_allowlist :: resolved_allowlist where
  "empty_allowlist =
     \<lparr>al_rawEntryCount = 0, al_normalizedEntries = [], al_invalidEntries = [], al_disabledEntries = [],
      al_matchedEntryIds = [], al_hasConfiguredEntries = False, al_hasMatchableEntries = False,
      al_hasWildcard = False,
      al_accessGroups = \<lparr>ag_referenced = [], ag_matched = [], ag_missing = [], ag_unsupported = [],
        ag_failed = []\<rparr>,
      al_match = empty_match\<rparr>"

definition matched_allowlist :: "bool option \<Rightarrow> resolved_allowlist" where
  "matched_allowlist dangerous = empty_allowlist\<lparr>al_rawEntryCount := 1,
     al_normalizedEntries := [\<lparr>ne_opaqueEntryId = ''entry-1:stableId'', ne_kind = StableId,
       ne_dangerous = dangerous, ne_sensitivity = None\<rparr>],
     al_matchedEntryIds := [''entry-1:stableId''], al_hasConfiguredEntries := True,
     al_hasMatchableEntries := True,
     al_match := \<lparr>m_matched = True, m_matchedEntryIds = [''entry-1:stableId'']\<rparr>\<rparr>"

definition dm_event_state :: "resolved_allowlist \<Rightarrow> resolved_allowlist \<Rightarrow> ingress_state" where
  "dm_event_state dm store =
     \<lparr>st_channelId = ''telegram'', st_accountId = ''default'', st_conversationKind = ConvDirect,
      st_event = \<lparr>ev_kind = EvMessage, ev_authMode = AuthInbound, ev_mayPair = True,
        ev_hasOriginSubject = False, ev_originSubjectMatched = False\<rparr>,
      st_mentionFacts = None, st_routeFacts = [],
      st_allowlists = \<lparr>sl_dm = dm, sl_pairingStore = store, sl_group = empty_allowlist,
        sl_commandOwner = empty_allowlist, sl_commandGroup = empty_allowlist\<rparr>\<rparr>"

definition dm_only_policy :: "dm_policy \<Rightarrow> ingress_policy" where
  "dm_only_policy dm =
     \<lparr>pol_dmPolicy = dm, pol_groupPolicy = GroupDisabled,
      pol_groupAllowFromFallbackToAllowFrom = None, pol_mutableIdentifierMatching = None,
      pol_activation = None, pol_command = None\<rparr>"

lemmas concrete_event_defs = empty_match_def empty_allowlist_def matched_allowlist_def
  dm_event_state_def dm_only_policy_def

lemma concrete_dispatch:
  "d_admission (decideChannelIngress (dm_event_state (matched_allowlist None) empty_allowlist)
     (dm_only_policy DmAllowlist)) = AdmDispatch"
  by (simp add: admission_decideChannelIngress admission_spec_def admission_after_route_def
      route_blocked_def skips_before_sender_def sender_authorized_def dm_sender_authorized_def
      command_blocked_def command_permitted_def event_authorized_def mention_skips_def admits_def
      mutable_entry_id_def concrete_event_defs)

theorem dispatch_requires_every_gate_witness:
  "\<exists>gates. gates = d_gates (decideChannelIngress
       (dm_event_state (matched_allowlist None) empty_allowlist) (dm_only_policy DmAllowlist))
     \<and> {PhSender, PhCommand, PhEvent, PhActivation} \<subseteq> g_phase ` set gates
     \<and> (\<forall>g\<in>set gates. g_effect g \<notin> {EffBlockDispatch, EffBlockCommand, EffSkip})"
  using dispatch_requires_every_gate [OF concrete_dispatch] by blast

theorem pairing_store_irrelevant_outside_pairing_witness:
  "decideChannelIngress (with_pairing_store (dm_event_state empty_allowlist empty_allowlist)
       (matched_allowlist None)) (dm_only_policy DmAllowlist)
     = decideChannelIngress (dm_event_state empty_allowlist empty_allowlist) (dm_only_policy DmAllowlist)"
  by (rule pairing_store_irrelevant_outside_pairing) (simp add: dm_only_policy_def)

theorem mutable_identifiers_never_admit_dm_witness:
  "m_matched (al_match (matched_allowlist (Some True)))
   \<and> d_admission (decideChannelIngress
       (dm_event_state (matched_allowlist (Some True)) empty_allowlist) (dm_only_policy DmAllowlist))
     \<noteq> AdmDispatch"
  using mutable_identifiers_never_admit_dm [of "dm_only_policy DmAllowlist"
      "dm_event_state (matched_allowlist (Some True)) empty_allowlist"]
  by (simp add: concrete_event_defs matched_only_by_mutable_def)

end
