(* ===== verification/Access_State.thy ===== *)
theory Access_State
  imports Access_Decision
begin

text \<open>
  The state resolver of channel ingress, \<open>src/channels/message-access/state.ts\<close>: it
  normalizes the configured entries of each allowlist, expands access groups, matches the subject
  through the channel's adapter and collects the facts the decision graph reads. The adapter is a
  value of the input, as in the source; the locale \<open>channel_adapter\<close> states what the
  resolver relies on, and \<open>Access_Runtime\<close> interprets it for the adapter the runtime builds.
\<close>

subsection \<open>Helpers\<close>

definition redactedEntries :: "internal_entry list \<Rightarrow> normalized_entry list" where
  "redactedEntries entries = map normalized_entry.truncate entries"

definition emptyMatch :: ingress_match where
  "emptyMatch = \<lparr>m_matched = False, m_matchedEntryIds = []\<rparr>"

definition mergeMatches :: "ingress_match list \<Rightarrow> ingress_match" where
  "mergeMatches matches =
     (let matchedEntryIds = uniqueStrings (concat (map m_matchedEntryIds matches))
      in \<lparr>m_matched = list_ex m_matched matches \<or> length matchedEntryIds > 0,
          m_matchedEntryIds = matchedEntryIds\<rparr>)"

fun mergeDiagnostics :: "entry_diagnostic list option list \<Rightarrow> entry_diagnostic list" where
  "mergeDiagnostics [] = []"
| "mergeDiagnostics (grp # groups) = nullish grp [] @ mergeDiagnostics groups"

text \<open>A \<open>Map\<close> built from pairs: the last pair of a key wins.\<close>

definition accessGroupFactByName :: "membership_fact list option \<Rightarrow> string \<Rightarrow> membership_fact option" where
  "accessGroupFactByName facts =
     map_of (rev (map (\<lambda>fact. (fact_group fact, fact)) (nullish facts [])))"

record resolved_entries =
  re_normalizedEntries :: "normalized_entry list"
  re_invalidEntries :: "entry_diagnostic list"
  re_disabledEntries :: "entry_diagnostic list"
  re_match :: ingress_match

definition normalizeAndMatch ::
  "ingress_adapter \<Rightarrow> ingress_subject \<Rightarrow> string \<Rightarrow> string list \<Rightarrow> match_context \<Rightarrow> resolved_entries" where
  "normalizeAndMatch adapter subject accountId entries context =
     (if length entries = 0 then
        \<lparr>re_normalizedEntries = [], re_invalidEntries = [], re_disabledEntries = [],
         re_match = emptyMatch\<rparr>
      else (let normalized = normalizeEntries adapter entries context accountId;
                match = (if length (nr_matchable normalized) > 0
                         then matchSubject adapter subject (nr_matchable normalized) context
                         else emptyMatch)
            in \<lparr>re_normalizedEntries = redactedEntries (nr_matchable normalized),
                re_invalidEntries = nr_invalid normalized,
                re_disabledEntries = nr_disabled normalized,
                re_match = match\<rparr>))"

definition referencedAccessGroups :: "string list \<Rightarrow> string list" where
  "referencedAccessGroups entries =
     js_set_of (List.map_filter parseAccessGroupAllowFromEntry entries)"

definition directAllowlistEntries :: "string list \<Rightarrow> string list" where
  "directAllowlistEntries entries =
     filter (\<lambda>entry. parseAccessGroupAllowFromEntry entry = None) entries"

definition lookupAccessGroup :: "state_input \<Rightarrow> string \<Rightarrow> access_group_config option" where
  "lookupAccessGroup input groupName =
     Option.bind (si_accessGroups input) (\<lambda>groups. groups groupName)"

definition groupSenderEntries :: "string \<Rightarrow> state_input \<Rightarrow> string list" where
  "groupSenderEntries groupName input =
     (case lookupAccessGroup input groupName of
        Some (MessageSenders members) \<Rightarrow>
          normalizeStringEntries (Some (map JStr
            (nullish (members ''*'') [] @ nullish (members (si_channelId input)) [])))
      | _ \<Rightarrow> [])"

subsection \<open>Origin subjects\<close>

definition eventSubjectMatchContext :: "state_input \<Rightarrow> match_context" where
  "eventSubjectMatchContext input =
     (if cv_kind (si_conversation input) = ConvDirect then CtxDm else CtxGroup)"

text \<open>\<open>map\<close> with the index, as \<open>Array.prototype.map\<close> passes it.\<close>

definition map_index :: "(nat \<Rightarrow> 'a \<Rightarrow> 'b) \<Rightarrow> 'a list \<Rightarrow> 'b list" where
  "map_index f xs = map (\<lambda>(i, x). f i x) (zip [0..<length xs] xs)"

definition normalizeSubjectIdentifiersForMatch ::
  "state_input \<Rightarrow> ingress_subject \<Rightarrow> match_context \<Rightarrow> string \<Rightarrow> internal_entry list" where
  "normalizeSubjectIdentifiersForMatch input subject context opaquePrefix =
     concat (map_index (\<lambda>identifierIndex identifier.
       (let entries = normalizeEntries (si_adapter input) [mm_value identifier] context
              (si_accountId input)
        in map_index (\<lambda>entryIndex entry.
             \<lparr>ne_opaqueEntryId = opaquePrefix @ ''-'' @ string_of_nat (identifierIndex + 1) @ '':''
                @ string_of_nat (entryIndex + 1),
              ne_kind = ne_kind entry, ne_dangerous = ne_dangerous entry,
              ne_sensitivity = ne_sensitivity entry, ie_value = ie_value entry\<rparr>)
           (filter (\<lambda>entry. ne_kind entry = mm_kind identifier \<and> ie_value entry \<noteq> ''*'')
              (nr_matchable entries))))
       (sub_identifiers subject))"

definition originSubjectMatched :: "state_input \<Rightarrow> bool" where
  "originSubjectMatched input =
     (case ei_originSubject (si_event input) of
        None \<Rightarrow> False
      | Some origin \<Rightarrow>
          if list_ex (\<lambda>identifier. list_ex (\<lambda>current.
               mm_kind current = mm_kind identifier \<and> mm_value current = mm_value identifier)
               (sub_identifiers (si_subject input))) (sub_identifiers origin)
          then True
          else (let context = eventSubjectMatchContext input;
                    originEntries = normalizeSubjectIdentifiersForMatch input origin context ''origin''
            in if length originEntries > 0
                  \<and> m_matched (matchSubject (si_adapter input) (si_subject input) originEntries context)
               then True
               else (let currentEntries =
                    normalizeSubjectIdentifiersForMatch input (si_subject input) context ''current''
                 in if length currentEntries = 0 then False
                    else m_matched (matchSubject (si_adapter input) origin currentEntries context))))"

subsection \<open>Access groups and allowlists\<close>

record group_resolution =
  gr_normalizedEntries :: "normalized_entry list"
  gr_invalidEntries :: "entry_diagnostic list"
  gr_disabledEntries :: "entry_diagnostic list"
  gr_matches :: "ingress_match list"
  gr_accessGroups :: access_groups

fun pushGroupFailure :: "group_failure \<Rightarrow> string \<Rightarrow> access_groups \<Rightarrow> access_groups" where
  "pushGroupFailure GfMissing n ag = ag\<lparr>ag_missing := ag_missing ag @ [n]\<rparr>"
| "pushGroupFailure GfUnsupported n ag = ag\<lparr>ag_unsupported := ag_unsupported ag @ [n]\<rparr>"
| "pushGroupFailure GfFailed n ag = ag\<lparr>ag_failed := ag_failed ag @ [n]\<rparr>"

definition pushGroupMatched :: "string \<Rightarrow> access_groups \<Rightarrow> access_groups" where
  "pushGroupMatched n ag = ag\<lparr>ag_matched := ag_matched ag @ [n]\<rparr>"

text \<open>One iteration of the loop of \<open>resolveAccessGroupEntries\<close>.\<close>

definition resolveOneAccessGroup ::
  "state_input \<Rightarrow> match_context \<Rightarrow> group_resolution \<Rightarrow> string \<Rightarrow> group_resolution" where
  "resolveOneAccessGroup input context acc groupName =
     (case accessGroupFactByName (si_accessGroupMembership input) groupName of
        Some (FactMatched _ _ matchedEntryIds) \<Rightarrow>
          acc\<lparr>gr_accessGroups := pushGroupMatched groupName (gr_accessGroups acc),
              gr_matches := gr_matches acc
                @ [\<lparr>m_matched = True, m_matchedEntryIds = matchedEntryIds\<rparr>]\<rparr>
      | Some (FactFailure failure _ _ _ _) \<Rightarrow>
          acc\<lparr>gr_accessGroups := pushGroupFailure failure groupName (gr_accessGroups acc)\<rparr>
      | Some (FactNotMatched _ _) \<Rightarrow> acc
      | None \<Rightarrow>
          (case lookupAccessGroup input groupName of
             None \<Rightarrow>
               acc\<lparr>gr_accessGroups := pushGroupFailure GfMissing groupName (gr_accessGroups acc)\<rparr>
           | Some (DiscordChannelAudience _ _) \<Rightarrow>
               acc\<lparr>gr_accessGroups := pushGroupFailure GfUnsupported groupName (gr_accessGroups acc)\<rparr>
           | Some (MessageSenders _) \<Rightarrow>
               (let groupEntries = groupSenderEntries groupName input;
                    resolved = normalizeAndMatch (si_adapter input) (si_subject input)
                      (si_accountId input) groupEntries context;
                    acc' = acc\<lparr>
                      gr_normalizedEntries := gr_normalizedEntries acc @ re_normalizedEntries resolved,
                      gr_invalidEntries := gr_invalidEntries acc @ re_invalidEntries resolved,
                      gr_disabledEntries := gr_disabledEntries acc @ re_disabledEntries resolved\<rparr>
                in if m_matched (re_match resolved)
                   then acc'\<lparr>gr_accessGroups := pushGroupMatched groupName (gr_accessGroups acc'),
                             gr_matches := gr_matches acc' @ [re_match resolved]\<rparr>
                   else acc')))"

definition resolveAccessGroupEntries ::
  "state_input \<Rightarrow> match_context \<Rightarrow> string list \<Rightarrow> group_resolution" where
  "resolveAccessGroupEntries input context referenced =
     foldl (resolveOneAccessGroup input context)
       \<lparr>gr_normalizedEntries = [], gr_invalidEntries = [], gr_disabledEntries = [], gr_matches = [],
        gr_accessGroups = \<lparr>ag_referenced = referenced, ag_matched = [], ag_missing = [],
          ag_unsupported = [], ag_failed = []\<rparr>\<rparr>
       referenced"

definition resolveIngressAllowlist ::
  "state_input \<Rightarrow> js_value list option \<Rightarrow> match_context \<Rightarrow> resolved_allowlist" where
  "resolveIngressAllowlist input rawEntries context =
     (let entries = normalizeStringEntries (Some (nullish rawEntries []));
          referenced = referencedAccessGroups entries;
          directEntries = directAllowlistEntries entries;
          direct = normalizeAndMatch (si_adapter input) (si_subject input) (si_accountId input)
            directEntries context;
          groups = resolveAccessGroupEntries input context referenced;
          match = mergeMatches (re_match direct # gr_matches groups)
      in \<lparr>al_rawEntryCount = length entries,
          al_normalizedEntries = re_normalizedEntries direct @ gr_normalizedEntries groups,
          al_invalidEntries = mergeDiagnostics [Some (re_invalidEntries direct), Some (gr_invalidEntries groups)],
          al_disabledEntries = mergeDiagnostics [Some (re_disabledEntries direct), Some (gr_disabledEntries groups)],
          al_matchedEntryIds = m_matchedEntryIds match,
          al_hasConfiguredEntries = length entries > 0,
          al_hasMatchableEntries =
            length (re_normalizedEntries direct) > 0 \<or> length (gr_normalizedEntries groups) > 0,
          al_hasWildcard = ''*'' \<in> set directEntries,
          al_accessGroups = gr_accessGroups groups,
          al_match = match\<rparr>)"

subsection \<open>Routes and the whole state\<close>

text \<open>The comparator of the route facts; \<open>localeCompare\<close> is collation dependent and a
  parameter of the resolver.\<close>

definition compareRouteFacts :: "(string \<Rightarrow> string \<Rightarrow> int) \<Rightarrow> route_facts \<Rightarrow> route_facts \<Rightarrow> int" where
  "compareRouteFacts localeCompare left right =
     (if rf_precedence left - rf_precedence right \<noteq> 0 then rf_precedence left - rf_precedence right
      else localeCompare (rf_id left) (rf_id right))"

definition resolveRouteFact :: "state_input \<Rightarrow> route_facts \<Rightarrow> resolved_route" where
  "resolveRouteFact input route =
     (let senderAllowFrom =
        nullish_or (rf_senderAllowFrom route)
          (case rf_senderAllowFromSource route of
             Some SrcEffectiveDm \<Rightarrow> li_dm (si_allowlists input)
           | Some SrcEffectiveGroup \<Rightarrow> li_group (si_allowlists input)
           | None \<Rightarrow> None)
      in \<lparr>rr_id = rf_id route, rr_kind = rf_kind route, rr_gate = rf_gate route,
          rr_effect = rf_effect route, rr_precedence = rf_precedence route,
          rr_senderPolicy = rf_senderPolicy route, rr_match = rf_match route,
          rr_senderAllowlist =
            map_option (\<lambda>raw. resolveIngressAllowlist input (Some raw) CtxRoute) senderAllowFrom\<rparr>)"

definition resolveRouteFacts ::
  "(string \<Rightarrow> string \<Rightarrow> int) \<Rightarrow> state_input \<Rightarrow> resolved_route list" where
  "resolveRouteFacts localeCompare input =
     map (resolveRouteFact input)
       (js_toSorted (compareRouteFacts localeCompare) (nullish (si_routeFacts input) []))"

definition resolveChannelIngressState ::
  "(string \<Rightarrow> string \<Rightarrow> int) \<Rightarrow> state_input \<Rightarrow> ingress_state" where
  "resolveChannelIngressState localeCompare input =
     \<lparr>st_channelId = si_channelId input, st_accountId = si_accountId input,
      st_conversationKind = cv_kind (si_conversation input),
      st_event = \<lparr>ev_kind = ei_kind (si_event input), ev_authMode = ei_authMode (si_event input),
        ev_mayPair = ei_mayPair (si_event input),
        ev_hasOriginSubject = (ei_originSubject (si_event input) \<noteq> None),
        ev_originSubjectMatched = originSubjectMatched input\<rparr>,
      st_mentionFacts = si_mentionFacts input,
      st_routeFacts = resolveRouteFacts localeCompare input,
      st_allowlists =
        \<lparr>sl_dm = resolveIngressAllowlist input (li_dm (si_allowlists input)) CtxDm,
         sl_pairingStore = resolveIngressAllowlist input (li_pairingStore (si_allowlists input)) CtxDm,
         sl_group = resolveIngressAllowlist input (li_group (si_allowlists input)) CtxGroup,
         sl_commandOwner = resolveIngressAllowlist input (li_commandOwner (si_allowlists input)) CtxCommand,
         sl_commandGroup = resolveIngressAllowlist input (li_commandGroup (si_allowlists input)) CtxCommand\<rparr>\<rparr>"

subsection \<open>The adapter contract\<close>

locale channel_adapter =
  fixes adapter :: ingress_adapter
  assumes match_reported:
    "m_matched (matchSubject adapter subject entries ctx) \<longleftrightarrow>
       m_matchedEntryIds (matchSubject adapter subject entries ctx) \<noteq> []"
    and match_ids:
    "set (m_matchedEntryIds (matchSubject adapter subject entries ctx))
       \<subseteq> ne_opaqueEntryId ` set entries"
begin

lemma normalizeAndMatch_reported:
  "m_matched (re_match (normalizeAndMatch adapter subject acct entries ctx)) \<longleftrightarrow>
     m_matchedEntryIds (re_match (normalizeAndMatch adapter subject acct entries ctx)) \<noteq> []"
  by (simp add: normalizeAndMatch_def emptyMatch_def match_reported Let_def)

lemma normalizeAndMatch_ids:
  "set (m_matchedEntryIds (re_match (normalizeAndMatch adapter subject acct entries ctx)))
     \<subseteq> ne_opaqueEntryId ` set (re_normalizedEntries (normalizeAndMatch adapter subject acct entries ctx))"
proof -
  have "ne_opaqueEntryId ` set (redactedEntries es) = ne_opaqueEntryId ` set es" for es
    by (simp add: redactedEntries_def image_image normalized_entry.truncate_def)
  then show ?thesis
    using match_ids by (simp add: normalizeAndMatch_def emptyMatch_def Let_def)
qed

end

subsection \<open>Access groups are classified, each exactly once\<close>

text \<open>What one referenced group contributes: a match, a failure, or nothing.\<close>

definition group_match :: "state_input \<Rightarrow> match_context \<Rightarrow> string \<Rightarrow> ingress_match option" where
  "group_match input ctx n =
     (case accessGroupFactByName (si_accessGroupMembership input) n of
        Some (FactMatched _ _ ids) \<Rightarrow> Some \<lparr>m_matched = True, m_matchedEntryIds = ids\<rparr>
      | Some _ \<Rightarrow> None
      | None \<Rightarrow>
          (case lookupAccessGroup input n of
             Some (MessageSenders _) \<Rightarrow>
               (let m = re_match (normalizeAndMatch (si_adapter input) (si_subject input)
                      (si_accountId input) (groupSenderEntries n input) ctx)
                in if m_matched m then Some m else None)
           | _ \<Rightarrow> None))"

definition group_failure_of :: "state_input \<Rightarrow> string \<Rightarrow> group_failure option" where
  "group_failure_of input n =
     (case accessGroupFactByName (si_accessGroupMembership input) n of
        Some (FactFailure f _ _ _ _) \<Rightarrow> Some f
      | Some _ \<Rightarrow> None
      | None \<Rightarrow>
          (case lookupAccessGroup input n of
             None \<Rightarrow> Some GfMissing
           | Some (DiscordChannelAudience _ _) \<Rightarrow> Some GfUnsupported
           | Some (MessageSenders _) \<Rightarrow> None))"

lemma group_match_no_failure: "group_match input ctx n \<noteq> None \<Longrightarrow> group_failure_of input n = None"
  by (auto simp: group_match_def group_failure_of_def Let_def
      split: option.splits membership_fact.splits access_group_config.splits)

lemma group_match_matched: "group_match input ctx n = Some m \<Longrightarrow> m_matched m"
  by (auto simp: group_match_def Let_def
      split: option.splits membership_fact.splits access_group_config.splits if_splits)

lemma resolveOneAccessGroup_effect:
  "gr_matches (resolveOneAccessGroup input ctx acc n) =
     gr_matches acc @ (case group_match input ctx n of Some m \<Rightarrow> [m] | None \<Rightarrow> [])"
  "gr_accessGroups (resolveOneAccessGroup input ctx acc n) =
     (if group_match input ctx n \<noteq> None then pushGroupMatched n (gr_accessGroups acc)
      else case group_failure_of input n of
             Some f \<Rightarrow> pushGroupFailure f n (gr_accessGroups acc)
           | None \<Rightarrow> gr_accessGroups acc)"
  by (auto simp: resolveOneAccessGroup_def group_match_def group_failure_of_def Let_def
      split: option.splits membership_fact.splits access_group_config.splits)

lemma pushGroup_fields [simp]:
  "ag_referenced (pushGroupFailure f n ag) = ag_referenced ag"
  "ag_matched (pushGroupFailure f n ag) = ag_matched ag"
  "ag_missing (pushGroupFailure f n ag) = ag_missing ag @ (if f = GfMissing then [n] else [])"
  "ag_unsupported (pushGroupFailure f n ag) = ag_unsupported ag @ (if f = GfUnsupported then [n] else [])"
  "ag_failed (pushGroupFailure f n ag) = ag_failed ag @ (if f = GfFailed then [n] else [])"
  "ag_referenced (pushGroupMatched n ag) = ag_referenced ag"
  "ag_matched (pushGroupMatched n ag) = ag_matched ag @ [n]"
  "ag_missing (pushGroupMatched n ag) = ag_missing ag"
  "ag_unsupported (pushGroupMatched n ag) = ag_unsupported ag"
  "ag_failed (pushGroupMatched n ag) = ag_failed ag"
  by (cases f; simp add: pushGroupMatched_def)+

lemma foldl_resolveOneAccessGroup:
  "gr_matches (foldl (resolveOneAccessGroup input ctx) acc ns) =
     gr_matches acc @ List.map_filter (group_match input ctx) ns"
  "ag_referenced (gr_accessGroups (foldl (resolveOneAccessGroup input ctx) acc ns)) =
     ag_referenced (gr_accessGroups acc)"
  "ag_matched (gr_accessGroups (foldl (resolveOneAccessGroup input ctx) acc ns)) =
     ag_matched (gr_accessGroups acc) @ filter (\<lambda>n. group_match input ctx n \<noteq> None) ns"
  "ag_missing (gr_accessGroups (foldl (resolveOneAccessGroup input ctx) acc ns)) =
     ag_missing (gr_accessGroups acc) @ filter (\<lambda>n. group_failure_of input n = Some GfMissing) ns"
  "ag_unsupported (gr_accessGroups (foldl (resolveOneAccessGroup input ctx) acc ns)) =
     ag_unsupported (gr_accessGroups acc) @ filter (\<lambda>n. group_failure_of input n = Some GfUnsupported) ns"
  "ag_failed (gr_accessGroups (foldl (resolveOneAccessGroup input ctx) acc ns)) =
     ag_failed (gr_accessGroups acc) @ filter (\<lambda>n. group_failure_of input n = Some GfFailed) ns"
  by (induction ns arbitrary: acc)
     (auto simp: resolveOneAccessGroup_effect map_filter_simps group_match_no_failure split: option.split)

definition allowlist_references :: "js_value list option \<Rightarrow> string list" where
  "allowlist_references raw = referencedAccessGroups (normalizeStringEntries (Some (nullish raw [])))"

lemma resolved_access_groups:
  "al_accessGroups (resolveIngressAllowlist input raw ctx) =
     \<lparr>ag_referenced = allowlist_references raw,
      ag_matched = filter (\<lambda>n. group_match input ctx n \<noteq> None) (allowlist_references raw),
      ag_missing = filter (\<lambda>n. group_failure_of input n = Some GfMissing) (allowlist_references raw),
      ag_unsupported = filter (\<lambda>n. group_failure_of input n = Some GfUnsupported) (allowlist_references raw),
      ag_failed = filter (\<lambda>n. group_failure_of input n = Some GfFailed) (allowlist_references raw)\<rparr>"
  by (rule access_groups.equality)
     (simp_all add: resolveIngressAllowlist_def resolveAccessGroupEntries_def Let_def
        foldl_resolveOneAccessGroup allowlist_references_def)

lemma distinct_allowlist_references [simp]: "distinct (allowlist_references raw)"
  by (simp add: allowlist_references_def referencedAccessGroups_def)

text \<open>Resolving an allowlist sorts every access group its entries reference into at most one of
  matched, missing, unsupported and failed, without duplicates, and invents no group.\<close>

theorem access_groups_classified_once:
  "let ag = al_accessGroups (resolveIngressAllowlist input raw ctx);
       classified = ag_matched ag @ ag_missing ag @ ag_unsupported ag @ ag_failed ag
   in distinct classified \<and> set classified \<subseteq> set (ag_referenced ag)
      \<and> ag_referenced ag = allowlist_references raw"
  using group_match_no_failure [of input ctx]
  by (auto simp: resolved_access_groups Let_def)

subsection \<open>When an allowlist matches\<close>

definition direct_match :: "state_input \<Rightarrow> js_value list option \<Rightarrow> match_context \<Rightarrow> ingress_match" where
  "direct_match input raw ctx =
     re_match (normalizeAndMatch (si_adapter input) (si_subject input) (si_accountId input)
       (directAllowlistEntries (normalizeStringEntries (Some (nullish raw [])))) ctx)"

lemma resolved_match:
  "al_match (resolveIngressAllowlist input raw ctx) =
     mergeMatches (direct_match input raw ctx #
       List.map_filter (group_match input ctx) (allowlist_references raw))"
  by (simp add: resolveIngressAllowlist_def resolveAccessGroupEntries_def Let_def
      foldl_resolveOneAccessGroup allowlist_references_def direct_match_def)

lemma resolved_match_ids [simp]:
  "al_matchedEntryIds (resolveIngressAllowlist input raw ctx) =
     m_matchedEntryIds (al_match (resolveIngressAllowlist input raw ctx))"
  by (simp add: resolveIngressAllowlist_def Let_def)

lemma set_map_filter: "set (List.map_filter f xs) = {y. \<exists>x\<in>set xs. f x = Some y}"
  by (induction xs) (auto simp: map_filter_simps split: option.split)

lemma mergeMatches_matched:
  "m_matched (mergeMatches ms) \<longleftrightarrow> (\<exists>m\<in>set ms. m_matched m \<or> m_matchedEntryIds m \<noteq> [])"
  by (auto simp: mergeMatches_def Let_def list_ex_iff)

context channel_adapter
begin

lemma resolved_allowlist_matches_iff:
  assumes "si_adapter input = adapter"
  shows "m_matched (al_match (resolveIngressAllowlist input raw ctx)) \<longleftrightarrow>
     m_matched (direct_match input raw ctx)
     \<or> (\<exists>n\<in>set (allowlist_references raw). group_match input ctx n \<noteq> None)"
proof -
  have "m_matchedEntryIds (direct_match input raw ctx) \<noteq> [] \<longleftrightarrow> m_matched (direct_match input raw ctx)"
    using assms normalizeAndMatch_reported by (simp add: direct_match_def)
  then show ?thesis
    by (auto simp: resolved_match mergeMatches_matched set_map_filter dest: group_match_matched)
qed

end

lemma resolved_unconfigured:
  assumes "normalizeStringEntries (Some (nullish raw [])) = []"
  shows "\<not> m_matched (al_match (resolveIngressAllowlist input raw ctx))"
    and "\<not> al_hasConfiguredEntries (resolveIngressAllowlist input raw ctx)"
    and "\<not> al_hasWildcard (resolveIngressAllowlist input raw ctx)"
  using assms
  by (simp_all add: resolved_match mergeMatches_def direct_match_def directAllowlistEntries_def
      allowlist_references_def referencedAccessGroups_def map_filter_simps normalizeAndMatch_def
      emptyMatch_def resolveIngressAllowlist_def resolveAccessGroupEntries_def Let_def js_set_of_def)

subsection \<open>Route order\<close>

text \<open>A collation of ids: a comparator of strings.\<close>

locale id_collation = js_comparator localeCompare
  for localeCompare :: "string \<Rightarrow> string \<Rightarrow> int"
begin

lemma route_comparator: "js_comparator (compareRouteFacts localeCompare)"
proof
  fix x y z
  show "compareRouteFacts localeCompare x y \<le> 0 \<or> compareRouteFacts localeCompare y x \<le> 0"
    using cmp_total [of "rf_id x" "rf_id y"] by (auto simp: compareRouteFacts_def)
  show "compareRouteFacts localeCompare x y \<le> 0 \<Longrightarrow> compareRouteFacts localeCompare y z \<le> 0 \<Longrightarrow> compareRouteFacts localeCompare x z \<le> 0"
    using cmp_trans [of "rf_id x" "rf_id y" "rf_id z"]
    by (auto simp: compareRouteFacts_def split: if_splits)
qed

end

interpretation code_unit_ids: id_collation compareCodeUnits
  by unfold_locales

interpretation route_order: js_comparator "compareRouteFacts compareCodeUnits"
  by (rule code_unit_ids.route_comparator)

text \<open>The resolved route facts come in the order of their precedence, routes of equal precedence
  in the collation order of their ids, and are exactly the resolved input facts.\<close>

theorem route_facts_ordered:
  assumes "id_collation localeCompare"
  shows "sorted_wrt (\<lambda>a b. rr_precedence a < rr_precedence b
           \<or> (rr_precedence a = rr_precedence b \<and> localeCompare (rr_id a) (rr_id b) \<le> 0))
         (resolveRouteFacts localeCompare input)
       \<and> set (resolveRouteFacts localeCompare input) = resolveRouteFact input ` set (nullish (si_routeFacts input) [])"
proof -
  have "sorted_wrt (\<lambda>a b. compareRouteFacts localeCompare a b \<le> 0)
      (js_toSorted (compareRouteFacts localeCompare) (nullish (si_routeFacts input) []))"
    by (rule js_comparator.sorted_js_toSorted) (rule id_collation.route_comparator [OF assms])
  then show ?thesis
    by (auto simp: resolveRouteFacts_def sorted_wrt_map resolveRouteFact_def compareRouteFacts_def Let_def
        elim!: sorted_wrt_mono_rel [rotated] split: if_splits)
qed

theorem route_facts_ordered_witness:
  "let input = \<lparr>si_channelId = ''matrix'', si_accountId = ''default'',
        si_subject = \<lparr>sub_identifiers = []\<rparr>,
        si_conversation = \<lparr>cv_kind = ConvGroup, cv_id = ''room'', cv_parentId = None,
          cv_threadId = None, cv_title = None\<rparr>,
        si_adapter = \<lparr>normalizeEntries = (\<lambda>_ _ _. \<lparr>nr_matchable = [], nr_invalid = [], nr_disabled = []\<rparr>),
          matchSubject = (\<lambda>_ _ _. emptyMatch)\<rparr>,
        si_accessGroups = None, si_accessGroupMembership = None,
        si_routeFacts = Some (map (\<lambda>(i, p). \<lparr>rf_id = i, rf_kind = RkRoute, rf_gate = GateMatched,
          rf_effect = ReAllow, rf_precedence = p, rf_senderPolicy = SpInherit,
          rf_senderAllowFrom = None, rf_senderAllowFromSource = None, rf_match = None\<rparr>)
          [(''room'', 2), (''space'', 1), (''guild'', 1)]),
        si_mentionFacts = None,
        si_event = \<lparr>ei_kind = EvMessage, ei_authMode = AuthInbound, ei_mayPair = False,
          ei_originSubject = None\<rparr>,
        si_allowlists = \<lparr>li_dm = None, li_group = None, li_commandOwner = None,
          li_commandGroup = None, li_pairingStore = None\<rparr>\<rparr>
   in sorted_wrt (\<lambda>a b. rr_precedence a < rr_precedence b
           \<or> (rr_precedence a = rr_precedence b \<and> compareCodeUnits (rr_id a) (rr_id b) \<le> 0))
         (resolveRouteFacts compareCodeUnits input)
      \<and> map rr_id (resolveRouteFacts compareCodeUnits input) = [''guild'', ''space'', ''room'']"
  using route_facts_ordered [OF code_unit_ids.id_collation_axioms]
  by (simp add: Let_def resolveRouteFacts_def resolveRouteFact_def compareRouteFacts_def
      compareCodeUnits_def)

end
