(* ===== verification/Access_Identity.thy ===== *)
theory Access_Identity
  imports Access_State
begin

text \<open>
  The identity adapter of channel ingress, \<open>src/channels/message-access/runtime-identity.ts\<close>:
  a channel describes its identity fields, and the adapter normalizes allowlist entries field by
  field and matches them with the subject's identifiers. The functions a plugin supplies in the
  descriptor (normalizers, danger tests, match and id hooks) are values of the descriptor. The
  adapter meets the contract \<open>channel_adapter\<close> the state resolver relies on.
\<close>

datatype danger_spec = DangerFlag bool | DangerFn "string \<Rightarrow> bool option"

record identity_field =
  idf_key :: "string option"
  idf_kind :: "identifier_kind option"
  idf_normalize :: "(string \<Rightarrow> string option) option"
  idf_normalizeEntry :: "(string \<Rightarrow> string option) option"
  idf_normalizeSubject :: "(string \<Rightarrow> string option) option"
  idf_dangerous :: "danger_spec option"
  idf_sensitivity :: "sensitivity option"

text \<open>An alias is a field whose key is required.\<close>

record identity_alias =
  ida_key :: string
  ida_field :: identity_field

record identity_descriptor =
  idd_primary :: identity_field
  idd_aliases :: "identity_alias list option"
  idd_isWildcardEntry :: "(string \<Rightarrow> bool) option"
  idd_matchEntry :: "(ingress_subject \<Rightarrow> internal_entry \<Rightarrow> match_context \<Rightarrow> bool option) option"
  idd_resolveEntryId :: "(string \<Rightarrow> nat \<Rightarrow> string \<Rightarrow> nat \<Rightarrow> string) option"

record stable_identity_params =
  sip_field :: identity_field
  sip_aliases :: "identity_alias list option"
  sip_isWildcardEntry :: "(string \<Rightarrow> bool) option"
  sip_matchEntry :: "(ingress_subject \<Rightarrow> internal_entry \<Rightarrow> match_context \<Rightarrow> bool option) option"
  sip_entryIdPrefix :: "string option"
  sip_resolveEntryId :: "(string \<Rightarrow> nat \<Rightarrow> string \<Rightarrow> nat \<Rightarrow> string) option"

record identity_subject_input =
  isi_stableId :: "js_value option"
  isi_aliases :: "(string \<rightharpoonup> js_value) option"

record resolved_identity_field =
  rif_key :: string
  rif_kind :: identifier_kind
  rif_field :: identity_field

subsection \<open>Descriptors\<close>

definition defineStableChannelIngressIdentity :: "stable_identity_params \<Rightarrow> identity_descriptor" where
  "defineStableChannelIngressIdentity params =
     \<lparr>idd_primary = sip_field params, idd_aliases = sip_aliases params,
      idd_isWildcardEntry = sip_isWildcardEntry params, idd_matchEntry = sip_matchEntry params,
      idd_resolveEntryId =
        nullish_or (sip_resolveEntryId params)
          (case sip_entryIdPrefix params of
             Some prefix \<Rightarrow>
               if prefix \<noteq> []
               then Some (\<lambda>_ entryIndex _ _. prefix @ ''-'' @ string_of_nat (entryIndex + 1))
               else None
           | None \<Rightarrow> None)\<rparr>"

definition defaultNormalize :: "string \<Rightarrow> string option" where
  "defaultNormalize value = Some value"

datatype normalize_mode = ModeEntry | ModeSubject

definition normalizeFieldValue :: "identity_field \<Rightarrow> string \<Rightarrow> normalize_mode \<Rightarrow> string option" where
  "normalizeFieldValue field value mode =
     (let normalize =
        (case mode of
           ModeEntry \<Rightarrow> nullish (nullish_or (idf_normalizeEntry field) (idf_normalize field)) defaultNormalize
         | ModeSubject \<Rightarrow> nullish (nullish_or (idf_normalizeSubject field) (idf_normalize field)) defaultNormalize)
      in case normalize value of
           None \<Rightarrow> None
         | Some normalized \<Rightarrow> (if js_trim normalized \<noteq> [] then Some (js_trim normalized) else None))"

definition fieldDangerous :: "identity_field \<Rightarrow> string \<Rightarrow> bool option" where
  "fieldDangerous field value =
     (case idf_dangerous field of
        Some (DangerFn f) \<Rightarrow> f value
      | Some (DangerFlag b) \<Rightarrow> Some b
      | None \<Rightarrow> None)"

definition identityFields :: "identity_descriptor \<Rightarrow> resolved_identity_field list" where
  "identityFields identity =
     \<lparr>rif_key = nullish (idf_key (idd_primary identity)) ''stableId'',
      rif_kind = nullish (idf_kind (idd_primary identity)) StableId,
      rif_field = idd_primary identity\<rparr>
     # map (\<lambda>alias. \<lparr>rif_key = ida_key alias,
                     rif_kind = nullish (idf_kind (ida_field alias)) (PluginKind (ida_key alias)),
                     rif_field = ida_field alias\<rparr>)
         (nullish (idd_aliases identity) [])"

fun kind_string :: "identifier_kind \<Rightarrow> string" where
  "kind_string StableId = ''stable-id''"
| "kind_string Username = ''username''"
| "kind_string Email = ''email''"
| "kind_string Phone = ''phone''"
| "kind_string Role = ''role''"
| "kind_string (PluginKind k) = ''plugin:'' @ k"

definition identityMatchKey :: "identifier_kind \<Rightarrow> string \<Rightarrow> string" where
  "identityMatchKey kind value = kind_string kind @ '':'' @ value"

definition adapterEntry ::
  "identity_descriptor \<Rightarrow> resolved_identity_field \<Rightarrow> nat \<Rightarrow> string \<Rightarrow> nat \<Rightarrow> string \<Rightarrow> string option
   \<Rightarrow> internal_entry" where
  "adapterEntry identity field fieldIndex entry entryIndex value fallbackSuffix =
     \<lparr>ne_opaqueEntryId =
        (case idd_resolveEntryId identity of
           Some resolveEntryId \<Rightarrow> resolveEntryId entry entryIndex (rif_key field) fieldIndex
         | None \<Rightarrow> ''entry-'' @ string_of_nat (entryIndex + 1) @ '':''
                    @ nullish fallbackSuffix (rif_key field)),
      ne_kind = rif_kind field,
      ne_dangerous = fieldDangerous (rif_field field) entry,
      ne_sensitivity = idf_sensitivity (rif_field field),
      ie_value = value\<rparr>"

subsection \<open>The adapter\<close>

definition isWildcard :: "identity_descriptor \<Rightarrow> string \<Rightarrow> bool" where
  "isWildcard identity = nullish (idd_isWildcardEntry identity) (\<lambda>value. value = ''*'')"

definition adapterNormalizeEntry ::
  "identity_descriptor \<Rightarrow> nat \<Rightarrow> string \<Rightarrow> internal_entry list" where
  "adapterNormalizeEntry identity entryIndex entry =
     (if isWildcard identity entry then
        [adapterEntry identity (hd (identityFields identity)) 0 entry entryIndex ''*'' (Some ''wildcard'')]
      else concat (map_index (\<lambda>fieldIndex field.
             case normalizeFieldValue (rif_field field) entry ModeEntry of
               None \<Rightarrow> []
             | Some value \<Rightarrow> [adapterEntry identity field fieldIndex entry entryIndex value None])
           (identityFields identity)))"

definition subjectKeys :: "identity_descriptor \<Rightarrow> ingress_subject \<Rightarrow> string list" where
  "subjectKeys identity subject =
     concat (map (\<lambda>identifier.
       case find (\<lambda>candidate. rif_kind candidate = mm_kind identifier) (identityFields identity) of
         None \<Rightarrow> []
       | Some field \<Rightarrow>
           (case normalizeFieldValue (rif_field field) (mm_value identifier) ModeSubject of
              None \<Rightarrow> []
            | Some value \<Rightarrow> [identityMatchKey (mm_kind identifier) value]))
       (sub_identifiers subject))"

definition entryMatches ::
  "identity_descriptor \<Rightarrow> ingress_subject \<Rightarrow> match_context \<Rightarrow> internal_entry \<Rightarrow> bool" where
  "entryMatches identity subject context entry =
     (let fallback = ie_value entry = ''*''
            \<or> identityMatchKey (ne_kind entry) (ie_value entry) \<in> set (subjectKeys identity subject)
      in nullish (Option.bind (idd_matchEntry identity) (\<lambda>f. f subject entry context)) fallback)"

definition createIdentityAdapter :: "identity_descriptor \<Rightarrow> ingress_adapter" where
  "createIdentityAdapter identity =
     \<lparr>normalizeEntries = (\<lambda>entries _ _.
        \<lparr>nr_matchable = concat (map_index (adapterNormalizeEntry identity) entries),
         nr_invalid = [], nr_disabled = []\<rparr>),
      matchSubject = (\<lambda>subject entries context.
        (let matchedEntryIds =
           map ne_opaqueEntryId (filter (entryMatches identity subject context) entries)
         in \<lparr>m_matched = length matchedEntryIds > 0, m_matchedEntryIds = matchedEntryIds\<rparr>))\<rparr>"

definition createIdentitySubject :: "identity_descriptor \<Rightarrow> identity_subject_input \<Rightarrow> ingress_subject" where
  "createIdentitySubject identity input =
     \<lparr>sub_identifiers = concat (map_index (\<lambda>index field.
        (let rawValue = (if index = 0 then isi_stableId input
                         else Option.bind (isi_aliases input) (\<lambda>aliases. aliases (rif_key field)))
         in case rawValue of
              None \<Rightarrow> []
            | Some raw \<Rightarrow>
                [\<lparr>mm_opaqueId = rif_key field, mm_kind = rif_kind field,
                  mm_dangerous = fieldDangerous (rif_field field) (js_String raw),
                  mm_sensitivity = idf_sensitivity (rif_field field),
                  mm_value = js_String raw\<rparr>]))
        (identityFields identity))\<rparr>"

subsection \<open>The adapter contract holds\<close>

interpretation identity_adapter: channel_adapter "createIdentityAdapter identity" for identity
  by unfold_locales (auto simp: createIdentityAdapter_def Let_def)

subsection \<open>Match keys\<close>

text \<open>A kind whose printed form has no colon beyond the plugin prefix.\<close>

definition plain_kind :: "identifier_kind \<Rightarrow> bool" where
  "plain_kind k = (case k of PluginKind s \<Rightarrow> CHR '':'' \<notin> set s | _ \<Rightarrow> True)"

lemma append_colon_inj:
  "CHR '':'' \<notin> set a \<Longrightarrow> CHR '':'' \<notin> set b \<Longrightarrow> a @ CHR '':'' # s = b @ CHR '':'' # t \<longleftrightarrow> a = b \<and> s = t"
proof (induction a arbitrary: b)
  case Nil
  then show ?case by (cases b) auto
next
  case (Cons x a)
  then show ?case by (cases b) auto
qed

lemma identityMatchKey_inj:
  assumes "plain_kind k" and "plain_kind k'"
  shows "identityMatchKey k v = identityMatchKey k' v' \<longleftrightarrow> k = k' \<and> v = v'"
  using assms
  by (cases k; cases k') (auto simp: identityMatchKey_def plain_kind_def append_colon_inj)

text \<open>The descriptor of a channel with one stable id and no hooks, and its subject.\<close>

definition plain_field :: identity_field where
  "plain_field = \<lparr>idf_key = None, idf_kind = None, idf_normalize = None, idf_normalizeEntry = None,
     idf_normalizeSubject = None, idf_dangerous = None, idf_sensitivity = None\<rparr>"

definition plain_identity :: identity_descriptor where
  "plain_identity = defineStableChannelIngressIdentity
     \<lparr>sip_field = plain_field, sip_aliases = None, sip_isWildcardEntry = None, sip_matchEntry = None,
      sip_entryIdPrefix = None, sip_resolveEntryId = None\<rparr>"

lemma map_index_single [simp]: "map_index f [x] = [f 0 x]"
  by (simp add: map_index_def)

lemma map_index_Nil [simp]: "map_index f [] = []"
  by (simp add: map_index_def)

lemma map_concat_map2:
  "length is = length xs \<Longrightarrow> (\<forall>i. \<forall>x\<in>set xs. map g (f i x) = [h x]) \<Longrightarrow>
     map g (concat (map2 f is xs)) = map h xs"
  by (induction "is" xs rule: list_induct2) auto

lemma map_concat_map_index:
  "(\<And>i x. x \<in> set xs \<Longrightarrow> map g (f i x) = [h x]) \<Longrightarrow> map g (concat (map_index f xs)) = map h xs"
  by (simp add: map_index_def map_concat_map2)

lemma plain_identity_fields:
  "identityFields plain_identity = [\<lparr>rif_key = ''stableId'', rif_kind = StableId, rif_field = plain_field\<rparr>]"
  by (simp add: identityFields_def plain_identity_def defineStableChannelIngressIdentity_def plain_field_def)

lemma plain_normalize [simp]:
  "normalizeFieldValue plain_field v m = (if js_trim v = [] then None else Some (js_trim v))"
  by (cases m) (simp_all add: normalizeFieldValue_def plain_field_def defaultNormalize_def)

lemma plain_wildcard [simp]: "isWildcard plain_identity = (\<lambda>v. v = ''*'')"
  by (simp add: isWildcard_def plain_identity_def defineStableChannelIngressIdentity_def)

lemma plain_subject_keys:
  "subjectKeys plain_identity (createIdentitySubject plain_identity input) =
     (case isi_stableId input of
        None \<Rightarrow> []
      | Some raw \<Rightarrow> if js_trim (js_String raw) = [] then []
                    else [identityMatchKey StableId (js_trim (js_String raw))])"
  by (simp add: subjectKeys_def createIdentitySubject_def plain_identity_fields split: option.split)

lemma adapterEntry_value [simp]:
  "ie_value (adapterEntry i f fi e ei v s) = v" "ne_kind (adapterEntry i f fi e ei v s) = rif_kind f"
  by (simp_all add: adapterEntry_def)

lemma plain_entryMatches:
  "entryMatches plain_identity subject ctx e \<longleftrightarrow>
     ie_value e = ''*'' \<or> identityMatchKey (ne_kind e) (ie_value e) \<in> set (subjectKeys plain_identity subject)"
  by (simp add: entryMatches_def plain_identity_def defineStableChannelIngressIdentity_def)

text \<open>With the plain identity a list of trimmed entries matches the sender exactly when it holds the
  wildcard or the sender's trimmed id.\<close>

lemma plain_adapter_match:
  assumes "\<forall>e\<in>set entries. clean_string e"
  shows "m_matched (re_match (normalizeAndMatch (createIdentityAdapter plain_identity)
           (createIdentitySubject plain_identity input) acct entries ctx)) \<longleftrightarrow>
     ''*'' \<in> set entries
     \<or> (\<exists>raw. isi_stableId input = Some raw \<and> js_trim (js_String raw) \<in> set entries)"
proof -
  let ?subject = "createIdentitySubject plain_identity input"
  let ?keys = "set (subjectKeys plain_identity ?subject)"
  let ?es = "concat (map_index (adapterNormalizeEntry plain_identity) entries)"
  let ?kv = "\<lambda>x::internal_entry. (ne_kind x, ie_value x)"
  let ?hit = "\<lambda>(k, v). v = ''*'' \<or> identityMatchKey k v \<in> ?keys"
  have "map ?kv (adapterNormalizeEntry plain_identity i e) = [(StableId, e)]" if "e \<in> set entries" for i e
    using assms that
    by (auto simp: adapterNormalizeEntry_def plain_identity_fields clean_string_def)
  then have kv: "map ?kv ?es = map (Pair StableId) entries"
    by (rule map_concat_map_index)
  have "(\<exists>x\<in>set ?es. entryMatches plain_identity ?subject ctx x) \<longleftrightarrow> (\<exists>p\<in>set (map ?kv ?es). ?hit p)"
    by (simp add: plain_entryMatches)
  also have "\<dots> \<longleftrightarrow> (\<exists>e\<in>set entries. e = ''*'' \<or> identityMatchKey StableId e \<in> ?keys)"
    unfolding kv by simp
  also have "\<dots> \<longleftrightarrow> ''*'' \<in> set entries
      \<or> (\<exists>raw. isi_stableId input = Some raw \<and> js_trim (js_String raw) \<in> set entries)"
    using assms by (cases "isi_stableId input")
      (auto simp: plain_subject_keys identityMatchKey_def clean_string_def split: if_splits)
  finally have hit: "(\<exists>x\<in>set ?es. entryMatches plain_identity ?subject ctx x) \<longleftrightarrow>
      ''*'' \<in> set entries \<or> (\<exists>raw. isi_stableId input = Some raw \<and> js_trim (js_String raw) \<in> set entries)" .
  have "length entries = length ?es" using arg_cong [OF kv, of length] by simp
  then have "entries \<noteq> [] \<Longrightarrow> ?es \<noteq> []" by fastforce
  with hit show ?thesis
    by (auto simp: normalizeAndMatch_def createIdentityAdapter_def emptyMatch_def Let_def
        filter_empty_conv)
qed

end
