(* ===== verification/Access_Runtime.thy ===== *)
theory Access_Runtime
  imports Access_Identity
begin

text \<open>
  The runtime resolver of channel ingress: \<open>effective-allow-from.ts\<close>,
  \<open>store-allow-from.ts\<close>, \<open>dm-allow-state.ts\<close>, \<open>runtime-access-groups.ts\<close>
  and \<open>runtime.ts\<close> of \<open>src/channels/message-access\<close>. A promise that may reject is a
  sum: \<open>Inl ()\<close> for the rejection. The pairing store reader that is used by default and the
  collation of route ids are parameters.
\<close>

type_synonym 'a promise = "unit + 'a"

definition catch_with :: "'a promise \<Rightarrow> 'a \<Rightarrow> 'a" where
  "catch_with p fallback = (case p of Inl _ \<Rightarrow> fallback | Inr v \<Rightarrow> v)"

fun dm_policy_string :: "dm_policy \<Rightarrow> string" where
  "dm_policy_string DmPairing = ''pairing''"
| "dm_policy_string DmAllowlist = ''allowlist''"
| "dm_policy_string DmOpen = ''open''"
| "dm_policy_string DmDisabled = ''disabled''"

subsection \<open>effective-allow-from.ts, store-allow-from.ts, dm-allow-state.ts\<close>

record effective_lists =
  ef_effectiveAllowFrom :: "string list"
  ef_effectiveGroupAllowFrom :: "string list"

definition resolveChannelIngressEffectiveAllowFromLists ::
  "js_value list option \<Rightarrow> js_value list option \<Rightarrow> js_value list option \<Rightarrow> string option
   \<Rightarrow> bool option \<Rightarrow> effective_lists" where
  "resolveChannelIngressEffectiveAllowFromLists allowFrom groupAllowFrom storeAllowFrom dmPolicy
     groupAllowFromFallbackToAllowFrom =
     \<lparr>ef_effectiveAllowFrom =
        normalizeStringEntries (Some (map JStr (mergeDmAllowFromSources allowFrom storeAllowFrom dmPolicy))),
      ef_effectiveGroupAllowFrom =
        normalizeStringEntries (Some (map JStr (resolveGroupAllowFromSources allowFrom groupAllowFrom
          groupAllowFromFallbackToAllowFrom)))\<rparr>"

definition readChannelIngressStoreAllowFromForDmPolicy ::
  "(string \<Rightarrow> string \<Rightarrow> string list promise) \<Rightarrow> string \<Rightarrow> string \<Rightarrow> string option \<Rightarrow> bool option
   \<Rightarrow> string list" where
  "readChannelIngressStoreAllowFromForDmPolicy readStore provider accountId dmPolicy shouldRead =
     (if shouldRead = Some False \<or> dmPolicy = Some ''allowlist'' \<or> dmPolicy = Some ''open'' then []
      else catch_with (readStore provider accountId) [])"

record dm_allow_audit =
  daa_configAllowFrom :: "string list"
  daa_hasWildcard :: bool
  daa_allowCount :: nat
  daa_isMultiUserDm :: bool

definition resolveDmAllowAuditState ::
  "(string \<Rightarrow> string \<Rightarrow> string list promise) \<Rightarrow> string \<Rightarrow> string \<Rightarrow> js_value list option \<Rightarrow> string option
   \<Rightarrow> (string \<Rightarrow> string) option \<Rightarrow> dm_allow_audit" where
  "resolveDmAllowAuditState readStore provider accountId allowFrom dmPolicy normalizeEntryFn =
     (let configAllowFrom = normalizeStringEntries allowFrom;
          hasWildcard = ''*'' \<in> set configAllowFrom;
          storeAllowFrom = readChannelIngressStoreAllowFromForDmPolicy readStore provider accountId
            dmPolicy None;
          normalizeEntry = nullish normalizeEntryFn (\<lambda>value. value);
          normalizedCfg = normalizeStringEntries (Some (map (JStr \<circ> normalizeEntry)
            (filter (\<lambda>value. value \<noteq> ''*'') configAllowFrom)));
          normalizedStore = normalizeStringEntries (Some (map (JStr \<circ> normalizeEntry) storeAllowFrom));
          allowCount = length (js_set_of (normalizedCfg @ normalizedStore))
      in \<lparr>daa_configAllowFrom = configAllowFrom, daa_hasWildcard = hasWildcard,
          daa_allowCount = allowCount, daa_isMultiUserDm = hasWildcard \<or> allowCount > 1\<rparr>)"

subsection \<open>Inputs of the runtime\<close>

datatype group_owner_allow = OwnerConfigured | OwnerNone

datatype direct_group_allow = DirectEffective | DirectNone

record command_input = command_policy +
  ci_commandOwnerAllowFrom :: "js_value list option"
  ci_groupOwnerAllowFrom :: "group_owner_allow option"
  ci_directGroupAllowFrom :: "direct_group_allow option"
  ci_commandGroupAllowFromFallbackToAllowFrom :: "bool option"

record route_descriptor =
  rd_id :: string
  rd_kind :: "route_kind option"
  rd_configured :: "bool option"
  rd_matched :: "bool option"
  rd_allowed :: "bool option"
  rd_enabled :: "bool option"
  rd_precedence :: "int option"
  rd_senderPolicy :: "route_sender_policy option"
  rd_senderAllowFrom :: "js_value list option"
  rd_senderAllowFromSource :: "route_sender_source option"
  rd_matchId :: "string option"
  rd_blockReason :: "string option"

type_synonym membership_resolver =
  "string \<Rightarrow> access_group_config \<Rightarrow> string \<Rightarrow> string \<Rightarrow> identity_subject_input \<Rightarrow> bool promise"

type_synonym store_reader = "string \<Rightarrow> string \<Rightarrow> dm_policy \<Rightarrow> js_value list option promise"

record ingress_params =
  ip_channelId :: string
  ip_accountId :: string
  ip_identity :: identity_descriptor
  ip_subject :: identity_subject_input
  ip_conversation :: conversation
  ip_event :: event_input
  ip_policy :: ingress_policy
  ip_allowFrom :: "js_value list option"
  ip_groupAllowFrom :: "js_value list option"
  ip_route :: "route_descriptor list"
  ip_routeFacts :: "route_facts list option"
  ip_accessGroups :: "(string \<rightharpoonup> access_group_config) option"
  ip_accessGroupMembership :: "membership_fact list option"
  ip_resolveAccessGroupMembership :: "membership_resolver option"
  ip_accessGroupMatchedAllowFromEntry :: "js_value option"
  ip_providerMissingFallbackApplied :: "bool option"
  ip_mentionFacts :: "mention_facts option"
  ip_readStoreAllowFrom :: "store_reader option"
  ip_useDefaultPairingStore :: "bool option"
  ip_command :: "command_input option"

record sender_access =
  sa_allowed :: bool
  sa_decision :: decision_kind
  sa_reasonCode :: reason_code
  sa_gate :: "gate option"
  sa_effectiveAllowFrom :: "string list"
  sa_effectiveGroupAllowFrom :: "string list"
  sa_providerMissingFallbackApplied :: bool

record route_access =
  ra_allowed :: bool
  ra_reasonCode :: "reason_code option"
  ra_reason :: "string option"
  ra_gate :: "gate option"

record command_access =
  cma_requested :: bool
  cma_authorized :: bool
  cma_shouldBlockControlCommand :: bool
  cma_reasonCode :: reason_code
  cma_gate :: "gate option"

record activation_access =
  aa_ran :: bool
  aa_allowed :: bool
  aa_shouldSkip :: bool
  aa_reasonCode :: reason_code
  aa_effectiveWasMentioned :: "bool option"
  aa_shouldBypassMention :: "bool option"
  aa_gate :: "gate option"

record resolved_ingress =
  ri_state :: ingress_state
  ri_ingress :: ingress_decision
  ri_senderAccess :: sender_access
  ri_routeAccess :: route_access
  ri_commandAccess :: command_access
  ri_activationAccess :: activation_access

subsection \<open>runtime-access-groups.ts\<close>

definition accessGroupNames :: "js_value list \<Rightarrow> string list" where
  "accessGroupNames entries =
     uniqueStrings (List.map_filter (\<lambda>entry. parseAccessGroupAllowFromEntry (js_String entry)) entries)"

definition allReferencedAccessGroupNames :: "js_value list list \<Rightarrow> string list" where
  "allReferencedAccessGroupNames entries = uniqueStrings (concat (map accessGroupNames entries))"

definition normalizeEffectiveEntries ::
  "ingress_adapter \<Rightarrow> string \<Rightarrow> js_value list \<Rightarrow> match_context \<Rightarrow> string list" where
  "normalizeEffectiveEntries adapter accountId entries context =
     (let rawEntries = normalizeStringEntries (Some entries);
          accessGroupEntries = filter (\<lambda>entry. parseAccessGroupAllowFromEntry entry \<noteq> None) rawEntries;
          directEntries = filter (\<lambda>entry. parseAccessGroupAllowFromEntry entry = None) rawEntries
      in if length directEntries = 0 then accessGroupEntries
         else (let normalized = normalizeEntries adapter directEntries context accountId
               in uniqueStrings (accessGroupEntries @ map ie_value (nr_matchable normalized))))"

definition runtimeMembershipFact ::
  "membership_resolver \<Rightarrow> ingress_params \<Rightarrow> string \<Rightarrow> string \<Rightarrow> membership_fact list" where
  "runtimeMembershipFact resolver input channelId name =
     (case Option.bind (ip_accessGroups input) (\<lambda>groups. groups name) of
        None \<Rightarrow> []
      | Some (MessageSenders _) \<Rightarrow> []
      | Some grp \<Rightarrow>
          (case resolver name grp channelId (ip_accountId input) (ip_subject input) of
             Inr matched \<Rightarrow>
               if matched then [FactMatched name SrcDynamic [''access-group:'' @ name]]
               else [FactNotMatched name SrcDynamic]
           | Inl _ \<Rightarrow>
               [FactFailure GfFailed name SrcDynamic R_access_group_failed
                  (Some (''access-group:'' @ name))]))"

definition resolveRuntimeAccessGroupMembershipFacts ::
  "ingress_params \<Rightarrow> string \<Rightarrow> string list \<Rightarrow> membership_fact list" where
  "resolveRuntimeAccessGroupMembershipFacts input channelId names =
     (case ip_resolveAccessGroupMembership input of
        None \<Rightarrow> []
      | Some resolver \<Rightarrow>
          if length names = 0 then []
          else concat (map (runtimeMembershipFact resolver input channelId) names))"

subsection \<open>Store reads, channel ids, gate lookup\<close>

definition shouldReadStore :: "conversation_kind \<Rightarrow> dm_policy \<Rightarrow> bool" where
  "shouldReadStore conversationKind dmPolicy \<longleftrightarrow>
     conversationKind = ConvDirect \<and> dmPolicy \<noteq> DmAllowlist \<and> dmPolicy \<noteq> DmOpen"

definition readStoreAllowFrom ::
  "(string \<Rightarrow> string \<Rightarrow> string list promise) \<Rightarrow> ingress_params \<Rightarrow> string \<Rightarrow> js_value list" where
  "readStoreAllowFrom pairingStore params channelId =
     (if \<not> shouldReadStore (cv_kind (ip_conversation params)) (pol_dmPolicy (ip_policy params)) then []
      else nullish
        (case ip_readStoreAllowFrom params of
           Some reader \<Rightarrow>
             catch_with (reader channelId (ip_accountId params) (pol_dmPolicy (ip_policy params))) (Some [])
         | None \<Rightarrow>
             if truthy (ip_useDefaultPairingStore params) then
               Some (map JStr (readChannelIngressStoreAllowFromForDmPolicy pairingStore channelId
                 (ip_accountId params) (Some (dm_policy_string (pol_dmPolicy (ip_policy params)))) None))
             else Some [])
        [])"

definition commandRequested :: "ingress_policy \<Rightarrow> bool" where
  "commandRequested policy \<longleftrightarrow> pol_command policy \<noteq> None"

datatype ingress_error = EmptyChannelId

definition normalizeChannelId :: "string \<Rightarrow> ingress_error + string" where
  "normalizeChannelId i =
     (let trimmed = js_trim i in if trimmed = [] then Inl EmptyChannelId else Inr trimmed)"

definition findIngressGate :: "ingress_decision \<Rightarrow> gate_phase \<Rightarrow> gate_kind \<Rightarrow> gate option" where
  "findIngressGate ingress phase kind =
     find (\<lambda>gate. g_phase gate = phase \<and> g_kind gate = kind) (d_gates ingress)"

definition findSenderGate :: "ingress_decision \<Rightarrow> bool \<Rightarrow> gate option" where
  "findSenderGate ingress isGroup =
     findIngressGate ingress PhSender (if isGroup then K_groupSender else K_dmSender)"

subsection \<open>Route descriptors\<close>

definition channelIngressRoutes :: "route_descriptor option list \<Rightarrow> route_descriptor list" where
  "channelIngressRoutes routes = List.map_filter (\<lambda>route. route) routes"

definition routeDescriptorMatch :: "route_descriptor \<Rightarrow> ingress_match" where
  "routeDescriptorMatch descriptor =
     (let matched = nullish (rd_matched descriptor)
            (nullish (rd_allowed descriptor) (rd_enabled descriptor \<noteq> Some False))
      in \<lparr>m_matched = matched,
          m_matchedEntryIds =
            (case rd_matchId descriptor of
               Some matchId \<Rightarrow> if matched \<and> matchId \<noteq> [] then [matchId] else []
             | None \<Rightarrow> [])\<rparr>)"

text \<open>\<open>routeFact\<close> over the defaults of a descriptor (\<open>routeFactDefaults\<close>); the
  kind and the sender policy may be overridden.\<close>

definition routeFact ::
  "route_descriptor \<Rightarrow> route_kind option \<Rightarrow> route_sender_policy option \<Rightarrow> route_gate_state
   \<Rightarrow> route_effect \<Rightarrow> route_facts" where
  "routeFact descriptor kind senderPolicy gate effect =
     \<lparr>rf_id = rd_id descriptor, rf_kind = nullish kind RkRoute, rf_gate = gate, rf_effect = effect,
      rf_precedence = nullish (rd_precedence descriptor) 0,
      rf_senderPolicy = nullish senderPolicy SpInherit,
      rf_senderAllowFrom = rd_senderAllowFrom descriptor,
      rf_senderAllowFromSource = rd_senderAllowFromSource descriptor,
      rf_match = Some (routeDescriptorMatch descriptor)\<rparr>"

definition routeFactsFromDescriptor :: "route_descriptor \<Rightarrow> route_facts list" where
  "routeFactsFromDescriptor descriptor =
     (if rd_configured descriptor = Some False then []
      else if rd_enabled descriptor = Some False then
        [routeFact descriptor (rd_kind descriptor) (rd_senderPolicy descriptor) GateDisabled ReBlockDispatch]
      else (case rd_allowed descriptor of
        Some allowed \<Rightarrow>
          [routeFact descriptor (rd_kind descriptor) (rd_senderPolicy descriptor)
             (if allowed then GateMatched else GateNotMatched)
             (if allowed then ReAllow else ReBlockDispatch)]
      | None \<Rightarrow>
          if rd_senderPolicy descriptor \<noteq> Some SpDenyWhenEmpty \<and> rd_senderAllowFrom descriptor = None
             \<and> rd_senderAllowFromSource descriptor = None
          then []
          else [routeFact descriptor
                  (if rd_senderPolicy descriptor = Some SpDenyWhenEmpty then rd_kind descriptor
                   else Some RkRouteSender)
                  (rd_senderPolicy descriptor) GateMatched ReAllow]))"

definition routeFactsFromDescriptors :: "route_descriptor list \<Rightarrow> route_facts list" where
  "routeFactsFromDescriptors route = concat (map routeFactsFromDescriptor route)"

definition routeDescriptorForGate :: "route_descriptor list \<Rightarrow> gate \<Rightarrow> route_descriptor option" where
  "routeDescriptorForGate descriptors gate =
     (let senderSuffix = '':sender'';
          baseGateId = (if js_endsWith (g_id gate) senderSuffix
                        then take (length (g_id gate) - length senderSuffix) (g_id gate) else g_id gate)
      in find (\<lambda>descriptor. rd_id descriptor = g_id gate \<or> rd_id descriptor = baseGateId) descriptors)"

subsection \<open>Projections\<close>

abbreviation nonempty_string :: "string option \<Rightarrow> bool" where
  "nonempty_string s \<equiv> s \<noteq> None \<and> s \<noteq> Some []"

definition projectRouteAccess :: "ingress_decision \<Rightarrow> route_descriptor list \<Rightarrow> route_access" where
  "projectRouteAccess ingress descriptors =
     (case find (\<lambda>entry. g_phase entry = PhRoute \<and> g_effect entry = EffBlockDispatch) (d_gates ingress) of
        Some routeBlock \<Rightarrow>
          \<lparr>ra_allowed = g_allowed routeBlock, ra_reasonCode = Some (g_reasonCode routeBlock),
           ra_reason =
             (let reason = Option.bind (routeDescriptorForGate descriptors routeBlock) rd_blockReason
              in if nonempty_string reason then reason else None),
           ra_gate = Some routeBlock\<rparr>
      | None \<Rightarrow>
          (let routeSenderReplacement =
                 find (\<lambda>descriptor. rd_senderPolicy descriptor = Some SpReplace
                         \<and> nonempty_string (rd_blockReason descriptor)) descriptors;
               senderBlock =
                 find (\<lambda>entry. g_phase entry = PhSender \<and> g_effect entry = EffBlockDispatch) (d_gates ingress)
           in case (routeSenderReplacement, senderBlock) of
                (Some replacement, Some block) \<Rightarrow>
                  \<lparr>ra_allowed = False, ra_reasonCode = Some (g_reasonCode block),
                   ra_reason = rd_blockReason replacement, ra_gate = Some block\<rparr>
              | _ \<Rightarrow>
                  (case find (\<lambda>entry. g_phase entry = PhRoute) (d_gates ingress) of
                     Some gate \<Rightarrow>
                       \<lparr>ra_allowed = g_allowed gate, ra_reasonCode = Some (g_reasonCode gate),
                        ra_reason = None, ra_gate = Some gate\<rparr>
                   | None \<Rightarrow>
                       \<lparr>ra_allowed = True, ra_reasonCode = None, ra_reason = None, ra_gate = None\<rparr>)))"

definition projectSenderAccess ::
  "ingress_decision \<Rightarrow> bool \<Rightarrow> string list \<Rightarrow> string list \<Rightarrow> bool option \<Rightarrow> sender_access" where
  "projectSenderAccess ingress isGroup effectiveAllowFrom effectiveGroupAllowFrom
     providerMissingFallbackApplied =
     (let gate = findSenderGate ingress isGroup;
          reasonCode =
            (if gate = None \<and> isGroup \<and> d_reasonCode ingress = R_route_sender_empty
                \<and> length effectiveGroupAllowFrom = 0
             then R_group_policy_empty_allowlist
             else nullish (map_option g_reasonCode gate) (d_reasonCode ingress));
          decision =
            (if reasonCode = R_dm_policy_pairing_required then DecPairing
             else if map_option g_allowed gate = Some True then DecAllow else DecBlock)
      in \<lparr>sa_allowed = (decision = DecAllow), sa_decision = decision, sa_reasonCode = reasonCode,
          sa_gate = gate, sa_effectiveAllowFrom = effectiveAllowFrom,
          sa_effectiveGroupAllowFrom = effectiveGroupAllowFrom,
          sa_providerMissingFallbackApplied = nullish providerMissingFallbackApplied False\<rparr>)"

definition projectCommandAccess :: "ingress_decision \<Rightarrow> ingress_policy \<Rightarrow> command_access" where
  "projectCommandAccess ingress policy =
     (let gate = findIngressGate ingress PhCommand K_command
      in \<lparr>cma_requested = commandRequested policy,
          cma_authorized =
            (if commandRequested policy then map_option g_allowed gate = Some True else False),
          cma_shouldBlockControlCommand =
            (map_option cf_shouldBlockControlCommand (Option.bind gate g_command) = Some True),
          cma_reasonCode = nullish (map_option g_reasonCode gate) (d_reasonCode ingress),
          cma_gate = gate\<rparr>)"

definition projectActivationAccess :: "ingress_decision \<Rightarrow> activation_access" where
  "projectActivationAccess ingress =
     (let gate = findIngressGate ingress PhActivation K_mention;
          activation = Option.bind gate g_activation
      in \<lparr>aa_ran = (gate \<noteq> None), aa_allowed = (map_option g_allowed gate = Some True),
          aa_shouldSkip = (map_option act_shouldSkip activation = Some True),
          aa_reasonCode = nullish (map_option g_reasonCode gate) (d_reasonCode ingress),
          aa_effectiveWasMentioned = Option.bind activation act_effectiveWasMentioned,
          aa_shouldBypassMention = Option.bind activation act_shouldBypassMention,
          aa_gate = gate\<rparr>)"

subsection \<open>Command allowlists\<close>

definition commandOwnerAllowFrom ::
  "command_input option \<Rightarrow> bool \<Rightarrow> js_value list \<Rightarrow> string list \<Rightarrow> js_value list" where
  "commandOwnerAllowFrom command isGroup configuredAllowFrom effectiveAllowFrom =
     (case Option.bind command ci_commandOwnerAllowFrom of
        Some owner \<Rightarrow> owner
      | None \<Rightarrow>
          if \<not> isGroup then map JStr effectiveAllowFrom
          else if Option.bind command ci_groupOwnerAllowFrom = Some OwnerNone then []
          else configuredAllowFrom)"

definition commandGroupAllowFrom :: "command_input option \<Rightarrow> bool \<Rightarrow> string list \<Rightarrow> js_value list" where
  "commandGroupAllowFrom command isGroup effectiveCommandGroupAllowFrom =
     (if isGroup then map JStr effectiveCommandGroupAllowFrom
      else if Option.bind command ci_directGroupAllowFrom = Some DirectEffective
      then map JStr effectiveCommandGroupAllowFrom
      else [])"

definition accessGroupMatchedEntry :: "ingress_params \<Rightarrow> string option" where
  "accessGroupMatchedEntry params =
     map_option js_String
       (nullish_or (ip_accessGroupMatchedAllowFromEntry params) (isi_stableId (ip_subject params)))"

definition appendAccessGroupMatchedEntry ::
  "string list \<Rightarrow> resolved_allowlist \<Rightarrow> string option \<Rightarrow> string list" where
  "appendAccessGroupMatchedEntry entries allowlist matchedEntry =
     (case matchedEntry of
        Some e \<Rightarrow>
          if e \<noteq> [] \<and> length (ag_matched (al_accessGroups allowlist)) > 0
          then uniqueStrings (entries @ [e]) else entries
      | None \<Rightarrow> entries)"

subsection \<open>Resolving one event\<close>

text \<open>The input of the state resolver that \<open>resolveChannelMessageIngress\<close> assembles.\<close>

definition runtimeStateInput ::
  "(string \<Rightarrow> string \<Rightarrow> string list promise) \<Rightarrow> ingress_params \<Rightarrow> string \<Rightarrow> state_input" where
  "runtimeStateInput pairingStore params channelId =
     (let routeFacts = routeFactsFromDescriptors (ip_route params) @ nullish (ip_routeFacts params) [];
          rawAllowFrom = normalizeStringEntries (Some (nullish (ip_allowFrom params) []));
          rawStoreAllowFrom =
            normalizeStringEntries (Some (readStoreAllowFrom pairingStore params channelId));
          rawGroupAllowFrom = normalizeStringEntries (Some (nullish (ip_groupAllowFrom params) []));
          referenced = allReferencedAccessGroupNames
            ([map JStr rawAllowFrom, map JStr rawGroupAllowFrom, map JStr rawStoreAllowFrom,
              nullish (Option.bind (ip_command params) ci_commandOwnerAllowFrom) []]
             @ map (\<lambda>route. nullish (rf_senderAllowFrom route) []) routeFacts);
          membership = resolveRuntimeAccessGroupMembershipFacts params channelId referenced
            @ nullish (ip_accessGroupMembership params) [];
          dmPolicy = Some (dm_policy_string (pol_dmPolicy (ip_policy params)));
          rawEffective = resolveChannelIngressEffectiveAllowFromLists (Some (map JStr rawAllowFrom))
            (Some (map JStr rawGroupAllowFrom)) (Some (map JStr rawStoreAllowFrom)) dmPolicy
            (pol_groupAllowFromFallbackToAllowFrom (ip_policy params));
          rawCommandGroup = resolveChannelIngressEffectiveAllowFromLists (Some (map JStr rawAllowFrom))
            (Some (map JStr rawGroupAllowFrom)) None dmPolicy
            (nullish_or (Option.bind (ip_command params) ci_commandGroupAllowFromFallbackToAllowFrom)
               (pol_groupAllowFromFallbackToAllowFrom (ip_policy params)));
          isGroup = cv_kind (ip_conversation params) \<noteq> ConvDirect
      in \<lparr>si_channelId = channelId, si_accountId = ip_accountId params,
          si_subject = createIdentitySubject (ip_identity params) (ip_subject params),
          si_conversation = ip_conversation params,
          si_adapter = createIdentityAdapter (ip_identity params),
          si_accessGroups = ip_accessGroups params,
          si_accessGroupMembership = Some membership,
          si_routeFacts = Some routeFacts,
          si_mentionFacts = ip_mentionFacts params,
          si_event = ip_event params,
          si_allowlists =
            \<lparr>li_dm = Some (map JStr rawAllowFrom),
             li_group = Some (map JStr (ef_effectiveGroupAllowFrom rawEffective)),
             li_commandOwner = Some (commandOwnerAllowFrom (ip_command params) isGroup
               (map JStr rawAllowFrom) (ef_effectiveAllowFrom rawEffective)),
             li_commandGroup = Some (commandGroupAllowFrom (ip_command params) isGroup
               (ef_effectiveGroupAllowFrom rawCommandGroup)),
             li_pairingStore = Some (map JStr rawStoreAllowFrom)\<rparr>\<rparr>)"

definition runtimePolicy :: "ingress_params \<Rightarrow> ingress_policy" where
  "runtimePolicy params =
     (case ip_command params of
        Some command \<Rightarrow> (ip_policy params)\<lparr>pol_command := Some (command_policy.truncate command)\<rparr>
      | None \<Rightarrow> ip_policy params)"

definition baseEffectiveLists ::
  "(string \<Rightarrow> string \<Rightarrow> string list promise) \<Rightarrow> ingress_params \<Rightarrow> string \<Rightarrow> effective_lists" where
  "baseEffectiveLists pairingStore params channelId =
     (let adapter = createIdentityAdapter (ip_identity params);
          normalizeEffective = (\<lambda>entries context.
            Some (map JStr (normalizeEffectiveEntries adapter (ip_accountId params) (map JStr entries) context)));
          rawAllowFrom = normalizeStringEntries (Some (nullish (ip_allowFrom params) []));
          rawStoreAllowFrom =
            normalizeStringEntries (Some (readStoreAllowFrom pairingStore params channelId));
          rawGroupAllowFrom = normalizeStringEntries (Some (nullish (ip_groupAllowFrom params) []))
      in resolveChannelIngressEffectiveAllowFromLists (normalizeEffective rawAllowFrom CtxDm)
           (normalizeEffective rawGroupAllowFrom CtxGroup) (normalizeEffective rawStoreAllowFrom CtxDm)
           (Some (dm_policy_string (pol_dmPolicy (ip_policy params))))
           (pol_groupAllowFromFallbackToAllowFrom (ip_policy params)))"

definition resolveChannelMessageIngress ::
  "(string \<Rightarrow> string \<Rightarrow> int) \<Rightarrow> (string \<Rightarrow> string \<Rightarrow> string list promise) \<Rightarrow> ingress_params
   \<Rightarrow> ingress_error + resolved_ingress" where
  "resolveChannelMessageIngress localeCompare pairingStore params =
     (case normalizeChannelId (ip_channelId params) of
        Inl e \<Rightarrow> Inl e
      | Inr channelId \<Rightarrow>
          (let baseEffective = baseEffectiveLists pairingStore params channelId;
               isGroup = cv_kind (ip_conversation params) \<noteq> ConvDirect;
               policy = runtimePolicy params;
               state = resolveChannelIngressState localeCompare
                 (runtimeStateInput pairingStore params channelId);
               ingress = decideChannelIngress state policy;
               matchedAccessGroupEntry = accessGroupMatchedEntry params;
               effectiveAllowFrom = appendAccessGroupMatchedEntry
                 (ef_effectiveAllowFrom baseEffective) (sl_dm (st_allowlists state)) matchedAccessGroupEntry;
               effectiveGroupAllowFrom = appendAccessGroupMatchedEntry
                 (ef_effectiveGroupAllowFrom baseEffective) (sl_group (st_allowlists state)) matchedAccessGroupEntry
           in Inr \<lparr>ri_state = state, ri_ingress = ingress,
                   ri_senderAccess = projectSenderAccess ingress isGroup effectiveAllowFrom
                     effectiveGroupAllowFrom (ip_providerMissingFallbackApplied params),
                   ri_routeAccess = projectRouteAccess ingress (ip_route params),
                   ri_commandAccess = projectCommandAccess ingress policy,
                   ri_activationAccess = projectActivationAccess ingress\<rparr>))"

subsection \<open>Presets and the reusable resolver\<close>

record command_preset =
  cpr_requested :: "bool option"
  cpr_useAccessGroups :: "bool option"
  cpr_allowTextCommands :: "bool option"
  cpr_hasControlCommand :: "bool option"
  cpr_modeWhenAccessGroupsOff :: "command_gating_mode option"
  cpr_commandOwnerAllowFrom :: "js_value list option"
  cpr_groupOwnerAllowFrom :: "group_owner_allow option"
  cpr_directGroupAllowFrom :: "direct_group_allow option"
  cpr_commandGroupAllowFromFallbackToAllowFrom :: "bool option"

record event_preset =
  epr_isGroup :: "bool option"
  epr_kind :: "event_kind option"
  epr_authMode :: "auth_mode option"
  epr_mayPair :: "bool option"
  epr_originSubject :: "ingress_subject option"

definition useAccessGroupsFromConfig :: "bool option \<Rightarrow> bool" where
  "useAccessGroupsFromConfig useAccessGroups = nullish useAccessGroups True"

definition channelIngressCommand :: "command_preset \<Rightarrow> command_input option" where
  "channelIngressCommand params =
     (if cpr_requested params = Some False then None
      else Some \<lparr>cp_useAccessGroups = Some (useAccessGroupsFromConfig (cpr_useAccessGroups params)),
                 cp_allowTextCommands = nullish (cpr_allowTextCommands params) False,
                 cp_hasControlCommand = nullish (cpr_hasControlCommand params) True,
                 cp_modeWhenAccessGroupsOff = cpr_modeWhenAccessGroupsOff params,
                 ci_commandOwnerAllowFrom = cpr_commandOwnerAllowFrom params,
                 ci_groupOwnerAllowFrom = cpr_groupOwnerAllowFrom params,
                 ci_directGroupAllowFrom = cpr_directGroupAllowFrom params,
                 ci_commandGroupAllowFromFallbackToAllowFrom =
                   cpr_commandGroupAllowFromFallbackToAllowFrom params\<rparr>)"

definition channelIngressEvent :: "event_preset \<Rightarrow> event_input" where
  "channelIngressEvent params =
     (let isGroup = nullish (epr_isGroup params) False
      in \<lparr>ei_kind = nullish (epr_kind params) EvMessage,
          ei_authMode = nullish (epr_authMode params) AuthInbound,
          ei_mayPair = nullish (epr_mayPair params) (\<not> isGroup),
          ei_originSubject = epr_originSubject params\<rparr>)"

text \<open>Object spread of presets: the fields of the later one win where it has them.\<close>

definition spread_event :: "event_preset \<Rightarrow> event_preset \<Rightarrow> event_preset" where
  "spread_event early late =
     \<lparr>epr_isGroup = nullish_or (epr_isGroup late) (epr_isGroup early),
      epr_kind = nullish_or (epr_kind late) (epr_kind early),
      epr_authMode = nullish_or (epr_authMode late) (epr_authMode early),
      epr_mayPair = nullish_or (epr_mayPair late) (epr_mayPair early),
      epr_originSubject = nullish_or (epr_originSubject late) (epr_originSubject early)\<rparr>"

definition empty_event :: event_preset where
  "empty_event = \<lparr>epr_isGroup = None, epr_kind = None, epr_authMode = None, epr_mayPair = None,
     epr_originSubject = None\<rparr>"

definition resolveCommandInput :: "command_preset option \<Rightarrow> bool option \<Rightarrow> command_input option" where
  "resolveCommandInput command useAccessGroups =
     (case command of
        None \<Rightarrow> None
      | Some c \<Rightarrow>
          channelIngressCommand (c\<lparr>cpr_useAccessGroups := nullish_or (cpr_useAccessGroups c) useAccessGroups\<rparr>))"

record resolver_base =
  rb_channelId :: string
  rb_accountId :: string
  rb_identity :: identity_descriptor
  rb_accessGroups :: "(string \<rightharpoonup> access_group_config) option"
  rb_cfgAccessGroups :: "(string \<rightharpoonup> access_group_config) option"
  rb_accessGroupMembership :: "membership_fact list option"
  rb_resolveAccessGroupMembership :: "membership_resolver option"
  rb_accessGroupMatchedAllowFromEntry :: "js_value option"
  rb_readStoreAllowFrom :: "store_reader option"
  rb_useDefaultPairingStore :: "bool option"
  rb_useAccessGroups :: "bool option"
  rb_defaultDmPolicy :: "dm_policy option"
  rb_defaultGroupPolicy :: "group_policy option"
  rb_groupAllowFromFallbackToAllowFrom :: "bool option"
  rb_mutableIdentifierMatching :: "mutable_matching option"

record resolver_message =
  rm_subject :: identity_subject_input
  rm_conversation :: conversation
  rm_event :: "event_preset option"
  rm_dmPolicy :: "dm_policy option"
  rm_groupPolicy :: "group_policy option"
  rm_policyFallback :: "bool option"
  rm_policyMutable :: "mutable_matching option"
  rm_policyActivation :: "activation_policy option"
  rm_allowFrom :: "js_value list option"
  rm_groupAllowFrom :: "js_value list option"
  rm_route :: "route_descriptor list"
  rm_routeFacts :: "route_facts list option"
  rm_accessGroupMembership :: "membership_fact list option"
  rm_providerMissingFallbackApplied :: "bool option"
  rm_mentionFacts :: "mention_facts option"
  rm_command :: "command_preset option"

definition resolveResolverPolicy :: "resolver_base \<Rightarrow> resolver_message \<Rightarrow> ingress_policy" where
  "resolveResolverPolicy base input =
     \<lparr>pol_dmPolicy = nullish (rm_dmPolicy input) (nullish (rb_defaultDmPolicy base) DmPairing),
      pol_groupPolicy = nullish (rm_groupPolicy input) (nullish (rb_defaultGroupPolicy base) GroupDisabled),
      pol_groupAllowFromFallbackToAllowFrom =
        nullish_or (rm_policyFallback input) (rb_groupAllowFromFallbackToAllowFrom base),
      pol_mutableIdentifierMatching =
        nullish_or (rm_policyMutable input) (rb_mutableIdentifierMatching base),
      pol_activation = rm_policyActivation input,
      pol_command = None\<rparr>"

definition resolverParams :: "resolver_base \<Rightarrow> resolver_message \<Rightarrow> event_preset \<Rightarrow> ingress_params" where
  "resolverParams base input eventDefaults =
     (let isGroup = cv_kind (rm_conversation input) \<noteq> ConvDirect;
          useAccessGroups = useAccessGroupsFromConfig (rb_useAccessGroups base)
      in \<lparr>ip_channelId = rb_channelId base, ip_accountId = rb_accountId base,
          ip_identity = rb_identity base, ip_subject = rm_subject input,
          ip_conversation = rm_conversation input,
          ip_event = channelIngressEvent
            (spread_event (spread_event (empty_event\<lparr>epr_isGroup := Some isGroup\<rparr>) eventDefaults)
               (nullish (rm_event input) empty_event)),
          ip_policy = resolveResolverPolicy base input,
          ip_allowFrom = rm_allowFrom input, ip_groupAllowFrom = rm_groupAllowFrom input,
          ip_route = rm_route input, ip_routeFacts = rm_routeFacts input,
          ip_accessGroups = nullish_or (rb_accessGroups base) (rb_cfgAccessGroups base),
          ip_accessGroupMembership =
            Some (nullish (rb_accessGroupMembership base) [] @ nullish (rm_accessGroupMembership input) []),
          ip_resolveAccessGroupMembership = rb_resolveAccessGroupMembership base,
          ip_accessGroupMatchedAllowFromEntry = rb_accessGroupMatchedAllowFromEntry base,
          ip_providerMissingFallbackApplied = rm_providerMissingFallbackApplied input,
          ip_mentionFacts = rm_mentionFacts input,
          ip_readStoreAllowFrom = rb_readStoreAllowFrom base,
          ip_useDefaultPairingStore = rb_useDefaultPairingStore base,
          ip_command = resolveCommandInput (rm_command input) (Some useAccessGroups)\<rparr>)"

datatype resolver_surface = SurfaceMessage | SurfaceCommand | SurfaceEvent

fun surfaceDefaults :: "resolver_surface \<Rightarrow> event_preset" where
  "surfaceDefaults SurfaceMessage = empty_event"
| "surfaceDefaults SurfaceCommand = empty_event\<lparr>epr_authMode := Some AuthCommand, epr_mayPair := Some False\<rparr>"
| "surfaceDefaults SurfaceEvent = empty_event\<lparr>epr_mayPair := Some False\<rparr>"

definition createChannelIngressResolver ::
  "(string \<Rightarrow> string \<Rightarrow> int) \<Rightarrow> (string \<Rightarrow> string \<Rightarrow> string list promise) \<Rightarrow> resolver_base
   \<Rightarrow> resolver_surface \<Rightarrow> resolver_message \<Rightarrow> ingress_error + resolved_ingress" where
  "createChannelIngressResolver localeCompare pairingStore base surface input =
     resolveChannelMessageIngress localeCompare pairingStore
       (resolverParams base input (surfaceDefaults surface))"

subsection \<open>Errors\<close>

lemma resolveChannelMessageIngress_error_iff:
  "resolveChannelMessageIngress lc store params = Inl e \<longleftrightarrow>
     js_trim (ip_channelId params) = [] \<and> e = EmptyChannelId"
  by (auto simp: resolveChannelMessageIngress_def normalizeChannelId_def Let_def)

lemma resolveChannelMessageIngress_parts:
  assumes "resolveChannelMessageIngress lc store params = Inr r"
  shows "ri_state r = resolveChannelIngressState lc
           (runtimeStateInput store params (js_trim (ip_channelId params)))"
    and "ri_ingress r = decideChannelIngress (ri_state r) (runtimePolicy params)"
  using assms
  by (auto simp: resolveChannelMessageIngress_def normalizeChannelId_def Let_def split: if_splits)

lemma state_projections [simp]:
  "st_conversationKind (resolveChannelIngressState lc input) = cv_kind (si_conversation input)"
  "ev_authMode (st_event (resolveChannelIngressState lc input)) = ei_authMode (si_event input)"
  "ev_mayPair (st_event (resolveChannelIngressState lc input)) = ei_mayPair (si_event input)"
  "st_mentionFacts (resolveChannelIngressState lc input) = si_mentionFacts input"
  by (simp_all add: resolveChannelIngressState_def)

lemma runtimeStateInput_projections [simp]:
  "si_conversation (runtimeStateInput store params ch) = ip_conversation params"
  "si_event (runtimeStateInput store params ch) = ip_event params"
  "si_adapter (runtimeStateInput store params ch) = createIdentityAdapter (ip_identity params)"
  "si_subject (runtimeStateInput store params ch) = createIdentitySubject (ip_identity params) (ip_subject params)"
  "si_mentionFacts (runtimeStateInput store params ch) = ip_mentionFacts params"
  "li_dm (si_allowlists (runtimeStateInput store params ch)) =
     Some (map JStr (normalizeStringEntries (Some (nullish (ip_allowFrom params) []))))"
  by (simp_all add: runtimeStateInput_def Let_def)

lemma runtimePolicy_projections [simp]:
  "pol_dmPolicy (runtimePolicy params) = pol_dmPolicy (ip_policy params)"
  "pol_groupPolicy (runtimePolicy params) = pol_groupPolicy (ip_policy params)"
  "pol_activation (runtimePolicy params) = pol_activation (ip_policy params)"
  "pol_mutableIdentifierMatching (runtimePolicy params) = pol_mutableIdentifierMatching (ip_policy params)"
  by (simp_all add: runtimePolicy_def split: option.split)

subsection \<open>The pairing store is read for direct messages only\<close>

lemma readStore_irrelevant:
  "\<not> shouldReadStore (cv_kind (ip_conversation params)) (pol_dmPolicy (ip_policy params)) \<Longrightarrow>
     readStoreAllowFrom store (params\<lparr>ip_readStoreAllowFrom := reader\<rparr>) ch = []
     \<and> readStoreAllowFrom store params ch = []"
  by (simp add: readStoreAllowFrom_def)

lemma membership_frame [simp]:
  "resolveRuntimeAccessGroupMembershipFacts (params\<lparr>ip_readStoreAllowFrom := reader\<rparr>) ch names =
     resolveRuntimeAccessGroupMembershipFacts params ch names"
proof -
  have "runtimeMembershipFact f (params\<lparr>ip_readStoreAllowFrom := reader\<rparr>) ch = runtimeMembershipFact f params ch" for f
    by (intro ext) (simp add: runtimeMembershipFact_def
        cong: option.case_cong access_group_config.case_cong)
  then show ?thesis by (simp add: resolveRuntimeAccessGroupMembershipFacts_def cong: option.case_cong if_cong)
qed

text \<open>For group and channel conversations, and for direct messages under the policies
  \<open>allowlist\<close> and \<open>open\<close>, the outcome of an inbound event does not depend on the
  pairing store: any explicit reader and any default store give the same result.\<close>

theorem store_not_consulted:
  assumes "cv_kind (ip_conversation params) \<noteq> ConvDirect
     \<or> pol_dmPolicy (ip_policy params) \<in> {DmAllowlist, DmOpen}"
  shows "resolveChannelMessageIngress lc store (params\<lparr>ip_readStoreAllowFrom := reader\<rparr>) =
         resolveChannelMessageIngress lc store' params"
proof -
  have off: "\<not> shouldReadStore (cv_kind (ip_conversation params)) (pol_dmPolicy (ip_policy params))"
    using assms by (auto simp: shouldReadStore_def)
  have "runtimeStateInput store (params\<lparr>ip_readStoreAllowFrom := reader\<rparr>) ch = runtimeStateInput store' params ch"
    and "baseEffectiveLists store (params\<lparr>ip_readStoreAllowFrom := reader\<rparr>) ch = baseEffectiveLists store' params ch"
    for ch
    using off
    by (simp_all add: runtimeStateInput_def baseEffectiveLists_def readStoreAllowFrom_def)
  then show ?thesis
    by (simp add: resolveChannelMessageIngress_def runtimePolicy_def accessGroupMatchedEntry_def
        cong: sum.case_cong option.case_cong)
qed

subsection \<open>Surfaces of the resolver\<close>

lemma configured_applyMutable [simp]:
  "al_hasConfiguredEntries (applyMutableIdentifierPolicy al pol) = al_hasConfiguredEntries al"
  by (simp add: applyMutableIdentifierPolicy_def Let_def)

lemma commandGate_allowed_access_groups:
  assumes "pol_command pol = Some c" and "nullish (cp_useAccessGroups c) True"
  shows "g_allowed (commandGate st pol) \<longleftrightarrow>
     (\<exists>al \<in> {sl_commandOwner (st_allowlists st), sl_commandGroup (st_allowlists st)}.
        al_hasConfiguredEntries al \<and> m_matched (al_match (applyMutableIdentifierPolicy al pol)))"
  using assms by (simp add: commandGate_def Let_def command_authorized_iff)

lemma dispatch_event_authorized:
  "d_admission (decideChannelIngress st pol) = AdmDispatch \<Longrightarrow> event_authorized st pol"
  by (auto simp: admission_decideChannelIngress admission_spec_def admission_after_route_def split: if_splits)

lemma resolverParams_command:
  assumes "rm_command input = Some c" and "cpr_requested c \<noteq> Some False"
  shows "\<exists>cp. pol_command (runtimePolicy (resolverParams base input ev)) = Some cp
     \<and> cp_useAccessGroups cp = Some (nullish (cpr_useAccessGroups c) (nullish (rb_useAccessGroups base) True))"
  using assms
  by (simp add: resolverParams_def runtimePolicy_def resolveCommandInput_def channelIngressCommand_def
      useAccessGroupsFromConfig_def command_policy.truncate_def Let_def nullish_nullish_or)

lemma resolverParams_event:
  "rm_event input = None \<Longrightarrow> ei_authMode (ip_event (resolverParams base input ev)) = nullish (epr_authMode ev) AuthInbound"
  "rm_event input = None \<Longrightarrow> epr_isGroup ev = None \<Longrightarrow>
     ei_mayPair (ip_event (resolverParams base input ev)) =
       nullish (epr_mayPair ev) (cv_kind (rm_conversation input) = ConvDirect)"
  "ip_conversation (resolverParams base input ev) = rm_conversation input"
  "ip_policy (resolverParams base input ev) = resolveResolverPolicy base input"
  by (simp_all add: resolverParams_def channelIngressEvent_def spread_event_def empty_event_def Let_def)

text \<open>On the command surface, with a command policy and access groups in use, an event is
  dispatched only when the sender matches a configured command owner or command group allowlist
  under the mutable identifier policy.\<close>

theorem command_surface_needs_authorizer:
  assumes run: "createChannelIngressResolver lc store base SurfaceCommand input = Inr r"
    and "rm_event input = None"
    and "rm_command input = Some c" and "cpr_requested c \<noteq> Some False"
    and "nullish (cpr_useAccessGroups c) (nullish (rb_useAccessGroups base) True)"
    and "d_admission (ri_ingress r) = AdmDispatch"
  shows "\<exists>al \<in> {sl_commandOwner (st_allowlists (ri_state r)), sl_commandGroup (st_allowlists (ri_state r))}.
           al_hasConfiguredEntries al
           \<and> m_matched (al_match (applyMutableIdentifierPolicy al
                (runtimePolicy (resolverParams base input (surfaceDefaults SurfaceCommand)))))"
proof -
  let ?params = "resolverParams base input (surfaceDefaults SurfaceCommand)"
  note parts = resolveChannelMessageIngress_parts [OF run [unfolded createChannelIngressResolver_def]]
  from assms(6) parts(2) have "event_authorized (ri_state r) (runtimePolicy ?params)"
    by (simp add: dispatch_event_authorized)
  moreover have "ev_authMode (st_event (ri_state r)) = AuthCommand"
    using assms(2) parts(1) by (simp add: resolverParams_event empty_event_def)
  ultimately have "g_allowed (commandGate (ri_state r) (runtimePolicy ?params))"
    by (simp add: event_authorized_def g_allowed_commandGate)
  moreover from resolverParams_command [OF assms(3,4)] obtain cp where
    "pol_command (runtimePolicy ?params) = Some cp" "nullish (cp_useAccessGroups cp) True"
    using assms(5) by fastforce
  ultimately show ?thesis by (simp only: commandGate_allowed_access_groups)
qed

text \<open>A pairing request arises on the message surface only, for a direct conversation whose
  effective DM policy is \<open>pairing\<close>; the command and event surfaces never start pairing.\<close>

theorem pairing_only_for_direct_messages:
  assumes run: "createChannelIngressResolver lc store base surface input = Inr r"
    and "rm_event input = None"
    and "d_admission (ri_ingress r) = AdmPairingRequired"
  shows "surface = SurfaceMessage \<and> cv_kind (rm_conversation input) = ConvDirect
    \<and> nullish (rm_dmPolicy input) (nullish (rb_defaultDmPolicy base) DmPairing) = DmPairing"
proof -
  let ?params = "resolverParams base input (surfaceDefaults surface)"
  note parts = resolveChannelMessageIngress_parts [OF run [unfolded createChannelIngressResolver_def]]
  have "epr_isGroup (surfaceDefaults surface) = None" by (cases surface) (simp_all add: empty_event_def)
  note event = resolverParams_event(2) [OF assms(2) this]
  from assms(3) parts(2) have "st_conversationKind (ri_state r) = ConvDirect"
      "pol_dmPolicy (runtimePolicy ?params) = DmPairing" "ev_mayPair (st_event (ri_state r))"
    by (auto simp: admission_decideChannelIngress admission_spec_def admission_after_route_def
        simp del: runtimePolicy_projections split: if_splits)
  with parts(1) event show ?thesis
    by (cases surface) (simp_all add: resolverParams_event(3,4) resolveResolverPolicy_def empty_event_def)
qed

subsection \<open>The plain identity, end to end\<close>

lemma redacted_plain_not_dangerous:
  "e \<in> set (re_normalizedEntries (normalizeAndMatch (createIdentityAdapter plain_identity) s acct entries ctx)) \<Longrightarrow>
     ne_dangerous e = None"
proof -
  have "x \<in> set (adapterNormalizeEntry plain_identity i entry) \<Longrightarrow> ne_dangerous x = None" for x i entry
    by (auto simp: adapterNormalizeEntry_def adapterEntry_def plain_identity_fields fieldDangerous_def
        plain_field_def split: if_splits option.splits)
  then show "e \<in> set (re_normalizedEntries (normalizeAndMatch (createIdentityAdapter plain_identity) s acct entries ctx)) \<Longrightarrow>
     ne_dangerous e = None"
    by (auto simp: normalizeAndMatch_def createIdentityAdapter_def redactedEntries_def map_index_def
        normalized_entry.truncate_def Let_def split: if_splits)
qed

lemma no_references:
  "(\<forall>e\<in>set entries. parseAccessGroupAllowFromEntry e = None) \<Longrightarrow>
     referencedAccessGroups entries = [] \<and> directAllowlistEntries entries = entries"
  by (induction entries)
     (simp_all add: referencedAccessGroups_def directAllowlistEntries_def map_filter_simps js_set_of_def)

lemma plain_allowlist_match:
  assumes "si_adapter input = createIdentityAdapter plain_identity"
    and "si_subject input = createIdentitySubject plain_identity subject"
    and "\<forall>e\<in>set entries. parseAccessGroupAllowFromEntry e = None \<and> clean_string e"
  shows "m_matched (al_match (applyMutableIdentifierPolicy
           (resolveIngressAllowlist input (Some (map JStr entries)) ctx) pol)) \<longleftrightarrow>
     ''*'' \<in> set entries
     \<or> (\<exists>raw. isi_stableId subject = Some raw \<and> js_trim (js_String raw) \<in> set entries)"
proof -
  let ?al = "resolveIngressAllowlist input (Some (map JStr entries)) ctx"
  have norm: "normalizeStringEntries (Some (map JStr entries)) = entries"
    using assms(3) by (intro normalizeStringEntries_of_clean) simp
  have refs: "referencedAccessGroups entries = []" "directAllowlistEntries entries = entries"
    using assms(3) no_references by blast+
  have "\<forall>e\<in>set (al_normalizedEntries ?al). ne_dangerous e = None"
    using assms(1) redacted_plain_not_dangerous
    by (auto simp: resolveIngressAllowlist_def norm refs resolveAccessGroupEntries_def Let_def)
  then have "filter entry_dangerous (al_normalizedEntries ?al) = []"
    by (simp add: filter_empty_conv)
  then have "applyMutableIdentifierPolicy ?al pol = ?al"
    by (simp add: applyMutableIdentifierPolicy_def Let_def)
  moreover have "m_matched (al_match ?al) \<longleftrightarrow> m_matched (direct_match input (Some (map JStr entries)) ctx)"
    using identity_adapter.resolved_allowlist_matches_iff [OF assms(1)]
    by (simp add: allowlist_references_def norm refs)
  ultimately show ?thesis
    using assms plain_adapter_match [of entries subject]
    by (simp add: direct_match_def norm refs)
qed

text \<open>C5. End to end: for a channel with a plain stable identity and a DM allowlist without access
  group references, an inbound direct message is dispatched exactly when the allowlist holds the
  wildcard or the sender's trimmed id, and is dropped otherwise.\<close>

theorem plain_dm_allowlist_end_to_end:
  assumes "resolveChannelMessageIngress lc store params = Inr r"
    and "ip_identity params = plain_identity"
    and "cv_kind (ip_conversation params) = ConvDirect"
    and "ei_authMode (ip_event params) = AuthInbound"
    and "pol_dmPolicy (ip_policy params) = DmAllowlist" and "pol_activation (ip_policy params) = None"
    and "pol_command (ip_policy params) = None" and "ip_command params = None"
    and "ip_route params = []" and "ip_routeFacts params = None"
    and "allow = normalizeStringEntries (ip_allowFrom params)"
    and "\<forall>e\<in>set allow. parseAccessGroupAllowFromEntry e = None"
  shows "d_admission (ri_ingress r) =
     (if ''*'' \<in> set allow
         \<or> (\<exists>raw. isi_stableId (ip_subject params) = Some raw \<and> js_trim (js_String raw) \<in> set allow)
      then AdmDispatch else AdmDrop)"
proof -
  note parts = resolveChannelMessageIngress_parts [OF assms(1)]
  let ?input = "runtimeStateInput store params (js_trim (ip_channelId params))"
  have allow: "normalizeStringEntries (Some (nullish (ip_allowFrom params) [])) = allow"
    using assms(11) by (cases "ip_allowFrom params") simp_all
  have dm: "sl_dm (st_allowlists (ri_state r)) = resolveIngressAllowlist ?input (Some (map JStr allow)) CtxDm"
    by (simp add: parts(1) resolveChannelIngressState_def allow)
  have "m_matched (al_match (applyMutableIdentifierPolicy (sl_dm (st_allowlists (ri_state r))) (runtimePolicy params))) \<longleftrightarrow>
     ''*'' \<in> set allow
     \<or> (\<exists>raw. isi_stableId (ip_subject params) = Some raw \<and> js_trim (js_String raw) \<in> set allow)"
    unfolding dm using assms(2,11,12) normalizeStringEntries_clean
    by (intro plain_allowlist_match) auto
  moreover have "st_routeFacts (ri_state r) = []"
    using assms(9,10) by (simp add: parts(1) resolveChannelIngressState_def resolveRouteFacts_def
        runtimeStateInput_def routeFactsFromDescriptors_def Let_def)
  moreover have "pol_command (runtimePolicy params) = None"
    using assms(7,8) by (simp add: runtimePolicy_def)
  ultimately show ?thesis
    using assms(3-6) parts
    by (simp add: admission_decideChannelIngress admission_spec_def admission_after_route_def
        route_blocked_def skips_before_sender_def sender_authorized_def dm_sender_authorized_def
        command_blocked_def command_permitted_def event_authorized_def mention_skips_def
        flip: admits_single)
qed

subsection \<open>Concrete runs\<close>

definition direct_conversation :: conversation where
  "direct_conversation = \<lparr>cv_kind = ConvDirect, cv_id = ''dm'', cv_parentId = None, cv_threadId = None,
     cv_title = None\<rparr>"

definition sample_base :: resolver_base where
  "sample_base =
     \<lparr>rb_channelId = '' telegram '', rb_accountId = ''default'', rb_identity = plain_identity,
      rb_accessGroups = None, rb_cfgAccessGroups = None, rb_accessGroupMembership = None,
      rb_resolveAccessGroupMembership = None, rb_accessGroupMatchedAllowFromEntry = None,
      rb_readStoreAllowFrom = None, rb_useDefaultPairingStore = None, rb_useAccessGroups = None,
      rb_defaultDmPolicy = None, rb_defaultGroupPolicy = None,
      rb_groupAllowFromFallbackToAllowFrom = None, rb_mutableIdentifierMatching = None\<rparr>"

definition sample_preset :: command_preset where
  "sample_preset =
     \<lparr>cpr_requested = None, cpr_useAccessGroups = None, cpr_allowTextCommands = Some True,
      cpr_hasControlCommand = None, cpr_modeWhenAccessGroupsOff = None,
      cpr_commandOwnerAllowFrom = None, cpr_groupOwnerAllowFrom = None,
      cpr_directGroupAllowFrom = None, cpr_commandGroupAllowFromFallbackToAllowFrom = None\<rparr>"

definition sample_message ::
  "dm_policy option \<Rightarrow> js_value list \<Rightarrow> command_preset option \<Rightarrow> resolver_message" where
  "sample_message dm allow command =
     \<lparr>rm_subject = \<lparr>isi_stableId = Some (JNum 42), isi_aliases = None\<rparr>,
      rm_conversation = direct_conversation, rm_event = None, rm_dmPolicy = dm, rm_groupPolicy = None,
      rm_policyFallback = None, rm_policyMutable = None, rm_policyActivation = None,
      rm_allowFrom = Some allow, rm_groupAllowFrom = None, rm_route = [], rm_routeFacts = None,
      rm_accessGroupMembership = None, rm_providerMissingFallbackApplied = None,
      rm_mentionFacts = None, rm_command = command\<rparr>"

definition no_store :: "string \<Rightarrow> string \<Rightarrow> string list promise" where
  "no_store provider account = Inl ()"

lemmas sample_defs = direct_conversation_def sample_base_def sample_preset_def sample_message_def

lemma js_trim_telegram: "js_trim '' telegram '' = ''telegram''"
  by (simp add: js_trim_def js_trimStart_def js_trimEnd_def js_space_def)

lemma sample_run:
  obtains r where "createChannelIngressResolver lc store sample_base surface input = Inr r"
  using resolveChannelMessageIngress_error_iff [of lc store "resolverParams sample_base input (surfaceDefaults surface)"]
  by (cases "createChannelIngressResolver lc store sample_base surface input")
     (auto simp: createChannelIngressResolver_def resolverParams_def sample_base_def js_trim_telegram Let_def)

lemma sample_entries:
  "normalizeStringEntries (Some [JNum 42]) = [''42'']" "js_trim (js_String (JNum 42)) = ''42''"
  "parseAccessGroupAllowFromEntry ''42'' = None"
  by (simp_all add: normalizeStringEntries_eq string_of_int_def string_of_nat.simps js_trim_def
      js_trimStart_def js_trimEnd_def js_space_def parseAccessGroupAllowFromEntry_def
      ACCESS_GROUP_ALLOW_FROM_PREFIX_def digit_chars Let_def)

theorem plain_dm_allowlist_end_to_end_witness:
  "\<exists>r. createChannelIngressResolver compareCodeUnits no_store sample_base SurfaceMessage
         (sample_message (Some DmAllowlist) [JNum 42] None) = Inr r
     \<and> d_admission (ri_ingress r) = AdmDispatch"
proof -
  let ?input = "sample_message (Some DmAllowlist) [JNum 42] None"
  obtain r where r: "createChannelIngressResolver compareCodeUnits no_store sample_base SurfaceMessage ?input = Inr r"
    by (rule sample_run)
  have "d_admission (ri_ingress r) = AdmDispatch"
    using plain_dm_allowlist_end_to_end [OF r [unfolded createChannelIngressResolver_def], of "[''42'']"]
    by (simp add: sample_defs resolverParams_def resolveResolverPolicy_def resolveCommandInput_def
        channelIngressEvent_def spread_event_def empty_event_def sample_entries Let_def
        del: js_String.simps)
  with r show ?thesis by blast
qed

theorem store_not_consulted_witness:
  "resolveChannelMessageIngress compareCodeUnits no_store
     ((resolverParams sample_base (sample_message (Some DmAllowlist) [JNum 42] None) empty_event)
        \<lparr>ip_readStoreAllowFrom := Some (\<lambda>_ _ _. Inr (Some [JStr ''7'']))\<rparr>) =
   resolveChannelMessageIngress compareCodeUnits no_store
     (resolverParams sample_base (sample_message (Some DmAllowlist) [JNum 42] None) empty_event)"
  by (rule store_not_consulted)
     (simp add: sample_defs resolverParams_def resolveResolverPolicy_def Let_def)

lemma sample_dm_match:
  assumes "createChannelIngressResolver lc store sample_base surface (sample_message dm allow c) = Inr r"
    and "allow = [] \<or> allow = [JNum 42]"
  shows "m_matched (al_match (applyMutableIdentifierPolicy (sl_dm (st_allowlists (ri_state r))) pol))
     \<longleftrightarrow> allow = [JNum 42]"
    and "st_routeFacts (ri_state r) = []"
proof -
  note parts = resolveChannelMessageIngress_parts [OF assms(1) [unfolded createChannelIngressResolver_def]]
  let ?params = "resolverParams sample_base (sample_message dm allow c) (surfaceDefaults surface)"
  let ?input = "runtimeStateInput store ?params (js_trim (ip_channelId ?params))"
  let ?entries = "normalizeStringEntries (Some allow)"
  have ip: "ip_identity ?params = plain_identity" "ip_allowFrom ?params = Some allow"
    "isi_stableId (ip_subject ?params) = Some (JNum 42)" "ip_route ?params = []" "ip_routeFacts ?params = None"
    by (simp_all add: resolverParams_def sample_defs Let_def)
  then have dm: "sl_dm (st_allowlists (ri_state r)) = resolveIngressAllowlist ?input (Some (map JStr ?entries)) CtxDm"
    by (simp add: parts(1) resolveChannelIngressState_def)
  have "\<forall>e\<in>set ?entries. parseAccessGroupAllowFromEntry e = None \<and> clean_string e"
    using assms(2) normalizeStringEntries_clean by (auto simp: sample_entries)
  then have "m_matched (al_match (applyMutableIdentifierPolicy (sl_dm (st_allowlists (ri_state r))) pol)) \<longleftrightarrow>
      ''*'' \<in> set ?entries
      \<or> (\<exists>raw. isi_stableId (ip_subject ?params) = Some raw \<and> js_trim (js_String raw) \<in> set ?entries)"
    unfolding dm by (intro plain_allowlist_match) (simp_all add: ip)
  also have "\<dots> \<longleftrightarrow> allow = [JNum 42]"
    using assms(2) by (auto simp: ip sample_entries simp del: js_String.simps)
  finally show "m_matched (al_match (applyMutableIdentifierPolicy (sl_dm (st_allowlists (ri_state r))) pol))
     \<longleftrightarrow> allow = [JNum 42]" .
  show "st_routeFacts (ri_state r) = []"
    using ip by (simp add: parts(1) resolveChannelIngressState_def resolveRouteFacts_def
        runtimeStateInput_def routeFactsFromDescriptors_def Let_def)
qed

lemma sample_unpaired:
  assumes "createChannelIngressResolver lc no_store sample_base surface (sample_message dm allow c) = Inr r"
  shows "\<not> m_matched (al_match (applyMutableIdentifierPolicy (sl_pairingStore (st_allowlists (ri_state r))) pol))"
proof -
  let ?params = "resolverParams sample_base (sample_message dm allow c) (surfaceDefaults surface)"
  note parts = resolveChannelMessageIngress_parts [OF assms [unfolded createChannelIngressResolver_def]]
  have "readStoreAllowFrom no_store ?params ch = []" for ch
    by (simp add: readStoreAllowFrom_def resolverParams_def sample_defs Let_def)
  then have "li_pairingStore (si_allowlists (runtimeStateInput no_store ?params ch)) = Some []" for ch
    by (simp add: runtimeStateInput_def Let_def)
  then have "sl_pairingStore (st_allowlists (ri_state r)) =
      resolveIngressAllowlist (runtimeStateInput no_store ?params (js_trim (ip_channelId ?params))) (Some []) CtxDm"
    by (simp add: parts(1) resolveChannelIngressState_def)
  then show ?thesis
    using plain_allowlist_match [of _ _ "[]"] by (simp add: resolverParams_def sample_defs Let_def)
qed

theorem pairing_only_for_direct_messages_witness:
  "\<exists>r. createChannelIngressResolver compareCodeUnits no_store sample_base SurfaceMessage
         (sample_message None [] None) = Inr r
     \<and> d_admission (ri_ingress r) = AdmPairingRequired
     \<and> cv_kind (rm_conversation (sample_message None [] None)) = ConvDirect"
proof -
  let ?params = "resolverParams sample_base (sample_message None [] None) (surfaceDefaults SurfaceMessage)"
  obtain r where r: "createChannelIngressResolver compareCodeUnits no_store sample_base SurfaceMessage
      (sample_message None [] None) = Inr r" by (rule sample_run)
  note parts = resolveChannelMessageIngress_parts [OF r [unfolded createChannelIngressResolver_def]]
  have cfg: "pol_dmPolicy (ip_policy ?params) = DmPairing" "pol_activation (ip_policy ?params) = None"
    "ei_authMode (ip_event ?params) = AuthInbound" "ei_mayPair (ip_event ?params)"
    "cv_kind (ip_conversation ?params) = ConvDirect"
    by (simp_all add: resolverParams_def resolveResolverPolicy_def channelIngressEvent_def
        spread_event_def empty_event_def sample_defs Let_def)
  have paired: "d_admission (ri_ingress r) = AdmPairingRequired"
    unfolding parts(2) using cfg sample_dm_match [OF r] sample_unpaired [OF r]
    by (simp add: admission_decideChannelIngress admission_spec_def admission_after_route_def
        route_blocked_def skips_before_sender_def sender_authorized_def dm_sender_authorized_def parts(1)
        flip: admits_single)
  have "rm_event (sample_message None [] None) = None" by (simp add: sample_message_def)
  from pairing_only_for_direct_messages [OF r this paired] r paired show ?thesis by blast
qed

theorem command_surface_needs_authorizer_witness:
  "\<exists>r al. createChannelIngressResolver compareCodeUnits no_store sample_base SurfaceCommand
         (sample_message (Some DmAllowlist) [JNum 42] (Some sample_preset)) = Inr r
     \<and> d_admission (ri_ingress r) = AdmDispatch \<and> al_hasConfiguredEntries al
     \<and> al \<in> {sl_commandOwner (st_allowlists (ri_state r)), sl_commandGroup (st_allowlists (ri_state r))}"
proof -
  let ?msg = "sample_message (Some DmAllowlist) [JNum 42] (Some sample_preset)"
  let ?params = "resolverParams sample_base ?msg (surfaceDefaults SurfaceCommand)"
  let ?input = "runtimeStateInput no_store ?params (js_trim (ip_channelId ?params))"
  obtain r where r: "createChannelIngressResolver compareCodeUnits no_store sample_base SurfaceCommand ?msg = Inr r"
    by (rule sample_run)
  note parts = resolveChannelMessageIngress_parts [OF r [unfolded createChannelIngressResolver_def]]
  have cfg: "pol_activation (ip_policy ?params) = None" "ei_authMode (ip_event ?params) = AuthCommand"
    "isi_stableId (ip_subject ?params) = Some (JNum 42)" "ip_identity ?params = plain_identity"
    by (simp_all add: resolverParams_def resolveResolverPolicy_def channelIngressEvent_def
        spread_event_def empty_event_def sample_defs Let_def)
  have "li_commandOwner (si_allowlists ?input) = Some (map JStr [''42''])"
    by (simp add: runtimeStateInput_def resolverParams_def resolveResolverPolicy_def sample_defs
        resolveCommandInput_def channelIngressCommand_def commandOwnerAllowFrom_def sample_entries
        resolveChannelIngressEffectiveAllowFromLists_def mergeDmAllowFromSources_def readStoreAllowFrom_def
        shouldReadStore_def normalizeStringEntries_idem [where l = "Some [JNum 42]", unfolded sample_entries, simplified]
        Let_def)
  then have owner: "sl_commandOwner (st_allowlists (ri_state r)) =
      resolveIngressAllowlist ?input (Some (map JStr [''42''])) CtxCommand"
    by (simp add: parts(1) resolveChannelIngressState_def)
  have "m_matched (al_match (applyMutableIdentifierPolicy (sl_commandOwner (st_allowlists (ri_state r))) pol)) \<longleftrightarrow>
      ''*'' \<in> set [''42'']
      \<or> (\<exists>raw. isi_stableId (ip_subject ?params) = Some raw \<and> js_trim (js_String raw) \<in> set [''42''])" for pol
    unfolding owner using normalizeStringEntries_clean [of "''42''" "Some [JNum 42]"]
    by (intro plain_allowlist_match) (simp_all add: cfg sample_entries del: surfaceDefaults.simps)
  then have matched: "m_matched (al_match (applyMutableIdentifierPolicy (sl_commandOwner (st_allowlists (ri_state r))) pol))" for pol
    by (simp add: cfg sample_entries del: js_String.simps surfaceDefaults.simps)
  have configured: "al_hasConfiguredEntries (sl_commandOwner (st_allowlists (ri_state r)))"
    unfolding owner using normalizeStringEntries_idem [of "Some [JNum 42]"]
    by (simp add: resolveIngressAllowlist_def sample_entries Let_def)
  obtain cp where cp: "pol_command (runtimePolicy ?params) = Some cp" "nullish (cp_useAccessGroups cp) True"
    using resolverParams_command [of ?msg sample_preset sample_base "surfaceDefaults SurfaceCommand"]
    by (auto simp: sample_defs)
  from matched configured cp have allowed: "g_allowed (commandGate (ri_state r) (runtimePolicy ?params))"
    by (auto simp: commandGate_allowed_access_groups)
  have dispatched: "d_admission (ri_ingress r) = AdmDispatch"
    unfolding parts(2) using cfg allowed sample_dm_match(2) [OF r]
    by (simp add: admission_decideChannelIngress admission_spec_def admission_after_route_def
        route_blocked_def skips_before_sender_def command_blocked_def event_authorized_def
        mention_skips_def parts(1) flip: g_allowed_commandGate)
  have "\<exists>al \<in> {sl_commandOwner (st_allowlists (ri_state r)), sl_commandGroup (st_allowlists (ri_state r))}.
      al_hasConfiguredEntries al"
    using command_surface_needs_authorizer [OF r _ _ _ _ dispatched, of sample_preset]
    by (auto simp: sample_defs)
  with r dispatched show ?thesis by blast
qed

end
