(* ===== verification/Identifiers.thy ===== *)
theory Identifiers
  imports Normalization "HOL-Library.AList"
begin

text \<open>
  Canonical identifiers of routing: \<open>packages/normalization-core/src/agent-id.ts\<close>,
  \<open>src/infra/prototype-keys.ts\<close>, \<open>src/routing/account-id.ts\<close> and
  \<open>src/routing/account-lookup.ts\<close>.

  A JavaScript \<open>Map\<close> is an association list in insertion order: \<open>set\<close> is
  \<^const>\<open>AList.update\<close> (which overwrites in place or appends), \<open>delete\<close> is
  \<^const>\<open>AList.delete\<close>, \<open>get\<close> is \<^const>\<open>map_of\<close> and \<open>size\<close> the
  length. The module-level memo tables of the source are explicit state; the locale
  \<open>bounded_memo\<close> states what a bounded memo table promises whatever its eviction policy, and
  is interpreted on every table of the development.
\<close>

type_synonym ('k, 'v) js_map = "('k \<times> 'v) list"

subsection \<open>Bounded memo tables\<close>

text \<open>\<open>keep\<close> writes an entry; afterwards that entry is present, no entry is invented and the
  table is no larger than its bound.\<close>

locale bounded_memo =
  fixes keep :: "('k, 'v) js_map \<Rightarrow> 'k \<Rightarrow> 'v \<Rightarrow> ('k, 'v) js_map"
    and bound :: nat
  assumes keep_entries:
      "map_of (keep c k v) k' = Some w \<Longrightarrow> (k' = k \<and> w = v) \<or> map_of c k' = Some w"
    and keep_bound: "length c \<le> bound \<Longrightarrow> length (keep c k v) \<le> bound"
begin

definition sound :: "('k \<Rightarrow> 'v) \<Rightarrow> ('k, 'v) js_map \<Rightarrow> bool" where
  "sound f c \<longleftrightarrow> (\<forall>k v. map_of c k = Some v \<longrightarrow> v = f k)"

lemma sound_empty: "sound f []"
  by (simp add: sound_def)

lemma sound_get: "sound f c \<Longrightarrow> map_of c k = Some v \<Longrightarrow> v = f k"
  by (simp add: sound_def)

lemma sound_keep: "sound f c \<Longrightarrow> v = f k \<Longrightarrow> sound f (keep c k v)"
  using keep_entries by (fastforce simp: sound_def)

end

subsection \<open>prototype-keys.ts\<close>

definition isBlockedObjectKey :: "string \<Rightarrow> bool" where
  "isBlockedObjectKey key \<longleftrightarrow>
     List.member [''__proto__'', ''prototype'', ''constructor''] key"

subsection \<open>The identifier patterns\<close>

text \<open>\<open>[a-z0-9]\<close>, \<open>[a-z0-9_-]\<close> and their case-insensitive reading. \<open>replaceRuns\<close> is
  \<open>replace(INVALID_CHARS_RE, "-")\<close>: each maximal run of invalid characters becomes one dash.\<close>

definition alnum_lower :: "char \<Rightarrow> bool" where
  "alnum_lower c \<longleftrightarrow>
     (let n = (of_char c :: nat) in (97 \<le> n \<and> n \<le> 122) \<or> (48 \<le> n \<and> n \<le> 57))"

definition id_char :: "char \<Rightarrow> bool" where
  "id_char c \<longleftrightarrow> alnum_lower c \<or> c = CHR ''_'' \<or> c = CHR ''-''"

definition ascii_upper :: "char \<Rightarrow> bool" where
  "ascii_upper c \<longleftrightarrow> (let n = (of_char c :: nat) in 65 \<le> n \<and> n \<le> 90)"

definition valid_id :: "string \<Rightarrow> bool" where
  "valid_id s \<longleftrightarrow>
     (case s of [] \<Rightarrow> False
      | c # cs \<Rightarrow> (alnum_lower c \<or> ascii_upper c)
          \<and> list_all (\<lambda>d. id_char d \<or> ascii_upper d) cs \<and> length cs \<le> 63)"

function replaceRuns :: "string \<Rightarrow> string" where
  "replaceRuns [] = []"
| "replaceRuns (c # cs) =
     (if id_char c then c # replaceRuns cs
      else CHR ''-'' # replaceRuns (dropWhile (\<lambda>d. \<not> id_char d) cs))"
  by pat_completeness auto
termination
  by (relation "measure length") (auto simp: le_imp_less_Suc length_dropWhile_le)

definition stripDashes :: "string \<Rightarrow> string" where
  "stripDashes s = rev (dropWhile (\<lambda>c. c = CHR ''-'') (rev (dropWhile (\<lambda>c. c = CHR ''-'') s)))"

definition sanitizeId :: "string \<Rightarrow> string" where
  "sanitizeId s = take 64 (stripDashes (replaceRuns s))"

subsection \<open>agent-id.ts\<close>

definition DEFAULT_AGENT_ID :: string where
  "DEFAULT_AGENT_ID = ''main''"

definition normalizeAgentId :: "string option \<Rightarrow> string" where
  "normalizeAgentId value =
     (let trimmed = js_trim (nullish value []) in
      if trimmed = [] then DEFAULT_AGENT_ID
      else let normalized = normalizeLowercaseStringOrEmpty (JStr trimmed) in
        if valid_id trimmed then normalized
        else let cleaned = sanitizeId normalized in
          if cleaned \<noteq> [] then cleaned else DEFAULT_AGENT_ID)"

definition isValidAgentId :: "string option \<Rightarrow> bool" where
  "isValidAgentId value \<longleftrightarrow>
     (let trimmed = js_trim (nullish value []) in trimmed \<noteq> [] \<and> valid_id trimmed)"

subsection \<open>account-id.ts\<close>

definition DEFAULT_ACCOUNT_ID :: string where
  "DEFAULT_ACCOUNT_ID = ''default''"

definition ACCOUNT_ID_CACHE_MAX :: nat where
  "ACCOUNT_ID_CACHE_MAX = 512"

definition canonicalizeAccountId :: "string \<Rightarrow> string" where
  "canonicalizeAccountId value =
     (let normalized = normalizeLowercaseStringOrEmpty (JStr value) in
      if valid_id value then normalized else sanitizeId normalized)"

definition normalizeCanonicalAccountId :: "string \<Rightarrow> string option" where
  "normalizeCanonicalAccountId value =
     (let canonical = canonicalizeAccountId value in
      if canonical = [] \<or> isBlockedObjectKey canonical then None else Some canonical)"

text \<open>\<open>setNormalizeCache\<close>: the oldest entry goes when the table outgrows its bound.\<close>

definition setNormalizeCache :: "(string, 'v) js_map \<Rightarrow> string \<Rightarrow> 'v \<Rightarrow> (string, 'v) js_map" where
  "setNormalizeCache cache key val =
     (let next = AList.update key val cache in
      if length next \<le> ACCOUNT_ID_CACHE_MAX then next
      else (case next of [] \<Rightarrow> next | (oldest, _) # _ \<Rightarrow> AList.delete oldest next))"

text \<open>The two normalizers with their memo tables as state, and the values they compute.\<close>

definition normalizeAccountId :: "string option \<Rightarrow> string" where
  "normalizeAccountId value =
     (let trimmed = js_trim (nullish value []) in
      if trimmed = [] then DEFAULT_ACCOUNT_ID
      else nullish (normalizeCanonicalAccountId trimmed) DEFAULT_ACCOUNT_ID)"

definition normalizeAccountIdMemo ::
  "(string, string) js_map \<Rightarrow> string option \<Rightarrow> string \<times> (string, string) js_map" where
  "normalizeAccountIdMemo cache value =
     (let trimmed = js_trim (nullish value []) in
      if trimmed = [] then (DEFAULT_ACCOUNT_ID, cache)
      else case map_of cache trimmed of
        Some cached \<Rightarrow>
          if cached \<noteq> [] then (cached, cache)
          else (let normalized = nullish (normalizeCanonicalAccountId trimmed) DEFAULT_ACCOUNT_ID
                in (normalized, setNormalizeCache cache trimmed normalized))
      | None \<Rightarrow>
          let normalized = nullish (normalizeCanonicalAccountId trimmed) DEFAULT_ACCOUNT_ID
          in (normalized, setNormalizeCache cache trimmed normalized))"

definition normalizeOptionalAccountId :: "string option \<Rightarrow> string option" where
  "normalizeOptionalAccountId value =
     (let trimmed = js_trim (nullish value []) in
      if trimmed = [] then None else normalizeCanonicalAccountId trimmed)"

definition normalizeOptionalAccountIdMemo ::
  "(string, string option) js_map \<Rightarrow> string option
    \<Rightarrow> string option \<times> (string, string option) js_map" where
  "normalizeOptionalAccountIdMemo cache value =
     (let trimmed = js_trim (nullish value []) in
      if trimmed = [] then (None, cache)
      else case map_of cache trimmed of
        Some cached \<Rightarrow> (cached, cache)
      | None \<Rightarrow>
          let normalized = normalizeCanonicalAccountId trimmed
          in (normalized, setNormalizeCache cache trimmed normalized))"

subsection \<open>account-lookup.ts\<close>

definition resolveAccountEntry :: "(string, 'a) js_map option \<Rightarrow> string \<Rightarrow> 'a option" where
  "resolveAccountEntry accounts accountId =
     (case accounts of None \<Rightarrow> None
      | Some entries \<Rightarrow>
        case map_of entries accountId of Some v \<Rightarrow> Some v
        | None \<Rightarrow>
          let normalized = normalizeLowercaseStringOrEmpty (JStr accountId) in
          case find (\<lambda>k. normalizeLowercaseStringOrEmpty (JStr k) = normalized) (map fst entries) of
            None \<Rightarrow> None
          | Some matchKey \<Rightarrow> if matchKey \<noteq> [] then map_of entries matchKey else None)"

definition resolveNormalizedAccountEntry ::
  "(string, 'a) js_map option \<Rightarrow> string \<Rightarrow> (string \<Rightarrow> string) \<Rightarrow> 'a option" where
  "resolveNormalizedAccountEntry accounts accountId normalizeId =
     (case accounts of None \<Rightarrow> None
      | Some entries \<Rightarrow>
        if map_of entries accountId \<noteq> None \<and> \<not> isBlockedObjectKey accountId
        then map_of entries accountId
        else
          let normalized = normalizeId accountId in
          case find (\<lambda>key.
                 \<not> isBlockedObjectKey key
                 \<and> normalizeOptionalAccountId (Some key) \<noteq> None
                 \<and> \<not> isBlockedObjectKey (normalizeId key)
                 \<and> normalizeId key = normalized) (map fst entries) of
            None \<Rightarrow> None
          | Some matchKey \<Rightarrow> if matchKey \<noteq> [] then map_of entries matchKey else None)"

subsection \<open>Facts\<close>


definition canonical_id :: "string \<Rightarrow> bool" where
  "canonical_id s \<longleftrightarrow> s \<noteq> [] \<and> list_all id_char s \<and> length s \<le> 64 \<and> hd s \<noteq> CHR ''-''"

lemma alnum_lower_id [simp]: "alnum_lower c \<Longrightarrow> id_char c"
  by (simp add: id_char_def)

lemma id_char_code:
  "id_char c \<longleftrightarrow> (let n = (of_char c :: nat) in
     (97 \<le> n \<and> n \<le> 122) \<or> (48 \<le> n \<and> n \<le> 57) \<or> n = 95 \<or> n = 45)"
proof -
  have u: "(of_char (CHR ''_'') :: nat) = 95" and d: "(of_char (CHR ''-'') :: nat) = 45"
    by simp_all
  have "c = CHR ''_'' \<longleftrightarrow> (of_char c :: nat) = 95" and "c = CHR ''-'' \<longleftrightarrow> (of_char c :: nat) = 45"
    by (metis u char_of_char, metis d char_of_char)
  then show ?thesis by (auto simp: id_char_def alnum_lower_def Let_def)
qed

lemma id_char_lower [simp]: "id_char c \<Longrightarrow> js_lower_char c = c"
  by (auto simp: id_char_code js_lower_char_def Let_def)

lemma id_char_not_space [simp]: "id_char c \<Longrightarrow> \<not> js_space c"
  by (auto simp: id_char_code js_space_def Let_def)

lemma upper_lower_alnum [simp]: "ascii_upper c \<Longrightarrow> alnum_lower (js_lower_char c)"
  by (auto simp: ascii_upper_def alnum_lower_def js_lower_char_def Let_def)

lemma list_all_replaceRuns [simp]: "list_all id_char (replaceRuns s)"
  by (induction s rule: replaceRuns.induct) (auto simp: id_char_def)

lemma replaceRuns_id: "list_all id_char s \<Longrightarrow> replaceRuns s = s"
  by (induction s) auto

lemma list_all_dropWhile: "list_all P s \<Longrightarrow> list_all P (dropWhile Q s)"
  by (auto simp: list_all_iff dest: set_dropWhileD)

lemma list_all_stripDashes [simp]: "list_all P s \<Longrightarrow> list_all P (stripDashes s)"
  by (simp add: stripDashes_def list_all_dropWhile)

lemma hd_stripDashes: "stripDashes s \<noteq> [] \<Longrightarrow> hd (stripDashes s) \<noteq> CHR ''-''"
proof -
  define t where "t = dropWhile (\<lambda>c. c = CHR ''-'') s"
  obtain u where u: "t = stripDashes s @ u"
    by (metis stripDashes_def t_def rev_append rev_rev_ident takeWhile_dropWhile_id)
  assume "stripDashes s \<noteq> []"
  with u have "t \<noteq> []" "hd t = hd (stripDashes s)" by auto
  then show ?thesis unfolding t_def by (metis (full_types) hd_dropWhile)
qed

lemma stripDashes_id: "s \<noteq> [] \<Longrightarrow> hd s \<noteq> CHR ''-'' \<Longrightarrow> last s \<noteq> CHR ''-'' \<Longrightarrow> stripDashes s = s"
proof -
  assume s: "s \<noteq> []" "hd s \<noteq> CHR ''-''" "last s \<noteq> CHR ''-''"
  then have "dropWhile (\<lambda>c. c = CHR ''-'') s = s" by (cases s) auto
  moreover have "dropWhile (\<lambda>c. c = CHR ''-'') (rev s) = rev s"
    using s by (cases s rule: rev_cases) auto
  ultimately show ?thesis by (simp add: stripDashes_def)
qed

lemma sanitizeId_canonical: "sanitizeId s \<noteq> [] \<Longrightarrow> canonical_id (sanitizeId s)"
  using hd_stripDashes [of "replaceRuns s"] list_all_stripDashes [OF list_all_replaceRuns, of s]
  by (cases "stripDashes (replaceRuns s)")
     (auto simp: sanitizeId_def canonical_id_def list_all_iff dest: in_set_takeD)

lemma clean_lower:
  assumes "s \<noteq> []" "js_trim s = s"
  shows "normalizeLowercaseStringOrEmpty (JStr s) = js_toLowerCase s"
  using assms by (simp add: normalizeLowercaseStringOrEmpty_def normalizeOptionalLowercaseString_def
      normalizeOptionalString_def normalizeNullableString_def Let_def)

lemma alnum_lower_dash [simp]: "\<not> alnum_lower (CHR ''-'')" "\<not> alnum_lower (CHR ''_'')"
  by (simp_all add: alnum_lower_def)

lemma lower_valid_id: "valid_id s \<Longrightarrow> canonical_id (js_toLowerCase s)"
  by (cases s)
     (auto simp: valid_id_def canonical_id_def js_toLowerCase_def list_all_iff id_char_def
        dest: upper_lower_alnum)

lemma trimmed_id: "list_all id_char s \<Longrightarrow> js_trim s = s"
  using js_trimStart_id [of s] js_trimEnd_id [of s]
  by (cases "s = []") (auto simp: js_trim_def list_all_iff)

lemma canonical_lower: "list_all id_char s \<Longrightarrow> js_toLowerCase s = s"
  by (simp add: js_toLowerCase_def list_all_iff map_idI)

lemma normalizeAgentId_canonical: "canonical_id (normalizeAgentId v)"
proof -
  have "canonical_id DEFAULT_AGENT_ID" by code_simp
  then show ?thesis
    by (auto simp: normalizeAgentId_def Let_def clean_lower lower_valid_id sanitizeId_canonical)
qed

lemma canonicalizeAccountId_canonical:
  assumes "js_trim s = s" "canonicalizeAccountId s \<noteq> []"
  shows "canonical_id (canonicalizeAccountId s)"
proof (cases "s = []")
  case False
  with assms show ?thesis
    by (auto simp: canonicalizeAccountId_def Let_def clean_lower lower_valid_id sanitizeId_canonical)
next
  case True
  with assms show ?thesis
    by (simp add: canonicalizeAccountId_def valid_id_def sanitizeId_canonical)
qed

lemma normalizeAccountId_canonical:
  "canonical_id (normalizeAccountId v)" "\<not> isBlockedObjectKey (normalizeAccountId v)"
proof -
  have d: "canonical_id DEFAULT_ACCOUNT_ID" "\<not> isBlockedObjectKey DEFAULT_ACCOUNT_ID" by code_simp+
  show "canonical_id (normalizeAccountId v)"
    using d canonicalizeAccountId_canonical
    by (auto simp: normalizeAccountId_def normalizeCanonicalAccountId_def Let_def)
  show "\<not> isBlockedObjectKey (normalizeAccountId v)"
    using d by (auto simp: normalizeAccountId_def normalizeCanonicalAccountId_def Let_def)
qed

text \<open>A canonical identifier is stable when it does not both start with an underscore and end with
  a dash: such a value is not matched by the pattern and loses the dash when it is cleaned.\<close>

definition stable_id :: "string \<Rightarrow> bool" where
  "stable_id s \<longleftrightarrow> canonical_id s \<and> (hd s = CHR ''_'' \<longrightarrow> last s \<noteq> CHR ''-'')"

lemma stable_id_clean:
  assumes "stable_id s" "\<not> valid_id s"
  shows "sanitizeId s = s"
proof -
  from assms have c: "s \<noteq> []" "list_all id_char s" "length s \<le> 64" "hd s \<noteq> CHR ''-''"
    by (auto simp: stable_id_def canonical_id_def)
  then have "hd s = CHR ''_''"
    using assms(2) by (cases s) (auto simp: valid_id_def id_char_def list_all_iff)
  with assms c have "stripDashes s = s"
    by (intro stripDashes_id) (auto simp: stable_id_def)
  with c show ?thesis by (simp add: sanitizeId_def replaceRuns_id)
qed

lemma normalizeAgentId_stable: "stable_id s \<Longrightarrow> normalizeAgentId (Some s) = s"
  using stable_id_clean [of s]
  by (auto simp: normalizeAgentId_def Let_def stable_id_def canonical_id_def trimmed_id clean_lower
      canonical_lower)

lemma normalizeAccountId_stable:
  "stable_id s \<Longrightarrow> \<not> isBlockedObjectKey s \<Longrightarrow> normalizeAccountId (Some s) = s"
  using stable_id_clean [of s]
  by (auto simp: normalizeAccountId_def normalizeCanonicalAccountId_def canonicalizeAccountId_def
      Let_def stable_id_def canonical_id_def trimmed_id clean_lower canonical_lower)

lemma last_sanitizeId:
  assumes "sanitizeId s \<noteq> []" "last (sanitizeId s) = CHR ''-''"
  shows "length (sanitizeId s) = 64"
proof (rule ccontr)
  define t where "t = dropWhile (\<lambda>c. c = CHR ''-'') (replaceRuns s)"
  assume "length (sanitizeId s) \<noteq> 64"
  then have eq: "sanitizeId s = rev (dropWhile (\<lambda>c. c = CHR ''-'') (rev t))"
    by (auto simp: sanitizeId_def stripDashes_def t_def)
  with assms(1) have "hd (dropWhile (\<lambda>c. c = CHR ''-'') (rev t)) \<noteq> CHR ''-''"
    using hd_dropWhile [of "\<lambda>c. c = CHR ''-''" "rev t"] by simp
  with eq assms show False by (simp add: last_rev)
qed

lemma lower_valid_stable: "valid_id s \<Longrightarrow> stable_id (js_toLowerCase s)"
  using lower_valid_id [of s]
  by (cases s) (auto simp: stable_id_def valid_id_def js_toLowerCase_def dest: upper_lower_alnum)

lemma sanitizeId_stable:
  "sanitizeId s \<noteq> [] \<Longrightarrow> length (sanitizeId s) < 64 \<Longrightarrow> stable_id (sanitizeId s)"
  using last_sanitizeId [of s] sanitizeId_canonical [of s] by (auto simp: stable_id_def)

lemma short_agent_id_stable:
  assumes "length (normalizeAgentId v) < 64"
  shows "stable_id (normalizeAgentId v)"
proof -
  have "stable_id DEFAULT_AGENT_ID" by code_simp
  with assms show ?thesis
    by (auto simp: normalizeAgentId_def Let_def clean_lower lower_valid_stable sanitizeId_stable
        split: if_splits)
qed

lemma short_account_id_stable:
  assumes "length (normalizeAccountId v) < 64"
  shows "stable_id (normalizeAccountId v)"
proof -
  have "stable_id DEFAULT_ACCOUNT_ID" by code_simp
  with assms show ?thesis
    by (auto simp: normalizeAccountId_def normalizeCanonicalAccountId_def canonicalizeAccountId_def
        Let_def clean_lower lower_valid_stable sanitizeId_stable split: if_splits)
qed

lemma length_update_le: "length (AList.update k v c) \<le> Suc (length c)"
  by (induction c) auto

lemma update_entries:
  "map_of (AList.update k v c) k' = Some w \<Longrightarrow> (k' = k \<and> w = v) \<or> map_of c k' = Some w"
  by (auto simp: update_conv' split: if_splits)

lemma delete_entries: "map_of (AList.delete x c) k = Some w \<Longrightarrow> map_of c k = Some w"
  unfolding delete_conv' by (auto simp only: fun_upd_apply split: if_splits)

lemma length_delete_head: "length (AList.delete (fst p) (p # c)) \<le> length c"
  using length_delete_le [of "fst p" c] by (cases p) simp

interpretation account_memo: bounded_memo setNormalizeCache ACCOUNT_ID_CACHE_MAX
proof
  fix c :: "(string, 'v) js_map" and k k' v w
  show "(k' = k \<and> w = v) \<or> map_of c k' = Some w"
    if "map_of (setNormalizeCache c k v) k' = Some w"
  proof (cases "AList.update k v c")
    case (Cons p rest)
    with that update_entries [of k v c k' w] delete_entries [of "fst p" "p # rest" k' w] show ?thesis
      by (cases p) (auto simp: setNormalizeCache_def Let_def split: if_splits)
  qed (use that update_entries in \<open>simp add: setNormalizeCache_def split: if_splits\<close>)
  show "length (setNormalizeCache c k v) \<le> ACCOUNT_ID_CACHE_MAX" if "length c \<le> ACCOUNT_ID_CACHE_MAX"
  proof (cases "AList.update k v c")
    case (Cons p rest)
    with that length_update_le [of k v c] length_delete_head [of p rest] show ?thesis
      by (cases p) (auto simp: setNormalizeCache_def Let_def)
  qed (simp add: setNormalizeCache_def)
qed

text \<open>A call sequence on the memo table.\<close>

fun accountIdCalls ::
  "(string, string) js_map \<Rightarrow> string option list \<Rightarrow> string list \<times> (string, string) js_map" where
  "accountIdCalls cache [] = ([], cache)"
| "accountIdCalls cache (v # vs) =
     (let (r, cache') = normalizeAccountIdMemo cache v; (rs, cache'') = accountIdCalls cache' vs
      in (r # rs, cache''))"

lemma normalizeAccountIdMemo_sound:
  assumes "account_memo.sound (\<lambda>k. normalizeAccountId (Some k)) c"
  shows "fst (normalizeAccountIdMemo c v) = normalizeAccountId v"
    and "account_memo.sound (\<lambda>k. normalizeAccountId (Some k)) (snd (normalizeAccountIdMemo c v))"
proof -
  define t where "t = js_trim (nullish v [])"
  have t: "t \<noteq> [] \<Longrightarrow> nullish (normalizeCanonicalAccountId t) DEFAULT_ACCOUNT_ID = normalizeAccountId (Some t)"
       "normalizeAccountId v = normalizeAccountId (Some t)"
    by (simp_all add: normalizeAccountId_def t_def)
  have e: "normalizeAccountId (Some []) = DEFAULT_ACCOUNT_ID" by (simp add: normalizeAccountId_def)
  have cached: "w = normalizeAccountId (Some t)" if "map_of c t = Some w" for w
    using account_memo.sound_get [OF assms that] .
  show "fst (normalizeAccountIdMemo c v) = normalizeAccountId v"
    using t cached e by (cases "t = []"; cases "map_of c t")
      (auto simp: normalizeAccountIdMemo_def t_def [symmetric] Let_def)
  show "account_memo.sound (\<lambda>k. normalizeAccountId (Some k)) (snd (normalizeAccountIdMemo c v))"
    using t(1) assms by (auto simp: normalizeAccountIdMemo_def t_def [symmetric] Let_def
        split: option.split intro: account_memo.sound_keep)
qed


lemma accountIdCalls_sound:
  "account_memo.sound (\<lambda>k. normalizeAccountId (Some k)) c \<Longrightarrow>
   fst (accountIdCalls c vs) = map normalizeAccountId vs"
proof (induction vs arbitrary: c)
  case (Cons v vs)
  then show ?case
    using normalizeAccountIdMemo_sound [OF Cons.prems, of v]
    by (simp add: case_prod_beta)
qed simp

lemma normalizeAccountIdMemo_bound:
  "length c \<le> ACCOUNT_ID_CACHE_MAX \<Longrightarrow> length (snd (normalizeAccountIdMemo c v)) \<le> ACCOUNT_ID_CACHE_MAX"
  by (simp add: normalizeAccountIdMemo_def Let_def account_memo.keep_bound split: option.split)

lemma accountIdCalls_bound:
  "length c \<le> ACCOUNT_ID_CACHE_MAX \<Longrightarrow> length (snd (accountIdCalls c vs)) \<le> ACCOUNT_ID_CACHE_MAX"
  by (induction vs arbitrary: c) (simp_all add: case_prod_beta normalizeAccountIdMemo_bound)

text \<open>C11. Account ids are safe configuration keys: whatever text a channel or a user supplies,
  \<open>normalizeAccountId\<close> returns a non-empty string of at most 64 characters drawn from
  \<open>[a-z0-9_-]\<close> that does not start with a dash and is none of the prototype-polluting object
  keys; and normalizing the result again changes nothing, except for a 64-character result that
  starts with an underscore and was cut right after a dash.\<close>

theorem account_id_safe_key:
  "normalizeAccountId v \<noteq> [] \<and> list_all id_char (normalizeAccountId v)
   \<and> length (normalizeAccountId v) \<le> 64 \<and> hd (normalizeAccountId v) \<noteq> CHR ''-''
   \<and> normalizeAccountId v \<notin> {''__proto__'', ''prototype'', ''constructor''}
   \<and> (normalizeAccountId (Some (normalizeAccountId v)) = normalizeAccountId v
      \<or> length (normalizeAccountId v) = 64 \<and> hd (normalizeAccountId v) = CHR ''_''
        \<and> last (normalizeAccountId v) = CHR ''-'')"
proof -
  let ?a = "normalizeAccountId v"
  have c: "canonical_id ?a" and b: "\<not> isBlockedObjectKey ?a"
    by (rule normalizeAccountId_canonical)+
  have "stable_id ?a \<or> length ?a = 64 \<and> hd ?a = CHR ''_'' \<and> last ?a = CHR ''-''"
    using c short_account_id_stable [of v] by (force simp: stable_id_def canonical_id_def)
  with c b show ?thesis
    using normalizeAccountId_stable [of ?a]
    by (auto simp: canonical_id_def isBlockedObjectKey_def)
qed

text \<open>The memo table of \<open>normalizeAccountId\<close> is invisible: for every sequence of calls
  made since start-up the memoized function returns exactly what the definition computes, and the
  table never holds more than 512 entries.\<close>

theorem account_id_memo_transparent:
  "fst (accountIdCalls [] vs) = map normalizeAccountId vs
   \<and> length (snd (accountIdCalls [] vs)) \<le> 512"
  using accountIdCalls_sound [OF account_memo.sound_empty, of vs] accountIdCalls_bound [of "[]" vs]
  by (simp add: ACCOUNT_ID_CACHE_MAX_def)

lemma long_underscore_id_unstable:
  "normalizeAgentId (Some (normalizeAgentId (Some (CHR ''_'' # replicate 62 (CHR ''a'') @ ''-b''))))
     \<noteq> normalizeAgentId (Some (CHR ''_'' # replicate 62 (CHR ''a'') @ ''-b''))"
  by code_simp

end
