(* ===== verification/Session_Key.thy ===== *)
theory Session_Key
  imports Identifiers
begin

text \<open>
  Session keys: \<open>src/sessions/session-key-utils.ts\<close> (canonicalisation that keeps the
  case of opaque peer ids, parsing, classification), \<open>src/routing/session-key.ts\<close> (building
  keys for main, direct and group sessions) and \<open>src/channels/chat-type.ts\<close>.

  The regular expressions of the source are written out as matchers over the string: each
  \<open>fun\<close> names the expression it stands for. The canonicalisation has a bounded memo table; it
  is state of \<open>normalizeSessionKeyMemo\<close>, which is shown to return what the plain function
  computes.
\<close>

subsection \<open>String helpers\<close>

definition js_slice :: "nat \<Rightarrow> nat \<Rightarrow> string \<Rightarrow> string" where
  "js_slice a b s = drop a (take b s)"

fun js_lastIndexOf :: "string \<Rightarrow> string \<Rightarrow> nat option" where
  "js_lastIndexOf [] p = (if p = [] then Some 0 else None)"
| "js_lastIndexOf (c # s) p =
     (case js_lastIndexOf s p of
        Some i \<Rightarrow> Some (Suc i)
      | None \<Rightarrow> if js_startsWith (c # s) p then Some 0 else None)"

fun js_includes :: "string \<Rightarrow> string \<Rightarrow> bool" where
  "js_includes [] p = (p = [])"
| "js_includes (c # s) p = (js_startsWith (c # s) p \<or> js_includes s p)"

definition js_at :: "'a list \<Rightarrow> nat \<Rightarrow> 'a option" where
  "js_at xs i = (if i < length xs then Some (xs ! i) else None)"

fun js_of_opt :: "string option \<Rightarrow> js_value" where
  "js_of_opt None = JUndefined"
| "js_of_opt (Some s) = JStr s"

abbreviation colon :: char where
  "colon \<equiv> CHR '':''"

abbreviation splitColon :: "string \<Rightarrow> string list" where
  "splitColon s \<equiv> js_split_char colon s"

text \<open>A prefix test under the \<open>i\<close> flag, against a lower-case pattern.\<close>

definition startsWithI :: "string \<Rightarrow> string \<Rightarrow> bool" where
  "startsWithI s p \<longleftrightarrow> js_startsWith (js_toLowerCase s) p"

subsection \<open>chat-type.ts\<close>

datatype chat_type = ChatDirect | ChatGroup | ChatChannel

fun chatTypeString :: "chat_type \<Rightarrow> string" where
  "chatTypeString ChatDirect = ''direct''"
| "chatTypeString ChatGroup = ''group''"
| "chatTypeString ChatChannel = ''channel''"

definition normalizeChatType :: "string option \<Rightarrow> chat_type option" where
  "normalizeChatType raw =
     (case normalizeOptionalLowercaseString (js_of_opt raw) of
        None \<Rightarrow> None
      | Some v \<Rightarrow>
        if v = ''direct'' \<or> v = ''dm'' then Some ChatDirect
        else if v = ''group'' then Some ChatGroup
        else if v = ''channel'' then Some ChatChannel
        else None)"

subsection \<open>session-key-utils.ts: opaque peer ids\<close>

datatype peer_span = SpanSegment | SpanTail

record case_preserving_peer =
  cpp_channel :: string
  cpp_peerKinds :: "string list"
  cpp_span :: peer_span
  cpp_unscoped :: bool

definition CASE_PRESERVING_PEERS :: "case_preserving_peer list" where
  "CASE_PRESERVING_PEERS =
     [\<lparr>cpp_channel = ''signal'', cpp_peerKinds = [''group''], cpp_span = SpanSegment, cpp_unscoped = True\<rparr>,
      \<lparr>cpp_channel = ''matrix'', cpp_peerKinds = [''channel'', ''group''], cpp_span = SpanTail,
       cpp_unscoped = True\<rparr>]"

definition findCasePreservingPeerDescriptor ::
  "string option \<Rightarrow> string option \<Rightarrow> case_preserving_peer option" where
  "findCasePreservingPeerDescriptor channel peerKind =
     (let c = normalizeLowercaseStringOrEmpty (js_of_opt channel);
          k = normalizeLowercaseStringOrEmpty (js_of_opt peerKind)
      in find (\<lambda>d. cpp_channel d = c \<and> List.member (cpp_peerKinds d) k) CASE_PRESERVING_PEERS)"

definition isCasePreservingPeer :: "string option \<Rightarrow> string option \<Rightarrow> bool" where
  "isCasePreservingPeer channel peerKind \<longleftrightarrow>
     findCasePreservingPeerDescriptor
       (Some (normalizeLowercaseStringOrEmpty (js_of_opt channel)))
       (Some (normalizeLowercaseStringOrEmpty (js_of_opt peerKind))) \<noteq> None"

text \<open>The two index loops of \<open>requiresFoldedSessionKeyAliasProof\<close>, on the remaining segments.\<close>

fun skipAgentWrappers :: "string list \<Rightarrow> bool \<Rightarrow> string list \<times> bool" where
  "skipAgentWrappers (a # b # c # rest) seen =
     (if normalizeOptionalLowercaseString (JStr a) = Some ''agent''
      then skipAgentWrappers (c # rest) True
      else (a # b # c # rest, seen))"
| "skipAgentWrappers parts seen = (parts, seen)"

definition requiresFoldedSessionKeyAliasProof :: "string option \<Rightarrow> bool" where
  "requiresFoldedSessionKeyAliasProof sessionKey =
     (case normalizeOptionalString (js_of_opt sessionKey) of
        None \<Rightarrow> False
      | Some raw \<Rightarrow>
        let (parts, hasAgentWrapper) = skipAgentWrappers (splitColon raw) False;
            body = (if hasAgentWrapper
                    then dropWhile (\<lambda>p. normalizeOptionalString (JStr p) = None) parts else parts)
        in map_option cpp_span (findCasePreservingPeerDescriptor (js_at body 0) (js_at body 1))
             = Some SpanTail)"

definition normalizeSessionPeerId ::
  "string option \<Rightarrow> string option \<Rightarrow> string option \<Rightarrow> string" where
  "normalizeSessionPeerId channel peerKind peerId =
     (let peer = js_trim (nullish peerId []) in
      if peer = [] then []
      else if isCasePreservingPeer channel peerKind then peer
      else normalizeLowercaseStringOrEmpty (JStr peer))"

definition mayContainCasePreservingPeer :: "string \<Rightarrow> bool" where
  "mayContainCasePreservingPeer raw \<longleftrightarrow>
     (let folded = js_toLowerCase raw in
      list_ex (\<lambda>d. js_includes folded (cpp_channel d @ '':'')) CASE_PRESERVING_PEERS)"

record preserved_span =
  sp_start :: nat
  sp_end :: nat
  sp_trim :: bool

text \<open>\<open>raw.matchAll((^|:)channel:kind:([^:]+))\<close> with the flags \<open>gi\<close>: the span of group 2 of
  the match at position \<open>i\<close>, if there is one, where \<open>s\<close> is the text from \<open>i\<close> on.\<close>

definition segmentAt :: "string \<Rightarrow> nat \<Rightarrow> string \<Rightarrow> nat \<Rightarrow> preserved_span option" where
  "segmentAt pat i s skip =
     (let rest = drop skip s; segment = takeWhile (\<lambda>c. c \<noteq> colon) (drop (length pat) rest);
          start = i + skip + length pat
      in if startsWithI rest pat \<and> segment \<noteq> []
         then Some \<lparr>sp_start = start, sp_end = start + length segment, sp_trim = True\<rparr> else None)"

definition segmentMatch :: "string \<Rightarrow> nat \<Rightarrow> string \<Rightarrow> preserved_span option" where
  "segmentMatch pat i s =
     (case (if i = 0 then segmentAt pat i s 0 else None) of
        Some sp \<Rightarrow> Some sp
      | None \<Rightarrow> if s \<noteq> [] \<and> hd s = colon then segmentAt pat i s 1 else None)"

lemma segmentAt_end: "segmentAt pat i s k = Some sp \<Longrightarrow> i < sp_end sp"
  by (auto simp: segmentAt_def Let_def split: if_splits)

lemma segmentMatch_end: "segmentMatch pat i s = Some sp \<Longrightarrow> i < sp_end sp"
  by (auto simp: segmentMatch_def segmentAt_end split: if_splits option.splits)

function segmentSpans :: "string \<Rightarrow> nat \<Rightarrow> string \<Rightarrow> preserved_span list" where
  "segmentSpans pat i [] = []"
| "segmentSpans pat i (c # s) =
     (case segmentMatch pat i (c # s) of
        Some sp \<Rightarrow> sp # segmentSpans pat (sp_end sp) (drop (sp_end sp - i) (c # s))
      | None \<Rightarrow> segmentSpans pat (Suc i) s)"
  by pat_completeness auto
termination
  by (relation "measure (\<lambda>(pat, i, s). length s)") (auto dest: segmentMatch_end)

text \<open>One \<open>agent:[^:]*:\<close> at the front, and \<open>^(?:agent:[^:]*:)+:*channel:kind:\<close> with the flag
  \<open>i\<close>: what follows the match. A wrapper that could be repeated is always consumed, because the
  text after it would otherwise have to start with the channel name.\<close>

definition dropAgentWrapper :: "string \<Rightarrow> string option" where
  "dropAgentWrapper s =
     (if startsWithI s ''agent:''
      then (case dropWhile (\<lambda>c. c \<noteq> colon) (drop 6 s) of [] \<Rightarrow> None | _ # t \<Rightarrow> Some t)
      else None)"

lemma dropAgentWrapper_shorter: "dropAgentWrapper s = Some t \<Longrightarrow> length t < length s"
proof -
  assume "dropAgentWrapper s = Some t"
  then obtain c where "dropWhile (\<lambda>c. c \<noteq> colon) (drop 6 s) = c # t"
    by (auto simp: dropAgentWrapper_def split: if_splits list.splits)
  then show ?thesis
    using length_dropWhile_le [of "\<lambda>c. c \<noteq> colon" "drop 6 s"] by simp
qed

function scopedTail :: "string \<Rightarrow> string \<Rightarrow> string option" where
  "scopedTail pat s =
     (case dropAgentWrapper s of
        None \<Rightarrow> None
      | Some t \<Rightarrow>
        if dropAgentWrapper t \<noteq> None then scopedTail pat t
        else (let u = dropWhile (\<lambda>c. c = colon) t in
              if startsWithI u pat then Some (drop (length pat) u) else None))"
  by pat_completeness auto
termination
  by (relation "measure (\<lambda>(pat, s). length s)") (auto dest: dropAgentWrapper_shorter)

declare scopedTail.simps [simp del]

definition collectTailSpan :: "string \<Rightarrow> nat \<Rightarrow> preserved_span list" where
  "collectTailSpan raw tailStart =
     (if length raw \<le> tailStart then []
      else case js_lastIndexOf (normalizeLowercaseStringOrEmpty (JStr (drop tailStart raw))) '':thread:'' of
        None \<Rightarrow> [\<lparr>sp_start = tailStart, sp_end = length raw, sp_trim = False\<rparr>]
      | Some markerIndex \<Rightarrow>
        \<lparr>sp_start = tailStart, sp_end = tailStart + markerIndex, sp_trim = False\<rparr>
        # (let threadIdStart = tailStart + markerIndex + 8 in
           if threadIdStart < length raw
           then [\<lparr>sp_start = threadIdStart, sp_end = length raw, sp_trim = False\<rparr>] else []))"

definition collectPeerSpans :: "string \<Rightarrow> case_preserving_peer \<Rightarrow> string \<Rightarrow> preserved_span list" where
  "collectPeerSpans raw d kind =
     (let pat = cpp_channel d @ '':'' @ kind @ '':'' in
      if cpp_span d = SpanSegment then segmentSpans pat 0 raw
      else case scopedTail pat raw of
        Some tail \<Rightarrow> collectTailSpan raw (length raw - length tail)
      | None \<Rightarrow>
        if cpp_unscoped d \<and> startsWithI raw pat then collectTailSpan raw (length pat) else [])"

definition collectCasePreservedSpans :: "string \<Rightarrow> preserved_span list" where
  "collectCasePreservedSpans raw =
     concat (map (\<lambda>d. concat (map (collectPeerSpans raw d) (cpp_peerKinds d))) CASE_PRESERVING_PEERS)"

fun emitSpans :: "string \<Rightarrow> nat \<Rightarrow> string \<Rightarrow> preserved_span list \<Rightarrow> string" where
  "emitSpans raw cursor normalized [] =
     normalized @ normalizeLowercaseStringOrEmpty (JStr (drop cursor raw))"
| "emitSpans raw cursor normalized (sp # spans) =
     (if sp_start sp < cursor then emitSpans raw cursor normalized spans
      else let preserved = js_slice (sp_start sp) (sp_end sp) raw in
        emitSpans raw (sp_end sp)
          (normalized @ normalizeLowercaseStringOrEmpty (JStr (js_slice cursor (sp_start sp) raw))
             @ (if sp_trim sp then js_trim preserved else preserved))
          spans)"

definition canonicalSessionKey :: "string \<Rightarrow> string" where
  "canonicalSessionKey raw =
     (if \<not> mayContainCasePreservingPeer raw then js_toLowerCase raw
      else emitSpans raw 0 []
        (js_toSorted (\<lambda>a b. int (sp_start a) - int (sp_start b))
          (filter (\<lambda>sp. sp_start sp < sp_end sp) (collectCasePreservedSpans raw))))"

definition normalizeSessionKeyPreservingOpaquePeerIds :: "string option \<Rightarrow> string" where
  "normalizeSessionKeyPreservingOpaquePeerIds sessionKey =
     (case normalizeOptionalString (js_of_opt sessionKey) of
        None \<Rightarrow> []
      | Some raw \<Rightarrow> canonicalSessionKey raw)"

text \<open>The memo table: at most 2048 entries, keys of at most 4096 characters.\<close>

definition NORMALIZED_SESSION_KEY_CACHE_MAX_ENTRIES :: nat where
  "NORMALIZED_SESSION_KEY_CACHE_MAX_ENTRIES = 2048"

definition NORMALIZED_SESSION_KEY_CACHE_MAX_LENGTH :: nat where
  "NORMALIZED_SESSION_KEY_CACHE_MAX_LENGTH = 4096"

definition readNormalizedSessionKeyCache :: "(string, string) js_map \<Rightarrow> string \<Rightarrow> string option" where
  "readNormalizedSessionKeyCache cache raw =
     (if length raw \<le> NORMALIZED_SESSION_KEY_CACHE_MAX_LENGTH then map_of cache raw else None)"

function evictOldest :: "nat \<Rightarrow> ('k, 'v) js_map \<Rightarrow> ('k, 'v) js_map" where
  "evictOldest bound [] = []"
| "evictOldest bound (p # c) =
     (if bound < length (p # c) then evictOldest bound (AList.delete (fst p) (p # c)) else p # c)"
  by pat_completeness auto
termination
  by (relation "measure (\<lambda>(bound, c). length c)")
     (simp_all only: wf_measure in_measure case_prod_conv list.size less_Suc_eq_le add_Suc_right
        add_0_right length_delete_head)

definition writeNormalizedSessionKeyCache ::
  "(string, string) js_map \<Rightarrow> string \<Rightarrow> string \<Rightarrow> (string, string) js_map" where
  "writeNormalizedSessionKeyCache cache raw normalized =
     (if NORMALIZED_SESSION_KEY_CACHE_MAX_LENGTH < length raw then cache
      else evictOldest NORMALIZED_SESSION_KEY_CACHE_MAX_ENTRIES (AList.update raw normalized cache))"

definition normalizeSessionKeyMemo ::
  "(string, string) js_map \<Rightarrow> string option \<Rightarrow> string \<times> (string, string) js_map" where
  "normalizeSessionKeyMemo cache sessionKey =
     (case normalizeOptionalString (js_of_opt sessionKey) of
        None \<Rightarrow> ([], cache)
      | Some raw \<Rightarrow>
        case readNormalizedSessionKeyCache cache raw of
          Some cached \<Rightarrow> (cached, cache)
        | None \<Rightarrow>
          let normalized = canonicalSessionKey raw
          in (normalized, writeNormalizedSessionKeyCache cache raw normalized))"

subsection \<open>session-key-utils.ts: parsing and classification\<close>

record parsed_agent_key =
  pk_agentId :: string
  pk_rest :: string

definition parseAgentSessionKey :: "string option \<Rightarrow> parsed_agent_key option" where
  "parseAgentSessionKey sessionKey =
     (let raw = normalizeSessionKeyPreservingOpaquePeerIds sessionKey in
      if raw = [] then None
      else case splitColon raw of
        p0 # p1 # p2 # ps \<Rightarrow>
          if p1 = [] \<or> p2 = [] then None
          else if p0 \<noteq> ''agent'' then None
          else (case normalizeOptionalString (JStr p1) of
                  None \<Rightarrow> None
                | Some agentId \<Rightarrow>
                  let rest = js_join '':'' (p2 # ps) in
                  if rest = [] then None else Some \<lparr>pk_agentId = agentId, pk_rest = rest\<rparr>)
      | _ \<Rightarrow> None)"

text \<open>\<open>^cron:[^:]+:run:[^:]+(?::|$)\<close> and \<open>^cron:[^:]+:run:[^:]+$\<close>, on the segments.\<close>

definition cronRunShape :: "string \<Rightarrow> bool" where
  "cronRunShape rest =
     (case splitColon rest of
        a # b # c # d # _ \<Rightarrow> a = ''cron'' \<and> b \<noteq> [] \<and> c = ''run'' \<and> d \<noteq> []
      | _ \<Rightarrow> False)"

definition exactCronRunShape :: "string \<Rightarrow> bool" where
  "exactCronRunShape rest \<longleftrightarrow> cronRunShape rest \<and> length (splitColon rest) = 4"

definition isCronRunSessionKey :: "string option \<Rightarrow> bool" where
  "isCronRunSessionKey sessionKey =
     (case parseAgentSessionKey sessionKey of None \<Rightarrow> False
      | Some parsed \<Rightarrow> cronRunShape (pk_rest parsed))"

record cron_run_suffix =
  cr_baseSessionKey :: "string option"
  cr_runId :: "string option"

definition parseCronRunScopeSuffix :: "string option \<Rightarrow> cron_run_suffix" where
  "parseCronRunScopeSuffix sessionKey =
     (case normalizeOptionalString (js_of_opt sessionKey) of
        None \<Rightarrow> \<lparr>cr_baseSessionKey = None, cr_runId = None\<rparr>
      | Some raw \<Rightarrow>
        case parseAgentSessionKey (Some raw) of
          None \<Rightarrow> \<lparr>cr_baseSessionKey = Some raw, cr_runId = None\<rparr>
        | Some parsed \<Rightarrow>
          if \<not> exactCronRunShape (pk_rest parsed)
          then \<lparr>cr_baseSessionKey = Some raw, cr_runId = None\<rparr>
          else case js_lastIndexOf (js_toLowerCase raw) '':run:'' of
            Some markerIndex \<Rightarrow>
              \<lparr>cr_baseSessionKey = Some (take markerIndex raw), cr_runId = Some (drop (markerIndex + 5) raw)\<rparr>
          | None \<Rightarrow>
              \<comment> \<open>\<open>slice(0, -1)\<close> and \<open>slice(4)\<close> of the source\<close>
              \<lparr>cr_baseSessionKey = Some (take (length raw - 1) raw), cr_runId = Some (drop 4 raw)\<rparr>)"

definition lowerStartsWith :: "string option \<Rightarrow> string \<Rightarrow> bool" where
  "lowerStartsWith v p =
     (case normalizeOptionalLowercaseString (js_of_opt v) of None \<Rightarrow> False | Some s \<Rightarrow> js_startsWith s p)"

definition isCronSessionKey :: "string option \<Rightarrow> bool" where
  "isCronSessionKey sessionKey =
     (case parseAgentSessionKey sessionKey of None \<Rightarrow> False
      | Some parsed \<Rightarrow> lowerStartsWith (Some (pk_rest parsed)) ''cron:'')"

definition isSubagentSessionKey :: "string option \<Rightarrow> bool" where
  "isSubagentSessionKey sessionKey =
     (case normalizeOptionalString (js_of_opt sessionKey) of
        None \<Rightarrow> False
      | Some raw \<Rightarrow>
        lowerStartsWith (Some raw) ''subagent:''
        \<or> lowerStartsWith (map_option pk_rest (parseAgentSessionKey (Some raw))) ''subagent:'')"

text \<open>The number of matches of \<open>(^|:)subagent:\<close> with the flag \<open>g\<close>.\<close>

function countSubagent :: "bool \<Rightarrow> string \<Rightarrow> nat" where
  "countSubagent atStart [] = 0"
| "countSubagent atStart (c # s) =
     (if atStart \<and> js_startsWith (c # s) ''subagent:'' then Suc (countSubagent False (drop 8 s))
      else if c = colon \<and> js_startsWith s ''subagent:'' then Suc (countSubagent False (drop 9 s))
      else countSubagent False s)"
  by pat_completeness auto
termination
  by (relation "measure (\<lambda>(b, s). length s)") auto

definition getSubagentDepth :: "string option \<Rightarrow> nat" where
  "getSubagentDepth sessionKey =
     (case normalizeOptionalLowercaseString (js_of_opt sessionKey) of
        None \<Rightarrow> 0
      | Some raw \<Rightarrow>
        let scoped = nullish (map_option pk_rest (parseAgentSessionKey (Some raw))) raw
        in countSubagent True (js_toLowerCase scoped))"

definition isAcpSessionKey :: "string option \<Rightarrow> bool" where
  "isAcpSessionKey sessionKey =
     (case normalizeOptionalString (js_of_opt sessionKey) of
        None \<Rightarrow> False
      | Some raw \<Rightarrow>
        js_startsWith (normalizeLowercaseStringOrEmpty (JStr raw)) ''acp:''
        \<or> lowerStartsWith (map_option pk_rest (parseAgentSessionKey (Some raw))) ''acp:'')"

record thread_suffix =
  ts_baseSessionKey :: "string option"
  ts_threadId :: "string option"

definition parseThreadSessionSuffix :: "string option \<Rightarrow> thread_suffix" where
  "parseThreadSessionSuffix sessionKey =
     (case normalizeOptionalString (js_of_opt sessionKey) of
        None \<Rightarrow> \<lparr>ts_baseSessionKey = None, ts_threadId = None\<rparr>
      | Some raw \<Rightarrow>
        case js_lastIndexOf (normalizeLowercaseStringOrEmpty (JStr raw)) '':thread:'' of
          None \<Rightarrow> \<lparr>ts_baseSessionKey = Some raw, ts_threadId = None\<rparr>
        | Some markerIndex \<Rightarrow>
          \<lparr>ts_baseSessionKey = Some (take markerIndex raw),
           ts_threadId = normalizeOptionalString (JStr (drop (markerIndex + 8) raw))\<rparr>)"

record delivery_route =
  dr_accountId :: "string option"
  dr_channel :: string
  dr_peerId :: string
  dr_peerKind :: string
  dr_threadId :: "string option"

definition SESSION_DELIVERY_PEER_KINDS :: "string list" where
  "SESSION_DELIVERY_PEER_KINDS = [''channel'', ''direct'', ''dm'', ''group'']"

definition accountDeliveryRoute :: "string \<Rightarrow> string list \<Rightarrow> string option \<Rightarrow> delivery_route option" where
  "accountDeliveryRoute channel parts threadId =
     (case (normalizeOptionalString (js_of_opt (js_at parts 1)),
            normalizeOptionalString (js_of_opt (js_at parts 3)),
            normalizeOptionalString (JStr (js_join '':'' (drop 3 parts)))) of
        (Some accountId, Some _, Some peerId) \<Rightarrow>
          Some \<lparr>dr_accountId = Some accountId, dr_channel = channel, dr_peerId = peerId,
                dr_peerKind = nullish (js_at parts 2) [], dr_threadId = threadId\<rparr>
      | _ \<Rightarrow> None)"

definition plainDeliveryRoute :: "string \<Rightarrow> string list \<Rightarrow> string option \<Rightarrow> delivery_route option" where
  "plainDeliveryRoute channel parts threadId =
     (let peerKind = nullish (js_at parts 1) [] in
      case (normalizeOptionalString (js_of_opt (js_at parts 2)),
            normalizeOptionalString (JStr (js_join '':'' (drop 2 parts)))) of
        (Some _, Some peerId) \<Rightarrow>
          if peerKind = [] \<or> \<not> List.member SESSION_DELIVERY_PEER_KINDS peerKind then None
          else Some \<lparr>dr_accountId = None, dr_channel = channel, dr_peerId = peerId,
                     dr_peerKind = peerKind, dr_threadId = threadId\<rparr>
      | _ \<Rightarrow> None)"

definition parseSessionDeliveryRoute :: "string option \<Rightarrow> delivery_route option" where
  "parseSessionDeliveryRoute sessionKey =
     (let parsedThread = parseThreadSessionSuffix sessionKey in
      case parseAgentSessionKey (nullish_or (ts_baseSessionKey parsedThread) sessionKey) of
        None \<Rightarrow> None
      | Some parsed \<Rightarrow>
        let parts = splitColon (pk_rest parsed) in
        if js_at parts 0 = Some ''agent'' \<or> length parts < 3 then None
        else case normalizeOptionalLowercaseString (js_of_opt (js_at parts 0)) of
          None \<Rightarrow> None
        | Some channel \<Rightarrow>
          if 4 \<le> length parts \<and> (js_at parts 2 = Some ''direct'' \<or> js_at parts 2 = Some ''dm'')
          then accountDeliveryRoute channel parts (ts_threadId parsedThread)
          else plainDeliveryRoute channel parts (ts_threadId parsedThread))"

record conversation_ref =
  cref_channel :: string
  cref_kind :: string
  cref_rawId :: string
  cref_prefix :: string

definition parseRawSessionConversationRef :: "string option \<Rightarrow> conversation_ref option" where
  "parseRawSessionConversationRef sessionKey =
     (case normalizeOptionalString (js_of_opt sessionKey) of
        None \<Rightarrow> None
      | Some raw \<Rightarrow>
        let rawParts = splitColon raw;
            lower = (\<lambda>p. normalizeOptionalLowercaseString (js_of_opt p));
            hasAgentWrapper = (lower (js_at rawParts 0) = Some ''agent'')
        in if hasAgentWrapper
              \<and> (normalizeOptionalString (js_of_opt (js_at rawParts 1)) = None \<or> length rawParts < 3)
           then None
           else let bodyStartIndex = (if hasAgentWrapper then 2 else 0);
                    parts = drop bodyStartIndex rawParts
             in if lower (js_at parts 0) = Some ''agent'' then None
                else if length parts < 3
                        \<or> normalizeOptionalString (js_of_opt (js_at parts 2)) = None then None
                else case (lower (js_at parts 0), lower (js_at parts 1),
                           normalizeOptionalString (JStr (js_join '':'' (drop 2 parts))),
                           normalizeOptionalString (JStr (js_join '':'' (take (bodyStartIndex + 2) rawParts)))) of
                  (Some channel, Some kind, Some rawId, Some prefix) \<Rightarrow>
                    if kind \<noteq> ''group'' \<and> kind \<noteq> ''channel'' then None
                    else Some \<lparr>cref_channel = channel, cref_kind = kind, cref_rawId = rawId,
                               cref_prefix = prefix\<rparr>
                | _ \<Rightarrow> None)"

subsection \<open>session-key.ts\<close>

definition DEFAULT_MAIN_KEY :: string where
  "DEFAULT_MAIN_KEY = ''main''"

datatype session_key_shape = ShapeMissing | ShapeAgent | ShapeLegacyOrAlias | ShapeMalformedAgent

datatype session_scope = ScopePerSender | ScopeGlobal

datatype dm_scope = DmScopeMain | DmScopePerPeer | DmScopePerChannelPeer | DmScopePerAccountChannelPeer

definition normalizeToken :: "string option \<Rightarrow> string" where
  "normalizeToken value = normalizeLowercaseStringOrEmpty (js_of_opt value)"

definition js_or :: "string \<Rightarrow> string \<Rightarrow> string" where
  "js_or s d = (if s \<noteq> [] then s else d)"

definition normalizeMainKey :: "string option \<Rightarrow> string" where
  "normalizeMainKey value = js_or (normalizeLowercaseStringOrEmpty (js_of_opt value)) DEFAULT_MAIN_KEY"

definition sanitizeAgentId :: "string option \<Rightarrow> string" where
  "sanitizeAgentId value = normalizeAgentId value"

definition normalizeOptionalAgentId :: "js_value \<Rightarrow> string option" where
  "normalizeOptionalAgentId value =
     (case normalizeOptionalString value of None \<Rightarrow> None
      | Some trimmed \<Rightarrow> Some (normalizeAgentId (Some trimmed)))"

definition buildAgentMainSessionKey :: "string \<Rightarrow> string option \<Rightarrow> string" where
  "buildAgentMainSessionKey agentId mainKey =
     ''agent:'' @ normalizeAgentId (Some agentId) @ '':'' @ normalizeMainKey mainKey"

text \<open>\<open>scopedHeartbeatWakeOptions\<close> overlays at most one property on the caller's options.\<close>

datatype wake_overlay = WakeAsGiven | WakeSessionKey string | WakeAgentId string

definition scopedHeartbeatWakeOptions ::
  "string \<Rightarrow> 'o \<Rightarrow> string option \<Rightarrow> session_scope option \<Rightarrow> 'o \<times> wake_overlay" where
  "scopedHeartbeatWakeOptions sessionKey wakeOptions mainKey scope =
     (case parseAgentSessionKey (Some sessionKey) of
        None \<Rightarrow> (wakeOptions, WakeAsGiven)
      | Some parsed \<Rightarrow>
        if isCronRunSessionKey (Some sessionKey)
        then (if scope = Some ScopeGlobal then (wakeOptions, WakeAgentId (pk_agentId parsed))
              else (wakeOptions, WakeSessionKey (buildAgentMainSessionKey (pk_agentId parsed) mainKey)))
        else (wakeOptions, WakeSessionKey sessionKey))"

definition resolveEventSessionKey :: "string \<Rightarrow> string option \<Rightarrow> session_scope option \<Rightarrow> string" where
  "resolveEventSessionKey sessionKey mainKey scope =
     (case parseAgentSessionKey (Some sessionKey) of
        None \<Rightarrow> sessionKey
      | Some parsed \<Rightarrow>
        if \<not> isCronRunSessionKey (Some sessionKey) then sessionKey
        else if scope = Some ScopeGlobal then ''global''
        else buildAgentMainSessionKey (pk_agentId parsed) mainKey)"

definition toAgentRequestSessionKey :: "string option \<Rightarrow> string option" where
  "toAgentRequestSessionKey storeKey =
     (let raw = js_trim (nullish storeKey []) in
      if raw = [] then None
      else Some (nullish (map_option pk_rest (parseAgentSessionKey (Some raw))) raw))"

definition agentSessionKeysMatchByRequestKey :: "string option \<Rightarrow> string option \<Rightarrow> bool" where
  "agentSessionKeysMatchByRequestKey left right =
     (let leftRaw = js_trim (nullish left []); rightRaw = js_trim (nullish right []) in
      if leftRaw = [] \<or> rightRaw = [] then False
      else leftRaw = rightRaw
        \<or> toAgentRequestSessionKey (Some leftRaw) = toAgentRequestSessionKey (Some rightRaw))"

definition toAgentStoreSessionKey :: "string \<Rightarrow> string option \<Rightarrow> string option \<Rightarrow> string" where
  "toAgentStoreSessionKey agentId requestKey mainKey =
     (let raw = js_trim (nullish requestKey []); lowered = normalizeLowercaseStringOrEmpty (JStr raw) in
      if raw = [] \<or> lowered = DEFAULT_MAIN_KEY then buildAgentMainSessionKey agentId mainKey
      else case parseAgentSessionKey (Some raw) of
        Some parsed \<Rightarrow> ''agent:'' @ pk_agentId parsed @ '':'' @ pk_rest parsed
      | None \<Rightarrow>
        let normalized = normalizeSessionKeyPreservingOpaquePeerIds (Some raw) in
        if js_startsWith lowered ''agent:'' then normalized
        else ''agent:'' @ normalizeAgentId (Some agentId) @ '':'' @ normalized)"

definition classifySessionKeyShape :: "string option \<Rightarrow> session_key_shape" where
  "classifySessionKeyShape sessionKey =
     (let raw = js_trim (nullish sessionKey []) in
      if raw = [] then ShapeMissing
      else if parseAgentSessionKey (Some raw) \<noteq> None then ShapeAgent
      else if js_startsWith (normalizeLowercaseStringOrEmpty (JStr raw)) ''agent:''
      then ShapeMalformedAgent else ShapeLegacyOrAlias)"

datatype session_key_error = MalformedAgentSessionKey | SessionKeyWithoutAgent

definition resolveAgentIdFromSessionKey ::
  "string option \<Rightarrow> string option \<Rightarrow> session_key_error + string" where
  "resolveAgentIdFromSessionKey sessionKey configuredDefaultAgentId =
     (let agentId = nullish (map_option pk_agentId (parseAgentSessionKey sessionKey)) [];
          configuredDefault = nullish (map_option js_trim configuredDefaultAgentId) []
      in if agentId \<noteq> [] then Inr (normalizeAgentId (Some agentId))
         else if classifySessionKeyShape sessionKey = ShapeMalformedAgent
         then Inl MalformedAgentSessionKey
         else if configuredDefault \<noteq> [] then Inr (normalizeAgentId (Some configuredDefault))
         else Inl SessionKeyWithoutAgent)"

definition isUnscopedSessionKeySentinel :: "string option \<Rightarrow> bool" where
  "isUnscopedSessionKeySentinel sessionKey \<longleftrightarrow>
     (let lowered = normalizeLowercaseStringOrEmpty (js_of_opt sessionKey) in
      lowered = ''global'' \<or> lowered = ''unknown'')"

text \<open>\<open>^(?:dashboard|subagent|internal-session-effects):incognito-[^:]+$\<close>, on the segments.\<close>

definition incognitoShape :: "string \<Rightarrow> bool" where
  "incognitoShape rest =
     (case splitColon rest of
        [a, b] \<Rightarrow> List.member [''dashboard'', ''subagent'', ''internal-session-effects''] a
          \<and> js_startsWith b ''incognito-'' \<and> 10 < length b
      | _ \<Rightarrow> False)"

definition isIncognitoSessionKey :: "string option \<Rightarrow> bool" where
  "isIncognitoSessionKey sessionKey =
     (case parseAgentSessionKey sessionKey of None \<Rightarrow> False
      | Some parsed \<Rightarrow> incognitoShape (pk_rest parsed))"

definition scopeLegacySessionKeyToAgent ::
  "string option \<Rightarrow> string option \<Rightarrow> string option \<Rightarrow> string option" where
  "scopeLegacySessionKeyToAgent agentId sessionKey mainKey =
     (let raw = js_trim (nullish sessionKey []) in
      if raw = [] then None
      else let agent = nullish (map_option js_trim agentId) [] in
        if agent = [] \<or> classifySessionKeyShape (Some raw) \<noteq> ShapeLegacyOrAlias then Some raw
        else Some (toAgentStoreSessionKey agent (Some raw) mainKey))"

text \<open>\<open>resolveLinkedPeerId\<close>: the first canonical name, in configuration order, one of whose
  ids is the peer id or the peer id scoped by the channel.\<close>

type_synonym identity_links = "(string, string list) js_map"

definition linkedPeerCandidates :: "string \<Rightarrow> string \<Rightarrow> string list" where
  "linkedPeerCandidates channel peerId =
     (let rawCandidate = normalizeToken (Some peerId);
          c0 = (if rawCandidate \<noteq> [] then js_set_add [] rawCandidate else []);
          chan = normalizeToken (Some channel)
      in if chan = [] then c0
         else let scopedCandidate = normalizeToken (Some (chan @ '':'' @ peerId)) in
           if scopedCandidate \<noteq> [] then js_set_add c0 scopedCandidate else c0)"

fun findLinkedPeer :: "string list \<Rightarrow> identity_links \<Rightarrow> string option" where
  "findLinkedPeer candidates [] = None"
| "findLinkedPeer candidates ((canonical, ids) # links) =
     (let canonicalName = js_trim canonical in
      if canonicalName = [] then findLinkedPeer candidates links
      else if list_ex (\<lambda>i. let normalized = normalizeToken (Some i) in
                 normalized \<noteq> [] \<and> List.member candidates normalized) ids
      then Some canonicalName
      else findLinkedPeer candidates links)"

definition resolveLinkedPeerId :: "identity_links option \<Rightarrow> string \<Rightarrow> string \<Rightarrow> string option" where
  "resolveLinkedPeerId identityLinks channel peerId =
     (case identityLinks of None \<Rightarrow> None
      | Some links \<Rightarrow>
        let peer = js_trim peerId in
        if peer = [] then None
        else let candidates = linkedPeerCandidates channel peer in
          if candidates = [] then None else findLinkedPeer candidates links)"

record peer_key_params =
  pkp_agentId :: string
  pkp_mainKey :: "string option"
  pkp_channel :: string
  pkp_accountId :: "string option"
  pkp_peerKind :: "chat_type option"
  pkp_peerId :: "string option"
  pkp_identityLinks :: "identity_links option"
  pkp_dmScope :: "dm_scope option"

definition directPeerKeyId :: "peer_key_params \<Rightarrow> string" where
  "directPeerKeyId p =
     (let peerId = js_trim (nullish (pkp_peerId p) []);
          linked = (if nullish (pkp_dmScope p) DmScopeMain = DmScopeMain then None
                    else resolveLinkedPeerId (pkp_identityLinks p) (pkp_channel p) peerId)
      in normalizeLowercaseStringOrEmpty (JStr (js_or (nullish linked []) peerId)))"

definition buildAgentPeerSessionKey :: "peer_key_params \<Rightarrow> string" where
  "buildAgentPeerSessionKey p =
     (let agent = normalizeAgentId (Some (pkp_agentId p));
          channel = js_or (normalizeLowercaseStringOrEmpty (JStr (pkp_channel p))) ''unknown'';
          peerKind = nullish (pkp_peerKind p) ChatDirect
      in if peerKind = ChatDirect
         then let dmScope = nullish (pkp_dmScope p) DmScopeMain; peerId = directPeerKeyId p in
           if dmScope = DmScopePerAccountChannelPeer \<and> peerId \<noteq> []
           then ''agent:'' @ agent @ '':'' @ channel @ '':'' @ normalizeAccountId (pkp_accountId p)
                  @ '':direct:'' @ peerId
           else if dmScope = DmScopePerChannelPeer \<and> peerId \<noteq> []
           then ''agent:'' @ agent @ '':'' @ channel @ '':direct:'' @ peerId
           else if dmScope = DmScopePerPeer \<and> peerId \<noteq> []
           then ''agent:'' @ agent @ '':direct:'' @ peerId
           else buildAgentMainSessionKey (pkp_agentId p) (pkp_mainKey p)
         else let peerId = js_or (normalizeSessionPeerId (Some (pkp_channel p))
                                    (Some (chatTypeString peerKind)) (pkp_peerId p)) ''unknown''
           in ''agent:'' @ agent @ '':'' @ channel @ '':'' @ chatTypeString peerKind @ '':'' @ peerId)"

definition buildGroupHistoryKey :: "string \<Rightarrow> string option \<Rightarrow> chat_type \<Rightarrow> string \<Rightarrow> string" where
  "buildGroupHistoryKey channel accountId peerKind peerId =
     (let chan = js_or (normalizeToken (Some channel)) ''unknown'';
          peer = js_or (normalizeSessionPeerId (Some chan) (Some (chatTypeString peerKind)) (Some peerId))
                   ''unknown''
      in chan @ '':'' @ normalizeAccountId accountId @ '':'' @ chatTypeString peerKind @ '':'' @ peer)"

record thread_session_keys =
  tsk_sessionKey :: string
  tsk_parentSessionKey :: "string option"

definition resolveThreadSessionKeys ::
  "string \<Rightarrow> string option \<Rightarrow> string option \<Rightarrow> bool option \<Rightarrow> (string \<Rightarrow> string) option
    \<Rightarrow> thread_session_keys" where
  "resolveThreadSessionKeys baseSessionKey threadId parentSessionKey useSuffix normalizeThreadId =
     (let thread = js_trim (nullish threadId []) in
      if thread = [] then \<lparr>tsk_sessionKey = baseSessionKey, tsk_parentSessionKey = None\<rparr>
      else let normalizedThread =
                 nullish (map_option (\<lambda>f. f thread) normalizeThreadId)
                   (normalizeLowercaseStringOrEmpty (JStr thread))
        in \<lparr>tsk_sessionKey =
              (if nullish useSuffix True then baseSessionKey @ '':thread:'' @ normalizedThread
               else baseSessionKey),
            tsk_parentSessionKey = parentSessionKey\<rparr>)"

subsection \<open>Facts\<close>

lemma js_split_char_Nil_iff [simp]: "js_split_char d s \<noteq> []"
  by (induction s) (auto split: list.split)

lemma js_split_char_no [simp]: "d \<notin> set s \<Longrightarrow> js_split_char d s = [s]"
  by (induction s) auto

lemma js_split_char_append: "d \<notin> set a \<Longrightarrow> js_split_char d (a @ d # b) = a # js_split_char d b"
  by (induction a) auto

lemma js_join_Cons: "ps \<noteq> [] \<Longrightarrow> js_join sep (p # ps) = p @ sep @ js_join sep ps"
  by (cases ps) simp_all

lemma js_join_split: "js_join [d] (js_split_char d s) = s"
proof (induction s)
  case (Cons c s)
  obtain w ws where "js_split_char d s = w # ws" by (cases "js_split_char d s") auto
  with Cons show ?case by (cases ws) (auto simp: js_join_Cons)
qed simp

lemma js_lastIndexOf_None_iff: "js_lastIndexOf s p = None \<longleftrightarrow> \<not> js_includes s p"
  by (induction s) (auto split: option.split)

lemma js_lastIndexOf_prefix:
  "js_lastIndexOf s p = Some i \<Longrightarrow> js_lastIndexOf (a @ s) p = Some (length a + i)"
  by (induction a) auto

lemma js_includes_iff: "js_includes s p \<longleftrightarrow> (\<exists>a b. s = a @ p @ b)"
proof (induction s)
  case (Cons c s)
  have "(\<exists>a b. c # s = a @ p @ b) \<longleftrightarrow> (\<exists>b. c # s = p @ b) \<or> (\<exists>a b. s = a @ p @ b)" (is "?l = ?r")
  proof
    assume ?l
    then obtain a b where ab: "c # s = a @ p @ b" by blast
    then show ?r by (cases a) auto
  next
    assume ?r
    then show ?l
    proof
      assume "\<exists>b. c # s = p @ b"
      then show ?l by (metis append_Nil)
    next
      assume "\<exists>a b. s = a @ p @ b"
      then show ?l by (metis append_Cons)
    qed
  qed
  with Cons show ?case by (simp add: js_startsWith_iff)
qed auto

text \<open>Lower-case, trimmed text is unchanged by the lower-casing normalizer.\<close>

lemma normalizeLower_eq: "normalizeLowercaseStringOrEmpty (JStr s) = js_toLowerCase (js_trim s)"
  by (simp add: normalizeLowercaseStringOrEmpty_def normalizeOptionalLowercaseString_def
      normalizeOptionalString_def normalizeNullableString_def js_toLowerCase_def Let_def)

lemma canonical_id_colon: "canonical_id a \<Longrightarrow> colon \<notin> set a"
proof -
  have "\<not> id_char colon" by code_simp
  then show "canonical_id a \<Longrightarrow> colon \<notin> set a" by (auto simp: canonical_id_def list_all_iff)
qed

lemma normalizeAgentId_colon [simp]: "colon \<notin> set (normalizeAgentId v)"
  by (rule canonical_id_colon [OF normalizeAgentId_canonical])

lemma normalizeAccountId_colon [simp]: "colon \<notin> set (normalizeAccountId v)"
  by (rule canonical_id_colon [OF normalizeAccountId_canonical(1)])

lemma normalizeAgentId_lower [simp]: "js_toLowerCase (normalizeAgentId v) = normalizeAgentId v"
  using normalizeAgentId_canonical [of v] by (simp add: canonical_id_def canonical_lower)

lemma normalizeAgentId_trim [simp]: "js_trim (normalizeAgentId v) = normalizeAgentId v"
  using normalizeAgentId_canonical [of v] by (simp add: canonical_id_def trimmed_id)

lemma normalizeAgentId_nonempty [simp]: "normalizeAgentId v \<noteq> []"
  using normalizeAgentId_canonical [of v] by (simp add: canonical_id_def)

lemma trim_framed:
  "s \<noteq> [] \<Longrightarrow> \<not> js_space (hd s) \<Longrightarrow> \<not> js_space (last s) \<Longrightarrow> js_trim s = s"
  by (simp add: js_trim_def js_trimStart_id js_trimEnd_id)

lemma lower_trim_last: 
  "js_trim s \<noteq> [] \<Longrightarrow> \<not> js_space (last (js_toLowerCase (js_trim s)))"
  using js_trim_ends(2) [of s] by (simp add: js_toLowerCase_def last_map)

text \<open>The head of an agent-scoped key and what parsing it yields once it is canonical.\<close>

lemma parseAgentSessionKey_canonical:
  assumes "normalizeSessionKeyPreservingOpaquePeerIds k = ''agent:'' @ normalizeAgentId v @ '':'' @ rest"
    and "rest \<noteq> []" "hd rest \<noteq> colon"
  shows "parseAgentSessionKey k = Some \<lparr>pk_agentId = normalizeAgentId v, pk_rest = rest\<rparr>"
proof -
  let ?a = "normalizeAgentId v"
  have sp: "splitColon (''agent:'' @ ?a @ '':'' @ rest) = ''agent'' # ?a # splitColon rest"
    using js_split_char_append [of colon ?a rest]
      js_split_char_append [of colon "''agent''" "?a @ colon # rest"] by simp
  obtain w ws where w: "splitColon rest = w # ws" by (cases "splitColon rest") auto
  have "w \<noteq> []"
    using assms(2,3) w by (cases rest) (auto split: list.splits)
  moreover have "js_join '':'' (w # ws) = rest"
    using js_join_split [of colon rest] w by simp
  ultimately show ?thesis
    using assms sp w
    by (simp add: parseAgentSessionKey_def normalizeOptionalString_def normalizeNullableString_def)
qed

lemma colon_split:
  assumes "x @ colon # y = a @ colon # b" "colon \<notin> set x"
  shows "(a = x \<and> b = y) \<or> (\<exists>a'. a = x @ colon # a' \<and> y = a' @ colon # b)"
  using assms by (induction x arbitrary: a) (auto simp: Cons_eq_append_conv)

lemma lower_colon [simp]: "js_lower_char c = colon \<longleftrightarrow> c = colon"
proof
  assume *: "js_lower_char c = colon"
  have n: "(of_char colon :: nat) = 58" by simp
  have "(of_char c :: nat) < 256" by simp
  with arg_cong [OF *, of "of_char :: char \<Rightarrow> nat"] n have "(of_char c :: nat) = 58"
    by (auto simp: js_lower_char_def Let_def split: if_splits)
  with n show "c = colon" by (metis char_of_char)
qed (simp add: js_lower_char_def)

lemma colon_lower [simp]: "colon \<in> set (js_toLowerCase s) \<longleftrightarrow> colon \<in> set s"
  by (induction s) (auto simp: js_toLowerCase_def eq_commute [of colon])

lemma count_lower_colon [simp]: "count_list (js_toLowerCase s) colon = count_list s colon"
  by (induction s) (auto simp: js_toLowerCase_def)

lemma segmentAt_fields:
  assumes "segmentAt pat i s k = Some sp"
  shows "startsWithI (drop k s) pat" "sp_start sp = i + k + length pat"
    "sp_end sp \<le> i + max k (length s)"
proof -
  let ?r = "drop (length pat) (drop k s)"
  have "length (takeWhile (\<lambda>c. c \<noteq> colon) ?r) \<le> length ?r" by (rule length_takeWhile_le)
  moreover have "startsWithI (drop k s) pat" and "takeWhile (\<lambda>c. c \<noteq> colon) ?r \<noteq> []"
    and "sp_end sp = i + k + length pat + length (takeWhile (\<lambda>c. c \<noteq> colon) ?r)"
    using assms by (auto simp: segmentAt_def Let_def split: if_splits)
  moreover then have "?r \<noteq> []" by auto
  ultimately show "startsWithI (drop k s) pat" "sp_end sp \<le> i + max k (length s)" by auto
  show "sp_start sp = i + k + length pat"
    using assms by (auto simp: segmentAt_def Let_def split: if_splits)
qed

text \<open>Where the segment spans of an expression can start, and that they stay inside the text.\<close>

lemma segmentMatch_fields:
  assumes "segmentMatch pat i s = Some sp" "s \<noteq> []"
  shows "((i = 0 \<and> startsWithI s pat \<and> sp_start sp = length pat)
          \<or> (\<exists>b. s = colon # b \<and> startsWithI b pat \<and> sp_start sp = i + 1 + length pat))
         \<and> sp_end sp \<le> i + length s"
proof (cases "i = 0 \<and> segmentAt pat i s 0 = Some sp")
  case True
  then show ?thesis using segmentAt_fields [of pat i s 0 sp] by auto
next
  case False
  with assms(1) have h: "hd s = colon" "segmentAt pat i s 1 = Some sp"
    by (auto simp: segmentMatch_def split: if_splits option.splits)
  with assms(2) obtain b where "s = colon # b" by (cases s) auto
  with segmentAt_fields [OF h(2)] show ?thesis by auto
qed

lemma segmentSpans_fields:
  "sp \<in> set (segmentSpans pat i s) \<Longrightarrow>
     ((i = 0 \<and> startsWithI s pat \<and> sp_start sp = length pat)
      \<or> (\<exists>a b. s = a @ colon # b \<and> startsWithI b pat
            \<and> sp_start sp = i + length a + 1 + length pat))
     \<and> sp_end sp \<le> i + length s"
proof (induction pat i s rule: segmentSpans.induct)
  case (2 pat i c s)
  show ?case
  proof (cases "segmentMatch pat i (c # s)")
    case None
    with 2(3) have sp: "sp \<in> set (segmentSpans pat (Suc i) s)" by simp
    from 2(1) [OF None sp] obtain a b where
      ab: "s = a @ colon # b" "startsWithI b pat" "sp_start sp = Suc i + length a + 1 + length pat"
      and e: "sp_end sp \<le> Suc i + length s" by auto
    then have "c # s = (c # a) @ colon # b" by simp
    with ab(2,3) e show ?thesis by fastforce
  next
    case (Some sp0)
    note m = segmentMatch_fields [OF Some]
    show ?thesis
    proof (cases "sp = sp0")
      case True
      from m consider
        "i = 0" "startsWithI (c # s) pat" "sp_start sp0 = length pat"
        | b where "c # s = colon # b" "startsWithI b pat" "sp_start sp0 = i + 1 + length pat"
        by auto
      then show ?thesis
      proof cases
        case 1
        with True m show ?thesis by auto
      next
        case (2 b)
        then have "c # s = [] @ colon # b" by simp
        with 2 True m show ?thesis by fastforce
      qed
    next
      case False
      let ?n = "sp_end sp0 - i"
      have n: "i < sp_end sp0" using segmentMatch_end [OF Some] .
      from False Some 2(3) have sp: "sp \<in> set (segmentSpans pat (sp_end sp0) (drop ?n (c # s)))"
        by simp
      note ih = 2(2) [OF Some sp]
      then have e: "sp_end sp \<le> sp_end sp0 + length (drop ?n (c # s))" ..
      from ih n obtain a b where
        ab: "drop ?n (c # s) = a @ colon # b" "startsWithI b pat"
          "sp_start sp = sp_end sp0 + length a + 1 + length pat" by auto
      have len: "?n \<le> length (c # s)" using m n by auto
      have "c # s = (take ?n (c # s) @ a) @ colon # b" by (metis ab(1) append_assoc append_take_drop_id)
      moreover have "i + length (take ?n (c # s) @ a) = sp_end sp0 + length a" using len n by simp
      ultimately show ?thesis using ab(2,3) e len n
        by (intro conjI disjI2 exI [of _ "take ?n (c # s) @ a"] exI [of _ b]) auto
    qed
  qed
qed simp


lemma startsWithI_colons: "startsWithI s p \<Longrightarrow> count_list p colon \<le> count_list s colon"
proof -
  assume "startsWithI s p"
  then obtain t where "js_toLowerCase s = p @ t" by (auto simp: startsWithI_def js_startsWith_iff)
  then have "count_list (js_toLowerCase s) colon = count_list p colon + count_list t colon" by simp
  then show ?thesis by simp
qed

lemma mem_CASE_PRESERVING_spans:
  "collectCasePreservedSpans raw =
     segmentSpans ''signal:group:'' 0 raw
     @ collectPeerSpans raw (CASE_PRESERVING_PEERS ! 1) ''channel''
     @ collectPeerSpans raw (CASE_PRESERVING_PEERS ! 1) ''group''"
  by (simp add: collectCasePreservedSpans_def CASE_PRESERVING_PEERS_def collectPeerSpans_def)

text \<open>An agent-scoped head is consumed by the wrapper expression.\<close>

lemma startsWithI_agent [simp]: "startsWithI (''agent:'' @ s) ''agent:''"
  by (simp add: startsWithI_def js_toLowerCase_def js_lower_char_def)

lemma dropAgentWrapper_head:
  "colon \<notin> set a \<Longrightarrow> dropAgentWrapper (''agent:'' @ a @ colon # s) = Some s"
proof -
  assume a: "colon \<notin> set a"
  have "dropWhile (\<lambda>c. c \<noteq> colon) (a @ colon # s) = colon # s"
    using a by (induction a) auto
  then show ?thesis
    using startsWithI_agent [of "a @ colon # s"] by (simp add: dropAgentWrapper_def)
qed

lemma dropAgentWrapper_no_colon: "colon \<notin> set s \<Longrightarrow> dropAgentWrapper s = None"
  using startsWithI_colons [of s "''agent:''"] by (auto simp: dropAgentWrapper_def)

lemma scopedTail_one:
  assumes "colon \<notin> set a" "dropAgentWrapper m = None"
  shows "scopedTail p (''agent:'' @ a @ colon # m) =
    (let u = dropWhile (\<lambda>c. c = colon) m in
     if startsWithI u p then Some (drop (length p) u) else None)"
  unfolding scopedTail.simps [of p "''agent:'' @ a @ colon # m"] dropAgentWrapper_head [OF assms(1)]
  by (simp add: assms(2))

lemma spans_of_main_key:
  assumes "colon \<notin> set a" "colon \<notin> set m"
  shows "collectCasePreservedSpans (''agent:'' @ a @ '':'' @ m) = []"
proof -
  let ?k = "''agent:'' @ a @ '':'' @ m"
  have cnt: "count_list ?k colon = 2" using assms by (simp add: count_list_0_iff)
  have no: "\<not> startsWithI ?k p" if "hd p \<noteq> CHR ''a''" "p \<noteq> []" for p
    using that by (cases p) (auto simp: startsWithI_def js_toLowerCase_def js_lower_char_def)
  have sig: "segmentSpans ''signal:group:'' 0 ?k = []"
  proof (rule ccontr)
    assume "segmentSpans ''signal:group:'' 0 ?k \<noteq> []"
    then obtain sp where "sp \<in> set (segmentSpans ''signal:group:'' 0 ?k)"
      by (meson list.set_intros(1) neq_Nil_conv list.set_sel(1))
    from segmentSpans_fields [OF this] no [of "''signal:group:''"] obtain x b where
      k: "?k = x @ colon # b" "startsWithI b ''signal:group:''" by auto
    with startsWithI_colons [of b "''signal:group:''"]
    have "3 \<le> count_list (x @ colon # b) colon" by simp
    moreover have "count_list ?k colon = count_list (x @ colon # b) colon" by (simp only: k)
    ultimately show False using cnt by linarith
  qed
  have tail: "scopedTail p ?k = None" if "count_list p colon = 2" for p
  proof -
    have "count_list m colon = 0" using assms(2) by (simp add: count_list_0_iff)
    moreover have "dropWhile (\<lambda>c. c = colon) m = m" using assms(2) by (cases m) auto
    ultimately have "\<not> startsWithI (dropWhile (\<lambda>c. c = colon) m) p"
      using startsWithI_colons [of m p] that by auto
    then show ?thesis
      using scopedTail_one [OF assms(1) dropAgentWrapper_no_colon [OF assms(2)], of p]
      by (simp add: Let_def)
  qed
  show ?thesis
    using sig tail no
    by (simp add: mem_CASE_PRESERVING_spans collectPeerSpans_def CASE_PRESERVING_PEERS_def Let_def)
qed

lemma normalize_key_eq:
  "js_trim k = k \<Longrightarrow> k \<noteq> [] \<Longrightarrow>
   normalizeSessionKeyPreservingOpaquePeerIds (Some k) = canonicalSessionKey k"
  by (simp add: normalizeSessionKeyPreservingOpaquePeerIds_def normalizeOptionalString_def
      normalizeNullableString_def)

lemma trim_agent_key:
  "s \<noteq> [] \<Longrightarrow> \<not> js_space (last s) \<Longrightarrow> js_trim (''agent:'' @ a @ '':'' @ s) = ''agent:'' @ a @ '':'' @ s"
  by (rule trim_framed) (simp_all add: js_space_def)

lemma lower_agent [simp]: "js_toLowerCase ''agent:'' = ''agent:''" "js_toLowerCase '':'' = '':''"
  by (simp_all add: js_toLowerCase_def js_lower_char_def)

lemma normalizeMainKey_props:
  "normalizeMainKey mk \<noteq> []" "js_toLowerCase (normalizeMainKey mk) = normalizeMainKey mk"
  "\<not> js_space (last (normalizeMainKey mk))"
proof -
  have d: "DEFAULT_MAIN_KEY \<noteq> []" "js_toLowerCase DEFAULT_MAIN_KEY = DEFAULT_MAIN_KEY"
    "\<not> js_space (last DEFAULT_MAIN_KEY)"
    by (simp_all add: DEFAULT_MAIN_KEY_def js_toLowerCase_def js_lower_char_def js_space_def)
  have n: "normalizeLowercaseStringOrEmpty JUndefined = []" by code_simp
  show "normalizeMainKey mk \<noteq> []" "js_toLowerCase (normalizeMainKey mk) = normalizeMainKey mk"
    "\<not> js_space (last (normalizeMainKey mk))"
    using d n lower_trim_last
    by (cases mk; simp add: normalizeMainKey_def js_or_def normalizeLower_eq)+
qed

text \<open>Main session keys parse back: for every agent id and every main key whose normal form
  has no colon, \<open>parseAgentSessionKey\<close> applied to the key that
  \<open>buildAgentMainSessionKey\<close> builds returns exactly the normalized agent id and the normalized
  main key.\<close>

theorem main_session_key_roundtrip:
  assumes "colon \<notin> set (normalizeMainKey mainKey)"
  shows "parseAgentSessionKey (Some (buildAgentMainSessionKey agentId mainKey)) =
    Some \<lparr>pk_agentId = normalizeAgentId (Some agentId), pk_rest = normalizeMainKey mainKey\<rparr>"
proof -
  let ?a = "normalizeAgentId (Some agentId)" and ?m = "normalizeMainKey mainKey"
  let ?k = "''agent:'' @ ?a @ '':'' @ ?m"
  note m = normalizeMainKey_props [of mainKey]
  have lower: "js_toLowerCase ?k = ?k" by (simp only: js_toLowerCase_append lower_agent m normalizeAgentId_lower)
  have trim: "js_trim ?k = ?k" by (rule trim_agent_key) (use m in simp_all)
  have "canonicalSessionKey ?k = ?k"
    using spans_of_main_key [OF normalizeAgentId_colon assms, of "Some agentId"] lower trim
    by (simp only: canonicalSessionKey_def filter.simps js_toSorted.simps emitSpans.simps drop_0
        append_Nil normalizeLower_eq if_cancel)
  then have "normalizeSessionKeyPreservingOpaquePeerIds (Some ?k) = ?k"
    using normalize_key_eq [OF trim] by simp
  moreover have "hd ?m \<noteq> colon" using assms m(1) by (cases ?m) auto
  ultimately show ?thesis
    unfolding buildAgentMainSessionKey_def using m(1) by (intro parseAgentSessionKey_canonical)
qed

theorem main_session_key_roundtrip_witness:
  "parseAgentSessionKey (Some (buildAgentMainSessionKey ''Sales Bot'' (Some ''Desk''))) =
     Some \<lparr>pk_agentId = ''sales-bot'', pk_rest = ''desk''\<rparr>"
proof -
  have "normalizeMainKey (Some ''Desk'') = ''desk''" and "normalizeAgentId (Some ''Sales Bot'') = ''sales-bot''"
    by code_simp+
  then show ?thesis
    using main_session_key_roundtrip [of "Some ''Desk''" "''Sales Bot''"] by simp
qed

lemma evictOldest_entries: "map_of (evictOldest n c) k = Some w \<Longrightarrow> map_of c k = Some w"
proof (induction n c rule: evictOldest.induct)
  case (2 bound p c)
  then show ?case
    using delete_entries [of "fst p" "p # c" k w] by (auto split: if_splits simp del: map_of.simps)
qed simp

lemma length_evictOldest: "length (evictOldest n c) \<le> n"
proof (induction n c rule: evictOldest.induct)
  case (2 bound p c)
  then show ?case by (cases "bound < length (p # c)") simp_all
qed simp

interpretation session_key_memo:
  bounded_memo writeNormalizedSessionKeyCache NORMALIZED_SESSION_KEY_CACHE_MAX_ENTRIES
proof
  show "(k' = k \<and> w = v) \<or> map_of c k' = Some w"
    if "map_of (writeNormalizedSessionKeyCache c k v) k' = Some w" for c k v k' w
    using that by (auto simp: writeNormalizedSessionKeyCache_def split: if_splits
        dest!: evictOldest_entries update_entries)
  show "length (writeNormalizedSessionKeyCache c k v) \<le> NORMALIZED_SESSION_KEY_CACHE_MAX_ENTRIES"
    if "length c \<le> NORMALIZED_SESSION_KEY_CACHE_MAX_ENTRIES" for c k v
    using that by (simp add: writeNormalizedSessionKeyCache_def length_evictOldest)
qed

fun sessionKeyCalls ::
  "(string, string) js_map \<Rightarrow> string option list \<Rightarrow> string list \<times> (string, string) js_map" where
  "sessionKeyCalls cache [] = ([], cache)"
| "sessionKeyCalls cache (v # vs) =
     (let (r, cache') = normalizeSessionKeyMemo cache v; (rs, cache'') = sessionKeyCalls cache' vs
      in (r # rs, cache''))"

lemma normalizeSessionKeyMemo_sound:
  assumes "session_key_memo.sound canonicalSessionKey c"
  shows "fst (normalizeSessionKeyMemo c v) = normalizeSessionKeyPreservingOpaquePeerIds v"
    and "session_key_memo.sound canonicalSessionKey (snd (normalizeSessionKeyMemo c v))"
  using assms session_key_memo.sound_get [OF assms]
  by (auto simp: normalizeSessionKeyMemo_def normalizeSessionKeyPreservingOpaquePeerIds_def Let_def
      readNormalizedSessionKeyCache_def split: option.split intro: session_key_memo.sound_keep)

lemma normalizeSessionKeyMemo_bound:
  "length c \<le> NORMALIZED_SESSION_KEY_CACHE_MAX_ENTRIES \<Longrightarrow>
   length (snd (normalizeSessionKeyMemo c v)) \<le> NORMALIZED_SESSION_KEY_CACHE_MAX_ENTRIES"
  by (simp add: normalizeSessionKeyMemo_def Let_def session_key_memo.keep_bound split: option.split)

lemma sessionKeyCalls_sound:
  assumes "session_key_memo.sound canonicalSessionKey c"
    and "length c \<le> NORMALIZED_SESSION_KEY_CACHE_MAX_ENTRIES"
  shows "fst (sessionKeyCalls c vs) = map normalizeSessionKeyPreservingOpaquePeerIds vs
    \<and> length (snd (sessionKeyCalls c vs)) \<le> NORMALIZED_SESSION_KEY_CACHE_MAX_ENTRIES"
  using assms
proof (induction vs arbitrary: c)
  case (Cons v vs)
  then show ?case
    using normalizeSessionKeyMemo_sound [OF Cons.prems(1), of v]
      normalizeSessionKeyMemo_bound [OF Cons.prems(2), of v]
    by (simp add: case_prod_beta)
qed simp

text \<open>The memo table of the session-key canonicaliser is invisible: for every sequence of
  calls since start-up each call returns what the canonicalisation computes from its argument, and
  the table never holds more than 2048 entries.\<close>

theorem session_key_memo_transparent:
  "fst (sessionKeyCalls [] keys) = map normalizeSessionKeyPreservingOpaquePeerIds keys
   \<and> length (snd (sessionKeyCalls [] keys)) \<le> 2048"
  using sessionKeyCalls_sound [OF session_key_memo.sound_empty, of keys]
  by (simp add: NORMALIZED_SESSION_KEY_CACHE_MAX_ENTRIES_def)

text \<open>Canonicalising a key whose only preserved span that matters is one final tail.\<close>

lemma emitSpans_skip:
  "\<forall>sp \<in> set spans. sp_start sp < cursor \<Longrightarrow>
   emitSpans raw cursor acc spans = acc @ normalizeLowercaseStringOrEmpty (JStr (drop cursor raw))"
  by (induction spans) auto

lemma js_insert_front:
  "(\<forall>y \<in> set ys. cmp x y \<le> 0) \<Longrightarrow> js_insert cmp x ys = x # ys"
  by (cases ys) auto

lemma js_insert_behind:
  "cmp y x > 0 \<Longrightarrow> True \<Longrightarrow> js_insert cmp y (x # ys) = x # js_insert cmp y ys"
  by simp

text \<open>Sorting brings a least element to the front.\<close>

lemma js_toSorted_least:
  assumes "\<forall>y \<in> set xs \<union> set zs. cmp y x > (0::int)" "\<forall>y \<in> set xs \<union> set zs. cmp x y \<le> 0"
  shows "\<exists>ys. js_toSorted cmp (xs @ x # zs) = x # ys \<and> set ys = set xs \<union> set zs"
  using assms
proof (induction xs)
  case Nil
  have "js_insert cmp x (js_toSorted cmp zs) = x # js_toSorted cmp zs"
    using Nil by (intro js_insert_front) simp
  then show ?case by simp
next
  case (Cons y xs)
  then obtain ys where "js_toSorted cmp (xs @ x # zs) = x # ys" "set ys = set xs \<union> set zs" by auto
  with Cons.prems show ?case by auto
qed


lemma canonicalSessionKey_tail:
  assumes "0 < n" "n < length raw"
    and spans: "collectCasePreservedSpans raw = xs @ \<lparr>sp_start = n, sp_end = length raw, sp_trim = False\<rparr> # zs"
    and inner: "\<forall>sp \<in> set xs \<union> set zs. n < sp_start sp \<and> sp_end sp \<le> length raw"
    and may: "mayContainCasePreservingPeer raw"
  shows "canonicalSessionKey raw = normalizeLowercaseStringOrEmpty (JStr (take n raw)) @ drop n raw"
proof -
  let ?cmp = "\<lambda>a b. int (sp_start a) - int (sp_start b)" and ?P = "\<lambda>sp. sp_start sp < sp_end sp"
  let ?t = "\<lparr>sp_start = n, sp_end = length raw, sp_trim = False\<rparr>"
  obtain ys where ys: "js_toSorted ?cmp (filter ?P xs @ ?t # filter ?P zs) = ?t # ys"
    "set ys = set (filter ?P xs) \<union> set (filter ?P zs)"
    using js_toSorted_least [of "filter ?P xs" "filter ?P zs" ?cmp ?t] inner by force
  then have "\<forall>sp \<in> set ys. sp_start sp < length raw" using inner by force
  then have "emitSpans raw 0 [] (?t # ys) =
      normalizeLowercaseStringOrEmpty (JStr (take n raw)) @ drop n raw @ normalizeLowercaseStringOrEmpty (JStr [])"
    using assms(1) by (simp add: emitSpans_skip js_slice_def)
  moreover have "filter ?P (collectCasePreservedSpans raw) = filter ?P xs @ ?t # filter ?P zs"
    using assms(2) spans by simp
  ultimately show ?thesis
    using may ys(1) by (simp add: canonicalSessionKey_def normalizeLower_eq)
qed

lemma startsWithI_self: "js_toLowerCase p = p \<Longrightarrow> startsWithI (p @ s) p"
  by (simp add: startsWithI_def)

lemma startsWithI_segment:
  assumes "startsWithI (x @ colon # y) (p @ colon # q)" "colon \<notin> set x" "colon \<notin> set p"
  shows "js_toLowerCase x = p \<and> startsWithI y q"
proof -
  obtain t where t: "js_toLowerCase x @ colon # js_toLowerCase y = p @ colon # q @ t"
    using assms(1) by (auto simp: startsWithI_def js_startsWith_iff js_toLowerCase_def js_lower_char_def)
  from colon_split [OF t] assms(2,3) have "p = js_toLowerCase x" "q @ t = js_toLowerCase y" by auto
  then show ?thesis by (metis js_startsWith_append startsWithI_def)
qed

text \<open>In a Matrix key every Signal-shaped segment lies inside the opaque room id.\<close>

lemma matrix_key_signal_spans:
  assumes "colon \<notin> set a" "kind \<in> {''channel'', ''group''}"
    and k: "k = ''agent:'' @ a @ colon # ''matrix:'' @ kind @ colon # p"
    and sp: "sp \<in> set (segmentSpans ''signal:group:'' 0 k)"
  shows "length k - length p < sp_start sp \<and> sp_end sp \<le> length k"
proof -
  note f = segmentSpans_fields [OF sp]
  have "\<not> startsWithI k ''signal:group:''"
    by (simp add: k startsWithI_def js_toLowerCase_def js_lower_char_def)
  with f obtain x b where xb: "k = x @ colon # b" "startsWithI b ''signal:group:''"
    "sp_start sp = length x + 1 + 13" by auto
  have kk: "colon \<notin> set kind" using assms(2) by auto
  from xb(1) k have e1: "''agent'' @ colon # a @ colon # ''matrix:'' @ kind @ colon # p = x @ colon # b"
    by simp
  have not1: "\<not> startsWithI (a @ colon # ''matrix:'' @ kind @ colon # p) ''signal:group:''"
    using startsWithI_segment [of a "''matrix:'' @ kind @ colon # p" "''signal''" "''group:''"] assms(1)
    by (auto simp: startsWithI_def js_toLowerCase_def js_lower_char_def)
  have not2: "\<not> startsWithI (''matrix'' @ colon # kind @ colon # p) ''signal:group:''"
    by (simp add: startsWithI_def js_toLowerCase_def js_lower_char_def)
  have not3: "\<not> startsWithI (kind @ colon # p) ''signal:group:''"
    using assms(2) by (auto simp: startsWithI_def js_toLowerCase_def js_lower_char_def)
  from colon_split [OF e1] not1 xb(2) obtain x1 where
    x1: "x = ''agent'' @ colon # x1" "a @ colon # ''matrix:'' @ kind @ colon # p = x1 @ colon # b" by auto
  from colon_split [OF x1(2) assms(1)] not2 xb(2) obtain x2 where
    x2: "x1 = a @ colon # x2" "''matrix'' @ colon # kind @ colon # p = x2 @ colon # b" by auto
  from colon_split [OF x2(2)] not3 xb(2) obtain x3 where
    x3: "x2 = ''matrix'' @ colon # x3" "kind @ colon # p = x3 @ colon # b" by auto
  from colon_split [OF x3(2) kk] have "length kind \<le> length x3" by auto
  then show ?thesis using f xb(3) x1(1) x2(1) x3(1) k by auto
qed


declare segmentSpans.simps(2) [simp del]

lemma matrix_tail_spans:
  assumes "colon \<notin> set a" "kind \<in> {''channel'', ''group''}" "p \<noteq> []"
    and k: "k = ''agent:'' @ a @ colon # ''matrix:'' @ kind @ colon # p"
    and trim: "js_trim p = p" and nothread: "\<not> js_includes (js_toLowerCase p) '':thread:''"
  shows "collectPeerSpans k (CASE_PRESERVING_PEERS ! 1) kind =
      [\<lparr>sp_start = length k - length p, sp_end = length k, sp_trim = False\<rparr>]"
    and "kind' \<in> {''channel'', ''group''} \<Longrightarrow> kind' \<noteq> kind \<Longrightarrow>
      collectPeerSpans k (CASE_PRESERVING_PEERS ! 1) kind' = []"
proof -
  let ?m = "''matrix:'' @ kind @ colon # p" and ?pat = "''matrix:'' @ kind @ '':''"
  have none: "dropAgentWrapper ?m = None"
    by (simp add: dropAgentWrapper_def startsWithI_def js_toLowerCase_def js_lower_char_def)
  have tail: "scopedTail q k = (if startsWithI ?m q then Some (drop (length q) ?m) else None)" for q
    unfolding k scopedTail_one [OF assms(1) none] by (simp add: Let_def)
  have pat: "js_toLowerCase ?pat = ?pat"
    using assms(2) by (auto simp: js_toLowerCase_def js_lower_char_def)
  have hit: "scopedTail ?pat k = Some p"
    using startsWithI_self [OF pat, of p] by (simp add: tail)
  have "\<exists>h. k = h @ p" by (rule exI [of _ "''agent:'' @ a @ colon # ?pat"]) (simp add: k)
  then have d: "drop (length k - length p) k = p" by auto
  have "js_lastIndexOf (normalizeLowercaseStringOrEmpty (JStr p)) '':thread:'' = None"
    using nothread trim by (simp add: normalizeLower_eq js_lastIndexOf_None_iff)
  then have "collectTailSpan k (length k - length p) =
      [\<lparr>sp_start = length k - length p, sp_end = length k, sp_trim = False\<rparr>]"
    using d assms(3) by (simp add: collectTailSpan_def k)
  with hit show "collectPeerSpans k (CASE_PRESERVING_PEERS ! 1) kind =
      [\<lparr>sp_start = length k - length p, sp_end = length k, sp_trim = False\<rparr>]"
    by (simp add: collectPeerSpans_def CASE_PRESERVING_PEERS_def)
  assume k': "kind' \<in> {''channel'', ''group''}" "kind' \<noteq> kind"
  have "\<not> startsWithI ?m (''matrix:'' @ kind' @ '':'')"
    using k' assms(2) by (auto simp: startsWithI_def js_toLowerCase_def js_lower_char_def)
  moreover have "\<not> startsWithI k (''matrix:'' @ kind' @ '':'')"
    by (simp add: k startsWithI_def js_toLowerCase_def js_lower_char_def)
  ultimately show "collectPeerSpans k (CASE_PRESERVING_PEERS ! 1) kind' = []"
    using tail [of "''matrix:'' @ kind' @ '':''"] by (simp add: collectPeerSpans_def CASE_PRESERVING_PEERS_def)
qed

lemma matrix_key_spans:
  assumes "colon \<notin> set a" "kind \<in> {''channel'', ''group''}" "p \<noteq> []"
    and k: "k = ''agent:'' @ a @ colon # ''matrix:'' @ kind @ colon # p"
    and "js_trim p = p" "\<not> js_includes (js_toLowerCase p) '':thread:''"
  shows "collectCasePreservedSpans k = segmentSpans ''signal:group:'' 0 k
    @ [\<lparr>sp_start = length k - length p, sp_end = length k, sp_trim = False\<rparr>]"
proof -
  note t = matrix_tail_spans [OF assms]
  have "collectPeerSpans k (CASE_PRESERVING_PEERS ! 1) ''channel''
      @ collectPeerSpans k (CASE_PRESERVING_PEERS ! 1) ''group''
      = collectPeerSpans k (CASE_PRESERVING_PEERS ! 1) kind"
    using assms(2) t(2) [of "''channel''"] t(2) [of "''group''"] by auto
  then show ?thesis by (simp only: mem_CASE_PRESERVING_spans t(1))
qed

lemma matrix_key_canonical:
  assumes "canonical_id a" "kind \<in> {''channel'', ''group''}" "clean_string p"
    and k: "k = ''agent:'' @ a @ colon # ''matrix:'' @ kind @ colon # p"
    and "\<not> js_includes (js_toLowerCase p) '':thread:''"
  shows "normalizeSessionKeyPreservingOpaquePeerIds (Some k) = k"
proof -
  let ?h = "''agent:'' @ a @ colon # ''matrix:'' @ kind @ '':''"
  have p: "p \<noteq> []" "js_trim p = p" using assms(3) by (auto simp: clean_string_def)
  have a: "colon \<notin> set a" "js_toLowerCase a = a"
    using assms(1) by (auto simp: canonical_id_colon canonical_id_def canonical_lower)
  have kh: "k = ?h @ p" by (simp add: k)
  have tk: "take (length h) (h @ p) = h" "drop (length h) (h @ p) = p" for h :: string by simp_all
  have len: "length k = length ?h + length p" and pos: "length k - length p = length ?h"
    by (simp_all add: k)
  have last: "\<not> js_space (last k)" using js_trim_ends(2) [of p] p by (simp add: k)
  have trim: "js_trim k = k" by (rule trim_framed) (use last in \<open>simp_all add: k js_space_def\<close>)
  have "js_toLowerCase ?h = ?h"
    using a(2) assms(2) by (auto simp: js_toLowerCase_def js_lower_char_def)
  moreover have "js_trim ?h = ?h" by (rule trim_framed) (simp_all add: js_space_def)
  ultimately have head: "normalizeLowercaseStringOrEmpty (JStr ?h) = ?h" by (simp only: normalizeLower_eq)
  have "js_includes (js_toLowerCase k) ''matrix:''"
    unfolding js_includes_iff
    by (rule exI [of _ "js_toLowerCase (''agent:'' @ a @ '':'')"],
        rule exI [of _ "js_toLowerCase (kind @ colon # p)"])
       (simp add: k js_toLowerCase_def js_lower_char_def)
  then have may: "mayContainCasePreservingPeer k"
    by (simp add: mayContainCasePreservingPeer_def CASE_PRESERVING_PEERS_def)
  have "canonicalSessionKey k = normalizeLowercaseStringOrEmpty (JStr (take (length ?h) k)) @ drop (length ?h) k"
  proof (rule canonicalSessionKey_tail [OF _ _ _ _ may])
    show "collectCasePreservedSpans k =
        segmentSpans ''signal:group:'' 0 k @ \<lparr>sp_start = length ?h, sp_end = length k, sp_trim = False\<rparr> # []"
      using matrix_key_spans [OF a(1) assms(2) p(1) k p(2) assms(5)] by (simp only: pos)
    show "\<forall>sp\<in>set (segmentSpans ''signal:group:'' 0 k) \<union> set []. length ?h < sp_start sp \<and> sp_end sp \<le> length k"
      using matrix_key_signal_spans [OF a(1) assms(2) k] unfolding pos by simp
    show "0 < length ?h" by simp
    show "length ?h < length k" using p(1) unfolding len by simp
  qed
  also have "take (length ?h) k = ?h" unfolding kh by (rule tk)
  also have "drop (length ?h) k = p" unfolding kh by (rule tk)
  finally have "canonicalSessionKey k = k" by (simp only: head kh)
  then show ?thesis using normalize_key_eq [OF trim] by (simp add: k)
qed


text \<open>C15. Matrix rooms keep their identity: for a Matrix group or channel peer whose trimmed id
  carries no thread marker, the session key that \<open>buildAgentPeerSessionKey\<close> builds is a fixed
  point of the canonicalisation and parses back to the normalized agent id and the room id with its
  case untouched; so two rooms whose ids differ only in case never share a session.\<close>

theorem matrix_session_key_roundtrip:
  assumes "normalizeLowercaseStringOrEmpty (JStr (pkp_channel params)) = ''matrix''"
    and "pkp_peerKind params = Some kind" "kind \<noteq> ChatDirect"
    and "pkp_peerId params = Some room" "js_trim room \<noteq> []"
    and "\<not> js_includes (js_toLowerCase (js_trim room)) '':thread:''"
  shows "normalizeSessionKeyPreservingOpaquePeerIds (Some (buildAgentPeerSessionKey params))
      = buildAgentPeerSessionKey params
    \<and> parseAgentSessionKey (Some (buildAgentPeerSessionKey params))
      = Some \<lparr>pk_agentId = normalizeAgentId (Some (pkp_agentId params)),
              pk_rest = ''matrix:'' @ chatTypeString kind @ '':'' @ js_trim room\<rparr>"
proof -
  let ?a = "normalizeAgentId (Some (pkp_agentId params))" and ?k = "chatTypeString kind"
  let ?key = "''agent:'' @ ?a @ colon # ''matrix:'' @ ?k @ colon # js_trim room"
  have kind: "?k \<in> {''channel'', ''group''}" using assms(3) by (cases kind) auto
  have "isCasePreservingPeer (Some (pkp_channel params)) (Some ?k)"
    using kind assms(1)
    by (auto simp: isCasePreservingPeer_def findCasePreservingPeerDescriptor_def
        CASE_PRESERVING_PEERS_def normalizeLower_eq js_trim_def js_trimStart_def js_trimEnd_def
        js_toLowerCase_def js_lower_char_def js_space_def)
  then have build: "buildAgentPeerSessionKey params = ?key"
    using assms by (simp add: buildAgentPeerSessionKey_def normalizeSessionPeerId_def js_or_def)
  have fp: "normalizeSessionKeyPreservingOpaquePeerIds (Some ?key) = ?key"
    by (rule matrix_key_canonical [OF normalizeAgentId_canonical kind _ refl assms(6)])
       (simp add: clean_string_def assms(5))
  have "parseAgentSessionKey (Some ?key)
      = Some \<lparr>pk_agentId = ?a, pk_rest = ''matrix:'' @ ?k @ '':'' @ js_trim room\<rparr>"
    by (rule parseAgentSessionKey_canonical) (use fp in simp_all)
  with build fp show ?thesis by simp
qed

definition matrix_example :: peer_key_params where
  "matrix_example = \<lparr>pkp_agentId = ''Ops'', pkp_mainKey = None, pkp_channel = '' Matrix'',
     pkp_accountId = None, pkp_peerKind = Some ChatChannel, pkp_peerId = Some ''!RoomA:Example.org'',
     pkp_identityLinks = None, pkp_dmScope = None\<rparr>"

theorem matrix_session_key_roundtrip_witness:
  "buildAgentPeerSessionKey matrix_example = ''agent:ops:matrix:channel:!RoomA:Example.org''
   \<and> map_option pk_rest (parseAgentSessionKey (Some (buildAgentPeerSessionKey matrix_example)))
      = Some ''matrix:channel:!RoomA:Example.org''"
proof -
  have "normalizeLowercaseStringOrEmpty (JStr (pkp_channel matrix_example)) = ''matrix''"
    "js_trim ''!RoomA:Example.org'' = ''!RoomA:Example.org''"
    "\<not> js_includes (js_toLowerCase ''!RoomA:Example.org'') '':thread:''"
    "buildAgentPeerSessionKey matrix_example = ''agent:ops:matrix:channel:!RoomA:Example.org''"
    by code_simp+
  then show ?thesis
    using matrix_session_key_roundtrip [of matrix_example ChatChannel "''!RoomA:Example.org''"]
    by (simp add: matrix_example_def)
qed

lemma lastIndexOf_marker:
  assumes "\<not> js_includes (colon # t) '':thread:''"
  shows "js_lastIndexOf ('':thread:'' @ t) '':thread:'' = Some 0"
  using assms by (simp add: js_lastIndexOf_None_iff [symmetric] split: option.splits)

text \<open>Thread suffixes split off again: appending a thread id to a trimmed base session key
  with \<open>resolveThreadSessionKeys\<close> and parsing the result with
  \<open>parseThreadSessionSuffix\<close> returns that base key and the lower-cased thread id, provided
  the thread id does not itself complete a thread marker.\<close>

theorem thread_suffix_roundtrip:
  assumes "base \<noteq> []" "js_trim base = base" "js_trim threadId \<noteq> []"
    and "\<not> js_includes (colon # js_toLowerCase (js_trim threadId)) '':thread:''"
  shows "parseThreadSessionSuffix
      (Some (tsk_sessionKey (resolveThreadSessionKeys base (Some threadId) parent useSuffix None)))
    = (if nullish useSuffix True
       then \<lparr>ts_baseSessionKey = Some base, ts_threadId = Some (js_toLowerCase (js_trim threadId))\<rparr>
       else parseThreadSessionSuffix (Some base))"
proof (cases "nullish useSuffix True")
  case True
  let ?t = "js_toLowerCase (js_trim threadId)" and ?m = "'':thread:''"
  let ?k = "base @ ?m @ ?t"
  have t: "?t \<noteq> []" "js_trim ?t = ?t" "js_toLowerCase ?t = ?t"
    using assms(3) by (simp_all add: js_trim_lower)
  have k: "tsk_sessionKey (resolveThreadSessionKeys base (Some threadId) parent useSuffix None) = ?k"
    using True assms(3) by (simp add: resolveThreadSessionKeys_def normalizeLower_eq)
  have ends: "\<not> js_space (hd base)" "\<not> js_space (last ?t)"
    using js_trim_ends [of base] js_trim_ends [of ?t] assms t by auto
  have trim: "js_trim ?k = ?k" by (rule trim_framed) (use ends assms(1) t(1) in auto)
  have "js_lastIndexOf (?m @ ?t) ?m = Some 0"
    by (rule lastIndexOf_marker) (rule assms(4))
  from js_lastIndexOf_prefix [OF this, of "js_toLowerCase base"]
  have "js_lastIndexOf (js_toLowerCase base @ ?m @ ?t) ?m = Some (length base)"
    by simp
  moreover have "js_toLowerCase ?k = js_toLowerCase base @ ?m @ ?t"
    by (simp only: js_toLowerCase_append t(3)) (simp add: js_toLowerCase_def js_lower_char_def)
  ultimately have "js_lastIndexOf (normalizeLowercaseStringOrEmpty (JStr ?k)) ?m = Some (length base)"
    by (simp only: normalizeLower_eq trim)
  then show ?thesis
    using True t trim assms(1) unfolding k
    by (simp add: parseThreadSessionSuffix_def normalizeOptionalString_def normalizeNullableString_def)
next
  case False
  then show ?thesis using assms(3) by (simp add: resolveThreadSessionKeys_def)
qed

theorem thread_suffix_roundtrip_witness:
  "parseThreadSessionSuffix
     (Some (tsk_sessionKey (resolveThreadSessionKeys ''agent:main:main'' (Some '' T42 '') None None None)))
   = \<lparr>ts_baseSessionKey = Some ''agent:main:main'', ts_threadId = Some ''t42''\<rparr>"
proof -
  have "js_trim ''agent:main:main'' = ''agent:main:main''" "js_trim '' T42 '' = ''T42''"
    "js_toLowerCase ''T42'' = ''t42''" "\<not> js_includes (colon # ''t42'') '':thread:''" by code_simp+
  then show ?thesis
    using thread_suffix_roundtrip [of "''agent:main:main''" "'' T42 ''" None None] by simp
qed

text \<open>Two texts that agree after a colon-free first segment agree on it.\<close>

lemma segment_inj:
  "x @ colon # y = x' @ colon # y' \<Longrightarrow> colon \<notin> set x \<Longrightarrow> colon \<notin> set x' \<Longrightarrow> x = x' \<and> y = y'"
  using colon_split [of x y x' y'] by auto

lemma build_agent_head:
  "\<exists>rest. buildAgentPeerSessionKey p = ''agent:'' @ normalizeAgentId (Some (pkp_agentId p)) @ colon # rest"
  by (auto simp: buildAgentPeerSessionKey_def buildAgentMainSessionKey_def Let_def)

text \<open>C17. Direct-message sessions are isolated. Whatever the peer, two session keys are equal only
  when they belong to the same agent; and under the scope \<open>per-account-channel-peer\<close>, for
  channel names without a colon, two direct messages share a session only when agent, channel,
  account and (linked) peer id all agree.\<close>

theorem direct_sessions_isolated:
  assumes "buildAgentPeerSessionKey p = buildAgentPeerSessionKey q"
  shows "normalizeAgentId (Some (pkp_agentId p)) = normalizeAgentId (Some (pkp_agentId q))
    \<and> (pkp_dmScope p = Some DmScopePerAccountChannelPeer \<and> pkp_dmScope q = Some DmScopePerAccountChannelPeer
       \<and> nullish (pkp_peerKind p) ChatDirect = ChatDirect \<and> nullish (pkp_peerKind q) ChatDirect = ChatDirect
       \<and> colon \<notin> set (pkp_channel p) \<and> colon \<notin> set (pkp_channel q)
       \<and> directPeerKeyId p \<noteq> [] \<and> directPeerKeyId q \<noteq> []
       \<longrightarrow> js_or (normalizeToken (Some (pkp_channel p))) ''unknown''
             = js_or (normalizeToken (Some (pkp_channel q))) ''unknown''
         \<and> normalizeAccountId (pkp_accountId p) = normalizeAccountId (pkp_accountId q)
         \<and> directPeerKeyId p = directPeerKeyId q)"
proof -
  obtain r where r: "buildAgentPeerSessionKey p
      = ''agent:'' @ normalizeAgentId (Some (pkp_agentId p)) @ colon # r" using build_agent_head by blast
  obtain r' where r': "buildAgentPeerSessionKey q
      = ''agent:'' @ normalizeAgentId (Some (pkp_agentId q)) @ colon # r'" using build_agent_head by blast
  have heads: "normalizeAgentId (Some (pkp_agentId p)) = normalizeAgentId (Some (pkp_agentId q)) \<and> r = r'"
    using assms r r' by (intro segment_inj) simp_all
  have chan: "colon \<notin> set (js_or (normalizeToken (Some c)) ''unknown'')" if "colon \<notin> set c" for c
  proof -
    have "set (js_trim c) \<subseteq> set c"
      by (auto simp: js_trim_def js_trimStart_def js_trimEnd_def dest!: set_dropWhileD)
    with that show ?thesis by (auto simp: js_or_def normalizeToken_def normalizeLower_eq)
  qed
  show ?thesis
  proof (intro conjI impI; (elim conjE)?)
    assume *: "pkp_dmScope p = Some DmScopePerAccountChannelPeer" "pkp_dmScope q = Some DmScopePerAccountChannelPeer"
      "nullish (pkp_peerKind p) ChatDirect = ChatDirect" "nullish (pkp_peerKind q) ChatDirect = ChatDirect"
      "colon \<notin> set (pkp_channel p)" "colon \<notin> set (pkp_channel q)"
      "directPeerKeyId p \<noteq> []" "directPeerKeyId q \<noteq> []"
    let ?c = "\<lambda>x. js_or (normalizeToken (Some (pkp_channel x))) ''unknown''"
    have "?c p @ colon # normalizeAccountId (pkp_accountId p) @ colon # ''direct:'' @ directPeerKeyId p
        = ?c q @ colon # normalizeAccountId (pkp_accountId q) @ colon # ''direct:'' @ directPeerKeyId q"
      using assms heads * by (simp add: buildAgentPeerSessionKey_def normalizeToken_def)
    from segment_inj [OF this chan chan] * have
      1: "?c p = ?c q" and
      2: "normalizeAccountId (pkp_accountId p) @ colon # ''direct:'' @ directPeerKeyId p
        = normalizeAccountId (pkp_accountId q) @ colon # ''direct:'' @ directPeerKeyId q" by simp_all
    show "?c p = ?c q" by (rule 1)
    from segment_inj [OF 2] show "normalizeAccountId (pkp_accountId p) = normalizeAccountId (pkp_accountId q)"
      and "directPeerKeyId p = directPeerKeyId q" by simp_all
  qed (use heads in simp)
qed


definition dm_example :: "string \<Rightarrow> string \<Rightarrow> string \<Rightarrow> peer_key_params" where
  "dm_example agent account peer = \<lparr>pkp_agentId = agent, pkp_mainKey = None, pkp_channel = ''telegram'',
     pkp_accountId = Some account, pkp_peerKind = None, pkp_peerId = Some peer,
     pkp_identityLinks = None, pkp_dmScope = Some DmScopePerAccountChannelPeer\<rparr>"

theorem direct_sessions_isolated_witness:
  "buildAgentPeerSessionKey (dm_example ''Ops'' ''Work'' ''Alice'')
     = buildAgentPeerSessionKey (dm_example ''ops'' ''work'' '' alice'')
   \<and> directPeerKeyId (dm_example ''Ops'' ''Work'' ''Alice'')
     = directPeerKeyId (dm_example ''ops'' ''work'' '' alice'')
   \<and> normalizeAccountId (Some ''Work'') = normalizeAccountId (Some ''work'')"
proof -
  let ?p = "dm_example ''Ops'' ''Work'' ''Alice''" and ?q = "dm_example ''ops'' ''work'' '' alice''"
  have e: "buildAgentPeerSessionKey ?p = buildAgentPeerSessionKey ?q" by code_simp
  have ne: "directPeerKeyId ?p \<noteq> []" "directPeerKeyId ?q \<noteq> []" by code_simp+
  show ?thesis
    using direct_sessions_isolated [OF e] e ne by (simp add: dm_example_def)
qed

end
