(* ===== verification/Route_Config.thy ===== *)
theory Route_Config
  imports Session_Key
begin

text \<open>
  The configuration that routing reads: the agent roster (\<open>src/agents/agent-scope-config.ts\<close>),
  the bindings list (\<open>src/config/bindings.ts\<close>, \<open>src/routing/bindings.ts\<close>), the scope of
  one binding (\<open>src/routing/binding-scope.ts\<close>) and the compatibility of peer kinds
  (\<open>src/routing/peer-kind-match.ts\<close>).

  The sections of a configuration object are reached through references, because the caches of
  route resolution compare them by identity: a \<open>config\<close> holds the identity of the object and
  the references of its sections, and a \<open>config_heap\<close> says what each reference holds.
  \<open>normalizeChatChannelId\<close> reads channel metadata that the build generates; it is a parameter.
\<close>

subsection \<open>Agent roster\<close>

record agent_entry =
  ae_id :: "string option"
  ae_default :: "bool option"

text \<open>The roster as authored: a keyed object (the key is the id), an array whose elements may fail
  to be objects, or some other value.\<close>

datatype roster_entries = EntriesObject "(string \<times> bool option) list" | EntriesMalformed

datatype roster_list = ListArray "agent_entry option list" | ListMalformed

record agents_config =
  ac_entries :: "roster_entries option"
  ac_list :: "roster_list option"

datatype agent_roster = RosterEntries roster_entries | RosterList roster_list

definition readAgentRosterProperty :: "agents_config option \<Rightarrow> agent_roster option" where
  "readAgentRosterProperty agents =
     (case agents of None \<Rightarrow> None
      | Some a \<Rightarrow>
        case ac_entries a of Some entries \<Rightarrow> Some (RosterEntries entries)
        | None \<Rightarrow> map_option RosterList (ac_list a))"

definition hasAgentRosterProperty :: "agents_config option \<Rightarrow> bool" where
  "hasAgentRosterProperty agents \<longleftrightarrow> readAgentRosterProperty agents \<noteq> None"

datatype entry_source = FromEntries string | FromList nat

definition listAgentEntriesWithSource :: "agents_config option \<Rightarrow> (agent_entry \<times> entry_source) list" where
  "listAgentEntriesWithSource agents =
     (case readAgentRosterProperty agents of
        Some (RosterEntries (EntriesObject kvs)) \<Rightarrow>
          map (\<lambda>(key, dflt). (\<lparr>ae_id = Some key, ae_default = dflt\<rparr>, FromEntries key)) kvs
      | Some (RosterList (ListArray xs)) \<Rightarrow>
          concat (map (\<lambda>(i, x). case x of None \<Rightarrow> [] | Some entry \<Rightarrow> [(entry, FromList i)])
            (zip [0..<length xs] xs))
      | _ \<Rightarrow> [])"

definition listAgentEntries :: "agents_config option \<Rightarrow> agent_entry list" where
  "listAgentEntries agents = map fst (listAgentEntriesWithSource agents)"

datatype route_error = NoAgentsConfigured

definition listAgentIds :: "agents_config option \<Rightarrow> string list" where
  "listAgentIds agents =
     (let entries = listAgentEntries agents in
      if entries = [] \<and> \<not> hasAgentRosterProperty agents then [DEFAULT_AGENT_ID]
      else js_set_of (map (\<lambda>e. normalizeAgentId (ae_id e)) entries))"

definition resolveDefaultAgentId :: "agents_config option \<Rightarrow> route_error + string" where
  "resolveDefaultAgentId agents =
     (case listAgentEntries agents of
        [] \<Rightarrow> if \<not> hasAgentRosterProperty agents then Inr DEFAULT_AGENT_ID else Inl NoAgentsConfigured
      | first # rest \<Rightarrow>
        Inr (normalizeAgentId
          (ae_id (nullish (find (\<lambda>a. ae_default a = Some True) (first # rest)) first))))"

definition tryResolveDefaultAgentId :: "agents_config option \<Rightarrow> string option" where
  "tryResolveDefaultAgentId agents =
     (case filter (\<lambda>a. ae_default a = Some True) (listAgentEntries agents) of
        [d] \<Rightarrow> Some (normalizeAgentId (ae_id d))
      | _ \<Rightarrow> None)"

definition resolveAgentEntry :: "agents_config option \<Rightarrow> string \<Rightarrow> agent_entry option" where
  "resolveAgentEntry agents agentId =
     find (\<lambda>e. normalizeAgentId (ae_id e) = normalizeAgentId (Some agentId)) (listAgentEntries agents)"

subsection \<open>Bindings\<close>

datatype binding_type = RouteBinding | AcpBinding

record peer_match =
  pm_kind :: "string option"
  pm_id :: "string option"

record binding_match =
  bm_channel :: "string option"
  bm_accountId :: "string option"
  bm_peer :: "peer_match option"
  bm_guildId :: "string option"
  bm_teamId :: "string option"
  bm_roles :: "string list option"

record agent_binding =
  ab_type :: "binding_type option"
  ab_agentId :: string
  ab_match :: "binding_match option"
  ab_session :: "dm_scope option option"

definition normalizeBindingType :: "agent_binding \<Rightarrow> binding_type" where
  "normalizeBindingType b = (if ab_type b = Some AcpBinding then AcpBinding else RouteBinding)"

definition isRouteBinding :: "agent_binding \<Rightarrow> bool" where
  "isRouteBinding b \<longleftrightarrow> normalizeBindingType b = RouteBinding"

definition isAcpBinding :: "agent_binding \<Rightarrow> bool" where
  "isAcpBinding b \<longleftrightarrow> normalizeBindingType b = AcpBinding"

definition listConfiguredBindings :: "agent_binding list option \<Rightarrow> agent_binding list" where
  "listConfiguredBindings bindings = nullish bindings []"

definition listRouteBindings :: "agent_binding list option \<Rightarrow> agent_binding list" where
  "listRouteBindings bindings = filter isRouteBinding (listConfiguredBindings bindings)"

definition listAcpBindings :: "agent_binding list option \<Rightarrow> agent_binding list" where
  "listAcpBindings bindings = filter isAcpBinding (listConfiguredBindings bindings)"

definition listBindings :: "agent_binding list option \<Rightarrow> agent_binding list" where
  "listBindings bindings = listRouteBindings bindings"

subsection \<open>binding-scope.ts and peer-kind-match.ts\<close>

definition normalizeRouteBindingId :: "js_value \<Rightarrow> string" where
  "normalizeRouteBindingId v =
     (case v of JStr s \<Rightarrow> js_trim s | JNum n \<Rightarrow> js_trim (js_String (JNum n)) | _ \<Rightarrow> [])"

definition normalizeRouteBindingRoles :: "string list option \<Rightarrow> string list option" where
  "normalizeRouteBindingRoles roles = (case roles of Some (r # rs) \<Rightarrow> Some (r # rs) | _ \<Rightarrow> None)"

definition normalizeRouteBindingChannelId ::
  "(string option \<Rightarrow> string option) \<Rightarrow> string option \<Rightarrow> string option" where
  "normalizeRouteBindingChannelId normalizeChatChannelId raw =
     (let normalized = nullish (normalizeChatChannelId raw) [] in
      if normalized \<noteq> [] then Some normalized
      else let fallback = normalizeLowercaseStringOrEmpty (js_of_opt raw) in
        if fallback \<noteq> [] then Some fallback else None)"

record normalized_route_match =
  nrm_agentId :: string
  nrm_accountId :: string
  nrm_channelId :: string

definition resolveNormalizedRouteBindingMatch ::
  "(string option \<Rightarrow> string option) \<Rightarrow> agent_binding \<Rightarrow> normalized_route_match option" where
  "resolveNormalizedRouteBindingMatch normalizeChatChannelId binding =
     (case ab_match binding of None \<Rightarrow> None
      | Some m \<Rightarrow>
        case normalizeRouteBindingChannelId normalizeChatChannelId (bm_channel m) of
          None \<Rightarrow> None
        | Some channelId \<Rightarrow>
          let accountId = js_trim (nullish (bm_accountId m) []) in
          if accountId = [] \<or> accountId = ''*'' then None
          else Some \<lparr>nrm_agentId = normalizeAgentId (Some (ab_agentId binding)),
                     nrm_accountId = normalizeAccountId (Some accountId),
                     nrm_channelId = channelId\<rparr>)"

definition scopeIdMatches :: "string option \<Rightarrow> string \<Rightarrow> string \<Rightarrow> bool" where
  "scopeIdMatches constraint exact groupSpace \<longleftrightarrow>
     nullish constraint [] = [] \<or> constraint = Some exact \<or> constraint = Some groupSpace"

text \<open>\<open>hasRoleLookup\<close> only picks how membership is tested; both ways test membership in the
  collection of role ids.\<close>

definition hasAnyRouteBindingRole :: "string list \<Rightarrow> string list option \<Rightarrow> bool" where
  "hasAnyRouteBindingRole roles memberRoleIds =
     (case memberRoleIds of None \<Rightarrow> False
      | Some members \<Rightarrow> list_ex (\<lambda>role. List.member members role) roles)"

record scope_constraint =
  sc_guildId :: "string option"
  sc_teamId :: "string option"
  sc_roles :: "string list option"

record route_scope =
  rsc_guildId :: js_value
  rsc_teamId :: js_value
  rsc_groupSpace :: js_value
  rsc_memberRoleIds :: "string list option"

definition routeBindingScopeMatches :: "scope_constraint \<Rightarrow> route_scope \<Rightarrow> bool" where
  "routeBindingScopeMatches constraint scope =
     (let guildId = normalizeRouteBindingId (rsc_guildId scope);
          teamId = normalizeRouteBindingId (rsc_teamId scope);
          groupSpace = normalizeRouteBindingId (rsc_groupSpace scope)
      in if \<not> scopeIdMatches (sc_guildId constraint) guildId groupSpace then False
         else if \<not> scopeIdMatches (sc_teamId constraint) teamId groupSpace then False
         else case normalizeRouteBindingRoles (sc_roles constraint) of
           None \<Rightarrow> True
         | Some roles \<Rightarrow> hasAnyRouteBindingRole roles (rsc_memberRoleIds scope))"

fun peerKindMatches :: "chat_type \<Rightarrow> chat_type \<Rightarrow> bool" where
  "peerKindMatches bindingKind scopeKind =
     (if bindingKind = scopeKind then True
      else (bindingKind = ChatGroup \<and> scopeKind = ChatChannel)
        \<or> (bindingKind = ChatChannel \<and> scopeKind = ChatGroup))"

subsection \<open>bindings.ts\<close>

definition listBoundAccountIds ::
  "(string option \<Rightarrow> string option) \<Rightarrow> (string \<Rightarrow> string \<Rightarrow> int) \<Rightarrow> agent_binding list option
    \<Rightarrow> string \<Rightarrow> string list" where
  "listBoundAccountIds normalizeChatChannelId localeCompare bindings channelId =
     (case normalizeRouteBindingChannelId normalizeChatChannelId (Some channelId) of
        None \<Rightarrow> []
      | Some normalizedChannel \<Rightarrow>
        js_toSorted localeCompare (js_set_of (map nrm_accountId
          (filter (\<lambda>r. nrm_channelId r = normalizedChannel)
            (List.map_filter (resolveNormalizedRouteBindingMatch normalizeChatChannelId)
              (listBindings bindings))))))"

definition resolveDefaultAgentBoundAccountId ::
  "(string option \<Rightarrow> string option) \<Rightarrow> agents_config option \<Rightarrow> agent_binding list option
    \<Rightarrow> string \<Rightarrow> route_error + string option" where
  "resolveDefaultAgentBoundAccountId normalizeChatChannelId agents bindings channelId =
     (case normalizeRouteBindingChannelId normalizeChatChannelId (Some channelId) of
        None \<Rightarrow> Inr None
      | Some normalizedChannel \<Rightarrow>
        case resolveDefaultAgentId agents of
          Inl e \<Rightarrow> Inl e
        | Inr d \<Rightarrow>
          let defaultAgentId = normalizeAgentId (Some d) in
          Inr (map_option nrm_accountId
            (find (\<lambda>r. nrm_channelId r = normalizedChannel \<and> nrm_agentId r = defaultAgentId)
              (List.map_filter (resolveNormalizedRouteBindingMatch normalizeChatChannelId)
                (listBindings bindings)))))"

definition addAccountBinding ::
  "(string, (string, string list) js_map) js_map \<Rightarrow> normalized_route_match
    \<Rightarrow> (string, (string, string list) js_map) js_map" where
  "addAccountBinding m r =
     (let byAgent = nullish (map_of m (nrm_channelId r)) [];
          accounts = nullish (map_of byAgent (nrm_agentId r)) [];
          accounts' = (if List.member accounts (nrm_accountId r) then accounts
                       else accounts @ [nrm_accountId r])
      in AList.update (nrm_channelId r) (AList.update (nrm_agentId r) accounts' byAgent) m)"

definition buildChannelAccountBindings ::
  "(string option \<Rightarrow> string option) \<Rightarrow> agent_binding list option
    \<Rightarrow> (string, (string, string list) js_map) js_map" where
  "buildChannelAccountBindings normalizeChatChannelId bindings =
     foldl addAccountBinding []
       (List.map_filter (resolveNormalizedRouteBindingMatch normalizeChatChannelId)
         (listBindings bindings))"

definition resolvePreferredAccountId :: "string list \<Rightarrow> string \<Rightarrow> string list \<Rightarrow> string" where
  "resolvePreferredAccountId accountIds defaultAccountId boundAccounts =
     (case boundAccounts of b # _ \<Rightarrow> b | [] \<Rightarrow> defaultAccountId)"

subsection \<open>Configuration objects\<close>

record session_config =
  se_dmScope :: "dm_scope option"
  se_mainKey :: "string option"
  se_identityLinks :: "identity_links option"

record config =
  cfg_object :: nat
  cfg_agents :: "nat option"
  cfg_bindings :: "nat option"
  cfg_session :: "nat option"

record config_heap =
  heap_agents :: "nat \<Rightarrow> agents_config"
  heap_bindings :: "nat \<Rightarrow> agent_binding list option"
  heap_session :: "nat \<Rightarrow> session_config"

definition agentsAt :: "config_heap \<Rightarrow> nat option \<Rightarrow> agents_config option" where
  "agentsAt h r = map_option (heap_agents h) r"

definition bindingsAt :: "config_heap \<Rightarrow> nat option \<Rightarrow> agent_binding list option" where
  "bindingsAt h r = (case r of None \<Rightarrow> None | Some a \<Rightarrow> heap_bindings h a)"

definition sessionAt :: "config_heap \<Rightarrow> nat option \<Rightarrow> session_config option" where
  "sessionAt h r = map_option (heap_session h) r"

end
