(* ===== verification/Route_Resolution.thy ===== *)
theory Route_Resolution
  imports Route_Config
begin

text \<open>
  \<open>src/routing/resolve-route.ts\<close>: from an inbound message (channel, account, peer, parent
  peer, guild, team, roles) and the configured bindings to an agent and a session key.

  The definitions follow the source: bindings are evaluated once per configuration and bucketed by
  channel and account, the buckets of one channel and account are merged back into source order and
  indexed by peer, guild and team, and eight tiers are tried in order. Three caches keyed by the
  configuration object (agents, evaluated bindings, resolved routes) are the state
  \<open>route_state\<close>. \<open>routeSpec\<close> is the specification: a linear scan of the bindings of the
  configuration in source order, tier by tier, with no index and no cache.
\<close>

subsection \<open>Data\<close>

record route_peer =
  rp_kind :: chat_type
  rp_id :: string

record route_input =
  ri_cfg :: config
  ri_channel :: string
  ri_accountId :: "string option"
  ri_peer :: "route_peer option"
  ri_dmScope :: "dm_scope option"
  ri_parentPeer :: "route_peer option"
  ri_guildId :: "string option"
  ri_teamId :: "string option"
  ri_memberRoleIds :: "string list option"

datatype last_route_policy = LastRouteMain | LastRouteSession

datatype matched_by =
    ByPeer | ByPeerParent | ByPeerWildcard | ByGuildRoles | ByGuild | ByTeam | ByAccount | ByChannel
  | ByDefault

record resolved_agent_route =
  rr_agentId :: string
  rr_channel :: string
  rr_accountId :: string
  rr_dmScope :: "dm_scope option"
  rr_sessionKey :: string
  rr_mainSessionKey :: string
  rr_lastRoutePolicy :: last_route_policy
  rr_matchedBy :: matched_by

definition deriveLastRoutePolicy :: "string \<Rightarrow> string \<Rightarrow> last_route_policy" where
  "deriveLastRoutePolicy sessionKey mainSessionKey =
     (if sessionKey = mainSessionKey then LastRouteMain else LastRouteSession)"

definition resolveInboundLastRouteSessionKey :: "last_route_policy \<Rightarrow> string \<Rightarrow> string \<Rightarrow> string" where
  "resolveInboundLastRouteSessionKey policy mainSessionKey sessionKey =
     (if policy = LastRouteMain then mainSessionKey else sessionKey)"

definition normalizeId :: "string option \<Rightarrow> string" where
  "normalizeId value = normalizeRouteBindingId (js_of_opt value)"

record session_key_params =
  skp_agentId :: string
  skp_mainKey :: "string option"
  skp_channel :: string
  skp_accountId :: "string option"
  skp_peer :: "route_peer option"
  skp_dmScope :: "dm_scope option"
  skp_identityLinks :: "identity_links option"

definition buildAgentSessionKey :: "session_key_params \<Rightarrow> string" where
  "buildAgentSessionKey p =
     buildAgentPeerSessionKey
       \<lparr>pkp_agentId = skp_agentId p,
        pkp_mainKey = Some (nullish (skp_mainKey p) DEFAULT_MAIN_KEY),
        pkp_channel = js_or (normalizeToken (Some (skp_channel p))) ''unknown'',
        pkp_accountId = skp_accountId p,
        pkp_peerKind = Some (nullish (map_option rp_kind (skp_peer p)) ChatDirect),
        pkp_peerId = map_option (\<lambda>peer. js_or (normalizeId (Some (rp_id peer))) ''unknown'') (skp_peer p),
        pkp_identityLinks = skp_identityLinks p,
        pkp_dmScope = skp_dmScope p\<rparr>"

subsection \<open>Agent lookup\<close>

record agent_lookup_cache =
  al_agentsRef :: "nat option"
  al_byNormalizedId :: "(string, string) js_map"
  al_fallbackDefaultAgentId :: string

definition buildAgentsById :: "agents_config option \<Rightarrow> (string, string) js_map" where
  "buildAgentsById agents =
     foldl (\<lambda>m rawId. AList.update (normalizeAgentId (Some rawId)) (sanitizeAgentId (Some rawId)) m) []
       (filter (\<lambda>rawId. rawId \<noteq> [])
         (map (\<lambda>agent. nullish (map_option js_trim (ae_id agent)) []) (listAgentEntries agents)))"

subsection \<open>Evaluated bindings\<close>

datatype peer_constraint =
    PeerNone
  | PeerInvalid
  | PeerWildcardKind chat_type
  | PeerValid chat_type string

record normalized_binding_match =
  nbm_accountPattern :: string
  nbm_peer :: peer_constraint
  nbm_guildId :: "string option"
  nbm_teamId :: "string option"
  nbm_roles :: "string list option"

record evaluated_binding =
  eb_binding :: agent_binding
  eb_match :: normalized_binding_match
  eb_order :: nat

record bindings_by_channel =
  bbc_byAccount :: "(string, evaluated_binding list) js_map"
  bbc_byAnyAccount :: "evaluated_binding list"

record bindings_index =
  bx_byPeer :: "(string, evaluated_binding list) js_map"
  bx_byPeerWildcard :: "evaluated_binding list"
  bx_byGuildWithRoles :: "(string, evaluated_binding list) js_map"
  bx_byGuild :: "(string, evaluated_binding list) js_map"
  bx_byTeam :: "(string, evaluated_binding list) js_map"
  bx_byAccount :: "evaluated_binding list"
  bx_byChannel :: "evaluated_binding list"

definition resolveAccountPatternKey :: "string \<Rightarrow> string" where
  "resolveAccountPatternKey accountPattern =
     (if js_trim accountPattern = [] then DEFAULT_ACCOUNT_ID
      else normalizeAccountId (Some accountPattern))"

definition normalizePeerConstraint :: "peer_match option \<Rightarrow> peer_constraint" where
  "normalizePeerConstraint peer =
     (case peer of None \<Rightarrow> PeerNone
      | Some p \<Rightarrow>
        let i = normalizeId (pm_id p) in
        case normalizeChatType (pm_kind p) of
          None \<Rightarrow> PeerInvalid
        | Some kind \<Rightarrow>
          if i = [] then PeerInvalid
          else if i = ''*'' then PeerWildcardKind kind
          else PeerValid kind i)"

definition or_null :: "string \<Rightarrow> string option" where
  "or_null s = (if s \<noteq> [] then Some s else None)"

definition normalizeBindingMatch :: "binding_match option \<Rightarrow> normalized_binding_match" where
  "normalizeBindingMatch m =
     \<lparr>nbm_accountPattern = js_trim (nullish (Option.bind m bm_accountId) []),
      nbm_peer = normalizePeerConstraint (Option.bind m bm_peer),
      nbm_guildId = or_null (normalizeId (Option.bind m bm_guildId)),
      nbm_teamId = or_null (normalizeId (Option.bind m bm_teamId)),
      nbm_roles = normalizeRouteBindingRoles (Option.bind m bm_roles)\<rparr>"

definition bindingChannel :: "agent_binding \<Rightarrow> string" where
  "bindingChannel b = normalizeToken (Option.bind (ab_match b) bm_channel)"

definition addEvaluatedBinding ::
  "(string, bindings_by_channel) js_map \<times> nat \<Rightarrow> agent_binding
    \<Rightarrow> (string, bindings_by_channel) js_map \<times> nat" where
  "addEvaluatedBinding acc binding =
     (let (byChannel, order) = acc; channel = bindingChannel binding in
      if channel = [] then (byChannel, order)
      else
        let match = normalizeBindingMatch (ab_match binding);
            evaluated = \<lparr>eb_binding = binding, eb_match = match, eb_order = order\<rparr>;
            bucket = nullish (map_of byChannel channel) \<lparr>bbc_byAccount = [], bbc_byAnyAccount = []\<rparr>;
            bucket' =
              (if nbm_accountPattern match = ''*''
               then bucket\<lparr>bbc_byAnyAccount := bbc_byAnyAccount bucket @ [evaluated]\<rparr>
               else let accountKey = resolveAccountPatternKey (nbm_accountPattern match) in
                 bucket\<lparr>bbc_byAccount := AList.update accountKey
                   (nullish (map_of (bbc_byAccount bucket) accountKey) [] @ [evaluated])
                   (bbc_byAccount bucket)\<rparr>)
        in (AList.update channel bucket' byChannel, order + 1))"

definition buildEvaluatedBindingsByChannel ::
  "agent_binding list option \<Rightarrow> (string, bindings_by_channel) js_map" where
  "buildEvaluatedBindingsByChannel bindings =
     fst (foldl addEvaluatedBinding ([], 0) (listBindings bindings))"

text \<open>The merge loop with its two cursors as the remaining parts of both lists.\<close>

fun mergeLoop :: "evaluated_binding list \<Rightarrow> evaluated_binding list \<Rightarrow> evaluated_binding list" where
  "mergeLoop [] anyAccount = anyAccount"
| "mergeLoop accountScoped [] = accountScoped"
| "mergeLoop (a # accountScoped) (b # anyAccount) =
     (if eb_order a \<le> eb_order b then a # mergeLoop accountScoped (b # anyAccount)
      else b # mergeLoop (a # accountScoped) anyAccount)"

definition mergeEvaluatedBindingsInSourceOrder ::
  "evaluated_binding list \<Rightarrow> evaluated_binding list \<Rightarrow> evaluated_binding list" where
  "mergeEvaluatedBindingsInSourceOrder accountScoped anyAccount =
     (if accountScoped = [] then anyAccount
      else if anyAccount = [] then accountScoped
      else mergeLoop accountScoped anyAccount)"

definition pushToIndexMap ::
  "(string, evaluated_binding list) js_map \<Rightarrow> string option \<Rightarrow> evaluated_binding
    \<Rightarrow> (string, evaluated_binding list) js_map" where
  "pushToIndexMap m key binding =
     (case key of None \<Rightarrow> m
      | Some k \<Rightarrow> if k = [] then m else AList.update k (nullish (map_of m k) [] @ [binding]) m)"

definition peerLookupKeys :: "chat_type \<Rightarrow> string \<Rightarrow> string list" where
  "peerLookupKeys kind i =
     (if kind = ChatGroup then [''group:'' @ i, ''channel:'' @ i]
      else if kind = ChatChannel then [''channel:'' @ i, ''group:'' @ i]
      else [chatTypeString kind @ '':'' @ i])"

definition collectPeerIndexedBindings ::
  "bindings_index \<Rightarrow> route_peer option \<Rightarrow> evaluated_binding list" where
  "collectPeerIndexedBindings index peer =
     (case peer of None \<Rightarrow> []
      | Some p \<Rightarrow>
        js_set_of (concat (map (\<lambda>key. nullish (map_of (bx_byPeer index) key) [])
          (peerLookupKeys (rp_kind p) (rp_id p)))))"

definition addToIndex :: "bindings_index \<Rightarrow> evaluated_binding \<Rightarrow> bindings_index" where
  "addToIndex index b =
     (let m = eb_match b in
      case nbm_peer m of
        PeerValid kind i \<Rightarrow>
          index\<lparr>bx_byPeer := foldl (\<lambda>mp key. pushToIndexMap mp (Some key) b) (bx_byPeer index)
                  (peerLookupKeys kind i)\<rparr>
      | PeerWildcardKind _ \<Rightarrow> index\<lparr>bx_byPeerWildcard := bx_byPeerWildcard index @ [b]\<rparr>
      | _ \<Rightarrow>
        if nbm_guildId m \<noteq> None \<and> nbm_roles m \<noteq> None
        then index\<lparr>bx_byGuildWithRoles := pushToIndexMap (bx_byGuildWithRoles index) (nbm_guildId m) b\<rparr>
        else if nbm_guildId m \<noteq> None \<and> nbm_roles m = None
        then index\<lparr>bx_byGuild := pushToIndexMap (bx_byGuild index) (nbm_guildId m) b\<rparr>
        else if nbm_teamId m \<noteq> None
        then index\<lparr>bx_byTeam := pushToIndexMap (bx_byTeam index) (nbm_teamId m) b\<rparr>
        else if nbm_accountPattern m \<noteq> ''*''
        then index\<lparr>bx_byAccount := bx_byAccount index @ [b]\<rparr>
        else index\<lparr>bx_byChannel := bx_byChannel index @ [b]\<rparr>)"

definition emptyIndex :: bindings_index where
  "emptyIndex = \<lparr>bx_byPeer = [], bx_byPeerWildcard = [], bx_byGuildWithRoles = [], bx_byGuild = [],
     bx_byTeam = [], bx_byAccount = [], bx_byChannel = []\<rparr>"

definition buildEvaluatedBindingsIndex :: "evaluated_binding list \<Rightarrow> bindings_index" where
  "buildEvaluatedBindingsIndex bindings = foldl addToIndex emptyIndex bindings"

subsection \<open>Caches\<close>

record evaluated_bindings_cache =
  ec_bindingsRef :: "nat option"
  ec_byChannel :: "(string, bindings_by_channel) js_map"
  ec_byChannelAccount :: "(string, evaluated_binding list) js_map"
  ec_byChannelAccountIndex :: "(string, bindings_index) js_map"

text \<open>The key of a resolved route is the array that the source prints with
  \<open>JSON.stringify\<close>, which is injective on arrays of strings.\<close>

record route_cache_key =
  ck_channel :: string
  ck_accountId :: string
  ck_peer :: string
  ck_parentPeer :: string
  ck_guildId :: string
  ck_teamId :: string
  ck_memberRoleIds :: "string list"
  ck_dmScope :: dm_scope

record route_cache =
  rc_bindingsRef :: "nat option"
  rc_agentsRef :: "nat option"
  rc_sessionRef :: "nat option"
  rc_byKey :: "(route_cache_key, resolved_agent_route) js_map"

text \<open>The three weak maps from configuration objects.\<close>

record route_state =
  rs_agentLookup :: "(nat, agent_lookup_cache) js_map"
  rs_evaluated :: "(nat, evaluated_bindings_cache) js_map"
  rs_resolved :: "(nat, route_cache) js_map"

definition initialRouteState :: route_state where
  "initialRouteState = \<lparr>rs_agentLookup = [], rs_evaluated = [], rs_resolved = []\<rparr>"

definition MAX_EVALUATED_BINDINGS_CACHE_KEYS :: nat where
  "MAX_EVALUATED_BINDINGS_CACHE_KEYS = 2000"

definition MAX_RESOLVED_ROUTE_CACHE_KEYS :: nat where
  "MAX_RESOLVED_ROUTE_CACHE_KEYS = 4000"

text \<open>A table that is cleared when it outgrows its bound and then holds the new entry alone.\<close>

definition keepOrClear :: "nat \<Rightarrow> ('k, 'v) js_map \<Rightarrow> 'k \<Rightarrow> 'v \<Rightarrow> ('k, 'v) js_map" where
  "keepOrClear bound m key v =
     (let m' = AList.update key v m in if bound < length m' then [(key, v)] else m')"

definition resolveAgentLookupCache ::
  "config_heap \<Rightarrow> config \<Rightarrow> route_state \<Rightarrow> (route_error + agent_lookup_cache) \<times> route_state" where
  "resolveAgentLookupCache h cfg st =
     (let agentsRef = cfg_agents cfg;
          build = (case resolveDefaultAgentId (agentsAt h agentsRef) of
              Inl e \<Rightarrow> (Inl e, st)
            | Inr d \<Rightarrow>
              let next = \<lparr>al_agentsRef = agentsRef, al_byNormalizedId = buildAgentsById (agentsAt h agentsRef),
                          al_fallbackDefaultAgentId = sanitizeAgentId (Some d)\<rparr>
              in (Inr next, st\<lparr>rs_agentLookup := AList.update (cfg_object cfg) next (rs_agentLookup st)\<rparr>))
      in case map_of (rs_agentLookup st) (cfg_object cfg) of
           Some existing \<Rightarrow> if al_agentsRef existing = agentsRef then (Inr existing, st) else build
         | None \<Rightarrow> build)"

definition pickFromLookup :: "agent_lookup_cache \<Rightarrow> string \<Rightarrow> string" where
  "pickFromLookup lookup agentId =
     (let trimmed = js_trim agentId in
      if trimmed = [] then al_fallbackDefaultAgentId lookup
      else if al_byNormalizedId lookup = [] then sanitizeAgentId (Some trimmed)
      else let resolved = nullish (map_of (al_byNormalizedId lookup) (normalizeAgentId (Some trimmed))) [] in
        if resolved \<noteq> [] then resolved else al_fallbackDefaultAgentId lookup)"

definition pickFirstExistingAgentId ::
  "config_heap \<Rightarrow> config \<Rightarrow> string \<Rightarrow> route_state \<Rightarrow> (route_error + string) \<times> route_state" where
  "pickFirstExistingAgentId h cfg agentId st =
     (case resolveAgentLookupCache h cfg st of
        (Inl e, st') \<Rightarrow> (Inl e, st')
      | (Inr lookup, st') \<Rightarrow> (Inr (pickFromLookup lookup agentId), st'))"

definition channelAccountKey :: "string \<Rightarrow> string \<Rightarrow> string" where
  "channelAccountKey channel accountId = channel @ [CHR 0x09] @ accountId"

definition evaluatedFor ::
  "(string, bindings_by_channel) js_map \<Rightarrow> string \<Rightarrow> string \<Rightarrow> evaluated_binding list" where
  "evaluatedFor byChannel channel accountId =
     (let channelBindings = map_of byChannel channel;
          accountScoped = nullish (Option.bind channelBindings (\<lambda>b. map_of (bbc_byAccount b) accountId)) [];
          anyAccount = nullish (map_option bbc_byAnyAccount channelBindings) []
      in mergeEvaluatedBindingsInSourceOrder accountScoped anyAccount)"

definition getEvaluatedBindingsForChannelAccount ::
  "config_heap \<Rightarrow> config \<Rightarrow> string \<Rightarrow> string \<Rightarrow> route_state \<Rightarrow> evaluated_binding list \<times> route_state" where
  "getEvaluatedBindingsForChannelAccount h cfg channel accountId st =
     (let bindingsRef = cfg_bindings cfg;
          fresh = \<lparr>ec_bindingsRef = bindingsRef,
                   ec_byChannel = buildEvaluatedBindingsByChannel (bindingsAt h bindingsRef),
                   ec_byChannelAccount = [], ec_byChannelAccountIndex = []\<rparr>;
          cache = (case map_of (rs_evaluated st) (cfg_object cfg) of
                     Some existing \<Rightarrow> if ec_bindingsRef existing = bindingsRef then existing else fresh
                   | None \<Rightarrow> fresh);
          put = (\<lambda>c. st\<lparr>rs_evaluated := AList.update (cfg_object cfg) c (rs_evaluated st)\<rparr>);
          cacheKey = channelAccountKey channel accountId
      in case map_of (ec_byChannelAccount cache) cacheKey of
           Some hit \<Rightarrow> (hit, put cache)
         | None \<Rightarrow>
           let evaluated = evaluatedFor (ec_byChannel cache) channel accountId;
               byCA = AList.update cacheKey evaluated (ec_byChannelAccount cache);
               byCAI = AList.update cacheKey (buildEvaluatedBindingsIndex evaluated)
                         (ec_byChannelAccountIndex cache);
               cache' =
                 (if MAX_EVALUATED_BINDINGS_CACHE_KEYS < length byCA
                  then cache\<lparr>ec_byChannelAccount := [(cacheKey, evaluated)],
                             ec_byChannelAccountIndex := [(cacheKey, buildEvaluatedBindingsIndex evaluated)]\<rparr>
                  else cache\<lparr>ec_byChannelAccount := byCA, ec_byChannelAccountIndex := byCAI\<rparr>)
           in (evaluated, put cache'))"

definition getEvaluatedBindingIndexForChannelAccount ::
  "config_heap \<Rightarrow> config \<Rightarrow> string \<Rightarrow> string \<Rightarrow> route_state \<Rightarrow> bindings_index \<times> route_state" where
  "getEvaluatedBindingIndexForChannelAccount h cfg channel accountId st =
     (let (bindings, st1) = getEvaluatedBindingsForChannelAccount h cfg channel accountId st;
          cacheKey = channelAccountKey channel accountId
      in case map_of (rs_evaluated st1) (cfg_object cfg) of
           None \<Rightarrow> (buildEvaluatedBindingsIndex bindings, st1)
         | Some existing \<Rightarrow>
           case map_of (ec_byChannelAccountIndex existing) cacheKey of
             Some indexed \<Rightarrow> (indexed, st1)
           | None \<Rightarrow>
             let built = buildEvaluatedBindingsIndex bindings in
             (built, st1\<lparr>rs_evaluated := AList.update (cfg_object cfg)
                (existing\<lparr>ec_byChannelAccountIndex :=
                   AList.update cacheKey built (ec_byChannelAccountIndex existing)\<rparr>)
                (rs_evaluated st1)\<rparr>))"

definition resolveRouteCacheForConfig ::
  "config \<Rightarrow> route_state \<Rightarrow> (route_cache_key, resolved_agent_route) js_map \<times> route_state" where
  "resolveRouteCacheForConfig cfg st =
     (let fresh = ([], st\<lparr>rs_resolved := AList.update (cfg_object cfg)
            \<lparr>rc_bindingsRef = cfg_bindings cfg, rc_agentsRef = cfg_agents cfg,
             rc_sessionRef = cfg_session cfg, rc_byKey = []\<rparr> (rs_resolved st)\<rparr>)
      in case map_of (rs_resolved st) (cfg_object cfg) of
           Some existing \<Rightarrow>
             if rc_bindingsRef existing = cfg_bindings cfg \<and> rc_agentsRef existing = cfg_agents cfg
                \<and> rc_sessionRef existing = cfg_session cfg
             then (rc_byKey existing, st) else fresh
         | None \<Rightarrow> fresh)"

definition formatRouteCachePeer :: "route_peer option \<Rightarrow> string" where
  "formatRouteCachePeer peer =
     (case peer of None \<Rightarrow> ''-''
      | Some p \<Rightarrow> if rp_id p = [] then ''-'' else chatTypeString (rp_kind p) @ '':'' @ rp_id p)"

subsection \<open>Scopes and tiers\<close>

record binding_scope =
  bs_peer :: "route_peer option"
  bs_guildId :: string
  bs_teamId :: string
  bs_memberRoleIds :: "string list"

definition matchesBindingScope :: "normalized_binding_match \<Rightarrow> binding_scope \<Rightarrow> bool" where
  "matchesBindingScope m scope =
     (let rest = routeBindingScopeMatches
            \<lparr>sc_guildId = nbm_guildId m, sc_teamId = nbm_teamId m, sc_roles = nbm_roles m\<rparr>
            \<lparr>rsc_guildId = JStr (bs_guildId scope), rsc_teamId = JStr (bs_teamId scope),
             rsc_groupSpace = JUndefined, rsc_memberRoleIds = Some (bs_memberRoleIds scope)\<rparr>
      in case nbm_peer m of
           PeerInvalid \<Rightarrow> False
         | PeerValid kind i \<Rightarrow>
             (case bs_peer scope of None \<Rightarrow> False
              | Some p \<Rightarrow> peerKindMatches kind (rp_kind p) \<and> rp_id p = i \<and> rest)
         | PeerWildcardKind kind \<Rightarrow>
             (case bs_peer scope of None \<Rightarrow> False
              | Some p \<Rightarrow> peerKindMatches kind (rp_kind p) \<and> rest)
         | PeerNone \<Rightarrow> rest)"

text \<open>The message after normalization, as \<open>resolveAgentRoute\<close> computes it first.\<close>

record normalized_input =
  ni_channel :: string
  ni_accountId :: string
  ni_peer :: "route_peer option"
  ni_parentPeer :: "route_peer option"
  ni_guildId :: string
  ni_teamId :: string
  ni_memberRoleIds :: "string list"
  ni_dmScope :: dm_scope

definition normalizeRoutePeer :: "route_peer option \<Rightarrow> route_peer option" where
  "normalizeRoutePeer peer =
     map_option (\<lambda>p. \<lparr>rp_kind = nullish (normalizeChatType (Some (chatTypeString (rp_kind p)))) (rp_kind p),
                     rp_id = normalizeId (Some (rp_id p))\<rparr>) peer"

definition normalizeInput :: "config_heap \<Rightarrow> route_input \<Rightarrow> normalized_input" where
  "normalizeInput h input =
     \<lparr>ni_channel = normalizeToken (Some (ri_channel input)),
      ni_accountId = normalizeAccountId (ri_accountId input),
      ni_peer = normalizeRoutePeer (ri_peer input),
      ni_parentPeer = normalizeRoutePeer (ri_parentPeer input),
      ni_guildId = normalizeId (ri_guildId input),
      ni_teamId = normalizeId (ri_teamId input),
      ni_memberRoleIds = nullish (ri_memberRoleIds input) [],
      ni_dmScope = nullish (nullish_or (ri_dmScope input)
        (Option.bind (sessionAt h (cfg_session (ri_cfg input))) se_dmScope)) DmScopeMain\<rparr>"

definition buildResolvedRouteCacheKey :: "normalized_input \<Rightarrow> route_cache_key" where
  "buildResolvedRouteCacheKey n =
     \<lparr>ck_channel = ni_channel n, ck_accountId = ni_accountId n,
      ck_peer = formatRouteCachePeer (ni_peer n), ck_parentPeer = formatRouteCachePeer (ni_parentPeer n),
      ck_guildId = ni_guildId n, ck_teamId = ni_teamId n,
      ck_memberRoleIds = js_toSorted compareCodeUnits (ni_memberRoleIds n), ck_dmScope = ni_dmScope n\<rparr>"

record route_tier =
  tr_matchedBy :: matched_by
  tr_enabled :: bool
  tr_scopePeer :: "route_peer option"
  tr_candidates :: "evaluated_binding list"
  tr_predicate :: "normalized_binding_match \<Rightarrow> bool"

definition routeTiers :: "bindings_index \<Rightarrow> normalized_input \<Rightarrow> route_tier list" where
  "routeTiers index n =
     (let peer = ni_peer n;
          parentPeer = ni_parentPeer n;
          parentScope = (case parentPeer of Some p \<Rightarrow> if rp_id p \<noteq> [] then Some p else None | None \<Rightarrow> None);
          guildId = ni_guildId n;
          teamId = ni_teamId n
      in
      [\<lparr>tr_matchedBy = ByPeer, tr_enabled = (peer \<noteq> None), tr_scopePeer = peer,
        tr_candidates = collectPeerIndexedBindings index peer,
        tr_predicate = (\<lambda>m. case nbm_peer m of PeerValid _ _ \<Rightarrow> True | _ \<Rightarrow> False)\<rparr>,
       \<lparr>tr_matchedBy = ByPeerParent, tr_enabled = (parentScope \<noteq> None), tr_scopePeer = parentScope,
        tr_candidates = collectPeerIndexedBindings index parentPeer,
        tr_predicate = (\<lambda>m. case nbm_peer m of PeerValid _ _ \<Rightarrow> True | _ \<Rightarrow> False)\<rparr>,
       \<lparr>tr_matchedBy = ByPeerWildcard, tr_enabled = (peer \<noteq> None), tr_scopePeer = peer,
        tr_candidates = bx_byPeerWildcard index,
        tr_predicate = (\<lambda>m. case nbm_peer m of PeerWildcardKind _ \<Rightarrow> True | _ \<Rightarrow> False)\<rparr>,
       \<lparr>tr_matchedBy = ByGuildRoles, tr_enabled = (guildId \<noteq> [] \<and> ni_memberRoleIds n \<noteq> []),
        tr_scopePeer = peer,
        tr_candidates = (if guildId \<noteq> [] then nullish (map_of (bx_byGuildWithRoles index) guildId) [] else []),
        tr_predicate = (\<lambda>m. nbm_guildId m \<noteq> None \<and> nbm_roles m \<noteq> None)\<rparr>,
       \<lparr>tr_matchedBy = ByGuild, tr_enabled = (guildId \<noteq> []), tr_scopePeer = peer,
        tr_candidates = (if guildId \<noteq> [] then nullish (map_of (bx_byGuild index) guildId) [] else []),
        tr_predicate = (\<lambda>m. nbm_guildId m \<noteq> None \<and> nbm_roles m = None)\<rparr>,
       \<lparr>tr_matchedBy = ByTeam, tr_enabled = (teamId \<noteq> []), tr_scopePeer = peer,
        tr_candidates = (if teamId \<noteq> [] then nullish (map_of (bx_byTeam index) teamId) [] else []),
        tr_predicate = (\<lambda>m. nbm_teamId m \<noteq> None)\<rparr>,
       \<lparr>tr_matchedBy = ByAccount, tr_enabled = True, tr_scopePeer = peer,
        tr_candidates = bx_byAccount index,
        tr_predicate = (\<lambda>m. nbm_accountPattern m \<noteq> ''*'')\<rparr>,
       \<lparr>tr_matchedBy = ByChannel, tr_enabled = True, tr_scopePeer = peer,
        tr_candidates = bx_byChannel index,
        tr_predicate = (\<lambda>m. nbm_accountPattern m = ''*'')\<rparr>])"

definition tierScope :: "normalized_input \<Rightarrow> route_peer option \<Rightarrow> binding_scope" where
  "tierScope n peer =
     \<lparr>bs_peer = peer, bs_guildId = ni_guildId n, bs_teamId = ni_teamId n,
      bs_memberRoleIds = js_set_of (ni_memberRoleIds n)\<rparr>"

fun matchTiers :: "normalized_input \<Rightarrow> route_tier list \<Rightarrow> (evaluated_binding \<times> matched_by) option" where
  "matchTiers n [] = None"
| "matchTiers n (tier # tiers) =
     (if \<not> tr_enabled tier then matchTiers n tiers
      else case find (\<lambda>c. tr_predicate tier (eb_match c)
                    \<and> matchesBindingScope (eb_match c) (tierScope n (tr_scopePeer tier)))
                  (tr_candidates tier) of
        Some matched \<Rightarrow> Some (matched, tr_matchedBy tier)
      | None \<Rightarrow> matchTiers n tiers)"

definition buildRoute ::
  "config_heap \<Rightarrow> nat option \<Rightarrow> normalized_input \<Rightarrow> string \<Rightarrow> matched_by \<Rightarrow> dm_scope option \<Rightarrow> resolved_agent_route" where
  "buildRoute h sessionRef n agentId matchedBy override =
     (let session = sessionAt h sessionRef;
          mainKey = Option.bind session se_mainKey;
          effectiveDmScope = nullish override (ni_dmScope n);
          sessionKey = buildAgentSessionKey
            \<lparr>skp_agentId = agentId, skp_mainKey = mainKey, skp_channel = ni_channel n,
             skp_accountId = Some (ni_accountId n), skp_peer = ni_peer n,
             skp_dmScope = Some effectiveDmScope,
             skp_identityLinks = Option.bind session se_identityLinks\<rparr>;
          mainSessionKey = normalizeLowercaseStringOrEmpty (JStr (buildAgentMainSessionKey agentId mainKey))
      in \<lparr>rr_agentId = agentId, rr_channel = ni_channel n, rr_accountId = ni_accountId n,
          rr_dmScope = Some effectiveDmScope, rr_sessionKey = sessionKey,
          rr_mainSessionKey = mainSessionKey,
          rr_lastRoutePolicy = deriveLastRoutePolicy sessionKey mainSessionKey,
          rr_matchedBy = matchedBy\<rparr>)"

text \<open>\<open>choose\<close>: resolves the agent, builds the route and remembers it.\<close>

definition rememberRoute ::
  "config \<Rightarrow> route_cache_key option \<Rightarrow> resolved_agent_route \<Rightarrow> route_state \<Rightarrow> route_state" where
  "rememberRoute cfg key route st =
     (case key of None \<Rightarrow> st
      | Some k \<Rightarrow>
        case map_of (rs_resolved st) (cfg_object cfg) of
          None \<Rightarrow> st
        | Some c \<Rightarrow> st\<lparr>rs_resolved := AList.update (cfg_object cfg)
            (c\<lparr>rc_byKey := keepOrClear MAX_RESOLVED_ROUTE_CACHE_KEYS (rc_byKey c) k route\<rparr>)
            (rs_resolved st)\<rparr>)"

definition chooseRoute ::
  "config_heap \<Rightarrow> config \<Rightarrow> normalized_input \<Rightarrow> route_cache_key option \<Rightarrow> string \<Rightarrow> matched_by
    \<Rightarrow> dm_scope option \<Rightarrow> route_state \<Rightarrow> (route_error + resolved_agent_route) \<times> route_state" where
  "chooseRoute h cfg n key agentId matchedBy override st =
     (case pickFirstExistingAgentId h cfg agentId st of
        (Inl e, st') \<Rightarrow> (Inl e, st')
      | (Inr resolvedAgentId, st') \<Rightarrow>
        let route = buildRoute h (cfg_session cfg) n resolvedAgentId matchedBy override
        in (Inr route, rememberRoute cfg key route st'))"

definition routeUncached ::
  "config_heap \<Rightarrow> config \<Rightarrow> normalized_input \<Rightarrow> route_cache_key option \<Rightarrow> route_state
    \<Rightarrow> (route_error + resolved_agent_route) \<times> route_state" where
  "routeUncached h cfg n key st =
     (let (bindings, st1) = getEvaluatedBindingsForChannelAccount h cfg (ni_channel n) (ni_accountId n) st;
          (index, st2) = getEvaluatedBindingIndexForChannelAccount h cfg (ni_channel n) (ni_accountId n) st1
      in case matchTiers n (routeTiers index n) of
           Some (matched, matchedBy) \<Rightarrow>
             chooseRoute h cfg n key (ab_agentId (eb_binding matched)) matchedBy
               (nullish (ab_session (eb_binding matched)) None) st2
         | None \<Rightarrow>
           case resolveDefaultAgentId (agentsAt h (cfg_agents cfg)) of
             Inl e \<Rightarrow> (Inl e, st2)
           | Inr d \<Rightarrow> chooseRoute h cfg n key d ByDefault None st2)"

definition resolveAgentRoute ::
  "bool \<Rightarrow> config_heap \<Rightarrow> route_input \<Rightarrow> route_state \<Rightarrow> (route_error + resolved_agent_route) \<times> route_state" where
  "resolveAgentRoute shouldLogVerbose h input st =
     (let cfg = ri_cfg input;
          n = normalizeInput h input;
          identityLinks = Option.bind (sessionAt h (cfg_session cfg)) se_identityLinks
      in if \<not> shouldLogVerbose \<and> identityLinks = None
         then let (byKey, st1) = resolveRouteCacheForConfig cfg st;
                  key = buildResolvedRouteCacheKey n
           in case map_of byKey key of
                Some cachedRoute \<Rightarrow> (Inr cachedRoute, st1)
              | None \<Rightarrow> routeUncached h cfg n (Some key) st1
         else routeUncached h cfg n None st)"

subsection \<open>Specification and index\<close>

text \<open>The evaluated bindings of a configuration in source order, and the ones that concern a
  channel and an account.\<close>

fun evaluateFrom :: "nat \<Rightarrow> agent_binding list \<Rightarrow> evaluated_binding list" where
  "evaluateFrom order [] = []"
| "evaluateFrom order (b # bs) =
     (if bindingChannel b = [] then evaluateFrom order bs
      else \<lparr>eb_binding = b, eb_match = normalizeBindingMatch (ab_match b), eb_order = order\<rparr>
           # evaluateFrom (Suc order) bs)"

definition evaluatedBindings :: "agent_binding list option \<Rightarrow> evaluated_binding list" where
  "evaluatedBindings bindings = evaluateFrom 0 (listBindings bindings)"

definition scopedTo :: "string \<Rightarrow> string \<Rightarrow> evaluated_binding \<Rightarrow> bool" where
  "scopedTo channel accountId b \<longleftrightarrow>
     bindingChannel (eb_binding b) = channel \<and> nbm_accountPattern (eb_match b) \<noteq> ''*''
     \<and> resolveAccountPatternKey (nbm_accountPattern (eb_match b)) = accountId"

definition anyAccountOn :: "string \<Rightarrow> evaluated_binding \<Rightarrow> bool" where
  "anyAccountOn channel b \<longleftrightarrow>
     bindingChannel (eb_binding b) = channel \<and> nbm_accountPattern (eb_match b) = ''*''"

definition concerns :: "string \<Rightarrow> string \<Rightarrow> evaluated_binding \<Rightarrow> bool" where
  "concerns channel accountId b \<longleftrightarrow> scopedTo channel accountId b \<or> anyAccountOn channel b"

text \<open>The tier a binding competes in.\<close>

datatype binding_tier = TierPeer | TierWildcard | TierGuildRoles | TierGuild | TierTeam | TierAccount | TierChannel

definition bindingTier :: "normalized_binding_match \<Rightarrow> binding_tier" where
  "bindingTier m =
     (case nbm_peer m of
        PeerValid _ _ \<Rightarrow> TierPeer
      | PeerWildcardKind _ \<Rightarrow> TierWildcard
      | _ \<Rightarrow>
        if nbm_guildId m \<noteq> None then (if nbm_roles m \<noteq> None then TierGuildRoles else TierGuild)
        else if nbm_teamId m \<noteq> None then TierTeam
        else if nbm_accountPattern m \<noteq> ''*'' then TierAccount else TierChannel)"

text \<open>The specification of tier matching: the tiers in order of precedence, each a linear scan.\<close>

definition parentScope :: "normalized_input \<Rightarrow> route_peer option" where
  "parentScope n = (case ni_parentPeer n of Some p \<Rightarrow> if rp_id p \<noteq> [] then Some p else None | None \<Rightarrow> None)"

definition tierOrder :: "normalized_input \<Rightarrow> (matched_by \<times> bool \<times> route_peer option \<times> binding_tier) list" where
  "tierOrder n =
     [(ByPeer, ni_peer n \<noteq> None, ni_peer n, TierPeer),
      (ByPeerParent, parentScope n \<noteq> None, parentScope n, TierPeer),
      (ByPeerWildcard, ni_peer n \<noteq> None, ni_peer n, TierWildcard),
      (ByGuildRoles, ni_guildId n \<noteq> [] \<and> ni_memberRoleIds n \<noteq> [], ni_peer n, TierGuildRoles),
      (ByGuild, ni_guildId n \<noteq> [], ni_peer n, TierGuild),
      (ByTeam, ni_teamId n \<noteq> [], ni_peer n, TierTeam),
      (ByAccount, True, ni_peer n, TierAccount),
      (ByChannel, True, ni_peer n, TierChannel)]"

fun firstMatch ::
  "normalized_input \<Rightarrow> evaluated_binding list \<Rightarrow> (matched_by \<times> bool \<times> route_peer option \<times> binding_tier) list
    \<Rightarrow> (evaluated_binding \<times> matched_by) option" where
  "firstMatch n bs [] = None"
| "firstMatch n bs ((by, enabled, scopePeer, tier) # rest) =
     (case (if enabled
            then find (\<lambda>b. bindingTier (eb_match b) = tier
                   \<and> matchesBindingScope (eb_match b) (tierScope n scopePeer)) bs
            else None) of
        Some b \<Rightarrow> Some (b, by)
      | None \<Rightarrow> firstMatch n bs rest)"

subsection \<open>Buckets\<close>

definition accountView :: "(string, bindings_by_channel) js_map \<Rightarrow> string \<Rightarrow> string \<Rightarrow> evaluated_binding list" where
  "accountView m channel accountId =
     nullish (Option.bind (map_of m channel) (\<lambda>b. map_of (bbc_byAccount b) accountId)) []"

definition anyView :: "(string, bindings_by_channel) js_map \<Rightarrow> string \<Rightarrow> evaluated_binding list" where
  "anyView m channel = nullish (map_option bbc_byAnyAccount (map_of m channel)) []"

lemma buckets_step:
  fixes order :: nat
  assumes "bindingChannel b \<noteq> []"
  defines "e \<equiv> \<lparr>eb_binding = b, eb_match = normalizeBindingMatch (ab_match b), eb_order = order\<rparr>"
  obtains m' where "addEvaluatedBinding (m, order) b = (m', Suc order)"
    and "\<And>ch acc. accountView m' ch acc = accountView m ch acc @ (if scopedTo ch acc e then [e] else [])"
    and "\<And>ch. anyView m' ch = anyView m ch @ (if anyAccountOn ch e then [e] else [])"
proof
  show "addEvaluatedBinding (m, order) b = (fst (addEvaluatedBinding (m, order) b), Suc order)"
    using assms by (simp add: addEvaluatedBinding_def Let_def)
  show "accountView (fst (addEvaluatedBinding (m, order) b)) ch acc =
      accountView m ch acc @ (if scopedTo ch acc e then [e] else [])" for ch acc
    using assms(1) by (cases "map_of m (bindingChannel b)")
      (auto simp: addEvaluatedBinding_def Let_def accountView_def scopedTo_def e_def update_conv')
  show "anyView (fst (addEvaluatedBinding (m, order) b)) ch =
      anyView m ch @ (if anyAccountOn ch e then [e] else [])" for ch
    using assms(1) by (cases "map_of m (bindingChannel b)")
      (auto simp: addEvaluatedBinding_def Let_def anyView_def anyAccountOn_def e_def update_conv')
qed

lemma buckets_fold:
  "accountView (fst (foldl addEvaluatedBinding (m, order) bs)) ch acc =
     accountView m ch acc @ filter (scopedTo ch acc) (evaluateFrom order bs)
   \<and> anyView (fst (foldl addEvaluatedBinding (m, order) bs)) ch =
     anyView m ch @ filter (anyAccountOn ch) (evaluateFrom order bs)"
proof (induction bs arbitrary: m order)
  case (Cons b bs)
  show ?case
  proof (cases "bindingChannel b = []")
    case True
    then have "addEvaluatedBinding (m, order) b = (m, order)" by (simp add: addEvaluatedBinding_def)
    with True Cons.IH [of m order] show ?thesis by simp
  next
    case False
    let ?e = "\<lparr>eb_binding = b, eb_match = normalizeBindingMatch (ab_match b), eb_order = order\<rparr>"
    obtain m' where m': "addEvaluatedBinding (m, order) b = (m', Suc order)"
      "accountView m' ch acc = accountView m ch acc @ (if scopedTo ch acc ?e then [?e] else [])"
      "anyView m' ch = anyView m ch @ (if anyAccountOn ch ?e then [?e] else [])"
      using buckets_step [OF False, of m order] by metis
    with False Cons.IH [of m' "Suc order"] show ?thesis by simp
  qed
qed simp

subsection \<open>Merging\<close>

lemma mergeLoop_Nil2 [simp]: "mergeLoop xs [] = xs"
  by (cases xs) simp_all

lemma mergeLoop_filter:
  assumes "sorted_wrt (\<lambda>a b. eb_order a < eb_order b) xs" "\<And>x. \<not> (P x \<and> Q x)"
  shows "mergeLoop (filter P xs) (filter Q xs) = filter (\<lambda>x. P x \<or> Q x) xs"
  using assms
proof (induction xs)
  case (Cons x xs)
  have less: "eb_order x < eb_order y" if "y \<in> set (filter R xs)" for y R
    using that Cons.prems(1) by auto
  show ?case
  proof (cases "P x")
    case True
    with Cons.prems(2) have "\<not> Q x" by blast
    with True Cons less [where R = Q] show ?thesis by (cases "filter Q xs") force+
  next
    case False
    with Cons less [where R = P] show ?thesis by (cases "filter P xs") force+
  qed
qed simp

lemma evaluateFrom_order:
  "b \<in> set (evaluateFrom order bs) \<Longrightarrow> order \<le> eb_order b"
  by (induction order bs rule: evaluateFrom.induct) (auto split: if_splits)

lemma evaluateFrom_sorted: "sorted_wrt (\<lambda>a b. eb_order a < eb_order b) (evaluateFrom order bs)"
  by (induction order bs rule: evaluateFrom.induct) (auto dest: evaluateFrom_order)

text \<open>What the buckets yield for a channel and an account is the scan of the bindings in source
  order.\<close>

lemma evaluatedFor_eq:
  "evaluatedFor (buildEvaluatedBindingsByChannel bindings) channel accountId
     = filter (concerns channel accountId) (evaluatedBindings bindings)"
proof -
  let ?m = "buildEvaluatedBindingsByChannel bindings" and ?e = "evaluatedBindings bindings"
  have a: "accountView ?m channel accountId = filter (scopedTo channel accountId) ?e"
    and b: "anyView ?m channel = filter (anyAccountOn channel) ?e"
    using buckets_fold [of "[]" 0 "listBindings bindings"]
    by (simp_all add: buildEvaluatedBindingsByChannel_def evaluatedBindings_def accountView_def anyView_def)
  have "mergeLoop (filter (scopedTo channel accountId) ?e) (filter (anyAccountOn channel) ?e)
      = filter (concerns channel accountId) ?e"
    unfolding concerns_def
    by (rule mergeLoop_filter)
       (auto simp: evaluatedBindings_def evaluateFrom_sorted scopedTo_def anyAccountOn_def)
  then show ?thesis
    using a b unfolding evaluatedFor_def accountView_def anyView_def
    by (auto simp: mergeEvaluatedBindingsInSourceOrder_def Let_def)
qed


subsection \<open>Index\<close>

abbreviation at :: "(string, evaluated_binding list) js_map \<Rightarrow> string \<Rightarrow> evaluated_binding list" where
  "at m key \<equiv> nullish (map_of m key) []"

definition wf_match :: "normalized_binding_match \<Rightarrow> bool" where
  "wf_match m \<longleftrightarrow> nbm_guildId m \<noteq> Some [] \<and> nbm_teamId m \<noteq> Some []
     \<and> (\<forall>k i. nbm_peer m = PeerValid k i \<longrightarrow> i \<noteq> [])"

lemma wf_normalizeBindingMatch: "wf_match (normalizeBindingMatch m)"
  by (auto simp: wf_match_def normalizeBindingMatch_def or_null_def normalizePeerConstraint_def Let_def
      split: option.splits if_splits)

lemma at_pushToIndexMap:
  "at (pushToIndexMap m key b) k = at m k @ (if key = Some k \<and> k \<noteq> [] then [b] else [])"
  by (auto simp: pushToIndexMap_def update_conv' split: option.split)

definition keyedBy :: "string \<Rightarrow> evaluated_binding \<Rightarrow> bool" where
  "keyedBy key b \<longleftrightarrow>
     (case nbm_peer (eb_match b) of PeerValid kind i \<Rightarrow> key \<in> set (peerLookupKeys kind i) | _ \<Rightarrow> False)"

lemma peerLookupKeys_props: "distinct (peerLookupKeys kind i)" "[] \<notin> set (peerLookupKeys kind i)"
  by (auto simp: peerLookupKeys_def)

lemma at_push_keys:
  "distinct keys \<Longrightarrow> [] \<notin> set keys \<Longrightarrow>
   at (foldl (\<lambda>mp key. pushToIndexMap mp (Some key) b) m keys) k = at m k @ (if k \<in> set keys then [b] else [])"
  by (induction keys arbitrary: m) (auto simp: at_pushToIndexMap)

lemma index_snoc:
  "buildEvaluatedBindingsIndex (bs @ [b]) = addToIndex (buildEvaluatedBindingsIndex bs) b"
  by (simp add: buildEvaluatedBindingsIndex_def)

lemmas index_step = index_snoc addToIndex_def bindingTier_def Let_def

lemma index_byPeer: "at (bx_byPeer (buildEvaluatedBindingsIndex bs)) k = filter (keyedBy k) bs"
proof (induction bs rule: rev_induct)
  case (snoc b bs)
  then show ?case
    by (cases "nbm_peer (eb_match b)")
       (auto simp: index_step keyedBy_def at_push_keys peerLookupKeys_props)
qed (simp add: buildEvaluatedBindingsIndex_def emptyIndex_def)

lemma index_byPeerWildcard:
  "bx_byPeerWildcard (buildEvaluatedBindingsIndex bs) = filter (\<lambda>b. bindingTier (eb_match b) = TierWildcard) bs"
proof (induction bs rule: rev_induct)
  case (snoc b bs)
  then show ?case by (cases "nbm_peer (eb_match b)") (auto simp: index_step)
qed (simp add: buildEvaluatedBindingsIndex_def emptyIndex_def)

lemma index_byGuildWithRoles:
  "g \<noteq> [] \<Longrightarrow> at (bx_byGuildWithRoles (buildEvaluatedBindingsIndex bs)) g =
     filter (\<lambda>b. bindingTier (eb_match b) = TierGuildRoles \<and> nbm_guildId (eb_match b) = Some g) bs"
proof (induction bs rule: rev_induct)
  case (snoc b bs)
  then show ?case
    by (cases "nbm_peer (eb_match b)") (auto simp: index_step at_pushToIndexMap)
qed (simp add: buildEvaluatedBindingsIndex_def emptyIndex_def)

lemma index_byGuild:
  "g \<noteq> [] \<Longrightarrow> at (bx_byGuild (buildEvaluatedBindingsIndex bs)) g =
     filter (\<lambda>b. bindingTier (eb_match b) = TierGuild \<and> nbm_guildId (eb_match b) = Some g) bs"
proof (induction bs rule: rev_induct)
  case (snoc b bs)
  then show ?case
    by (cases "nbm_peer (eb_match b)") (auto simp: index_step at_pushToIndexMap)
qed (simp add: buildEvaluatedBindingsIndex_def emptyIndex_def)

lemma index_byTeam:
  "g \<noteq> [] \<Longrightarrow> at (bx_byTeam (buildEvaluatedBindingsIndex bs)) g =
     filter (\<lambda>b. bindingTier (eb_match b) = TierTeam \<and> nbm_teamId (eb_match b) = Some g) bs"
proof (induction bs rule: rev_induct)
  case (snoc b bs)
  then show ?case
    by (cases "nbm_peer (eb_match b)") (auto simp: index_step at_pushToIndexMap)
qed (simp add: buildEvaluatedBindingsIndex_def emptyIndex_def)

lemma index_byAccount:
  "bx_byAccount (buildEvaluatedBindingsIndex bs) = filter (\<lambda>b. bindingTier (eb_match b) = TierAccount) bs"
proof (induction bs rule: rev_induct)
  case (snoc b bs)
  then show ?case by (cases "nbm_peer (eb_match b)") (auto simp: index_step)
qed (simp add: buildEvaluatedBindingsIndex_def emptyIndex_def)

lemma index_byChannel:
  "bx_byChannel (buildEvaluatedBindingsIndex bs) = filter (\<lambda>b. bindingTier (eb_match b) = TierChannel) bs"
proof (induction bs rule: rev_induct)
  case (snoc b bs)
  then show ?case by (cases "nbm_peer (eb_match b)") (auto simp: index_step)
qed (simp add: buildEvaluatedBindingsIndex_def emptyIndex_def)

lemmas index_views = index_byPeer index_byPeerWildcard index_byGuildWithRoles index_byGuild
  index_byTeam index_byAccount index_byChannel

subsection \<open>Tiers\<close>

lemma find_filter: "find P (filter Q xs) = find (\<lambda>x. Q x \<and> P x) xs"
  by (induction xs) auto

lemma find_append: "find P (xs @ ys) = (case find P xs of Some x \<Rightarrow> Some x | None \<Rightarrow> find P ys)"
  by (induction xs) auto

lemma find_js_set_add:
  "find P (js_set_add s x) = (case find P s of Some y \<Rightarrow> Some y | None \<Rightarrow> if P x then Some x else None)"
proof (cases "find P s")
  case None
  then have "\<forall>y \<in> set s. \<not> P y" by (auto simp: find_None_iff)
  with None show ?thesis by (auto simp: js_set_add_def find_append)
qed (simp add: js_set_add_def find_append)

lemma find_foldl_js_set_add:
  "find P (foldl js_set_add s xs) = (case find P s of Some y \<Rightarrow> Some y | None \<Rightarrow> find P xs)"
  by (induction xs arbitrary: s) (auto simp: find_js_set_add split: option.split)

lemma find_js_set_of: "find P (js_set_of xs) = find P xs"
  by (simp add: js_set_of_def find_foldl_js_set_add)

lemma find_cong_on: "(\<And>x. x \<in> set xs \<Longrightarrow> P x = Q x) \<Longrightarrow> find P xs = find Q xs"
  by (induction xs) auto

lemma peer_keys_meet:
  "key \<in> set (peerLookupKeys kind i) \<Longrightarrow>
   key \<in> set (peerLookupKeys kind' i') \<longleftrightarrow> peerKindMatches kind' kind \<and> i' = i"
  by (cases kind; cases kind') (auto simp: peerLookupKeys_def)

lemma keyedBy_peer:
  "key \<in> set (peerLookupKeys (rp_kind p) (rp_id p)) \<Longrightarrow>
   keyedBy key b \<longleftrightarrow> (\<exists>kind. nbm_peer (eb_match b) = PeerValid kind (rp_id p) \<and> peerKindMatches kind (rp_kind p))"
  using peer_keys_meet [of key "rp_kind p" "rp_id p"]
  by (cases "nbm_peer (eb_match b)") (auto simp: keyedBy_def simp del: peerKindMatches.simps)

lemma find_collectPeer:
  "find P (collectPeerIndexedBindings (buildEvaluatedBindingsIndex bs) (Some p)) =
   find (\<lambda>b. (\<exists>kind. nbm_peer (eb_match b) = PeerValid kind (rp_id p) \<and> peerKindMatches kind (rp_kind p)) \<and> P b) bs"
proof -
  let ?K = "\<lambda>b. \<exists>kind. nbm_peer (eb_match b) = PeerValid kind (rp_id p) \<and> peerKindMatches kind (rp_kind p)"
  have "filter (keyedBy key) bs = filter ?K bs"
    if "key \<in> set (peerLookupKeys (rp_kind p) (rp_id p))" for key
    by (rule filter_cong) (simp_all only: keyedBy_peer [OF that])
  then have views: "map (\<lambda>key. at (bx_byPeer (buildEvaluatedBindingsIndex bs)) key) (peerLookupKeys (rp_kind p) (rp_id p))
      = map (\<lambda>_. filter ?K bs) (peerLookupKeys (rp_kind p) (rp_id p))"
    by (simp add: index_byPeer)
  have rep: "find P (concat (map (\<lambda>_. xs) ys)) = find P xs" if "ys \<noteq> []" for xs :: "evaluated_binding list" and ys :: "string list"
    using that
  proof (induction ys)
    case (Cons y ys)
    then show ?case by (cases "ys = []"; cases "find P xs") (auto simp: find_append)
  qed simp
  have ne: "peerLookupKeys (rp_kind p) (rp_id p) \<noteq> []" by (simp add: peerLookupKeys_def)
  show ?thesis
    unfolding collectPeerIndexedBindings_def option.case find_js_set_of views rep [OF ne] find_filter ..
qed


definition trimmed_input :: "normalized_input \<Rightarrow> bool" where
  "trimmed_input n \<longleftrightarrow> js_trim (ni_guildId n) = ni_guildId n \<and> js_trim (ni_teamId n) = ni_teamId n"

lemma trimmed_normalizeInput: "trimmed_input (normalizeInput h input)"
  by (cases "ri_guildId input"; cases "ri_teamId input")
     (simp_all add: trimmed_input_def normalizeInput_def normalizeId_def normalizeRouteBindingId_def)

lemma scope_guild:
  assumes "matchesBindingScope m (tierScope n sp)" "trimmed_input n" "wf_match m" "nbm_guildId m = Some g"
  shows "g = ni_guildId n"
proof -
  have "scopeIdMatches (Some g) (ni_guildId n) []"
    using assms(1,2,4)
    by (auto simp: matchesBindingScope_def routeBindingScopeMatches_def tierScope_def Let_def
        normalizeRouteBindingId_def trimmed_input_def split: peer_constraint.splits option.splits if_splits)
  with assms(3,4) show ?thesis by (auto simp: scopeIdMatches_def wf_match_def)
qed

lemma scope_team:
  assumes "matchesBindingScope m (tierScope n sp)" "trimmed_input n" "wf_match m" "nbm_teamId m = Some g"
  shows "g = ni_teamId n"
proof -
  have "scopeIdMatches (Some g) (ni_teamId n) []"
    using assms(1,2,4)
    by (auto simp: matchesBindingScope_def routeBindingScopeMatches_def tierScope_def Let_def
        normalizeRouteBindingId_def trimmed_input_def split: peer_constraint.splits option.splits if_splits)
  with assms(3,4) show ?thesis by (auto simp: scopeIdMatches_def wf_match_def)
qed

lemma tier_facts:
  "bindingTier m = TierPeer \<longleftrightarrow> (\<exists>k i. nbm_peer m = PeerValid k i)"
  "bindingTier m = TierWildcard \<longleftrightarrow> (\<exists>k. nbm_peer m = PeerWildcardKind k)"
  "bindingTier m = TierGuildRoles \<Longrightarrow> nbm_guildId m \<noteq> None \<and> nbm_roles m \<noteq> None"
  "bindingTier m = TierGuild \<Longrightarrow> nbm_guildId m \<noteq> None \<and> nbm_roles m = None"
  "bindingTier m = TierTeam \<Longrightarrow> nbm_teamId m \<noteq> None"
  "bindingTier m = TierAccount \<Longrightarrow> nbm_accountPattern m \<noteq> ''*''"
  "bindingTier m = TierChannel \<Longrightarrow> nbm_accountPattern m = ''*''"
  by (auto simp: bindingTier_def split: peer_constraint.splits if_splits)

lemma peer_tier:
  "find (\<lambda>c. (case nbm_peer (eb_match c) of PeerValid _ _ \<Rightarrow> True | _ \<Rightarrow> False)
        \<and> matchesBindingScope (eb_match c) (tierScope n (Some p)))
      (collectPeerIndexedBindings (buildEvaluatedBindingsIndex bs) (Some p))
   = find (\<lambda>b. bindingTier (eb_match b) = TierPeer \<and> matchesBindingScope (eb_match b) (tierScope n (Some p))) bs"
  unfolding find_collectPeer
  by (rule find_cong_on)
     (auto simp: tier_facts matchesBindingScope_def tierScope_def Let_def simp del: peerKindMatches.simps
       split: peer_constraint.splits)

text \<open>A tier implements its specification when it carries the same label and guard and, if
  enabled, its candidates yield what the scan yields.\<close>

definition implements_tier ::
  "normalized_input \<Rightarrow> evaluated_binding list \<Rightarrow> route_tier
    \<Rightarrow> matched_by \<times> bool \<times> route_peer option \<times> binding_tier \<Rightarrow> bool" where
  "implements_tier n bs tier spec =
     (case spec of (by, enabled, scopePeer, t) \<Rightarrow>
        tr_matchedBy tier = by \<and> tr_enabled tier = enabled
        \<and> (enabled \<longrightarrow>
            find (\<lambda>c. tr_predicate tier (eb_match c)
                \<and> matchesBindingScope (eb_match c) (tierScope n (tr_scopePeer tier))) (tr_candidates tier)
            = find (\<lambda>b. bindingTier (eb_match b) = t
                \<and> matchesBindingScope (eb_match b) (tierScope n scopePeer)) bs))"

lemma matchTiers_firstMatch:
  "list_all2 (implements_tier n bs) tiers specs \<Longrightarrow> matchTiers n tiers = firstMatch n bs specs"
  by (induction rule: list_all2_induct) (auto simp: implements_tier_def split: option.split)

text \<open>Matching over the index is the linear scan, tier by tier.\<close>

lemma matchTiers_eq:
  assumes n: "trimmed_input n" and wf: "\<And>b. b \<in> set bs \<Longrightarrow> wf_match (eb_match b)"
  shows "matchTiers n (routeTiers (buildEvaluatedBindingsIndex bs) n) = firstMatch n bs (tierOrder n)"
proof -
  let ?ix = "buildEvaluatedBindingsIndex bs" and ?S = "\<lambda>sp c. matchesBindingScope (eb_match c) (tierScope n sp)"
  have guildRoles: "find (\<lambda>c. (nbm_guildId (eb_match c) \<noteq> None \<and> nbm_roles (eb_match c) \<noteq> None) \<and> ?S sp c)
      (at (bx_byGuildWithRoles ?ix) (ni_guildId n))
    = find (\<lambda>b. bindingTier (eb_match b) = TierGuildRoles \<and> ?S sp b) bs" if "ni_guildId n \<noteq> []" for sp
    unfolding index_byGuildWithRoles [OF that] find_filter
    by (rule find_cong_on) (use n wf in \<open>auto dest: tier_facts(3) scope_guild\<close>)
  have guild: "find (\<lambda>c. (nbm_guildId (eb_match c) \<noteq> None \<and> nbm_roles (eb_match c) = None) \<and> ?S sp c)
      (at (bx_byGuild ?ix) (ni_guildId n))
    = find (\<lambda>b. bindingTier (eb_match b) = TierGuild \<and> ?S sp b) bs" if "ni_guildId n \<noteq> []" for sp
    unfolding index_byGuild [OF that] find_filter
    by (rule find_cong_on) (use n wf in \<open>auto dest: tier_facts(4) scope_guild\<close>)
  have team: "find (\<lambda>c. nbm_teamId (eb_match c) \<noteq> None \<and> ?S sp c) (at (bx_byTeam ?ix) (ni_teamId n))
    = find (\<lambda>b. bindingTier (eb_match b) = TierTeam \<and> ?S sp b) bs" if "ni_teamId n \<noteq> []" for sp
    unfolding index_byTeam [OF that] find_filter
    by (rule find_cong_on) (use n wf in \<open>auto dest: tier_facts(5) scope_team\<close>)
  have wild: "find (\<lambda>c. (case nbm_peer (eb_match c) of PeerWildcardKind _ \<Rightarrow> True | _ \<Rightarrow> False) \<and> ?S sp c)
      (bx_byPeerWildcard ?ix)
    = find (\<lambda>b. bindingTier (eb_match b) = TierWildcard \<and> ?S sp b) bs" for sp
    unfolding index_byPeerWildcard find_filter
    by (rule find_cong_on) (auto simp: tier_facts(2) split: peer_constraint.splits)
  have account: "find (\<lambda>c. nbm_accountPattern (eb_match c) \<noteq> ''*'' \<and> ?S sp c) (bx_byAccount ?ix)
    = find (\<lambda>b. bindingTier (eb_match b) = TierAccount \<and> ?S sp b) bs" for sp
    unfolding index_byAccount find_filter by (rule find_cong_on) (auto dest: tier_facts(6))
  have channel: "find (\<lambda>c. nbm_accountPattern (eb_match c) = ''*'' \<and> ?S sp c) (bx_byChannel ?ix)
    = find (\<lambda>b. bindingTier (eb_match b) = TierChannel \<and> ?S sp b) bs" for sp
    unfolding index_byChannel find_filter by (rule find_cong_on) (auto dest: tier_facts(7))
  have parent: "ni_parentPeer n = Some p" if "parentScope n = Some p" for p
    using that by (auto simp: parentScope_def split: option.splits if_splits)
  have conv: "(case ni_parentPeer n of None \<Rightarrow> None | Some p \<Rightarrow> if rp_id p \<noteq> [] then Some p else None) = parentScope n"
    by (simp add: parentScope_def split: option.split)
  have peer: "find (\<lambda>c. (case nbm_peer (eb_match c) of PeerValid _ _ \<Rightarrow> True | _ \<Rightarrow> False) \<and> ?S sp c)
      (collectPeerIndexedBindings ?ix sp)
    = find (\<lambda>b. bindingTier (eb_match b) = TierPeer \<and> ?S sp b) bs" if "sp \<noteq> None" for sp
    using that peer_tier [of n _ bs] by auto
  have parentPeer: "collectPeerIndexedBindings ?ix (ni_parentPeer n) = collectPeerIndexedBindings ?ix (parentScope n)"
    if "parentScope n \<noteq> None" using that parent by auto
  show ?thesis
    unfolding routeTiers_def Let_def conv tierOrder_def
    by (rule matchTiers_firstMatch)
       (simp only: list.rel_inject list.rel_intros implements_tier_def case_prod_conv route_tier.simps
          if_True if_False wild guildRoles guild team account channel peer parentPeer simp_thms
          list_all2_Cons list_all2_Nil cong: imp_cong)
qed

subsection \<open>Caches\<close>

text \<open>The specification of route resolution: agents, bindings and session settings of the
  configuration, a linear scan, no cache.\<close>

definition agentSpec :: "agents_config option \<Rightarrow> string \<Rightarrow> route_error + string" where
  "agentSpec agents agentId =
     (case resolveDefaultAgentId agents of
        Inl e \<Rightarrow> Inl e
      | Inr d \<Rightarrow>
        let trimmed = js_trim agentId; known = buildAgentsById agents in
        Inr (if trimmed = [] then sanitizeAgentId (Some d)
             else if known = [] then sanitizeAgentId (Some trimmed)
             else js_or (nullish (map_of known (normalizeAgentId (Some trimmed))) []) (sanitizeAgentId (Some d))))"

definition routeFor ::
  "config_heap \<Rightarrow> nat option \<Rightarrow> nat option \<Rightarrow> normalized_input \<Rightarrow> string \<Rightarrow> matched_by \<Rightarrow> dm_scope option
    \<Rightarrow> route_error + resolved_agent_route" where
  "routeFor h agentsRef sessionRef n agentId matchedBy override =
     (case agentSpec (agentsAt h agentsRef) agentId of
        Inl e \<Rightarrow> Inl e
      | Inr resolved \<Rightarrow> Inr (buildRoute h sessionRef n resolved matchedBy override))"

definition routeSpec ::
  "config_heap \<Rightarrow> nat option \<Rightarrow> nat option \<Rightarrow> nat option \<Rightarrow> normalized_input \<Rightarrow> route_error + resolved_agent_route" where
  "routeSpec h agentsRef bindingsRef sessionRef n =
     (case firstMatch n (filter (concerns (ni_channel n) (ni_accountId n))
             (evaluatedBindings (bindingsAt h bindingsRef))) (tierOrder n) of
        Some (matched, matchedBy) \<Rightarrow>
          routeFor h agentsRef sessionRef n (ab_agentId (eb_binding matched)) matchedBy
            (nullish (ab_session (eb_binding matched)) None)
      | None \<Rightarrow>
        case resolveDefaultAgentId (agentsAt h agentsRef) of
          Inl e \<Rightarrow> Inl e
        | Inr d \<Rightarrow> routeFor h agentsRef sessionRef n d ByDefault None)"

subsection \<open>Invariant of the caches\<close>

definition lookup_ok :: "config_heap \<Rightarrow> agent_lookup_cache \<Rightarrow> bool" where
  "lookup_ok h c \<longleftrightarrow>
     (\<exists>d. resolveDefaultAgentId (agentsAt h (al_agentsRef c)) = Inr d
        \<and> al_byNormalizedId c = buildAgentsById (agentsAt h (al_agentsRef c))
        \<and> al_fallbackDefaultAgentId c = sanitizeAgentId (Some d))"

definition bindingsFor :: "config_heap \<Rightarrow> nat option \<Rightarrow> string \<Rightarrow> string \<Rightarrow> evaluated_binding list" where
  "bindingsFor h r channel accountId =
     filter (concerns channel accountId) (evaluatedBindings (bindingsAt h r))"

definition evaluated_ok :: "config_heap \<Rightarrow> evaluated_bindings_cache \<Rightarrow> bool" where
  "evaluated_ok h c \<longleftrightarrow>
     ec_byChannel c = buildEvaluatedBindingsByChannel (bindingsAt h (ec_bindingsRef c))
     \<and> (\<forall>ch acc v. canonical_id acc \<longrightarrow> map_of (ec_byChannelAccount c) (channelAccountKey ch acc) = Some v
          \<longrightarrow> v = bindingsFor h (ec_bindingsRef c) ch acc)
     \<and> (\<forall>ch acc v. canonical_id acc \<longrightarrow> map_of (ec_byChannelAccountIndex c) (channelAccountKey ch acc) = Some v
          \<longrightarrow> v = buildEvaluatedBindingsIndex (bindingsFor h (ec_bindingsRef c) ch acc))"

text \<open>The messages seen so far, with the sections of the configuration they were resolved on
  (agents, bindings, session).\<close>

type_synonym seen_messages = "nat option \<Rightarrow> nat option \<Rightarrow> nat option \<Rightarrow> normalized_input \<Rightarrow> bool"

text \<open>Every remembered route is the specified one of a message seen before with the same key.\<close>

definition routes_ok :: "config_heap \<Rightarrow> seen_messages \<Rightarrow> route_cache \<Rightarrow> bool" where
  "routes_ok h Q c \<longleftrightarrow>
     (\<forall>k r. map_of (rc_byKey c) k = Some r \<longrightarrow>
        (\<exists>n. Q (rc_agentsRef c) (rc_bindingsRef c) (rc_sessionRef c) n \<and> buildResolvedRouteCacheKey n = k
           \<and> routeSpec h (rc_agentsRef c) (rc_bindingsRef c) (rc_sessionRef c) n = Inr r))"

definition caches_ok :: "config_heap \<Rightarrow> seen_messages \<Rightarrow> route_state \<Rightarrow> bool" where
  "caches_ok h Q st \<longleftrightarrow>
     (\<forall>obj c. map_of (rs_agentLookup st) obj = Some c \<longrightarrow> lookup_ok h c)
     \<and> (\<forall>obj c. map_of (rs_evaluated st) obj = Some c \<longrightarrow> evaluated_ok h c)
     \<and> (\<forall>obj c. map_of (rs_resolved st) obj = Some c \<longrightarrow> routes_ok h Q c)"

lemma caches_ok_initial: "caches_ok h Q initialRouteState"
  by (simp add: caches_ok_def initialRouteState_def)

lemma caches_ok_mono:
  "caches_ok h Q st \<Longrightarrow> (\<And>a b s n. Q a b s n \<Longrightarrow> Q' a b s n) \<Longrightarrow> caches_ok h Q' st"
  unfolding caches_ok_def routes_ok_def by meson

lemma caches_okD:
  assumes "caches_ok h Q st"
  shows "map_of (rs_agentLookup st) obj = Some c \<Longrightarrow> lookup_ok h c"
    and "map_of (rs_evaluated st) obj = Some e \<Longrightarrow> evaluated_ok h e"
    and "map_of (rs_resolved st) obj = Some r \<Longrightarrow> routes_ok h Q r"
  using assms by (auto simp: caches_ok_def)

lemma caches_ok_put:
  assumes "caches_ok h Q st"
  shows "lookup_ok h c \<Longrightarrow> caches_ok h Q (st\<lparr>rs_agentLookup := AList.update obj c (rs_agentLookup st)\<rparr>)"
    and "evaluated_ok h e \<Longrightarrow> caches_ok h Q (st\<lparr>rs_evaluated := AList.update obj e (rs_evaluated st)\<rparr>)"
    and "routes_ok h Q r \<Longrightarrow> caches_ok h Q (st\<lparr>rs_resolved := AList.update obj r (rs_resolved st)\<rparr>)"
  using assms by (auto simp: caches_ok_def update_conv')

subsection \<open>Agent lookup\<close>

lemma pickFirstExistingAgentId_ok:
  assumes "caches_ok h Q st" "pickFirstExistingAgentId h cfg agentId st = (r, st')"
  shows "r = agentSpec (agentsAt h (cfg_agents cfg)) agentId \<and> caches_ok h Q st'
    \<and> rs_resolved st' = rs_resolved st"
proof -
  obtain l st1 where l: "resolveAgentLookupCache h cfg st = (l, st1)" by (cases "resolveAgentLookupCache h cfg st")
  have st1: "caches_ok h Q st1 \<and> rs_resolved st1 = rs_resolved st
      \<and> (case l of Inl e \<Rightarrow> resolveDefaultAgentId (agentsAt h (cfg_agents cfg)) = Inl e
         | Inr c \<Rightarrow> lookup_ok h c \<and> al_agentsRef c = cfg_agents cfg)"
    using l caches_okD(1) [OF assms(1)] caches_ok_put(1) [OF assms(1)] assms(1)
    by (auto simp: resolveAgentLookupCache_def Let_def lookup_ok_def
        split: option.splits if_splits sum.splits)
  show ?thesis
  proof (cases l)
    case (Inl e)
    with assms(2) l st1 show ?thesis by (auto simp: pickFirstExistingAgentId_def agentSpec_def)
  next
    case (Inr c)
    with assms(2) l st1 show ?thesis
      by (auto simp: pickFirstExistingAgentId_def agentSpec_def lookup_ok_def pickFromLookup_def Let_def js_or_def)
  qed
qed

subsection \<open>Evaluated bindings\<close>

lemma last_split:
  "xs @ x # ys = xs' @ x # ys' \<Longrightarrow> x \<notin> set ys \<Longrightarrow> x \<notin> set ys' \<Longrightarrow> xs = xs' \<and> ys = ys'"
  by (induction xs arbitrary: xs') (auto simp: Cons_eq_append_conv append_eq_Cons_conv)

lemma channelAccountKey_inj:
  assumes "channelAccountKey ch acc = channelAccountKey ch' acc'" "canonical_id acc" "canonical_id acc'"
  shows "ch = ch' \<and> acc = acc'"
proof -
  have tab: "\<not> id_char (CHR 0x09)" by code_simp
  then have "CHR 0x09 \<notin> set acc" "CHR 0x09 \<notin> set acc'"
    using assms(2,3) by (auto simp: canonical_id_def list_all_iff)
  with assms(1) show ?thesis unfolding channelAccountKey_def by (intro last_split) simp_all
qed

lemma evaluated_ok_fresh:
  "evaluated_ok h \<lparr>ec_bindingsRef = r, ec_byChannel = buildEvaluatedBindingsByChannel (bindingsAt h r),
     ec_byChannelAccount = [], ec_byChannelAccountIndex = []\<rparr>"
  by (simp add: evaluated_ok_def)

lemma evaluated_ok_put:
  assumes "evaluated_ok h c" "canonical_id acc" "v = bindingsFor h (ec_bindingsRef c) ch acc"
    and "\<And>k w. map_of m k = Some w \<Longrightarrow> (k = channelAccountKey ch acc \<and> w = v) \<or> map_of (ec_byChannelAccount c) k = Some w"
    and "\<And>k w. map_of mi k = Some w \<Longrightarrow>
      (k = channelAccountKey ch acc \<and> w = buildEvaluatedBindingsIndex v) \<or> map_of (ec_byChannelAccountIndex c) k = Some w"
  shows "evaluated_ok h (c\<lparr>ec_byChannelAccount := m, ec_byChannelAccountIndex := mi\<rparr>)"
  unfolding evaluated_ok_def
proof (intro conjI allI impI)
  fix ch' acc' w
  assume acc': "canonical_id acc'"
  let ?c = "c\<lparr>ec_byChannelAccount := m, ec_byChannelAccountIndex := mi\<rparr>"
  show "w = bindingsFor h (ec_bindingsRef ?c) ch' acc'"
    if "map_of (ec_byChannelAccount ?c) (channelAccountKey ch' acc') = Some w"
  proof -
    from that have "map_of m (channelAccountKey ch' acc') = Some w" by simp
    from assms(4) [OF this] show ?thesis
      using assms(1-3) acc' channelAccountKey_inj [OF _ acc' assms(2)]
      by (auto simp: evaluated_ok_def)
  qed
next
  fix ch' acc' w
  assume acc': "canonical_id acc'"
  let ?c = "c\<lparr>ec_byChannelAccount := m, ec_byChannelAccountIndex := mi\<rparr>"
  show "w = buildEvaluatedBindingsIndex (bindingsFor h (ec_bindingsRef ?c) ch' acc')"
    if "map_of (ec_byChannelAccountIndex ?c) (channelAccountKey ch' acc') = Some w"
  proof -
    from that have "map_of mi (channelAccountKey ch' acc') = Some w" by simp
    from assms(5) [OF this] show ?thesis
      using assms(1-3) acc' channelAccountKey_inj [OF _ acc' assms(2)]
      by (auto simp: evaluated_ok_def)
  qed
qed (use assms(1) in \<open>simp add: evaluated_ok_def\<close>)


lemma getEvaluatedBindings_ok:
  assumes "caches_ok h Q st" "canonical_id acc"
    and "getEvaluatedBindingsForChannelAccount h cfg ch acc st = (v, st')"
  shows "v = bindingsFor h (cfg_bindings cfg) ch acc \<and> caches_ok h Q st' \<and> rs_resolved st' = rs_resolved st
    \<and> (\<exists>c. map_of (rs_evaluated st') (cfg_object cfg) = Some c \<and> evaluated_ok h c
        \<and> ec_bindingsRef c = cfg_bindings cfg)"
proof -
  let ?r = "cfg_bindings cfg" and ?key = "channelAccountKey ch acc"
  define cache where "cache = (case map_of (rs_evaluated st) (cfg_object cfg) of
       Some existing \<Rightarrow> if ec_bindingsRef existing = ?r then existing
         else \<lparr>ec_bindingsRef = ?r, ec_byChannel = buildEvaluatedBindingsByChannel (bindingsAt h ?r),
               ec_byChannelAccount = [], ec_byChannelAccountIndex = []\<rparr>
     | None \<Rightarrow> \<lparr>ec_bindingsRef = ?r, ec_byChannel = buildEvaluatedBindingsByChannel (bindingsAt h ?r),
               ec_byChannelAccount = [], ec_byChannelAccountIndex = []\<rparr>)"
  have ok: "evaluated_ok h cache" and r: "ec_bindingsRef cache = ?r"
    using caches_okD(2) [OF assms(1)] evaluated_ok_fresh [of h ?r]
    by (auto simp: cache_def split: option.split)
  define ev where "ev = evaluatedFor (ec_byChannel cache) ch acc"
  have ev: "ev = bindingsFor h ?r ch acc"
    using ok r by (simp add: ev_def evaluated_ok_def evaluatedFor_eq bindingsFor_def)
  define cache' where "cache' =
     (if MAX_EVALUATED_BINDINGS_CACHE_KEYS < length (AList.update ?key ev (ec_byChannelAccount cache))
      then cache\<lparr>ec_byChannelAccount := [(?key, ev)],
                 ec_byChannelAccountIndex := [(?key, buildEvaluatedBindingsIndex ev)]\<rparr>
      else cache\<lparr>ec_byChannelAccount := AList.update ?key ev (ec_byChannelAccount cache),
                 ec_byChannelAccountIndex := AList.update ?key (buildEvaluatedBindingsIndex ev)
                   (ec_byChannelAccountIndex cache)\<rparr>)"
  have ev': "ev = bindingsFor h (ec_bindingsRef cache) ch acc" using ev r by simp
  have ok': "evaluated_ok h cache'" and r': "ec_bindingsRef cache' = ?r"
    using r unfolding cache'_def
    by (auto intro!: evaluated_ok_put [OF ok assms(2) ev'] split: if_splits dest: update_entries)
  have eq: "getEvaluatedBindingsForChannelAccount h cfg ch acc st =
      (case map_of (ec_byChannelAccount cache) ?key of
         Some hit \<Rightarrow> (hit, st\<lparr>rs_evaluated := AList.update (cfg_object cfg) cache (rs_evaluated st)\<rparr>)
       | None \<Rightarrow> (ev, st\<lparr>rs_evaluated := AList.update (cfg_object cfg) cache' (rs_evaluated st)\<rparr>))"
    by (simp only: getEvaluatedBindingsForChannelAccount_def cache'_def ev_def cache_def Let_def)
  show ?thesis
  proof (cases "map_of (ec_byChannelAccount cache) ?key")
    case None
    with assms(3) eq ev ok' r' caches_ok_put(2) [OF assms(1) ok'] show ?thesis
      by (auto simp: update_conv')
  next
    case (Some hit)
    with ok assms(2) r have "hit = bindingsFor h ?r ch acc" by (auto simp: evaluated_ok_def)
    with Some assms(3) eq ok r caches_ok_put(2) [OF assms(1) ok] show ?thesis
      by (auto simp: update_conv')
  qed
qed

lemma getEvaluatedIndex_ok:
  assumes "caches_ok h Q st" "canonical_id acc"
    and "getEvaluatedBindingIndexForChannelAccount h cfg ch acc st = (v, st')"
  shows "v = buildEvaluatedBindingsIndex (bindingsFor h (cfg_bindings cfg) ch acc) \<and> caches_ok h Q st'
    \<and> rs_resolved st' = rs_resolved st"
proof -
  let ?b = "bindingsFor h (cfg_bindings cfg) ch acc" and ?key = "channelAccountKey ch acc"
  obtain bs st1 where 1: "getEvaluatedBindingsForChannelAccount h cfg ch acc st = (bs, st1)"
    by (cases "getEvaluatedBindingsForChannelAccount h cfg ch acc st")
  from getEvaluatedBindings_ok [OF assms(1,2) 1] obtain c where
    c: "bs = ?b" "caches_ok h Q st1" "rs_resolved st1 = rs_resolved st"
      "map_of (rs_evaluated st1) (cfg_object cfg) = Some c" "evaluated_ok h c"
      "ec_bindingsRef c = cfg_bindings cfg" by blast
  show ?thesis
  proof (cases "map_of (ec_byChannelAccountIndex c) ?key")
    case (Some ix)
    with c assms(2) have "ix = buildEvaluatedBindingsIndex ?b" by (auto simp: evaluated_ok_def)
    with Some assms(3) 1 c show ?thesis
      by (auto simp: getEvaluatedBindingIndexForChannelAccount_def Let_def)
  next
    case None
    have "evaluated_ok h (c\<lparr>ec_byChannelAccount := ec_byChannelAccount c,
        ec_byChannelAccountIndex := AList.update ?key (buildEvaluatedBindingsIndex ?b) (ec_byChannelAccountIndex c)\<rparr>)"
      by (rule evaluated_ok_put [OF c(5) assms(2), of ?b ch]) (use c(6) in \<open>auto dest: update_entries\<close>)
    with caches_ok_put(2) [OF c(2)] None assms(3) 1 c show ?thesis
      by (auto simp: getEvaluatedBindingIndexForChannelAccount_def Let_def)
  qed
qed

lemma bindingsFor_wf: "b \<in> set (bindingsFor h r ch acc) \<Longrightarrow> wf_match (eb_match b)"
proof -
  have "wf_match (eb_match b)" if "b \<in> set (evaluateFrom j bs)" for b j bs
    using that by (induction j bs rule: evaluateFrom.induct) (auto simp: wf_normalizeBindingMatch split: if_splits)
  then show "b \<in> set (bindingsFor h r ch acc) \<Longrightarrow> wf_match (eb_match b)"
    by (auto simp: bindingsFor_def evaluatedBindings_def)
qed

subsection \<open>Resolved routes\<close>

definition same_route_input :: "normalized_input \<Rightarrow> normalized_input \<Rightarrow> bool" where
  "same_route_input n n' \<longleftrightarrow>
     ni_channel n = ni_channel n' \<and> ni_accountId n = ni_accountId n' \<and> ni_peer n = ni_peer n'
     \<and> parentScope n = parentScope n' \<and> ni_guildId n = ni_guildId n' \<and> ni_teamId n = ni_teamId n'
     \<and> set (ni_memberRoleIds n) = set (ni_memberRoleIds n') \<and> ni_dmScope n = ni_dmScope n'"

lemma formatRouteCachePeer_inj:
  assumes "formatRouteCachePeer p = formatRouteCachePeer q"
  shows "(case p of Some x \<Rightarrow> if rp_id x \<noteq> [] then Some x else None | None \<Rightarrow> None)
    = (case q of Some x \<Rightarrow> if rp_id x \<noteq> [] then Some x else None | None \<Rightarrow> None)"
proof -
  have eq: "x = y" if "chatTypeString (rp_kind x) @ '':'' @ rp_id x = chatTypeString (rp_kind y) @ '':'' @ rp_id y"
    for x y :: route_peer
    using that by (cases "rp_kind x"; cases "rp_kind y"; cases x; cases y) auto
  have ne: "chatTypeString k @ '':'' @ i \<noteq> ''-''" for k i by (cases k) auto
  show ?thesis
    using assms ne eq by (auto simp: formatRouteCachePeer_def eq_commute [of "''-''"]
        split: option.splits if_splits)
qed

text \<open>The key tells messages apart up to the peers it does not print: a peer with a blank id and a
  missing one.\<close>

definition peerless :: "normalized_input \<Rightarrow> bool" where
  "peerless n \<longleftrightarrow> (case ni_peer n of None \<Rightarrow> True | Some p \<Rightarrow> rp_id p = [])"

lemma cache_key_determines_input:
  assumes "buildResolvedRouteCacheKey n = buildResolvedRouteCacheKey n'"
  shows "same_route_input n n'
    \<or> (peerless n \<and> peerless n' \<and> ni_peer n \<noteq> ni_peer n'
       \<and> same_route_input (n\<lparr>ni_peer := None\<rparr>) (n'\<lparr>ni_peer := None\<rparr>))"
proof -
  have peers: "formatRouteCachePeer (ni_peer n) = formatRouteCachePeer (ni_peer n')"
    "formatRouteCachePeer (ni_parentPeer n) = formatRouteCachePeer (ni_parentPeer n')"
    "js_toSorted compareCodeUnits (ni_memberRoleIds n) = js_toSorted compareCodeUnits (ni_memberRoleIds n')"
    using assms by (simp_all add: buildResolvedRouteCacheKey_def)
  have "ni_peer n = ni_peer n' \<or> peerless n \<and> peerless n'"
    using formatRouteCachePeer_inj [OF peers(1)]
    by (auto simp: peerless_def split: option.splits if_splits)
  moreover have "parentScope n = parentScope n'"
    using formatRouteCachePeer_inj [OF peers(2)] by (simp add: parentScope_def)
  moreover have "set (ni_memberRoleIds n) = set (ni_memberRoleIds n')"
    using arg_cong [OF peers(3), of set] by simp
  ultimately show ?thesis
    using assms by (auto simp: same_route_input_def buildResolvedRouteCacheKey_def parentScope_def)
qed

lemma scope_roles_as_set:
  "set a = set b \<Longrightarrow>
   routeBindingScopeMatches c \<lparr>rsc_guildId = g, rsc_teamId = t, rsc_groupSpace = s, rsc_memberRoleIds = Some (js_set_of a)\<rparr>
   = routeBindingScopeMatches c \<lparr>rsc_guildId = g, rsc_teamId = t, rsc_groupSpace = s, rsc_memberRoleIds = Some (js_set_of b)\<rparr>"
  by (simp add: routeBindingScopeMatches_def hasAnyRouteBindingRole_def Let_def list_ex_iff split: option.split)

lemma same_scope:
  assumes "same_route_input n n'"
  shows "matchesBindingScope m (tierScope n sp) = matchesBindingScope m (tierScope n' sp)"
proof -
  from assms have "set (ni_memberRoleIds n) = set (ni_memberRoleIds n')" "ni_guildId n = ni_guildId n'"
    "ni_teamId n = ni_teamId n'" by (simp_all add: same_route_input_def)
  with scope_roles_as_set [OF this(1)] show ?thesis
    by (cases "nbm_peer m"; cases sp) (simp_all add: matchesBindingScope_def tierScope_def Let_def)
qed

lemma same_firstMatch:
  "same_route_input n n' \<Longrightarrow> firstMatch n bs tiers = firstMatch n' bs tiers"
  by (induction tiers) (auto simp: same_scope cong: option.case_cong split: option.split)

lemma same_tierOrder: "same_route_input n n' \<Longrightarrow> tierOrder n = tierOrder n'"
  by (simp add: tierOrder_def same_route_input_def) (metis set_empty)

lemma same_routeSpec:
  assumes "same_route_input n n'"
  shows "routeSpec h a b s n = routeSpec h a b s n'"
proof -
  have "buildRoute h s n = buildRoute h s n'"
    using assms by (intro ext) (simp add: buildRoute_def same_route_input_def Let_def)
  then have rf: "routeFor h a s n = routeFor h a s n'" by (intro ext) (simp add: routeFor_def split: sum.split)
  show ?thesis
    unfolding routeSpec_def rf same_firstMatch [OF assms] same_tierOrder [OF assms]
    using assms by (simp add: same_route_input_def)
qed

interpretation route_memo: bounded_memo "keepOrClear MAX_RESOLVED_ROUTE_CACHE_KEYS" MAX_RESOLVED_ROUTE_CACHE_KEYS
proof
  show "(k' = k \<and> w = v) \<or> map_of c k' = Some w"
    if "map_of (keepOrClear MAX_RESOLVED_ROUTE_CACHE_KEYS c k v) k' = Some w" for c :: "('k, 'v) js_map" and k v k' w
    using that by (auto simp: keepOrClear_def Let_def split: if_splits dest: update_entries)
  show "length (keepOrClear MAX_RESOLVED_ROUTE_CACHE_KEYS c k v) \<le> MAX_RESOLVED_ROUTE_CACHE_KEYS"
    if "length c \<le> MAX_RESOLVED_ROUTE_CACHE_KEYS" for c :: "('k, 'v) js_map" and k v
    by (simp add: keepOrClear_def Let_def MAX_RESOLVED_ROUTE_CACHE_KEYS_def)
qed


lemma routes_ok_put:
  assumes "routes_ok h Q c" "Q (rc_agentsRef c) (rc_bindingsRef c) (rc_sessionRef c) n"
    and "routeSpec h (rc_agentsRef c) (rc_bindingsRef c) (rc_sessionRef c) n = Inr r"
  shows "routes_ok h Q (c\<lparr>rc_byKey := keepOrClear MAX_RESOLVED_ROUTE_CACHE_KEYS (rc_byKey c)
           (buildResolvedRouteCacheKey n) r\<rparr>)"
  using assms route_memo.keep_entries by (fastforce simp: routes_ok_def)

text \<open>The state that a call with a cache key needs: the entry of the configuration object is there
  and was made for the references the configuration has now.\<close>

definition cache_ready :: "config \<Rightarrow> route_state \<Rightarrow> bool" where
  "cache_ready cfg st \<longleftrightarrow>
     (\<exists>c. map_of (rs_resolved st) (cfg_object cfg) = Some c \<and> rc_bindingsRef c = cfg_bindings cfg
        \<and> rc_agentsRef c = cfg_agents cfg \<and> rc_sessionRef c = cfg_session cfg)"

lemma rememberRoute_ok:
  assumes "caches_ok h Q st" "Q (cfg_agents cfg) (cfg_bindings cfg) (cfg_session cfg) n"
    and "key = None \<or> key = Some (buildResolvedRouteCacheKey n) \<and> cache_ready cfg st"
    and "routeSpec h (cfg_agents cfg) (cfg_bindings cfg) (cfg_session cfg) n = Inr r"
  shows "caches_ok h Q (rememberRoute cfg key r st)"
proof (cases key)
  case (Some k)
  with assms(3) obtain c where k: "k = buildResolvedRouteCacheKey n" and
    c: "map_of (rs_resolved st) (cfg_object cfg) = Some c" "rc_bindingsRef c = cfg_bindings cfg"
      "rc_agentsRef c = cfg_agents cfg" "rc_sessionRef c = cfg_session cfg"
    by (auto simp: cache_ready_def)
  have "routes_ok h Q (c\<lparr>rc_byKey := keepOrClear MAX_RESOLVED_ROUTE_CACHE_KEYS (rc_byKey c) k r\<rparr>)"
    unfolding k by (rule routes_ok_put [OF caches_okD(3) [OF assms(1) c(1)]]) (use assms(2,4) c in simp_all)
  from caches_ok_put(3) [OF assms(1) this] Some c(1) show ?thesis by (simp add: rememberRoute_def)
qed (use assms(1) in \<open>simp add: rememberRoute_def\<close>)

lemma chooseRoute_ok:
  assumes "caches_ok h Q st" "Q (cfg_agents cfg) (cfg_bindings cfg) (cfg_session cfg) n"
    and "key = None \<or> key = Some (buildResolvedRouteCacheKey n) \<and> cache_ready cfg st"
    and spec: "routeSpec h (cfg_agents cfg) (cfg_bindings cfg) (cfg_session cfg) n
      = routeFor h (cfg_agents cfg) (cfg_session cfg) n agentId lbl override"
    and call: "chooseRoute h cfg n key agentId lbl override st = (r, st')"
  shows "r = routeFor h (cfg_agents cfg) (cfg_session cfg) n agentId lbl override \<and> caches_ok h Q st'"
proof -
  obtain a st1 where 1: "pickFirstExistingAgentId h cfg agentId st = (a, st1)"
    by (cases "pickFirstExistingAgentId h cfg agentId st")
  note p = pickFirstExistingAgentId_ok [OF assms(1) 1]
  then have ready: "key = None \<or> key = Some (buildResolvedRouteCacheKey n) \<and> cache_ready cfg st1"
    using assms(3) by (simp add: cache_ready_def)
  show ?thesis
  proof (cases a)
    case (Inl e)
    with call 1 p show ?thesis by (auto simp: chooseRoute_def routeFor_def split: sum.splits)
  next
    case (Inr x)
    with p spec have "routeSpec h (cfg_agents cfg) (cfg_bindings cfg) (cfg_session cfg) n
        = Inr (buildRoute h (cfg_session cfg) n x lbl override)"
      by (auto simp: routeFor_def split: sum.splits)
    from rememberRoute_ok [where Q = Q, OF _ assms(2) ready this] p Inr call 1 show ?thesis
      by (auto simp: chooseRoute_def routeFor_def Let_def split: sum.splits)
  qed
qed

definition proper_input :: "normalized_input \<Rightarrow> bool" where
  "proper_input n \<longleftrightarrow> trimmed_input n \<and> canonical_id (ni_accountId n)"

lemma routeUncached_ok:
  assumes ok: "caches_ok h Q st" and n: "proper_input n"
    and seen: "Q (cfg_agents cfg) (cfg_bindings cfg) (cfg_session cfg) n"
    and key: "key = None \<or> key = Some (buildResolvedRouteCacheKey n) \<and> cache_ready cfg st"
    and call: "routeUncached h cfg n key st = (r, st')"
  shows "r = routeSpec h (cfg_agents cfg) (cfg_bindings cfg) (cfg_session cfg) n \<and> caches_ok h Q st'"
proof -
  let ?b = "bindingsFor h (cfg_bindings cfg) (ni_channel n) (ni_accountId n)"
  let ?spec = "routeSpec h (cfg_agents cfg) (cfg_bindings cfg) (cfg_session cfg) n"
  have acc: "canonical_id (ni_accountId n)" and tr: "trimmed_input n" using n by (simp_all add: proper_input_def)
  obtain bs st1 where 1: "getEvaluatedBindingsForChannelAccount h cfg (ni_channel n) (ni_accountId n) st = (bs, st1)"
    by (cases "getEvaluatedBindingsForChannelAccount h cfg (ni_channel n) (ni_accountId n) st")
  obtain ix st2 where 2: "getEvaluatedBindingIndexForChannelAccount h cfg (ni_channel n) (ni_accountId n) st1 = (ix, st2)"
    by (cases "getEvaluatedBindingIndexForChannelAccount h cfg (ni_channel n) (ni_accountId n) st1")
  note g1 = getEvaluatedBindings_ok [OF ok acc 1]
  then have ok1: "caches_ok h Q st1" and r1: "rs_resolved st1 = rs_resolved st" by auto
  from getEvaluatedIndex_ok [OF ok1 acc 2] have
    ix: "ix = buildEvaluatedBindingsIndex ?b" and ok2: "caches_ok h Q st2"
    and r2: "rs_resolved st2 = rs_resolved st" using r1 by auto
  have key2: "key = None \<or> key = Some (buildResolvedRouteCacheKey n) \<and> cache_ready cfg st2"
    using key r2 by (simp add: cache_ready_def)
  have tiers: "matchTiers n (routeTiers ix n) = firstMatch n ?b (tierOrder n)"
    unfolding ix by (rule matchTiers_eq [OF tr bindingsFor_wf])
  note spec = routeSpec_def [of h "cfg_agents cfg" "cfg_bindings cfg" "cfg_session cfg" n, folded bindingsFor_def]
  show ?thesis
  proof (cases "firstMatch n ?b (tierOrder n)")
    case (Some m)
    obtain b lbl where m: "m = (b, lbl)" by (cases m)
    have s: "?spec = routeFor h (cfg_agents cfg) (cfg_session cfg) n (ab_agentId (eb_binding b)) lbl
        (nullish (ab_session (eb_binding b)) None)"
      using Some m by (simp add: spec)
    have "chooseRoute h cfg n key (ab_agentId (eb_binding b)) lbl (nullish (ab_session (eb_binding b)) None) st2 = (r, st')"
      using call 1 2 tiers Some m by (simp add: routeUncached_def)
    from chooseRoute_ok [where Q = Q, OF ok2 seen key2 s this] s show ?thesis by simp
  next
    case None
    note call' = call [unfolded routeUncached_def 1 Let_def case_prod_conv 2 tiers None option.case]
    show ?thesis
    proof (cases "resolveDefaultAgentId (agentsAt h (cfg_agents cfg))")
      case (Inl e)
      with call' ok2 None show ?thesis by (simp add: spec)
    next
      case (Inr d)
      have s: "?spec = routeFor h (cfg_agents cfg) (cfg_session cfg) n d ByDefault None"
        using None Inr by (simp add: spec)
      from call' Inr have "chooseRoute h cfg n key d ByDefault None st2 = (r, st')" by simp
      from chooseRoute_ok [where Q = Q, OF ok2 seen key2 s this] s show ?thesis by simp
    qed
  qed
qed


lemma resolveRouteCacheForConfig_ok:
  assumes "caches_ok h Q st" "resolveRouteCacheForConfig cfg st = (byKey, st')"
  shows "caches_ok h Q st' \<and> (\<exists>c. map_of (rs_resolved st') (cfg_object cfg) = Some c \<and> rc_byKey c = byKey
    \<and> rc_bindingsRef c = cfg_bindings cfg \<and> rc_agentsRef c = cfg_agents cfg \<and> rc_sessionRef c = cfg_session cfg)"
proof -
  let ?fresh = "\<lparr>rc_bindingsRef = cfg_bindings cfg, rc_agentsRef = cfg_agents cfg,
             rc_sessionRef = cfg_session cfg, rc_byKey = []\<rparr>"
  have "routes_ok h Q ?fresh" by (simp add: routes_ok_def)
  from caches_ok_put(3) [OF assms(1) this] assms show ?thesis
    by (auto simp: resolveRouteCacheForConfig_def Let_def update_conv' split: option.splits if_splits)
qed

definition inputSpec :: "config_heap \<Rightarrow> route_input \<Rightarrow> route_error + resolved_agent_route" where
  "inputSpec h input =
     (let cfg = ri_cfg input in
      routeSpec h (cfg_agents cfg) (cfg_bindings cfg) (cfg_session cfg) (normalizeInput h input))"

lemma proper_normalizeInput: "proper_input (normalizeInput h input)"
  using trimmed_normalizeInput [of h input]
  by (simp add: proper_input_def normalizeInput_def normalizeAccountId_canonical)

lemma resolveAgentRoute_ok:
  fixes input :: route_input
  defines "cfg \<equiv> ri_cfg input"
  assumes ok: "caches_ok h Q st"
    and seen: "Q (cfg_agents cfg) (cfg_bindings cfg) (cfg_session cfg) (normalizeInput h input)"
    and call: "resolveAgentRoute verbose h input st = (r, st')"
  shows "(\<exists>n. Q (cfg_agents cfg) (cfg_bindings cfg) (cfg_session cfg) n
        \<and> buildResolvedRouteCacheKey n = buildResolvedRouteCacheKey (normalizeInput h input)
        \<and> r = routeSpec h (cfg_agents cfg) (cfg_bindings cfg) (cfg_session cfg) n) \<and> caches_ok h Q st'"
proof -
  let ?n = "normalizeInput h input"
  note n = proper_normalizeInput [of h input]
  show ?thesis
  proof (cases "\<not> verbose \<and> Option.bind (sessionAt h (cfg_session cfg)) se_identityLinks = None")
    case False
    then have "routeUncached h cfg ?n None st = (r, st')"
      using call by (auto simp: resolveAgentRoute_def cfg_def Let_def split: if_splits)
    from routeUncached_ok [where Q = Q, OF ok n seen _ this] seen show ?thesis by auto
  next
    case True
    obtain byKey st1 where c1: "resolveRouteCacheForConfig cfg st = (byKey, st1)"
      by (cases "resolveRouteCacheForConfig cfg st")
    from resolveRouteCacheForConfig_ok [OF ok c1] obtain c where
      ok1: "caches_ok h Q st1" and c: "map_of (rs_resolved st1) (cfg_object cfg) = Some c" "rc_byKey c = byKey"
        "rc_bindingsRef c = cfg_bindings cfg" "rc_agentsRef c = cfg_agents cfg" "rc_sessionRef c = cfg_session cfg"
      by blast
    show ?thesis
    proof (cases "map_of byKey (buildResolvedRouteCacheKey ?n)")
      case (Some cached)
      with call True c1 have "r = Inr cached" "st' = st1"
        by (auto simp: resolveAgentRoute_def cfg_def Let_def)
      moreover have "\<exists>n. Q (cfg_agents cfg) (cfg_bindings cfg) (cfg_session cfg) n
          \<and> buildResolvedRouteCacheKey n = buildResolvedRouteCacheKey ?n
          \<and> routeSpec h (cfg_agents cfg) (cfg_bindings cfg) (cfg_session cfg) n = Inr cached"
        using caches_okD(3) [OF ok1 c(1)] Some c(2-) unfolding routes_ok_def by metis
      ultimately show ?thesis using ok1 by metis
    next
      case None
      with call True c1 have "routeUncached h cfg ?n (Some (buildResolvedRouteCacheKey ?n)) st1 = (r, st')"
        by (auto simp: resolveAgentRoute_def cfg_def Let_def)
      from routeUncached_ok [where Q = Q, OF ok1 n seen _ this] c seen show ?thesis
        by (auto simp: cache_ready_def)
    qed
  qed
qed

fun routeCalls ::
  "config_heap \<Rightarrow> (bool \<times> route_input) list \<Rightarrow> route_state \<Rightarrow> (route_error + resolved_agent_route) list" where
  "routeCalls h [] st = []"
| "routeCalls h ((verbose, input) # calls) st =
     (let (r, st') = resolveAgentRoute verbose h input st in r # routeCalls h calls st')"

text \<open>The messages of a sequence of calls.\<close>

definition seen_in :: "config_heap \<Rightarrow> (bool \<times> route_input) list \<Rightarrow> seen_messages" where
  "seen_in h calls a b s n \<longleftrightarrow>
     (\<exists>(verbose, input) \<in> set calls. cfg_agents (ri_cfg input) = a \<and> cfg_bindings (ri_cfg input) = b
        \<and> cfg_session (ri_cfg input) = s \<and> normalizeInput h input = n)"

lemma length_routeCalls: "length (routeCalls h calls st) = length calls"
  by (induction h calls st rule: routeCalls.induct) (auto split: prod.split)

lemma routeCalls_nth:
  assumes "caches_ok h (seen_in h pre) st" "i < length calls" "ri_cfg (snd (calls ! i)) = cfg"
  shows "\<exists>n. seen_in h (pre @ take (Suc i) calls) (cfg_agents cfg) (cfg_bindings cfg) (cfg_session cfg) n
     \<and> buildResolvedRouteCacheKey n = buildResolvedRouteCacheKey (normalizeInput h (snd (calls ! i)))
     \<and> routeCalls h calls st ! i = routeSpec h (cfg_agents cfg) (cfg_bindings cfg) (cfg_session cfg) n"
  using assms
proof (induction h calls st arbitrary: pre i rule: routeCalls.induct)
  case (2 h verbose input calls st)
  let ?pre = "pre @ [(verbose, input)]"
  obtain r st' where c: "resolveAgentRoute verbose h input st = (r, st')"
    by (cases "resolveAgentRoute verbose h input st")
  have ok: "caches_ok h (seen_in h ?pre) st"
    by (rule caches_ok_mono [OF 2(2)]) (auto simp: seen_in_def)
  have "seen_in h ?pre (cfg_agents (ri_cfg input)) (cfg_bindings (ri_cfg input)) (cfg_session (ri_cfg input))
      (normalizeInput h input)" by (simp add: seen_in_def)
  note step = resolveAgentRoute_ok [OF ok this c]
  show ?case
  proof (cases i)
    case 0
    with step c 2(4) show ?thesis by auto
  next
    case (Suc i')
    with 2(1) [of "(r, st')" r st' ?pre i'] step c 2(3,4) show ?thesis by simp
  qed
qed simp

text \<open>Two messages the route cache does not tell apart: neither has a peer with a non-blank id,
  one of them may have a peer with a blank id and the other another one or none, and nothing else
  that matters differs.\<close>

definition without_peer_id :: "route_input \<Rightarrow> bool" where
  "without_peer_id input \<longleftrightarrow> (case ri_peer input of None \<Rightarrow> True | Some p \<Rightarrow> js_trim (rp_id p) = [])"

definition blank_peer_twins :: "config_heap \<Rightarrow> route_input \<Rightarrow> route_input \<Rightarrow> bool" where
  "blank_peer_twins h a b \<longleftrightarrow> without_peer_id a \<and> without_peer_id b
     \<and> ni_peer (normalizeInput h a) \<noteq> ni_peer (normalizeInput h b)
     \<and> cfg_agents (ri_cfg a) = cfg_agents (ri_cfg b) \<and> cfg_bindings (ri_cfg a) = cfg_bindings (ri_cfg b)
     \<and> cfg_session (ri_cfg a) = cfg_session (ri_cfg b)
     \<and> same_route_input ((normalizeInput h a)\<lparr>ni_peer := None\<rparr>) ((normalizeInput h b)\<lparr>ni_peer := None\<rparr>)"

lemma peerless_normalizeInput: "peerless (normalizeInput h input) \<longleftrightarrow> without_peer_id input"
  by (simp add: peerless_def without_peer_id_def normalizeInput_def normalizeRoutePeer_def normalizeId_def
      normalizeRouteBindingId_def split: option.split)

lemma routeCalls_ok:
  assumes i: "i < length calls"
  shows "routeCalls h calls initialRouteState ! i = inputSpec h (snd (calls ! i))
    \<or> (\<exists>j<i. blank_peer_twins h (snd (calls ! j)) (snd (calls ! i))
         \<and> routeCalls h calls initialRouteState ! i = inputSpec h (snd (calls ! j)))"
proof -
  let ?input = "snd (calls ! i)" and ?cfg = "ri_cfg (snd (calls ! i))"
  let ?r = "routeCalls h calls initialRouteState ! i"
  from routeCalls_nth [OF caches_ok_initial i refl, of h "[]"] obtain n where
    n: "seen_in h (take (Suc i) calls) (cfg_agents ?cfg) (cfg_bindings ?cfg) (cfg_session ?cfg) n"
      "buildResolvedRouteCacheKey n = buildResolvedRouteCacheKey (normalizeInput h ?input)"
      "?r = routeSpec h (cfg_agents ?cfg) (cfg_bindings ?cfg) (cfg_session ?cfg) n" by auto
  from n(1) obtain call where call: "call \<in> set (take (Suc i) calls)"
    "cfg_agents (ri_cfg (snd call)) = cfg_agents ?cfg" "cfg_bindings (ri_cfg (snd call)) = cfg_bindings ?cfg"
    "cfg_session (ri_cfg (snd call)) = cfg_session ?cfg" "normalizeInput h (snd call) = n"
    unfolding seen_in_def by (auto simp: case_prod_unfold)
  from call(1) i obtain j where "j \<le> i" "call = calls ! j"
    by (auto simp: in_set_conv_nth less_Suc_eq_le)
  with call(2-) have j: "j \<le> i"
    "cfg_agents (ri_cfg (snd (calls ! j))) = cfg_agents ?cfg"
    "cfg_bindings (ri_cfg (snd (calls ! j))) = cfg_bindings ?cfg"
    "cfg_session (ri_cfg (snd (calls ! j))) = cfg_session ?cfg" "normalizeInput h (snd (calls ! j)) = n"
    by simp_all
  from cache_key_determines_input [OF n(2)] show ?thesis
  proof
    assume "same_route_input n (normalizeInput h ?input)"
    from same_routeSpec [OF this] n(3) show ?thesis by (simp add: inputSpec_def Let_def)
  next
    assume diff: "peerless n \<and> peerless (normalizeInput h ?input) \<and> ni_peer n \<noteq> ni_peer (normalizeInput h ?input)
      \<and> same_route_input (n\<lparr>ni_peer := None\<rparr>) ((normalizeInput h ?input)\<lparr>ni_peer := None\<rparr>)"
    with j(5) have "j \<noteq> i" by auto
    with j diff n(3) show ?thesis
      by (intro disjI2 exI [of _ j])
         (auto simp: blank_peer_twins_def inputSpec_def Let_def peerless_normalizeInput)
  qed
qed


text \<open>A configuration with two agents and one group binding, and messages for it.\<close>

definition example_heap :: config_heap where
  "example_heap = \<lparr>
     heap_agents = (\<lambda>_. \<lparr>ac_entries = None, ac_list = Some (ListArray
        [Some \<lparr>ae_id = Some ''main'', ae_default = Some True\<rparr>, Some \<lparr>ae_id = Some ''Ops'', ae_default = None\<rparr>])\<rparr>),
     heap_bindings = (\<lambda>_. Some [\<lparr>ab_type = None, ab_agentId = ''ops'',
        ab_match = Some \<lparr>bm_channel = Some ''Telegram'', bm_accountId = Some ''*'',
          bm_peer = Some \<lparr>pm_kind = Some ''group'', pm_id = Some ''-100''\<rparr>, bm_guildId = None,
          bm_teamId = None, bm_roles = None\<rparr>,
        ab_session = None\<rparr>]),
     heap_session = (\<lambda>_. \<lparr>se_dmScope = None, se_mainKey = None, se_identityLinks = None\<rparr>)\<rparr>"

definition example_config :: config where
  "example_config = \<lparr>cfg_object = 0, cfg_agents = Some 0, cfg_bindings = Some 0, cfg_session = Some 0\<rparr>"

definition example_message :: "route_peer option \<Rightarrow> route_input" where
  "example_message peer = \<lparr>ri_cfg = example_config, ri_channel = ''telegram'', ri_accountId = None,
     ri_peer = peer, ri_dmScope = None, ri_parentPeer = None, ri_guildId = None, ri_teamId = None,
     ri_memberRoleIds = None\<rparr>"


text \<open>The exception is real: the route cache confuses a peer with a blank id with no peer: \<open>formatRouteCachePeer\<close>
  prints both as a dash, although the session keys of the two routes differ. After a group message
  whose peer id is blank, a message without a peer on the same channel and account is answered with
  the group's route (session \<open>agent:main:telegram:group:unknown\<close>) instead of the main session
  that the same call returns on a fresh cache.\<close>

lemma blank_peer_poisons_route_cache:
  "map (map_sum id rr_sessionKey)
     (routeCalls example_heap [(False, example_message None)] initialRouteState)
     = [Inr ''agent:main:main'']
   \<and> map (map_sum id rr_sessionKey)
     (routeCalls example_heap
        [(False, example_message (Some \<lparr>rp_kind = ChatGroup, rp_id = '' ''\<rparr>)),
         (False, example_message None)] initialRouteState)
     = [Inr ''agent:main:telegram:group:unknown'', Inr ''agent:main:telegram:group:unknown'']"
  by code_simp

subsection \<open>Configured agents\<close>

lemma normalizeAgentId_trim_arg: "normalizeAgentId (Some (js_trim s)) = normalizeAgentId (Some s)"
  by (simp add: normalizeAgentId_def)

lemma foldl_update_entries:
  "map_of (foldl (\<lambda>m x. AList.update (f x) (g x) m) m xs) k = Some v \<Longrightarrow>
   (\<exists>x \<in> set xs. v = g x) \<or> map_of m k = Some v"
  by (induction xs arbitrary: m) (force dest: update_entries)+

lemma foldl_update_nonempty:
  "m \<noteq> [] \<or> xs \<noteq> [] \<Longrightarrow> foldl (\<lambda>m x. AList.update (f x) (g x) m) m xs \<noteq> []"
  by (induction xs arbitrary: m) auto

lemma buildAgentsById_value:
  assumes "map_of (buildAgentsById agents) k = Some v"
  shows "v \<in> set (listAgentIds agents)"
proof -
  obtain e raw where e: "e \<in> set (listAgentEntries agents)" "ae_id e = Some raw" "v = normalizeAgentId (Some (js_trim raw))"
    using foldl_update_entries [OF assms [unfolded buildAgentsById_def]]
    by (auto simp: sanitizeAgentId_def nullish_def split: option.splits)
  then have "v = normalizeAgentId (ae_id e)" by (simp add: normalizeAgentId_trim_arg)
  with e(1) show ?thesis by (auto simp: listAgentIds_def Let_def)
qed

lemma agentSpec_configured:
  assumes "agentSpec agents agentId = Inr a"
    and "\<exists>e \<in> set (listAgentEntries agents). \<exists>raw. ae_id e = Some raw \<and> js_trim raw \<noteq> []"
  shows "a \<in> set (listAgentIds agents)
    \<or> (\<exists>d. resolveDefaultAgentId agents = Inr d \<and> a = normalizeAgentId (Some d))"
proof -
  have ne: "buildAgentsById agents \<noteq> []"
    unfolding buildAgentsById_def
    by (rule foldl_update_nonempty) (use assms(2) in \<open>force simp: filter_empty_conv\<close>)
  with assms(1) buildAgentsById_value [of agents] show ?thesis
    by (auto simp: agentSpec_def Let_def js_or_def sanitizeAgentId_def nullish_def
        split: sum.splits if_splits option.splits)
qed

lemma routeSpec_agent:
  assumes "routeSpec h a b s n = Inr r"
  shows "\<exists>x. agentSpec (agentsAt h a) x = Inr (rr_agentId r)"
proof -
  have "\<exists>x. agentSpec (agentsAt h a) x = Inr (rr_agentId r)" if "routeFor h a s n x lbl ov = Inr r" for x lbl ov
    using that by (auto simp: routeFor_def buildRoute_def Let_def split: sum.splits)
  with assms show ?thesis
    by (auto simp: routeSpec_def split: option.splits prod.splits sum.splits)
qed

text \<open>Messages go to configured agents: when the roster names at least one agent, the agent of
  every route that \<open>resolveAgentRoute\<close> returns, whatever agent ids the bindings mention, is one
  of the configured agent ids or the normal form of the configured default agent.\<close>

theorem routed_agent_is_configured:
  assumes "\<forall>(verbose, input) \<in> set calls. ri_cfg input = cfg"
    and "Inr r \<in> set (routeCalls h calls initialRouteState)"
    and "\<exists>e \<in> set (listAgentEntries (agentsAt h (cfg_agents cfg))). \<exists>raw. ae_id e = Some raw \<and> js_trim raw \<noteq> []"
  shows "rr_agentId r \<in> set (listAgentIds (agentsAt h (cfg_agents cfg)))
    \<or> (\<exists>d. resolveDefaultAgentId (agentsAt h (cfg_agents cfg)) = Inr d
          \<and> rr_agentId r = normalizeAgentId (Some d))"
proof -
  from assms(2) obtain i where i: "i < length calls" "routeCalls h calls initialRouteState ! i = Inr r"
    by (auto simp: in_set_conv_nth length_routeCalls)
  from routeCalls_ok [OF i(1), of h] obtain j where "j \<le> i"
    "routeCalls h calls initialRouteState ! i = inputSpec h (snd (calls ! j))"
    by (metis less_imp_le order_refl)
  with i have j: "j < length calls" "inputSpec h (snd (calls ! j)) = Inr r" by simp_all
  then have "ri_cfg (snd (calls ! j)) = cfg" using assms(1) nth_mem by (fastforce simp: case_prod_unfold)
  with j(2) routeSpec_agent obtain x where "agentSpec (agentsAt h (cfg_agents cfg)) x = Inr (rr_agentId r)"
    unfolding inputSpec_def Let_def by blast
  from agentSpec_configured [OF this assms(3)] show ?thesis .
qed

theorem routed_agent_is_configured_witness:
  "\<exists>r. routeCalls example_heap [(False, example_message (Some \<lparr>rp_kind = ChatGroup, rp_id = ''-100''\<rparr>))]
         initialRouteState = [Inr r]
     \<and> (rr_agentId r \<in> set (listAgentIds (agentsAt example_heap (cfg_agents example_config)))
        \<or> (\<exists>d. resolveDefaultAgentId (agentsAt example_heap (cfg_agents example_config)) = Inr d
              \<and> rr_agentId r = normalizeAgentId (Some d)))"
proof -
  let ?calls = "[(False, example_message (Some \<lparr>rp_kind = ChatGroup, rp_id = ''-100''\<rparr>))]"
  have "map (map_sum id (\<lambda>r. ())) (routeCalls example_heap ?calls initialRouteState) = [Inr ()]"
    by code_simp
  then obtain x where x: "routeCalls example_heap ?calls initialRouteState = [x]" "map_sum id (\<lambda>r. ()) x = Inr ()"
    by (auto simp: map_eq_Cons_conv simp del: routeCalls.simps)
  then obtain r where r: "routeCalls example_heap ?calls initialRouteState = [Inr r]"
    by (cases x) auto
  have 1: "\<forall>(verbose, input) \<in> set ?calls. ri_cfg input = example_config"
    by (simp add: example_message_def)
  have 2: "\<exists>e \<in> set (listAgentEntries (agentsAt example_heap (cfg_agents example_config))).
      \<exists>raw. ae_id e = Some raw \<and> js_trim raw \<noteq> []"
    by (simp add: listAgentEntries_def listAgentEntriesWithSource_def readAgentRosterProperty_def agentsAt_def
        example_heap_def example_config_def js_trim_def js_trimStart_def js_trimEnd_def js_space_def)
  have "Inr r \<in> set (routeCalls example_heap ?calls initialRouteState)" unfolding r by simp
  from routed_agent_is_configured [OF 1 this 2] r show ?thesis by blast
qed

end
