(* ===== verification/Number_Coercion.thy ===== *)
theory Number_Coercion
  imports Prelude
begin

text \<open>
  The numeric options shared by the process and gateway components,
  \<open>packages/normalization-core/src/number-coercion.ts\<close>. Values are absent or finite, and
  integral, so \<open>Math.floor\<close> is the identity. The lemmas give the ranges of the results.
\<close>

definition MAX_TIMER_TIMEOUT_MS :: int where
  "MAX_TIMER_TIMEOUT_MS = 2147000000"

definition clampTimerTimeoutMs :: "int \<Rightarrow> int \<Rightarrow> int" where
  "clampTimerTimeoutMs valueMs minMs = min (max valueMs (max 1 minMs)) MAX_TIMER_TIMEOUT_MS"

definition clampPositiveTimerTimeoutMs :: "int \<Rightarrow> int option" where
  "clampPositiveTimerTimeoutMs valueMs = (if valueMs \<le> 0 then None else Some (clampTimerTimeoutMs valueMs 1))"

definition resolveTimerTimeoutMs :: "int option \<Rightarrow> int \<Rightarrow> int \<Rightarrow> int" where
  "resolveTimerTimeoutMs valueMs fallbackMs minMs =
     min (max (nullish valueMs fallbackMs) (max 0 minMs)) MAX_TIMER_TIMEOUT_MS"

definition resolveIntegerOption :: "int option \<Rightarrow> int \<Rightarrow> int option \<Rightarrow> int option \<Rightarrow> int" where
  "resolveIntegerOption value fallback lo hi =
     (let floored = nullish value fallback;
          minBounded = (case lo of None \<Rightarrow> floored | Some m \<Rightarrow> max m floored)
      in case hi of None \<Rightarrow> minBounded | Some m \<Rightarrow> min m minBounded)"

definition resolveNonNegativeIntegerOption :: "int option \<Rightarrow> int \<Rightarrow> int" where
  "resolveNonNegativeIntegerOption value fallback = resolveIntegerOption value fallback (Some 0) None"

lemma resolveTimerTimeoutMs_range:
  "0 \<le> resolveTimerTimeoutMs v f m \<and> resolveTimerTimeoutMs v f m \<le> MAX_TIMER_TIMEOUT_MS"
  by (auto simp: resolveTimerTimeoutMs_def MAX_TIMER_TIMEOUT_MS_def)

lemma resolveIntegerOption_min: "lo \<le> resolveIntegerOption v f (Some lo) None"
  by (simp add: resolveIntegerOption_def Let_def)

lemma resolveNonNegativeIntegerOption_nonneg: "0 \<le> resolveNonNegativeIntegerOption v f"
  by (simp add: resolveNonNegativeIntegerOption_def resolveIntegerOption_min)

end
