(* ===== verification/Transition_System.thy ===== *)
theory Transition_System
  imports Main
begin

text \<open>
  Reachability and invariants of step relations, shared by the components that are state machines.
  A component instantiates the locale with its initial states, its step relation and an inductive
  invariant, and gets the invariant for all reachable states.
\<close>

inductive reachable :: "('s \<Rightarrow> bool) \<Rightarrow> ('s \<Rightarrow> 's \<Rightarrow> bool) \<Rightarrow> 's \<Rightarrow> bool"
  for init :: "'s \<Rightarrow> bool" and step :: "'s \<Rightarrow> 's \<Rightarrow> bool" where
  start: "init s \<Longrightarrow> reachable init step s"
| step: "reachable init step s \<Longrightarrow> step s s' \<Longrightarrow> reachable init step s'"

locale inductive_invariant =
  fixes init :: "'s \<Rightarrow> bool" and step :: "'s \<Rightarrow> 's \<Rightarrow> bool" and inv :: "'s \<Rightarrow> bool"
  assumes inv_init: "init s \<Longrightarrow> inv s"
    and inv_step: "inv s \<Longrightarrow> step s s' \<Longrightarrow> inv s'"
begin

lemma reachable_inv: "reachable init step s \<Longrightarrow> inv s"
  by (induction rule: reachable.induct) (auto intro: inv_init inv_step)

lemma reachable_step_inv: "reachable init step s \<Longrightarrow> step s s' \<Longrightarrow> inv s \<and> inv s'"
  using reachable_inv inv_step by blast

end

end
