(* ===== verification/Command_Queue.thy ===== *)
theory Command_Queue
  imports Identifiers Number_Coercion Transition_System "HOL-Library.Multiset"
begin

text \<open>
  The command queue of the gateway, \<open>src/process/command-queue.ts\<close> and \<open>lanes.ts\<close>: named
  lanes with a concurrency limit, priority queues, task generations, forced resets and waiters for
  active tasks.

  The code is single-threaded; a step of the model is one synchronous run: an exported function
  called by a client, the continuation of one task that settled, or the timer of a waiter. Lane
  objects are shared by the lane table and by the closures of running tasks and may outlive their
  table entry, so they live in a store (\<open>q_objects\<close>, addressed by allocation number) and the
  table \<open>q_lanes\<close> maps names to addresses. A command is identified by its queue sequence number;
  the calls of its promise's \<open>resolve\<close> and \<open>reject\<close> are recorded in \<open>q_settled\<close>, the
  calls of \<open>onWait\<close> in \<open>q_waits\<close> and the resolutions of waiters in \<open>q_resolved\<close>. The
  clock is an argument of the steps. The admission flag of the gateway is the argument
  \<open>closed\<close>. Log output is not modelled, and neither is the migration pass of
  \<open>getQueueState\<close>, which only fills in fields that an older version of the singleton lacks.
\<close>

subsection \<open>Data\<close>

datatype lane_priority = Foreground | Normal | Background

record enqueue_options =
  eo_warnAfterMs :: "int option"
  eo_onWait :: bool
  eo_taskTimeoutMs :: "int option"
  eo_taskTimeoutAbortGraceMs :: "int option"
  eo_priority :: "lane_priority option"

record queue_entry =
  qe_sequence :: nat
  qe_priority :: int
  qe_enqueuedAt :: int
  qe_warnAfterMs :: int
  qe_queuedAhead :: nat
  qe_activeAhead :: nat
  qe_taskTimeoutMs :: "int option"
  qe_taskTimeoutAbortGraceMs :: "int option"
  qe_onWait :: bool

record lane_state =
  ls_lane :: string
  ls_queue :: "queue_entry list"
  ls_activeTaskIds :: "nat list"
  ls_maxConcurrent :: nat
  ls_draining :: bool
  ls_generation :: nat

record lane_snapshot =
  sn_lane :: string
  sn_queuedCount :: nat
  sn_activeCount :: nat
  sn_maxConcurrent :: nat
  sn_draining :: bool
  sn_generation :: nat

record task_marker =
  tm_lane :: string
  tm_taskId :: nat
  tm_generation :: nat

text \<open>The closure of a started task: the lane object it captured, its marker and its entry.\<close>

record running_task =
  rt_object :: nat
  rt_taskId :: nat
  rt_generation :: nat
  rt_entry :: queue_entry

record task_waiter =
  tw_id :: nat
  tw_activeTaskIds :: "nat list"

datatype lane_error = GatewayDraining | LaneCleared string | TaskFailed

datatype settlement = Resolved | Rejected lane_error

record queue_state =
  q_objects :: "nat \<Rightarrow> lane_state"
  q_nextObject :: nat
  q_lanes :: "(string, nat) js_map"
  q_waiters :: "task_waiter list"
  q_nextWaiter :: nat
  q_nextTaskId :: nat
  q_nextQueueSequence :: nat
  q_running :: "running_task list"
  q_settled :: "(nat \<times> settlement) list"
  q_waits :: "(nat \<times> int \<times> nat) list"
  q_resolved :: "(nat \<times> bool) list"

definition MainLane :: string where
  "MainLane = ''main''"

definition newLane :: "string \<Rightarrow> lane_state" where
  "newLane lane = \<lparr>ls_lane = lane, ls_queue = [], ls_activeTaskIds = [], ls_maxConcurrent = 1,
     ls_draining = False, ls_generation = 0\<rparr>"

definition initialQueueState :: queue_state where
  "initialQueueState = \<lparr>q_objects = (\<lambda>_. newLane []), q_nextObject = 0, q_lanes = [], q_waiters = [],
     q_nextWaiter = 0, q_nextTaskId = 1, q_nextQueueSequence = 1, q_running = [], q_settled = [],
     q_waits = [], q_resolved = []\<rparr>"

abbreviation obj :: "queue_state \<Rightarrow> nat \<Rightarrow> lane_state" where
  "obj q u \<equiv> q_objects q u"

definition putObj :: "nat \<Rightarrow> lane_state \<Rightarrow> queue_state \<Rightarrow> queue_state" where
  "putObj u s q = q\<lparr>q_objects := (q_objects q)(u := s)\<rparr>"

subsection \<open>Lanes\<close>

definition normalizeLane :: "string \<Rightarrow> string" where
  "normalizeLane lane = (let t = js_trim lane in if t \<noteq> [] then t else MainLane)"

definition getLaneDepth :: "lane_state \<Rightarrow> nat" where
  "getLaneDepth s = length (ls_queue s) + length (ls_activeTaskIds s)"

definition createCommandLaneSnapshot :: "lane_state \<Rightarrow> lane_snapshot" where
  "createCommandLaneSnapshot s = \<lparr>sn_lane = ls_lane s, sn_queuedCount = length (ls_queue s),
     sn_activeCount = length (ls_activeTaskIds s), sn_maxConcurrent = ls_maxConcurrent s,
     sn_draining = ls_draining s, sn_generation = ls_generation s\<rparr>"

definition getLaneState :: "string \<Rightarrow> queue_state \<Rightarrow> nat \<times> queue_state" where
  "getLaneState lane q =
     (case map_of (q_lanes q) lane of
        Some u \<Rightarrow> (u, q)
      | None \<Rightarrow>
        let u = q_nextObject q in
        (u, (putObj u (newLane lane) q)\<lparr>q_nextObject := Suc u, q_lanes := AList.update lane u (q_lanes q)\<rparr>))"

definition isQuietProbeLane :: "string \<Rightarrow> bool" where
  "isQuietProbeLane lane \<longleftrightarrow>
     js_startsWith lane ''auth-probe:'' \<or> js_startsWith lane ''session:probe-''
     \<or> js_startsWith lane ''session:temp:setup-inference:probe-setup-inference-''"

definition isScopedLane :: "string \<Rightarrow> bool" where
  "isScopedLane lane \<longleftrightarrow>
     js_startsWith lane ''session:'' \<or> js_startsWith lane ''nested:''
     \<or> js_startsWith lane ''context-engine-turn-maintenance:''"

definition completeTask :: "nat \<Rightarrow> nat \<Rightarrow> nat \<Rightarrow> queue_state \<Rightarrow> bool \<times> queue_state" where
  "completeTask u taskId taskGeneration q =
     (if taskGeneration \<noteq> ls_generation (obj q u) then (False, q)
      else (True, putObj u ((obj q u)\<lparr>ls_activeTaskIds := removeAll taskId (ls_activeTaskIds (obj q u))\<rparr>) q))"

definition retireIdleScopedCommandLane :: "nat \<Rightarrow> queue_state \<Rightarrow> queue_state" where
  "retireIdleScopedCommandLane u q =
     (let s = obj q u in
      if ls_draining s \<or> ls_activeTaskIds s \<noteq> [] \<or> ls_queue s \<noteq> [] \<or> ls_maxConcurrent s \<noteq> 1
         \<or> \<not> isScopedLane (ls_lane s) then q
      else if map_of (q_lanes q) (ls_lane s) = Some u
      then q\<lparr>q_lanes := AList.delete (ls_lane s) (q_lanes q)\<rparr> else q)"

subsection \<open>Waiters\<close>

definition hasPendingActiveTasks :: "nat list \<Rightarrow> queue_state \<Rightarrow> bool" where
  "hasPendingActiveTasks taskIds q \<longleftrightarrow>
     list_ex (\<lambda>(lane, u). list_ex (\<lambda>t. List.member taskIds t) (ls_activeTaskIds (obj q u))) (q_lanes q)"

definition resolveActiveTaskWaiter :: "task_waiter \<Rightarrow> bool \<Rightarrow> queue_state \<Rightarrow> queue_state" where
  "resolveActiveTaskWaiter w drained q =
     (if w \<notin> set (q_waiters q) then q
      else q\<lparr>q_waiters := removeAll w (q_waiters q), q_resolved := q_resolved q @ [(tw_id w, drained)]\<rparr>)"

definition notifyWaiter :: "queue_state \<Rightarrow> task_waiter \<Rightarrow> queue_state" where
  "notifyWaiter q w =
     (if tw_activeTaskIds w = [] \<or> \<not> hasPendingActiveTasks (tw_activeTaskIds w) q
      then resolveActiveTaskWaiter w True q else q)"

definition notifyActiveTaskWaiters :: "queue_state \<Rightarrow> queue_state" where
  "notifyActiveTaskWaiters q = foldl notifyWaiter q (q_waiters q)"

subsection \<open>Queueing\<close>

text \<open>Millisecond values are integral.\<close>

definition normalizeTaskTimeoutMs :: "int option \<Rightarrow> int option" where
  "normalizeTaskTimeoutMs v =
     (case v of None \<Rightarrow> None | Some ms \<Rightarrow> if ms \<le> 0 then None else clampPositiveTimerTimeoutMs ms)"

definition resolveQueuePriority :: "lane_priority option \<Rightarrow> int" where
  "resolveQueuePriority p =
     (case p of Some Foreground \<Rightarrow> 1 | Some Background \<Rightarrow> -1 | _ \<Rightarrow> 0)"

text \<open>\<open>queued\<close> has to wait behind \<open>entry\<close>.\<close>

definition overtakes :: "queue_entry \<Rightarrow> queue_entry \<Rightarrow> bool" where
  "overtakes entry queued \<longleftrightarrow>
     qe_priority queued < qe_priority entry
     \<or> (qe_priority queued = qe_priority entry \<and> qe_sequence queued > qe_sequence entry)"

text \<open>\<open>findIndex\<close>, push and splice of \<open>enqueueLaneEntry\<close>.\<close>

fun findIndex :: "('a \<Rightarrow> bool) \<Rightarrow> 'a list \<Rightarrow> nat option" where
  "findIndex P [] = None"
| "findIndex P (x # xs) = (if P x then Some 0 else map_option Suc (findIndex P xs))"

definition enqueueLaneEntry :: "lane_state \<Rightarrow> queue_entry \<Rightarrow> lane_state" where
  "enqueueLaneEntry s entry =
     (let insertAt = findIndex (overtakes entry) (ls_queue s);
          entry' = entry\<lparr>qe_queuedAhead := nullish insertAt (length (ls_queue s)),
                         qe_activeAhead := length (ls_activeTaskIds s)\<rparr>
      in case insertAt of
           None \<Rightarrow> s\<lparr>ls_queue := ls_queue s @ [entry']\<rparr>
         | Some i \<Rightarrow> s\<lparr>ls_queue := take i (ls_queue s) @ entry' # drop i (ls_queue s)\<rparr>)"

subsection \<open>Pumping\<close>

text \<open>One iteration of the pump loop: the head entry leaves the queue, its \<open>onWait\<close> callback is
  called when it waited long enough, and its task starts under a fresh id.\<close>

definition startTask :: "int \<Rightarrow> nat \<Rightarrow> queue_entry \<Rightarrow> queue_entry list \<Rightarrow> queue_state \<Rightarrow> queue_state" where
  "startTask now u entry rest q =
     (let s = obj q u; waitedMs = now - qe_enqueuedAt entry; taskId = q_nextTaskId q;
          q1 = (if waitedMs \<ge> qe_warnAfterMs entry \<and> qe_onWait entry
                then q\<lparr>q_waits := q_waits q @ [(qe_sequence entry, waitedMs, qe_queuedAhead entry)]\<rparr> else q)
      in (putObj u (s\<lparr>ls_queue := rest, ls_activeTaskIds := ls_activeTaskIds s @ [taskId]\<rparr>) q1)
           \<lparr>q_nextTaskId := Suc taskId,
            q_running := q_running q @
              [\<lparr>rt_object = u, rt_taskId = taskId, rt_generation = ls_generation s, rt_entry = entry\<rparr>]\<rparr>)"

lemma startTask_queue [simp]: "ls_queue (obj (startTask now u e rest q) u) = rest"
  by (simp add: startTask_def putObj_def Let_def)

function pumpLoop :: "int \<Rightarrow> nat \<Rightarrow> queue_state \<Rightarrow> queue_state" where
  "pumpLoop now u q =
     (case ls_queue (obj q u) of
        [] \<Rightarrow> q
      | entry # rest \<Rightarrow>
        if length (ls_activeTaskIds (obj q u)) < ls_maxConcurrent (obj q u)
        then pumpLoop now u (startTask now u entry rest q) else q)"
  by pat_completeness auto
termination
  by (relation "measure (\<lambda>(now, u, q). length (ls_queue (obj q u)))") auto

declare pumpLoop.simps [simp del]

definition pump :: "int \<Rightarrow> nat \<Rightarrow> queue_state \<Rightarrow> queue_state" where
  "pump now u q =
     (let q1 = pumpLoop now u q
      in retireIdleScopedCommandLane u (putObj u ((obj q1 u)\<lparr>ls_draining := False\<rparr>) q1))"

definition drainLane :: "int \<Rightarrow> string \<Rightarrow> queue_state \<Rightarrow> queue_state" where
  "drainLane now lane q =
     (let (u, q1) = getLaneState lane q in
      if ls_draining (obj q1 u) then q1
      else pump now u (putObj u ((obj q1 u)\<lparr>ls_draining := True\<rparr>) q1))"

text \<open>The continuation of a started task once its promise, or its timeout, settled.\<close>

definition settleTask :: "int \<Rightarrow> running_task \<Rightarrow> settlement \<Rightarrow> queue_state \<Rightarrow> queue_state" where
  "settleTask now r outcome q =
     (let q0 = q\<lparr>q_running := removeAll r (q_running q)\<rparr>;
          (current, q1) = completeTask (rt_object r) (rt_taskId r) (rt_generation r) q0;
          q2 = (if current then pump now (rt_object r) (notifyActiveTaskWaiters q1) else q1)
      in q2\<lparr>q_settled := q_settled q2 @ [(qe_sequence (rt_entry r), outcome)]\<rparr>)"

subsection \<open>Exported operations\<close>

definition setCommandLaneConcurrency :: "int \<Rightarrow> string \<Rightarrow> int \<Rightarrow> queue_state \<Rightarrow> queue_state" where
  "setCommandLaneConcurrency now lane maxConcurrent q =
     (let cleaned = normalizeLane lane;
          (u, q1) = getLaneState cleaned q;
          minConcurrent = (if isQuietProbeLane cleaned then 1 else 0);
          limit = nat (max minConcurrent maxConcurrent);
          q2 = putObj u ((obj q1 u)\<lparr>ls_maxConcurrent := limit\<rparr>) q1
      in if limit > 0 then drainLane now cleaned q2 else q2)"

text \<open>Enqueueing returns the sequence number that identifies the command, or rejects at once.\<close>

definition enqueueCommandInLane ::
  "bool \<Rightarrow> int \<Rightarrow> string \<Rightarrow> enqueue_options \<Rightarrow> queue_state \<Rightarrow> (lane_error + nat) \<times> queue_state" where
  "enqueueCommandInLane closed now lane opts q =
     (if closed then (Inl GatewayDraining, q)
      else
        let cleaned = normalizeLane lane;
            (u, q1) = getLaneState cleaned q;
            sequence = q_nextQueueSequence q1;
            entry = \<lparr>qe_sequence = sequence, qe_priority = resolveQueuePriority (eo_priority opts),
                     qe_enqueuedAt = now, qe_warnAfterMs = nullish (eo_warnAfterMs opts) 2000,
                     qe_queuedAhead = 0, qe_activeAhead = 0,
                     qe_taskTimeoutMs = normalizeTaskTimeoutMs (eo_taskTimeoutMs opts),
                     qe_taskTimeoutAbortGraceMs = normalizeTaskTimeoutMs (eo_taskTimeoutAbortGraceMs opts),
                     qe_onWait = eo_onWait opts\<rparr>;
            q2 = (putObj u (enqueueLaneEntry (obj q1 u) entry) q1)\<lparr>q_nextQueueSequence := Suc sequence\<rparr>
        in (Inr sequence, drainLane now cleaned q2))"

definition getQueueSize :: "string option \<Rightarrow> queue_state \<Rightarrow> nat" where
  "getQueueSize lane q =
     (case map_of (q_lanes q) (normalizeLane (nullish lane MainLane)) of
        None \<Rightarrow> 0 | Some u \<Rightarrow> getLaneDepth (obj q u))"

definition getCommandLaneSnapshot :: "string option \<Rightarrow> queue_state \<Rightarrow> lane_snapshot" where
  "getCommandLaneSnapshot lane q =
     (let resolved = normalizeLane (nullish lane MainLane) in
      case map_of (q_lanes q) resolved of
        None \<Rightarrow> \<lparr>sn_lane = resolved, sn_queuedCount = 0, sn_activeCount = 0, sn_maxConcurrent = 1,
                sn_draining = False, sn_generation = 0\<rparr>
      | Some u \<Rightarrow> createCommandLaneSnapshot (obj q u))"

definition getCommandLaneActiveTaskIds :: "string option \<Rightarrow> queue_state \<Rightarrow> nat list" where
  "getCommandLaneActiveTaskIds lane q =
     (case map_of (q_lanes q) (normalizeLane (nullish lane MainLane)) of
        None \<Rightarrow> [] | Some u \<Rightarrow> ls_activeTaskIds (obj q u))"

definition isCommandLaneTaskMarkerCurrent :: "task_marker option \<Rightarrow> queue_state \<Rightarrow> bool" where
  "isCommandLaneTaskMarkerCurrent marker q =
     (case marker of None \<Rightarrow> False
      | Some m \<Rightarrow>
        case map_of (q_lanes q) (normalizeLane (tm_lane m)) of
          None \<Rightarrow> False
        | Some u \<Rightarrow> ls_generation (obj q u) = tm_generation m
            \<and> List.member (ls_activeTaskIds (obj q u)) (tm_taskId m))"

definition getTotalQueueSize :: "queue_state \<Rightarrow> nat" where
  "getTotalQueueSize q = sum_list (map (\<lambda>(lane, u). getLaneDepth (obj q u)) (q_lanes q))"

definition clearCommandLane :: "string option \<Rightarrow> queue_state \<Rightarrow> nat \<times> queue_state" where
  "clearCommandLane lane q =
     (let cleaned = normalizeLane (nullish lane MainLane) in
      case map_of (q_lanes q) cleaned of
        None \<Rightarrow> (0, q)
      | Some u \<Rightarrow>
        let pending = ls_queue (obj q u);
            q1 = putObj u ((obj q u)\<lparr>ls_queue := []\<rparr>) q
        in (length pending,
            q1\<lparr>q_settled := q_settled q1 @ map (\<lambda>e. (qe_sequence e, Rejected (LaneCleared cleaned))) pending\<rparr>))"

definition resetLane :: "lane_state \<Rightarrow> lane_state" where
  "resetLane s = s\<lparr>ls_generation := Suc (ls_generation s), ls_activeTaskIds := [], ls_draining := False\<rparr>"

definition resetCommandLane :: "int \<Rightarrow> string option \<Rightarrow> queue_state \<Rightarrow> nat \<times> queue_state" where
  "resetCommandLane now lane q =
     (let cleaned = normalizeLane (nullish lane MainLane) in
      case map_of (q_lanes q) cleaned of
        None \<Rightarrow> (0, q)
      | Some u \<Rightarrow>
        let q1 = putObj u (resetLane (obj q u)) q;
            q2 = (if ls_queue (obj q1 u) \<noteq> [] then drainLane now cleaned q1 else q1)
        in (length (ls_activeTaskIds (obj q u)), notifyActiveTaskWaiters q2))"

text \<open>The lanes' part of \<open>resetAllLanes\<close>: every lane is reset first, then the ones with queued
  work are drained. The whole function, which reopens the admission gate before, is in the theory of
  the gateway process.\<close>

definition resetEveryLane :: "int \<Rightarrow> queue_state \<Rightarrow> queue_state" where
  "resetEveryLane now q =
     (let q1 = foldl (\<lambda>q' (lane, u). putObj u (resetLane (obj q' u)) q') q (q_lanes q);
          lanesToDrain = map (\<lambda>(lane, u). ls_lane (obj q1 u))
            (filter (\<lambda>(lane, u). ls_queue (obj q1 u) \<noteq> []) (q_lanes q))
      in notifyActiveTaskWaiters (foldl (\<lambda>q' lane. drainLane now lane q') q1 lanesToDrain))"

definition getActiveTaskCount :: "queue_state \<Rightarrow> nat" where
  "getActiveTaskCount q = sum_list (map (\<lambda>(lane, u). length (ls_activeTaskIds (obj q u))) (q_lanes q))"

text \<open>Waiting for the tasks that are active now: answered at once, or by a waiter.\<close>

datatype wait_answer = WaitNow bool | WaitFor nat

definition waitForActiveTasks :: "int option \<Rightarrow> queue_state \<Rightarrow> wait_answer \<times> queue_state" where
  "waitForActiveTasks timeoutMs q =
     (let activeAtStart = js_set_of (concat (map (\<lambda>(lane, u). ls_activeTaskIds (obj q u)) (q_lanes q)))
      in if activeAtStart = [] then (WaitNow True, q)
         else if (case timeoutMs of Some ms \<Rightarrow> ms \<le> 0 | None \<Rightarrow> False) then (WaitNow False, q)
         else let w = \<lparr>tw_id = q_nextWaiter q, tw_activeTaskIds = activeAtStart\<rparr>
           in (WaitFor (q_nextWaiter q),
               notifyActiveTaskWaiters
                 (q\<lparr>q_waiters := q_waiters q @ [w], q_nextWaiter := Suc (q_nextWaiter q)\<rparr>)))"

subsection \<open>Steps\<close>

inductive queue_step :: "queue_state \<Rightarrow> queue_state \<Rightarrow> bool" where
  enqueue: "queue_step q (snd (enqueueCommandInLane closed now lane opts q))"
| settle: "r \<in> set (q_running q) \<Longrightarrow> queue_step q (settleTask now r outcome q)"
| concurrency: "queue_step q (setCommandLaneConcurrency now lane limit q)"
| clear: "queue_step q (snd (clearCommandLane lane q))"
| reset: "queue_step q (snd (resetCommandLane now lane q))"
| reset_all: "queue_step q (resetEveryLane now q)"
| wait: "queue_step q (snd (waitForActiveTasks timeoutMs q))"
| wait_timeout: "w \<in> set (q_waiters q) \<Longrightarrow> queue_step q (resolveActiveTaskWaiter w False q)"

inductive_cases queue_stepE: "queue_step q q'"

definition initial_queue :: "queue_state \<Rightarrow> bool" where
  "initial_queue q \<longleftrightarrow> q = initialQueueState"

subsection \<open>Invariant\<close>

definition before :: "queue_entry \<Rightarrow> queue_entry \<Rightarrow> bool" where
  "before a b \<longleftrightarrow> qe_priority b < qe_priority a
     \<or> (qe_priority b = qe_priority a \<and> qe_sequence a < qe_sequence b)"

definition lane_refs_ok :: "queue_state \<Rightarrow> bool" where
  "lane_refs_ok q \<longleftrightarrow> distinct (map fst (q_lanes q))
     \<and> (\<forall>(n, u) \<in> set (q_lanes q). u < q_nextObject q \<and> ls_lane (obj q u) = n)"

definition active_ok :: "queue_state \<Rightarrow> bool" where
  "active_ok q \<longleftrightarrow> distinct (map rt_taskId (q_running q))
     \<and> (\<forall>r \<in> set (q_running q). rt_taskId r < q_nextTaskId q \<and> rt_object r < q_nextObject q
          \<and> rt_generation r \<le> ls_generation (obj q (rt_object r)))
     \<and> (\<forall>u. distinct (ls_activeTaskIds (obj q u)))
     \<and> (\<forall>u. set (ls_activeTaskIds (obj q u)) = rt_taskId `
          {r \<in> set (q_running q). rt_object r = u \<and> rt_generation r = ls_generation (obj q u)})"

definition retired_ok :: "queue_state \<Rightarrow> bool" where
  "retired_ok q \<longleftrightarrow> (\<forall>u. u \<notin> snd ` set (q_lanes q) \<longrightarrow> ls_queue (obj q u) = [] \<and> ls_activeTaskIds (obj q u) = [])"

definition queues_ok :: "queue_state \<Rightarrow> bool" where
  "queues_ok q \<longleftrightarrow> (\<forall>u. sorted_wrt before (ls_queue (obj q u))
     \<and> (\<forall>e \<in> set (ls_queue (obj q u)). qe_sequence e < q_nextQueueSequence q))"

definition queuedSequences :: "queue_state \<Rightarrow> nat multiset" where
  "queuedSequences q = (\<Sum>u<q_nextObject q. mset (map qe_sequence (ls_queue (obj q u))))"

definition runningSequences :: "queue_state \<Rightarrow> nat multiset" where
  "runningSequences q = mset (map (\<lambda>r. qe_sequence (rt_entry r)) (q_running q))"

definition settledSequences :: "queue_state \<Rightarrow> nat multiset" where
  "settledSequences q = mset (map fst (q_settled q))"

definition account_ok :: "nat multiset \<Rightarrow> queue_state \<Rightarrow> bool" where
  "account_ok X q \<longleftrightarrow> 1 \<le> q_nextQueueSequence q
     \<and> queuedSequences q + runningSequences q + settledSequences q + X = mset [1..<q_nextQueueSequence q]"

definition core :: "nat multiset \<Rightarrow> queue_state \<Rightarrow> bool" where
  "core X q \<longleftrightarrow> lane_refs_ok q \<and> active_ok q \<and> retired_ok q \<and> queues_ok q \<and> account_ok X q"

definition busy_ok :: "queue_state \<Rightarrow> bool" where
  "busy_ok q \<longleftrightarrow> (\<forall>u. ls_queue (obj q u) \<noteq> [] \<longrightarrow> ls_maxConcurrent (obj q u) \<le> length (ls_activeTaskIds (obj q u)))"

definition drained_ok :: "queue_state \<Rightarrow> bool" where
  "drained_ok q \<longleftrightarrow> (\<forall>u. \<not> ls_draining (obj q u))"

definition waiters_ok :: "queue_state \<Rightarrow> bool" where
  "waiters_ok q \<longleftrightarrow> (\<forall>w \<in> set (q_waiters q). \<exists>u. set (tw_activeTaskIds w) \<inter> set (ls_activeTaskIds (obj q u)) \<noteq> {})"

definition queue_inv :: "queue_state \<Rightarrow> bool" where
  "queue_inv q \<longleftrightarrow> core {#} q \<and> busy_ok q \<and> drained_ok q \<and> waiters_ok q"

lemmas core_defs = core_def lane_refs_ok_def active_ok_def retired_ok_def queues_ok_def account_ok_def

lemma obj_putObj [simp]: "obj (putObj u s q) v = (if v = u then s else obj q v)"
  by (simp add: putObj_def)

lemma putObj_frame [simp]:
  "q_nextObject (putObj u s q) = q_nextObject q" "q_lanes (putObj u s q) = q_lanes q"
  "q_waiters (putObj u s q) = q_waiters q" "q_nextWaiter (putObj u s q) = q_nextWaiter q"
  "q_nextTaskId (putObj u s q) = q_nextTaskId q" "q_nextQueueSequence (putObj u s q) = q_nextQueueSequence q"
  "q_running (putObj u s q) = q_running q" "q_settled (putObj u s q) = q_settled q"
  "q_resolved (putObj u s q) = q_resolved q"
  by (simp_all add: putObj_def)

text \<open>Replacing one object changes the multiset of queued commands at that object only.\<close>

lemma queued_update:
  assumes "u < (n::nat)"
  shows "(\<Sum>v<n. (f (if v = u then s else g v) :: nat multiset)) + f (g u) = (\<Sum>v<n. f (g v)) + f s"
proof -
  have "(\<Sum>v<n. f (if v = u then s else g v)) = f s + (\<Sum>v\<in>{..<n} - {u}. f (g v))"
    using assms by (subst sum.remove [of _ u]) (auto intro!: sum.cong)
  moreover have "(\<Sum>v<n. f (g v)) = f (g u) + (\<Sum>v\<in>{..<n} - {u}. f (g v))"
    using assms by (subst sum.remove [of _ u]) auto
  ultimately show ?thesis by (simp add: ac_simps)
qed

lemma queuedSequences_putObj:
  assumes "u < q_nextObject q"
  shows "queuedSequences (putObj u s q) + mset (map qe_sequence (ls_queue (obj q u)))
    = queuedSequences q + mset (map qe_sequence (ls_queue s))"
  using queued_update [OF assms, of "\<lambda>s. mset (map qe_sequence (ls_queue s))" s "q_objects q"]
  by (simp add: queuedSequences_def if_distrib)

lemma queuedSequences_same:
  assumes "ls_queue s = ls_queue (obj q u)"
  shows "queuedSequences (putObj u s q) = queuedSequences q"
  using assms by (auto simp: queuedSequences_def intro!: sum.cong)

subsection \<open>Primitives keep the core invariant\<close>

text \<open>Changing flags of an object.\<close>

lemma core_flags:
  assumes "core X q" "ls_lane s = ls_lane (obj q u)" "ls_queue s = ls_queue (obj q u)"
    "ls_activeTaskIds s = ls_activeTaskIds (obj q u)" "ls_generation s = ls_generation (obj q u)"
  shows "core X (putObj u s q)"
proof -
  have e: "(\<lambda>v. ls_queue (obj (putObj u s q) v)) = (\<lambda>v. ls_queue (obj q v))"
    "(\<lambda>v. ls_activeTaskIds (obj (putObj u s q) v)) = (\<lambda>v. ls_activeTaskIds (obj q v))"
    "(\<lambda>v. ls_generation (obj (putObj u s q) v)) = (\<lambda>v. ls_generation (obj q v))"
    "(\<lambda>v. ls_lane (obj (putObj u s q) v)) = (\<lambda>v. ls_lane (obj q v))"
    using assms by auto
  note e' = e [THEN fun_cong]
  show ?thesis
    using assms(1)
    unfolding core_defs e' putObj_frame runningSequences_def settledSequences_def
      queuedSequences_same [OF assms(3)] .
qed

lemma update_new: "map_of m k = None \<Longrightarrow> AList.update k v m = m @ [(k, v)]"
  by (induction m) (auto split: if_splits)

lemma core_getLaneState:
  assumes "core X q" "getLaneState lane q = (u, q')"
  shows "core X q'" "u < q_nextObject q'" "map_of (q_lanes q') lane = Some u"
proof -
  have "core X q' \<and> u < q_nextObject q' \<and> map_of (q_lanes q') lane = Some u"
  proof (cases "map_of (q_lanes q) lane")
    case (Some v)
    with assms have "q' = q" "u = v" by (auto simp: getLaneState_def)
    with assms Some show ?thesis by (auto simp: core_def lane_refs_ok_def dest: map_of_SomeD)
  next
    case None
    let ?n = "q_nextObject q"
    from None assms(2) have u: "u = ?n" and q': "q' = (putObj ?n (newLane lane) q)
        \<lparr>q_nextObject := Suc ?n, q_lanes := AList.update lane ?n (q_lanes q)\<rparr>"
      by (auto simp: getLaneState_def Let_def)
    have lanes: "AList.update lane ?n (q_lanes q) = q_lanes q @ [(lane, ?n)]"
      using None by (rule update_new)
    have fresh: "?n \<notin> snd ` set (q_lanes q)"
      using assms(1) by (auto simp: core_def lane_refs_ok_def)
    then have empty: "ls_queue (obj q ?n) = []" "ls_activeTaskIds (obj q ?n) = []"
      using assms(1) by (auto simp: core_def retired_ok_def)
    have norun: "rt_object r \<noteq> ?n" if "r \<in> set (q_running q)" for r
      using assms(1) that by (auto simp: core_def active_ok_def)
    have "queuedSequences q' = queuedSequences q"
      by (simp add: queuedSequences_def q' newLane_def)
    moreover have "lane_refs_ok q'"
      using assms(1) None fresh by (auto simp: core_def lane_refs_ok_def q' lanes newLane_def map_of_eq_None_iff
          intro: less_SucI)
    moreover have "retired_ok q'"
      using assms(1) by (auto simp: core_def retired_ok_def q' lanes newLane_def)
    moreover have "active_ok q'"
      using assms(1) norun empty by (fastforce simp: core_def active_ok_def q' newLane_def less_SucI)
    moreover have "queues_ok q'"
      using assms(1) by (auto simp: core_def queues_ok_def q' newLane_def)
    ultimately show ?thesis
      using assms(1) u None by (simp add: core_def account_ok_def runningSequences_def settledSequences_def q' lanes
          map_add_def)
  qed
  then show "core X q'" "u < q_nextObject q'" "map_of (q_lanes q') lane = Some u" by auto
qed


lemma core_allocated:
  assumes "core X q" "ls_queue (obj q u) \<noteq> [] \<or> ls_activeTaskIds (obj q u) \<noteq> []"
  shows "u < q_nextObject q" "map_of (q_lanes q) (ls_lane (obj q u)) = Some u"
proof -
  from assms have "u \<in> snd ` set (q_lanes q)" by (auto simp: core_def retired_ok_def)
  then obtain n where "(n, u) \<in> set (q_lanes q)" by auto
  with assms(1) show "u < q_nextObject q" "map_of (q_lanes q) (ls_lane (obj q u)) = Some u"
    by (auto simp: core_def lane_refs_ok_def map_of_eq_Some_iff)
qed

lemma startTask_frame [simp]:
  "q_nextObject (startTask now u e rest q) = q_nextObject q" "q_lanes (startTask now u e rest q) = q_lanes q"
  "q_waiters (startTask now u e rest q) = q_waiters q" "q_settled (startTask now u e rest q) = q_settled q"
  "q_nextQueueSequence (startTask now u e rest q) = q_nextQueueSequence q"
  "q_nextTaskId (startTask now u e rest q) = Suc (q_nextTaskId q)"
  "q_running (startTask now u e rest q) = q_running q @ [\<lparr>rt_object = u, rt_taskId = q_nextTaskId q,
     rt_generation = ls_generation (obj q u), rt_entry = e\<rparr>]"
  "obj (startTask now u e rest q) v = (if v = u then (obj q u)\<lparr>ls_queue := rest,
     ls_activeTaskIds := ls_activeTaskIds (obj q u) @ [q_nextTaskId q]\<rparr> else obj q v)"
  by (simp_all add: startTask_def Let_def putObj_def)

lemma core_startTask:
  assumes c: "core X q" and e: "ls_queue (obj q u) = e # rest"
  shows "core X (startTask now u e rest q)"
proof -
  let ?q = "startTask now u e rest q"
  have u: "u < q_nextObject q" using core_allocated [OF c, of u] e by simp
  have act: "t < q_nextTaskId q" if "t \<in> set (ls_activeTaskIds (obj q v))" for t v
    using c that by (fastforce simp: core_def active_ok_def)
  have "queuedSequences ?q + mset (map qe_sequence (e # rest)) = queuedSequences q + mset (map qe_sequence rest)"
    using queued_update [OF u, of "\<lambda>s. mset (map qe_sequence (ls_queue s))"
        "(obj q u)\<lparr>ls_queue := rest, ls_activeTaskIds := ls_activeTaskIds (obj q u) @ [q_nextTaskId q]\<rparr>" "q_objects q"] e
    by (simp add: queuedSequences_def)
  then have "queuedSequences q = queuedSequences ?q + {#qe_sequence e#}" by simp
  then have "account_ok X ?q"
    using c by (simp add: core_def account_ok_def runningSequences_def settledSequences_def ac_simps)
  moreover have "active_ok ?q"
    unfolding active_ok_def
  proof (intro conjI ballI allI)
    show "distinct (map rt_taskId (q_running ?q))"
      using c by (auto simp: core_def active_ok_def)
    show "distinct (ls_activeTaskIds (obj ?q v))" for v
      using c act by (fastforce simp: core_def active_ok_def)
    show "set (ls_activeTaskIds (obj ?q v)) = rt_taskId `
        {r \<in> set (q_running ?q). rt_object r = v \<and> rt_generation r = ls_generation (obj ?q v)}" for v
    proof -
      have "set (ls_activeTaskIds (obj q v)) = rt_taskId `
          {r \<in> set (q_running q). rt_object r = v \<and> rt_generation r = ls_generation (obj q v)}"
        using c by (simp add: core_def active_ok_def)
      moreover have "{r \<in> set (q_running ?q). rt_object r = v \<and> rt_generation r = ls_generation (obj ?q v)}
          = {r \<in> set (q_running q). rt_object r = v \<and> rt_generation r = ls_generation (obj q v)}
            \<union> (if v = u then {\<lparr>rt_object = u, rt_taskId = q_nextTaskId q,
                 rt_generation = ls_generation (obj q u), rt_entry = e\<rparr>} else {})" by auto
      ultimately show ?thesis by (auto simp: image_Un)
    qed
    fix r
    assume "r \<in> set (q_running ?q)"
    then show "rt_taskId r < q_nextTaskId ?q" "rt_object r < q_nextObject ?q"
      "rt_generation r \<le> ls_generation (obj ?q (rt_object r))"
      using c u by (auto simp: core_def active_ok_def)
  qed
  moreover have "lane_refs_ok ?q" using c by (auto simp: core_def lane_refs_ok_def)
  moreover have "queues_ok ?q"
  proof -
    have "sorted_wrt before rest \<and> (\<forall>x \<in> set rest. qe_sequence x < q_nextQueueSequence q)"
      using c e unfolding core_def queues_ok_def by (metis list.set_intros(2) sorted_wrt.simps(2))
    with c show ?thesis by (simp add: core_def queues_ok_def)
  qed
  moreover have "retired_ok ?q"
  proof -
    have "u \<in> snd ` set (q_lanes q)" using c e by (auto simp: core_def retired_ok_def)
    with c show ?thesis by (auto simp: core_def retired_ok_def)
  qed
  ultimately show ?thesis by (simp add: core_def)
qed

text \<open>What the pump loop leaves: the core invariant, a lane that is busy or empty, its flags, and
  every task that was active.\<close>

definition grows :: "queue_state \<Rightarrow> queue_state \<Rightarrow> bool" where
  "grows q q' \<longleftrightarrow> q_waiters q' = q_waiters q \<and> q_settled q' = q_settled q
     \<and> (\<forall>v. set (ls_activeTaskIds (obj q v)) \<subseteq> set (ls_activeTaskIds (obj q' v)))"

lemma grows_refl [simp]: "grows q q"
  by (simp add: grows_def)

lemma grows_trans: "grows q q' \<Longrightarrow> grows q' q'' \<Longrightarrow> grows q q''"
  by (fastforce simp: grows_def)

lemma pumpLoop_ok:
  assumes "core X q"
  shows "core X (pumpLoop now u q) \<and> grows q (pumpLoop now u q)
    \<and> q_lanes (pumpLoop now u q) = q_lanes q
    \<and> (\<forall>v. v \<noteq> u \<longrightarrow> obj (pumpLoop now u q) v = obj q v)
    \<and> ls_maxConcurrent (obj (pumpLoop now u q) u) = ls_maxConcurrent (obj q u)
    \<and> ls_lane (obj (pumpLoop now u q) u) = ls_lane (obj q u)
    \<and> (ls_queue (obj (pumpLoop now u q) u) \<noteq> [] \<longrightarrow>
         ls_maxConcurrent (obj q u) \<le> length (ls_activeTaskIds (obj (pumpLoop now u q) u)))
    \<and> length (ls_activeTaskIds (obj (pumpLoop now u q) u))
        \<le> max (length (ls_activeTaskIds (obj q u))) (ls_maxConcurrent (obj q u))"
  using assms
proof (induction now u q rule: pumpLoop.induct)
  case (1 now u q)
  show ?case
  proof (cases "ls_queue (obj q u)")
    case Nil
    with 1(2) show ?thesis by (simp add: pumpLoop.simps [of now u q])
  next
    case (Cons e rest)
    show ?thesis
    proof (cases "length (ls_activeTaskIds (obj q u)) < ls_maxConcurrent (obj q u)")
      case False
      with Cons 1(2) show ?thesis by (simp add: pumpLoop.simps [of now u q])
    next
      case True
      let ?s = "startTask now u e rest q"
      have eq: "pumpLoop now u q = pumpLoop now u ?s"
        using Cons True by (simp add: pumpLoop.simps [of now u q])
      have g: "grows q ?s" by (auto simp: grows_def)
      from 1(1) [OF Cons True core_startTask [OF 1(2) Cons]] grows_trans [OF g] True
      show ?thesis unfolding eq by auto
    qed
  qed
qed

lemma core_retire:
  assumes c: "core X q"
  shows "core X (retireIdleScopedCommandLane u q)"
proof (cases "retireIdleScopedCommandLane u q = q")
  case False
  let ?q = "retireIdleScopedCommandLane u q"
  have idle: "ls_activeTaskIds (obj q u) = []" "ls_queue (obj q u) = []"
    and m: "map_of (q_lanes q) (ls_lane (obj q u)) = Some u"
    and q': "?q = q\<lparr>q_lanes := AList.delete (ls_lane (obj q u)) (q_lanes q)\<rparr>"
    using False by (auto simp: retireIdleScopedCommandLane_def Let_def split: if_splits)
  have sub: "set (AList.delete (ls_lane (obj q u)) (q_lanes q)) \<subseteq> set (q_lanes q)"
    by (auto simp: AList.delete_eq)
  have "retired_ok ?q"
    unfolding retired_ok_def
  proof (intro allI impI)
    fix v
    assume v: "v \<notin> snd ` set (q_lanes ?q)"
    show "ls_queue (obj ?q v) = [] \<and> ls_activeTaskIds (obj ?q v) = []"
    proof (cases "v \<in> snd ` set (q_lanes q)")
      case True
      with v have "\<exists>n. (n, v) \<in> set (q_lanes q) \<and> n = ls_lane (obj q u)"
        by (auto simp: q' AList.delete_eq)
      with m c have "v = u" by (auto simp: core_def lane_refs_ok_def map_of_eq_Some_iff)
      with idle show ?thesis by (simp add: q')
    next
      case False
      with c show ?thesis by (simp add: core_def retired_ok_def q')
    qed
  qed
  moreover have "lane_refs_ok ?q"
    using c sub distinct_delete [of "q_lanes q" "ls_lane (obj q u)"] by (auto simp: core_def lane_refs_ok_def q')
  ultimately show ?thesis
    using c by (simp add: core_def q' active_ok_def queues_ok_def account_ok_def queuedSequences_def
        runningSequences_def settledSequences_def)
qed (use c in simp)

lemma retire_frame [simp]:
  "obj (retireIdleScopedCommandLane u q) v = obj q v" "q_waiters (retireIdleScopedCommandLane u q) = q_waiters q"
  "q_settled (retireIdleScopedCommandLane u q) = q_settled q"
  "q_nextQueueSequence (retireIdleScopedCommandLane u q) = q_nextQueueSequence q"
  by (simp_all add: retireIdleScopedCommandLane_def Let_def)

lemma pump_ok:
  assumes "core X q"
  shows "core X (pump now u q) \<and> grows q (pump now u q)
    \<and> (\<forall>v. v \<noteq> u \<longrightarrow> obj (pump now u q) v = obj q v)
    \<and> ls_maxConcurrent (obj (pump now u q) u) = ls_maxConcurrent (obj q u)
    \<and> \<not> ls_draining (obj (pump now u q) u)
    \<and> (ls_queue (obj (pump now u q) u) \<noteq> [] \<longrightarrow>
         ls_maxConcurrent (obj q u) \<le> length (ls_activeTaskIds (obj (pump now u q) u)))
    \<and> length (ls_activeTaskIds (obj (pump now u q) u))
        \<le> max (length (ls_activeTaskIds (obj q u))) (ls_maxConcurrent (obj q u))"
proof -
  let ?q1 = "pumpLoop now u q"
  note p = pumpLoop_ok [OF assms, of now u]
  have "core X (putObj u ((obj ?q1 u)\<lparr>ls_draining := False\<rparr>) ?q1)"
    by (rule core_flags) (use p in simp_all)
  from core_retire [OF this, of u] p show ?thesis
    unfolding pump_def Let_def grows_def by simp
qed


lemma waiters_ok_grows:
  assumes "waiters_ok q" "grows q q'"
  shows "waiters_ok q'"
  unfolding waiters_ok_def
proof
  fix w
  assume "w \<in> set (q_waiters q')"
  with assms have "w \<in> set (q_waiters q)" by (simp add: grows_def)
  with assms(1) obtain u where "set (tw_activeTaskIds w) \<inter> set (ls_activeTaskIds (obj q u)) \<noteq> {}"
    unfolding waiters_ok_def by blast
  then obtain t where t: "t \<in> set (tw_activeTaskIds w)" "t \<in> set (ls_activeTaskIds (obj q u))" by auto
  from t(2) assms(2) have "t \<in> set (ls_activeTaskIds (obj q' u))" by (auto simp: grows_def)
  with t(1) show "\<exists>u. set (tw_activeTaskIds w) \<inter> set (ls_activeTaskIds (obj q' u)) \<noteq> {}" by auto
qed

definition busy :: "lane_state \<Rightarrow> bool" where
  "busy s \<longleftrightarrow> ls_queue s = [] \<or> ls_maxConcurrent s \<le> length (ls_activeTaskIds s)"

lemma busy_ok_iff: "busy_ok q \<longleftrightarrow> (\<forall>v. busy (obj q v))"
  by (auto simp: busy_ok_def busy_def)

text \<open>Draining a lane changes one object, the one its name leads to, and leaves it busy or empty.\<close>

lemma drainLane_effect:
  assumes c: "core X q" and d: "drained_ok q"
  obtains u where "core X (drainLane now lane q)" "drained_ok (drainLane now lane q)"
    "grows q (drainLane now lane q)" "busy (obj (drainLane now lane q) u)"
    "\<And>v. v \<noteq> u \<Longrightarrow> obj (drainLane now lane q) v = obj q v"
    "\<And>v. map_of (q_lanes q) lane = Some v \<Longrightarrow> v = u"
proof -
  obtain u q1 where g: "getLaneState lane q = (u, q1)" by (cases "getLaneState lane q")
  note c1 = core_getLaneState [OF c g]
  have same: "map_of (q_lanes q) lane = Some v \<Longrightarrow> v = u" for v using g by (auto simp: getLaneState_def)
  have o: "obj q1 v = obj q v" if "v \<noteq> u" for v
    using g that by (auto simp: getLaneState_def Let_def split: option.splits)
  have gr: "grows q q1 \<and> \<not> ls_draining (obj q1 u)"
  proof (cases "map_of (q_lanes q) lane")
    case None
    then have "u = q_nextObject q" and q1: "q1 = (putObj u (newLane lane) q)
        \<lparr>q_nextObject := Suc u, q_lanes := AList.update lane u (q_lanes q)\<rparr>"
      using g by (auto simp: getLaneState_def Let_def)
    then have "ls_activeTaskIds (obj q u) = []" using core_allocated(1) [OF c, of u] by auto
    then show ?thesis by (auto simp: grows_def q1 newLane_def)
  qed (use g d in \<open>auto simp: getLaneState_def drained_ok_def\<close>)
  let ?q2 = "putObj u ((obj q1 u)\<lparr>ls_draining := True\<rparr>) q1"
  have "core X ?q2" by (rule core_flags [OF c1(1)]) simp_all
  note p = pump_ok [OF this, of now u]
  have eq: "drainLane now lane q = pump now u ?q2" using gr by (simp add: drainLane_def g Let_def)
  have "grows q1 ?q2" by (simp add: grows_def)
  with gr p have "grows q (pump now u ?q2)" using grows_trans by blast
  moreover have other: "obj (pump now u ?q2) v = obj q v" if "v \<noteq> u" for v using p o that by simp
  moreover have "drained_ok (pump now u ?q2)"
    unfolding drained_ok_def using p other d by (metis drained_ok_def)
  moreover have "busy (obj (pump now u ?q2) u)" using p by (auto simp: busy_def)
  ultimately show ?thesis using that [of u] p same unfolding eq by blast
qed

lemma drainLane_inv:
  assumes c: "core X q" and d: "\<forall>v. \<not> ls_draining (obj q v)"
    and b: "\<forall>v. map_of (q_lanes q) lane \<noteq> Some v \<and> ls_queue (obj q v) \<noteq> [] \<longrightarrow>
      ls_maxConcurrent (obj q v) \<le> length (ls_activeTaskIds (obj q v))"
  shows "core X (drainLane now lane q) \<and> busy_ok (drainLane now lane q) \<and> drained_ok (drainLane now lane q)
    \<and> grows q (drainLane now lane q)"
proof -
  have d': "drained_ok q" using d by (simp add: drained_ok_def)
  obtain u where u: "core X (drainLane now lane q)" "drained_ok (drainLane now lane q)"
    "grows q (drainLane now lane q)" "busy (obj (drainLane now lane q) u)"
    "\<And>v. v \<noteq> u \<Longrightarrow> obj (drainLane now lane q) v = obj q v"
    "\<And>v. map_of (q_lanes q) lane = Some v \<Longrightarrow> v = u"
    using drainLane_effect [OF c d', of now lane] by blast
  have "busy (obj (drainLane now lane q) v)" for v
  proof (cases "v = u")
    case False
    with u(5,6) b show ?thesis by (auto simp: busy_def)
  qed (use u(4) in simp)
  with u show ?thesis by (simp add: busy_ok_iff)
qed

subsection \<open>Notification\<close>

definition pendingFor :: "queue_state \<Rightarrow> task_waiter \<Rightarrow> bool" where
  "pendingFor q w \<longleftrightarrow> tw_activeTaskIds w \<noteq> [] \<and> hasPendingActiveTasks (tw_activeTaskIds w) q"

lemma pendingFor_iff:
  assumes "core X q"
  shows "pendingFor q w \<longleftrightarrow> (\<exists>u. set (tw_activeTaskIds w) \<inter> set (ls_activeTaskIds (obj q u)) \<noteq> {})"
proof -
  have "\<exists>n. (n, u) \<in> set (q_lanes q)" if "t \<in> set (ls_activeTaskIds (obj q u))" for t u
    using assms that by (force simp: core_def retired_ok_def)
  then show ?thesis
    by (fastforce simp: pendingFor_def hasPendingActiveTasks_def list_ex_iff)
qed

lemma notify_foldl:
  "\<exists>res. foldl notifyWaiter q ws =
     q\<lparr>q_waiters := filter (\<lambda>w. w \<notin> set ws \<or> pendingFor q w) (q_waiters q), q_resolved := res\<rparr>"
proof (induction ws arbitrary: q)
  case Nil
  show ?case by (rule exI [of _ "q_resolved q"]) simp
next
  case (Cons w ws)
  show ?case
  proof (cases "pendingFor q w")
    case True
    then have "notifyWaiter q w = q" by (simp add: notifyWaiter_def pendingFor_def)
    moreover have "filter (\<lambda>x. x \<notin> set ws \<or> pendingFor q x) (q_waiters q)
        = filter (\<lambda>x. x \<notin> set (w # ws) \<or> pendingFor q x) (q_waiters q)"
      using True by (intro filter_cong) auto
    ultimately show ?thesis using Cons.IH [of q] by simp
  next
    case False
    obtain r where one: "notifyWaiter q w = q\<lparr>q_waiters := removeAll w (q_waiters q), q_resolved := r\<rparr>"
    proof (cases "w \<in> set (q_waiters q)")
      case True
      with False that show ?thesis by (simp add: notifyWaiter_def pendingFor_def resolveActiveTaskWaiter_def)
    next
      case False': False
      with False that [of "q_resolved q"] show ?thesis
        by (simp add: notifyWaiter_def pendingFor_def resolveActiveTaskWaiter_def)
    qed
    have same: "pendingFor (q\<lparr>q_waiters := removeAll w (q_waiters q), q_resolved := r\<rparr>) = pendingFor q"
      by (simp add: pendingFor_def hasPendingActiveTasks_def fun_eq_iff)
    have "filter (\<lambda>x. x \<notin> set ws \<or> pendingFor q x) (removeAll w (q_waiters q))
        = filter (\<lambda>x. x \<notin> set (w # ws) \<or> pendingFor q x) (q_waiters q)"
      using False unfolding removeAll_filter_not_eq filter_filter by (intro filter_cong) auto
    with Cons.IH [of "notifyWaiter q w"] show ?thesis by (simp add: one same)
  qed
qed

lemma notify_shape:
  "\<exists>res. notifyActiveTaskWaiters q = q\<lparr>q_waiters := filter (pendingFor q) (q_waiters q), q_resolved := res\<rparr>"
proof -
  have "filter (\<lambda>w. w \<notin> set (q_waiters q) \<or> pendingFor q w) (q_waiters q) = filter (pendingFor q) (q_waiters q)"
    by (intro filter_cong) auto
  with notify_foldl [of q "q_waiters q"] show ?thesis unfolding notifyActiveTaskWaiters_def by simp
qed

lemma core_waiters: "core X (q\<lparr>q_waiters := ws, q_resolved := res\<rparr>) = core X q"
  by (simp add: core_defs queuedSequences_def runningSequences_def settledSequences_def)

lemma notify_inv:
  assumes "core X q"
  shows "core X (notifyActiveTaskWaiters q)" "waiters_ok (notifyActiveTaskWaiters q)"
    "obj (notifyActiveTaskWaiters q) v = obj q v" "q_settled (notifyActiveTaskWaiters q) = q_settled q"
    "busy_ok (notifyActiveTaskWaiters q) = busy_ok q" "drained_ok (notifyActiveTaskWaiters q) = drained_ok q"
proof -
  obtain res where n: "notifyActiveTaskWaiters q = q\<lparr>q_waiters := filter (pendingFor q) (q_waiters q), q_resolved := res\<rparr>"
    using notify_shape by blast
  show "core X (notifyActiveTaskWaiters q)" using assms by (simp add: n core_waiters)
  show "waiters_ok (notifyActiveTaskWaiters q)"
    using pendingFor_iff [OF assms] by (auto simp: n waiters_ok_def)
  show "obj (notifyActiveTaskWaiters q) v = obj q v" "q_settled (notifyActiveTaskWaiters q) = q_settled q"
    "busy_ok (notifyActiveTaskWaiters q) = busy_ok q" "drained_ok (notifyActiveTaskWaiters q) = drained_ok q"
    by (simp_all add: n busy_ok_def drained_ok_def)
qed


subsection \<open>Operations keep the invariant\<close>

lemma inv_drain:
  assumes "core {#} q" "waiters_ok q" "\<forall>v. \<not> ls_draining (obj q v)"
    and "\<forall>v. map_of (q_lanes q) lane \<noteq> Some v \<and> ls_queue (obj q v) \<noteq> [] \<longrightarrow>
      ls_maxConcurrent (obj q v) \<le> length (ls_activeTaskIds (obj q v))"
  shows "queue_inv (drainLane now lane q)"
  using drainLane_inv [OF assms(1,3,4), of now] waiters_ok_grows [OF assms(2)] by (simp add: queue_inv_def)

lemma getLaneState_inv:
  assumes "queue_inv q" "getLaneState lane q = (u, q')"
  shows "queue_inv q'"
proof (cases "map_of (q_lanes q) lane")
  case (Some v)
  with assms show ?thesis by (simp add: getLaneState_def)
next
  case None
  then have q': "q' = (putObj (q_nextObject q) (newLane lane) q)\<lparr>q_nextObject := Suc (q_nextObject q),
      q_lanes := AList.update lane (q_nextObject q) (q_lanes q)\<rparr>"
    using assms(2) by (auto simp: getLaneState_def Let_def)
  have c: "core {#} q" using assms(1) by (simp add: queue_inv_def)
  have "ls_activeTaskIds (obj q (q_nextObject q)) = []" using core_allocated(1) [OF c] by auto
  then have "grows q q'" by (auto simp: grows_def q')
  from waiters_ok_grows [OF _ this] assms(1) have "waiters_ok q'" by (simp add: queue_inv_def)
  moreover have "core {#} q'" by (rule core_getLaneState [OF c assms(2)])
  ultimately show ?thesis
    using assms(1) by (auto simp: queue_inv_def busy_ok_def drained_ok_def q' newLane_def)
qed

lemma findIndex_insert:
  "(case findIndex P xs of None \<Rightarrow> xs @ [e] | Some i \<Rightarrow> take i xs @ e # drop i xs)
     = takeWhile (\<lambda>x. \<not> P x) xs @ e # dropWhile (\<lambda>x. \<not> P x) xs"
  by (induction xs) (auto split: option.splits)

lemma enqueueLaneEntry_queue:
  "\<exists>e'. qe_priority e' = qe_priority e \<and> qe_sequence e' = qe_sequence e
     \<and> enqueueLaneEntry s e = s\<lparr>ls_queue := takeWhile (\<lambda>x. \<not> overtakes e x) (ls_queue s)
           @ e' # dropWhile (\<lambda>x. \<not> overtakes e x) (ls_queue s)\<rparr>"
proof -
  let ?e' = "e\<lparr>qe_queuedAhead := nullish (findIndex (overtakes e) (ls_queue s)) (length (ls_queue s)),
      qe_activeAhead := length (ls_activeTaskIds s)\<rparr>"
  have "enqueueLaneEntry s e = s\<lparr>ls_queue := takeWhile (\<lambda>x. \<not> overtakes e x) (ls_queue s)
      @ ?e' # dropWhile (\<lambda>x. \<not> overtakes e x) (ls_queue s)\<rparr>"
    using findIndex_insert [where P = "overtakes e" and xs = "ls_queue s" and e = ?e']
    by (simp add: enqueueLaneEntry_def Let_def split: option.splits)
  then show ?thesis by (intro exI [of _ ?e']) simp
qed

lemma before_trans: "before a b \<Longrightarrow> before b c \<Longrightarrow> before a c"
  by (auto simp: before_def)

lemma insert_sorted:
  assumes "sorted_wrt before xs" "\<forall>x \<in> set xs. qe_sequence x < qe_sequence e"
    and "qe_priority e' = qe_priority e" "qe_sequence e' = qe_sequence e"
  shows "sorted_wrt before (takeWhile (\<lambda>x. \<not> overtakes e x) xs @ e' # dropWhile (\<lambda>x. \<not> overtakes e x) xs)"
proof -
  let ?a = "takeWhile (\<lambda>x. \<not> overtakes e x) xs" and ?b = "dropWhile (\<lambda>x. \<not> overtakes e x) xs"
  have xs: "sorted_wrt before (?a @ ?b)" using assms(1) by simp
  have a: "before x e'" if "x \<in> set ?a" for x
  proof -
    from that have "x \<in> set xs" "\<not> overtakes e x" by (auto dest: set_takeWhileD)
    with assms show ?thesis by (auto simp: before_def overtakes_def)
  qed
  have b: "before e' x" if "x \<in> set ?b" for x
  proof (cases ?b)
    case (Cons h t)
    have "overtakes e h" using Cons by (metis dropWhile_eq_Cons_conv)
    moreover have "h \<in> set xs" using Cons by (metis list.set_intros(1) set_dropWhileD)
    ultimately have h: "before e' h" using assms by (auto simp: before_def overtakes_def)
    have "x = h \<or> before h x" using that Cons xs by (auto simp: sorted_wrt_append)
    with h before_trans show ?thesis by blast
  next
    case Nil
    from that [unfolded Nil] show ?thesis by simp
  qed
  have "before x y" if "x \<in> set ?a" "y \<in> set ?b" for x y
    using a [OF that(1)] b [OF that(2)] by (rule before_trans)
  with xs a b show ?thesis unfolding sorted_wrt_append by auto
qed

lemma core_enqueue:
  assumes c: "core X q" and u: "map_of (q_lanes q) lane = Some u" and e: "qe_sequence e = q_nextQueueSequence q"
  shows "core X ((putObj u (enqueueLaneEntry (obj q u) e) q)\<lparr>q_nextQueueSequence := Suc (q_nextQueueSequence q)\<rparr>)"
    (is "core X ?q")
proof -
  let ?s = "obj q u"
  obtain e' where e': "qe_priority e' = qe_priority e" "qe_sequence e' = qe_sequence e" and
    s: "enqueueLaneEntry ?s e = ?s\<lparr>ls_queue := takeWhile (\<lambda>x. \<not> overtakes e x) (ls_queue ?s)
           @ e' # dropWhile (\<lambda>x. \<not> overtakes e x) (ls_queue ?s)\<rparr>"
    using enqueueLaneEntry_queue by blast
  let ?l = "takeWhile (\<lambda>x. \<not> overtakes e x) (ls_queue ?s) @ e' # dropWhile (\<lambda>x. \<not> overtakes e x) (ls_queue ?s)"
  have lt: "u < q_nextObject q" using c u by (auto simp: core_def lane_refs_ok_def dest: map_of_SomeD)
  have set: "set ?l = insert e' (set (ls_queue ?s))"
    by simp (metis set_append takeWhile_dropWhile_id)
  have m: "mset (map qe_sequence ?l) = mset (map qe_sequence (ls_queue ?s)) + {#q_nextQueueSequence q#}"
    using e e'(2) by simp (metis image_mset_union mset_append takeWhile_dropWhile_id)
  have "queuedSequences (putObj u (enqueueLaneEntry ?s e) q) + mset (map qe_sequence (ls_queue ?s))
      = queuedSequences q + (mset (map qe_sequence (ls_queue ?s)) + {#q_nextQueueSequence q#})"
    unfolding queuedSequences_putObj [OF lt] s m [symmetric] by simp
  then have "queuedSequences (putObj u (enqueueLaneEntry ?s e) q) = queuedSequences q + {#q_nextQueueSequence q#}"
    by (metis add.assoc add.commute add_right_cancel)
  then have "queuedSequences ?q = queuedSequences q + {#q_nextQueueSequence q#}"
    by (simp add: queuedSequences_def)
  then have "account_ok X ?q"
    using c by (auto simp: core_def account_ok_def runningSequences_def settledSequences_def upt_Suc_append ac_simps)
  moreover have "sorted_wrt before ?l"
    using c e e' by (intro insert_sorted) (auto simp: core_def queues_ok_def)
  then have "queues_ok ?q"
    using c set e e'(2) unfolding core_def queues_ok_def s by (auto simp: less_SucI)
  moreover have "u \<in> snd ` set (q_lanes q)" using u by (force dest: map_of_SomeD)
  then have "retired_ok ?q" using c by (auto simp: core_def retired_ok_def)
  moreover have "lane_refs_ok ?q" "active_ok ?q"
    using c by (auto simp: core_def lane_refs_ok_def active_ok_def s)
  ultimately show ?thesis by (simp add: core_def)
qed

lemma enqueue_inv:
  assumes "queue_inv q"
  shows "queue_inv (snd (enqueueCommandInLane closed now lane opts q))"
proof (cases closed)
  case False
  let ?lane = "normalizeLane lane"
  obtain u q1 where g: "getLaneState ?lane q = (u, q1)" by (cases "getLaneState ?lane q")
  have i1: "queue_inv q1" by (rule getLaneState_inv [OF assms g])
  have c: "core {#} q" using assms by (simp add: queue_inv_def)
  note c1 = core_getLaneState [OF c g]
  define e where "e = \<lparr>qe_sequence = q_nextQueueSequence q1, qe_priority = resolveQueuePriority (eo_priority opts),
     qe_enqueuedAt = now, qe_warnAfterMs = nullish (eo_warnAfterMs opts) 2000,
     qe_queuedAhead = 0, qe_activeAhead = 0,
     qe_taskTimeoutMs = normalizeTaskTimeoutMs (eo_taskTimeoutMs opts),
     qe_taskTimeoutAbortGraceMs = normalizeTaskTimeoutMs (eo_taskTimeoutAbortGraceMs opts),
     qe_onWait = eo_onWait opts\<rparr>"
  let ?q2 = "(putObj u (enqueueLaneEntry (obj q1 u) e) q1)\<lparr>q_nextQueueSequence := Suc (q_nextQueueSequence q1)\<rparr>"
  have "core {#} ?q2" by (rule core_enqueue [OF c1(1,3)]) (simp add: e_def)
  moreover have s: "ls_activeTaskIds (enqueueLaneEntry s e) = ls_activeTaskIds s"
    "ls_draining (enqueueLaneEntry s e) = ls_draining s" for s
    using enqueueLaneEntry_queue [of e s] by auto
  then have "grows q1 ?q2" by (simp add: grows_def)
  from waiters_ok_grows [OF _ this] i1 have "waiters_ok ?q2" by (simp add: queue_inv_def)
  ultimately have "queue_inv (drainLane now ?lane ?q2)"
    using i1 c1(3) s by (intro inv_drain) (auto simp: queue_inv_def drained_ok_def busy_ok_def)
  then show ?thesis
    using False by (simp add: enqueueCommandInLane_def g e_def Let_def)
qed (use assms in \<open>simp add: enqueueCommandInLane_def\<close>)


lemma concurrency_inv:
  assumes "queue_inv q"
  shows "queue_inv (setCommandLaneConcurrency now lane limit q)"
proof -
  let ?lane = "normalizeLane lane"
  obtain u q1 where g: "getLaneState ?lane q = (u, q1)" by (cases "getLaneState ?lane q")
  have i1: "queue_inv q1" by (rule getLaneState_inv [OF assms g])
  have "core {#} q" using assms by (simp add: queue_inv_def)
  note c1 = core_getLaneState(3) [OF this g]
  define m where "m = nat (max (if isQuietProbeLane ?lane then 1 else 0) limit)"
  let ?q2 = "putObj u ((obj q1 u)\<lparr>ls_maxConcurrent := m\<rparr>) q1"
  have c2: "core {#} ?q2" by (rule core_flags) (use i1 in \<open>simp_all add: queue_inv_def\<close>)
  have "grows q1 ?q2" by (simp add: grows_def)
  from waiters_ok_grows [OF _ this] i1 have w2: "waiters_ok ?q2" by (simp add: queue_inv_def)
  have d2: "\<forall>v. \<not> ls_draining (obj ?q2 v)" using i1 by (simp add: queue_inv_def drained_ok_def)
  have "queue_inv (drainLane now ?lane ?q2)"
    using i1 c1 by (intro inv_drain c2 w2 d2) (auto simp: queue_inv_def busy_ok_def)
  moreover have "queue_inv ?q2" if "m = 0"
    using c2 w2 d2 that i1 by (auto simp: queue_inv_def busy_ok_def drained_ok_def)
  moreover have "setCommandLaneConcurrency now lane limit q = (if m > 0 then drainLane now ?lane ?q2 else ?q2)"
    by (simp only: setCommandLaneConcurrency_def g Let_def case_prod_conv m_def)
  ultimately show ?thesis by simp
qed

lemma clear_inv:
  assumes "queue_inv q"
  shows "queue_inv (snd (clearCommandLane lane q))"
proof (cases "map_of (q_lanes q) (normalizeLane (nullish lane MainLane))")
  case (Some u)
  let ?s = "(obj q u)\<lparr>ls_queue := []\<rparr>" and ?p = "ls_queue (obj q u)"
  let ?lane = "normalizeLane (nullish lane MainLane)"
  let ?q = "(putObj u ?s q)\<lparr>q_settled := q_settled q @ map (\<lambda>e. (qe_sequence e, Rejected (LaneCleared ?lane))) ?p\<rparr>"
  have c: "core {#} q" using assms by (simp add: queue_inv_def)
  have lt: "u < q_nextObject q" using c Some by (auto simp: core_def lane_refs_ok_def dest: map_of_SomeD)
  have "queuedSequences (putObj u ?s q) + mset (map qe_sequence ?p) = queuedSequences q"
    using queuedSequences_putObj [OF lt, of ?s] by simp
  then have "account_ok {#} ?q"
    using c by (auto simp: core_def account_ok_def runningSequences_def settledSequences_def queuedSequences_def
        comp_def ac_simps)
  moreover have "lane_refs_ok ?q" "active_ok ?q" "retired_ok ?q" "queues_ok ?q"
    using c by (auto simp: core_def lane_refs_ok_def active_ok_def retired_ok_def queues_ok_def)
  ultimately have "core {#} ?q" by (simp add: core_def)
  moreover have "waiters_ok ?q"
  proof -
    have "(\<lambda>v. ls_activeTaskIds (obj ?q v)) = (\<lambda>v. ls_activeTaskIds (obj q v))" by auto
    note e = this [THEN fun_cong]
    show ?thesis using assms unfolding queue_inv_def waiters_ok_def e by simp
  qed
  moreover have "busy_ok ?q" "drained_ok ?q" using assms by (auto simp: queue_inv_def busy_ok_def drained_ok_def)
  ultimately have "queue_inv ?q" by (simp add: queue_inv_def)
  then show ?thesis using Some by (simp add: clearCommandLane_def Let_def)
qed (use assms in \<open>simp add: clearCommandLane_def Let_def\<close>)

lemma core_reset:
  assumes "core X q"
  shows "core X (putObj u (resetLane (obj q u)) q)"
proof -
  let ?q = "putObj u (resetLane (obj q u)) q"
  have "queuedSequences ?q = queuedSequences q" by (rule queuedSequences_same) (simp add: resetLane_def)
  moreover have "active_ok ?q"
  proof -
    have "rt_generation r \<noteq> Suc (ls_generation (obj q u))" if "r \<in> set (q_running q)" "rt_object r = u" for r
      using assms that by (auto simp: core_def active_ok_def)
    then show ?thesis
      using assms unfolding core_def active_ok_def by (auto simp: resetLane_def le_SucI)
  qed
  moreover have "lane_refs_ok ?q" "retired_ok ?q" "queues_ok ?q"
    using assms by (auto simp: core_def lane_refs_ok_def retired_ok_def queues_ok_def resetLane_def)
  ultimately show ?thesis
    using assms by (simp add: core_def account_ok_def runningSequences_def settledSequences_def)
qed

lemma inv_notify:
  assumes "core {#} q" "busy_ok q" "drained_ok q"
  shows "queue_inv (notifyActiveTaskWaiters q)"
  using assms notify_inv [OF assms(1)] by (simp add: queue_inv_def)

lemma reset_inv:
  assumes "queue_inv q"
  shows "queue_inv (snd (resetCommandLane now lane q))"
proof (cases "map_of (q_lanes q) (normalizeLane (nullish lane MainLane))")
  case (Some u)
  let ?lane = "normalizeLane (nullish lane MainLane)" and ?q1 = "putObj u (resetLane (obj q u)) q"
  have c1: "core {#} ?q1" by (rule core_reset) (use assms in \<open>simp add: queue_inv_def\<close>)
  have b: "\<not> ls_draining (obj ?q1 v)" "v \<noteq> u \<Longrightarrow> ls_queue (obj ?q1 v) \<noteq> [] \<Longrightarrow>
      ls_maxConcurrent (obj ?q1 v) \<le> length (ls_activeTaskIds (obj ?q1 v))" for v
    using assms by (auto simp: queue_inv_def busy_ok_def drained_ok_def resetLane_def)
  have "core {#} (drainLane now ?lane ?q1) \<and> busy_ok (drainLane now ?lane ?q1) \<and> drained_ok (drainLane now ?lane ?q1)"
    using drainLane_inv [OF c1, of ?lane now] b Some by auto
  moreover have "busy_ok ?q1" "drained_ok ?q1" if "ls_queue (obj ?q1 u) = []"
    using b that by (auto simp: busy_ok_def drained_ok_def)
  ultimately show ?thesis
    using Some c1 inv_notify by (auto simp: resetCommandLane_def Let_def)
qed (use assms in \<open>simp add: resetCommandLane_def Let_def\<close>)

text \<open>Resetting every lane, then draining the ones with queued work.\<close>

lemma reset_fold:
  assumes "core X q"
  shows "core X (foldl (\<lambda>q' (lane, u). putObj u (resetLane (obj q' u)) q') q ls)
    \<and> q_lanes (foldl (\<lambda>q' (lane, u). putObj u (resetLane (obj q' u)) q') q ls) = q_lanes q
    \<and> (\<forall>v. ls_queue (obj (foldl (\<lambda>q' (lane, u). putObj u (resetLane (obj q' u)) q') q ls) v) = ls_queue (obj q v)
        \<and> ls_lane (obj (foldl (\<lambda>q' (lane, u). putObj u (resetLane (obj q' u)) q') q ls) v) = ls_lane (obj q v)
        \<and> (\<not> ls_draining (obj q v) \<longrightarrow> \<not> ls_draining (obj (foldl (\<lambda>q' (lane, u). putObj u (resetLane (obj q' u)) q') q ls) v)))"
  using assms
proof (induction ls arbitrary: q)
  case (Cons l ls)
  obtain n u where l: "l = (n, u)" by (cases l)
  from Cons.IH [OF core_reset [OF Cons.prems, of u]] show ?case by (auto simp: l resetLane_def)
qed simp

text \<open>Every lane with a name outside \<open>L\<close> is busy or empty.\<close>

definition busy_outside :: "string set \<Rightarrow> queue_state \<Rightarrow> bool" where
  "busy_outside L q \<longleftrightarrow> (\<forall>v. ls_lane (obj q v) \<notin> L \<longrightarrow> busy (obj q v))"

lemma drain_fold:
  assumes "core X q" "drained_ok q" "busy_outside (set ls) q"
  shows "core X (foldl (\<lambda>q' lane. drainLane now lane q') q ls)
    \<and> busy_ok (foldl (\<lambda>q' lane. drainLane now lane q') q ls)
    \<and> drained_ok (foldl (\<lambda>q' lane. drainLane now lane q') q ls)"
  using assms
proof (induction ls arbitrary: q)
  case Nil
  then show ?case by (simp add: busy_ok_iff busy_outside_def)
next
  case (Cons l ls)
  let ?q = "drainLane now l q"
  obtain u where u: "core X ?q" "drained_ok ?q" "busy (obj ?q u)"
    "\<And>v. v \<noteq> u \<Longrightarrow> obj ?q v = obj q v" "\<And>v. map_of (q_lanes q) l = Some v \<Longrightarrow> v = u"
    using drainLane_effect [OF Cons.prems(1,2), of now l] by metis
  have "busy_outside (set ls) ?q"
    unfolding busy_outside_def
  proof (intro allI impI)
    fix v
    assume out: "ls_lane (obj ?q v) \<notin> set ls"
    show "busy (obj ?q v)"
    proof (cases "v = u")
      case False
      then have e: "obj ?q v = obj q v" by (rule u(4))
      have "ls_lane (obj q v) \<noteq> l" if "\<not> busy (obj q v)"
        using that False core_allocated(2) [OF Cons.prems(1), of v] u(5) by (auto simp: busy_def)
      with out e Cons.prems(3) show ?thesis unfolding busy_outside_def by auto
    qed (use u(3) in simp)
  qed
  with Cons.IH [OF u(1,2)] show ?case by simp
qed

lemma reset_all_inv:
  assumes "queue_inv q"
  shows "queue_inv (resetEveryLane now q)"
proof -
  let ?q1 = "foldl (\<lambda>q' (lane, u). putObj u (resetLane (obj q' u)) q') q (q_lanes q)"
  let ?ls = "map (\<lambda>(lane, u). ls_lane (obj ?q1 u)) (filter (\<lambda>(lane, u). ls_queue (obj ?q1 u) \<noteq> []) (q_lanes q))"
  have c: "core {#} q" using assms by (simp add: queue_inv_def)
  note r = reset_fold [OF c, of "q_lanes q"]
  then have c1: "core {#} ?q1" and d1: "drained_ok ?q1"
    using assms by (auto simp: queue_inv_def drained_ok_def)
  have "ls_lane (obj ?q1 v) \<in> set ?ls" if "\<not> busy (obj ?q1 v)" for v
  proof -
    from that have ne: "ls_queue (obj ?q1 v) \<noteq> []" by (auto simp: busy_def)
    from core_allocated(2) [OF c1] ne r have "(ls_lane (obj ?q1 v), v) \<in> set (q_lanes q)"
      by (metis map_of_SomeD)
    with ne show ?thesis by force
  qed
  then have "busy_outside (set ?ls) ?q1" unfolding busy_outside_def by blast
  from drain_fold [OF c1 d1 this, of now] show ?thesis
    unfolding resetEveryLane_def Let_def by (intro inv_notify) simp_all
qed

lemma wait_inv:
  assumes "queue_inv q"
  shows "queue_inv (snd (waitForActiveTasks timeoutMs q))"
proof -
  have c: "core {#} (q\<lparr>q_waiters := ws, q_nextWaiter := n\<rparr>)" "busy_ok (q\<lparr>q_waiters := ws, q_nextWaiter := n\<rparr>)"
    "drained_ok (q\<lparr>q_waiters := ws, q_nextWaiter := n\<rparr>)" for ws n
    using assms by (simp_all add: queue_inv_def core_defs busy_ok_def drained_ok_def queuedSequences_def
        runningSequences_def settledSequences_def)
  show ?thesis
    using assms inv_notify [OF c] by (simp add: waitForActiveTasks_def Let_def split: option.split)
qed

lemma wait_timeout_inv:
  assumes "queue_inv q"
  shows "queue_inv (resolveActiveTaskWaiter w d q)"
  using assms by (auto simp: resolveActiveTaskWaiter_def queue_inv_def core_waiters busy_ok_def drained_ok_def waiters_ok_def)

text \<open>A task that settles leaves the list of running tasks and, if its generation is current, the
  active set; its command is then accounted for by \<open>X\<close>.\<close>

lemma core_complete:
  assumes c: "core {#} q" and r: "r \<in> set (q_running q)"
    and q1: "completeTask (rt_object r) (rt_taskId r) (rt_generation r) (q\<lparr>q_running := removeAll r (q_running q)\<rparr>)
      = (current, q1)"
  shows "core {#qe_sequence (rt_entry r)#} q1"
proof -
  let ?u = "rt_object r"
  have act: "active_ok q" using c by (simp add: core_def)
  then have dist: "distinct (map rt_taskId (q_running q))" by (simp add: active_ok_def)
  have eqid: "r' = r" if "r' \<in> set (q_running q)" "rt_taskId r' = rt_taskId r" for r'
    using dist that r by (metis distinct_map inj_onD)
  have o: "obj q1 v = (if v = ?u \<and> current
      then (obj q v)\<lparr>ls_activeTaskIds := removeAll (rt_taskId r) (ls_activeTaskIds (obj q v))\<rparr> else obj q v)" for v
    using q1 by (auto simp: completeTask_def putObj_def split: if_splits)
  have cur: "current \<longleftrightarrow> rt_generation r = ls_generation (obj q ?u)"
    and fr: "q_running q1 = removeAll r (q_running q)" "q_lanes q1 = q_lanes q" "q_nextObject q1 = q_nextObject q"
      "q_nextTaskId q1 = q_nextTaskId q" "q_nextQueueSequence q1 = q_nextQueueSequence q" "q_settled q1 = q_settled q"
    using q1 by (auto simp: completeTask_def putObj_def split: if_splits)
  have queue: "ls_queue (obj q1 v) = ls_queue (obj q v)" "ls_lane (obj q1 v) = ls_lane (obj q v)"
    "ls_generation (obj q1 v) = ls_generation (obj q v)" for v by (simp_all add: o)
  have "set (ls_activeTaskIds (obj q1 v)) = rt_taskId `
      {r' \<in> set (q_running q1). rt_object r' = v \<and> rt_generation r' = ls_generation (obj q1 v)}" for v
  proof -
    have a: "set (ls_activeTaskIds (obj q v)) = rt_taskId `
        {r' \<in> set (q_running q). rt_object r' = v \<and> rt_generation r' = ls_generation (obj q v)}"
      using act by (simp add: active_ok_def)
    have "{r' \<in> set (q_running q1). rt_object r' = v \<and> rt_generation r' = ls_generation (obj q1 v)}
        = {r' \<in> set (q_running q). rt_object r' = v \<and> rt_generation r' = ls_generation (obj q v)} - {r}"
      by (auto simp: fr queue)
    moreover have "rt_taskId ` (A - {r}) = rt_taskId ` A - (if r \<in> A then {rt_taskId r} else {})"
      if "A \<subseteq> set (q_running q)" for A
      using that eqid by auto
    ultimately show ?thesis using a r by (auto simp: o cur)
  qed
  moreover have "distinct (ls_activeTaskIds (obj q1 v))" for v using act by (simp add: o active_ok_def distinct_removeAll)
  moreover have "distinct (map rt_taskId (q_running q1))"
    using dist unfolding fr removeAll_filter_not_eq by (rule distinct_map_filter)
  ultimately have "active_ok q1"
    using act unfolding active_ok_def fr queue by auto
  moreover have "runningSequences q = runningSequences q1 + {#qe_sequence (rt_entry r)#}"
  proof -
    have "distinct (q_running q)" using dist by (simp add: distinct_map)
    then have "mset (removeAll r (q_running q)) = mset (q_running q) - {#r#}"
      by (simp add: distinct_remove1_removeAll [symmetric])
    then show ?thesis using r unfolding runningSequences_def fr mset_map
      by (metis add_mset_add_single image_mset_add_mset insert_DiffM set_mset_mset)
  qed
  then have "account_ok {#qe_sequence (rt_entry r)#} q1"
    using c by (simp add: core_def account_ok_def fr queue queuedSequences_def settledSequences_def ac_simps)
  moreover have "lane_refs_ok q1" "queues_ok q1" using c by (simp_all add: core_def lane_refs_ok_def queues_ok_def fr queue)
  moreover have "retired_ok q1" using c by (auto simp: core_def retired_ok_def fr o)
  ultimately show ?thesis by (simp add: core_def)
qed

lemma core_settle:
  assumes "core {#s#} q"
  shows "core {#} (q\<lparr>q_settled := q_settled q @ [(s, outcome)]\<rparr>)"
  using assms by (simp add: core_defs queuedSequences_def runningSequences_def settledSequences_def ac_simps)

lemma settle_inv:
  assumes i: "queue_inv q" and r: "r \<in> set (q_running q)"
  shows "queue_inv (settleTask now r outcome q)"
proof -
  let ?u = "rt_object r" and ?s = "qe_sequence (rt_entry r)"
  let ?q0 = "q\<lparr>q_running := removeAll r (q_running q)\<rparr>"
  obtain current q1 where q1: "completeTask ?u (rt_taskId r) (rt_generation r) ?q0 = (current, q1)"
    by (cases "completeTask ?u (rt_taskId r) (rt_generation r) ?q0")
  have c: "core {#} q" using i by (simp add: queue_inv_def)
  note c1 = core_complete [OF c r q1]
  define q2 where "q2 = (if current then pump now ?u (notifyActiveTaskWaiters q1) else q1)"
  have "core {#?s#} q2 \<and> busy_ok q2 \<and> drained_ok q2 \<and> waiters_ok q2"
  proof (cases current)
    case False
    then have "q1 = ?q0" using q1 by (auto simp: completeTask_def split: if_splits)
    with c1 i False show ?thesis
      by (auto simp: q2_def queue_inv_def busy_ok_def drained_ok_def waiters_ok_def)
  next
    case True
    let ?n = "notifyActiveTaskWaiters q1"
    note n = notify_inv [OF c1]
    note p = pump_ok [OF n(1), of now ?u]
    have o: "obj q1 v = obj q v" if "v \<noteq> ?u" for v
      using q1 that by (auto simp: completeTask_def split: if_splits)
    have "busy (obj q2 v) \<and> \<not> ls_draining (obj q2 v)" for v
    proof (cases "v = ?u")
      case True
      with p \<open>current\<close> show ?thesis by (auto simp: q2_def busy_def)
    next
      case False
      then have "obj q2 v = obj q v" using p n(3) o \<open>current\<close> by (simp add: q2_def)
      with i show ?thesis by (simp add: queue_inv_def busy_ok_iff drained_ok_def)
    qed
    moreover have "waiters_ok q2" using waiters_ok_grows [OF n(2)] p True by (simp add: q2_def)
    ultimately show ?thesis using p True by (simp add: q2_def busy_ok_iff drained_ok_def)
  qed
  then have "queue_inv (q2\<lparr>q_settled := q_settled q2 @ [(?s, outcome)]\<rparr>)"
    using core_settle by (simp add: queue_inv_def busy_ok_def drained_ok_def waiters_ok_def)
  then show ?thesis by (simp add: settleTask_def q1 q2_def Let_def)
qed

lemma queue_inv_initial: "queue_inv initialQueueState"
  by (simp add: queue_inv_def core_defs busy_ok_def drained_ok_def waiters_ok_def initialQueueState_def newLane_def
      queuedSequences_def runningSequences_def settledSequences_def)

lemma queue_inv_step: "queue_inv q \<Longrightarrow> queue_step q q' \<Longrightarrow> queue_inv q'"
  by (erule queue_stepE)
     (auto intro: enqueue_inv settle_inv concurrency_inv clear_inv reset_inv reset_all_inv wait_inv wait_timeout_inv)

interpretation lane_queue: inductive_invariant initial_queue queue_step queue_inv
  by unfold_locales (auto simp: initial_queue_def intro: queue_inv_initial queue_inv_step)

subsection \<open>Effect of a step on the active tasks\<close>

text \<open>What a step does to the active tasks: limits of existing lanes stay, an active set grows only
  up to the limit, and only by fresh task ids.\<close>

definition advances :: "queue_state \<Rightarrow> queue_state \<Rightarrow> bool" where
  "advances q q' \<longleftrightarrow> q_nextObject q \<le> q_nextObject q' \<and> q_nextTaskId q \<le> q_nextTaskId q'
     \<and> (\<forall>u. (u < q_nextObject q \<longrightarrow> ls_maxConcurrent (obj q' u) = ls_maxConcurrent (obj q u))
          \<and> length (ls_activeTaskIds (obj q' u))
              \<le> max (length (ls_activeTaskIds (obj q u))) (ls_maxConcurrent (obj q' u))
          \<and> set (ls_activeTaskIds (obj q' u)) \<subseteq> set (ls_activeTaskIds (obj q u)) \<union> {q_nextTaskId q..})"

lemma advancesI:
  assumes "q_nextObject q' = q_nextObject q" "q_nextTaskId q' = q_nextTaskId q"
    and "\<And>u. ls_maxConcurrent (obj q' u) = ls_maxConcurrent (obj q u)"
    and "\<And>u. length (ls_activeTaskIds (obj q' u)) \<le> length (ls_activeTaskIds (obj q u))"
    and "\<And>u. set (ls_activeTaskIds (obj q' u)) \<subseteq> set (ls_activeTaskIds (obj q u))"
  shows "advances q q'"
  using assms by (fastforce simp: advances_def le_max_iff_disj)

lemma advances_refl [simp]: "advances q q"
  by (rule advancesI) simp_all

lemma subset_chain: "A'' \<subseteq> A' \<union> T' \<Longrightarrow> A' \<subseteq> A \<union> T \<Longrightarrow> T' \<subseteq> T \<Longrightarrow> A'' \<subseteq> A \<union> T"
  by blast

lemma advances_trans:
  assumes "advances q q'" "advances q' q''" "core X q'"
  shows "advances q q''"
  unfolding advances_def
proof (intro conjI allI impI)
  show "q_nextObject q \<le> q_nextObject q''" "q_nextTaskId q \<le> q_nextTaskId q''"
    using assms(1,2) by (auto simp: advances_def)
  fix u
  show "ls_maxConcurrent (obj q'' u) = ls_maxConcurrent (obj q u)" if "u < q_nextObject q"
    using assms(1,2) that by (auto simp: advances_def)
  show "set (ls_activeTaskIds (obj q'' u)) \<subseteq> set (ls_activeTaskIds (obj q u)) \<union> {q_nextTaskId q..}"
  proof -
    have "set (ls_activeTaskIds (obj q'' u)) \<subseteq> set (ls_activeTaskIds (obj q' u)) \<union> {q_nextTaskId q'..}"
      "set (ls_activeTaskIds (obj q' u)) \<subseteq> set (ls_activeTaskIds (obj q u)) \<union> {q_nextTaskId q..}"
      "{q_nextTaskId q'..} \<subseteq> {q_nextTaskId q..}"
      using assms(1,2) by (simp_all add: advances_def)
    then show ?thesis by (rule subset_chain)
  qed
  show "length (ls_activeTaskIds (obj q'' u)) \<le> max (length (ls_activeTaskIds (obj q u))) (ls_maxConcurrent (obj q'' u))"
  proof (cases "u < q_nextObject q'")
    case True
    then have "ls_maxConcurrent (obj q'' u) = ls_maxConcurrent (obj q' u)" using assms(2) by (simp add: advances_def)
    moreover have "length (ls_activeTaskIds (obj q'' u)) \<le> max (length (ls_activeTaskIds (obj q' u))) (ls_maxConcurrent (obj q'' u))"
      "length (ls_activeTaskIds (obj q' u)) \<le> max (length (ls_activeTaskIds (obj q u))) (ls_maxConcurrent (obj q' u))"
      using assms(1,2) by (auto simp: advances_def)
    ultimately show ?thesis by simp
  next
    case False
    then have "ls_activeTaskIds (obj q' u) = []" using core_allocated(1) [OF assms(3)] by blast
    moreover have "length (ls_activeTaskIds (obj q'' u)) \<le> max (length (ls_activeTaskIds (obj q' u))) (ls_maxConcurrent (obj q'' u))"
      using assms(2) by (simp add: advances_def)
    ultimately show ?thesis by simp
  qed
qed

lemma pumpLoop_advances: "core X q \<Longrightarrow> advances q (pumpLoop now u q)"
proof (induction now u q rule: pumpLoop.induct)
  case (1 now u q)
  show ?case
  proof (cases "ls_queue (obj q u)")
    case Nil
    then show ?thesis by (simp add: pumpLoop.simps [of now u q])
  next
    case (Cons e rest)
    show ?thesis
    proof (cases "length (ls_activeTaskIds (obj q u)) < ls_maxConcurrent (obj q u)")
      case False
      with Cons show ?thesis by (simp add: pumpLoop.simps [of now u q])
    next
      case True
      let ?s = "startTask now u e rest q"
      have eq: "pumpLoop now u q = pumpLoop now u ?s"
        using Cons True by (simp add: pumpLoop.simps [of now u q])
      have s: "advances q ?s" using True by (auto simp: advances_def)
      have c: "core X ?s" by (rule core_startTask [OF 1(2) Cons])
      from advances_trans [OF s 1(1) [OF Cons True c] c] show ?thesis unfolding eq .
    qed
  qed
qed

lemma retire_counters [simp]:
  "q_nextObject (retireIdleScopedCommandLane u q) = q_nextObject q"
  "q_nextTaskId (retireIdleScopedCommandLane u q) = q_nextTaskId q"
  by (simp_all add: retireIdleScopedCommandLane_def Let_def)

lemma pump_advances:
  assumes "core X q"
  shows "advances q (pump now u q)"
proof -
  let ?q1 = "pumpLoop now u q"
  have "advances ?q1 (pump now u q)" unfolding pump_def Let_def by (rule advancesI) simp_all
  with advances_trans [OF pumpLoop_advances [OF assms]] pumpLoop_ok [OF assms] show ?thesis by blast
qed

lemma getLaneState_advances:
  assumes c: "core X q" and g: "getLaneState lane q = (u, q')"
  shows "advances q q'"
proof (cases "map_of (q_lanes q) lane")
  case None
  then have q': "q' = (putObj (q_nextObject q) (newLane lane) q)\<lparr>q_nextObject := Suc (q_nextObject q),
      q_lanes := AList.update lane (q_nextObject q) (q_lanes q)\<rparr>"
    using g by (auto simp: getLaneState_def Let_def)
  show ?thesis by (simp add: advances_def q' newLane_def)
qed (use g in \<open>simp add: getLaneState_def\<close>)

lemma drainLane_advances:
  assumes c: "core X q"
  shows "advances q (drainLane now lane q)"
proof -
  obtain u q1 where g: "getLaneState lane q = (u, q1)" by (cases "getLaneState lane q")
  note c1 = core_getLaneState(1) [OF c g]
  let ?q2 = "putObj u ((obj q1 u)\<lparr>ls_draining := True\<rparr>) q1"
  have c2: "core X ?q2" by (rule core_flags [OF c1]) simp_all
  have "advances q1 ?q2" by (rule advancesI) simp_all
  from advances_trans [OF this pump_advances [OF c2] c2] have "advances q1 (pump now u ?q2)" .
  from advances_trans [OF getLaneState_advances [OF c g] this c1] getLaneState_advances [OF c g] show ?thesis
    by (simp add: drainLane_def g Let_def)
qed

lemma drainLane_core: "core X q \<Longrightarrow> drained_ok q \<Longrightarrow> core X (drainLane now lane q) \<and> drained_ok (drainLane now lane q)"
  by (rule drainLane_effect [of X q now lane]) auto

lemma notify_advances: "core X q \<Longrightarrow> advances q (notifyActiveTaskWaiters q)"
proof -
  assume "core X q"
  obtain res where n: "notifyActiveTaskWaiters q = q\<lparr>q_waiters := filter (pendingFor q) (q_waiters q), q_resolved := res\<rparr>"
    using notify_shape by blast
  show ?thesis by (rule advancesI) (simp_all add: n)
qed


text \<open>The effect of one step on the active tasks of every lane object; unlike the steps inside an
  operation, setting the concurrency may change a limit.\<close>

definition step_effect :: "queue_state \<Rightarrow> queue_state \<Rightarrow> bool" where
  "step_effect q q' \<longleftrightarrow> q_nextTaskId q \<le> q_nextTaskId q'
     \<and> (\<forall>u. length (ls_activeTaskIds (obj q' u))
              \<le> max (length (ls_activeTaskIds (obj q u))) (ls_maxConcurrent (obj q' u))
          \<and> set (ls_activeTaskIds (obj q' u)) \<subseteq> set (ls_activeTaskIds (obj q u)) \<union> {q_nextTaskId q..})"

lemma advances_effect: "advances q q' \<Longrightarrow> step_effect q q'"
  by (simp add: advances_def step_effect_def)

lemma effect_after_put:
  assumes "advances (putObj u s q) q'" "ls_activeTaskIds s = ls_activeTaskIds (obj q u)"
  shows "step_effect q q'"
proof -
  have "ls_activeTaskIds (obj (putObj u s q) v) = ls_activeTaskIds (obj q v)" for v using assms(2) by simp
  with assms(1) show ?thesis unfolding advances_def step_effect_def by simp
qed

lemma effect_trans:
  assumes "advances q q'" "step_effect q' q''" "core X q'"
    and "\<And>u. u < q_nextObject q' \<Longrightarrow> length (ls_activeTaskIds (obj q' u)) \<le> length (ls_activeTaskIds (obj q u))"
  shows "step_effect q q''"
  unfolding step_effect_def
proof (intro conjI allI)
  show "q_nextTaskId q \<le> q_nextTaskId q''" using assms(1,2) by (auto simp: advances_def step_effect_def)
  fix u
  have "set (ls_activeTaskIds (obj q'' u)) \<subseteq> set (ls_activeTaskIds (obj q' u)) \<union> {q_nextTaskId q'..}"
    "set (ls_activeTaskIds (obj q' u)) \<subseteq> set (ls_activeTaskIds (obj q u)) \<union> {q_nextTaskId q..}"
    "{q_nextTaskId q'..} \<subseteq> {q_nextTaskId q..}"
    using assms(1,2) by (simp_all add: advances_def step_effect_def)
  then show "set (ls_activeTaskIds (obj q'' u)) \<subseteq> set (ls_activeTaskIds (obj q u)) \<union> {q_nextTaskId q..}"
    by (rule subset_chain)
  have "length (ls_activeTaskIds (obj q' u)) \<le> length (ls_activeTaskIds (obj q u))"
    using assms(4) core_allocated(1) [OF assms(3), of u] by fastforce
  moreover have "length (ls_activeTaskIds (obj q'' u)) \<le> max (length (ls_activeTaskIds (obj q' u))) (ls_maxConcurrent (obj q'' u))"
    using assms(2) by (simp add: step_effect_def)
  ultimately show "length (ls_activeTaskIds (obj q'' u)) \<le> max (length (ls_activeTaskIds (obj q u))) (ls_maxConcurrent (obj q'' u))"
    by simp
qed

lemma getLaneState_active:
  "getLaneState lane q = (u, q') \<Longrightarrow> length (ls_activeTaskIds (obj q' v)) \<le> length (ls_activeTaskIds (obj q v))"
  by (auto simp: getLaneState_def newLane_def Let_def split: option.splits)

lemma enqueue_effect:
  assumes "queue_inv q"
  shows "step_effect q (snd (enqueueCommandInLane closed now lane opts q))"
proof (cases closed)
  case False
  let ?lane = "normalizeLane lane"
  obtain u q1 where g: "getLaneState ?lane q = (u, q1)" by (cases "getLaneState ?lane q")
  have c: "core {#} q" using assms by (simp add: queue_inv_def)
  note c1 = core_getLaneState [OF c g]
  define e where "e = \<lparr>qe_sequence = q_nextQueueSequence q1, qe_priority = resolveQueuePriority (eo_priority opts),
     qe_enqueuedAt = now, qe_warnAfterMs = nullish (eo_warnAfterMs opts) 2000,
     qe_queuedAhead = 0, qe_activeAhead = 0,
     qe_taskTimeoutMs = normalizeTaskTimeoutMs (eo_taskTimeoutMs opts),
     qe_taskTimeoutAbortGraceMs = normalizeTaskTimeoutMs (eo_taskTimeoutAbortGraceMs opts),
     qe_onWait = eo_onWait opts\<rparr>"
  let ?q2 = "(putObj u (enqueueLaneEntry (obj q1 u) e) q1)\<lparr>q_nextQueueSequence := Suc (q_nextQueueSequence q1)\<rparr>"
  have c2: "core {#} ?q2" by (rule core_enqueue [OF c1(1,3)]) (simp add: e_def)
  have s: "ls_activeTaskIds (enqueueLaneEntry s e) = ls_activeTaskIds s"
    "ls_maxConcurrent (enqueueLaneEntry s e) = ls_maxConcurrent s" for s
    using enqueueLaneEntry_queue [of e s] by auto
  have "advances q1 ?q2" by (rule advancesI) (simp_all add: s)
  from advances_trans [OF this drainLane_advances [OF c2] c2]
  have "advances q1 (drainLane now ?lane ?q2)" .
  from advances_trans [OF getLaneState_advances [OF c g] this c1(1)] show ?thesis
    using False by (simp add: enqueueCommandInLane_def g e_def Let_def advances_effect)
qed (simp add: enqueueCommandInLane_def advances_effect)

lemma concurrency_effect:
  assumes "queue_inv q"
  shows "step_effect q (setCommandLaneConcurrency now lane limit q)"
proof -
  let ?lane = "normalizeLane lane"
  obtain u q1 where g: "getLaneState ?lane q = (u, q1)" by (cases "getLaneState ?lane q")
  have c: "core {#} q" using assms by (simp add: queue_inv_def)
  note c1 = core_getLaneState [OF c g]
  define m where "m = nat (max (if isQuietProbeLane ?lane then 1 else 0) limit)"
  let ?q2 = "putObj u ((obj q1 u)\<lparr>ls_maxConcurrent := m\<rparr>) q1"
  have c2: "core {#} ?q2" by (rule core_flags) (use c1 in simp_all)
  have eq: "setCommandLaneConcurrency now lane limit q = (if m > 0 then drainLane now ?lane ?q2 else ?q2)"
    by (simp only: setCommandLaneConcurrency_def g Let_def case_prod_conv m_def)
  have "advances ?q2 (setCommandLaneConcurrency now lane limit q)"
    unfolding eq using drainLane_advances [OF c2, of now ?lane] by simp
  then have "step_effect q1 (setCommandLaneConcurrency now lane limit q)" by (rule effect_after_put) simp
  from effect_trans [OF getLaneState_advances [OF c g] this c1(1)] getLaneState_active [OF g] show ?thesis by blast
qed

lemma reset_step_advances: "advances q (putObj u (resetLane (obj q u)) q)"
  by (rule advancesI) (simp_all add: resetLane_def)

lemma reset_effect:
  assumes "queue_inv q"
  shows "step_effect q (snd (resetCommandLane now lane q))"
proof (cases "map_of (q_lanes q) (normalizeLane (nullish lane MainLane))")
  case (Some u)
  let ?lane = "normalizeLane (nullish lane MainLane)" and ?q1 = "putObj u (resetLane (obj q u)) q"
  have c: "core {#} q" and d: "drained_ok q" using assms by (simp_all add: queue_inv_def)
  have c1: "core {#} ?q1" by (rule core_reset [OF c])
  have d1: "drained_ok ?q1" using d by (simp add: drained_ok_def resetLane_def)
  define q2 where "q2 = (if ls_queue (obj ?q1 u) \<noteq> [] then drainLane now ?lane ?q1 else ?q1)"
  have "advances ?q1 q2" "core {#} q2"
    using drainLane_advances [OF c1] drainLane_core [OF c1 d1] c1 by (auto simp: q2_def)
  then have "advances q (notifyActiveTaskWaiters q2)"
    using advances_trans [OF reset_step_advances _ c1] advances_trans notify_advances by blast
  moreover have "snd (resetCommandLane now lane q) = notifyActiveTaskWaiters q2"
    using Some by (simp add: resetCommandLane_def q2_def Let_def)
  ultimately show ?thesis by (simp add: advances_effect)
qed (simp add: resetCommandLane_def advances_effect Let_def)

lemma reset_fold_advances:
  "core X q \<Longrightarrow> advances q (foldl (\<lambda>q' (lane, u). putObj u (resetLane (obj q' u)) q') q ls)"
proof (induction ls arbitrary: q)
  case (Cons l ls)
  obtain n u where l: "l = (n, u)" by (cases l)
  have c: "core X (putObj u (resetLane (obj q u)) q)" by (rule core_reset [OF Cons.prems])
  from advances_trans [OF reset_step_advances Cons.IH [OF c] c] show ?case by (simp add: l)
qed simp

lemma drain_fold_advances:
  "core X q \<Longrightarrow> drained_ok q \<Longrightarrow> advances q (foldl (\<lambda>q' lane. drainLane now lane q') q ls)
     \<and> core X (foldl (\<lambda>q' lane. drainLane now lane q') q ls)"
proof (induction ls arbitrary: q)
  case (Cons l ls)
  note d = drainLane_core [OF Cons.prems, of now l]
  with Cons.IH [of "drainLane now l q"] advances_trans [OF drainLane_advances [OF Cons.prems(1), of now l]]
  show ?case by auto
qed simp

lemma reset_all_effect:
  assumes "queue_inv q"
  shows "step_effect q (resetEveryLane now q)"
proof -
  let ?q1 = "foldl (\<lambda>q' (lane, u). putObj u (resetLane (obj q' u)) q') q (q_lanes q)"
  have c: "core {#} q" and d: "drained_ok q" using assms by (simp_all add: queue_inv_def)
  have c1: "core {#} ?q1" and d1: "drained_ok ?q1"
    using reset_fold [OF c, of "q_lanes q"] d by (auto simp: drained_ok_def)
  show ?thesis
    unfolding resetEveryLane_def Let_def
    using drain_fold_advances [OF c1 d1, of now] reset_fold_advances [OF c, of "q_lanes q"]
    by (intro advances_effect) (blast intro: advances_trans notify_advances c1)
qed

lemma settle_effect:
  assumes "queue_inv q" "r \<in> set (q_running q)"
  shows "step_effect q (settleTask now r outcome q)"
proof -
  let ?u = "rt_object r" and ?q0 = "q\<lparr>q_running := removeAll r (q_running q)\<rparr>"
  obtain current q1 where q1: "completeTask ?u (rt_taskId r) (rt_generation r) ?q0 = (current, q1)"
    by (cases "completeTask ?u (rt_taskId r) (rt_generation r) ?q0")
  have c: "core {#} q" using assms by (simp add: queue_inv_def)
  note c1 = core_complete [OF c assms(2) q1]
  define q2 where "q2 = (if current then pump now ?u (notifyActiveTaskWaiters q1) else q1)"
  have "advances q q1"
    by (rule advancesI) (use q1 in \<open>auto simp: completeTask_def length_removeAll_less_eq split: if_splits\<close>)
  moreover have "advances q1 q2"
    using notify_advances [OF c1] advances_trans pump_advances notify_inv(1) [OF c1] by (auto simp: q2_def)
  ultimately have "advances q q2" using advances_trans c1 by blast
  moreover have "settleTask now r outcome q = q2\<lparr>q_settled := q_settled q2 @ [(qe_sequence (rt_entry r), outcome)]\<rparr>"
    by (simp add: settleTask_def q1 q2_def Let_def)
  ultimately show ?thesis by (simp add: advances_def step_effect_def)
qed

lemma queue_step_effect:
  assumes i: "queue_inv q" and s: "queue_step q q'"
  shows "step_effect q q'"
  using s
proof (cases rule: queue_step.cases)
  case (clear lane)
  have "advances q (snd (clearCommandLane lane q))"
    by (rule advancesI) (auto simp: clearCommandLane_def Let_def split: option.split)
  with clear show ?thesis by (simp add: advances_effect)
next
  case (wait timeoutMs)
  have "core {#} (q\<lparr>q_waiters := ws, q_nextWaiter := n\<rparr>)" for ws n
    using i by (simp add: queue_inv_def core_defs queuedSequences_def runningSequences_def settledSequences_def)
  from notify_advances [OF this] have "step_effect q (notifyActiveTaskWaiters (q\<lparr>q_waiters := ws, q_nextWaiter := n\<rparr>))" for ws n
    by (simp add: advances_def step_effect_def)
  with wait show ?thesis by (simp add: waitForActiveTasks_def Let_def advances_effect split: option.split)
next
  case (wait_timeout w)
  then show ?thesis by (simp add: resolveActiveTaskWaiter_def step_effect_def)
qed (use i enqueue_effect concurrency_effect reset_effect reset_all_effect settle_effect in auto)

subsection \<open>Properties\<close>

text \<open>A short run: three commands on a session lane, the second in the background, the third in the
  foreground, then a waiter.\<close>

definition demo_opts :: "lane_priority option \<Rightarrow> enqueue_options" where
  "demo_opts p = \<lparr>eo_warnAfterMs = None, eo_onWait = True, eo_taskTimeoutMs = None,
     eo_taskTimeoutAbortGraceMs = None, eo_priority = p\<rparr>"

definition demo_enqueue :: "lane_priority option \<Rightarrow> queue_state \<Rightarrow> queue_state" where
  "demo_enqueue p q = snd (enqueueCommandInLane False 0 ''session:a'' (demo_opts p) q)"

definition demo_queue :: queue_state where
  "demo_queue = snd (waitForActiveTasks None
     (demo_enqueue (Some Foreground) (demo_enqueue (Some Background) (demo_enqueue None initialQueueState))))"

lemma demo_enqueue_step: "queue_step q (demo_enqueue p q)"
  unfolding demo_enqueue_def by (rule queue_step.enqueue)

lemma demo_reachable: "reachable initial_queue queue_step demo_queue"
proof -
  note st = reachable.step [where init = initial_queue and step = queue_step]
  have "reachable initial_queue queue_step initialQueueState"
    by (rule reachable.start) (simp add: initial_queue_def)
  from st [OF st [OF st [OF this demo_enqueue_step] demo_enqueue_step] demo_enqueue_step]
  show ?thesis unfolding demo_queue_def by (rule st) (rule queue_step.wait)
qed

text \<open>C21. Every command settles at most once and none is lost. In every reachable state of the queue
  the commands accepted so far (sequence numbers from 1 up to the next one) are exactly the queued
  ones, the running ones and the ones whose promise was settled, each in one of these places and
  once: across priorities, concurrency changes, clearing, forced resets and retired lanes.\<close>

theorem commands_settle_exactly_once:
  assumes "reachable initial_queue queue_step q"
  shows "queuedSequences q + runningSequences q + settledSequences q = mset [1..<q_nextQueueSequence q]
    \<and> distinct (map fst (q_settled q))"
proof -
  have e: "queuedSequences q + runningSequences q + settledSequences q = mset [1..<q_nextQueueSequence q]"
    using lane_queue.reachable_inv [OF assms] by (simp add: queue_inv_def core_def account_ok_def)
  obtain ql where ql: "mset ql = queuedSequences q" using ex_mset by blast
  have "mset (ql @ map (\<lambda>r. qe_sequence (rt_entry r)) (q_running q) @ map fst (q_settled q))
      = mset [1..<q_nextQueueSequence q]"
    using e ql by (simp add: runningSequences_def settledSequences_def ac_simps)
  from mset_eq_imp_distinct_iff [OF this] e show ?thesis by simp
qed

theorem commands_settle_exactly_once_witness:
  "queuedSequences demo_queue + runningSequences demo_queue + settledSequences demo_queue = mset [1, 2, 3]
   \<and> distinct (map fst (q_settled demo_queue))"
proof -
  have "q_nextQueueSequence demo_queue = 4" "[1..<4] = [1, 2, 3::nat]" by code_simp+
  then show ?thesis
    using commands_settle_exactly_once [OF demo_reachable] by simp
qed

text \<open>C22. Lanes are work-conserving and never stuck. Between steps no lane is marked as draining,
  and a lane that reports queued commands reports as many active tasks as its concurrency limit
  allows; so queued work waits only for running tasks or for a limit of zero.\<close>

theorem lanes_are_work_conserving:
  assumes "reachable initial_queue queue_step q"
  shows "\<not> sn_draining (getCommandLaneSnapshot lane q)
    \<and> (sn_queuedCount (getCommandLaneSnapshot lane q) = 0
       \<or> sn_maxConcurrent (getCommandLaneSnapshot lane q) \<le> sn_activeCount (getCommandLaneSnapshot lane q))"
  using lane_queue.reachable_inv [OF assms]
  by (auto simp: queue_inv_def busy_ok_def drained_ok_def getCommandLaneSnapshot_def
      createCommandLaneSnapshot_def Let_def split: option.split)

theorem lanes_are_work_conserving_witness:
  "sn_queuedCount (getCommandLaneSnapshot (Some ''session:a'') demo_queue) = 2
   \<and> sn_maxConcurrent (getCommandLaneSnapshot (Some ''session:a'') demo_queue)
     \<le> sn_activeCount (getCommandLaneSnapshot (Some ''session:a'') demo_queue)"
proof -
  have "sn_queuedCount (getCommandLaneSnapshot (Some ''session:a'') demo_queue) = 2" by code_simp
  then show ?thesis using lanes_are_work_conserving [OF demo_reachable, of "Some ''session:a''"] by simp
qed

text \<open>Commands start in order of priority, first come first served within a priority: the queue
  of every lane object is strictly sorted by descending priority and ascending sequence number.\<close>

theorem lane_queues_are_ordered:
  assumes "reachable initial_queue queue_step q"
  shows "sorted_wrt (\<lambda>a b. qe_priority b < qe_priority a
      \<or> (qe_priority b = qe_priority a \<and> qe_sequence a < qe_sequence b)) (ls_queue (q_objects q u))"
  using lane_queue.reachable_inv [OF assms]
  by (simp add: queue_inv_def core_def queues_ok_def before_def [abs_def])

theorem lane_queues_are_ordered_witness:
  "map qe_sequence (ls_queue (q_objects demo_queue 0)) = [3, 2]
   \<and> sorted_wrt (\<lambda>a b. qe_priority b < qe_priority a
      \<or> (qe_priority b = qe_priority a \<and> qe_sequence a < qe_sequence b)) (ls_queue (q_objects demo_queue 0))"
proof -
  have "map qe_sequence (ls_queue (q_objects demo_queue 0)) = [3, 2]" by code_simp
  then show ?thesis using lane_queues_are_ordered [OF demo_reachable, of 0] by simp
qed

text \<open>No wake-up is lost: in every reachable state each registered waiter of
  \<open>waitForActiveTasks\<close> still has one of its tasks in the active set of some lane, so a waiter
  whose tasks have all finished, or were released by a reset, has been resolved.\<close>

theorem waiters_are_not_forgotten:
  assumes "reachable initial_queue queue_step q" "w \<in> set (q_waiters q)"
  shows "\<exists>lane u. (lane, u) \<in> set (q_lanes q)
    \<and> set (tw_activeTaskIds w) \<inter> set (ls_activeTaskIds (q_objects q u)) \<noteq> {}"
proof -
  note i = lane_queue.reachable_inv [OF assms(1)]
  then obtain u where u: "set (tw_activeTaskIds w) \<inter> set (ls_activeTaskIds (q_objects q u)) \<noteq> {}"
    using assms(2) unfolding queue_inv_def waiters_ok_def by blast
  then have "ls_activeTaskIds (q_objects q u) \<noteq> []" by auto
  with core_allocated(2) [of "{#}" q u] i have "map_of (q_lanes q) (ls_lane (q_objects q u)) = Some u"
    by (simp add: queue_inv_def)
  then show ?thesis using u by (blast dest: map_of_SomeD)
qed

theorem waiters_are_not_forgotten_witness:
  "\<exists>lane u. (lane, u) \<in> set (q_lanes demo_queue) \<and> {1} \<inter> set (ls_activeTaskIds (q_objects demo_queue u)) \<noteq> {}"
proof -
  have "q_waiters demo_queue = [\<lparr>tw_id = 0, tw_activeTaskIds = [1]\<rparr>]" by code_simp
  then show ?thesis
    using waiters_are_not_forgotten [OF demo_reachable, of "\<lparr>tw_id = 0, tw_activeTaskIds = [1]\<rparr>"] by simp
qed

text \<open>The concurrency limit holds: no step makes the active set of a lane larger than both what
  it was and the limit the lane has after the step; a lane above its limit (because the limit was
  lowered) starts nothing.\<close>

theorem concurrency_limit_respected:
  assumes "reachable initial_queue queue_step q" "queue_step q q'"
  shows "length (ls_activeTaskIds (q_objects q' u))
    \<le> max (length (ls_activeTaskIds (q_objects q u))) (ls_maxConcurrent (q_objects q' u))"
  using queue_step_effect [OF lane_queue.reachable_inv [OF assms(1)] assms(2)]
  by (simp add: step_effect_def)

theorem concurrency_limit_respected_witness:
  "length (ls_activeTaskIds (q_objects (demo_enqueue None demo_queue) 0))
    \<le> max (length (ls_activeTaskIds (q_objects demo_queue 0)))
        (ls_maxConcurrent (q_objects (demo_enqueue None demo_queue) 0))"
  by (rule concurrency_limit_respected [OF demo_reachable demo_enqueue_step])

text \<open>A released task never becomes current again: once the id of a started task is in no
  active set, \<open>isCommandLaneTaskMarkerCurrent\<close> answers no for every marker with that id, now and
  after any further steps, even when a lane of the same name was retired and created anew.\<close>

theorem released_markers_stay_released:
  assumes "reachable initial_queue queue_step q" "queue_step\<^sup>*\<^sup>* q q'"
    and "tm_taskId m < q_nextTaskId q" "\<forall>u. tm_taskId m \<notin> set (ls_activeTaskIds (q_objects q u))"
  shows "\<not> isCommandLaneTaskMarkerCurrent (Some m) q'"
proof -
  let ?gone = "\<lambda>q. tm_taskId m < q_nextTaskId q \<and> (\<forall>u. tm_taskId m \<notin> set (ls_activeTaskIds (q_objects q u)))"
  have "reachable initial_queue queue_step q' \<and> ?gone q'"
    using assms(2)
  proof (induction rule: rtranclp_induct)
    case base
    show ?case using assms by simp
  next
    case (step y z)
    then have e: "step_effect y z" using queue_step_effect lane_queue.reachable_inv by blast
    have "tm_taskId m \<notin> set (ls_activeTaskIds (q_objects z u))" for u
    proof -
      have "set (ls_activeTaskIds (q_objects z u)) \<subseteq> set (ls_activeTaskIds (q_objects y u)) \<union> {q_nextTaskId y..}"
        using e by (simp add: step_effect_def)
      with step.IH show ?thesis by auto
    qed
    with step e reachable.step show ?case by (fastforce simp: step_effect_def)
  qed
  then show ?thesis by (auto simp: isCommandLaneTaskMarkerCurrent_def split: option.split)
qed

definition demo_marker :: task_marker where
  "demo_marker = \<lparr>tm_lane = ''session:a'', tm_taskId = 1, tm_generation = 0\<rparr>"

theorem released_markers_stay_released_witness:
  "isCommandLaneTaskMarkerCurrent (Some demo_marker) (demo_enqueue None initialQueueState)
   \<and> \<not> isCommandLaneTaskMarkerCurrent (Some demo_marker)
        (demo_enqueue None (snd (resetCommandLane 0 (Some ''session:a'') (demo_enqueue None initialQueueState))))"
proof -
  let ?q = "demo_enqueue None initialQueueState"
  let ?r = "snd (resetCommandLane 0 (Some ''session:a'') ?q)"
  have "reachable initial_queue queue_step initialQueueState"
    by (rule reachable.start) (simp add: initial_queue_def)
  then have q: "reachable initial_queue queue_step ?q" using demo_enqueue_step by (rule reachable.step)
  have r: "reachable initial_queue queue_step ?r"
    by (rule reachable.step [OF q]) (rule queue_step.reset)
  have s: "queue_step\<^sup>*\<^sup>* ?r (demo_enqueue None ?r)"
    by (rule r_into_rtranclp [of queue_step]) (rule demo_enqueue_step)
  have n: "tm_taskId demo_marker < q_nextTaskId ?r" by code_simp
  have "ls_activeTaskIds (q_objects ?r u) = []" for u
  proof (cases "u = 0")
    case True
    have "ls_activeTaskIds (q_objects ?r 0) = []" by code_simp
    with True show ?thesis by simp
  next
    case False
    have "q_nextObject ?r = 1" by code_simp
    with False core_allocated(1) [of "{#}" ?r u] lane_queue.reachable_inv [OF r]
    show ?thesis by (auto simp: queue_inv_def)
  qed
  then have a: "\<forall>u. tm_taskId demo_marker \<notin> set (ls_activeTaskIds (q_objects ?r u))" by simp
  have "isCommandLaneTaskMarkerCurrent (Some demo_marker) ?q" by code_simp
  with released_markers_stay_released [OF r s n a] show ?thesis by simp
qed

end
