(* ===== verification/Work_Admission.thy ===== *)
theory Work_Admission
  imports Prelude Transition_System "HOL-Library.Multiset"
begin

text \<open>
  The work admission gate of the gateway process, \<open>src/process/gateway-work-admission.ts\<close>: the
  one-way restart drain, the reversible restart-signal fence, host suspension with its
  prepare/commit lease, reference-counted root work, and the callers that wait for the gate.

  A step of the model is one synchronous run: an exported function called by a client, a closure of
  a lease, the continuation of a resolved promise, or a timer. The record of a root
  (\<open>GatewayRootWorkAdmission\<close>) is shared by the active set, by the release closures and by the
  async-local storage, so roots live in the store \<open>wa_admissions\<close> and release closures, with
  their captured flag, in \<open>wa_releases\<close>; both are addressed by allocation number. The value of
  the async-local storage at a call is the argument \<open>cur\<close>. Resolving a promise makes its
  continuation runnable: \<open>wa_resumed\<close> and \<open>wa_drainResolved\<close> hold the continuations that
  have not run yet, \<open>wa_settled\<close> and \<open>wa_drainAnswers\<close> the answers of finished calls, and
  \<open>wa_invalidations\<close> the calls of the suspension callbacks. The callbacks belong to the
  suspension coordinator; what they do is a later step. Log output is not modelled.
\<close>

subsection \<open>Data\<close>

datatype suspend_phase = Accepting | Preparing | Prepared

record root_admission =
  ra_references :: int
  ra_released :: bool

record root_release =
  rl_admission :: nat
  rl_leaseReleased :: bool

text \<open>A lease: \<open>gl_release\<close> is the release closure (none for nested work, whose \<open>release\<close>
  does nothing), \<open>gl_admission\<close> the root that \<open>run\<close> installs in the async-local storage.\<close>

record root_lease =
  gl_ownsRoot :: bool
  gl_release :: "nat option"
  gl_admission :: "nat option"

text \<open>A call that waits for the gate: its number, its async-local root and which loop it runs.\<close>

record open_waiter =
  ow_id :: nat
  ow_current :: "nat option"
  ow_independent :: bool

datatype admission_answer = Admitted root_lease | Draining

datatype drain_answer = DrainNow bool nat | DrainWait nat

record admission_state =
  wa_restartDraining :: bool
  wa_restartSignalPending :: bool
  wa_restartSignalGeneration :: nat
  wa_suspendPhase :: suspend_phase
  wa_suspendGeneration :: nat
  wa_suspendInvalidated :: "nat option"
  wa_activeRootWork :: "nat list"
  wa_rootDrainWaiters :: "nat list option"
  wa_suspendOpenWaiters :: "open_waiter list"
  wa_admissions :: "root_admission list"
  wa_releases :: "root_release list"
  wa_nextCall :: nat
  wa_resumed :: "open_waiter list"
  wa_settled :: "(nat \<times> admission_answer) list"
  wa_nextDrain :: nat
  wa_drainTimers :: "nat list"
  wa_drainResolved :: "nat list"
  wa_drainAnswers :: "(nat \<times> bool \<times> nat) list"
  wa_invalidations :: "nat list"

definition initialAdmissionState :: admission_state where
  "initialAdmissionState =
     \<lparr>wa_restartDraining = False, wa_restartSignalPending = False, wa_restartSignalGeneration = 0,
      wa_suspendPhase = Accepting, wa_suspendGeneration = 0, wa_suspendInvalidated = None,
      wa_activeRootWork = [], wa_rootDrainWaiters = Some [], wa_suspendOpenWaiters = [],
      wa_admissions = [], wa_releases = [], wa_nextCall = 0, wa_resumed = [], wa_settled = [],
      wa_nextDrain = 0, wa_drainTimers = [], wa_drainResolved = [], wa_drainAnswers = [],
      wa_invalidations = []\<rparr>"

subsection \<open>Root work and its release\<close>

definition createGatewayRootWorkRelease :: "nat \<Rightarrow> admission_state \<Rightarrow> nat \<times> admission_state" where
  "createGatewayRootWorkRelease admission s =
     (length (wa_releases s),
      s\<lparr>wa_releases := wa_releases s @ [\<lparr>rl_admission = admission, rl_leaseReleased = False\<rparr>]\<rparr>)"

definition createGatewayRootWorkAdmission :: "admission_state \<Rightarrow> root_lease \<times> admission_state" where
  "createGatewayRootWorkAdmission s =
     (let admission = length (wa_admissions s);
          s1 = s\<lparr>wa_admissions := wa_admissions s @ [\<lparr>ra_references = 1, ra_released = False\<rparr>],
                 wa_activeRootWork := js_set_add (wa_activeRootWork s) admission\<rparr>;
          (release, s2) = createGatewayRootWorkRelease admission s1
      in (\<lparr>gl_ownsRoot = True, gl_release = Some release, gl_admission = Some admission\<rparr>, s2))"

definition resolveRootDrainWaiters :: "admission_state \<Rightarrow> admission_state" where
  "resolveRootDrainWaiters s =
     (case wa_rootDrainWaiters s of
        None \<Rightarrow> s
      | Some waiters \<Rightarrow>
          s\<lparr>wa_rootDrainWaiters := Some [],
            wa_drainResolved := foldl js_set_add (wa_drainResolved s) waiters\<rparr>)"

text \<open>The closure returned by \<open>createGatewayRootWorkRelease\<close>.\<close>

definition releaseRootWork :: "nat \<Rightarrow> admission_state \<Rightarrow> admission_state" where
  "releaseRootWork r s =
     (let closure = wa_releases s ! r;
          a = rl_admission closure;
          admission = wa_admissions s ! a
      in if rl_leaseReleased closure \<or> ra_released admission then s
         else
           let references = ra_references admission - 1;
               s1 = s\<lparr>wa_releases := (wa_releases s)[r := closure\<lparr>rl_leaseReleased := True\<rparr>],
                      wa_admissions := (wa_admissions s)[a := admission\<lparr>ra_references := references\<rparr>]\<rparr>
           in if references > 0 then s1
              else
                let s2 = s1\<lparr>wa_admissions := (wa_admissions s)
                                [a := admission\<lparr>ra_references := references, ra_released := True\<rparr>],
                             wa_activeRootWork := removeAll a (wa_activeRootWork s1)\<rparr>
                in if wa_activeRootWork s2 = [] then resolveRootDrainWaiters s2 else s2)"

definition resolveSuspendOpenWaiters :: "admission_state \<Rightarrow> admission_state" where
  "resolveSuspendOpenWaiters s =
     s\<lparr>wa_suspendOpenWaiters := [], wa_resumed := wa_resumed s @ wa_suspendOpenWaiters s\<rparr>"

definition invalidateSuspendAdmission :: "admission_state \<Rightarrow> admission_state" where
  "invalidateSuspendAdmission s =
     (let callback = wa_suspendInvalidated s;
          s1 = resolveSuspendOpenWaiters
            (s\<lparr>wa_suspendInvalidated := None, wa_suspendPhase := Accepting,
               wa_suspendGeneration := Suc (wa_suspendGeneration s)\<rparr>)
      in s1\<lparr>wa_invalidations := wa_invalidations s1 @ (case callback of None \<Rightarrow> [] | Some c \<Rightarrow> [c])\<rparr>)"

definition clearRestartSignalFence :: "admission_state \<Rightarrow> bool \<times> admission_state" where
  "clearRestartSignalFence s =
     (if wa_restartDraining s \<or> \<not> wa_restartSignalPending s then (False, s)
      else (True, resolveSuspendOpenWaiters
        (s\<lparr>wa_restartSignalPending := False,
           wa_restartSignalGeneration := Suc (wa_restartSignalGeneration s)\<rparr>)))"

subsection \<open>The gate\<close>

definition isGatewayWorkAdmissionClosed :: "admission_state \<Rightarrow> bool" where
  "isGatewayWorkAdmissionClosed s \<longleftrightarrow>
     wa_restartDraining s \<or> wa_restartSignalPending s \<or> wa_suspendPhase s \<noteq> Accepting"

definition isGatewaySubordinateWorkAdmissionClosed :: "nat option \<Rightarrow> admission_state \<Rightarrow> bool" where
  "isGatewaySubordinateWorkAdmissionClosed cur s =
     (if wa_restartDraining s \<or> wa_restartSignalPending s then True
      else case cur of
        Some a \<Rightarrow> ra_released (wa_admissions s ! a)
      | None \<Rightarrow> wa_suspendPhase s \<noteq> Accepting)"

definition getGatewaySuspendAdmissionPhase :: "admission_state \<Rightarrow> suspend_phase" where
  "getGatewaySuspendAdmissionPhase s = wa_suspendPhase s"

definition isGatewayRestartDraining :: "admission_state \<Rightarrow> bool" where
  "isGatewayRestartDraining s \<longleftrightarrow> wa_restartDraining s \<or> wa_restartSignalPending s"

definition markGatewayRestartDraining :: "admission_state \<Rightarrow> admission_state" where
  "markGatewayRestartDraining s =
     (if wa_restartDraining s then s
      else
        let s1 = resolveSuspendOpenWaiters
          (s\<lparr>wa_restartSignalPending := False,
             wa_restartSignalGeneration := Suc (wa_restartSignalGeneration s),
             wa_restartDraining := True\<rparr>)
        in if wa_suspendPhase s1 \<noteq> Accepting then invalidateSuspendAdmission s1 else s1)"

text \<open>A restart-signal lease is the generation its closure captured.\<close>

definition beginGatewayRestartSignalAdmission :: "admission_state \<Rightarrow> nat option \<times> admission_state" where
  "beginGatewayRestartSignalAdmission s =
     (if wa_restartDraining s \<or> wa_restartSignalPending s then (None, s)
      else
        let generation = Suc (wa_restartSignalGeneration s)
        in (Some generation,
            s\<lparr>wa_restartSignalPending := True, wa_restartSignalGeneration := generation\<rparr>))"

definition rollbackRestartSignal :: "nat \<Rightarrow> admission_state \<Rightarrow> bool \<times> admission_state" where
  "rollbackRestartSignal generation s =
     (if \<not> wa_restartSignalPending s \<or> wa_restartSignalGeneration s \<noteq> generation then (False, s)
      else clearRestartSignalFence s)"

definition rollbackGatewayRestartSignalFence :: "admission_state \<Rightarrow> bool \<times> admission_state" where
  "rollbackGatewayRestartSignalFence s = clearRestartSignalFence s"

subsection \<open>Admission of root work\<close>

definition liveRoot :: "nat option \<Rightarrow> admission_state \<Rightarrow> bool" where
  "liveRoot cur s = (case cur of None \<Rightarrow> False | Some a \<Rightarrow> \<not> ra_released (wa_admissions s ! a))"

definition tryBeginGatewayIndependentRootWorkAdmission ::
  "admission_state \<Rightarrow> root_lease option \<times> admission_state" where
  "tryBeginGatewayIndependentRootWorkAdmission s =
     (if wa_restartDraining s \<or> wa_restartSignalPending s \<or> wa_suspendPhase s \<noteq> Accepting
      then (None, s)
      else let (lease, s1) = createGatewayRootWorkAdmission s in (Some lease, s1))"

definition tryBeginGatewayRootWorkAdmission ::
  "nat option \<Rightarrow> admission_state \<Rightarrow> root_lease option \<times> admission_state" where
  "tryBeginGatewayRootWorkAdmission cur s =
     (if liveRoot cur s
      then (Some \<lparr>gl_ownsRoot = False, gl_release = None, gl_admission = None\<rparr>, s)
      else if wa_restartDraining s \<or> wa_restartSignalPending s \<or> wa_suspendPhase s \<noteq> Accepting
      then (None, s)
      else let (lease, s1) = createGatewayRootWorkAdmission s in (Some lease, s1))"

text \<open>One iteration of the loops of \<open>beginGatewayRootWorkAdmissionWhenOpen\<close> and
  \<open>runWithGatewayIndependentRootWorkAdmission\<close>, up to the next \<open>await\<close>.\<close>

definition admissionLoop :: "open_waiter \<Rightarrow> admission_state \<Rightarrow> admission_state" where
  "admissionLoop w s =
     (if wa_restartDraining s then s\<lparr>wa_settled := wa_settled s @ [(ow_id w, Draining)]\<rparr>
      else
        case (if ow_independent w then tryBeginGatewayIndependentRootWorkAdmission s
              else tryBeginGatewayRootWorkAdmission (ow_current w) s) of
          (Some lease, s1) \<Rightarrow> s1\<lparr>wa_settled := wa_settled s1 @ [(ow_id w, Admitted lease)]\<rparr>
        | (None, s1) \<Rightarrow> s1\<lparr>wa_suspendOpenWaiters := wa_suspendOpenWaiters s1 @ [w]\<rparr>)"

definition beginGatewayRootWorkAdmissionWhenOpen :: "nat option \<Rightarrow> admission_state \<Rightarrow> admission_state" where
  "beginGatewayRootWorkAdmissionWhenOpen cur s =
     admissionLoop \<lparr>ow_id = wa_nextCall s, ow_current = cur, ow_independent = False\<rparr>
       (s\<lparr>wa_nextCall := Suc (wa_nextCall s)\<rparr>)"

text \<open>The body \<open>run\<close> of the caller executes under the lease's root; that it finishes is the call of
  the lease's release closure.\<close>

definition runWithGatewayIndependentRootWorkAdmission :: "nat option \<Rightarrow> admission_state \<Rightarrow> admission_state" where
  "runWithGatewayIndependentRootWorkAdmission cur s =
     admissionLoop \<lparr>ow_id = wa_nextCall s, ow_current = cur, ow_independent = True\<rparr>
       (s\<lparr>wa_nextCall := Suc (wa_nextCall s)\<rparr>)"

text \<open>The continuation of a call whose promise was resolved runs the loop again.\<close>

definition resumeWaiter :: "open_waiter \<Rightarrow> admission_state \<Rightarrow> admission_state" where
  "resumeWaiter w s = admissionLoop w (s\<lparr>wa_resumed := remove1 w (wa_resumed s)\<rparr>)"

definition runWithGatewayIndependentRootWorkContinuation :: "nat option \<Rightarrow> admission_state \<Rightarrow> admission_state" where
  "runWithGatewayIndependentRootWorkContinuation parent s =
     (if \<not> liveRoot parent s then runWithGatewayIndependentRootWorkAdmission parent s
      else
        let (lease, s1) = createGatewayRootWorkAdmission s
        in s1\<lparr>wa_nextCall := Suc (wa_nextCall s1),
              wa_settled := wa_settled s1 @ [(wa_nextCall s1, Admitted lease)]\<rparr>)"

definition retainGatewayRootWorkAdmissionContinuation ::
  "nat option \<Rightarrow> admission_state \<Rightarrow> nat option \<times> admission_state" where
  "retainGatewayRootWorkAdmissionContinuation cur s =
     (case cur of
        None \<Rightarrow> (None, s)
      | Some a \<Rightarrow>
          let current = wa_admissions s ! a
          in if ra_released current then (None, s)
             else
               let (release, s1) = createGatewayRootWorkRelease a
                 (s\<lparr>wa_admissions := (wa_admissions s)
                      [a := current\<lparr>ra_references := ra_references current + 1\<rparr>]\<rparr>)
               in (Some release, s1))"

definition getActiveGatewayRootWorkCount :: "bool \<Rightarrow> nat option \<Rightarrow> admission_state \<Rightarrow> int" where
  "getActiveGatewayRootWorkCount excludeCurrent cur s =
     (let count = int (length (wa_activeRootWork s));
          own = (case cur of None \<Rightarrow> False
                 | Some a \<Rightarrow> \<not> ra_released (wa_admissions s ! a) \<and> List.member (wa_activeRootWork s) a)
      in max 0 (if excludeCurrent \<and> own then count - 1 else count))"

subsection \<open>Waiting for root work\<close>

definition waitForActiveGatewayRootWork :: "int option \<Rightarrow> admission_state \<Rightarrow> drain_answer \<times> admission_state" where
  "waitForActiveGatewayRootWork timeoutMs s =
     (if wa_activeRootWork s = [] then (DrainNow True 0, s)
      else
        let timeout = map_option (max 0) timeoutMs
        in if timeout = Some 0 then (DrainNow False (length (wa_activeRootWork s)), s)
           else
             let w = wa_nextDrain s
             in (DrainWait w,
                 s\<lparr>wa_nextDrain := Suc w,
                   wa_rootDrainWaiters := Some (nullish (wa_rootDrainWaiters s) [] @ [w]),
                   wa_drainTimers := (if timeout \<noteq> None then wa_drainTimers s @ [w]
                                      else wa_drainTimers s)\<rparr>))"

text \<open>The timer resolves the promise and leaves the waiter in the set; the continuation clears the
  timer, removes the waiter and counts the roots that are still active.\<close>

definition drainTimerFires :: "nat \<Rightarrow> admission_state \<Rightarrow> admission_state" where
  "drainTimerFires w s =
     s\<lparr>wa_drainTimers := removeAll w (wa_drainTimers s),
       wa_drainResolved := js_set_add (wa_drainResolved s) w\<rparr>"

definition finishDrainWait :: "nat \<Rightarrow> admission_state \<Rightarrow> admission_state" where
  "finishDrainWait w s =
     (let active = length (wa_activeRootWork s)
      in s\<lparr>wa_drainResolved := removeAll w (wa_drainResolved s),
           wa_drainTimers := removeAll w (wa_drainTimers s),
           wa_rootDrainWaiters := map_option (removeAll w) (wa_rootDrainWaiters s),
           wa_drainAnswers := wa_drainAnswers s @ [(w, active = 0, active)]\<rparr>)"

subsection \<open>Suspension\<close>

text \<open>A suspension lease is the generation its closures captured.\<close>

definition tryBeginGatewaySuspendAdmission :: "nat \<Rightarrow> admission_state \<Rightarrow> nat option \<times> admission_state" where
  "tryBeginGatewaySuspendAdmission onInvalidated s =
     (if wa_restartDraining s \<or> wa_restartSignalPending s \<or> wa_suspendPhase s \<noteq> Accepting
      then (None, s)
      else
        let generation = Suc (wa_suspendGeneration s)
        in (Some generation,
            s\<lparr>wa_suspendPhase := Preparing, wa_suspendGeneration := generation,
              wa_suspendInvalidated := Some onInvalidated\<rparr>))"

definition suspendTransition ::
  "nat \<Rightarrow> suspend_phase \<Rightarrow> suspend_phase \<Rightarrow> admission_state \<Rightarrow> bool \<times> admission_state" where
  "suspendTransition generation expected next s =
     (if wa_suspendGeneration s \<noteq> generation \<or> wa_suspendPhase s \<noteq> expected then (False, s)
      else
        let s1 = s\<lparr>wa_suspendPhase := next\<rparr>
        in (True, if next = Accepting
                  then resolveSuspendOpenWaiters (s1\<lparr>wa_suspendInvalidated := None\<rparr>) else s1))"

definition commitSuspend :: "nat \<Rightarrow> admission_state \<Rightarrow> bool \<times> admission_state" where
  "commitSuspend generation = suspendTransition generation Preparing Prepared"

definition rollbackSuspend :: "nat \<Rightarrow> admission_state \<Rightarrow> bool \<times> admission_state" where
  "rollbackSuspend generation = suspendTransition generation Preparing Accepting"

definition releaseSuspend :: "nat \<Rightarrow> admission_state \<Rightarrow> bool \<times> admission_state" where
  "releaseSuspend generation = suspendTransition generation Prepared Accepting"

definition resetGatewayWorkAdmission :: "admission_state \<Rightarrow> admission_state" where
  "resetGatewayWorkAdmission s =
     (let s1 = s\<lparr>wa_admissions := foldl (\<lambda>xs a. xs[a := \<lparr>ra_references = 0, ra_released = True\<rparr>])
                   (wa_admissions s) (wa_activeRootWork s),
                 wa_activeRootWork := []\<rparr>;
          s2 = resolveRootDrainWaiters s1;
          s3 = s2\<lparr>wa_restartDraining := False, wa_restartSignalPending := False,
                  wa_restartSignalGeneration := Suc (wa_restartSignalGeneration s2)\<rparr>;
          s4 = (if wa_suspendPhase s3 \<noteq> Accepting then invalidateSuspendAdmission s3
                else s3\<lparr>wa_suspendGeneration := Suc (wa_suspendGeneration s3),
                        wa_suspendInvalidated := None\<rparr>)
      in resolveSuspendOpenWaiters s4)"

subsection \<open>Steps\<close>

text \<open>What happens at a step: \<open>Restart\<close> is the reset of an in-process restart, \<open>Work\<close> is
  everything else.\<close>

datatype admission_label = Restart | Work

definition knownRoot :: "nat option \<Rightarrow> admission_state \<Rightarrow> bool" where
  "knownRoot cur s \<longleftrightarrow> (case cur of None \<Rightarrow> True | Some a \<Rightarrow> a < length (wa_admissions s))"

inductive admission_step :: "admission_label \<Rightarrow> admission_state \<Rightarrow> admission_state \<Rightarrow> bool" where
  drain: "admission_step Work s (markGatewayRestartDraining s)"
| begin_signal: "admission_step Work s (snd (beginGatewayRestartSignalAdmission s))"
| rollback_signal: "admission_step Work s (snd (rollbackRestartSignal g s))"
| rollback_fence: "admission_step Work s (snd (rollbackGatewayRestartSignalFence s))"
| begin_root: "knownRoot cur s \<Longrightarrow> admission_step Work s (snd (tryBeginGatewayRootWorkAdmission cur s))"
| begin_when_open: "knownRoot cur s \<Longrightarrow> admission_step Work s (beginGatewayRootWorkAdmissionWhenOpen cur s)"
| run_independent: "knownRoot cur s \<Longrightarrow> admission_step Work s (runWithGatewayIndependentRootWorkAdmission cur s)"
| run_continuation: "knownRoot cur s \<Longrightarrow> admission_step Work s (runWithGatewayIndependentRootWorkContinuation cur s)"
| retain: "knownRoot cur s \<Longrightarrow> admission_step Work s (snd (retainGatewayRootWorkAdmissionContinuation cur s))"
| release: "r < length (wa_releases s) \<Longrightarrow> admission_step Work s (releaseRootWork r s)"
| resume: "w \<in> set (wa_resumed s) \<Longrightarrow> admission_step Work s (resumeWaiter w s)"
| wait_drain: "admission_step Work s (snd (waitForActiveGatewayRootWork timeoutMs s))"
| drain_timer: "w \<in> set (wa_drainTimers s) \<Longrightarrow> admission_step Work s (drainTimerFires w s)"
| finish_drain: "w \<in> set (wa_drainResolved s) \<Longrightarrow> admission_step Work s (finishDrainWait w s)"
| begin_suspend: "admission_step Work s (snd (tryBeginGatewaySuspendAdmission c s))"
| commit_suspend: "admission_step Work s (snd (commitSuspend g s))"
| rollback_suspend: "admission_step Work s (snd (rollbackSuspend g s))"
| release_suspend: "admission_step Work s (snd (releaseSuspend g s))"
| reset: "admission_step Restart s (resetGatewayWorkAdmission s)"

inductive_cases admission_stepE: "admission_step l s s'"

inductive_cases admission_workE: "admission_step Work s s'"

definition initial_admission :: "admission_state \<Rightarrow> bool" where
  "initial_admission s \<longleftrightarrow> s = initialAdmissionState"

definition anyStep :: "admission_state \<Rightarrow> admission_state \<Rightarrow> bool" where
  "anyStep s s' \<longleftrightarrow> (\<exists>l. admission_step l s s')"

subsection \<open>Invariant\<close>

definition liveReleases :: "nat \<Rightarrow> admission_state \<Rightarrow> nat" where
  "liveReleases a s = length (filter (\<lambda>r. rl_admission r = a \<and> \<not> rl_leaseReleased r) (wa_releases s))"

definition roots_ok :: "admission_state \<Rightarrow> bool" where
  "roots_ok s \<longleftrightarrow> distinct (wa_activeRootWork s)
     \<and> set (wa_activeRootWork s) = {a. a < length (wa_admissions s) \<and> \<not> ra_released (wa_admissions s ! a)}
     \<and> (\<forall>a \<in> set (wa_activeRootWork s).
          ra_references (wa_admissions s ! a) = int (liveReleases a s) \<and> 0 < liveReleases a s)
     \<and> (\<forall>r \<in> set (wa_releases s). rl_admission r < length (wa_admissions s))"

definition gate_ok :: "admission_state \<Rightarrow> bool" where
  "gate_ok s \<longleftrightarrow> \<not> (wa_restartDraining s \<and> wa_restartSignalPending s)
     \<and> (wa_restartDraining s \<longrightarrow> wa_suspendPhase s = Accepting)
     \<and> (wa_suspendInvalidated s \<noteq> None \<longleftrightarrow> wa_suspendPhase s \<noteq> Accepting)
     \<and> (wa_suspendOpenWaiters s \<noteq> [] \<longrightarrow> isGatewayWorkAdmissionClosed s \<and> \<not> wa_restartDraining s)"

definition calls_ok :: "admission_state \<Rightarrow> bool" where
  "calls_ok s \<longleftrightarrow>
     mset (map ow_id (wa_suspendOpenWaiters s)) + mset (map ow_id (wa_resumed s))
       + mset (map fst (wa_settled s)) = mset [0..<wa_nextCall s]
     \<and> (\<forall>w \<in> set (wa_suspendOpenWaiters s) \<union> set (wa_resumed s). knownRoot (ow_current w) s)"

definition drainWaiters :: "admission_state \<Rightarrow> nat set" where
  "drainWaiters s = set (nullish (wa_rootDrainWaiters s) [])"

definition answeredDrains :: "(nat \<times> bool \<times> nat) list \<Rightarrow> nat set" where
  "answeredDrains answers = fst ` set answers"

definition drains_ok :: "admission_state \<Rightarrow> bool" where
  "drains_ok s \<longleftrightarrow>
     drainWaiters s \<union> set (wa_drainResolved s) \<union> answeredDrains (wa_drainAnswers s) = {..<wa_nextDrain s}
     \<and> (drainWaiters s \<union> set (wa_drainResolved s) \<union> set (wa_drainTimers s)) \<inter> answeredDrains (wa_drainAnswers s) = {}
     \<and> set (wa_drainTimers s) \<subseteq> {..<wa_nextDrain s}
     \<and> distinct (map fst (wa_drainAnswers s))
     \<and> (drainWaiters s \<noteq> {} \<longrightarrow> wa_activeRootWork s \<noteq> [])
     \<and> (\<forall>(w, d, n) \<in> set (wa_drainAnswers s). d = (n = 0))"

definition admission_inv :: "admission_state \<Rightarrow> bool" where
  "admission_inv s \<longleftrightarrow> roots_ok s \<and> gate_ok s \<and> calls_ok s \<and> drains_ok s"

lemmas admission_ops =
  markGatewayRestartDraining_def beginGatewayRestartSignalAdmission_def rollbackRestartSignal_def
  rollbackGatewayRestartSignalFence_def clearRestartSignalFence_def invalidateSuspendAdmission_def
  resolveSuspendOpenWaiters_def tryBeginGatewaySuspendAdmission_def suspendTransition_def
  commitSuspend_def rollbackSuspend_def releaseSuspend_def

lemmas root_ops =
  tryBeginGatewayRootWorkAdmission_def tryBeginGatewayIndependentRootWorkAdmission_def
  createGatewayRootWorkRelease_def

text \<open>Roots.\<close>

lemma roots_ok_cong:
  assumes "wa_activeRootWork s' = wa_activeRootWork s" "wa_admissions s' = wa_admissions s"
    "wa_releases s' = wa_releases s"
  shows "roots_ok s' = roots_ok s"
  using assms by (simp add: roots_ok_def liveReleases_def)

lemma createGatewayRootWorkAdmission_eq:
  "createGatewayRootWorkAdmission s =
     (\<lparr>gl_ownsRoot = True, gl_release = Some (length (wa_releases s)),
       gl_admission = Some (length (wa_admissions s))\<rparr>,
      s\<lparr>wa_admissions := wa_admissions s @ [\<lparr>ra_references = 1, ra_released = False\<rparr>],
        wa_activeRootWork := js_set_add (wa_activeRootWork s) (length (wa_admissions s)),
        wa_releases := wa_releases s @ [\<lparr>rl_admission = length (wa_admissions s), rl_leaseReleased = False\<rparr>]\<rparr>)"
  by (simp add: createGatewayRootWorkAdmission_def createGatewayRootWorkRelease_def Let_def)

lemma roots_ok_create:
  assumes "roots_ok s"
  shows "roots_ok (snd (createGatewayRootWorkAdmission s))"
proof -
  let ?n = "length (wa_admissions s)"
  have new: "?n \<notin> set (wa_activeRootWork s)" and none: "filter (\<lambda>r. rl_admission r = ?n \<and> \<not> rl_leaseReleased r) (wa_releases s) = []"
    using assms by (fastforce simp: roots_ok_def filter_empty_conv)+
  show ?thesis
    using assms new none
    by (auto simp: roots_ok_def createGatewayRootWorkAdmission_eq liveReleases_def js_set_add_def nth_append
        less_Suc_eq)
qed

lemma roots_ok_retain:
  assumes "roots_ok s" "knownRoot cur s"
  shows "roots_ok (snd (retainGatewayRootWorkAdmissionContinuation cur s))"
  using assms
  by (auto simp: roots_ok_def retainGatewayRootWorkAdmissionContinuation_def createGatewayRootWorkRelease_def
      knownRoot_def liveReleases_def nth_list_update Let_def split: option.splits)

lemma liveReleases_update:
  assumes "r < length rs" "\<not> rl_leaseReleased (rs ! r)"
  shows "length (filter (\<lambda>r. rl_admission r = a \<and> \<not> rl_leaseReleased r) rs)
     = length (filter (\<lambda>r. rl_admission r = a \<and> \<not> rl_leaseReleased r)
         (rs[r := (rs ! r)\<lparr>rl_leaseReleased := True\<rparr>])) + (if rl_admission (rs ! r) = a then 1 else 0)"
proof -
  have rs: "rs = take r rs @ rs ! r # drop (Suc r) rs" using assms(1) by (rule id_take_nth_drop)
  have "rs[r := (rs ! r)\<lparr>rl_leaseReleased := True\<rparr>]
      = take r rs @ (rs ! r)\<lparr>rl_leaseReleased := True\<rparr> # drop (Suc r) rs"
    using assms(1) by (rule upd_conv_take_nth_drop)
  then show ?thesis using assms(2) by (subst rs) simp
qed

lemma resolveRootDrainWaiters_frame [simp]:
  "wa_restartDraining (resolveRootDrainWaiters s) = wa_restartDraining s"
  "wa_restartSignalPending (resolveRootDrainWaiters s) = wa_restartSignalPending s"
  "wa_restartSignalGeneration (resolveRootDrainWaiters s) = wa_restartSignalGeneration s"
  "wa_suspendPhase (resolveRootDrainWaiters s) = wa_suspendPhase s"
  "wa_suspendGeneration (resolveRootDrainWaiters s) = wa_suspendGeneration s"
  "wa_suspendInvalidated (resolveRootDrainWaiters s) = wa_suspendInvalidated s"
  "wa_activeRootWork (resolveRootDrainWaiters s) = wa_activeRootWork s"
  "wa_admissions (resolveRootDrainWaiters s) = wa_admissions s"
  "wa_releases (resolveRootDrainWaiters s) = wa_releases s"
  "wa_suspendOpenWaiters (resolveRootDrainWaiters s) = wa_suspendOpenWaiters s"
  "wa_resumed (resolveRootDrainWaiters s) = wa_resumed s"
  "wa_settled (resolveRootDrainWaiters s) = wa_settled s"
  "wa_nextCall (resolveRootDrainWaiters s) = wa_nextCall s"
  by (simp_all add: resolveRootDrainWaiters_def split: option.split)

text \<open>The release closure in one equation per case: it does nothing, it drops one reference, or it
  retires the root.\<close>

lemma releaseRootWork_cases:
  fixes r :: nat and s :: admission_state
  defines "c \<equiv> wa_releases s ! r"
  defines "a \<equiv> rl_admission c"
  defines "ad \<equiv> wa_admissions s ! a"
  defines "rs \<equiv> (wa_releases s)[r := c\<lparr>rl_leaseReleased := True\<rparr>]"
  obtains
    (stale) "rl_leaseReleased c \<or> ra_released ad" "releaseRootWork r s = s"
  | (shared) "\<not> rl_leaseReleased c" "\<not> ra_released ad" "1 < ra_references ad"
      "releaseRootWork r s = s\<lparr>wa_releases := rs,
         wa_admissions := (wa_admissions s)[a := ad\<lparr>ra_references := ra_references ad - 1\<rparr>]\<rparr>"
  | (last) s2 where "\<not> rl_leaseReleased c" "\<not> ra_released ad" "ra_references ad \<le> 1"
      "s2 = s\<lparr>wa_releases := rs,
         wa_admissions := (wa_admissions s)[a := \<lparr>ra_references = ra_references ad - 1, ra_released = True\<rparr>],
         wa_activeRootWork := removeAll a (wa_activeRootWork s)\<rparr>"
      "releaseRootWork r s = (if wa_activeRootWork s2 = [] then resolveRootDrainWaiters s2 else s2)"
proof (cases "rl_leaseReleased c \<or> ra_released ad")
  case True
  then show ?thesis using stale by (simp add: releaseRootWork_def c_def a_def ad_def Let_def)
next
  case False
  show ?thesis
  proof (cases "1 < ra_references ad")
    case True
    then show ?thesis using shared False
      by (simp add: releaseRootWork_def c_def a_def ad_def rs_def Let_def)
  next
    case big: False
    have rec: "ad\<lparr>ra_references := x, ra_released := True\<rparr> = \<lparr>ra_references = x, ra_released = True\<rparr>" for x
      by (cases ad) simp
    show ?thesis
      by (rule last [OF _ _ _ refl])
        (use False big in \<open>auto simp: releaseRootWork_def c_def [symmetric] a_def [symmetric] ad_def [symmetric]
           rs_def [symmetric] Let_def rec\<close>)
  qed
qed

lemma roots_ok_release:
  assumes ok: "roots_ok s" and r: "r < length (wa_releases s)"
  shows "roots_ok (releaseRootWork r s)"
proof -
  let ?c = "wa_releases s ! r"
  let ?a = "rl_admission ?c"
  have a: "?a < length (wa_admissions s)" using ok r by (simp add: roots_ok_def)
  have rel: "\<forall>x \<in> set ((wa_releases s)[r := ?c\<lparr>rl_leaseReleased := True\<rparr>]). rl_admission x < length (wa_admissions s)"
    using ok a by (auto simp: roots_ok_def dest!: set_update_subset_insert [THEN subsetD])
  note count = liveReleases_update [OF r]
  show ?thesis
  proof (cases rule: releaseRootWork_cases [where r = r and s = s, case_names stale shared last])
    case stale
    then show ?thesis using ok by simp
  next
    case shared
    then show ?thesis using ok a rel count [OF shared(1), of ?a]
      by (auto simp: roots_ok_def liveReleases_def nth_list_update count [OF shared(1)])
  next
    case (last s2)
    have "roots_ok s2" unfolding last(4)
      using ok a rel last(2) 
      by (auto simp: roots_ok_def liveReleases_def nth_list_update count [OF last(1)] distinct_removeAll)
    then show ?thesis unfolding last(5) by (auto simp: roots_ok_cong [of "resolveRootDrainWaiters s2" s2])
  qed
qed

lemma retire_roots:
  assumes "\<forall>a \<in> set as. a < length xs"
  shows "length (foldl (\<lambda>xs a. xs[a := d]) xs as) = length xs"
    and "i < length xs \<Longrightarrow> foldl (\<lambda>xs a. xs[a := d]) xs as ! i = (if i \<in> set as then d else xs ! i)"
  using assms by (induction as arbitrary: xs) (auto simp: nth_list_update)

lemma roots_ok_frame [simp]:
  "roots_ok (s\<lparr>wa_restartDraining := x_restartDraining\<rparr>) = roots_ok s"
  "roots_ok (s\<lparr>wa_restartSignalPending := x_restartSignalPending\<rparr>) = roots_ok s"
  "roots_ok (s\<lparr>wa_restartSignalGeneration := x_restartSignalGeneration\<rparr>) = roots_ok s"
  "roots_ok (s\<lparr>wa_suspendPhase := x_suspendPhase\<rparr>) = roots_ok s"
  "roots_ok (s\<lparr>wa_suspendGeneration := x_suspendGeneration\<rparr>) = roots_ok s"
  "roots_ok (s\<lparr>wa_suspendInvalidated := x_suspendInvalidated\<rparr>) = roots_ok s"
  "roots_ok (s\<lparr>wa_rootDrainWaiters := x_rootDrainWaiters\<rparr>) = roots_ok s"
  "roots_ok (s\<lparr>wa_suspendOpenWaiters := x_suspendOpenWaiters\<rparr>) = roots_ok s"
  "roots_ok (s\<lparr>wa_nextCall := x_nextCall\<rparr>) = roots_ok s"
  "roots_ok (s\<lparr>wa_resumed := x_resumed\<rparr>) = roots_ok s"
  "roots_ok (s\<lparr>wa_settled := x_settled\<rparr>) = roots_ok s"
  "roots_ok (s\<lparr>wa_nextDrain := x_nextDrain\<rparr>) = roots_ok s"
  "roots_ok (s\<lparr>wa_drainTimers := x_drainTimers\<rparr>) = roots_ok s"
  "roots_ok (s\<lparr>wa_drainResolved := x_drainResolved\<rparr>) = roots_ok s"
  "roots_ok (s\<lparr>wa_drainAnswers := x_drainAnswers\<rparr>) = roots_ok s"
  "roots_ok (s\<lparr>wa_invalidations := x_invalidations\<rparr>) = roots_ok s"
  by (simp_all add: roots_ok_def liveReleases_def)

lemma tryBegin_cases:
  obtains (nested) "liveRoot cur s" "tryBeginGatewayRootWorkAdmission cur s
      = (Some \<lparr>gl_ownsRoot = False, gl_release = None, gl_admission = None\<rparr>, s)"
  | (refused) "\<not> liveRoot cur s" "isGatewayWorkAdmissionClosed s" "tryBeginGatewayRootWorkAdmission cur s = (None, s)"
  | (opened) "\<not> liveRoot cur s" "\<not> isGatewayWorkAdmissionClosed s" "tryBeginGatewayRootWorkAdmission cur s
      = map_prod Some id (createGatewayRootWorkAdmission s)"
  by (auto simp: tryBeginGatewayRootWorkAdmission_def isGatewayWorkAdmissionClosed_def map_prod_def split: prod.splits if_splits)

text \<open>One iteration of a waiting loop: it is refused for good, it is nested in a live root, it
  creates a root, or it queues the caller.\<close>

lemma admissionLoop_cases:
  obtains (refused) "wa_restartDraining s"
      "admissionLoop w s = s\<lparr>wa_settled := wa_settled s @ [(ow_id w, Draining)]\<rparr>"
  | (nested) lease where "\<not> wa_restartDraining s"
      "admissionLoop w s = s\<lparr>wa_settled := wa_settled s @ [(ow_id w, Admitted lease)]\<rparr>"
  | (opened) lease s1 where "\<not> isGatewayWorkAdmissionClosed s" "createGatewayRootWorkAdmission s = (lease, s1)"
      "admissionLoop w s = s1\<lparr>wa_settled := wa_settled s1 @ [(ow_id w, Admitted lease)]\<rparr>"
  | (queued) "\<not> wa_restartDraining s" "isGatewayWorkAdmissionClosed s"
      "admissionLoop w s = s\<lparr>wa_suspendOpenWaiters := wa_suspendOpenWaiters s @ [w]\<rparr>"
proof (cases "wa_restartDraining s")
  case True
  then show ?thesis by (intro refused) (simp_all add: admissionLoop_def)
next
  case False
  obtain lease s1 where create: "createGatewayRootWorkAdmission s = (lease, s1)" by fastforce
  show ?thesis
  proof (cases "ow_independent w")
    case True
    have attempt: "tryBeginGatewayIndependentRootWorkAdmission s
      = (if isGatewayWorkAdmissionClosed s then (None, s) else (Some lease, s1))"
      using create by (simp add: tryBeginGatewayIndependentRootWorkAdmission_def isGatewayWorkAdmissionClosed_def)
    show ?thesis
    proof (cases "isGatewayWorkAdmissionClosed s")
      case closed: True
      then show ?thesis using False True attempt by (intro queued) (simp_all add: admissionLoop_def)
    next
      case opn: False
      then show ?thesis using False True attempt create by (intro opened) (simp_all add: admissionLoop_def)
    qed
  next
    case own: False
    show ?thesis
    proof (cases rule: tryBegin_cases [where s = s and cur = "ow_current w"])
      case nested
      then show ?thesis using False own by (intro that(2)) (simp_all add: admissionLoop_def)
    next
      case refused
      then show ?thesis using False own by (intro queued) (simp_all add: admissionLoop_def)
    next
      case opened
      then show ?thesis using False own create by (intro that(3)) (simp_all add: admissionLoop_def)
    qed
  qed
qed

lemma roots_ok_admit: "roots_ok s \<Longrightarrow> roots_ok (snd (tryBeginGatewayRootWorkAdmission cur s))"
  by (cases rule: tryBegin_cases [where s = s and cur = cur]) (auto simp: roots_ok_create)

lemma roots_ok_loop:
  assumes "roots_ok s"
  shows "roots_ok (admissionLoop w s)"
  using assms roots_ok_create [OF assms]
  by (cases rule: admissionLoop_cases [where s = s and w = w]) (auto simp: roots_ok_def liveReleases_def)

lemma roots_ok_reset:
  assumes "roots_ok s"
  shows "roots_ok (resetGatewayWorkAdmission s)"
proof -
  have *: "\<forall>a \<in> set (wa_activeRootWork s). a < length (wa_admissions s)" using assms by (simp add: roots_ok_def)
  have "wa_activeRootWork (resetGatewayWorkAdmission s) = []"
    "wa_releases (resetGatewayWorkAdmission s) = wa_releases s"
    "wa_admissions (resetGatewayWorkAdmission s)
       = foldl (\<lambda>xs a. xs[a := \<lparr>ra_references = 0, ra_released = True\<rparr>]) (wa_admissions s) (wa_activeRootWork s)"
    by (simp_all add: resetGatewayWorkAdmission_def Let_def invalidateSuspendAdmission_def resolveSuspendOpenWaiters_def)
  then show ?thesis using assms by (auto simp: roots_ok_def retire_roots [OF *] split: if_splits)
qed

lemma roots_ok_step:
  assumes "admission_step l s s'" "roots_ok s"
  shows "roots_ok s'"
  using assms(1)
proof cases
  case (begin_root cur)
  then show ?thesis using assms(2) by (simp add: roots_ok_admit)
next
  case (begin_when_open cur)
  then show ?thesis using assms(2)
    by (simp add: beginGatewayRootWorkAdmissionWhenOpen_def roots_ok_loop)
next
  case (run_independent cur)
  then show ?thesis using assms(2)
    by (simp add: runWithGatewayIndependentRootWorkAdmission_def roots_ok_loop)
next
  case (run_continuation cur)
  then show ?thesis using assms(2) roots_ok_create [OF assms(2)]
    by (auto simp: runWithGatewayIndependentRootWorkContinuation_def runWithGatewayIndependentRootWorkAdmission_def
        roots_ok_loop split: prod.split)
next
  case (resume w)
  then show ?thesis using assms(2) by (simp add: resumeWaiter_def roots_ok_loop)
qed (use assms(2) in \<open>auto simp: roots_ok_retain roots_ok_release roots_ok_reset admission_ops Let_def
      waitForActiveGatewayRootWork_def drainTimerFires_def finishDrainWait_def\<close>)

lemma gate_ok_frame [simp]:
  "gate_ok (s\<lparr>wa_restartSignalGeneration := x_restartSignalGeneration\<rparr>) = gate_ok s"
  "gate_ok (s\<lparr>wa_suspendGeneration := x_suspendGeneration\<rparr>) = gate_ok s"
  "gate_ok (s\<lparr>wa_activeRootWork := x_activeRootWork\<rparr>) = gate_ok s"
  "gate_ok (s\<lparr>wa_rootDrainWaiters := x_rootDrainWaiters\<rparr>) = gate_ok s"
  "gate_ok (s\<lparr>wa_admissions := x_admissions\<rparr>) = gate_ok s"
  "gate_ok (s\<lparr>wa_releases := x_releases\<rparr>) = gate_ok s"
  "gate_ok (s\<lparr>wa_nextCall := x_nextCall\<rparr>) = gate_ok s"
  "gate_ok (s\<lparr>wa_resumed := x_resumed\<rparr>) = gate_ok s"
  "gate_ok (s\<lparr>wa_settled := x_settled\<rparr>) = gate_ok s"
  "gate_ok (s\<lparr>wa_nextDrain := x_nextDrain\<rparr>) = gate_ok s"
  "gate_ok (s\<lparr>wa_drainTimers := x_drainTimers\<rparr>) = gate_ok s"
  "gate_ok (s\<lparr>wa_drainResolved := x_drainResolved\<rparr>) = gate_ok s"
  "gate_ok (s\<lparr>wa_drainAnswers := x_drainAnswers\<rparr>) = gate_ok s"
  "gate_ok (s\<lparr>wa_invalidations := x_invalidations\<rparr>) = gate_ok s"
  by (simp_all add: gate_ok_def isGatewayWorkAdmissionClosed_def)

lemma gate_ok_loop:
  assumes "gate_ok s"
  shows "gate_ok (admissionLoop w s)"
  by (cases rule: admissionLoop_cases [where s = s and w = w])
    (use assms in \<open>auto simp: createGatewayRootWorkAdmission_eq gate_ok_def isGatewayWorkAdmissionClosed_def\<close>)

lemma gate_ok_release: "gate_ok s \<Longrightarrow> gate_ok (releaseRootWork r s)"
  by (cases rule: releaseRootWork_cases [where r = r and s = s])
    (auto simp: gate_ok_def isGatewayWorkAdmissionClosed_def)

lemma gate_ok_reset: "gate_ok s \<Longrightarrow> gate_ok (resetGatewayWorkAdmission s)"
  by (auto simp: gate_ok_def resetGatewayWorkAdmission_def invalidateSuspendAdmission_def
      resolveSuspendOpenWaiters_def isGatewayWorkAdmissionClosed_def Let_def)

lemma gate_ok_fences:
  assumes "gate_ok s"
  shows "gate_ok (markGatewayRestartDraining s)"
    and "gate_ok (snd (beginGatewayRestartSignalAdmission s))"
    and "gate_ok (snd (clearRestartSignalFence s))"
    and "gate_ok (snd (tryBeginGatewaySuspendAdmission c s))"
    and "expected \<noteq> Accepting \<Longrightarrow> gate_ok (snd (suspendTransition g expected next s))"
  using assms
  by (auto simp: gate_ok_def admission_ops isGatewayWorkAdmissionClosed_def Let_def)

lemma gate_ok_step:
  assumes "admission_step l s s'" "gate_ok s"
  shows "gate_ok s'"
  using assms(1)
proof cases
  case (begin_root cur)
  show ?thesis unfolding begin_root
    by (cases rule: tryBegin_cases [where s = s and cur = cur])
      (use assms(2) in \<open>auto simp: createGatewayRootWorkAdmission_eq\<close>)
next
  case (run_continuation cur)
  then show ?thesis using assms(2)
    by (auto simp: runWithGatewayIndependentRootWorkContinuation_def runWithGatewayIndependentRootWorkAdmission_def
        gate_ok_loop createGatewayRootWorkAdmission_eq)
qed (use assms(2) in \<open>auto simp: gate_ok_loop gate_ok_release gate_ok_reset gate_ok_fences rollbackRestartSignal_def
      rollbackGatewayRestartSignalFence_def commitSuspend_def rollbackSuspend_def releaseSuspend_def
      beginGatewayRootWorkAdmissionWhenOpen_def runWithGatewayIndependentRootWorkAdmission_def resumeWaiter_def
      retainGatewayRootWorkAdmissionContinuation_def createGatewayRootWorkRelease_def
      waitForActiveGatewayRootWork_def drainTimerFires_def finishDrainWait_def Let_def split: option.splits\<close>)

lemma knownRoot_iff: "knownRoot cur s \<longleftrightarrow> (\<forall>a. cur = Some a \<longrightarrow> a < length (wa_admissions s))"
  by (simp add: knownRoot_def split: option.split)

lemma calls_ok_frame [simp]:
  "calls_ok (s\<lparr>wa_restartDraining := x_restartDraining\<rparr>) = calls_ok s"
  "calls_ok (s\<lparr>wa_restartSignalPending := x_restartSignalPending\<rparr>) = calls_ok s"
  "calls_ok (s\<lparr>wa_restartSignalGeneration := x_restartSignalGeneration\<rparr>) = calls_ok s"
  "calls_ok (s\<lparr>wa_suspendPhase := x_suspendPhase\<rparr>) = calls_ok s"
  "calls_ok (s\<lparr>wa_suspendGeneration := x_suspendGeneration\<rparr>) = calls_ok s"
  "calls_ok (s\<lparr>wa_suspendInvalidated := x_suspendInvalidated\<rparr>) = calls_ok s"
  "calls_ok (s\<lparr>wa_activeRootWork := x_activeRootWork\<rparr>) = calls_ok s"
  "calls_ok (s\<lparr>wa_rootDrainWaiters := x_rootDrainWaiters\<rparr>) = calls_ok s"
  "calls_ok (s\<lparr>wa_releases := x_releases\<rparr>) = calls_ok s"
  "calls_ok (s\<lparr>wa_nextDrain := x_nextDrain\<rparr>) = calls_ok s"
  "calls_ok (s\<lparr>wa_drainTimers := x_drainTimers\<rparr>) = calls_ok s"
  "calls_ok (s\<lparr>wa_drainResolved := x_drainResolved\<rparr>) = calls_ok s"
  "calls_ok (s\<lparr>wa_drainAnswers := x_drainAnswers\<rparr>) = calls_ok s"
  "calls_ok (s\<lparr>wa_invalidations := x_invalidations\<rparr>) = calls_ok s"
  by (simp_all add: calls_ok_def knownRoot_iff)

text \<open>\<open>calls_ok\<close> with one call in hand: \<open>pending w s\<close> holds while the loop of \<open>w\<close> runs.\<close>

definition pending :: "open_waiter \<Rightarrow> admission_state \<Rightarrow> bool" where
  "pending w s \<longleftrightarrow>
     add_mset (ow_id w) (mset (map ow_id (wa_suspendOpenWaiters s)) + mset (map ow_id (wa_resumed s))
       + mset (map fst (wa_settled s))) = mset [0..<wa_nextCall s]
     \<and> (\<forall>v \<in> insert w (set (wa_suspendOpenWaiters s) \<union> set (wa_resumed s)). knownRoot (ow_current v) s)"

lemma knownRoot_create: "knownRoot cur s \<Longrightarrow> knownRoot cur (snd (createGatewayRootWorkAdmission s))"
  by (simp add: knownRoot_iff createGatewayRootWorkAdmission_eq less_SucI)

lemma calls_ok_create:
  assumes "calls_ok s"
  shows "calls_ok (snd (createGatewayRootWorkAdmission s))"
proof -
  have "\<forall>v \<in> set (wa_suspendOpenWaiters s) \<union> set (wa_resumed s).
      knownRoot (ow_current v) (snd (createGatewayRootWorkAdmission s))"
    using assms by (simp add: calls_ok_def knownRoot_create)
  then show ?thesis using assms by (simp add: calls_ok_def createGatewayRootWorkAdmission_eq)
qed

lemma pending_create:
  assumes "pending w s"
  shows "pending w (snd (createGatewayRootWorkAdmission s))"
proof -
  have "\<forall>v \<in> insert w (set (wa_suspendOpenWaiters s) \<union> set (wa_resumed s)).
      knownRoot (ow_current v) (snd (createGatewayRootWorkAdmission s))"
    using assms by (simp add: pending_def knownRoot_create)
  then show ?thesis using assms by (simp add: pending_def createGatewayRootWorkAdmission_eq)
qed

lemma calls_ok_settle: "pending w s \<Longrightarrow> calls_ok (s\<lparr>wa_settled := wa_settled s @ [(ow_id w, x)]\<rparr>)"
  by (simp add: calls_ok_def pending_def knownRoot_iff)

lemma calls_ok_loop:
  assumes "pending w s"
  shows "calls_ok (admissionLoop w s)"
proof (cases rule: admissionLoop_cases [where s = s and w = w])
  case (opened lease s1)
  then show ?thesis using calls_ok_settle [OF pending_create [OF assms]] by simp
qed (use assms calls_ok_settle [OF assms] in \<open>auto simp: calls_ok_def pending_def knownRoot_iff\<close>)

lemma pending_new:
  assumes "calls_ok s" "knownRoot cur s"
  shows "pending \<lparr>ow_id = wa_nextCall s, ow_current = cur, ow_independent = i\<rparr> (s\<lparr>wa_nextCall := Suc (wa_nextCall s)\<rparr>)"
  using assms by (auto simp: calls_ok_def pending_def knownRoot_iff)

lemma pending_resume:
  assumes "calls_ok s" "w \<in> set (wa_resumed s)"
  shows "pending w (s\<lparr>wa_resumed := remove1 w (wa_resumed s)\<rparr>)"
proof -
  have "mset (map ow_id (wa_resumed s)) = add_mset (ow_id w) (mset (map ow_id (remove1 w (wa_resumed s))))"
    using assms(2) by (metis image_mset_add_mset insert_DiffM mset_map mset_remove1 set_mset_mset)
  then show ?thesis using assms
    by (auto simp: calls_ok_def pending_def knownRoot_iff dest: notin_set_remove1)
qed

lemma calls_ok_release:
  assumes "calls_ok s"
  shows "calls_ok (releaseRootWork r s)"
  by (cases rule: releaseRootWork_cases [where r = r and s = s])
    (use assms in \<open>auto simp: calls_ok_def knownRoot_iff\<close>)

lemma length_retired [simp]: "length (foldl (\<lambda>xs a. xs[a := d]) xs as) = length xs"
  by (induction as arbitrary: xs) auto

lemma calls_ok_reset: "calls_ok s \<Longrightarrow> calls_ok (resetGatewayWorkAdmission s)"
  by (auto simp: calls_ok_def knownRoot_iff resetGatewayWorkAdmission_def invalidateSuspendAdmission_def
      resolveSuspendOpenWaiters_def Let_def union_ac)

lemma calls_ok_resolve [simp]: "calls_ok (resolveSuspendOpenWaiters s) = calls_ok s"
  by (auto simp: calls_ok_def knownRoot_iff resolveSuspendOpenWaiters_def union_ac)

lemma calls_ok_step:
  assumes "admission_step l s s'" "calls_ok s"
  shows "calls_ok s'"
  using assms(1)
proof cases
  case (begin_root cur)
  show ?thesis unfolding begin_root
    by (cases rule: tryBegin_cases [where s = s and cur = cur]) (use assms(2) calls_ok_create in auto)
next
  case (begin_when_open cur)
  then show ?thesis using assms(2)
    by (simp add: beginGatewayRootWorkAdmissionWhenOpen_def calls_ok_loop pending_new)
next
  case (run_independent cur)
  then show ?thesis using assms(2)
    by (simp add: runWithGatewayIndependentRootWorkAdmission_def calls_ok_loop pending_new)
next
  case (run_continuation cur)
  let ?w = "\<lparr>ow_id = wa_nextCall s, ow_current = cur, ow_independent = True\<rparr>"
  note start = pending_new [OF assms(2) run_continuation(3), of True]
  obtain lease s1 where create: "createGatewayRootWorkAdmission s = (lease, s1)" by fastforce
  then have "createGatewayRootWorkAdmission (s\<lparr>wa_nextCall := Suc (wa_nextCall s)\<rparr>)
      = (lease, s1\<lparr>wa_nextCall := Suc (wa_nextCall s)\<rparr>)" "wa_nextCall s1 = wa_nextCall s"
    by (auto simp: createGatewayRootWorkAdmission_eq)
  then show ?thesis unfolding run_continuation using create calls_ok_loop [OF start]
      calls_ok_settle [OF pending_create [OF start]]
    by (simp add: runWithGatewayIndependentRootWorkContinuation_def runWithGatewayIndependentRootWorkAdmission_def)
next
  case (retain cur)
  then show ?thesis using assms(2)
    by (auto simp: retainGatewayRootWorkAdmissionContinuation_def createGatewayRootWorkRelease_def calls_ok_def
        Let_def knownRoot_iff split: option.split)
next
  case (resume w)
  then show ?thesis using assms(2) by (simp add: resumeWaiter_def calls_ok_loop pending_resume)
qed (use assms(2) in \<open>auto simp: calls_ok_release calls_ok_reset markGatewayRestartDraining_def
      beginGatewayRestartSignalAdmission_def rollbackRestartSignal_def rollbackGatewayRestartSignalFence_def
      clearRestartSignalFence_def invalidateSuspendAdmission_def tryBeginGatewaySuspendAdmission_def
      suspendTransition_def commitSuspend_def rollbackSuspend_def releaseSuspend_def
      waitForActiveGatewayRootWork_def drainTimerFires_def finishDrainWait_def Let_def\<close>)

lemma drains_ok_frame [simp]:
  "drains_ok (s\<lparr>wa_restartDraining := x_restartDraining\<rparr>) = drains_ok s"
  "drains_ok (s\<lparr>wa_restartSignalPending := x_restartSignalPending\<rparr>) = drains_ok s"
  "drains_ok (s\<lparr>wa_restartSignalGeneration := x_restartSignalGeneration\<rparr>) = drains_ok s"
  "drains_ok (s\<lparr>wa_suspendPhase := x_suspendPhase\<rparr>) = drains_ok s"
  "drains_ok (s\<lparr>wa_suspendGeneration := x_suspendGeneration\<rparr>) = drains_ok s"
  "drains_ok (s\<lparr>wa_suspendInvalidated := x_suspendInvalidated\<rparr>) = drains_ok s"
  "drains_ok (s\<lparr>wa_suspendOpenWaiters := x_suspendOpenWaiters\<rparr>) = drains_ok s"
  "drains_ok (s\<lparr>wa_admissions := x_admissions\<rparr>) = drains_ok s"
  "drains_ok (s\<lparr>wa_releases := x_releases\<rparr>) = drains_ok s"
  "drains_ok (s\<lparr>wa_nextCall := x_nextCall\<rparr>) = drains_ok s"
  "drains_ok (s\<lparr>wa_resumed := x_resumed\<rparr>) = drains_ok s"
  "drains_ok (s\<lparr>wa_settled := x_settled\<rparr>) = drains_ok s"
  "drains_ok (s\<lparr>wa_invalidations := x_invalidations\<rparr>) = drains_ok s"
  by (simp_all add: drains_ok_def drainWaiters_def)

lemma drainWaiters_resolve [simp]: "drainWaiters (resolveRootDrainWaiters s) = {}"
  by (simp add: drainWaiters_def resolveRootDrainWaiters_def split: option.split)

lemma drain_fields_resolve [simp]:
  "set (wa_drainResolved (resolveRootDrainWaiters s)) = set (wa_drainResolved s) \<union> drainWaiters s"
  "wa_drainAnswers (resolveRootDrainWaiters s) = wa_drainAnswers s"
  "wa_drainTimers (resolveRootDrainWaiters s) = wa_drainTimers s"
  "wa_nextDrain (resolveRootDrainWaiters s) = wa_nextDrain s"
  by (auto simp: drainWaiters_def resolveRootDrainWaiters_def foldl_js_set_add split: option.split)

lemma drainWaiters_frame [simp]:
  "drainWaiters (s\<lparr>wa_activeRootWork := as\<rparr>) = drainWaiters s"
  "drainWaiters (s\<lparr>wa_admissions := ads\<rparr>) = drainWaiters s"
  "drainWaiters (s\<lparr>wa_releases := rs\<rparr>) = drainWaiters s"
  "drainWaiters (s\<lparr>wa_rootDrainWaiters := Some ws\<rparr>) = set ws"
  by (simp_all add: drainWaiters_def)

text \<open>Emptying the active set is compatible with the drain bookkeeping when the waiters are resolved,
  any other change of the active set when it does not empty it.\<close>

lemma drains_ok_resolve: "drains_ok s \<Longrightarrow> drains_ok (resolveRootDrainWaiters (s\<lparr>wa_activeRootWork := as\<rparr>))"
  by (auto simp: drains_ok_def)

lemma drains_ok_active: "drains_ok s \<Longrightarrow> as \<noteq> [] \<Longrightarrow> drains_ok (s\<lparr>wa_activeRootWork := as\<rparr>)"
  by (auto simp: drains_ok_def)

lemma drains_ok_create: "drains_ok s \<Longrightarrow> drains_ok (snd (createGatewayRootWorkAdmission s))"
  by (auto simp: drains_ok_def createGatewayRootWorkAdmission_eq js_set_add_def)

lemma drains_ok_loop:
  assumes "drains_ok s"
  shows "drains_ok (admissionLoop w s)"
  by (cases rule: admissionLoop_cases [where s = s and w = w]) (use assms drains_ok_create [OF assms] in auto)

lemma drains_ok_release:
  assumes "drains_ok s"
  shows "drains_ok (releaseRootWork r s)"
proof (cases rule: releaseRootWork_cases [where r = r and s = s])
  case (last s2)
  then show ?thesis using assms by (auto simp: drains_ok_def)
qed (use assms in simp_all)

lemma drains_ok_reset: "drains_ok s \<Longrightarrow> drains_ok (resetGatewayWorkAdmission s)"
  by (simp add: drains_ok_resolve resetGatewayWorkAdmission_def invalidateSuspendAdmission_def
      resolveSuspendOpenWaiters_def Let_def)

lemma drains_ok_wait:
  assumes "drains_ok s"
  shows "drains_ok (snd (waitForActiveGatewayRootWork timeoutMs s))"
    and "w \<in> set (wa_drainTimers s) \<Longrightarrow> drains_ok (drainTimerFires w s)"
    and "w \<in> set (wa_drainResolved s) \<Longrightarrow> drains_ok (finishDrainWait w s)"
proof -
  have active: "wa_activeRootWork s \<noteq> [] \<Longrightarrow> drains_ok (s\<lparr>wa_nextDrain := Suc (wa_nextDrain s),
      wa_rootDrainWaiters := Some (nullish (wa_rootDrainWaiters s) [] @ [wa_nextDrain s]), wa_drainTimers := ts\<rparr>)"
    if "set ts \<subseteq> insert (wa_nextDrain s) (set (wa_drainTimers s))" for ts
  proof -
    have "set (nullish (wa_rootDrainWaiters s) [] @ [wa_nextDrain s]) = insert (wa_nextDrain s) (drainWaiters s)"
      by (simp add: drainWaiters_def)
    moreover have "wa_nextDrain s \<notin> answeredDrains (wa_drainAnswers s)"
      using assms by (auto simp: drains_ok_def)
    ultimately show "wa_activeRootWork s \<noteq> [] \<Longrightarrow> ?thesis"
      using assms that unfolding drains_ok_def by (simp add: drainWaiters_def lessThan_Suc) blast
  qed
  show "drains_ok (snd (waitForActiveGatewayRootWork timeoutMs s))"
    using assms active [of "wa_drainTimers s @ [wa_nextDrain s]"] active [of "wa_drainTimers s"]
    by (auto simp: waitForActiveGatewayRootWork_def Let_def)
  show "drains_ok (drainTimerFires w s)" if "w \<in> set (wa_drainTimers s)"
    using assms that unfolding drains_ok_def by (simp add: drainTimerFires_def drainWaiters_def) blast
  show "drains_ok (finishDrainWait w s)" if w: "w \<in> set (wa_drainResolved s)"
  proof -
    let ?n = "length (wa_activeRootWork s)"
    have waiters: "drainWaiters (finishDrainWait w s) = drainWaiters s - {w}"
      by (cases "wa_rootDrainWaiters s") (auto simp: drainWaiters_def finishDrainWait_def Let_def)
    have answers: "answeredDrains (wa_drainAnswers s @ [(w, ?n = 0, ?n)]) = insert w (answeredDrains (wa_drainAnswers s))"
      by (simp add: answeredDrains_def)
    have new: "w \<notin> answeredDrains (wa_drainAnswers s)" "w < wa_nextDrain s"
      using assms w by (auto simp: drains_ok_def)
    then have "distinct (map fst (wa_drainAnswers s @ [(w, ?n = 0, ?n)]))"
      using assms by (simp add: drains_ok_def answeredDrains_def)
    then show ?thesis
      using assms new waiters answers unfolding drains_ok_def
      by (simp add: finishDrainWait_def Let_def) blast
  qed
qed

lemma drains_ok_step:
  assumes "admission_step l s s'" "drains_ok s"
  shows "drains_ok s'"
  using assms(1)
proof cases
  case (begin_root cur)
  show ?thesis unfolding begin_root
    by (cases rule: tryBegin_cases [where s = s and cur = cur]) (use assms(2) drains_ok_create in auto)
next
  case (run_continuation cur)
  then show ?thesis using assms(2) drains_ok_create [OF assms(2)]
    by (auto simp: runWithGatewayIndependentRootWorkContinuation_def runWithGatewayIndependentRootWorkAdmission_def
        drains_ok_loop split: prod.split)
qed (use assms(2) in \<open>auto simp: drains_ok_loop drains_ok_release drains_ok_reset drains_ok_wait admission_ops
      beginGatewayRootWorkAdmissionWhenOpen_def runWithGatewayIndependentRootWorkAdmission_def resumeWaiter_def
      retainGatewayRootWorkAdmissionContinuation_def createGatewayRootWorkRelease_def Let_def split: option.splits\<close>)

subsection \<open>Invariant of the gate\<close>

lemma admission_inv_init: "initial_admission s \<Longrightarrow> admission_inv s"
  by (simp add: initial_admission_def initialAdmissionState_def admission_inv_def roots_ok_def gate_ok_def
      calls_ok_def drains_ok_def drainWaiters_def answeredDrains_def)

lemma admission_inv_step: "admission_inv s \<Longrightarrow> anyStep s s' \<Longrightarrow> admission_inv s'"
  by (auto simp: admission_inv_def anyStep_def roots_ok_step gate_ok_step calls_ok_step drains_ok_step)

interpretation work_gate: inductive_invariant initial_admission anyStep admission_inv
  by unfold_locales (fact admission_inv_init, fact admission_inv_step)

lemma reachable_steps:
  "anyStep\<^sup>*\<^sup>* s s' \<Longrightarrow> reachable initial_admission anyStep s \<Longrightarrow> reachable initial_admission anyStep s'"
  by (induction rule: rtranclp_induct) (auto intro: reachable.step)

subsection \<open>Generations\<close>

text \<open>The generation counters never go back; a step that reopens the fence, or that takes the
  suspension from accepting to a closed phase, moves its counter on.\<close>

lemma admissionLoop_frame [simp]:
  "wa_restartDraining (admissionLoop w s) = wa_restartDraining s"
  "wa_restartSignalPending (admissionLoop w s) = wa_restartSignalPending s"
  "wa_restartSignalGeneration (admissionLoop w s) = wa_restartSignalGeneration s"
  "wa_suspendPhase (admissionLoop w s) = wa_suspendPhase s"
  "wa_suspendGeneration (admissionLoop w s) = wa_suspendGeneration s"
  by (cases rule: admissionLoop_cases [where s = s and w = w]; simp add: createGatewayRootWorkAdmission_eq; fastforce)+

lemma tryBegin_frame [simp]:
  "wa_restartDraining (snd (tryBeginGatewayRootWorkAdmission cur s)) = wa_restartDraining s"
  "wa_restartSignalPending (snd (tryBeginGatewayRootWorkAdmission cur s)) = wa_restartSignalPending s"
  "wa_restartSignalGeneration (snd (tryBeginGatewayRootWorkAdmission cur s)) = wa_restartSignalGeneration s"
  "wa_suspendPhase (snd (tryBeginGatewayRootWorkAdmission cur s)) = wa_suspendPhase s"
  "wa_suspendGeneration (snd (tryBeginGatewayRootWorkAdmission cur s)) = wa_suspendGeneration s"
  by (simp_all add: tryBeginGatewayRootWorkAdmission_def createGatewayRootWorkAdmission_eq)

lemma release_frame [simp]:
  "wa_restartDraining (releaseRootWork r s) = wa_restartDraining s"
  "wa_restartSignalPending (releaseRootWork r s) = wa_restartSignalPending s"
  "wa_restartSignalGeneration (releaseRootWork r s) = wa_restartSignalGeneration s"
  "wa_suspendPhase (releaseRootWork r s) = wa_suspendPhase s"
  "wa_suspendGeneration (releaseRootWork r s) = wa_suspendGeneration s"
  by (cases rule: releaseRootWork_cases [where r = r and s = s]; simp)+

lemmas client_ops =
  beginGatewayRootWorkAdmissionWhenOpen_def runWithGatewayIndependentRootWorkAdmission_def resumeWaiter_def
  runWithGatewayIndependentRootWorkContinuation_def createGatewayRootWorkAdmission_eq
  retainGatewayRootWorkAdmissionContinuation_def createGatewayRootWorkRelease_def
  waitForActiveGatewayRootWork_def drainTimerFires_def finishDrainWait_def

lemma step_generations:
  assumes "admission_step l s s'"
  shows "wa_restartSignalGeneration s \<le> wa_restartSignalGeneration s'"
    and "wa_suspendGeneration s \<le> wa_suspendGeneration s'"
    and "wa_suspendPhase s' \<noteq> Accepting \<Longrightarrow> wa_suspendGeneration s' = wa_suspendGeneration s
      \<Longrightarrow> wa_suspendPhase s \<noteq> Accepting"
  using assms
  by (cases rule: admission_step.cases;
      auto simp: admission_ops client_ops resetGatewayWorkAdmission_def Let_def split: option.splits if_splits)+

lemma steps_generations:
  assumes "anyStep\<^sup>*\<^sup>* s s'"
  shows "wa_restartSignalGeneration s \<le> wa_restartSignalGeneration s'"
    and "wa_suspendGeneration s \<le> wa_suspendGeneration s'"
  using assms by (induction rule: rtranclp_induct) (auto simp: anyStep_def dest: step_generations intro: order_trans)

subsection \<open>Quiet roots\<close>

text \<open>While the gate is closed and no root is active, no step of the clients creates one.\<close>

lemma no_live_root: "roots_ok s \<Longrightarrow> wa_activeRootWork s = [] \<Longrightarrow> knownRoot cur s \<Longrightarrow> \<not> liveRoot cur s"
  by (auto simp: roots_ok_def liveRoot_def knownRoot_iff split: option.splits)

lemma closed_loop_quiet:
  assumes "isGatewayWorkAdmissionClosed s" "wa_activeRootWork s = []"
  shows "wa_activeRootWork (admissionLoop w s) = []"
  by (cases rule: admissionLoop_cases [where s = s and w = w]) (use assms in auto)

lemma closed_step_quiet:
  assumes step: "admission_step l s s'" and ok: "roots_ok s"
    and closed: "isGatewayWorkAdmissionClosed s" and quiet: "wa_activeRootWork s = []"
  shows "wa_activeRootWork s' = []"
  using step
proof cases
  case (begin_root cur)
  then show ?thesis using closed quiet no_live_root [OF ok quiet, of cur]
    by (auto simp: tryBeginGatewayRootWorkAdmission_def isGatewayWorkAdmissionClosed_def)
next
  case (release r)
  then show ?thesis using quiet
    by (cases rule: releaseRootWork_cases [where r = r and s = s]) auto
next
  case (begin_when_open cur)
  then show ?thesis using closed quiet
    by (simp add: beginGatewayRootWorkAdmissionWhenOpen_def closed_loop_quiet isGatewayWorkAdmissionClosed_def)
next
  case (run_independent cur)
  then show ?thesis using closed quiet
    by (simp add: runWithGatewayIndependentRootWorkAdmission_def closed_loop_quiet isGatewayWorkAdmissionClosed_def)
next
  case (run_continuation cur)
  then show ?thesis using closed quiet no_live_root [OF ok quiet, of cur]
    by (simp add: runWithGatewayIndependentRootWorkContinuation_def runWithGatewayIndependentRootWorkAdmission_def
        closed_loop_quiet isGatewayWorkAdmissionClosed_def)
next
  case (resume w)
  then show ?thesis using closed quiet
    by (simp add: resumeWaiter_def closed_loop_quiet isGatewayWorkAdmissionClosed_def)
qed (use quiet in \<open>auto simp: admission_ops client_ops resetGatewayWorkAdmission_def Let_def split: option.splits\<close>)

lemma work_keeps_draining:
  "admission_step Work s s' \<Longrightarrow> wa_restartDraining s \<Longrightarrow> wa_restartDraining s'"
  by (erule admission_workE) (auto simp: admission_ops client_ops Let_def split: option.splits if_splits)

lemma draining_steps:
  assumes "(admission_step Work)\<^sup>*\<^sup>* s s'" "reachable initial_admission anyStep s" "wa_restartDraining s"
  shows "wa_restartDraining s' \<and> reachable initial_admission anyStep s'
    \<and> (wa_activeRootWork s = [] \<longrightarrow> wa_activeRootWork s' = [])"
  using assms
proof (induction rule: rtranclp_induct)
  case (step t t')
  then have t: "wa_restartDraining t" "reachable initial_admission anyStep t"
    "wa_activeRootWork s = [] \<longrightarrow> wa_activeRootWork t = []" by auto
  have "admission_inv t" using t(2) by (rule work_gate.reachable_inv)
  moreover have "reachable initial_admission anyStep t'"
    using reachable.step [OF t(2)] step.hyps(2) unfolding anyStep_def by blast
  ultimately show ?case
    using t step.hyps(2) work_keeps_draining closed_step_quiet [OF step.hyps(2)]
    by (auto simp: admission_inv_def isGatewayWorkAdmissionClosed_def)
qed auto

lemma suspended_steps:
  assumes "anyStep\<^sup>*\<^sup>* s s'" "reachable initial_admission anyStep s" "wa_activeRootWork s = []"
    and "wa_suspendPhase s' \<noteq> Accepting" "wa_suspendGeneration s' = wa_suspendGeneration s"
  shows "wa_suspendPhase s \<noteq> Accepting \<and> wa_activeRootWork s' = []"
  using assms
proof (induction rule: rtranclp_induct)
  case (step t t')
  obtain l where l: "admission_step l t t'" using step.hyps(2) by (auto simp: anyStep_def)
  have "wa_suspendGeneration s \<le> wa_suspendGeneration t" using step.hyps(1) by (rule steps_generations)
  then have gen: "wa_suspendGeneration t = wa_suspendGeneration s"
    using step_generations(2) [OF l] step.prems(4) by simp
  have phase: "wa_suspendPhase t \<noteq> Accepting"
    using step_generations(3) [OF l step.prems(3)] gen step.prems(4) by simp
  have t: "wa_suspendPhase s \<noteq> Accepting" "wa_activeRootWork t = []"
    using step.IH [OF step.prems(1,2) phase gen] by auto
  have "roots_ok t"
    using work_gate.reachable_inv [OF reachable_steps [OF step.hyps(1) step.prems(1)]] by (simp add: admission_inv_def)
  then show ?case using closed_step_quiet [OF l _ _ t(2)] t(1) phase by (simp add: isGatewayWorkAdmissionClosed_def)
qed auto

subsection \<open>Properties\<close>

text \<open>C27. Root work is counted exactly. In every reachable state of the gate a root is in the active
  set precisely while it is not released; its reference count is then the number of its release
  handles that have not been used, which is positive; and the reported number of active roots is the
  number of roots that are not released. So a root stays active until its last handle is released,
  and using a handle twice releases nothing twice.\<close>

theorem root_work_counted_exactly:
  assumes "reachable initial_admission anyStep s" "a < length (wa_admissions s)"
  shows "(a \<in> set (wa_activeRootWork s) \<longleftrightarrow> \<not> ra_released (wa_admissions s ! a))
    \<and> (ra_released (wa_admissions s ! a)
       \<or> ra_references (wa_admissions s ! a) = int (liveReleases a s) \<and> 0 < liveReleases a s)
    \<and> getActiveGatewayRootWorkCount False cur s
       = int (card {b. b < length (wa_admissions s) \<and> \<not> ra_released (wa_admissions s ! b)})"
proof -
  have ok: "roots_ok s" using work_gate.reachable_inv [OF assms(1)] by (simp add: admission_inv_def)
  then have "length (wa_activeRootWork s)
      = card {b. b < length (wa_admissions s) \<and> \<not> ra_released (wa_admissions s ! b)}"
    using distinct_card [of "wa_activeRootWork s"] by (simp add: roots_ok_def)
  then show ?thesis using ok assms(2) by (auto simp: roots_ok_def getActiveGatewayRootWorkCount_def Let_def)
qed

text \<open>A small run: one root is admitted, retained by a continuation and released once.\<close>

definition demo_root :: admission_state where
  "demo_root = snd (tryBeginGatewayRootWorkAdmission None initialAdmissionState)"

definition demo_retained :: admission_state where
  "demo_retained = releaseRootWork 0 (snd (retainGatewayRootWorkAdmissionContinuation (Some 0) demo_root))"

lemma reachable_anyStep:
  "reachable initial_admission anyStep s \<Longrightarrow> admission_step l s s' \<Longrightarrow> reachable initial_admission anyStep s'"
  by (rule reachable.step) (auto simp: anyStep_def)

lemma reachable_initial: "reachable initial_admission anyStep initialAdmissionState"
  by (rule reachable.start) (simp add: initial_admission_def)

lemma reachable_demo_root: "reachable initial_admission anyStep demo_root"
  unfolding demo_root_def
  by (rule reachable_anyStep [OF reachable_initial admission_step.begin_root]) (simp add: knownRoot_def)

lemma reachable_demo_retained: "reachable initial_admission anyStep demo_retained"
proof -
  have known: "knownRoot (Some 0) demo_root" by code_simp
  have "0 < length (wa_releases (snd (retainGatewayRootWorkAdmissionContinuation (Some 0) demo_root)))"
    by code_simp
  then show ?thesis unfolding demo_retained_def
    by (rule reachable_anyStep [OF reachable_anyStep [OF reachable_demo_root admission_step.retain [OF known]]
          admission_step.release])
qed

theorem root_work_counted_exactly_witness:
  "0 \<in> set (wa_activeRootWork demo_retained) \<and> ra_references (wa_admissions demo_retained ! 0) = 1
   \<and> getActiveGatewayRootWorkCount False None demo_retained = 1"
proof -
  have roots: "wa_admissions demo_retained = [\<lparr>ra_references = 1, ra_released = False\<rparr>]" by code_simp
  have live: "liveReleases 0 demo_retained = 1" by code_simp
  have "{b. b < length (wa_admissions demo_retained) \<and> \<not> ra_released (wa_admissions demo_retained ! b)} = {0}"
    using roots by auto
  then show ?thesis using roots live root_work_counted_exactly [OF reachable_demo_retained, of 0 None] by simp
qed

text \<open>C28. No caller of the gate is forgotten. In every reachable state each call that had to wait for
  admission is, exactly once, waiting, about to run again, or answered; callers wait only while the
  gate is reversibly closed, never while it is open and never during restart drain; and every drain
  waiter is registered, about to run or answered, and is registered only while some root is
  active.\<close>

theorem admission_callers_not_forgotten:
  assumes "reachable initial_admission anyStep s"
  shows "mset (map ow_id (wa_suspendOpenWaiters s)) + mset (map ow_id (wa_resumed s))
        + mset (map fst (wa_settled s)) = mset [0..<wa_nextCall s]
    \<and> (wa_suspendOpenWaiters s = [] \<or> isGatewayWorkAdmissionClosed s \<and> \<not> wa_restartDraining s)
    \<and> drainWaiters s \<union> set (wa_drainResolved s) \<union> answeredDrains (wa_drainAnswers s) = {..<wa_nextDrain s}
    \<and> (drainWaiters s = {} \<or> wa_activeRootWork s \<noteq> [])"
proof -
  have "calls_ok s" "gate_ok s" "drains_ok s"
    using work_gate.reachable_inv [OF assms] by (simp_all add: admission_inv_def)
  then show ?thesis by (auto simp: calls_ok_def gate_ok_def drains_ok_def)
qed

text \<open>A run in which a caller waits behind a suspension.\<close>

definition demo_suspended :: admission_state where
  "demo_suspended = snd (tryBeginGatewaySuspendAdmission 7 initialAdmissionState)"

definition demo_waiting :: admission_state where
  "demo_waiting = beginGatewayRootWorkAdmissionWhenOpen None demo_suspended"

definition demo_reopened :: admission_state where
  "demo_reopened = snd (rollbackSuspend 1 demo_waiting)"

lemma reachable_demo_suspended: "reachable initial_admission anyStep demo_suspended"
  unfolding demo_suspended_def by (rule reachable_anyStep [OF reachable_initial admission_step.begin_suspend])

lemma step_demo_waiting: "anyStep demo_suspended demo_waiting"
  unfolding demo_waiting_def anyStep_def
  by (rule exI, rule admission_step.begin_when_open) (simp add: knownRoot_def)

lemma reachable_demo_waiting: "reachable initial_admission anyStep demo_waiting"
  by (rule reachable.step [OF reachable_demo_suspended step_demo_waiting])

lemma reachable_demo_reopened: "reachable initial_admission anyStep demo_reopened"
  unfolding demo_reopened_def by (rule reachable_anyStep [OF reachable_demo_waiting admission_step.rollback_suspend])

theorem admission_callers_not_forgotten_witness:
  "wa_suspendOpenWaiters demo_waiting \<noteq> [] \<and> isGatewayWorkAdmissionClosed demo_waiting
   \<and> \<not> wa_restartDraining demo_waiting"
proof -
  have "wa_suspendOpenWaiters demo_waiting \<noteq> []" by code_simp
  then show ?thesis using admission_callers_not_forgotten [OF reachable_demo_waiting] by simp
qed

lemma liveRoot_resumed [simp]: "liveRoot cur (s\<lparr>wa_resumed := ws\<rparr>) = liveRoot cur s"
  by (simp add: liveRoot_def cong: option.case_cong)

text \<open>A caller that is woken gets its answer when the gate is open: its continuation throws the
  draining error during restart drain, is admitted under a lease when the gate is open, and goes back
  to waiting only when the gate was closed again in between and it runs under no live root.\<close>

theorem woken_callers_are_answered:
  "if wa_restartDraining s
         then wa_settled (resumeWaiter w s) = wa_settled s @ [(ow_id w, Draining)]
         else if \<not> isGatewayWorkAdmissionClosed s \<or> (\<not> ow_independent w \<and> liveRoot (ow_current w) s)
         then \<exists>lease. wa_settled (resumeWaiter w s) = wa_settled s @ [(ow_id w, Admitted lease)]
           \<and> (gl_ownsRoot lease \<longrightarrow> gl_admission lease = Some (length (wa_admissions s))
                \<and> length (wa_admissions s) \<in> set (wa_activeRootWork (resumeWaiter w s)))
         else wa_suspendOpenWaiters (resumeWaiter w s) = wa_suspendOpenWaiters s @ [w]"
  by (auto simp: resumeWaiter_def admissionLoop_def tryBeginGatewayIndependentRootWorkAdmission_def
      tryBeginGatewayRootWorkAdmission_def isGatewayWorkAdmissionClosed_def
      createGatewayRootWorkAdmission_eq)

theorem woken_callers_are_answered_witness:
  "\<exists>w lease. wa_resumed demo_reopened = [w]
     \<and> wa_settled (resumeWaiter w demo_reopened) = [(0, Admitted lease)] \<and> gl_ownsRoot lease"
proof -
  let ?w = "\<lparr>ow_id = 0, ow_current = None, ow_independent = False\<rparr>"
  have r: "wa_resumed demo_reopened = [?w]" by code_simp
  have s: "wa_settled demo_reopened = []" "\<not> wa_restartDraining demo_reopened"
    "\<not> isGatewayWorkAdmissionClosed demo_reopened" by code_simp+
  have own: "list_all (\<lambda>(i, ans). case ans of Admitted lease \<Rightarrow> gl_ownsRoot lease | Draining \<Rightarrow> False)
      (wa_settled (resumeWaiter ?w demo_reopened))" by code_simp
  obtain lease where "wa_settled (resumeWaiter ?w demo_reopened) = [(0, Admitted lease)]"
    using woken_callers_are_answered [of demo_reopened ?w] s by auto
  then show ?thesis using r own by auto
qed

text \<open>C30. Restart drain is one-way. From a reachable draining state, whatever clients do short of the
  in-process restart, the gate stays draining. It refuses a new root, an independent root, the
  restart-signal fence and a suspension; subordinate work is closed even under a live root; a caller
  that would wait for the gate, or run an independent root, gets the draining error even under a live
  root. Only a caller under a live root passes, and only as follows: a nested begin gets a lease that
  owns no root and changes nothing, and a continuation may reserve a root or retain the caller's;
  without a live root the continuation gets the draining error and nothing can be retained. Once no
  root is active, none ever becomes active.\<close>

theorem restart_drain_is_final:
  assumes "reachable initial_admission anyStep s" "wa_restartDraining s"
    and "(admission_step Work)\<^sup>*\<^sup>* s s'"
  shows "wa_restartDraining s'
    \<and> tryBeginGatewayRootWorkAdmission cur s'
        = (if liveRoot cur s' then (Some \<lparr>gl_ownsRoot = False, gl_release = None, gl_admission = None\<rparr>, s')
           else (None, s'))
    \<and> fst (tryBeginGatewayIndependentRootWorkAdmission s') = None
    \<and> fst (beginGatewayRestartSignalAdmission s') = None
    \<and> fst (tryBeginGatewaySuspendAdmission c s') = None
    \<and> isGatewaySubordinateWorkAdmissionClosed cur s'
    \<and> wa_settled (beginGatewayRootWorkAdmissionWhenOpen cur s') = wa_settled s' @ [(wa_nextCall s', Draining)]
    \<and> wa_settled (runWithGatewayIndependentRootWorkAdmission cur s') = wa_settled s' @ [(wa_nextCall s', Draining)]
    \<and> (liveRoot cur s'
       \<or> wa_settled (runWithGatewayIndependentRootWorkContinuation cur s') = wa_settled s' @ [(wa_nextCall s', Draining)]
         \<and> fst (retainGatewayRootWorkAdmissionContinuation cur s') = None)
    \<and> (wa_activeRootWork s \<noteq> [] \<or> wa_activeRootWork s' = [])"
  using draining_steps [OF assms(3,1,2)]
  by (auto simp: tryBeginGatewayRootWorkAdmission_def tryBeginGatewayIndependentRootWorkAdmission_def
      beginGatewayRestartSignalAdmission_def tryBeginGatewaySuspendAdmission_def
      isGatewaySubordinateWorkAdmissionClosed_def beginGatewayRootWorkAdmissionWhenOpen_def
      runWithGatewayIndependentRootWorkAdmission_def runWithGatewayIndependentRootWorkContinuation_def
      admissionLoop_def retainGatewayRootWorkAdmissionContinuation_def liveRoot_def Let_def
      split: option.splits)

definition demo_draining :: admission_state where
  "demo_draining = markGatewayRestartDraining demo_waiting"

theorem restart_drain_is_final_witness:
  "wa_activeRootWork (beginGatewayRootWorkAdmissionWhenOpen None demo_draining) = []
   \<and> fst (tryBeginGatewayRootWorkAdmission None (beginGatewayRootWorkAdmissionWhenOpen None demo_draining)) = None"
proof -
  have d: "reachable initial_admission anyStep demo_draining" "wa_restartDraining demo_draining"
    "wa_activeRootWork demo_draining = []"
    unfolding demo_draining_def
    by (rule reachable_anyStep [OF reachable_demo_waiting admission_step.drain], code_simp, code_simp)
  have "(admission_step Work)\<^sup>*\<^sup>* demo_draining (beginGatewayRootWorkAdmissionWhenOpen None demo_draining)"
    by (rule r_into_rtranclp, rule admission_step.begin_when_open) (simp add: knownRoot_def)
  from restart_drain_is_final [OF d(1,2) this, of None] d(3) show ?thesis by (simp add: liveRoot_def)
qed

text \<open>The restart-signal fence has one owner. A lease handed out later carries a larger
  generation, and from then on the earlier lease is dead: its rollback reports failure and leaves
  the state, in particular the new owner's fence, untouched.\<close>

theorem restart_signal_lease_exclusive:
  assumes "beginGatewayRestartSignalAdmission s = (Some g, s1)" "anyStep\<^sup>*\<^sup>* s1 s2"
    and "beginGatewayRestartSignalAdmission s2 = (Some h, s3)" "anyStep\<^sup>*\<^sup>* s3 s4"
  shows "g < h \<and> rollbackRestartSignal g s4 = (False, s4)"
proof -
  have "wa_restartSignalGeneration s1 = g" "wa_restartSignalGeneration s3 = h"
    "h = Suc (wa_restartSignalGeneration s2)"
    using assms(1,3) by (auto simp: beginGatewayRestartSignalAdmission_def Let_def split: if_splits)
  then show ?thesis using steps_generations(1) [OF assms(2)] steps_generations(1) [OF assms(4)]
    by (simp add: rollbackRestartSignal_def)
qed

theorem restart_signal_lease_exclusive_witness:
  "\<exists>g h s1 s2 s3. beginGatewayRestartSignalAdmission initialAdmissionState = (Some g, s1)
     \<and> s2 = snd (rollbackRestartSignal g s1)
     \<and> beginGatewayRestartSignalAdmission s2 = (Some h, s3)
     \<and> g < h \<and> rollbackRestartSignal g s3 = (False, s3)"
proof -
  let ?s1 = "snd (beginGatewayRestartSignalAdmission initialAdmissionState)"
  let ?s2 = "snd (rollbackRestartSignal 1 ?s1)"
  let ?s3 = "snd (beginGatewayRestartSignalAdmission ?s2)"
  have 1: "beginGatewayRestartSignalAdmission initialAdmissionState = (Some 1, ?s1)" by code_simp
  have 2: "anyStep\<^sup>*\<^sup>* ?s1 ?s2"
    by (rule r_into_rtranclp) (auto simp: anyStep_def intro: admission_step.rollback_signal)
  have 3: "beginGatewayRestartSignalAdmission ?s2 = (Some 3, ?s3)" by code_simp
  show ?thesis using restart_signal_lease_exclusive [OF 1 2 3 rtranclp.rtrancl_refl] 1 3 by metis
qed

text \<open>The same for suspension: once a later suspension has been granted, commit, rollback and
  release of an earlier lease report failure and change nothing.\<close>

theorem suspend_lease_exclusive:
  assumes "tryBeginGatewaySuspendAdmission c s = (Some g, s1)" "anyStep\<^sup>*\<^sup>* s1 s2"
    and "tryBeginGatewaySuspendAdmission d s2 = (Some h, s3)" "anyStep\<^sup>*\<^sup>* s3 s4"
  shows "commitSuspend g s4 = (False, s4) \<and> rollbackSuspend g s4 = (False, s4)
    \<and> releaseSuspend g s4 = (False, s4)"
proof -
  have "wa_suspendGeneration s1 = g" "wa_suspendGeneration s3 = h" "h = Suc (wa_suspendGeneration s2)"
    using assms(1,3) by (auto simp: tryBeginGatewaySuspendAdmission_def Let_def split: if_splits)
  then show ?thesis using steps_generations(2) [OF assms(2)] steps_generations(2) [OF assms(4)]
    by (simp add: commitSuspend_def rollbackSuspend_def releaseSuspend_def suspendTransition_def)
qed

theorem suspend_lease_exclusive_witness:
  "commitSuspend 1 (snd (tryBeginGatewaySuspendAdmission 8 demo_reopened))
   = (False, snd (tryBeginGatewaySuspendAdmission 8 demo_reopened))"
proof -
  have 1: "tryBeginGatewaySuspendAdmission 7 initialAdmissionState = (Some 1, demo_suspended)" by code_simp
  have "anyStep demo_waiting demo_reopened"
    unfolding demo_reopened_def anyStep_def by (rule exI, rule admission_step.rollback_suspend)
  with step_demo_waiting have 2: "anyStep\<^sup>*\<^sup>* demo_suspended demo_reopened" by simp
  have 3: "tryBeginGatewaySuspendAdmission 8 demo_reopened
      = (Some 2, snd (tryBeginGatewaySuspendAdmission 8 demo_reopened))" by code_simp
  show ?thesis using suspend_lease_exclusive [OF 1 2 3 rtranclp.rtrancl_refl] by simp
qed

text \<open>A suspension that found the process idle keeps it idle: from a reachable state without
  active roots, as long as the same suspension is in force (same generation, phase not accepting),
  no root becomes active, whatever clients, continuations and timers do in between.\<close>

theorem suspension_keeps_process_idle:
  assumes "reachable initial_admission anyStep s" "wa_activeRootWork s = []" "anyStep\<^sup>*\<^sup>* s s'"
    and "getGatewaySuspendAdmissionPhase s' \<noteq> Accepting"
    and "wa_suspendGeneration s' = wa_suspendGeneration s"
  shows "getActiveGatewayRootWorkCount False cur s' = 0"
  using suspended_steps [OF assms(3,1,2)] assms(4,5)
  by (simp add: getGatewaySuspendAdmissionPhase_def getActiveGatewayRootWorkCount_def Let_def)

theorem suspension_keeps_process_idle_witness:
  "getActiveGatewayRootWorkCount False None demo_waiting = 0"
proof (rule suspension_keeps_process_idle [OF reachable_demo_suspended])
  show "anyStep\<^sup>*\<^sup>* demo_suspended demo_waiting" using step_demo_waiting by (rule r_into_rtranclp)
qed code_simp+

end
