(* ===== verification/Gateway_Process.thy ===== *)
theory Gateway_Process
  imports Command_Queue Work_Admission
begin

text \<open>
  The gateway process as the composition of its command lanes and its admission gate. The functions of
  \<open>src/process/command-queue.ts\<close> that touch both are here: enqueueing asks the gate of
  \<open>gateway-work-admission.ts\<close> first, \<open>markGatewayDraining\<close> closes it, and
  \<open>resetAllLanes\<close> reopens it before it resets the lanes. The process is a step relation whose
  steps project to steps of the two components, so the invariants of both hold together; the
  properties say what draining and the in-process restart do to the commands.
\<close>

subsection \<open>The process\<close>

record gateway_process =
  gp_queue :: queue_state
  gp_admission :: admission_state

text \<open>\<open>cur\<close> is the root in the async-local storage of the caller.\<close>

definition enqueueInGateway ::
  "nat option \<Rightarrow> int \<Rightarrow> string \<Rightarrow> enqueue_options \<Rightarrow> gateway_process \<Rightarrow> (lane_error + nat) \<times> gateway_process" where
  "enqueueInGateway cur now lane opts p =
     (let (answer, q) = enqueueCommandInLane
        (isGatewaySubordinateWorkAdmissionClosed cur (gp_admission p)) now lane opts (gp_queue p)
      in (answer, p\<lparr>gp_queue := q\<rparr>))"

definition markGatewayDraining :: "gateway_process \<Rightarrow> gateway_process" where
  "markGatewayDraining p = p\<lparr>gp_admission := markGatewayRestartDraining (gp_admission p)\<rparr>"

definition isGatewayDraining :: "gateway_process \<Rightarrow> bool" where
  "isGatewayDraining p = isGatewayWorkAdmissionClosed (gp_admission p)"

definition resetAllLanes :: "int \<Rightarrow> gateway_process \<Rightarrow> gateway_process" where
  "resetAllLanes now p =
     (let p1 = p\<lparr>gp_admission := resetGatewayWorkAdmission (gp_admission p)\<rparr>
      in p1\<lparr>gp_queue := resetEveryLane now (gp_queue p1)\<rparr>)"

text \<open>The steps of the process: those of the gate, those of the lanes, and the operations in which
  both take part.\<close>

inductive gateway_step :: "admission_label \<Rightarrow> gateway_process \<Rightarrow> gateway_process \<Rightarrow> bool" where
  gate: "admission_step Work (gp_admission p) a \<Longrightarrow> gateway_step Work p (p\<lparr>gp_admission := a\<rparr>)"
| enqueue: "knownRoot cur (gp_admission p) \<Longrightarrow> gateway_step Work p (snd (enqueueInGateway cur now lane opts p))"
| settle: "r \<in> set (q_running (gp_queue p)) \<Longrightarrow>
    gateway_step Work p (p\<lparr>gp_queue := settleTask now r outcome (gp_queue p)\<rparr>)"
| concurrency: "gateway_step Work p (p\<lparr>gp_queue := setCommandLaneConcurrency now lane limit (gp_queue p)\<rparr>)"
| clear: "gateway_step Work p (p\<lparr>gp_queue := snd (clearCommandLane ln (gp_queue p))\<rparr>)"
| reset: "gateway_step Work p (p\<lparr>gp_queue := snd (resetCommandLane now ln (gp_queue p))\<rparr>)"
| wait: "gateway_step Work p (p\<lparr>gp_queue := snd (waitForActiveTasks timeoutMs (gp_queue p))\<rparr>)"
| wait_timeout: "w \<in> set (q_waiters (gp_queue p)) \<Longrightarrow>
    gateway_step Work p (p\<lparr>gp_queue := resolveActiveTaskWaiter w False (gp_queue p)\<rparr>)"
| restart: "gateway_step Restart p (resetAllLanes now p)"

definition initial_gateway :: "gateway_process \<Rightarrow> bool" where
  "initial_gateway p \<longleftrightarrow> initial_queue (gp_queue p) \<and> initial_admission (gp_admission p)"

definition anyGatewayStep :: "gateway_process \<Rightarrow> gateway_process \<Rightarrow> bool" where
  "anyGatewayStep p p' \<longleftrightarrow> (\<exists>l. gateway_step l p p')"

subsection \<open>Projections\<close>

text \<open>Every step of the process is a step, or no step, of each component; so both components only
  reach states they reach on their own, and keep their invariants.\<close>

lemma gateway_queue_step:
  assumes "gateway_step l p p'"
  shows "gp_queue p' = gp_queue p \<or> queue_step (gp_queue p) (gp_queue p')"
  using assms
proof cases
  case (enqueue cur now lane opts)
  then show ?thesis
    using queue_step.enqueue [of "gp_queue p" "isGatewaySubordinateWorkAdmissionClosed cur (gp_admission p)" now lane opts]
    by (simp add: enqueueInGateway_def case_prod_unfold Let_def)
qed (auto simp: resetAllLanes_def Let_def intro: queue_step.intros)

lemma gateway_admission_step:
  assumes "gateway_step l p p'"
  shows "gp_admission p' = gp_admission p \<or> admission_step l (gp_admission p) (gp_admission p')"
  using assms
  by cases (auto simp: resetAllLanes_def enqueueInGateway_def Let_def split: prod.split intro: admission_step.reset)

lemma gateway_step_gate: "gateway_step Work p p' \<Longrightarrow> (admission_step Work)\<^sup>*\<^sup>* (gp_admission p) (gp_admission p')"
  using gateway_admission_step [of Work p p'] by auto

definition gateway_inv :: "gateway_process \<Rightarrow> bool" where
  "gateway_inv p \<longleftrightarrow> reachable initial_queue queue_step (gp_queue p)
     \<and> reachable initial_admission anyStep (gp_admission p)"

lemma gateway_inv_step: "gateway_inv p \<Longrightarrow> anyGatewayStep p p' \<Longrightarrow> gateway_inv p'"
  unfolding gateway_inv_def anyGatewayStep_def
  using gateway_queue_step gateway_admission_step reachable.step reachable_anyStep by metis

interpretation gateway: inductive_invariant initial_gateway anyGatewayStep gateway_inv
proof
  show "gateway_inv p" if "initial_gateway p" for p
    using that by (auto simp: gateway_inv_def initial_gateway_def intro: reachable.start)
qed (fact gateway_inv_step)

subsection \<open>What the lanes keep\<close>

text \<open>Pumping, draining, resetting and notifying neither accept nor settle a command.\<close>

definition same_commands :: "queue_state \<Rightarrow> queue_state \<Rightarrow> bool" where
  "same_commands q q' \<longleftrightarrow> q_nextQueueSequence q' = q_nextQueueSequence q \<and> q_settled q' = q_settled q"

lemma same_commands_refl [simp]: "same_commands q q"
  by (simp add: same_commands_def)

lemma same_commands_trans: "same_commands q q' \<Longrightarrow> same_commands q' q'' \<Longrightarrow> same_commands q q''"
  by (simp add: same_commands_def)

lemma same_pumpLoop: "same_commands q (pumpLoop now u q)"
proof (induction now u q rule: pumpLoop.induct)
  case (1 now u q)
  have "same_commands q (startTask now u e rest q)" for e rest by (simp add: same_commands_def)
  with 1 show ?case
    by (subst pumpLoop.simps) (auto simp: same_commands_def split: list.split)
qed

lemma same_putObj [simp]: "same_commands q (putObj u s q)"
  by (simp add: same_commands_def)

lemma same_retire: "same_commands q (retireIdleScopedCommandLane u q)"
  by (simp add: same_commands_def retireIdleScopedCommandLane_def Let_def)

lemma same_pump: "same_commands q (pump now u q)"
  unfolding pump_def Let_def
  by (rule same_commands_trans [OF same_pumpLoop same_commands_trans [OF same_putObj same_retire]])

lemma same_getLaneState: "same_commands q (snd (getLaneState lane q))"
  by (simp add: same_commands_def getLaneState_def Let_def split: option.split)

lemma same_drainLane: "same_commands q (drainLane now lane q)"
proof -
  obtain u q1 where g: "getLaneState lane q = (u, q1)" by fastforce
  then have "same_commands q q1" using same_getLaneState [of q lane] by simp
  moreover have "same_commands q1 (pump now u (putObj u ((obj q1 u)\<lparr>ls_draining := True\<rparr>) q1))"
    by (rule same_commands_trans [OF same_putObj same_pump])
  ultimately show ?thesis using g by (auto simp: drainLane_def intro: same_commands_trans)
qed

lemma same_notify: "same_commands q (notifyActiveTaskWaiters q)"
proof -
  have "same_commands q (foldl notifyWaiter q ws)" for ws
  proof (induction ws arbitrary: q)
    case (Cons w ws)
    have "same_commands q (notifyWaiter q w)"
      by (simp add: same_commands_def notifyWaiter_def resolveActiveTaskWaiter_def)
    with Cons show ?case by (auto intro: same_commands_trans)
  qed simp
  then show ?thesis by (simp add: notifyActiveTaskWaiters_def)
qed

lemma same_reset_fold:
  "same_commands q (foldl (\<lambda>q' (lane, u). putObj u (resetLane (obj q' u)) q') q ls)"
proof (induction ls arbitrary: q)
  case (Cons l ls)
  then show ?case using same_commands_trans [OF same_putObj Cons.IH] by (cases l) auto
qed simp

lemma same_drain_fold: "same_commands q (foldl (\<lambda>q' lane. drainLane now lane q') q ls)"
proof (induction ls arbitrary: q)
  case (Cons l ls)
  then show ?case using same_commands_trans [OF same_drainLane Cons.IH] by auto
qed simp

lemma same_resetEveryLane: "same_commands q (resetEveryLane now q)"
  unfolding resetEveryLane_def Let_def
  by (rule same_commands_trans [OF same_reset_fold same_commands_trans [OF same_drain_fold same_notify]])

text \<open>Settlements are never undone, and without an accepted enqueue no command is added.\<close>

definition no_new_commands :: "queue_state \<Rightarrow> queue_state \<Rightarrow> bool" where
  "no_new_commands q q' \<longleftrightarrow> q_nextQueueSequence q' = q_nextQueueSequence q
     \<and> settledSequences q \<subseteq># settledSequences q'"

lemma no_new_same: "same_commands q q' \<Longrightarrow> no_new_commands q q'"
  by (simp add: same_commands_def no_new_commands_def settledSequences_def)

lemma no_new_trans: "no_new_commands q q' \<Longrightarrow> no_new_commands q' q'' \<Longrightarrow> no_new_commands q q''"
  by (auto simp: no_new_commands_def)

lemma no_new_settle: "no_new_commands q (settleTask now r outcome q)"
proof -
  let ?q0 = "q\<lparr>q_running := removeAll r (q_running q)\<rparr>"
  let ?c = "completeTask (rt_object r) (rt_taskId r) (rt_generation r) ?q0"
  have "same_commands q (snd ?c)" by (simp add: same_commands_def completeTask_def)
  moreover have "same_commands (snd ?c) (pump now (rt_object r) (notifyActiveTaskWaiters (snd ?c)))"
    by (rule same_commands_trans [OF same_notify same_pump])
  ultimately show ?thesis
    by (auto simp: settleTask_def Let_def case_prod_unfold no_new_commands_def same_commands_def settledSequences_def)
qed

lemma same_concurrency: "same_commands q (setCommandLaneConcurrency now lane limit q)"
proof -
  obtain u q1 where g: "getLaneState (normalizeLane lane) q = (u, q1)" by fastforce
  then have "same_commands q q1" using same_getLaneState [of q "normalizeLane lane"] by simp
  then show ?thesis using g
    by (auto simp: setCommandLaneConcurrency_def Let_def intro: same_commands_trans [OF _ same_putObj]
        same_commands_trans [OF same_commands_trans [OF _ same_putObj] same_drainLane])
qed

lemma same_reset: "same_commands q (snd (resetCommandLane now ln q))"
  by (auto simp: resetCommandLane_def Let_def split: option.split
      intro: same_commands_trans [OF same_putObj same_notify]
        same_commands_trans [OF same_commands_trans [OF same_putObj same_drainLane] same_notify])

lemma same_wait:
  "same_commands q (snd (waitForActiveTasks timeoutMs q))" "same_commands q (resolveActiveTaskWaiter w d q)"
proof -
  have "same_commands q (notifyActiveTaskWaiters (q\<lparr>q_waiters := ws, q_nextWaiter := n\<rparr>))" for ws n
    using same_notify [of "q\<lparr>q_waiters := ws, q_nextWaiter := n\<rparr>"] by (simp add: same_commands_def)
  then show "same_commands q (snd (waitForActiveTasks timeoutMs q))"
    by (simp add: waitForActiveTasks_def Let_def)
qed (simp add: same_commands_def resolveActiveTaskWaiter_def)

lemma no_new_clear: "no_new_commands q (snd (clearCommandLane ln q))"
  by (auto simp: clearCommandLane_def no_new_commands_def settledSequences_def Let_def split: option.split)

lemma enqueue_refused:
  "isGatewaySubordinateWorkAdmissionClosed cur (gp_admission p) \<Longrightarrow>
   enqueueInGateway cur now lane opts p = (Inl GatewayDraining, p)"
  by (simp add: enqueueInGateway_def enqueueCommandInLane_def)

lemma draining_step_no_new:
  assumes "gateway_step Work p p'" "wa_restartDraining (gp_admission p)"
  shows "no_new_commands (gp_queue p) (gp_queue p')"
  using assms(1)
proof cases
  case (enqueue cur now lane opts)
  then show ?thesis using assms(2)
    by (simp add: enqueue_refused isGatewaySubordinateWorkAdmissionClosed_def no_new_same)
qed (auto simp: no_new_settle no_new_clear no_new_same same_concurrency same_reset same_wait)

subsection \<open>Properties\<close>

lemma draining_gateway:
  assumes "(gateway_step Work)\<^sup>*\<^sup>* p p'" "gateway_inv p" "wa_restartDraining (gp_admission p)"
  shows "gateway_inv p' \<and> wa_restartDraining (gp_admission p') \<and> no_new_commands (gp_queue p) (gp_queue p')"
  using assms
proof (induction rule: rtranclp_induct)
  case (step y z)
  then have y: "gateway_inv y" "wa_restartDraining (gp_admission y)" "no_new_commands (gp_queue p) (gp_queue y)"
    by auto
  have "gateway_inv z" using gateway_inv_step [OF y(1)] step.hyps(2) unfolding anyGatewayStep_def by blast
  moreover have "wa_restartDraining (gp_admission z)"
    using draining_steps [OF gateway_step_gate [OF step.hyps(2)]] y(1,2) by (simp add: gateway_inv_def)
  ultimately show ?case using no_new_trans [OF y(3) draining_step_no_new [OF step.hyps(2) y(2)]] by simp
qed (simp add: no_new_same)

lemma commands_accounted:
  "gateway_inv p \<Longrightarrow> queuedSequences (gp_queue p) + runningSequences (gp_queue p) + settledSequences (gp_queue p)
     = mset [1..<q_nextQueueSequence (gp_queue p)]"
  using lane_queue.reachable_inv [of "gp_queue p"]
  by (simp add: gateway_inv_def queue_inv_def core_def account_ok_def)

text \<open>C19. A draining gateway takes no new commands and only finishes old ones. From a reachable state
  in which restart drain has begun, after any further steps short of the in-process restart, every
  enqueue, from inside or outside an admitted root, is rejected with the draining error and changes
  nothing; and the commands still queued or running are among those that were queued or running when
  the drain began.\<close>

theorem draining_gateway_only_finishes_commands:
  assumes "reachable initial_gateway anyGatewayStep p" "wa_restartDraining (gp_admission p)"
    and "(gateway_step Work)\<^sup>*\<^sup>* p p'"
  shows "isGatewayDraining p' \<and> enqueueInGateway cur now lane opts p' = (Inl GatewayDraining, p')
    \<and> queuedSequences (gp_queue p') + runningSequences (gp_queue p')
        \<subseteq># queuedSequences (gp_queue p) + runningSequences (gp_queue p)"
proof -
  note inv = gateway.reachable_inv [OF assms(1)]
  note d = draining_gateway [OF assms(3) inv assms(2)]
  have "queuedSequences (gp_queue p') + runningSequences (gp_queue p') + settledSequences (gp_queue p')
      = queuedSequences (gp_queue p) + runningSequences (gp_queue p) + settledSequences (gp_queue p)"
    using commands_accounted [OF inv] commands_accounted [of p'] d by (simp add: no_new_commands_def)
  then have "queuedSequences (gp_queue p') + runningSequences (gp_queue p')
      \<subseteq># queuedSequences (gp_queue p) + runningSequences (gp_queue p)"
    using d unfolding no_new_commands_def
    by (metis mset_subset_eq_mono_add_right_cancel subset_mset.add_left_mono)
  then show ?thesis using d
    by (simp add: isGatewayDraining_def isGatewayWorkAdmissionClosed_def enqueue_refused
        isGatewaySubordinateWorkAdmissionClosed_def)
qed

definition demo_gateway :: gateway_process where
  "demo_gateway = markGatewayDraining
     (snd (enqueueInGateway None 0 ''main'' (demo_opts None)
       \<lparr>gp_queue = initialQueueState, gp_admission = initialAdmissionState\<rparr>))"

lemma demo_gateway_reachable: "reachable initial_gateway anyGatewayStep demo_gateway"
proof -
  let ?p0 = "\<lparr>gp_queue = initialQueueState, gp_admission = initialAdmissionState\<rparr>"
  let ?p1 = "snd (enqueueInGateway None 0 ''main'' (demo_opts None) ?p0)"
  have "reachable initial_gateway anyGatewayStep ?p0"
    by (rule reachable.start) (simp add: initial_gateway_def initial_queue_def initial_admission_def)
  moreover have "anyGatewayStep ?p0 ?p1"
    unfolding anyGatewayStep_def by (rule exI, rule gateway_step.enqueue) (simp add: knownRoot_def)
  moreover have "anyGatewayStep ?p1 demo_gateway"
    unfolding anyGatewayStep_def demo_gateway_def markGatewayDraining_def
    by (rule exI, rule gateway_step.gate, rule admission_step.drain)
  ultimately show ?thesis by (blast intro: reachable.step)
qed

theorem draining_gateway_only_finishes_commands_witness:
  "enqueueInGateway None 5 ''main'' (demo_opts None) demo_gateway = (Inl GatewayDraining, demo_gateway)"
proof -
  have "wa_restartDraining (gp_admission demo_gateway)" by code_simp
  from draining_gateway_only_finishes_commands [OF demo_gateway_reachable this rtranclp.rtrancl_refl]
  show ?thesis by simp
qed

text \<open>The in-process restart recovers without losing work. After \<open>resetAllLanes\<close> on any
  reachable state the gate is open, no root is active and an enqueue outside any root is accepted;
  no command was settled by the reset, and the commands queued or running before are exactly the
  commands queued or running after it; and every lane object with queued work runs as many tasks as
  its limit allows.\<close>

theorem restart_preserves_commands:
  assumes "reachable initial_gateway anyGatewayStep p"
  shows "let p' = resetAllLanes now p in
      \<not> isGatewayDraining p' \<and> getActiveGatewayRootWorkCount False cur (gp_admission p') = 0
    \<and> fst (enqueueInGateway None later lane opts p') = Inr (q_nextQueueSequence (gp_queue p))
    \<and> q_settled (gp_queue p') = q_settled (gp_queue p)
    \<and> queuedSequences (gp_queue p') + runningSequences (gp_queue p')
        = queuedSequences (gp_queue p) + runningSequences (gp_queue p)
    \<and> (ls_queue (q_objects (gp_queue p') u) = []
       \<or> ls_maxConcurrent (q_objects (gp_queue p') u) \<le> length (ls_activeTaskIds (q_objects (gp_queue p') u)))"
proof -
  let ?p = "resetAllLanes now p"
  note inv = gateway.reachable_inv [OF assms]
  have inv': "gateway_inv ?p"
    using gateway_inv_step [OF inv] gateway_step.restart unfolding anyGatewayStep_def by blast
  have same: "same_commands (gp_queue p) (gp_queue ?p)"
    using same_resetEveryLane by (simp add: resetAllLanes_def)
  have gate: "\<not> isGatewayWorkAdmissionClosed (gp_admission ?p)" "wa_activeRootWork (gp_admission ?p) = []"
    by (simp_all add: resetAllLanes_def resetGatewayWorkAdmission_def isGatewayWorkAdmissionClosed_def
        invalidateSuspendAdmission_def resolveSuspendOpenWaiters_def Let_def)
  have settled: "settledSequences (gp_queue ?p) = settledSequences (gp_queue p)"
    using same by (simp add: same_commands_def settledSequences_def)
  have "queuedSequences (gp_queue ?p) + runningSequences (gp_queue ?p) + settledSequences (gp_queue ?p)
      = queuedSequences (gp_queue p) + runningSequences (gp_queue p) + settledSequences (gp_queue p)"
    using commands_accounted [OF inv] commands_accounted [OF inv'] same by (simp add: same_commands_def)
  then have "queuedSequences (gp_queue ?p) + runningSequences (gp_queue ?p)
      = queuedSequences (gp_queue p) + runningSequences (gp_queue p)"
    unfolding settled by (rule add_right_imp_eq)
  moreover have "queue_inv (gp_queue ?p)" using inv' lane_queue.reachable_inv by (simp add: gateway_inv_def)
  moreover have "q_nextQueueSequence (snd (getLaneState (normalizeLane lane) (gp_queue ?p))) = q_nextQueueSequence (gp_queue p)"
    using same same_getLaneState [of "gp_queue ?p" "normalizeLane lane"] by (simp add: same_commands_def)
  ultimately show ?thesis using gate same
    by (auto simp: Let_def isGatewayDraining_def getActiveGatewayRootWorkCount_def enqueueInGateway_def
        enqueueCommandInLane_def isGatewaySubordinateWorkAdmissionClosed_def isGatewayWorkAdmissionClosed_def
        case_prod_unfold same_commands_def queue_inv_def busy_ok_def)
qed

theorem restart_preserves_commands_witness:
  "queuedSequences (gp_queue (resetAllLanes 9 demo_gateway)) + runningSequences (gp_queue (resetAllLanes 9 demo_gateway))
     = queuedSequences (gp_queue demo_gateway) + runningSequences (gp_queue demo_gateway)
   \<and> fst (enqueueInGateway None 10 ''main'' (demo_opts None) (resetAllLanes 9 demo_gateway)) = Inr 2"
proof -
  have "q_nextQueueSequence (gp_queue demo_gateway) = 2" by code_simp
  then show ?thesis using restart_preserves_commands [OF demo_gateway_reachable, of 9 None 10 "''main''" "demo_opts None" 0]
    by (simp add: Let_def)
qed

end
