(* ===== verification/Active_Work.thy ===== *)
theory Active_Work
  imports Gateway_Process
begin

text \<open>
  The snapshot of process activity that restart and host suspension inspect,
  \<open>src/infra/gateway-active-work.ts\<close>, with the message of a blocking task,
  \<open>src/tasks/task-restart-blocker.ts\<close>. The queue size and the number of root requests are read from the
  modelled queue and gate; the other inspectors belong to modules outside the model, so their values are
  the record \<open>work_inspectors\<close>. Values are finite, so \<open>normalizeCount\<close> only cuts negative ones off.
  Titles have no surrogates, so cutting them at 80 code units is a plain prefix.
\<close>

subsection \<open>Data\<close>

record task_blocker =
  tb_taskId :: string
  tb_runtime :: string
  tb_runId :: "string option"
  tb_label :: "string option"
  tb_title :: "string option"

datatype blocker_kind =
    BkQueue | BkReply | BkEmbeddedRun | BkBackgroundExec | BkCronRun | BkTask | BkRootRequest
  | BkSessionAdmission | BkSessionMutation | BkChatRun | BkQueuedTurn | BkTerminalPersistence
  | BkTerminalSession

record work_blocker =
  wb_kind :: blocker_kind
  wb_count :: int
  wb_message :: string
  wb_task :: "task_blocker option"

record work_inspectors =
  wi_pendingReplies :: int
  wi_embeddedRuns :: int
  wi_backgroundExecSessions :: int
  wi_cronRuns :: int
  wi_taskBlockers :: "task_blocker list"
  wi_sessionAdmissions :: int
  wi_sessionMutations :: int
  wi_chatRuns :: int
  wi_queuedTurns :: int
  wi_terminalPersistence :: int
  wi_terminalSessions :: int

record work_counts =
  wc_queueSize :: int
  wc_pendingReplies :: int
  wc_embeddedRuns :: int
  wc_backgroundExecSessions :: int
  wc_cronRuns :: int
  wc_activeTasks :: int
  wc_rootRequests :: int
  wc_sessionAdmissions :: int
  wc_sessionMutations :: int
  wc_chatRuns :: int
  wc_queuedTurns :: int
  wc_terminalPersistence :: int
  wc_terminalSessions :: int
  wc_totalActive :: int

record work_snapshot =
  ws_idle :: bool
  ws_counts :: work_counts
  ws_blockers :: "work_blocker list"

subsection \<open>Operations\<close>

definition formatActiveTaskRestartBlocker :: "task_blocker \<Rightarrow> string" where
  "formatActiveTaskRestartBlocker task =
     (let field = (\<lambda>name v. case v of None \<Rightarrow> '''' | Some s \<Rightarrow> if s = '''' then '''' else name @ s);
          parts = filter (\<lambda>p. p \<noteq> '''')
            [''taskId='' @ tb_taskId task,
             field ''runId='' (tb_runId task),
             ''status=running'',
             ''runtime='' @ tb_runtime task,
             field ''label='' (tb_label task),
             field ''title='' (map_option (take 80) (tb_title task))]
      in concat (hd parts # map (\<lambda>p. '' '' @ p) (tl parts)))"

definition normalizeCount :: "int \<Rightarrow> int" where
  "normalizeCount value = (if value > 0 then value else 0)"

definition addBlocker :: "int \<Rightarrow> blocker_kind \<Rightarrow> string \<Rightarrow> work_blocker list" where
  "addBlocker amount kind message =
     (if amount > 0
      then [\<lparr>wb_kind = kind, wb_count = amount, wb_message = string_of_int amount @ message, wb_task = None\<rparr>]
      else [])"

definition taskBlockers :: "int \<Rightarrow> task_blocker list \<Rightarrow> work_blocker list" where
  "taskBlockers activeTasks blockers =
     (if activeTasks > 0 then
        (if blockers = [] then addBlocker activeTasks BkTask '' active background task run(s)''
         else
           let shown = take 8 blockers;
               omitted = activeTasks - int (length shown)
           in map (\<lambda>task. \<lparr>wb_kind = BkTask, wb_count = 1,
                            wb_message = formatActiveTaskRestartBlocker task, wb_task = Some task\<rparr>) shown
              @ addBlocker omitted BkTask '' additional active background task run(s)'')
      else [])"

definition countBlockers :: "work_counts \<Rightarrow> work_blocker list" where
  "countBlockers c =
     addBlocker (wc_queueSize c) BkQueue '' queued or active operation(s)''
     @ addBlocker (wc_pendingReplies c) BkReply '' pending reply delivery operation(s)''
     @ addBlocker (wc_embeddedRuns c) BkEmbeddedRun '' active embedded run(s)''
     @ addBlocker (wc_backgroundExecSessions c) BkBackgroundExec '' active background exec session(s)''
     @ addBlocker (wc_cronRuns c) BkCronRun '' active cron run(s)''
     @ addBlocker (wc_rootRequests c) BkRootRequest '' active gateway request(s)''
     @ addBlocker (wc_sessionAdmissions c) BkSessionAdmission '' admitted session turn(s)''
     @ addBlocker (wc_sessionMutations c) BkSessionMutation '' active session lifecycle mutation(s)''
     @ addBlocker (wc_chatRuns c) BkChatRun '' active chat run(s)''
     @ addBlocker (wc_queuedTurns c) BkQueuedTurn '' queued chat turn(s)''
     @ addBlocker (wc_terminalPersistence c) BkTerminalPersistence '' pending terminal session write(s)''
     @ addBlocker (wc_terminalSessions c) BkTerminalSession '' open terminal session(s)''"

text \<open>\<open>cur\<close> is the root in the async-local storage of the caller, which the count of root requests
  leaves out.\<close>

definition workCounts :: "nat option \<Rightarrow> work_inspectors \<Rightarrow> gateway_process \<Rightarrow> work_counts" where
  "workCounts cur i p =
     (let c = \<lparr>wc_queueSize = normalizeCount (int (getTotalQueueSize (gp_queue p))),
               wc_pendingReplies = normalizeCount (wi_pendingReplies i),
               wc_embeddedRuns = normalizeCount (wi_embeddedRuns i),
               wc_backgroundExecSessions = normalizeCount (wi_backgroundExecSessions i),
               wc_cronRuns = normalizeCount (wi_cronRuns i),
               wc_activeTasks = normalizeCount (int (length (wi_taskBlockers i))),
               wc_rootRequests = normalizeCount (getActiveGatewayRootWorkCount True cur (gp_admission p)),
               wc_sessionAdmissions = normalizeCount (wi_sessionAdmissions i),
               wc_sessionMutations = normalizeCount (wi_sessionMutations i),
               wc_chatRuns = normalizeCount (wi_chatRuns i),
               wc_queuedTurns = normalizeCount (wi_queuedTurns i),
               wc_terminalPersistence = normalizeCount (wi_terminalPersistence i),
               wc_terminalSessions = normalizeCount (wi_terminalSessions i),
               wc_totalActive = 0\<rparr>
      in c\<lparr>wc_totalActive := wc_queueSize c + wc_pendingReplies c + wc_embeddedRuns c
             + wc_backgroundExecSessions c + wc_cronRuns c + wc_activeTasks c + wc_rootRequests c
             + wc_sessionAdmissions c + wc_sessionMutations c + wc_chatRuns c + wc_queuedTurns c
             + wc_terminalPersistence c + wc_terminalSessions c\<rparr>)"

definition createGatewayActiveWorkSnapshot ::
  "nat option \<Rightarrow> work_inspectors \<Rightarrow> gateway_process \<Rightarrow> work_snapshot" where
  "createGatewayActiveWorkSnapshot cur i p =
     (let counts = workCounts cur i p
      in \<lparr>ws_idle = (wc_totalActive counts = 0),
          ws_counts = counts,
          ws_blockers = countBlockers counts @ taskBlockers (wc_activeTasks counts) (wi_taskBlockers i)\<rparr>)"

subsection \<open>Properties\<close>

lemma normalizeCount_nonneg [simp]: "0 \<le> normalizeCount v"
  by (simp add: normalizeCount_def)

lemma normalizeCount_of_nat [simp]: "normalizeCount (int n) = int n"
  by (simp add: normalizeCount_def)

definition blockedWork :: "work_blocker list \<Rightarrow> int" where
  "blockedWork bs = sum_list (map wb_count bs)"

lemma blockedWork_append [simp]: "blockedWork (xs @ ys) = blockedWork xs + blockedWork ys"
  by (simp add: blockedWork_def)

lemma blockedWork_add [simp]: "blockedWork (addBlocker n k m) = max 0 n"
  by (simp add: blockedWork_def addBlocker_def)

lemma sum_list_ones: "sum_list (map (\<lambda>x. 1 :: int) xs) = int (length xs)"
  by (induction xs) simp_all

lemma blockedWork_tasks: "blockedWork (taskBlockers (int (length ts)) ts) = int (length ts)"
  by (simp add: taskBlockers_def Let_def) (simp add: blockedWork_def comp_def sum_list_ones)

text \<open>The blockers of a snapshot account for exactly the counted work, so the snapshot is idle exactly
  when it lists no blocker.\<close>

lemma workCounts_nonneg:
  "0 \<le> wc_queueSize (workCounts cur i p)" "0 \<le> wc_pendingReplies (workCounts cur i p)"
  "0 \<le> wc_embeddedRuns (workCounts cur i p)" "0 \<le> wc_backgroundExecSessions (workCounts cur i p)"
  "0 \<le> wc_cronRuns (workCounts cur i p)" "0 \<le> wc_rootRequests (workCounts cur i p)"
  "0 \<le> wc_sessionAdmissions (workCounts cur i p)" "0 \<le> wc_sessionMutations (workCounts cur i p)"
  "0 \<le> wc_chatRuns (workCounts cur i p)" "0 \<le> wc_queuedTurns (workCounts cur i p)"
  "0 \<le> wc_terminalPersistence (workCounts cur i p)" "0 \<le> wc_terminalSessions (workCounts cur i p)"
  by (simp_all add: workCounts_def Let_def)

lemma workCounts_total:
  "wc_totalActive (workCounts cur i p) =
     blockedWork (countBlockers (workCounts cur i p)) + wc_activeTasks (workCounts cur i p)"
  unfolding countBlockers_def blockedWork_append blockedWork_add
  by (simp add: workCounts_nonneg max_absorb2) (simp add: workCounts_def Let_def)

lemma workCounts_tasks: "wc_activeTasks (workCounts cur i p) = int (length (wi_taskBlockers i))"
  by (simp add: workCounts_def Let_def)

lemma snapshot_accounts:
  "blockedWork (ws_blockers (createGatewayActiveWorkSnapshot cur i p)) =
     wc_totalActive (ws_counts (createGatewayActiveWorkSnapshot cur i p))"
  by (simp add: createGatewayActiveWorkSnapshot_def Let_def workCounts_total workCounts_tasks blockedWork_tasks)

lemma blocker_counts_positive: "b \<in> set (ws_blockers (createGatewayActiveWorkSnapshot cur i p)) \<Longrightarrow> 0 < wb_count b"
  by (auto simp: createGatewayActiveWorkSnapshot_def Let_def countBlockers_def taskBlockers_def addBlocker_def
      split: if_splits)

lemma blockedWork_zero_iff: "(\<And>b. b \<in> set bs \<Longrightarrow> 0 < wb_count b) \<Longrightarrow> blockedWork bs = 0 \<longleftrightarrow> bs = []"
proof (induction bs)
  case (Cons b bs)
  have "0 \<le> blockedWork bs" unfolding blockedWork_def
    by (rule sum_list_nonneg) (use Cons.prems in \<open>force dest: less_imp_le\<close>)
  moreover have "0 < wb_count b" using Cons.prems by simp
  ultimately show ?case by (simp add: blockedWork_def)
qed (simp add: blockedWork_def)

lemma snapshot_idle_iff:
  "ws_idle (createGatewayActiveWorkSnapshot cur i p) \<longleftrightarrow> ws_blockers (createGatewayActiveWorkSnapshot cur i p) = []"
proof -
  have "ws_idle (createGatewayActiveWorkSnapshot cur i p) \<longleftrightarrow>
      blockedWork (ws_blockers (createGatewayActiveWorkSnapshot cur i p)) = 0"
    unfolding snapshot_accounts by (simp add: createGatewayActiveWorkSnapshot_def Let_def)
  then show ?thesis using blockedWork_zero_iff blocker_counts_positive by blast
qed

text \<open>An idle snapshot means an empty command queue and no root besides the caller's own.\<close>

lemma snapshot_idle_process:
  assumes "ws_idle (createGatewayActiveWorkSnapshot cur i p)"
  shows "getTotalQueueSize (gp_queue p) = 0 \<and> getActiveGatewayRootWorkCount True cur (gp_admission p) = 0"
proof -
  let ?c = "workCounts cur i p"
  have "wc_totalActive ?c = wc_queueSize ?c + wc_pendingReplies ?c + wc_embeddedRuns ?c
      + wc_backgroundExecSessions ?c + wc_cronRuns ?c + wc_activeTasks ?c + wc_rootRequests ?c
      + wc_sessionAdmissions ?c + wc_sessionMutations ?c + wc_chatRuns ?c + wc_queuedTurns ?c
      + wc_terminalPersistence ?c + wc_terminalSessions ?c"
    by (simp add: workCounts_def Let_def)
  moreover have "wc_totalActive ?c = 0"
    using assms by (simp add: createGatewayActiveWorkSnapshot_def Let_def)
  moreover have "0 \<le> wc_activeTasks ?c" by (simp add: workCounts_tasks)
  ultimately have "wc_queueSize ?c = 0" and "wc_rootRequests ?c = 0"
    using workCounts_nonneg [of cur i p] by linarith+
  moreover have "0 \<le> getActiveGatewayRootWorkCount True cur (gp_admission p)"
    by (simp add: getActiveGatewayRootWorkCount_def Let_def)
  ultimately show ?thesis
    by (simp add: workCounts_def Let_def normalizeCount_def split: if_splits)
qed

end
