(* ===== verification/Suspend_Coordinator.thy ===== *)
theory Suspend_Coordinator
  imports Active_Work
begin

text \<open>
  The coordinator of host suspensions, \<open>src/infra/gateway-suspend-coordinator.ts\<close>, over the gateway
  process: preparing, inspecting, renewing, expiring and resuming a suspension, the recovery loop when
  the scheduler cannot be resumed, and the reset at an in-process restart.

  Entries are objects compared by identity, so they live in the store \<open>co_entries\<close> under allocation
  numbers; the fresh object \<open>owner\<close> of a preparation is the number \<open>co_nextOwner\<close>, which is also the
  invalidation callback it registers at the gate. \<open>co_timers\<close> holds the pending timer of an entry with
  its delay. The closures \<open>pauseScheduling\<close> and \<open>resumeScheduling\<close> belong to the scheduler; what one
  call of them does is a \<open>scheduler_call\<close>: it may throw, and it may start the restart drain before it
  returns or throws. \<open>co_paused\<close> is the state of the scheduler. \<open>now\<close> is the clock of the process.
\<close>

subsection \<open>Data\<close>

record scheduler_call =
  sch_drains :: bool
  sch_throws :: bool

datatype reopen_admission = ReopenRollback nat | ReopenRelease nat

datatype suspend_kind =
    Held (requestId: string) (suspensionId: string) (expiresAtMs: int) (heldSnapshot: work_snapshot)
  | Recovering

record suspend_entry =
  se_owner :: nat
  se_reopen :: reopen_admission
  se_kind :: suspend_kind

record coordinator_state =
  co_process :: gateway_process
  co_current :: "nat option"
  co_retired :: "nat option"
  co_entries :: "suspend_entry list"
  co_timers :: "(nat \<times> int) list"
  co_nextOwner :: nat
  co_invalidated :: "nat list"
  co_paused :: bool

datatype prepare_result =
    PrepareReady string int int "work_blocker list"
  | PrepareConflict int
  | PrepareBusy string int int "work_blocker list"
  | PrepareRecovering int
  | PrepareThrows

datatype status_result = StatusRunning | StatusReady int | StatusConflict int | StatusRecovering int

datatype resume_result = Resumed bool | ResumeMismatch | ResumeFailed int

definition GATEWAY_SUSPEND_TTL_MS :: int where
  "GATEWAY_SUSPEND_TTL_MS = 2 * 60000"

definition GATEWAY_SUSPEND_RETRY_AFTER_MS :: int where
  "GATEWAY_SUSPEND_RETRY_AFTER_MS = 20000"

definition GATEWAY_SCHEDULER_RECOVERY_RETRY_MS :: int where
  "GATEWAY_SCHEDULER_RECOVERY_RETRY_MS = 1000"

definition initialCoordinator :: "gateway_process \<Rightarrow> coordinator_state" where
  "initialCoordinator p =
     \<lparr>co_process = p, co_current = None, co_retired = None, co_entries = [], co_timers = [],
      co_nextOwner = 0, co_invalidated = [], co_paused = False\<rparr>"

definition coordGate :: "coordinator_state \<Rightarrow> admission_state" where
  "coordGate st = gp_admission (co_process st)"

definition setGate :: "admission_state \<Rightarrow> coordinator_state \<Rightarrow> coordinator_state" where
  "setGate a st = st\<lparr>co_process := (co_process st)\<lparr>gp_admission := a\<rparr>\<rparr>"

subsection \<open>Timers\<close>

definition clearEntryTimer :: "nat \<Rightarrow> coordinator_state \<Rightarrow> coordinator_state" where
  "clearEntryTimer e st = st\<lparr>co_timers := filter (\<lambda>t. fst t \<noteq> e) (co_timers st)\<rparr>"

definition scheduleEntry :: "nat \<Rightarrow> int \<Rightarrow> coordinator_state \<Rightarrow> coordinator_state" where
  "scheduleEntry e delayMs st =
     (let st1 = clearEntryTimer e st in st1\<lparr>co_timers := co_timers st1 @ [(e, delayMs)]\<rparr>)"

subsection \<open>Restart drain\<close>

text \<open>The callback that \<open>prepareGatewaySuspend\<close> passes to the gate.\<close>

definition onInvalidated :: "nat \<Rightarrow> coordinator_state \<Rightarrow> coordinator_state" where
  "onInvalidated owner st =
     (let st1 = st\<lparr>co_invalidated := co_invalidated st @ [owner]\<rparr>
      in case co_current st1 of
           None \<Rightarrow> st1
         | Some e \<Rightarrow>
             if se_owner (co_entries st1 ! e) \<noteq> owner then st1
             else (clearEntryTimer e st1)\<lparr>co_current := None, co_retired := Some e\<rparr>)"

text \<open>An operation of the gate that may invalidate the suspension: the gate runs the registered callback
  last, so the callbacks it appended run after it.\<close>

definition runGate :: "(admission_state \<Rightarrow> admission_state) \<Rightarrow> coordinator_state \<Rightarrow> coordinator_state" where
  "runGate f st =
     (let a = f (coordGate st);
          called = drop (length (wa_invalidations (coordGate st))) (wa_invalidations a)
      in foldl (\<lambda>s owner. onInvalidated owner s) (setGate a st) called)"

definition restartDrain :: "coordinator_state \<Rightarrow> coordinator_state" where
  "restartDrain = runGate markGatewayRestartDraining"

definition pauseScheduling :: "scheduler_call \<Rightarrow> coordinator_state \<Rightarrow> bool \<times> coordinator_state" where
  "pauseScheduling c st =
     (let st1 = (if sch_drains c then restartDrain st else st)
      in if sch_throws c then (False, st1) else (True, st1\<lparr>co_paused := True\<rparr>))"

definition resumeScheduling :: "scheduler_call \<Rightarrow> coordinator_state \<Rightarrow> bool \<times> coordinator_state" where
  "resumeScheduling c st =
     (let st1 = (if sch_drains c then restartDrain st else st)
      in if sch_throws c then (False, st1) else (True, st1\<lparr>co_paused := False\<rparr>))"

subsection \<open>Recovery and expiry\<close>

definition reopenAdmission :: "reopen_admission \<Rightarrow> coordinator_state \<Rightarrow> bool \<times> coordinator_state" where
  "reopenAdmission r st =
     (let (ok, a) = (case r of ReopenRollback g \<Rightarrow> rollbackSuspend g (coordGate st)
                     | ReopenRelease g \<Rightarrow> releaseSuspend g (coordGate st))
      in (ok, setGate a st))"

definition scheduleRecoveryRetry :: "nat \<Rightarrow> coordinator_state \<Rightarrow> coordinator_state" where
  "scheduleRecoveryRetry e = scheduleEntry e GATEWAY_SCHEDULER_RECOVERY_RETRY_MS"

definition addEntry :: "suspend_entry \<Rightarrow> coordinator_state \<Rightarrow> nat \<times> coordinator_state" where
  "addEntry entry st = (length (co_entries st), st\<lparr>co_entries := co_entries st @ [entry]\<rparr>)"

definition enterSchedulerRecovery :: "nat \<Rightarrow> coordinator_state \<Rightarrow> coordinator_state" where
  "enterSchedulerRecovery e st =
     (let entry = co_entries st ! e
      in if co_current st \<noteq> Some e then st
         else if se_kind entry = Recovering then scheduleRecoveryRetry e st
         else
           let (r, st1) = addEntry (entry\<lparr>se_kind := Recovering\<rparr>) (clearEntryTimer e st)
           in scheduleRecoveryRetry r (st1\<lparr>co_current := Some r\<rparr>))"

definition resumeAndReopen :: "scheduler_call \<Rightarrow> nat \<Rightarrow> coordinator_state \<Rightarrow> bool \<times> coordinator_state" where
  "resumeAndReopen c e st =
     (case resumeScheduling c st of
        (False, st1) \<Rightarrow> (False, enterSchedulerRecovery e st1)
      | (True, st1) \<Rightarrow>
          if co_current st1 \<noteq> Some e then (True, st1)
          else
            case reopenAdmission (se_reopen (co_entries st1 ! e)) st1 of
              (False, st2) \<Rightarrow> (False, enterSchedulerRecovery e st2)
            | (True, st2) \<Rightarrow> (True, (clearEntryTimer e st2)\<lparr>co_current := None\<rparr>))"

text \<open>The callback of an entry's timer; the timer is gone when it runs.\<close>

definition entryTimerFires :: "scheduler_call \<Rightarrow> nat \<Rightarrow> coordinator_state \<Rightarrow> coordinator_state" where
  "entryTimerFires c e st =
     (let st1 = clearEntryTimer e st
      in if co_current st1 = Some e then snd (resumeAndReopen c e st1) else st1)"

definition normalizeExpiredHeldSuspension ::
  "int \<Rightarrow> scheduler_call \<Rightarrow> nat \<Rightarrow> coordinator_state \<Rightarrow> nat option \<times> coordinator_state" where
  "normalizeExpiredHeldSuspension now c e st =
     (if now < expiresAtMs (se_kind (co_entries st ! e)) then (Some e, st)
      else let st1 = snd (resumeAndReopen c e st) in (co_current st1, st1))"

text \<open>The prefix shared by the three requests: \<open>None\<close> when recovery is pending, otherwise the held entry.\<close>

definition currentHeld ::
  "int \<Rightarrow> scheduler_call \<Rightarrow> coordinator_state \<Rightarrow> nat option option \<times> coordinator_state" where
  "currentHeld now c st =
     (case co_current st of
        None \<Rightarrow> (Some None, st)
      | Some e \<Rightarrow>
          if se_kind (co_entries st ! e) = Recovering then (None, st)
          else
            let (held, st1) = normalizeExpiredHeldSuspension now c e st
            in case held of
                 None \<Rightarrow> (Some None, st1)
               | Some h \<Rightarrow> if se_kind (co_entries st1 ! h) = Recovering then (None, st1) else (Some (Some h), st1))"

subsection \<open>Preparing\<close>

definition resumeSchedulingBeforeReopen ::
  "scheduler_call \<Rightarrow> nat \<Rightarrow> reopen_admission \<Rightarrow> coordinator_state \<Rightarrow> bool \<times> coordinator_state" where
  "resumeSchedulingBeforeReopen c owner reopen st =
     (if owner \<in> set (co_invalidated st) then (True, st)
      else
        case resumeScheduling c st of
          (False, st1) \<Rightarrow>
            let (r, st2) = addEntry \<lparr>se_owner = owner, se_reopen = reopen, se_kind = Recovering\<rparr> st1
            in (False, (scheduleRecoveryRetry r st2)\<lparr>co_current := Some r\<rparr>)
        | (True, st1) \<Rightarrow>
            (True, if owner \<in> set (co_invalidated st1) then st1 else snd (reopenAdmission reopen st1)))"

definition armExpiry ::
  "nat \<Rightarrow> string \<Rightarrow> string \<Rightarrow> int \<Rightarrow> work_snapshot \<Rightarrow> reopen_admission \<Rightarrow> coordinator_state \<Rightarrow> nat \<times> coordinator_state" where
  "armExpiry owner request suspension expires snapshot reopen st =
     (let (e, st1) = addEntry \<lparr>se_owner = owner, se_reopen = reopen,
                              se_kind = Held request suspension expires snapshot\<rparr> st
      in (e, scheduleEntry e GATEWAY_SUSPEND_TTL_MS st1))"

definition renewHeldSuspension :: "nat \<Rightarrow> int \<Rightarrow> coordinator_state \<Rightarrow> coordinator_state" where
  "renewHeldSuspension e now st =
     (let entry = co_entries st ! e;
          renewed = entry\<lparr>se_kind := Held (requestId (se_kind entry)) (suspensionId (se_kind entry))
                       (now + GATEWAY_SUSPEND_TTL_MS) (heldSnapshot (se_kind entry))\<rparr>
      in scheduleEntry e GATEWAY_SUSPEND_TTL_MS (st\<lparr>co_entries := (co_entries st)[e := renewed]\<rparr>))"

text \<open>What the closures of one preparation do: the scheduler calls, the inspection (\<open>None\<close> when it
  throws) and the fresh suspension id (\<open>None\<close> when creating it throws).\<close>

record prepare_env =
  pe_expiry :: scheduler_call
  pe_pause :: scheduler_call
  pe_resume :: scheduler_call
  pe_inspect :: "work_inspectors option"
  pe_suspensionId :: "string option"

text \<open>The handler of an error thrown inside the preparation.\<close>

definition abandonPreparation ::
  "prepare_env \<Rightarrow> nat \<Rightarrow> bool \<Rightarrow> reopen_admission \<Rightarrow> coordinator_state \<Rightarrow> prepare_result \<times> coordinator_state" where
  "abandonPreparation env owner schedulingPaused reopen st =
     (if schedulingPaused then
        (case resumeSchedulingBeforeReopen (pe_resume env) owner reopen st of
           (False, st1) \<Rightarrow> (PrepareRecovering GATEWAY_SCHEDULER_RECOVERY_RETRY_MS, st1)
         | (True, st1) \<Rightarrow> (PrepareThrows, st1))
      else (PrepareThrows, snd (reopenAdmission reopen st)))"

definition holdOrAbandon ::
  "prepare_env \<Rightarrow> int \<Rightarrow> string \<Rightarrow> nat \<Rightarrow> nat \<Rightarrow> work_snapshot \<Rightarrow> coordinator_state \<Rightarrow> prepare_result \<times> coordinator_state" where
  "holdOrAbandon env now request owner generation snapshot st =
     (let (committed, a) = commitSuspend generation (coordGate st);
          st1 = setGate a st
      in if \<not> committed then abandonPreparation env owner True (ReopenRollback generation) st1
         else
           case pe_suspensionId env of
             None \<Rightarrow> abandonPreparation env owner True (ReopenRelease generation) st1
           | Some suspension \<Rightarrow>
               let expires = now + GATEWAY_SUSPEND_TTL_MS;
                   (held, st2) = armExpiry owner request suspension expires snapshot
                     (ReopenRelease generation) st1
               in (PrepareReady suspension expires (wc_totalActive (ws_counts snapshot)) (ws_blockers snapshot),
                   st2\<lparr>co_current := Some held\<rparr>))"

definition beginPreparation ::
  "prepare_env \<Rightarrow> nat option \<Rightarrow> int \<Rightarrow> string \<Rightarrow> coordinator_state \<Rightarrow> prepare_result \<times> coordinator_state" where
  "beginPreparation env cur now request st =
     (let owner = co_nextOwner st;
          st0 = st\<lparr>co_nextOwner := Suc owner\<rparr>;
          inspect = (\<lambda>s. map_option (\<lambda>i. createGatewayActiveWorkSnapshot cur i (co_process s)) (pe_inspect env))
      in case tryBeginGatewaySuspendAdmission owner (coordGate st0) of
           (None, _) \<Rightarrow>
             (case inspect st0 of
                None \<Rightarrow> (PrepareThrows, st0)
              | Some snapshot \<Rightarrow>
                  (PrepareBusy ''gateway-draining'' GATEWAY_SUSPEND_RETRY_AFTER_MS
                     (wc_totalActive (ws_counts snapshot)) (ws_blockers snapshot), st0))
         | (Some generation, a) \<Rightarrow>
             case pauseScheduling (pe_pause env) (setGate a st0) of
               (False, st1) \<Rightarrow> abandonPreparation env owner False (ReopenRollback generation) st1
             | (True, st1) \<Rightarrow>
                 case inspect st1 of
                   None \<Rightarrow> abandonPreparation env owner True (ReopenRollback generation) st1
                 | Some snapshot \<Rightarrow>
                     if \<not> ws_idle snapshot then
                       (case resumeSchedulingBeforeReopen (pe_resume env) owner (ReopenRollback generation) st1 of
                          (False, st2) \<Rightarrow> (PrepareRecovering GATEWAY_SCHEDULER_RECOVERY_RETRY_MS, st2)
                        | (True, st2) \<Rightarrow>
                            (PrepareBusy ''active-work'' GATEWAY_SUSPEND_RETRY_AFTER_MS
                               (wc_totalActive (ws_counts snapshot)) (ws_blockers snapshot), st2))
                     else holdOrAbandon env now request owner generation snapshot st1)"

definition prepareGatewaySuspend ::
  "prepare_env \<Rightarrow> nat option \<Rightarrow> int \<Rightarrow> string \<Rightarrow> coordinator_state \<Rightarrow> prepare_result \<times> coordinator_state" where
  "prepareGatewaySuspend env cur now request st =
     (case currentHeld now (pe_expiry env) st of
        (None, st1) \<Rightarrow> (PrepareRecovering GATEWAY_SCHEDULER_RECOVERY_RETRY_MS, st1)
      | (Some (Some e), st1) \<Rightarrow>
          let existing = se_kind (co_entries st1 ! e)
          in if requestId existing \<noteq> request then (PrepareConflict (expiresAtMs existing), st1)
             else
               let st2 = renewHeldSuspension e now st1;
                   snapshot = heldSnapshot existing
               in (PrepareReady (suspensionId existing) (now + GATEWAY_SUSPEND_TTL_MS)
                     (wc_totalActive (ws_counts snapshot)) (ws_blockers snapshot), st2)
      | (Some None, st1) \<Rightarrow> beginPreparation env cur now request st1)"

subsection \<open>Status, resumption and restart\<close>

definition getGatewaySuspendStatus ::
  "scheduler_call \<Rightarrow> int \<Rightarrow> string \<Rightarrow> coordinator_state \<Rightarrow> status_result \<times> coordinator_state" where
  "getGatewaySuspendStatus c now suspension st =
     (case currentHeld now c st of
        (None, st1) \<Rightarrow> (StatusRecovering GATEWAY_SCHEDULER_RECOVERY_RETRY_MS, st1)
      | (Some None, st1) \<Rightarrow> (StatusRunning, st1)
      | (Some (Some e), st1) \<Rightarrow>
          let held = se_kind (co_entries st1 ! e)
          in (if suspensionId held \<noteq> suspension then StatusConflict (expiresAtMs held)
              else StatusReady (expiresAtMs held), st1))"

definition resumeGatewaySuspend ::
  "scheduler_call \<Rightarrow> scheduler_call \<Rightarrow> int \<Rightarrow> string \<Rightarrow> coordinator_state \<Rightarrow> resume_result \<times> coordinator_state" where
  "resumeGatewaySuspend expiry c now suspension st =
     (case currentHeld now expiry st of
        (None, st1) \<Rightarrow> (ResumeFailed GATEWAY_SCHEDULER_RECOVERY_RETRY_MS, st1)
      | (Some None, st1) \<Rightarrow> (Resumed False, st1)
      | (Some (Some e), st1) \<Rightarrow>
          if suspensionId (se_kind (co_entries st1 ! e)) \<noteq> suspension then (ResumeMismatch, st1)
          else
            case resumeAndReopen c e st1 of
              (False, st2) \<Rightarrow> (ResumeFailed GATEWAY_SCHEDULER_RECOVERY_RETRY_MS, st2)
            | (True, st2) \<Rightarrow> (Resumed True, st2))"

definition retireEntry :: "scheduler_call \<Rightarrow> nat option \<Rightarrow> coordinator_state \<Rightarrow> coordinator_state" where
  "retireEntry c entry st =
     (case entry of
        None \<Rightarrow> st
      | Some e \<Rightarrow>
          let st1 = snd (resumeScheduling c (clearEntryTimer e st))
          in snd (reopenAdmission (se_reopen (co_entries st1 ! e)) st1))"

definition resetGatewaySuspendCoordinator ::
  "scheduler_call \<Rightarrow> scheduler_call \<Rightarrow> coordinator_state \<Rightarrow> coordinator_state" where
  "resetGatewaySuspendCoordinator c1 c2 st =
     (let current = co_current st;
          retired = co_retired st;
          st1 = st\<lparr>co_current := None, co_retired := None\<rparr>
      in if current \<noteq> None \<and> current \<noteq> retired
         then retireEntry c2 retired (retireEntry c1 current st1)
         else retireEntry c1 (nullish_or current retired) st1)"

text \<open>The boundary of an in-process restart: the coordinator is reset, then the lanes and the gate, and the
  next server starts with a scheduler of its own.\<close>

definition restartLifecycle ::
  "scheduler_call \<Rightarrow> scheduler_call \<Rightarrow> int \<Rightarrow> coordinator_state \<Rightarrow> coordinator_state" where
  "restartLifecycle c1 c2 now st =
     (let st1 = resetGatewaySuspendCoordinator c1 c2 st;
          p = resetAllLanes now (co_process st1);
          called = drop (length (wa_invalidations (coordGate st1))) (wa_invalidations (gp_admission p));
          st2 = foldl (\<lambda>s owner. onInvalidated owner s) (st1\<lparr>co_process := p\<rparr>) called
      in st2\<lparr>co_paused := False\<rparr>)"

subsection \<open>Steps\<close>

text \<open>The steps of the process besides the coordinator's: those that leave the suspension alone and do not
  start the restart drain.\<close>

definition sameSuspension :: "admission_state \<Rightarrow> admission_state \<Rightarrow> bool" where
  "sameSuspension a a' \<longleftrightarrow> wa_suspendPhase a' = wa_suspendPhase a
     \<and> wa_suspendGeneration a' = wa_suspendGeneration a
     \<and> wa_suspendInvalidated a' = wa_suspendInvalidated a
     \<and> wa_restartDraining a' = wa_restartDraining a"

inductive coordinator_step :: "coordinator_state \<Rightarrow> coordinator_state \<Rightarrow> bool" where
  prepare: "coordinator_step st (snd (prepareGatewaySuspend env cur now request st))"
| status: "coordinator_step st (snd (getGatewaySuspendStatus c now suspension st))"
| resume: "coordinator_step st (snd (resumeGatewaySuspend expiry c now suspension st))"
| timer: "(e, delay) \<in> set (co_timers st) \<Longrightarrow> coordinator_step st (entryTimerFires c e st)"
| drain: "coordinator_step st (restartDrain st)"
| restart: "coordinator_step st (restartLifecycle c1 c2 now st)"
| outside: "gateway_step Work (co_process st) p \<Longrightarrow> sameSuspension (coordGate st) (gp_admission p)
    \<Longrightarrow> coordinator_step st (st\<lparr>co_process := p\<rparr>)"

definition initial_coordinator :: "coordinator_state \<Rightarrow> bool" where
  "initial_coordinator st \<longleftrightarrow> (\<exists>p. initial_gateway p \<and> st = initialCoordinator p)"

subsection \<open>Invariant\<close>

abbreviation draining :: "coordinator_state \<Rightarrow> bool" where
  "draining st \<equiv> wa_restartDraining (coordGate st)"

text \<open>The timer of a held entry is pending, except while its callback runs. An entry owns the suspension that the gate is in.\<close>

definition fences :: "nat \<Rightarrow> reopen_admission \<Rightarrow> admission_state \<Rightarrow> bool" where
  "fences owner r a \<longleftrightarrow> wa_suspendInvalidated a = Some owner
     \<and> (case r of ReopenRollback g \<Rightarrow> wa_suspendPhase a = Preparing \<and> wa_suspendGeneration a = g
        | ReopenRelease g \<Rightarrow> wa_suspendPhase a = Prepared \<and> wa_suspendGeneration a = g)"

definition idleSnapshot :: "work_snapshot \<Rightarrow> bool" where
  "idleSnapshot snapshot \<longleftrightarrow> wc_totalActive (ws_counts snapshot) = 0 \<and> ws_blockers snapshot = []"

definition heldReleases :: "suspend_entry \<Rightarrow> bool" where
  "heldReleases entry \<longleftrightarrow> (case se_kind entry of
       Recovering \<Rightarrow> True
     | Held _ _ _ snapshot \<Rightarrow>
         idleSnapshot snapshot \<and> (case se_reopen entry of ReopenRelease _ \<Rightarrow> True | ReopenRollback _ \<Rightarrow> False))"

definition coord_base :: "coordinator_state \<Rightarrow> bool" where
  "coord_base st \<longleftrightarrow> gate_ok (coordGate st) \<and> list_all heldReleases (co_entries st)
     \<and> (\<forall>o' \<in> set (co_invalidated st). o' < co_nextOwner st)
     \<and> (\<forall>o'. wa_suspendInvalidated (coordGate st) = Some o' \<longrightarrow> o' < co_nextOwner st)
     \<and> (co_retired st \<noteq> None \<longrightarrow> draining st)"

definition coord_idle :: "coordinator_state \<Rightarrow> bool" where
  "coord_idle st \<longleftrightarrow> coord_base st \<and> co_current st = None \<and> co_timers st = []
     \<and> (\<not> draining st \<longrightarrow> wa_suspendPhase (coordGate st) = Accepting \<and> \<not> co_paused st)"

definition coord_held :: "nat \<Rightarrow> coordinator_state \<Rightarrow> bool" where
  "coord_held e st \<longleftrightarrow> coord_base st \<and> co_current st = Some e \<and> e < length (co_entries st)
     \<and> (map fst (co_timers st) = [e] \<or> co_timers st = [])
     \<and> (draining st \<longrightarrow> se_kind (co_entries st ! e) = Recovering)
     \<and> (\<not> draining st \<longrightarrow>
          fences (se_owner (co_entries st ! e)) (se_reopen (co_entries st ! e)) (coordGate st) \<and> co_paused st)"

definition coord_preparing :: "nat \<Rightarrow> reopen_admission \<Rightarrow> bool \<Rightarrow> coordinator_state \<Rightarrow> bool" where
  "coord_preparing owner r paused st \<longleftrightarrow> coord_base st \<and> co_current st = None \<and> co_timers st = []
     \<and> (draining st \<longleftrightarrow> owner \<in> set (co_invalidated st))
     \<and> (\<not> draining st \<longrightarrow> fences owner r (coordGate st) \<and> co_paused st = paused)"

definition coord_inv :: "coordinator_state \<Rightarrow> bool" where
  "coord_inv st \<longleftrightarrow> (case co_current st of None \<Rightarrow> coord_idle st
     | Some e \<Rightarrow> coord_held e st \<and> co_timers st \<noteq> [])"

lemmas coord_defs = coord_base_def coord_idle_def coord_held_def coord_preparing_def

lemma gate_frame [simp]:
  "coordGate (setGate a st) = a"
  "coordGate (st\<lparr>co_current := x_current\<rparr>) = coordGate st" "coordGate (st\<lparr>co_retired := x_retired\<rparr>) = coordGate st"
  "coordGate (st\<lparr>co_entries := x_entries\<rparr>) = coordGate st" "coordGate (st\<lparr>co_timers := x_timers\<rparr>) = coordGate st"
  "coordGate (st\<lparr>co_nextOwner := x_nextOwner\<rparr>) = coordGate st" "coordGate (st\<lparr>co_invalidated := x_invalidated\<rparr>) = coordGate st"
  "coordGate (st\<lparr>co_paused := x_paused\<rparr>) = coordGate st" "coordGate (st\<lparr>co_process := p\<rparr>) = gp_admission p"
  by (simp_all add: coordGate_def setGate_def)

lemma setGate_frame [simp]:
  "co_current (setGate a st) = co_current st" "co_retired (setGate a st) = co_retired st"
  "co_entries (setGate a st) = co_entries st" "co_timers (setGate a st) = co_timers st"
  "co_nextOwner (setGate a st) = co_nextOwner st" "co_invalidated (setGate a st) = co_invalidated st"
  "co_paused (setGate a st) = co_paused st" "setGate (coordGate st) st = st"
  by (simp_all add: coordGate_def setGate_def)

lemma clearEntryTimer_frame [simp]:
  "coordGate (clearEntryTimer e st) = coordGate st" "co_current (clearEntryTimer e st) = co_current st"
  "co_retired (clearEntryTimer e st) = co_retired st" "co_entries (clearEntryTimer e st) = co_entries st"
  "co_nextOwner (clearEntryTimer e st) = co_nextOwner st"
  "co_invalidated (clearEntryTimer e st) = co_invalidated st" "co_paused (clearEntryTimer e st) = co_paused st"
  by (simp_all add: clearEntryTimer_def)

lemma timers_cleared: "map fst (co_timers st) = [e] \<or> co_timers st = [] \<Longrightarrow> co_timers (clearEntryTimer e st) = []"
  by (auto simp: clearEntryTimer_def)

lemma timers_scheduled: "map fst (co_timers st) = [e] \<or> co_timers st = [] \<Longrightarrow> map fst (co_timers (scheduleEntry e d st)) = [e]"
  by (auto simp: scheduleEntry_def clearEntryTimer_def Let_def)

lemma scheduleEntry_frame [simp]:
  "co_timers (scheduleEntry e d st) \<noteq> []"
  "coordGate (scheduleEntry e d st) = coordGate st" "co_current (scheduleEntry e d st) = co_current st"
  "co_retired (scheduleEntry e d st) = co_retired st" "co_entries (scheduleEntry e d st) = co_entries st"
  "co_nextOwner (scheduleEntry e d st) = co_nextOwner st"
  "co_invalidated (scheduleEntry e d st) = co_invalidated st" "co_paused (scheduleEntry e d st) = co_paused st"
  by (simp_all add: scheduleEntry_def Let_def)

subsubsection \<open>The restart drain\<close>

lemma restartDrain_eq:
  assumes "gate_ok (coordGate st)"
  shows "restartDrain st =
    (if draining st then st
     else case wa_suspendInvalidated (coordGate st) of
       None \<Rightarrow> setGate (markGatewayRestartDraining (coordGate st)) st
     | Some o' \<Rightarrow> onInvalidated o' (setGate (markGatewayRestartDraining (coordGate st)) st))"
  using assms
  by (auto simp: restartDrain_def runGate_def markGatewayRestartDraining_def invalidateSuspendAdmission_def
      resolveSuspendOpenWaiters_def gate_ok_def Let_def split: option.splits)

lemma marked_gate:
  assumes "gate_ok a"
  shows "wa_restartDraining (markGatewayRestartDraining a)"
    and "wa_suspendInvalidated (markGatewayRestartDraining a) = None"
    and "gate_ok (markGatewayRestartDraining a)"
  using assms gate_ok_fences(1)
  by (auto simp: markGatewayRestartDraining_def invalidateSuspendAdmission_def resolveSuspendOpenWaiters_def
      gate_ok_def Let_def)

lemma drain_idle: "coord_idle st \<Longrightarrow> coord_idle (restartDrain st) \<and> draining (restartDrain st)"
  by (auto simp: coord_defs restartDrain_eq marked_gate onInvalidated_def Let_def split: option.split)

lemma drain_held: "coord_held e st \<Longrightarrow> \<not> draining st \<Longrightarrow> coord_idle (restartDrain st) \<and> draining (restartDrain st)"
  by (auto simp: coord_defs restartDrain_eq marked_gate onInvalidated_def fences_def timers_cleared Let_def split: option.split)

lemma drain_preparing:
  "coord_preparing owner r p st \<Longrightarrow> coord_preparing owner r p (restartDrain st) \<and> draining (restartDrain st)"
  by (auto simp: coord_defs restartDrain_eq marked_gate onInvalidated_def fences_def Let_def split: option.split)

lemma drain_noop: "coord_base st \<Longrightarrow> draining st \<Longrightarrow> restartDrain st = st"
  by (simp add: coord_base_def restartDrain_eq)

subsubsection \<open>Reopening and recovery\<close>

lemma reopen_frame [simp]:
  "co_current (snd (reopenAdmission r st)) = co_current st" "co_retired (snd (reopenAdmission r st)) = co_retired st"
  "co_entries (snd (reopenAdmission r st)) = co_entries st" "co_timers (snd (reopenAdmission r st)) = co_timers st"
  "co_nextOwner (snd (reopenAdmission r st)) = co_nextOwner st"
  "co_invalidated (snd (reopenAdmission r st)) = co_invalidated st" "co_paused (snd (reopenAdmission r st)) = co_paused st"
  by (simp_all add: reopenAdmission_def case_prod_unfold Let_def)

lemma reopen_base:
  assumes "coord_base st"
  shows "coord_base (snd (reopenAdmission r st))" and "draining (snd (reopenAdmission r st)) = draining st"
proof -
  have g: "gate_ok (snd (suspendTransition g ex Accepting (coordGate st)))" if "ex \<noteq> Accepting" for g ex
    using gate_ok_fences(5) [OF _ that] assms by (simp add: coord_base_def)
  have d: "wa_restartDraining (snd (suspendTransition g ex Accepting a)) = wa_restartDraining a" for g ex a
    by (simp add: suspendTransition_def resolveSuspendOpenWaiters_def Let_def)
  have i: "wa_suspendInvalidated (snd (suspendTransition g ex Accepting a)) \<in> {None, wa_suspendInvalidated a}" for g ex a
    by (simp add: suspendTransition_def resolveSuspendOpenWaiters_def Let_def)
  show "draining (snd (reopenAdmission r st)) = draining st"
    by (cases r) (simp_all add: reopenAdmission_def case_prod_unfold Let_def rollbackSuspend_def releaseSuspend_def d)
  moreover have "gate_ok (coordGate (snd (reopenAdmission r st)))"
    by (cases r) (simp_all add: reopenAdmission_def case_prod_unfold Let_def rollbackSuspend_def releaseSuspend_def g)
  moreover have "wa_suspendInvalidated (coordGate (snd (reopenAdmission r st))) \<in> {None, wa_suspendInvalidated (coordGate st)}"
    using i by (cases r) (simp_all add: reopenAdmission_def case_prod_unfold Let_def rollbackSuspend_def releaseSuspend_def)
  ultimately show "coord_base (snd (reopenAdmission r st))"
    using assms by (auto simp: coord_base_def)
qed

text \<open>The owner of the suspension reopens the gate; without the suspension nothing happens.\<close>

lemma reopen_owner:
  assumes "fences owner r (coordGate st)"
  shows "fst (reopenAdmission r st)" and "wa_suspendPhase (coordGate (snd (reopenAdmission r st))) = Accepting"
  using assms
  by (cases r; auto simp: fences_def reopenAdmission_def rollbackSuspend_def releaseSuspend_def suspendTransition_def
      resolveSuspendOpenWaiters_def Let_def)+

lemma reopen_drained:
  assumes "coord_base st" "draining st"
  shows "reopenAdmission r st = (False, st)"
  using assms
  by (cases r) (auto simp: coord_base_def gate_ok_def reopenAdmission_def rollbackSuspend_def releaseSuspend_def
      suspendTransition_def Let_def)

lemma recovery_held:
  assumes "coord_held e st"
  shows "coord_inv (enterSchedulerRecovery e st)"
proof (cases "se_kind (co_entries st ! e) = Recovering")
  case True
  with assms show ?thesis
    by (auto simp: enterSchedulerRecovery_def scheduleRecoveryRetry_def coord_inv_def coord_defs timers_scheduled
       )
next
  case False
  with assms show ?thesis
    by (auto simp: enterSchedulerRecovery_def scheduleRecoveryRetry_def addEntry_def coord_inv_def coord_defs
        timers_scheduled timers_cleared nth_append heldReleases_def)
qed

lemma recovery_other: "co_current st \<noteq> Some e \<Longrightarrow> enterSchedulerRecovery e st = st"
  by (simp add: enterSchedulerRecovery_def Let_def)

lemma coord_paused_draining [simp]:
  "draining st \<Longrightarrow> coord_idle (st\<lparr>co_paused := x\<rparr>) = coord_idle st"
  "draining st \<Longrightarrow> coord_held e (st\<lparr>co_paused := x\<rparr>) = coord_held e st"
  "coord_base (st\<lparr>co_paused := x\<rparr>) = coord_base st"
  by (simp_all add: coord_defs)

text \<open>What a scheduler call leaves of a held entry.\<close>

lemma call_held:
  assumes "coord_held e st"
  obtains "coord_held e (if sch_drains c then restartDrain st else st)"
  | "coord_idle (if sch_drains c then restartDrain st else st)"
    "draining (if sch_drains c then restartDrain st else st)"
proof (cases "sch_drains c \<and> \<not> draining st")
  case True
  with drain_held [OF assms] show thesis by (intro that(2)) simp_all
next
  case False
  then have "(if sch_drains c then restartDrain st else st) = st"
    using assms drain_noop by (simp add: coord_held_def)
  with assms show thesis by (intro that(1)) simp
qed

lemma coord_inv_idle: "coord_idle st \<Longrightarrow> coord_inv st"
  by (simp add: coord_inv_def coord_idle_def)

lemma coord_inv_held: "coord_held e st \<Longrightarrow> co_timers st \<noteq> [] \<Longrightarrow> coord_inv st"
  by (simp add: coord_inv_def coord_held_def)

lemma reopen_held:
  assumes "coord_held e st"
  shows "coord_inv (snd (resumeAndReopen c e st))"
proof -
  define st1 where "st1 = (if sch_drains c then restartDrain st else st)"
  have call: "resumeScheduling c st = (if sch_throws c then (False, st1) else (True, st1\<lparr>co_paused := False\<rparr>))"
    by (simp add: resumeScheduling_def st1_def Let_def)
  from assms show ?thesis
  proof (cases rule: call_held [where c = c])
    case 1
    then have h: "coord_held e st1" by (simp add: st1_def)
    show ?thesis
    proof (cases "sch_throws c")
      case True
      with h show ?thesis by (simp add: resumeAndReopen_def call recovery_held)
    next
      case False
      define r where "r = se_reopen (co_entries st1 ! e)"
      define st2 where "st2 = st1\<lparr>co_paused := False\<rparr>"
      have base: "coord_base st2" using h by (simp add: st2_def coord_held_def)
      show ?thesis
      proof (cases "draining st1")
        case True
        then have "coord_held e st2" "reopenAdmission r st2 = (False, st2)"
          using h base reopen_drained by (simp_all add: st2_def)
        moreover have "co_current st2 = Some e" "co_entries st2 = co_entries st1"
          using h by (simp_all add: st2_def coord_held_def)
        ultimately show ?thesis
          using False by (simp add: resumeAndReopen_def call st2_def [symmetric] r_def [symmetric] recovery_held)
      next
        case ndr: False
        define st3 where "st3 = snd (reopenAdmission r st2)"
        have f: "fences (se_owner (co_entries st1 ! e)) r (coordGate st2)"
          using h ndr by (simp add: coord_held_def r_def st2_def)
        then have re: "reopenAdmission r st2 = (True, st3)" using reopen_owner(1) by (simp add: st3_def prod_eq_iff)
        have "wa_suspendPhase (coordGate st3) = Accepting" using reopen_owner(2) [OF f] by (simp add: st3_def)
        moreover have "coord_base st3" "\<not> draining st3" "co_timers st3 = co_timers st1" "\<not> co_paused st3"
          using reopen_base [OF base, of r] ndr by (simp_all add: st3_def) (simp_all add: st2_def)
        moreover have "map fst (co_timers st1) = [e] \<or> co_timers st1 = []" using h by (simp add: coord_held_def)
        ultimately have "coord_idle ((clearEntryTimer e st3)\<lparr>co_current := None\<rparr>)"
          by (auto simp: coord_idle_def coord_base_def timers_cleared)
        moreover have "co_current st2 = Some e" "co_entries st2 = co_entries st1"
          using h by (simp_all add: st2_def coord_held_def)
        ultimately show ?thesis
          using False re
          by (simp add: resumeAndReopen_def call st2_def [symmetric] r_def [symmetric] coord_inv_idle)
      qed
    qed
  next
    case 2
    then have i: "coord_idle st1" "draining st1" by (simp_all add: st1_def)
    then have "co_current st1 = None" by (simp add: coord_idle_def)
    with i show ?thesis
      by (simp add: resumeAndReopen_def call recovery_other coord_inv_idle)
  qed
qed

lemma coord_inv_cases:
  assumes "coord_inv st"
  obtains "coord_idle st" "co_current st = None"
  | e where "coord_held e st" "co_current st = Some e" "co_timers st \<noteq> []"
  using assms by (auto simp: coord_inv_def split: option.splits)

lemma timer_inv:
  assumes "coord_inv st"
  shows "coord_inv (entryTimerFires c e st)"
  using assms
proof (cases rule: coord_inv_cases)
  case 1
  then have "clearEntryTimer e st = st" by (simp add: coord_idle_def clearEntryTimer_def)
  with 1 show ?thesis by (simp add: entryTimerFires_def coord_inv_idle)
next
  case (2 e')
  have h: "coord_held e (clearEntryTimer e st)" if "e = e'"
    using 2 that by (auto simp: coord_defs timers_cleared)
  have "map fst (co_timers st) = [e']" using 2 by (auto simp: coord_held_def)
  then have "clearEntryTimer e st = st" if "e \<noteq> e'"
    using that by (auto simp: clearEntryTimer_def)
  with 2 h assms show ?thesis
    by (cases "e = e'") (simp_all add: entryTimerFires_def reopen_held)
qed

lemma expired_inv:
  assumes "coord_inv st" "co_current st = Some e"
  shows "coord_inv (snd (normalizeExpiredHeldSuspension now c e st))"
    and "fst (normalizeExpiredHeldSuspension now c e st) = co_current (snd (normalizeExpiredHeldSuspension now c e st))"
proof -
  have "coord_held e st" using assms by (simp add: coord_inv_def)
  then show "coord_inv (snd (normalizeExpiredHeldSuspension now c e st))"
    using assms(1) reopen_held by (simp add: normalizeExpiredHeldSuspension_def Let_def)
qed (use assms(2) in \<open>simp add: normalizeExpiredHeldSuspension_def Let_def\<close>)

lemma currentHeld_inv:
  assumes "coord_inv st" "currentHeld now c st = (r, st1)"
  shows "coord_inv st1" and "r = Some None \<Longrightarrow> coord_idle st1"
    and "r = Some (Some e) \<Longrightarrow> coord_held e st1 \<and> co_timers st1 \<noteq> [] \<and> se_kind (co_entries st1 ! e) \<noteq> Recovering"
proof -
  have *: "coord_inv st1 \<and> (r = Some None \<longrightarrow> co_current st1 = None)
      \<and> (\<forall>e. r = Some (Some e) \<longrightarrow> co_current st1 = Some e \<and> se_kind (co_entries st1 ! e) \<noteq> Recovering)"
  proof (cases "co_current st")
    case None
    with assms show ?thesis by (auto simp: currentHeld_def)
  next
    case (Some e')
    obtain h st2 where n: "normalizeExpiredHeldSuspension now c e' st = (h, st2)" by fastforce
    with expired_inv [OF assms(1) Some, of now c] have "coord_inv st2" "h = co_current st2" by simp_all
    with Some n assms show ?thesis by (auto simp: currentHeld_def split: option.splits if_splits)
  qed
  then show "coord_inv st1" by simp
  show "r = Some None \<Longrightarrow> coord_idle st1" using * by (auto simp: coord_inv_def)
  show "r = Some (Some e) \<Longrightarrow> coord_held e st1 \<and> co_timers st1 \<noteq> [] \<and> se_kind (co_entries st1 ! e) \<noteq> Recovering"
    using * by (auto simp: coord_inv_def)
qed

subsubsection \<open>Preparation\<close>

lemma preparing_begin:
  assumes "coord_idle st" "tryBeginGatewaySuspendAdmission (co_nextOwner st) (coordGate st) = (Some g, a)"
  shows "coord_preparing (co_nextOwner st) (ReopenRollback g) False (setGate a (st\<lparr>co_nextOwner := Suc (co_nextOwner st)\<rparr>))"
proof -
  have "gate_ok a" using gate_ok_fences(4) [of "coordGate st" "co_nextOwner st"] assms by (simp add: coord_defs)
  with assms show ?thesis
    by (auto simp: coord_defs tryBeginGatewaySuspendAdmission_def fences_def Let_def split: if_splits)
qed

lemma preparing_drained_idle: "coord_preparing owner r p st \<Longrightarrow> draining st \<Longrightarrow> coord_idle (st\<lparr>co_paused := x\<rparr>)"
  by (auto simp: coord_defs)

lemma preparing_paused: "coord_preparing owner r p st \<Longrightarrow> coord_preparing owner r x (st\<lparr>co_paused := x\<rparr>)"
  by (auto simp: coord_defs)

lemma preparing_weaken: "coord_preparing owner r p st \<Longrightarrow> draining st \<Longrightarrow> coord_preparing owner r x st"
  by (auto simp: coord_defs)

lemma call_preparing:
  "coord_preparing owner r p st \<Longrightarrow> coord_preparing owner r p (if d then restartDrain st else st)"
  using drain_preparing by auto

lemma pause_preparing:
  assumes "coord_preparing owner r False st" "pauseScheduling c st = (ok, st1)"
  shows "coord_preparing owner r ok st1"
  using assms call_preparing [OF assms(1), of "sch_drains c"] preparing_paused
  by (auto simp: pauseScheduling_def Let_def split: if_splits)

lemma reopen_preparing:
  assumes "coord_preparing owner r p st"
  shows "coord_idle ((snd (reopenAdmission r st))\<lparr>co_paused := False\<rparr>)"
proof (cases "draining st")
  case True
  with assms show ?thesis
    by (simp add: reopen_drained coord_preparing_def) (auto simp: coord_idle_def coord_base_def)
next
  case False
  then have f: "fences owner r (coordGate st)" and b: "coord_base st" using assms by (simp_all add: coord_preparing_def)
  show ?thesis
    using reopen_owner(2) [OF f] reopen_base(1) [OF b, of r] assms
    by (simp add: coord_preparing_def coord_idle_def)
qed

lemma resume_preparing:
  assumes "coord_preparing owner r True st"
  shows "coord_inv (snd (resumeSchedulingBeforeReopen c owner r st))"
proof (cases "owner \<in> set (co_invalidated st)")
  case True
  then have "coord_idle st" using assms by (auto simp: coord_defs)
  with True show ?thesis by (simp add: resumeSchedulingBeforeReopen_def coord_inv_idle)
next
  case False
  define st1 where "st1 = (if sch_drains c then restartDrain st else st)"
  have p: "coord_preparing owner r True st1" using call_preparing [OF assms] by (simp add: st1_def)
  have call: "resumeScheduling c st = (if sch_throws c then (False, st1) else (True, st1\<lparr>co_paused := False\<rparr>))"
    by (simp add: resumeScheduling_def st1_def Let_def)
  show ?thesis
  proof (cases "sch_throws c")
    case True
    with p False show ?thesis
      by (auto simp: resumeSchedulingBeforeReopen_def call addEntry_def scheduleRecoveryRetry_def coord_inv_def
          coord_defs heldReleases_def timers_scheduled nth_append)
  next
    case t: False
    show ?thesis
    proof (cases "draining st1")
      case True
      then have "owner \<in> set (co_invalidated st1)" using p by (simp add: coord_preparing_def)
      with t False True preparing_drained_idle [OF p True] show ?thesis
        by (simp add: resumeSchedulingBeforeReopen_def call coord_inv_idle)
    next
      case ndr: False
      then have "owner \<notin> set (co_invalidated st1)" using p by (simp add: coord_preparing_def)
      moreover have "coord_idle (snd (reopenAdmission r (st1\<lparr>co_paused := False\<rparr>)))"
        using reopen_preparing [OF preparing_paused [OF p, of False]] by (simp add: coord_defs)
      ultimately show ?thesis
        using t False by (simp add: resumeSchedulingBeforeReopen_def call coord_inv_idle)
    qed
  qed
qed

lemma abandon_preparing:
  assumes "coord_preparing owner r paused st"
  shows "coord_inv (snd (abandonPreparation env owner paused r st))"
proof (cases paused)
  case True
  with resume_preparing [of owner r st "pe_resume env"] assms show ?thesis
    by (auto simp: abandonPreparation_def split: prod.splits bool.splits)
next
  case False
  have "coord_idle (snd (reopenAdmission r st))"
    using reopen_preparing [OF assms] reopen_base(2) [of st r] assms False
    by (auto simp: coord_defs)
  with False show ?thesis by (simp add: abandonPreparation_def coord_inv_idle)
qed

lemma commit_preparing:
  assumes "coord_preparing owner (ReopenRollback g) True st" "commitSuspend g (coordGate st) = (ok, a)"
  shows "ok \<Longrightarrow> coord_preparing owner (ReopenRelease g) True (setGate a st) \<and> \<not> wa_restartDraining a"
    and "\<not> ok \<Longrightarrow> a = coordGate st"
proof -
  have "gate_ok a"
    using gate_ok_fences(5) [of "coordGate st" Preparing g Prepared] assms by (simp add: coord_defs commitSuspend_def)
  then show "ok \<Longrightarrow> coord_preparing owner (ReopenRelease g) True (setGate a st) \<and> \<not> wa_restartDraining a"
    using assms by (auto simp: coord_defs commitSuspend_def suspendTransition_def fences_def gate_ok_def Let_def split: if_splits)
  show "\<not> ok \<Longrightarrow> a = coordGate st"
    using assms(2) by (simp add: commitSuspend_def suspendTransition_def Let_def split: if_splits)
qed

lemma hold_preparing:
  assumes "coord_preparing owner (ReopenRollback g) True st" "idleSnapshot snapshot"
  shows "coord_inv (snd (holdOrAbandon env now request owner g snapshot st))"
proof -
  obtain ok a where c: "commitSuspend g (coordGate st) = (ok, a)" by fastforce
  show ?thesis
  proof (cases ok)
    case False
    with commit_preparing(2) [OF assms(1) c] c abandon_preparing [OF assms(1), of env] show ?thesis
      by (simp add: holdOrAbandon_def)
  next
    case True
    then have p: "coord_preparing owner (ReopenRelease g) True (setGate a st)"
      using commit_preparing(1) [OF assms(1) c] by simp
    show ?thesis
    proof (cases "pe_suspensionId env")
      case None
      with c True abandon_preparing [OF p, of env] show ?thesis by (simp add: holdOrAbandon_def)
    next
      case (Some i)
      moreover have "\<not> wa_restartDraining a" using commit_preparing(1) [OF assms(1) c True] by simp
      ultimately show ?thesis using c True p assms(2)
        by (auto simp: holdOrAbandon_def armExpiry_def addEntry_def coord_inv_def coord_defs heldReleases_def
            timers_scheduled nth_append Let_def)
    qed
  qed
qed

lemma idle_snapshot:
  "ws_idle (createGatewayActiveWorkSnapshot cur i p) \<Longrightarrow> idleSnapshot (createGatewayActiveWorkSnapshot cur i p)"
  using snapshot_idle_iff [of cur i p]
  by (simp add: idleSnapshot_def) (simp add: createGatewayActiveWorkSnapshot_def Let_def)

lemma begin_inv:
  assumes "coord_idle st"
  shows "coord_inv (snd (beginPreparation env cur now request st))"
proof -
  obtain g a where b: "tryBeginGatewaySuspendAdmission (co_nextOwner st) (coordGate st) = (g, a)" by fastforce
  show ?thesis
  proof (cases g)
    case None
    have "coord_idle (st\<lparr>co_nextOwner := Suc (co_nextOwner st)\<rparr>)"
      using assms by (auto simp: coord_defs less_Suc_eq)
    with None b show ?thesis
      by (auto simp: beginPreparation_def Let_def coord_inv_idle split: option.split)
  next
    case (Some g')
    define st0 where "st0 = setGate a (st\<lparr>co_nextOwner := Suc (co_nextOwner st)\<rparr>)"
    obtain ok st1 where p: "pauseScheduling (pe_pause env) st0 = (ok, st1)" by fastforce
    have pre: "coord_preparing (co_nextOwner st) (ReopenRollback g') ok st1"
      using pause_preparing [OF preparing_begin [OF assms] p [unfolded st0_def]] b Some by simp
    show ?thesis
    proof (cases ok)
      case False
      with b Some p abandon_preparing [OF pre, of env] show ?thesis
        by (simp add: beginPreparation_def Let_def st0_def)
    next
      case True
      have "coord_inv (snd (resumeSchedulingBeforeReopen (pe_resume env) (co_nextOwner st) (ReopenRollback g') st1))"
        using resume_preparing pre True by simp
      with b Some p True abandon_preparing [OF pre, of env] hold_preparing [OF _ idle_snapshot] pre show ?thesis
        by (auto simp: beginPreparation_def Let_def st0_def split: option.split prod.splits bool.splits)
    qed
  qed
qed

lemma renew_inv:
  assumes "coord_held e st" "co_timers st \<noteq> []" "se_kind (co_entries st ! e) \<noteq> Recovering"
  shows "coord_inv (renewHeldSuspension e now st)"
proof -
  obtain rq si x sn where k: "se_kind (co_entries st ! e) = Held rq si x sn"
    using assms(3) by (cases "se_kind (co_entries st ! e)") simp_all
  have hr: "heldReleases (co_entries st ! e)" using assms by (auto simp: coord_defs list_all_length)
  define renewed where "renewed = (co_entries st ! e)\<lparr>se_kind := Held rq si (now + GATEWAY_SUSPEND_TTL_MS) sn\<rparr>"
  have "heldReleases renewed" using hr k by (simp add: heldReleases_def renewed_def)
  then have "list_all heldReleases ((co_entries st)[e := renewed])"
    using assms by (auto simp: coord_defs list_all_length nth_list_update)
  moreover have "renewHeldSuspension e now st =
      scheduleEntry e GATEWAY_SUSPEND_TTL_MS (st\<lparr>co_entries := (co_entries st)[e := renewed]\<rparr>)"
    by (simp add: renewHeldSuspension_def k renewed_def Let_def)
  moreover have "se_owner renewed = se_owner (co_entries st ! e)" "se_reopen renewed = se_reopen (co_entries st ! e)"
    by (simp_all add: renewed_def)
  ultimately show ?thesis
    using assms by (auto simp: coord_inv_def coord_defs timers_scheduled)
qed

lemma prepare_inv:
  assumes "coord_inv st"
  shows "coord_inv (snd (prepareGatewaySuspend env cur now request st))"
proof -
  obtain r st1 where h: "currentHeld now (pe_expiry env) st = (r, st1)" by fastforce
  note ch = currentHeld_inv [OF assms h]
  show ?thesis
  proof (cases r)
    case None
    with h ch(1) show ?thesis by (simp add: prepareGatewaySuspend_def)
  next
    case (Some held)
    then show ?thesis
      using h ch begin_inv renew_inv
      by (cases held) (simp_all add: prepareGatewaySuspend_def Let_def)
  qed
qed

subsubsection \<open>Restart\<close>

lemma invalidated_quiet:
  "co_current st = None \<Longrightarrow> foldl (\<lambda>s owner. onInvalidated owner s) st os
     = st\<lparr>co_invalidated := co_invalidated st @ os\<rparr>"
  by (induction os arbitrary: st) (simp_all add: onInvalidated_def)

definition coord_retiring :: "coordinator_state \<Rightarrow> bool" where
  "coord_retiring st \<longleftrightarrow> gate_ok (coordGate st) \<and> list_all heldReleases (co_entries st) \<and> co_current st = None
     \<and> co_retired st = None
     \<and> (\<forall>o' \<in> set (co_invalidated st). o' < co_nextOwner st)
     \<and> (\<forall>o'. wa_suspendInvalidated (coordGate st) = Some o' \<longrightarrow> o' < co_nextOwner st)"

lemma retiring_base: "coord_retiring st \<longleftrightarrow> coord_base st \<and> co_current st = None \<and> co_retired st = None"
  by (auto simp: coord_retiring_def coord_base_def)

lemma retire_entry:
  assumes "coord_retiring st"
  shows "coord_retiring (retireEntry c entry st)"
    and "set (co_timers (retireEntry c entry st)) = {t \<in> set (co_timers st). entry \<noteq> Some (fst t)}"
proof -
  have d: "coord_retiring (restartDrain s) \<and> co_timers (restartDrain s) = co_timers s" if "coord_retiring s" for s
    using that by (auto simp: coord_retiring_def restartDrain_eq marked_gate onInvalidated_def Let_def split: option.split)
  have r: "coord_retiring (snd (resumeScheduling c s)) \<and> co_timers (snd (resumeScheduling c s)) = co_timers s"
    if "coord_retiring s" for s
    using d [OF that] that by (auto simp: resumeScheduling_def coord_retiring_def Let_def)
  have o: "coord_retiring (snd (reopenAdmission x s))" if "coord_retiring s" for x s
    using that reopen_base by (simp add: retiring_base)
  have "coord_retiring (clearEntryTimer e st)" for e using assms by (simp add: coord_retiring_def)
  note f = o [OF conjunct1 [OF r [OF this]]] conjunct2 [OF r [OF this]]
  show "coord_retiring (retireEntry c entry st)"
    using assms f(1) by (cases entry) (simp_all add: retireEntry_def Let_def)
  show "set (co_timers (retireEntry c entry st)) = {t \<in> set (co_timers st). entry \<noteq> Some (fst t)}"
    using f(2) by (cases entry) (auto simp: retireEntry_def clearEntryTimer_def Let_def)
qed

lemma reset_gate_open:
  "wa_suspendPhase (resetGatewayWorkAdmission a) = Accepting"
  "wa_suspendInvalidated (resetGatewayWorkAdmission a) = None"
  "\<not> wa_restartDraining (resetGatewayWorkAdmission a)"
  by (simp_all add: resetGatewayWorkAdmission_def invalidateSuspendAdmission_def resolveSuspendOpenWaiters_def Let_def)

lemma reset_called:
  "set (drop (length (wa_invalidations a)) (wa_invalidations (resetGatewayWorkAdmission a)))
     \<subseteq> set_option (wa_suspendInvalidated a)"
  by (auto simp: resetGatewayWorkAdmission_def invalidateSuspendAdmission_def resolveSuspendOpenWaiters_def
      resolveRootDrainWaiters_def Let_def split: option.splits)

lemma retire_reset:
  assumes "coord_inv st"
  shows "coord_retiring (resetGatewaySuspendCoordinator c1 c2 st)"
    and "co_timers (resetGatewaySuspendCoordinator c1 c2 st) = []"
proof -
  define st1 where "st1 = st\<lparr>co_current := None, co_retired := None\<rparr>"
  have r: "coord_retiring st1"
    using assms by (auto simp: coord_inv_def coord_defs coord_retiring_def st1_def split: option.splits)
  have t: "\<And>x. x \<in> set (co_timers st1) \<Longrightarrow> co_current st = Some (fst x)"
    using assms by (auto simp: coord_inv_def coord_defs st1_def split: option.splits)
  show "coord_retiring (resetGatewaySuspendCoordinator c1 c2 st)"
    using retire_entry(1) r by (simp add: resetGatewaySuspendCoordinator_def st1_def Let_def)
  have z: "set (co_timers (retireEntry c (co_current st) st1)) = {}" for c
    using t by (auto simp: retire_entry(2) [OF r])
  then have "set (co_timers (retireEntry c2 x (retireEntry c1 (co_current st) st1))) = {}" for x
    by (simp add: retire_entry(2) [OF retire_entry(1) [OF r]])
  moreover have "set (co_timers (retireEntry c1 x st1)) = {}" if "co_current st = None" for x
    using t that by (auto simp: retire_entry(2) [OF r])
  ultimately have "set (co_timers (resetGatewaySuspendCoordinator c1 c2 st)) = {}"
    unfolding resetGatewaySuspendCoordinator_def Let_def st1_def [symmetric]
    using z [of c1] by (auto simp: nullish_or_def split: option.splits)
  then show "co_timers (resetGatewaySuspendCoordinator c1 c2 st) = []" by simp
qed

lemma restart_inv:
  assumes "coord_inv st"
  shows "coord_idle (restartLifecycle c1 c2 now st)"
proof -
  define st1 where "st1 = resetGatewaySuspendCoordinator c1 c2 st"
  have r: "coord_retiring st1" "co_timers st1 = []" using retire_reset [OF assms] by (simp_all add: st1_def)
  define a where "a = resetGatewayWorkAdmission (coordGate st1)"
  have p: "gp_admission (resetAllLanes now (co_process st1)) = a"
    by (simp add: resetAllLanes_def a_def coordGate_def Let_def)
  have "gate_ok a" using r gate_ok_reset by (simp add: coord_retiring_def a_def)
  moreover have "\<And>o'. o' \<in> set (drop (length (wa_invalidations (coordGate st1))) (wa_invalidations a)) \<Longrightarrow> o' < co_nextOwner st1"
    using r reset_called [of "coordGate st1"] by (auto simp: coord_retiring_def a_def)
  ultimately show ?thesis
    unfolding restartLifecycle_def Let_def st1_def [symmetric] p
    using r reset_gate_open [of "coordGate st1"]
    by (subst invalidated_quiet) (auto simp: coord_retiring_def coord_defs p a_def [symmetric])
qed

lemma outside_inv:
  assumes "coord_inv st" "gateway_step Work (co_process st) p" "sameSuspension (coordGate st) (gp_admission p)"
  shows "coord_inv (st\<lparr>co_process := p\<rparr>)"
proof -
  have "gate_ok (gp_admission p)"
    using gateway_admission_step [OF assms(2)] gate_ok_step assms(1)
    by (auto simp: coord_inv_def coord_defs coordGate_def split: option.splits)
  moreover have "fences owner r (gp_admission p) = fences owner r (coordGate st)" for owner r
    using assms(3) by (simp add: fences_def sameSuspension_def split: reopen_admission.split)
  ultimately show ?thesis
    using assms(1,3) by (auto simp: coord_inv_def coord_defs sameSuspension_def split: option.splits)
qed

lemma drain_inv: "coord_inv st \<Longrightarrow> coord_inv (restartDrain st)"
  by (metis coord_inv_cases coord_inv_idle coord_held_def drain_held drain_idle drain_noop)

lemma coord_inv_step:
  assumes "coord_inv st" "coordinator_step st st'"
  shows "coord_inv st'"
  using assms(2)
proof cases
  case (status c now suspension)
  obtain r st1 where h: "currentHeld now c st = (r, st1)" by fastforce
  with currentHeld_inv(1) [OF assms(1) h] show ?thesis
    unfolding status by (auto simp: getGatewaySuspendStatus_def Let_def split: option.split)
next
  case (resume expiry c now suspension)
  obtain r st1 where h: "currentHeld now expiry st = (r, st1)" by fastforce
  note ch = currentHeld_inv [OF assms(1) h]
  have "coord_inv (snd (resumeAndReopen c e st1))" if "r = Some (Some e)" for e
    using ch(3) [OF that] reopen_held by blast
  with h ch(1) show ?thesis
    unfolding resume by (auto simp: resumeGatewaySuspend_def split: option.splits prod.splits bool.splits)
qed (use assms(1) in \<open>simp_all add: prepare_inv timer_inv drain_inv restart_inv coord_inv_idle outside_inv\<close>)

lemma coord_inv_init:
  assumes "initial_coordinator st"
  shows "coord_inv st"
proof -
  obtain p where "initial_gateway p" "st = initialCoordinator p" using assms by (auto simp: initial_coordinator_def)
  then show ?thesis
    by (simp add: coord_inv_def coord_defs initialCoordinator_def coordGate_def initial_gateway_def initial_admission_def
        initialAdmissionState_def gate_ok_def)
qed

interpretation suspension: inductive_invariant initial_coordinator coordinator_step coord_inv
  by unfold_locales (fact coord_inv_init, fact coord_inv_step)

subsection \<open>Properties\<close>

text \<open>
  C6: in every reachable state exactly the current entry has a pending timer, so no suspension outlives
  its expiry unnoticed and no stale timer is left behind. Unless the process drains for a restart, the gate
  is in a suspension exactly while the coordinator has an entry, the scheduler is paused exactly as long, and
  a held entry means a committed suspension.
\<close>

theorem suspension_has_one_owner:
  assumes "reachable initial_coordinator coordinator_step st"
  shows "map fst (co_timers st) = (case co_current st of None \<Rightarrow> [] | Some e \<Rightarrow> [e])
    \<and> (wa_restartDraining (coordGate st)
       \<or> (wa_suspendPhase (coordGate st) \<noteq> Accepting) = (co_current st \<noteq> None)
         \<and> co_paused st = (co_current st \<noteq> None)
         \<and> (case co_current st of
              None \<Rightarrow> True
            | Some e \<Rightarrow> se_kind (co_entries st ! e) = Recovering \<or> wa_suspendPhase (coordGate st) = Prepared))"
  using suspension.reachable_inv [OF assms]
proof (cases rule: coord_inv_cases)
  case 1
  then show ?thesis by (auto simp: coord_idle_def)
next
  case (2 e)
  then have "heldReleases (co_entries st ! e)" by (auto simp: coord_defs list_all_length)
  with 2 show ?thesis
    by (auto simp: coord_held_def fences_def heldReleases_def split: reopen_admission.splits suspend_kind.splits)
qed

definition demo_inspectors :: work_inspectors where
  "demo_inspectors = \<lparr>wi_pendingReplies = 0, wi_embeddedRuns = 0, wi_backgroundExecSessions = 0, wi_cronRuns = 0,
     wi_taskBlockers = [], wi_sessionAdmissions = 0, wi_sessionMutations = 0, wi_chatRuns = 0, wi_queuedTurns = 0,
     wi_terminalPersistence = 0, wi_terminalSessions = 0\<rparr>"

definition quietCall :: scheduler_call where
  "quietCall = \<lparr>sch_drains = False, sch_throws = False\<rparr>"

definition failingCall :: scheduler_call where
  "failingCall = \<lparr>sch_drains = False, sch_throws = True\<rparr>"

definition demo_env :: prepare_env where
  "demo_env = \<lparr>pe_expiry = quietCall, pe_pause = quietCall, pe_resume = quietCall,
     pe_inspect = Some demo_inspectors, pe_suspensionId = Some ''s1''\<rparr>"

definition demo_process :: gateway_process where
  "demo_process = \<lparr>gp_queue = initialQueueState, gp_admission = initialAdmissionState\<rparr>"

definition demo_held :: coordinator_state where
  "demo_held = snd (prepareGatewaySuspend demo_env None 0 ''r1'' (initialCoordinator demo_process))"

lemma reachable_demo_start: "reachable initial_coordinator coordinator_step (initialCoordinator demo_process)"
proof (rule reachable.start)
  have "initial_gateway demo_process"
    by (simp add: initial_gateway_def initial_queue_def initial_admission_def demo_process_def)
  then show "initial_coordinator (initialCoordinator demo_process)" by (auto simp: initial_coordinator_def)
qed

lemma reachable_demo_held: "reachable initial_coordinator coordinator_step demo_held"
  unfolding demo_held_def by (rule reachable.step [OF reachable_demo_start coordinator_step.prepare])

theorem suspension_has_one_owner_witness:
  "map fst (co_timers demo_held) = [0] \<and> wa_suspendPhase (coordGate demo_held) = Prepared \<and> co_paused demo_held"
proof -
  have "co_current demo_held = Some 0" "\<not> wa_restartDraining (coordGate demo_held)"
    "se_kind (co_entries demo_held ! 0) \<noteq> Recovering"
    by code_simp+
  then show ?thesis using suspension_has_one_owner [OF reachable_demo_held] by simp
qed

text \<open>
  C8: when the timer of the current entry fires and the scheduler resumes, the gate leaves the suspension, the
  scheduler runs and every caller that waited for the gate is woken. When the scheduler fails to resume, the
  gate stays closed, the scheduler stays paused, and the next attempt is due in a second.
\<close>

theorem suspension_ends_or_is_retried:
  assumes "reachable initial_coordinator coordinator_step st" "co_current st = Some e"
    "\<not> wa_restartDraining (coordGate st)" "\<not> sch_drains c"
  shows "if sch_throws c
    then wa_suspendPhase (coordGate (entryTimerFires c e st)) \<noteq> Accepting \<and> co_paused (entryTimerFires c e st)
      \<and> co_timers (entryTimerFires c e st) = [(the (co_current (entryTimerFires c e st)), 1000)]
    else co_current (entryTimerFires c e st) = None \<and> \<not> co_paused (entryTimerFires c e st)
      \<and> wa_suspendPhase (coordGate (entryTimerFires c e st)) = Accepting
      \<and> wa_suspendOpenWaiters (coordGate (entryTimerFires c e st)) = []
      \<and> wa_resumed (coordGate (entryTimerFires c e st)) = wa_resumed (coordGate st) @ wa_suspendOpenWaiters (coordGate st)"
proof -
  have h: "coord_held e st" using suspension.reachable_inv [OF assms(1)] assms(2) by (simp add: coord_inv_def)
  define entry where "entry = co_entries st ! e"
  have f: "fences (se_owner entry) (se_reopen entry) (coordGate st)" and p: "co_paused st"
    and e: "co_timers (clearEntryTimer e st) = []"
    using h assms(3) by (auto simp: coord_held_def entry_def timers_cleared)
  have phase: "wa_suspendPhase (coordGate st) \<noteq> Accepting" using f by (auto simp: fences_def split: reopen_admission.splits)
  show ?thesis
  proof (cases "sch_throws c")
    case True
    with assms(2,4) phase p e show ?thesis
      by (auto simp: entryTimerFires_def resumeAndReopen_def resumeScheduling_def enterSchedulerRecovery_def
          scheduleRecoveryRetry_def scheduleEntry_def addEntry_def clearEntryTimer_def
          GATEWAY_SCHEDULER_RECOVERY_RETRY_MS_def Let_def)
  next
    case False
    define st1 where "st1 = (clearEntryTimer e st)\<lparr>co_paused := False\<rparr>"
    define st2 where "st2 = snd (reopenAdmission (se_reopen entry) st1)"
    have f1: "fences (se_owner entry) (se_reopen entry) (coordGate st1)" using f by (simp add: st1_def)
    then have "reopenAdmission (se_reopen entry) st1 = (True, st2)"
      using reopen_owner(1) by (simp add: st2_def prod_eq_iff)
    moreover have "co_entries st1 ! e = entry" "co_current st1 = Some e"
      using assms(2) by (simp_all add: st1_def entry_def)
    ultimately have "entryTimerFires c e st = (clearEntryTimer e st2)\<lparr>co_current := None\<rparr>"
      using False assms(2,4)
      by (simp add: entryTimerFires_def resumeAndReopen_def resumeScheduling_def st1_def [symmetric] Let_def)
    moreover have "wa_suspendPhase (coordGate st2) = Accepting" using reopen_owner(2) [OF f1] by (simp add: st2_def)
    moreover have "wa_suspendOpenWaiters (coordGate st2) = []
        \<and> wa_resumed (coordGate st2) = wa_resumed (coordGate st) @ wa_suspendOpenWaiters (coordGate st)"
      using f by (cases "se_reopen entry") (auto simp: st2_def st1_def fences_def reopenAdmission_def rollbackSuspend_def
          releaseSuspend_def suspendTransition_def resolveSuspendOpenWaiters_def Let_def)
    moreover have "\<not> co_paused st2" by (simp add: st2_def st1_def)
    ultimately show ?thesis using False by simp
  qed
qed

theorem suspension_ends_or_is_retried_witness:
  "wa_suspendPhase (coordGate (entryTimerFires quietCall 0 demo_held)) = Accepting
   \<and> wa_suspendPhase (coordGate (entryTimerFires failingCall 0 demo_held)) \<noteq> Accepting"
proof -
  have c: "co_current demo_held = Some 0" "\<not> wa_restartDraining (coordGate demo_held)" by code_simp+
  show ?thesis
    using suspension_ends_or_is_retried [OF reachable_demo_held c, of quietCall]
      suspension_ends_or_is_retried [OF reachable_demo_held c, of failingCall]
    by (simp add: quietCall_def failingCall_def)
qed

lemma hold_ready:
  assumes "coord_preparing owner (ReopenRollback g) True st" "idleSnapshot snapshot"
    "holdOrAbandon env now request owner g snapshot st = (PrepareReady s x n bs, st')"
  shows "n = 0 \<and> bs = [] \<and> x = now + 120000 \<and> wa_suspendPhase (coordGate st') = Prepared \<and> co_paused st'
    \<and> (\<exists>e snap. co_current st' = Some e \<and> se_kind (co_entries st' ! e) = Held request s x snap
         \<and> co_timers st' = [(e, 120000)])"
proof -
  obtain ok a where c: "commitSuspend g (coordGate st) = (ok, a)" by fastforce
  have ab: "fst (abandonPreparation env owner b r s') \<noteq> PrepareReady s x n bs" for b r s'
    by (auto simp: abandonPreparation_def split: prod.splits bool.splits)
  from assms(3) c ab obtain i where i: "ok" "pe_suspensionId env = Some i"
    by (auto simp: holdOrAbandon_def Let_def split: option.splits if_splits) (metis fst_conv)+
  with commit_preparing(1) [OF assms(1) c] have "fences owner (ReopenRelease g) a" "co_paused st"
    "co_timers st = []"
    by (auto simp: coord_preparing_def)
  with i c assms(2,3) show ?thesis
    by (auto simp: holdOrAbandon_def armExpiry_def addEntry_def scheduleEntry_def clearEntryTimer_def
        idleSnapshot_def GATEWAY_SUSPEND_TTL_MS_def fences_def nth_append Let_def)
qed

lemma begin_ready:
  assumes "coord_idle st" "beginPreparation env cur now request st = (PrepareReady s x n bs, st')"
  obtains owner g st1 i where "coord_preparing owner (ReopenRollback g) True st1"
    "idleSnapshot (createGatewayActiveWorkSnapshot cur i (co_process st1))"
    "holdOrAbandon env now request owner g (createGatewayActiveWorkSnapshot cur i (co_process st1)) st1
       = (PrepareReady s x n bs, st')"
proof -
  obtain g a where b: "tryBeginGatewaySuspendAdmission (co_nextOwner st) (coordGate st) = (g, a)" by fastforce
  have ab: "fst (abandonPreparation env owner b r s') \<noteq> PrepareReady s x n bs" for owner b r s'
    by (auto simp: abandonPreparation_def split: prod.splits bool.splits)
  from assms(2) b obtain g' where g: "g = Some g'"
    by (cases g) (auto simp: beginPreparation_def Let_def split: option.splits)
  define st0 where "st0 = setGate a (st\<lparr>co_nextOwner := Suc (co_nextOwner st)\<rparr>)"
  obtain ok st1 where p: "pauseScheduling (pe_pause env) st0 = (ok, st1)" by fastforce
  have pre: "coord_preparing (co_nextOwner st) (ReopenRollback g') ok st1"
    using pause_preparing [OF preparing_begin [OF assms(1)] p [unfolded st0_def]] b g by simp
  from assms(2) b g p ab have ok
    by (cases ok) (auto simp: beginPreparation_def Let_def st0_def, metis fst_conv)
  with assms(2) b g p ab obtain i where "pe_inspect env = Some i"
    by (cases "pe_inspect env") (auto simp: beginPreparation_def Let_def st0_def, metis fst_conv)
  with assms(2) b g p \<open>ok\<close> have "ws_idle (createGatewayActiveWorkSnapshot cur i (co_process st1))"
    "holdOrAbandon env now request (co_nextOwner st) g' (createGatewayActiveWorkSnapshot cur i (co_process st1)) st1
       = (PrepareReady s x n bs, st')"
    by (auto simp: beginPreparation_def Let_def st0_def split: if_splits prod.splits bool.splits)
  with pre \<open>ok\<close> idle_snapshot show thesis by (intro that) simp_all
qed

text \<open>
  C12: an answer that the gateway is ready for suspension is only given when the inspected process is idle:
  it reports no active work and no blocker, the gate is in the committed suspension, the scheduler is paused,
  and the coordinator holds the request under the returned id for two minutes from now.
\<close>

theorem ready_means_idle_and_fenced:
  assumes "reachable initial_coordinator coordinator_step st"
    "prepareGatewaySuspend env cur now request st = (PrepareReady s x n bs, st')"
  shows "n = 0 \<and> bs = [] \<and> x = now + 120000 \<and> wa_suspendPhase (coordGate st') = Prepared \<and> co_paused st'
    \<and> (\<exists>e snap. co_current st' = Some e \<and> se_kind (co_entries st' ! e) = Held request s x snap
         \<and> co_timers st' = [(e, 120000)])"
proof -
  obtain r st1 where h: "currentHeld now (pe_expiry env) st = (r, st1)" by fastforce
  note ch = currentHeld_inv [OF suspension.reachable_inv [OF assms(1)] h]
  from assms(2) h obtain held where r: "r = Some held" by (cases r) (auto simp: prepareGatewaySuspend_def)
  show ?thesis
  proof (cases held)
    case None
    then have "beginPreparation env cur now request st1 = (PrepareReady s x n bs, st')"
      using assms(2) h r by (simp add: prepareGatewaySuspend_def)
    moreover have "coord_idle st1" using ch(2) None r by simp
    ultimately show ?thesis by (elim begin_ready [rotated]) (rule hold_ready)
  next
    case (Some e)
    with ch(3) r have k: "coord_held e st1" "se_kind (co_entries st1 ! e) \<noteq> Recovering" "co_timers st1 \<noteq> []" by simp_all
    then obtain rq si y sn where s: "se_kind (co_entries st1 ! e) = Held rq si y sn"
      by (cases "se_kind (co_entries st1 ! e)") simp_all
    have "heldReleases (co_entries st1 ! e)" and t: "map fst (co_timers st1) = [e]"
      using k by (auto simp: coord_defs list_all_length)
    then have i: "idleSnapshot sn" "wa_suspendPhase (coordGate st1) = Prepared" "co_paused st1" "e < length (co_entries st1)"
      "co_current st1 = Some e"
      using k s by (auto simp: heldReleases_def coord_held_def fences_def split: reopen_admission.splits)
    have res: "rq = request" "n = 0" "bs = []" "s = si" "x = now + 120000" "st' = renewHeldSuspension e now st1"
      using assms(2) h r Some s i(1)
      by (auto simp: prepareGatewaySuspend_def idleSnapshot_def GATEWAY_SUSPEND_TTL_MS_def Let_def split: if_splits)
    have "se_kind (co_entries (renewHeldSuspension e now st1) ! e) = Held rq si (now + 120000) sn"
      "co_timers (renewHeldSuspension e now st1) = [(e, 120000)]"
      using s i(4) t by (auto simp: renewHeldSuspension_def scheduleEntry_def clearEntryTimer_def
          GATEWAY_SUSPEND_TTL_MS_def Let_def)
    moreover have "coordGate (renewHeldSuspension e now st1) = coordGate st1" "co_paused (renewHeldSuspension e now st1) = co_paused st1"
      "co_current (renewHeldSuspension e now st1) = co_current st1"
      by (simp_all add: renewHeldSuspension_def Let_def)
    ultimately show ?thesis using res i by simp
  qed
qed

theorem ready_means_idle_and_fenced_witness:
  "wa_suspendPhase (coordGate demo_held) = Prepared \<and> co_paused demo_held"
proof -
  have "fst (prepareGatewaySuspend demo_env None 0 ''r1'' (initialCoordinator demo_process))
      = PrepareReady ''s1'' 120000 0 []"
    by code_simp
  then have "prepareGatewaySuspend demo_env None 0 ''r1'' (initialCoordinator demo_process)
      = (PrepareReady ''s1'' 120000 0 [], demo_held)"
    by (simp add: demo_held_def prod_eq_iff)
  from ready_means_idle_and_fenced [OF reachable_demo_start this] show ?thesis by blast
qed

end
