(* ===== verification/Heartbeat_Wake.thy ===== *)
theory Heartbeat_Wake
  imports Normalization Number_Coercion Transition_System "HOL-Library.AList"
begin

text \<open>
  The queue of heartbeat wake requests, \<open>src/infra/heartbeat-wake.ts\<close>: requests are coalesced per target
  and class, dispatched in batches by a timer to the registered handler, and retried or retained when the
  handler is busy or defers them.

  The module variables are the record \<open>heartbeat_state\<close>; a \<open>Map\<close> is an association list in insertion
  order. An asynchronous run of the timer callback that waits for the handler is a \<open>batch_run\<close>: its
  generation, its captured delay and the rest of its batch, whose head is with the handler. A step is a
  request, a (de)registration of a handler, the timer, or an answer of a handler. Handlers are functions
  compared by identity, so they are numbers. The admission of a wake as root work can reject, which the code
  treats like a throwing handler. \<open>now\<close> is the clock, \<open>loc\<close> is \<open>localeCompare\<close>.
\<close>

subsection \<open>Data\<close>

datatype wake_intent = IntentScheduled | IntentTask | IntentEvent | IntentImmediate | IntentManual

datatype wake_source =
    SrcInterval | SrcManual | SrcExecEvent | SrcNotificationsEvent | SrcCron | SrcHook | SrcBackgroundTask
  | SrcBackgroundTaskBlocked | SrcAcpSpawn | SrcSessionState | SrcCliWatchdog | SrcRestartSentinel | SrcRetry
  | SrcOther

record wake_override =
  wo_target :: "string option"
  wo_to :: "string option"
  wo_accountId :: "string option"

record scheduled_task =
  tk_jobId :: string
  tk_name :: string
  tk_prompt :: string

datatype run_result = Ran | Skipped string "int option" | Failed string

text \<open>The parameters of \<open>queuePendingWakeReason\<close>.\<close>

record wake_params =
  wp_source :: wake_source
  wp_intent :: wake_intent
  wp_reason :: "string option"
  wp_requestedAt :: "int option"
  wp_agentId :: "string option"
  wp_sessionKey :: "string option"
  wp_heartbeat :: "wake_override option"
  wp_everyMs :: "int option"
  wp_anchorMs :: "int option"
  wp_tasks :: "scheduled_task list option"
  wp_notBeforeMs :: "int option"
  wp_blockTargetUntilMs :: "int option"
  wp_guardRetry :: bool

record pending_wake =
  pw_source :: wake_source
  pw_intent :: wake_intent
  pw_reason :: string
  pw_priority :: int
  pw_requestedAt :: int
  pw_agentId :: "string option"
  pw_sessionKey :: "string option"
  pw_heartbeat :: "wake_override option"
  pw_everyMs :: "int option"
  pw_anchorMs :: "int option"
  pw_tasks :: "scheduled_task list option"
  pw_notBeforeMs :: "int option"
  pw_guardRetry :: bool

record wake_group =
  wg_task :: "pending_wake option"
  wg_scheduled :: "pending_wake option"
  wg_event :: "pending_wake option"
  wg_blockedUntilMs :: "int option"

record batch_run =
  br_generation :: nat
  br_delay :: int
  br_batch :: "pending_wake list"

record heartbeat_state =
  hb_handler :: "nat option"
  hb_generation :: nat
  hb_pending :: "(string \<times> wake_group) list"
  hb_scheduled :: bool
  hb_running :: bool
  hb_timer :: "(int \<times> int) option"
  hb_runs :: "batch_run list"

definition DEFAULT_COALESCE_MS :: int where "DEFAULT_COALESCE_MS = 250"

definition DEFAULT_RETRY_MS :: int where "DEFAULT_RETRY_MS = 1000"

definition initialHeartbeat :: heartbeat_state where
  "initialHeartbeat =
     \<lparr>hb_handler = None, hb_generation = 0, hb_pending = [], hb_scheduled = False, hb_running = False,
      hb_timer = None, hb_runs = []\<rparr>"

subsection \<open>Requests\<close>

definition isRetryableHeartbeatBusySkipReason :: "string \<Rightarrow> bool" where
  "isRetryableHeartbeatBusySkipReason reason \<longleftrightarrow>
     reason \<in> set [''requests-in-flight'', ''cron-in-progress'', ''lanes-busy'']"

definition isGuardSkipReason :: "string \<Rightarrow> bool" where
  "isGuardSkipReason reason \<longleftrightarrow> reason \<in> set [''not-due'', ''min-spacing'', ''flood'']"

definition resolveWakePriority :: "wake_source \<Rightarrow> wake_intent \<Rightarrow> string \<Rightarrow> int" where
  "resolveWakePriority source intent reason =
     (if intent = IntentManual \<or> intent = IntentImmediate then 3
      else if source = SrcRetry \<or> reason = ''retry'' then 0
      else if intent = IntentScheduled \<or> source = SrcInterval \<or> reason = ''interval'' then 1
      else 2)"

definition normalizeHeartbeatWakeReason :: "string option \<Rightarrow> string" where
  "normalizeHeartbeatWakeReason reason =
     nullish (normalizeOptionalString (case reason of None \<Rightarrow> JUndefined | Some s \<Rightarrow> JStr s)) ''requested''"

definition normalizeWakeTarget :: "string option \<Rightarrow> string option" where
  "normalizeWakeTarget value =
     (let trimmed = nullish (normalizeOptionalString (case value of None \<Rightarrow> JUndefined | Some s \<Rightarrow> JStr s)) ''''
      in if trimmed = '''' then None else Some trimmed)"

definition getWakeTargetBaseKey :: "string option \<Rightarrow> string option \<Rightarrow> string" where
  "getWakeTargetBaseKey agentId sessionKey =
     nullish (normalizeWakeTarget agentId) '''' @ ''::'' @ nullish (normalizeWakeTarget sessionKey) ''''"

definition preferNext :: "pending_wake \<Rightarrow> pending_wake \<Rightarrow> bool" where
  "preferNext previous next' \<longleftrightarrow>
     (if (pw_intent previous = IntentTask) \<noteq> (pw_intent next' = IntentTask)
      then pw_intent previous \<noteq> IntentTask
      else pw_priority next' > pw_priority previous
        \<or> (pw_priority next' = pw_priority previous \<and> pw_requestedAt next' \<ge> pw_requestedAt previous))"

definition mergeTasks :: "(string \<Rightarrow> string \<Rightarrow> int) \<Rightarrow> pending_wake \<Rightarrow> pending_wake \<Rightarrow> scheduled_task list" where
  "mergeTasks loc previous next' =
     (let byJob = foldl (\<lambda>m t. AList.update (tk_jobId t) t m) []
            (nullish (pw_tasks previous) [] @ nullish (pw_tasks next') [])
      in js_toSorted (\<lambda>l r. loc (tk_jobId l) (tk_jobId r)) (map snd byJob))"

definition mergePendingWakeReasons ::
  "(string \<Rightarrow> string \<Rightarrow> int) \<Rightarrow> pending_wake \<Rightarrow> pending_wake \<Rightarrow> pending_wake" where
  "mergePendingWakeReasons loc previous next' =
     (let mergedTasks = mergeTasks loc previous next';
          preferred = (if preferNext previous next' then next' else previous);
          other = (if preferNext previous next' then previous else next');
          bypassGuardRetry = ((pw_intent preferred = IntentManual \<or> pw_intent preferred = IntentImmediate)
            \<and> \<not> pw_guardRetry preferred \<and> (pw_guardRetry previous \<or> pw_guardRetry next'));
          m1 = (if \<not> bypassGuardRetry \<and> (pw_notBeforeMs previous \<noteq> None \<or> pw_notBeforeMs next' \<noteq> None)
                then preferred\<lparr>pw_requestedAt := min (pw_requestedAt previous) (pw_requestedAt next'),
                        pw_notBeforeMs := Some (max (nullish (pw_notBeforeMs previous) 0)
                                                    (nullish (pw_notBeforeMs next') 0))\<rparr>
                else preferred);
          m2 = m1\<lparr>pw_heartbeat := nullish_or (pw_heartbeat preferred) (pw_heartbeat other),
                  pw_everyMs := nullish_or (pw_everyMs preferred) (pw_everyMs other),
                  pw_anchorMs := nullish_or (pw_anchorMs preferred) (pw_anchorMs other)\<rparr>;
          m3 = (if mergedTasks \<noteq> [] then m2\<lparr>pw_tasks := Some mergedTasks\<rparr> else m2)
      in m3\<lparr>pw_guardRetry := (\<not> bypassGuardRetry \<and> (pw_guardRetry previous \<or> pw_guardRetry next'))\<rparr>)"

definition emptyGroup :: wake_group where
  "emptyGroup = \<lparr>wg_task = None, wg_scheduled = None, wg_event = None, wg_blockedUntilMs = None\<rparr>"

definition pendingWakeOf :: "int \<Rightarrow> wake_params \<Rightarrow> pending_wake" where
  "pendingWakeOf now params =
     (let reason = normalizeHeartbeatWakeReason (wp_reason params)
      in \<lparr>pw_source = wp_source params, pw_intent = wp_intent params, pw_reason = reason,
          pw_priority = resolveWakePriority (wp_source params) (wp_intent params) reason,
          pw_requestedAt = nullish (wp_requestedAt params) now,
          pw_agentId = normalizeWakeTarget (wp_agentId params),
          pw_sessionKey = normalizeWakeTarget (wp_sessionKey params),
          pw_heartbeat = wp_heartbeat params, pw_everyMs = wp_everyMs params, pw_anchorMs = wp_anchorMs params,
          pw_tasks = (if nullish (wp_tasks params) [] \<noteq> [] then wp_tasks params else None),
          pw_notBeforeMs = wp_notBeforeMs params, pw_guardRetry = wp_guardRetry params\<rparr>)"

definition mergeSlot ::
  "(string \<Rightarrow> string \<Rightarrow> int) \<Rightarrow> pending_wake \<Rightarrow> pending_wake option \<Rightarrow> pending_wake option" where
  "mergeSlot loc next' slot =
     (case slot of None \<Rightarrow> Some next' | Some previous \<Rightarrow> Some (mergePendingWakeReasons loc previous next'))"

definition queuePendingWakeReason ::
  "(string \<Rightarrow> string \<Rightarrow> int) \<Rightarrow> int \<Rightarrow> wake_params \<Rightarrow> heartbeat_state \<Rightarrow> heartbeat_state" where
  "queuePendingWakeReason loc now params st =
     (let next' = pendingWakeOf now params;
          key = getWakeTargetBaseKey (pw_agentId next') (pw_sessionKey next');
          group0 = nullish (map_of (hb_pending st) key) emptyGroup;
          group1 = (case wp_blockTargetUntilMs params of
                      None \<Rightarrow> group0
                    | Some until \<Rightarrow>
                        group0\<lparr>wg_blockedUntilMs := Some (max (nullish (wg_blockedUntilMs group0) 0) until)\<rparr>);
          group2 = (case wp_intent params of
                      IntentTask \<Rightarrow> group1\<lparr>wg_task := mergeSlot loc next' (wg_task group1)\<rparr>
                    | IntentScheduled \<Rightarrow> group1\<lparr>wg_scheduled := mergeSlot loc next' (wg_scheduled group1)\<rparr>
                    | _ \<Rightarrow> group1\<lparr>wg_event := mergeSlot loc next' (wg_event group1)\<rparr>)
      in st\<lparr>hb_pending := AList.update key group2 (hb_pending st)\<rparr>)"

subsection \<open>Batches\<close>

definition isDue :: "int \<Rightarrow> pending_wake \<Rightarrow> bool" where
  "isDue now wake = (case pw_notBeforeMs wake of None \<Rightarrow> True | Some t \<Rightarrow> t \<le> now)"

definition isBlocked :: "int \<Rightarrow> wake_group \<Rightarrow> bool" where
  "isBlocked now grp = (case wg_blockedUntilMs grp of None \<Rightarrow> False | Some t \<Rightarrow> t > now)"

definition keepSlot :: "(pending_wake \<Rightarrow> bool) \<Rightarrow> pending_wake option \<Rightarrow> pending_wake option" where
  "keepSlot P slot = (case slot of None \<Rightarrow> None | Some wake \<Rightarrow> if P wake then Some wake else None)"

definition slotsOf :: "(pending_wake \<Rightarrow> bool) \<Rightarrow> wake_group \<Rightarrow> wake_group" where
  "slotsOf P grp =
     \<lparr>wg_task = keepSlot P (wg_task grp), wg_scheduled = keepSlot P (wg_scheduled grp),
      wg_event = keepSlot P (wg_event grp), wg_blockedUntilMs = None\<rparr>"

definition hasSlot :: "wake_group \<Rightarrow> bool" where
  "hasSlot grp \<longleftrightarrow> wg_task grp \<noteq> None \<or> wg_scheduled grp \<noteq> None \<or> wg_event grp \<noteq> None"

definition retainedFirst :: "pending_wake \<Rightarrow> pending_wake \<Rightarrow> int" where
  "retainedFirst left right =
     (if pw_guardRetry left \<noteq> pw_guardRetry right then (if pw_guardRetry left then -1 else 1)
      else pw_requestedAt left - pw_requestedAt right)"

definition groupBatch :: "(string \<Rightarrow> string \<Rightarrow> int) \<Rightarrow> wake_group \<Rightarrow> pending_wake list" where
  "groupBatch loc grp =
     (case wg_task grp of
        Some task \<Rightarrow>
          let taskWake = (case wg_scheduled grp of None \<Rightarrow> task
                          | Some scheduled \<Rightarrow> mergePendingWakeReasons loc scheduled task)
          in (case wg_event grp of
                None \<Rightarrow> [taskWake]
              | Some event \<Rightarrow> js_toSorted retainedFirst [taskWake, event])
      | None \<Rightarrow>
          (case wg_event grp of
             Some event \<Rightarrow>
               [case wg_scheduled grp of None \<Rightarrow> event
                | Some scheduled \<Rightarrow> mergePendingWakeReasons loc scheduled event]
           | None \<Rightarrow> (case wg_scheduled grp of None \<Rightarrow> [] | Some scheduled \<Rightarrow> [scheduled])))"

fun takeGroups :: "int \<Rightarrow> (string \<times> wake_group) list \<Rightarrow> wake_group list \<times> (string \<times> wake_group) list" where
  "takeGroups now [] = ([], [])"
| "takeGroups now ((key, grp) # groups) =
     (let (readyGroups, rest) = takeGroups now groups
      in if isBlocked now grp then (readyGroups, (key, grp) # rest)
         else
           let ready = slotsOf (isDue now) grp;
               remaining = slotsOf (\<lambda>w. \<not> isDue now w) grp
           in (if hasSlot ready then ready # readyGroups else readyGroups,
               if hasSlot remaining then (key, remaining) # rest else rest))"

definition takePendingWakeBatch ::
  "(string \<Rightarrow> string \<Rightarrow> int) \<Rightarrow> int \<Rightarrow> heartbeat_state \<Rightarrow> pending_wake list \<times> heartbeat_state" where
  "takePendingWakeBatch loc now st =
     (let (readyGroups, remaining) = takeGroups now (hb_pending st)
      in (concat (map (groupBatch loc) readyGroups), st\<lparr>hb_pending := remaining\<rparr>))"

subsection \<open>The timer\<close>

definition schedule :: "int \<Rightarrow> int \<Rightarrow> heartbeat_state \<Rightarrow> heartbeat_state" where
  "schedule now coalesceMs st =
     (let delay = resolveTimerTimeoutMs (Some coalesceMs) DEFAULT_COALESCE_MS 0;
          dueAt = now + delay
      in case hb_timer st of
           Some (due, d) \<Rightarrow> if due \<le> dueAt then st else st\<lparr>hb_timer := Some (dueAt, delay)\<rparr>
         | None \<Rightarrow> st\<lparr>hb_timer := Some (dueAt, delay)\<rparr>)"

definition groupWakes :: "wake_group \<Rightarrow> pending_wake list" where
  "groupWakes grp = List.map_filter id [wg_task grp, wg_scheduled grp, wg_event grp]"

text \<open>The instants one group contributes to the schedule: \<open>None\<close> when a wake is ready.\<close>

definition groupTimes :: "int \<Rightarrow> wake_group \<Rightarrow> int option list" where
  "groupTimes now grp =
     (if isBlocked now grp then [wg_blockedUntilMs grp]
      else map (\<lambda>w. if isDue now w then None else pw_notBeforeMs w) (groupWakes grp))"

definition schedulePendingWakes :: "int \<Rightarrow> int \<Rightarrow> heartbeat_state \<Rightarrow> heartbeat_state" where
  "schedulePendingWakes now readyDelayMs st =
     (let instants = concat (map (groupTimes now \<circ> snd) (hb_pending st));
          finite' = List.map_filter id instants
      in if None \<in> set instants then schedule now readyDelayMs st
         else if finite' \<noteq> [] then schedule now (Min (set finite') - now) st
         else st)"

definition retryPendingWake ::
  "(string \<Rightarrow> string \<Rightarrow> int) \<Rightarrow> int \<Rightarrow> pending_wake \<Rightarrow> heartbeat_state \<Rightarrow> heartbeat_state" where
  "retryPendingWake loc now wake st =
     schedule now DEFAULT_RETRY_MS (queuePendingWakeReason loc now
       \<lparr>wp_source = pw_source wake, wp_intent = pw_intent wake, wp_reason = Some (pw_reason wake),
        wp_requestedAt = Some (pw_requestedAt wake), wp_agentId = pw_agentId wake,
        wp_sessionKey = pw_sessionKey wake, wp_heartbeat = pw_heartbeat wake, wp_everyMs = pw_everyMs wake,
        wp_anchorMs = pw_anchorMs wake, wp_tasks = pw_tasks wake, wp_notBeforeMs = None,
        wp_blockTargetUntilMs = Some (now + DEFAULT_RETRY_MS), wp_guardRetry = False\<rparr> st)"

definition handOffParams :: "pending_wake \<Rightarrow> wake_params" where
  "handOffParams wake =
     \<lparr>wp_source = pw_source wake, wp_intent = pw_intent wake, wp_reason = Some (pw_reason wake),
      wp_requestedAt = Some (pw_requestedAt wake), wp_agentId = pw_agentId wake,
      wp_sessionKey = pw_sessionKey wake, wp_heartbeat = pw_heartbeat wake, wp_everyMs = pw_everyMs wake,
      wp_anchorMs = pw_anchorMs wake, wp_tasks = pw_tasks wake, wp_notBeforeMs = pw_notBeforeMs wake,
      wp_blockTargetUntilMs = None, wp_guardRetry = pw_guardRetry wake\<rparr>"

definition handOffPendingWakeBatch ::
  "(string \<Rightarrow> string \<Rightarrow> int) \<Rightarrow> int \<Rightarrow> pending_wake list \<Rightarrow> heartbeat_state \<Rightarrow> heartbeat_state" where
  "handOffPendingWakeBatch loc now wakes st =
     (let st1 = foldl (\<lambda>s wake. queuePendingWakeReason loc now (handOffParams wake) s) st wakes
      in if hb_handler st1 \<noteq> None \<and> wakes \<noteq> [] then schedulePendingWakes now DEFAULT_COALESCE_MS st1 else st1)"

text \<open>The end of a batch: the loop continues with the next wake, or the \<open>finally\<close> block runs.\<close>

definition continueBatch :: "int \<Rightarrow> batch_run \<Rightarrow> heartbeat_state \<Rightarrow> heartbeat_state" where
  "continueBatch now run st =
     (if br_batch run \<noteq> [] then st\<lparr>hb_runs := hb_runs st @ [run]\<rparr>
      else
        let st1 = st\<lparr>hb_running := False\<rparr>
        in if hb_pending st1 \<noteq> [] \<or> hb_scheduled st1 then schedulePendingWakes now (br_delay run) st1 else st1)"

definition timerFires :: "(string \<Rightarrow> string \<Rightarrow> int) \<Rightarrow> int \<Rightarrow> heartbeat_state \<Rightarrow> heartbeat_state" where
  "timerFires loc now st =
     (case hb_timer st of
        None \<Rightarrow> st
      | Some (due, delay) \<Rightarrow>
          let st1 = st\<lparr>hb_timer := None, hb_scheduled := False\<rparr>
          in if hb_handler st1 = None then st1
             else if hb_running st1 then schedule now delay (st1\<lparr>hb_scheduled := True\<rparr>)
             else
               let (batch, st2) = takePendingWakeBatch loc now st1
               in continueBatch now \<lparr>br_generation = hb_generation st2, br_delay = delay, br_batch = batch\<rparr>
                    (st2\<lparr>hb_running := True\<rparr>))"

definition carriesWork :: "pending_wake \<Rightarrow> bool" where
  "carriesWork wake \<longleftrightarrow> nullish (pw_tasks wake) [] \<noteq> []
     \<or> pw_intent wake = IntentTask \<or> pw_intent wake = IntentEvent \<or> pw_intent wake = IntentImmediate"

definition retainsWake :: "pending_wake \<Rightarrow> run_result \<Rightarrow> bool" where
  "retainsWake wake res =
     (case res of
        Skipped reason _ \<Rightarrow>
          isRetryableHeartbeatBusySkipReason reason \<or> (isGuardSkipReason reason \<and> carriesWork wake)
      | _ \<Rightarrow> False)"

definition settleWake ::
  "(string \<Rightarrow> string \<Rightarrow> int) \<Rightarrow> int \<Rightarrow> pending_wake \<Rightarrow> run_result \<Rightarrow> heartbeat_state \<Rightarrow> heartbeat_state" where
  "settleWake loc now wake res st =
     (case res of
        Skipped reason retryAt \<Rightarrow>
          if isRetryableHeartbeatBusySkipReason reason then retryPendingWake loc now wake st
          else if isGuardSkipReason reason \<and> carriesWork wake then
            let retryAtMs = max now (nullish retryAt (now + DEFAULT_RETRY_MS))
            in schedule now (retryAtMs - now) (queuePendingWakeReason loc now
                 \<lparr>wp_source = pw_source wake, wp_intent = pw_intent wake, wp_reason = Some (pw_reason wake),
                  wp_requestedAt = Some (pw_requestedAt wake), wp_agentId = pw_agentId wake,
                  wp_sessionKey = pw_sessionKey wake, wp_heartbeat = pw_heartbeat wake,
                  wp_everyMs = pw_everyMs wake, wp_anchorMs = pw_anchorMs wake, wp_tasks = pw_tasks wake,
                  wp_notBeforeMs = Some retryAtMs, wp_blockTargetUntilMs = None, wp_guardRetry = True\<rparr> st)
          else st
      | _ \<Rightarrow> st)"

text \<open>The handler answers the head of a batch; \<open>None\<close> is a rejected promise.\<close>

definition handlerAnswers ::
  "(string \<Rightarrow> string \<Rightarrow> int) \<Rightarrow> int \<Rightarrow> batch_run \<Rightarrow> run_result option \<Rightarrow> heartbeat_state \<Rightarrow> heartbeat_state" where
  "handlerAnswers loc now run res st =
     (case br_batch run of
        [] \<Rightarrow> st
      | wake # rest \<Rightarrow>
          let st1 = st\<lparr>hb_runs := remove1 run (hb_runs st)\<rparr>;
              replaced = (hb_generation st1 \<noteq> br_generation run)
          in case res of
               None \<Rightarrow>
                 if replaced then handOffPendingWakeBatch loc now (wake # rest) st1
                 else continueBatch now (run\<lparr>br_batch := rest\<rparr>) (retryPendingWake loc now wake st1)
             | Some r \<Rightarrow>
                 if replaced
                 then handOffPendingWakeBatch loc now (if retainsWake wake r then wake # rest else rest) st1
                 else continueBatch now (run\<lparr>br_batch := rest\<rparr>) (settleWake loc now wake r st1))"

subsection \<open>Handlers and requests\<close>

definition clearSlot :: "pending_wake option \<Rightarrow> pending_wake option" where
  "clearSlot slot = map_option (\<lambda>w. w\<lparr>pw_notBeforeMs := None, pw_guardRetry := False\<rparr>) slot"

definition clearPendingWakeRetryState :: "heartbeat_state \<Rightarrow> heartbeat_state" where
  "clearPendingWakeRetryState st =
     st\<lparr>hb_pending := map (\<lambda>(key, grp). (key,
          \<lparr>wg_task = clearSlot (wg_task grp), wg_scheduled = clearSlot (wg_scheduled grp),
           wg_event = clearSlot (wg_event grp), wg_blockedUntilMs = None\<rparr>)) (hb_pending st)\<rparr>"

definition setHeartbeatWakeHandler :: "int \<Rightarrow> nat option \<Rightarrow> heartbeat_state \<Rightarrow> heartbeat_state" where
  "setHeartbeatWakeHandler now next' st =
     (let st1 = st\<lparr>hb_generation := Suc (hb_generation st), hb_handler := next'\<rparr>;
          st2 = (if next' = None then st1
                 else clearPendingWakeRetryState
                   (st1\<lparr>hb_timer := None, hb_running := False, hb_scheduled := False\<rparr>))
      in if hb_handler st2 \<noteq> None \<and> hb_pending st2 \<noteq> []
         then schedulePendingWakes now DEFAULT_COALESCE_MS st2 else st2)"

text \<open>The disposer that \<open>setHeartbeatWakeHandler\<close> returned.\<close>

definition disposeHandler :: "nat \<Rightarrow> nat option \<Rightarrow> heartbeat_state \<Rightarrow> heartbeat_state" where
  "disposeHandler generation next' st =
     (if hb_generation st \<noteq> generation then st
      else if hb_handler st \<noteq> next' then st
      else st\<lparr>hb_generation := Suc (hb_generation st), hb_handler := None\<rparr>)"

text \<open>A request has none of the internal markers \<open>requestedAt\<close>, \<open>notBeforeMs\<close>, \<open>blockTargetUntilMs\<close>
  and \<open>guardRetry\<close>.\<close>

definition requestHeartbeat ::
  "(string \<Rightarrow> string \<Rightarrow> int) \<Rightarrow> int \<Rightarrow> wake_params \<Rightarrow> int option \<Rightarrow> heartbeat_state \<Rightarrow> heartbeat_state" where
  "requestHeartbeat loc now opts coalesceMs st =
     schedule now (nullish coalesceMs DEFAULT_COALESCE_MS)
       (queuePendingWakeReason loc now
          (opts\<lparr>wp_requestedAt := None, wp_notBeforeMs := None, wp_blockTargetUntilMs := None,
                wp_guardRetry := False\<rparr>) st)"

subsection \<open>Steps\<close>

text \<open>The label of a step names the wake that a handler answered with its answer.\<close>

datatype heartbeat_label = Answered pending_wake "run_result option" | Internal

inductive heartbeat_step ::
  "(string \<Rightarrow> string \<Rightarrow> int) \<Rightarrow> heartbeat_label \<Rightarrow> heartbeat_state \<Rightarrow> heartbeat_state \<Rightarrow> bool" for loc where
  request: "heartbeat_step loc Internal st (requestHeartbeat loc now opts coalesceMs st)"
| register: "heartbeat_step loc Internal st (setHeartbeatWakeHandler now h st)"
| dispose: "heartbeat_step loc Internal st (disposeHandler g h st)"
| timer: "hb_timer st \<noteq> None \<Longrightarrow> heartbeat_step loc Internal st (timerFires loc now st)"
| answer: "run \<in> set (hb_runs st) \<Longrightarrow> br_batch run = wake # rest \<Longrightarrow>
    heartbeat_step loc (Answered wake res) st (handlerAnswers loc now run res st)"

definition anyHeartbeatStep :: "(string \<Rightarrow> string \<Rightarrow> int) \<Rightarrow> heartbeat_state \<Rightarrow> heartbeat_state \<Rightarrow> bool" where
  "anyHeartbeatStep loc st st' \<longleftrightarrow> (\<exists>l. heartbeat_step loc l st st')"

definition initial_heartbeat :: "heartbeat_state \<Rightarrow> bool" where
  "initial_heartbeat st \<longleftrightarrow> st = initialHeartbeat"

subsection \<open>Work carried by wakes\<close>

definition wakeKey :: "pending_wake \<Rightarrow> string" where
  "wakeKey w = getWakeTargetBaseKey (pw_agentId w) (pw_sessionKey w)"

definition jobsOf :: "pending_wake \<Rightarrow> string set" where
  "jobsOf w = tk_jobId ` set (nullish (pw_tasks w) [])"

definition jobsFor :: "string \<Rightarrow> pending_wake list \<Rightarrow> string set" where
  "jobsFor k ws = (\<Union>w \<in> {w \<in> set ws. wakeKey w = k}. jobsOf w)"

definition groupJobs :: "wake_group \<Rightarrow> string set" where
  "groupJobs g = (\<Union>w \<in> set (groupWakes g). jobsOf w)"

definition pendingJobs :: "string \<Rightarrow> (string \<times> wake_group) list \<Rightarrow> string set" where
  "pendingJobs k ps = (case map_of ps k of None \<Rightarrow> {} | Some g \<Rightarrow> groupJobs g)"

definition carriedJobs :: "string \<Rightarrow> heartbeat_state \<Rightarrow> string set" where
  "carriedJobs k st = pendingJobs k (hb_pending st) \<union> jobsFor k (concat (map br_batch (hb_runs st)))"

definition group_ok :: "string \<Rightarrow> wake_group \<Rightarrow> bool" where
  "group_ok k g \<longleftrightarrow> hasSlot g \<and> (\<forall>w \<in> set (groupWakes g). wakeKey w = k)"

definition pending_ok :: "(string \<times> wake_group) list \<Rightarrow> bool" where
  "pending_ok ps \<longleftrightarrow> distinct (map fst ps) \<and> (\<forall>(k, g) \<in> set ps. group_ok k g)"

lemma jobsFor_simps [simp]:
  "jobsFor k [] = {}" "jobsFor k (ws @ vs) = jobsFor k ws \<union> jobsFor k vs"
  "jobsFor k (w # ws) = (if wakeKey w = k then jobsOf w else {}) \<union> jobsFor k ws"
  by (auto simp: jobsFor_def)

lemma set_groupWakes: "set (groupWakes g) = set_option (wg_task g) \<union> set_option (wg_scheduled g) \<union> set_option (wg_event g)"
  by (cases "wg_task g"; cases "wg_scheduled g"; cases "wg_event g") (auto simp: groupWakes_def List.map_filter_simps)

lemma hasSlot_iff: "hasSlot g \<longleftrightarrow> groupWakes g \<noteq> []"
  by (cases "wg_task g"; cases "wg_scheduled g"; cases "wg_event g")
    (simp_all add: hasSlot_def groupWakes_def List.map_filter_simps)

lemma byJob_ids:
  assumes "\<forall>(k, t) \<in> set m. k = tk_jobId t"
  shows "(\<forall>(k, t) \<in> set (foldl (\<lambda>m t. AList.update (tk_jobId t) t m) m ts). k = tk_jobId t)
    \<and> fst ` set (foldl (\<lambda>m t. AList.update (tk_jobId t) t m) m ts) = fst ` set m \<union> tk_jobId ` set ts"
  using assms
proof (induction ts arbitrary: m)
  case (Cons t ts)
  have "set (AList.update (tk_jobId t) t m) \<subseteq> set m \<union> {(tk_jobId t, t)}"
    by (induction m) auto
  then have "\<forall>(k, u) \<in> set (AList.update (tk_jobId t) t m). k = tk_jobId u" using Cons.prems by fastforce
  from Cons.IH [OF this] show ?case
    using dom_update [of "tk_jobId t" t m] by (auto simp: image_iff)
qed simp

lemma mergeTasks_jobs: "tk_jobId ` set (mergeTasks loc a b) = jobsOf a \<union> jobsOf b"
proof -
  define m where "m = foldl (\<lambda>m t. AList.update (tk_jobId t) t m) [] (nullish (pw_tasks a) [] @ nullish (pw_tasks b) [])"
  have "(\<forall>(k, t) \<in> set m. k = tk_jobId t)
      \<and> fst ` set m = fst ` set ([] :: (string \<times> scheduled_task) list) \<union> tk_jobId ` set (nullish (pw_tasks a) [] @ nullish (pw_tasks b) [])"
    unfolding m_def by (rule byJob_ids) simp
  moreover from this have "tk_jobId ` snd ` set m = fst ` set m"
    unfolding image_image by (intro image_cong) auto
  ultimately have "tk_jobId ` snd ` set m = jobsOf a \<union> jobsOf b"
    by (simp add: jobsOf_def image_Un)
  then show ?thesis unfolding mergeTasks_def Let_def m_def [symmetric] by simp
qed

lemma merge_jobs: "jobsOf (mergePendingWakeReasons loc a b) = jobsOf a \<union> jobsOf b"
proof (cases "mergeTasks loc a b = []")
  case True
  with mergeTasks_jobs [of loc a b] show ?thesis
    by (auto simp: mergePendingWakeReasons_def jobsOf_def Let_def)
next
  case False
  then have "jobsOf (mergePendingWakeReasons loc a b) = tk_jobId ` set (mergeTasks loc a b)"
    by (simp add: mergePendingWakeReasons_def jobsOf_def Let_def)
  then show ?thesis by (simp add: mergeTasks_jobs)
qed

lemma merge_key: "wakeKey a = k \<Longrightarrow> wakeKey b = k \<Longrightarrow> wakeKey (mergePendingWakeReasons loc a b) = k"
  by (auto simp: mergePendingWakeReasons_def wakeKey_def Let_def)

lemma normalizeWakeTarget_idem [simp]: "normalizeWakeTarget (normalizeWakeTarget v) = normalizeWakeTarget v"
  by (cases v) (auto simp: normalizeWakeTarget_def normalizeOptionalString_def normalizeNullableString_def Let_def)

lemma getWakeTargetBaseKey_normalized [simp]:
  "getWakeTargetBaseKey (normalizeWakeTarget a) (normalizeWakeTarget s) = getWakeTargetBaseKey a s"
  by (simp add: getWakeTargetBaseKey_def)

lemma pendingWakeOf_key: "wakeKey (pendingWakeOf now p) = getWakeTargetBaseKey (wp_agentId p) (wp_sessionKey p)"
  by (simp add: wakeKey_def pendingWakeOf_def Let_def)

lemma pendingWakeOf_jobs: "jobsOf (pendingWakeOf now p) = tk_jobId ` set (nullish (wp_tasks p) [])"
  by (simp add: jobsOf_def pendingWakeOf_def Let_def)

subsubsection \<open>Queueing\<close>

lemma mergeSlot_effect:
  assumes "wakeKey w = k" "\<forall>v \<in> set_option slot. wakeKey v = k"
  shows "\<exists>v. mergeSlot loc w slot = Some v \<and> wakeKey v = k \<and> jobsOf v = (\<Union>u \<in> set_option slot. jobsOf u) \<union> jobsOf w"
  using assms merge_jobs merge_key by (cases slot) (auto simp: mergeSlot_def)

lemma queue_group:
  fixes loc now p st
  defines "w \<equiv> pendingWakeOf now p"
  assumes "pending_ok (hb_pending st)"
  obtains g where "hb_pending (queuePendingWakeReason loc now p st) = AList.update (wakeKey w) g (hb_pending st)"
    "group_ok (wakeKey w) g" "groupJobs g = pendingJobs (wakeKey w) (hb_pending st) \<union> jobsOf w"
proof -
  define k where "k = wakeKey w"
  define g0 where "g0 = nullish (map_of (hb_pending st) k) emptyGroup"
  have g0: "(\<forall>v \<in> set (groupWakes g0). wakeKey v = k) \<and> groupJobs g0 = pendingJobs k (hb_pending st)"
  proof (cases "map_of (hb_pending st) k")
    case None
    then show ?thesis by (simp add: g0_def pendingJobs_def emptyGroup_def groupWakes_def groupJobs_def List.map_filter_simps)
  next
    case (Some g)
    then have "group_ok k g" using assms(2) map_of_SomeD [of "hb_pending st" k g] by (auto simp: pending_ok_def)
    with Some show ?thesis by (simp add: g0_def pendingJobs_def group_ok_def)
  qed
  define g1 where "g1 = (case wp_blockTargetUntilMs p of None \<Rightarrow> g0
      | Some until \<Rightarrow> g0\<lparr>wg_blockedUntilMs := Some (max (nullish (wg_blockedUntilMs g0) 0) until)\<rparr>)"
  have g1: "wg_task g1 = wg_task g0" "wg_scheduled g1 = wg_scheduled g0" "wg_event g1 = wg_event g0"
    by (simp_all add: g1_def split: option.split)
  define g2 where "g2 = (case wp_intent p of IntentTask \<Rightarrow> g1\<lparr>wg_task := mergeSlot loc w (wg_task g1)\<rparr>
      | IntentScheduled \<Rightarrow> g1\<lparr>wg_scheduled := mergeSlot loc w (wg_scheduled g1)\<rparr>
      | _ \<Rightarrow> g1\<lparr>wg_event := mergeSlot loc w (wg_event g1)\<rparr>)"
  have slots: "\<forall>v \<in> set_option s. wakeKey v = k" if "s \<in> {wg_task g0, wg_scheduled g0, wg_event g0}" for s
    using g0 that by (auto simp: set_groupWakes)
  note m = mergeSlot_effect [OF k_def [symmetric] slots, where loc = loc]
  obtain a b c where "mergeSlot loc w (wg_task g0) = Some a" "mergeSlot loc w (wg_scheduled g0) = Some b"
    "mergeSlot loc w (wg_event g0) = Some c" "wakeKey a = k" "wakeKey b = k" "wakeKey c = k"
    "jobsOf a = (\<Union>u \<in> set_option (wg_task g0). jobsOf u) \<union> jobsOf w"
    "jobsOf b = (\<Union>u \<in> set_option (wg_scheduled g0). jobsOf u) \<union> jobsOf w"
    "jobsOf c = (\<Union>u \<in> set_option (wg_event g0). jobsOf u) \<union> jobsOf w"
    using m [of "wg_task g0"] m [of "wg_scheduled g0"] m [of "wg_event g0"] by auto
  note abc = this
  have "\<forall>v \<in> set_option (wg_task g0) \<union> set_option (wg_scheduled g0) \<union> set_option (wg_event g0). wakeKey v = k"
    using g0 by (simp add: set_groupWakes)
  then have "group_ok k g2"
    using abc by (cases "wp_intent p") (auto simp: group_ok_def hasSlot_def g2_def g1 set_groupWakes)
  moreover have "groupJobs g2 = groupJobs g0 \<union> jobsOf w"
    using abc by (cases "wp_intent p") (auto simp: groupJobs_def g2_def g1 set_groupWakes)
  moreover have "hb_pending (queuePendingWakeReason loc now p st) = AList.update k g2 (hb_pending st)"
    unfolding g2_def g1_def g0_def k_def w_def wakeKey_def by (simp add: queuePendingWakeReason_def Let_def)
  ultimately show thesis using that g0 by (simp add: k_def)
qed

lemma queue_frame [simp]:
  "hb_handler (queuePendingWakeReason loc now p st) = hb_handler st"
  "hb_generation (queuePendingWakeReason loc now p st) = hb_generation st"
  "hb_scheduled (queuePendingWakeReason loc now p st) = hb_scheduled st"
  "hb_running (queuePendingWakeReason loc now p st) = hb_running st"
  "hb_timer (queuePendingWakeReason loc now p st) = hb_timer st"
  "hb_runs (queuePendingWakeReason loc now p st) = hb_runs st"
  by (simp_all add: queuePendingWakeReason_def Let_def)

lemma queue_effect:
  assumes "pending_ok (hb_pending st)"
  shows "pending_ok (hb_pending (queuePendingWakeReason loc now p st))"
    and "pendingJobs k (hb_pending (queuePendingWakeReason loc now p st)) =
      pendingJobs k (hb_pending st) \<union> jobsFor k [pendingWakeOf now p]"
    and "hb_pending (queuePendingWakeReason loc now p st) \<noteq> []"
proof -
  define w where "w = pendingWakeOf now p"
  obtain g where g: "hb_pending (queuePendingWakeReason loc now p st) = AList.update (wakeKey w) g (hb_pending st)"
    "group_ok (wakeKey w) g" "groupJobs g = pendingJobs (wakeKey w) (hb_pending st) \<union> jobsOf w"
    by (rule queue_group [OF assms, where loc = loc and now = now and p = p, folded w_def])
  have "set (AList.update k' g ps) \<subseteq> insert (k', g) (set ps)" for k' and ps :: "(string \<times> wake_group) list"
    by (induction ps) auto
  from this [of "wakeKey w" "hb_pending st"] show "pending_ok (hb_pending (queuePendingWakeReason loc now p st))"
    using assms g(1,2) by (auto simp: pending_ok_def distinct_update)
  show "pendingJobs k (hb_pending (queuePendingWakeReason loc now p st)) =
      pendingJobs k (hb_pending st) \<union> jobsFor k [pendingWakeOf now p]"
    using g by (auto simp: pendingJobs_def update_conv w_def [symmetric])
  show "hb_pending (queuePendingWakeReason loc now p st) \<noteq> []"
    using g(1) by (cases "hb_pending st") auto
qed

subsubsection \<open>Scheduling\<close>

lemma schedule_frame [simp]:
  "hb_handler (schedule now d st) = hb_handler st" "hb_generation (schedule now d st) = hb_generation st"
  "hb_pending (schedule now d st) = hb_pending st" "hb_scheduled (schedule now d st) = hb_scheduled st"
  "hb_running (schedule now d st) = hb_running st" "hb_runs (schedule now d st) = hb_runs st"
  by (simp_all add: schedule_def Let_def split: option.split)

lemma schedule_timer [simp]: "\<exists>due delay. hb_timer (schedule now d st) = Some (due, delay)"
  by (cases "hb_timer st") (auto simp: schedule_def Let_def)

lemma schedulePending_frame [simp]:
  "hb_handler (schedulePendingWakes now d st) = hb_handler st"
  "hb_generation (schedulePendingWakes now d st) = hb_generation st"
  "hb_pending (schedulePendingWakes now d st) = hb_pending st"
  "hb_scheduled (schedulePendingWakes now d st) = hb_scheduled st"
  "hb_running (schedulePendingWakes now d st) = hb_running st"
  "hb_runs (schedulePendingWakes now d st) = hb_runs st"
  by (simp_all add: schedulePendingWakes_def Let_def)

lemma map_filter_id_eq_Nil: "List.map_filter id xs = [] \<longleftrightarrow> (\<forall>x \<in> set xs. x = None)"
  by (induction xs) (auto simp: List.map_filter_simps split: option.split)

text \<open>Whatever is pending, scheduling arms the timer.\<close>

lemma schedulePending_timer:
  assumes "pending_ok (hb_pending st)" "hb_pending st \<noteq> []"
  shows "hb_timer (schedulePendingWakes now d st) \<noteq> None"
proof -
  define times' where "times' = concat (map (groupTimes now \<circ> snd) (hb_pending st))"
  obtain k g where kg: "(k, g) \<in> set (hb_pending st)" using assms(2) by (cases "hb_pending st") auto
  then have "groupWakes g \<noteq> []" using assms(1) by (auto simp: pending_ok_def group_ok_def hasSlot_iff)
  then have "groupTimes now g \<noteq> []" by (simp add: groupTimes_def)
  moreover have "set (groupTimes now g) \<subseteq> set times'" using kg by (force simp: times'_def)
  ultimately have "times' \<noteq> []" by (metis set_empty subset_empty)
  then have "None \<in> set times' \<or> List.map_filter id times' \<noteq> []"
    unfolding map_filter_id_eq_Nil by (cases times') auto
  then show ?thesis by (auto simp: schedulePendingWakes_def times'_def [symmetric] Let_def)
qed

subsubsection \<open>Taking a batch\<close>

lemma slots_wakes: "set (groupWakes (slotsOf P g)) = {w \<in> set (groupWakes g). P w}"
  by (auto simp: set_groupWakes slotsOf_def keepSlot_def split: option.splits if_splits)

lemma slots_jobs: "groupJobs g = groupJobs (slotsOf P g) \<union> groupJobs (slotsOf (\<lambda>w. \<not> P w) g)"
  by (auto simp: groupJobs_def slots_wakes)

lemma no_slot_jobs: "\<not> hasSlot g \<Longrightarrow> groupJobs g = {}"
  by (simp add: hasSlot_iff groupJobs_def)

lemma groupBatch_jobs:
  assumes "\<forall>w \<in> set (groupWakes g). wakeKey w = k"
  shows "groupJobs g \<subseteq> jobsFor k (groupBatch loc g)"
proof -
  have s: "jobsFor k (js_toSorted c ws) = jobsFor k ws" for c ws by (simp add: jobsFor_def)
  show ?thesis
    using assms
    by (cases "wg_task g"; cases "wg_scheduled g"; cases "wg_event g")
      (auto simp: groupBatch_def groupJobs_def set_groupWakes s merge_jobs merge_key simp del: js_toSorted.simps)
qed

lemma takeGroups_keys: "fst ` set (snd (takeGroups now ps)) \<subseteq> fst ` set ps"
proof (induction ps)
  case (Cons p ps)
  obtain k g where "p = (k, g)" by fastforce
  moreover obtain ready rest where "takeGroups now ps = (ready, rest)" by fastforce
  ultimately show ?case using Cons.IH by (simp add: Let_def subset_insertI2)
qed simp

lemma takeGroups_effect:
  assumes "pending_ok ps" "takeGroups now ps = (ready, rest)"
  shows "pending_ok rest \<and> (\<forall>k. pendingJobs k ps \<subseteq> pendingJobs k rest \<union> jobsFor k (concat (map (groupBatch loc) ready)))"
  using assms
proof (induction ps arbitrary: ready rest)
  case Nil
  then show ?case by simp
next
  case (Cons p ps)
  obtain k g where p: "p = (k, g)" by fastforce
  obtain ready' rest' where r: "takeGroups now ps = (ready', rest')" by fastforce
  have ok: "pending_ok ps" "group_ok k g" "k \<notin> fst ` set ps"
    using Cons.prems(1) by (auto simp: pending_ok_def p)
  with Cons.IH [OF _ r] have IH: "pending_ok rest'"
    "\<And>k. pendingJobs k ps \<subseteq> pendingJobs k rest' \<union> jobsFor k (concat (map (groupBatch loc) ready'))" by auto
  have k: "k \<notin> fst ` set rest'" using takeGroups_keys [of now ps] ok(3) r by auto
  then have kn: "map_of rest' k = None" "map_of ps k = None" using ok(3) by (auto simp: map_of_eq_None_iff)
  define a where "a = slotsOf (isDue now) g"
  define b where "b = slotsOf (\<lambda>w. \<not> isDue now w) g"
  have keys: "\<forall>w \<in> set (groupWakes a). wakeKey w = k" "\<forall>w \<in> set (groupWakes b). wakeKey w = k"
    using ok(2) by (auto simp: group_ok_def a_def b_def slots_wakes)
  have jobs: "groupJobs g = groupJobs a \<union> groupJobs b" unfolding a_def b_def by (rule slots_jobs)
  note bj = groupBatch_jobs [OF keys(1), of loc]
  show ?case
  proof (cases "isBlocked now g")
    case True
    then have e: "ready = ready'" "rest = (k, g) # rest'" using Cons.prems(2) by (auto simp: p r)
    with IH ok k show ?thesis by (auto simp: pending_ok_def pendingJobs_def p split: option.splits)
  next
    case False
    then have e: "ready = (if hasSlot a then a # ready' else ready')"
        "rest = (if hasSlot b then (k, b) # rest' else rest')"
      using Cons.prems(2) by (auto simp: p r a_def [symmetric] b_def [symmetric] Let_def)
    have "pending_ok rest" using IH k keys by (auto simp: e pending_ok_def group_ok_def)
    moreover have "pendingJobs k' (p # ps) \<subseteq> pendingJobs k' rest \<union> jobsFor k' (concat (map (groupBatch loc) ready))" for k'
    proof (cases "k' = k")
      case True
      have "groupJobs a \<subseteq> jobsFor k (concat (map (groupBatch loc) ready))"
        using bj no_slot_jobs [of a] by (auto simp: e)
      moreover have "groupJobs b \<subseteq> pendingJobs k rest"
        using no_slot_jobs [of b] by (auto simp: e pendingJobs_def)
      ultimately show ?thesis using True by (auto simp: p pendingJobs_def [of k "(k, g) # ps"] jobs)
    next
      case False
      have "jobsFor k' (concat (map (groupBatch loc) ready')) \<subseteq> jobsFor k' (concat (map (groupBatch loc) ready))"
        by (auto simp: e)
      moreover have "pendingJobs k' rest = pendingJobs k' rest'" "pendingJobs k' (p # ps) = pendingJobs k' ps"
        using False by (auto simp: e p pendingJobs_def)
      ultimately show ?thesis using IH(2) [of k'] by auto
    qed
    ultimately show ?thesis by blast
  qed
qed

subsection \<open>Invariant\<close>

text \<open>While a handler is registered, the module is running exactly when a batch of the current generation is
  with the handler, and pending wakes have the timer or that batch to bring them up.\<close>

definition runs_ok :: "heartbeat_state \<Rightarrow> bool" where
  "runs_ok st \<longleftrightarrow> (\<forall>run \<in> set (hb_runs st). br_generation run \<le> hb_generation st \<and> br_batch run \<noteq> [])
     \<and> length (filter (\<lambda>run. br_generation run = hb_generation st) (hb_runs st)) \<le> 1
     \<and> (hb_handler st = None \<longrightarrow> (\<forall>run \<in> set (hb_runs st). br_generation run < hb_generation st))
     \<and> (hb_handler st \<noteq> None \<longrightarrow>
          hb_running st = (\<exists>run \<in> set (hb_runs st). br_generation run = hb_generation st))"

definition wakes_armed :: "heartbeat_state \<Rightarrow> bool" where
  "wakes_armed st \<longleftrightarrow> (hb_handler st \<noteq> None \<longrightarrow> hb_pending st \<noteq> [] \<longrightarrow> hb_timer st \<noteq> None \<or> hb_running st)"

definition heartbeat_inv :: "heartbeat_state \<Rightarrow> bool" where
  "heartbeat_inv st \<longleftrightarrow> pending_ok (hb_pending st) \<and> runs_ok st \<and> wakes_armed st"

text \<open>What a run of the loop body leaves: the current generation has no batch in flight, the module is still
  marked running, and whatever was queued keeps the work.\<close>

lemma requeued_jobs:
  assumes "wp_agentId p = pw_agentId w" "wp_sessionKey p = pw_sessionKey w" "wp_tasks p = pw_tasks w"
  shows "jobsFor k [pendingWakeOf now p] = jobsFor k [w]"
proof -
  have "wakeKey (pendingWakeOf now p) = wakeKey w" "jobsOf (pendingWakeOf now p) = jobsOf w"
    unfolding pendingWakeOf_key pendingWakeOf_jobs using assms by (simp_all add: wakeKey_def jobsOf_def)
  then show ?thesis by simp
qed

lemma retry_effect:
  assumes "pending_ok (hb_pending st)"
  shows "pending_ok (hb_pending (retryPendingWake loc now w st))"
    and "pendingJobs k (hb_pending (retryPendingWake loc now w st)) = pendingJobs k (hb_pending st) \<union> jobsFor k [w]"
  unfolding retryPendingWake_def schedule_frame
  unfolding queue_effect(2) [OF assms] by (simp_all add: queue_effect(1) [OF assms] requeued_jobs del: jobsFor_simps)

lemma retry_frame [simp]:
  "hb_handler (retryPendingWake loc now w st) = hb_handler st"
  "hb_generation (retryPendingWake loc now w st) = hb_generation st"
  "hb_running (retryPendingWake loc now w st) = hb_running st"
  "hb_runs (retryPendingWake loc now w st) = hb_runs st"
  by (simp_all add: retryPendingWake_def)

lemma settle_frame [simp]:
  "hb_handler (settleWake loc now w r st) = hb_handler st"
  "hb_generation (settleWake loc now w r st) = hb_generation st"
  "hb_running (settleWake loc now w r st) = hb_running st"
  "hb_runs (settleWake loc now w r st) = hb_runs st"
  by (cases r; simp add: settleWake_def Let_def)+

lemma settle_wake_effect:
  assumes "pending_ok (hb_pending st)"
  shows "pending_ok (hb_pending (settleWake loc now w r st))"
    and "pendingJobs k (hb_pending (settleWake loc now w r st)) =
      pendingJobs k (hb_pending st) \<union> (if retainsWake w r then jobsFor k [w] else {})"
proof -
  have "pending_ok (hb_pending (settleWake loc now w r st)) \<and>
      pendingJobs k (hb_pending (settleWake loc now w r st)) =
      pendingJobs k (hb_pending st) \<union> (if retainsWake w r then jobsFor k [w] else {})"
    by (cases r) (auto simp: settleWake_def retainsWake_def retry_effect [OF assms] queue_effect [OF assms]
        requeued_jobs [where w = w] assms Let_def simp del: jobsFor_simps)
  then show "pending_ok (hb_pending (settleWake loc now w r st))"
    "pendingJobs k (hb_pending (settleWake loc now w r st)) =
      pendingJobs k (hb_pending st) \<union> (if retainsWake w r then jobsFor k [w] else {})" by blast+
qed

lemma handOff_queue:
  assumes "pending_ok (hb_pending st)"
  shows "pending_ok (hb_pending (foldl (\<lambda>s w. queuePendingWakeReason loc now (handOffParams w) s) st ws))
    \<and> pendingJobs k (hb_pending (foldl (\<lambda>s w. queuePendingWakeReason loc now (handOffParams w) s) st ws)) =
      pendingJobs k (hb_pending st) \<union> jobsFor k ws
    \<and> hb_handler (foldl (\<lambda>s w. queuePendingWakeReason loc now (handOffParams w) s) st ws) = hb_handler st
    \<and> hb_generation (foldl (\<lambda>s w. queuePendingWakeReason loc now (handOffParams w) s) st ws) = hb_generation st
    \<and> hb_running (foldl (\<lambda>s w. queuePendingWakeReason loc now (handOffParams w) s) st ws) = hb_running st
    \<and> hb_timer (foldl (\<lambda>s w. queuePendingWakeReason loc now (handOffParams w) s) st ws) = hb_timer st
    \<and> hb_runs (foldl (\<lambda>s w. queuePendingWakeReason loc now (handOffParams w) s) st ws) = hb_runs st
    \<and> (ws \<noteq> [] \<longrightarrow> hb_pending (foldl (\<lambda>s w. queuePendingWakeReason loc now (handOffParams w) s) st ws) \<noteq> [])"
  using assms
proof (induction ws rule: rev_induct)
  case (snoc w ws)
  then show ?case
    using queue_effect [where st = "foldl (\<lambda>s w. queuePendingWakeReason loc now (handOffParams w) s) st ws"
        and loc = loc and now = now and p = "handOffParams w"]
    by (simp add: requeued_jobs [where w = w] handOffParams_def del: jobsFor_simps)
      (simp add: Un_assoc)
qed simp

lemma handOff_effect:
  assumes "pending_ok (hb_pending st)"
  shows "pending_ok (hb_pending (handOffPendingWakeBatch loc now ws st))"
    and "pendingJobs k (hb_pending (handOffPendingWakeBatch loc now ws st)) = pendingJobs k (hb_pending st) \<union> jobsFor k ws"
    and "hb_handler (handOffPendingWakeBatch loc now ws st) = hb_handler st"
    and "hb_generation (handOffPendingWakeBatch loc now ws st) = hb_generation st"
    and "hb_running (handOffPendingWakeBatch loc now ws st) = hb_running st"
    and "hb_runs (handOffPendingWakeBatch loc now ws st) = hb_runs st"
    and "wakes_armed st \<Longrightarrow> wakes_armed (handOffPendingWakeBatch loc now ws st)"
proof -
  define s where "s = foldl (\<lambda>s w. queuePendingWakeReason loc now (handOffParams w) s) st ws"
  note q = handOff_queue [OF assms, of loc now ws k, folded s_def]
  have e: "handOffPendingWakeBatch loc now ws st =
      (if hb_handler s \<noteq> None \<and> ws \<noteq> [] then schedulePendingWakes now DEFAULT_COALESCE_MS s else s)"
    by (simp add: handOffPendingWakeBatch_def s_def)
  show "wakes_armed (handOffPendingWakeBatch loc now ws st)" if "wakes_armed st"
  proof (cases "ws = []")
    case True
    then show ?thesis using that by (simp add: handOffPendingWakeBatch_def)
  next
    case False
    then show ?thesis
      using q schedulePending_timer [of s now DEFAULT_COALESCE_MS] by (auto simp: e wakes_armed_def)
  qed
qed (use handOff_queue [OF assms, of loc now ws k] in \<open>simp_all add: handOffPendingWakeBatch_def Let_def\<close>)

lemma continue_pending [simp]: "hb_pending (continueBatch now run st) = hb_pending st"
  by (simp add: continueBatch_def Let_def)

lemma continue_effect:
  assumes "pending_ok (hb_pending st)" "\<forall>run \<in> set (hb_runs st). br_generation run < hb_generation st \<and> br_batch run \<noteq> []"
    "br_generation run = hb_generation st" "hb_running st" "hb_handler st \<noteq> None"
  shows "heartbeat_inv (continueBatch now run st)"
    and "hb_pending (continueBatch now run st) = hb_pending st"
    and "set (hb_runs (continueBatch now run st)) = set (hb_runs st) \<union> {r. r = run \<and> br_batch run \<noteq> []}"
proof -
  have none: "filter (\<lambda>r. br_generation r = hb_generation st) (hb_runs st) = []"
    using assms(2) by (auto simp: filter_empty_conv)
  have armed: "hb_timer (schedulePendingWakes now d (st\<lparr>hb_running := False\<rparr>)) \<noteq> None" if "hb_pending st \<noteq> []" for d
    using schedulePending_timer [of "st\<lparr>hb_running := False\<rparr>" now d] that assms(1) by simp
  show "heartbeat_inv (continueBatch now run st)"
    using assms none armed
    by (auto simp: heartbeat_inv_def runs_ok_def wakes_armed_def continueBatch_def Let_def)
qed (auto simp: continueBatch_def Let_def)

subsubsection \<open>Preservation\<close>

lemma carried_runs: "jobsFor k (concat (map br_batch rs)) = (\<Union>r \<in> set rs. jobsFor k (br_batch r))"
  by (induction rs) simp_all

lemma request_step:
  assumes "heartbeat_inv st"
  shows "heartbeat_inv (requestHeartbeat loc now opts c st)"
    and "carriedJobs k st \<subseteq> carriedJobs k (requestHeartbeat loc now opts c st)"
  using assms
  by (auto simp: requestHeartbeat_def heartbeat_inv_def runs_ok_def wakes_armed_def queue_effect carriedJobs_def
      simp del: jobsFor_simps)

lemma clear_pending:
  assumes "pending_ok (hb_pending st)"
  shows "pending_ok (hb_pending (clearPendingWakeRetryState st))"
    and "pendingJobs k (hb_pending (clearPendingWakeRetryState st)) = pendingJobs k (hb_pending st)"
    and "hb_pending (clearPendingWakeRetryState st) = [] \<longleftrightarrow> hb_pending st = []"
proof -
  define clr :: "wake_group \<Rightarrow> wake_group" where "clr = (\<lambda>g. \<lparr>wg_task = clearSlot (wg_task g), wg_scheduled = clearSlot (wg_scheduled g),
       wg_event = clearSlot (wg_event g), wg_blockedUntilMs = None\<rparr>)"
  have c: "hb_pending (clearPendingWakeRetryState st) = map (\<lambda>(k, g). (k, clr g)) (hb_pending st)"
    by (simp add: clearPendingWakeRetryState_def clr_def)
  have w: "wakeKey (w\<lparr>pw_notBeforeMs := a, pw_guardRetry := b\<rparr>) = wakeKey w"
    "jobsOf (w\<lparr>pw_notBeforeMs := a, pw_guardRetry := b\<rparr>) = jobsOf w" for w a b
    by (simp_all add: wakeKey_def jobsOf_def)
  have s: "set_option (clearSlot x) = (\<lambda>w. w\<lparr>pw_notBeforeMs := None, pw_guardRetry := False\<rparr>) ` set_option x" for x
    by (cases x) (simp_all add: clearSlot_def)
  have g: "group_ok k g \<Longrightarrow> group_ok k (clr g)" "groupJobs (clr g) = groupJobs g" for k g
    by (auto simp: group_ok_def hasSlot_def groupJobs_def set_groupWakes s w clr_def clearSlot_def)
  show "pending_ok (hb_pending (clearPendingWakeRetryState st))"
    using assms g(1) by (auto simp: c pending_ok_def comp_def case_prod_unfold)
  show "pendingJobs k (hb_pending (clearPendingWakeRetryState st)) = pendingJobs k (hb_pending st)"
    by (simp add: c pendingJobs_def map_of_map g(2) split: option.split)
  show "hb_pending (clearPendingWakeRetryState st) = [] \<longleftrightarrow> hb_pending st = []" by (simp add: c)
qed

lemma clear_frame [simp]:
  "hb_handler (clearPendingWakeRetryState st) = hb_handler st"
  "hb_generation (clearPendingWakeRetryState st) = hb_generation st"
  "hb_running (clearPendingWakeRetryState st) = hb_running st" "hb_runs (clearPendingWakeRetryState st) = hb_runs st"
  by (simp_all add: clearPendingWakeRetryState_def)

lemma next_generation_runs:
  assumes "runs_ok st" "hb_generation st' = Suc (hb_generation st)" "hb_runs st' = hb_runs st"
    "hb_handler st' \<noteq> None \<Longrightarrow> \<not> hb_running st'"
  shows "runs_ok st'"
proof -
  have "\<forall>run \<in> set (hb_runs st). br_generation run < Suc (hb_generation st)"
    using assms(1) by (auto simp: runs_ok_def less_Suc_eq_le)
  moreover from this have "filter (\<lambda>run. br_generation run = Suc (hb_generation st)) (hb_runs st) = []"
    by (auto simp: filter_empty_conv)
  ultimately show ?thesis using assms by (auto simp: runs_ok_def)
qed

lemma register_step:
  assumes "heartbeat_inv st"
  shows "heartbeat_inv (setHeartbeatWakeHandler now h st)"
    and "carriedJobs k (setHeartbeatWakeHandler now h st) = carriedJobs k st"
proof -
  define st1 where "st1 = st\<lparr>hb_generation := Suc (hb_generation st), hb_handler := h\<rparr>"
  define st2 where "st2 = (if h = None then st1 else clearPendingWakeRetryState
      (st1\<lparr>hb_timer := None, hb_running := False, hb_scheduled := False\<rparr>))"
  have ok: "pending_ok (hb_pending st1)" using assms by (simp add: st1_def heartbeat_inv_def)
  have p: "pending_ok (hb_pending st2)" "pendingJobs k (hb_pending st2) = pendingJobs k (hb_pending st)"
    using clear_pending [of "st1\<lparr>hb_timer := None, hb_running := False, hb_scheduled := False\<rparr>"] ok
    by (auto simp: st2_def) (auto simp: st1_def)
  have f: "hb_generation st2 = Suc (hb_generation st)" "hb_runs st2 = hb_runs st" "hb_handler st2 = h"
    "h \<noteq> None \<Longrightarrow> \<not> hb_running st2"
    by (auto simp: st2_def st1_def)
  have e: "setHeartbeatWakeHandler now h st =
      (if hb_handler st2 \<noteq> None \<and> hb_pending st2 \<noteq> [] then schedulePendingWakes now DEFAULT_COALESCE_MS st2 else st2)"
    by (simp add: setHeartbeatWakeHandler_def st1_def [symmetric] st2_def [symmetric] Let_def)
  define st3 where "st3 = setHeartbeatWakeHandler now h st"
  have g: "hb_generation st3 = Suc (hb_generation st)" "hb_runs st3 = hb_runs st" "hb_handler st3 = h"
    "hb_pending st3 = hb_pending st2" "hb_running st3 = hb_running st2"
    by (simp_all add: st3_def e f)
  have r: "runs_ok st" using assms by (simp add: heartbeat_inv_def)
  have "runs_ok st3" by (rule next_generation_runs [OF r g(1,2)]) (metis f(4) g(3,5))
  moreover have "wakes_armed st3"
    using schedulePending_timer [OF p(1), of now DEFAULT_COALESCE_MS] by (auto simp: wakes_armed_def st3_def e)
  ultimately show "heartbeat_inv (setHeartbeatWakeHandler now h st)"
    using p(1) g by (simp add: heartbeat_inv_def st3_def [symmetric])
  show "carriedJobs k (setHeartbeatWakeHandler now h st) = carriedJobs k st"
    using p(2) g by (simp add: carriedJobs_def st3_def [symmetric])
qed

lemma dispose_step:
  assumes "heartbeat_inv st"
  shows "heartbeat_inv (disposeHandler g h st)"
    and "carriedJobs k (disposeHandler g h st) = carriedJobs k st"
proof -
  show "carriedJobs k (disposeHandler g h st) = carriedJobs k st"
    by (simp add: disposeHandler_def carriedJobs_def)
  have "runs_ok st" using assms by (simp add: heartbeat_inv_def)
  then have "runs_ok (st\<lparr>hb_generation := Suc (hb_generation st), hb_handler := None\<rparr>)"
    by (rule next_generation_runs) simp_all
  then show "heartbeat_inv (disposeHandler g h st)"
    using assms by (auto simp: disposeHandler_def heartbeat_inv_def wakes_armed_def)
qed

lemma timer_step:
  assumes "heartbeat_inv st"
  shows "heartbeat_inv (timerFires loc now st)"
    and "carriedJobs k st \<subseteq> carriedJobs k (timerFires loc now st)"
proof -
  have "heartbeat_inv (timerFires loc now st) \<and> carriedJobs k st \<subseteq> carriedJobs k (timerFires loc now st)"
  proof (cases "hb_timer st")
    case None
    with assms show ?thesis by (simp add: timerFires_def)
  next
    case (Some t)
    obtain due delay where t: "t = (due, delay)" by fastforce
    define st1 where "st1 = st\<lparr>hb_timer := None, hb_scheduled := False\<rparr>"
    show ?thesis
    proof (cases "hb_handler st = None \<or> hb_running st")
      case True
      with assms Some t show ?thesis
        by (auto simp: timerFires_def heartbeat_inv_def runs_ok_def wakes_armed_def carriedJobs_def Let_def)
    next
      case False
      obtain ready rest where g: "takeGroups now (hb_pending st) = (ready, rest)" by fastforce
      define batch where "batch = concat (map (groupBatch loc) ready)"
      define run where "run = \<lparr>br_generation = hb_generation st, br_delay = delay, br_batch = batch\<rparr>"
      define st2 where "st2 = st1\<lparr>hb_pending := rest, hb_running := True\<rparr>"
      have e: "timerFires loc now st = continueBatch now run st2"
        using Some t False g
        by (auto simp: timerFires_def takePendingWakeBatch_def st1_def st2_def run_def batch_def Let_def)
      have ok: "pending_ok (hb_pending st)" using assms by (simp add: heartbeat_inv_def)
      note tk = takeGroups_effect [OF ok g, of loc, folded batch_def]
      have old: "\<forall>r \<in> set (hb_runs st2). br_generation r < hb_generation st2 \<and> br_batch r \<noteq> []"
        using assms False by (fastforce simp: heartbeat_inv_def runs_ok_def st2_def st1_def order_less_le)
      have c: "pending_ok (hb_pending st2)" "br_generation run = hb_generation st2" "hb_running st2" "hb_handler st2 \<noteq> None"
        using tk False by (simp_all add: st2_def st1_def run_def)
      note ce = continue_effect [OF c(1) old c(2-4), of now]
      have "jobsFor k batch \<subseteq> jobsFor k (concat (map br_batch (hb_runs (continueBatch now run st2))))"
        unfolding carried_runs ce(3) by (cases "batch = []") (auto simp: run_def)
      moreover have "jobsFor k (concat (map br_batch (hb_runs st))) \<subseteq>
          jobsFor k (concat (map br_batch (hb_runs (continueBatch now run st2))))"
        unfolding carried_runs ce(3) by (auto simp: st2_def st1_def)
      ultimately show ?thesis
        using ce(1) tk ce(2) unfolding e carriedJobs_def by (auto simp: st2_def)
    qed
  qed
  then show "heartbeat_inv (timerFires loc now st)" "carriedJobs k st \<subseteq> carriedJobs k (timerFires loc now st)" by blast+
qed

lemma other_runs_older:
  assumes "runs_ok st" "run \<in> set (hb_runs st)" "br_generation run = hb_generation st"
  shows "\<forall>r \<in> set (remove1 run (hb_runs st)). br_generation r < hb_generation st \<and> br_batch r \<noteq> []"
proof -
  let ?P = "\<lambda>r. br_generation r = hb_generation st"
  have "run \<in> set (filter ?P (hb_runs st))" using assms by simp
  moreover have "length (filter ?P (hb_runs st)) \<le> 1" using assms(1) by (simp add: runs_ok_def)
  ultimately have "remove1 run (filter ?P (hb_runs st)) = []"
    by (cases "filter ?P (hb_runs st)") auto
  then have "filter ?P (remove1 run (hb_runs st)) = []" by (simp add: filter_remove1)
  moreover have "\<forall>r \<in> set (remove1 run (hb_runs st)). br_generation r \<le> hb_generation st \<and> br_batch r \<noteq> []"
    using assms(1) set_remove1_subset [of run "hb_runs st"] by (auto simp: runs_ok_def)
  ultimately show ?thesis by (auto simp: filter_empty_conv order_less_le)
qed

lemma older_run_removed:
  assumes "runs_ok st" "br_generation run \<noteq> hb_generation st"
  shows "runs_ok (st\<lparr>hb_runs := remove1 run (hb_runs st)\<rparr>)"
proof -
  have "filter (\<lambda>r. br_generation r = hb_generation st) (remove1 run (hb_runs st))
      = filter (\<lambda>r. br_generation r = hb_generation st) (hb_runs st)"
    using assms(2) by (simp add: filter_remove1 remove1_idem)
  moreover have "(\<exists>r \<in> set (remove1 run (hb_runs st)). br_generation r = hb_generation st)
      = (\<exists>r \<in> set (hb_runs st). br_generation r = hb_generation st)"
    using assms(2) by (metis in_set_remove1 notin_set_remove1)
  ultimately show ?thesis
    using assms(1) set_remove1_subset [of run "hb_runs st"] by (auto simp: runs_ok_def)
qed

lemma armed_runs [simp]: "wakes_armed (st\<lparr>hb_runs := rs\<rparr>) = wakes_armed st"
  by (simp add: wakes_armed_def)

lemma continue_answer:
  assumes "heartbeat_inv st" "run \<in> set (hb_runs st)" "br_generation run = hb_generation st" "br_batch run = wake # rest"
    and "pending_ok (hb_pending st2)" "hb_handler st2 = hb_handler st" "hb_generation st2 = hb_generation st"
    "hb_running st2 = hb_running st" "hb_runs st2 = remove1 run (hb_runs st)"
    and "pendingJobs k (hb_pending st) \<union> X \<subseteq> pendingJobs k (hb_pending st2)"
  shows "heartbeat_inv (continueBatch now (run\<lparr>br_batch := rest\<rparr>) st2)"
    and "carriedJobs k st \<union> X \<subseteq> carriedJobs k (continueBatch now (run\<lparr>br_batch := rest\<rparr>) st2) \<union> jobsFor k [wake]"
proof -
  let ?st3 = "continueBatch now (run\<lparr>br_batch := rest\<rparr>) st2"
  have r: "runs_ok st" using assms(1) by (simp add: heartbeat_inv_def)
  have "hb_handler st \<noteq> None \<and> hb_running st"
    using r assms(2,3) by (auto simp: runs_ok_def)
  then have h: "hb_running st2" "hb_handler st2 \<noteq> None" using assms by simp_all
  have o: "\<forall>r \<in> set (hb_runs st2). br_generation r < hb_generation st2 \<and> br_batch r \<noteq> []"
    using other_runs_older [OF r assms(2,3)] assms(7,9) by simp
  have "br_generation (run\<lparr>br_batch := rest\<rparr>) = hb_generation st2" using assms by simp
  note ce = continue_effect [OF assms(5) o this h, of now]
  show "heartbeat_inv ?st3" by (rule ce(1))
  have j: "jobsFor k (br_batch run) = jobsFor k [wake] \<union> jobsFor k rest" by (simp add: assms(4))
  have "jobsFor k (br_batch r) \<subseteq> (\<Union>r \<in> set (hb_runs ?st3). jobsFor k (br_batch r)) \<union> jobsFor k [wake]"
    if "r \<in> set (hb_runs st)" for r
  proof (cases "r = run")
    case True
    have "jobsFor k rest \<subseteq> (\<Union>r \<in> set (hb_runs ?st3). jobsFor k (br_batch r))"
      unfolding ce(3) by (cases "rest = []") auto
    then show ?thesis using True j by auto
  next
    case False
    then have "r \<in> set (hb_runs st2)" using that assms(9) by simp
    then show ?thesis unfolding ce(3) by auto
  qed
  then have "(\<Union>r \<in> set (hb_runs st). jobsFor k (br_batch r)) \<subseteq>
      (\<Union>r \<in> set (hb_runs ?st3). jobsFor k (br_batch r)) \<union> jobsFor k [wake]" by (intro UN_least)
  then show "carriedJobs k st \<union> X \<subseteq> carriedJobs k ?st3 \<union> jobsFor k [wake]"
    unfolding carriedJobs_def carried_runs ce(2) using assms(10) by blast
qed

lemma answer_step:
  assumes "heartbeat_inv st" "run \<in> set (hb_runs st)" "br_batch run = wake # rest"
  shows "heartbeat_inv (handlerAnswers loc now run res st)"
    and "carriedJobs k st \<subseteq> carriedJobs k (handlerAnswers loc now run res st)
      \<union> (case res of Some r \<Rightarrow> if retainsWake wake r then {} else jobsFor k [wake] | None \<Rightarrow> {})"
proof -
  define st1 where "st1 = st\<lparr>hb_runs := remove1 run (hb_runs st)\<rparr>"
  have ok: "pending_ok (hb_pending st1)" "pendingJobs k (hb_pending st1) = pendingJobs k (hb_pending st)"
    using assms(1) by (simp_all add: heartbeat_inv_def st1_def)
  define kept where "kept = (case res of Some r \<Rightarrow> retainsWake wake r | None \<Rightarrow> True)"
  have "heartbeat_inv (handlerAnswers loc now run res st) \<and>
    carriedJobs k st \<subseteq> carriedJobs k (handlerAnswers loc now run res st) \<union> (if kept then {} else jobsFor k [wake])"
  proof (cases "br_generation run = hb_generation st")
    case True
    define st2 where "st2 = (case res of Some r \<Rightarrow> settleWake loc now wake r st1 | None \<Rightarrow> retryPendingWake loc now wake st1)"
    have e: "handlerAnswers loc now run res st = continueBatch now (run\<lparr>br_batch := rest\<rparr>) st2"
      using True assms(3) by (simp add: handlerAnswers_def st1_def st2_def Let_def split: option.split)
    have p: "pending_ok (hb_pending st2)"
      "pendingJobs k (hb_pending st2) = pendingJobs k (hb_pending st) \<union> (if kept then jobsFor k [wake] else {})"
      using settle_wake_effect [OF ok(1)] retry_effect [OF ok(1)] ok(2)
      by (simp_all add: st2_def kept_def del: jobsFor_simps split: option.split)
    have f: "hb_handler st2 = hb_handler st" "hb_generation st2 = hb_generation st" "hb_running st2 = hb_running st"
      "hb_runs st2 = remove1 run (hb_runs st)"
      by (simp_all add: st2_def st1_def split: option.split)
    have "pendingJobs k (hb_pending st) \<union> (if kept then jobsFor k [wake] else {}) \<subseteq> pendingJobs k (hb_pending st2)"
      by (simp only: p(2) subset_refl)
    note ca = continue_answer [OF assms(1,2) True assms(3) p(1) f this, of now]
    have "jobsFor k [wake] \<subseteq> carriedJobs k (continueBatch now (run\<lparr>br_batch := rest\<rparr>) st2)" if kept
      unfolding carriedJobs_def continue_pending p(2) using that by auto
    then show ?thesis unfolding e using ca by (auto simp del: jobsFor_simps)
  next
    case False
    define ws where "ws = (if kept then wake # rest else rest)"
    have e: "handlerAnswers loc now run res st = handOffPendingWakeBatch loc now ws st1"
      using False assms(3)
      by (simp add: handlerAnswers_def st1_def ws_def kept_def Let_def split: option.split)
    note ho = handOff_effect [OF ok(1), where loc = loc and now = now and ws = ws]
    have r1: "runs_ok st1" using older_run_removed assms(1) False by (simp add: st1_def heartbeat_inv_def)
    have "wakes_armed st1" using assms(1) by (simp add: st1_def heartbeat_inv_def)
    then have "heartbeat_inv (handOffPendingWakeBatch loc now ws st1)"
      using ho r1 by (simp add: heartbeat_inv_def runs_ok_def)
    moreover have "carriedJobs k st \<subseteq> carriedJobs k (handOffPendingWakeBatch loc now ws st1)
        \<union> (if kept then {} else jobsFor k [wake])"
    proof -
      have "jobsFor k (br_batch run) \<subseteq> jobsFor k ws \<union> (if kept then {} else jobsFor k [wake])"
        by (auto simp: assms(3) ws_def)
      moreover have "(\<Union>r \<in> set (hb_runs st). jobsFor k (br_batch r)) \<subseteq>
          jobsFor k (br_batch run) \<union> (\<Union>r \<in> set (hb_runs st1). jobsFor k (br_batch r))"
      proof (rule UN_least)
        fix r assume "r \<in> set (hb_runs st)"
        then show "jobsFor k (br_batch r) \<subseteq> jobsFor k (br_batch run) \<union> (\<Union>r \<in> set (hb_runs st1). jobsFor k (br_batch r))"
          by (cases "r = run") (auto simp: st1_def)
      qed
      ultimately show ?thesis
        unfolding carriedJobs_def carried_runs ho(2) ho(6) ok(2) by blast
    qed
    ultimately show ?thesis unfolding e by blast
  qed
  then show "heartbeat_inv (handlerAnswers loc now run res st)"
    "carriedJobs k st \<subseteq> carriedJobs k (handlerAnswers loc now run res st)
      \<union> (case res of Some r \<Rightarrow> if retainsWake wake r then {} else jobsFor k [wake] | None \<Rightarrow> {})"
    by (auto simp: kept_def simp del: jobsFor_simps split: option.splits if_splits)
qed

lemma heartbeat_inv_step: "heartbeat_inv st \<Longrightarrow> anyHeartbeatStep loc st st' \<Longrightarrow> heartbeat_inv st'"
  unfolding anyHeartbeatStep_def
  by (auto elim!: heartbeat_step.cases intro: request_step register_step dispose_step timer_step answer_step)

interpretation wakes: inductive_invariant initial_heartbeat "anyHeartbeatStep loc" heartbeat_inv for loc
proof
  show "heartbeat_inv st" if "initial_heartbeat st" for st
    using that by (simp add: initial_heartbeat_def initialHeartbeat_def heartbeat_inv_def pending_ok_def runs_ok_def wakes_armed_def)
qed (rule heartbeat_inv_step)

subsection \<open>Properties\<close>

text \<open>
  C14: no step loses the work of a scheduled task. A job that some wake for a target carries, pending or with a
  handler, is still carried after the step, except when the step is the answer of a handler to a wake for that
  target that carries the job, and the answer is neither a busy skip nor a guard deferral. Rejections, busy
  skips, deferrals, replaced handlers and coalescing keep every job.
\<close>

theorem scheduled_work_is_not_lost:
  assumes "reachable initial_heartbeat (anyHeartbeatStep loc) st" "heartbeat_step loc l st st'"
    "job \<in> carriedJobs k st"
  shows "job \<in> carriedJobs k st'
    \<or> (\<exists>wake r. l = Answered wake (Some r) \<and> \<not> retainsWake wake r \<and> wakeKey wake = k \<and> job \<in> jobsOf wake)"
proof -
  have inv: "heartbeat_inv st" by (rule wakes.reachable_inv [OF assms(1)])
  from assms(2) show ?thesis
  proof cases
    case (answer run wake rest res now)
    then show ?thesis
      using answer_step(2) [OF inv answer(3,4), of k loc now res] assms(3)
      by (auto split: option.splits if_splits)
  qed (use assms(3) request_step(2) [OF inv] register_step(2) [OF inv] dispose_step(2) [OF inv] timer_step(2) [OF inv]
      in \<open>blast+\<close>)
qed

text \<open>
  C26: no wake is stranded. While a handler is registered, pending wakes always have an armed timer or a batch of
  the current registration in the handler; the module counts as running exactly while such a batch exists, and
  there is at most one.
\<close>

theorem pending_wakes_are_scheduled:
  assumes "reachable initial_heartbeat (anyHeartbeatStep loc) st" "hb_handler st \<noteq> None"
  shows "(hb_pending st = [] \<or> hb_timer st \<noteq> None \<or> hb_running st)
    \<and> hb_running st = (length (filter (\<lambda>run. br_generation run = hb_generation st) (hb_runs st)) = 1)"
proof -
  have inv: "runs_ok st" "wakes_armed st" using wakes.reachable_inv [OF assms(1)] by (simp_all add: heartbeat_inv_def)
  let ?rs = "filter (\<lambda>run. br_generation run = hb_generation st) (hb_runs st)"
  have "hb_running st = (?rs \<noteq> [])" "length ?rs \<le> 1"
    using inv(1) assms(2) by (auto simp: runs_ok_def filter_empty_conv)
  moreover have "?rs \<noteq> [] \<longleftrightarrow> length ?rs = 1" if "length ?rs \<le> 1" using that by (cases ?rs) auto
  ultimately show ?thesis using inv(2) assms(2) by (auto simp: wakes_armed_def)
qed

definition demo_loc :: "string \<Rightarrow> string \<Rightarrow> int" where
  "demo_loc a b = int (length a) - int (length b)"

definition demo_request :: wake_params where
  "demo_request = \<lparr>wp_source = SrcCron, wp_intent = IntentTask, wp_reason = None, wp_requestedAt = None,
     wp_agentId = Some ''main'', wp_sessionKey = None, wp_heartbeat = None, wp_everyMs = None, wp_anchorMs = None,
     wp_tasks = Some [\<lparr>tk_jobId = ''j1'', tk_name = ''n'', tk_prompt = ''p''\<rparr>], wp_notBeforeMs = None,
     wp_blockTargetUntilMs = None, wp_guardRetry = False\<rparr>"

definition demo_registered :: heartbeat_state where
  "demo_registered = setHeartbeatWakeHandler 0 (Some 7) initialHeartbeat"

definition demo_requested :: heartbeat_state where
  "demo_requested = requestHeartbeat demo_loc 0 demo_request None demo_registered"

definition demo_dispatched :: heartbeat_state where
  "demo_dispatched = timerFires demo_loc 250 demo_requested"

lemma reachable_demo_dispatched: "reachable initial_heartbeat (anyHeartbeatStep demo_loc) demo_dispatched"
proof -
  have "reachable initial_heartbeat (anyHeartbeatStep demo_loc) initialHeartbeat"
    by (rule reachable.start) (simp add: initial_heartbeat_def)
  then have "reachable initial_heartbeat (anyHeartbeatStep demo_loc) demo_registered"
    unfolding demo_registered_def by (rule reachable.step) (auto simp: anyHeartbeatStep_def intro: heartbeat_step.register)
  then have "reachable initial_heartbeat (anyHeartbeatStep demo_loc) demo_requested"
    unfolding demo_requested_def by (rule reachable.step) (auto simp: anyHeartbeatStep_def intro: heartbeat_step.request)
  moreover have "hb_timer demo_requested = Some (250, 250)" by code_simp
  ultimately show ?thesis
    unfolding demo_dispatched_def
    by (elim reachable.step) (auto simp: anyHeartbeatStep_def intro: heartbeat_step.timer)
qed

definition demo_run :: batch_run where
  "demo_run = hd (hb_runs demo_dispatched)"

lemma demo_run_batch:
  "demo_run \<in> set (hb_runs demo_dispatched)" "br_batch demo_run = [hd (br_batch demo_run)]"
  by code_simp+

definition demo_retried :: heartbeat_state where
  "demo_retried = handlerAnswers demo_loc 300 demo_run (Some (Skipped ''lanes-busy'' None)) demo_dispatched"

theorem scheduled_work_is_not_lost_witness: "''j1'' \<in> carriedJobs ''main::'' demo_retried"
proof -
  have "heartbeat_step demo_loc (Answered (hd (br_batch demo_run)) (Some (Skipped ''lanes-busy'' None)))
      demo_dispatched demo_retried"
    unfolding demo_retried_def using heartbeat_step.answer [OF demo_run_batch] .
  moreover have "''j1'' \<in> carriedJobs ''main::'' demo_dispatched" by code_simp
  moreover have "retainsWake (hd (br_batch demo_run)) (Skipped ''lanes-busy'' None)" by code_simp
  ultimately show ?thesis
    using scheduled_work_is_not_lost [OF reachable_demo_dispatched] by fastforce
qed

theorem pending_wakes_are_scheduled_witness:
  "hb_running demo_dispatched
   = (length (filter (\<lambda>run. br_generation run = hb_generation demo_dispatched) (hb_runs demo_dispatched)) = 1)
   \<and> hb_running demo_dispatched"
proof -
  have h: "hb_handler demo_dispatched \<noteq> None" and r: "hb_running demo_dispatched" by code_simp+
  from pending_wakes_are_scheduled [OF reachable_demo_dispatched h] r show ?thesis by simp
qed

text \<open>The hand-off of a batch to a replacement handler passes the pending wake itself, so the spacing-guard
  marker of a retained wake survives the replacement, which the comment there denies.\<close>

lemma hand_off_keeps_guard_marker:
  "pw_guardRetry (pendingWakeOf now (handOffParams w)) = pw_guardRetry w"
  by (simp add: pendingWakeOf_def handOffParams_def Let_def)

end
