(* ===== verification/Heartbeat_Schedule.thy ===== *)
theory Heartbeat_Schedule
  imports Heartbeat_Wake Route_Config
begin

text \<open>
  When a heartbeat is due and when a wake is deferred: the phase arithmetic of
  \<open>src/infra/heartbeat-schedule.ts\<close>, the cooldown decision of \<open>src/infra/heartbeat-cooldown.ts\<close>, the
  classification of wakes of \<open>src/infra/heartbeat-wake-policy.ts\<close>, and the record of starts and due slots that the
  runner of \<open>src/infra/heartbeat-runner-scheduler.ts\<close> keeps for each enrolled agent. Instants are integral and finite, so
  \<open>Math.floor\<close> is the identity. The digest that seeds a phase is a parameter, and so is the active-hours
  predicate, as in the code.
\<close>

subsection \<open>Phases\<close>

definition resolvePositiveIntervalMs :: "int \<Rightarrow> int" where
  "resolvePositiveIntervalMs value = resolveIntegerOption (Some value) 1 (Some 1) None"

text \<open>The remainder \<open>a % b\<close> of JavaScript takes the sign of \<open>a\<close>.\<close>

definition js_rem :: "int \<Rightarrow> int \<Rightarrow> int" where
  "js_rem a b = sgn a * (\<bar>a\<bar> mod \<bar>b\<bar>)"

definition normalizeModulo :: "int \<Rightarrow> int \<Rightarrow> int" where
  "normalizeModulo value divisor = js_rem (js_rem value divisor + divisor) divisor"

text \<open>\<open>digest\<close> is the first big-endian word of the hash of a text.\<close>

definition resolveHeartbeatPhaseMs :: "(string \<Rightarrow> int) \<Rightarrow> string \<Rightarrow> string \<Rightarrow> int \<Rightarrow> int" where
  "resolveHeartbeatPhaseMs digest schedulerSeed agentId intervalMs =
     js_rem (digest (schedulerSeed @ '':'' @ agentId)) (resolvePositiveIntervalMs intervalMs)"

definition computeNextHeartbeatPhaseDueMs :: "int \<Rightarrow> int \<Rightarrow> int \<Rightarrow> int" where
  "computeNextHeartbeatPhaseDueMs nowMs interval phase =
     (let intervalMs = resolvePositiveIntervalMs interval;
          phaseMs = normalizeModulo phase intervalMs;
          cyclePositionMs = normalizeModulo nowMs intervalMs;
          deltaMs = normalizeModulo (phaseMs - cyclePositionMs) intervalMs
      in nowMs + (if deltaMs = 0 then intervalMs else deltaMs))"

record heartbeat_due =
  hd_intervalMs :: int
  hd_phaseMs :: int
  hd_nextDueMs :: int

definition resolveNextHeartbeatDueMs :: "int \<Rightarrow> int \<Rightarrow> int \<Rightarrow> heartbeat_due option \<Rightarrow> int" where
  "resolveNextHeartbeatDueMs nowMs interval phase prev =
     (let intervalMs = resolvePositiveIntervalMs interval;
          phaseMs = normalizeModulo phase intervalMs;
          next' = computeNextHeartbeatPhaseDueMs nowMs intervalMs phaseMs
      in case prev of
           Some p \<Rightarrow> if hd_intervalMs p = intervalMs \<and> hd_phaseMs p = phaseMs \<and> hd_nextDueMs p > nowMs
                    then hd_nextDueMs p else next'
         | None \<Rightarrow> next')"

subsection \<open>Seeking an active slot\<close>

definition MAX_SEEK_HORIZON_MS :: int where
  "MAX_SEEK_HORIZON_MS = 7 * 24 * 60 * 60000"

definition MIN_SEEK_STEP_MS :: int where
  "MIN_SEEK_STEP_MS = 30000"

definition seekMultiplier :: "int \<Rightarrow> nat" where
  "seekMultiplier intervalMs = nat (max 1 ((MIN_SEEK_STEP_MS + intervalMs - 1) div intervalMs))"

text \<open>The binary search between an inactive and an active slot; the active slot is \<open>steps\<close> intervals behind
  the inactive one.\<close>

fun bisectActive :: "(int \<Rightarrow> bool) \<Rightarrow> int \<Rightarrow> int \<Rightarrow> nat \<Rightarrow> int" where
  "bisectActive isActive intervalMs inactiveMs steps =
     (if steps > 1 then
        let half = steps div 2;
            probeMs = inactiveMs + int half * intervalMs
        in if isActive probeMs then bisectActive isActive intervalMs inactiveMs half
           else bisectActive isActive intervalMs probeMs (steps - half)
      else inactiveMs + int steps * intervalMs)"

declare bisectActive.simps [simp del]

function seekLoop :: "(int \<Rightarrow> bool) \<Rightarrow> int \<Rightarrow> int \<Rightarrow> int \<Rightarrow> int option \<Rightarrow> int option" where
  "seekLoop isActive interval horizonMs candidateMs previousInactiveMs =
     (let intervalMs = resolvePositiveIntervalMs interval;
          multiplier = seekMultiplier intervalMs
      in if candidateMs < horizonMs then
           (if isActive candidateMs then
              (case previousInactiveMs of
                 Some inactiveMs \<Rightarrow>
                   if multiplier > 1 then Some (bisectActive isActive intervalMs inactiveMs multiplier)
                   else Some candidateMs
               | None \<Rightarrow> Some candidateMs)
            else seekLoop isActive interval horizonMs (candidateMs + intervalMs * int multiplier) (Some candidateMs))
         else None)"
  by pat_completeness auto
termination
proof (relation "measure (\<lambda>(isActive, interval, horizonMs, candidateMs, previousInactiveMs). nat (horizonMs - candidateMs))")
  fix isActive :: "int \<Rightarrow> bool" and interval horizonMs candidateMs x :: int and previousInactiveMs y
  assume x: "x = resolvePositiveIntervalMs interval" and y: "y = seekMultiplier x" and c: "candidateMs < horizonMs"
  have "1 \<le> x" unfolding x resolvePositiveIntervalMs_def by (rule resolveIntegerOption_min)
  moreover have "1 \<le> int y" unfolding y by (simp add: seekMultiplier_def)
  ultimately have "0 < x * int y" by (intro mult_pos_pos) linarith+
  then show "((isActive, interval, horizonMs, candidateMs + x * int y, Some candidateMs),
      (isActive, interval, horizonMs, candidateMs, previousInactiveMs))
      \<in> measure (\<lambda>(isActive, interval, horizonMs, candidateMs, previousInactiveMs). nat (horizonMs - candidateMs))"
    using c by simp
qed simp

declare seekLoop.simps [simp del]

definition seekNextActivePhaseDueMs :: "int \<Rightarrow> int \<Rightarrow> (int \<Rightarrow> bool) option \<Rightarrow> int" where
  "seekNextActivePhaseDueMs startMs interval isActive =
     (case isActive of
        None \<Rightarrow> startMs
      | Some active \<Rightarrow>
          nullish (seekLoop active interval (startMs + MAX_SEEK_HORIZON_MS) startMs None) startMs)"

subsection \<open>Deferral\<close>

definition DEFAULT_MIN_WAKE_SPACING_MS :: int where "DEFAULT_MIN_WAKE_SPACING_MS = 30000"

definition DEFAULT_FLOOD_WINDOW_MS :: int where "DEFAULT_FLOOD_WINDOW_MS = 60000"

definition DEFAULT_FLOOD_THRESHOLD :: nat where "DEFAULT_FLOOD_THRESHOLD = 5"

datatype defer_reason = NotDue | MinSpacing | Flood

datatype defer_decision = RunNow | Defer defer_reason int

record defer_input =
  di_intent :: wake_intent
  di_now :: int
  di_nextDueMs :: int
  di_lastRunStartedAtMs :: "int option"
  di_recentRunStarts :: "int list option"
  di_minSpacingMs :: "int option"
  di_floodWindowMs :: "int option"
  di_floodThreshold :: "nat option"
  di_retainedWork :: bool

definition resolveMinSpacingRetryAtMs :: "defer_input \<Rightarrow> int option" where
  "resolveMinSpacingRetryAtMs i =
     (let minSpacing = nullish (di_minSpacingMs i) DEFAULT_MIN_WAKE_SPACING_MS
      in case di_lastRunStartedAtMs i of
           None \<Rightarrow> None
         | Some started \<Rightarrow>
             if minSpacing \<le> 0 then None
             else if di_now i < started + minSpacing then Some (started + minSpacing) else None)"

text \<open>The scan runs over the starts from the newest to the oldest; it carries the number of starts in the
  window and the start that reached the threshold.\<close>

fun floodScan :: "int \<Rightarrow> nat \<Rightarrow> int list \<Rightarrow> nat \<Rightarrow> int option \<Rightarrow> nat \<times> int option" where
  "floodScan windowStart threshold [] inWindow oldest = (inWindow, oldest)"
| "floodScan windowStart threshold (ts # older) inWindow oldest =
     (if ts < windowStart then (inWindow, oldest)
      else floodScan windowStart threshold older (Suc inWindow)
        (if Suc inWindow = threshold then Some ts else oldest))"

definition checkFloodGuard :: "defer_input \<Rightarrow> defer_decision option" where
  "checkFloodGuard i =
     (let floodWindow = nullish (di_floodWindowMs i) DEFAULT_FLOOD_WINDOW_MS;
          floodThreshold = nullish (di_floodThreshold i) DEFAULT_FLOOD_THRESHOLD
      in case di_recentRunStarts i of
           None \<Rightarrow> None
         | Some starts \<Rightarrow>
             if length starts < floodThreshold \<or> floodWindow \<le> 0 then None
             else
               case floodScan (di_now i - floodWindow) floodThreshold (rev starts) 0 None of
                 (inWindow, Some oldest) \<Rightarrow>
                   if inWindow \<ge> floodThreshold then Some (Defer Flood (oldest + floodWindow + 1)) else None
               | (inWindow, None) \<Rightarrow> None)"

definition shouldDeferWake :: "defer_input \<Rightarrow> defer_decision" where
  "shouldDeferWake i =
     (case di_intent i of
        IntentManual \<Rightarrow> RunNow
      | IntentImmediate \<Rightarrow> nullish (checkFloodGuard i) RunNow
      | IntentTask \<Rightarrow>
          (case checkFloodGuard i of
             Some d \<Rightarrow> d
           | None \<Rightarrow> (case resolveMinSpacingRetryAtMs i of Some t \<Rightarrow> Defer MinSpacing t | None \<Rightarrow> RunNow))
      | IntentScheduled \<Rightarrow>
          (case checkFloodGuard i of
             Some d \<Rightarrow> d
           | None \<Rightarrow> if di_now i < di_nextDueMs i then Defer NotDue (di_nextDueMs i) else RunNow)
      | IntentEvent \<Rightarrow>
          (case checkFloodGuard i of
             Some d \<Rightarrow> d
           | None \<Rightarrow>
               if di_lastRunStartedAtMs i = None then RunNow
               else if \<not> di_retainedWork i \<and> di_now i < di_nextDueMs i then
                 Defer NotDue (min (di_nextDueMs i) (nullish (resolveMinSpacingRetryAtMs i) (di_nextDueMs i)))
               else (case resolveMinSpacingRetryAtMs i of Some t \<Rightarrow> Defer MinSpacing t | None \<Rightarrow> RunNow)))"

definition recordRunStart :: "int list \<Rightarrow> int \<Rightarrow> nat \<Rightarrow> int list" where
  "recordRunStart buffer ts floodThreshold =
     (let pushed = buffer @ [ts]; maxLength = floodThreshold + 1
      in drop (length pushed - maxLength) pushed)"

subsection \<open>Classification of wakes\<close>

definition inferHeartbeatWakeSourceFromReason :: "string option \<Rightarrow> wake_source option" where
  "inferHeartbeatWakeSourceFromReason reason =
     (let trimmed = js_trim (nullish reason '''')
      in if trimmed = ''exec-event'' then Some SrcExecEvent
         else if js_startsWith trimmed ''cron:'' then Some SrcCron
         else if trimmed = ''wake'' \<or> js_startsWith trimmed ''hook:'' then Some SrcHook
         else if js_startsWith trimmed ''acp:spawn:'' then Some SrcAcpSpawn
         else if js_startsWith trimmed ''session-state:'' then Some SrcSessionState
         else None)"

record wake_payload_flags =
  pf_isExecEventWake :: bool
  pf_isCronWake :: bool
  pf_isWakePayload :: bool

definition resolveHeartbeatWakePayloadFlags :: "wake_source option \<Rightarrow> string option \<Rightarrow> wake_payload_flags" where
  "resolveHeartbeatWakePayloadFlags source reason =
     (let src = nullish_or source (inferHeartbeatWakeSourceFromReason reason);
          trimmed = js_trim (nullish reason '''')
      in \<lparr>pf_isExecEventWake = (src = Some SrcExecEvent), pf_isCronWake = (src = Some SrcCron),
          pf_isWakePayload = (src = Some SrcHook \<or> src = Some SrcAcpSpawn \<or> src = Some SrcSessionState
                              \<or> trimmed = ''wake'')\<rparr>)"

definition isTargetedImmediateSystemEventWake ::
  "wake_source option \<Rightarrow> wake_intent option \<Rightarrow> string option \<Rightarrow> string option \<Rightarrow> bool" where
  "isTargetedImmediateSystemEventWake source intent reason sessionKey \<longleftrightarrow>
     source = Some SrcNotificationsEvent \<and> intent = Some IntentImmediate
     \<and> map_option js_trim reason = Some ''wake''
     \<and> normalizeOptionalString (case sessionKey of None \<Rightarrow> JUndefined | Some s \<Rightarrow> JStr s) \<noteq> None"

definition isConfiguredHeartbeatAgent :: "agents_config option \<Rightarrow> string \<Rightarrow> bool" where
  "isConfiguredHeartbeatAgent agents agentId =
     (let normalized = normalizeAgentId (Some agentId)
      in list_ex (\<lambda>candidate. normalizeAgentId (Some candidate) = normalized) (listAgentIds agents))"

subsection \<open>The runner's record of an agent\<close>

text \<open>The state that \<open>startHeartbeatRunner\<close> in \<open>src/infra/heartbeat-runner-scheduler.ts\<close> keeps per
  agent, with the closures that read and change it. The active-hours predicate of the agent's configuration and the
  outcome of the turn are parameters. Turns for due commitments, which follow a recorded turn and are not recorded, and
  wakes of an agent that is not enrolled, which touch no record, are left out.\<close>

record heartbeat_agent_state =
  ha_intervalMs :: int
  ha_phaseMs :: int
  ha_nextDueMs :: int
  ha_lastRunStartedAtMs :: "int option"
  ha_recentRunStarts :: "int list"
  ha_floodLoggedSinceLastRun :: bool

definition resolveNextDue :: "int \<Rightarrow> int \<Rightarrow> int \<Rightarrow> heartbeat_agent_state option \<Rightarrow> int" where
  "resolveNextDue now intervalMs phaseMs prevState =
     resolveNextHeartbeatDueMs now intervalMs phaseMs
       (map_option (\<lambda>p. \<lparr>hd_intervalMs = ha_intervalMs p, hd_phaseMs = ha_phaseMs p, hd_nextDueMs = ha_nextDueMs p\<rparr>) prevState)"

definition seekActiveSlotForAgent :: "(int \<Rightarrow> bool) \<Rightarrow> heartbeat_agent_state \<Rightarrow> int \<Rightarrow> int" where
  "seekActiveSlotForAgent isActive agent rawDueMs = seekNextActivePhaseDueMs rawDueMs (ha_intervalMs agent) (Some isActive)"

definition advanceAgentSchedule ::
  "(int \<Rightarrow> bool) \<Rightarrow> heartbeat_agent_state \<Rightarrow> int \<Rightarrow> string option \<Rightarrow> heartbeat_agent_state" where
  "advanceAgentSchedule isActive agent now reason =
     (let rawDueMs = (if reason = Some ''interval''
            then computeNextHeartbeatPhaseDueMs now (ha_intervalMs agent) (ha_phaseMs agent)
            else now + ha_intervalMs agent)
      in agent\<lparr>ha_nextDueMs := seekActiveSlotForAgent isActive agent rawDueMs\<rparr>)"

definition advanceStaleScheduleAfterDeferral ::
  "(int \<Rightarrow> bool) \<Rightarrow> heartbeat_agent_state \<Rightarrow> int \<Rightarrow> string option \<Rightarrow> defer_decision \<Rightarrow> heartbeat_agent_state" where
  "advanceStaleScheduleAfterDeferral isActive agent now reason decision =
     (case decision of
        RunNow \<Rightarrow> agent
      | Defer why retryAtMs \<Rightarrow>
          if why = NotDue \<or> ha_nextDueMs agent > now then agent else advanceAgentSchedule isActive agent now reason)"

definition evaluateWakeDeferral ::
  "heartbeat_agent_state \<Rightarrow> int \<Rightarrow> wake_intent option \<Rightarrow> bool \<Rightarrow> bool \<Rightarrow> defer_decision \<times> heartbeat_agent_state" where
  "evaluateWakeDeferral agent now intent authoritativeScheduledTick retainedWork =
     (let decision = shouldDeferWake
            \<lparr>di_intent = nullish intent IntentEvent, di_now = now,
             di_nextDueMs = (if authoritativeScheduledTick then now else ha_nextDueMs agent),
             di_lastRunStartedAtMs = ha_lastRunStartedAtMs agent,
             di_recentRunStarts = Some (ha_recentRunStarts agent),
             di_minSpacingMs = None, di_floodWindowMs = None, di_floodThreshold = None,
             di_retainedWork = retainedWork\<rparr>
      in (decision,
          case decision of
            Defer Flood retryAtMs \<Rightarrow> agent\<lparr>ha_floodLoggedSinceLastRun := True\<rparr>
          | _ \<Rightarrow> agent))"

definition recordRunBookkeeping :: "heartbeat_agent_state \<Rightarrow> int \<Rightarrow> heartbeat_agent_state" where
  "recordRunBookkeeping agent now = agent\<lparr>ha_lastRunStartedAtMs := Some now,
     ha_recentRunStarts := recordRunStart (ha_recentRunStarts agent) now DEFAULT_FLOOD_THRESHOLD,
     ha_floodLoggedSinceLastRun := False\<rparr>"

text \<open>One wake for an enrolled agent: \<open>busy\<close> says that the turn was skipped for a reason the wake layer retries,
  and every other outcome, a throw included, is recorded. The second result is the start that was recorded.\<close>

definition runOneAgent ::
  "(int \<Rightarrow> bool) \<Rightarrow> heartbeat_agent_state \<Rightarrow> int \<Rightarrow> string option \<Rightarrow> wake_intent option \<Rightarrow> bool \<Rightarrow> bool \<Rightarrow> bool
    \<Rightarrow> heartbeat_agent_state \<times> int list" where
  "runOneAgent isActive agent now reason intent authoritativeScheduledTick retainedWork busy =
     (case evaluateWakeDeferral agent now intent authoritativeScheduledTick retainedWork of
        (Defer why retryAtMs, agent1) \<Rightarrow>
          (advanceStaleScheduleAfterDeferral isActive agent1 now reason (Defer why retryAtMs), [])
      | (RunNow, agent1) \<Rightarrow>
          if busy then (agent1, [])
          else (advanceAgentSchedule isActive (recordRunBookkeeping agent1 now) now reason, [now]))"

text \<open>The cadence a monitor tick carries, and the agent's entry after a change of the configuration.\<close>

definition applyScheduledCadence :: "heartbeat_agent_state \<Rightarrow> (int \<times> int) option \<Rightarrow> heartbeat_agent_state" where
  "applyScheduledCadence agent cadence =
     (case cadence of
        None \<Rightarrow> agent
      | Some (everyMs, phaseMs) \<Rightarrow> agent\<lparr>ha_intervalMs := everyMs, ha_phaseMs := phaseMs\<rparr>)"

definition updateAgentConfig ::
  "(int \<Rightarrow> bool) \<Rightarrow> int \<Rightarrow> int \<Rightarrow> int \<Rightarrow> bool \<Rightarrow> heartbeat_agent_state option \<Rightarrow> heartbeat_agent_state" where
  "updateAgentConfig isActive now intervalMs phaseMs activeHoursChanged prevState =
     (let rawNextDueMs = resolveNextDue now intervalMs phaseMs (if activeHoursChanged then None else prevState)
      in \<lparr>ha_intervalMs = intervalMs, ha_phaseMs = phaseMs,
          ha_nextDueMs = seekNextActivePhaseDueMs rawNextDueMs intervalMs (Some isActive),
          ha_lastRunStartedAtMs = Option.bind prevState ha_lastRunStartedAtMs,
          ha_recentRunStarts = nullish (map_option ha_recentRunStarts prevState) [],
          ha_floodLoggedSinceLastRun = nullish (map_option ha_floodLoggedSinceLastRun prevState) False\<rparr>)"

text \<open>What happens to an enrolled agent: wakes, one after the other as the wake queue hands them over, and changes of
  the configuration. Each call carries the active hours in force. The list collects the recorded starts.\<close>

datatype runner_call =
    WakeCall "int \<Rightarrow> bool" int "string option" "wake_intent option" "(int \<times> int) option" bool bool
  | ConfigCall "int \<Rightarrow> bool" int int int bool

fun callTime :: "runner_call \<Rightarrow> int" where
  "callTime (WakeCall isActive now reason intent cadence retainedWork busy) = now"
| "callTime (ConfigCall isActive now intervalMs phaseMs activeHoursChanged) = now"

fun runnerStep ::
  "heartbeat_agent_state \<times> int list \<Rightarrow> runner_call \<Rightarrow> heartbeat_agent_state \<times> int list" where
  "runnerStep (agent, starts) (WakeCall isActive now reason intent cadence retainedWork busy) =
     (case runOneAgent isActive (applyScheduledCadence agent cadence) now reason intent (cadence \<noteq> None) retainedWork busy of
        (agent1, started) \<Rightarrow> (agent1, starts @ started))"
| "runnerStep (agent, starts) (ConfigCall isActive now intervalMs phaseMs activeHoursChanged) =
     (updateAgentConfig isActive now intervalMs phaseMs activeHoursChanged (Some agent), starts)"

definition runnerHistory ::
  "(int \<Rightarrow> bool) \<Rightarrow> int \<Rightarrow> int \<Rightarrow> int \<Rightarrow> runner_call list \<Rightarrow> heartbeat_agent_state \<times> int list" where
  "runnerHistory isActive enrolledAt intervalMs phaseMs calls =
     foldl runnerStep (updateAgentConfig isActive enrolledAt intervalMs phaseMs False None, []) calls"

subsection \<open>Phase arithmetic\<close>

lemma resolvePositive_ge1 [simp]: "1 \<le> resolvePositiveIntervalMs v"
  unfolding resolvePositiveIntervalMs_def by (rule resolveIntegerOption_min)

lemma resolvePositive_idem [simp]: "resolvePositiveIntervalMs (resolvePositiveIntervalMs v) = resolvePositiveIntervalMs v"
  by (simp add: resolvePositiveIntervalMs_def resolveIntegerOption_def Let_def)

lemma resolvePositive_pos [simp]: "0 < resolvePositiveIntervalMs v"
  using resolvePositive_ge1 [of v] by linarith

lemma js_rem_mod:
  assumes "0 < b"
  shows "js_rem a b mod b = a mod b"
proof (cases "a \<ge> 0")
  case True
  then show ?thesis using assms by (cases "a = 0") (simp_all add: js_rem_def)
next
  case False
  then have "js_rem a b = - ((- a) mod b)" using assms by (simp add: js_rem_def)
  then show ?thesis by (metis minus_minus mod_minus_eq)
qed

lemma normalizeModulo_eq:
  assumes "0 < d"
  shows "normalizeModulo v d = v mod d"
proof -
  have b: "\<bar>js_rem v d\<bar> < d"
    using assms by (auto simp: js_rem_def abs_mult sgn_if abs_of_nonneg)
  then have p: "0 < js_rem v d + d" by arith
  then have "js_rem (js_rem v d + d) d = (js_rem v d + d) mod d" using assms by (simp add: js_rem_def)
  then show ?thesis using assms by (simp add: normalizeModulo_def js_rem_mod)
qed

text \<open>The next due instant is the first one after now that lies on the phase.\<close>

lemma computeNext_spec:
  fixes now phase interval :: int
  defines "n \<equiv> resolvePositiveIntervalMs interval"
  defines "t \<equiv> computeNextHeartbeatPhaseDueMs now interval phase"
  shows "now < t" and "t \<le> now + n" and "t mod n = phase mod n"
proof -
  have n: "0 < n" by (simp add: n_def)
  define delta where "delta = (phase - now) mod n"
  have d: "normalizeModulo (normalizeModulo phase n - normalizeModulo now n) n = delta"
    unfolding normalizeModulo_eq [OF n] delta_def by (simp add: mod_diff_eq)
  have t: "t = now + (if delta = 0 then n else delta)"
    using d by (simp add: t_def computeNextHeartbeatPhaseDueMs_def n_def [symmetric] Let_def)
  have r: "0 \<le> delta" "delta < n" using n by (simp_all add: delta_def)
  show "now < t" "t \<le> now + n" using t r n by auto
  have "(now + delta) mod n = phase mod n" by (simp add: delta_def mod_add_right_eq)
  then show "t mod n = phase mod n" using t by auto
qed

lemma first_on_phase:
  fixes n now t u :: int
  assumes "0 < n" "now < t" "t \<le> now + n" "t mod n = u mod n" "now < u"
  shows "t \<le> u"
proof (rule ccontr)
  assume "\<not> t \<le> u"
  then have "0 < t - u" "t - u < n" using assms by auto
  moreover have "n dvd t - u" using assms(4) by (simp add: mod_eq_dvd_iff)
  ultimately show False using zdvd_imp_le by force
qed

subsection \<open>Seeking\<close>

lemma bisect_correct:
  assumes "1 \<le> steps" "\<not> act (lo :: int)" "act (lo + int steps * n)"
    "\<And>i j. i < j \<Longrightarrow> j \<le> steps \<Longrightarrow> act (lo + int i * n) \<Longrightarrow> act (lo + int j * n)"
  shows "\<exists>k. 1 \<le> k \<and> k \<le> steps \<and> bisectActive act n lo steps = lo + int k * n
    \<and> act (lo + int k * n) \<and> (\<forall>i < k. \<not> act (lo + int i * n))"
  using assms
proof (induction act n lo steps rule: bisectActive.induct)
  case (1 act n lo steps)
  show ?case
  proof (cases "steps > 1")
    case False
    with "1.prems" have "steps = 1" by simp
    with "1.prems" show ?thesis by (intro exI [of _ 1]) (simp add: bisectActive.simps [of _ _ _ 1] bisectActive.simps)
  next
    case True
    define half where "half = steps div 2"
    have h: "1 \<le> half" "half < steps" using True by (simp_all add: half_def)
    define probe where "probe = lo + int half * n"
    show ?thesis
    proof (cases "act probe")
      case a: True
      have "\<exists>k. 1 \<le> k \<and> k \<le> half \<and> bisectActive act n lo half = lo + int k * n
          \<and> act (lo + int k * n) \<and> (\<forall>i < k. \<not> act (lo + int i * n))"
        using True a h "1.prems"(2,4)
        by (intro "1.IH"(1) [OF True half_def probe_def [unfolded half_def [symmetric]]])
          (auto simp: probe_def half_def intro: "1.prems"(4))
      moreover have "bisectActive act n lo steps = bisectActive act n lo half"
        using True a by (subst bisectActive.simps) (simp add: half_def probe_def Let_def)
      ultimately show ?thesis using h by (auto intro: order.trans)
    next
      case na: False
      have sh: "probe + int i * n = lo + int (half + i) * n" for i by (simp add: probe_def algebra_simps)
      have "\<exists>k. 1 \<le> k \<and> k \<le> steps - half \<and> bisectActive act n probe (steps - half) = probe + int k * n
          \<and> act (probe + int k * n) \<and> (\<forall>i < k. \<not> act (probe + int i * n))"
      proof (rule "1.IH"(2) [OF True half_def probe_def [unfolded half_def [symmetric]] na])
        show "1 \<le> steps - half" "\<not> act probe" using h na by simp_all
        show "act (probe + int (steps - half) * n)" unfolding sh using h "1.prems"(3) by simp
        show "act (probe + int j * n)" if "i < j" "j \<le> steps - half" "act (probe + int i * n)" for i j
          using "1.prems"(4) [of "half + i" "half + j"] that h by (simp only: sh)
      qed
      then obtain k where k: "1 \<le> k" "k \<le> steps - half" "bisectActive act n probe (steps - half) = probe + int k * n"
        "act (probe + int k * n)" "\<forall>i < k. \<not> act (probe + int i * n)" by blast
      have "\<not> act (lo + int i * n)" if "i < half + k" for i
      proof (cases "i < half")
        case True
        then show ?thesis using "1.prems"(4) [of i half] na h by (auto simp: probe_def)
      next
        case False
        define j where "j = i - half"
        have "i = half + j" "j < k" using False that by (simp_all add: j_def)
        moreover have "\<not> act (probe + int j * n)" using k(5) \<open>j < k\<close> by simp
        ultimately show ?thesis by (simp only: sh not_False_eq_True)
      qed
      moreover have "bisectActive act n lo steps = bisectActive act n probe (steps - half)"
        using True na by (subst bisectActive.simps) (simp add: half_def probe_def Let_def)
      ultimately show ?thesis using k h by (intro exI [of _ "half + k"]) (simp add: sh)
    qed
  qed
qed

text \<open>The slots of a schedule are \<open>start + j * n\<close>. Active hours change slower than a batch of slots is long:
  within a batch, no slot differs from both an earlier and a later one.\<close>

definition slowlyActive :: "(nat \<Rightarrow> bool) \<Rightarrow> nat \<Rightarrow> bool" where
  "slowlyActive act m \<longleftrightarrow> (\<forall>a b c. a < b \<longrightarrow> b < c \<longrightarrow> c \<le> a + m \<longrightarrow> act b = act a \<or> act b = act c)"

lemma slow_between_inactive:
  assumes "slowlyActive act m" "\<not> act a" "\<not> act (a + m)" "a \<le> b" "b \<le> a + m"
  shows "\<not> act b"
proof (cases "b = a \<or> b = a + m")
  case False
  then show ?thesis
    using assms(1) [unfolded slowlyActive_def, rule_format, of a b "a + m"] assms(2-5) by simp
qed (use assms(2,3) in auto)

lemma slow_prefix_inactive:
  assumes "slowlyActive act m" "0 < m" "\<And>i. i \<le> p \<Longrightarrow> \<not> act (i * m)" "b \<le> p * m"
  shows "\<not> act b"
  using assms(3,4)
proof (induction p)
  case 0
  then show ?case using 0(1) [of 0] by simp
next
  case (Suc p)
  show ?case
  proof (cases "b \<le> p * m")
    case True
    with Suc show ?thesis by simp
  next
    case False
    have "\<not> act (p * m)" "\<not> act (p * m + m)" using Suc.prems(1) [of p] Suc.prems(1) [of "Suc p"] by (simp_all add: add.commute)
    moreover have "p * m \<le> b" "b \<le> p * m + m" using False Suc.prems(2) by simp_all
    ultimately show ?thesis by (rule slow_between_inactive [OF assms(1)])
  qed
qed

lemma slow_monotone:
  assumes "slowlyActive act m" "\<not> act a" "i < j" "j \<le> m" "act (a + i)"
  shows "act (a + j)"
proof (rule ccontr)
  assume "\<not> act (a + j)"
  have "i \<noteq> 0" using assms(2,5) by (intro notI) simp
  then have "act (a + i) = act a \<or> act (a + i) = act (a + j)"
    using assms(1) [unfolded slowlyActive_def, rule_format, of a "a + i" "a + j"] assms(3,4) by simp
  with assms(2,5) \<open>\<not> act (a + j)\<close> show False by simp
qed

text \<open>If every probed slot up to a batch behind \<open>k\<close> is inactive, so is \<open>k\<close>.\<close>

lemma slow_probes:
  assumes "slowlyActive act m" "0 < m" "\<And>i. i * m < k + m \<Longrightarrow> \<not> act (i * m)"
  shows "\<not> act k"
proof (cases "k mod m = 0")
  case True
  then have "k = k div m * m" using mult_div_mod_eq [of m k] by (simp add: mult.commute)
  then show ?thesis using assms(2,3) by (metis less_add_same_cancel1)
next
  case False
  define p where "p = k div m + 1"
  have "p * m = m * (k div m) + m" by (simp add: p_def algebra_simps)
  then have pk: "k \<le> p * m" "p * m < k + m"
    using False mult_div_mod_eq [of m k] mod_less_divisor [OF assms(2), of k] by linarith+
  have "\<not> act (i * m)" if "i \<le> p" for i
    using mult_le_mono1 [OF that, of m] pk(2) by (intro assms(3)) linarith
  from slow_prefix_inactive [OF assms(1,2) this pk(1)] show ?thesis .
qed

text \<open>The binary search inside a batch finds its first active slot.\<close>

lemma batch_first_active:
  fixes isActive start n
  defines "act \<equiv> \<lambda>j. isActive (start + int j * n)"
  assumes "slowlyActive act m" "0 < m" "\<not> act lo" "act (lo + m)"
  shows "\<exists>k \<le> m. bisectActive isActive n (start + int lo * n) m = start + int (lo + k) * n
    \<and> act (lo + k) \<and> (\<forall>i < k. \<not> act (lo + i))"
proof -
  have at: "act (lo + i) = isActive (start + int lo * n + int i * n)" for i by (simp add: act_def algebra_simps)
  have "\<exists>k. 1 \<le> k \<and> k \<le> m \<and> bisectActive isActive n (start + int lo * n) m = start + int lo * n + int k * n
      \<and> isActive (start + int lo * n + int k * n) \<and> (\<forall>i < k. \<not> isActive (start + int lo * n + int i * n))"
  proof (rule bisect_correct)
    show "1 \<le> m" using assms(3) by simp
    show "\<not> isActive (start + int lo * n)" using assms(4) by (simp add: act_def)
    show "isActive (start + int lo * n + int m * n)" using assms(5) by (simp only: at)
    show "isActive (start + int lo * n + int j * n)" if "i < j" "j \<le> m" "isActive (start + int lo * n + int i * n)" for i j
      using slow_monotone [OF assms(2,4) that(1,2)] that(3) by (simp only: at)
  qed
  moreover have "start + int lo * n + int i * n = start + int (lo + i) * n" for i by (simp add: algebra_simps)
  ultimately show ?thesis by (auto simp only: at)
qed

lemma seekLoop_correct:
  fixes isActive interval start
  defines "n \<equiv> resolvePositiveIntervalMs interval"
  defines "m \<equiv> seekMultiplier n"
  defines "act \<equiv> \<lambda>j. isActive (start + int j * n)"
  assumes slow: "slowlyActive act m"
    and inactive: "\<And>i. i < p \<Longrightarrow> \<not> act (i * m)"
    and prev: "prev = (if p = 0 then None else Some (start + int ((p - 1) * m) * n))"
  shows "case seekLoop isActive interval horizon (start + int (p * m) * n) prev of
      Some t \<Rightarrow> \<exists>k. t = start + int k * n \<and> act k \<and> (\<forall>i < k. \<not> act i) \<and> t < horizon
    | None \<Rightarrow> \<forall>i. start + int (i * m) * n < horizon \<longrightarrow> \<not> act (i * m)"
  supply of_nat_mult [simp del]
  using inactive prev
proof (induction "nat (horizon - (start + int (p * m) * n))" arbitrary: p prev rule: less_induct)
  case less
  have n: "0 < n" by (simp add: n_def)
  have m: "0 < m" by (simp add: m_def seekMultiplier_def)
  let ?c = "start + int (p * m) * n"
  have step: "?c + n * int m = start + int (Suc p * m) * n" by (simp add: algebra_simps of_nat_mult)
  note unfold = seekLoop.simps [of isActive interval horizon ?c prev, unfolded Let_def, folded n_def, folded m_def]
  show ?case
  proof (cases "?c < horizon")
    case False
    have "\<not> act (i * m)" if "start + int (i * m) * n < horizon" for i
    proof (cases "i < p")
      case True
      then show ?thesis using less.prems(1) by simp
    next
      case f: False
      then have "int (p * m) \<le> int (i * m)" unfolding of_nat_le_iff by simp
      then have "int (p * m) * n \<le> int (i * m) * n" using n by (intro mult_right_mono) linarith+
      then show ?thesis using that False by linarith
    qed
    moreover have "seekLoop isActive interval horizon ?c prev = None"
      by (subst unfold) (simp only: False if_False)
    ultimately show ?thesis by (simp only: option.case) blast
  next
    case c: True
    show ?thesis
    proof (cases "act (p * m)")
      case False
      have "0 < n * int m" using n m by simp
      then have "nat (horizon - (start + int (Suc p * m) * n)) < nat (horizon - ?c)" using c step by linarith
      moreover have "\<not> act (i * m)" if "i < Suc p" for i
        using less.prems(1) False that by (cases "i = p") auto
      ultimately have "case seekLoop isActive interval horizon (start + int (Suc p * m) * n) (Some ?c) of
          Some t \<Rightarrow> \<exists>k. t = start + int k * n \<and> act k \<and> (\<forall>i < k. \<not> act i) \<and> t < horizon
        | None \<Rightarrow> \<forall>i. start + int (i * m) * n < horizon \<longrightarrow> \<not> act (i * m)"
        by (intro less.hyps) simp_all
      moreover have "seekLoop isActive interval horizon ?c prev = seekLoop isActive interval horizon (?c + n * int m) (Some ?c)"
        using c False by (simp add: unfold act_def Let_def)
      ultimately show ?thesis by (simp only: step)
    next
      case a: True
      show ?thesis
      proof (cases "p = 0")
        case True
        have "seekLoop isActive interval horizon ?c prev = Some ?c"
          by (subst unfold) (use a c in \<open>simp add: act_def less.prems(2) True\<close>)
        then show ?thesis using a c True by (auto intro!: exI [of _ 0])
      next
        case p: False
        define lo where "lo = (p - 1) * m"
        have lp: "lo + m = p * m" using p by (cases p) (simp_all add: lo_def)
        have nl: "\<not> act lo" using less.prems(1) [of "p - 1"] p by (simp add: lo_def)
        have pre: "\<not> act b" if "b \<le> lo" for b
          using slow_prefix_inactive [OF slow m, of "p - 1" b] less.prems(1) p that by (simp add: lo_def)
        have "act (lo + m)" using a lp by simp
        then obtain k where k: "k \<le> m" "bisectActive isActive n (start + int lo * n) m = start + int (lo + k) * n"
          "act (lo + k)" "\<forall>i < k. \<not> act (lo + i)"
          using batch_first_active [of isActive start n m lo] slow m nl unfolding act_def by blast
        have "int (lo + k) \<le> int (p * m)" unfolding of_nat_le_iff using k(1) lp by linarith
        then have kc: "start + int (lo + k) * n \<le> ?c" using n by (intro add_left_mono mult_right_mono) linarith+
        have all: "\<not> act i" if "i < lo + k" for i
          using pre [of i] k(4) [rule_format, of "i - lo"] that by (cases "i \<le> lo") auto
        have res: "seekLoop isActive interval horizon ?c prev =
            Some (if m > 1 then start + int (lo + k) * n else ?c)"
        proof -
          have "prev = Some (start + int lo * n)" using less.prems(2) p by (simp add: lo_def)
          moreover have "isActive ?c" using a by (simp add: act_def)
          ultimately show ?thesis using c by (subst unfold) (simp only: if_True option.case k(2) split: if_split, simp)
        qed
        show ?thesis
        proof (cases "m > 1")
          case True
          then show ?thesis using res k(3) kc all c by (auto intro!: exI [of _ "lo + k"])
        next
          case False
          then have "m = 1" using m by simp
          then have "\<not> act i" if "i < p * m" for i using pre [of i] that lp by simp
          with res False a c show ?thesis by (auto intro!: exI [of _ "p * m"])
        qed
      qed
    qed
  qed
qed

subsection \<open>Deferral\<close>

lemma floodScan_short:
  assumes "length (takeWhile (\<lambda>ts. \<not> ts < w) xs) + c < threshold"
  shows "floodScan w threshold xs c oldest = (length (takeWhile (\<lambda>ts. \<not> ts < w) xs) + c, oldest)"
  using assms by (induction xs arbitrary: c oldest) auto

lemma floodScan_count: "fst (floodScan w threshold xs c oldest) = length (takeWhile (\<lambda>ts. \<not> ts < w) xs) + c"
  by (induction xs arbitrary: c oldest) auto

lemma floodScan_oldest:
  assumes "c < threshold" "threshold \<le> length (takeWhile (\<lambda>ts. \<not> ts < w) xs) + c"
  shows "snd (floodScan w threshold xs c oldest) = Some (xs ! (threshold - Suc c))"
  using assms
proof (induction xs arbitrary: c oldest)
  case (Cons x xs)
  have keep: "snd (floodScan w threshold ys c' o') = o'" if "threshold \<le> c'" for ys c' o'
    using that by (induction ys arbitrary: c') auto
  show ?case
  proof (cases "Suc c = threshold")
    case True
    with Cons.prems keep [of "Suc c"] show ?thesis by (auto split: if_splits)
  next
    case False
    then obtain d where "threshold - Suc c = Suc d" "threshold - Suc (Suc c) = d"
      using Cons.prems(1) by (metis Suc_diff_Suc Suc_lessI)
    with Cons False show ?thesis by (auto split: if_splits)
  qed
qed simp

text \<open>The guard fires exactly when the threshold-newest start lies in the window.\<close>

lemma checkFloodGuard_iff:
  assumes "di_recentRunStarts i = Some starts" "w = nullish (di_floodWindowMs i) DEFAULT_FLOOD_WINDOW_MS"
    "th = nullish (di_floodThreshold i) DEFAULT_FLOOD_THRESHOLD"
  shows "checkFloodGuard i =
    (if 0 < th \<and> 0 < w \<and> th \<le> length (takeWhile (\<lambda>ts. \<not> ts < di_now i - w) (rev starts))
     then Some (Defer Flood (rev starts ! (th - 1) + w + 1)) else None)"
proof -
  let ?xs = "takeWhile (\<lambda>ts. \<not> ts < di_now i - w) (rev starts)"
  have le: "length ?xs \<le> length starts" by (metis length_rev length_takeWhile_le)
  obtain c o' where s: "floodScan (di_now i - w) th (rev starts) 0 None = (c, o')" by fastforce
  have c: "c = length ?xs" using floodScan_count [of "di_now i - w" th "rev starts" 0 None] s by simp
  have none: "o' = None" if "th = 0"
  proof -
    have "snd (floodScan v 0 ys d None) = None" for v ys d by (induction ys arbitrary: d) auto
    then show ?thesis using s that by (metis snd_conv)
  qed
  have some: "o' = Some (rev starts ! (th - 1))" if "0 < th" "th \<le> length ?xs"
    using floodScan_oldest [of 0 th "di_now i - w" "rev starts" None] s that by simp
  have short: "o' = None" if "length ?xs < th"
    using floodScan_short [of "di_now i - w" "rev starts" 0 th None] s that by simp
  show ?thesis
    using assms s c none some short le
    by (cases "th = 0"; cases "th \<le> length ?xs") (auto simp: checkFloodGuard_def Let_def split: option.splits)
qed

lemma sorted_takeWhile_rev_count:
  assumes "sorted xs"
  shows "takeWhile (\<lambda>ts. \<not> ts < w) (rev xs) = rev (filter (\<lambda>ts. \<not> ts < (w :: int)) xs)"
  using assms
proof (induction xs)
  case (Cons x xs)
  show ?case
  proof (cases "x < w")
    case True
    then show ?thesis using Cons by (simp add: takeWhile_append)
  next
    case False
    then have "\<forall>y \<in> set (x # xs). \<not> y < w" using Cons.prems by auto
    then have "filter (\<lambda>ts. \<not> ts < w) (x # xs) = x # xs" "takeWhile (\<lambda>ts. \<not> ts < w) (rev (x # xs)) = rev (x # xs)"
      by (simp_all only: filter_id_conv takeWhile_eq_all_conv set_rev)
    then show ?thesis by simp
  qed
qed simp

lemma recorded_starts: "foldl (\<lambda>b t. recordRunStart b t th) [] history = drop (length history - Suc th) history"
proof (induction history rule: rev_induct)
  case (snoc t history)
  show ?case
  proof (cases "Suc th \<le> length history")
    case True
    then have "Suc (length history - Suc th) = length history - th" by simp
    with True snoc show ?thesis by (simp add: recordRunStart_def Let_def)
  next
    case False
    with snoc show ?thesis by (simp add: recordRunStart_def Let_def)
  qed
qed simp

lemma takeWhile_rev_suffix:
  assumes "th \<le> length (takeWhile P (rev xs))"
  shows "th \<le> length (takeWhile P (rev (drop (length xs - Suc th) xs)))"
proof -
  have r: "rev (drop (length xs - Suc th) xs) = take (Suc th) (rev xs)"
    by (cases "Suc th \<le> length xs") (simp_all add: take_rev)
  have "takeWhile P (take k ys) = take k (takeWhile P ys)" for k and ys :: "'a list"
    by (induction ys arbitrary: k) (auto simp: take_Cons split: nat.split)
  then show ?thesis using assms by (simp add: r)
qed

subsection \<open>Properties\<close>

text \<open>Active hours that depend on the minute change slower than a batch.\<close>

lemma seekMultiplier_batch:
  assumes "0 < n"
  shows "30000 \<le> n \<Longrightarrow> seekMultiplier n = 1" and "n < 30000 \<Longrightarrow> int (seekMultiplier n) * n < 60000"
proof -
  note e = mult_div_mod_eq [of n "30000 + n - 1"]
  have m: "0 \<le> (30000 + n - 1) mod n" using assms by (rule pos_mod_sign)
  show "seekMultiplier n = 1" if "30000 \<le> n"
  proof -
    have "(30000 + n - 1) div n = 1" using that by (intro int_div_pos_eq [where r = "29999"]) auto
    then show ?thesis by (simp add: seekMultiplier_def MIN_SEEK_STEP_MS_def)
  qed
  show "int (seekMultiplier n) * n < 60000" if "n < 30000"
  proof -
    have "1 * n \<le> 30000 + n - 1" by simp
    then have "1 \<le> (30000 + n - 1) div n" using assms by (intro zdiv_mono1 [of n _ n, simplified div_self]) auto
    then have "int (seekMultiplier n) = (30000 + n - 1) div n" by (simp add: seekMultiplier_def MIN_SEEK_STEP_MS_def)
    then have "int (seekMultiplier n) * n \<le> 30000 + n - 1" using e m by (simp only: mult.commute [of _ n])
    then show ?thesis using that by linarith
  qed
qed

lemma minute_slow:
  assumes "0 < n" "\<And>t. isActive t = hours (t div 60000)"
  shows "slowlyActive (\<lambda>j. isActive (start + int j * n)) (seekMultiplier n)"
  unfolding slowlyActive_def
proof (intro allI impI)
  fix a b c assume abc: "a < b" "b < c" "c \<le> a + seekMultiplier n"
  show "isActive (start + int b * n) = isActive (start + int a * n) \<or> isActive (start + int b * n) = isActive (start + int c * n)"
  proof (cases "30000 \<le> n")
    case True
    then show ?thesis using abc seekMultiplier_batch(1) [OF assms(1)] by simp
  next
    case False
    have "int c * n \<le> (int a + int (seekMultiplier n)) * n" using abc(3) assms(1) by (intro mult_right_mono) linarith+
    then have "int c * n < int a * n + 60000" using seekMultiplier_batch(2) [OF assms(1)] False by (simp add: distrib_right)
    moreover have "int a * n \<le> int b * n" "int b * n \<le> int c * n"
      using abc(1,2) assms(1) by (auto intro: mult_right_mono)
    ultimately have "(start + int b * n) div 60000 = (start + int a * n) div 60000
        \<or> (start + int b * n) div 60000 = (start + int c * n) div 60000"
      by linarith
    then show ?thesis unfolding assms(2) by metis
  qed
qed

lemma seek_slow:
  fixes isActive interval start
  defines "n \<equiv> resolvePositiveIntervalMs interval"
  assumes "slowlyActive (\<lambda>j. isActive (start + int j * n)) (seekMultiplier n)"
  shows "seekNextActivePhaseDueMs start interval (Some isActive)
      \<in> {start, start + int (LEAST j. isActive (start + int j * n)) * n}
    \<and> (isActive (start + int k * n) \<and> (int (k + seekMultiplier n) * n \<le> MAX_SEEK_HORIZON_MS
          \<or> seekMultiplier n = 1 \<and> int k * n < MAX_SEEK_HORIZON_MS) \<longrightarrow>
      seekNextActivePhaseDueMs start interval (Some isActive) = start + int (LEAST j. isActive (start + int j * n)) * n)
    \<and> ((\<forall>j. int j * n < MAX_SEEK_HORIZON_MS \<longrightarrow> \<not> isActive (start + int j * n)) \<longrightarrow>
      seekNextActivePhaseDueMs start interval (Some isActive) = start)"
proof -
  define m where "m = seekMultiplier n"
  define act where "act = (\<lambda>j. isActive (start + int j * n))"
  have slow: "slowlyActive act m" using assms(2) by (simp add: act_def m_def)
  have m: "0 < m" by (simp add: m_def seekMultiplier_def)
  have n: "0 < n" by (simp add: n_def)
  define res where "res = seekLoop isActive interval (start + MAX_SEEK_HORIZON_MS) start None"
  have loop: "case res of Some t \<Rightarrow> \<exists>k. t = start + int k * n \<and> act k \<and> (\<forall>i < k. \<not> act i) \<and> t < start + MAX_SEEK_HORIZON_MS
    | None \<Rightarrow> \<forall>i. int (i * m) * n < MAX_SEEK_HORIZON_MS \<longrightarrow> \<not> act (i * m)"
    using seekLoop_correct [of isActive start interval 0 None "start + MAX_SEEK_HORIZON_MS", folded n_def,
        folded m_def, folded act_def] slow by (auto simp: res_def [symmetric] act_def split: option.splits)
  have seek: "seekNextActivePhaseDueMs start interval (Some isActive) = nullish res start"
    by (simp add: seekNextActivePhaseDueMs_def res_def)
  have found: "nullish res start = start + int (LEAST j. act j) * n" if "res = Some t" for t
  proof -
    from loop that obtain k' where "t = start + int k' * n" "act k'" "\<forall>i < k'. \<not> act i" by auto
    moreover from this have "(LEAST j. act j) = k'" by (intro Least_equality) (auto simp: not_less)
    ultimately show ?thesis using that by simp
  qed
  then have "nullish res start \<in> {start, start + int (LEAST j. act j) * n}" by (cases res) simp_all
  moreover have "nullish res start = start + int (LEAST j. act j) * n"
    if a: "act k" and h: "int (k + m) * n \<le> MAX_SEEK_HORIZON_MS \<or> m = 1 \<and> int k * n < MAX_SEEK_HORIZON_MS"
  proof (cases "res = None \<and> int (k + m) * n \<le> MAX_SEEK_HORIZON_MS")
    case False
    show ?thesis
    proof (cases res)
      case None
      with False h have "m = 1" "int k * n < MAX_SEEK_HORIZON_MS" by simp_all
      have "\<forall>i. int (i * m) * n < MAX_SEEK_HORIZON_MS \<longrightarrow> \<not> act (i * m)" using loop unfolding None by simp
      then have "int (k * m) * n < MAX_SEEK_HORIZON_MS \<longrightarrow> \<not> act (k * m)" ..
      with \<open>m = 1\<close> \<open>int k * n < MAX_SEEK_HORIZON_MS\<close> a show ?thesis by simp
    qed (rule found)
  next
    case True
    then have None: "res = None" and h: "int (k + m) * n \<le> MAX_SEEK_HORIZON_MS" by simp_all
    have "\<not> act (i * m)" if "i * m < k + m" for i
    proof -
      have "int (i * m) * n < int (k + m) * n" using n that by (intro mult_strict_right_mono) linarith+
      then show ?thesis using loop None h by simp
    qed
    from slow_probes [OF slow m this] have "\<not> act k" .
    with a show ?thesis by simp
  qed
  moreover have "nullish res start = start" if none: "\<forall>j. int j * n < MAX_SEEK_HORIZON_MS \<longrightarrow> \<not> act j"
  proof (cases res)
    case (Some t)
    with loop obtain k' where "t = start + int k' * n" "act k'" "t < start + MAX_SEEK_HORIZON_MS"
      by (simp only: option.case) blast
    with none show ?thesis by auto
  qed simp
  ultimately show ?thesis unfolding seek by (simp add: act_def m_def)
qed

text \<open>
  C29: the search for the next slot inside the active hours, which probes batches of slots and bisects, finds what a
  scan of every slot up to the seven-day horizon finds. For active hours that depend on the minute alone and slots every
  \<open>n\<close> milliseconds: the result is the start or the first active slot, never another one; it is the first active slot
  whenever the horizon has an active slot (for intervals below 30 seconds: one at least a minute before its end), and the
  start when the horizon has none.
\<close>

theorem seek_finds_first_active_slot:
  fixes isActive hours interval start
  defines "n \<equiv> max 1 interval"
  assumes "\<forall>t. isActive t = hours (t div 60000)"
  shows "seekNextActivePhaseDueMs start interval (Some isActive)
      \<in> {start, start + int (LEAST j. isActive (start + int j * n)) * n}
    \<and> (isActive (start + int k * n) \<and> int k * n + (if n < 30000 then 60000 else 1) \<le> 7 * 24 * 60 * 60000 \<longrightarrow>
        seekNextActivePhaseDueMs start interval (Some isActive) = start + int (LEAST j. isActive (start + int j * n)) * n)
    \<and> ((\<forall>j. int j * n < 7 * 24 * 60 * 60000 \<longrightarrow> \<not> isActive (start + int j * n)) \<longrightarrow>
        seekNextActivePhaseDueMs start interval (Some isActive) = start)"
proof -
  have n: "n = resolvePositiveIntervalMs interval" "0 < n"
    by (simp_all add: n_def resolvePositiveIntervalMs_def resolveIntegerOption_def Let_def)
  have slow: "slowlyActive (\<lambda>j. isActive (start + int j * resolvePositiveIntervalMs interval)) (seekMultiplier (resolvePositiveIntervalMs interval))"
    using minute_slow [OF n(2), of isActive hours start] assms(2) n(1) by simp
  note seek = seek_slow [OF slow, folded n(1), unfolded MAX_SEEK_HORIZON_MS_def]
  show ?thesis
  proof (intro conjI impI)
    show "seekNextActivePhaseDueMs start interval (Some isActive)
        \<in> {start, start + int (LEAST j. isActive (start + int j * n)) * n}" using seek by blast
    show "seekNextActivePhaseDueMs start interval (Some isActive) = start"
      if "\<forall>j. int j * n < 7 * 24 * 60 * 60000 \<longrightarrow> \<not> isActive (start + int j * n)" using seek that by blast
    assume k: "isActive (start + int k * n) \<and> int k * n + (if n < 30000 then 60000 else 1) \<le> 7 * 24 * 60 * 60000"
    show "seekNextActivePhaseDueMs start interval (Some isActive) = start + int (LEAST j. isActive (start + int j * n)) * n"
    proof (cases "n < 30000")
      case True
      then have "int (k + seekMultiplier n) * n \<le> 7 * 24 * 60 * 60000"
        using k seekMultiplier_batch(2) [OF n(2)] by (simp add: distrib_right)
      with k seek show ?thesis by blast
    next
      case False
      then have "seekMultiplier n = 1" using seekMultiplier_batch(1) [OF n(2)] by simp
      moreover have "int k * n < 7 * 24 * 60 * 60000" using k False by simp
      ultimately show ?thesis using k seek by blast
    qed
  qed
qed

theorem seek_finds_first_active_slot_witness:
  "seekNextActivePhaseDueMs 500 1000 (Some (\<lambda>t. 2 \<le> t div 60000)) = 120500"
proof -
  have "\<forall>t :: int. (2 \<le> t div 60000) = (\<lambda>minute. 2 \<le> minute) (t div 60000)" by simp
  from seek_finds_first_active_slot [OF this, of 500 1000 120] have
    "seekNextActivePhaseDueMs 500 1000 (Some (\<lambda>t. 2 \<le> t div 60000))
      = 500 + int (LEAST j. 2 \<le> (500 + int j * 1000) div 60000) * 1000" by simp
  moreover have "(LEAST j. 2 \<le> (500 + int j * 1000) div 60000) = 120"
  proof (rule Least_equality)
    fix j assume "2 \<le> (500 + int j * 1000) div 60000"
    with mult_div_mod_eq [of 60000 "500 + int j * 1000"] pos_mod_sign [of 60000 "500 + int j * 1000"]
    have "2 * 60000 \<le> 500 + int j * 1000" by linarith
    then show "120 \<le> j" by linarith
  qed simp
  ultimately show ?thesis by simp
qed

text \<open>The next phase-aligned instant is the first one after now on the phase; a stored instant is kept while it
  lies ahead.\<close>

theorem next_due_is_first_on_phase:
  fixes interval now phase
  defines "n \<equiv> resolvePositiveIntervalMs interval"
  shows "now < computeNextHeartbeatPhaseDueMs now interval phase
    \<and> computeNextHeartbeatPhaseDueMs now interval phase mod n = phase mod n
    \<and> (\<forall>u. now < u \<and> u mod n = phase mod n \<longrightarrow> computeNextHeartbeatPhaseDueMs now interval phase \<le> u)"
  using computeNext_spec [where interval = interval and now = now and phase = phase, folded n_def]
    first_on_phase [of n now "computeNextHeartbeatPhaseDueMs now interval phase"] resolvePositive_pos [of interval, folded n_def]
  by auto

text \<open>
  The buffer the guard reads, if it was recorded from the starts of all runs so far, is enough: a wake other than a manual
  one is only run when fewer starts than the threshold lie in the window, counted over the whole history.
\<close>

lemma flood_guard_counts:
  assumes "sorted history" "0 < th" "0 < w" "di_intent i \<noteq> IntentManual"
    "di_recentRunStarts i = Some (foldl (\<lambda>b t. recordRunStart b t th) [] history)"
    "nullish (di_floodWindowMs i) DEFAULT_FLOOD_WINDOW_MS = w" "nullish (di_floodThreshold i) DEFAULT_FLOOD_THRESHOLD = th"
    "shouldDeferWake i = RunNow"
  shows "length (filter (\<lambda>t. di_now i - w \<le> t) history) < th"
proof (rule ccontr)
  assume "\<not> length (filter (\<lambda>t. di_now i - w \<le> t) history) < th"
  moreover have "filter (\<lambda>t. di_now i - w \<le> t) history = filter (\<lambda>ts. \<not> ts < di_now i - w) history"
    by (simp add: not_less)
  ultimately have "th \<le> length (takeWhile (\<lambda>ts. \<not> ts < di_now i - w) (rev history))"
    using sorted_takeWhile_rev_count [OF assms(1), of "di_now i - w"] by simp
  then have "th \<le> length (takeWhile (\<lambda>ts. \<not> ts < di_now i - w) (rev (drop (length history - Suc th) history)))"
    by (rule takeWhile_rev_suffix)
  then have "\<exists>t. checkFloodGuard i = Some (Defer Flood t)"
    using checkFloodGuard_iff [OF assms(5), of w th] assms(2,3,6,7) by (simp add: recorded_starts)
  then show False using assms(4,8) by (auto simp: shouldDeferWake_def split: wake_intent.splits)
qed

lemma bookkeeping_schedule [simp]:
  "ha_recentRunStarts (advanceAgentSchedule isActive agent now reason) = ha_recentRunStarts agent"
  "ha_recentRunStarts (advanceStaleScheduleAfterDeferral isActive agent now reason decision) = ha_recentRunStarts agent"
  "ha_recentRunStarts (snd (evaluateWakeDeferral agent now intent auth retained)) = ha_recentRunStarts agent"
  "ha_recentRunStarts (applyScheduledCadence agent cadence) = ha_recentRunStarts agent"
  by (auto simp: advanceAgentSchedule_def advanceStaleScheduleAfterDeferral_def evaluateWakeDeferral_def Let_def
      applyScheduledCadence_def split: defer_decision.split defer_reason.split option.split)

lemma runOneAgent_starts:
  assumes "runOneAgent isActive agent now reason intent auth retained busy = (agent1, started)"
  shows "started = [] \<and> ha_recentRunStarts agent1 = ha_recentRunStarts agent
    \<or> started = [now] \<and> ha_recentRunStarts agent1 = recordRunStart (ha_recentRunStarts agent) now DEFAULT_FLOOD_THRESHOLD"
proof -
  obtain decision agent' where e: "evaluateWakeDeferral agent now intent auth retained = (decision, agent')" by fastforce
  have "ha_recentRunStarts agent' = ha_recentRunStarts agent"
    using bookkeeping_schedule(3) [of agent now intent auth retained] by (simp only: e snd_conv)
  with assms e show ?thesis
    by (cases decision) (auto simp: runOneAgent_def recordRunBookkeeping_def split: if_splits)
qed

lemma runnerHistory_starts:
  assumes "runnerHistory isActive enrolledAt intervalMs phaseMs calls = (agent, starts)" "sorted (map callTime calls)"
  shows "ha_recentRunStarts agent = foldl (\<lambda>b t. recordRunStart b t DEFAULT_FLOOD_THRESHOLD) [] starts
    \<and> sorted starts \<and> set starts \<subseteq> callTime ` set calls"
  using assms
proof (induction calls arbitrary: agent starts rule: rev_induct)
  case Nil
  then show ?case by (auto simp: runnerHistory_def updateAgentConfig_def Let_def)
next
  case (snoc call calls)
  obtain agent0 starts0 where h: "runnerHistory isActive enrolledAt intervalMs phaseMs calls = (agent0, starts0)" by fastforce
  then have step: "runnerStep (agent0, starts0) call = (agent, starts)"
    using snoc.prems(1) by (simp add: runnerHistory_def)
  have before: "sorted (map callTime calls)" "\<forall>t \<in> callTime ` set calls. t \<le> callTime call"
    using snoc.prems(2) by (auto simp: sorted_append)
  note ih = snoc.IH [OF h before(1)]
  show ?case
  proof (cases call)
    case (WakeCall act now reason intent cadence retained busy)
    obtain agent1 started where r: "runOneAgent act (applyScheduledCadence agent0 cadence) now reason intent
        (cadence \<noteq> None) retained busy = (agent1, started)" by fastforce
    with step WakeCall have a: "agent = agent1" "starts = starts0 @ started" by auto
    from runOneAgent_starts [OF r] ih before(2) WakeCall show ?thesis
      unfolding a by (auto simp: sorted_append subset_iff)
  next
    case (ConfigCall act now i p changed)
    with step ih show ?thesis by (auto simp: updateAgentConfig_def Let_def)
  qed
qed

text \<open>
  C32: the flood guard bounds the rate of heartbeat runs. After every history of an enrolled agent (wakes of every kind
  served one after the other at times that do not run backwards, busy turns, thrown ones, cadence updates and changes of
  the configuration), a wake that is not manual is run only when fewer than five of all the runs recorded since the
  enrolment, manual ones included, started within the last 60000 milliseconds.
\<close>

theorem flood_guard_bounds_runs:
  assumes "runnerHistory isActive enrolledAt intervalMs phaseMs calls = (agent, starts)"
    and "sorted (map callTime calls)"
    and "nullish intent IntentEvent \<noteq> IntentManual"
    and "fst (evaluateWakeDeferral (applyScheduledCadence agent cadence) now intent authoritative retained) = RunNow"
  shows "length (filter (\<lambda>t. now - 60000 \<le> t) starts) < 5"
proof -
  note history = runnerHistory_starts [OF assms(1,2)]
  show ?thesis
    using flood_guard_counts [of starts 5 60000, OF _ _ _ _ _ _ _ assms(4) [unfolded evaluateWakeDeferral_def Let_def fst_conv]]
      history assms(3) by (simp add: DEFAULT_FLOOD_WINDOW_MS_def DEFAULT_FLOOD_THRESHOLD_def)
qed

definition demo_defer :: "wake_intent \<Rightarrow> int \<Rightarrow> defer_input" where
  "demo_defer intent now = \<lparr>di_intent = intent, di_now = now, di_nextDueMs = 0, di_lastRunStartedAtMs = Some 0,
     di_recentRunStarts = Some (foldl (\<lambda>b t. recordRunStart b t 2) [] [0, 10, 20, 30]), di_minSpacingMs = Some 1,
     di_floodWindowMs = Some 60, di_floodThreshold = Some 2, di_retainedWork = False\<rparr>"

definition demo_runs :: "runner_call list" where
  "demo_runs = map (\<lambda>t. WakeCall (\<lambda>_. True) t (Some ''wake'') (Some IntentManual) None False False) [0, 1000, 2000, 3000, 4000]"

lemma demo_history:
  "snd (runnerHistory (\<lambda>_. True) 0 1800000 0 demo_runs) = [0, 1000, 2000, 3000, 4000]"
  "fst (evaluateWakeDeferral (applyScheduledCadence (fst (runnerHistory (\<lambda>_. True) 0 1800000 0 demo_runs)) None)
     60001 (Some IntentImmediate) False False) = RunNow"
  "fst (evaluateWakeDeferral (applyScheduledCadence (fst (runnerHistory (\<lambda>_. True) 0 1800000 0 demo_runs)) None)
     60000 (Some IntentImmediate) False False) = Defer Flood 60001"
  by code_simp+

theorem flood_guard_bounds_runs_witness:
  "length (filter (\<lambda>t. 60001 - 60000 \<le> t) (snd (runnerHistory (\<lambda>_. True) 0 1800000 0 demo_runs))) < 5"
  by (rule flood_guard_bounds_runs [OF surjective_pairing _ _ demo_history(2)])
    (simp_all add: demo_runs_def)

lemma flood_future:
  assumes "checkFloodGuard i = Some d"
  obtains t where "d = Defer Flood t" "di_now i < t"
    "\<And>now r. t \<le> now \<Longrightarrow> checkFloodGuard (i\<lparr>di_now := now, di_retainedWork := r\<rparr>) = None"
proof -
  define w where "w = nullish (di_floodWindowMs i) DEFAULT_FLOOD_WINDOW_MS"
  define th where "th = nullish (di_floodThreshold i) DEFAULT_FLOOD_THRESHOLD"
  obtain starts where s: "di_recentRunStarts i = Some starts"
    using assms by (cases "di_recentRunStarts i") (simp_all add: checkFloodGuard_def Let_def)
  let ?tw = "\<lambda>now. takeWhile (\<lambda>ts. \<not> ts < now - w) (rev starts)"
  have g: "0 < th" "0 < w" "th \<le> length (?tw (di_now i))" "d = Defer Flood (rev starts ! (th - 1) + w + 1)"
    using assms checkFloodGuard_iff [OF s w_def th_def] by (auto split: if_splits)
  define o' where "o' = rev starts ! (th - 1)"
  have old: "\<not> rev starts ! (th - 1) < now - w" if "th \<le> length (?tw now)" for now
  proof -
    have "th - 1 < length (?tw now)" using that g(1) by simp
    then show ?thesis using nth_mem takeWhile_nth set_takeWhileD by metis
  qed
  have "checkFloodGuard (i\<lparr>di_now := now, di_retainedWork := r\<rparr>) = None" if "o' + w + 1 \<le> now" for now r
  proof -
    have "\<not> th \<le> length (?tw now)" using old [of now] that by (auto simp: o'_def)
    then show ?thesis
      using checkFloodGuard_iff [of "i\<lparr>di_now := now, di_retainedWork := r\<rparr>" starts w th] s by (simp add: w_def th_def)
  qed
  moreover have "di_now i < o' + w + 1" using old [OF g(3)] by (simp add: o'_def)
  ultimately show thesis using that g(4) by (simp add: o'_def)
qed

lemma spacing_future:
  assumes "resolveMinSpacingRetryAtMs i = Some t"
  shows "di_now i < t" and "t \<le> now \<Longrightarrow> resolveMinSpacingRetryAtMs (i\<lparr>di_now := now, di_retainedWork := r\<rparr>) = None"
  using assms by (auto simp: resolveMinSpacingRetryAtMs_def Let_def split: option.splits if_splits)

text \<open>
  A deferral names a later instant, and from that instant on the guard that deferred does not defer the
  retained wake again.
\<close>

theorem deferral_ends:
  assumes "shouldDeferWake i = Defer reason t" "t \<le> now"
  shows "di_now i < t \<and> shouldDeferWake (i\<lparr>di_now := now, di_retainedWork := True\<rparr>) \<noteq> Defer reason t'"
proof (cases "checkFloodGuard i")
  case (Some d)
  then have "d = Defer reason t"
    using assms(1) by (auto simp: shouldDeferWake_def split: wake_intent.splits)
  with flood_future [OF Some] assms(2)
  have "reason = Flood" "di_now i < t" "checkFloodGuard (i\<lparr>di_now := now, di_retainedWork := True\<rparr>) = None"
    by (metis defer_decision.inject)+
  then show ?thesis
    by (auto simp: shouldDeferWake_def split: wake_intent.splits option.splits if_splits)
next
  case None
  have f: "reason \<noteq> Flood" using assms(1) None
    by (auto simp: shouldDeferWake_def split: wake_intent.splits option.splits if_splits)
  have fl: "checkFloodGuard j = Some d \<Longrightarrow> \<exists>u. d = Defer Flood u" for j d using flood_future by metis
  show ?thesis
    using assms None f spacing_future [of i]
    by (auto simp: shouldDeferWake_def split: wake_intent.splits option.splits if_splits dest!: fl)
qed

theorem deferral_ends_witness:
  "shouldDeferWake (demo_defer IntentTask 31) = Defer Flood 81
   \<and> shouldDeferWake ((demo_defer IntentTask 31)\<lparr>di_now := 81, di_retainedWork := True\<rparr>) \<noteq> Defer Flood 100"
proof -
  have "shouldDeferWake (demo_defer IntentTask 31) = Defer Flood 81" by code_simp
  with deferral_ends [OF this, of 81] show ?thesis by simp
qed

end
