(* ===== verification/Rate_Limits.thy ===== *)
theory Rate_Limits
  imports Identifiers Number_Coercion
begin

text \<open>
  The rate limiters in front of the gateway: the sliding-window limiter for authentication attempts of
  \<open>src/gateway/auth-rate-limit.ts\<close> and the fixed-window limiter of
  \<open>src/infra/fixed-window-rate-limit.ts\<close>.

  Times are integral milliseconds and the clock is an argument. An option of type number is absent or
  finite. \<open>resolveClientIp\<close> and \<open>isLoopbackAddress\<close> of \<open>src/gateway/net.ts\<close>
  rest on a third-party address parser and are parameters (\<open>clientIp\<close>, \<open>loopback\<close>). A
  JavaScript \<open>Map\<close> is an association list in insertion order; entries are updated in place. The
  prune timer is a call of \<open>prune\<close>. The lemmas show that the table stays bounded, that a lockout
  cannot be shaken off, and when it begins.
\<close>

subsection \<open>The authentication limiter\<close>

definition resolvePruneIntervalMs :: "int option \<Rightarrow> int" where
  "resolvePruneIntervalMs value =
     (case value of
        None \<Rightarrow> 60000
      | Some v \<Rightarrow> if v \<le> 0 then 0 else resolveTimerTimeoutMs (Some v) 60000 1)"

record rate_limit_config =
  rc_maxAttempts :: "int option"
  rc_windowMs :: "int option"
  rc_lockoutMs :: "int option"
  rc_exemptLoopback :: "bool option"
  rc_pruneIntervalMs :: "int option"
  rc_maxEntries :: "int option"

record rate_limit_entry =
  at_attempts :: "int list"
  at_lockedUntil :: "int option"

record rate_limit_result =
  rs_allowed :: bool
  rs_remaining :: int
  rs_retryAfterMs :: int

text \<open>The constants and variables that the closures of one limiter share.\<close>

record limiter_options =
  lo_maxAttempts :: int
  lo_windowMs :: int
  lo_lockoutMs :: int
  lo_exemptLoopback :: bool
  lo_pruneIntervalMs :: int
  lo_maxEntries :: int
  lo_clientIp :: "string option \<Rightarrow> string option"
  lo_loopback :: "string \<Rightarrow> bool"

record auth_limiter =
  lm_entries :: "(string, rate_limit_entry) js_map"
  lm_overflowLockedUntil :: "int option"

definition createAuthRateLimiter ::
  "(string option \<Rightarrow> string option) \<Rightarrow> (string \<Rightarrow> bool) \<Rightarrow> rate_limit_config \<Rightarrow> limiter_options \<times> auth_limiter" where
  "createAuthRateLimiter clientIp loopback config =
     (\<lparr>lo_maxAttempts = nullish (rc_maxAttempts config) 10,
       lo_windowMs = resolveTimerTimeoutMs (rc_windowMs config) 60000 0,
       lo_lockoutMs = resolveTimerTimeoutMs (rc_lockoutMs config) 300000 0,
       lo_exemptLoopback = nullish (rc_exemptLoopback config) True,
       lo_pruneIntervalMs = resolvePruneIntervalMs (rc_pruneIntervalMs config),
       lo_maxEntries = resolveIntegerOption (rc_maxEntries config) 10000 (Some 1) None,
       lo_clientIp = clientIp, lo_loopback = loopback\<rparr>,
      \<lparr>lm_entries = [], lm_overflowLockedUntil = None\<rparr>)"

definition normalizeRateLimitClientIp :: "(string option \<Rightarrow> string option) \<Rightarrow> string option \<Rightarrow> string" where
  "normalizeRateLimitClientIp clientIp ip =
     (case ip of
        Some s \<Rightarrow> if js_startsWith s ''browser-origin:'' \<or> js_startsWith s ''identity:'' then s
                  else nullish (clientIp ip) ''unknown''
      | None \<Rightarrow> nullish (clientIp ip) ''unknown'')"

definition buildRateLimitIdentityKey :: "string \<Rightarrow> string \<Rightarrow> string" where
  "buildRateLimitIdentityKey namespace identity = ''identity:'' @ namespace @ '':'' @ identity"

definition normalizeScope :: "string option \<Rightarrow> string" where
  "normalizeScope scope =
     (let trimmed = js_trim (nullish scope ''default'') in if trimmed \<noteq> [] then trimmed else ''default'')"

definition resolveKey :: "limiter_options \<Rightarrow> string option \<Rightarrow> string option \<Rightarrow> string \<times> string" where
  "resolveKey opts rawIp rawScope =
     (let ip = normalizeRateLimitClientIp (lo_clientIp opts) rawIp
      in (normalizeScope rawScope @ '':'' @ ip, ip))"

definition isExempt :: "limiter_options \<Rightarrow> string \<Rightarrow> bool" where
  "isExempt opts ip \<longleftrightarrow> lo_exemptLoopback opts \<and> lo_loopback opts ip"

definition slideWindow :: "limiter_options \<Rightarrow> int \<Rightarrow> rate_limit_entry \<Rightarrow> rate_limit_entry" where
  "slideWindow opts now entry =
     entry\<lparr>at_attempts := filter (\<lambda>ts. ts > now - lo_windowMs opts) (at_attempts entry)\<rparr>"

text \<open>\<open>lockedUntil && now < lockedUntil\<close> and \<open>lockedUntil && now >= lockedUntil\<close>; zero is
  falsy.\<close>

definition stillLocked :: "int \<Rightarrow> rate_limit_entry \<Rightarrow> bool" where
  "stillLocked now entry =
     (case at_lockedUntil entry of None \<Rightarrow> False | Some t \<Rightarrow> t \<noteq> 0 \<and> now < t)"

definition lockExpired :: "int \<Rightarrow> rate_limit_entry \<Rightarrow> bool" where
  "lockExpired now entry =
     (case at_lockedUntil entry of None \<Rightarrow> False | Some t \<Rightarrow> t \<noteq> 0 \<and> now \<ge> t)"

fun pruneEntries :: "limiter_options \<Rightarrow> int \<Rightarrow> (string, rate_limit_entry) js_map \<Rightarrow> (string, rate_limit_entry) js_map" where
  "pruneEntries opts now [] = []"
| "pruneEntries opts now ((key, entry) # rest) =
     (if stillLocked now entry then (key, entry) # pruneEntries opts now rest
      else let slid = slideWindow opts now entry
        in if at_attempts slid = [] then pruneEntries opts now rest
           else (key, slid) # pruneEntries opts now rest)"

definition pruneExpiredEntries :: "limiter_options \<Rightarrow> int \<Rightarrow> auth_limiter \<Rightarrow> auth_limiter" where
  "pruneExpiredEntries opts now l = l\<lparr>lm_entries := pruneEntries opts now (lm_entries l)\<rparr>"

definition entryCount :: "auth_limiter \<Rightarrow> int" where
  "entryCount l = int (length (lm_entries l))"

definition checkOverflowLock ::
  "limiter_options \<Rightarrow> int \<Rightarrow> auth_limiter \<Rightarrow> rate_limit_result option \<times> auth_limiter" where
  "checkOverflowLock opts now l =
     (case lm_overflowLockedUntil l of
        None \<Rightarrow> (None, l)
      | Some t \<Rightarrow>
          if t = 0 then (None, l)
          else if now \<ge> t then (None, l\<lparr>lm_overflowLockedUntil := None\<rparr>)
          else
            let l1 = (if entryCount l \<ge> lo_maxEntries opts then pruneExpiredEntries opts now l else l)
            in if entryCount l1 < lo_maxEntries opts then (None, l1\<lparr>lm_overflowLockedUntil := None\<rparr>)
               else (Some \<lparr>rs_allowed = False, rs_remaining = 0, rs_retryAfterMs = t - now\<rparr>, l1))"

text \<open>The loop over the entries that evicts the first one without an active lockout.\<close>

fun evictUnlocked :: "int \<Rightarrow> (string, rate_limit_entry) js_map \<Rightarrow> (string, rate_limit_entry) js_map option" where
  "evictUnlocked now [] = None"
| "evictUnlocked now ((key, entry) # rest) =
     (if \<not> stillLocked now entry then Some rest
      else map_option (\<lambda>rest'. (key, entry) # rest') (evictUnlocked now rest))"

definition enforceMaxEntries :: "limiter_options \<Rightarrow> int \<Rightarrow> auth_limiter \<Rightarrow> bool \<times> auth_limiter" where
  "enforceMaxEntries opts now l =
     (if entryCount l < lo_maxEntries opts then (True, l)
      else
        let l1 = pruneExpiredEntries opts now l
        in if entryCount l1 < lo_maxEntries opts then (True, l1)
           else case evictUnlocked now (lm_entries l1) of
             Some rest \<Rightarrow> (True, l1\<lparr>lm_entries := rest\<rparr>)
           | None \<Rightarrow> (False, l1))"

definition check ::
  "limiter_options \<Rightarrow> string option \<Rightarrow> string option \<Rightarrow> int \<Rightarrow> auth_limiter \<Rightarrow> rate_limit_result \<times> auth_limiter" where
  "check opts rawIp rawScope now l =
     (let (key, ip) = resolveKey opts rawIp rawScope;
          free = \<lparr>rs_allowed = True, rs_remaining = lo_maxAttempts opts, rs_retryAfterMs = 0\<rparr>
      in if isExempt opts ip then (free, l)
         else case map_of (lm_entries l) key of
           None \<Rightarrow>
             (case checkOverflowLock opts now l of
                (Some locked, l1) \<Rightarrow> (locked, l1)
              | (None, l1) \<Rightarrow> (free, l1))
         | Some entry \<Rightarrow>
             if stillLocked now entry
             then (\<lparr>rs_allowed = False, rs_remaining = 0,
                    rs_retryAfterMs = nullish (at_lockedUntil entry) 0 - now\<rparr>, l)
             else
               let entry1 = (if lockExpired now entry
                             then entry\<lparr>at_lockedUntil := None, at_attempts := []\<rparr> else entry);
                   entry2 = slideWindow opts now entry1;
                   remaining = max 0 (lo_maxAttempts opts - int (length (at_attempts entry2)))
               in (\<lparr>rs_allowed = remaining > 0, rs_remaining = remaining, rs_retryAfterMs = 0\<rparr>,
                   l\<lparr>lm_entries := AList.update key entry2 (lm_entries l)\<rparr>))"

text \<open>The part of \<open>recordFailure\<close> after the entry of the key is known.\<close>

definition countFailure ::
  "limiter_options \<Rightarrow> string \<Rightarrow> int \<Rightarrow> rate_limit_entry \<Rightarrow> auth_limiter \<Rightarrow> auth_limiter" where
  "countFailure opts key now entry l =
     (if stillLocked now entry then l
      else
        let slid = slideWindow opts now entry;
            entry1 = slid\<lparr>at_attempts := at_attempts slid @ [now]\<rparr>;
            entry2 = (if int (length (at_attempts entry1)) \<ge> lo_maxAttempts opts
                      then entry1\<lparr>at_lockedUntil := Some (now + lo_lockoutMs opts)\<rparr> else entry1)
        in l\<lparr>lm_entries := AList.update key entry2 (lm_entries l)\<rparr>)"

definition recordFailure ::
  "limiter_options \<Rightarrow> string option \<Rightarrow> string option \<Rightarrow> int \<Rightarrow> auth_limiter \<Rightarrow> auth_limiter" where
  "recordFailure opts rawIp rawScope now l =
     (let (key, ip) = resolveKey opts rawIp rawScope
      in if isExempt opts ip then l
         else case map_of (lm_entries l) key of
           Some entry \<Rightarrow> countFailure opts key now entry l
         | None \<Rightarrow>
             (case enforceMaxEntries opts now l of
                (False, l1) \<Rightarrow>
                  l1\<lparr>lm_overflowLockedUntil :=
                       Some (max (nullish (lm_overflowLockedUntil l1) 0) (now + lo_lockoutMs opts))\<rparr>
              | (True, l1) \<Rightarrow>
                  let entry = \<lparr>at_attempts = [], at_lockedUntil = None\<rparr>
                  in countFailure opts key now entry
                       (l1\<lparr>lm_entries := AList.update key entry (lm_entries l1)\<rparr>)))"

definition resetEntry :: "limiter_options \<Rightarrow> string option \<Rightarrow> string option \<Rightarrow> auth_limiter \<Rightarrow> auth_limiter" where
  "resetEntry opts rawIp rawScope l =
     (let (key, ip) = resolveKey opts rawIp rawScope
      in l\<lparr>lm_entries := AList.delete key (lm_entries l)\<rparr>)"

definition prune :: "limiter_options \<Rightarrow> int \<Rightarrow> auth_limiter \<Rightarrow> auth_limiter" where
  "prune opts now l = pruneExpiredEntries opts now l"

definition dispose :: "auth_limiter \<Rightarrow> auth_limiter" where
  "dispose l = \<lparr>lm_entries = [], lm_overflowLockedUntil = None\<rparr>"

subsection \<open>The fixed-window limiter\<close>

record fixed_window =
  fw_count :: int
  fw_windowStartMs :: int

definition resolveFixedWindowRateLimitInteger :: "int option \<Rightarrow> int \<Rightarrow> int \<Rightarrow> int" where
  "resolveFixedWindowRateLimitInteger value fallback lo = max lo (nullish value fallback)"

definition createFixedWindowRateLimiter :: fixed_window where
  "createFixedWindowRateLimiter = \<lparr>fw_count = 0, fw_windowStartMs = 0\<rparr>"

definition consume :: "int option \<Rightarrow> int option \<Rightarrow> int \<Rightarrow> fixed_window \<Rightarrow> rate_limit_result \<times> fixed_window" where
  "consume maxRequestsOpt windowMsOpt nowMs w =
     (let maxRequests = resolveFixedWindowRateLimitInteger maxRequestsOpt 1 1;
          windowMs = resolveFixedWindowRateLimitInteger windowMsOpt 1 1;
          w1 = (if nowMs - fw_windowStartMs w \<ge> windowMs
                then \<lparr>fw_count = 0, fw_windowStartMs = nowMs\<rparr> else w)
      in if fw_count w1 \<ge> maxRequests
         then (\<lparr>rs_allowed = False, rs_remaining = 0,
                rs_retryAfterMs = max 0 (fw_windowStartMs w1 + windowMs - nowMs)\<rparr>, w1)
         else
           let w2 = w1\<lparr>fw_count := fw_count w1 + 1\<rparr>
           in (\<lparr>rs_allowed = True, rs_remaining = max 0 (maxRequests - fw_count w2), rs_retryAfterMs = 0\<rparr>, w2))"

definition resetWindow :: "fixed_window \<Rightarrow> fixed_window" where
  "resetWindow w = \<lparr>fw_count = 0, fw_windowStartMs = 0\<rparr>"

subsection \<open>Sequences of calls\<close>

datatype limiter_call =
    CheckCall "string option" "string option" int
  | FailureCall "string option" "string option" int
  | ResetCall "string option" "string option"
  | PruneCall int
  | DisposeCall

fun applyCall :: "limiter_options \<Rightarrow> limiter_call \<Rightarrow> auth_limiter \<Rightarrow> auth_limiter" where
  "applyCall opts (CheckCall ip scope now) l = snd (check opts ip scope now l)"
| "applyCall opts (FailureCall ip scope now) l = recordFailure opts ip scope now l"
| "applyCall opts (ResetCall ip scope) l = resetEntry opts ip scope l"
| "applyCall opts (PruneCall now) l = prune opts now l"
| "applyCall opts DisposeCall l = dispose l"

definition runCalls :: "limiter_options \<Rightarrow> limiter_call list \<Rightarrow> auth_limiter \<Rightarrow> auth_limiter" where
  "runCalls opts calls l = foldl (\<lambda>l c. applyCall opts c l) l calls"

text \<open>A call that happens before \<open>t\<close> and does not reset \<open>key\<close>.\<close>

fun leavesLock :: "limiter_options \<Rightarrow> string \<Rightarrow> int \<Rightarrow> limiter_call \<Rightarrow> bool" where
  "leavesLock opts key t (CheckCall ip scope now) = (now < t)"
| "leavesLock opts key t (FailureCall ip scope now) = (now < t)"
| "leavesLock opts key t (ResetCall ip scope) = (fst (resolveKey opts ip scope) \<noteq> key)"
| "leavesLock opts key t (PruneCall now) = (now < t)"
| "leavesLock opts key t DisposeCall = False"

subsection \<open>Lockouts\<close>

lemma prune_keeps_locked:
  "map_of es key = Some e \<Longrightarrow> stillLocked now e \<Longrightarrow> map_of (pruneEntries opts now es) key = Some e"
  by (induction opts now es rule: pruneEntries.induct) (auto simp: Let_def split: if_splits)

lemma evict_keeps_locked:
  "evictUnlocked now es = Some rest \<Longrightarrow> map_of es key = Some e \<Longrightarrow> stillLocked now e \<Longrightarrow> map_of rest key = Some e"
  by (induction now es arbitrary: rest rule: evictUnlocked.induct) (auto split: if_splits)

lemma enforce_keeps_locked:
  assumes "map_of (lm_entries l) key = Some e" "stillLocked now e"
  shows "map_of (lm_entries (snd (enforceMaxEntries opts now l))) key = Some e"
  using assms prune_keeps_locked [OF assms]
  by (auto simp: enforceMaxEntries_def pruneExpiredEntries_def Let_def split: option.splits dest: evict_keeps_locked)

lemma overflow_keeps_locked:
  assumes "map_of (lm_entries l) key = Some e" "stillLocked now e"
  shows "map_of (lm_entries (snd (checkOverflowLock opts now l))) key = Some e"
  using assms prune_keeps_locked [OF assms]
  by (auto simp: checkOverflowLock_def pruneExpiredEntries_def Let_def split: option.splits)

lemma check_keeps_locked:
  assumes "map_of (lm_entries l) key = Some e" "stillLocked now e"
  shows "map_of (lm_entries (snd (check opts ip scope now l))) key = Some e"
  using assms overflow_keeps_locked [OF assms, of opts]
  by (auto simp: check_def Let_def update_conv' split: prod.split option.split)

lemma countFailure_keeps_locked:
  assumes "map_of (lm_entries l) key = Some e" "key' \<noteq> key \<or> stillLocked now e'"
  shows "map_of (lm_entries (countFailure opts key' now e' l)) key = Some e"
  using assms by (auto simp: countFailure_def Let_def update_conv')

lemma failure_keeps_locked:
  assumes "map_of (lm_entries l) key = Some e" "stillLocked now e"
  shows "map_of (lm_entries (recordFailure opts ip scope now l)) key = Some e"
proof -
  obtain key' addr where k: "resolveKey opts ip scope = (key', addr)" by fastforce
  obtain ok l1 where enf: "enforceMaxEntries opts now l = (ok, l1)" by fastforce
  have l1: "map_of (lm_entries l1) key = Some e"
    using enforce_keeps_locked [OF assms, of opts] enf by simp
  show ?thesis
  proof (cases "map_of (lm_entries l) key'")
    case None
    then have "key' \<noteq> key" using assms(1) by auto
    then show ?thesis using None k enf l1 assms(1)
      by (auto simp: recordFailure_def Let_def update_conv' split: bool.split intro!: countFailure_keeps_locked)
  next
    case (Some e')
    then show ?thesis using k assms
      by (auto simp: recordFailure_def Let_def intro!: countFailure_keeps_locked)
  qed
qed

lemma call_keeps_locked:
  assumes "map_of (lm_entries l) key = Some e" "at_lockedUntil e = Some t" "t \<noteq> 0" "leavesLock opts key t c"
  shows "map_of (lm_entries (applyCall opts c l)) key = Some e"
proof (cases c)
  case (ResetCall ip scope)
  then show ?thesis using assms
    by (simp add: resetEntry_def delete_conv' case_prod_unfold)
qed (use assms in \<open>auto simp: check_keeps_locked failure_keeps_locked prune_def pruneExpiredEntries_def
      prune_keeps_locked stillLocked_def\<close>)

lemma calls_keep_locked:
  assumes "map_of (lm_entries l) key = Some e" "at_lockedUntil e = Some t" "t \<noteq> 0"
    and "\<forall>c \<in> set calls. leavesLock opts key t c"
  shows "map_of (lm_entries (runCalls opts calls l)) key = Some e"
  using assms
proof (induction calls arbitrary: l)
  case (Cons c calls)
  then show ?case using call_keeps_locked [of l key e t opts c] by (simp add: runCalls_def)
qed (simp add: runCalls_def)

text \<open>What \<open>check\<close> answers for a key that has an entry.\<close>

lemma check_locked:
  assumes "resolveKey opts ip scope = (key, addr)" "\<not> isExempt opts addr"
    and "map_of (lm_entries l) key = Some e" "at_lockedUntil e = Some t" "t \<noteq> 0" "now < t"
  shows "fst (check opts ip scope now l) = \<lparr>rs_allowed = False, rs_remaining = 0, rs_retryAfterMs = t - now\<rparr>"
  using assms by (simp add: check_def stillLocked_def)

subsection \<open>Failures of one key\<close>

definition recordFailures ::
  "limiter_options \<Rightarrow> string option \<Rightarrow> string option \<Rightarrow> int list \<Rightarrow> auth_limiter \<Rightarrow> auth_limiter" where
  "recordFailures opts ip scope tms l = foldl (\<lambda>l now. recordFailure opts ip scope now l) l tms"

definition expectedEntry :: "limiter_options \<Rightarrow> int list \<Rightarrow> rate_limit_entry" where
  "expectedEntry opts tms =
     (let m = nat (lo_maxAttempts opts) in
      if length tms < m then \<lparr>at_attempts = tms, at_lockedUntil = None\<rparr>
      else \<lparr>at_attempts = take m tms, at_lockedUntil = Some (tms ! (m - 1) + lo_lockoutMs opts)\<rparr>)"

lemma sorted_snoc_window:
  fixes b :: int
  assumes "sorted (xs @ [b])" "b < hd (xs @ [b]) + w" "xs \<noteq> []"
  shows "filter (\<lambda>ts. ts > b - w) xs = xs"
proof -
  have "hd xs \<le> x" if "x \<in> set xs" for x
    using assms(1,3) that by (cases xs) (auto simp: sorted_append)
  then have "b - w < x" if "x \<in> set xs" for x using assms(2,3) that by fastforce
  then show ?thesis by (simp add: filter_id_conv)
qed

lemma recordFailures_entry:
  assumes key: "resolveKey opts ip scope = (key, addr)" "\<not> isExempt opts addr" "1 \<le> lo_maxAttempts opts"
    and fresh: "map_of (lm_entries l) key = None" "tms \<noteq> []" "fst (enforceMaxEntries opts (hd tms) l)"
    and tms: "sorted tms" "0 < hd tms" "0 \<le> lo_lockoutMs opts" "last tms < hd tms + lo_windowMs opts"
    and locked: "nat (lo_maxAttempts opts) \<le> length tms \<Longrightarrow>
      last tms < tms ! (nat (lo_maxAttempts opts) - 1) + lo_lockoutMs opts"
  shows "map_of (lm_entries (recordFailures opts ip scope tms l)) key = Some (expectedEntry opts tms)"
  using fresh(2,3) tms locked
proof (induction tms rule: rev_induct)
  case (snoc b xs)
  let ?m = "nat (lo_maxAttempts opts)"
  show ?case
  proof (cases "xs = []")
    case True
    obtain l1 where "enforceMaxEntries opts b l = (True, l1)" using snoc.prems(2) True by (cases "enforceMaxEntries opts b l") auto
    then show ?thesis using key fresh(1) True
      by (auto simp: recordFailures_def recordFailure_def countFailure_def expectedEntry_def stillLocked_def
          slideWindow_def Let_def update_conv')
  next
    case False
    have m1: "1 \<le> ?m" using key(3) by simp
    have mono: "last xs \<le> b" "sorted xs" using snoc.prems(3) False by (auto simp: sorted_append)
    have IH: "map_of (lm_entries (recordFailures opts ip scope xs l)) key = Some (expectedEntry opts xs)"
    proof (rule snoc.IH [OF False])
      assume le: "?m \<le> length xs"
      then have "?m - 1 < length xs" using key(3) by linarith
      then show "last xs < xs ! (?m - 1) + lo_lockoutMs opts"
        using snoc.prems(7) mono(1) le by (simp add: nth_append)
    qed (use snoc.prems mono False in auto)
    have pos: "0 < xs ! (?m - 1)" if "?m \<le> length xs"
    proof -
      have "?m - 1 < length xs" using that key(3) by linarith
      then have "hd xs \<le> xs ! (?m - 1)" using mono(2) False by (simp add: hd_conv_nth sorted_nth_mono)
      then show ?thesis using snoc.prems(4) False by simp
    qed
    have "recordFailures opts ip scope (xs @ [b]) l
        = countFailure opts key b (expectedEntry opts xs) (recordFailures opts ip scope xs l)"
      using key IH by (simp add: recordFailures_def recordFailure_def)
    moreover have "filter (\<lambda>ts. ts > b - lo_windowMs opts) xs = xs"
      using sorted_snoc_window [OF snoc.prems(3) _ False] snoc.prems(6) by simp
    moreover have "xs ! (?m - 1) + lo_lockoutMs opts \<noteq> 0 \<and> b < xs ! (?m - 1) + lo_lockoutMs opts"
      if "?m \<le> length xs"
      using pos that snoc.prems(5,7) m1 by (auto simp: nth_append split: if_splits)
    ultimately show ?thesis
      using IH m1
      by (cases "?m \<le> length xs")
        (auto simp: countFailure_def expectedEntry_def stillLocked_def slideWindow_def Let_def update_conv' nth_append)
  qed
qed simp

subsection \<open>Bounds of the table\<close>

definition boundedTable :: "limiter_options \<Rightarrow> (string, rate_limit_entry) js_map \<Rightarrow> bool" where
  "boundedTable opts es \<longleftrightarrow> distinct (map fst es) \<and> int (length es) \<le> lo_maxEntries opts"

lemma pruneEntries_keys: "set (map fst (pruneEntries opts now es)) \<subseteq> set (map fst es)"
  by (induction opts now es rule: pruneEntries.induct) (auto simp: Let_def)

lemma pruneEntries_length: "length (pruneEntries opts now es) \<le> length es"
  by (induction opts now es rule: pruneEntries.induct) (auto simp: Let_def)

lemma pruneEntries_distinct: "distinct (map fst es) \<Longrightarrow> distinct (map fst (pruneEntries opts now es))"
proof (induction opts now es rule: pruneEntries.induct)
  case (2 opts now key entry rest)
  then show ?case using pruneEntries_keys [of opts now rest] by (auto simp: Let_def)
qed simp

lemma evictUnlocked_keys: "evictUnlocked now es = Some rest \<Longrightarrow> k \<in> fst ` set rest \<Longrightarrow> k \<in> fst ` set es"
proof (induction now es arbitrary: rest rule: evictUnlocked.induct)
  case (2 now key entry es)
  then show ?case by (cases "stillLocked now entry") (fastforce simp: image_iff)+
qed simp

lemma evictUnlocked_length: "evictUnlocked now es = Some rest \<Longrightarrow> length es = Suc (length rest)"
  by (induction now es arbitrary: rest rule: evictUnlocked.induct) (auto split: if_splits)

lemma evictUnlocked_distinct:
  "evictUnlocked now es = Some rest \<Longrightarrow> distinct (map fst es) \<Longrightarrow> distinct (map fst rest)"
proof (induction now es arbitrary: rest rule: evictUnlocked.induct)
  case (2 now key entry es)
  then show ?case using evictUnlocked_keys [of now es _ key] by (cases "stillLocked now entry") auto
qed simp

lemma pruneEntries_bounded: "boundedTable opts es \<Longrightarrow> boundedTable opts (pruneEntries opts now es)"
  using pruneEntries_length [of opts now es] by (simp add: boundedTable_def pruneEntries_distinct)

lemma evictUnlocked_room:
  "evictUnlocked now es = Some rest \<Longrightarrow> boundedTable opts es \<Longrightarrow>
     boundedTable opts rest \<and> int (length rest) < lo_maxEntries opts"
  using evictUnlocked_length [of now es rest] by (auto simp: boundedTable_def dest: evictUnlocked_distinct)

lemma length_update: "length (AList.update k v es) = (if k \<in> fst ` set es then length es else Suc (length es))"
  by (induction es) auto

lemma update_bounded:
  assumes "boundedTable opts es" "k \<in> fst ` set es \<or> int (length es) < lo_maxEntries opts"
  shows "boundedTable opts (AList.update k v es)"
  using assms by (auto simp: boundedTable_def length_update distinct_update)

lemma delete_bounded: "boundedTable opts es \<Longrightarrow> boundedTable opts (AList.delete k es)"
  using length_delete_le [of k es] by (simp add: boundedTable_def distinct_delete)

lemma enforce_room:
  assumes "boundedTable opts (lm_entries l)" "enforceMaxEntries opts now l = (ok, l1)"
  shows "boundedTable opts (lm_entries l1)" "ok \<Longrightarrow> int (length (lm_entries l1)) < lo_maxEntries opts"
  using assms pruneEntries_bounded [OF assms(1), of now]
  by (auto simp: enforceMaxEntries_def pruneExpiredEntries_def entryCount_def Let_def
      split: if_splits option.splits dest: evictUnlocked_room)

lemma known_key: "map_of es k = Some e \<Longrightarrow> k \<in> fst ` set es"
  by (force dest: map_of_SomeD)

lemma overflow_bounded:
  "boundedTable opts (lm_entries l) \<Longrightarrow> boundedTable opts (lm_entries (snd (checkOverflowLock opts now l)))"
  by (auto simp: checkOverflowLock_def pruneExpiredEntries_def Let_def pruneEntries_bounded split: option.split)

lemma check_bounded:
  assumes "boundedTable opts (lm_entries l)"
  shows "boundedTable opts (lm_entries (snd (check opts ip scope now l)))"
  using overflow_bounded [OF assms, of now] assms
  by (auto simp: check_def Let_def split: prod.split option.split intro!: update_bounded known_key)

lemma countFailure_bounded:
  assumes "boundedTable opts (lm_entries l)" "key \<in> fst ` set (lm_entries l)"
  shows "boundedTable opts (lm_entries (countFailure opts key now e l))"
  using assms by (auto simp: countFailure_def Let_def intro!: update_bounded)

lemma failure_bounded:
  assumes "boundedTable opts (lm_entries l)"
  shows "boundedTable opts (lm_entries (recordFailure opts ip scope now l))"
proof -
  obtain key addr where k: "resolveKey opts ip scope = (key, addr)" by fastforce
  obtain ok l1 where enf: "enforceMaxEntries opts now l = (ok, l1)" by fastforce
  note room = enforce_room [OF assms enf]
  show ?thesis
  proof (cases "map_of (lm_entries l) key")
    case None
    show ?thesis using None k enf room assms
      by (cases ok) (auto simp: recordFailure_def Let_def dom_update intro!: countFailure_bounded update_bounded)
  next
    case (Some e)
    then show ?thesis using k assms by (auto simp: recordFailure_def intro!: countFailure_bounded known_key)
  qed
qed

lemma call_bounded:
  assumes "boundedTable opts (lm_entries l)" "1 \<le> lo_maxEntries opts"
  shows "boundedTable opts (lm_entries (applyCall opts c l))"
proof (cases c)
  case (ResetCall ip scope)
  then show ?thesis using assms by (simp add: resetEntry_def case_prod_unfold delete_bounded)
qed (use assms in \<open>auto simp: check_bounded failure_bounded prune_def pruneExpiredEntries_def pruneEntries_bounded
      dispose_def, simp_all add: boundedTable_def\<close>)

lemma calls_bounded:
  assumes "boundedTable opts (lm_entries l)" "1 \<le> lo_maxEntries opts"
  shows "boundedTable opts (lm_entries (runCalls opts calls l))"
  using assms(1)
  by (induction calls arbitrary: l) (simp_all add: runCalls_def call_bounded assms(2))

lemma created_limiter:
  assumes "createAuthRateLimiter clientIp loopback config = (opts, l)"
  shows "1 \<le> lo_maxEntries opts" "boundedTable opts (lm_entries l)"
  using assms resolveIntegerOption_min [of 1 "rc_maxEntries config" 10000]
  by (auto simp: createAuthRateLimiter_def boundedTable_def)

lemma check_after_failures:
  assumes "resolveKey opts ip scope = (key, addr)" "\<not> isExempt opts addr" "1 \<le> lo_maxAttempts opts"
    and "map_of (lm_entries l) key = Some (expectedEntry opts tms)" "tms \<noteq> []" "sorted tms" "0 < hd tms" "0 \<le> lo_lockoutMs opts"
  defines "m \<equiv> nat (lo_maxAttempts opts)"
  defines "t \<equiv> tms ! (m - 1) + lo_lockoutMs opts"
  shows "length tms < m \<Longrightarrow> now < hd tms + lo_windowMs opts \<Longrightarrow>
      fst (check opts ip scope now l) =
        \<lparr>rs_allowed = True, rs_remaining = lo_maxAttempts opts - int (length tms), rs_retryAfterMs = 0\<rparr>"
    and "m \<le> length tms \<Longrightarrow> now < t \<Longrightarrow>
      fst (check opts ip scope now l) = \<lparr>rs_allowed = False, rs_remaining = 0, rs_retryAfterMs = t - now\<rparr>"
    and "m \<le> length tms \<Longrightarrow> t \<le> now \<Longrightarrow>
      fst (check opts ip scope now l) = \<lparr>rs_allowed = True, rs_remaining = lo_maxAttempts opts, rs_retryAfterMs = 0\<rparr>"
proof -
  have ge: "hd tms \<le> x" if "x \<in> set tms" for x
    using assms(5,6) that by (cases tms) auto
  show "fst (check opts ip scope now l) =
        \<lparr>rs_allowed = True, rs_remaining = lo_maxAttempts opts - int (length tms), rs_retryAfterMs = 0\<rparr>"
    if "length tms < m" "now < hd tms + lo_windowMs opts"
  proof -
    have "filter (\<lambda>ts. ts > now - lo_windowMs opts) tms = tms"
      using ge that(2) by (fastforce simp: filter_id_conv)
    then show ?thesis
      using assms(1,2,4) that(1)
      by (auto simp: check_def expectedEntry_def m_def Let_def stillLocked_def lockExpired_def slideWindow_def)
  qed
  have pos: "t \<noteq> 0" if "m \<le> length tms"
  proof -
    have "m - 1 < length tms" using that assms(3) by (simp add: m_def)
    then have "hd tms \<le> tms ! (m - 1)" using ge by simp
    then show ?thesis using assms(7,8) by (simp add: t_def)
  qed
  show "fst (check opts ip scope now l) = \<lparr>rs_allowed = False, rs_remaining = 0, rs_retryAfterMs = t - now\<rparr>"
    if "m \<le> length tms" "now < t"
    using assms(4) that pos
    by (intro check_locked [OF assms(1,2)]) (auto simp: expectedEntry_def m_def t_def Let_def)
  show "fst (check opts ip scope now l) = \<lparr>rs_allowed = True, rs_remaining = lo_maxAttempts opts, rs_retryAfterMs = 0\<rparr>"
    if "m \<le> length tms" "t \<le> now"
    using assms(1-4) that pos
    by (auto simp: check_def expectedEntry_def m_def t_def Let_def stillLocked_def lockExpired_def slideWindow_def)
qed

subsection \<open>Properties\<close>

text \<open>
  C36. A lockout cannot be shaken off: while the lockout of a client's key has not elapsed, no sequence of
  \<open>check\<close>, \<open>recordFailure\<close> and \<open>prune\<close> calls for any client, of resets of other keys, and of
  evictions that a full table forces, changes the answer for it. The client is denied and is told the time
  that is left.
\<close>

theorem active_lockouts_hold:
  assumes "resolveKey opts ip scope = (key, addr)" "\<not> isExempt opts addr"
    and "map_of (lm_entries l) key = Some e" "at_lockedUntil e = Some t" "t \<noteq> 0"
    and "\<forall>c \<in> set calls. leavesLock opts key t c" "now < t"
  shows "fst (check opts ip scope now (runCalls opts calls l)) =
           \<lparr>rs_allowed = False, rs_remaining = 0, rs_retryAfterMs = t - now\<rparr>"
  using assms(7) by (intro check_locked [OF assms(1,2) calls_keep_locked [OF assms(3-6)] assms(4,5)])

definition sampleOptions :: limiter_options where
  "sampleOptions = fst (createAuthRateLimiter (\<lambda>ip. ip) (\<lambda>ip. ip = ''127.0.0.1'')
     \<lparr>rc_maxAttempts = Some 2, rc_windowMs = Some 1000, rc_lockoutMs = Some 5000, rc_exemptLoopback = None,
      rc_pruneIntervalMs = None, rc_maxEntries = Some 1\<rparr>)"

definition emptyLimiter :: auth_limiter where
  "emptyLimiter = \<lparr>lm_entries = [], lm_overflowLockedUntil = None\<rparr>"

theorem active_lockouts_hold_witness:
  "fst (check sampleOptions (Some ''10.0.0.7'') None 3000
     (runCalls sampleOptions [PruneCall 1200, FailureCall (Some ''10.0.0.8'') None 1300, ResetCall (Some ''10.0.0.8'') None]
       (recordFailures sampleOptions (Some ''10.0.0.7'') None [1000, 1100] emptyLimiter))) =
     \<lparr>rs_allowed = False, rs_remaining = 0, rs_retryAfterMs = 3100\<rparr>"
proof -
  let ?l = "recordFailures sampleOptions (Some ''10.0.0.7'') None [1000, 1100] emptyLimiter"
  have "resolveKey sampleOptions (Some ''10.0.0.7'') None = (''default:10.0.0.7'', ''10.0.0.7'')"
    "\<not> isExempt sampleOptions ''10.0.0.7''" by code_simp+
  moreover have "map_of (lm_entries ?l) ''default:10.0.0.7'' = Some \<lparr>at_attempts = [1000, 1100], at_lockedUntil = Some 6100\<rparr>"
    by code_simp
  moreover have "\<forall>c \<in> set [PruneCall 1200, FailureCall (Some ''10.0.0.8'') None 1300, ResetCall (Some ''10.0.0.8'') None].
      leavesLock sampleOptions ''default:10.0.0.7'' 6100 c"
    by code_simp
  ultimately show ?thesis
    using active_lockouts_hold [of sampleOptions "Some ''10.0.0.7''" None "''default:10.0.0.7''" "''10.0.0.7''" ?l _ 6100 _ 3000]
    by simp
qed

text \<open>
  When lockouts begin and end. For a client without an entry whose failures come within one window and
  that the table has room for: below the limit \<open>check\<close> allows the client and reports exactly the attempts
  left; from the failure that reaches the limit on, it denies the client and reports the time until that
  failure's lockout ends (later failures do not extend it); when the lockout has ended the client has its
  full budget again.
\<close>

theorem failures_lock_out:
  assumes "resolveKey opts ip scope = (key, addr)" "\<not> isExempt opts addr" "1 \<le> lo_maxAttempts opts"
    and "map_of (lm_entries l) key = None" "tms \<noteq> []" "fst (enforceMaxEntries opts (hd tms) l)"
    and "sorted tms" "0 < hd tms" "0 \<le> lo_lockoutMs opts" "last tms < hd tms + lo_windowMs opts"
  shows "let n = length tms; m = nat (lo_maxAttempts opts); t = tms ! (m - 1) + lo_lockoutMs opts;
             answer = fst (check opts ip scope now (recordFailures opts ip scope tms l))
         in (n < m \<longrightarrow> now < hd tms + lo_windowMs opts \<longrightarrow>
               answer = \<lparr>rs_allowed = True, rs_remaining = lo_maxAttempts opts - int n, rs_retryAfterMs = 0\<rparr>) \<and>
            (m \<le> n \<longrightarrow> last tms < t \<longrightarrow> now < t \<longrightarrow>
               answer = \<lparr>rs_allowed = False, rs_remaining = 0, rs_retryAfterMs = t - now\<rparr>) \<and>
            (m \<le> n \<longrightarrow> last tms < t \<longrightarrow> t \<le> now \<longrightarrow>
               answer = \<lparr>rs_allowed = True, rs_remaining = lo_maxAttempts opts, rs_retryAfterMs = 0\<rparr>)"
proof -
  let ?m = "nat (lo_maxAttempts opts)"
  let ?l = "recordFailures opts ip scope tms l"
  have entry: "map_of (lm_entries ?l) key = Some (expectedEntry opts tms)"
    if "?m \<le> length tms \<Longrightarrow> last tms < tms ! (?m - 1) + lo_lockoutMs opts"
    using recordFailures_entry [OF assms(1-6) assms(7-10)] that by blast
  note answers = check_after_failures [OF assms(1-3) entry assms(5,7,8,9), of now]
  show ?thesis unfolding Let_def using answers by (auto simp: not_le)
qed

theorem failures_lock_out_witness:
  "let l = recordFailures sampleOptions (Some ''10.0.0.7'') None in
   fst (check sampleOptions (Some ''10.0.0.7'') None 1050 (l [1000] emptyLimiter)) =
     \<lparr>rs_allowed = True, rs_remaining = 1, rs_retryAfterMs = 0\<rparr> \<and>
   fst (check sampleOptions (Some ''10.0.0.7'') None 1300 (l [1000, 1100, 1200] emptyLimiter)) =
     \<lparr>rs_allowed = False, rs_remaining = 0, rs_retryAfterMs = 4800\<rparr> \<and>
   fst (check sampleOptions (Some ''10.0.0.7'') None 6100 (l [1000, 1100, 1200] emptyLimiter)) =
     \<lparr>rs_allowed = True, rs_remaining = 2, rs_retryAfterMs = 0\<rparr>"
proof -
  have key: "resolveKey sampleOptions (Some ''10.0.0.7'') None = (''default:10.0.0.7'', ''10.0.0.7'')"
    "\<not> isExempt sampleOptions ''10.0.0.7''" "1 \<le> lo_maxAttempts sampleOptions"
    "map_of (lm_entries emptyLimiter) ''default:10.0.0.7'' = None"
    "fst (enforceMaxEntries sampleOptions 1000 emptyLimiter)" by code_simp+
  have opts: "lo_windowMs sampleOptions = 1000" "lo_lockoutMs sampleOptions = 5000" "lo_maxAttempts sampleOptions = 2"
    by code_simp+
  show ?thesis
    using failures_lock_out [OF key(1-4), of "[1000]" 1050] failures_lock_out [OF key(1-4), of "[1000, 1100, 1200]" 1300]
      failures_lock_out [OF key(1-4), of "[1000, 1100, 1200]" 6100] key(5)
    by (simp add: opts Let_def)
qed

text \<open>
  The memory of a limiter is bounded: whatever its configuration and whatever calls it receives, the
  keys of its table are distinct and their number never exceeds the resolved \<open>maxEntries\<close>, which is at
  least one.
\<close>

theorem limiter_table_bounded:
  assumes "createAuthRateLimiter clientIp loopback config = (opts, l)"
  shows "distinct (map fst (lm_entries (runCalls opts calls l))) \<and>
         entryCount (runCalls opts calls l) \<le> lo_maxEntries opts \<and> 1 \<le> lo_maxEntries opts"
  using calls_bounded [OF created_limiter(2,1) [OF assms], of calls] created_limiter(1) [OF assms]
  by (simp add: boundedTable_def entryCount_def)

theorem limiter_table_bounded_witness:
  "entryCount (runCalls sampleOptions [FailureCall (Some ''10.0.0.7'') None 1000, FailureCall (Some ''10.0.0.8'') None 1001]
     emptyLimiter) \<le> 1"
proof -
  have "lo_maxEntries sampleOptions = 1" by code_simp
  then show ?thesis
    using limiter_table_bounded [of "\<lambda>ip. ip" "\<lambda>ip. ip = ''127.0.0.1''"
        "\<lparr>rc_maxAttempts = Some 2, rc_windowMs = Some 1000, rc_lockoutMs = Some 5000, rc_exemptLoopback = None,
          rc_pruneIntervalMs = None, rc_maxEntries = Some 1\<rparr>" sampleOptions emptyLimiter
        "[FailureCall (Some ''10.0.0.7'') None 1000, FailureCall (Some ''10.0.0.8'') None 1001]"]
    by (simp add: sampleOptions_def emptyLimiter_def createAuthRateLimiter_def)
qed

end
