(* ===== verification/Text_Chunking.thy ===== *)
theory Text_Chunking
  imports Prelude "HOL-Library.Word"
begin

text \<open>
  Splitting outbound text into bounded messages: the UTF-16 helpers of
  \<open>packages/normalization-core/src/utf16-slice.ts\<close>, the two splitting loops of
  \<open>src/shared/text-chunking.ts\<close>, their users in \<open>src/auto-reply/chunk.ts\<close> (plain text and
  newline mode) and \<open>chunkTextForOutbound\<close> of \<open>src/plugin-sdk/text-chunking.ts\<close>.

  Unlike elsewhere in the development a string is here the list of all its 16-bit code units, since
  surrogate pairs are the point. Limits and indices are integers. \<open>charCodeAt\<close> outside the string
  (\<open>NaN\<close>) is \<open>None\<close>, and so is a break index that is not finite. The loops are total functions:
  their termination proofs show that every iteration makes progress. The lemmas show that no text is lost,
  that chunks respect the limit and that well-formed UTF-16 stays well-formed.
\<close>

type_synonym utf16 = "16 word list"

subsection \<open>Code units\<close>

definition charCodeAt :: "utf16 \<Rightarrow> int \<Rightarrow> 16 word option" where
  "charCodeAt text i = (if 0 \<le> i \<and> i < int (length text) then Some (text ! nat i) else None)"

text \<open>\<open>slice(0, n)\<close> and \<open>slice(n)\<close> for an index that is not negative.\<close>

definition sliceTo :: "utf16 \<Rightarrow> int \<Rightarrow> utf16" where
  "sliceTo text n = take (nat n) text"

definition sliceFrom :: "utf16 \<Rightarrow> int \<Rightarrow> utf16" where
  "sliceFrom text n = drop (nat n) text"

text \<open>White space and line terminators: what \<open>\\s\<close> matches and \<open>trim\<close> strips.\<close>

definition isSpaceUnit :: "16 word \<Rightarrow> bool" where
  "isSpaceUnit u \<longleftrightarrow> (9 \<le> u \<and> u \<le> 13) \<or> (0x2000 \<le> u \<and> u \<le> 0x200A) \<or>
     u \<in> {0x20, 0xA0, 0x1680, 0x2028, 0x2029, 0x202F, 0x205F, 0x3000, 0xFEFF}"

definition trimStart16 :: "utf16 \<Rightarrow> utf16" where
  "trimStart16 s = dropWhile isSpaceUnit s"

definition trimEnd16 :: "utf16 \<Rightarrow> utf16" where
  "trimEnd16 s = rev (dropWhile isSpaceUnit (rev s))"

definition trim16 :: "utf16 \<Rightarrow> utf16" where
  "trim16 s = trimEnd16 (trimStart16 s)"

subsection \<open>Surrogate-safe slicing\<close>

definition isHighSurrogate :: "16 word option \<Rightarrow> bool" where
  "isHighSurrogate codeUnit = (case codeUnit of None \<Rightarrow> False | Some u \<Rightarrow> 0xD800 \<le> u \<and> u \<le> 0xDBFF)"

definition isLowSurrogate :: "16 word option \<Rightarrow> bool" where
  "isLowSurrogate codeUnit = (case codeUnit of None \<Rightarrow> False | Some u \<Rightarrow> 0xDC00 \<le> u \<and> u \<le> 0xDFFF)"

definition avoidTrailingHighSurrogateBreak :: "utf16 \<Rightarrow> int \<Rightarrow> int \<Rightarrow> int" where
  "avoidTrailingHighSurrogateBreak text start stop =
     (if stop \<le> start \<or> stop \<ge> int (length text) \<or> \<not> isHighSurrogate (charCodeAt text (stop - 1)) \<or>
         \<not> isLowSurrogate (charCodeAt text stop)
      then stop
      else let adjusted = stop - 1 in if adjusted > start then adjusted else stop + 1)"

definition sliceUtf16Safe :: "utf16 \<Rightarrow> int \<Rightarrow> int option \<Rightarrow> utf16" where
  "sliceUtf16Safe input start stop =
     (let len = int (length input);
          from0 = (if start < 0 then max (len + start) 0 else min start len);
          to0 = (case stop of None \<Rightarrow> len | Some e \<Rightarrow> if e < 0 then max (len + e) 0 else min e len)
      in if to0 \<le> from0 then []
         else
           let from1 = (if 0 < from0 \<and> from0 < len \<and> isLowSurrogate (charCodeAt input from0) \<and>
                           isHighSurrogate (charCodeAt input (from0 - 1))
                        then from0 + 1 else from0);
               to1 = (if 0 < to0 \<and> to0 < len \<and> isHighSurrogate (charCodeAt input (to0 - 1)) \<and>
                         isLowSurrogate (charCodeAt input to0)
                      then to0 - 1 else to0)
           in sliceTo (sliceFrom input from1) (to1 - from1))"

definition truncateUtf16Safe :: "utf16 \<Rightarrow> int \<Rightarrow> utf16" where
  "truncateUtf16Safe input maxLen =
     (let limit = max 0 maxLen in
      if int (length input) \<le> limit then input else sliceUtf16Safe input 0 (Some limit))"

subsection \<open>Long lines\<close>

definition CJK_PUNCTUATION_BREAK_AFTER_RE :: "16 word set" where
  "CJK_PUNCTUATION_BREAK_AFTER_RE =
     {0x3001, 0x3002, 0xFF0C, 0xFF0E, 0xFF01, 0xFF1F, 0xFF1B, 0xFF1A, 0xFF09, 0xFF3D, 0xFF5D,
      0x3009, 0x300B, 0x300D, 0x300F, 0x3011, 0x3015, 0x3017, 0x3019}"

definition clampToCodePointBoundary :: "utf16 \<Rightarrow> int \<Rightarrow> int" where
  "clampToCodePointBoundary text index =
     (let boundary = min (max 0 index) (int (length text))
      in avoidTrailingHighSurrogateBreak text 0 boundary)"

text \<open>The loop of \<open>findWhitespaceBreak\<close>, with \<open>index + 1\<close> as its counter.\<close>

fun whitespaceBreakBelow :: "utf16 \<Rightarrow> nat \<Rightarrow> int" where
  "whitespaceBreakBelow window 0 = - 1"
| "whitespaceBreakBelow window (Suc index) =
     (if isSpaceUnit (window ! index) then int index else whitespaceBreakBelow window index)"

definition findWhitespaceBreak :: "utf16 \<Rightarrow> int" where
  "findWhitespaceBreak window = whitespaceBreakBelow window (length window)"

text \<open>The loop of \<open>findCjkPunctuationBreak\<close>. The characters of the class lie outside the surrogates, so
  the expression matches a slice if and only if one of its units is in the class.\<close>

fun cjkBreakBelow :: "utf16 \<Rightarrow> nat \<Rightarrow> int" where
  "cjkBreakBelow window 0 = - 1"
| "cjkBreakBelow window (Suc e) =
     (let start = (if isLowSurrogate (Some (window ! e)) \<and> e > 0 then e - 1 else e)
      in if start > 0 \<and> list_ex (\<lambda>u. u \<in> CJK_PUNCTUATION_BREAK_AFTER_RE) (drop start (take (Suc e) window))
         then int (Suc e) else cjkBreakBelow window start)"

definition findCjkPunctuationBreak :: "utf16 \<Rightarrow> int" where
  "findCjkPunctuationBreak window = cjkBreakBelow window (length window)"

text \<open>The break index that one iteration of the loop of \<open>splitLongTextLine\<close> chooses.\<close>

definition lineBreakIndex :: "int \<Rightarrow> bool \<Rightarrow> utf16 \<Rightarrow> int" where
  "lineBreakIndex limit preserveWhitespace remaining =
     (if preserveWhitespace then clampToCodePointBoundary remaining limit
      else
        let window = sliceTo remaining limit;
            byWhitespace = findWhitespaceBreak window;
            byPunctuation = (if byWhitespace \<le> 0 then findCjkPunctuationBreak window else byWhitespace)
        in if byPunctuation \<le> 0 then clampToCodePointBoundary remaining limit else byPunctuation)"

subsection \<open>Facts on break indices\<close>

text \<open>A cut of \<open>text\<close> at \<open>i\<close> that separates no surrogate pair.\<close>

definition safeCut :: "utf16 \<Rightarrow> nat \<Rightarrow> bool" where
  "safeCut text i \<longleftrightarrow>
     \<not> (0 < i \<and> i < length text \<and> isHighSurrogate (Some (text ! (i - 1))) \<and> isLowSurrogate (Some (text ! i)))"

lemma surrogates_disjoint: "isHighSurrogate u \<Longrightarrow> \<not> isLowSurrogate u"
  by (cases u) (auto simp: isHighSurrogate_def isLowSurrogate_def word_le_nat_alt)

lemma space_not_surrogate:
  "isSpaceUnit u \<Longrightarrow> \<not> isHighSurrogate (Some u)" "isSpaceUnit u \<Longrightarrow> \<not> isLowSurrogate (Some u)"
  by (auto simp: isSpaceUnit_def isHighSurrogate_def isLowSurrogate_def word_le_nat_alt)

lemma punctuation_not_high: "u \<in> CJK_PUNCTUATION_BREAK_AFTER_RE \<Longrightarrow> \<not> isHighSurrogate (Some u)"
  by (auto simp: CJK_PUNCTUATION_BREAK_AFTER_RE_def isHighSurrogate_def)

lemma charCodeAt_nat [simp]: "charCodeAt text (int i) = (if i < length text then Some (text ! i) else None)"
  by (simp add: charCodeAt_def)

text \<open>The break that replaces one inside a surrogate pair is safe, makes progress, and exceeds the limit only
  when the limit is one unit and the pair takes two.\<close>

lemma avoid_break_nat:
  "avoidTrailingHighSurrogateBreak text 0 (int n) =
     (if safeCut text n then int n else if n > 1 then int (n - 1) else 2)"
proof (cases n)
  case (Suc k)
  have "charCodeAt text (int n - 1) = charCodeAt text (int k)" using Suc by simp
  then show ?thesis using Suc
    by (auto simp: avoidTrailingHighSurrogateBreak_def safeCut_def Let_def simp del: of_nat_Suc)
qed (simp add: avoidTrailingHighSurrogateBreak_def safeCut_def)

definition goodBreak :: "utf16 \<Rightarrow> int \<Rightarrow> int \<Rightarrow> bool" where
  "goodBreak text limit b \<longleftrightarrow> 0 < b \<and> b \<le> int (length text) \<and> safeCut text (nat b) \<and> (b \<le> limit \<or> limit = 1 \<and> b = 2)"

lemma avoid_break_good:
  assumes "0 < i" "i \<le> limit" "i \<le> int (length text)"
  shows "goodBreak text limit (avoidTrailingHighSurrogateBreak text 0 i)"
proof -
  obtain n where n: "i = int n" "0 < n" "n \<le> length text" using assms by (cases i) auto
  show ?thesis
  proof (cases "safeCut text n")
    case True
    then show ?thesis using n assms by (simp add: avoid_break_nat goodBreak_def)
  next
    case False
    then have pair: "isHighSurrogate (Some (text ! (n - 1)))" "isLowSurrogate (Some (text ! n))" "n < length text"
      by (auto simp: safeCut_def)
    then have "safeCut text (n - 1)" "safeCut text (Suc n)"
      using surrogates_disjoint by (auto simp: safeCut_def)
    moreover have "Suc n = 2" if "\<not> n > 1" using that n(2) by simp
    ultimately show ?thesis using False n assms pair(3)
      by (cases "n > 1") (auto simp: avoid_break_nat goodBreak_def nat_diff_distrib simp flip: numeral_2_eq_2)
  qed
qed

lemma clamp_break_good:
  assumes "0 < limit" "limit < int (length text)"
  shows "goodBreak text limit (clampToCodePointBoundary text limit)"
  using avoid_break_good [of limit limit "text"] assms by (simp add: clampToCodePointBoundary_def)

lemma whitespaceBreakBelow_space:
  "0 < whitespaceBreakBelow w n \<Longrightarrow> \<exists>i < n. whitespaceBreakBelow w n = int i \<and> isSpaceUnit (w ! i)"
  by (induction w n rule: whitespaceBreakBelow.induct) (auto split: if_splits intro: less_SucI)

lemma cjkBreakBelow_end:
  assumes "0 < cjkBreakBelow w n" "n \<le> length w"
  shows "\<exists>e < n. cjkBreakBelow w n = int (Suc e) \<and> \<not> isHighSurrogate (Some (w ! e))"
  using assms
proof (induction w n rule: cjkBreakBelow.induct)
  case (2 w e)
  define start where "start = (if isLowSurrogate (Some (w ! e)) \<and> e > 0 then e - 1 else e)"
  let ?hit = "start > 0 \<and> list_ex (\<lambda>u. u \<in> CJK_PUNCTUATION_BREAK_AFTER_RE) (drop start (take (Suc e) w))"
  have step: "cjkBreakBelow w (Suc e) = (if ?hit then int (Suc e) else cjkBreakBelow w start)"
    by (simp add: Let_def start_def del: of_nat_Suc)
  have le: "start \<le> e" by (simp add: start_def)
  show ?case
  proof (cases ?hit)
    case True
    have "drop e (take (Suc e) w) = [w ! e]" using 2(3) by (simp add: take_Suc_conv_app_nth)
    then have "\<not> isHighSurrogate (Some (w ! e))"
      using True surrogates_disjoint punctuation_not_high [of "w ! e"] by (auto simp: start_def split: if_splits)
    then show ?thesis using True step by auto
  next
    case False
    have "\<exists>e' < start. cjkBreakBelow w start = int (Suc e') \<and> \<not> isHighSurrogate (Some (w ! e'))"
      using 2(1) [OF start_def False] 2(2,3) step False le by auto
    then show ?thesis using step False le by (metis le_imp_less_Suc less_trans)
  qed
qed simp

lemma lineBreakIndex_good:
  assumes "0 < limit" "limit < int (length text)"
  shows "goodBreak text limit (lineBreakIndex limit pw text)"
proof -
  let ?w = "sliceTo text limit"
  let ?n = "nat limit"
  have w: "length ?w = ?n" "\<And>i. i < ?n \<Longrightarrow> ?w ! i = text ! i" "?n < length text"
    using assms by (auto simp: sliceTo_def)
  have space: "goodBreak text limit (findWhitespaceBreak ?w)" if pos: "0 < findWhitespaceBreak ?w"
  proof -
    obtain i where "i < ?n" "findWhitespaceBreak ?w = int i" "isSpaceUnit (?w ! i)"
      using whitespaceBreakBelow_space [of ?w "length ?w"] pos w(1) by (auto simp: findWhitespaceBreak_def)
    then show ?thesis using pos w space_not_surrogate(2) by (auto simp: goodBreak_def safeCut_def)
  qed
  have cjk: "goodBreak text limit (findCjkPunctuationBreak ?w)" if pos: "0 < findCjkPunctuationBreak ?w"
  proof -
    obtain e where "e < ?n" "findCjkPunctuationBreak ?w = int (Suc e)" "\<not> isHighSurrogate (Some (?w ! e))"
      using cjkBreakBelow_end [of ?w "length ?w"] pos w(1) by (auto simp: findCjkPunctuationBreak_def)
    then show ?thesis using w by (auto simp: goodBreak_def safeCut_def nat_add_distrib)
  qed
  show ?thesis using clamp_break_good [OF assms] space cjk by (auto simp: lineBreakIndex_def Let_def)
qed

subsection \<open>Splitting a long line\<close>

lemma good_break_progress:
  assumes "goodBreak remaining limit b"
  shows "length (sliceFrom remaining b) < length remaining"
  using assms by (auto simp: goodBreak_def sliceFrom_def)

text \<open>The loop of \<open>splitLongTextLine\<close>, which the code enters with a positive limit only.\<close>

function splitRemaining :: "int \<Rightarrow> bool \<Rightarrow> utf16 \<Rightarrow> utf16 list" where
  "splitRemaining limit preserveWhitespace remaining =
     (if 0 < limit \<and> int (length remaining) > limit
      then let breakIndex = lineBreakIndex limit preserveWhitespace remaining
        in sliceTo remaining breakIndex # splitRemaining limit preserveWhitespace (sliceFrom remaining breakIndex)
      else if remaining \<noteq> [] then [remaining] else [])"
  by pat_completeness auto
termination
  by (relation "measure (\<lambda>(limit, pw, remaining). length remaining)")
    (auto intro!: good_break_progress lineBreakIndex_good)

declare splitRemaining.simps [simp del]

definition splitLongTextLine :: "utf16 \<Rightarrow> int \<Rightarrow> bool \<Rightarrow> utf16 list" where
  "splitLongTextLine line limit preserveWhitespace =
     (if limit \<le> 0 \<or> int (length line) \<le> limit then [line] else splitRemaining limit preserveWhitespace line)"

subsection \<open>Splitting by a break resolver\<close>

text \<open>The break that one iteration of the loop of \<open>chunkTextByBreakResolver\<close> uses, and where the next
  window starts.\<close>

definition resolvedBreak :: "int \<Rightarrow> (utf16 \<Rightarrow> int option) \<Rightarrow> utf16 \<Rightarrow> int" where
  "resolvedBreak limit resolveBreakIndex remaining =
     (let window = sliceTo remaining limit;
          breakIdx = (case resolveBreakIndex window of
                        Some candidate \<Rightarrow> if candidate > 0 \<and> candidate \<le> limit then candidate else limit
                      | None \<Rightarrow> limit)
      in avoidTrailingHighSurrogateBreak remaining 0 breakIdx)"

definition nextWindowStart :: "utf16 \<Rightarrow> int \<Rightarrow> int" where
  "nextWindowStart remaining safeBreakIdx =
     (let brokeOnSeparator = safeBreakIdx < int (length remaining) \<and> isSpaceUnit (remaining ! nat safeBreakIdx)
      in min (int (length remaining)) (safeBreakIdx + (if brokeOnSeparator then 1 else 0)))"

lemma resolvedBreak_good:
  assumes "0 < limit" "limit < int (length remaining)"
  shows "goodBreak remaining limit (resolvedBreak limit resolve remaining)"
  using assms by (auto simp: resolvedBreak_def Let_def split: option.split intro!: avoid_break_good)

lemma chunk_rest_shorter:
  assumes "0 < limit" "limit < int (length remaining)"
  shows "length (trimStart16 (sliceFrom remaining (nextWindowStart remaining (resolvedBreak limit resolve remaining))))
    < length remaining"
proof -
  let ?b = "resolvedBreak limit resolve remaining"
  let ?n = "nextWindowStart remaining ?b"
  have "0 < ?b" "?b \<le> int (length remaining)" using resolvedBreak_good [OF assms] by (auto simp: goodBreak_def)
  then have "0 < nat ?n" "0 < length remaining" by (auto simp: nextWindowStart_def Let_def)
  then have "length (sliceFrom remaining ?n) < length remaining" by (simp add: sliceFrom_def)
  moreover have "length (trimStart16 xs) \<le> length xs" for xs
    by (simp add: trimStart16_def length_dropWhile_le)
  ultimately show ?thesis by (rule le_less_trans [rotated])
qed

function chunkRemaining :: "int \<Rightarrow> (utf16 \<Rightarrow> int option) \<Rightarrow> utf16 \<Rightarrow> utf16 list" where
  "chunkRemaining limit resolveBreakIndex remaining =
     (if 0 < limit \<and> int (length remaining) > limit
      then
        let safeBreakIdx = resolvedBreak limit resolveBreakIndex remaining;
            chunk = trimEnd16 (sliceTo remaining safeBreakIdx);
            rest = trimStart16 (sliceFrom remaining (nextWindowStart remaining safeBreakIdx))
        in (if chunk \<noteq> [] then [chunk] else []) @ chunkRemaining limit resolveBreakIndex rest
      else
        let finalChunk = trimEnd16 remaining in if finalChunk \<noteq> [] then [finalChunk] else [])"
  by pat_completeness auto
termination
  by (relation "measure (\<lambda>(limit, resolve, remaining). length remaining)") (auto intro!: chunk_rest_shorter)

declare chunkRemaining.simps [simp del]

definition chunkTextByBreakResolver :: "utf16 \<Rightarrow> int \<Rightarrow> (utf16 \<Rightarrow> int option) \<Rightarrow> utf16 list" where
  "chunkTextByBreakResolver text limit resolveBreakIndex =
     (if text = [] then []
      else if limit \<le> 0 \<or> int (length text) \<le> limit then [text]
      else chunkRemaining limit resolveBreakIndex text)"

subsection \<open>Users of the loops\<close>

text \<open>The scan for breakpoints outside parentheses: the last line break, the last other white space and the
  depth of open parentheses, updated for one index.\<close>

definition scanBreakpoint :: "utf16 \<Rightarrow> (nat \<Rightarrow> bool) \<Rightarrow> int \<times> int \<times> nat \<Rightarrow> nat \<Rightarrow> int \<times> int \<times> nat" where
  "scanBreakpoint text isAllowed state i =
     (case state of (lastNewline, lastWhitespace, depth) \<Rightarrow>
        if \<not> isAllowed i then state
        else case charCodeAt text (int i) of
          None \<Rightarrow> state
        | Some char \<Rightarrow>
            if char = 0x28 then (lastNewline, lastWhitespace, depth + 1)
            else if char = 0x29 \<and> depth > 0 then (lastNewline, lastWhitespace, depth - 1)
            else if depth \<noteq> 0 then state
            else if char = 0x0A then (int i, lastWhitespace, depth)
            else if isSpaceUnit char then (lastNewline, int i, depth)
            else state)"

definition scanParenAwareBreakpoints :: "utf16 \<Rightarrow> nat \<Rightarrow> nat \<Rightarrow> (nat \<Rightarrow> bool) \<Rightarrow> int \<times> int" where
  "scanParenAwareBreakpoints text start stop isAllowed =
     (case foldl (scanBreakpoint text isAllowed) (- 1, - 1, 0) [start..<stop] of
        (lastNewline, lastWhitespace, depth) \<Rightarrow> (lastNewline, lastWhitespace))"

definition resolveChunkEarlyReturn :: "utf16 \<Rightarrow> int \<Rightarrow> utf16 list option" where
  "resolveChunkEarlyReturn text limit =
     (if text = [] then Some []
      else if limit \<le> 0 then Some [text]
      else if int (length text) \<le> limit then Some [text]
      else None)"

definition chunkText :: "utf16 \<Rightarrow> int \<Rightarrow> utf16 list" where
  "chunkText text limit =
     (case resolveChunkEarlyReturn text limit of
        Some early \<Rightarrow> early
      | None \<Rightarrow> chunkTextByBreakResolver text limit (\<lambda>window.
          let (lastNewline, lastWhitespace) = scanParenAwareBreakpoints window 0 (length window) (\<lambda>_. True)
          in Some (if lastNewline > 0 then lastNewline else lastWhitespace)))"

definition lastIndexOfUnit :: "utf16 \<Rightarrow> 16 word \<Rightarrow> int" where
  "lastIndexOfUnit window u =
     foldl (\<lambda>found i. if window ! i = u then int i else found) (- 1) [0..<length window]"

definition chunkTextForOutbound :: "utf16 \<Rightarrow> int \<Rightarrow> bool option \<Rightarrow> utf16 list" where
  "chunkTextForOutbound text limit preserveWhitespace =
     (case preserveWhitespace of
        Some pw \<Rightarrow> splitLongTextLine text limit pw
      | None \<Rightarrow> chunkTextByBreakResolver text limit (\<lambda>window.
          let lastNewline = lastIndexOfUnit window 0x0A;
              lastSpace = lastIndexOfUnit window 0x20
          in Some (if lastNewline > 0 then lastNewline else lastSpace)))"

fun newlineStep :: "utf16 \<Rightarrow> (nat \<Rightarrow> bool) \<Rightarrow> utf16 list \<times> nat \<Rightarrow> nat \<Rightarrow> utf16 list \<times> nat" where
  "newlineStep text isSafeBreak (lines, start) i =
     (if text ! i = 0x0A \<and> isSafeBreak i then (lines @ [drop start (take i text)], i + 1) else (lines, start))"

definition splitByNewline :: "utf16 \<Rightarrow> (nat \<Rightarrow> bool) \<Rightarrow> utf16 list" where
  "splitByNewline text isSafeBreak =
     (case foldl (newlineStep text isSafeBreak) ([], 0) [0..<length text] of
        (lines, start) \<Rightarrow> lines @ [drop start text])"

record newline_options =
  nl_splitLongLines :: "bool option"
  nl_trimLines :: "bool option"
  nl_isSafeBreak :: "(nat \<Rightarrow> bool) option"

text \<open>The body of the loop over the lines: the chunks of one line that is not blank, after
  \<open>pendingBlankLines\<close> blank ones.\<close>

definition lineChunks :: "int \<Rightarrow> newline_options \<Rightarrow> nat \<Rightarrow> utf16 \<Rightarrow> utf16 list" where
  "lineChunks maxLineLength opts pendingBlankLines line =
     (let maxPrefix = max 0 (maxLineLength - 1);
          cappedBlankLines = (if pendingBlankLines > 0 then min (int pendingBlankLines) maxPrefix else 0);
          prefix = (if cappedBlankLines > 0 then replicate (nat cappedBlankLines) 0x0A else []);
          lineValue = (if nl_trimLines opts \<noteq> Some False then trim16 line else line)
      in if nl_splitLongLines opts = Some False \<or> int (length lineValue + length prefix) \<le> maxLineLength
         then [prefix @ lineValue]
         else
           let rawLimit = max 1 (maxLineLength - int (length prefix));
               firstLimit = avoidTrailingHighSurrogateBreak lineValue 0 rawLimit;
               remaining = sliceFrom lineValue firstLimit
           in (prefix @ sliceTo lineValue firstLimit) # (if remaining \<noteq> [] then chunkText remaining maxLineLength else []))"

fun chunkLine :: "int \<Rightarrow> newline_options \<Rightarrow> utf16 list \<times> nat \<Rightarrow> utf16 \<Rightarrow> utf16 list \<times> nat" where
  "chunkLine maxLineLength opts (chunks, pendingBlankLines) line =
     (if trim16 line = [] then (chunks, pendingBlankLines + 1)
      else (chunks @ lineChunks maxLineLength opts pendingBlankLines line, 0))"

definition chunkByNewline :: "utf16 \<Rightarrow> int \<Rightarrow> newline_options \<Rightarrow> utf16 list" where
  "chunkByNewline text maxLineLength opts =
     (if text = [] then []
      else if maxLineLength \<le> 0 then (if trim16 text \<noteq> [] then [text] else [])
      else
        let lines = splitByNewline text (nullish (nl_isSafeBreak opts) (\<lambda>_. True));
            (chunks, pendingBlankLines) = foldl (chunkLine maxLineLength opts) ([], 0) lines
        in if pendingBlankLines > 0 \<and> chunks \<noteq> []
           then butlast chunks @ [last chunks @ replicate pendingBlankLines 0x0A]
           else chunks)"

subsection \<open>Well-formed UTF-16\<close>

fun wellFormed16 :: "utf16 \<Rightarrow> bool" where
  "wellFormed16 [] = True"
| "wellFormed16 [u] = (\<not> isHighSurrogate (Some u) \<and> \<not> isLowSurrogate (Some u))"
| "wellFormed16 (u # v # us) =
     (if isHighSurrogate (Some u) then isLowSurrogate (Some v) \<and> wellFormed16 us
      else \<not> isLowSurrogate (Some u) \<and> wellFormed16 (v # us))"

lemma wellFormed16_Cons:
  "\<not> isHighSurrogate (Some u) \<Longrightarrow> wellFormed16 (u # us) = (\<not> isLowSurrogate (Some u) \<and> wellFormed16 us)"
  by (cases us) auto

lemma wellFormed16_append: "wellFormed16 xs \<Longrightarrow> wellFormed16 (xs @ ys) = wellFormed16 ys"
  by (induction xs rule: wellFormed16.induct) (auto simp: wellFormed16_Cons split: if_splits)

lemma safeCut_Suc: "0 < i \<Longrightarrow> safeCut (x # xs) (Suc i) = safeCut xs i"
  by (auto simp: safeCut_def nth_Cons')

lemma wellFormed16_take:
  assumes "wellFormed16 xs" "safeCut xs i"
  shows "wellFormed16 (take i xs)"
  using assms
proof (induction xs arbitrary: i rule: wellFormed16.induct)
  case (2 u)
  then show ?case by (cases i) auto
next
  case (3 u v us)
  show ?case
  proof (cases "isHighSurrogate (Some u)")
    case True
    consider "i = 0" | "i = 1" | "i = 2" | j where "i = Suc (Suc (Suc j))"
      by (cases i; cases "i - 1"; cases "i - 2") auto
    then show ?thesis
      by cases (use True 3 in \<open>auto simp: safeCut_Suc safeCut_def [of _ "Suc 0"] numeral_2_eq_2\<close>)
  next
    case False
    consider "i = 0" | "i = 1" | j where "i = Suc (Suc j)" by (cases i; cases "i - 1") auto
    then show ?thesis
    proof cases
      case (3 j)
      then show ?thesis using "3.IH"(2) [of "Suc j"] "3.prems" False by (auto simp: safeCut_Suc wellFormed16_Cons)
    qed (use False 3 in \<open>auto simp: wellFormed16_Cons\<close>)
  qed
qed simp

lemma wellFormed16_cut:
  assumes "wellFormed16 xs" "safeCut xs i"
  shows "wellFormed16 (take i xs)" "wellFormed16 (drop i xs)"
  using wellFormed16_take [OF assms] wellFormed16_append [of "take i xs" "drop i xs"] assms by simp_all

lemma space_cut: "i < length xs \<Longrightarrow> isSpaceUnit (xs ! i) \<Longrightarrow> safeCut xs i"
  using space_not_surrogate(2) by (auto simp: safeCut_def)

lemma wellFormed16_trimStart: "wellFormed16 s \<Longrightarrow> wellFormed16 (trimStart16 s)"
  unfolding trimStart16_def
proof (induction s)
  case (Cons u us)
  then show ?case using space_not_surrogate [of u] by (auto simp: wellFormed16_Cons)
qed simp

lemma wellFormed16_trimEnd: "wellFormed16 s \<Longrightarrow> wellFormed16 (trimEnd16 s)"
  unfolding trimEnd16_def
proof (induction s rule: rev_induct)
  case (snoc u us)
  show ?case
  proof (cases "isSpaceUnit u")
    case True
    then have "wellFormed16 us"
      using wellFormed16_cut(1) [OF snoc.prems space_cut, of "length us"] by simp
    then show ?thesis using snoc.IH True by simp
  qed (use snoc.prems in simp)
qed simp

subsection \<open>Visible text\<close>

definition visible :: "utf16 \<Rightarrow> utf16" where
  "visible s = filter (\<lambda>u. \<not> isSpaceUnit u) s"

lemma visible_append [simp]: "visible (xs @ ys) = visible xs @ visible ys"
  by (simp add: visible_def)

lemma visible_Nil [simp]: "visible [] = []"
  by (simp add: visible_def)

lemma visible_newlines [simp]: "visible (replicate n 0x0A) = []"
  by (induction n) (simp_all add: visible_def isSpaceUnit_def)

lemma visible_trimStart [simp]: "visible (trimStart16 s) = visible s"
  unfolding visible_def trimStart16_def by (induction s) auto

lemma visible_trimEnd [simp]: "visible (trimEnd16 s) = visible s"
  unfolding visible_def trimEnd16_def by (induction s rule: rev_induct) auto

lemma visible_slices: "visible (sliceTo s n) @ visible (sliceFrom s n) = visible s"
  by (simp add: sliceTo_def sliceFrom_def flip: visible_append)

lemma visible_next_window:
  assumes "0 \<le> b" "b \<le> int (length s)"
  shows "visible (sliceTo s b) @ visible (sliceFrom s (nextWindowStart s b)) = visible s"
proof (cases "b < int (length s) \<and> isSpaceUnit (s ! nat b)")
  case True
  then have "sliceFrom s b = s ! nat b # sliceFrom s (nextWindowStart s b)"
    using assms by (auto simp: sliceFrom_def nextWindowStart_def Let_def nat_add_distrib intro!: Cons_nth_drop_Suc [symmetric])
  then have "visible (sliceFrom s b) = visible (sliceFrom s (nextWindowStart s b))"
    using True by (simp add: visible_def)
  then show ?thesis using visible_slices [of s b] by simp
next
  case False
  then have "nextWindowStart s b = b" using assms by (auto simp: nextWindowStart_def)
  then show ?thesis by (simp add: visible_slices)
qed

lemma next_window_cut:
  assumes "safeCut s (nat b)" "0 \<le> b" "b \<le> int (length s)"
  shows "safeCut s (nat (nextWindowStart s b))"
proof (cases "b < int (length s) \<and> isSpaceUnit (s ! nat b)")
  case True
  then have "nextWindowStart s b = b + 1" by (auto simp: nextWindowStart_def)
  then show ?thesis using True assms space_not_surrogate(1) by (auto simp: safeCut_def nat_add_distrib)
next
  case False
  then have "nextWindowStart s b = b" using assms by (auto simp: nextWindowStart_def)
  then show ?thesis using assms by simp
qed

text \<open>The length that the limit permits: a surrogate pair takes two units even if the limit is one.\<close>

definition withinLimit :: "int \<Rightarrow> utf16 \<Rightarrow> bool" where
  "withinLimit limit chunk \<longleftrightarrow> int (length chunk) \<le> limit \<or> limit = 1 \<and> length chunk = 2"

lemma good_break_within:
  assumes "goodBreak s limit b"
  shows "withinLimit limit (sliceTo s b)" "sliceTo s b \<noteq> []"
  using assms by (auto simp: goodBreak_def withinLimit_def sliceTo_def min_def)

lemma length_trimEnd16: "length (trimEnd16 s) \<le> length s"
  using length_dropWhile_le [of isSpaceUnit "rev s"] by (simp add: trimEnd16_def)

lemma within_trimEnd: "0 < limit \<Longrightarrow> withinLimit limit s \<Longrightarrow> withinLimit limit (trimEnd16 s)"
  using length_trimEnd16 [of s] by (auto simp: withinLimit_def)

lemma good_break_wellFormed:
  assumes "goodBreak s limit b" "wellFormed16 s"
  shows "wellFormed16 (sliceTo s b)" "wellFormed16 (sliceFrom s b)"
  using wellFormed16_cut [OF assms(2), of "nat b"] assms(1) by (simp_all add: goodBreak_def sliceTo_def sliceFrom_def)

lemma splitRemaining_correct:
  assumes "0 < limit"
  shows "concat (splitRemaining limit pw s) = s"
    and "\<forall>c \<in> set (splitRemaining limit pw s). c \<noteq> [] \<and> withinLimit limit c"
    and "wellFormed16 s \<Longrightarrow> \<forall>c \<in> set (splitRemaining limit pw s). wellFormed16 c"
proof -
  have "concat (splitRemaining limit pw s) = s \<and>
     (\<forall>c \<in> set (splitRemaining limit pw s). c \<noteq> [] \<and> withinLimit limit c) \<and>
     (wellFormed16 s \<longrightarrow> (\<forall>c \<in> set (splitRemaining limit pw s). wellFormed16 c))"
    using assms
  proof (induction limit pw s rule: splitRemaining.induct)
    case (1 limit pw s)
    show ?case
    proof (cases "limit < int (length s)")
      case True
      note good = lineBreakIndex_good [OF 1(2) True, of pw]
      let ?b = "lineBreakIndex limit pw s"
      have step: "splitRemaining limit pw s = sliceTo s ?b # splitRemaining limit pw (sliceFrom s ?b)"
        using 1(2) True by (simp add: splitRemaining.simps [of limit pw s] Let_def)
      have whole: "sliceTo s ?b @ sliceFrom s ?b = s" by (simp add: sliceTo_def sliceFrom_def)
      have cond: "0 < limit \<and> limit < int (length s)" using 1(2) True by simp
      note IH = 1(1) [OF cond refl 1(2)]
      have "concat (splitRemaining limit pw s) = s" unfolding step using IH whole by (simp only: concat.simps)
      moreover have "\<forall>c \<in> set (splitRemaining limit pw s). c \<noteq> [] \<and> withinLimit limit c"
        unfolding step using IH good_break_within [OF good] by simp
      moreover have "wellFormed16 s \<longrightarrow> (\<forall>c \<in> set (splitRemaining limit pw s). wellFormed16 c)"
      proof
        assume wf: "wellFormed16 s"
        show "\<forall>c \<in> set (splitRemaining limit pw s). wellFormed16 c" using IH good_break_wellFormed [OF good wf] unfolding step by simp
      qed
      ultimately show ?thesis by blast
    next
      case False
      then have "splitRemaining limit pw s = (if s \<noteq> [] then [s] else [])"
        by (simp add: splitRemaining.simps [of limit pw s])
      then show ?thesis using False by (simp add: withinLimit_def)
    qed
  qed
  then show "concat (splitRemaining limit pw s) = s"
    "\<forall>c \<in> set (splitRemaining limit pw s). c \<noteq> [] \<and> withinLimit limit c"
    "wellFormed16 s \<Longrightarrow> \<forall>c \<in> set (splitRemaining limit pw s). wellFormed16 c" by blast+
qed

lemma chunkRemaining_correct:
  assumes "0 < limit"
  shows "visible (concat (chunkRemaining limit resolve s)) = visible s \<and>
     (\<forall>c \<in> set (chunkRemaining limit resolve s). c \<noteq> [] \<and> withinLimit limit c) \<and>
     (wellFormed16 s \<longrightarrow> (\<forall>c \<in> set (chunkRemaining limit resolve s). wellFormed16 c))"
  using assms
proof (induction limit resolve s rule: chunkRemaining.induct)
  case (1 limit resolve s)
  show ?case
  proof (cases "limit < int (length s)")
    case True
    let ?b = "resolvedBreak limit resolve s"
    let ?rest = "trimStart16 (sliceFrom s (nextWindowStart s ?b))"
    note good = resolvedBreak_good [OF 1(2) True, of resolve]
    have b: "0 \<le> ?b" "?b \<le> int (length s)" "safeCut s (nat ?b)" using good by (auto simp: goodBreak_def)
    have rest: "visible ?rest = visible (sliceFrom s (nextWindowStart s ?b))"
      "wellFormed16 s \<Longrightarrow> wellFormed16 ?rest"
      using wellFormed16_cut(2) next_window_cut [OF b(3,1,2)] wellFormed16_trimStart by (auto simp: sliceFrom_def)
    let ?chunk = "trimEnd16 (sliceTo s ?b)"
    have chunk: "withinLimit limit ?chunk" "wellFormed16 s \<Longrightarrow> wellFormed16 ?chunk"
      "visible ?chunk @ visible ?rest = visible s"
      using good_break_within [OF good] good_break_wellFormed [OF good] 1(2) rest(1) visible_next_window [OF b(1,2)]
      by (auto simp: within_trimEnd wellFormed16_trimEnd)
    have step: "chunkRemaining limit resolve s = (if ?chunk \<noteq> [] then [?chunk] else []) @ chunkRemaining limit resolve ?rest"
      using 1(2) True by (simp add: chunkRemaining.simps [of limit resolve s] Let_def)
    have IH: "visible (concat (chunkRemaining limit resolve ?rest)) = visible ?rest"
      "\<forall>c \<in> set (chunkRemaining limit resolve ?rest). c \<noteq> [] \<and> withinLimit limit c"
      "wellFormed16 ?rest \<longrightarrow> (\<forall>c \<in> set (chunkRemaining limit resolve ?rest). wellFormed16 c)"
      using 1(1) [OF _ refl refl refl 1(2)] 1(2) True by simp_all
    have "visible (concat (chunkRemaining limit resolve s)) = visible s"
      using chunk(3) IH(1) unfolding step by (cases "?chunk = []") (auto simp del: visible_trimEnd)
    moreover have "\<forall>c \<in> set (chunkRemaining limit resolve s). c \<noteq> [] \<and> withinLimit limit c"
      using chunk(1) IH(2) unfolding step by (cases "?chunk = []") simp_all
    moreover have "wellFormed16 s \<longrightarrow> (\<forall>c \<in> set (chunkRemaining limit resolve s). wellFormed16 c)"
    proof
      assume wf: "wellFormed16 s"
      show "\<forall>c \<in> set (chunkRemaining limit resolve s). wellFormed16 c"
        using chunk(2) [OF wf] mp [OF IH(3) rest(2) [OF wf]] unfolding step by (cases "?chunk = []") simp_all
    qed
    ultimately show ?thesis by blast
  next
    case False
    then have "chunkRemaining limit resolve s = (if trimEnd16 s \<noteq> [] then [trimEnd16 s] else [])"
      by (simp add: chunkRemaining.simps [of limit resolve s] Let_def)
    moreover have "visible s = []" if "trimEnd16 s = []" using that visible_trimEnd [of s] by simp
    moreover have "withinLimit limit (trimEnd16 s)"
      using False length_trimEnd16 [of s] by (auto simp: withinLimit_def)
    ultimately show ?thesis using wellFormed16_trimEnd [of s] by auto
  qed
qed

subsection \<open>Plain text and newline mode\<close>

lemma chunkTextByBreakResolver_keeps_text:
  "visible (concat (chunkTextByBreakResolver s limit resolve)) = visible s"
  using chunkRemaining_correct [of limit resolve s] by (simp add: chunkTextByBreakResolver_def)

lemma chunkText_keeps_text: "visible (concat (chunkText s limit)) = visible s"
  by (simp add: chunkText_def resolveChunkEarlyReturn_def chunkTextByBreakResolver_keeps_text)

lemma chunkTextByBreakResolver_wellFormed:
  assumes "wellFormed16 s" "c \<in> set (chunkTextByBreakResolver s limit resolve)"
  shows "wellFormed16 c"
  using assms chunkRemaining_correct [of limit resolve s]
  by (auto simp: chunkTextByBreakResolver_def split: if_splits)

lemma chunkText_wellFormed: "wellFormed16 s \<Longrightarrow> c \<in> set (chunkText s limit) \<Longrightarrow> wellFormed16 c"
  by (auto simp: chunkText_def resolveChunkEarlyReturn_def split: if_splits dest: chunkTextByBreakResolver_wellFormed)

lemma newline_fold:
  assumes "n \<le> length s"
  shows "case foldl (newlineStep s isSafe) ([], 0) [0..<n] of (ls, start) \<Rightarrow>
    start \<le> n \<and> visible (concat ls) = visible (take start s) \<and>
    (wellFormed16 s \<longrightarrow> (\<forall>l \<in> set ls. wellFormed16 l) \<and> wellFormed16 (drop start s))"
  using assms
proof (induction n)
  case (Suc n)
  obtain ls start where fold: "foldl (newlineStep s isSafe) ([], 0) [0..<n] = (ls, start)" by fastforce
  then have IH: "start \<le> n" "visible (concat ls) = visible (take start s)"
    "wellFormed16 s \<longrightarrow> (\<forall>l \<in> set ls. wellFormed16 l) \<and> wellFormed16 (drop start s)" using Suc by auto
  show ?case
  proof (cases "s ! n = 0x0A \<and> isSafe n")
    case True
    have n: "n < length s" "isSpaceUnit (s ! n)" using Suc.prems True by (auto simp: isSpaceUnit_def)
    have "visible (take (Suc n) s) = visible (take n s)"
      using n by (simp add: take_Suc_conv_app_nth visible_def)
    also have "\<dots> = visible (take start s) @ visible (drop start (take n s))"
      using IH(1) by (metis append_take_drop_id take_take min.absorb1 visible_append)
    finally have kept: "visible (concat (ls @ [drop start (take n s)])) = visible (take (Suc n) s)" using IH(2) by simp
    have "wellFormed16 (drop start (take n s)) \<and> wellFormed16 (drop (Suc n) s)" if "wellFormed16 s"
    proof -
      let ?d = "drop start s"
      have cut: "safeCut ?d (n - start)" using n IH(1) by (intro space_cut) auto
      have wf: "wellFormed16 ?d" using IH(3) that by simp
      have "drop n s = s ! n # drop (Suc n) s" using n by (simp add: Cons_nth_drop_Suc)
      moreover have "drop (n - start) ?d = drop n s" using IH(1) by simp
      ultimately have "wellFormed16 (drop (Suc n) s)"
        using wellFormed16_cut(2) [OF wf cut] space_not_surrogate(1) [OF n(2)] by (simp add: wellFormed16_Cons)
      moreover have "take (n - start) ?d = drop start (take n s)" by (simp add: drop_take)
      ultimately show ?thesis using wellFormed16_cut(1) [OF wf cut] by simp
    qed
    then show ?thesis using fold True IH kept n by simp
  next
    case False
    then show ?thesis using fold IH by auto
  qed
qed simp

lemma splitByNewline_keeps_text:
  "visible (concat (splitByNewline s isSafe)) = visible s"
  "wellFormed16 s \<Longrightarrow> l \<in> set (splitByNewline s isSafe) \<Longrightarrow> wellFormed16 l"
  using newline_fold [of "length s" s isSafe] visible_append [of "take i s" "drop i s" for i]
  by (auto simp: splitByNewline_def split: prod.splits)

lemma visible_blank: "trim16 s = [] \<Longrightarrow> visible s = []"
  using visible_trimEnd [of "trimStart16 s"] by (simp add: trim16_def)

lemma wellFormed16_newlines: "wellFormed16 (replicate n 0x0A @ s) = wellFormed16 s"
  by (induction n) (simp_all add: wellFormed16_Cons space_not_surrogate isSpaceUnit_def)

lemma avoid_break_safe:
  assumes "0 < i"
  shows "safeCut s (nat (avoidTrailingHighSurrogateBreak s 0 i))"
proof (cases "i \<le> int (length s)")
  case True
  then show ?thesis using avoid_break_good [of i i s] assms by (simp add: goodBreak_def)
next
  case False
  then have "avoidTrailingHighSurrogateBreak s 0 i = i" by (simp add: avoidTrailingHighSurrogateBreak_def)
  moreover have "length s < nat i" using False by linarith
  ultimately show ?thesis by (simp add: safeCut_def)
qed

lemma lineChunks_correct:
  "visible (concat (lineChunks limit opts pending line)) = visible line"
  "wellFormed16 line \<Longrightarrow> c \<in> set (lineChunks limit opts pending line) \<Longrightarrow> wellFormed16 c"
proof -
  define v where "v = (if nl_trimLines opts \<noteq> Some False then trim16 line else line)"
  define m where "m = (if pending > 0 then min (int pending) (max 0 (limit - 1)) else 0)"
  define prefix :: utf16 where "prefix = replicate (nat m) 0x0A"
  define b where "b = avoidTrailingHighSurrogateBreak v 0 (max 1 (limit - int (length prefix)))"
  have unfold: "lineChunks limit opts pending line =
     (if nl_splitLongLines opts = Some False \<or> int (length v + length prefix) \<le> limit then [prefix @ v]
      else (prefix @ sliceTo v b) # (if sliceFrom v b \<noteq> [] then chunkText (sliceFrom v b) limit else []))"
    by (simp add: lineChunks_def v_def m_def prefix_def b_def Let_def)
  have v: "visible v = visible line" "wellFormed16 line \<Longrightarrow> wellFormed16 v"
    using wellFormed16_trimStart wellFormed16_trimEnd by (auto simp: v_def trim16_def)
  have cut: "safeCut v (nat b)" unfolding b_def by (rule avoid_break_safe) simp
  have prefix: "visible prefix = []" "\<And>s. wellFormed16 (prefix @ s) = wellFormed16 s"
    by (simp_all add: prefix_def wellFormed16_newlines)
  have rest: "visible (concat (if sliceFrom v b \<noteq> [] then chunkText (sliceFrom v b) limit else [])) = visible (sliceFrom v b)"
    by (auto simp: chunkText_keeps_text)
  show "visible (concat (lineChunks limit opts pending line)) = visible line"
  proof (cases "nl_splitLongLines opts = Some False \<or> int (length v + length prefix) \<le> limit")
    case False
    then show ?thesis using prefix(1) v(1) rest visible_slices [of v b] unfolding unfold by simp
  qed (use prefix(1) v(1) unfold in simp)
  assume wf: "wellFormed16 line" and c: "c \<in> set (lineChunks limit opts pending line)"
  have "wellFormed16 (sliceTo v b)" "wellFormed16 (sliceFrom v b)"
    using wellFormed16_cut [OF v(2) [OF wf] cut] by (simp_all add: sliceTo_def sliceFrom_def)
  then show "wellFormed16 c"
    using c v(2) [OF wf] prefix(2) unfolding unfold by (auto split: if_splits dest: chunkText_wellFormed)
qed

lemma chunkLine_fold_text:
  "visible (concat (fst (foldl (chunkLine limit opts) (chunks, pending) ls))) = visible (concat chunks) @ visible (concat ls)"
proof (induction ls arbitrary: chunks pending)
  case (Cons l ls)
  then show ?case using visible_blank [of l] by (simp add: lineChunks_correct(1))
qed simp

lemma chunkLine_fold_wellFormed:
  assumes "\<forall>c \<in> set chunks. wellFormed16 c" "\<forall>l \<in> set ls. wellFormed16 l"
  shows "\<forall>c \<in> set (fst (foldl (chunkLine limit opts) (chunks, pending) ls)). wellFormed16 c"
  using assms
proof (induction ls arbitrary: chunks pending)
  case (Cons l ls)
  have wf: "wellFormed16 l" "\<forall>l \<in> set ls. wellFormed16 l" using Cons.prems(2) by auto
  then have "\<forall>c \<in> set (chunks @ lineChunks limit opts pending l). wellFormed16 c"
    using Cons.prems(1) lineChunks_correct(2) [OF wf(1)] by fastforce
  then show ?case
    using Cons.IH [OF Cons.prems(1) wf(2), of "pending + 1"] Cons.IH [OF _ wf(2), of "chunks @ lineChunks limit opts pending l" 0]
    by (cases "trim16 l = []") simp_all
qed simp

lemma wellFormed16_pad: "wellFormed16 s \<Longrightarrow> wellFormed16 (s @ replicate n 0x0A)"
  using wellFormed16_newlines [of n "[]"] by (simp add: wellFormed16_append)

text \<open>Newline mode keeps the visible text too. It does not bound the chunks: the blank lines at the end of the
  text are all appended to the last chunk.\<close>

lemma chunkByNewline_correct:
  "visible (concat (chunkByNewline s limit opts)) = visible s"
  "wellFormed16 s \<Longrightarrow> c \<in> set (chunkByNewline s limit opts) \<Longrightarrow> wellFormed16 c"
proof -
  define ls where "ls = splitByNewline s (nullish (nl_isSafeBreak opts) (\<lambda>_. True))"
  obtain chunks pending where fold: "foldl (chunkLine limit opts) ([], 0) ls = (chunks, pending)" by fastforce
  have kept: "visible (concat chunks) = visible s"
    using chunkLine_fold_text [of limit opts "[]" 0 ls] fold splitByNewline_keeps_text(1) by (simp add: ls_def)
  have wf: "\<forall>c \<in> set chunks. wellFormed16 c" if "wellFormed16 s"
    using chunkLine_fold_wellFormed [of "[]" ls limit opts 0] fold splitByNewline_keeps_text(2) [OF that] by (simp add: ls_def)
  have unfold: "chunkByNewline s limit opts =
     (if s = [] then [] else if limit \<le> 0 then (if trim16 s \<noteq> [] then [s] else [])
      else if pending > 0 \<and> chunks \<noteq> [] then butlast chunks @ [last chunks @ replicate pending 0x0A] else chunks)"
    using fold by (simp add: chunkByNewline_def ls_def Let_def)
  have "visible (concat (butlast chunks @ [last chunks @ replicate pending 0x0A])) = visible s" if "chunks \<noteq> []"
  proof -
    have "concat chunks = concat (butlast chunks) @ last chunks"
      using that by (metis append_butlast_last_id concat.simps append_Nil2 concat_append)
    then show ?thesis using kept by simp
  qed
  then show "visible (concat (chunkByNewline s limit opts)) = visible s"
    unfolding unfold using kept visible_blank [of s] by simp
  assume "wellFormed16 s" "c \<in> set (chunkByNewline s limit opts)"
  then show "wellFormed16 c"
    unfolding unfold using wf wellFormed16_pad [of "last chunks" pending] by (auto split: if_splits dest: in_set_butlastD)
qed

subsection \<open>Surrogate-safe slices\<close>

lemma truncateUtf16Safe_bounded: "int (length (truncateUtf16Safe s n)) \<le> max 0 n"
  by (auto simp: truncateUtf16Safe_def sliceUtf16Safe_def sliceTo_def sliceFrom_def Let_def)

lemma safeCut_drop: "safeCut s t \<Longrightarrow> f \<le> t \<Longrightarrow> safeCut (drop f s) (t - f)"
  by (auto simp: safeCut_def)

lemma wellFormed16_slice:
  assumes "wellFormed16 s" "safeCut s f" "safeCut s t"
  shows "wellFormed16 (take (t - f) (drop f s))"
  using wellFormed16_cut(1) [OF wellFormed16_cut(2) [OF assms(1,2)] safeCut_drop [OF assms(3)]]
  by (cases "f \<le> t") simp_all

lemma slice_bounds_safe:
  assumes "0 \<le> i"
  shows "safeCut s (nat (if 0 < i \<and> i < int (length s) \<and> isLowSurrogate (charCodeAt s i) \<and>
             isHighSurrogate (charCodeAt s (i - 1)) then i + 1 else i))"
    and "safeCut s (nat (if 0 < i \<and> i < int (length s) \<and> isHighSurrogate (charCodeAt s (i - 1)) \<and>
             isLowSurrogate (charCodeAt s i) then i - 1 else i))"
proof -
  obtain n where n: "i = int n" using assms by (cases i) auto
  have prev: "charCodeAt s (i - 1) = Some (s ! (n - 1))" if "0 < n" "n < length s"
    using that n by (simp add: charCodeAt_def nat_diff_distrib)
  show "safeCut s (nat (if 0 < i \<and> i < int (length s) \<and> isLowSurrogate (charCodeAt s i) \<and>
             isHighSurrogate (charCodeAt s (i - 1)) then i + 1 else i))"
    using n prev surrogates_disjoint by (auto simp: safeCut_def nat_add_distrib)
  show "safeCut s (nat (if 0 < i \<and> i < int (length s) \<and> isHighSurrogate (charCodeAt s (i - 1)) \<and>
             isLowSurrogate (charCodeAt s i) then i - 1 else i))"
    using n prev surrogates_disjoint by (auto simp: safeCut_def nat_diff_distrib)
qed

lemma sliceUtf16Safe_wellFormed:
  assumes "wellFormed16 s"
  shows "wellFormed16 (sliceUtf16Safe s start stop)"
proof -
  define f0 where "f0 = (if start < 0 then max (int (length s) + start) 0 else min start (int (length s)))"
  define t0 where "t0 = (case stop of None \<Rightarrow> int (length s)
    | Some e \<Rightarrow> if e < 0 then max (int (length s) + e) 0 else min e (int (length s)))"
  have nonneg: "0 \<le> f0" "0 \<le> t0" by (auto simp: f0_def t0_def split: option.split)
  define f where "f = (if 0 < f0 \<and> f0 < int (length s) \<and> isLowSurrogate (charCodeAt s f0) \<and>
    isHighSurrogate (charCodeAt s (f0 - 1)) then f0 + 1 else f0)"
  define t where "t = (if 0 < t0 \<and> t0 < int (length s) \<and> isHighSurrogate (charCodeAt s (t0 - 1)) \<and>
    isLowSurrogate (charCodeAt s t0) then t0 - 1 else t0)"
  have safe: "safeCut s (nat f)" "safeCut s (nat t)"
    unfolding f_def t_def by (rule slice_bounds_safe [OF nonneg(1)], rule slice_bounds_safe [OF nonneg(2)])
  have nonneg': "0 \<le> f" "0 \<le> t" using nonneg by (auto simp: f_def t_def)
  have "sliceUtf16Safe s start stop = (if t0 \<le> f0 then [] else sliceTo (sliceFrom s f) (t - f))"
    by (simp only: sliceUtf16Safe_def Let_def f0_def t0_def f_def t_def)
  then show ?thesis
    using wellFormed16_slice [OF assms safe] nonneg' by (simp add: sliceTo_def sliceFrom_def nat_diff_distrib')
qed

subsection \<open>Properties\<close>

text \<open>
  \<open>splitLongTextLine\<close> loses nothing: for every line, limit and option the chunks concatenate to the
  line. With a positive limit the chunks of a non-empty line are not empty and within the limit (a limit of one
  unit still admits a whole surrogate pair), and the chunks of well-formed UTF-16 are well-formed: no
  surrogate pair is torn apart.
\<close>

theorem long_lines_split_losslessly:
  "concat (splitLongTextLine line limit pw) = line \<and>
   (0 < limit \<longrightarrow> line \<noteq> [] \<longrightarrow> (\<forall>c \<in> set (splitLongTextLine line limit pw). c \<noteq> [] \<and> withinLimit limit c)) \<and>
   (wellFormed16 line \<longrightarrow> (\<forall>c \<in> set (splitLongTextLine line limit pw). wellFormed16 c))"
proof (cases "limit \<le> 0 \<or> int (length line) \<le> limit")
  case False
  then have "0 < limit" "splitLongTextLine line limit pw = splitRemaining limit pw line"
    by (simp_all add: splitLongTextLine_def)
  then show ?thesis using splitRemaining_correct [where limit = limit and pw = pw and s = line] by simp
qed (auto simp: splitLongTextLine_def withinLimit_def)

definition sampleText :: utf16 where
  "sampleText = [0x61, 0x62, 0x20, 0xD83D, 0xDE00, 0xD83D, 0xDE00, 0x0A, 0x3002, 0x63]"

theorem long_lines_split_losslessly_witness:
  "concat (splitLongTextLine sampleText 4 True) = sampleText \<and>
   list_all (\<lambda>c. c \<noteq> [] \<and> withinLimit 4 c \<and> wellFormed16 c) (splitLongTextLine sampleText 4 True)"
proof -
  have "wellFormed16 sampleText" "sampleText \<noteq> []" by code_simp+
  then show ?thesis using long_lines_split_losslessly [of sampleText 4 True] by (simp add: list_all_iff)
qed

text \<open>
  C40. \<open>chunkTextByBreakResolver\<close> and \<open>chunkByNewline\<close> lose no visible text and tear no surrogate pair
  apart, for every text, limit and break resolver: the chunks have the text's characters other than white
  space, in order, and the chunks of well-formed UTF-16 are well-formed. The chunks of the former are not
  empty and, for a positive limit, within the limit. So the same holds of \<open>chunkText\<close> and
  \<open>chunkTextForOutbound\<close>, whatever break their scans propose.
\<close>

theorem chunks_keep_visible_text:
  "visible (concat (chunkTextByBreakResolver s limit resolve)) = visible s \<and>
   visible (concat (chunkByNewline s limit opts)) = visible s \<and>
   (0 < limit \<longrightarrow> (\<forall>c \<in> set (chunkTextByBreakResolver s limit resolve). c \<noteq> [] \<and> withinLimit limit c)) \<and>
   (wellFormed16 s \<longrightarrow>
     (\<forall>c \<in> set (chunkTextByBreakResolver s limit resolve) \<union> set (chunkByNewline s limit opts). wellFormed16 c))"
proof -
  have "\<forall>c \<in> set (chunkTextByBreakResolver s limit resolve). c \<noteq> [] \<and> withinLimit limit c" if "0 < limit"
    using chunkRemaining_correct [OF that, of resolve s] that by (auto simp: chunkTextByBreakResolver_def withinLimit_def)
  moreover have "\<forall>c \<in> set (chunkTextByBreakResolver s limit resolve) \<union> set (chunkByNewline s limit opts). wellFormed16 c"
    if "wellFormed16 s"
    using chunkTextByBreakResolver_wellFormed [OF that] chunkByNewline_correct(2) [OF that] by blast
  ultimately show ?thesis by (simp add: chunkTextByBreakResolver_keeps_text chunkByNewline_correct(1))
qed

theorem chunks_keep_visible_text_witness:
  "list_all (\<lambda>c. c \<noteq> [] \<and> withinLimit 4 c \<and> wellFormed16 c) (chunkTextByBreakResolver sampleText 4 (\<lambda>window. Some 0)) \<and>
   visible (concat (chunkByNewline sampleText 4 \<lparr>nl_splitLongLines = None, nl_trimLines = None, nl_isSafeBreak = None\<rparr>)) =
     [0x61, 0x62, 0xD83D, 0xDE00, 0xD83D, 0xDE00, 0x3002, 0x63]"
proof -
  have "wellFormed16 sampleText" "visible sampleText = [0x61, 0x62, 0xD83D, 0xDE00, 0xD83D, 0xDE00, 0x3002, 0x63]"
    by code_simp+
  then show ?thesis
    using chunks_keep_visible_text [of sampleText 4 "\<lambda>window. Some 0"
        "\<lparr>nl_splitLongLines = None, nl_trimLines = None, nl_isSafeBreak = None\<rparr>"] by (simp add: list_all_iff)
qed

text \<open>The blank lines at the end of a text are not capped: a limit of two units, a chunk of five.\<close>

lemma trailing_blank_lines_exceed_limit:
  "chunkByNewline [0x61, 0x0A, 0x0A, 0x0A, 0x0A] 2 \<lparr>nl_splitLongLines = None, nl_trimLines = None, nl_isSafeBreak = None\<rparr> =
     [[0x61, 0x0A, 0x0A, 0x0A, 0x0A]]"
  by code_simp

end
