(* ===== verification/Board_Layout.thy ===== *)
theory Board_Layout
  imports Prelude "HOL-Library.Multiset"
begin

text \<open>
  Board layouts: the tabs and widgets of a board and the operations on them, after
  \<open>src/boards/board-layout.ts\<close> and the types of \<open>packages/gateway-protocol/src/schema/board.ts\<close>.

  The code clones a layout, mutates the clone and compares its objects by identity. Here an object is a
  position in its list: \<open>requireTab\<close> and \<open>requireWidget\<close> return it. Numbers are integers. The
  properties of a plugin widget are a type parameter. The properties of a widget that only the gateway adds
  on output (\<open>frameUrl\<close> and the like) are left out: every clone drops them. A thrown
  \<open>BoardValidationError\<close> is a left value. The lemmas show that every operation keeps a layout consistent
  and arranged.
\<close>

subsection \<open>Data\<close>

datatype chat_dock = DockLeft | DockRight | DockBottom | DockHidden

record board_tab =
  bt_tabId :: string
  bt_title :: string
  bt_position :: int
  bt_chatDock :: chat_dock

datatype content_kind = CkHtml | CkMcpApp | CkPlugin

datatype widget_presentation = PresCard | PresFullBleed | PresFrameless

datatype height_mode = HmAuto | HmFixed

datatype grant_state = GrantNone | GrantPending | Granted | GrantRejected

record widget_declared =
  wd_netOrigins :: "string list option"
  wd_tools :: "string list option"

record 'p board_widget =
  bw_name :: string
  bw_tabId :: string
  bw_title :: "string option"
  bw_contentKind :: content_kind
  bw_presentation :: "widget_presentation option"
  bw_heightMode :: "height_mode option"
  bw_pluginKind :: "string option"
  bw_props :: "'p option"
  bw_sizeW :: int
  bw_sizeH :: int
  bw_position :: int
  bw_grantState :: grant_state
  bw_revision :: int
  bw_instanceId :: "string option"
  bw_declaredSummary :: "string list option"
  bw_declared :: "widget_declared option"

record 'p board_layout =
  bl_tabs :: "board_tab list"
  bl_widgets :: "'p board_widget list"

datatype board_error_code = BoardConflict | BoardInvalidOperation | BoardNotFound

datatype board_error = BoardValidationError board_error_code string

type_synonym 'a board_result = "board_error + 'a"

datatype board_op =
    TabCreate string string "chat_dock option"
  | TabUpdate string "string option" "chat_dock option" "int option"
  | TabDelete string
  | TabsReorder "string list"
  | WidgetMove string "string option" "int option" "string option"
  | WidgetResize string int int "height_mode option"
  | WidgetRemove string

datatype board_size = SizeSm | SizeMd | SizeLg | SizeXl | SizeFull

fun BOARD_SIZE_PRESETS :: "board_size \<Rightarrow> int \<times> int" where
  "BOARD_SIZE_PRESETS SizeSm = (3, 3)"
| "BOARD_SIZE_PRESETS SizeMd = (6, 4)"
| "BOARD_SIZE_PRESETS SizeLg = (8, 6)"
| "BOARD_SIZE_PRESETS SizeXl = (12, 8)"
| "BOARD_SIZE_PRESETS SizeFull = (12, 8)"

definition MAX_SAFE_INTEGER :: int where
  "MAX_SAFE_INTEGER = 9007199254740991"

subsection \<open>Lists of objects\<close>

text \<open>\<open>findIndex\<close>, the list without one object, the list in a given order without one object, and
  \<open>splice(n, 0, x)\<close>.\<close>

fun firstIndex :: "('a \<Rightarrow> bool) \<Rightarrow> 'a list \<Rightarrow> nat option" where
  "firstIndex P [] = None"
| "firstIndex P (x # xs) = (if P x then Some 0 else map_option Suc (firstIndex P xs))"

definition allExcept :: "nat \<Rightarrow> 'a list \<Rightarrow> 'a list" where
  "allExcept k xs = map snd (filter (\<lambda>(i, x). i \<noteq> k) (enumerate 0 xs))"

definition sortedExcept :: "('a \<Rightarrow> 'a \<Rightarrow> int) \<Rightarrow> nat \<Rightarrow> 'a list \<Rightarrow> 'a list" where
  "sortedExcept cmp k xs =
     map snd (filter (\<lambda>(i, x). i \<noteq> k) (js_toSorted (\<lambda>a b. cmp (snd a) (snd b)) (enumerate 0 xs)))"

definition spliceAt :: "int \<Rightarrow> 'a \<Rightarrow> 'a list \<Rightarrow> 'a list" where
  "spliceAt n x xs = take (nat n) xs @ [x] @ drop (nat n) xs"

subsection \<open>Normalization\<close>

definition clampInteger :: "int \<Rightarrow> int \<Rightarrow> int \<Rightarrow> int" where
  "clampInteger v lo hi = min hi (max lo v)"

definition comparePosition :: "int \<Rightarrow> int \<Rightarrow> int" where
  "comparePosition a b = a - b"

abbreviation compareTabs :: "board_tab \<Rightarrow> board_tab \<Rightarrow> int" where
  "compareTabs a b \<equiv> comparePosition (bt_position a) (bt_position b)"

text \<open>\<open>forEach((candidate, index) => candidate.position = index)\<close>.\<close>

definition renumberTabs :: "board_tab list \<Rightarrow> board_tab list" where
  "renumberTabs tabs = map (\<lambda>(i, tab). tab\<lparr>bt_position := int i\<rparr>) (enumerate 0 tabs)"

definition renumberWidgets :: "'p board_widget list \<Rightarrow> 'p board_widget list" where
  "renumberWidgets ws = map (\<lambda>(i, w). w\<lparr>bw_position := int i\<rparr>) (enumerate 0 ws)"

definition tabPositions :: "board_tab list \<Rightarrow> string \<Rightarrow> int option" where
  "tabPositions tabs = map_of (rev (map (\<lambda>tab. (bt_tabId tab, bt_position tab)) tabs))"

definition compareWidgets :: "(string \<Rightarrow> int option) \<Rightarrow> 'p board_widget \<Rightarrow> 'p board_widget \<Rightarrow> int" where
  "compareWidgets tabPosition a b =
     (let tabDelta = nullish (tabPosition (bw_tabId a)) MAX_SAFE_INTEGER
                     - nullish (tabPosition (bw_tabId b)) MAX_SAFE_INTEGER
      in if tabDelta \<noteq> 0 then tabDelta else bw_position a - bw_position b)"

text \<open>The loop that numbers the widgets of each tab, with \<open>nextPosition\<close> as its state.\<close>

fun numberPerTab :: "(string \<Rightarrow> int option) \<Rightarrow> 'p board_widget list \<Rightarrow> 'p board_widget list" where
  "numberPerTab nextPosition [] = []"
| "numberPerTab nextPosition (w # ws) =
     (let position = nullish (nextPosition (bw_tabId w)) 0
      in w\<lparr>bw_position := position\<rparr> # numberPerTab (nextPosition(bw_tabId w \<mapsto> position + 1)) ws)"

definition normalizeBoardLayout :: "'p board_layout \<Rightarrow> 'p board_layout" where
  "normalizeBoardLayout layout =
     (let tabs = renumberTabs (js_toSorted compareTabs (bl_tabs layout))
      in \<lparr>bl_tabs = tabs,
          bl_widgets = numberPerTab Map.empty (js_toSorted (compareWidgets (tabPositions tabs)) (bl_widgets layout))\<rparr>)"

subsection \<open>Operations\<close>

definition requireTab :: "'p board_layout \<Rightarrow> string \<Rightarrow> nat board_result" where
  "requireTab layout tabId =
     (case firstIndex (\<lambda>tab. bt_tabId tab = tabId) (bl_tabs layout) of
        Some k \<Rightarrow> Inr k
      | None \<Rightarrow> Inl (BoardValidationError BoardNotFound (''board tab not found: '' @ tabId)))"

definition requireWidget :: "'p board_layout \<Rightarrow> string \<Rightarrow> nat board_result" where
  "requireWidget layout name =
     (case firstIndex (\<lambda>w. bw_name w = name) (bl_widgets layout) of
        Some k \<Rightarrow> Inr k
      | None \<Rightarrow> Inl (BoardValidationError BoardNotFound (''board widget not found: '' @ name)))"

definition moveTab :: "'p board_layout \<Rightarrow> nat \<Rightarrow> int \<Rightarrow> 'p board_layout" where
  "moveTab layout k position =
     (let ordered = sortedExcept compareTabs k (bl_tabs layout);
          spliced = spliceAt (clampInteger position 0 (int (length ordered))) (bl_tabs layout ! k) ordered
      in layout\<lparr>bl_tabs := renumberTabs spliced\<rparr>)"

text \<open>Where \<open>moveWidget\<close> inserts the widget among the other widgets of the target tab.\<close>

definition targetPosition ::
  "string \<Rightarrow> string \<Rightarrow> 'p board_widget list \<Rightarrow> int option \<Rightarrow> string option \<Rightarrow> int board_result" where
  "targetPosition name targetTabId targetWidgets position after =
     (case after of
        Some anchor \<Rightarrow>
          if anchor = name
          then Inl (BoardValidationError BoardInvalidOperation ''widget cannot be placed after itself'')
          else (case firstIndex (\<lambda>w. bw_name w = anchor) targetWidgets of
             None \<Rightarrow> Inl (BoardValidationError BoardNotFound
               (''board widget anchor not found on tab '' @ targetTabId @ '': '' @ anchor))
           | Some anchorIndex \<Rightarrow> Inr (int anchorIndex + 1))
      | None \<Rightarrow>
          (case position of
             None \<Rightarrow> Inr (int (length targetWidgets))
           | Some p \<Rightarrow> Inr (clampInteger p 0 (int (length targetWidgets)))))"

definition moveWidget ::
  "'p board_layout \<Rightarrow> nat \<Rightarrow> string \<Rightarrow> int option \<Rightarrow> string option \<Rightarrow> 'p board_layout board_result" where
  "moveWidget layout k targetTabId position after =
     (case requireTab layout targetTabId of
        Inl e \<Rightarrow> Inl e
      | Inr _ \<Rightarrow>
          if position \<noteq> None \<and> after \<noteq> None
          then Inl (BoardValidationError BoardInvalidOperation ''widget_move accepts either position or after, not both'')
          else
            let widget = bl_widgets layout ! k;
                others = allExcept k (bl_widgets layout);
                targetWidgets = js_toSorted (\<lambda>a b. comparePosition (bw_position a) (bw_position b))
                                  (filter (\<lambda>w. bw_tabId w = targetTabId) others)
            in case targetPosition (bw_name widget) targetTabId targetWidgets position after of
                 Inl e \<Rightarrow> Inl e
               | Inr p \<Rightarrow> Inr (layout\<lparr>bl_widgets :=
                   filter (\<lambda>w. bw_tabId w \<noteq> targetTabId) others @
                   renumberWidgets (spliceAt p (widget\<lparr>bw_tabId := targetTabId\<rparr>) targetWidgets)\<rparr>))"

definition tabCreate :: "'p board_layout \<Rightarrow> string \<Rightarrow> string \<Rightarrow> chat_dock option \<Rightarrow> 'p board_layout board_result" where
  "tabCreate layout tabId title chatDock =
     (if tabId \<in> bt_tabId ` set (bl_tabs layout)
      then Inl (BoardValidationError BoardConflict (''board tab already exists: '' @ tabId))
      else Inr (layout\<lparr>bl_tabs := bl_tabs layout @
        [\<lparr>bt_tabId = tabId, bt_title = title, bt_position = int (length (bl_tabs layout)),
          bt_chatDock = nullish chatDock DockRight\<rparr>]\<rparr>))"

definition tabUpdate ::
  "'p board_layout \<Rightarrow> string \<Rightarrow> string option \<Rightarrow> chat_dock option \<Rightarrow> int option \<Rightarrow> 'p board_layout board_result" where
  "tabUpdate layout tabId title chatDock position =
     (case requireTab layout tabId of
        Inl e \<Rightarrow> Inl e
      | Inr k \<Rightarrow>
          if title = None \<and> chatDock = None \<and> position = None
          then Inl (BoardValidationError BoardInvalidOperation ''tab_update has no changes'')
          else
            let tab = bl_tabs layout ! k;
                tab1 = tab\<lparr>bt_title := nullish title (bt_title tab), bt_chatDock := nullish chatDock (bt_chatDock tab)\<rparr>;
                layout1 = layout\<lparr>bl_tabs := (bl_tabs layout)[k := tab1]\<rparr>
            in Inr (case position of None \<Rightarrow> layout1 | Some p \<Rightarrow> moveTab layout1 k p))"

definition tabDelete :: "'p board_layout \<Rightarrow> string \<Rightarrow> 'p board_layout board_result" where
  "tabDelete layout tabId =
     (case requireTab layout tabId of
        Inl e \<Rightarrow> Inl e
      | Inr k \<Rightarrow>
          let remainingTabs = js_toSorted compareTabs (allExcept k (bl_tabs layout));
              tabWidgets = filter (\<lambda>w. bw_tabId w = tabId) (bl_widgets layout)
          in if remainingTabs = [] \<and> tabWidgets \<noteq> []
             then Inl (BoardValidationError BoardInvalidOperation ''cannot delete the last board tab while it contains widgets'')
             else Inr \<lparr>bl_tabs = remainingTabs,
                       bl_widgets =
                         (if tabWidgets \<noteq> []
                          then map (\<lambda>w. if bw_tabId w = tabId
                                        then w\<lparr>bw_tabId := bt_tabId (hd remainingTabs), bw_position := MAX_SAFE_INTEGER\<rparr>
                                        else w) (bl_widgets layout)
                          else bl_widgets layout)\<rparr>)"

definition tabsReorder :: "'p board_layout \<Rightarrow> string list \<Rightarrow> 'p board_layout board_result" where
  "tabsReorder layout tabIds =
     (if length tabIds \<noteq> length (bl_tabs layout) \<or> \<not> distinct tabIds \<or>
         list_ex (\<lambda>tabId. tabId \<notin> bt_tabId ` set (bl_tabs layout)) tabIds
      then Inl (BoardValidationError BoardInvalidOperation ''tabs_reorder must contain every tab exactly once'')
      else
        let byId = map_of (rev (map (\<lambda>tab. (bt_tabId tab, tab)) (bl_tabs layout)))
        in Inr (layout\<lparr>bl_tabs := renumberTabs (map (\<lambda>tabId. the (byId tabId)) tabIds)\<rparr>))"

definition widgetResize ::
  "'p board_layout \<Rightarrow> string \<Rightarrow> int \<Rightarrow> int \<Rightarrow> height_mode option \<Rightarrow> 'p board_layout board_result" where
  "widgetResize layout name sizeW sizeH heightMode =
     (case requireWidget layout name of
        Inl e \<Rightarrow> Inl e
      | Inr k \<Rightarrow> Inr (layout\<lparr>bl_widgets := (bl_widgets layout)[k := (bl_widgets layout ! k)
          \<lparr>bw_sizeW := clampInteger sizeW 1 12, bw_sizeH := clampInteger sizeH 1 20,
           bw_heightMode := Some (nullish heightMode HmFixed)\<rparr>]\<rparr>))"

fun applyBoardOp :: "'p board_layout \<Rightarrow> board_op \<Rightarrow> 'p board_layout board_result" where
  "applyBoardOp layout (TabCreate tabId title chatDock) = tabCreate layout tabId title chatDock"
| "applyBoardOp layout (TabUpdate tabId title chatDock position) = tabUpdate layout tabId title chatDock position"
| "applyBoardOp layout (TabDelete tabId) = tabDelete layout tabId"
| "applyBoardOp layout (TabsReorder tabIds) = tabsReorder layout tabIds"
| "applyBoardOp layout (WidgetMove name tabId position after) =
     (case requireWidget layout name of
        Inl e \<Rightarrow> Inl e
      | Inr k \<Rightarrow> moveWidget layout k (nullish tabId (bw_tabId (bl_widgets layout ! k))) position after)"
| "applyBoardOp layout (WidgetResize name sizeW sizeH heightMode) = widgetResize layout name sizeW sizeH heightMode"
| "applyBoardOp layout (WidgetRemove name) =
     (case requireWidget layout name of
        Inl e \<Rightarrow> Inl e
      | Inr k \<Rightarrow> Inr (layout\<lparr>bl_widgets := filter (\<lambda>w. bw_name w \<noteq> name) (bl_widgets layout)\<rparr>))"

text \<open>The loop over the operations: each one is applied to the result of the one before, normalized.\<close>

fun runBoardOps :: "'p board_layout \<Rightarrow> board_op list \<Rightarrow> 'p board_layout board_result" where
  "runBoardOps layout [] = Inr layout"
| "runBoardOps layout (op # ops) =
     (case applyBoardOp layout op of
        Inl e \<Rightarrow> Inl e
      | Inr layout1 \<Rightarrow> runBoardOps (normalizeBoardLayout layout1) ops)"

definition applyBoardOps :: "'p board_layout \<Rightarrow> board_op list \<Rightarrow> 'p board_layout board_result" where
  "applyBoardOps layout ops = map_sum id normalizeBoardLayout (runBoardOps layout ops)"

subsection \<open>Inserting a widget\<close>

record widget_placement =
  wp_tabId :: string
  wp_after :: "string option"
  wp_move :: "bool option"

text \<open>\<open>Object.assign(existing, widget, { tabId, position })\<close>: a property that \<open>widget\<close> lacks keeps the
  value of \<open>existing\<close>.\<close>

definition assignWidget :: "'p board_widget \<Rightarrow> 'p board_widget \<Rightarrow> string \<Rightarrow> 'p board_widget" where
  "assignWidget existing widget tabId =
     widget\<lparr>bw_tabId := tabId, bw_position := bw_position existing,
       bw_title := nullish_or (bw_title widget) (bw_title existing),
       bw_presentation := nullish_or (bw_presentation widget) (bw_presentation existing),
       bw_heightMode := nullish_or (bw_heightMode widget) (bw_heightMode existing),
       bw_pluginKind := nullish_or (bw_pluginKind widget) (bw_pluginKind existing),
       bw_props := nullish_or (bw_props widget) (bw_props existing),
       bw_instanceId := nullish_or (bw_instanceId widget) (bw_instanceId existing),
       bw_declaredSummary := nullish_or (bw_declaredSummary widget) (bw_declaredSummary existing),
       bw_declared := nullish_or (bw_declared widget) (bw_declared existing)\<rparr>"

definition insertBoardWidget ::
  "'p board_layout \<Rightarrow> 'p board_widget \<Rightarrow> widget_placement \<Rightarrow> 'p board_layout board_result" where
  "insertBoardWidget layout widget placement =
     map_sum id normalizeBoardLayout
       (case firstIndex (\<lambda>w. bw_name w = bw_name widget) (bl_widgets layout) of
          Some k \<Rightarrow>
            let next = layout\<lparr>bl_widgets :=
                  (bl_widgets layout)[k := assignWidget (bl_widgets layout ! k) widget (wp_tabId placement)]\<rparr>
            in if truthy (wp_move placement) then moveWidget next k (wp_tabId placement) None (wp_after placement)
               else Inr next
        | None \<Rightarrow>
            let next = layout\<lparr>bl_widgets := bl_widgets layout @ [widget\<lparr>bw_tabId := wp_tabId placement\<rparr>]\<rparr>
            in case requireWidget next (bw_name widget) of
                 Inl e \<Rightarrow> Inl e
               | Inr k \<Rightarrow> moveWidget next k (wp_tabId placement) None (wp_after placement))"

subsection \<open>Lists of objects: facts\<close>

lemma map_sum_eq_Inr: "map_sum id f r = Inr y \<longleftrightarrow> (\<exists>x. r = Inr x \<and> y = f x)"
  by (cases r) auto

lemma mset_js_insert: "mset (js_insert cmp x xs) = add_mset x (mset xs)"
  by (induction xs) auto

lemma mset_js_toSorted [simp]: "mset (js_toSorted cmp xs) = mset xs"
  by (induction xs) (auto simp: mset_js_insert)

lemma mset_map_js_toSorted [simp]: "mset (map f (js_toSorted cmp xs)) = mset (map f xs)"
  by simp

lemma firstIndex_Some: "firstIndex P xs = Some k \<Longrightarrow> k < length xs \<and> P (xs ! k)"
  by (induction xs arbitrary: k) (auto split: if_splits)

lemma firstIndex_None: "firstIndex P xs = None \<longleftrightarrow> (\<forall>x \<in> set xs. \<not> P x)"
  by (induction xs) auto

lemma enumerate_filter_except:
  "map snd (filter (\<lambda>(i, x). i \<noteq> n + k) (enumerate n xs)) = take k xs @ drop (Suc k) xs"
proof (induction xs arbitrary: n k)
  case (Cons x xs)
  show ?case
  proof (cases k)
    case 0
    have "filter (\<lambda>(i, x). i \<noteq> n) (enumerate (Suc n) xs) = enumerate (Suc n) xs"
      by (auto simp: filter_id_conv in_set_enumerate_eq)
    then show ?thesis using 0 by simp
  next
    case (Suc j)
    then show ?thesis using Cons.IH [of "Suc n" j] by simp
  qed
qed simp

lemma allExcept_eq: "allExcept k xs = take k xs @ drop (Suc k) xs"
  using enumerate_filter_except [of 0 k xs] by (simp add: allExcept_def)

lemma mset_allExcept: "k < length xs \<Longrightarrow> add_mset (xs ! k) (mset (allExcept k xs)) = mset xs"
  by (simp add: allExcept_eq) (metis add_mset_add_single id_take_nth_drop mset.simps(2) mset_append union_mset_add_mset_right)

lemma mset_sortedExcept: "mset (sortedExcept cmp k xs) = mset (allExcept k xs)"
  by (simp add: sortedExcept_def allExcept_def)

lemma mset_spliceAt [simp]: "mset (spliceAt n x xs) = add_mset x (mset xs)"
proof -
  have "mset (take (nat n) xs) + mset (drop (nat n) xs) = mset xs" by (metis append_take_drop_id mset_append)
  then show ?thesis by (simp add: spliceAt_def)
qed

lemma renumberTabs_ids [simp]: "map bt_tabId (renumberTabs tabs) = map bt_tabId tabs"
  by (rule nth_equalityI) (simp_all add: renumberTabs_def nth_enumerate_eq)

lemma renumberTabs_positions: "map bt_position (renumberTabs tabs) = map int [0..<length tabs]"
  by (rule nth_equalityI) (simp_all add: renumberTabs_def nth_enumerate_eq)

lemma renumberWidgets_tabs [simp]: "map bw_tabId (renumberWidgets ws) = map bw_tabId ws"
  by (rule nth_equalityI) (simp_all add: renumberWidgets_def nth_enumerate_eq)

lemma set_allExcept: "set (allExcept k xs) \<subseteq> set xs"
  by (auto simp: allExcept_eq dest: in_set_takeD in_set_dropD)

lemma requireTab_Inr:
  "requireTab l t = Inr k \<Longrightarrow> k < length (bl_tabs l) \<and> bt_tabId (bl_tabs l ! k) = t"
  by (auto simp: requireTab_def split: option.splits dest: firstIndex_Some)

lemma requireWidget_Inr:
  "requireWidget l n = Inr k \<Longrightarrow> k < length (bl_widgets l) \<and> bw_name (bl_widgets l ! k) = n"
  by (auto simp: requireWidget_def split: option.splits dest: firstIndex_Some)

subsection \<open>What the operations keep of a widget\<close>

text \<open>The widgets that an operation removes.\<close>

definition removedBy :: "board_op \<Rightarrow> string set" where
  "removedBy op = (case op of WidgetRemove name \<Rightarrow> {name} | _ \<Rightarrow> {})"

text \<open>Any part of a widget that does not depend on its place and its size, and that contains its name: the
  operations only remove such parts, with the widgets they name.\<close>

locale widget_view =
  fixes view :: "'p board_widget \<Rightarrow> 'v" and name_of :: "'v \<Rightarrow> string"
  assumes view_name: "name_of (view w) = bw_name w"
    and view_place: "view (w\<lparr>bw_tabId := t\<rparr>) = view w" "view (w\<lparr>bw_position := p\<rparr>) = view w"
    and view_size: "view (w\<lparr>bw_sizeW := sw, bw_sizeH := sh, bw_heightMode := hm\<rparr>) = view w"
begin

lemma view_renumber: "map view (renumberWidgets ws) = map view ws"
  by (rule nth_equalityI) (simp_all add: renumberWidgets_def nth_enumerate_eq view_place)

lemma view_numberPerTab: "map view (numberPerTab next ws) = map view ws"
  by (induction ws arbitrary: "next") (simp_all add: Let_def view_place)

lemma view_normalize: "mset (map view (bl_widgets (normalizeBoardLayout l))) = mset (map view (bl_widgets l))"
  by (simp add: normalizeBoardLayout_def Let_def view_numberPerTab del: mset_map)

lemma view_moveWidget:
  assumes "k < length (bl_widgets l)" "moveWidget l k t p a = Inr l'"
  shows "mset (map view (bl_widgets l')) = mset (map view (bl_widgets l))"
proof -
  define others where "others = allExcept k (bl_widgets l)"
  define target where "target = js_toSorted (\<lambda>a b. comparePosition (bw_position a) (bw_position b)) (filter (\<lambda>w. bw_tabId w = t) others)"
  define w where "w = (bl_widgets l ! k)\<lparr>bw_tabId := t\<rparr>"
  obtain q where l': "bl_widgets l' = filter (\<lambda>w. bw_tabId w \<noteq> t) others @ renumberWidgets (spliceAt q w target)"
    using assms(2) by (auto simp: moveWidget_def Let_def others_def target_def w_def split: sum.splits if_splits)
  have "mset (filter (\<lambda>w. bw_tabId w \<noteq> t) others) + mset target = mset others"
    using multiset_partition [of "mset others" "\<lambda>w. bw_tabId w \<noteq> t"] by (simp add: target_def)
  then have parts: "image_mset view (mset (filter (\<lambda>w. bw_tabId w \<noteq> t) others)) + image_mset view (mset target)
      = image_mset view (mset others)" by (metis image_mset_union)
  have "mset (map view (bl_widgets l')) = mset (map view (filter (\<lambda>w. bw_tabId w \<noteq> t) others)) + mset (map view (spliceAt q w target))"
    by (simp only: l' map_append mset_append view_renumber)
  also have "\<dots> = add_mset (view (bl_widgets l ! k)) (image_mset view (mset others))"
    using parts by (simp add: w_def view_place)
  also have "\<dots> = mset (map view (bl_widgets l))"
    using arg_cong [OF mset_allExcept [OF assms(1)], of "image_mset view"] by (simp add: others_def)
  finally show ?thesis .
qed

lemma view_tabDelete: "tabDelete l t = Inr l' \<Longrightarrow> map view (bl_widgets l') = map view (bl_widgets l)"
  by (auto simp: tabDelete_def Let_def view_place split: sum.splits if_splits)

lemma view_resize: "widgetResize l n w h m = Inr l' \<Longrightarrow> map view (bl_widgets l') = map view (bl_widgets l)"
  by (auto simp: widgetResize_def map_update view_size list_update_same_conv split: sum.splits dest!: requireWidget_Inr)

lemma view_op:
  assumes "applyBoardOp l op = Inr l'"
  shows "mset (map view (bl_widgets l')) = filter_mset (\<lambda>v. name_of v \<notin> removedBy op) (mset (map view (bl_widgets l)))"
proof (cases op)
  case (WidgetMove n t p a)
  then show ?thesis
    using assms view_moveWidget by (auto simp: removedBy_def split: sum.splits dest!: requireWidget_Inr)
next
  case (WidgetRemove n)
  then have "bl_widgets l' = filter (\<lambda>w. bw_name w \<noteq> n) (bl_widgets l)" using assms by (auto split: sum.splits)
  then show ?thesis using WidgetRemove by (simp add: removedBy_def view_name filter_mset_image_mset)
next
  case (TabDelete t)
  then show ?thesis using assms view_tabDelete [of l t l'] by (simp add: removedBy_def flip: mset_map)
next
  case (WidgetResize n w h m)
  then show ?thesis using assms view_resize [of l n w h m l'] by (simp add: removedBy_def flip: mset_map)
qed (use assms in \<open>auto simp: removedBy_def tabCreate_def tabUpdate_def tabsReorder_def moveTab_def Let_def
      split: sum.splits if_splits option.splits\<close>)

lemma view_runOps:
  assumes "runBoardOps l ops = Inr l'"
  shows "mset (map view (bl_widgets l')) =
    filter_mset (\<lambda>v. name_of v \<notin> (\<Union>op \<in> set ops. removedBy op)) (mset (map view (bl_widgets l)))"
  using assms
proof (induction ops arbitrary: l)
  case (Cons op ops)
  obtain l1 where l1: "applyBoardOp l op = Inr l1" "runBoardOps (normalizeBoardLayout l1) ops = Inr l'"
    using Cons.prems by (auto split: sum.splits)
  show ?case
    using Cons.IH [OF l1(2)] unfolding view_normalize view_op [OF l1(1)] by (simp add: filter_filter_mset conj_commute)
qed simp

lemma view_ops:
  assumes "applyBoardOps l ops = Inr l'"
  shows "mset (map view (bl_widgets l')) =
    filter_mset (\<lambda>v. name_of v \<notin> (\<Union>op \<in> set ops. removedBy op)) (mset (map view (bl_widgets l)))"
proof -
  obtain l1 where "runBoardOps l ops = Inr l1" "l' = normalizeBoardLayout l1"
    using assms by (cases "runBoardOps l ops") (auto simp: applyBoardOps_def)
  then show ?thesis using view_runOps [of l ops l1] view_normalize [of l1] by simp
qed

lemma view_insert:
  assumes "insertBoardWidget l w pl = Inr l'"
  shows "mset (map view (bl_widgets l')) =
    (case firstIndex (\<lambda>x. bw_name x = bw_name w) (bl_widgets l) of
       Some k \<Rightarrow> add_mset (view (assignWidget (bl_widgets l ! k) w (wp_tabId pl))) (mset (map view (allExcept k (bl_widgets l))))
     | None \<Rightarrow> add_mset (view w) (mset (map view (bl_widgets l))))"
proof (cases "firstIndex (\<lambda>x. bw_name x = bw_name w) (bl_widgets l)")
  case None
  define l1 where "l1 = l\<lparr>bl_widgets := bl_widgets l @ [w\<lparr>bw_tabId := wp_tabId pl\<rparr>]\<rparr>"
  obtain k l2 where k: "requireWidget l1 (bw_name w) = Inr k" "moveWidget l1 k (wp_tabId pl) None (wp_after pl) = Inr l2"
    and l': "l' = normalizeBoardLayout l2"
    using assms None by (auto simp: insertBoardWidget_def l1_def [symmetric] Let_def map_sum_eq_Inr split: sum.splits)
  have "mset (map view (bl_widgets l')) = mset (map view (bl_widgets l1))"
    using view_moveWidget [OF _ k(2)] requireWidget_Inr [OF k(1)] by (simp add: l' view_normalize del: mset_map)
  then show ?thesis using None by (simp add: l1_def view_place)
next
  case (Some k)
  define a where "a = assignWidget (bl_widgets l ! k) w (wp_tabId pl)"
  define l1 where "l1 = l\<lparr>bl_widgets := (bl_widgets l)[k := a]\<rparr>"
  have k: "k < length (bl_widgets l)" using firstIndex_Some [OF Some] by simp
  obtain l2 where l2: "(if truthy (wp_move pl) then moveWidget l1 k (wp_tabId pl) None (wp_after pl) else Inr l1) = Inr l2"
    and l': "l' = normalizeBoardLayout l2"
    using assms Some by (auto simp: insertBoardWidget_def a_def [symmetric] l1_def [symmetric] Let_def map_sum_eq_Inr)
  have "k < length (bl_widgets l1)" using k by (simp add: l1_def)
  then have "mset (map view (bl_widgets l2)) = mset (map view (bl_widgets l1))"
    using l2 view_moveWidget [of k l1] by (auto split: if_splits)
  moreover have "mset (bl_widgets l1) = add_mset a (mset (allExcept k (bl_widgets l)))"
    using mset_allExcept [of k "(bl_widgets l)[k := a]"] k by (simp add: l1_def allExcept_eq)
  ultimately show ?thesis using Some by (simp add: l' view_normalize a_def del: mset_map) simp
qed

end

interpretation widget_names: widget_view bw_name id
  by unfold_locales simp_all

interpretation widget_grants: widget_view "\<lambda>w. (bw_name w, bw_grantState w, bw_declared w, bw_contentKind w)" fst
  by unfold_locales simp_all

subsection \<open>Consistent and arranged layouts\<close>

text \<open>Tab ids and widget names are unique and every widget is on a tab of the board.\<close>

definition consistent :: "'p board_layout \<Rightarrow> bool" where
  "consistent l \<longleftrightarrow> distinct (map bt_tabId (bl_tabs l)) \<and> distinct (map bw_name (bl_widgets l)) \<and>
     set (map bw_tabId (bl_widgets l)) \<subseteq> set (map bt_tabId (bl_tabs l))"

text \<open>Tabs are listed by position, widgets by tab, and positions count from zero without gaps, on the board and on
  every tab.\<close>

definition arranged :: "'p board_layout \<Rightarrow> bool" where
  "arranged l \<longleftrightarrow>
     map bt_position (bl_tabs l) = map int [0..<length (bl_tabs l)] \<and>
     sorted_wrt (\<lambda>a b. nullish (tabPositions (bl_tabs l) (bw_tabId a)) MAX_SAFE_INTEGER
                      \<le> nullish (tabPositions (bl_tabs l) (bw_tabId b)) MAX_SAFE_INTEGER) (bl_widgets l) \<and>
     (\<forall>tabId. let ws = filter (\<lambda>w. bw_tabId w = tabId) (bl_widgets l)
              in map bw_position ws = map int [0..<length ws])"

lemma consistent_cong:
  assumes "mset (map bt_tabId (bl_tabs l)) = mset (map bt_tabId (bl_tabs l'))"
    and "mset (map bw_name (bl_widgets l)) = mset (map bw_name (bl_widgets l'))"
    and "mset (map bw_tabId (bl_widgets l)) = mset (map bw_tabId (bl_widgets l'))"
  shows "consistent l = consistent l'"
  unfolding consistent_def
  using mset_eq_imp_distinct_iff [OF assms(1)] mset_eq_imp_distinct_iff [OF assms(2)]
    mset_eq_setD [OF assms(1)] mset_eq_setD [OF assms(3)] by simp

lemma numberPerTab_tabs [simp]: "map bw_tabId (numberPerTab next ws) = map bw_tabId ws"
  by (induction ws arbitrary: "next") (simp_all add: Let_def)

lemma numberPerTab_positions:
  "map bw_position (filter (\<lambda>w. bw_tabId w = t) (numberPerTab next ws)) =
     map (\<lambda>i. nullish (next t) 0 + int i) [0..<length (filter (\<lambda>w. bw_tabId w = t) ws)]"
proof (induction "next" ws rule: numberPerTab.induct)
  case (2 "next" w ws)
  have shift: "map (\<lambda>i. c + 1 + int i) [0..<n] = map (\<lambda>i. c + int i) [1..<Suc n]" for c n
    by (rule nth_equalityI) (simp_all del: upt_Suc)
  show ?case
    using 2 [OF refl] shift
    by (cases "bw_tabId w = t") (simp_all add: Let_def upt_conv_Cons fun_upd_same fun_upd_other del: fun_upd_apply upt_Suc)
qed simp

interpretation tab_order: js_comparator compareTabs
  by unfold_locales (auto simp: comparePosition_def)

interpretation widget_order: js_comparator "compareWidgets tabPosition"
  by unfold_locales (auto simp: compareWidgets_def Let_def split: if_splits)

lemma normalize_consistent [simp]: "consistent (normalizeBoardLayout l) = consistent l"
  by (rule consistent_cong) (simp_all only: widget_names.view_normalize, simp_all add: normalizeBoardLayout_def Let_def)

lemma sorted_by_tab:
  "sorted_wrt (\<lambda>a b. K (bw_tabId a) \<le> K (bw_tabId b)) ws = sorted_wrt (\<lambda>s t. K s \<le> K t) (map bw_tabId ws)"
  for K :: "string \<Rightarrow> int"
  by (simp add: sorted_wrt_map)

lemma normalize_arranged: "arranged (normalizeBoardLayout l)"
proof -
  define tabs where "tabs = renumberTabs (js_toSorted compareTabs (bl_tabs l))"
  define K where "K t = nullish (tabPositions tabs t) MAX_SAFE_INTEGER" for t
  define ws where "ws = js_toSorted (compareWidgets (tabPositions tabs)) (bl_widgets l)"
  have l: "normalizeBoardLayout l = \<lparr>bl_tabs = tabs, bl_widgets = numberPerTab Map.empty ws\<rparr>"
    by (simp add: normalizeBoardLayout_def tabs_def ws_def Let_def)
  have "sorted_wrt (\<lambda>a b. K (bw_tabId a) \<le> K (bw_tabId b)) ws"
    unfolding ws_def
    by (rule sorted_wrt_mono_rel [rotated, OF widget_order.sorted_js_toSorted])
      (auto simp: compareWidgets_def K_def Let_def split: if_splits)
  then have "sorted_wrt (\<lambda>a b. K (bw_tabId a) \<le> K (bw_tabId b)) (numberPerTab Map.empty ws)"
    unfolding sorted_by_tab by simp
  moreover have "map bt_position tabs = map int [0..<length tabs]"
    using renumberTabs_positions [of "js_toSorted compareTabs (bl_tabs l)"]
    by (simp add: tabs_def renumberTabs_def)
  moreover have "length (filter (\<lambda>w. bw_tabId w = t) (numberPerTab Map.empty ws)) = length (filter (\<lambda>w. bw_tabId w = t) ws)" for t
    using arg_cong [OF numberPerTab_positions [of t Map.empty ws], of length] by simp
  ultimately show ?thesis by (simp add: l arranged_def K_def numberPerTab_positions Let_def)
qed

text \<open>Every operation keeps the consistency.\<close>

lemma tabCreate_consistent:
  assumes "consistent l" "tabCreate l t title dock = Inr l'"
  shows "consistent l'"
  using assms by (force simp: tabCreate_def consistent_def split: if_splits)

lemma moveTab_ids:
  assumes "k < length (bl_tabs l)"
  shows "mset (map bt_tabId (bl_tabs (moveTab l k p))) = mset (map bt_tabId (bl_tabs l))"
  using arg_cong [OF mset_allExcept [OF assms], of "image_mset bt_tabId"]
  by (simp add: moveTab_def Let_def mset_sortedExcept)

lemma same_places:
  assumes "consistent l" "mset (map bt_tabId (bl_tabs l')) = mset (map bt_tabId (bl_tabs l))" "bl_widgets l' = bl_widgets l"
  shows "consistent l'"
  using consistent_cong [of l' l] assms by simp

lemma tabUpdate_consistent:
  assumes "consistent l" "tabUpdate l t title dock p = Inr l'"
  shows "consistent l'"
proof -
  obtain k where k: "k < length (bl_tabs l)" "requireTab l t = Inr k"
    using assms(2) by (auto simp: tabUpdate_def split: sum.splits dest: requireTab_Inr)
  define tab1 where "tab1 = (bl_tabs l ! k)\<lparr>bt_title := nullish title (bt_title (bl_tabs l ! k)),
    bt_chatDock := nullish dock (bt_chatDock (bl_tabs l ! k))\<rparr>"
  define l1 where "l1 = l\<lparr>bl_tabs := (bl_tabs l)[k := tab1]\<rparr>"
  have ids: "map bt_tabId (bl_tabs l1) = map bt_tabId (bl_tabs l)"
    using k(1) by (simp add: l1_def tab1_def map_update list_update_same_conv)
  have l': "l' = (case p of None \<Rightarrow> l1 | Some p \<Rightarrow> moveTab l1 k p)"
    using assms(2) k(2) unfolding l1_def tab1_def tabUpdate_def Let_def by (cases p) (simp_all split: if_split_asm)
  have "mset (map bt_tabId (bl_tabs l')) = mset (map bt_tabId (bl_tabs l))"
  proof (cases p)
    case (Some q)
    have "k < length (bl_tabs l1)" using k(1) by (simp add: l1_def)
    then show ?thesis using moveTab_ids [of k l1 q] by (simp only: l' Some option.case ids)
  qed (simp only: l' option.case ids)
  moreover have "bl_widgets l' = bl_widgets l" by (auto simp: l' l1_def moveTab_def Let_def split: option.split)
  ultimately show ?thesis by (rule same_places [OF assms(1)])
qed

lemma tabDelete_consistent:
  assumes "consistent l" "tabDelete l t = Inr l'"
  shows "consistent l'"
proof -
  obtain k where k: "k < length (bl_tabs l)" "bt_tabId (bl_tabs l ! k) = t" "requireTab l t = Inr k"
    using assms(2) by (auto simp: tabDelete_def split: sum.splits dest: requireTab_Inr)
  define rest where "rest = js_toSorted compareTabs (allExcept k (bl_tabs l))"
  define move where "move w = (if bw_tabId w = t then w\<lparr>bw_tabId := bt_tabId (hd rest), bw_position := MAX_SAFE_INTEGER\<rparr> else w)"
    for w :: "'a board_widget"
  have ids: "add_mset t (mset (map bt_tabId rest)) = mset (map bt_tabId (bl_tabs l))"
    using arg_cong [OF mset_allExcept [OF k(1)], of "image_mset bt_tabId"] k(2) by (simp add: rest_def)
  have dist: "distinct (map bt_tabId (bl_tabs l))" using assms(1) by (simp add: consistent_def)
  have set_rest: "distinct (map bt_tabId rest)" "set (map bt_tabId (bl_tabs l)) = insert t (set (map bt_tabId rest))"
    using mset_eq_imp_distinct_iff [of "t # map bt_tabId rest" "map bt_tabId (bl_tabs l)"] dist
      mset_eq_setD [of "t # map bt_tabId rest" "map bt_tabId (bl_tabs l)"] ids by simp_all
  have ok: "rest \<noteq> [] \<or> filter (\<lambda>w. bw_tabId w = t) (bl_widgets l) = []"
    and l': "l' = \<lparr>bl_tabs = rest, bl_widgets = map move (bl_widgets l)\<rparr>"
    using assms(2) k(3)
    by (auto simp: tabDelete_def Let_def move_def [abs_def] rest_def [symmetric] filter_empty_conv intro!: map_idI [symmetric] split: if_splits)
  have "move w \<in> {w. bw_tabId w \<in> set (map bt_tabId rest)}" if "w \<in> set (bl_widgets l)" for w
  proof (cases "bw_tabId w = t")
    case True
    then have "rest \<noteq> []" using ok that by (auto simp: filter_empty_conv)
    then show ?thesis using True by (simp add: move_def)
  next
    case False
    then show ?thesis using assms(1) that set_rest(2) by (auto simp: consistent_def move_def)
  qed
  then have "set (map bw_tabId (bl_widgets l')) \<subseteq> set (map bt_tabId rest)" by (auto simp: l')
  moreover have names: "map bw_name (bl_widgets l') = map bw_name (bl_widgets l)" using widget_names.view_tabDelete [OF assms(2)] .
  moreover have tabs: "bl_tabs l' = rest" by (simp add: l')
  ultimately show ?thesis using assms(1) set_rest(1) unfolding consistent_def names tabs by blast
qed

lemma tabsReorder_consistent:
  assumes "consistent l" "tabsReorder l ts = Inr l'"
  shows "consistent l'"
proof -
  let ?ids = "map bt_tabId (bl_tabs l)"
  have ts: "length ts = length (bl_tabs l)" "distinct ts" "set ts \<subseteq> set ?ids"
    using assms(2) by (auto simp: tabsReorder_def list_ex_iff split: if_splits)
  define byId where "byId = map_of (rev (map (\<lambda>tab. (bt_tabId tab, tab)) (bl_tabs l)))"
  have byId: "bt_tabId (the (byId t)) = t" if known: "t \<in> set ?ids" for t
  proof -
    obtain tab where "byId t = Some tab"
      using known by (cases "byId t") (auto simp: byId_def map_of_eq_None_iff image_image)
    then show ?thesis by (auto simp: byId_def dest!: map_of_SomeD)
  qed
  have l': "l' = l\<lparr>bl_tabs := renumberTabs (map (\<lambda>t. the (byId t)) ts)\<rparr>"
    using assms(2) by (simp add: tabsReorder_def byId_def Let_def split: if_splits)
  have "map (bt_tabId \<circ> (\<lambda>t. the (byId t))) ts = ts"
    using byId ts(3) by (intro map_idI) auto
  then have ids': "map bt_tabId (bl_tabs l') = ts" by (simp add: l')
  have "distinct ?ids" using assms(1) by (simp add: consistent_def)
  then have "set ts = set ?ids"
    using ts by (intro card_subset_eq) (simp_all add: distinct_card del: set_map)
  then have "mset ts = mset ?ids" using ts(2) \<open>distinct ?ids\<close> set_eq_iff_mset_eq_distinct [of ts ?ids] by blast
  then show ?thesis using ids' by (intro same_places [OF assms(1)]) (simp_all add: l')
qed

lemma moveWidget_tabs:
  assumes "moveWidget l k t p a = Inr l'"
  shows "bl_tabs l' = bl_tabs l" "t \<in> set (map bt_tabId (bl_tabs l))"
    "set (map bw_tabId (bl_widgets l')) \<subseteq> insert t (set (map bw_tabId (allExcept k (bl_widgets l))))"
proof -
  define others where "others = allExcept k (bl_widgets l)"
  define target where "target = js_toSorted (\<lambda>a b. comparePosition (bw_position a) (bw_position b)) (filter (\<lambda>w. bw_tabId w = t) others)"
  define w where "w = (bl_widgets l ! k)\<lparr>bw_tabId := t\<rparr>"
  obtain q j where "requireTab l t = Inr j"
    and l': "l' = l\<lparr>bl_widgets := filter (\<lambda>w. bw_tabId w \<noteq> t) others @ renumberWidgets (spliceAt q w target)\<rparr>"
    using assms by (auto simp: moveWidget_def Let_def others_def target_def w_def split: sum.splits if_splits)
  then show "t \<in> set (map bt_tabId (bl_tabs l))" using requireTab_Inr [of l t j] by fastforce
  show "bl_tabs l' = bl_tabs l" by (simp add: l')
  have "set (spliceAt q w target) = insert w (set target)" by (metis mset_spliceAt set_mset_add_mset_insert set_mset_mset)
  then have "set (map bw_tabId (renumberWidgets (spliceAt q w target))) = insert t (bw_tabId ` set target)"
    unfolding renumberWidgets_tabs by (simp add: w_def)
  moreover have "set (filter P others) \<subseteq> set others" "set target \<subseteq> set others" for P by (auto simp: target_def)
  moreover have "set (map bw_tabId (bl_widgets l')) =
      bw_tabId ` set (filter (\<lambda>w. bw_tabId w \<noteq> t) others) \<union> set (map bw_tabId (renumberWidgets (spliceAt q w target)))"
    by (simp add: l')
  ultimately show "set (map bw_tabId (bl_widgets l')) \<subseteq> insert t (set (map bw_tabId (allExcept k (bl_widgets l))))"
    unfolding others_def by (simp only: set_map) blast
qed

lemma moveWidget_consistent:
  assumes "distinct (map bt_tabId (bl_tabs l))" "distinct (map bw_name (bl_widgets l))"
    and "set (map bw_tabId (allExcept k (bl_widgets l))) \<subseteq> set (map bt_tabId (bl_tabs l))"
    and "k < length (bl_widgets l)" "moveWidget l k t p a = Inr l'"
  shows "consistent l'"
proof -
  note effect = moveWidget_tabs [OF assms(5)]
  have "set (map bw_tabId (bl_widgets l')) \<subseteq> set (map bt_tabId (bl_tabs l))" using effect(2,3) assms(3) by blast
  then show ?thesis
    using assms(1,2) mset_eq_imp_distinct_iff [OF widget_names.view_moveWidget [OF assms(4,5)]]
    unfolding consistent_def effect(1) by blast
qed

lemma consistent_except:
  assumes "consistent l"
  shows "distinct (map bt_tabId (bl_tabs l))" "distinct (map bw_name (bl_widgets l))"
    "set (map bw_tabId (allExcept k (bl_widgets l))) \<subseteq> set (map bt_tabId (bl_tabs l))"
  using assms image_mono [OF set_allExcept, of bw_tabId k "bl_widgets l"] unfolding consistent_def by auto

lemma widgetResize_consistent:
  assumes "consistent l" "widgetResize l n w h m = Inr l'"
  shows "consistent l'"
proof -
  have "map bw_tabId (bl_widgets l') = map bw_tabId (bl_widgets l)" "bl_tabs l' = bl_tabs l"
    using assms(2) by (auto simp: widgetResize_def map_update list_update_same_conv split: sum.splits dest!: requireWidget_Inr)
  then show ?thesis using assms(1) widget_names.view_resize [OF assms(2)] unfolding consistent_def by metis
qed

lemma applyBoardOp_consistent:
  assumes "consistent l" "applyBoardOp l op = Inr l'"
  shows "consistent l'"
proof (cases op)
  case (WidgetMove n t p a)
  then show ?thesis
    using assms moveWidget_consistent [OF consistent_except [OF assms(1)]] by (auto split: sum.splits dest!: requireWidget_Inr)
next
  case (WidgetRemove n)
  then have "l' = l\<lparr>bl_widgets := filter (\<lambda>w. bw_name w \<noteq> n) (bl_widgets l)\<rparr>" using assms(2) by (auto split: sum.splits)
  then show ?thesis using assms(1) by (auto simp: consistent_def distinct_map_filter)
qed (use assms in \<open>auto dest: tabCreate_consistent tabUpdate_consistent tabDelete_consistent
      tabsReorder_consistent widgetResize_consistent\<close>)

lemma runBoardOps_consistent: "consistent l \<Longrightarrow> runBoardOps l ops = Inr l' \<Longrightarrow> consistent l'"
proof (induction ops arbitrary: l)
  case (Cons op ops)
  then obtain l1 where "applyBoardOp l op = Inr l1" "runBoardOps (normalizeBoardLayout l1) ops = Inr l'"
    by (auto split: sum.splits)
  then show ?case using applyBoardOp_consistent [OF Cons.prems(1)] Cons.IH [of "normalizeBoardLayout l1"] by simp
qed simp

lemma assignWidget_name [simp]: "bw_name (assignWidget e w t) = bw_name w" "bw_tabId (assignWidget e w t) = t"
  by (simp_all add: assignWidget_def)

text \<open>Inserting a widget needs the tab to exist: an existing widget that does not move is put on it unchecked.\<close>

lemma insertBoardWidget_consistent:
  assumes "consistent l" "insertBoardWidget l w pl = Inr l'" "wp_tabId pl \<in> set (map bt_tabId (bl_tabs l))"
  shows "consistent l'"
proof (cases "firstIndex (\<lambda>x. bw_name x = bw_name w) (bl_widgets l)")
  case None
  define l1 where "l1 = l\<lparr>bl_widgets := bl_widgets l @ [w\<lparr>bw_tabId := wp_tabId pl\<rparr>]\<rparr>"
  obtain k l2 where k: "requireWidget l1 (bw_name w) = Inr k" "moveWidget l1 k (wp_tabId pl) None (wp_after pl) = Inr l2"
    and l': "l' = normalizeBoardLayout l2"
    using assms(2) None by (auto simp: insertBoardWidget_def l1_def [symmetric] Let_def map_sum_eq_Inr split: sum.splits)
  have "consistent l1" using assms(1,3) None by (auto simp: l1_def consistent_def firstIndex_None)
  then show ?thesis
    using moveWidget_consistent [OF consistent_except _ k(2)] requireWidget_Inr [OF k(1)] by (simp add: l')
next
  case (Some k)
  define a where "a = assignWidget (bl_widgets l ! k) w (wp_tabId pl)"
  define l1 where "l1 = l\<lparr>bl_widgets := (bl_widgets l)[k := a]\<rparr>"
  have k: "k < length (bl_widgets l)" "bw_name (bl_widgets l ! k) = bw_name w" using firstIndex_Some [OF Some] by simp_all
  obtain l2 where l2: "(if truthy (wp_move pl) then moveWidget l1 k (wp_tabId pl) None (wp_after pl) else Inr l1) = Inr l2"
    and l': "l' = normalizeBoardLayout l2"
    using assms(2) Some by (auto simp: insertBoardWidget_def a_def [symmetric] l1_def [symmetric] Let_def map_sum_eq_Inr)
  have "map bw_name (bl_widgets l1) = map bw_name (bl_widgets l)"
    using k by (simp add: l1_def a_def map_update list_update_same_conv)
  moreover have "set (map bw_tabId (bl_widgets l1)) \<subseteq> insert (wp_tabId pl) (set (map bw_tabId (bl_widgets l)))"
    by (auto simp: l1_def a_def dest!: set_update_subset_insert [THEN subsetD])
  moreover have "bl_tabs l1 = bl_tabs l" by (simp add: l1_def)
  ultimately have "consistent l1" using assms(1,3) unfolding consistent_def by (simp only:) blast
  then show ?thesis
    using l2 moveWidget_consistent [OF consistent_except, of l1 k] k(1) by (auto simp: l' l1_def split: if_splits)
qed

subsection \<open>Properties\<close>

text \<open>
  C7. Board operations keep a board in order. If tab ids and widget names are unique and every widget is on a tab,
  then after every list of operations that succeeds the same holds, tabs and the widgets of every tab are
  numbered from zero without gaps, widgets are listed in the order of their tabs, and the widgets are exactly
  the ones from before without those that a \<open>widget_remove\<close> names: deleting a tab or moving widgets loses none.
\<close>

theorem board_operations_keep_order:
  assumes "consistent l" "applyBoardOps l ops = Inr l'"
  shows "consistent l' \<and> arranged l' \<and>
    set (map bw_name (bl_widgets l')) = set (map bw_name (bl_widgets l)) - (\<Union>op \<in> set ops. removedBy op)"
proof -
  obtain l1 where "runBoardOps l ops = Inr l1" "l' = normalizeBoardLayout l1"
    using assms(2) by (auto simp: applyBoardOps_def map_sum_eq_Inr)
  then have "consistent l'" "arranged l'"
    using runBoardOps_consistent [OF assms(1)] by (simp_all add: normalize_arranged)
  moreover have "set (map bw_name (bl_widgets l')) = set (map bw_name (bl_widgets l)) - (\<Union>op \<in> set ops. removedBy op)"
    using arg_cong [OF widget_names.view_ops [OF assms(2)], of set_mset] by (auto simp del: UN_iff)
  ultimately show ?thesis by blast
qed

definition sampleWidget :: "string \<Rightarrow> string \<Rightarrow> int \<Rightarrow> string board_widget" where
  "sampleWidget name tabId position =
     \<lparr>bw_name = name, bw_tabId = tabId, bw_title = None, bw_contentKind = CkHtml, bw_presentation = None,
      bw_heightMode = None, bw_pluginKind = None, bw_props = None, bw_sizeW = 6, bw_sizeH = 4,
      bw_position = position, bw_grantState = GrantNone, bw_revision = 1, bw_instanceId = None,
      bw_declaredSummary = None, bw_declared = None\<rparr>"

definition sampleBoard :: "string board_layout" where
  "sampleBoard =
     \<lparr>bl_tabs = [\<lparr>bt_tabId = ''main'', bt_title = ''Main'', bt_position = 0, bt_chatDock = DockRight\<rparr>,
                 \<lparr>bt_tabId = ''ops'', bt_title = ''Ops'', bt_position = 1, bt_chatDock = DockLeft\<rparr>],
      bl_widgets = [sampleWidget ''clock'' ''main'' 0, sampleWidget ''load'' ''ops'' 0, sampleWidget ''news'' ''ops'' 1]\<rparr>"

definition sampleOps :: "board_op list" where
  "sampleOps = [WidgetMove ''clock'' (Some ''ops'') None (Some ''load''), TabDelete ''ops'', WidgetRemove ''news'']"

theorem board_operations_keep_order_witness:
  "\<exists>l'. applyBoardOps sampleBoard sampleOps = Inr l' \<and>
     map (\<lambda>w. (bw_name w, bw_tabId w, bw_position w)) (bl_widgets l') = [(''load'', ''main'', 0), (''clock'', ''main'', 1)] \<and>
     consistent l' \<and> set (map bw_name (bl_widgets l')) = {''clock'', ''load'', ''news''} - {''news''}"
proof -
  have "map_sum id (\<lambda>l. map (\<lambda>w. (bw_name w, bw_tabId w, bw_position w)) (bl_widgets l)) (applyBoardOps sampleBoard sampleOps) =
      Inr [(''load'', ''main'', 0), (''clock'', ''main'', 1)]" by code_simp
  then obtain l' where l': "applyBoardOps sampleBoard sampleOps = Inr l'"
    "map (\<lambda>w. (bw_name w, bw_tabId w, bw_position w)) (bl_widgets l') = [(''load'', ''main'', 0), (''clock'', ''main'', 1)]"
    by (auto simp: map_sum_eq_Inr)
  have "consistent sampleBoard" "set (map bw_name (bl_widgets sampleBoard)) = {''clock'', ''load'', ''news''}"
    "(\<Union>op \<in> set sampleOps. removedBy op) = {''news''}" by code_simp+
  then show ?thesis using board_operations_keep_order [of sampleBoard sampleOps l'] l' by auto
qed

end
