(* ===== verification/Json_Text.thy ===== *)
theory Json_Text
  imports Normalization
begin

text \<open>
  \<open>JSON.stringify\<close> of strings and of arrays of strings, for code units below U+0100. The text of a string is a
  prefix code: it can be read off the front of any text that starts with it. From this contract follows, for every such
  code, that a list of a known length is determined by the texts of its elements, joined by a separator.
\<close>

definition hexDigit :: "nat \<Rightarrow> char" where
  "hexDigit n = (if n < 10 then char_of (48 + n) else char_of (87 + n))"

definition jsonChar :: "char \<Rightarrow> string" where
  "jsonChar c =
     (let n = (of_char c :: nat) in
      if n = 34 \<or> n = 92 then [CHR 0x5C, c]
      else if n = 8 then [CHR 0x5C, CHR ''b'']
      else if n = 9 then [CHR 0x5C, CHR ''t'']
      else if n = 10 then [CHR 0x5C, CHR ''n'']
      else if n = 12 then [CHR 0x5C, CHR ''f'']
      else if n = 13 then [CHR 0x5C, CHR ''r'']
      else if n < 32 then [CHR 0x5C, CHR ''u'', CHR ''0'', CHR ''0'', hexDigit (n div 16), hexDigit (n mod 16)]
      else [c])"

definition jsonString :: "string \<Rightarrow> string" where
  "jsonString s = CHR 0x22 # concat (map jsonChar s) @ [CHR 0x22]"

definition jsonStrings :: "string list \<Rightarrow> string" where
  "jsonStrings ss = ''['' @ js_join '','' (map jsonString ss) @ '']''"

subsection \<open>Prefix codes\<close>

locale prefix_code =
  fixes encode :: "'a \<Rightarrow> 'b list"
  assumes decodes: "encode x @ s = encode y @ t \<Longrightarrow> x = y \<and> s = t"
begin

lemma encode_inj: "encode x = encode y \<longleftrightarrow> x = y"
  using decodes [of x "[]" y "[]"] by auto

text \<open>A list of a known length, whatever separates the texts of its elements.\<close>

lemma list_decodes:
  assumes "length xs = length ys" "concat (map (\<lambda>x. encode x @ sep) xs) @ s = concat (map (\<lambda>x. encode x @ sep) ys) @ t"
  shows "xs = ys \<and> s = t"
  using assms
proof (induction xs arbitrary: ys)
  case (Cons x xs)
  then obtain y zs where y: "ys = y # zs" by (cases ys) auto
  let ?rest = "\<lambda>xs s. concat (map (\<lambda>x. encode x @ sep) xs) @ s"
  from Cons.prems y have "encode x @ sep @ ?rest xs s = encode y @ sep @ ?rest zs t" by simp
  from decodes [OF this] have "x = y" "?rest xs s = ?rest zs t" by simp_all
  with Cons.IH [of zs] Cons.prems(1) y show ?case by simp
qed simp

end

subsection \<open>The text of a string\<close>

lemma char_code_eq: "(of_char c :: nat) = of_char d \<longleftrightarrow> c = d"
  by (metis char_of_char)

lemma hexDigit_inj:
  assumes "m < 16" "n < 16" "hexDigit m = hexDigit n"
  shows "m = n"
proof -
  have "(of_char (hexDigit k) :: nat) = (if k < 10 then 48 + k else 87 + k)" if "k < 16" for k
    using that by (simp add: hexDigit_def)
  from this [OF assms(1)] this [OF assms(2)]
  have "(if m < 10 then 48 + m else 87 + m) = (if n < 10 then 48 + n else 87 + n)" unfolding assms(3) by (rule trans [OF sym])
  with assms(1, 2) show ?thesis by (simp split: if_splits)
qed

lemma two_hex_digits:
  assumes "m < 32" "n < 32" "hexDigit (m div 16) = hexDigit (n div 16)" "hexDigit (m mod 16) = hexDigit (n mod 16)"
  shows "m = n"
proof -
  have "m div 16 = n div 16" by (rule hexDigit_inj) (use assms in auto)
  moreover have "m mod 16 = n mod 16" by (rule hexDigit_inj) (use assms in auto)
  ultimately show ?thesis by (metis div_mult_mod_eq)
qed

text \<open>A character is printed as itself, or as an escape that starts with a backslash.\<close>

lemma jsonChar_cases:
  obtains (plain) "jsonChar c = [c]" "(of_char c :: nat) \<noteq> 34" "(of_char c :: nat) \<noteq> 92"
  | (short) e where "jsonChar c = [CHR 0x5C, e]" "e \<noteq> CHR ''u''"
  | (hex) "jsonChar c = [CHR 0x5C, CHR ''u'', CHR ''0'', CHR ''0'', hexDigit (of_char c div 16), hexDigit (of_char c mod 16)]"
      "(of_char c :: nat) < 32"
proof -
  have "c \<noteq> CHR ''u''" if "(of_char c :: nat) = 34 \<or> (of_char c :: nat) = 92" using that by auto
  then show ?thesis using that by (fastforce simp: jsonChar_def Let_def split: if_splits)
qed

lemma same_code: "(of_char c :: nat) = n \<Longrightarrow> (of_char d :: nat) = n \<Longrightarrow> c = d"
  by (metis char_of_char)

lemma jsonChar_short_inj:
  assumes "jsonChar c = [CHR 0x5C, e]" "jsonChar d = [CHR 0x5C, e]"
  shows "c = d"
  using assms by (auto simp: jsonChar_def Let_def split: if_splits intro: same_code)

lemma jsonChar_decodes:
  assumes "jsonChar c @ s = jsonChar d @ t"
  shows "c = d \<and> s = t"
proof (cases c rule: jsonChar_cases)
  case plain
  then show ?thesis using assms by (cases d rule: jsonChar_cases) auto
next
  case (short e)
  then show ?thesis using assms jsonChar_short_inj [of c e d] by (cases d rule: jsonChar_cases) auto
next
  case hex
  then show ?thesis using assms two_hex_digits [of "of_char c" "of_char d"]
    by (cases d rule: jsonChar_cases) (auto simp: char_code_eq)
qed

interpretation json_char: prefix_code jsonChar
  by unfold_locales (rule jsonChar_decodes)

lemma json_quote [simp]: "jsonChar c @ s \<noteq> CHR 0x22 # t" "CHR 0x22 # t \<noteq> jsonChar c @ s"
  by (cases c rule: jsonChar_cases; auto)+

lemma jsonString_decodes:
  assumes "concat (map jsonChar s) @ CHR 0x22 # u = concat (map jsonChar t) @ CHR 0x22 # v"
  shows "s = t \<and> u = v"
  using assms
proof (induction s arbitrary: t)
  case Nil
  then show ?case by (cases t) auto
next
  case (Cons c s)
  show ?case
  proof (cases t)
    case (Cons d t')
    with Cons.prems have "jsonChar c @ concat (map jsonChar s) @ CHR 0x22 # u = jsonChar d @ concat (map jsonChar t') @ CHR 0x22 # v"
      by simp
    from json_char.decodes [OF this] Cons.IH Cons show ?thesis by blast
  qed (use Cons.prems in auto)
qed

interpretation json_string: prefix_code jsonString
proof
  fix s t u v assume "jsonString s @ u = jsonString t @ v"
  then have "concat (map jsonChar s) @ CHR 0x22 # u = concat (map jsonChar t) @ CHR 0x22 # v"
    by (simp only: jsonString_def append_Cons append_assoc append_Nil list.inject simp_thms)
  then show "s = t \<and> u = v" by (rule jsonString_decodes)
qed

lemma js_join_terminated: "xs \<noteq> [] \<Longrightarrow> js_join sep xs @ sep = concat (map (\<lambda>x. x @ sep) xs)"
  by (induction sep xs rule: js_join.induct) auto

lemma jsonStrings_inj:
  assumes "length ss = length ts" "jsonStrings ss = jsonStrings ts"
  shows "ss = ts"
proof (cases "ss = []")
  case False
  from assms(2) have "js_join '','' (map jsonString ss) = js_join '','' (map jsonString ts)" by (simp add: jsonStrings_def)
  then have "js_join '','' (map jsonString ss) @ '','' = js_join '','' (map jsonString ts) @ '',''" by (rule arg_cong)
  with False assms(1) have "concat (map (\<lambda>s. jsonString s @ '','') ss) @ [] = concat (map (\<lambda>s. jsonString s @ '','') ts) @ []"
    by (subst (asm) (1 2) js_join_terminated) (auto simp: comp_def)
  from json_string.list_decodes [OF assms(1) this] show ?thesis by blast
qed (use assms in simp)

end
