(* ===== verification/Board_Capabilities.thy ===== *)
theory Board_Capabilities
  imports Board_Layout Normalization Json_Text
begin

text \<open>
  What a board widget may declare to reach: network origins and tools. Models
  \<open>src/boards/board-capabilities.ts\<close> and the content security policy of \<open>src/agents/sandbox-host.ts\<close>
  that bounds the origins.

  The URL parser of the platform is a parameter: \<open>parseUrl\<close> yields the components the code reads, or
  \<open>None\<close> where the constructor throws. Byte lengths are those of UTF-8 for code units below U+0100.
\<close>

subsection \<open>URLs and byte lengths\<close>

record url_parts =
  up_protocol :: string
  up_username :: string
  up_password :: string
  up_pathname :: string
  up_search :: string
  up_hash :: string
  up_hostname :: string
  up_origin :: string

definition byteLength :: "string \<Rightarrow> int" where
  "byteLength s = int (length s + length (filter (\<lambda>c. of_char c \<ge> (128 :: nat)) s))"

definition hasControlCharacter :: "string \<Rightarrow> bool" where
  "hasControlCharacter v = list_ex (\<lambda>c. let code = (of_char c :: nat) in code \<le> 31 \<or> code = 127) v"

text \<open>The host names \<open>[...]\<close> of IPv6 addresses and the plain ones.\<close>

definition hexHostChar :: "char \<Rightarrow> bool" where
  "hexHostChar c = (let n = (of_char c :: nat) in
     (48 \<le> n \<and> n \<le> 57) \<or> (65 \<le> n \<and> n \<le> 70) \<or> (97 \<le> n \<and> n \<le> 102) \<or> n = 58 \<or> n = 46)"

definition plainHostChar :: "char \<Rightarrow> bool" where
  "plainHostChar c = (let n = (of_char c :: nat) in
     (48 \<le> n \<and> n \<le> 57) \<or> (65 \<le> n \<and> n \<le> 90) \<or> (97 \<le> n \<and> n \<le> 122) \<or> n = 46 \<or> n = 45)"

definition bracketedHost :: "string \<Rightarrow> bool" where
  "bracketedHost h \<longleftrightarrow> length h > 2 \<and> hd h = CHR ''['' \<and> last h = CHR '']'' \<and> list_all hexHostChar (butlast (tl h))"

definition plainHost :: "string \<Rightarrow> bool" where
  "plainHost h \<longleftrightarrow> h \<noteq> [] \<and> list_all plainHostChar h"

subsection \<open>Content security policy of the sandbox host\<close>

record sandbox_csp =
  sc_connectDomains :: "string list option"
  sc_resourceDomains :: "string list option"
  sc_frameDomains :: "string list option"
  sc_baseUriDomains :: "string list option"
  sc_blockDescendantFrames :: "bool option"

definition domainAccepted :: "(string \<Rightarrow> url_parts option) \<Rightarrow> string list \<Rightarrow> string \<Rightarrow> bool" where
  "domainAccepted parseUrl allowedProtocols entry \<longleftrightarrow>
     entry \<noteq> [] \<and> length entry \<le> 2048 \<and> entry = js_trim entry \<and> \<not> hasControlCharacter entry \<and>
     (case parseUrl entry of
        None \<Rightarrow> False
      | Some parsed \<Rightarrow>
          up_protocol parsed \<in> set allowedProtocols \<and> up_username parsed = [] \<and> up_password parsed = [] \<and>
          up_pathname parsed = ''/'' \<and> up_search parsed = [] \<and> up_hash parsed = [] \<and>
          (bracketedHost (up_hostname parsed) \<or> plainHost (up_hostname parsed) \<or>
           (js_startsWith (up_hostname parsed) ''*.'' \<and> plainHost (drop 2 (up_hostname parsed)))))"

definition normalizeDomains :: "(string \<Rightarrow> url_parts option) \<Rightarrow> string list option \<Rightarrow> bool \<Rightarrow> string list option" where
  "normalizeDomains parseUrl v allowWebSocket =
     (case v of
        None \<Rightarrow> None
      | Some entries \<Rightarrow>
          let allowedProtocols = (if allowWebSocket then [''http:'', ''https:'', ''ws:'', ''wss:''] else [''http:'', ''https:'']);
              origins = map (\<lambda>entry. up_origin (the (parseUrl entry)))
                          (filter (domainAccepted parseUrl allowedProtocols) entries)
          in if origins \<noteq> [] then Some origins else None)"

text \<open>A source expression in single quotes.\<close>

definition quotedSource :: "string \<Rightarrow> string" where
  "quotedSource s = [CHR 0x27] @ s @ [CHR 0x27]"

definition cspSources :: "string list \<Rightarrow> string" where
  "cspSources values = (if values \<noteq> [] then js_join '' '' values else quotedSource ''none'')"

definition buildSandboxHostContentSecurityPolicy :: "sandbox_csp \<Rightarrow> string" where
  "buildSandboxHostContentSecurityPolicy csp =
     (let resources = js_join '' '' (nullish (sc_resourceDomains csp) []);
          connections = nullish (sc_connectDomains csp) [];
          frames = nullish (sc_frameDomains csp) [];
          bases = nullish (sc_baseUriDomains csp) [];
          self = quotedSource ''self''
      in js_join ''; ''
        [''default-src '' @ quotedSource ''none'',
         js_trim (''script-src '' @ self @ '' '' @ quotedSource ''unsafe-inline'' @ '' '' @ resources),
         js_trim (''style-src '' @ self @ '' '' @ quotedSource ''unsafe-inline'' @ '' '' @ resources),
         js_trim (''img-src '' @ self @ '' data: '' @ resources),
         js_trim (''media-src '' @ self @ '' data: '' @ resources),
         js_trim (''font-src '' @ self @ '' '' @ resources),
         ''connect-src '' @ cspSources connections,
         ''webrtc '' @ quotedSource ''block'',
         ''frame-src '' @ cspSources frames,
         ''base-uri '' @ (if bases \<noteq> [] then js_join '' '' bases else self),
         ''object-src '' @ quotedSource ''none'',
         ''form-action '' @ quotedSource ''none'',
         ''frame-ancestors http: https:''])"

text \<open>\<open>JSON.stringify(csp)\<close>: absent properties are left out.\<close>

definition jsonCsp :: "sandbox_csp \<Rightarrow> string" where
  "jsonCsp csp =
     (let field = (\<lambda>name v. case v of None \<Rightarrow> [] | Some ss \<Rightarrow> [jsonString name @ '':'' @ jsonStrings ss]);
          flag = (case sc_blockDescendantFrames csp of None \<Rightarrow> []
                  | Some b \<Rightarrow> [jsonString ''blockDescendantFrames'' @ '':'' @ (if b then ''true'' else ''false'')])
      in ''{'' @ js_join '',''
           (field ''connectDomains'' (sc_connectDomains csp) @ field ''resourceDomains'' (sc_resourceDomains csp) @
            field ''frameDomains'' (sc_frameDomains csp) @ field ''baseUriDomains'' (sc_baseUriDomains csp) @ flag) @ ''}'')"

text \<open>\<open>normalizeSandboxHostCsp\<close> of a record. A left value stands for the exception.\<close>

definition normalizeSandboxHostCsp ::
  "(string \<Rightarrow> url_parts option) \<Rightarrow> sandbox_csp \<Rightarrow> unit + sandbox_csp option" where
  "normalizeSandboxHostCsp parseUrl record' =
     (let csp = \<lparr>sc_connectDomains = normalizeDomains parseUrl (sc_connectDomains record') True,
                 sc_resourceDomains = normalizeDomains parseUrl (sc_resourceDomains record') False,
                 sc_frameDomains = normalizeDomains parseUrl (sc_frameDomains record') False,
                 sc_baseUriDomains = normalizeDomains parseUrl (sc_baseUriDomains record') False,
                 sc_blockDescendantFrames = (if truthy (sc_blockDescendantFrames record') then Some True else None)\<rparr>
      in if sc_connectDomains csp = None \<and> sc_resourceDomains csp = None \<and> sc_frameDomains csp = None \<and>
            sc_baseUriDomains csp = None \<and> sc_blockDescendantFrames csp = None
         then Inr None
         else if byteLength (jsonCsp csp) > 5 * 1024 \<or>
                 byteLength (buildSandboxHostContentSecurityPolicy csp) > 6 * 1024
         then Inl ()
         else Inr (Some csp))"

subsection \<open>Declarations of a widget\<close>

definition MAX_DECLARED_ORIGINS :: nat where
  "MAX_DECLARED_ORIGINS = 32"

definition MAX_DECLARED_TOOLS :: nat where
  "MAX_DECLARED_TOOLS = 64"

definition BOARD_WIDGET_TOOL_MAX_LENGTH :: nat where
  "BOARD_WIDGET_TOOL_MAX_LENGTH = length ''cron.trigger:'' + 256"

abbreviation invalidDeclaration :: "string \<Rightarrow> 'a board_result" where
  "invalidDeclaration message \<equiv> Inl (BoardValidationError BoardInvalidOperation message)"

definition normalizeBoardNetOrigin :: "(string \<Rightarrow> url_parts option) \<Rightarrow> string \<Rightarrow> string board_result" where
  "normalizeBoardNetOrigin parseUrl v =
     (if v \<noteq> js_trim v \<or> length v = 0 \<or> length v > 2048
      then invalidDeclaration (''invalid board widget network origin: '' @ v)
      else case parseUrl v of
        None \<Rightarrow> invalidDeclaration (''invalid board widget network origin: '' @ v)
      | Some parsed \<Rightarrow>
          let supportedHostname = bracketedHost (up_hostname parsed) \<or> plainHost (up_hostname parsed)
          in if up_protocol parsed \<noteq> ''https:'' \<or> up_username parsed \<noteq> [] \<or> up_password parsed \<noteq> [] \<or>
                up_pathname parsed \<noteq> ''/'' \<or> up_search parsed \<noteq> [] \<or> up_hash parsed \<noteq> [] \<or>
                \<not> supportedHostname \<or> CHR ''*'' \<in> set (up_hostname parsed) \<or> js_endsWith (up_hostname parsed) ''.''
             then invalidDeclaration (''board widget network origin must be an exact HTTPS origin: '' @ v)
             else Inr (up_origin parsed))"

definition normalizeTool :: "string \<Rightarrow> string board_result" where
  "normalizeTool v =
     (let tool = js_trim v
      in if length tool = 0 \<or> length tool > BOARD_WIDGET_TOOL_MAX_LENGTH \<or> tool \<noteq> v \<or> hasControlCharacter tool
         then invalidDeclaration (''invalid board widget tool capability: '' @ v)
         else Inr tool)"

text \<open>\<open>map\<close> with a function that may throw: the first error wins.\<close>

fun mapResult :: "('a \<Rightarrow> 'b board_result) \<Rightarrow> 'a list \<Rightarrow> 'b list board_result" where
  "mapResult f [] = Inr []"
| "mapResult f (x # xs) =
     (case f x of
        Inl e \<Rightarrow> Inl e
      | Inr y \<Rightarrow> (case mapResult f xs of Inl e \<Rightarrow> Inl e | Inr ys \<Rightarrow> Inr (y # ys)))"

definition normalizeBoardWidgetDeclared ::
  "(string \<Rightarrow> url_parts option) \<Rightarrow> widget_declared option \<Rightarrow> widget_declared option board_result" where
  "normalizeBoardWidgetDeclared parseUrl declaredOpt =
     (case declaredOpt of
        None \<Rightarrow> Inr None
      | Some declared \<Rightarrow>
          if length (nullish (wd_netOrigins declared) []) > MAX_DECLARED_ORIGINS
          then invalidDeclaration (''board widget cannot declare more than '' @ string_of_nat MAX_DECLARED_ORIGINS @ '' network origins'')
          else if length (nullish (wd_tools declared) []) > MAX_DECLARED_TOOLS
          then invalidDeclaration (''board widget cannot declare more than '' @ string_of_nat MAX_DECLARED_TOOLS @ '' tools'')
          else case mapResult (normalizeBoardNetOrigin parseUrl) (nullish (wd_netOrigins declared) []) of
            Inl e \<Rightarrow> Inl e
          | Inr origins \<Rightarrow>
            (case mapResult normalizeTool (nullish (wd_tools declared) []) of
               Inl e \<Rightarrow> Inl e
             | Inr toolNames \<Rightarrow>
                 let netOrigins = js_toSorted compareCodeUnits (js_set_of origins);
                     tools = js_toSorted compareCodeUnits (js_set_of toolNames)
                 in case normalizeSandboxHostCsp parseUrl
                          \<lparr>sc_connectDomains = Some netOrigins, sc_resourceDomains = None, sc_frameDomains = None,
                           sc_baseUriDomains = None, sc_blockDescendantFrames = None\<rparr> of
                      Inl _ \<Rightarrow> invalidDeclaration ''board widget network origins exceed safe CSP limits''
                    | Inr csp \<Rightarrow>
                        let sandboxOrigins = Option.bind csp sc_connectDomains
                        in if netOrigins \<noteq> [] \<and> sandboxOrigins \<noteq> Some netOrigins
                           then invalidDeclaration ''board widget network origin is not supported by the sandbox host''
                           else if netOrigins = [] \<and> tools = [] then Inr None
                           else Inr (Some \<lparr>wd_netOrigins = (if netOrigins \<noteq> [] then Some netOrigins else None),
                                           wd_tools = (if tools \<noteq> [] then Some tools else None)\<rparr>)))"

definition boardDeclarationIsSubset :: "widget_declared option \<Rightarrow> widget_declared option \<Rightarrow> bool" where
  "boardDeclarationIsSubset requested granted =
     (let origins = (\<lambda>d. nullish (Option.bind d wd_netOrigins) []); tools = (\<lambda>d. nullish (Option.bind d wd_tools) [])
      in list_all (\<lambda>origin. origin \<in> set (origins granted)) (origins requested) \<and>
         list_all (\<lambda>tool. tool \<in> set (tools granted)) (tools requested))"

definition boardWidgetHasGrantedTool :: "widget_declared option \<Rightarrow> grant_state \<Rightarrow> string \<Rightarrow> bool" where
  "boardWidgetHasGrantedTool declared grantState tool \<longleftrightarrow>
     grantState = Granted \<and> tool \<in> set (nullish (Option.bind declared wd_tools) [])"

end
