(* ===== verification/Board_Store.thy ===== *)
theory Board_Store
  imports Board_Capabilities "HOL-Library.AList"
begin

text \<open>
  The store of boards, one per session, after \<open>src/boards/board-store.ts\<close>: putting a widget, granting or
  rejecting what it declares, applying layout operations, and reading documents.

  The digest of a document, the random instance id and the size of a plugin's properties come from the
  platform: \<open>be_sha256\<close>, the argument \<open>instanceId\<close> and \<open>be_propsBytes\<close>. Snapshots are values, so
  \<open>cloneBoardSnapshot\<close> and the other clones disappear. The lemmas show that a grant reaches exactly as far as
  it was given.
\<close>

subsection \<open>Data\<close>

record 'p board_env =
  be_parseUrl :: "string \<Rightarrow> url_parts option"
  be_sha256 :: "string \<Rightarrow> string"
  be_propsBytes :: "'p option \<Rightarrow> int"

record mcp_descriptor =
  md_serverName :: string
  md_toolName :: string
  md_uiResourceUri :: string
  md_toolCallId :: string

datatype 'p widget_content =
    HtmlContent string
  | McpAppContent mcp_descriptor bool
  | PluginContent string "'p option"

fun contentKindOf :: "'p widget_content \<Rightarrow> content_kind" where
  "contentKindOf (HtmlContent html) = CkHtml"
| "contentKindOf (McpAppContent descriptor interactive) = CkMcpApp"
| "contentKindOf (PluginContent pluginKind props) = CkPlugin"

record put_placement =
  pl_tabId :: "string option"
  pl_size :: "board_size option"
  pl_after :: "string option"

record 'p put_params =
  pp_sessionKey :: string
  pp_name :: string
  pp_title :: "string option"
  pp_content :: "'p widget_content"
  pp_presentation :: "widget_presentation option"
  pp_heightMode :: "height_mode option"
  pp_placement :: "put_placement option"
  pp_declared :: "widget_declared option"

record html_document =
  ht_html :: string
  ht_revision :: int
  ht_sha256 :: string
  ht_viewGeneration :: string
  ht_grantState :: grant_state
  ht_declared :: "widget_declared option"

record mcp_document =
  ma_descriptor :: mcp_descriptor
  ma_revision :: int
  ma_instanceId :: string
  ma_grantState :: grant_state
  ma_declaredTools :: "string list"
  ma_interactive :: bool

datatype board_document = HtmlDocument html_document | McpAppDocument mcp_document

record 'p board_snapshot =
  bs_sessionKey :: string
  bs_revision :: int
  bs_layout :: "'p board_layout"

record 'p stored_board =
  sb_snapshot :: "'p board_snapshot"
  sb_documents :: "(string \<times> board_document) list"

type_synonym 'p board_store = "(string \<times> 'p stored_board) list"

definition BOARD_MAX_WIDGETS :: nat where
  "BOARD_MAX_WIDGETS = 48"

definition BOARD_MAX_WIDGET_HTML_BYTES :: int where
  "BOARD_MAX_WIDGET_HTML_BYTES = 256 * 1024"

definition BOARD_MAX_WIDGET_PLUGIN_PROPS_BYTES :: int where
  "BOARD_MAX_WIDGET_PLUGIN_PROPS_BYTES = 8 * 1024"

definition emptyBoardSnapshot :: "string \<Rightarrow> 'p board_snapshot" where
  "emptyBoardSnapshot sessionKey =
     \<lparr>bs_sessionKey = sessionKey, bs_revision = 0, bs_layout = \<lparr>bl_tabs = [], bl_widgets = []\<rparr>\<rparr>"

subsection \<open>Documents and grants\<close>

definition createBoardWidgetDocument ::
  "'p board_env \<Rightarrow> 'p widget_content \<Rightarrow> int \<Rightarrow> grant_state \<Rightarrow> widget_declared option \<Rightarrow> string \<Rightarrow> board_document option" where
  "createBoardWidgetDocument env content revision grantState declared instanceId =
     (case content of
        HtmlContent html \<Rightarrow> Some (HtmlDocument
          \<lparr>ht_html = html, ht_revision = revision, ht_sha256 = be_sha256 env html, ht_viewGeneration = instanceId,
           ht_grantState = grantState, ht_declared = declared\<rparr>)
      | PluginContent _ _ \<Rightarrow> None
      | McpAppContent descriptor interactive \<Rightarrow> Some (McpAppDocument
          \<lparr>ma_descriptor = descriptor, ma_revision = revision, ma_instanceId = instanceId, ma_grantState = grantState,
           ma_declaredTools = nullish (Option.bind declared wd_tools) [], ma_interactive = interactive\<rparr>))"

definition createBoardDeclaredSummary :: "widget_declared option \<Rightarrow> string list option" where
  "createBoardDeclaredSummary declared =
     (let lines = map (\<lambda>origin. ''Network access: '' @ origin) (nullish (Option.bind declared wd_netOrigins) []) @
                  map (\<lambda>tool. ''Tool access: '' @ tool) (nullish (Option.bind declared wd_tools) [])
      in if length lines > 0 then Some lines else None)"

datatype grant_scope = ScopeHtml | ScopeMcpApp string | ScopePlugin

fun scopeOfDocument :: "board_document \<Rightarrow> grant_scope" where
  "scopeOfDocument (HtmlDocument d) = ScopeHtml"
| "scopeOfDocument (McpAppDocument d) = ScopeMcpApp (md_serverName (ma_descriptor d))"

fun scopeOfContent :: "'p widget_content \<Rightarrow> grant_scope" where
  "scopeOfContent (HtmlContent html) = ScopeHtml"
| "scopeOfContent (McpAppContent descriptor interactive) = ScopeMcpApp (md_serverName descriptor)"
| "scopeOfContent (PluginContent pluginKind props) = ScopePlugin"

definition grantScopeMatches :: "board_document option \<Rightarrow> 'p widget_content \<Rightarrow> bool" where
  "grantScopeMatches previous content =
     (case previous of
        None \<Rightarrow> True
      | Some document \<Rightarrow>
          (case (scopeOfDocument document, scopeOfContent content) of
             (ScopeHtml, ScopeHtml) \<Rightarrow> True
           | (ScopeMcpApp prior, ScopeMcpApp next) \<Rightarrow> prior = next
           | _ \<Rightarrow> False))"

definition validatePluginContent :: "'p board_env \<Rightarrow> 'p put_params \<Rightarrow> unit board_result" where
  "validatePluginContent env params =
     (case pp_content params of
        PluginContent _ props \<Rightarrow>
          if pp_declared params \<noteq> None
          then invalidDeclaration ''trusted plugin widgets do not accept sandbox capability declarations''
          else if be_propsBytes env props > BOARD_MAX_WIDGET_PLUGIN_PROPS_BYTES
          then invalidDeclaration (''board plugin widget props exceed '' @ string_of_int BOARD_MAX_WIDGET_PLUGIN_PROPS_BYTES @ '' UTF-8 bytes'')
          else Inr ()
      | _ \<Rightarrow> Inr ())"

definition validateHtmlContent :: "'p put_params \<Rightarrow> unit board_result" where
  "validateHtmlContent params =
     (case pp_content params of
        HtmlContent html \<Rightarrow>
          if byteLength html > BOARD_MAX_WIDGET_HTML_BYTES
          then invalidDeclaration (''board widget HTML exceeds '' @ string_of_int BOARD_MAX_WIDGET_HTML_BYTES @ '' UTF-8 bytes'')
          else Inr ()
      | _ \<Rightarrow> Inr ())"

text \<open>Whether a put keeps the grant of the widget it replaces, and the grant state it starts with.\<close>

definition preservesGrant ::
  "'p board_env \<Rightarrow> 'p widget_content \<Rightarrow> bool \<Rightarrow> string option \<Rightarrow> widget_declared option \<Rightarrow> 'p board_widget option \<Rightarrow> bool" where
  "preservesGrant env content scopeMatches grantedSha256 declared existing =
     (case existing of
        None \<Rightarrow> False
      | Some e \<Rightarrow>
          declared \<noteq> None \<and> scopeMatches \<and>
          (case content of McpAppContent _ interactive \<Rightarrow> interactive | _ \<Rightarrow> True) \<and>
          bw_grantState e = Granted \<and>
          (case content of HtmlContent html \<Rightarrow> Some (be_sha256 env html) = grantedSha256 | _ \<Rightarrow> True) \<and>
          boardDeclarationIsSubset declared (bw_declared e))"

definition putGrantState :: "'p widget_content \<Rightarrow> bool \<Rightarrow> string list option \<Rightarrow> grant_state" where
  "putGrantState content preserved declaredSummary =
     (case content of
        PluginContent _ _ \<Rightarrow> GrantNone
      | McpAppContent _ interactive \<Rightarrow>
          if preserved then Granted else if \<not> interactive then GrantNone else GrantPending
      | HtmlContent _ \<Rightarrow>
          if preserved then Granted else if declaredSummary \<noteq> None then GrantPending else GrantNone)"

text \<open>The widget that a put inserts.\<close>

definition putWidgetRecord ::
  "'p put_params \<Rightarrow> 'p board_widget option \<Rightarrow> string \<Rightarrow> nat \<Rightarrow> bool \<Rightarrow> widget_declared option \<Rightarrow> string \<Rightarrow> 'p board_widget" where
  "putWidgetRecord params existing tabId widgetCount preserved declared instanceId =
     (let size = Option.bind (pp_placement params) pl_size;
          preset = BOARD_SIZE_PRESETS (nullish size SizeMd);
          declaredSummary = createBoardDeclaredSummary declared
      in \<lparr>bw_name = pp_name params, bw_tabId = tabId,
          bw_title = nullish_or (pp_title params) (Option.bind existing bw_title),
          bw_contentKind = contentKindOf (pp_content params),
          bw_presentation = nullish_or (pp_presentation params) (Option.bind existing bw_presentation),
          bw_heightMode = nullish_or (pp_heightMode params) (Option.bind existing bw_heightMode),
          bw_pluginKind = (case pp_content params of PluginContent pluginKind _ \<Rightarrow> Some pluginKind | _ \<Rightarrow> None),
          bw_props = (case pp_content params of PluginContent _ props \<Rightarrow> props | _ \<Rightarrow> None),
          bw_sizeW = (if size \<noteq> None then fst preset else nullish (map_option bw_sizeW existing) (fst preset)),
          bw_sizeH = (if size \<noteq> None then snd preset else nullish (map_option bw_sizeH existing) (snd preset)),
          bw_position = nullish (map_option bw_position existing) (int widgetCount),
          bw_grantState = putGrantState (pp_content params) preserved declaredSummary,
          bw_revision = nullish (map_option bw_revision existing) 0 + 1,
          bw_instanceId = (if contentKindOf (pp_content params) \<noteq> CkPlugin then Some instanceId else None),
          bw_declaredSummary = declaredSummary,
          bw_declared = declared\<rparr>)"

text \<open>\<open>delete widget.declaredSummary; delete widget.declared\<close> on the first widget of the name.\<close>

definition clearDeclared :: "string \<Rightarrow> 'p board_layout \<Rightarrow> 'p board_layout" where
  "clearDeclared name layout =
     (case firstIndex (\<lambda>w. bw_name w = name) (bl_widgets layout) of
        None \<Rightarrow> layout
      | Some k \<Rightarrow> layout\<lparr>bl_widgets := (bl_widgets layout)[k := (bl_widgets layout ! k)
          \<lparr>bw_declaredSummary := None, bw_declared := None\<rparr>]\<rparr>)"

text \<open>The layout a put starts from.\<close>

definition putLayout :: "'p board_snapshot \<Rightarrow> 'p board_layout" where
  "putLayout prior =
     (let normalized = normalizeBoardLayout (bs_layout prior)
      in if bl_tabs normalized = []
         then normalized\<lparr>bl_tabs := [\<lparr>bt_tabId = ''main'', bt_title = ''Main'', bt_position = 0, bt_chatDock = DockRight\<rparr>]\<rparr>
         else normalized)"

definition createBoardWidgetPutSnapshot ::
  "'p board_env \<Rightarrow> 'p board_snapshot \<Rightarrow> 'p put_params \<Rightarrow> bool \<Rightarrow> string option \<Rightarrow> string \<Rightarrow> 'p board_snapshot board_result" where
  "createBoardWidgetPutSnapshot env prior params scopeMatches grantedSha256 instanceId =
     (case validatePluginContent env params of Inl e \<Rightarrow> Inl e | Inr _ \<Rightarrow>
      case validateHtmlContent params of Inl e \<Rightarrow> Inl e | Inr _ \<Rightarrow>
      let layout = putLayout prior;
          existing = find (\<lambda>w. bw_name w = pp_name params) (bl_widgets layout)
      in if existing = None \<and> length (bl_widgets layout) \<ge> BOARD_MAX_WIDGETS
         then invalidDeclaration (''board cannot contain more than '' @ string_of_nat BOARD_MAX_WIDGETS @ '' widgets'')
         else
           let placement = pp_placement params;
               tabId = nullish (Option.bind placement pl_tabId)
                         (nullish (map_option bw_tabId existing) (bt_tabId (hd (bl_tabs layout))))
           in if tabId \<notin> bt_tabId ` set (bl_tabs layout)
              then Inl (BoardValidationError BoardNotFound (''board tab not found: '' @ tabId))
              else case (if contentKindOf (pp_content params) = CkPlugin then Inr None
                         else normalizeBoardWidgetDeclared (be_parseUrl env) (pp_declared params)) of
                Inl e \<Rightarrow> Inl e
              | Inr declared \<Rightarrow>
                  let preserved = preservesGrant env (pp_content params) scopeMatches grantedSha256 declared existing;
                      widget = putWidgetRecord params existing tabId (length (bl_widgets layout)) preserved declared instanceId;
                      after = Option.bind placement pl_after;
                      target = \<lparr>wp_tabId = tabId, wp_after = (if after = Some [] then None else after),
                                wp_move = Some (Option.bind placement pl_tabId \<noteq> None \<or> after \<noteq> None)\<rparr>
                  in case insertBoardWidget layout widget target of
                       Inl e \<Rightarrow> Inl e
                     | Inr layout1 \<Rightarrow>
                         let layout2 = (if createBoardDeclaredSummary declared = None
                                        then clearDeclared (pp_name params) layout1 else layout1)
                         in Inr \<lparr>bs_sessionKey = pp_sessionKey params, bs_revision = bs_revision prior + 1, bs_layout = layout2\<rparr>)"

definition createBoardGrantSnapshot ::
  "'p board_snapshot \<Rightarrow> string \<Rightarrow> grant_state \<Rightarrow> int \<Rightarrow> string option \<Rightarrow> 'p board_snapshot board_result" where
  "createBoardGrantSnapshot current name decision revision instanceId =
     (case firstIndex (\<lambda>w. bw_name w = name) (bl_widgets (bs_layout current)) of
        None \<Rightarrow> Inl (BoardValidationError BoardNotFound (''board widget not found: '' @ name))
      | Some k \<Rightarrow>
          let widget = bl_widgets (bs_layout current) ! k
          in if bw_revision widget \<noteq> revision
             then Inl (BoardValidationError BoardConflict
               (''board widget revision changed: '' @ name @ '' is revision '' @ string_of_int (bw_revision widget)
                @ '', not '' @ string_of_int revision))
             else if bw_instanceId widget \<noteq> None \<and> bw_instanceId widget \<noteq> instanceId
             then Inl (BoardValidationError BoardConflict (''board widget instance changed: '' @ name))
             else if bw_grantState widget \<noteq> GrantPending
             then Inl (BoardValidationError BoardInvalidOperation (''board widget grant is not pending: '' @ name))
             else Inr (current\<lparr>bs_revision := bs_revision current + 1,
                               bs_layout := (bs_layout current)\<lparr>bl_widgets :=
                                 (bl_widgets (bs_layout current))[k := widget\<lparr>bw_grantState := decision\<rparr>]\<rparr>\<rparr>))"

subsection \<open>The store\<close>

definition snapshotOf :: "'p board_store \<Rightarrow> string \<Rightarrow> 'p board_snapshot" where
  "snapshotOf store sessionKey = nullish (map_option sb_snapshot (map_of store sessionKey)) (emptyBoardSnapshot sessionKey)"

definition documentsOf :: "'p board_store \<Rightarrow> string \<Rightarrow> (string \<times> board_document) list" where
  "documentsOf store sessionKey = nullish (map_option sb_documents (map_of store sessionKey)) []"

definition getSnapshot :: "'p board_store \<Rightarrow> string \<Rightarrow> 'p board_snapshot" where
  "getSnapshot store sessionKey = snapshotOf store sessionKey"

definition applyOps :: "'p board_store \<Rightarrow> string \<Rightarrow> board_op list \<Rightarrow> ('p board_store \<times> 'p board_snapshot) board_result" where
  "applyOps store sessionKey ops =
     (let snapshot = snapshotOf store sessionKey
      in if ops = [] then Inr (store, snapshot)
         else case applyBoardOps (bs_layout snapshot) ops of
           Inl e \<Rightarrow> Inl e
         | Inr layout \<Rightarrow>
             let next = \<lparr>bs_sessionKey = sessionKey, bs_revision = bs_revision snapshot + 1, bs_layout = layout\<rparr>;
                 documents = filter (\<lambda>(name, d). name \<in> bw_name ` set (bl_widgets layout)) (documentsOf store sessionKey)
             in Inr (if bl_tabs layout = [] \<and> bl_widgets layout = []
                     then AList.delete sessionKey store
                     else AList.update sessionKey \<lparr>sb_snapshot = next, sb_documents = documents\<rparr> store, next))"

definition grantedSha :: "board_document option \<Rightarrow> string option" where
  "grantedSha existingDocument =
     (case existingDocument of
        Some (HtmlDocument d) \<Rightarrow> if ht_grantState d = Granted then Some (ht_sha256 d) else None
      | _ \<Rightarrow> None)"

text \<open>The documents after a put: the part of \<open>putWidget\<close> behind the new snapshot.\<close>

definition putDocuments ::
  "'p board_env \<Rightarrow> 'p put_params \<Rightarrow> 'p board_snapshot \<Rightarrow> widget_declared option \<Rightarrow> string \<Rightarrow>
   (string \<times> board_document) list \<Rightarrow> (string \<times> board_document) list" where
  "putDocuments env params snapshot declared instanceId documents =
     (let widget = the (find (\<lambda>w. bw_name w = pp_name params) (bl_widgets (bs_layout snapshot)))
      in case createBoardWidgetDocument env (pp_content params) (bw_revision widget) (bw_grantState widget) declared instanceId of
           Some document \<Rightarrow> AList.update (pp_name params) document documents
         | None \<Rightarrow> AList.delete (pp_name params) documents)"

definition putWidget ::
  "'p board_env \<Rightarrow> 'p board_store \<Rightarrow> 'p put_params \<Rightarrow> string \<Rightarrow> ('p board_store \<times> 'p board_snapshot) board_result" where
  "putWidget env store params instanceId =
     (case normalizeBoardWidgetDeclared (be_parseUrl env) (pp_declared params) of
        Inl e \<Rightarrow> Inl e
      | Inr declared \<Rightarrow>
          let canonicalParams = params\<lparr>pp_declared := declared\<rparr>;
              sessionKey = pp_sessionKey params;
              prior = snapshotOf store sessionKey;
              existingDocument = map_of (documentsOf store sessionKey) (pp_name params)
          in case createBoardWidgetPutSnapshot env prior canonicalParams
                    (grantScopeMatches existingDocument (pp_content params)) (grantedSha existingDocument) instanceId of
               Inl e \<Rightarrow> Inl e
             | Inr snapshot \<Rightarrow>
                 let documents = putDocuments env params snapshot declared instanceId (documentsOf store sessionKey)
                 in Inr (AList.update sessionKey \<lparr>sb_snapshot = snapshot, sb_documents = documents\<rparr> store, snapshot))"

fun setDocumentGrant :: "grant_state \<Rightarrow> board_document \<Rightarrow> board_document" where
  "setDocumentGrant decision (HtmlDocument d) = HtmlDocument (d\<lparr>ht_grantState := decision\<rparr>)"
| "setDocumentGrant decision (McpAppDocument d) = McpAppDocument (d\<lparr>ma_grantState := decision\<rparr>)"

definition grantWidget ::
  "'p board_store \<Rightarrow> string \<Rightarrow> string \<Rightarrow> grant_state \<Rightarrow> int \<Rightarrow> string option \<Rightarrow> ('p board_store \<times> 'p board_snapshot) board_result" where
  "grantWidget store sessionKey name decision revision instanceId =
     (case map_of store sessionKey of
        None \<Rightarrow> Inl (BoardValidationError BoardNotFound (''board widget not found: '' @ name))
      | Some current \<Rightarrow>
          (case createBoardGrantSnapshot (sb_snapshot current) name decision revision instanceId of
             Inl e \<Rightarrow> Inl e
           | Inr snapshot \<Rightarrow>
               let documents = (case map_of (sb_documents current) name of
                      None \<Rightarrow> sb_documents current
                    | Some d \<Rightarrow> AList.update name (setDocumentGrant decision d) (sb_documents current))
               in Inr (AList.update sessionKey \<lparr>sb_snapshot = snapshot, sb_documents = documents\<rparr> store, snapshot)))"

definition readWidgetHtml :: "'p board_store \<Rightarrow> string \<Rightarrow> string \<Rightarrow> html_document option" where
  "readWidgetHtml store sessionKey name =
     (case map_of (documentsOf store sessionKey) name of Some (HtmlDocument d) \<Rightarrow> Some d | _ \<Rightarrow> None)"

definition readWidgetMcpApp :: "'p board_store \<Rightarrow> string \<Rightarrow> string \<Rightarrow> mcp_document option" where
  "readWidgetMcpApp store sessionKey name =
     (case map_of (documentsOf store sessionKey) name of Some (McpAppDocument d) \<Rightarrow> Some d | _ \<Rightarrow> None)"

definition listSessionsWithBoards :: "'p board_store \<Rightarrow> string list" where
  "listSessionsWithBoards store =
     js_toSorted compareCodeUnits
       (map fst (filter (\<lambda>(sessionKey, board).
          length (bl_tabs (bs_layout (sb_snapshot board))) > 0 \<or> length (bl_widgets (bs_layout (sb_snapshot board))) > 0) store))"

subsection \<open>Histories\<close>

text \<open>The calls that change a store; a call that fails leaves the store as it is.\<close>

datatype 'p board_call =
    OpsCall string "board_op list"
  | PutCall "'p put_params" string
  | GrantCall string string grant_state int "string option"

definition storeAfter :: "'p board_store \<Rightarrow> ('p board_store \<times> 'p board_snapshot) board_result \<Rightarrow> 'p board_store" where
  "storeAfter store r = (case r of Inl e \<Rightarrow> store | Inr (store', snapshot) \<Rightarrow> store')"

fun boardCall :: "'p board_env \<Rightarrow> 'p board_call \<Rightarrow> 'p board_store \<Rightarrow> 'p board_store" where
  "boardCall env (OpsCall sessionKey ops) store = storeAfter store (applyOps store sessionKey ops)"
| "boardCall env (PutCall params instanceId) store = storeAfter store (putWidget env store params instanceId)"
| "boardCall env (GrantCall sessionKey name decision revision instanceId) store =
     storeAfter store (grantWidget store sessionKey name decision revision instanceId)"

text \<open>What an approval covers: the widget, its declaration, and the bytes or the server it was shown for.\<close>

datatype approved_source = ApprovedBytes string | ApprovedServer string

fun sourceOf :: "board_document \<Rightarrow> approved_source" where
  "sourceOf (HtmlDocument d) = ApprovedBytes (ht_sha256 d)"
| "sourceOf (McpAppDocument d) = ApprovedServer (md_serverName (ma_descriptor d))"

fun documentGrant :: "board_document \<Rightarrow> grant_state" where
  "documentGrant (HtmlDocument d) = ht_grantState d"
| "documentGrant (McpAppDocument d) = ma_grantState d"

fun documentKind :: "board_document \<Rightarrow> content_kind" where
  "documentKind (HtmlDocument d) = CkHtml"
| "documentKind (McpAppDocument d) = CkMcpApp"

record approval =
  ap_session :: string
  ap_name :: string
  ap_declared :: "widget_declared option"
  ap_source :: approved_source

text \<open>The approval that a call gives: a grant that succeeds, with the widget and the document it meets.\<close>

fun approvalsBy :: "'p board_call \<Rightarrow> 'p board_store \<Rightarrow> approval list" where
  "approvalsBy (GrantCall sessionKey name decision revision instanceId) store =
     (case (grantWidget store sessionKey name decision revision instanceId,
            find (\<lambda>w. bw_name w = name) (bl_widgets (bs_layout (snapshotOf store sessionKey))),
            map_of (documentsOf store sessionKey) name) of
        (Inr _, Some w, Some d) \<Rightarrow>
          if decision = Granted
          then [\<lparr>ap_session = sessionKey, ap_name = name, ap_declared = bw_declared w, ap_source = sourceOf d\<rparr>] else []
      | _ \<Rightarrow> [])"
| "approvalsBy _ store = []"

fun runBoardCalls :: "'p board_env \<Rightarrow> 'p board_call list \<Rightarrow> 'p board_store \<times> approval list \<Rightarrow> 'p board_store \<times> approval list" where
  "runBoardCalls env [] (store, approvals) = (store, approvals)"
| "runBoardCalls env (c # cs) (store, approvals) =
     runBoardCalls env cs (boardCall env c store, approvals @ approvalsBy c store)"

definition approves :: "string \<Rightarrow> 'p board_widget \<Rightarrow> board_document \<Rightarrow> approval \<Rightarrow> bool" where
  "approves sessionKey w d a \<longleftrightarrow> ap_session a = sessionKey \<and> ap_name a = bw_name w \<and>
     boardDeclarationIsSubset (bw_declared w) (ap_declared a) \<and> ap_source a = sourceOf d"

subsection \<open>The invariant of a stored board\<close>

text \<open>Every widget but a plugin's has a document of its kind and with its grant state; what is granted was approved.\<close>

definition documented :: "approval set \<Rightarrow> string \<Rightarrow> (string \<times> board_document) list \<Rightarrow> 'p board_widget \<Rightarrow> bool" where
  "documented approvals sessionKey documents w \<longleftrightarrow>
     (if bw_contentKind w = CkPlugin then bw_grantState w = GrantNone
      else (\<exists>d. map_of documents (bw_name w) = Some d \<and> documentKind d = bw_contentKind w \<and>
             documentGrant d = bw_grantState w \<and>
             (bw_grantState w = Granted \<longrightarrow> (\<exists>a \<in> approvals. approves sessionKey w d a))))"

definition board_ok :: "approval set \<Rightarrow> string \<Rightarrow> 'p board_layout \<Rightarrow> (string \<times> board_document) list \<Rightarrow> bool" where
  "board_ok approvals sessionKey layout documents \<longleftrightarrow>
     consistent layout \<and> (\<forall>w \<in> set (bl_widgets layout). documented approvals sessionKey documents w)"

definition store_ok :: "approval set \<Rightarrow> 'p board_store \<Rightarrow> bool" where
  "store_ok approvals store \<longleftrightarrow>
     (\<forall>sessionKey. board_ok approvals sessionKey (bs_layout (snapshotOf store sessionKey)) (documentsOf store sessionKey))"

text \<open>The invariant depends on a widget's name, grant state, declaration and kind only.\<close>

abbreviation grantView :: "'p board_widget \<Rightarrow> string \<times> grant_state \<times> widget_declared option \<times> content_kind" where
  "grantView w \<equiv> (bw_name w, bw_grantState w, bw_declared w, bw_contentKind w)"

lemma documented_view:
  "grantView w = grantView w' \<Longrightarrow> documented A s docs w = documented A s docs w'"
  by (simp add: documented_def approves_def)

lemma documented_mono: "documented A s docs w \<Longrightarrow> A \<subseteq> B \<Longrightarrow> documented B s docs w"
  by (fastforce simp: documented_def split: if_splits)

lemma documented_docs:
  "map_of docs (bw_name w) = map_of docs' (bw_name w) \<Longrightarrow> documented A s docs w = documented A s docs' w"
  by (simp add: documented_def)

lemma store_ok_mono: "store_ok A store \<Longrightarrow> A \<subseteq> B \<Longrightarrow> store_ok B store"
  by (auto simp: store_ok_def board_ok_def intro: documented_mono)

lemma snapshotOf_update [simp]:
  "snapshotOf (AList.update s b store) s' = (if s' = s then sb_snapshot b else snapshotOf store s')"
  "documentsOf (AList.update s b store) s' = (if s' = s then sb_documents b else documentsOf store s')"
  by (simp_all add: snapshotOf_def documentsOf_def update_conv')

lemma snapshotOf_delete [simp]:
  "snapshotOf (AList.delete s store) s' = (if s' = s then emptyBoardSnapshot s else snapshotOf store s')"
  "documentsOf (AList.delete s store) s' = (if s' = s then [] else documentsOf store s')"
  by (simp_all add: snapshotOf_def documentsOf_def delete_conv')

lemma store_ok_update:
  assumes "store_ok A store" "board_ok A s (bs_layout (sb_snapshot b)) (sb_documents b)"
  shows "store_ok A (AList.update s b store)"
  using assms by (simp add: store_ok_def)

lemma board_ok_empty: "board_ok A s (bs_layout (emptyBoardSnapshot s)) []"
  by (simp add: board_ok_def emptyBoardSnapshot_def consistent_def)

lemma store_ok_empty: "store_ok A []"
  by (simp add: store_ok_def snapshotOf_def documentsOf_def board_ok_empty)

subsection \<open>Layout operations\<close>

lemma applyBoardOps_consistent: "consistent l \<Longrightarrow> applyBoardOps l ops = Inr l' \<Longrightarrow> consistent l'"
  by (auto simp: applyBoardOps_def map_sum_eq_Inr dest: runBoardOps_consistent)

lemma map_of_filter_in: "k \<in> K \<Longrightarrow> map_of (filter (\<lambda>(k, v). k \<in> K) xs) k = map_of xs k"
  by (induction xs) auto

lemma view_of_member:
  assumes "mset (map f xs) = filter_mset P (mset (map f ys))" "x \<in> set xs"
  shows "\<exists>y \<in> set ys. f y = f x"
proof -
  have "f x \<in># mset (map f xs)" using assms(2) by simp
  then show ?thesis unfolding assms(1) by auto
qed

lemma applyOps_ok:
  assumes "store_ok A store" "applyOps store s ops = Inr (store', snap)"
  shows "store_ok A store'"
proof (cases "ops = []")
  case True
  then show ?thesis using assms by (simp add: applyOps_def)
next
  case False
  let ?l = "bs_layout (snapshotOf store s)"
  obtain l where l: "applyBoardOps ?l ops = Inr l"
    using assms(2) False by (auto simp: applyOps_def Let_def split: sum.splits)
  define docs where "docs = filter (\<lambda>(name, d). name \<in> bw_name ` set (bl_widgets l)) (documentsOf store s)"
  have ok: "board_ok A s ?l (documentsOf store s)" using assms(1) by (simp add: store_ok_def)
  have "documented A s docs w" if w: "w \<in> set (bl_widgets l)" for w
  proof -
    obtain w0 where w0: "w0 \<in> set (bl_widgets ?l)" "grantView w0 = grantView w"
      using view_of_member [OF widget_grants.view_ops [OF l] w] by auto
    have "map_of docs (bw_name w) = map_of (documentsOf store s) (bw_name w)"
      unfolding docs_def using w by (simp add: map_of_filter_in)
    then show ?thesis
      using ok w0 documented_view [OF w0(2), of A s] documented_docs [of docs w] by (auto simp: board_ok_def)
  qed
  then have "board_ok A s l docs"
    using ok applyBoardOps_consistent [OF _ l] by (simp add: board_ok_def)
  then show ?thesis
    using assms False l board_ok_empty
    by (auto simp: applyOps_def Let_def docs_def store_ok_def split: if_splits)
qed

subsection \<open>Putting a widget\<close>

lemma find_firstIndex: "find P xs = map_option (\<lambda>k. xs ! k) (firstIndex P xs)"
  by (induction xs) (auto simp: option.map_comp comp_def)

lemma find_distinct:
  assumes "distinct (map f xs)" "x \<in> set xs"
  shows "find (\<lambda>y. f y = f x) xs = Some x"
  using assms by (induction xs) auto

lemma names_except:
  assumes "distinct (map bw_name ws)" "firstIndex (\<lambda>x. bw_name x = n) ws = Some k" "w \<in> set (allExcept k ws)"
  shows "bw_name w \<noteq> n" "w \<in> set ws"
proof -
  have k: "k < length ws" "bw_name (ws ! k) = n" using firstIndex_Some [OF assms(2)] by simp_all
  have "distinct (map bw_name (ws ! k # allExcept k ws))"
    using mset_eq_imp_distinct_iff [of "map bw_name (ws ! k # allExcept k ws)" "map bw_name ws"]
      arg_cong [OF mset_allExcept [OF k(1)], of "image_mset bw_name"] assms(1) by simp
  then have "bw_name (ws ! k) \<notin> bw_name ` set (allExcept k ws)" by simp
  then show "bw_name w \<noteq> n" using imageI [OF assms(3), of bw_name] k(2) by metis
  show "w \<in> set ws" using set_allExcept assms(3) by (rule subsetD)
qed

lemma insert_views:
  assumes "distinct (map bw_name (bl_widgets l))" "insertBoardWidget l w pl = Inr l'" "x \<in> set (bl_widgets l')"
  defines "existing \<equiv> find (\<lambda>y. bw_name y = bw_name w) (bl_widgets l)"
  shows "if bw_name x = bw_name w
         then grantView x = (bw_name w, bw_grantState w, nullish_or (bw_declared w) (Option.bind existing bw_declared), bw_contentKind w)
         else (\<exists>y \<in> set (bl_widgets l). grantView y = grantView x)"
proof -
  have x: "grantView x \<in># mset (map grantView (bl_widgets l'))" using assms(3) by simp
  show ?thesis
  proof (cases "firstIndex (\<lambda>y. bw_name y = bw_name w) (bl_widgets l)")
    case None
    then have "existing = None" "\<forall>y \<in> set (bl_widgets l). bw_name y \<noteq> bw_name w"
      by (auto simp: existing_def find_firstIndex firstIndex_None)
    then show ?thesis
      using x unfolding widget_grants.view_insert [OF assms(2)] None by auto
  next
    case (Some k)
    then have ex: "existing = Some (bl_widgets l ! k)" by (simp add: existing_def find_firstIndex)
    have "grantView (assignWidget (bl_widgets l ! k) w t) =
        (bw_name w, bw_grantState w, nullish_or (bw_declared w) (bw_declared (bl_widgets l ! k)), bw_contentKind w)" for t
      by (simp add: assignWidget_def)
    then consider "grantView x = (bw_name w, bw_grantState w, nullish_or (bw_declared w) (bw_declared (bl_widgets l ! k)), bw_contentKind w)"
      | y where "y \<in> set (allExcept k (bl_widgets l))" "grantView y = grantView x"
      using x unfolding widget_grants.view_insert [OF assms(2)] Some by auto
    then show ?thesis
    proof cases
      case 1
      then show ?thesis using ex by simp
    next
      case (2 y)
      then show ?thesis using names_except [OF assms(1) Some 2(1)] by auto
    qed
  qed
qed

lemma clearDeclared_widgets:
  assumes "distinct (map bw_name (bl_widgets l))" "x \<in> set (bl_widgets (clearDeclared n l))"
  shows "\<exists>y \<in> set (bl_widgets l). bw_name y = bw_name x \<and> bw_grantState y = bw_grantState x \<and>
    bw_contentKind y = bw_contentKind x \<and> bw_declared x = (if bw_name x = n then None else bw_declared y)"
proof (cases "firstIndex (\<lambda>y. bw_name y = n) (bl_widgets l)")
  case None
  have "clearDeclared n l = l" using None by (simp add: clearDeclared_def)
  moreover have "\<forall>y \<in> set (bl_widgets l). bw_name y \<noteq> n" using None by (simp add: firstIndex_None)
  ultimately have "x \<in> set (bl_widgets l)" "bw_name x \<noteq> n" using assms(2) by auto
  then show ?thesis by (intro bexI [of _ x]) simp_all
next
  case (Some k)
  have k: "k < length (bl_widgets l)" "bw_name (bl_widgets l ! k) = n" using firstIndex_Some [OF Some] by simp_all
  obtain j where j: "j < length (bl_widgets l)" "x = bl_widgets (clearDeclared n l) ! j"
    using assms(2) Some by (auto simp: clearDeclared_def in_set_conv_nth)
  have "bw_name (bl_widgets l ! j) = n \<longleftrightarrow> j = k"
    using nth_eq_iff_index_eq [OF assms(1), of j k] j(1) k by auto
  then show ?thesis
    using j k Some by (intro bexI [of _ "bl_widgets l ! j"]) (auto simp: clearDeclared_def nth_list_update)
qed

lemma clearDeclared_places:
  "map bw_name (bl_widgets (clearDeclared n l)) = map bw_name (bl_widgets l)"
  "map bw_tabId (bl_widgets (clearDeclared n l)) = map bw_tabId (bl_widgets l)"
  "bl_tabs (clearDeclared n l) = bl_tabs l"
  by (auto simp: clearDeclared_def map_update list_update_same_conv split: option.split dest: firstIndex_Some)

lemma clearDeclared_consistent: "consistent (clearDeclared n l) = consistent l"
  by (simp only: consistent_def clearDeclared_places)

lemma declaration_subset_trans:
  "boardDeclarationIsSubset a b \<Longrightarrow> boardDeclarationIsSubset b c \<Longrightarrow> boardDeclarationIsSubset a c"
  by (auto simp: boardDeclarationIsSubset_def Let_def list_all_iff)

lemma declaration_None [simp]: "boardDeclarationIsSubset None c"
  by (simp add: boardDeclarationIsSubset_def)

lemma putLayout_consistent: "consistent (bs_layout prior) \<Longrightarrow> consistent (putLayout prior)"
proof -
  assume "consistent (bs_layout prior)"
  then have "consistent (normalizeBoardLayout (bs_layout prior))" by simp
  then show ?thesis by (auto simp: putLayout_def Let_def consistent_def)
qed

lemma putLayout_views:
  assumes "w \<in> set (bl_widgets (putLayout prior))"
  shows "\<exists>w0 \<in> set (bl_widgets (bs_layout prior)). grantView w0 = grantView w"
proof -
  have "bl_widgets (putLayout prior) = bl_widgets (normalizeBoardLayout (bs_layout prior))"
    by (simp add: putLayout_def Let_def)
  then have "grantView w \<in># mset (map grantView (bl_widgets (normalizeBoardLayout (bs_layout prior))))" using assms by simp
  then show ?thesis unfolding widget_grants.view_normalize by auto
qed

text \<open>The steps of a put that succeeds.\<close>

lemma putSnapshot_steps:
  assumes "createBoardWidgetPutSnapshot env prior params match sha inst = Inr snap"
  defines "l \<equiv> putLayout prior"
  defines "existing \<equiv> find (\<lambda>w. bw_name w = pp_name params) (bl_widgets l)"
  obtains declared tabId pl l1 where
    "tabId \<in> bt_tabId ` set (bl_tabs l)" "wp_tabId pl = tabId"
    "insertBoardWidget l (putWidgetRecord params existing tabId (length (bl_widgets l))
        (preservesGrant env (pp_content params) match sha declared existing) declared inst) pl = Inr l1"
    "bs_layout snap = (if createBoardDeclaredSummary declared = None then clearDeclared (pp_name params) l1 else l1)"
proof -
  define tabId where "tabId = nullish (Option.bind (pp_placement params) pl_tabId)
    (nullish (map_option bw_tabId existing) (bt_tabId (hd (bl_tabs l))))"
  define pl where "pl = \<lparr>wp_tabId = tabId,
    wp_after = (if Option.bind (pp_placement params) pl_after = Some [] then None else Option.bind (pp_placement params) pl_after),
    wp_move = Some (Option.bind (pp_placement params) pl_tabId \<noteq> None \<or> Option.bind (pp_placement params) pl_after \<noteq> None)\<rparr>"
  define declaredR where "declaredR = (if contentKindOf (pp_content params) = CkPlugin then Inr None
        else normalizeBoardWidgetDeclared (be_parseUrl env) (pp_declared params))"
  have pl: "wp_tabId pl = tabId" by (simp add: pl_def)
  note folds = l_def [symmetric] existing_def [symmetric] tabId_def [symmetric] pl_def [symmetric] declaredR_def [symmetric]
  obtain declared where declared: "declaredR = Inr declared"
    using assms(1) unfolding createBoardWidgetPutSnapshot_def Let_def folds
    by (cases declaredR) (auto split: sum.split_asm if_split_asm)
  then show ?thesis
    using assms(1) that [OF _ pl]
    unfolding createBoardWidgetPutSnapshot_def Let_def folds
    by (auto simp del: image_iff split: sum.split_asm if_split_asm)
qed

text \<open>What a put that succeeds leaves: the other widgets, and one widget of the name with the computed grant state.\<close>

lemma putSnapshot_views:
  fixes params :: "'p put_params"
  assumes "createBoardWidgetPutSnapshot env prior params match sha inst = Inr snap" "consistent (bs_layout prior)"
  shows "\<exists>declared. consistent (bs_layout snap) \<and>
    (\<forall>x \<in> set (bl_widgets (bs_layout snap)). bw_name x \<noteq> pp_name params \<longrightarrow>
       (\<exists>y \<in> set (bl_widgets (putLayout prior)). grantView y = grantView x)) \<and>
    (\<forall>x \<in> set (bl_widgets (bs_layout snap)). bw_name x = pp_name params \<longrightarrow>
       bw_contentKind x = contentKindOf (pp_content params) \<and> bw_declared x \<in> {None, declared} \<and>
       bw_grantState x = putGrantState (pp_content params)
         (preservesGrant env (pp_content params) match sha declared
            (find (\<lambda>w. bw_name w = pp_name params) (bl_widgets (putLayout prior))))
         (createBoardDeclaredSummary declared))"
proof -
  define l where "l = putLayout prior"
  define existing where "existing = find (\<lambda>w. bw_name w = pp_name params) (bl_widgets l)"
  obtain declared tabId pl l1 where tab: "tabId \<in> bt_tabId ` set (bl_tabs l)" "wp_tabId pl = tabId"
    and ins: "insertBoardWidget l (putWidgetRecord params existing tabId (length (bl_widgets l))
        (preservesGrant env (pp_content params) match sha declared existing) declared inst) pl = Inr l1"
    and snap: "bs_layout snap = (if createBoardDeclaredSummary declared = None then clearDeclared (pp_name params) l1 else l1)"
    by (rule putSnapshot_steps [OF assms(1)]) (auto simp: l_def existing_def)
  define w where "w = putWidgetRecord params existing tabId (length (bl_widgets l))
        (preservesGrant env (pp_content params) match sha declared existing) declared inst"
  have w: "bw_name w = pp_name params" "bw_contentKind w = contentKindOf (pp_content params)" "bw_declared w = declared"
    "bw_grantState w = putGrantState (pp_content params)
       (preservesGrant env (pp_content params) match sha declared existing) (createBoardDeclaredSummary declared)"
    by (simp_all add: w_def putWidgetRecord_def Let_def)
  note ins = ins [folded w_def]
  have l: "consistent l" using putLayout_consistent [OF assms(2)] by (simp add: l_def)
  have l1: "consistent l1" using insertBoardWidget_consistent [OF l ins] tab by simp
  have dist: "distinct (map bw_name (bl_widgets l))" "distinct (map bw_name (bl_widgets l1))"
    using l l1 by (simp_all add: consistent_def)
  have view: "if bw_name x = pp_name params
      then bw_grantState x = bw_grantState w \<and> bw_contentKind x = contentKindOf (pp_content params) \<and>
        bw_declared x = nullish_or declared (Option.bind existing bw_declared)
      else (\<exists>y \<in> set (bl_widgets l). grantView y = grantView x)" if "x \<in> set (bl_widgets l1)" for x
    using insert_views [OF dist(1) ins that] w(1-3) by (auto simp: existing_def split: if_splits)
  have summary: "declared \<noteq> None" if "createBoardDeclaredSummary declared \<noteq> None"
    using that by (cases declared) (auto simp: createBoardDeclaredSummary_def)
  have from_l1: "\<exists>y \<in> set (bl_widgets l1). bw_name y = bw_name x \<and> bw_grantState y = bw_grantState x \<and>
      bw_contentKind y = bw_contentKind x \<and>
      (if bw_name x = pp_name params then bw_declared x \<in> {None, declared} else bw_declared x = bw_declared y)"
    if x: "x \<in> set (bl_widgets (bs_layout snap))" for x
  proof (cases "createBoardDeclaredSummary declared = None")
    case True
    then show ?thesis using clearDeclared_widgets [OF dist(2), of x "pp_name params"] x snap by fastforce
  next
    case False
    then have "x \<in> set (bl_widgets l1)" "declared \<noteq> None" using x snap summary by auto
    then show ?thesis using view [of x] by (intro bexI [of _ x]) (auto split: if_splits)
  qed
  have "\<exists>y \<in> set (bl_widgets (putLayout prior)). grantView y = grantView x"
    if x: "x \<in> set (bl_widgets (bs_layout snap))" "bw_name x \<noteq> pp_name params" for x
  proof -
    obtain y where "y \<in> set (bl_widgets l1)" "grantView y = grantView x" using from_l1 [OF x(1)] x(2) by auto
    then show ?thesis using view [of y] x(2) by (auto simp: l_def)
  qed
  moreover have "bw_contentKind x = contentKindOf (pp_content params) \<and> bw_declared x \<in> {None, declared} \<and>
       bw_grantState x = putGrantState (pp_content params)
         (preservesGrant env (pp_content params) match sha declared
            (find (\<lambda>w. bw_name w = pp_name params) (bl_widgets (putLayout prior))))
         (createBoardDeclaredSummary declared)"
    if x: "x \<in> set (bl_widgets (bs_layout snap))" "bw_name x = pp_name params" for x
    using from_l1 [OF x(1)] x(2) view w(4) by (force simp: l_def existing_def)
  moreover have "consistent (bs_layout snap)" using l1 snap clearDeclared_consistent by auto
  ultimately show ?thesis by blast
qed

lemma document_of_put:
  assumes "createBoardWidgetDocument env content revision grant declared inst = Some d"
  shows "documentKind d = contentKindOf content \<and> documentGrant d = grant"
  using assms by (auto simp: createBoardWidgetDocument_def split: widget_content.splits)

lemma document_None_iff: "createBoardWidgetDocument env content r g decl inst = None \<longleftrightarrow> contentKindOf content = CkPlugin"
  by (cases content) (simp_all add: createBoardWidgetDocument_def)

text \<open>A grant that a put keeps: the document of the widget that was approved has the same source.\<close>

lemma kept_grant_source:
  assumes "preservesGrant env content (grantScopeMatches (Some d0) content) (grantedSha (Some d0)) declared (Some e)"
    and "createBoardWidgetDocument env content revision grant declared' inst = Some d"
  shows "sourceOf d = sourceOf d0"
  using assms
  by (cases content; cases d0)
    (auto simp: preservesGrant_def grantScopeMatches_def grantedSha_def createBoardWidgetDocument_def split: if_splits)

text \<open>The widget that was put is documented by the document that was put with it.\<close>

lemma put_documented:
  assumes old: "\<And>e. existing = Some e \<Longrightarrow> bw_name e = bw_name w \<and> documented A s docs e"
    and w: "bw_contentKind w = contentKindOf content" "bw_declared w \<in> {None, declared}"
      "bw_grantState w = putGrantState content
         (preservesGrant env content (grantScopeMatches (map_of docs (bw_name w)) content)
            (grantedSha (map_of docs (bw_name w))) declared existing) summary"
    and docs': "\<And>d. createBoardWidgetDocument env content r (bw_grantState w) declared' inst = Some d \<Longrightarrow>
      map_of docs' (bw_name w) = Some d"
  shows "documented A s docs' w"
proof (cases "createBoardWidgetDocument env content r (bw_grantState w) declared' inst")
  case None
  then obtain pk props where "content = PluginContent pk props" by (cases content) (simp_all add: createBoardWidgetDocument_def)
  then show ?thesis using w(1,3) by (simp add: documented_def putGrantState_def)
next
  case (Some d)
  have "\<exists>a \<in> A. approves s w d a" if granted: "bw_grantState w = Granted"
  proof -
    let ?old = "map_of docs (bw_name w)"
    have kept: "preservesGrant env content (grantScopeMatches ?old content) (grantedSha ?old) declared existing"
      using w(3) granted by (auto simp: putGrantState_def split: widget_content.splits if_splits)
    then obtain e where e: "existing = Some e" "bw_grantState e = Granted" "boardDeclarationIsSubset declared (bw_declared e)"
      by (auto simp: preservesGrant_def split: option.splits)
    obtain d0 a where d0: "?old = Some d0" "a \<in> A" "approves s e d0 a"
      using old [OF e(1)] e(2) by (auto simp: documented_def split: if_splits)
    have "sourceOf d = sourceOf d0" using kept_grant_source [OF _ Some, of d0] kept d0(1) e(1) by simp
    moreover have "boardDeclarationIsSubset (bw_declared w) (ap_declared a)"
      using w(2) e(3) d0(3) declaration_subset_trans by (auto simp: approves_def)
    ultimately show ?thesis using d0(2,3) old [OF e(1)] by (auto simp: approves_def)
  qed
  then show ?thesis
    using docs' [OF Some] document_of_put [OF Some] w(1) document_None_iff [of env content r "bw_grantState w" declared' inst] Some
    by (auto simp: documented_def)
qed

lemma putDocuments_other:
  "k \<noteq> pp_name params \<Longrightarrow> map_of (putDocuments env params snap declared inst docs) k = map_of docs k"
  by (auto simp: putDocuments_def Let_def update_conv' delete_conv' split: option.split)

lemma putDocuments_this:
  assumes "distinct (map bw_name (bl_widgets (bs_layout snap)))" "w \<in> set (bl_widgets (bs_layout snap))" "bw_name w = pp_name params"
    and "createBoardWidgetDocument env (pp_content params) (bw_revision w) (bw_grantState w) declared inst = Some d"
  shows "map_of (putDocuments env params snap declared inst docs) (bw_name w) = Some d"
  using find_distinct [OF assms(1,2)] assms(3,4) by (simp add: putDocuments_def update_conv')

lemma put_board_ok:
  fixes params :: "'p put_params"
  assumes "board_ok A s (bs_layout prior) docs"
    and put: "createBoardWidgetPutSnapshot env prior params'
      (grantScopeMatches (map_of docs (pp_name params)) (pp_content params)) (grantedSha (map_of docs (pp_name params))) inst = Inr snap"
    and params': "pp_name params' = pp_name params" "pp_content params' = pp_content params"
  shows "board_ok A s (bs_layout snap) (putDocuments env params snap declared inst docs)"
proof -
  define n where "n = pp_name params"
  let ?l = "bs_layout snap" and ?start = "bl_widgets (putLayout prior)" and ?docs = "putDocuments env params snap declared inst docs"
  have ok: "consistent (bs_layout prior)" "\<And>w. w \<in> set (bl_widgets (bs_layout prior)) \<Longrightarrow> documented A s docs w"
    using assms(1) by (auto simp: board_ok_def)
  have start: "documented A s docs y" if y: "y \<in> set ?start" for y
    using putLayout_views [OF y] ok(2) documented_view [of _ y A s docs] by auto
  obtain decl where l: "consistent ?l"
    and others: "\<forall>x \<in> set (bl_widgets ?l). bw_name x \<noteq> n \<longrightarrow> (\<exists>y \<in> set ?start. grantView y = grantView x)"
    and new: "\<forall>x \<in> set (bl_widgets ?l). bw_name x = n \<longrightarrow>
       bw_contentKind x = contentKindOf (pp_content params) \<and> bw_declared x \<in> {None, decl} \<and>
       bw_grantState x = putGrantState (pp_content params)
         (preservesGrant env (pp_content params) (grantScopeMatches (map_of docs n) (pp_content params)) (grantedSha (map_of docs n)) decl
            (find (\<lambda>w. bw_name w = n) ?start)) (createBoardDeclaredSummary decl)"
    using putSnapshot_views [OF put ok(1), unfolded params', folded n_def] by (elim exE conjE) (rule that)
  have "documented A s ?docs w" if w: "w \<in> set (bl_widgets ?l)" for w
  proof (cases "bw_name w = n")
    case True
    show ?thesis
    proof (rule put_documented)
      show "bw_name e = bw_name w \<and> documented A s docs e" if "find (\<lambda>w. bw_name w = n) ?start = Some e" for e
        using that True start by (auto simp: find_Some_iff)
      show "map_of ?docs (bw_name w) = Some d"
        if "createBoardWidgetDocument env (pp_content params) (bw_revision w) (bw_grantState w) declared inst = Some d" for d
        using putDocuments_this [OF _ w _ that] l True by (simp add: consistent_def n_def)
    qed (use new w True in auto)
  next
    case False
    then obtain y where "y \<in> set ?start" "grantView y = grantView w" using others w by blast
    then show ?thesis
      using start documented_view [of y w A s docs] documented_docs [of ?docs w docs A s] putDocuments_other False
      unfolding n_def by blast
  qed
  then show ?thesis using l by (simp add: board_ok_def)
qed

lemma putWidget_ok:
  assumes "store_ok A store" "putWidget env store params inst = Inr (store', snap)"
  shows "store_ok A store'"
proof -
  define s where "s = pp_sessionKey params"
  have ok: "board_ok A s (bs_layout (snapshotOf store s)) (documentsOf store s)" using assms(1) by (simp add: store_ok_def)
  show ?thesis
    using assms(2) put_board_ok [OF ok] store_ok_update [OF assms(1)]
    by (auto simp: putWidget_def Let_def s_def split: sum.splits)
qed

subsection \<open>Granting\<close>

lemma grantSnapshot_Inr:
  assumes "createBoardGrantSnapshot current n decision r inst = Inr snap"
  obtains k where "firstIndex (\<lambda>w. bw_name w = n) (bl_widgets (bs_layout current)) = Some k"
    "bw_grantState (bl_widgets (bs_layout current) ! k) = GrantPending"
    "bs_layout snap = (bs_layout current)\<lparr>bl_widgets := (bl_widgets (bs_layout current))[k :=
       (bl_widgets (bs_layout current) ! k)\<lparr>bw_grantState := decision\<rparr>]\<rparr>"
  using assms by (auto simp: createBoardGrantSnapshot_def Let_def split: option.splits if_splits)

lemma setDocumentGrant_facts [simp]:
  "documentKind (setDocumentGrant g d) = documentKind d" "documentGrant (setDocumentGrant g d) = g"
  "sourceOf (setDocumentGrant g d) = sourceOf d"
  by (cases d; simp)+

lemma declaration_subset_refl [simp]: "boardDeclarationIsSubset d d"
  by (simp add: boardDeclarationIsSubset_def list_all_iff)

lemma grant_board_ok:
  assumes "board_ok A s (bs_layout current) docs" "createBoardGrantSnapshot current n decision r inst = Inr snap"
    and approval: "\<And>w d. find (\<lambda>w. bw_name w = n) (bl_widgets (bs_layout current)) = Some w \<Longrightarrow> map_of docs n = Some d \<Longrightarrow>
      decision = Granted \<Longrightarrow> \<lparr>ap_session = s, ap_name = n, ap_declared = bw_declared w, ap_source = sourceOf d\<rparr> \<in> A"
  defines "docs' \<equiv> (case map_of docs n of None \<Rightarrow> docs | Some d \<Rightarrow> AList.update n (setDocumentGrant decision d) docs)"
  shows "board_ok A s (bs_layout snap) docs'"
proof -
  let ?ws = "bl_widgets (bs_layout current)"
  obtain k where idx: "firstIndex (\<lambda>w. bw_name w = n) ?ws = Some k" and pending: "bw_grantState (?ws ! k) = GrantPending"
    and snap: "bs_layout snap = (bs_layout current)\<lparr>bl_widgets := ?ws[k := (?ws ! k)\<lparr>bw_grantState := decision\<rparr>]\<rparr>"
    using grantSnapshot_Inr [OF assms(2)] by blast
  have k: "k < length ?ws" "bw_name (?ws ! k) = n" using firstIndex_Some [OF idx] by simp_all
  have ok: "consistent (bs_layout current)" "\<And>w. w \<in> set ?ws \<Longrightarrow> documented A s docs w" using assms(1) by (auto simp: board_ok_def)
  have "map bw_name (bl_widgets (bs_layout snap)) = map bw_name ?ws" "map bw_tabId (bl_widgets (bs_layout snap)) = map bw_tabId ?ws"
    "bl_tabs (bs_layout snap) = bl_tabs (bs_layout current)"
    using k by (auto simp: snap map_update list_update_same_conv)
  then have "consistent (bs_layout snap)" using ok(1) unfolding consistent_def by metis
  moreover have "documented A s docs' ((?ws ! k)\<lparr>bw_grantState := decision\<rparr>)"
  proof -
    obtain d where d: "map_of docs n = Some d" "bw_contentKind (?ws ! k) \<noteq> CkPlugin" "documentKind d = bw_contentKind (?ws ! k)"
      using ok(2) [OF nth_mem [OF k(1)]] k(2) pending by (auto simp: documented_def split: if_splits)
    then show ?thesis
      using approval [of "?ws ! k" d] k(2) idx
      by (auto simp: documented_def docs'_def update_conv' find_firstIndex approves_def intro!: bexI)
  qed
  moreover have "documented A s docs' w" if w: "w \<in> set (allExcept k ?ws)" for w
  proof -
    have "bw_name w \<noteq> n" "w \<in> set ?ws" using names_except [OF _ idx w] ok(1) by (simp_all add: consistent_def)
    then show ?thesis using ok(2) [of w] documented_docs [of docs' w docs A s]
      by (auto simp: docs'_def update_conv' split: option.splits)
  qed
  moreover have "set (bl_widgets (bs_layout snap)) \<subseteq> insert ((?ws ! k)\<lparr>bw_grantState := decision\<rparr>) (set (allExcept k ?ws))"
    using arg_cong [OF mset_allExcept [of k "bl_widgets (bs_layout snap)"], of set_mset] k
    by (auto simp: snap allExcept_eq)
  ultimately show ?thesis by (auto simp: board_ok_def)
qed

lemma grantWidget_ok:
  assumes "store_ok A store" "grantWidget store s n decision r inst = Inr (store', snap)"
    and "set (approvalsBy (GrantCall s n decision r inst) store) \<subseteq> A"
  shows "store_ok A store'"
proof -
  obtain current where current: "map_of store s = Some current"
    and grant: "createBoardGrantSnapshot (sb_snapshot current) n decision r inst = Inr snap"
    and store': "store' = AList.update s \<lparr>sb_snapshot = snap, sb_documents = (case map_of (sb_documents current) n of
        None \<Rightarrow> sb_documents current | Some d \<Rightarrow> AList.update n (setDocumentGrant decision d) (sb_documents current))\<rparr> store"
    using assms(2) by (auto simp: grantWidget_def Let_def split: option.splits sum.splits)
  have here: "snapshotOf store s = sb_snapshot current" "documentsOf store s = sb_documents current"
    using current by (simp_all add: snapshotOf_def documentsOf_def)
  have ok: "board_ok A s (bs_layout (sb_snapshot current)) (sb_documents current)"
    using assms(1) here by (metis store_ok_def)
  show ?thesis unfolding store'
    using assms(2,3) here by (intro store_ok_update [OF assms(1)]) (auto intro!: grant_board_ok [OF ok grant])
qed

lemma boardCall_ok:
  assumes "store_ok A store" "set (approvalsBy c store) \<subseteq> A"
  shows "store_ok A (boardCall env c store)"
  using assms applyOps_ok putWidget_ok grantWidget_ok
  by (cases c) (auto simp: storeAfter_def simp del: approvalsBy.simps split: sum.split)

lemma runBoardCalls_ok:
  assumes "store_ok (set approvals) store" "runBoardCalls env cs (store, approvals) = (store', approvals')"
  shows "store_ok (set approvals') store'"
  using assms
proof (induction cs arbitrary: store approvals)
  case (Cons c cs)
  have "store_ok (set (approvals @ approvalsBy c store)) store"
    using store_ok_mono [OF Cons.prems(1)] by simp
  then have "store_ok (set (approvals @ approvalsBy c store)) (boardCall env c store)"
    by (rule boardCall_ok) simp
  then show ?case using Cons.IH [of "approvals @ approvalsBy c store"] Cons.prems(2) by simp
qed simp

subsection \<open>Properties\<close>

text \<open>
  C31. Grants do not grow. After every sequence of layout operations, puts and decisions on an empty store,
  whether they succeed or fail, a widget whose state is granted has a document, and some earlier decision granted
  this widget of this session: what the widget declares now is contained in what it declared then, and its
  document has the same bytes (its digest is the same) or comes from the same server as the one that was granted.
  Replacing the content, widening the declaration, or removing and putting a widget again never inherits a grant.
\<close>

theorem granted_widgets_were_approved:
  assumes "runBoardCalls env cs ([], []) = (store, approvals)"
    and "w \<in> set (bl_widgets (bs_layout (getSnapshot store s)))" "bw_grantState w = Granted"
  shows "\<exists>d a. map_of (documentsOf store s) (bw_name w) = Some d \<and> a \<in> set approvals \<and> ap_session a = s \<and>
    ap_name a = bw_name w \<and> boardDeclarationIsSubset (bw_declared w) (ap_declared a) \<and> ap_source a = sourceOf d"
proof -
  have "store_ok (set approvals) store"
    by (rule runBoardCalls_ok [OF store_ok_empty assms(1)])
  then have "documented (set approvals) s (documentsOf store s) w"
    using assms(2) by (simp add: store_ok_def board_ok_def getSnapshot_def)
  then show ?thesis using assms(3) by (auto simp: documented_def approves_def split: if_splits)
qed

definition sampleEnv :: "string board_env" where
  "sampleEnv = \<lparr>be_parseUrl = (\<lambda>_. None), be_sha256 = (\<lambda>html. html), be_propsBytes = (\<lambda>_. 2)\<rparr>"

definition samplePut :: "string widget_content \<Rightarrow> string list \<Rightarrow> string put_params" where
  "samplePut content tools =
     \<lparr>pp_sessionKey = ''s'', pp_name = ''card'', pp_title = None, pp_content = content, pp_presentation = None,
      pp_heightMode = None, pp_placement = None,
      pp_declared = (if tools = [] then None else Some \<lparr>wd_netOrigins = None, wd_tools = Some tools\<rparr>)\<rparr>"

definition sampleCalls :: "string board_call list" where
  "sampleCalls =
     [PutCall (samplePut (HtmlContent ''<p>'') [''search'', ''read'']) ''i1'',
      GrantCall ''s'' ''card'' Granted 1 (Some ''i1''),
      PutCall (samplePut (HtmlContent ''<p>'') [''read'']) ''i2'']"

theorem granted_widgets_were_approved_witness:
  "\<exists>w a. bl_widgets (bs_layout (getSnapshot (fst (runBoardCalls sampleEnv sampleCalls ([], []))) ''s'')) = [w] \<and>
     bw_grantState w = Granted \<and> bw_revision w = 2 \<and> a \<in> set (snd (runBoardCalls sampleEnv sampleCalls ([], []))) \<and>
     boardDeclarationIsSubset (bw_declared w) (ap_declared a)"
proof -
  let ?r = "runBoardCalls sampleEnv sampleCalls ([], [])"
  have "map (\<lambda>w. (bw_grantState w, bw_revision w)) (bl_widgets (bs_layout (getSnapshot (fst ?r) ''s''))) = [(Granted, 2)]"
    by code_simp
  then obtain w where w: "bl_widgets (bs_layout (getSnapshot (fst ?r) ''s'')) = [w]" "bw_grantState w = Granted" "bw_revision w = 2"
    by auto
  then show ?thesis
    using granted_widgets_were_approved [of sampleEnv sampleCalls "fst ?r" "snd ?r" w "''s''"] by auto
qed

text \<open>A put keeps optional properties that its content does not have: an HTML document in the place of a plugin
  widget still carries the plugin's kind and properties.\<close>

lemma html_widget_keeps_plugin_kind:
  "map (\<lambda>w. (bw_contentKind w, bw_pluginKind w, bw_props w))
     (bl_widgets (bs_layout (getSnapshot (fst (runBoardCalls sampleEnv
       [PutCall (samplePut (PluginContent ''work:card'' (Some ''props'')) []) ''i1'',
        PutCall (samplePut (HtmlContent ''<p>'') []) ''i2''] ([], []))) ''s''))) =
   [(CkHtml, Some ''work:card'', Some ''props'')]"
  by code_simp

end
