(* ===== verification/Safe_Bins.thy ===== *)
theory Safe_Bins
  imports Normalization "HOL-Library.AList"
begin

text \<open>
  Automatic approval of simple commands: \<open>src/infra/exec-safe-bin-policy-profiles.ts\<close>,
  \<open>exec-safe-bin-policy-validator.ts\<close>, \<open>exec-safe-bin-semantics.ts\<close>, the argv tokens of
  \<open>exec-command-resolution.ts\<close> and \<open>isSafeBinUsage\<close> of \<open>exec-approvals-allowlist.ts\<close>, with the
  policy resolution of \<open>exec-safe-bin-runtime-policy.ts\<close>. A command runs without approval when its executable
  is a configured safe bin in a trusted directory and its arguments fit the profile of the bin: only known flags,
  resolved the way GNU tools resolve abbreviations, only literal values, and a bounded number of operands.

  The file system appears as the functions of an environment record, \<open>localeCompare\<close> as a parameter. A
  \<open>Set\<close> is the list of its elements in insertion order, a \<open>Map\<close> or an object an association list.
\<close>

subsection \<open>Profiles\<close>

record safe_bin_profile =
  sp_minPositional :: "int option"
  sp_maxPositional :: "int option"
  sp_allowedValueFlags :: "string list option"
  sp_allowedBooleanFlags :: "string list option"
  sp_deniedFlags :: "string list option"
  sp_knownLongFlags :: "string list option"
  sp_knownLongFlagsSet :: "string list option"
  sp_longFlagPrefixMap :: "(string \<times> string option) list option"

record safe_bin_fixture =
  fx_minPositional :: "int option"
  fx_maxPositional :: "int option"
  fx_allowedValueFlags :: "string list option"
  fx_allowedBooleanFlags :: "string list option"
  fx_deniedFlags :: "string list option"

definition DEFAULT_SAFE_BINS :: "string list" where
  "DEFAULT_SAFE_BINS = [''cut'', ''uniq'', ''head'', ''tail'', ''tr'', ''wc'']"

definition toFlagSet :: "string list option \<Rightarrow> string list" where
  "toFlagSet flags = (case flags of None \<Rightarrow> [] | Some fs \<Rightarrow> js_set_of fs)"

definition collectKnownLongFlags :: "string list \<Rightarrow> string list \<Rightarrow> string list \<Rightarrow> string list" where
  "collectKnownLongFlags allowedValueFlags deniedFlags allowedBooleanFlags =
     (let long = (\<lambda>known flags. foldl js_set_add known (filter (\<lambda>flag. js_startsWith flag ''--'') flags))
      in long (long (long [] allowedValueFlags) allowedBooleanFlags) deniedFlags)"

definition addPrefix ::
  "string \<Rightarrow> (string \<times> string option) list \<Rightarrow> nat \<Rightarrow> (string \<times> string option) list" where
  "addPrefix flag prefixMap len =
     (let prefix = take len flag
      in case map_of prefixMap prefix of
           None \<Rightarrow> AList.update prefix (Some flag) prefixMap
         | Some existing \<Rightarrow> if existing \<noteq> Some flag then AList.update prefix None prefixMap else prefixMap)"

definition addFlagPrefixes :: "(string \<times> string option) list \<Rightarrow> string \<Rightarrow> (string \<times> string option) list" where
  "addFlagPrefixes prefixMap flag =
     (if \<not> js_startsWith flag ''--'' \<or> length flag \<le> 2 then prefixMap
      else foldl (addPrefix flag) prefixMap [3..<Suc (length flag)])"

definition buildLongFlagPrefixMap :: "string list \<Rightarrow> (string \<times> string option) list" where
  "buildLongFlagPrefixMap knownLongFlags = foldl addFlagPrefixes [] knownLongFlags"

definition compileSafeBinProfile :: "safe_bin_fixture \<Rightarrow> safe_bin_profile" where
  "compileSafeBinProfile fixture =
     (let allowedValueFlags = toFlagSet (fx_allowedValueFlags fixture);
          allowedBooleanFlags = toFlagSet (fx_allowedBooleanFlags fixture);
          deniedFlags = toFlagSet (fx_deniedFlags fixture);
          knownLongFlags = collectKnownLongFlags allowedValueFlags deniedFlags allowedBooleanFlags
      in \<lparr>sp_minPositional = fx_minPositional fixture, sp_maxPositional = fx_maxPositional fixture,
          sp_allowedValueFlags = Some allowedValueFlags, sp_allowedBooleanFlags = Some allowedBooleanFlags,
          sp_deniedFlags = Some deniedFlags, sp_knownLongFlags = Some knownLongFlags,
          sp_knownLongFlagsSet = Some (js_set_of knownLongFlags),
          sp_longFlagPrefixMap = Some (buildLongFlagPrefixMap knownLongFlags)\<rparr>)"

definition compileSafeBinProfiles ::
  "(string \<times> safe_bin_fixture) list \<Rightarrow> (string \<times> safe_bin_profile) list" where
  "compileSafeBinProfiles fixtures = map (\<lambda>(name, fixture). (name, compileSafeBinProfile fixture)) fixtures"

text \<open>The built-in profiles.\<close>

definition jqFixture :: safe_bin_fixture where
  "jqFixture = \<lparr>fx_minPositional = None, fx_maxPositional = Some 1, fx_allowedValueFlags = Some
     [''--arg'', ''--argjson'', ''--argstr''], fx_allowedBooleanFlags = None, fx_deniedFlags = Some
     [''--argfile'', ''--rawfile'', ''--slurpfile'', ''--from-file'', ''--library-path'', ''-L'',
     ''-f'']\<rparr>"

definition grepFixture :: safe_bin_fixture where
  "grepFixture = \<lparr>fx_minPositional = None, fx_maxPositional = Some 0, fx_allowedValueFlags = Some
     [''--regexp'', ''--max-count'', ''--after-context'', ''--before-context'', ''--context'',
     ''--devices'', ''--binary-files'', ''--exclude'', ''--include'', ''--label'', ''-e'', ''-m'',
     ''-A'', ''-B'', ''-C'', ''-D''], fx_allowedBooleanFlags = None, fx_deniedFlags = Some [''--file'',
     ''--exclude-from'', ''--dereference-recursive'', ''--directories'', ''--recursive'', ''-f'', ''-d'',
     ''-r'', ''-R'']\<rparr>"

definition cutFixture :: safe_bin_fixture where
  "cutFixture = \<lparr>fx_minPositional = None, fx_maxPositional = Some 0, fx_allowedValueFlags = Some
     [''--bytes'', ''--characters'', ''--fields'', ''--delimiter'', ''--output-delimiter'', ''-b'',
     ''-c'', ''-f'', ''-d''], fx_allowedBooleanFlags = Some [''--complement'', ''--only-delimited'',
     ''--zero-terminated'', ''-n'', ''-s'', ''-z''], fx_deniedFlags = None\<rparr>"

definition sortFixture :: safe_bin_fixture where
  "sortFixture = \<lparr>fx_minPositional = None, fx_maxPositional = Some 0, fx_allowedValueFlags = Some
     [''--key'', ''--field-separator'', ''--buffer-size'', ''--parallel'', ''--batch-size'', ''-k'',
     ''-t'', ''-S''], fx_allowedBooleanFlags = None, fx_deniedFlags = Some [''--compress-program'',
     ''--files0-from'', ''--output'', ''--random-source'', ''--temporary-directory'', ''-T'',
     ''-o'']\<rparr>"

definition uniqFixture :: safe_bin_fixture where
  "uniqFixture = \<lparr>fx_minPositional = None, fx_maxPositional = Some 0, fx_allowedValueFlags = Some
     [''--skip-fields'', ''--skip-chars'', ''--check-chars'', ''--group'', ''-f'', ''-s'', ''-w''],
     fx_allowedBooleanFlags = Some [''--count'', ''--repeated'', ''--unique'', ''--ignore-case'',
     ''--zero-terminated'', ''-c'', ''-d'', ''-u'', ''-i'', ''-z''], fx_deniedFlags = None\<rparr>"

definition headFixture :: safe_bin_fixture where
  "headFixture = \<lparr>fx_minPositional = None, fx_maxPositional = Some 0, fx_allowedValueFlags = Some
     [''--lines'', ''--bytes'', ''-n'', ''-c''], fx_allowedBooleanFlags = Some [''--quiet'',
     ''--silent'', ''--verbose'', ''--zero-terminated'', ''-q'', ''-v'', ''-z''], fx_deniedFlags =
     None\<rparr>"

definition tailFixture :: safe_bin_fixture where
  "tailFixture = \<lparr>fx_minPositional = None, fx_maxPositional = Some 0, fx_allowedValueFlags = Some
     [''--lines'', ''--bytes'', ''--sleep-interval'', ''--max-unchanged-stats'', ''--pid'', ''-n'',
     ''-c''], fx_allowedBooleanFlags = Some [''--quiet'', ''--silent'', ''--verbose'',
     ''--zero-terminated'', ''-q'', ''-v'', ''-z''], fx_deniedFlags = Some [''--follow'', ''--retry'',
     ''-F'', ''-f'']\<rparr>"

definition trFixture :: safe_bin_fixture where
  "trFixture = \<lparr>fx_minPositional = Some 1, fx_maxPositional = Some 2, fx_allowedValueFlags = None,
     fx_allowedBooleanFlags = Some [''--complement'', ''--delete'', ''--squeeze-repeats'',
     ''--truncate-set1'', ''-C'', ''-c'', ''-d'', ''-s'', ''-t''], fx_deniedFlags = None\<rparr>"

definition wcFixture :: safe_bin_fixture where
  "wcFixture = \<lparr>fx_minPositional = None, fx_maxPositional = Some 0, fx_allowedValueFlags = None,
     fx_allowedBooleanFlags = Some [''--bytes'', ''--chars'', ''--lines'', ''--max-line-length'',
     ''--words'', ''-L'', ''-c'', ''-l'', ''-m'', ''-w''], fx_deniedFlags = Some
     [''--files0-from'']\<rparr>"

definition SAFE_BIN_PROFILE_FIXTURES :: "(string \<times> safe_bin_fixture) list" where
  "SAFE_BIN_PROFILE_FIXTURES =
     [(''jq'', jqFixture),
      (''grep'', grepFixture),
      (''cut'', cutFixture),
      (''sort'', sortFixture),
      (''uniq'', uniqFixture),
      (''head'', headFixture),
      (''tail'', tailFixture),
      (''tr'', trFixture),
      (''wc'', wcFixture)]"

definition SAFE_BIN_PROFILES :: "(string \<times> safe_bin_profile) list" where
  "SAFE_BIN_PROFILES = compileSafeBinProfiles SAFE_BIN_PROFILE_FIXTURES"

subsection \<open>Configured profiles\<close>

definition normalizeSafeBinProfileName :: "string \<Rightarrow> string option" where
  "normalizeSafeBinProfileName raw =
     (let name = normalizeLowercaseStringOrEmpty (JStr raw) in if name \<noteq> [] then Some name else None)"

definition normalizeFixtureLimit :: "int option \<Rightarrow> int option" where
  "normalizeFixtureLimit raw = (case raw of None \<Rightarrow> None | Some n \<Rightarrow> if 0 \<le> n then Some n else None)"

definition normalizeFixtureFlags :: "(string \<Rightarrow> string \<Rightarrow> int) \<Rightarrow> string list option \<Rightarrow> string list option" where
  "normalizeFixtureFlags loc flags =
     (case flags of
        None \<Rightarrow> None
      | Some fs \<Rightarrow>
          if fs = [] then None
          else
            let normalized = js_toSorted loc (js_set_of (filter (\<lambda>flag. flag \<noteq> []) (map js_trim fs)))
            in if normalized \<noteq> [] then Some normalized else None)"

definition normalizeSafeBinProfileFixture ::
  "(string \<Rightarrow> string \<Rightarrow> int) \<Rightarrow> safe_bin_fixture \<Rightarrow> safe_bin_fixture" where
  "normalizeSafeBinProfileFixture loc fixture =
     (let minPositional = normalizeFixtureLimit (fx_minPositional fixture);
          maxPositionalRaw = normalizeFixtureLimit (fx_maxPositional fixture);
          maxPositional = (case (minPositional, maxPositionalRaw) of
                             (Some lo, Some hi) \<Rightarrow> if hi < lo then minPositional else maxPositionalRaw
                           | _ \<Rightarrow> maxPositionalRaw)
      in \<lparr>fx_minPositional = minPositional, fx_maxPositional = maxPositional,
          fx_allowedValueFlags = normalizeFixtureFlags loc (fx_allowedValueFlags fixture),
          fx_allowedBooleanFlags = None,
          fx_deniedFlags = normalizeFixtureFlags loc (fx_deniedFlags fixture)\<rparr>)"

text \<open>Assigning the property \<open>__proto__\<close> of an object literal adds no own property.\<close>

definition addNormalizedFixture ::
  "(string \<Rightarrow> string \<Rightarrow> int) \<Rightarrow> (string \<times> safe_bin_fixture) list \<Rightarrow> string \<times> safe_bin_fixture \<Rightarrow>
   (string \<times> safe_bin_fixture) list" where
  "addNormalizedFixture loc normalized = (\<lambda>(rawName, fixture).
     case normalizeSafeBinProfileName rawName of
       None \<Rightarrow> normalized
     | Some name \<Rightarrow>
         if name = ''__proto__'' then normalized
         else AList.update name (normalizeSafeBinProfileFixture loc fixture) normalized)"

definition normalizeSafeBinProfileFixtures ::
  "(string \<Rightarrow> string \<Rightarrow> int) \<Rightarrow> (string \<times> safe_bin_fixture) list option \<Rightarrow> (string \<times> safe_bin_fixture) list" where
  "normalizeSafeBinProfileFixtures loc fixtures =
     (case fixtures of None \<Rightarrow> [] | Some fs \<Rightarrow> foldl (addNormalizedFixture loc) [] fs)"

text \<open>\<open>{...base, ...overrides}\<close>\<close>

definition spread :: "(string \<times> 'a) list \<Rightarrow> (string \<times> 'a) list \<Rightarrow> (string \<times> 'a) list" where
  "spread base overrides = foldl (\<lambda>m (k, v). AList.update k v m) base overrides"

definition resolveSafeBinProfiles ::
  "(string \<Rightarrow> string \<Rightarrow> int) \<Rightarrow> (string \<times> safe_bin_fixture) list option \<Rightarrow> (string \<times> safe_bin_profile) list" where
  "resolveSafeBinProfiles loc fixtures =
     (let normalizedFixtures = normalizeSafeBinProfileFixtures loc fixtures
      in if normalizedFixtures = [] then SAFE_BIN_PROFILES
         else spread SAFE_BIN_PROFILES (compileSafeBinProfiles normalizedFixtures))"

subsection \<open>Argument tokens\<close>

datatype argv_token =
    TokenEmpty
  | TokenTerminator
  | TokenStdin
  | TokenPositional string
  | TokenLong string "string option"
  | TokenShort string "string list"

definition parseExecArgvToken :: "string \<Rightarrow> argv_token" where
  "parseExecArgvToken raw =
     (if raw = [] then TokenEmpty
      else if raw = ''--'' then TokenTerminator
      else if raw = ''-'' then TokenStdin
      else if \<not> js_startsWith raw ''-'' then TokenPositional raw
      else if js_startsWith raw ''--'' then
        (if CHR ''='' \<in> set raw
         then TokenLong (takeWhile (\<lambda>c. c \<noteq> CHR ''='') raw) (Some (tl (dropWhile (\<lambda>c. c \<noteq> CHR ''='') raw)))
         else TokenLong raw None)
      else TokenShort (tl raw) (map (\<lambda>c. [CHR ''-'', c]) (tl raw)))"

definition asciiLetter :: "char \<Rightarrow> bool" where
  "asciiLetter c \<longleftrightarrow> (let n = (of_char c :: nat) in (65 \<le> n \<and> n \<le> 90) \<or> (97 \<le> n \<and> n \<le> 122))"

definition asciiDigit :: "char \<Rightarrow> bool" where
  "asciiDigit c \<longleftrightarrow> (let n = (of_char c :: nat) in 48 \<le> n \<and> n \<le> 57)"

definition isSeparator :: "char \<Rightarrow> bool" where
  "isSeparator c \<longleftrightarrow> c = CHR ''/'' \<or> c = CHR 0x5C"

definition isPathLikeToken :: "string \<Rightarrow> bool" where
  "isPathLikeToken value =
     (let trimmed = js_trim value
      in if trimmed = [] then False
         else if trimmed = ''-'' then False
         else if js_startsWith trimmed ''./'' \<or> js_startsWith trimmed ''../'' \<or> js_startsWith trimmed ''~'' then True
         else if js_startsWith trimmed ''/'' then True
         else (case trimmed of c # d # e # _ \<Rightarrow> asciiLetter c \<and> d = CHR '':'' \<and> isSeparator e | _ \<Rightarrow> False))"

definition hasGlobToken :: "string \<Rightarrow> bool" where
  "hasGlobToken value \<longleftrightarrow> (\<exists>c\<in>set value. c \<in> set ''*?[]'')"

fun hasShellExpansionToken :: "string \<Rightarrow> bool" where
  "hasShellExpansionToken (c # d # s) =
     (c = CHR ''$'' \<and> (asciiLetter d \<or> asciiDigit d \<or> d \<in> set ''_@*?!$#-{(['') \<or> hasShellExpansionToken (d # s))"
| "hasShellExpansionToken _ = False"

definition isSafeLiteralToken :: "string \<Rightarrow> bool" where
  "isSafeLiteralToken value =
     (if value = [] \<or> value = ''-'' then True
      else \<not> hasGlobToken value \<and> \<not> hasShellExpansionToken value \<and> \<not> isPathLikeToken value)"

definition isInvalidValueToken :: "string option \<Rightarrow> bool" where
  "isInvalidValueToken value = (case value of None \<Rightarrow> True | Some v \<Rightarrow> v = [] \<or> \<not> isSafeLiteralToken v)"

definition argAt :: "string list \<Rightarrow> nat \<Rightarrow> string option" where
  "argAt args i = (if i < length args then Some (args ! i) else None)"

subsection \<open>The validator\<close>

definition resolveCanonicalLongFlag ::
  "string \<Rightarrow> string list \<Rightarrow> (string \<times> string option) list \<Rightarrow> string option" where
  "resolveCanonicalLongFlag flag knownLongFlagsSet longFlagPrefixMap =
     (if \<not> js_startsWith flag ''--'' \<or> length flag \<le> 2 then None
      else if flag \<in> set knownLongFlagsSet then Some flag
      else nullish (map_of longFlagPrefixMap flag) None)"

text \<open>The flag tables of a profile that the loop works with.\<close>

record flag_tables =
  ft_value :: "string list"
  ft_boolean :: "string list"
  ft_denied :: "string list"
  ft_known :: "string list"
  ft_prefixes :: "(string \<times> string option) list"

definition consumeLongOptionToken ::
  "string list \<Rightarrow> nat \<Rightarrow> string \<Rightarrow> string option \<Rightarrow> flag_tables \<Rightarrow> nat option" where
  "consumeLongOptionToken args index flag inlineValue ft =
     (case resolveCanonicalLongFlag flag (ft_known ft) (ft_prefixes ft) of
        None \<Rightarrow> None
      | Some canonicalFlag \<Rightarrow>
          if canonicalFlag \<in> set (ft_denied ft) then None
          else
            let expectsValue = canonicalFlag \<in> set (ft_value ft)
            in case inlineValue of
                 Some v \<Rightarrow>
                   if \<not> expectsValue then None
                   else if isSafeLiteralToken v then Some (index + 1) else None
               | None \<Rightarrow>
                   if \<not> expectsValue then Some (index + 1)
                   else if isInvalidValueToken (argAt args (index + 1)) then None else Some (index + 2))"

text \<open>The loop over the flags of a cluster; the second list is what follows the flag in the cluster.\<close>

fun consumeCluster ::
  "string list \<Rightarrow> nat \<Rightarrow> flag_tables \<Rightarrow> string list \<Rightarrow> string \<Rightarrow> nat option" where
  "consumeCluster args index ft [] cluster = Some (index + 1)"
| "consumeCluster args index ft (flag # flags) cluster =
     (if flag \<in> set (ft_denied ft) then None
      else if flag \<in> set (ft_value ft) then
        (let inlineValue = tl cluster
         in if inlineValue \<noteq> [] then (if isSafeLiteralToken inlineValue then Some (index + 1) else None)
            else if isInvalidValueToken (argAt args (index + 1)) then None else Some (index + 2))
      else if flag \<in> set (ft_boolean ft) then consumeCluster args index ft flags (tl cluster)
      else None)"

definition consumeShortOptionClusterToken ::
  "string list \<Rightarrow> nat \<Rightarrow> string \<Rightarrow> string list \<Rightarrow> flag_tables \<Rightarrow> nat option" where
  "consumeShortOptionClusterToken args index cluster flags ft = consumeCluster args index ft flags cluster"

definition consumePositionalToken :: "string \<Rightarrow> string list \<Rightarrow> string list option" where
  "consumePositionalToken token positional =
     (if \<not> isSafeLiteralToken token then None else Some (positional @ [token]))"

definition validatePositionalCount :: "string list \<Rightarrow> safe_bin_profile \<Rightarrow> bool" where
  "validatePositionalCount positional profile =
     (if int (length positional) < nullish (sp_minPositional profile) 0 then False
      else case sp_maxPositional profile of
             Some hi \<Rightarrow> \<not> hi < int (length positional)
           | None \<Rightarrow> True)"

definition flagTables :: "safe_bin_profile \<Rightarrow> flag_tables" where
  "flagTables profile =
     (let allowedValueFlags = nullish (sp_allowedValueFlags profile) [];
          allowedBooleanFlags = nullish (sp_allowedBooleanFlags profile) [];
          deniedFlags = nullish (sp_deniedFlags profile) [];
          knownLongFlags = nullish (sp_knownLongFlags profile)
            (collectKnownLongFlags allowedValueFlags deniedFlags allowedBooleanFlags)
      in \<lparr>ft_value = allowedValueFlags, ft_boolean = allowedBooleanFlags, ft_denied = deniedFlags,
          ft_known = nullish (sp_knownLongFlagsSet profile) (js_set_of knownLongFlags),
          ft_prefixes = nullish (sp_longFlagPrefixMap profile) (buildLongFlagPrefixMap knownLongFlags)\<rparr>)"

fun afterTerminator :: "string list \<Rightarrow> string list \<Rightarrow> string list option" where
  "afterTerminator [] positional = Some positional"
| "afterTerminator (rest # args) positional =
     (if rest = [] \<or> rest = ''-'' then afterTerminator args positional
      else case consumePositionalToken rest positional of
             None \<Rightarrow> None
           | Some positional' \<Rightarrow> afterTerminator args positional')"

lemma consume_advances:
  "consumeLongOptionToken args i flag v ft = Some j \<Longrightarrow> i < j"
  "consumeCluster args i ft flags cluster = Some j \<Longrightarrow> i < j"
  by (auto simp: consumeLongOptionToken_def Let_def split: option.splits if_splits)
    (induction flags arbitrary: cluster, auto simp: Let_def split: if_splits)

function collectLoop :: "string list \<Rightarrow> flag_tables \<Rightarrow> nat \<Rightarrow> string list \<Rightarrow> string list option" where
  "collectLoop args ft i positional =
     (if i < length args then
        (case parseExecArgvToken (args ! i) of
           TokenEmpty \<Rightarrow> collectLoop args ft (i + 1) positional
         | TokenStdin \<Rightarrow> collectLoop args ft (i + 1) positional
         | TokenTerminator \<Rightarrow> afterTerminator (drop (i + 1) args) positional
         | TokenPositional raw \<Rightarrow>
             (case consumePositionalToken raw positional of
                None \<Rightarrow> None
              | Some positional' \<Rightarrow> collectLoop args ft (i + 1) positional')
         | TokenLong flag inlineValue \<Rightarrow>
             (case consumeLongOptionToken args i flag inlineValue ft of
                None \<Rightarrow> None
              | Some nextIndex \<Rightarrow> collectLoop args ft nextIndex positional)
         | TokenShort cluster flags \<Rightarrow>
             (case consumeShortOptionClusterToken args i cluster flags ft of
                None \<Rightarrow> None
              | Some nextIndex \<Rightarrow> collectLoop args ft nextIndex positional))
      else Some positional)"
  by pat_completeness auto
termination
  by (relation "measure (\<lambda>(args, ft, i, positional). length args - i)")
    (auto simp: consumeShortOptionClusterToken_def dest!: consume_advances)

declare collectLoop.simps [simp del]

definition collectPositionalTokens :: "string list \<Rightarrow> safe_bin_profile \<Rightarrow> string list option" where
  "collectPositionalTokens args profile = collectLoop args (flagTables profile) 0 []"

subsection \<open>Rules for single programs\<close>

definition SAFE_BIN_SEMANTIC_RULES :: "(string \<times> string) list" where
  "SAFE_BIN_SEMANTIC_RULES =
     (let awk = ''awk-family interpreters can execute commands, access ENVIRON, and write files, so prefer explicit allowlist entries or approval-gated runs instead of safeBins.'';
          jq = ''jq can read environment data and load jq code from modules or startup files, so prefer explicit allowlist entries or approval-gated runs instead of safeBins.'';
          sed = ''sed scripts can execute commands and write files, so prefer explicit allowlist entries or approval-gated runs instead of safeBins.''
      in [(''jq'', jq), (''awk'', awk), (''gawk'', awk), (''mawk'', awk), (''nawk'', awk), (''sed'', sed), (''gsed'', sed)])"

definition lastSegment :: "string \<Rightarrow> string" where
  "lastSegment s = rev (takeWhile (\<lambda>c. \<not> isSeparator c) (rev s))"

definition dropWindowsSuffix :: "string \<Rightarrow> string" where
  "dropWindowsSuffix s =
     (if \<exists>suffix\<in>set [''.exe'', ''.cmd'', ''.bat'', ''.com'']. js_endsWith s suffix then take (length s - 4) s else s)"

definition normalizeSafeBinName :: "string \<Rightarrow> string" where
  "normalizeSafeBinName raw =
     (let trimmed = normalizeLowercaseStringOrEmpty (JStr raw)
      in if trimmed = [] then [] else dropWindowsSuffix (lastSegment trimmed))"

text \<open>Each rule denies every use of its program and has the warning for its configuration.\<close>

definition getSafeBinSemanticRule :: "string option \<Rightarrow> string option" where
  "getSafeBinSemanticRule binName =
     (let normalized = (case binName of Some name \<Rightarrow> normalizeSafeBinName name | None \<Rightarrow> [])
      in if normalized \<noteq> [] then map_of SAFE_BIN_SEMANTIC_RULES normalized else None)"

definition validateSafeBinSemantics :: "string option \<Rightarrow> string list \<Rightarrow> bool" where
  "validateSafeBinSemantics binName positional =
     (case getSafeBinSemanticRule binName of Some _ \<Rightarrow> False | None \<Rightarrow> True)"

definition addRiskyBin :: "(string \<times> string) list \<Rightarrow> string \<Rightarrow> (string \<times> string) list" where
  "addRiskyBin hits entry =
     (let normalized = normalizeSafeBinName entry
      in if normalized = [] \<or> map_of hits normalized \<noteq> None then hits
         else case getSafeBinSemanticRule (Some normalized) of
                None \<Rightarrow> hits
              | Some warning \<Rightarrow> AList.update normalized warning hits)"

definition listRiskyConfiguredSafeBins ::
  "(string \<Rightarrow> string \<Rightarrow> int) \<Rightarrow> string list \<Rightarrow> (string \<times> string) list" where
  "listRiskyConfiguredSafeBins loc entries =
     js_toSorted (\<lambda>a b. loc (fst a) (fst b)) (foldl addRiskyBin [] entries)"

definition validateSafeBinArgv :: "string list \<Rightarrow> safe_bin_profile \<Rightarrow> string option \<Rightarrow> bool" where
  "validateSafeBinArgv args profile binName =
     (case collectPositionalTokens args profile of
        None \<Rightarrow> False
      | Some positional \<Rightarrow>
          if \<not> validatePositionalCount positional profile then False
          else validateSafeBinSemantics binName positional)"

subsection \<open>Use of a safe bin\<close>

record executable_resolution =
  er_rawExecutable :: string
  er_resolvedPath :: "string option"
  er_resolvedRealPath :: "string option"
  er_executableName :: string

text \<open>What the code asks the file system: the candidate path of an executable name with a path separator, the real
  path of a file, and whether the directory of a path is trusted.\<close>

record exec_env =
  ee_candidatePath :: "string \<Rightarrow> string option"
  ee_realpath :: "string \<Rightarrow> string option"
  ee_isTrustedPath :: "string \<Rightarrow> bool"

definition nonEmpty :: "string option \<Rightarrow> string option" where
  "nonEmpty s = (case s of Some [] \<Rightarrow> None | _ \<Rightarrow> s)"

definition tryResolveRealpath :: "exec_env \<Rightarrow> string option \<Rightarrow> string option" where
  "tryResolveRealpath env filePath = (case nonEmpty filePath of None \<Rightarrow> None | Some p \<Rightarrow> ee_realpath env p)"

definition resolveExecutableCandidatePathFromResolution :: "exec_env \<Rightarrow> executable_resolution option \<Rightarrow> string option" where
  "resolveExecutableCandidatePathFromResolution env resolution =
     (case resolution of
        None \<Rightarrow> None
      | Some r \<Rightarrow>
          (case nonEmpty (er_resolvedPath r) of
             Some p \<Rightarrow> Some p
           | None \<Rightarrow>
               let raw = js_trim (er_rawExecutable r) in if raw = [] then None else ee_candidatePath env raw))"

definition resolveExecutableTrustPath :: "exec_env \<Rightarrow> executable_resolution option \<Rightarrow> string option" where
  "resolveExecutableTrustPath env resolution =
     (case nonEmpty (map_option js_trim (Option.bind resolution er_resolvedRealPath)) of
        Some realPath \<Rightarrow> Some realPath
      | None \<Rightarrow>
          let candidatePath = resolveExecutableCandidatePathFromResolution env resolution
          in nullish_or (tryResolveRealpath env candidatePath) candidatePath)"

definition isWindowsPlatform :: "string option \<Rightarrow> bool" where
  "isWindowsPlatform platform =
     js_startsWith (normalizeLowercaseStringOrEmpty (case platform of Some p \<Rightarrow> JStr p | None \<Rightarrow> JUndefined)) ''win''"

definition normalizeSafeBins :: "string list \<Rightarrow> string list" where
  "normalizeSafeBins entries =
     js_set_of (filter (\<lambda>entry. entry \<noteq> []) (map (\<lambda>entry. normalizeLowercaseStringOrEmpty (JStr entry)) entries))"

text \<open>The outer option is \<open>undefined\<close>, the inner one \<open>null\<close>.\<close>

definition resolveSafeBins :: "string list option option \<Rightarrow> string list" where
  "resolveSafeBins entries =
     (case entries of None \<Rightarrow> normalizeSafeBins DEFAULT_SAFE_BINS | Some es \<Rightarrow> normalizeSafeBins (nullish es []))"

text \<open>Reading a property of an object: the lower-case names that every object inherits denote objects without any
  of the properties of a profile.\<close>

definition emptyProfile :: safe_bin_profile where
  "emptyProfile = \<lparr>sp_minPositional = None, sp_maxPositional = None, sp_allowedValueFlags = None,
     sp_allowedBooleanFlags = None, sp_deniedFlags = None, sp_knownLongFlags = None,
     sp_knownLongFlagsSet = None, sp_longFlagPrefixMap = None\<rparr>"

definition inherited :: "string \<Rightarrow> bool" where
  "inherited name \<longleftrightarrow> name = ''constructor'' \<or> name = ''__proto__''"

definition profileOf :: "(string \<times> safe_bin_profile) list \<Rightarrow> string \<Rightarrow> safe_bin_profile option" where
  "profileOf profiles name =
     (case map_of profiles name of
        Some profile \<Rightarrow> Some profile
      | None \<Rightarrow> if inherited name then Some emptyProfile else None)"

definition isSafeBinUsage ::
  "exec_env \<Rightarrow> string list \<Rightarrow> executable_resolution option \<Rightarrow> string list \<Rightarrow> string \<Rightarrow>
   (string \<times> safe_bin_profile) list option \<Rightarrow> bool" where
  "isSafeBinUsage env argv resolution safeBins platform safeBinProfiles =
     (if isWindowsPlatform (Some platform) then False
      else if safeBins = [] then False
      else
        case normalizeOptionalLowercaseString
               (case resolution of Some r \<Rightarrow> JStr (er_executableName r) | None \<Rightarrow> JUndefined) of
          None \<Rightarrow> False
        | Some execName \<Rightarrow>
            if execName \<notin> set safeBins then False
            else
              case nonEmpty (resolveExecutableTrustPath env resolution) of
                None \<Rightarrow> False
              | Some trustPath \<Rightarrow>
                  if \<not> ee_isTrustedPath env trustPath then False
                  else
                    case profileOf (nullish safeBinProfiles SAFE_BIN_PROFILES) execName of
                      None \<Rightarrow> False
                    | Some profile \<Rightarrow> validateSafeBinArgv (drop 1 argv) profile (Some execName))"

subsection \<open>The policy of a configuration\<close>

record safe_bin_scope =
  sc_safeBins :: "string list option option"
  sc_safeBinProfiles :: "(string \<times> safe_bin_fixture) list option"
  sc_safeBinTrustedDirs :: "string list option"

record writable_dir =
  wd_dir :: string
  wd_groupWritable :: bool
  wd_worldWritable :: bool

record safe_bin_policy =
  sbp_safeBins :: "string list"
  sbp_safeBinProfiles :: "(string \<times> safe_bin_profile) list"
  sbp_trustedSafeBinDirs :: "string list"
  sbp_unprofiledSafeBins :: "string list"
  sbp_unprofiledInterpreterSafeBins :: "string list"
  sbp_writableTrustedSafeBinDirs :: "writable_dir list"

definition INTERPRETER_LIKE_SAFE_BINS :: "string list" where
  "INTERPRETER_LIKE_SAFE_BINS =
     [''ash'', ''awk'', ''bash'', ''busybox'', ''bun'', ''cmd'', ''cmd.exe'', ''cscript'', ''dash'', ''deno'', ''fish'',
      ''gawk'', ''gsed'', ''ksh'', ''lua'', ''mawk'', ''nawk'', ''node'', ''nodejs'', ''perl'', ''php'', ''powershell'',
      ''powershell.exe'', ''pypy'', ''pwsh'', ''pwsh.exe'', ''python'', ''python2'', ''python3'', ''ruby'', ''sed'', ''sh'',
      ''toybox'', ''wscript'', ''zsh'']"

definition versionSuffix :: "string \<Rightarrow> bool" where
  "versionSuffix s =
     (let major = takeWhile asciiDigit s; rest = dropWhile asciiDigit s
      in major \<noteq> [] \<and>
         (case rest of
            [] \<Rightarrow> True
          | c # minor \<Rightarrow> c = CHR ''.'' \<and> minor \<noteq> [] \<and> list_all asciiDigit minor))"

definition INTERPRETER_LIKE_PATTERNS :: "(string \<Rightarrow> bool) list" where
  "INTERPRETER_LIKE_PATTERNS =
     map (\<lambda>name s. js_startsWith s name \<and> versionSuffix (drop (length name) s))
       [''python'', ''ruby'', ''perl'', ''php'', ''node'']"

definition isInterpreterLikeSafeBin :: "string \<Rightarrow> bool" where
  "isInterpreterLikeSafeBin raw =
     (let normalized = normalizeSafeBinName raw
      in if normalized = [] then False
         else if normalized \<in> set INTERPRETER_LIKE_SAFE_BINS then True
         else \<exists>pattern\<in>set INTERPRETER_LIKE_PATTERNS. pattern normalized)"

definition listInterpreterLikeSafeBins :: "string list \<Rightarrow> string list" where
  "listInterpreterLikeSafeBins entries =
     js_toSorted compareCodeUnits
       (filter (\<lambda>entry. entry \<noteq> [] \<and> isInterpreterLikeSafeBin entry) (map normalizeSafeBinName entries))"

definition resolveMergedSafeBinProfileFixtures ::
  "(string \<Rightarrow> string \<Rightarrow> int) \<Rightarrow> safe_bin_scope option \<Rightarrow> safe_bin_scope option \<Rightarrow> (string \<times> safe_bin_fixture) list option" where
  "resolveMergedSafeBinProfileFixtures loc global local =
     (let g = normalizeSafeBinProfileFixtures loc (Option.bind global sc_safeBinProfiles);
          l = normalizeSafeBinProfileFixtures loc (Option.bind local sc_safeBinProfiles)
      in if g = [] \<and> l = [] then None else Some (spread g l))"

definition normalizeTrustedSafeBinDirs :: "string list option \<Rightarrow> string list" where
  "normalizeTrustedSafeBinDirs entries =
     (case entries of None \<Rightarrow> [] | Some es \<Rightarrow> uniqueStrings (filter (\<lambda>entry. entry \<noteq> []) (map js_trim es)))"

definition configuredSafeBins :: "safe_bin_scope option \<Rightarrow> safe_bin_scope option \<Rightarrow> string list option option" where
  "configuredSafeBins global local =
     (case Option.bind local sc_safeBins of
        Some (Some bins) \<Rightarrow> Some (Some bins)
      | _ \<Rightarrow> Option.bind global sc_safeBins)"

text \<open>The probes of the trusted directories are parameters: the set of trusted directories for the explicit
  directories and the bins, and those explicit directories that others can write.\<close>

definition resolveExecSafeBinRuntimePolicy ::
  "(string \<Rightarrow> string \<Rightarrow> int) \<Rightarrow> (string list \<Rightarrow> string list \<Rightarrow> string list) \<Rightarrow> (string list \<Rightarrow> writable_dir list) \<Rightarrow>
   safe_bin_scope option \<Rightarrow> safe_bin_scope option \<Rightarrow> safe_bin_policy" where
  "resolveExecSafeBinRuntimePolicy loc getTrusted listWritable global local =
     (let safeBins = resolveSafeBins (configuredSafeBins global local);
          safeBinProfiles = resolveSafeBinProfiles loc (resolveMergedSafeBinProfileFixtures loc global local);
          unprofiled = js_toSorted compareCodeUnits
            (filter (\<lambda>entry. profileOf safeBinProfiles entry = None) safeBins);
          explicitDirs = normalizeTrustedSafeBinDirs (Option.bind global sc_safeBinTrustedDirs)
            @ normalizeTrustedSafeBinDirs (Option.bind local sc_safeBinTrustedDirs)
      in \<lparr>sbp_safeBins = safeBins, sbp_safeBinProfiles = safeBinProfiles,
          sbp_trustedSafeBinDirs = getTrusted explicitDirs safeBins, sbp_unprofiledSafeBins = unprofiled,
          sbp_unprofiledInterpreterSafeBins = listInterpreterLikeSafeBins unprofiled,
          sbp_writableTrustedSafeBinDirs = listWritable explicitDirs\<rparr>)"

end
