(* ===== verification/Safe_Bin_Grammar.thy ===== *)
theory Safe_Bin_Grammar
  imports Safe_Bins
begin

text \<open>
  The specification of the safe-bin validator as a grammar of argument lists, without tables, indices or
  abbreviations precomputed, and the proof that the validator accepts exactly its language.
\<close>

subsection \<open>Abbreviated long flags\<close>

definition longFlag :: "string \<Rightarrow> bool" where
  "longFlag flag \<longleftrightarrow> js_startsWith flag ''--'' \<and> 2 < length flag"

text \<open>A flag denotes a known flag that it equals, or else the only known flag that it abbreviates.\<close>

definition denotes :: "string list \<Rightarrow> string \<Rightarrow> string \<Rightarrow> bool" where
  "denotes known flag canonical \<longleftrightarrow>
     longFlag flag \<and> canonical \<in> set known \<and> js_startsWith canonical flag
     \<and> (flag = canonical \<or> flag \<notin> set known \<and> (\<forall>other\<in>set known. js_startsWith other flag \<longrightarrow> other = canonical))"

lemma startsWith_take: "js_startsWith s p \<longleftrightarrow> length p \<le> length s \<and> take (length p) s = p"
  by (induction s p rule: js_startsWith.induct) auto

definition mergeOwner :: "string \<Rightarrow> string option option \<Rightarrow> string option option" where
  "mergeOwner flag entry =
     (case entry of None \<Rightarrow> Some (Some flag) | Some e \<Rightarrow> Some (if e \<noteq> Some flag then None else e))"

lemma map_of_addPrefix:
  "map_of (addPrefix flag m n) = (map_of m)(take n flag := mergeOwner flag (map_of m (take n flag)))"
  by (auto simp: addPrefix_def mergeOwner_def Let_def update_conv fun_eq_iff split: option.splits)

lemma map_of_addPrefixes:
  assumes "b \<le> Suc (length flag)"
  shows "map_of (foldl (addPrefix flag) m [a..<b]) p =
    (if a \<le> length p \<and> length p < b \<and> js_startsWith flag p then mergeOwner flag (map_of m p) else map_of m p)"
  using assms
proof (induction b)
  case (Suc b)
  show ?case
  proof (cases "a \<le> b")
    case True
    have "take b flag = p \<longleftrightarrow> length p = b \<and> js_startsWith flag p"
      using Suc.prems by (auto simp: startsWith_take)
    then show ?thesis using Suc True by (auto simp: map_of_addPrefix less_Suc_eq)
  next
    case False
    then show ?thesis using Suc.prems by (auto simp: startsWith_take)
  qed
qed simp

lemma map_of_addFlagPrefixes:
  "map_of (addFlagPrefixes m flag) p =
     (if longFlag flag \<and> 3 \<le> length p \<and> js_startsWith flag p then mergeOwner flag (map_of m p) else map_of m p)"
  by (auto simp: addFlagPrefixes_def longFlag_def map_of_addPrefixes startsWith_take simp del: upt_Suc)

definition owners :: "string list \<Rightarrow> string \<Rightarrow> string list" where
  "owners known p = filter (\<lambda>flag. longFlag flag \<and> 3 \<le> length p \<and> js_startsWith flag p) known"

lemma prefix_map_owners:
  "distinct known \<Longrightarrow> map_of (buildLongFlagPrefixMap known) p =
     (case owners known p of [] \<Rightarrow> None | [flag] \<Rightarrow> Some (Some flag) | _ \<Rightarrow> Some None)"
proof (induction known rule: rev_induct)
  case Nil
  then show ?case by (simp add: buildLongFlagPrefixMap_def owners_def)
next
  case (snoc flag known)
  have o: "owners (known @ [flag]) p =
      (if longFlag flag \<and> 3 \<le> length p \<and> js_startsWith flag p then owners known p @ [flag] else owners known p)"
    by (simp add: owners_def)
  have "flag \<notin> set (owners known p)" using snoc.prems by (simp add: owners_def)
  with snoc show ?case
    by (auto simp: buildLongFlagPrefixMap_def map_of_addFlagPrefixes o mergeOwner_def split: list.splits)
qed

lemma singleton_owner:
  "distinct known \<Longrightarrow> owners known p = [flag] \<longleftrightarrow>
     3 \<le> length p \<and> longFlag flag \<and> flag \<in> set known \<and> js_startsWith flag p
     \<and> (\<forall>other\<in>set known. longFlag other \<and> js_startsWith other p \<longrightarrow> other = flag)"
proof
  assume "owners known p = [flag]"
  then have "set (owners known p) = {flag}" by simp
  then show "3 \<le> length p \<and> longFlag flag \<and> flag \<in> set known \<and> js_startsWith flag p
     \<and> (\<forall>other\<in>set known. longFlag other \<and> js_startsWith other p \<longrightarrow> other = flag)"
    by (auto simp: owners_def)
next
  assume d: "distinct known" and a: "3 \<le> length p \<and> longFlag flag \<and> flag \<in> set known \<and> js_startsWith flag p
     \<and> (\<forall>other\<in>set known. longFlag other \<and> js_startsWith other p \<longrightarrow> other = flag)"
  then have "set (owners known p) = {flag}" "distinct (owners known p)" by (auto simp: owners_def)
  then show "owners known p = [flag]" by (cases "owners known p"; cases "tl (owners known p)") auto
qed

lemma resolve_denotes:
  assumes "distinct known" "\<forall>flag\<in>set known. js_startsWith flag ''--''"
  shows "resolveCanonicalLongFlag flag known (buildLongFlagPrefixMap known) = Some canonical
    \<longleftrightarrow> denotes known flag canonical"
proof (cases "longFlag flag \<and> flag \<notin> set known")
  case True
  then have len: "3 \<le> length flag" by (simp add: longFlag_def)
  have long: "longFlag other" if "other \<in> set known" "js_startsWith other flag" for other
    using that assms(2) len by (auto simp: longFlag_def startsWith_take)
  have "resolveCanonicalLongFlag flag known (buildLongFlagPrefixMap known) = Some canonical
      \<longleftrightarrow> owners known flag = [canonical]"
    using True prefix_map_owners [OF assms(1), of flag]
    by (auto simp: resolveCanonicalLongFlag_def longFlag_def split: list.splits)
  also have "\<dots> \<longleftrightarrow> denotes known flag canonical"
    using True len long by (auto simp: singleton_owner [OF assms(1)] denotes_def)
  finally show ?thesis .
next
  case False
  then show ?thesis
    by (auto simp: resolveCanonicalLongFlag_def denotes_def longFlag_def startsWith_take)
qed

subsection \<open>The grammar\<close>

text \<open>The arguments a fixture allows, with the operands they contain.\<close>

definition knownFlags :: "safe_bin_fixture \<Rightarrow> string list" where
  "knownFlags fx = filter (\<lambda>flag. js_startsWith flag ''--'')
     (nullish (fx_allowedValueFlags fx) [] @ nullish (fx_allowedBooleanFlags fx) [] @ nullish (fx_deniedFlags fx) [])"

definition deniedFlag :: "safe_bin_fixture \<Rightarrow> string \<Rightarrow> bool" where
  "deniedFlag fx flag \<longleftrightarrow> flag \<in> set (nullish (fx_deniedFlags fx) [])"

definition valueFlag :: "safe_bin_fixture \<Rightarrow> string \<Rightarrow> bool" where
  "valueFlag fx flag \<longleftrightarrow> flag \<in> set (nullish (fx_allowedValueFlags fx) []) \<and> \<not> deniedFlag fx flag"

definition switchFlag :: "safe_bin_fixture \<Rightarrow> char \<Rightarrow> bool" where
  "switchFlag fx c \<longleftrightarrow> [CHR ''-'', c] \<in> set (nullish (fx_allowedBooleanFlags fx) [])
     \<and> [CHR ''-'', c] \<notin> set (nullish (fx_allowedValueFlags fx) []) \<and> \<not> deniedFlag fx [CHR ''-'', c]"

definition literalValue :: "string \<Rightarrow> bool" where
  "literalValue v \<longleftrightarrow> v \<noteq> [] \<and> isSafeLiteralToken v"

text \<open>One item of a command line: a token or an option with its value, and the operands it contributes.\<close>

inductive safe_item :: "safe_bin_fixture \<Rightarrow> string list \<Rightarrow> string list \<Rightarrow> bool" for fx where
  skip: "tok = [] \<or> tok = ''-'' \<Longrightarrow> safe_item fx [tok] []"
| operand: "literalValue tok \<Longrightarrow> hd tok \<noteq> CHR ''-'' \<Longrightarrow> safe_item fx [tok] [tok]"
| long_switch: "CHR ''='' \<notin> set tok \<Longrightarrow> denotes (knownFlags fx) tok flag \<Longrightarrow> \<not> deniedFlag fx flag \<Longrightarrow>
    \<not> valueFlag fx flag \<Longrightarrow> safe_item fx [tok] []"
| long_value: "CHR ''='' \<notin> set tok \<Longrightarrow> denotes (knownFlags fx) tok flag \<Longrightarrow> valueFlag fx flag \<Longrightarrow>
    literalValue v \<Longrightarrow> safe_item fx [tok, v] []"
| long_inline: "CHR ''='' \<notin> set name \<Longrightarrow> denotes (knownFlags fx) name flag \<Longrightarrow> valueFlag fx flag \<Longrightarrow>
    isSafeLiteralToken v \<Longrightarrow> safe_item fx [name @ CHR ''='' # v] []"
| cluster: "cs \<noteq> [] \<Longrightarrow> hd cs \<noteq> CHR ''-'' \<Longrightarrow> \<forall>c\<in>set cs. switchFlag fx c \<Longrightarrow> safe_item fx [CHR ''-'' # cs] []"
| cluster_value: "hd (cs @ [c]) \<noteq> CHR ''-'' \<Longrightarrow> \<forall>c\<in>set cs. switchFlag fx c \<Longrightarrow> valueFlag fx [CHR ''-'', c] \<Longrightarrow>
    literalValue v \<Longrightarrow> safe_item fx [CHR ''-'' # cs @ [c], v] []"
| cluster_inline: "hd (cs @ [c]) \<noteq> CHR ''-'' \<Longrightarrow> \<forall>c\<in>set cs. switchFlag fx c \<Longrightarrow> valueFlag fx [CHR ''-'', c] \<Longrightarrow>
    literalValue v \<Longrightarrow> safe_item fx [CHR ''-'' # cs @ c # v] []"

inductive safe_argv :: "safe_bin_fixture \<Rightarrow> string list \<Rightarrow> string list \<Rightarrow> bool" for fx where
  finish: "safe_argv fx [] []"
| terminator: "\<forall>t\<in>set ts. isSafeLiteralToken t \<Longrightarrow>
    safe_argv fx (''--'' # ts) (filter (\<lambda>t. t \<noteq> [] \<and> t \<noteq> ''-'') ts)"
| item: "safe_item fx tokens operands \<Longrightarrow> safe_argv fx ts ps \<Longrightarrow> safe_argv fx (tokens @ ts) (operands @ ps)"

lemma tables_of_fixture:
  fixes fx
  defines "ft \<equiv> flagTables (compileSafeBinProfile fx)"
  shows "set (ft_value ft) = set (nullish (fx_allowedValueFlags fx) [])"
    "set (ft_boolean ft) = set (nullish (fx_allowedBooleanFlags fx) [])"
    "set (ft_denied ft) = set (nullish (fx_deniedFlags fx) [])"
    "set (ft_known ft) = set (knownFlags fx)" "distinct (ft_known ft)"
    "ft_prefixes ft = buildLongFlagPrefixMap (ft_known ft)"
proof -
  let ?k = "collectKnownLongFlags (toFlagSet (fx_allowedValueFlags fx)) (toFlagSet (fx_deniedFlags fx)) (toFlagSet (fx_allowedBooleanFlags fx))"
  have s: "set (toFlagSet o') = set (nullish o' [])" for o' :: "string list option"
    by (cases o') (simp_all add: toFlagSet_def)
  have d: "distinct ?k" "set ?k = set (knownFlags fx)"
    by (auto simp: collectKnownLongFlags_def foldl_js_set_add s knownFlags_def)
  show "set (ft_value ft) = set (nullish (fx_allowedValueFlags fx) [])"
    "set (ft_boolean ft) = set (nullish (fx_allowedBooleanFlags fx) [])"
    "set (ft_denied ft) = set (nullish (fx_deniedFlags fx) [])"
    "set (ft_known ft) = set (knownFlags fx)" "distinct (ft_known ft)"
    "ft_prefixes ft = buildLongFlagPrefixMap (ft_known ft)"
    using d by (simp_all add: ft_def flagTables_def compileSafeBinProfile_def Let_def s js_set_of_distinct)
qed

lemma denotes_cong: "set known = set known' \<Longrightarrow> denotes known = denotes known'"
  by (simp add: denotes_def fun_eq_iff)

lemma resolve_fixture:
  "resolveCanonicalLongFlag flag (ft_known (flagTables (compileSafeBinProfile fx)))
     (ft_prefixes (flagTables (compileSafeBinProfile fx))) = Some canonical \<longleftrightarrow> denotes (knownFlags fx) flag canonical"
proof -
  have "\<forall>flag\<in>set (ft_known (flagTables (compileSafeBinProfile fx))). js_startsWith flag ''--''"
    by (auto simp: tables_of_fixture(4) knownFlags_def)
  then show ?thesis
    using resolve_denotes [OF tables_of_fixture(5)] denotes_cong [OF tables_of_fixture(4)]
    by (simp add: tables_of_fixture(6))
qed

subsection \<open>The validator accepts the language of the grammar\<close>

abbreviation fixtureTables :: "safe_bin_fixture \<Rightarrow> flag_tables" where
  "fixtureTables fx \<equiv> flagTables (compileSafeBinProfile fx)"

lemma valid_value_iff: "\<not> isInvalidValueToken w \<longleftrightarrow> (\<exists>v. w = Some v \<and> literalValue v)"
  by (auto simp: isInvalidValueToken_def literalValue_def split: option.splits)

lemma long_consumed:
  "consumeLongOptionToken args i flag inl (fixtureTables fx) = Some j \<longleftrightarrow>
     (\<exists>c. denotes (knownFlags fx) flag c \<and> \<not> deniedFlag fx c \<and>
        (case inl of
           Some v \<Rightarrow> valueFlag fx c \<and> isSafeLiteralToken v \<and> j = i + 1
         | None \<Rightarrow> \<not> valueFlag fx c \<and> j = i + 1
             \<or> valueFlag fx c \<and> (\<exists>v. argAt args (i + 1) = Some v \<and> literalValue v) \<and> j = i + 2))"
proof (cases "resolveCanonicalLongFlag flag (ft_known (fixtureTables fx)) (ft_prefixes (fixtureTables fx))")
  case None
  then have "\<not> denotes (knownFlags fx) flag c" for c by (simp flip: resolve_fixture)
  with None show ?thesis by (simp add: consumeLongOptionToken_def)
next
  case (Some c)
  then have "denotes (knownFlags fx) flag c' \<longleftrightarrow> c' = c" for c' by (auto simp flip: resolve_fixture)
  with Some show ?thesis
    by (auto simp: consumeLongOptionToken_def Let_def tables_of_fixture deniedFlag_def valueFlag_def
        simp flip: valid_value_iff split: option.splits)
qed

lemma ex_split_Cons:
  "(\<exists>cs c v. d # cl = cs @ c # v \<and> Q cs c v) \<longleftrightarrow> Q [] d cl \<or> (\<exists>cs c v. cl = cs @ c # v \<and> Q (d # cs) c v)"
  (is "?l \<longleftrightarrow> ?r")
proof
  assume ?l
  then obtain cs c v where "d # cl = cs @ c # v" "Q cs c v" by blast
  then show ?r by (cases cs) auto
next
  assume ?r
  then show ?l by (metis append_Cons append_Nil)
qed

lemma cluster_consumed:
  "consumeCluster args i (fixtureTables fx) (map (\<lambda>c. [CHR ''-'', c]) cl) cl = Some j \<longleftrightarrow>
     j = i + 1 \<and> (\<forall>c\<in>set cl. switchFlag fx c)
     \<or> (\<exists>cs c v. cl = cs @ c # v \<and> (\<forall>c\<in>set cs. switchFlag fx c) \<and> valueFlag fx [CHR ''-'', c] \<and>
          (literalValue v \<and> j = i + 1
           \<or> v = [] \<and> (\<exists>w. argAt args (i + 1) = Some w \<and> literalValue w) \<and> j = i + 2))"
proof (induction cl)
  case (Cons d cl)
  let ?f = "[CHR ''-'', d]"
  have split: "(\<exists>cs c v. d # cl = cs @ c # v \<and> (\<forall>c\<in>set cs. switchFlag fx c) \<and> valueFlag fx [CHR ''-'', c] \<and> P v)
      \<longleftrightarrow> valueFlag fx ?f \<and> P cl
        \<or> switchFlag fx d \<and> (\<exists>cs c v. cl = cs @ c # v \<and> (\<forall>c\<in>set cs. switchFlag fx c) \<and> valueFlag fx [CHR ''-'', c] \<and> P v)"
    for P :: "string \<Rightarrow> bool"
    by (simp only: ex_split_Cons) auto
  consider "deniedFlag fx ?f" | "valueFlag fx ?f" | "switchFlag fx d"
    | "\<not> deniedFlag fx ?f" "\<not> valueFlag fx ?f" "\<not> switchFlag fx d" by blast
  then show ?case
  proof cases
    case 1
    then have "\<not> valueFlag fx ?f" "\<not> switchFlag fx d" by (auto simp: valueFlag_def switchFlag_def)
    with 1 show ?thesis by (simp only: split) (simp add: tables_of_fixture deniedFlag_def)
  next
    case 2
    then have "\<not> switchFlag fx d" by (auto simp: valueFlag_def switchFlag_def)
    moreover have "isInvalidValueToken (argAt args (i + 1)) \<longleftrightarrow> \<not> (\<exists>w. argAt args (i + 1) = Some w \<and> literalValue w)"
      using valid_value_iff by blast
    ultimately show ?thesis
      using 2 by (simp only: split)
        (cases cl, auto simp: tables_of_fixture deniedFlag_def valueFlag_def literalValue_def Let_def)
  next
    case 3
    then have "\<not> valueFlag fx ?f" by (auto simp: valueFlag_def switchFlag_def)
    with 3 Cons.IH show ?thesis
      by (simp only: split) (auto simp: tables_of_fixture deniedFlag_def switchFlag_def)
  next
    case 4
    then show ?thesis
      by (simp only: split) (auto simp: tables_of_fixture deniedFlag_def valueFlag_def switchFlag_def)
  qed
qed auto

lemma parse_token:
  "parseExecArgvToken tok = TokenEmpty \<longleftrightarrow> tok = []"
  "parseExecArgvToken tok = TokenTerminator \<longleftrightarrow> tok = ''--''"
  "parseExecArgvToken tok = TokenStdin \<longleftrightarrow> tok = ''-''"
  "parseExecArgvToken tok = TokenPositional raw \<longleftrightarrow> raw = tok \<and> tok \<noteq> [] \<and> hd tok \<noteq> CHR ''-''"
  by (cases tok; auto simp: parseExecArgvToken_def)+

lemma parse_plain [simp]:
  "parseExecArgvToken [] = TokenEmpty" "parseExecArgvToken ''-'' = TokenStdin" "parseExecArgvToken ''--'' = TokenTerminator"
  by (simp_all add: parse_token)

lemma parse_short:
  "parseExecArgvToken tok = TokenShort cl flags \<longleftrightarrow>
     tok = CHR ''-'' # cl \<and> cl \<noteq> [] \<and> hd cl \<noteq> CHR ''-'' \<and> flags = map (\<lambda>c. [CHR ''-'', c]) cl"
  by (cases tok; cases "tl tok") (auto simp: parseExecArgvToken_def)

lemma split_at_char: "c \<notin> set s \<Longrightarrow> takeWhile (\<lambda>x. x \<noteq> c) (s @ c # t) = s \<and> dropWhile (\<lambda>x. x \<noteq> c) (s @ c # t) = c # t"
  by (induction s) auto

lemma split_char_join:
  assumes "c \<in> set s"
  shows "takeWhile (\<lambda>x. x \<noteq> c) s @ c # tl (dropWhile (\<lambda>x. x \<noteq> c) s) = s"
  using assms by (induction s) auto

lemma parse_long_sound:
  assumes "parseExecArgvToken tok = TokenLong flag inl"
  shows "CHR ''='' \<notin> set flag" "tok = (case inl of None \<Rightarrow> flag | Some v \<Rightarrow> flag @ CHR ''='' # v)"
proof -
  have "if CHR ''='' \<in> set tok
    then flag = takeWhile (\<lambda>c. c \<noteq> CHR ''='') tok \<and> inl = Some (tl (dropWhile (\<lambda>c. c \<noteq> CHR ''='') tok))
    else flag = tok \<and> inl = None"
    using assms by (simp add: parseExecArgvToken_def split: if_splits)
  then show "CHR ''='' \<notin> set flag" "tok = (case inl of None \<Rightarrow> flag | Some v \<Rightarrow> flag @ CHR ''='' # v)"
    using split_char_join [of "CHR ''=''" tok] by (auto split: if_splits dest: set_takeWhileD)
qed

lemma parse_long:
  assumes "longFlag flag" "CHR ''='' \<notin> set flag"
  shows "parseExecArgvToken flag = TokenLong flag None"
    "parseExecArgvToken (flag @ CHR ''='' # v) = TokenLong flag (Some v)"
proof -
  have l: "js_startsWith flag ''-''" "js_startsWith flag ''--''" "flag \<noteq> ''--''" "flag \<noteq> ''-''" "flag \<noteq> []"
    using assms(1) by (auto simp: longFlag_def js_startsWith_iff)
  then show "parseExecArgvToken flag = TokenLong flag None"
    using assms(2) by (simp add: parseExecArgvToken_def)
  let ?tok = "flag @ CHR ''='' # v"
  have "js_startsWith ?tok ''-''" "js_startsWith ?tok ''--''" "?tok \<noteq> ''--''" "?tok \<noteq> ''-''" "?tok \<noteq> []"
    "CHR ''='' \<in> set ?tok"
    using l by (auto simp: js_startsWith_iff)
  then show "parseExecArgvToken ?tok = TokenLong flag (Some v)"
    using split_at_char [OF assms(2), of v] unfolding parseExecArgvToken_def by (simp only: if_True if_False simp_thms list.sel)
qed

lemma arg_drop: "argAt args i = Some v \<longleftrightarrow> (\<exists>ts. drop i args = v # ts \<and> drop (i + 1) args = ts)"
  by (auto simp: argAt_def Cons_nth_drop_Suc dest: nth_via_drop)

lemma afterTerminator_iff:
  "afterTerminator ts pos =
     (if \<forall>t\<in>set ts. isSafeLiteralToken t then Some (pos @ filter (\<lambda>t. t \<noteq> [] \<and> t \<noteq> ''-'') ts) else None)"
  by (induction ts arbitrary: pos) (auto simp: consumePositionalToken_def isSafeLiteralToken_def)

lemma cluster_step:
  assumes "args ! i = CHR ''-'' # cl" "cl \<noteq> []" "hd cl \<noteq> CHR ''-''" "i < length args"
    "consumeCluster args i (fixtureTables fx) (map (\<lambda>c. [CHR ''-'', c]) cl) cl = Some j"
    "safe_argv fx (drop j args) qs"
  shows "safe_argv fx (drop i args) qs"
proof -
  have d: "drop i args = (CHR ''-'' # cl) # drop (i + 1) args" using assms(1,4) by (simp add: Cons_nth_drop_Suc [symmetric])
  from assms(5) [unfolded cluster_consumed] consider
      (switches) "j = i + 1" "\<forall>c\<in>set cl. switchFlag fx c"
    | (inline) cs c v where "cl = cs @ c # v" "\<forall>c\<in>set cs. switchFlag fx c" "valueFlag fx [CHR ''-'', c]"
        "literalValue v" "j = i + 1"
    | (following) cs c w where "cl = cs @ [c]" "\<forall>c\<in>set cs. switchFlag fx c" "valueFlag fx [CHR ''-'', c]"
        "argAt args (i + 1) = Some w" "literalValue w" "j = i + 2"
    by blast
  then show ?thesis
  proof cases
    case switches
    then have "safe_item fx [CHR ''-'' # cl] []" using assms(2,3) by (intro safe_item.cluster) simp_all
    then show ?thesis using safe_argv.item [OF _ assms(6)] switches d by fastforce
  next
    case (inline cs c v)
    have "hd (cs @ [c]) \<noteq> CHR ''-''" using inline(1) assms(3) by (cases cs) simp_all
    then have "safe_item fx [CHR ''-'' # cl] []" using inline(1-4) by (simp add: safe_item.cluster_inline)
    then show ?thesis using safe_argv.item [OF _ assms(6)] inline(5) d by fastforce
  next
    case (following cs c w)
    have "drop (i + 1) args = w # drop (i + 2) args" using following(4) by (auto simp: arg_drop)
    moreover have "safe_item fx [CHR ''-'' # cl, w] []"
      using following(1-3,5) assms(3) by (simp add: safe_item.cluster_value)
    ultimately show ?thesis using safe_argv.item [OF _ assms(6)] following(6) d by fastforce
  qed
qed

lemma long_step:
  assumes "parseExecArgvToken (args ! i) = TokenLong flag inl" "i < length args"
    "consumeLongOptionToken args i flag inl (fixtureTables fx) = Some j" "safe_argv fx (drop j args) qs"
  shows "safe_argv fx (drop i args) qs"
proof -
  have d: "drop i args = args ! i # drop (i + 1) args" using assms(2) by (simp add: Cons_nth_drop_Suc)
  obtain c where c: "denotes (knownFlags fx) flag c" "\<not> deniedFlag fx c" and
    s: "case inl of
          Some v \<Rightarrow> valueFlag fx c \<and> isSafeLiteralToken v \<and> j = i + 1
        | None \<Rightarrow> \<not> valueFlag fx c \<and> j = i + 1
            \<or> valueFlag fx c \<and> (\<exists>v. argAt args (i + 1) = Some v \<and> literalValue v) \<and> j = i + 2"
    using assms(3) by (auto simp: long_consumed)
  note p = parse_long_sound [OF assms(1)]
  have "\<exists>tokens. drop i args = tokens @ drop j args \<and> safe_item fx tokens []"
  proof (cases inl)
    case (Some v)
    then have "safe_item fx [args ! i] []" using c s p by (auto intro: safe_item.long_inline)
    then show ?thesis using Some s d by (intro exI [of _ "[args ! i]"]) simp
  next
    case None
    then consider "\<not> valueFlag fx c" "j = i + 1"
      | v where "valueFlag fx c" "argAt args (i + 1) = Some v" "literalValue v" "j = i + 2" using s by auto
    then show ?thesis
    proof cases
      case 1
      then have "safe_item fx [args ! i] []" using c p None by (auto intro: safe_item.long_switch)
      then show ?thesis using 1 d by (intro exI [of _ "[args ! i]"]) simp
    next
      case 2
      then have "safe_item fx [args ! i, v] []" using c p None by (auto intro: safe_item.long_value)
      moreover have "drop (i + 1) args = v # drop j args" using 2 by (auto simp: arg_drop)
      ultimately show ?thesis using d by (intro exI [of _ "[args ! i, v]"]) simp
    qed
  qed
  then show ?thesis using safe_argv.item [OF _ assms(4), of _ "[]"] by auto
qed

lemma collect_sound:
  "collectLoop args (fixtureTables fx) i pos = Some ps \<Longrightarrow> \<exists>qs. ps = pos @ qs \<and> safe_argv fx (drop i args) qs"
proof (induction "length args - i" arbitrary: i pos rule: less_induct)
  case less
  note eq = less.prems [unfolded collectLoop.simps [of args _ i]]
  show ?case
  proof (cases "i < length args")
    case False
    with eq show ?thesis by (simp add: safe_argv.finish)
  next
    case True
    then have d: "drop i args = args ! i # drop (i + 1) args" by (simp add: Cons_nth_drop_Suc)
    have IH: "\<exists>qs. ps = pos' @ qs \<and> safe_argv fx (drop j args) qs"
      if "collectLoop args (fixtureTables fx) j pos' = Some ps" "i < j" for j pos'
      using less.hyps [of j pos'] that True by simp
    show ?thesis
    proof (cases "parseExecArgvToken (args ! i)")
      case TokenTerminator
      with eq True d show ?thesis
        by (auto simp: afterTerminator_iff parse_token split: if_splits intro: safe_argv.terminator)
    next
      case (TokenPositional raw)
      then have "isSafeLiteralToken raw" "collectLoop args (fixtureTables fx) (i + 1) (pos @ [raw]) = Some ps"
        using eq True by (auto simp: consumePositionalToken_def split: if_splits)
      moreover have "raw = args ! i" "raw \<noteq> []" "hd raw \<noteq> CHR ''-''" using TokenPositional by (simp_all add: parse_token)
      ultimately have "raw = args ! i" "literalValue raw" "hd raw \<noteq> CHR ''-''"
        and "collectLoop args (fixtureTables fx) (i + 1) (pos @ [raw]) = Some ps"
        by (simp_all add: literalValue_def)
      moreover from this have "safe_item fx [args ! i] [raw]" by (simp add: safe_item.operand)
      ultimately show ?thesis using IH [of "i + 1" "pos @ [raw]"] d safe_argv.item [of fx "[args ! i]" "[raw]"] by fastforce
    next
      case (TokenLong flag inl)
      then obtain j where j: "consumeLongOptionToken args i flag inl (fixtureTables fx) = Some j"
        and c: "collectLoop args (fixtureTables fx) j pos = Some ps"
        using eq True by (auto split: option.splits)
      obtain qs where qs: "ps = pos @ qs" "safe_argv fx (drop j args) qs"
        using IH [OF c] consume_advances(1) [OF j] by blast
      then show ?thesis using long_step [OF TokenLong True j] by blast
    next
      case (TokenShort cl flags)
      then obtain j where j: "consumeCluster args i (fixtureTables fx) flags cl = Some j"
        and c: "collectLoop args (fixtureTables fx) j pos = Some ps"
        using eq True by (auto simp: consumeShortOptionClusterToken_def split: option.splits)
      obtain qs where qs: "ps = pos @ qs" "safe_argv fx (drop j args) qs"
        using IH [OF c] consume_advances(2) [OF j] by blast
      with TokenShort show ?thesis using cluster_step [OF _ _ _ True, of cl fx j qs] j by (auto simp: parse_short)
    qed (use IH [of "i + 1" pos] eq True d safe_argv.item [OF safe_item.skip, of "args ! i" fx "drop (i + 1) args"]
          in \<open>auto simp: parse_token\<close>)
  qed
qed

lemma drop_step:
  assumes "drop i args = tok # ts"
  shows "i < length args" "args ! i = tok" "drop (i + 1) args = ts" "ts = v # us \<Longrightarrow> argAt args (i + 1) = Some v \<and> drop (i + 2) args = us"
proof -
  show l: "i < length args" "args ! i = tok" using assms by (auto simp: nth_via_drop intro: ccontr)
  show d: "drop (i + 1) args = ts" using assms by (metis Suc_eq_plus1 drop_Suc list.sel(3) tl_drop)
  show "argAt args (i + 1) = Some v \<and> drop (i + 2) args = us" if "ts = v # us"
    using d that by (auto simp: arg_drop drop_Suc simp flip: tl_drop)
qed

lemma item_consumed:
  assumes "safe_item fx tokens out" "drop i args = tokens @ ts"
  shows "collectLoop args (fixtureTables fx) i pos = collectLoop args (fixtureTables fx) (i + length tokens) (pos @ out)"
  using assms(1)
proof cases
  case (skip tok)
  then show ?thesis using assms(2) drop_step [of i args tok] by (auto simp: collectLoop.simps [of _ _ i])
next
  case (operand tok)
  then have "parseExecArgvToken tok = TokenPositional tok" by (simp add: parse_token literalValue_def)
  with operand show ?thesis
    using assms(2) drop_step [of i args tok]
    by (simp add: collectLoop.simps [of _ _ i] consumePositionalToken_def literalValue_def)
next
  case (long_switch tok flag)
  then have "parseExecArgvToken tok = TokenLong tok None" by (simp add: parse_long denotes_def)
  moreover have "consumeLongOptionToken args i tok None (fixtureTables fx) = Some (i + 1)"
    using long_switch by (auto simp: long_consumed)
  ultimately show ?thesis
    using assms(2) drop_step [of i args tok] long_switch by (simp add: collectLoop.simps [of _ _ i])
next
  case (long_value tok flag v)
  have d: "drop i args = tok # v # ts" using assms(2) long_value by simp
  have "parseExecArgvToken tok = TokenLong tok None" using long_value by (simp add: parse_long denotes_def)
  moreover have "consumeLongOptionToken args i tok None (fixtureTables fx) = Some (i + 2)"
    using long_value drop_step(4) [OF d refl] by (auto simp: long_consumed valueFlag_def)
  ultimately show ?thesis
    using drop_step(1,2) [OF d] long_value by (simp add: collectLoop.simps [of _ _ i])
next
  case (long_inline name flag v)
  then have "parseExecArgvToken (name @ CHR ''='' # v) = TokenLong name (Some v)" by (simp add: parse_long denotes_def)
  moreover have "consumeLongOptionToken args i name (Some v) (fixtureTables fx) = Some (i + 1)"
    using long_inline by (auto simp: long_consumed valueFlag_def)
  ultimately show ?thesis
    using assms(2) drop_step [of i args "name @ CHR ''='' # v"] long_inline by (simp add: collectLoop.simps [of _ _ i])
next
  case (cluster cs)
  then have "parseExecArgvToken (CHR ''-'' # cs) = TokenShort cs (map (\<lambda>c. [CHR ''-'', c]) cs)" by (simp add: parse_short)
  moreover have "consumeCluster args i (fixtureTables fx) (map (\<lambda>c. [CHR ''-'', c]) cs) cs = Some (i + 1)"
    using cluster by (simp add: cluster_consumed)
  ultimately show ?thesis
    using assms(2) drop_step [of i args "CHR ''-'' # cs"] cluster
    by (simp add: collectLoop.simps [of _ _ i] consumeShortOptionClusterToken_def)
next
  case (cluster_value cs c v)
  let ?cl = "cs @ [c]"
  have d: "drop i args = (CHR ''-'' # ?cl) # v # ts" using assms(2) cluster_value by simp
  have "parseExecArgvToken (CHR ''-'' # ?cl) = TokenShort ?cl (map (\<lambda>c. [CHR ''-'', c]) ?cl)"
    unfolding parse_short using cluster_value by simp
  moreover have "consumeCluster args i (fixtureTables fx) (map (\<lambda>c. [CHR ''-'', c]) ?cl) ?cl = Some (i + 2)"
    unfolding cluster_consumed using cluster_value drop_step(4) [OF d refl] by blast
  ultimately show ?thesis
    using drop_step(1,2) [OF d] cluster_value by (simp add: collectLoop.simps [of _ _ i] consumeShortOptionClusterToken_def)
next
  case (cluster_inline cs c v)
  let ?cl = "cs @ c # v"
  have "parseExecArgvToken (CHR ''-'' # ?cl) = TokenShort ?cl (map (\<lambda>c. [CHR ''-'', c]) ?cl)"
    unfolding parse_short using cluster_inline by (auto simp: hd_append split: if_splits)
  moreover have "consumeCluster args i (fixtureTables fx) (map (\<lambda>c. [CHR ''-'', c]) ?cl) ?cl = Some (i + 1)"
    unfolding cluster_consumed using cluster_inline by blast
  ultimately show ?thesis
    using assms(2) drop_step [of i args "CHR ''-'' # ?cl"] cluster_inline
    by (simp add: collectLoop.simps [of _ _ i] consumeShortOptionClusterToken_def)
qed

lemma collect_complete:
  "safe_argv fx ts qs \<Longrightarrow> drop i args = ts \<Longrightarrow> collectLoop args (fixtureTables fx) i pos = Some (pos @ qs)"
proof (induction arbitrary: i pos rule: safe_argv.induct)
  case finish
  then show ?case by (simp add: collectLoop.simps [of _ _ i])
next
  case (terminator ts)
  then show ?case
    using drop_step [OF terminator.prems] by (simp add: collectLoop.simps [of _ _ i] afterTerminator_iff)
next
  case (item tokens operands ts ps)
  have "drop (i + length tokens) args = ts" using item.prems by (metis add.commute append_eq_conv_conj drop_drop)
  then show ?case using item_consumed [OF item.hyps(1) item.prems] item.IH [of "i + length tokens" "pos @ operands"] by simp
qed

lemma collect_iff:
  "collectPositionalTokens args (compileSafeBinProfile fx) = Some ps \<longleftrightarrow> safe_argv fx args ps"
  using collect_sound [of args fx 0 "[]" ps] collect_complete [of fx args ps 0 args "[]"]
  by (auto simp: collectPositionalTokens_def)

lemma items_consumed:
  "list_all (\<lambda>(tokens, out). safe_item fx tokens out) items \<Longrightarrow> drop i args = concat (map fst items) @ ts \<Longrightarrow>
   collectLoop args (fixtureTables fx) i pos =
     collectLoop args (fixtureTables fx) (i + length (concat (map fst items))) (pos @ concat (map snd items))"
proof (induction items arbitrary: i pos)
  case (Cons it items)
  obtain tokens out where it: "it = (tokens, out)" by fastforce
  with Cons.prems have d: "drop i args = tokens @ concat (map fst items) @ ts" and s: "safe_item fx tokens out"
    "list_all (\<lambda>(tokens, out). safe_item fx tokens out) items"
    by auto
  have "drop (i + length tokens) args = concat (map fst items) @ ts"
    using d by (metis add.commute append_eq_conv_conj drop_drop)
  from Cons.IH [OF s(2) this, of "pos @ out"] item_consumed [OF s(1) d, of pos] show ?case
    by (simp add: it add.assoc)
qed simp

subsection \<open>Properties\<close>

definition riskyBins :: "string set" where
  "riskyBins = {''jq'', ''awk'', ''gawk'', ''mawk'', ''nawk'', ''sed'', ''gsed''}"

lemma rule_iff: "getSafeBinSemanticRule bin = None \<longleftrightarrow> (case bin of None \<Rightarrow> True | Some b \<Rightarrow> normalizeSafeBinName b \<notin> riskyBins)"
  by (auto simp: getSafeBinSemanticRule_def SAFE_BIN_SEMANTIC_RULES_def riskyBins_def Let_def split: option.splits if_splits)

lemma validate_iff:
  "validateSafeBinArgv args profile bin \<longleftrightarrow>
     (\<exists>ps. collectPositionalTokens args profile = Some ps \<and> validatePositionalCount ps profile)
     \<and> getSafeBinSemanticRule bin = None"
  by (auto simp: validateSafeBinArgv_def validateSafeBinSemantics_def split: option.splits)

lemma count_compiled:
  "validatePositionalCount ps (compileSafeBinProfile fx) \<longleftrightarrow>
     nullish (fx_minPositional fx) 0 \<le> int (length ps)
     \<and> (case fx_maxPositional fx of None \<Rightarrow> True | Some hi \<Rightarrow> int (length ps) \<le> hi)"
  by (cases "fx_maxPositional fx") (auto simp: validatePositionalCount_def compileSafeBinProfile_def Let_def)

lemma validate_compiled:
  "validateSafeBinArgv args (compileSafeBinProfile fx) bin \<longleftrightarrow>
     (\<exists>ps. safe_argv fx args ps
        \<and> nullish (fx_minPositional fx) 0 \<le> int (length ps)
        \<and> (case fx_maxPositional fx of None \<Rightarrow> True | Some hi \<Rightarrow> int (length ps) \<le> hi))
     \<and> (case bin of None \<Rightarrow> True | Some b \<Rightarrow> normalizeSafeBinName b \<notin> riskyBins)"
  by (simp add: validate_iff collect_iff rule_iff count_compiled)

text \<open>
  C13: the validator of safe-bin arguments, with its compiled tables of flags and abbreviations and its index loop,
  accepts exactly the argument lists of the grammar whose number of operands is within the limits of the profile,
  and none for the programs that are never safe.
\<close>

theorem safe_bin_argv_refines_grammar:
  "validateSafeBinArgv args (compileSafeBinProfile fx) bin \<longleftrightarrow>
     (\<exists>ps. safe_argv fx args ps
        \<and> nullish (fx_minPositional fx) 0 \<le> int (length ps)
        \<and> (case fx_maxPositional fx of None \<Rightarrow> True | Some hi \<Rightarrow> int (length ps) \<le> hi))
     \<and> (case bin of None \<Rightarrow> True | Some b \<Rightarrow> normalizeSafeBinName b \<notin> riskyBins)"
  by (rule validate_compiled)

text \<open>A token that is no file, glob or expansion to the shell or the program: a literal, or an option that names no
  denied flag and carries a literal value if any.\<close>

definition allowedChar :: "safe_bin_fixture \<Rightarrow> char \<Rightarrow> bool" where
  "allowedChar fx c \<longleftrightarrow> switchFlag fx c \<or> valueFlag fx [CHR ''-'', c]"

definition inertToken :: "safe_bin_fixture \<Rightarrow> string \<Rightarrow> bool" where
  "inertToken fx tok \<longleftrightarrow> isSafeLiteralToken tok
     \<or> (\<exists>flag. denotes (knownFlags fx) tok flag \<and> \<not> deniedFlag fx flag)
     \<or> (\<exists>name flag v. tok = name @ CHR ''='' # v \<and> denotes (knownFlags fx) name flag \<and> valueFlag fx flag \<and> isSafeLiteralToken v)
     \<or> (\<exists>cs v. tok = CHR ''-'' # cs @ v \<and> (\<forall>c\<in>set cs. allowedChar fx c) \<and> isSafeLiteralToken v)"

lemma literal_dashes [simp]: "isSafeLiteralToken ''--''" "isSafeLiteralToken ''-''" "isSafeLiteralToken []"
  by code_simp+

lemma cluster_inert:
  assumes "\<forall>c\<in>set cs. switchFlag fx c" "valueFlag fx [CHR ''-'', c]" "isSafeLiteralToken v"
  shows "inertToken fx (CHR ''-'' # cs @ c # v)"
  unfolding inertToken_def using assms
  by (intro disjI2) (rule exI [of _ "cs @ [c]"], rule exI [of _ v], auto simp: allowedChar_def)

lemma item_inert: "safe_item fx tokens out \<Longrightarrow> list_all (inertToken fx) tokens"
proof (induction rule: safe_item.induct)
  case (cluster cs)
  then show ?case
    by (auto simp: inertToken_def allowedChar_def intro: exI [of _ cs] exI [of _ "[]"])
next
  case (cluster_value cs c v)
  then show ?case using cluster_inert [of cs fx c "[]"] by (auto simp: literalValue_def) (simp add: inertToken_def)
next
  case (cluster_inline cs c v)
  then show ?case using cluster_inert [of cs fx c v] by (simp add: literalValue_def)
qed (auto simp: inertToken_def literalValue_def valueFlag_def)

lemma literal_inert: "isSafeLiteralToken tok \<Longrightarrow> inertToken fx tok"
  by (simp add: inertToken_def)

lemma argv_inert: "safe_argv fx args ps \<Longrightarrow> list_all (inertToken fx) args"
  by (induction rule: safe_argv.induct) (auto simp: list_all_iff literal_inert dest!: item_inert)

text \<open>
  When the validator accepts, every argument is inert: it is a literal without globs, shell expansions and
  path-like beginnings, or an option whose flags are all known and not denied and whose value, inline or next,
  is such a literal.
\<close>

theorem accepted_tokens_are_inert:
  assumes "validateSafeBinArgv args (compileSafeBinProfile fx) bin" "tok \<in> set args"
  shows "inertToken fx tok"
  using assms argv_inert by (auto simp: validate_compiled list_all_iff)

theorem accepted_tokens_are_inert_witness: "inertToken headFixture ''--li=5''"
proof -
  have "validateSafeBinArgv [''-n'', ''5'', ''--li=5''] (compileSafeBinProfile headFixture) (Some ''head'')" by code_simp
  then show ?thesis using accepted_tokens_are_inert [of "[''-n'', ''5'', ''--li=5'']" headFixture "Some ''head''" "''--li=5''"] by simp
qed

text \<open>A token in option position that names a denied flag: exactly, by an abbreviation, with or without an inline value,
  or inside a cluster of short flags.\<close>

definition namesDenied :: "safe_bin_fixture \<Rightarrow> string \<Rightarrow> bool" where
  "namesDenied fx tok \<longleftrightarrow>
     (\<exists>name flag v. (tok = name \<or> tok = name @ CHR ''='' # v) \<and> CHR ''='' \<notin> set name \<and> longFlag name
        \<and> deniedFlag fx flag \<and> js_startsWith flag name \<and> (name = flag \<or> name \<notin> set (knownFlags fx)))
     \<or> (\<exists>cs c v. tok = CHR ''-'' # cs @ c # v \<and> hd (cs @ [c]) \<noteq> CHR ''-'' \<and> (\<forall>c\<in>set cs. switchFlag fx c)
        \<and> deniedFlag fx [CHR ''-'', c])"

lemma denied_cluster:
  "(\<forall>c\<in>set cs. switchFlag fx c) \<Longrightarrow> deniedFlag fx [CHR ''-'', c] \<Longrightarrow>
   consumeCluster args i (fixtureTables fx) (map (\<lambda>c. [CHR ''-'', c]) (cs @ c # v)) cl = None"
  by (induction cs arbitrary: cl) (auto simp: tables_of_fixture switchFlag_def deniedFlag_def)

lemma denied_long:
  assumes "longFlag name" "deniedFlag fx flag" "js_startsWith flag name" "name = flag \<or> name \<notin> set (knownFlags fx)"
  shows "consumeLongOptionToken args i name inl (fixtureTables fx) = None"
proof -
  have "flag \<in> set (knownFlags fx)"
    using assms(1-3) by (auto simp: knownFlags_def deniedFlag_def longFlag_def js_startsWith_iff)
  then have "c = flag" if "denotes (knownFlags fx) name c" for c using that assms(3,4) by (auto simp: denotes_def)
  then have "consumeLongOptionToken args i name inl (fixtureTables fx) \<noteq> Some j" for j
    using assms(2) by (auto simp: long_consumed)
  then show ?thesis by auto
qed

lemma denied_token:
  assumes "namesDenied fx tok" "drop i args = tok # ts"
  shows "collectLoop args (fixtureTables fx) i pos = None"
proof -
  note d = drop_step(1,2) [OF assms(2)]
  from assms(1) consider
      (long) name flag inl where "parseExecArgvToken tok = TokenLong name inl" "longFlag name" "deniedFlag fx flag"
        "js_startsWith flag name" "name = flag \<or> name \<notin> set (knownFlags fx)"
    | (short) cs c v where "tok = CHR ''-'' # cs @ c # v" "hd (cs @ [c]) \<noteq> CHR ''-''" "\<forall>c\<in>set cs. switchFlag fx c"
        "deniedFlag fx [CHR ''-'', c]"
    unfolding namesDenied_def using parse_long by metis
  then show ?thesis
  proof cases
    case long
    then show ?thesis using d denied_long [OF long(2-5)] by (simp add: collectLoop.simps [of _ _ i])
  next
    case (short cs c v)
    let ?cl = "cs @ c # v"
    have "parseExecArgvToken tok = TokenShort ?cl (map (\<lambda>c. [CHR ''-'', c]) ?cl)"
      unfolding parse_short using short(1,2) by (auto simp: hd_append split: if_splits)
    then show ?thesis
      using d denied_cluster [OF short(3,4)] by (simp add: collectLoop.simps [of _ _ i] consumeShortOptionClusterToken_def)
  qed
qed

text \<open>
  A denied flag cannot be smuggled in. After any sequence of allowed items, a token that names a denied flag of
  the profile (in full, abbreviated as GNU tools accept it, with or without an inline value, or inside a cluster of
  short flags) makes the validator refuse the command, whatever follows.
\<close>

theorem denied_flags_are_refused:
  assumes "list_all (\<lambda>(tokens, operands). safe_item fx tokens operands) items" "namesDenied fx tok"
  shows "\<not> validateSafeBinArgv (concat (map fst items) @ tok # ts) (compileSafeBinProfile fx) bin"
proof -
  let ?args = "concat (map fst items) @ tok # ts"
  have "drop (length (concat (map fst items))) ?args = tok # ts" by simp
  from denied_token [OF assms(2) this] have "collectPositionalTokens ?args (compileSafeBinProfile fx) = None"
    using items_consumed [OF assms(1), of 0 ?args "tok # ts" "[]"] by (simp add: collectPositionalTokens_def)
  then show ?thesis by (simp add: validate_iff)
qed

theorem denied_flags_are_refused_witness:
  "\<not> validateSafeBinArgv [''-k'', ''2'', ''--out=x''] (compileSafeBinProfile sortFixture) (Some ''sort'')"
proof -
  have "valueFlag sortFixture ''-k''" "literalValue ''2''" by code_simp+
  then have "safe_item sortFixture [''-k'', ''2''] []"
    using safe_item.cluster_value [of "[]" "CHR ''k''" sortFixture "''2''"] by simp
  moreover have "namesDenied sortFixture ''--out=x''"
  proof -
    have "deniedFlag sortFixture ''--output''" "longFlag ''--out''" "js_startsWith ''--output'' ''--out''"
      "''--out'' \<notin> set (knownFlags sortFixture)" by code_simp+
    then show ?thesis
      unfolding namesDenied_def
      by (intro disjI1 exI [of _ "''--out''"] exI [of _ "''--output''"] exI [of _ "''x''"]) simp
  qed
  ultimately show ?thesis
    using denied_flags_are_refused [of sortFixture "[([''-k'', ''2''], [])]" "''--out=x''" "[]" "Some ''sort''"] by simp
qed

lemma builtin_limits:
  "list_all (\<lambda>(name, fx). name = ''jq'' \<or> name = ''tr'' \<and> fx_minPositional fx = Some 1 \<and> fx_maxPositional fx = Some 2
     \<or> name \<noteq> ''tr'' \<and> fx_minPositional fx = None \<and> fx_maxPositional fx = Some 0) SAFE_BIN_PROFILE_FIXTURES"
  by code_simp

lemma builtin_profile:
  "map_of SAFE_BIN_PROFILES name = map_option compileSafeBinProfile (map_of SAFE_BIN_PROFILE_FIXTURES name)"
  by (simp add: SAFE_BIN_PROFILES_def compileSafeBinProfiles_def map_of_map)

text \<open>A profile that names no flag and no limit.\<close>

definition bareFixture :: safe_bin_fixture where
  "bareFixture = \<lparr>fx_minPositional = None, fx_maxPositional = None, fx_allowedValueFlags = None,
     fx_allowedBooleanFlags = None, fx_deniedFlags = None\<rparr>"

lemma validate_emptyProfile:
  "validateSafeBinArgv args emptyProfile bin = validateSafeBinArgv args (compileSafeBinProfile bareFixture) bin"
proof -
  have "flagTables emptyProfile = flagTables (compileSafeBinProfile bareFixture)" by code_simp
  moreover have "validatePositionalCount ps emptyProfile = validatePositionalCount ps (compileSafeBinProfile bareFixture)" for ps
    by (simp add: validatePositionalCount_def emptyProfile_def bareFixture_def compileSafeBinProfile_def Let_def)
  ultimately show ?thesis by (simp add: validate_iff collectPositionalTokens_def)
qed

text \<open>The arguments that the built-in profiles accept: no operand except for \<open>tr\<close>, which takes one or two.\<close>

definition builtinArgs :: "string \<Rightarrow> string list \<Rightarrow> bool" where
  "builtinArgs name args \<longleftrightarrow>
     (\<exists>fx ps. map_of SAFE_BIN_PROFILE_FIXTURES name = Some fx \<and> safe_argv fx args ps
        \<and> (if name = ''tr'' then length ps \<in> {1, 2} else ps = []))"

lemma validate_builtin:
  assumes "map_of SAFE_BIN_PROFILE_FIXTURES name = Some fx"
  shows "validateSafeBinArgv args (compileSafeBinProfile fx) (Some name) \<longleftrightarrow>
    normalizeSafeBinName name \<notin> riskyBins \<and> builtinArgs name args"
proof (cases "name = ''jq''")
  case True
  moreover have "normalizeSafeBinName ''jq'' \<in> riskyBins" by code_simp
  ultimately show ?thesis by (simp add: validate_compiled)
next
  case False
  then have "name = ''tr'' \<and> fx_minPositional fx = Some 1 \<and> fx_maxPositional fx = Some 2
      \<or> name \<noteq> ''tr'' \<and> fx_minPositional fx = None \<and> fx_maxPositional fx = Some 0"
    using builtin_limits map_of_SomeD [OF assms] by (auto simp: list_all_iff)
  moreover have "1 \<le> int n \<and> int n \<le> 2 \<longleftrightarrow> n \<in> {1, 2}" for n by auto
  ultimately show ?thesis using assms by (auto simp: validate_compiled builtinArgs_def)
qed

text \<open>
  C38: with the built-in profiles, \<open>isSafeBinUsage\<close> accepts a command exactly when the platform is not Windows, its
  executable is a configured safe bin at a trusted path and none of the programs that are never safe, and either it has a
  built-in profile and its arguments are those of the profile's grammar without any operand (for \<open>tr\<close>: with one or two,
  its character sets), or its name is \<open>constructor\<close> or \<open>__proto__\<close>, which every object has as a property: such a bin
  counts as profiled and may take any operands of the grammar without flags.
\<close>

theorem builtin_safe_bins_read_stdin:
  "isSafeBinUsage env argv (Some r) safeBins platform None \<longleftrightarrow>
     \<not> isWindowsPlatform (Some platform)
     \<and> (\<exists>name path. normalizeOptionalLowercaseString (JStr (er_executableName r)) = Some name
          \<and> name \<in> set safeBins \<and> normalizeSafeBinName name \<notin> riskyBins
          \<and> resolveExecutableTrustPath env (Some r) = Some path \<and> path \<noteq> [] \<and> ee_isTrustedPath env path
          \<and> (builtinArgs name (drop 1 argv)
             \<or> name \<in> {''constructor'', ''__proto__''} \<and> (\<exists>ps. safe_argv bareFixture (drop 1 argv) ps)))"
proof -
  have accepts: "(case profileOf SAFE_BIN_PROFILES name of None \<Rightarrow> False
        | Some profile \<Rightarrow> validateSafeBinArgv args profile (Some name)) \<longleftrightarrow>
      normalizeSafeBinName name \<notin> riskyBins
      \<and> (builtinArgs name args \<or> name \<in> {''constructor'', ''__proto__''} \<and> (\<exists>ps. safe_argv bareFixture args ps))" for name args
  proof (cases "map_of SAFE_BIN_PROFILE_FIXTURES name")
    case None
    moreover have "validateSafeBinArgv args emptyProfile (Some name) \<longleftrightarrow>
        normalizeSafeBinName name \<notin> riskyBins \<and> (\<exists>ps. safe_argv bareFixture args ps)"
      by (auto simp: validate_emptyProfile validate_compiled bareFixture_def)
    ultimately show ?thesis by (auto simp: profileOf_def builtin_profile inherited_def builtinArgs_def)
  next
    case (Some fx)
    moreover have "name \<notin> {''constructor'', ''__proto__''}"
      using map_of_SomeD [OF Some] by (auto simp: SAFE_BIN_PROFILE_FIXTURES_def)
    ultimately show ?thesis by (simp add: profileOf_def builtin_profile validate_builtin)
  qed
  have path: "nonEmpty x = Some path \<longleftrightarrow> x = Some path \<and> path \<noteq> []" for x path
    by (auto simp: nonEmpty_def split: option.splits list.splits)
  have none: "nonEmpty x = None \<longleftrightarrow> x = None \<or> x = Some []" for x
    by (auto simp: nonEmpty_def split: option.splits list.splits)
  show ?thesis
    unfolding isSafeBinUsage_def option.case nullish_simps accepts
    by (auto simp: path none split: option.split)
qed

end
