(* ===== verification/Task_Flow_Store.thy ===== *)
theory Task_Flow_Store
  imports Normalization "HOL-Library.AList"
begin

text \<open>
  The records of task flows and their table in the state database:
  \<open>src/tasks/task-flow-registry.types.ts\<close> and \<open>task-flow-registry.store.sqlite.ts\<close>. A row holds the columns of
  one record; the JSON columns hold the value that the text denotes. \<open>parseDeliveryContextJson\<close>, which consults
  the channel registry, is the parameter \<open>readOrigin\<close>. Opening the database and its transactions appear as the
  success or failure of a whole read or write in the theory of the registry.
\<close>

subsection \<open>Records\<close>

datatype sync_mode = TaskMirrored | Managed

datatype flow_status =
  FlowQueued | FlowRunning | FlowWaiting | FlowBlocked | FlowSucceeded | FlowFailed | FlowCancelled | FlowLost

datatype notify_policy = NotifyDoneOnly | NotifyStateChanges | NotifySilent

record task_flow =
  tf_flowId :: string
  tf_syncMode :: sync_mode
  tf_ownerKey :: string
  tf_requesterOrigin :: "js_value option"
  tf_controllerId :: "string option"
  tf_revision :: int
  tf_status :: flow_status
  tf_notifyPolicy :: notify_policy
  tf_goal :: string
  tf_currentStep :: "string option"
  tf_blockedTaskId :: "string option"
  tf_blockedSummary :: "string option"
  tf_stateJson :: "js_value option"
  tf_waitJson :: "js_value option"
  tf_cancelRequestedAt :: "int option"
  tf_createdAt :: int
  tf_updatedAt :: int
  tf_endedAt :: "int option"

datatype flow_error =
    InvalidPersisted string string
  | OwnerKeyRequired
  | ControllerIdRequired
  | DatabaseError string
  | RestoreFailure flow_error
  | RestoreInProgress
  | MaintenanceRefused flow_error

text \<open>A trimmed, non-empty string of an optional property.\<close>

definition optionalString :: "string option \<Rightarrow> string option" where
  "optionalString s = normalizeOptionalString (case s of Some t \<Rightarrow> JStr t | None \<Rightarrow> JUndefined)"

fun flowStatusText :: "flow_status \<Rightarrow> string" where
  "flowStatusText FlowQueued = ''queued''"
| "flowStatusText FlowRunning = ''running''"
| "flowStatusText FlowWaiting = ''waiting''"
| "flowStatusText FlowBlocked = ''blocked''"
| "flowStatusText FlowSucceeded = ''succeeded''"
| "flowStatusText FlowFailed = ''failed''"
| "flowStatusText FlowCancelled = ''cancelled''"
| "flowStatusText FlowLost = ''lost''"

fun syncModeText :: "sync_mode \<Rightarrow> string" where
  "syncModeText TaskMirrored = ''task_mirrored''"
| "syncModeText Managed = ''managed''"

fun notifyPolicyText :: "notify_policy \<Rightarrow> string" where
  "notifyPolicyText NotifyDoneOnly = ''done_only''"
| "notifyPolicyText NotifyStateChanges = ''state_changes''"
| "notifyPolicyText NotifySilent = ''silent''"

definition TASK_FLOW_SYNC_MODES :: "(string \<times> sync_mode) list" where
  "TASK_FLOW_SYNC_MODES = map (\<lambda>m. (syncModeText m, m)) [TaskMirrored, Managed]"

definition TASK_FLOW_STATUSES :: "(string \<times> flow_status) list" where
  "TASK_FLOW_STATUSES = map (\<lambda>s. (flowStatusText s, s))
     [FlowQueued, FlowRunning, FlowWaiting, FlowBlocked, FlowSucceeded, FlowFailed, FlowCancelled, FlowLost]"

definition TASK_NOTIFY_POLICIES :: "(string \<times> notify_policy) list" where
  "TASK_NOTIFY_POLICIES = map (\<lambda>p. (notifyPolicyText p, p)) [NotifyDoneOnly, NotifyStateChanges, NotifySilent]"

definition parsePersistedFlowValue :: "string \<Rightarrow> (string \<times> 'a) list \<Rightarrow> string \<Rightarrow> flow_error + 'a" where
  "parsePersistedFlowValue value values label =
     (case map_of values value of Some v \<Rightarrow> Inr v | None \<Rightarrow> Inl (InvalidPersisted label value))"

definition parseOptionalTaskFlowSyncMode :: "string option \<Rightarrow> flow_error + sync_mode option" where
  "parseOptionalTaskFlowSyncMode value =
     (case value of
        None \<Rightarrow> Inr None
      | Some v \<Rightarrow> if v = [] then Inr None
          else (case parsePersistedFlowValue v TASK_FLOW_SYNC_MODES ''sync mode'' of Inl e \<Rightarrow> Inl e | Inr m \<Rightarrow> Inr (Some m)))"

definition parseTaskFlowStatus :: "string \<Rightarrow> flow_error + flow_status" where
  "parseTaskFlowStatus value = parsePersistedFlowValue value TASK_FLOW_STATUSES ''status''"

definition parseTaskNotifyPolicy :: "string \<Rightarrow> flow_error + notify_policy" where
  "parseTaskNotifyPolicy value = parsePersistedFlowValue value TASK_NOTIFY_POLICIES ''notify policy''"

subsection \<open>Rows\<close>

datatype sqlite_number = SqlNull | SqlNumber int | SqlBigint int

record flow_row =
  fl_flow_id :: string
  fl_sync_mode :: "string option"
  fl_shape :: "string option"
  fl_owner_key :: string
  fl_requester_origin_json :: "js_value option"
  fl_controller_id :: "string option"
  fl_revision :: sqlite_number
  fl_status :: string
  fl_notify_policy :: string
  fl_goal :: string
  fl_current_step :: "string option"
  fl_blocked_task_id :: "string option"
  fl_blocked_summary :: "string option"
  fl_state_json :: "js_value option"
  fl_wait_json :: "js_value option"
  fl_cancel_requested_at :: sqlite_number
  fl_created_at :: sqlite_number
  fl_updated_at :: sqlite_number
  fl_ended_at :: sqlite_number

definition normalizeSqliteNumber :: "sqlite_number \<Rightarrow> int option" where
  "normalizeSqliteNumber value =
     (case value of
        SqlBigint n \<Rightarrow> if n > 9007199254740991 \<or> n < - 9007199254740991 then None else Some n
      | SqlNumber n \<Rightarrow> Some n
      | SqlNull \<Rightarrow> None)"

definition numberColumn :: "int option \<Rightarrow> sqlite_number" where
  "numberColumn value = (case value of Some n \<Rightarrow> SqlNumber n | None \<Rightarrow> SqlNull)"

definition nonEmptyColumn :: "string option \<Rightarrow> string option" where
  "nonEmptyColumn value = (case value of Some [] \<Rightarrow> None | _ \<Rightarrow> value)"

definition rowToSyncMode :: "flow_row \<Rightarrow> flow_error + sync_mode" where
  "rowToSyncMode row =
     (case parseOptionalTaskFlowSyncMode (fl_sync_mode row) of
        Inl e \<Rightarrow> Inl e
      | Inr (Some m) \<Rightarrow> Inr m
      | Inr None \<Rightarrow> Inr (if fl_shape row = Some ''single_task'' then TaskMirrored else Managed))"

definition rowToFlowRecord :: "(js_value \<Rightarrow> js_value option) \<Rightarrow> flow_row \<Rightarrow> flow_error + task_flow" where
  "rowToFlowRecord readOrigin row =
     (case rowToSyncMode row of
        Inl e \<Rightarrow> Inl e
      | Inr syncMode \<Rightarrow>
          (case parseTaskFlowStatus (fl_status row) of
             Inl e \<Rightarrow> Inl e
           | Inr status \<Rightarrow>
               (case parseTaskNotifyPolicy (fl_notify_policy row) of
                  Inl e \<Rightarrow> Inl e
                | Inr notifyPolicy \<Rightarrow>
                    Inr \<lparr>tf_flowId = fl_flow_id row, tf_syncMode = syncMode, tf_ownerKey = fl_owner_key row,
                         tf_requesterOrigin = Option.bind (fl_requester_origin_json row) readOrigin,
                         tf_controllerId = nonEmptyColumn (fl_controller_id row),
                         tf_revision = nullish (normalizeSqliteNumber (fl_revision row)) 0,
                         tf_status = status, tf_notifyPolicy = notifyPolicy, tf_goal = fl_goal row,
                         tf_currentStep = nonEmptyColumn (fl_current_step row),
                         tf_blockedTaskId = nonEmptyColumn (fl_blocked_task_id row),
                         tf_blockedSummary = nonEmptyColumn (fl_blocked_summary row),
                         tf_stateJson = fl_state_json row, tf_waitJson = fl_wait_json row,
                         tf_cancelRequestedAt = normalizeSqliteNumber (fl_cancel_requested_at row),
                         tf_createdAt = nullish (normalizeSqliteNumber (fl_created_at row)) 0,
                         tf_updatedAt = nullish (normalizeSqliteNumber (fl_updated_at row)) 0,
                         tf_endedAt = normalizeSqliteNumber (fl_ended_at row)\<rparr>)))"

definition bindFlowRecord :: "task_flow \<Rightarrow> flow_row" where
  "bindFlowRecord record =
     \<lparr>fl_flow_id = tf_flowId record, fl_sync_mode = Some (syncModeText (tf_syncMode record)), fl_shape = None,
      fl_owner_key = tf_ownerKey record, fl_requester_origin_json = tf_requesterOrigin record,
      fl_controller_id = tf_controllerId record, fl_revision = SqlNumber (tf_revision record),
      fl_status = flowStatusText (tf_status record), fl_notify_policy = notifyPolicyText (tf_notifyPolicy record),
      fl_goal = tf_goal record, fl_current_step = tf_currentStep record,
      fl_blocked_task_id = tf_blockedTaskId record, fl_blocked_summary = tf_blockedSummary record,
      fl_state_json = tf_stateJson record, fl_wait_json = tf_waitJson record,
      fl_cancel_requested_at = numberColumn (tf_cancelRequestedAt record),
      fl_created_at = SqlNumber (tf_createdAt record), fl_updated_at = SqlNumber (tf_updatedAt record),
      fl_ended_at = numberColumn (tf_endedAt record)\<rparr>"

text \<open>\<open>INSERT ... ON CONFLICT (flow_id) DO UPDATE\<close> replaces every column but the key and the shape.\<close>

fun upsertFlowRow :: "flow_row \<Rightarrow> flow_row list \<Rightarrow> flow_row list" where
  "upsertFlowRow row [] = [row]"
| "upsertFlowRow row (r # rows) =
     (if fl_flow_id r = fl_flow_id row then row\<lparr>fl_shape := fl_shape r\<rparr> # rows else r # upsertFlowRow row rows)"

definition sqliteNumberLess :: "sqlite_number \<Rightarrow> sqlite_number \<Rightarrow> bool" where
  "sqliteNumberLess a b =
     (case (a, b) of
        (SqlNull, SqlNull) \<Rightarrow> False
      | (SqlNull, _) \<Rightarrow> True
      | (_, SqlNull) \<Rightarrow> False
      | (SqlNumber m, SqlNumber n) \<Rightarrow> m < n
      | (SqlNumber m, SqlBigint n) \<Rightarrow> m < n
      | (SqlBigint m, SqlNumber n) \<Rightarrow> m < n
      | (SqlBigint m, SqlBigint n) \<Rightarrow> m < n)"

definition compareRows :: "flow_row \<Rightarrow> flow_row \<Rightarrow> int" where
  "compareRows a b =
     (if sqliteNumberLess (fl_created_at a) (fl_created_at b) then -1
      else if sqliteNumberLess (fl_created_at b) (fl_created_at a) then 1
      else compareCodeUnits (fl_flow_id a) (fl_flow_id b))"

definition selectFlowRows :: "flow_row list \<Rightarrow> flow_row list" where
  "selectFlowRows rows = js_toSorted compareRows rows"

fun readRows :: "(js_value \<Rightarrow> js_value option) \<Rightarrow> flow_row list \<Rightarrow> flow_error + (string \<times> task_flow) list" where
  "readRows readOrigin [] = Inr []"
| "readRows readOrigin (row # rows) =
     (case rowToFlowRecord readOrigin row of
        Inl e \<Rightarrow> Inl e
      | Inr record \<Rightarrow>
          (case readRows readOrigin rows of
             Inl e \<Rightarrow> Inl e
           | Inr records \<Rightarrow> Inr ((fl_flow_id row, record) # records)))"

definition loadTaskFlowRegistryStateFromSqlite ::
  "(js_value \<Rightarrow> js_value option) \<Rightarrow> flow_row list \<Rightarrow> flow_error + (string \<times> task_flow) list" where
  "loadTaskFlowRegistryStateFromSqlite readOrigin rows = readRows readOrigin (selectFlowRows rows)"

definition upsertTaskFlowRegistryRecordToSqlite :: "task_flow \<Rightarrow> flow_row list \<Rightarrow> flow_row list" where
  "upsertTaskFlowRegistryRecordToSqlite flow rows = upsertFlowRow (bindFlowRecord flow) rows"

definition deleteTaskFlowRegistryRecordFromSqlite :: "string \<Rightarrow> flow_row list \<Rightarrow> flow_row list" where
  "deleteTaskFlowRegistryRecordFromSqlite flowId rows = filter (\<lambda>row. fl_flow_id row \<noteq> flowId) rows"

definition pruneFlowsNotInSnapshot :: "string list \<Rightarrow> flow_row list \<Rightarrow> flow_row list" where
  "pruneFlowsNotInSnapshot ids rows = filter (\<lambda>row. fl_flow_id row \<in> set ids) rows"

definition saveTaskFlowRegistryStateToSqlite :: "(string \<times> task_flow) list \<Rightarrow> flow_row list \<Rightarrow> flow_row list" where
  "saveTaskFlowRegistryStateToSqlite flows rows =
     (let flowIds = map fst flows
      in if flowIds = [] then []
         else foldl (\<lambda>rs flow. upsertFlowRow (bindFlowRecord flow) rs) (pruneFlowsNotInSnapshot flowIds rows) (map snd flows))"

end
