(* ===== verification/Task_Records.thy ===== *)
theory Task_Records
  imports Task_Flow_Store Session_Key
begin

text \<open>
  Task records and the pure policies over them: \<open>src/tasks/task-registry.types.ts\<close>, \<open>task-registry-records.ts\<close>,
  \<open>task-retention.ts\<close>, \<open>task-cancellation-state.ts\<close>, \<open>task-registry-common.ts\<close>, \<open>task-registry.summary.ts\<close> and the
  predicates of \<open>task-executor-policy.ts\<close>.
\<close>

subsection \<open>Records\<close>

datatype task_runtime = SubagentTask | AcpTask | CliTask | CronTask

datatype task_status =
  TaskQueued | TaskRunning | TaskSucceeded | TaskFailed | TaskTimedOut | TaskCancelled | TaskLost

datatype delivery_status =
  DeliveryPending | Delivered | SessionQueued | DeliveryFailed | ParentMissing | NotApplicable

datatype terminal_outcome = OutcomeSucceeded | OutcomeBlocked

datatype scope_kind = SessionScope | SystemScope

record task_record =
  tr_taskId :: string
  tr_runtime :: task_runtime
  tr_taskKind :: "string option"
  tr_sourceId :: "string option"
  tr_requesterSessionKey :: string
  tr_ownerKey :: string
  tr_scopeKind :: scope_kind
  tr_childSessionKey :: "string option"
  tr_parentFlowId :: "string option"
  tr_parentTaskId :: "string option"
  tr_agentId :: "string option"
  tr_requesterAgentId :: "string option"
  tr_runId :: "string option"
  tr_label :: "string option"
  tr_task :: string
  tr_status :: task_status
  tr_deliveryStatus :: delivery_status
  tr_notifyPolicy :: notify_policy
  tr_createdAt :: int
  tr_startedAt :: "int option"
  tr_endedAt :: "int option"
  tr_lastEventAt :: "int option"
  tr_cleanupAfter :: "int option"
  tr_toolUseCount :: "int option"
  tr_lastToolName :: "string option"
  tr_error :: "string option"
  tr_progressSummary :: "string option"
  tr_terminalSummary :: "string option"
  tr_terminalOutcome :: "terminal_outcome option"
  tr_detail :: "js_value option"

record task_delivery =
  td_taskId :: string
  td_requesterOrigin :: "js_value option"
  td_lastNotifiedEventAt :: "int option"

datatype task_event_kind = StatusEvent task_status | ProgressEvent

record task_event =
  ev_at :: int
  ev_taskKind :: task_event_kind
  ev_summary :: "string option"

fun taskRuntimeText :: "task_runtime \<Rightarrow> string" where
  "taskRuntimeText SubagentTask = ''subagent''"
| "taskRuntimeText AcpTask = ''acp''"
| "taskRuntimeText CliTask = ''cli''"
| "taskRuntimeText CronTask = ''cron''"

fun taskStatusText :: "task_status \<Rightarrow> string" where
  "taskStatusText TaskQueued = ''queued''"
| "taskStatusText TaskRunning = ''running''"
| "taskStatusText TaskSucceeded = ''succeeded''"
| "taskStatusText TaskFailed = ''failed''"
| "taskStatusText TaskTimedOut = ''timed_out''"
| "taskStatusText TaskCancelled = ''cancelled''"
| "taskStatusText TaskLost = ''lost''"

fun deliveryStatusText :: "delivery_status \<Rightarrow> string" where
  "deliveryStatusText DeliveryPending = ''pending''"
| "deliveryStatusText Delivered = ''delivered''"
| "deliveryStatusText SessionQueued = ''session_queued''"
| "deliveryStatusText DeliveryFailed = ''failed''"
| "deliveryStatusText ParentMissing = ''parent_missing''"
| "deliveryStatusText NotApplicable = ''not_applicable''"

fun terminalOutcomeText :: "terminal_outcome \<Rightarrow> string" where
  "terminalOutcomeText OutcomeSucceeded = ''succeeded''"
| "terminalOutcomeText OutcomeBlocked = ''blocked''"

fun scopeKindText :: "scope_kind \<Rightarrow> string" where
  "scopeKindText SessionScope = ''session''"
| "scopeKindText SystemScope = ''system''"

definition TASK_RUNTIMES :: "(string \<times> task_runtime) list" where
  "TASK_RUNTIMES = map (\<lambda>r. (taskRuntimeText r, r)) [SubagentTask, AcpTask, CliTask, CronTask]"

definition TASK_STATUSES :: "(string \<times> task_status) list" where
  "TASK_STATUSES = map (\<lambda>s. (taskStatusText s, s))
     [TaskQueued, TaskRunning, TaskSucceeded, TaskFailed, TaskTimedOut, TaskCancelled, TaskLost]"

definition TASK_DELIVERY_STATUSES :: "(string \<times> delivery_status) list" where
  "TASK_DELIVERY_STATUSES = map (\<lambda>s. (deliveryStatusText s, s))
     [DeliveryPending, Delivered, SessionQueued, DeliveryFailed, ParentMissing, NotApplicable]"

definition TASK_TERMINAL_OUTCOMES :: "(string \<times> terminal_outcome) list" where
  "TASK_TERMINAL_OUTCOMES = map (\<lambda>s. (terminalOutcomeText s, s)) [OutcomeSucceeded, OutcomeBlocked]"

definition TASK_SCOPE_KINDS :: "(string \<times> scope_kind) list" where
  "TASK_SCOPE_KINDS = map (\<lambda>s. (scopeKindText s, s)) [SessionScope, SystemScope]"

text \<open>The error of a persisted value names the label and the value, as for flows.\<close>

definition parsePersistedTaskValue :: "string \<Rightarrow> (string \<times> 'a) list \<Rightarrow> string \<Rightarrow> flow_error + 'a" where
  "parsePersistedTaskValue value values label =
     (case map_of values value of Some v \<Rightarrow> Inr v | None \<Rightarrow> Inl (InvalidPersisted label value))"

definition parseTaskRuntime :: "string \<Rightarrow> flow_error + task_runtime" where
  "parseTaskRuntime value = parsePersistedTaskValue value TASK_RUNTIMES ''runtime''"

definition parseTaskStatus :: "string \<Rightarrow> flow_error + task_status" where
  "parseTaskStatus value = parsePersistedTaskValue value TASK_STATUSES ''status''"

definition parseTaskDeliveryStatus :: "string \<Rightarrow> flow_error + delivery_status" where
  "parseTaskDeliveryStatus value = parsePersistedTaskValue value TASK_DELIVERY_STATUSES ''delivery status''"

definition parseTaskScopeKind :: "string \<Rightarrow> flow_error + scope_kind" where
  "parseTaskScopeKind value = parsePersistedTaskValue value TASK_SCOPE_KINDS ''scope kind''"

definition parseOptionalTaskTerminalOutcome :: "string option \<Rightarrow> flow_error + terminal_outcome option" where
  "parseOptionalTaskTerminalOutcome value =
     (case value of
        None \<Rightarrow> Inr None
      | Some v \<Rightarrow> if v = [] then Inr None
          else map_sum id Some (parsePersistedTaskValue v TASK_TERMINAL_OUTCOMES ''terminal outcome''))"

lemma parse_task_text [simp]:
  "parseTaskRuntime (taskRuntimeText r) = Inr r" "parseTaskStatus (taskStatusText s) = Inr s"
  "parseTaskDeliveryStatus (deliveryStatusText d) = Inr d" "parseTaskScopeKind (scopeKindText k) = Inr k"
  "parseOptionalTaskTerminalOutcome (map_option terminalOutcomeText t) = Inr t"
proof -
  show "parseTaskRuntime (taskRuntimeText r) = Inr r"
    by (cases r) (simp_all add: parseTaskRuntime_def parsePersistedTaskValue_def TASK_RUNTIMES_def)
  show "parseTaskStatus (taskStatusText s) = Inr s"
    by (cases s) (simp_all add: parseTaskStatus_def parsePersistedTaskValue_def TASK_STATUSES_def)
  show "parseTaskDeliveryStatus (deliveryStatusText d) = Inr d"
    by (cases d) (simp_all add: parseTaskDeliveryStatus_def parsePersistedTaskValue_def TASK_DELIVERY_STATUSES_def)
  show "parseTaskScopeKind (scopeKindText k) = Inr k"
    by (cases k) (simp_all add: parseTaskScopeKind_def parsePersistedTaskValue_def TASK_SCOPE_KINDS_def)
  have "parseOptionalTaskTerminalOutcome (Some (terminalOutcomeText x)) = Inr (Some x)" for x
    by (cases x) (simp_all add: parseOptionalTaskTerminalOutcome_def parsePersistedTaskValue_def TASK_TERMINAL_OUTCOMES_def)
  then show "parseOptionalTaskTerminalOutcome (map_option terminalOutcomeText t) = Inr t"
    by (cases t) (simp_all add: parseOptionalTaskTerminalOutcome_def)
qed

subsection \<open>Timestamps and retention\<close>

definition lowerCreatedAt :: "int \<Rightarrow> int option \<Rightarrow> int" where
  "lowerCreatedAt createdAt candidate =
     (case candidate of Some n \<Rightarrow> if n < createdAt then n else createdAt | None \<Rightarrow> createdAt)"

definition normalizeTaskTimestamps :: "task_record \<Rightarrow> task_record" where
  "normalizeTaskTimestamps task =
     (let createdAt = foldl lowerCreatedAt (tr_createdAt task) [tr_startedAt task, tr_lastEventAt task, tr_endedAt task];
          startedAt = map_option (\<lambda>n. max n createdAt) (tr_startedAt task);
          lastEventAt = map_option (\<lambda>n. max n (nullish startedAt createdAt)) (tr_lastEventAt task);
          endedAt = map_option (\<lambda>n. max n (nullish startedAt createdAt)) (tr_endedAt task)
      in if createdAt = tr_createdAt task \<and> startedAt = tr_startedAt task \<and> lastEventAt = tr_lastEventAt task
            \<and> endedAt = tr_endedAt task then task
         else task\<lparr>tr_createdAt := createdAt, tr_startedAt := startedAt, tr_lastEventAt := lastEventAt, tr_endedAt := endedAt\<rparr>)"

definition DEFAULT_TASK_RETENTION_MS :: int where
  "DEFAULT_TASK_RETENTION_MS = 7 * 24 * 60 * 60000"

definition LOST_TASK_RETENTION_MS :: int where
  "LOST_TASK_RETENTION_MS = 24 * 60 * 60000"

definition resolveTaskRetentionMs :: "task_status \<Rightarrow> int" where
  "resolveTaskRetentionMs status = (if status = TaskLost then LOST_TASK_RETENTION_MS else DEFAULT_TASK_RETENTION_MS)"

definition resolveTaskCleanupAfter :: "task_record \<Rightarrow> int option" where
  "resolveTaskCleanupAfter task =
     (if tr_runtime task = CronTask \<and> tr_status task \<noteq> TaskLost then None
      else Some (nullish (tr_endedAt task) (nullish (tr_lastEventAt task) (tr_createdAt task))
                 + resolveTaskRetentionMs (tr_status task)))"

definition resolveEffectiveTaskCleanupAfter :: "task_record \<Rightarrow> int option" where
  "resolveEffectiveTaskCleanupAfter task =
     (case resolveTaskCleanupAfter task of
        None \<Rightarrow> None
      | Some statusCleanupAfter \<Rightarrow>
          (case tr_cleanupAfter task of
             None \<Rightarrow> Some statusCleanupAfter
           | Some c \<Rightarrow> Some (if tr_status task = TaskLost then min c statusCleanupAfter else c)))"

subsection \<open>States of a task\<close>

definition SUBAGENT_KILL_TASK_ERROR :: string where
  "SUBAGENT_KILL_TASK_ERROR = ''Subagent run killed.''"

definition isProvisionalSubagentKillTask :: "task_record \<Rightarrow> bool" where
  "isProvisionalSubagentKillTask task \<longleftrightarrow>
     tr_runtime task = SubagentTask \<and> tr_status task = TaskCancelled \<and> tr_error task = Some SUBAGENT_KILL_TASK_ERROR"

definition isTaskFlowCancellationPending :: "task_record \<Rightarrow> bool" where
  "isTaskFlowCancellationPending task \<longleftrightarrow>
     tr_status task = TaskQueued \<or> tr_status task = TaskRunning \<or> isProvisionalSubagentKillTask task"

definition isTerminalTaskStatus :: "task_status \<Rightarrow> bool" where
  "isTerminalTaskStatus status \<longleftrightarrow>
     status = TaskSucceeded \<or> status = TaskFailed \<or> status = TaskTimedOut \<or> status = TaskCancelled \<or> status = TaskLost"

definition isActiveTaskStatus :: "task_status \<Rightarrow> bool" where
  "isActiveTaskStatus status \<longleftrightarrow> status = TaskQueued \<or> status = TaskRunning"

definition isTerminalFlowStatus :: "flow_status \<Rightarrow> bool" where
  "isTerminalFlowStatus status \<longleftrightarrow>
     status = FlowSucceeded \<or> status = FlowFailed \<or> status = FlowCancelled \<or> status = FlowLost"

definition shouldApplyRunScopedStatusUpdate ::
  "task_record \<Rightarrow> task_status \<Rightarrow> string option \<Rightarrow> int option \<Rightarrow> bool" where
  "shouldApplyRunScopedStatusUpdate current nextStatus nextError nextEndedAt =
     (if tr_runtime current = SubagentTask \<and> nextStatus = TaskCancelled \<and> nextError = Some SUBAGENT_KILL_TASK_ERROR
         \<and> isTerminalTaskStatus (tr_status current)
         \<and> \<not> (tr_status current = TaskCancelled \<and> tr_error current = Some SUBAGENT_KILL_TASK_ERROR) then False
      else if tr_status current = nextStatus then True
      else if \<not> isTerminalTaskStatus (tr_status current) then True
      else if \<not> isTerminalTaskStatus nextStatus then False
      else if tr_status current = TaskCancelled
              \<and> (nextStatus = TaskSucceeded \<or> nextStatus = TaskFailed \<or> nextStatus = TaskTimedOut)
      then (tr_runtime current = SubagentTask
              \<and> (case (tr_endedAt current, nextEndedAt) of (Some c, Some n) \<Rightarrow> n < c | _ \<Rightarrow> False))
           \<or> (tr_runtime current = SubagentTask \<and> js_trim (nullish (tr_childSessionKey current) []) \<noteq> []
              \<and> tr_error current = Some SUBAGENT_KILL_TASK_ERROR)
      else tr_status current = TaskSucceeded \<and> nextStatus \<noteq> TaskLost)"

subsection \<open>Defaults of a new task\<close>

datatype task_error =
    TaskOwnerRequired
  | LinkNotSession string
  | LinkFlowNotFound string
  | LinkOwnerMismatch string
  | LinkCancelRequested string flow_status
  | LinkTerminal string flow_status
  | FlowRegistryError flow_error
  | TaskRestoreFailure flow_error
  | TaskRestoreInProgress
  | SystemEventError

definition assertTaskOwner :: "string \<Rightarrow> scope_kind \<Rightarrow> task_error + unit" where
  "assertTaskOwner ownerKey scopeKind =
     (if js_trim ownerKey = [] \<and> scopeKind \<noteq> SystemScope then Inl TaskOwnerRequired else Inr ())"

definition ensureDeliveryStatus :: "string \<Rightarrow> scope_kind \<Rightarrow> delivery_status" where
  "ensureDeliveryStatus ownerKey scopeKind =
     (if scopeKind = SystemScope then NotApplicable
      else if js_trim ownerKey \<noteq> [] then DeliveryPending else ParentMissing)"

definition ensureTaskNotifyPolicy ::
  "notify_policy option \<Rightarrow> delivery_status option \<Rightarrow> string \<Rightarrow> scope_kind \<Rightarrow> notify_policy" where
  "ensureTaskNotifyPolicy notifyPolicy deliveryStatus ownerKey scopeKind =
     (case notifyPolicy of
        Some p \<Rightarrow> p
      | None \<Rightarrow>
          if nullish deliveryStatus (ensureDeliveryStatus ownerKey scopeKind) = NotApplicable
          then NotifySilent else NotifyDoneOnly)"

definition resolveTaskScopeKind :: "scope_kind option \<Rightarrow> string \<Rightarrow> scope_kind" where
  "resolveTaskScopeKind scopeKind requesterSessionKey =
     (case scopeKind of
        Some k \<Rightarrow> k
      | None \<Rightarrow> if js_trim requesterSessionKey \<noteq> [] then SessionScope else SystemScope)"

definition resolveTaskRequesterSessionKey :: "string option \<Rightarrow> string option \<Rightarrow> scope_kind option \<Rightarrow> string" where
  "resolveTaskRequesterSessionKey requesterSessionKey ownerKey scopeKind =
     (let requester = js_trim (nullish requesterSessionKey [])
      in if requester \<noteq> [] then requester
         else if scopeKind = Some SystemScope then []
         else js_trim (nullish ownerKey []))"

definition resolveTaskOwnerKey :: "string \<Rightarrow> string option \<Rightarrow> string" where
  "resolveTaskOwnerKey requesterSessionKey ownerKey =
     (let owner = js_trim (nullish ownerKey []) in if owner \<noteq> [] then owner else js_trim requesterSessionKey)"

function collapseSpaces :: "string \<Rightarrow> string" where
  "collapseSpaces [] = []"
| "collapseSpaces (c # cs) =
     (if js_space c then CHR '' '' # collapseSpaces (dropWhile js_space cs) else c # collapseSpaces cs)"
  by pat_completeness auto
termination
  by (relation "measure length") (auto simp: le_imp_less_Suc length_dropWhile_le)

definition normalizeTaskSummary :: "string option \<Rightarrow> string option" where
  "normalizeTaskSummary value =
     (case value of
        None \<Rightarrow> None
      | Some v \<Rightarrow> let normalized = js_trim (collapseSpaces v) in if normalized \<noteq> [] then Some normalized else None)"

definition normalizeTaskStatus :: "task_status option \<Rightarrow> task_status" where
  "normalizeTaskStatus value = nullish value TaskQueued"

definition resolveTaskTerminalOutcome :: "task_status \<Rightarrow> terminal_outcome option \<Rightarrow> terminal_outcome option" where
  "resolveTaskTerminalOutcome status terminalOutcome =
     (case terminalOutcome of
        Some x \<Rightarrow> Some x
      | None \<Rightarrow> if status = TaskSucceeded then Some OutcomeSucceeded else None)"

definition appendTaskEvent :: "int \<Rightarrow> task_event_kind \<Rightarrow> string option \<Rightarrow> task_event" where
  "appendTaskEvent at kind summary = \<lparr>ev_at = at, ev_taskKind = kind, ev_summary = normalizeTaskSummary summary\<rparr>"

definition resolveTaskAgentId :: "string option \<Rightarrow> string option \<Rightarrow> string \<Rightarrow> string \<Rightarrow> string option" where
  "resolveTaskAgentId explicitAgentId childSessionKey ownerKey requesterSessionKey =
     nullish_or (optionalString explicitAgentId)
       (nullish_or (map_option pk_agentId (parseAgentSessionKey childSessionKey))
         (nullish_or (map_option pk_agentId (parseAgentSessionKey (Some ownerKey)))
           (map_option pk_agentId (parseAgentSessionKey (Some requesterSessionKey)))))"

definition resolveTaskRequesterAgentId :: "string option \<Rightarrow> string \<Rightarrow> string \<Rightarrow> string option" where
  "resolveTaskRequesterAgentId explicitRequesterAgentId ownerKey requesterSessionKey =
     nullish_or (map_option (\<lambda>a. normalizeAgentId (Some a)) (optionalString explicitRequesterAgentId))
       (nullish_or (map_option pk_agentId (parseAgentSessionKey (Some ownerKey)))
         (map_option pk_agentId (parseAgentSessionKey (Some requesterSessionKey))))"

subsection \<open>Delivery policy\<close>

definition shouldAutoDeliverTaskTerminalUpdate :: "task_record \<Rightarrow> bool" where
  "shouldAutoDeliverTaskTerminalUpdate task =
     (if tr_notifyPolicy task = NotifySilent then False
      else if tr_runtime task = SubagentTask \<and> tr_status task \<noteq> TaskCancelled then False
      else if tr_runtime task = SubagentTask \<and> tr_status task = TaskCancelled
              \<and> tr_error task = Some SUBAGENT_KILL_TASK_ERROR then False
      else if \<not> isTerminalTaskStatus (tr_status task) then False
      else tr_deliveryStatus task = DeliveryPending)"

definition shouldAutoDeliverTaskStateChange :: "task_record \<Rightarrow> bool" where
  "shouldAutoDeliverTaskStateChange task \<longleftrightarrow>
     tr_notifyPolicy task = NotifyStateChanges \<and> tr_deliveryStatus task = DeliveryPending
     \<and> \<not> isTerminalTaskStatus (tr_status task)"

definition shouldSuppressDuplicateTerminalDelivery :: "task_record \<Rightarrow> string option \<Rightarrow> bool \<Rightarrow> bool" where
  "shouldSuppressDuplicateTerminalDelivery task preferredTaskId peerDeliveryCovered =
     (if js_trim (nullish (tr_runId task) []) = [] then False
      else if \<not> (tr_runtime task = AcpTask \<or> (tr_runtime task = SubagentTask \<and> tr_status task = TaskCancelled)) then False
      else if tr_runtime task = SubagentTask \<and> peerDeliveryCovered then True
      else (case preferredTaskId of Some k \<Rightarrow> k \<noteq> [] \<and> k \<noteq> tr_taskId task | None \<Rightarrow> False))"

definition shouldUseParentReviewTaskTerminalMessage :: "task_record \<Rightarrow> bool" where
  "shouldUseParentReviewTaskTerminalMessage task \<longleftrightarrow>
     tr_runtime task = AcpTask \<and> tr_status task = TaskSucceeded \<and> tr_terminalOutcome task \<noteq> Some OutcomeBlocked
     \<and> js_trim (nullish (tr_childSessionKey task) []) \<noteq> []"

subsection \<open>Summaries\<close>

record task_summary =
  ts_total :: nat
  ts_active :: nat
  ts_terminal :: nat
  ts_failures :: nat
  ts_byStatus :: "task_status \<Rightarrow> nat"
  ts_byRuntime :: "task_runtime \<Rightarrow> nat"

definition createEmptyTaskRegistrySummary :: task_summary where
  "createEmptyTaskRegistrySummary =
     \<lparr>ts_total = 0, ts_active = 0, ts_terminal = 0, ts_failures = 0, ts_byStatus = (\<lambda>_. 0), ts_byRuntime = (\<lambda>_. 0)\<rparr>"

definition countTask :: "task_summary \<Rightarrow> task_record \<Rightarrow> task_summary" where
  "countTask summary task =
     (let active = tr_status task = TaskQueued \<or> tr_status task = TaskRunning;
          failure = tr_status task = TaskFailed \<or> tr_status task = TaskTimedOut \<or> tr_status task = TaskLost
      in \<lparr>ts_total = ts_total summary + 1,
          ts_active = (if active then ts_active summary + 1 else ts_active summary),
          ts_terminal = (if active then ts_terminal summary else ts_terminal summary + 1),
          ts_failures = (if failure then ts_failures summary + 1 else ts_failures summary),
          ts_byStatus = (ts_byStatus summary)(tr_status task := ts_byStatus summary (tr_status task) + 1),
          ts_byRuntime = (ts_byRuntime summary)(tr_runtime task := ts_byRuntime summary (tr_runtime task) + 1)\<rparr>)"

definition summarizeTaskRecords :: "task_record list \<Rightarrow> task_summary" where
  "summarizeTaskRecords records = foldl countTask createEmptyTaskRegistrySummary records"

subsection \<open>Lemmas\<close>

definition timely :: "task_record \<Rightarrow> bool" where
  "timely task \<longleftrightarrow> (\<forall>n\<in>set_option (tr_startedAt task). tr_createdAt task \<le> n)
     \<and> (\<forall>n\<in>set_option (tr_lastEventAt task). nullish (tr_startedAt task) (tr_createdAt task) \<le> n)
     \<and> (\<forall>n\<in>set_option (tr_endedAt task). nullish (tr_startedAt task) (tr_createdAt task) \<le> n)"

lemma normalizeTaskTimestamps_timely: "timely (normalizeTaskTimestamps task)"
  by (cases "tr_startedAt task"; cases "tr_lastEventAt task"; cases "tr_endedAt task")
    (auto simp: timely_def normalizeTaskTimestamps_def lowerCreatedAt_def Let_def)

lemma normalizeTaskTimestamps_id: "timely task \<Longrightarrow> normalizeTaskTimestamps task = task"
  by (cases "tr_startedAt task"; cases "tr_lastEventAt task"; cases "tr_endedAt task")
    (auto simp: timely_def normalizeTaskTimestamps_def lowerCreatedAt_def Let_def)

lemma terminal_or_active: "isTerminalTaskStatus s \<longleftrightarrow> \<not> isActiveTaskStatus s"
  by (cases s) (simp_all add: isTerminalTaskStatus_def isActiveTaskStatus_def)

end
