(* ===== verification/Task_Store.thy ===== *)
theory Task_Store
  imports Task_Records
begin

text \<open>
  The tables of tasks and of their delivery states in the state database, \<open>src/tasks/task-registry.store.sqlite.ts\<close>.
  As for flows, a JSON column holds the value that its text denotes, \<open>parseDeliveryContextJson\<close> is the parameter
  \<open>readOrigin\<close>, and a whole read or write succeeds or fails in the theory of the registry.
\<close>

subsection \<open>Rows\<close>

record task_row =
  rw_task_id :: string
  rw_runtime :: string
  rw_task_kind :: "string option"
  rw_source_id :: "string option"
  rw_requester_session_key :: "string option"
  rw_owner_key :: string
  rw_scope_kind :: string
  rw_child_session_key :: "string option"
  rw_parent_flow_id :: "string option"
  rw_parent_task_id :: "string option"
  rw_agent_id :: "string option"
  rw_requester_agent_id :: "string option"
  rw_run_id :: "string option"
  rw_label :: "string option"
  rw_task :: string
  rw_status :: string
  rw_delivery_status :: string
  rw_notify_policy :: string
  rw_created_at :: sqlite_number
  rw_started_at :: sqlite_number
  rw_ended_at :: sqlite_number
  rw_last_event_at :: sqlite_number
  rw_cleanup_after :: sqlite_number
  rw_tool_use_count :: sqlite_number
  rw_last_tool_name :: "string option"
  rw_error :: "string option"
  rw_progress_summary :: "string option"
  rw_terminal_summary :: "string option"
  rw_terminal_outcome :: "string option"
  rw_detail_json :: "js_value option"

record delivery_row =
  dr_task_id :: string
  dr_requester_origin_json :: "js_value option"
  dr_last_notified_event_at :: sqlite_number

definition rowRequesterSessionKey :: "scope_kind \<Rightarrow> task_row \<Rightarrow> string" where
  "rowRequesterSessionKey scopeKind row =
     (if scopeKind = SystemScope then []
      else let requester = js_trim (nullish (rw_requester_session_key row) [])
           in if requester \<noteq> [] then requester else rw_owner_key row)"

text \<open>The parsers throw in the order in which the code evaluates them.\<close>

definition rowToTaskRecord :: "task_row \<Rightarrow> flow_error + task_record" where
  "rowToTaskRecord row =
     (case parseTaskScopeKind (rw_scope_kind row) of
        Inl e \<Rightarrow> Inl e
      | Inr scopeKind \<Rightarrow>
     (case parseOptionalTaskTerminalOutcome (rw_terminal_outcome row) of
        Inl e \<Rightarrow> Inl e
      | Inr terminalOutcome \<Rightarrow>
     (case parseTaskRuntime (rw_runtime row) of
        Inl e \<Rightarrow> Inl e
      | Inr runtime \<Rightarrow>
     (case parseTaskStatus (rw_status row) of
        Inl e \<Rightarrow> Inl e
      | Inr status \<Rightarrow>
     (case parseTaskDeliveryStatus (rw_delivery_status row) of
        Inl e \<Rightarrow> Inl e
      | Inr deliveryStatus \<Rightarrow>
     (case parseTaskNotifyPolicy (rw_notify_policy row) of
        Inl e \<Rightarrow> Inl e
      | Inr notifyPolicy \<Rightarrow>
          Inr \<lparr>tr_taskId = rw_task_id row, tr_runtime = runtime, tr_taskKind = nonEmptyColumn (rw_task_kind row),
               tr_sourceId = nonEmptyColumn (rw_source_id row),
               tr_requesterSessionKey = rowRequesterSessionKey scopeKind row,
               tr_ownerKey = rw_owner_key row, tr_scopeKind = scopeKind,
               tr_childSessionKey = nonEmptyColumn (rw_child_session_key row),
               tr_parentFlowId = nonEmptyColumn (rw_parent_flow_id row),
               tr_parentTaskId = nonEmptyColumn (rw_parent_task_id row),
               tr_agentId = nonEmptyColumn (rw_agent_id row),
               tr_requesterAgentId = nonEmptyColumn (rw_requester_agent_id row),
               tr_runId = nonEmptyColumn (rw_run_id row), tr_label = nonEmptyColumn (rw_label row),
               tr_task = rw_task row, tr_status = status, tr_deliveryStatus = deliveryStatus,
               tr_notifyPolicy = notifyPolicy,
               tr_createdAt = nullish (normalizeSqliteNumber (rw_created_at row)) 0,
               tr_startedAt = normalizeSqliteNumber (rw_started_at row),
               tr_endedAt = normalizeSqliteNumber (rw_ended_at row),
               tr_lastEventAt = normalizeSqliteNumber (rw_last_event_at row),
               tr_cleanupAfter = normalizeSqliteNumber (rw_cleanup_after row),
               tr_toolUseCount = normalizeSqliteNumber (rw_tool_use_count row),
               tr_lastToolName = nonEmptyColumn (rw_last_tool_name row),
               tr_error = nonEmptyColumn (rw_error row),
               tr_progressSummary = nonEmptyColumn (rw_progress_summary row),
               tr_terminalSummary = rw_terminal_summary row,
               tr_terminalOutcome = terminalOutcome, tr_detail = rw_detail_json row\<rparr>))))))"

definition bindTaskRecordBase :: "task_record \<Rightarrow> task_row" where
  "bindTaskRecordBase task =
     \<lparr>rw_task_id = tr_taskId task, rw_runtime = taskRuntimeText (tr_runtime task), rw_task_kind = tr_taskKind task,
      rw_source_id = tr_sourceId task,
      rw_requester_session_key = Some (if tr_scopeKind task = SystemScope then [] else tr_requesterSessionKey task),
      rw_owner_key = tr_ownerKey task, rw_scope_kind = scopeKindText (tr_scopeKind task),
      rw_child_session_key = tr_childSessionKey task, rw_parent_flow_id = tr_parentFlowId task,
      rw_parent_task_id = tr_parentTaskId task, rw_agent_id = tr_agentId task,
      rw_requester_agent_id = tr_requesterAgentId task, rw_run_id = tr_runId task, rw_label = tr_label task,
      rw_task = tr_task task, rw_status = taskStatusText (tr_status task),
      rw_delivery_status = deliveryStatusText (tr_deliveryStatus task),
      rw_notify_policy = notifyPolicyText (tr_notifyPolicy task),
      rw_created_at = SqlNumber (tr_createdAt task), rw_started_at = numberColumn (tr_startedAt task),
      rw_ended_at = numberColumn (tr_endedAt task), rw_last_event_at = numberColumn (tr_lastEventAt task),
      rw_cleanup_after = numberColumn (tr_cleanupAfter task), rw_tool_use_count = numberColumn (tr_toolUseCount task),
      rw_last_tool_name = tr_lastToolName task, rw_error = tr_error task,
      rw_progress_summary = tr_progressSummary task, rw_terminal_summary = tr_terminalSummary task,
      rw_terminal_outcome = map_option terminalOutcomeText (tr_terminalOutcome task), rw_detail_json = tr_detail task\<rparr>"

definition rowToTaskDeliveryState :: "(js_value \<Rightarrow> js_value option) \<Rightarrow> delivery_row \<Rightarrow> task_delivery" where
  "rowToTaskDeliveryState readOrigin row =
     \<lparr>td_taskId = dr_task_id row, td_requesterOrigin = Option.bind (dr_requester_origin_json row) readOrigin,
      td_lastNotifiedEventAt = normalizeSqliteNumber (dr_last_notified_event_at row)\<rparr>"

definition bindTaskDeliveryState :: "task_delivery \<Rightarrow> delivery_row" where
  "bindTaskDeliveryState state =
     \<lparr>dr_task_id = td_taskId state, dr_requester_origin_json = td_requesterOrigin state,
      dr_last_notified_event_at = numberColumn (td_lastNotifiedEventAt state)\<rparr>"

subsection \<open>Tables\<close>

record task_tables =
  tb_tasks :: "task_row list"
  tb_deliveries :: "delivery_row list"

definition compareTaskRows :: "task_row \<Rightarrow> task_row \<Rightarrow> int" where
  "compareTaskRows a b =
     (if sqliteNumberLess (rw_created_at a) (rw_created_at b) then -1
      else if sqliteNumberLess (rw_created_at b) (rw_created_at a) then 1
      else compareCodeUnits (rw_task_id a) (rw_task_id b))"

definition selectTaskRows :: "task_tables \<Rightarrow> task_row list" where
  "selectTaskRows db = js_toSorted compareTaskRows (tb_tasks db)"

definition selectTaskRowsByOwnerKey :: "task_tables \<Rightarrow> string \<Rightarrow> task_row list" where
  "selectTaskRowsByOwnerKey db ownerKey =
     js_toSorted compareTaskRows (filter (\<lambda>row. rw_owner_key row = ownerKey) (tb_tasks db))"

definition selectTaskRowsByRuntimeSourceId :: "task_tables \<Rightarrow> task_runtime \<Rightarrow> string option \<Rightarrow> task_row list" where
  "selectTaskRowsByRuntimeSourceId db runtime sourceId =
     js_toSorted compareTaskRows
       (filter (\<lambda>row. rw_runtime row = taskRuntimeText runtime
                      \<and> (case sourceId of None \<Rightarrow> True | Some s \<Rightarrow> rw_source_id row = Some s)) (tb_tasks db))"

definition selectTaskDeliveryStateRows :: "task_tables \<Rightarrow> delivery_row list" where
  "selectTaskDeliveryStateRows db =
     js_toSorted (\<lambda>a b. compareCodeUnits (dr_task_id a) (dr_task_id b)) (tb_deliveries db)"

fun upsertTaskRow :: "task_row \<Rightarrow> task_row list \<Rightarrow> task_row list" where
  "upsertTaskRow row [] = [row]"
| "upsertTaskRow row (r # rows) = (if rw_task_id r = rw_task_id row then row # rows else r # upsertTaskRow row rows)"

fun replaceTaskDeliveryStateRow :: "delivery_row \<Rightarrow> delivery_row list \<Rightarrow> delivery_row list" where
  "replaceTaskDeliveryStateRow row [] = [row]"
| "replaceTaskDeliveryStateRow row (r # rows) =
     (if dr_task_id r = dr_task_id row then row # rows else r # replaceTaskDeliveryStateRow row rows)"

definition deleteTaskRowsWithDeliveryState :: "string \<Rightarrow> task_tables \<Rightarrow> task_tables" where
  "deleteTaskRowsWithDeliveryState taskId db =
     db\<lparr>tb_deliveries := filter (\<lambda>r. dr_task_id r \<noteq> taskId) (tb_deliveries db),
        tb_tasks := filter (\<lambda>r. rw_task_id r \<noteq> taskId) (tb_tasks db)\<rparr>"

fun readTaskRows :: "task_row list \<Rightarrow> flow_error + (string \<times> task_record) list" where
  "readTaskRows [] = Inr []"
| "readTaskRows (row # rows) =
     (case rowToTaskRecord row of
        Inl e \<Rightarrow> Inl e
      | Inr task \<Rightarrow>
          (case readTaskRows rows of Inl e \<Rightarrow> Inl e | Inr tasks \<Rightarrow> Inr ((rw_task_id row, task) # tasks)))"

text \<open>The integrity check of both tables is part of the success of the read.\<close>

definition loadTaskRegistryStateFromSqlite ::
  "(js_value \<Rightarrow> js_value option) \<Rightarrow> task_tables \<Rightarrow>
   flow_error + (string \<times> task_record) list \<times> (string \<times> task_delivery) list" where
  "loadTaskRegistryStateFromSqlite readOrigin db =
     (case readTaskRows (selectTaskRows db) of
        Inl e \<Rightarrow> Inl e
      | Inr tasks \<Rightarrow>
          Inr (tasks, map (\<lambda>row. (dr_task_id row, rowToTaskDeliveryState readOrigin row)) (selectTaskDeliveryStateRows db)))"

definition listTaskRegistryRecordsByOwnerKeyFromSqlite :: "task_tables \<Rightarrow> string \<Rightarrow> flow_error + task_record list" where
  "listTaskRegistryRecordsByOwnerKeyFromSqlite db ownerKey =
     (let key = js_trim ownerKey
      in if key = [] then Inr [] else map_sum id (map snd) (readTaskRows (selectTaskRowsByOwnerKey db key)))"

definition listTaskRegistryRecordsByRuntimeSourceIdFromSqlite ::
  "task_tables \<Rightarrow> task_runtime \<Rightarrow> string option \<Rightarrow> flow_error + task_record list" where
  "listTaskRegistryRecordsByRuntimeSourceIdFromSqlite db runtime sourceIdOption =
     (let sourceId = map_option js_trim sourceIdOption
      in if sourceId = Some [] then Inr []
         else map_sum id (map snd) (readTaskRows (selectTaskRowsByRuntimeSourceId db runtime sourceId)))"

definition upsertTaskWithDeliveryStateToSqlite :: "task_record \<Rightarrow> task_delivery option \<Rightarrow> task_tables \<Rightarrow> task_tables" where
  "upsertTaskWithDeliveryStateToSqlite task deliveryState db =
     db\<lparr>tb_tasks := upsertTaskRow (bindTaskRecordBase task) (tb_tasks db),
        tb_deliveries :=
          (case deliveryState of
             Some state \<Rightarrow> replaceTaskDeliveryStateRow (bindTaskDeliveryState state) (tb_deliveries db)
           | None \<Rightarrow> filter (\<lambda>r. dr_task_id r \<noteq> tr_taskId task) (tb_deliveries db))\<rparr>"

definition deleteTaskAndDeliveryStateFromSqlite :: "string \<Rightarrow> task_tables \<Rightarrow> task_tables" where
  "deleteTaskAndDeliveryStateFromSqlite taskId db = deleteTaskRowsWithDeliveryState taskId db"

definition upsertTaskDeliveryStateToSqlite :: "task_delivery \<Rightarrow> task_tables \<Rightarrow> task_tables" where
  "upsertTaskDeliveryStateToSqlite state db =
     db\<lparr>tb_deliveries := replaceTaskDeliveryStateRow (bindTaskDeliveryState state) (tb_deliveries db)\<rparr>"

subsection \<open>Round trip\<close>

text \<open>What the database keeps of a record: absent and empty texts are the same, and the requester of a task is
  empty in the system scope and falls back to the owner otherwise.\<close>

definition durableTask :: "task_record \<Rightarrow> task_record" where
  "durableTask task = task\<lparr>tr_taskKind := nonEmptyColumn (tr_taskKind task), tr_sourceId := nonEmptyColumn (tr_sourceId task),
     tr_requesterSessionKey :=
       (if tr_scopeKind task = SystemScope then []
        else if js_trim (tr_requesterSessionKey task) \<noteq> [] then js_trim (tr_requesterSessionKey task) else tr_ownerKey task),
     tr_childSessionKey := nonEmptyColumn (tr_childSessionKey task), tr_parentFlowId := nonEmptyColumn (tr_parentFlowId task),
     tr_parentTaskId := nonEmptyColumn (tr_parentTaskId task), tr_agentId := nonEmptyColumn (tr_agentId task),
     tr_requesterAgentId := nonEmptyColumn (tr_requesterAgentId task), tr_runId := nonEmptyColumn (tr_runId task),
     tr_label := nonEmptyColumn (tr_label task), tr_lastToolName := nonEmptyColumn (tr_lastToolName task),
     tr_error := nonEmptyColumn (tr_error task), tr_progressSummary := nonEmptyColumn (tr_progressSummary task)\<rparr>"

lemma parse_notify_policy [simp]: "parseTaskNotifyPolicy (notifyPolicyText p) = Inr p"
  by (cases p) (simp_all add: parseTaskNotifyPolicy_def parsePersistedFlowValue_def TASK_NOTIFY_POLICIES_def)

lemma task_number_column [simp]: "normalizeSqliteNumber (numberColumn n) = n" "normalizeSqliteNumber (SqlNumber i) = Some i"
  by (cases n; simp add: normalizeSqliteNumber_def numberColumn_def)+

lemma restore_task_row: "rowToTaskRecord (bindTaskRecordBase task) = Inr (durableTask task)"
  by (simp add: rowToTaskRecord_def bindTaskRecordBase_def durableTask_def rowRequesterSessionKey_def Let_def)

lemma restored_task_id: "rowToTaskRecord row = Inr task \<Longrightarrow> tr_taskId task = rw_task_id row"
  by (auto simp: rowToTaskRecord_def split: sum.splits)

end
