(* ===== verification/Task_Flows.thy ===== *)
theory Task_Flows
  imports Task_Records Transition_System
begin

text \<open>
  The registry of task flows, \<open>src/tasks/task-flow-registry.ts\<close> with \<open>task-flow-registry.store.ts\<close> and
  \<open>task-flow-owner-access.ts\<close>: records in memory that are restored once from the database, written through to it
  before memory changes, updated under an expected revision, and announced to an observer.

  The state has the map of the module, its restore state, the table of the database and the events that the observer
  received. The arguments of an operation that stand for its environment are \<open>loadError\<close>, the error that reading the
  table throws if any, and \<open>ok\<close>, whether the write commits. Deep copies of records are the records themselves. The
  configured store is the default one, which has \<open>upsertFlow\<close> and \<open>deleteFlow\<close>.
\<close>

subsection \<open>State\<close>

datatype restore_state = Uninitialized | Restoring | RestoreReady | RestoreFailed flow_error

datatype flow_event =
    FlowsRestored "task_flow list"
  | FlowUpserted task_flow "task_flow option"
  | FlowDeleted string task_flow

record flow_registry =
  fr_flows :: "(string \<times> task_flow) list"
  fr_restore :: restore_state
  fr_rows :: "flow_row list"
  fr_events :: "flow_event list"

text \<open>A property of a patch that may be absent, \<open>null\<close> or a value is an option of an option.\<close>

record flow_patch =
  fp_status :: "flow_status option"
  fp_notifyPolicy :: "notify_policy option"
  fp_goal :: "string option"
  fp_currentStep :: "string option option"
  fp_blockedTaskId :: "string option option"
  fp_blockedSummary :: "string option option"
  fp_controllerId :: "string option option"
  fp_stateJson :: "js_value option"
  fp_waitJson :: "js_value option"
  fp_cancelRequestedAt :: "int option option"
  fp_updatedAt :: "int option"
  fp_endedAt :: "int option option"

definition emptyPatch :: flow_patch where
  "emptyPatch = \<lparr>fp_status = None, fp_notifyPolicy = None, fp_goal = None, fp_currentStep = None,
     fp_blockedTaskId = None, fp_blockedSummary = None, fp_controllerId = None, fp_stateJson = None,
     fp_waitJson = None, fp_cancelRequestedAt = None, fp_updatedAt = None, fp_endedAt = None\<rparr>"

record create_params =
  cp_ownerKey :: string
  cp_requesterOrigin :: "js_value option"
  cp_status :: "flow_status option"
  cp_notifyPolicy :: "notify_policy option"
  cp_goal :: string
  cp_currentStep :: "string option"
  cp_blockedTaskId :: "string option"
  cp_blockedSummary :: "string option"
  cp_stateJson :: "js_value option"
  cp_waitJson :: "js_value option"
  cp_cancelRequestedAt :: "int option"
  cp_createdAt :: "int option"
  cp_updatedAt :: "int option"
  cp_endedAt :: "int option"
  cp_syncMode :: "sync_mode option"
  cp_controllerId :: "string option"
  cp_revision :: "int option"

datatype update_result =
    Applied task_flow
  | NotFound
  | RevisionConflict task_flow
  | PersistFailed task_flow

datatype sync_result = SyncOk "task_flow option" | SyncPersistFailed task_flow

subsection \<open>Flows of tasks\<close>

definition resolveFlowBlockedSummary :: "task_record \<Rightarrow> string option" where
  "resolveFlowBlockedSummary task =
     (if tr_status task \<noteq> TaskSucceeded \<or> tr_terminalOutcome task \<noteq> Some OutcomeBlocked then None
      else nullish_or (optionalString (tr_terminalSummary task)) (optionalString (tr_progressSummary task)))"

definition deriveTaskFlowStatusFromTask :: "task_record \<Rightarrow> flow_status" where
  "deriveTaskFlowStatusFromTask task =
     (case tr_status task of
        TaskQueued \<Rightarrow> FlowQueued
      | TaskRunning \<Rightarrow> FlowRunning
      | TaskSucceeded \<Rightarrow> if tr_terminalOutcome task = Some OutcomeBlocked then FlowBlocked else FlowSucceeded
      | TaskCancelled \<Rightarrow> FlowCancelled
      | TaskLost \<Rightarrow> FlowLost
      | _ \<Rightarrow> FlowFailed)"

definition isTerminalTaskFlowStatus :: "flow_status \<Rightarrow> bool" where
  "isTerminalTaskFlowStatus status \<longleftrightarrow>
     status = FlowSucceeded \<or> status = FlowBlocked \<or> status = FlowFailed \<or> status = FlowCancelled \<or> status = FlowLost"

definition resolveTaskMirroredFlowTiming :: "int \<Rightarrow> int option \<Rightarrow> int option \<Rightarrow> bool \<Rightarrow> int \<times> int option" where
  "resolveTaskMirroredFlowTiming createdAt lastEventAt endedAt isTerminal =
     (if \<not> isTerminal then (nullish lastEventAt createdAt, None)
      else let ended = nullish endedAt (nullish lastEventAt createdAt) in (ended, Some ended))"

definition flowGoal :: "task_record \<Rightarrow> string" where
  "flowGoal task = nullish (optionalString (tr_label task))
     (if js_trim (tr_task task) \<noteq> [] then js_trim (tr_task task) else ''Background task'')"

subsection \<open>Restoring\<close>

definition assertFlowOwnerKey :: "string \<Rightarrow> flow_error + string" where
  "assertFlowOwnerKey ownerKey =
     (case optionalString (Some ownerKey) of Some key \<Rightarrow> Inr key | None \<Rightarrow> Inl OwnerKeyRequired)"

definition assertControllerId :: "string option \<Rightarrow> flow_error + string" where
  "assertControllerId controllerId =
     (case optionalString controllerId of Some c \<Rightarrow> Inr c | None \<Rightarrow> Inl ControllerIdRequired)"

definition normalizeRestoredFlowRecord :: "task_flow \<Rightarrow> flow_error + task_flow" where
  "normalizeRestoredFlowRecord record =
     (let controllerId = (if tf_syncMode record = Managed
                          then Some (nullish (optionalString (tf_controllerId record)) ''core/legacy-restored'') else None)
      in case assertFlowOwnerKey (tf_ownerKey record) of
           Inl e \<Rightarrow> Inl e
         | Inr ownerKey \<Rightarrow>
             Inr (record\<lparr>tf_ownerKey := ownerKey,
               tf_controllerId := nullish_or controllerId (tf_controllerId record),
               tf_currentStep := optionalString (tf_currentStep record),
               tf_blockedTaskId := optionalString (tf_blockedTaskId record),
               tf_blockedSummary := optionalString (tf_blockedSummary record),
               tf_revision := max 0 (tf_revision record)\<rparr>))"

fun normalizeRestored :: "(string \<times> task_flow) list \<Rightarrow> flow_error + (string \<times> task_flow) list" where
  "normalizeRestored [] = Inr []"
| "normalizeRestored ((flowId, flow) # flows) =
     (case normalizeRestoredFlowRecord flow of
        Inl e \<Rightarrow> Inl e
      | Inr record \<Rightarrow>
          (case normalizeRestored flows of Inl e \<Rightarrow> Inl e | Inr records \<Rightarrow> Inr ((flowId, record) # records)))"

definition restoreSnapshot ::
  "(js_value \<Rightarrow> js_value option) \<Rightarrow> string option \<Rightarrow> flow_row list \<Rightarrow> flow_error + (string \<times> task_flow) list" where
  "restoreSnapshot readOrigin loadError rows =
     (case loadError of
        Some message \<Rightarrow> Inl (DatabaseError message)
      | None \<Rightarrow>
          (case loadTaskFlowRegistryStateFromSqlite readOrigin rows of
             Inl e \<Rightarrow> Inl e
           | Inr flows \<Rightarrow> normalizeRestored flows))"

definition snapshotFlowRecords :: "(string \<times> task_flow) list \<Rightarrow> task_flow list" where
  "snapshotFlowRecords source = map snd source"

definition emitFlowRegistryObserverEvent :: "flow_event \<Rightarrow> flow_registry \<Rightarrow> flow_registry" where
  "emitFlowRegistryObserverEvent event st = st\<lparr>fr_events := fr_events st @ [event]\<rparr>"

definition restoreTaskFlowRegistryOnce ::
  "(js_value \<Rightarrow> js_value option) \<Rightarrow> string option \<Rightarrow> flow_registry \<Rightarrow> flow_error option \<times> flow_registry" where
  "restoreTaskFlowRegistryOnce readOrigin loadError st =
     (case fr_restore st of
        RestoreReady \<Rightarrow> (None, st)
      | RestoreFailed e \<Rightarrow> (Some e, st)
      | Restoring \<Rightarrow> (Some RestoreInProgress, st)
      | Uninitialized \<Rightarrow>
          (case restoreSnapshot readOrigin loadError (fr_rows st) of
             Inr flows \<Rightarrow>
               (None, emitFlowRegistryObserverEvent (FlowsRestored (snapshotFlowRecords flows))
                        (st\<lparr>fr_flows := flows, fr_restore := RestoreReady\<rparr>))
           | Inl e \<Rightarrow>
               (Some (RestoreFailure e), st\<lparr>fr_flows := [], fr_restore := RestoreFailed (RestoreFailure e)\<rparr>)))"

definition ensureTaskFlowRegistryReady ::
  "(js_value \<Rightarrow> js_value option) \<Rightarrow> string option \<Rightarrow> flow_registry \<Rightarrow> flow_error option \<times> flow_registry" where
  "ensureTaskFlowRegistryReady = restoreTaskFlowRegistryOnce"

definition getTaskFlowRegistryRestoreFailure ::
  "(js_value \<Rightarrow> js_value option) \<Rightarrow> string option \<Rightarrow> flow_registry \<Rightarrow> flow_error option \<times> flow_registry" where
  "getTaskFlowRegistryRestoreFailure readOrigin loadError st =
     (case ensureTaskFlowRegistryReady readOrigin loadError st of
        (None, st1) \<Rightarrow> (None, st1)
      | (Some _, st1) \<Rightarrow>
          (case fr_restore st1 of
             RestoreFailed (RestoreFailure e) \<Rightarrow> (Some e, st1)
           | RestoreFailed e \<Rightarrow> (Some e, st1)
           | _ \<Rightarrow> (Some RestoreInProgress, st1)))"

definition reloadTaskFlowRegistryFromStore ::
  "(js_value \<Rightarrow> js_value option) \<Rightarrow> string option \<Rightarrow> flow_registry \<Rightarrow> flow_error option \<times> flow_registry" where
  "reloadTaskFlowRegistryFromStore readOrigin loadError st =
     ensureTaskFlowRegistryReady readOrigin loadError (st\<lparr>fr_flows := [], fr_restore := Uninitialized\<rparr>)"

text \<open>An operation that needs the registry: it throws when the registry cannot be restored.\<close>

definition whenReady ::
  "(js_value \<Rightarrow> js_value option) \<Rightarrow> string option \<Rightarrow> (flow_registry \<Rightarrow> (flow_error + 'a) \<times> flow_registry) \<Rightarrow>
   flow_registry \<Rightarrow> (flow_error + 'a) \<times> flow_registry" where
  "whenReady readOrigin loadError f st =
     (case ensureTaskFlowRegistryReady readOrigin loadError st of
        (Some e, st1) \<Rightarrow> (Inl e, st1)
      | (None, st1) \<Rightarrow> f st1)"

subsection \<open>Writing\<close>

definition tryPersistFlowUpsert :: "bool \<Rightarrow> task_flow \<Rightarrow> flow_registry \<Rightarrow> bool \<times> flow_registry" where
  "tryPersistFlowUpsert ok flow st =
     (if ok then (True, st\<lparr>fr_rows := upsertTaskFlowRegistryRecordToSqlite flow (fr_rows st)\<rparr>) else (False, st))"

definition tryPersistFlowDelete :: "bool \<Rightarrow> string \<Rightarrow> flow_registry \<Rightarrow> bool \<times> flow_registry" where
  "tryPersistFlowDelete ok flowId st =
     (if ok then (True, st\<lparr>fr_rows := deleteTaskFlowRegistryRecordFromSqlite flowId (fr_rows st)\<rparr>) else (False, st))"

definition ensureNotifyPolicy :: "notify_policy option \<Rightarrow> notify_policy" where
  "ensureNotifyPolicy notifyPolicy = nullish notifyPolicy NotifyDoneOnly"

definition buildFlowRecord :: "int \<Rightarrow> string \<Rightarrow> create_params \<Rightarrow> flow_error + task_flow" where
  "buildFlowRecord dateNow flowId params =
     (let now = nullish (cp_createdAt params) dateNow;
          syncMode = nullish (cp_syncMode params) Managed;
          controller = (if syncMode = Managed then map_sum id Some (assertControllerId (cp_controllerId params)) else Inr None)
      in case controller of
           Inl e \<Rightarrow> Inl e
         | Inr controllerId \<Rightarrow>
             (case assertFlowOwnerKey (cp_ownerKey params) of
                Inl e \<Rightarrow> Inl e
              | Inr ownerKey \<Rightarrow>
                  Inr \<lparr>tf_flowId = flowId, tf_syncMode = syncMode, tf_ownerKey = ownerKey,
                       tf_requesterOrigin = cp_requesterOrigin params, tf_controllerId = controllerId,
                       tf_revision = max 0 (nullish (cp_revision params) 0),
                       tf_status = nullish (cp_status params) FlowQueued,
                       tf_notifyPolicy = ensureNotifyPolicy (cp_notifyPolicy params), tf_goal = cp_goal params,
                       tf_currentStep = optionalString (cp_currentStep params),
                       tf_blockedTaskId = optionalString (cp_blockedTaskId params),
                       tf_blockedSummary = optionalString (cp_blockedSummary params),
                       tf_stateJson = cp_stateJson params, tf_waitJson = cp_waitJson params,
                       tf_cancelRequestedAt = cp_cancelRequestedAt params, tf_createdAt = now,
                       tf_updatedAt = nullish (cp_updatedAt params) now, tf_endedAt = cp_endedAt params\<rparr>))"

definition applyFlowPatch :: "int \<Rightarrow> task_flow \<Rightarrow> flow_patch \<Rightarrow> flow_error + task_flow" where
  "applyFlowPatch dateNow current patch =
     (let controllerId = (case fp_controllerId patch of None \<Rightarrow> tf_controllerId current | Some c \<Rightarrow> optionalString c);
          check = (if tf_syncMode current = Managed then map_sum id (\<lambda>_. ()) (assertControllerId controllerId) else Inr ())
      in case check of
           Inl e \<Rightarrow> Inl e
         | Inr _ \<Rightarrow>
             Inr (current\<lparr>tf_status := nullish (fp_status patch) (tf_status current),
               tf_notifyPolicy := nullish (fp_notifyPolicy patch) (tf_notifyPolicy current),
               tf_goal := (case fp_goal patch of None \<Rightarrow> tf_goal current | Some g \<Rightarrow> if g = [] then tf_goal current else g),
               tf_controllerId := controllerId,
               tf_currentStep := (case fp_currentStep patch of None \<Rightarrow> tf_currentStep current | Some s \<Rightarrow> optionalString s),
               tf_blockedTaskId := (case fp_blockedTaskId patch of None \<Rightarrow> tf_blockedTaskId current | Some s \<Rightarrow> optionalString s),
               tf_blockedSummary := (case fp_blockedSummary patch of None \<Rightarrow> tf_blockedSummary current | Some s \<Rightarrow> optionalString s),
               tf_stateJson := nullish_or (fp_stateJson patch) (tf_stateJson current),
               tf_waitJson := nullish_or (fp_waitJson patch) (tf_waitJson current),
               tf_cancelRequestedAt := nullish (fp_cancelRequestedAt patch) (tf_cancelRequestedAt current),
               tf_revision := tf_revision current + 1,
               tf_updatedAt := nullish (fp_updatedAt patch) dateNow,
               tf_endedAt := nullish (fp_endedAt patch) (tf_endedAt current)\<rparr>))"

definition writeFlowRecord :: "bool \<Rightarrow> task_flow \<Rightarrow> task_flow option \<Rightarrow> flow_registry \<Rightarrow> task_flow option \<times> flow_registry" where
  "writeFlowRecord ok next' previous st =
     (case tryPersistFlowUpsert ok next' st of
        (False, st1) \<Rightarrow> (None, st1)
      | (True, st1) \<Rightarrow>
          (Some next', emitFlowRegistryObserverEvent (FlowUpserted next' previous)
             (st1\<lparr>fr_flows := AList.update (tf_flowId next') next' (fr_flows st1)\<rparr>)))"

definition createFlowRecord ::
  "(js_value \<Rightarrow> js_value option) \<Rightarrow> string option \<Rightarrow> bool \<Rightarrow> int \<Rightarrow> string \<Rightarrow> create_params \<Rightarrow> flow_registry \<Rightarrow>
   (flow_error + task_flow option) \<times> flow_registry" where
  "createFlowRecord readOrigin loadError ok now flowId params =
     whenReady readOrigin loadError (\<lambda>st.
       case buildFlowRecord now flowId params of
         Inl e \<Rightarrow> (Inl e, st)
       | Inr record \<Rightarrow> let (r, st1) = writeFlowRecord ok record None st in (Inr r, st1))"

definition createManagedTaskFlow ::
  "(js_value \<Rightarrow> js_value option) \<Rightarrow> string option \<Rightarrow> bool \<Rightarrow> int \<Rightarrow> string \<Rightarrow> create_params \<Rightarrow> flow_registry \<Rightarrow>
   (flow_error + task_flow option) \<times> flow_registry" where
  "createManagedTaskFlow readOrigin loadError ok now flowId params st =
     (case assertControllerId (cp_controllerId params) of
        Inl e \<Rightarrow> (Inl e, st)
      | Inr controllerId \<Rightarrow>
          createFlowRecord readOrigin loadError ok now flowId
            (params\<lparr>cp_syncMode := Some Managed, cp_controllerId := Some controllerId\<rparr>) st)"

definition createTaskFlowForTask ::
  "(js_value \<Rightarrow> js_value option) \<Rightarrow> string option \<Rightarrow> bool \<Rightarrow> int \<Rightarrow> string \<Rightarrow> task_record \<Rightarrow> js_value option \<Rightarrow>
   flow_registry \<Rightarrow> (flow_error + task_flow option) \<times> flow_registry" where
  "createTaskFlowForTask readOrigin loadError ok now flowId task requesterOrigin =
     (let status = deriveTaskFlowStatusFromTask task;
          (updatedAt, endedAt) = resolveTaskMirroredFlowTiming (tr_createdAt task) (tr_lastEventAt task) (tr_endedAt task)
            (isTerminalTaskFlowStatus status)
      in createFlowRecord readOrigin loadError ok now flowId
           \<lparr>cp_ownerKey = tr_ownerKey task, cp_requesterOrigin = requesterOrigin, cp_status = Some status,
            cp_notifyPolicy = Some (tr_notifyPolicy task), cp_goal = flowGoal task, cp_currentStep = None,
            cp_blockedTaskId = (if status = FlowBlocked then optionalString (Some (tr_taskId task)) else None),
            cp_blockedSummary = resolveFlowBlockedSummary task, cp_stateJson = None, cp_waitJson = None,
            cp_cancelRequestedAt = None, cp_createdAt = Some (tr_createdAt task), cp_updatedAt = Some updatedAt,
            cp_endedAt = endedAt, cp_syncMode = Some TaskMirrored, cp_controllerId = None, cp_revision = None\<rparr>)"

subsection \<open>Updating\<close>

definition updateFlowRecordByIdUnchecked ::
  "(js_value \<Rightarrow> js_value option) \<Rightarrow> string option \<Rightarrow> bool \<Rightarrow> int \<Rightarrow> string \<Rightarrow> flow_patch \<Rightarrow> flow_registry \<Rightarrow>
   (flow_error + task_flow option) \<times> flow_registry" where
  "updateFlowRecordByIdUnchecked readOrigin loadError ok now flowId patch =
     whenReady readOrigin loadError (\<lambda>st.
       case map_of (fr_flows st) flowId of
         None \<Rightarrow> (Inr None, st)
       | Some current \<Rightarrow>
           (case applyFlowPatch now current patch of
              Inl e \<Rightarrow> (Inl e, st)
            | Inr next' \<Rightarrow> let (r, st1) = writeFlowRecord ok next' (Some current) st in (Inr r, st1)))"

definition updateFlowRecordByIdExpectedRevision ::
  "(js_value \<Rightarrow> js_value option) \<Rightarrow> string option \<Rightarrow> bool \<Rightarrow> int \<Rightarrow> string \<Rightarrow> int \<Rightarrow> flow_patch \<Rightarrow> flow_registry \<Rightarrow>
   (flow_error + update_result) \<times> flow_registry" where
  "updateFlowRecordByIdExpectedRevision readOrigin loadError ok now flowId expectedRevision patch =
     whenReady readOrigin loadError (\<lambda>st.
       case map_of (fr_flows st) flowId of
         None \<Rightarrow> (Inr NotFound, st)
       | Some current \<Rightarrow>
           if tf_revision current \<noteq> expectedRevision then (Inr (RevisionConflict current), st)
           else
             (case applyFlowPatch now current patch of
                Inl e \<Rightarrow> (Inl e, st)
              | Inr next' \<Rightarrow>
                  (case writeFlowRecord ok next' (Some current) st of
                     (None, st1) \<Rightarrow> (Inr (PersistFailed current), st1)
                   | (Some flow, st1) \<Rightarrow> (Inr (Applied flow), st1))))"

text \<open>The patches of the exported transitions.\<close>

definition waitingPatch ::
  "string option option \<Rightarrow> js_value option \<Rightarrow> js_value option \<Rightarrow> string option option \<Rightarrow> string option option \<Rightarrow> int option \<Rightarrow> flow_patch" where
  "waitingPatch currentStep stateJson waitJson blockedTaskId blockedSummary updatedAt =
     emptyPatch\<lparr>fp_status := Some (if optionalString (nullish blockedTaskId None) \<noteq> None
                                     \<or> optionalString (nullish blockedSummary None) \<noteq> None
                                   then FlowBlocked else FlowWaiting),
       fp_currentStep := currentStep, fp_stateJson := stateJson, fp_waitJson := waitJson,
       fp_blockedTaskId := blockedTaskId, fp_blockedSummary := blockedSummary, fp_endedAt := Some None,
       fp_updatedAt := updatedAt\<rparr>"

definition resumePatch :: "flow_status option \<Rightarrow> string option option \<Rightarrow> js_value option \<Rightarrow> int option \<Rightarrow> flow_patch" where
  "resumePatch status currentStep stateJson updatedAt =
     emptyPatch\<lparr>fp_status := Some (nullish status FlowQueued), fp_currentStep := currentStep, fp_stateJson := stateJson,
       fp_waitJson := Some JNull, fp_blockedTaskId := Some None, fp_blockedSummary := Some None, fp_endedAt := Some None,
       fp_updatedAt := updatedAt\<rparr>"

definition endingAt :: "int \<Rightarrow> int option \<Rightarrow> int option \<Rightarrow> int" where
  "endingAt now updatedAt endedAt = nullish endedAt (nullish updatedAt now)"

definition finishPatch :: "int \<Rightarrow> string option option \<Rightarrow> js_value option \<Rightarrow> int option \<Rightarrow> int option \<Rightarrow> flow_patch" where
  "finishPatch now currentStep stateJson updatedAt endedAt =
     emptyPatch\<lparr>fp_status := Some FlowSucceeded, fp_currentStep := currentStep, fp_stateJson := stateJson,
       fp_waitJson := Some JNull, fp_blockedTaskId := Some None, fp_blockedSummary := Some None,
       fp_endedAt := Some (Some (endingAt now updatedAt endedAt)),
       fp_updatedAt := Some (nullish updatedAt (endingAt now updatedAt endedAt))\<rparr>"

definition failPatch ::
  "int \<Rightarrow> string option option \<Rightarrow> js_value option \<Rightarrow> string option option \<Rightarrow> string option option \<Rightarrow> int option \<Rightarrow> int option \<Rightarrow> flow_patch" where
  "failPatch now currentStep stateJson blockedTaskId blockedSummary updatedAt endedAt =
     emptyPatch\<lparr>fp_status := Some FlowFailed, fp_currentStep := currentStep, fp_stateJson := stateJson,
       fp_waitJson := Some JNull, fp_blockedTaskId := blockedTaskId, fp_blockedSummary := blockedSummary,
       fp_endedAt := Some (Some (endingAt now updatedAt endedAt)),
       fp_updatedAt := Some (nullish updatedAt (endingAt now updatedAt endedAt))\<rparr>"

definition cancelPatch :: "int \<Rightarrow> int option \<Rightarrow> int option \<Rightarrow> flow_patch" where
  "cancelPatch now cancelRequestedAt updatedAt =
     emptyPatch\<lparr>fp_cancelRequestedAt := Some (Some (nullish cancelRequestedAt (nullish updatedAt now))),
       fp_updatedAt := updatedAt\<rparr>"

definition setFlowWaiting where
  "setFlowWaiting readOrigin loadError ok now flowId expectedRevision currentStep stateJson waitJson blockedTaskId
     blockedSummary updatedAt =
     updateFlowRecordByIdExpectedRevision readOrigin loadError ok now flowId expectedRevision
       (waitingPatch currentStep stateJson waitJson blockedTaskId blockedSummary updatedAt)"

definition resumeFlow where
  "resumeFlow readOrigin loadError ok now flowId expectedRevision status currentStep stateJson updatedAt =
     updateFlowRecordByIdExpectedRevision readOrigin loadError ok now flowId expectedRevision
       (resumePatch status currentStep stateJson updatedAt)"

definition finishFlow where
  "finishFlow readOrigin loadError ok now flowId expectedRevision currentStep stateJson updatedAt endedAt =
     updateFlowRecordByIdExpectedRevision readOrigin loadError ok now flowId expectedRevision
       (finishPatch now currentStep stateJson updatedAt endedAt)"

definition failFlow where
  "failFlow readOrigin loadError ok now flowId expectedRevision currentStep stateJson blockedTaskId blockedSummary
     updatedAt endedAt =
     updateFlowRecordByIdExpectedRevision readOrigin loadError ok now flowId expectedRevision
       (failPatch now currentStep stateJson blockedTaskId blockedSummary updatedAt endedAt)"

definition requestFlowCancel where
  "requestFlowCancel readOrigin loadError ok now flowId expectedRevision cancelRequestedAt updatedAt =
     updateFlowRecordByIdExpectedRevision readOrigin loadError ok now flowId expectedRevision
       (cancelPatch now cancelRequestedAt updatedAt)"

subsection \<open>Reading, mirroring and deleting\<close>

definition getTaskFlowById ::
  "(js_value \<Rightarrow> js_value option) \<Rightarrow> string option \<Rightarrow> string \<Rightarrow> flow_registry \<Rightarrow> (flow_error + task_flow option) \<times> flow_registry" where
  "getTaskFlowById readOrigin loadError flowId =
     whenReady readOrigin loadError (\<lambda>st. (Inr (map_of (fr_flows st) flowId), st))"

definition mirrorPatch :: "task_record \<Rightarrow> task_flow \<Rightarrow> flow_patch" where
  "mirrorPatch task flow =
     (let status = deriveTaskFlowStatusFromTask task;
          isTerminal = isTerminalTaskFlowStatus status;
          (updatedAt, endedAt) = resolveTaskMirroredFlowTiming (tf_createdAt flow) (tr_lastEventAt task) (tr_endedAt task) isTerminal
      in emptyPatch\<lparr>fp_status := Some status, fp_notifyPolicy := Some (tr_notifyPolicy task), fp_goal := Some (flowGoal task),
           fp_blockedTaskId := Some (if status = FlowBlocked then (if js_trim (tr_taskId task) \<noteq> [] then Some (js_trim (tr_taskId task)) else None)
                                     else None),
           fp_blockedSummary := Some (if status = FlowBlocked then resolveFlowBlockedSummary task else None),
           fp_waitJson := Some JNull, fp_updatedAt := Some updatedAt,
           fp_endedAt := Some (if isTerminal then Some (nullish endedAt updatedAt) else None)\<rparr>)"

definition syncFlowFromTaskResult ::
  "(js_value \<Rightarrow> js_value option) \<Rightarrow> string option \<Rightarrow> bool \<Rightarrow> int \<Rightarrow> task_record \<Rightarrow> flow_registry \<Rightarrow>
   (flow_error + sync_result) \<times> flow_registry" where
  "syncFlowFromTaskResult readOrigin loadError ok now task st =
     (case map_option js_trim (tr_parentFlowId task) of
        None \<Rightarrow> (Inr (SyncOk None), st)
      | Some flowId \<Rightarrow>
          if flowId = [] then (Inr (SyncOk None), st)
          else
            (case getTaskFlowById readOrigin loadError flowId st of
               (Inl e, st1) \<Rightarrow> (Inl e, st1)
             | (Inr None, st1) \<Rightarrow> (Inr (SyncOk None), st1)
             | (Inr (Some flow), st1) \<Rightarrow>
                 if tf_syncMode flow \<noteq> TaskMirrored then (Inr (SyncOk (Some flow)), st1)
                 else
                   (case updateFlowRecordByIdUnchecked readOrigin loadError ok now flowId (mirrorPatch task flow) st1 of
                      (Inl e, st2) \<Rightarrow> (Inl e, st2)
                    | (Inr None, st2) \<Rightarrow> (Inr (SyncPersistFailed flow), st2)
                    | (Inr (Some updated), st2) \<Rightarrow> (Inr (SyncOk (Some updated)), st2))))"

definition newestFirst :: "task_flow \<Rightarrow> task_flow \<Rightarrow> int" where
  "newestFirst left right = tf_createdAt right - tf_createdAt left"

definition listTaskFlowsForOwnerKey ::
  "(js_value \<Rightarrow> js_value option) \<Rightarrow> string option \<Rightarrow> string \<Rightarrow> flow_registry \<Rightarrow> (flow_error + task_flow list) \<times> flow_registry" where
  "listTaskFlowsForOwnerKey readOrigin loadError ownerKey =
     whenReady readOrigin loadError (\<lambda>st.
       let normalizedOwnerKey = js_trim ownerKey
       in (Inr (if normalizedOwnerKey = [] then []
                else js_toSorted newestFirst
                  (filter (\<lambda>flow. js_trim (tf_ownerKey flow) = normalizedOwnerKey) (map snd (fr_flows st)))), st))"

definition findLatestTaskFlowForOwnerKey ::
  "(js_value \<Rightarrow> js_value option) \<Rightarrow> string option \<Rightarrow> string \<Rightarrow> flow_registry \<Rightarrow> (flow_error + task_flow option) \<times> flow_registry" where
  "findLatestTaskFlowForOwnerKey readOrigin loadError ownerKey st =
     (case listTaskFlowsForOwnerKey readOrigin loadError ownerKey st of
        (Inl e, st1) \<Rightarrow> (Inl e, st1)
      | (Inr flows, st1) \<Rightarrow> (Inr (case flows of [] \<Rightarrow> None | flow # _ \<Rightarrow> Some flow), st1))"

definition resolveTaskFlowForLookupToken ::
  "(js_value \<Rightarrow> js_value option) \<Rightarrow> string option \<Rightarrow> string \<Rightarrow> flow_registry \<Rightarrow> (flow_error + task_flow option) \<times> flow_registry" where
  "resolveTaskFlowForLookupToken readOrigin loadError token st =
     (let lookup = js_trim token
      in if lookup = [] then (Inr None, st)
         else case getTaskFlowById readOrigin loadError lookup st of
                (Inr None, st1) \<Rightarrow> findLatestTaskFlowForOwnerKey readOrigin loadError lookup st1
              | r \<Rightarrow> r)"

definition listTaskFlowRecords ::
  "(js_value \<Rightarrow> js_value option) \<Rightarrow> string option \<Rightarrow> flow_registry \<Rightarrow> (flow_error + task_flow list) \<times> flow_registry" where
  "listTaskFlowRecords readOrigin loadError =
     whenReady readOrigin loadError (\<lambda>st. (Inr (js_toSorted newestFirst (map snd (fr_flows st))), st))"

definition deleteTaskFlowRecordById ::
  "(js_value \<Rightarrow> js_value option) \<Rightarrow> string option \<Rightarrow> bool \<Rightarrow> string \<Rightarrow> flow_registry \<Rightarrow> (flow_error + bool) \<times> flow_registry" where
  "deleteTaskFlowRecordById readOrigin loadError ok flowId =
     whenReady readOrigin loadError (\<lambda>st.
       case map_of (fr_flows st) flowId of
         None \<Rightarrow> (Inr False, st)
       | Some current \<Rightarrow>
           (case tryPersistFlowDelete ok flowId st of
              (False, st1) \<Rightarrow> (Inr False, st1)
            | (True, st1) \<Rightarrow>
                (Inr True, emitFlowRegistryObserverEvent (FlowDeleted flowId current)
                   (st1\<lparr>fr_flows := AList.delete flowId (fr_flows st1)\<rparr>))))"

subsection \<open>Access of an owner\<close>

definition getTaskFlowByIdForOwner ::
  "(js_value \<Rightarrow> js_value option) \<Rightarrow> string option \<Rightarrow> string \<Rightarrow> string \<Rightarrow> flow_registry \<Rightarrow> (flow_error + task_flow option) \<times> flow_registry" where
  "getTaskFlowByIdForOwner readOrigin loadError flowId callerOwnerKey st =
     (case getTaskFlowById readOrigin loadError flowId st of
        (Inr (Some flow), st1) \<Rightarrow>
          (Inr (if optionalString (Some (tf_ownerKey flow)) = optionalString (Some callerOwnerKey) then Some flow else None), st1)
      | r \<Rightarrow> r)"

definition listTaskFlowsForOwner ::
  "(js_value \<Rightarrow> js_value option) \<Rightarrow> string option \<Rightarrow> string \<Rightarrow> flow_registry \<Rightarrow> (flow_error + task_flow list) \<times> flow_registry" where
  "listTaskFlowsForOwner readOrigin loadError callerOwnerKey st =
     (case optionalString (Some callerOwnerKey) of
        Some ownerKey \<Rightarrow> listTaskFlowsForOwnerKey readOrigin loadError ownerKey st
      | None \<Rightarrow> (Inr [], st))"

definition findLatestTaskFlowForOwner ::
  "(js_value \<Rightarrow> js_value option) \<Rightarrow> string option \<Rightarrow> string \<Rightarrow> flow_registry \<Rightarrow> (flow_error + task_flow option) \<times> flow_registry" where
  "findLatestTaskFlowForOwner readOrigin loadError callerOwnerKey st =
     (case optionalString (Some callerOwnerKey) of
        Some ownerKey \<Rightarrow> findLatestTaskFlowForOwnerKey readOrigin loadError ownerKey st
      | None \<Rightarrow> (Inr None, st))"

definition resolveTaskFlowForLookupTokenForOwner ::
  "(js_value \<Rightarrow> js_value option) \<Rightarrow> string option \<Rightarrow> string \<Rightarrow> string \<Rightarrow> flow_registry \<Rightarrow> (flow_error + task_flow option) \<times> flow_registry" where
  "resolveTaskFlowForLookupTokenForOwner readOrigin loadError token callerOwnerKey st =
     (case getTaskFlowByIdForOwner readOrigin loadError token callerOwnerKey st of
        (Inr None, st1) \<Rightarrow>
          (case (optionalString (Some token), optionalString (Some callerOwnerKey)) of
             (Some normalizedToken, Some owner) \<Rightarrow>
               if normalizedToken \<noteq> owner then (Inr None, st1)
               else findLatestTaskFlowForOwner readOrigin loadError owner st1
           | _ \<Rightarrow> (Inr None, st1))
      | r \<Rightarrow> r)"

end
