(* ===== verification/Task_Registry.thy ===== *)
theory Task_Registry
  imports Task_Store Task_Flows
begin

text \<open>
  The in-memory registry of tasks with its four indexes, \<open>src/tasks/task-registry-state.ts\<close>, its queries,
  \<open>task-registry-query.ts\<close>, and its mutation, \<open>task-registry-mutation.ts\<close>, which also carries changes of tasks
  to the registry of flows.

  The state holds the maps of the module, the tables of the database and the registry of flows. The environment of a
  call gives the clock, the errors that restoring either registry throws, and, for the writes in their order, whether
  they commit; \<open>normOrigin\<close> is \<open>normalizeDeliveryContext\<close>, which consults the channels that plugins register.
  The configured store is the default one, which writes a task together with its delivery state.
\<close>

subsection \<open>State\<close>

datatype task_restore = TasksUninitialized | TasksRestoring | TasksReady | TasksFailed task_error

datatype registry_event =
    TasksRestored "task_record list"
  | TaskUpserted task_record "task_record option"
  | TaskDeleted string task_record

type_synonym key_index = "(string \<times> string list) list"

record task_registry =
  tg_tasks :: "(string \<times> task_record) list"
  tg_deliveryStates :: "(string \<times> task_delivery) list"
  tg_byRunId :: key_index
  tg_byOwnerKey :: key_index
  tg_byParentFlowId :: key_index
  tg_byRelatedSessionKey :: key_index
  tg_pendingDelivery :: "string list"
  tg_restore :: task_restore
  tg_retryTimers :: "(string \<times> nat) list"
  tg_retryWaiters :: "(string \<times> nat) list"
  tg_flows :: flow_registry
  tg_db :: task_tables
  tg_events :: "registry_event list"
  tg_writes :: nat

record task_env =
  te_readOrigin :: "js_value \<Rightarrow> js_value option"
  te_normOrigin :: "js_value \<Rightarrow> js_value option"
  te_now :: int
  te_loadError :: "string option"
  te_flowLoadError :: "string option"
  te_commits :: "nat \<Rightarrow> bool"

type_synonym 'a task_call = "task_registry \<Rightarrow> (task_error + 'a) \<times> task_registry"

definition emitTaskRegistryObserverEvent :: "registry_event \<Rightarrow> task_registry \<Rightarrow> task_registry" where
  "emitTaskRegistryObserverEvent event st = st\<lparr>tg_events := tg_events st @ [event]\<rparr>"

text \<open>A call of the registry of flows. It makes at most one write, which has the next number.\<close>

definition onFlows ::
  "task_env \<Rightarrow> (bool \<Rightarrow> flow_registry \<Rightarrow> (flow_error + 'a) \<times> flow_registry) \<Rightarrow> 'a task_call" where
  "onFlows env f st =
     (case f (te_commits env (tg_writes st)) (tg_flows st) of
        (r, flows) \<Rightarrow> (map_sum FlowRegistryError id r, st\<lparr>tg_flows := flows, tg_writes := Suc (tg_writes st)\<rparr>))"

definition ensureFlows :: "task_env \<Rightarrow> unit task_call" where
  "ensureFlows env = onFlows env (\<lambda>ok fs.
     case ensureTaskFlowRegistryReady (te_readOrigin env) (te_flowLoadError env) fs of
       (Some e, fs1) \<Rightarrow> (Inl e, fs1)
     | (None, fs1) \<Rightarrow> (Inr (), fs1))"

definition flowById :: "task_env \<Rightarrow> string \<Rightarrow> task_flow option task_call" where
  "flowById env flowId = onFlows env (\<lambda>ok. getTaskFlowById (te_readOrigin env) (te_flowLoadError env) flowId)"

definition ensureLinkedTaskFlowRegistryReady :: "task_env \<Rightarrow> task_record \<Rightarrow> unit task_call" where
  "ensureLinkedTaskFlowRegistryReady env task st =
     (if js_trim (nullish (tr_parentFlowId task) []) \<noteq> [] then ensureFlows env st else (Inr (), st))"

lemma case_unit_any [simp]: "(case u of () \<Rightarrow> x) = x"
  by (split unit.split) (rule impI, rule refl)

subsection \<open>Indexes\<close>

definition nonBlank :: "string option \<Rightarrow> string option" where
  "nonBlank s = (let t = js_trim (nullish s []) in if t \<noteq> [] then Some t else None)"

definition addIndexedKey :: "key_index \<Rightarrow> string \<Rightarrow> string \<Rightarrow> key_index" where
  "addIndexedKey index key taskId = AList.update key (js_set_add (nullish (map_of index key) []) taskId) index"

definition deleteIndexedKey :: "key_index \<Rightarrow> string \<Rightarrow> string \<Rightarrow> key_index" where
  "deleteIndexedKey index key taskId =
     (case map_of index key of
        None \<Rightarrow> index
      | Some ids \<Rightarrow>
          let rest = removeAll taskId ids in if rest = [] then AList.delete key index else AList.update key rest index)"

definition getTaskRelatedSessionIndexKeys :: "task_record \<Rightarrow> string list" where
  "getTaskRelatedSessionIndexKeys task =
     uniqueStrings (List.map_filter id [optionalString (Some (tr_ownerKey task)), optionalString (tr_childSessionKey task)])"

definition addRunIdIndex :: "string \<Rightarrow> string option \<Rightarrow> key_index \<Rightarrow> key_index" where
  "addRunIdIndex taskId runId index = (case nonBlank runId of None \<Rightarrow> index | Some key \<Rightarrow> addIndexedKey index key taskId)"

definition addOwnerKeyIndex :: "string \<Rightarrow> task_record \<Rightarrow> key_index \<Rightarrow> key_index" where
  "addOwnerKeyIndex taskId task index =
     (case optionalString (Some (tr_ownerKey task)) of None \<Rightarrow> index | Some key \<Rightarrow> addIndexedKey index key taskId)"

definition deleteOwnerKeyIndex :: "string \<Rightarrow> task_record \<Rightarrow> key_index \<Rightarrow> key_index" where
  "deleteOwnerKeyIndex taskId task index =
     (case optionalString (Some (tr_ownerKey task)) of None \<Rightarrow> index | Some key \<Rightarrow> deleteIndexedKey index key taskId)"

definition addParentFlowIdIndex :: "string \<Rightarrow> task_record \<Rightarrow> key_index \<Rightarrow> key_index" where
  "addParentFlowIdIndex taskId task index =
     (case nonBlank (tr_parentFlowId task) of None \<Rightarrow> index | Some key \<Rightarrow> addIndexedKey index key taskId)"

definition deleteParentFlowIdIndex :: "string \<Rightarrow> task_record \<Rightarrow> key_index \<Rightarrow> key_index" where
  "deleteParentFlowIdIndex taskId task index =
     (case nonBlank (tr_parentFlowId task) of None \<Rightarrow> index | Some key \<Rightarrow> deleteIndexedKey index key taskId)"

definition addRelatedSessionKeyIndex :: "string \<Rightarrow> task_record \<Rightarrow> key_index \<Rightarrow> key_index" where
  "addRelatedSessionKeyIndex taskId task index =
     foldl (\<lambda>ix key. addIndexedKey ix key taskId) index (getTaskRelatedSessionIndexKeys task)"

definition deleteRelatedSessionKeyIndex :: "string \<Rightarrow> task_record \<Rightarrow> key_index \<Rightarrow> key_index" where
  "deleteRelatedSessionKeyIndex taskId task index =
     foldl (\<lambda>ix key. deleteIndexedKey ix key taskId) index (getTaskRelatedSessionIndexKeys task)"

definition rebuildRunIdIndex :: "(string \<times> task_record) list \<Rightarrow> key_index" where
  "rebuildRunIdIndex tasks = foldl (\<lambda>ix (taskId, task). addRunIdIndex taskId (tr_runId task) ix) [] tasks"

definition rebuildOwnerKeyIndex :: "(string \<times> task_record) list \<Rightarrow> key_index" where
  "rebuildOwnerKeyIndex tasks = foldl (\<lambda>ix (taskId, task). addOwnerKeyIndex taskId task ix) [] tasks"

definition rebuildParentFlowIdIndex :: "(string \<times> task_record) list \<Rightarrow> key_index" where
  "rebuildParentFlowIdIndex tasks = foldl (\<lambda>ix (taskId, task). addParentFlowIdIndex taskId task ix) [] tasks"

definition rebuildRelatedSessionKeyIndex :: "(string \<times> task_record) list \<Rightarrow> key_index" where
  "rebuildRelatedSessionKeyIndex tasks = foldl (\<lambda>ix (taskId, task). addRelatedSessionKeyIndex taskId task ix) [] tasks"

subsection \<open>Restoring\<close>

definition clearTaskRegistryMemory :: "task_registry \<Rightarrow> task_registry" where
  "clearTaskRegistryMemory st = st\<lparr>tg_retryTimers := [], tg_tasks := [], tg_deliveryStates := [], tg_byRunId := [],
     tg_byOwnerKey := [], tg_byParentFlowId := [], tg_byRelatedSessionKey := [], tg_pendingDelivery := []\<rparr>"

definition loadSnapshot ::
  "task_env \<Rightarrow> task_tables \<Rightarrow> flow_error + (string \<times> task_record) list \<times> (string \<times> task_delivery) list" where
  "loadSnapshot env db =
     (case te_loadError env of
        Some message \<Rightarrow> Inl (DatabaseError message)
      | None \<Rightarrow>
          (case loadTaskRegistryStateFromSqlite (te_readOrigin env) db of
             Inl e \<Rightarrow> Inl e
           | Inr (tasks, deliveries) \<Rightarrow> Inr (map (\<lambda>(taskId, task). (taskId, normalizeTaskTimestamps task)) tasks, deliveries)))"

definition restoredRegistry ::
  "(string \<times> task_record) list \<Rightarrow> (string \<times> task_delivery) list \<Rightarrow> task_registry \<Rightarrow> task_registry" where
  "restoredRegistry tasks deliveries st =
     (let st1 = (clearTaskRegistryMemory st)\<lparr>tg_tasks := tasks, tg_deliveryStates := deliveries,
            tg_byRunId := rebuildRunIdIndex tasks, tg_byOwnerKey := rebuildOwnerKeyIndex tasks,
            tg_byParentFlowId := rebuildParentFlowIdIndex tasks,
            tg_byRelatedSessionKey := rebuildRelatedSessionKeyIndex tasks, tg_restore := TasksReady\<rparr>
      in if tasks \<noteq> [] \<or> deliveries \<noteq> [] then emitTaskRegistryObserverEvent (TasksRestored (map snd tasks)) st1 else st1)"

definition restoreTaskRegistryOnce :: "task_env \<Rightarrow> unit task_call" where
  "restoreTaskRegistryOnce env st =
     (case tg_restore st of
        TasksReady \<Rightarrow> (Inr (), st)
      | TasksFailed e \<Rightarrow> (Inl e, st)
      | TasksRestoring \<Rightarrow> (Inl TaskRestoreInProgress, st)
      | TasksUninitialized \<Rightarrow>
          (case loadSnapshot env (tg_db st) of
             Inr (tasks, deliveries) \<Rightarrow> (Inr (), restoredRegistry tasks deliveries st)
           | Inl e \<Rightarrow>
               (Inl (TaskRestoreFailure e),
                (clearTaskRegistryMemory st)\<lparr>tg_restore := TasksFailed (TaskRestoreFailure e)\<rparr>)))"

definition ensureTaskRegistryReady :: "task_env \<Rightarrow> unit task_call" where
  "ensureTaskRegistryReady = restoreTaskRegistryOnce"

definition reloadTaskRegistryFromStore :: "task_env \<Rightarrow> unit task_call" where
  "reloadTaskRegistryFromStore env st =
     ensureTaskRegistryReady env ((clearTaskRegistryMemory st)\<lparr>tg_restore := TasksUninitialized\<rparr>)"

definition whenTasksReady :: "task_env \<Rightarrow> 'a task_call \<Rightarrow> 'a task_call" where
  "whenTasksReady env f st =
     (case ensureTaskRegistryReady env st of (Inl e, st1) \<Rightarrow> (Inl e, st1) | (Inr (), st1) \<Rightarrow> f st1)"

subsection \<open>Queries\<close>

definition tasksOfIds :: "task_registry \<Rightarrow> string list \<Rightarrow> task_record list" where
  "tasksOfIds st ids = List.map_filter (map_of (tg_tasks st)) ids"

definition compareTasksNewestFirst :: "nat \<times> task_record \<Rightarrow> nat \<times> task_record \<Rightarrow> int" where
  "compareTasksNewestFirst left right =
     (let createdAtDiff = tr_createdAt (snd right) - tr_createdAt (snd left)
      in if createdAtDiff \<noteq> 0 then createdAtDiff else int (fst right) - int (fst left))"

definition newestTasksFirst :: "(nat \<times> task_record) list \<Rightarrow> task_record list" where
  "newestTasksFirst indexed = map snd (js_toSorted compareTasksNewestFirst indexed)"

definition listTasksFromIndex :: "task_registry \<Rightarrow> key_index \<Rightarrow> string \<Rightarrow> task_record list" where
  "listTasksFromIndex st index key =
     (case map_of index key of
        None \<Rightarrow> []
      | Some ids \<Rightarrow>
          newestTasksFirst (List.map_filter (\<lambda>(i, taskId). map_option (Pair i) (map_of (tg_tasks st) taskId)) (enumerate 0 ids)))"

definition getTasksByRunId :: "task_registry \<Rightarrow> string \<Rightarrow> task_record list" where
  "getTasksByRunId st runId =
     (case map_of (tg_byRunId st) (js_trim runId) of None \<Rightarrow> [] | Some ids \<Rightarrow> tasksOfIds st ids)"

definition taskRunScopeKey :: "task_record \<Rightarrow> task_runtime \<times> scope_kind \<times> string \<times> string" where
  "taskRunScopeKey task =
     (tr_runtime task, tr_scopeKind task, nullish (optionalString (Some (tr_ownerKey task))) [],
      nullish (optionalString (tr_childSessionKey task)) [])"

definition getTasksByRunScope :: "task_registry \<Rightarrow> string \<Rightarrow> task_runtime option \<Rightarrow> string option \<Rightarrow> task_record list" where
  "getTasksByRunScope st runId runtime sessionKey =
     (let matches = filter (\<lambda>task. case runtime of None \<Rightarrow> True | Some r \<Rightarrow> tr_runtime task = r) (getTasksByRunId st runId)
      in case optionalString sessionKey of
           Some key \<Rightarrow>
             let childMatches = filter (\<lambda>task. optionalString (tr_childSessionKey task) = Some key) matches
             in if childMatches \<noteq> [] then childMatches
                else filter (\<lambda>task. tr_scopeKind task = SessionScope \<and> optionalString (Some (tr_ownerKey task)) = Some key) matches
         | None \<Rightarrow> if length (js_set_of (map taskRunScopeKey matches)) \<le> 1 then matches else [])"

definition getPeerTasksForDelivery :: "task_registry \<Rightarrow> task_record \<Rightarrow> task_record list" where
  "getPeerTasksForDelivery st task =
     (case nonBlank (tr_runId task) of
        None \<Rightarrow> []
      | Some _ \<Rightarrow> filter (\<lambda>candidate. taskRunScopeKey candidate = taskRunScopeKey task) (getTasksByRunId st (nullish (tr_runId task) [])))"

definition taskLookupPriority :: "task_record \<Rightarrow> int" where
  "taskLookupPriority task = (if tr_runtime task = CliTask then 1 else 0)"

definition comparePreferred :: "task_record \<Rightarrow> task_record \<Rightarrow> int" where
  "comparePreferred left right =
     (let priorityDiff = taskLookupPriority left - taskLookupPriority right
      in if priorityDiff \<noteq> 0 then priorityDiff else tr_createdAt left - tr_createdAt right)"

definition pickPreferredRunIdTask :: "task_record list \<Rightarrow> task_record option" where
  "pickPreferredRunIdTask matches = (case js_toSorted comparePreferred matches of [] \<Rightarrow> None | task # _ \<Rightarrow> Some task)"

definition taskMatchesRelatedSession :: "task_record \<Rightarrow> string option \<Rightarrow> bool" where
  "taskMatchesRelatedSession task sessionKey =
     (case sessionKey of
        None \<Rightarrow> True
      | Some key \<Rightarrow>
          list_ex (\<lambda>candidate. optionalString candidate = Some key)
            [Some (tr_requesterSessionKey task), tr_childSessionKey task, Some (tr_ownerKey task)])"

definition taskMatchesAgent :: "task_record \<Rightarrow> string option \<Rightarrow> bool" where
  "taskMatchesAgent task agentId =
     (case agentId of
        None \<Rightarrow> True
      | Some a \<Rightarrow>
          (case optionalString (tr_agentId task) of
             Some explicitAgentId \<Rightarrow> explicitAgentId = a
           | None \<Rightarrow>
               list_ex (\<lambda>candidate. map_option pk_agentId (parseAgentSessionKey candidate) = Some a)
                 [Some (tr_requesterSessionKey task), tr_childSessionKey task, Some (tr_ownerKey task)]))"

definition taskUpdatedAt :: "task_record \<Rightarrow> int" where
  "taskUpdatedAt task = nullish (tr_lastEventAt task) (nullish (tr_endedAt task) (nullish (tr_startedAt task) (tr_createdAt task)))"

definition compareUpdated :: "task_record \<Rightarrow> task_record \<Rightarrow> int" where
  "compareUpdated left right =
     (let updatedDiff = taskUpdatedAt right - taskUpdatedAt left
      in if updatedDiff \<noteq> 0 then updatedDiff else compareCodeUnits (tr_taskId left) (tr_taskId right))"

definition listTaskRecordPage ::
  "task_env \<Rightarrow> nat \<Rightarrow> nat \<Rightarrow> task_status list option \<Rightarrow> string option \<Rightarrow> string option \<Rightarrow> (task_record list \<times> bool) task_call" where
  "listTaskRecordPage env offset limit statuses agentIdOption sessionKeyOption = whenTasksReady env (\<lambda>st.
     let agentId = optionalString agentIdOption; sessionKey = optionalString sessionKeyOption;
         matching = js_toSorted compareUpdated
           (filter (\<lambda>task. (case statuses of None \<Rightarrow> True | Some ss \<Rightarrow> tr_status task \<in> set ss)
                           \<and> taskMatchesAgent task agentId \<and> taskMatchesRelatedSession task sessionKey) (map snd (tg_tasks st)));
         selected = take limit (drop offset matching)
     in (Inr (selected, offset + length selected < length matching), st))"

definition listTaskRecords :: "task_env \<Rightarrow> task_record list task_call" where
  "listTaskRecords env = whenTasksReady env (\<lambda>st. (Inr (newestTasksFirst (enumerate 0 (map snd (tg_tasks st)))), st))"

definition hasActiveTaskForChildSessionKey :: "task_env \<Rightarrow> string \<Rightarrow> string option \<Rightarrow> bool task_call" where
  "hasActiveTaskForChildSessionKey env sessionKey excludeTaskId = whenTasksReady env (\<lambda>st.
     case optionalString (Some sessionKey) of
       None \<Rightarrow> (Inr False, st)
     | Some key \<Rightarrow>
         (case map_of (tg_byRelatedSessionKey st) key of
            None \<Rightarrow> (Inr False, st)
          | Some ids \<Rightarrow>
              (Inr (list_ex (\<lambda>taskId. Some taskId \<noteq> excludeTaskId
                  \<and> (case map_of (tg_tasks st) taskId of
                       None \<Rightarrow> False
                     | Some task \<Rightarrow> isActiveTaskStatus (tr_status task) \<and> optionalString (tr_childSessionKey task) = Some key)) ids), st)))"

definition getTaskById :: "task_env \<Rightarrow> string \<Rightarrow> task_record option task_call" where
  "getTaskById env taskId = whenTasksReady env (\<lambda>st. (Inr (map_of (tg_tasks st) (js_trim taskId)), st))"

definition findTaskByRunId :: "task_env \<Rightarrow> string \<Rightarrow> task_record option task_call" where
  "findTaskByRunId env runId = whenTasksReady env (\<lambda>st. (Inr (pickPreferredRunIdTask (getTasksByRunId st runId)), st))"

definition listTasksForRelatedSessionKey :: "task_env \<Rightarrow> string \<Rightarrow> task_record list task_call" where
  "listTasksForRelatedSessionKey env sessionKey = whenTasksReady env (\<lambda>st.
     (Inr (case optionalString (Some sessionKey) of
             None \<Rightarrow> [] | Some key \<Rightarrow> listTasksFromIndex st (tg_byRelatedSessionKey st) key), st))"

definition listTasksForSessionKey :: "task_env \<Rightarrow> string \<Rightarrow> task_record list task_call" where
  "listTasksForSessionKey env sessionKey = whenTasksReady env (\<lambda>st.
     (Inr (case optionalString (Some sessionKey) of
             None \<Rightarrow> [] | Some key \<Rightarrow> listTasksFromIndex st (tg_byRelatedSessionKey st) key), st))"

definition listTasksForAgentId :: "task_env \<Rightarrow> string \<Rightarrow> task_record list task_call" where
  "listTasksForAgentId env agentId = whenTasksReady env (\<lambda>st.
     let lookup = js_trim agentId
     in (Inr (if lookup = [] then []
              else newestTasksFirst (map (Pair 0) (filter (\<lambda>task. map_option js_trim (tr_agentId task) = Some lookup) (map snd (tg_tasks st))))),
         st))"

definition listTasksForOwnerKey :: "task_env \<Rightarrow> string \<Rightarrow> task_record list task_call" where
  "listTasksForOwnerKey env ownerKey = whenTasksReady env (\<lambda>st.
     (Inr (case optionalString (Some ownerKey) of
             None \<Rightarrow> [] | Some key \<Rightarrow> listTasksFromIndex st (tg_byOwnerKey st) key), st))"

text \<open>The fresh list reads the table; a failed read (here \<open>readFails\<close> or a malformed row) falls back to the index.\<close>

definition listFreshTasksForOwnerKey :: "task_env \<Rightarrow> bool \<Rightarrow> string \<Rightarrow> task_record list task_call" where
  "listFreshTasksForOwnerKey env readFails ownerKey = whenTasksReady env (\<lambda>st.
     (Inr (case optionalString (Some ownerKey) of
             None \<Rightarrow> []
           | Some key \<Rightarrow>
               (case listTaskRegistryRecordsByOwnerKeyFromSqlite (tg_db st) key of
                  Inl e \<Rightarrow> listTasksFromIndex st (tg_byOwnerKey st) key
                | Inr rows \<Rightarrow>
                    if readFails then listTasksFromIndex st (tg_byOwnerKey st) key
                    else newestTasksFirst (enumerate 0 (map snd
                           (foldl (\<lambda>merged task. AList.update (tr_taskId task) (normalizeTaskTimestamps task) merged) [] rows))))), st))"

definition listTasksForFlowId :: "task_env \<Rightarrow> string \<Rightarrow> task_record list task_call" where
  "listTasksForFlowId env flowId = whenTasksReady env (\<lambda>st.
     let key = js_trim flowId
     in (Inr (if key = [] then [] else listTasksFromIndex st (tg_byParentFlowId st) key), st))"

definition headOption :: "'a list \<Rightarrow> 'a option" where
  "headOption xs = (case xs of [] \<Rightarrow> None | x # _ \<Rightarrow> Some x)"

definition findLatestTaskForFlowId :: "task_env \<Rightarrow> string \<Rightarrow> task_record option task_call" where
  "findLatestTaskForFlowId env flowId st = map_prod (map_sum id headOption) id (listTasksForFlowId env flowId st)"

definition findLatestTaskForRelatedSessionKey :: "task_env \<Rightarrow> string \<Rightarrow> task_record option task_call" where
  "findLatestTaskForRelatedSessionKey env sessionKey st =
     map_prod (map_sum id headOption) id (listTasksForRelatedSessionKey env sessionKey st)"

definition resolveTaskForLookupToken :: "task_env \<Rightarrow> string \<Rightarrow> task_record option task_call" where
  "resolveTaskForLookupToken env token st =
     (let lookup = js_trim token
      in if lookup = [] then (Inr None, st)
         else case getTaskById env lookup st of
                (Inr None, st1) \<Rightarrow>
                  (case findTaskByRunId env lookup st1 of
                     (Inr None, st2) \<Rightarrow> findLatestTaskForRelatedSessionKey env lookup st2
                   | r \<Rightarrow> r)
              | r \<Rightarrow> r)"

end
