(* ===== verification/Task_Mutation.thy ===== *)
theory Task_Mutation
  imports Task_Registry
begin

text \<open>
  Changes of the registry of tasks: \<open>src/tasks/task-registry-mutation.ts\<close> and the persistence part of
  \<open>task-registry-state.ts\<close>. A change is written to the database before memory changes, the indexes follow the change,
  and the flow of the task is brought up to date: a mirrored flow takes over the state of the task, with retries when
  its write fails, and a managed flow whose cancellation was requested is cancelled when no linked task is pending.
\<close>

subsection \<open>Patches\<close>

text \<open>A property that the patch sets is \<open>Some\<close>; the inner option of an optional property is \<open>None\<close> when the patch
  sets it to \<open>undefined\<close>.\<close>

record task_patch =
  up_status :: "task_status option"
  up_childSessionKey :: "string option option"
  up_runId :: "string option"
  up_taskKind :: "string option"
  up_sourceId :: "string option"
  up_parentFlowId :: "string option"
  up_parentTaskId :: "string option"
  up_agentId :: "string option"
  up_requesterAgentId :: "string option"
  up_label :: "string option"
  up_task :: "string option"
  up_deliveryStatus :: "delivery_status option"
  up_notifyPolicy :: "notify_policy option"
  up_startedAt :: "int option"
  up_endedAt :: "int option"
  up_lastEventAt :: "int option"
  up_cleanupAfter :: "int option"
  up_toolUseCount :: "int option"
  up_lastToolName :: "string option"
  up_error :: "string option option"
  up_progressSummary :: "string option option"
  up_terminalSummary :: "string option option"
  up_terminalOutcome :: "terminal_outcome option option"
  up_detail :: "js_value option"

definition noPatch :: task_patch where
  "noPatch = \<lparr>up_status = None, up_childSessionKey = None, up_runId = None, up_taskKind = None, up_sourceId = None,
     up_parentFlowId = None, up_parentTaskId = None, up_agentId = None, up_requesterAgentId = None, up_label = None,
     up_task = None, up_deliveryStatus = None, up_notifyPolicy = None, up_startedAt = None, up_endedAt = None,
     up_lastEventAt = None, up_cleanupAfter = None, up_toolUseCount = None, up_lastToolName = None, up_error = None,
     up_progressSummary = None, up_terminalSummary = None, up_terminalOutcome = None, up_detail = None\<rparr>"

definition applyTaskPatch :: "task_record \<Rightarrow> task_patch \<Rightarrow> task_record" where
  "applyTaskPatch current patch = current\<lparr>
     tr_status := nullish (up_status patch) (tr_status current),
     tr_childSessionKey := nullish (up_childSessionKey patch) (tr_childSessionKey current),
     tr_runId := nullish_or (up_runId patch) (tr_runId current),
     tr_taskKind := nullish_or (up_taskKind patch) (tr_taskKind current),
     tr_sourceId := nullish_or (up_sourceId patch) (tr_sourceId current),
     tr_parentFlowId := nullish_or (up_parentFlowId patch) (tr_parentFlowId current),
     tr_parentTaskId := nullish_or (up_parentTaskId patch) (tr_parentTaskId current),
     tr_agentId := nullish_or (up_agentId patch) (tr_agentId current),
     tr_requesterAgentId := nullish_or (up_requesterAgentId patch) (tr_requesterAgentId current),
     tr_label := nullish_or (up_label patch) (tr_label current),
     tr_task := nullish (up_task patch) (tr_task current),
     tr_deliveryStatus := nullish (up_deliveryStatus patch) (tr_deliveryStatus current),
     tr_notifyPolicy := nullish (up_notifyPolicy patch) (tr_notifyPolicy current),
     tr_startedAt := nullish_or (up_startedAt patch) (tr_startedAt current),
     tr_endedAt := nullish_or (up_endedAt patch) (tr_endedAt current),
     tr_lastEventAt := nullish_or (up_lastEventAt patch) (tr_lastEventAt current),
     tr_cleanupAfter := nullish_or (up_cleanupAfter patch) (tr_cleanupAfter current),
     tr_toolUseCount := nullish_or (up_toolUseCount patch) (tr_toolUseCount current),
     tr_lastToolName := nullish_or (up_lastToolName patch) (tr_lastToolName current),
     tr_error := nullish (up_error patch) (tr_error current),
     tr_progressSummary := nullish (up_progressSummary patch) (tr_progressSummary current),
     tr_terminalSummary := nullish (up_terminalSummary patch) (tr_terminalSummary current),
     tr_terminalOutcome := nullish (up_terminalOutcome patch) (tr_terminalOutcome current),
     tr_detail := nullish_or (up_detail patch) (tr_detail current)\<rparr>"

definition withCleanupAfter :: "task_record \<Rightarrow> task_record" where
  "withCleanupAfter task =
     (if isTerminalTaskStatus (tr_status task) \<and> tr_cleanupAfter task = None
      then task\<lparr>tr_cleanupAfter := resolveTaskCleanupAfter task\<rparr> else task)"

definition nextTask :: "task_record \<Rightarrow> task_patch \<Rightarrow> task_record" where
  "nextTask current patch = withCleanupAfter (normalizeTaskTimestamps (applyTaskPatch current patch))"

subsection \<open>Persistence\<close>

definition commit :: "task_env \<Rightarrow> (task_tables \<Rightarrow> task_tables) \<Rightarrow> task_registry \<Rightarrow> bool \<times> task_registry" where
  "commit env write st =
     (if te_commits env (tg_writes st) then (True, st\<lparr>tg_db := write (tg_db st), tg_writes := Suc (tg_writes st)\<rparr>)
      else (False, st\<lparr>tg_writes := Suc (tg_writes st)\<rparr>))"

definition tryPersistTaskUpsert :: "task_env \<Rightarrow> task_record \<Rightarrow> task_delivery option \<Rightarrow> task_registry \<Rightarrow> bool \<times> task_registry" where
  "tryPersistTaskUpsert env task pendingDeliveryState st =
     commit env (upsertTaskWithDeliveryStateToSqlite task
       (nullish_or pendingDeliveryState (map_of (tg_deliveryStates st) (tr_taskId task)))) st"

definition tryPersistTaskDelete :: "task_env \<Rightarrow> string \<Rightarrow> task_registry \<Rightarrow> bool \<times> task_registry" where
  "tryPersistTaskDelete env taskId st = commit env (deleteTaskAndDeliveryStateFromSqlite taskId) st"

definition tryPersistTaskDeliveryStateUpsert :: "task_env \<Rightarrow> task_delivery \<Rightarrow> task_registry \<Rightarrow> bool \<times> task_registry" where
  "tryPersistTaskDeliveryStateUpsert env state st = commit env (upsertTaskDeliveryStateToSqlite state) st"

subsection \<open>The flow of a task\<close>

definition TASK_FLOW_SYNC_RETRY_DELAYS_MS :: "int list" where
  "TASK_FLOW_SYNC_RETRY_DELAYS_MS = [1000, 5000, 25000, 120000, 600000]"

definition scheduleTaskFlowSyncRetry :: "task_record \<Rightarrow> nat \<Rightarrow> task_registry \<Rightarrow> task_registry" where
  "scheduleTaskFlowSyncRetry task attempt st =
     (let taskId = js_trim (tr_taskId task)
      in if taskId = [] \<or> taskId \<in> fst ` set (tg_retryTimers st) then st
         else if attempt \<ge> length TASK_FLOW_SYNC_RETRY_DELAYS_MS then st
         else st\<lparr>tg_retryTimers := tg_retryTimers st @ [(taskId, attempt)]\<rparr>)"

definition syncTaskFlow :: "task_env \<Rightarrow> task_record \<Rightarrow> sync_result task_call" where
  "syncTaskFlow env task = onFlows env (\<lambda>ok.
     syncFlowFromTaskResult (te_readOrigin env) (te_flowLoadError env) ok (te_now env) task)"

definition syncFlowFromTaskAfterTaskMutation :: "task_env \<Rightarrow> task_record \<Rightarrow> unit task_call" where
  "syncFlowFromTaskAfterTaskMutation env task st =
     (case syncTaskFlow env task st of
        (Inl e, st1) \<Rightarrow> (Inl e, st1)
      | (Inr (SyncOk _), st1) \<Rightarrow> (Inr (), st1)
      | (Inr (SyncPersistFailed _), st1) \<Rightarrow> (Inr (), scheduleTaskFlowSyncRetry task 0 st1))"

text \<open>The body of the retry timer once the process admits it.\<close>

definition retryTaskFlowSync :: "task_env \<Rightarrow> string \<Rightarrow> nat \<Rightarrow> task_registry \<Rightarrow> task_registry" where
  "retryTaskFlowSync env taskId attempt st =
     (case map_of (tg_tasks st) taskId of
        None \<Rightarrow> st
      | Some current \<Rightarrow>
          (case nonBlank (tr_parentFlowId current) of
             None \<Rightarrow> st
           | Some flowId \<Rightarrow>
               (case findLatestTaskForFlowId env flowId st of
                  (Inl e, st1) \<Rightarrow> st1
                | (Inr latest, st1) \<Rightarrow>
                    if map_option tr_taskId latest \<noteq> Some taskId then st1
                    else
                      (case syncTaskFlow env current st1 of
                         (Inr (SyncPersistFailed _), st2) \<Rightarrow> scheduleTaskFlowSyncRetry current (Suc attempt) st2
                       | (_, st2) \<Rightarrow> st2))))"

datatype admission_outcome = AdmitNow | AdmitLater | AdmitRefused

definition retryTimerFires :: "task_env \<Rightarrow> admission_outcome \<Rightarrow> string \<Rightarrow> task_registry \<Rightarrow> task_registry" where
  "retryTimerFires env gate taskId st =
     (case map_of (tg_retryTimers st) taskId of
        None \<Rightarrow> st
      | Some attempt \<Rightarrow>
          let st1 = st\<lparr>tg_retryTimers := AList.delete taskId (tg_retryTimers st)\<rparr>
          in case gate of
               AdmitNow \<Rightarrow> retryTaskFlowSync env taskId attempt st1
             | AdmitLater \<Rightarrow> st1\<lparr>tg_retryWaiters := tg_retryWaiters st1 @ [(taskId, attempt)]\<rparr>
             | AdmitRefused \<Rightarrow> st1)"

definition retryAdmitted :: "task_env \<Rightarrow> task_registry \<Rightarrow> task_registry" where
  "retryAdmitted env st =
     (case tg_retryWaiters st of
        [] \<Rightarrow> st
      | (taskId, attempt) # rest \<Rightarrow> retryTaskFlowSync env taskId attempt (st\<lparr>tg_retryWaiters := rest\<rparr>))"

definition cancellable :: "task_flow \<Rightarrow> bool" where
  "cancellable flow \<longleftrightarrow>
     tf_syncMode flow = Managed \<and> tf_cancelRequestedAt flow \<noteq> None \<and> \<not> isTerminalFlowStatus (tf_status flow)"

definition cancelledPatch :: "int \<Rightarrow> flow_patch" where
  "cancelledPatch endedAt = emptyPatch\<lparr>fp_status := Some FlowCancelled, fp_blockedTaskId := Some None,
     fp_blockedSummary := Some None, fp_waitJson := Some JNull, fp_endedAt := Some (Some endedAt),
     fp_updatedAt := Some endedAt\<rparr>"

definition expectRevision :: "task_env \<Rightarrow> string \<Rightarrow> int \<Rightarrow> flow_patch \<Rightarrow> update_result task_call" where
  "expectRevision env flowId revision patch = onFlows env (\<lambda>ok.
     updateFlowRecordByIdExpectedRevision (te_readOrigin env) (te_flowLoadError env) ok (te_now env) flowId revision patch)"

definition refusedFlow :: "update_result \<Rightarrow> task_flow option" where
  "refusedFlow result = (case result of RevisionConflict flow \<Rightarrow> Some flow | PersistFailed flow \<Rightarrow> Some flow | _ \<Rightarrow> None)"

definition anyPendingTask :: "task_env \<Rightarrow> string \<Rightarrow> bool task_call" where
  "anyPendingTask env flowId st =
     map_prod (map_sum id (list_ex isTaskFlowCancellationPending)) id (listTasksForFlowId env flowId st)"

text \<open>The loop over the attempts; the flow and its linked tasks were checked for the current attempt.\<close>

fun cancelAttempts :: "task_env \<Rightarrow> nat \<Rightarrow> string \<Rightarrow> int \<Rightarrow> task_flow \<Rightarrow> unit task_call" where
  "cancelAttempts env 0 flowId endedAt flow st = (Inr (), st)"
| "cancelAttempts env (Suc n) flowId endedAt flow st =
     (case expectRevision env flowId (tf_revision flow) (cancelledPatch endedAt) st of
        (Inl e, st1) \<Rightarrow> (Inl e, st1)
      | (Inr result, st1) \<Rightarrow>
          (case refusedFlow result of
             None \<Rightarrow> (Inr (), st1)
           | Some current \<Rightarrow>
               if \<not> cancellable current then (Inr (), st1)
               else
                 (case anyPendingTask env flowId st1 of
                    (Inl e, st2) \<Rightarrow> (Inl e, st2)
                  | (Inr pending, st2) \<Rightarrow>
                      if pending then (Inr (), st2) else cancelAttempts env n flowId endedAt current st2)))"

definition syncManagedFlowCancellationFromTask :: "task_env \<Rightarrow> task_record \<Rightarrow> unit task_call" where
  "syncManagedFlowCancellationFromTask env task st =
     (case nonBlank (tr_parentFlowId task) of
        None \<Rightarrow> (Inr (), st)
      | Some flowId \<Rightarrow>
          (case flowById env flowId st of
             (Inl e, st1) \<Rightarrow> (Inl e, st1)
           | (Inr None, st1) \<Rightarrow> (Inr (), st1)
           | (Inr (Some flow), st1) \<Rightarrow>
               if \<not> cancellable flow then (Inr (), st1)
               else
                 (case anyPendingTask env flowId st1 of
                    (Inl e, st2) \<Rightarrow> (Inl e, st2)
                  | (Inr pending, st2) \<Rightarrow>
                      if pending then (Inr (), st2)
                      else cancelAttempts env 2 flowId
                             (nullish (tr_endedAt task) (nullish (tr_lastEventAt task) (te_now env))) flow st2)))"

subsection \<open>Updating a task\<close>

definition reindexTask :: "string \<Rightarrow> task_patch \<Rightarrow> task_record \<Rightarrow> task_record \<Rightarrow> task_registry \<Rightarrow> task_registry" where
  "reindexTask taskId patch current next' st =
     (let sessionIndexChanged =
            optionalString (Some (tr_ownerKey current)) \<noteq> optionalString (Some (tr_ownerKey next'))
            \<or> optionalString (tr_childSessionKey current) \<noteq> optionalString (tr_childSessionKey next');
          parentFlowIndexChanged =
            map_option js_trim (tr_parentFlowId current) \<noteq> map_option js_trim (tr_parentFlowId next');
          st1 = st\<lparr>tg_tasks := AList.update taskId next' (tg_tasks st)\<rparr>;
          st2 = (if up_runId patch \<noteq> None \<and> up_runId patch \<noteq> Some [] \<and> up_runId patch \<noteq> tr_runId current
                 then st1\<lparr>tg_byRunId := rebuildRunIdIndex (tg_tasks st1)\<rparr> else st1);
          st3 = (if sessionIndexChanged
                 then st2\<lparr>tg_byOwnerKey := addOwnerKeyIndex taskId next' (deleteOwnerKeyIndex taskId current (tg_byOwnerKey st2)),
                        tg_byRelatedSessionKey :=
                          addRelatedSessionKeyIndex taskId next' (deleteRelatedSessionKeyIndex taskId current (tg_byRelatedSessionKey st2))\<rparr>
                 else st2)
      in if parentFlowIndexChanged
         then st3\<lparr>tg_byParentFlowId := addParentFlowIdIndex taskId next' (deleteParentFlowIdIndex taskId current (tg_byParentFlowId st3))\<rparr>
         else st3)"

definition carryToFlow :: "task_env \<Rightarrow> task_record \<Rightarrow> task_record \<Rightarrow> task_record option task_call" where
  "carryToFlow env current next' st =
     (case syncFlowFromTaskAfterTaskMutation env next' st of
        (Inl e, st1) \<Rightarrow> (Inl e, st1)
      | (Inr (), st1) \<Rightarrow>
          (Inr (Some next'), emitTaskRegistryObserverEvent (TaskUpserted next' (Some current))
             (snd (syncManagedFlowCancellationFromTask env next' st1))))"

definition updateTask :: "task_env \<Rightarrow> string \<Rightarrow> task_patch \<Rightarrow> task_record option task_call" where
  "updateTask env taskId patch st =
     (case map_of (tg_tasks st) taskId of
        None \<Rightarrow> (Inr None, st)
      | Some current \<Rightarrow>
          let next' = nextTask current patch
          in case ensureLinkedTaskFlowRegistryReady env current st of
               (Inl e, st1) \<Rightarrow> (Inl e, st1)
             | (Inr (), st1) \<Rightarrow>
                 (case ensureLinkedTaskFlowRegistryReady env next' st1 of
                    (Inl e, st2) \<Rightarrow> (Inl e, st2)
                  | (Inr (), st2) \<Rightarrow>
                      (case tryPersistTaskUpsert env next' None st2 of
                         (False, st3) \<Rightarrow> (Inr None, st3)
                       | (True, st3) \<Rightarrow> carryToFlow env current next' (reindexTask taskId patch current next' st3))))"

definition upsertTaskDeliveryState :: "task_env \<Rightarrow> task_delivery \<Rightarrow> task_registry \<Rightarrow> task_delivery \<times> task_registry" where
  "upsertTaskDeliveryState env state st =
     (let current = map_of (tg_deliveryStates st) (td_taskId state);
          empty = \<lparr>td_taskId = td_taskId state, td_requesterOrigin = None, td_lastNotifiedEventAt = None\<rparr>;
          next' = state\<lparr>td_requesterOrigin := Option.bind (td_requesterOrigin state) (te_normOrigin env)\<rparr>
      in if td_requesterOrigin next' = None \<and> td_lastNotifiedEventAt next' = None \<and> current = None then (empty, st)
         else case tryPersistTaskDeliveryStateUpsert env next' st of
                (False, st1) \<Rightarrow> (nullish current empty, st1)
              | (True, st1) \<Rightarrow>
                  (next', st1\<lparr>tg_deliveryStates := AList.update (td_taskId state) next' (tg_deliveryStates st1)\<rparr>))"

definition getTaskDeliveryState :: "task_registry \<Rightarrow> string \<Rightarrow> task_delivery option" where
  "getTaskDeliveryState st taskId = map_of (tg_deliveryStates st) taskId"

subsection \<open>Deleting a task\<close>

definition deleteTaskRecordById :: "task_env \<Rightarrow> string \<Rightarrow> bool task_call" where
  "deleteTaskRecordById env taskId = whenTasksReady env (\<lambda>st.
     case map_of (tg_tasks st) taskId of
       None \<Rightarrow> (Inr False, st)
     | Some current \<Rightarrow>
         (case ensureLinkedTaskFlowRegistryReady env current st of
            (Inl e, st1) \<Rightarrow> (Inl e, st1)
          | (Inr (), st1) \<Rightarrow>
              (case tryPersistTaskDelete env taskId st1 of
                 (False, st2) \<Rightarrow> (Inr False, st2)
               | (True, st2) \<Rightarrow>
                   let tasks = AList.delete taskId (tg_tasks st2)
                   in (Inr True, emitTaskRegistryObserverEvent (TaskDeleted (tr_taskId current) current)
                        (st2\<lparr>tg_byOwnerKey := deleteOwnerKeyIndex taskId current (tg_byOwnerKey st2),
                             tg_byParentFlowId := deleteParentFlowIdIndex taskId current (tg_byParentFlowId st2),
                             tg_byRelatedSessionKey := deleteRelatedSessionKeyIndex taskId current (tg_byRelatedSessionKey st2),
                             tg_tasks := tasks, tg_deliveryStates := AList.delete taskId (tg_deliveryStates st2),
                             tg_byRunId := rebuildRunIdIndex tasks\<rparr>)))))"

end
