(* ===== verification/Task_Flow_Safety.thy ===== *)
theory Task_Flow_Safety
  imports Task_Flows
begin

text \<open>
  Correctness of the task-flow registry over all histories of calls, failing reads and writes, reloads and process
  restarts: memory mirrors the database, updates are never lost, and the observer can replay the registry.
\<close>

subsection \<open>What a table stores\<close>

definition eraseOrigin :: "task_flow \<Rightarrow> task_flow" where
  "eraseOrigin flow = flow\<lparr>tf_requesterOrigin := None\<rparr>"

text \<open>The records that survive a write and a restore.\<close>

definition cleanOption :: "string option \<Rightarrow> bool" where
  "cleanOption s = (case s of None \<Rightarrow> True | Some t \<Rightarrow> clean_string t)"

definition wellFormedFlow :: "task_flow \<Rightarrow> bool" where
  "wellFormedFlow flow \<longleftrightarrow> clean_string (tf_ownerKey flow) \<and> 0 \<le> tf_revision flow
     \<and> tf_controllerId flow \<noteq> Some []
     \<and> (tf_syncMode flow = Managed \<longrightarrow> tf_controllerId flow \<noteq> None \<and> cleanOption (tf_controllerId flow))
     \<and> cleanOption (tf_currentStep flow) \<and> cleanOption (tf_blockedTaskId flow) \<and> cleanOption (tf_blockedSummary flow)"

definition restoreRow :: "(js_value \<Rightarrow> js_value option) \<Rightarrow> flow_row \<Rightarrow> flow_error + task_flow" where
  "restoreRow readOrigin row =
     (case rowToFlowRecord readOrigin row of Inl e \<Rightarrow> Inl e | Inr record \<Rightarrow> normalizeRestoredFlowRecord record)"

definition rowMap :: "flow_row list \<Rightarrow> (string \<times> flow_row) list" where
  "rowMap rows = map (\<lambda>row. (fl_flow_id row, row)) rows"

definition storedFlow :: "(js_value \<Rightarrow> js_value option) \<Rightarrow> flow_row list \<Rightarrow> string \<Rightarrow> task_flow option" where
  "storedFlow readOrigin rows k =
     (case map_of (rowMap rows) k of
        None \<Rightarrow> None
      | Some row \<Rightarrow> (case restoreRow readOrigin row of Inl _ \<Rightarrow> None | Inr flow \<Rightarrow> Some flow))"

definition storedView :: "(js_value \<Rightarrow> js_value option) \<Rightarrow> flow_row list \<Rightarrow> string \<Rightarrow> task_flow option" where
  "storedView readOrigin rows k = map_option eraseOrigin (storedFlow readOrigin rows k)"

definition readableRows :: "(js_value \<Rightarrow> js_value option) \<Rightarrow> flow_row list \<Rightarrow> bool" where
  "readableRows readOrigin rows \<longleftrightarrow> distinct (map fl_flow_id rows)
     \<and> (\<forall>row\<in>set rows. case restoreRow readOrigin row of Inl _ \<Rightarrow> False | Inr _ \<Rightarrow> True)"

lemma optionalString_simps [simp]:
  "optionalString None = None" "clean_string t \<Longrightarrow> optionalString (Some t) = Some t"
  "cleanOption s \<Longrightarrow> optionalString s = s"
  by (auto simp: optionalString_def cleanOption_def normalizeOptionalString_def normalizeNullableString_def
      clean_string_def Let_def split: option.splits)

lemma optionalString_clean [simp]: "cleanOption (optionalString s)"
  by (auto simp: optionalString_def cleanOption_def normalizeOptionalString_clean split: option.splits)

lemma optionalString_Some: "optionalString s = Some t \<Longrightarrow> clean_string t"
  using optionalString_clean [of s] by (simp add: cleanOption_def)

lemma cleanOption_simps [simp]: "cleanOption None" "cleanOption (Some t) \<longleftrightarrow> clean_string t"
  by (simp_all add: cleanOption_def)

lemma clean_not_Nil [simp]: "\<not> clean_string []"
  by (simp add: clean_string_def)

lemma optionalString_not_Nil [simp]: "optionalString s \<noteq> Some []"
  using optionalString_Some by fastforce

lemma nonEmptyColumn_clean [simp]: "cleanOption s \<Longrightarrow> nonEmptyColumn s = s" "nonEmptyColumn s \<noteq> Some []"
  by (auto simp: nonEmptyColumn_def cleanOption_def clean_string_def split: option.splits list.splits)

lemma parse_text [simp]:
  "parseTaskFlowStatus (flowStatusText s) = Inr s" "parseTaskNotifyPolicy (notifyPolicyText p) = Inr p"
  "parseOptionalTaskFlowSyncMode (Some (syncModeText m)) = Inr (Some m)"
  by (cases s; cases p; cases m;
      simp add: parseTaskFlowStatus_def parseTaskNotifyPolicy_def parseOptionalTaskFlowSyncMode_def
        parsePersistedFlowValue_def TASK_FLOW_STATUSES_def TASK_NOTIFY_POLICIES_def TASK_FLOW_SYNC_MODES_def)+

lemma number_column [simp]: "normalizeSqliteNumber (numberColumn n) = n" "normalizeSqliteNumber (SqlNumber i) = Some i"
  by (cases n; simp add: normalizeSqliteNumber_def numberColumn_def)+

text \<open>Writing a well-formed record and restoring its row gives the record back, up to the origin, which is read again.\<close>

lemma restore_bound_row:
  assumes "wellFormedFlow flow"
  shows "restoreRow readOrigin ((bindFlowRecord flow)\<lparr>fl_shape := shape\<rparr>) =
    Inr (flow\<lparr>tf_requesterOrigin := Option.bind (tf_requesterOrigin flow) readOrigin\<rparr>)"
proof -
  have c: "nonEmptyColumn (tf_controllerId flow) = tf_controllerId flow"
    using assms by (auto simp: wellFormedFlow_def nonEmptyColumn_def split: option.splits list.splits)
  have "rowToFlowRecord readOrigin ((bindFlowRecord flow)\<lparr>fl_shape := shape\<rparr>) =
      Inr (flow\<lparr>tf_requesterOrigin := Option.bind (tf_requesterOrigin flow) readOrigin\<rparr>)"
    using assms c by (simp add: rowToFlowRecord_def rowToSyncMode_def bindFlowRecord_def wellFormedFlow_def)
  moreover have "normalizeRestoredFlowRecord (flow\<lparr>tf_requesterOrigin := q\<rparr>) = Inr (flow\<lparr>tf_requesterOrigin := q\<rparr>)" for q
    using assms
    by (cases "tf_controllerId flow")
      (auto simp: normalizeRestoredFlowRecord_def assertFlowOwnerKey_def wellFormedFlow_def Let_def)
  ultimately show ?thesis by (simp add: restoreRow_def)
qed

lemma legacy_controller_clean: "clean_string ''core/legacy-restored''"
  by code_simp

lemma restored_controller:
  fixes rec
  defines "c \<equiv> nullish_or (if tf_syncMode rec = Managed
      then Some (nullish (optionalString (tf_controllerId rec)) ''core/legacy-restored'') else None) (tf_controllerId rec)"
  assumes "tf_controllerId rec \<noteq> Some []"
  shows "c \<noteq> Some [] \<and> (tf_syncMode rec = Managed \<longrightarrow> c \<noteq> None \<and> cleanOption c)"
proof (cases "tf_syncMode rec = Managed")
  case True
  have "clean_string (nullish (optionalString (tf_controllerId rec)) ''core/legacy-restored'')"
    using optionalString_Some [of "tf_controllerId rec"] legacy_controller_clean
    by (cases "optionalString (tf_controllerId rec)") simp_all
  with True show ?thesis by (auto simp: c_def)
next
  case False
  with assms(2) show ?thesis by (simp add: c_def)
qed

lemma restored_wellFormed:
  assumes "restoreRow readOrigin row = Inr flow"
  shows "wellFormedFlow flow \<and> tf_flowId flow = fl_flow_id row"
proof -
  obtain rec where r: "rowToFlowRecord readOrigin row = Inr rec" "normalizeRestoredFlowRecord rec = Inr flow"
    using assms by (auto simp: restoreRow_def split: sum.splits)
  have d: "tf_flowId rec = fl_flow_id row" "tf_controllerId rec \<noteq> Some []"
    using r(1) by (auto simp: rowToFlowRecord_def split: sum.splits)
  obtain key where key: "optionalString (Some (tf_ownerKey rec)) = Some key"
    using r(2) by (auto simp: normalizeRestoredFlowRecord_def assertFlowOwnerKey_def Let_def split: sum.splits option.splits)
  show ?thesis
    using r(2) key d restored_controller [of rec] optionalString_Some [OF key]
    unfolding wellFormedFlow_def normalizeRestoredFlowRecord_def assertFlowOwnerKey_def Let_def by auto
qed

subsection \<open>The contract of a store that a registry writes through\<close>

text \<open>What the registry relies on: a written record can be looked up in its stored view, deleting removes it, and
  other records are untouched.\<close>

locale write_through =
  fixes ident :: "'f \<Rightarrow> string" and view :: "'f \<Rightarrow> 'v" and storable :: "'f \<Rightarrow> bool"
    and lookup :: "'t \<Rightarrow> string \<Rightarrow> 'v option" and valid :: "'t \<Rightarrow> bool"
    and upsert :: "'f \<Rightarrow> 't \<Rightarrow> 't" and remove :: "string \<Rightarrow> 't \<Rightarrow> 't"
  assumes valid_upsert: "valid t \<Longrightarrow> storable f \<Longrightarrow> valid (upsert f t)"
    and valid_remove: "valid t \<Longrightarrow> valid (remove k t)"
    and lookup_upsert: "valid t \<Longrightarrow> storable f \<Longrightarrow>
      lookup (upsert f t) k = (if k = ident f then Some (view f) else lookup t k)"
    and lookup_remove: "valid t \<Longrightarrow> lookup (remove i t) k = (if k = i then None else lookup t k)"
begin

lemma mirror_upsert:
  assumes "valid t" "storable f" "\<And>k. map_option view (map_of m k) = lookup t k"
  shows "map_option view (map_of (AList.update (ident f) f m) k) = lookup (upsert f t) k"
  using assms by (simp add: lookup_upsert update_conv)

lemma mirror_remove:
  assumes "valid t" "\<And>k. map_option view (map_of m k) = lookup t k"
  shows "map_option view (map_of (AList.delete i m) k) = lookup (remove i t) k"
  using assms by (simp add: lookup_remove delete_conv)

lemma lookup_domain:
  assumes "\<And>k. map_option view (map_of m k) = lookup t k"
  shows "map_of m k = None \<longleftrightarrow> lookup t k = None"
  by (metis assms map_option_is_None)

end

lemma rowMap_upsert:
  "map_of (rowMap (upsertFlowRow row rows)) k =
     (if k = fl_flow_id row
      then Some (case map_of (rowMap rows) k of None \<Rightarrow> row | Some r \<Rightarrow> row\<lparr>fl_shape := fl_shape r\<rparr>)
      else map_of (rowMap rows) k)"
  by (induction rows) (auto simp: rowMap_def)

lemma ids_upsert:
  "set (map fl_flow_id (upsertFlowRow row rows)) = insert (fl_flow_id row) (set (map fl_flow_id rows))"
  "distinct (map fl_flow_id rows) \<Longrightarrow> distinct (map fl_flow_id (upsertFlowRow row rows))"
proof -
  show s: "set (map fl_flow_id (upsertFlowRow row rows)) = insert (fl_flow_id row) (set (map fl_flow_id rows))" for rows
    by (induction rows) auto
  show "distinct (map fl_flow_id rows) \<Longrightarrow> distinct (map fl_flow_id (upsertFlowRow row rows))"
  proof (induction rows)
    case (Cons r rows)
    have "fl_flow_id r \<noteq> fl_flow_id row \<Longrightarrow> fl_flow_id r \<notin> set (map fl_flow_id (upsertFlowRow row rows))"
      using Cons.prems unfolding s by auto
    with Cons show ?case by auto
  qed simp
qed

lemma rowMap_remove:
  "map_of (rowMap (deleteTaskFlowRegistryRecordFromSqlite i rows)) k = (if k = i then None else map_of (rowMap rows) k)"
  by (induction rows) (auto simp: rowMap_def deleteTaskFlowRegistryRecordFromSqlite_def)

lemma rowMap_member: "distinct (map fl_flow_id rows) \<Longrightarrow> map_of (rowMap rows) k = Some row \<longleftrightarrow> row \<in> set rows \<and> fl_flow_id row = k"
  by (subst map_of_eq_Some_iff) (auto simp: rowMap_def comp_def)

lemma is_Inr: "(case x of Inl _ \<Rightarrow> False | Inr _ \<Rightarrow> True) \<longleftrightarrow> (\<exists>y. x = Inr y)"
  by (cases x) auto

lemma readable_iff:
  "readableRows readOrigin rows \<longleftrightarrow> distinct (map fl_flow_id rows) \<and> (\<forall>row\<in>set rows. \<exists>flow. restoreRow readOrigin row = Inr flow)"
  by (simp add: readableRows_def is_Inr)

lemma set_upsert_row: "r \<in> set (upsertFlowRow row rows) \<Longrightarrow> r \<in> set rows \<or> r = row \<or> (\<exists>shape. r = row\<lparr>fl_shape := shape\<rparr>)"
  by (induction rows) (auto split: if_splits)

lemma bound_shape: "(bindFlowRecord flow)\<lparr>fl_shape := None\<rparr> = bindFlowRecord flow"
  and bound_id [simp]: "fl_flow_id (bindFlowRecord flow) = tf_flowId flow"
  by (simp_all add: bindFlowRecord_def)

interpretation flow_table: write_through tf_flowId eraseOrigin wellFormedFlow "storedView readOrigin" "readableRows readOrigin"
  upsertTaskFlowRegistryRecordToSqlite deleteTaskFlowRegistryRecordFromSqlite for readOrigin
proof
  fix rows flow k i
  assume v: "readableRows readOrigin rows"
  show "readableRows readOrigin (deleteTaskFlowRegistryRecordFromSqlite i rows)"
    using v by (auto simp: readable_iff deleteTaskFlowRegistryRecordFromSqlite_def distinct_map_filter)
  show "storedView readOrigin (deleteTaskFlowRegistryRecordFromSqlite i rows) k = (if k = i then None else storedView readOrigin rows k)"
    by (simp add: storedView_def storedFlow_def rowMap_remove)
  assume w: "wellFormedFlow flow"
  have r: "restoreRow readOrigin ((bindFlowRecord flow)\<lparr>fl_shape := shape\<rparr>) =
      Inr (flow\<lparr>tf_requesterOrigin := Option.bind (tf_requesterOrigin flow) readOrigin\<rparr>)" for shape
    by (rule restore_bound_row [OF w])
  note r' = r [of None, unfolded bound_shape]
  show "readableRows readOrigin (upsertTaskFlowRegistryRecordToSqlite flow rows)"
    using v r r' by (auto simp: readable_iff upsertTaskFlowRegistryRecordToSqlite_def ids_upsert dest!: set_upsert_row)
  show "storedView readOrigin (upsertTaskFlowRegistryRecordToSqlite flow rows) k =
      (if k = tf_flowId flow then Some (eraseOrigin flow) else storedView readOrigin rows k)"
    using r r' by (auto simp: storedView_def storedFlow_def upsertTaskFlowRegistryRecordToSqlite_def rowMap_upsert
        eraseOrigin_def split: option.splits)
qed

subsection \<open>Restoring a table\<close>

lemma restored_rows:
  assumes "readRows readOrigin rows = Inr records" "normalizeRestored records = Inr flows"
  shows "flows = map (\<lambda>row. (fl_flow_id row, projr (restoreRow readOrigin row))) rows
    \<and> (\<forall>row\<in>set rows. \<exists>flow. restoreRow readOrigin row = Inr flow)"
  using assms
proof (induction rows arbitrary: records flows)
  case (Cons row rows)
  then obtain rec records' where r: "rowToFlowRecord readOrigin row = Inr rec" "readRows readOrigin rows = Inr records'"
    "records = (fl_flow_id row, rec) # records'" by (auto split: sum.splits)
  with Cons.prems obtain flow flows' where f: "normalizeRestoredFlowRecord rec = Inr flow" "normalizeRestored records' = Inr flows'"
    "flows = (fl_flow_id row, flow) # flows'" by (auto split: sum.splits)
  have "restoreRow readOrigin row = Inr flow" using r(1) f(1) by (simp add: restoreRow_def)
  with Cons.IH [OF r(2) f(2)] f(3) show ?case by simp
qed auto

lemma restorable_rows:
  "\<forall>row\<in>set rows. \<exists>flow. restoreRow readOrigin row = Inr flow \<Longrightarrow>
   \<exists>records flows. readRows readOrigin rows = Inr records \<and> normalizeRestored records = Inr flows"
  by (induction rows) (fastforce simp: restoreRow_def split: sum.splits)+

lemma map_of_projected: "map_of (map (\<lambda>row. (fl_flow_id row, f row)) rows) k = map_option f (map_of (rowMap rows) k)"
  by (induction rows) (auto simp: rowMap_def)

lemma selected_rows:
  "set (selectFlowRows rows) = set rows" "distinct (map fl_flow_id rows) \<Longrightarrow> distinct (map fl_flow_id (selectFlowRows rows))"
  by (simp_all add: selectFlowRows_def distinct_map distinct_js_toSorted)

lemma option_eqI: "(\<And>y. x = Some y \<longleftrightarrow> z = Some y) \<Longrightarrow> x = z"
  by (cases x; cases z) auto

lemma restoreSnapshot_sound:
  assumes "restoreSnapshot readOrigin loadError rows = Inr flows" "distinct (map fl_flow_id rows)"
  shows "readableRows readOrigin rows" "map_of flows k = storedFlow readOrigin rows k" "distinct (map fst flows)"
    "\<forall>(k, flow)\<in>set flows. wellFormedFlow flow \<and> tf_flowId flow = k"
proof -
  obtain records where r: "readRows readOrigin (selectFlowRows rows) = Inr records" "normalizeRestored records = Inr flows"
    using assms(1) by (auto simp: restoreSnapshot_def loadTaskFlowRegistryStateFromSqlite_def split: option.splits sum.splits)
  note f = restored_rows [OF r]
  have d: "distinct (map fl_flow_id (selectFlowRows rows))" by (rule selected_rows(2) [OF assms(2)])
  have all: "\<forall>row\<in>set rows. \<exists>flow. restoreRow readOrigin row = Inr flow" using f by (simp add: selected_rows(1))
  then show "readableRows readOrigin rows" using assms(2) by (simp add: readable_iff)
  show "distinct (map fst flows)" using f d by (simp add: comp_def)
  have m: "map_of (rowMap (selectFlowRows rows)) k = map_of (rowMap rows) k"
    by (rule option_eqI) (simp add: rowMap_member [OF d] rowMap_member [OF assms(2)] selected_rows(1))
  show "map_of flows k = storedFlow readOrigin rows k"
  proof (cases "map_of (rowMap rows) k")
    case None
    with f m show ?thesis by (simp add: map_of_projected storedFlow_def)
  next
    case (Some row)
    then obtain flow where "restoreRow readOrigin row = Inr flow" using all by (auto simp: rowMap_member [OF assms(2)])
    with f m Some show ?thesis by (simp add: map_of_projected storedFlow_def)
  qed
  show "\<forall>(k, flow)\<in>set flows. wellFormedFlow flow \<and> tf_flowId flow = k"
    using f restored_wellFormed by fastforce
qed

lemma restoreSnapshot_complete:
  assumes "readableRows readOrigin rows"
  shows "\<exists>flows. restoreSnapshot readOrigin None rows = Inr flows"
  using restorable_rows [of "selectFlowRows rows" readOrigin] assms
  by (auto simp: restoreSnapshot_def loadTaskFlowRegistryStateFromSqlite_def readable_iff selected_rows(1))

subsection \<open>Histories\<close>

text \<open>The process starts with an empty memory and any table with one row per id. Besides the calls of the module, the
  process may restart at any time. A new flow has an id that no row has.\<close>

definition initial_flows :: "flow_registry \<Rightarrow> bool" where
  "initial_flows st \<longleftrightarrow> fr_flows st = [] \<and> fr_restore st = Uninitialized \<and> fr_events st = []
     \<and> distinct (map fl_flow_id (fr_rows st))"

definition processRestart :: "flow_registry \<Rightarrow> flow_registry" where
  "processRestart st = st\<lparr>fr_flows := [], fr_restore := Uninitialized, fr_events := []\<rparr>"

inductive flow_step :: "(js_value \<Rightarrow> js_value option) \<Rightarrow> flow_registry \<Rightarrow> flow_registry \<Rightarrow> bool" for ro where
  create: "flowId \<notin> fl_flow_id ` set (fr_rows st) \<Longrightarrow> flow_step ro st (snd (createFlowRecord ro le ok now flowId params st))"
| update: "flow_step ro st (snd (updateFlowRecordByIdExpectedRevision ro le ok now flowId expected patch st))"
| mirror: "flow_step ro st (snd (syncFlowFromTaskResult ro le ok now task st))"
| delete: "flow_step ro st (snd (deleteTaskFlowRecordById ro le ok flowId st))"
| reload: "flow_step ro st (snd (reloadTaskFlowRegistryFromStore ro le st))"
| ensure: "flow_step ro st (snd (ensureTaskFlowRegistryReady ro le st))"
| restart: "flow_step ro st (processRestart st)"

text \<open>What the observer reconstructs from its events.\<close>

definition replayEvent :: "(string \<times> task_flow) list \<Rightarrow> flow_event \<Rightarrow> (string \<times> task_flow) list" where
  "replayEvent flows event =
     (case event of
        FlowsRestored records \<Rightarrow> map (\<lambda>flow. (tf_flowId flow, flow)) records
      | FlowUpserted flow _ \<Rightarrow> AList.update (tf_flowId flow) flow flows
      | FlowDeleted flowId _ \<Rightarrow> AList.delete flowId flows)"

definition mirrored :: "(js_value \<Rightarrow> js_value option) \<Rightarrow> flow_registry \<Rightarrow> bool" where
  "mirrored ro st \<longleftrightarrow> readableRows ro (fr_rows st) \<and> distinct (map fst (fr_flows st))
     \<and> (\<forall>k. map_option eraseOrigin (map_of (fr_flows st) k) = storedView ro (fr_rows st) k)
     \<and> (\<forall>(k, flow)\<in>set (fr_flows st). wellFormedFlow flow \<and> tf_flowId flow = k)
     \<and> foldl replayEvent [] (fr_events st) = fr_flows st"

definition flow_inv :: "(js_value \<Rightarrow> js_value option) \<Rightarrow> flow_registry \<Rightarrow> bool" where
  "flow_inv ro st \<longleftrightarrow> distinct (map fl_flow_id (fr_rows st)) \<and>
     (case fr_restore st of RestoreReady \<Rightarrow> mirrored ro st | Restoring \<Rightarrow> False | _ \<Rightarrow> fr_flows st = [])"

lemma mirrored_flow:
  assumes "mirrored ro st" "map_of (fr_flows st) k = Some flow"
  shows "wellFormedFlow flow" "tf_flowId flow = k"
  using assms map_of_SomeD [OF assms(2)] by (auto simp: mirrored_def)

lemma mirrored_stored:
  assumes "mirrored ro st" "storedView ro (fr_rows st) k = Some f"
  obtains flow where "map_of (fr_flows st) k = Some flow" "f = eraseOrigin flow"
proof -
  have "map_option eraseOrigin (map_of (fr_flows st) k) = Some f" using assms by (simp add: mirrored_def)
  then show ?thesis using that by (cases "map_of (fr_flows st) k") simp_all
qed

lemma mirrored_inv: "flow_inv ro st \<Longrightarrow> fr_restore st = RestoreReady \<Longrightarrow> mirrored ro st"
  and inv_mirrored: "mirrored ro st \<Longrightarrow> fr_restore st = RestoreReady \<Longrightarrow> flow_inv ro st"
  by (auto simp: flow_inv_def mirrored_def readableRows_def)

lemma ensure_failed:
  assumes "flow_inv ro st" "ensureTaskFlowRegistryReady ro le st = (Some e, st')"
  shows "fr_restore st' = RestoreFailed e"
  using assms
  by (cases "fr_restore st")
    (auto simp: ensureTaskFlowRegistryReady_def restoreTaskFlowRegistryOnce_def flow_inv_def split: sum.splits)

lemma ensure_inv:
  assumes "flow_inv ro st" "ensureTaskFlowRegistryReady ro le st = (r, st')"
  shows "flow_inv ro st' \<and> fr_rows st' = fr_rows st \<and> (r = None \<longleftrightarrow> fr_restore st' = RestoreReady)
    \<and> (fr_restore st = RestoreReady \<longrightarrow> st' = st) \<and> (\<forall>e. fr_restore st = RestoreFailed e \<longrightarrow> st' = st \<and> r = Some e)"
proof (cases "fr_restore st")
  case Uninitialized
  show ?thesis
  proof (cases "restoreSnapshot ro le (fr_rows st)")
    case (Inr flows)
    have d: "distinct (map fl_flow_id (fr_rows st))" using assms(1) by (simp add: flow_inv_def)
    note s = restoreSnapshot_sound [OF Inr d]
    have "map ((\<lambda>flow. (tf_flowId flow, flow)) \<circ> snd) flows = flows" using s(4) by (intro map_idI) auto
    with s d Inr Uninitialized assms(2) show ?thesis
      by (auto simp: ensureTaskFlowRegistryReady_def restoreTaskFlowRegistryOnce_def emitFlowRegistryObserverEvent_def
          flow_inv_def mirrored_def storedView_def snapshotFlowRecords_def replayEvent_def comp_def)
  next
    case (Inl e)
    with Uninitialized assms show ?thesis
      by (auto simp: ensureTaskFlowRegistryReady_def restoreTaskFlowRegistryOnce_def flow_inv_def)
  qed
qed (use assms in \<open>auto simp: ensureTaskFlowRegistryReady_def restoreTaskFlowRegistryOnce_def flow_inv_def\<close>)

lemma set_update_subset: "x \<in> set (AList.update k v al) \<Longrightarrow> x = (k, v) \<or> x \<in> set al"
  by (induction al) (auto split: if_splits)

lemma write_inv:
  assumes "mirrored ro st" "fr_restore st = RestoreReady" "wellFormedFlow flow" "writeFlowRecord ok flow previous st = (r, st')"
  shows "mirrored ro st' \<and> fr_restore st' = RestoreReady \<and> (r = None \<longrightarrow> st' = st)
    \<and> (r \<noteq> None \<longrightarrow> r = Some flow \<and> fr_flows st' = AList.update (tf_flowId flow) flow (fr_flows st)
         \<and> fr_rows st' = upsertTaskFlowRegistryRecordToSqlite flow (fr_rows st))"
proof (cases ok)
  case True
  then have e: "r = Some flow" "st' = st\<lparr>fr_rows := upsertTaskFlowRegistryRecordToSqlite flow (fr_rows st),
      fr_flows := AList.update (tf_flowId flow) flow (fr_flows st), fr_events := fr_events st @ [FlowUpserted flow previous]\<rparr>"
    using assms(4) by (simp_all add: writeFlowRecord_def tryPersistFlowUpsert_def emitFlowRegistryObserverEvent_def)
  have "readableRows ro (fr_rows st)" "\<And>k. map_option eraseOrigin (map_of (fr_flows st) k) = storedView ro (fr_rows st) k"
    using assms(1) by (simp_all add: mirrored_def)
  note t = flow_table.mirror_upsert [OF this(1) assms(3) this(2)] flow_table.valid_upsert [OF this(1) assms(3)]
  have "\<forall>(k, f)\<in>set (AList.update (tf_flowId flow) flow (fr_flows st)). wellFormedFlow f \<and> tf_flowId f = k"
    using assms(1,3) by (auto simp: mirrored_def dest!: set_update_subset)
  with t assms(1,2) show ?thesis by (auto simp: e mirrored_def replayEvent_def distinct_update)
next
  case False
  then show ?thesis using assms by (simp add: writeFlowRecord_def tryPersistFlowUpsert_def)
qed

lemma set_delete_subset: "x \<in> set (AList.delete k al) \<Longrightarrow> x \<in> set al"
  by (induction al) (auto split: if_splits)

lemma delete_inv:
  assumes "mirrored ro st" "fr_restore st = RestoreReady" "st' = emitFlowRegistryObserverEvent (FlowDeleted k flow)
    (st\<lparr>fr_rows := deleteTaskFlowRegistryRecordFromSqlite k (fr_rows st), fr_flows := AList.delete k (fr_flows st)\<rparr>)"
  shows "mirrored ro st'"
proof -
  have "readableRows ro (fr_rows st)" "\<And>k. map_option eraseOrigin (map_of (fr_flows st) k) = storedView ro (fr_rows st) k"
    using assms(1) by (simp_all add: mirrored_def)
  note t = flow_table.mirror_remove [OF this] flow_table.valid_remove [OF this(1)]
  have "\<forall>(k, f)\<in>set (AList.delete k (fr_flows st)). wellFormedFlow f \<and> tf_flowId f = k"
    using assms(1) by (auto simp: mirrored_def dest!: set_delete_subset)
  with t assms show ?thesis
    by (auto simp: mirrored_def emitFlowRegistryObserverEvent_def replayEvent_def distinct_delete)
qed

lemma built_wellFormed:
  assumes "buildFlowRecord now flowId params = Inr flow"
  shows "wellFormedFlow flow \<and> tf_flowId flow = flowId"
proof -
  obtain c key where c: "(if nullish (cp_syncMode params) Managed = Managed
      then map_sum id Some (assertControllerId (cp_controllerId params)) else Inr None) = Inr c"
    "optionalString (Some (cp_ownerKey params)) = Some key"
    using assms by (auto simp: buildFlowRecord_def Let_def assertFlowOwnerKey_def split: sum.splits option.splits)
  have "c = (if nullish (cp_syncMode params) Managed = Managed then optionalString (cp_controllerId params) else None)
      \<and> (nullish (cp_syncMode params) Managed = Managed \<longrightarrow> c \<noteq> None)"
    using c(1) by (cases "optionalString (cp_controllerId params)"; cases c; simp add: assertControllerId_def split: if_splits)
  then have "c \<noteq> Some [] \<and> (nullish (cp_syncMode params) Managed = Managed \<longrightarrow> c \<noteq> None \<and> cleanOption c)" by auto
  then show ?thesis
    using assms c optionalString_Some [OF c(2)] unfolding buildFlowRecord_def Let_def assertFlowOwnerKey_def wellFormedFlow_def
    by auto
qed

lemma patched_wellFormed:
  assumes "applyFlowPatch now current patch = Inr flow" "wellFormedFlow current"
  shows "wellFormedFlow flow \<and> tf_flowId flow = tf_flowId current \<and> tf_revision flow = tf_revision current + 1"
proof -
  define c where "c = (case fp_controllerId patch of None \<Rightarrow> tf_controllerId current | Some c \<Rightarrow> optionalString c)"
  have chk: "tf_syncMode current = Managed \<Longrightarrow> optionalString c \<noteq> None"
    using assms(1) by (auto simp: applyFlowPatch_def c_def Let_def assertControllerId_def split: sum.splits option.splits)
  have "c \<noteq> Some [] \<and> (tf_syncMode current = Managed \<longrightarrow> c \<noteq> None \<and> cleanOption c)"
    using chk assms(2) optionalString_Some by (auto simp: c_def wellFormedFlow_def split: option.splits)
  moreover obtain next' where "flow = current\<lparr>tf_status := nullish (fp_status patch) (tf_status current),
               tf_notifyPolicy := nullish (fp_notifyPolicy patch) (tf_notifyPolicy current), tf_goal := next',
               tf_controllerId := c,
               tf_currentStep := (case fp_currentStep patch of None \<Rightarrow> tf_currentStep current | Some s \<Rightarrow> optionalString s),
               tf_blockedTaskId := (case fp_blockedTaskId patch of None \<Rightarrow> tf_blockedTaskId current | Some s \<Rightarrow> optionalString s),
               tf_blockedSummary := (case fp_blockedSummary patch of None \<Rightarrow> tf_blockedSummary current | Some s \<Rightarrow> optionalString s),
               tf_stateJson := nullish_or (fp_stateJson patch) (tf_stateJson current),
               tf_waitJson := nullish_or (fp_waitJson patch) (tf_waitJson current),
               tf_cancelRequestedAt := nullish (fp_cancelRequestedAt patch) (tf_cancelRequestedAt current),
               tf_revision := tf_revision current + 1,
               tf_updatedAt := nullish (fp_updatedAt patch) now,
               tf_endedAt := nullish (fp_endedAt patch) (tf_endedAt current)\<rparr>"
    using assms(1) unfolding applyFlowPatch_def Let_def c_def [symmetric] by (auto split: sum.splits)
  ultimately show ?thesis using assms(2) by (auto simp: wellFormedFlow_def split: option.splits)
qed

text \<open>The effect every call has: the invariant, a readable table and the revisions of the flows that remain.\<close>

definition flow_advances :: "(js_value \<Rightarrow> js_value option) \<Rightarrow> flow_registry \<Rightarrow> flow_registry \<Rightarrow> bool" where
  "flow_advances ro st st' \<longleftrightarrow> flow_inv ro st'
     \<and> (readableRows ro (fr_rows st) \<longrightarrow> readableRows ro (fr_rows st'))
     \<and> (\<forall>k f f'. storedView ro (fr_rows st) k = Some f \<longrightarrow> storedView ro (fr_rows st') k = Some f' \<longrightarrow>
          tf_revision f \<le> tf_revision f')"

lemma advances_same: "flow_inv ro st' \<Longrightarrow> fr_rows st' = fr_rows st \<Longrightarrow> flow_advances ro st st'"
  by (simp add: flow_advances_def)

lemma advances_write:
  assumes "mirrored ro st" "fr_restore st = RestoreReady" "wellFormedFlow flow"
    "\<And>old. map_of (fr_flows st) (tf_flowId flow) = Some old \<Longrightarrow> tf_revision old \<le> tf_revision flow"
    "writeFlowRecord ok flow previous st = (r, st')"
  shows "flow_advances ro st st'"
proof -
  note w = write_inv [OF assms(1-3,5)]
  have v: "readableRows ro (fr_rows st)" "\<And>k. map_option eraseOrigin (map_of (fr_flows st) k) = storedView ro (fr_rows st) k"
    using assms(1) by (simp_all add: mirrored_def)
  have "tf_revision f \<le> tf_revision f'"
    if views: "storedView ro (fr_rows st) k = Some f" "storedView ro (fr_rows st') k = Some f'" for k f f'
  proof (cases "r = None \<or> k \<noteq> tf_flowId flow")
    case True
    then show ?thesis using that w flow_table.lookup_upsert [OF v(1) assms(3), of k] by auto
  next
    case False
    then have "f' = eraseOrigin flow" using that w flow_table.lookup_upsert [OF v(1) assms(3), of k] by auto
    moreover obtain old where "map_of (fr_flows st) k = Some old" "f = eraseOrigin old"
      by (rule mirrored_stored [OF assms(1) views(1)])
    ultimately show ?thesis using assms(4) False by (simp add: eraseOrigin_def)
  qed
  moreover have "flow_inv ro st'" "readableRows ro (fr_rows st')"
    using w inv_mirrored [of ro st'] by (blast, simp add: mirrored_def)
  ultimately show ?thesis unfolding flow_advances_def by blast
qed

lemma delete_refused: "tryPersistFlowDelete ok k st = (False, st1) \<Longrightarrow> st1 = st"
  by (simp add: tryPersistFlowDelete_def split: if_splits)

lemma advances_delete:
  assumes "mirrored ro st" "fr_restore st = RestoreReady" "tryPersistFlowDelete ok k st = (True, st1)"
  shows "flow_advances ro st (emitFlowRegistryObserverEvent (FlowDeleted k flow) (st1\<lparr>fr_flows := AList.delete k (fr_flows st1)\<rparr>))"
    (is "flow_advances ro st ?st'")
proof -
  have st1: "st1 = st\<lparr>fr_rows := deleteTaskFlowRegistryRecordFromSqlite k (fr_rows st)\<rparr>"
    using assms(3) by (simp add: tryPersistFlowDelete_def split: if_splits)
  have m: "mirrored ro ?st'" by (rule delete_inv [OF assms(1,2)]) (simp add: st1)
  have v: "readableRows ro (fr_rows st)" using assms(1) by (simp add: mirrored_def)
  have "flow_inv ro ?st'" by (rule inv_mirrored [OF m]) (simp add: st1 assms(2) emitFlowRegistryObserverEvent_def)
  moreover have "readableRows ro (fr_rows ?st')" using m by (simp add: mirrored_def)
  moreover have "storedView ro (fr_rows ?st') i = (if i = k then None else storedView ro (fr_rows st) i)" for i
    using flow_table.lookup_remove [OF v, of k i] by (simp add: st1 emitFlowRegistryObserverEvent_def)
  ultimately show ?thesis unfolding flow_advances_def by auto
qed

lemma advances_when:
  assumes "flow_inv ro st"
    "\<And>st1. mirrored ro st1 \<Longrightarrow> fr_restore st1 = RestoreReady \<Longrightarrow> fr_rows st1 = fr_rows st \<Longrightarrow> flow_advances ro st1 (snd (f st1))"
  shows "flow_advances ro st (snd (whenReady ro le f st))"
proof -
  obtain r st1 where e: "ensureTaskFlowRegistryReady ro le st = (r, st1)" by fastforce
  note i = ensure_inv [OF assms(1) e]
  show ?thesis
  proof (cases r)
    case None
    then have "flow_advances ro st1 (snd (f st1))" using i assms(2) mirrored_inv by blast
    with None e i show ?thesis by (simp add: whenReady_def flow_advances_def)
  next
    case (Some err)
    with e i show ?thesis by (simp add: whenReady_def flow_advances_def)
  qed
qed

lemma advances_create:
  assumes "flow_inv ro st" "flowId \<notin> fl_flow_id ` set (fr_rows st)"
  shows "flow_advances ro st (snd (createFlowRecord ro le ok now flowId params st))"
  unfolding createFlowRecord_def
proof (rule advances_when [OF assms(1)])
  fix st1
  assume m: "mirrored ro st1" "fr_restore st1 = RestoreReady" "fr_rows st1 = fr_rows st"
  have "map_of (rowMap (fr_rows st)) flowId = None" using assms(2) by (auto simp: map_of_eq_None_iff rowMap_def)
  then have "map_of (fr_flows st1) flowId = None"
    using m(1,3) flow_table.lookup_domain [of "fr_flows st1" ro "fr_rows st1" flowId]
    by (simp add: mirrored_def storedView_def storedFlow_def)
  then show "flow_advances ro st1 (snd (case buildFlowRecord now flowId params of Inl e \<Rightarrow> (Inl e, st1)
      | Inr flow \<Rightarrow> let (r, st1) = writeFlowRecord ok flow None st1 in (Inr r, st1)))"
    using m built_wellFormed [of now flowId params]
    by (auto simp: advances_same inv_mirrored intro: advances_write split: sum.split prod.split)
qed

lemma advances_patch:
  assumes "mirrored ro st" "fr_restore st = RestoreReady" "map_of (fr_flows st) flowId = Some current"
    "applyFlowPatch now current patch = Inr flow" "writeFlowRecord ok flow previous st = (r, st')"
  shows "flow_advances ro st st'"
proof (rule advances_write [OF assms(1,2) _ _ assms(5)])
  note c = mirrored_flow [OF assms(1,3)]
  note p = patched_wellFormed [OF assms(4) c(1)]
  show "wellFormedFlow flow" using p by blast
  show "tf_revision old \<le> tf_revision flow" if "map_of (fr_flows st) (tf_flowId flow) = Some old" for old
    using that p c(2) assms(3) by simp
qed

lemma advances_update:
  assumes "flow_inv ro st"
  shows "flow_advances ro st (snd (updateFlowRecordByIdExpectedRevision ro le ok now flowId expected patch st))"
  unfolding updateFlowRecordByIdExpectedRevision_def
  by (rule advances_when [OF assms])
    (auto simp: advances_same inv_mirrored intro: advances_patch split: sum.split prod.split option.split)

lemma advances_unchecked:
  assumes "flow_inv ro st"
  shows "flow_advances ro st (snd (updateFlowRecordByIdUnchecked ro le ok now flowId patch st))"
  unfolding updateFlowRecordByIdUnchecked_def
  by (rule advances_when [OF assms])
    (auto simp: advances_same inv_mirrored intro: advances_patch split: sum.split prod.split option.split)

lemma get_inv:
  assumes "flow_inv ro st" "getTaskFlowById ro le flowId st = (r, st')"
  shows "flow_inv ro st' \<and> fr_rows st' = fr_rows st"
proof -
  obtain e st1 where "ensureTaskFlowRegistryReady ro le st = (e, st1)" by fastforce
  then show ?thesis using assms(2) ensure_inv [OF assms(1)]
    by (cases e) (auto simp: getTaskFlowById_def whenReady_def)
qed

lemma advances_mirror:
  assumes "flow_inv ro st"
  shows "flow_advances ro st (snd (syncFlowFromTaskResult ro le ok now task st))"
proof -
  obtain r st1 where g: "getTaskFlowById ro le (js_trim (the (tr_parentFlowId task))) st = (r, st1)" by fastforce
  note i = get_inv [OF assms g]
  have same: "flow_advances ro st st1" "flow_advances ro st st" using i assms by (simp_all add: advances_same)
  have u: "flow_advances ro st st2" if "updateFlowRecordByIdUnchecked ro le ok now flowId patch st1 = (r', st2)" for flowId patch r' st2
    using advances_unchecked [of ro st1 le ok now flowId patch] i that by (simp add: flow_advances_def)
  show ?thesis
    using g same u by (auto simp: syncFlowFromTaskResult_def split: option.split sum.split prod.split)
qed

lemma flow_step_advances:
  assumes "flow_inv ro st" "flow_step ro st st'"
  shows "flow_advances ro st st'"
  using assms(2)
proof cases
  case (create flowId le ok now params)
  then show ?thesis using advances_create [OF assms(1)] by simp
next
  case (delete le ok flowId)
  show ?thesis unfolding delete(1) deleteTaskFlowRecordById_def
    by (rule advances_when [OF assms(1)])
      (auto simp: advances_same inv_mirrored dest: delete_refused intro: advances_delete split: prod.split option.split bool.split)
next
  case (reload le)
  let ?st = "st\<lparr>fr_flows := [], fr_restore := Uninitialized\<rparr>"
  obtain r st1 where e: "ensureTaskFlowRegistryReady ro le ?st = (r, st1)" by fastforce
  have "flow_inv ro ?st" using assms(1) by (simp add: flow_inv_def)
  from ensure_inv [OF this e] e reload show ?thesis by (simp add: reloadTaskFlowRegistryFromStore_def advances_same)
next
  case (ensure le)
  obtain r st1 where e: "ensureTaskFlowRegistryReady ro le st = (r, st1)" by fastforce
  from ensure_inv [OF assms(1) e] e ensure show ?thesis by (simp add: advances_same)
next
  case restart
  then show ?thesis using assms(1) by (simp add: advances_same processRestart_def flow_inv_def)
qed (simp_all add: advances_update advances_mirror assms(1))

interpretation flow_history: inductive_invariant initial_flows "flow_step ro" "flow_inv ro" for ro
proof
  show "flow_inv ro st" if "initial_flows st" for st using that by (simp add: initial_flows_def flow_inv_def)
  show "flow_inv ro st'" if "flow_inv ro st" "flow_step ro st st'" for st st'
    using flow_step_advances [OF that] by (simp add: flow_advances_def)
qed

subsection \<open>Properties\<close>

text \<open>In every reachable state the records in memory are of the type that callers rely on: each is filed under its
  own id, one record per id, its revision is not negative, its owner key is a trimmed non-empty string, a managed flow
  has a controller, and its optional texts are absent or trimmed and non-empty. A registry that is not ready holds no
  record.\<close>

theorem registry_is_well_formed:
  assumes "reachable initial_flows (flow_step ro) st"
  shows "distinct (map fst (fr_flows st)) \<and> (\<forall>(k, flow) \<in> set (fr_flows st). wellFormedFlow flow \<and> tf_flowId flow = k)
    \<and> (fr_restore st \<noteq> RestoreReady \<longrightarrow> fr_flows st = [])"
  using flow_history.reachable_inv [OF assms]
  by (cases "fr_restore st") (simp_all add: flow_inv_def mirrored_def)

text \<open>The database holds what memory holds: from every reachable ready state, reloading from a readable database
  succeeds, leaves the table as it is, and finds for every id the record that memory had, up to the requester origin,
  which is read again.\<close>

theorem reload_restores_registry:
  assumes "reachable initial_flows (flow_step ro) st" "fr_restore st = RestoreReady"
    "reloadTaskFlowRegistryFromStore ro None st = (r, st')"
  shows "r = None \<and> fr_restore st' = RestoreReady \<and> fr_rows st' = fr_rows st
    \<and> (\<forall>k. map_option eraseOrigin (map_of (fr_flows st') k) = map_option eraseOrigin (map_of (fr_flows st) k))"
proof -
  let ?st = "st\<lparr>fr_flows := [], fr_restore := Uninitialized\<rparr>"
  have m: "mirrored ro st" using flow_history.reachable_inv [OF assms(1)] assms(2) by (rule mirrored_inv)
  have i: "flow_inv ro ?st" using m by (simp add: flow_inv_def mirrored_def readableRows_def)
  have e: "ensureTaskFlowRegistryReady ro None ?st = (r, st')" using assms(3) by (simp add: reloadTaskFlowRegistryFromStore_def)
  obtain flows where "restoreSnapshot ro None (fr_rows st) = Inr flows"
    using restoreSnapshot_complete [of ro "fr_rows st"] m by (auto simp: mirrored_def)
  then have "r = None" using e by (simp add: ensureTaskFlowRegistryReady_def restoreTaskFlowRegistryOnce_def)
  with ensure_inv [OF i e] have s: "flow_inv ro st'" "fr_rows st' = fr_rows st" "fr_restore st' = RestoreReady" by auto
  then have "mirrored ro st'" by (blast intro: mirrored_inv)
  with m s \<open>r = None\<close> show ?thesis by (simp add: mirrored_def)
qed

definition keeps_flow :: "(js_value \<Rightarrow> js_value option) \<Rightarrow> string \<Rightarrow> flow_registry \<Rightarrow> flow_registry \<Rightarrow> bool" where
  "keeps_flow ro k st st' \<longleftrightarrow> flow_step ro st st' \<and> k \<in> fl_flow_id ` set (fr_rows st')"

lemma stored_present:
  assumes "readableRows ro rows" "k \<in> fl_flow_id ` set rows"
  obtains f where "storedView ro rows k = Some f"
proof -
  obtain row where row: "row \<in> set rows" "fl_flow_id row = k" using assms(2) by blast
  then have "map_of (rowMap rows) k = Some row" using assms(1) by (simp add: rowMap_member readable_iff)
  moreover obtain flow where "restoreRow ro row = Inr flow" using row assms(1) by (auto simp: readable_iff)
  ultimately show ?thesis using that by (simp add: storedView_def storedFlow_def)
qed

lemma kept_revision:
  assumes "(keeps_flow ro k)\<^sup>*\<^sup>* st st'" "flow_inv ro st" "readableRows ro (fr_rows st)"
    "storedView ro (fr_rows st) k = Some f" "n \<le> tf_revision f"
  shows "flow_inv ro st' \<and> readableRows ro (fr_rows st') \<and> (\<exists>f'. storedView ro (fr_rows st') k = Some f' \<and> n \<le> tf_revision f')"
  using assms(1)
proof (induction rule: rtranclp_induct)
  case (step y z)
  then obtain f' where f': "storedView ro (fr_rows y) k = Some f'" "n \<le> tf_revision f'" by blast
  have "flow_advances ro y z" using flow_step_advances step by (simp add: keeps_flow_def)
  then have a: "flow_inv ro z" "readableRows ro (fr_rows z)"
    "\<And>g. storedView ro (fr_rows z) k = Some g \<Longrightarrow> tf_revision f' \<le> tf_revision g"
    using step.IH f'(1) by (auto simp: flow_advances_def)
  obtain g where "storedView ro (fr_rows z) k = Some g" using stored_present [OF a(2), of k] step.hyps(2) by (auto simp: keeps_flow_def)
  with a f'(2) show ?case by force
qed (use assms in blast)

lemma applied_update:
  assumes "flow_inv ro st" "updateFlowRecordByIdExpectedRevision ro le ok now k expected patch st = (Inr (Applied flow), st1)"
  shows "flow_inv ro st1 \<and> readableRows ro (fr_rows st1) \<and> storedView ro (fr_rows st1) k = Some (eraseOrigin flow)
    \<and> tf_revision flow = expected + 1"
proof -
  obtain e st0 where e: "ensureTaskFlowRegistryReady ro le st = (e, st0)" by fastforce
  with assms(2) have "e = None" by (cases e) (simp_all add: updateFlowRecordByIdExpectedRevision_def whenReady_def)
  with ensure_inv [OF assms(1) e] have r: "fr_restore st0 = RestoreReady" "mirrored ro st0" by (auto intro: mirrored_inv)
  obtain current where c: "map_of (fr_flows st0) k = Some current" "tf_revision current = expected"
      "applyFlowPatch now current patch = Inr flow" "writeFlowRecord ok flow (Some current) st0 = (Some flow, st1)"
    using assms(2) e \<open>e = None\<close>
    by (auto simp: updateFlowRecordByIdExpectedRevision_def whenReady_def writeFlowRecord_def
        split: option.splits if_splits sum.splits prod.splits bool.splits)
  note f = mirrored_flow [OF r(2) c(1)]
  note p = patched_wellFormed [OF c(3) f(1)]
  have w: "mirrored ro st1" "fr_restore st1 = RestoreReady" "fr_flows st1 = AList.update (tf_flowId flow) flow (fr_flows st0)"
    using write_inv [OF r(2,1) _ c(4)] p by auto
  have "map_option eraseOrigin (map_of (fr_flows st1) k) = storedView ro (fr_rows st1) k" "readableRows ro (fr_rows st1)"
    using w(1) by (simp_all add: mirrored_def)
  moreover have "map_of (fr_flows st1) k = Some flow" using w(3) p f(2) by (simp add: update_conv)
  ultimately show ?thesis using inv_mirrored [OF w(1,2)] p c(2) by simp
qed

lemma stale_update:
  assumes "flow_inv ro st" "storedView ro (fr_rows st) k = Some f" "expected < tf_revision f"
    "updateFlowRecordByIdExpectedRevision ro le ok now k expected patch st = (res, st')"
  shows "fr_rows st' = fr_rows st \<and> ((\<exists>e. res = Inl e \<and> fr_restore st' = RestoreFailed e)
    \<or> (\<exists>current. res = Inr (RevisionConflict current) \<and> map_of (fr_flows st') k = Some current \<and> expected < tf_revision current))"
proof -
  obtain e st0 where e: "ensureTaskFlowRegistryReady ro le st = (e, st0)" by fastforce
  note i = ensure_inv [OF assms(1) e]
  show ?thesis
  proof (cases e)
    case None
    with i have m: "mirrored ro st0" "fr_rows st0 = fr_rows st" by (auto intro: mirrored_inv)
    obtain current where "map_of (fr_flows st0) k = Some current" "f = eraseOrigin current"
      using mirrored_stored [OF m(1)] assms(2) m(2) by metis
    with None e m(2) assms(3,4) show ?thesis
      by (auto simp: updateFlowRecordByIdExpectedRevision_def whenReady_def eraseOrigin_def)
  next
    case (Some err)
    with e i assms(4) ensure_failed [OF assms(1)] show ?thesis
      by (auto simp: updateFlowRecordByIdExpectedRevision_def whenReady_def)
  qed
qed

text \<open>C23. No update is lost: after an update that expected revision \<open>r\<close> was applied, every later update of that flow that
  expects \<open>r\<close> too changes nothing in the database and is answered with a conflict that shows the newer record, or with
  the error of a restore that failed, whatever calls, failures, reloads and restarts happened since, as long as the flow was not deleted.\<close>

theorem no_lost_updates:
  assumes "reachable initial_flows (flow_step ro) st"
    "updateFlowRecordByIdExpectedRevision ro le ok now k r patch st = (Inr (Applied flow), st1)"
    "(keeps_flow ro k)\<^sup>*\<^sup>* st1 st2"
    "updateFlowRecordByIdExpectedRevision ro le' ok' now' k r patch' st2 = (res, st3)"
  shows "fr_rows st3 = fr_rows st2 \<and> ((\<exists>e. res = Inl e \<and> fr_restore st3 = RestoreFailed e)
    \<or> (\<exists>current. res = Inr (RevisionConflict current) \<and> map_of (fr_flows st3) k = Some current \<and> r < tf_revision current))"
proof -
  note a = applied_update [OF flow_history.reachable_inv [OF assms(1)] assms(2)]
  then have "storedView ro (fr_rows st1) k = Some (eraseOrigin flow)" "r + 1 \<le> tf_revision (eraseOrigin flow)"
    by (simp_all add: eraseOrigin_def)
  with kept_revision [OF assms(3) _ _ this] a obtain f where "flow_inv ro st2" "storedView ro (fr_rows st2) k = Some f" "r < tf_revision f"
    by fastforce
  then show ?thesis by (rule stale_update [OF _ _ _ assms(4)])
qed

text \<open>The events suffice: replaying all events that the observer received since the process started gives exactly
  the records of a ready registry, in their order.\<close>

theorem observer_replays_registry:
  assumes "reachable initial_flows (flow_step ro) st" "fr_restore st = RestoreReady"
  shows "foldl replayEvent [] (fr_events st) = fr_flows st"
  using flow_history.reachable_inv [OF assms(1)] assms(2) by (simp add: flow_inv_def mirrored_def)

lemma whenReady_failed:
  assumes "fr_restore st = RestoreFailed e"
  shows "whenReady ro le f st = (Inl e, st)"
  using assms by (simp add: whenReady_def ensureTaskFlowRegistryReady_def restoreTaskFlowRegistryOnce_def)

lemma failed_calls:
  assumes "fr_restore st = RestoreFailed e"
  shows "createFlowRecord ro le ok now k params st = (Inl e, st)"
    and "updateFlowRecordByIdExpectedRevision ro le ok now k expected patch st = (Inl e, st)"
    and "updateFlowRecordByIdUnchecked ro le ok now k patch st = (Inl e, st)"
    and "deleteTaskFlowRecordById ro le ok k st = (Inl e, st)"
    and "getTaskFlowById ro le k st = (Inl e, st)"
    and "listTaskFlowsForOwnerKey ro le owner st = (Inl e, st)"
    and "listTaskFlowRecords ro le st = (Inl e, st)"
    and "ensureTaskFlowRegistryReady ro le st = (Some e, st)"
  using assms
  by (simp_all add: whenReady_failed createFlowRecord_def updateFlowRecordByIdExpectedRevision_def updateFlowRecordByIdUnchecked_def
      deleteTaskFlowRecordById_def getTaskFlowById_def listTaskFlowsForOwnerKey_def listTaskFlowRecords_def
      ensureTaskFlowRegistryReady_def restoreTaskFlowRegistryOnce_def)

lemma failed_sync:
  assumes "fr_restore st = RestoreFailed e"
  shows "syncFlowFromTaskResult ro le ok now task st
    = (if optionalString (tr_parentFlowId task) = None then Inr (SyncOk None) else Inl e, st)"
  by (cases "tr_parentFlowId task") (simp_all add: syncFlowFromTaskResult_def failed_calls [OF assms] optionalString_def
      normalizeOptionalString_def normalizeNullableString_def Let_def)

lemma failed_step:
  assumes "fr_restore st = RestoreFailed e" "flow_step ro st st'"
  shows "st' = st \<or> (\<exists>le. st' = snd (reloadTaskFlowRegistryFromStore ro le st)) \<or> st' = processRestart st"
  using assms(2) by cases (auto simp: failed_calls [OF assms(1)] failed_sync [OF assms(1)])

text \<open>C39. A restore that failed is final until the registry is reloaded or the process restarts: no other step changes
  anything, in memory or in the database. Every operation of the registry that needs the flows answers with the stored
  error; the calls that decide before they need them keep their own answer: a managed flow without a controller id is
  refused as such, a task without a parent flow has nothing to mirror, a blank lookup or owner finds nothing, and the
  inquiry for the failure reports it. When the rows of the table can be restored, a reload from a readable database makes
  the registry ready.\<close>

theorem failed_restore_is_inert:
  assumes "fr_restore st = RestoreFailed e"
  shows "(\<forall>st'. flow_step ro st st' \<longrightarrow>
        st' = st \<or> (\<exists>le. st' = snd (reloadTaskFlowRegistryFromStore ro le st)) \<or> st' = processRestart st)
    \<and> createManagedTaskFlow ro le ok now k params st
        = (Inl (if optionalString (cp_controllerId params) = None then ControllerIdRequired else e), st)
    \<and> createTaskFlowForTask ro le ok now k task origin st = (Inl e, st)
    \<and> updateFlowRecordByIdExpectedRevision ro le ok now k expected patch st = (Inl e, st)
    \<and> syncFlowFromTaskResult ro le ok now task st
        = (if optionalString (tr_parentFlowId task) = None then Inr (SyncOk None) else Inl e, st)
    \<and> deleteTaskFlowRecordById ro le ok k st = (Inl e, st)
    \<and> getTaskFlowById ro le k st = (Inl e, st) \<and> listTaskFlowRecords ro le st = (Inl e, st)
    \<and> listTaskFlowsForOwnerKey ro le owner st = (Inl e, st) \<and> findLatestTaskFlowForOwnerKey ro le owner st = (Inl e, st)
    \<and> resolveTaskFlowForLookupToken ro le token st = (if js_trim token = [] then Inr None else Inl e, st)
    \<and> getTaskFlowByIdForOwner ro le k owner st = (Inl e, st)
    \<and> listTaskFlowsForOwner ro le owner st = (if optionalString (Some owner) = None then Inr [] else Inl e, st)
    \<and> findLatestTaskFlowForOwner ro le owner st = (if optionalString (Some owner) = None then Inr None else Inl e, st)
    \<and> resolveTaskFlowForLookupTokenForOwner ro le token owner st = (Inl e, st)
    \<and> (\<exists>cause. getTaskFlowRegistryRestoreFailure ro le st = (Some cause, st) \<and> (e = cause \<or> e = RestoreFailure cause))
    \<and> (readableRows ro (fr_rows st) \<longrightarrow> fr_restore (snd (reloadTaskFlowRegistryFromStore ro None st)) = RestoreReady)"
proof (intro conjI allI impI)
  show "st' = st \<or> (\<exists>le. st' = snd (reloadTaskFlowRegistryFromStore ro le st)) \<or> st' = processRestart st"
    if "flow_step ro st st'" for st' by (rule failed_step [OF assms that])
  show "\<exists>cause. getTaskFlowRegistryRestoreFailure ro le st = (Some cause, st) \<and> (e = cause \<or> e = RestoreFailure cause)"
    by (cases e) (simp_all add: getTaskFlowRegistryRestoreFailure_def failed_calls [OF assms] assms)
  show "fr_restore (snd (reloadTaskFlowRegistryFromStore ro None st)) = RestoreReady" if "readableRows ro (fr_rows st)"
    using that restoreSnapshot_complete [of ro "fr_rows st"]
    by (auto simp: reloadTaskFlowRegistryFromStore_def ensureTaskFlowRegistryReady_def restoreTaskFlowRegistryOnce_def
        emitFlowRegistryObserverEvent_def)
  show "createManagedTaskFlow ro le ok now k params st
      = (Inl (if optionalString (cp_controllerId params) = None then ControllerIdRequired else e), st)"
    by (auto simp: createManagedTaskFlow_def assertControllerId_def failed_calls [OF assms] split: option.split)
qed (auto simp: failed_calls [OF assms] failed_sync [OF assms] createTaskFlowForTask_def findLatestTaskFlowForOwnerKey_def
      resolveTaskFlowForLookupToken_def getTaskFlowByIdForOwner_def listTaskFlowsForOwner_def findLatestTaskFlowForOwner_def
      resolveTaskFlowForLookupTokenForOwner_def Let_def split: option.split prod.split)

subsection \<open>Examples\<close>

text \<open>A registry in which one managed flow was created and then updated from revision 0 by a first controller; a second
  controller, which read the same revision, comes late.\<close>

definition emptyRegistry :: flow_registry where
  "emptyRegistry = \<lparr>fr_flows = [], fr_restore = Uninitialized, fr_rows = [], fr_events = []\<rparr>"

definition exampleParams :: create_params where
  "exampleParams = \<lparr>cp_ownerKey = ''agent:main:main'', cp_requesterOrigin = None, cp_status = None, cp_notifyPolicy = None,
     cp_goal = ''nightly report'', cp_currentStep = None, cp_blockedTaskId = None, cp_blockedSummary = None,
     cp_stateJson = None, cp_waitJson = None, cp_cancelRequestedAt = None, cp_createdAt = None, cp_updatedAt = None,
     cp_endedAt = None, cp_syncMode = Some Managed, cp_controllerId = Some ''tests/controller'', cp_revision = None\<rparr>"

definition exampleRegistry :: flow_registry where
  "exampleRegistry = snd (createFlowRecord (\<lambda>_. None) None True 5 ''f'' exampleParams emptyRegistry)"

definition exampleUpdated :: flow_registry where
  "exampleUpdated = snd (updateFlowRecordByIdExpectedRevision (\<lambda>_. None) None True 6 ''f'' 0
     (emptyPatch\<lparr>fp_status := Some FlowRunning\<rparr>) exampleRegistry)"

definition failedRegistry :: flow_registry where
  "failedRegistry = snd (ensureTaskFlowRegistryReady (\<lambda>_. None) (Some ''disk error'') emptyRegistry)"

lemma example_reachable:
  "reachable initial_flows (flow_step (\<lambda>_. None)) exampleRegistry"
  "reachable initial_flows (flow_step (\<lambda>_. None)) failedRegistry"
proof -
  have s: "reachable initial_flows (flow_step (\<lambda>_. None)) emptyRegistry"
    by (rule reachable.start) (simp add: initial_flows_def emptyRegistry_def)
  show "reachable initial_flows (flow_step (\<lambda>_. None)) exampleRegistry" unfolding exampleRegistry_def
    by (rule reachable.step [OF s], rule flow_step.create) (simp add: emptyRegistry_def)
  show "reachable initial_flows (flow_step (\<lambda>_. None)) failedRegistry" unfolding failedRegistry_def
    by (rule reachable.step [OF s], rule flow_step.ensure)
qed

lemma example_ready: "fr_restore exampleRegistry = RestoreReady" "map fst (fr_flows exampleRegistry) = [''f'']"
  by code_simp+

lemma example_applied:
  "updateFlowRecordByIdExpectedRevision (\<lambda>_. None) None True 6 ''f'' 0 (emptyPatch\<lparr>fp_status := Some FlowRunning\<rparr>) exampleRegistry
   = (Inr (Applied (the (map_of (fr_flows exampleUpdated) ''f''))), exampleUpdated)"
  by code_simp

theorem registry_is_well_formed_witness:
  "wellFormedFlow (snd (hd (fr_flows exampleRegistry))) \<and> tf_flowId (snd (hd (fr_flows exampleRegistry))) = ''f''"
proof -
  obtain flow where f: "fr_flows exampleRegistry = [(''f'', flow)]" using example_ready(2) by (auto simp: map_eq_Cons_conv)
  show ?thesis using registry_is_well_formed [OF example_reachable(1)] unfolding f by simp
qed

theorem reload_restores_registry_witness:
  "fst (reloadTaskFlowRegistryFromStore (\<lambda>_. None) None exampleRegistry) = None"
  using reload_restores_registry [OF example_reachable(1) example_ready(1) prod.collapse [symmetric]] by blast

theorem no_lost_updates_witness:
  "\<exists>current. fst (updateFlowRecordByIdExpectedRevision (\<lambda>_. None) None True 7 ''f'' 0 emptyPatch exampleUpdated)
     = Inr (RevisionConflict current) \<and> 0 < tf_revision current"
proof -
  have "fr_restore (snd (updateFlowRecordByIdExpectedRevision (\<lambda>_. None) None True 7 ''f'' 0 emptyPatch exampleUpdated)) = RestoreReady"
    by code_simp
  then show ?thesis
    using no_lost_updates [OF example_reachable(1) example_applied rtranclp.rtrancl_refl prod.collapse [symmetric],
        of None True 7 emptyPatch] by auto
qed

theorem observer_replays_registry_witness:
  "fr_restore exampleRegistry = RestoreReady \<and> foldl replayEvent [] (fr_events exampleRegistry) = fr_flows exampleRegistry"
  using observer_replays_registry [OF example_reachable(1) example_ready(1)] example_ready(1) by blast

theorem failed_restore_is_inert_witness:
  "getTaskFlowById (\<lambda>_. None) None ''f'' failedRegistry = (Inl (RestoreFailure (DatabaseError ''disk error'')), failedRegistry)
   \<and> fr_restore (snd (reloadTaskFlowRegistryFromStore (\<lambda>_. None) None failedRegistry)) = RestoreReady"
proof -
  have f: "fr_restore failedRegistry = RestoreFailed (RestoreFailure (DatabaseError ''disk error''))"
    "readableRows (\<lambda>_. None) (fr_rows failedRegistry)" by code_simp+
  show ?thesis using failed_restore_is_inert [OF f(1)] f(2) by blast
qed

end
