(* ===== verification/Task_Flow_Maintenance.thy ===== *)
theory Task_Flow_Maintenance
  imports Task_Mutation Task_Flow_Safety
begin

text \<open>
  Maintenance of the registry of flows against the linked tasks, \<open>src/tasks/task-flow-registry.maintenance.ts\<close>, and
  its audit, \<open>task-flow-registry.audit.ts\<close>. Both read the flows and, for each flow, the tasks that the registry of tasks
  lists for it.
\<close>

subsection \<open>Maintenance\<close>

definition bindCall :: "'a task_call \<Rightarrow> ('a \<Rightarrow> 'b task_call) \<Rightarrow> 'b task_call" where
  "bindCall f g st = (case f st of (Inl e, st1) \<Rightarrow> (Inl e, st1) | (Inr x, st1) \<Rightarrow> g x st1)"

definition pureCall :: "'a \<Rightarrow> 'a task_call" where
  "pureCall x st = (Inr x, st)"

definition TASK_FLOW_RETENTION_MS :: int where
  "TASK_FLOW_RETENTION_MS = 7 * 24 * 60 * 60000"

record maintenance_summary =
  mt_reconciled :: nat
  mt_pruned :: nat

definition restoreFailure :: "task_env \<Rightarrow> flow_error option task_call" where
  "restoreFailure env = onFlows env (\<lambda>ok fs.
     map_prod Inr id (getTaskFlowRegistryRestoreFailure (te_readOrigin env) (te_flowLoadError env) fs))"

text \<open>The error carries the failure that its message names.\<close>

definition assertTaskFlowRegistryMaintenanceReady :: "task_env \<Rightarrow> unit task_call" where
  "assertTaskFlowRegistryMaintenanceReady env = bindCall (restoreFailure env) (\<lambda>failure st.
     case failure of None \<Rightarrow> (Inr (), st) | Some e \<Rightarrow> (Inl (FlowRegistryError (RestoreFailure e)), st))"

definition isTerminalFlow :: "task_flow \<Rightarrow> bool" where
  "isTerminalFlow flow \<longleftrightarrow>
     tf_status flow = FlowSucceeded \<or> tf_status flow = FlowBlocked \<or> tf_status flow = FlowFailed
     \<or> tf_status flow = FlowCancelled \<or> tf_status flow = FlowLost"

definition hasActiveLinkedTasks :: "task_env \<Rightarrow> string \<Rightarrow> bool task_call" where
  "hasActiveLinkedTasks env flowId = anyPendingTask env flowId"

definition resolveTerminalAt :: "task_flow \<Rightarrow> int" where
  "resolveTerminalAt flow = nullish (tf_endedAt flow) (tf_updatedAt flow)"

definition shouldPruneFlow :: "task_env \<Rightarrow> task_flow \<Rightarrow> int \<Rightarrow> bool task_call" where
  "shouldPruneFlow env flow now =
     (if \<not> isTerminalFlow flow then pureCall False
      else bindCall (hasActiveLinkedTasks env (tf_flowId flow)) (\<lambda>active.
        pureCall (if active then False else now - resolveTerminalAt flow \<ge> TASK_FLOW_RETENTION_MS)))"

definition shouldFinalizeCancelledFlow :: "task_env \<Rightarrow> task_flow \<Rightarrow> bool task_call" where
  "shouldFinalizeCancelledFlow env flow =
     (if tf_syncMode flow \<noteq> Managed then pureCall False
      else if tf_cancelRequestedAt flow = None \<or> isTerminalFlow flow then pureCall False
      else bindCall (hasActiveLinkedTasks env (tf_flowId flow)) (\<lambda>active. pureCall (\<not> active)))"

fun finalizeAttempts :: "task_env \<Rightarrow> nat \<Rightarrow> int \<Rightarrow> task_flow \<Rightarrow> bool task_call" where
  "finalizeAttempts env 0 now current = pureCall False"
| "finalizeAttempts env (Suc n) now current =
     (let endedAt = max now (max (tf_updatedAt current) (nullish (tf_cancelRequestedAt current) now))
      in bindCall (expectRevision env (tf_flowId current) (tf_revision current) (cancelledPatch endedAt)) (\<lambda>result.
           case result of
             Applied _ \<Rightarrow> pureCall True
           | NotFound \<Rightarrow> pureCall False
           | RevisionConflict flow \<Rightarrow>
               bindCall (shouldFinalizeCancelledFlow env flow) (\<lambda>go. if go then finalizeAttempts env n now flow else pureCall False)
           | PersistFailed flow \<Rightarrow>
               bindCall (shouldFinalizeCancelledFlow env flow) (\<lambda>go. if go then finalizeAttempts env n now flow else pureCall False)))"

definition finalizeCancelledFlow :: "task_env \<Rightarrow> task_flow \<Rightarrow> int \<Rightarrow> bool task_call" where
  "finalizeCancelledFlow env flow now = finalizeAttempts env 2 now flow"

definition shouldRepairTerminalMirroredFlowTimestamp :: "task_flow \<Rightarrow> bool" where
  "shouldRepairTerminalMirroredFlowTimestamp flow \<longleftrightarrow>
     tf_syncMode flow = TaskMirrored \<and> isTerminalFlow flow
     \<and> (case tf_endedAt flow of None \<Rightarrow> False | Some endedAt \<Rightarrow> \<not> endedAt < tf_createdAt flow \<and> tf_updatedAt flow > endedAt)"

fun repairAttempts :: "task_env \<Rightarrow> nat \<Rightarrow> task_flow \<Rightarrow> bool task_call" where
  "repairAttempts env 0 current = pureCall False"
| "repairAttempts env (Suc n) current =
     (if \<not> shouldRepairTerminalMirroredFlowTimestamp current then pureCall False
      else bindCall (expectRevision env (tf_flowId current) (tf_revision current) (emptyPatch\<lparr>fp_updatedAt := tf_endedAt current\<rparr>)) (\<lambda>result.
           case result of
             Applied _ \<Rightarrow> pureCall True
           | NotFound \<Rightarrow> pureCall False
           | RevisionConflict flow \<Rightarrow> repairAttempts env n flow
           | PersistFailed flow \<Rightarrow> repairAttempts env n flow))"

definition repairTerminalMirroredFlowTimestamp :: "task_env \<Rightarrow> task_flow \<Rightarrow> bool task_call" where
  "repairTerminalMirroredFlowTimestamp env flow = repairAttempts env 2 flow"

definition flowRecords :: "task_env \<Rightarrow> task_flow list task_call" where
  "flowRecords env = onFlows env (\<lambda>ok. listTaskFlowRecords (te_readOrigin env) (te_flowLoadError env))"

definition deleteFlow :: "task_env \<Rightarrow> string \<Rightarrow> bool task_call" where
  "deleteFlow env flowId = onFlows env (\<lambda>ok. deleteTaskFlowRecordById (te_readOrigin env) (te_flowLoadError env) ok flowId)"

text \<open>The bodies of the loops: what one flow adds to the counts of reconciled and pruned flows.\<close>

definition previewFlow :: "task_env \<Rightarrow> int \<Rightarrow> task_flow \<Rightarrow> (nat \<times> nat) task_call" where
  "previewFlow env now flow =
     (if shouldRepairTerminalMirroredFlowTimestamp flow then pureCall (1, 0)
      else bindCall (shouldFinalizeCancelledFlow env flow) (\<lambda>finalize.
        if finalize then pureCall (1, 0)
        else bindCall (shouldPruneFlow env flow now) (\<lambda>prune. pureCall (0, if prune then 1 else 0))))"

definition maintainFlow :: "task_env \<Rightarrow> int \<Rightarrow> task_flow \<Rightarrow> (nat \<times> nat) task_call" where
  "maintainFlow env now flow = bindCall (flowById env (tf_flowId flow)) (\<lambda>found.
     case found of
       None \<Rightarrow> pureCall (0, 0)
     | Some current \<Rightarrow>
         if shouldRepairTerminalMirroredFlowTimestamp current
         then bindCall (repairTerminalMirroredFlowTimestamp env current) (\<lambda>ok. pureCall (if ok then 1 else 0, 0))
         else bindCall (shouldFinalizeCancelledFlow env current) (\<lambda>finalize.
           if finalize
           then bindCall (finalizeCancelledFlow env current now) (\<lambda>ok. pureCall (if ok then 1 else 0, 0))
           else bindCall (shouldPruneFlow env current now) (\<lambda>prune.
             if prune then bindCall (deleteFlow env (tf_flowId current)) (\<lambda>ok. pureCall (0, if ok then 1 else 0))
             else pureCall (0, 0))))"

fun countFlows :: "(task_flow \<Rightarrow> (nat \<times> nat) task_call) \<Rightarrow> task_flow list \<Rightarrow> nat \<Rightarrow> nat \<Rightarrow> maintenance_summary task_call" where
  "countFlows body [] reconciled pruned = pureCall \<lparr>mt_reconciled = reconciled, mt_pruned = pruned\<rparr>"
| "countFlows body (flow # flows) reconciled pruned =
     bindCall (body flow) (\<lambda>(r, p). countFlows body flows (reconciled + r) (pruned + p))"

definition previewTaskFlowRegistryMaintenance :: "task_env \<Rightarrow> maintenance_summary task_call" where
  "previewTaskFlowRegistryMaintenance env = bindCall (flowRecords env) (\<lambda>flows. countFlows (previewFlow env (te_now env)) flows 0 0)"

definition runTaskFlowRegistryMaintenance :: "task_env \<Rightarrow> maintenance_summary task_call" where
  "runTaskFlowRegistryMaintenance env = bindCall (flowRecords env) (\<lambda>flows. countFlows (maintainFlow env (te_now env)) flows 0 0)"

subsection \<open>Audit\<close>

datatype audit_severity = AuditWarn | AuditError

datatype audit_code =
    RestoreFailedCode | StaleRunning | StaleWaiting | StaleBlocked | CancelStuck | MissingLinkedTasks
  | BlockedTaskMissing | InconsistentTimestamps

record audit_finding =
  af_severity :: audit_severity
  af_code :: audit_code
  af_detail :: string
  af_ageMs :: "int option"
  af_flow :: "task_flow option"

record audit_summary =
  as_total :: nat
  as_warnings :: nat
  as_errors :: nat
  as_byCode :: "audit_code \<Rightarrow> nat"

record audit_options =
  ao_now :: "int option"
  ao_flows :: "task_flow list option"
  ao_staleRunningMs :: "int option"
  ao_staleWaitingMs :: "int option"
  ao_staleBlockedMs :: "int option"
  ao_cancelStuckMs :: "int option"

definition DEFAULT_STALE_RUNNING_MS :: int where
  "DEFAULT_STALE_RUNNING_MS = 30 * 60000"

definition DEFAULT_STALE_WAITING_MS :: int where
  "DEFAULT_STALE_WAITING_MS = 30 * 60000"

definition DEFAULT_STALE_BLOCKED_MS :: int where
  "DEFAULT_STALE_BLOCKED_MS = 30 * 60000"

definition DEFAULT_CANCEL_STUCK_MS :: int where
  "DEFAULT_CANCEL_STUCK_MS = 5 * 60000"

definition createFinding :: "audit_severity \<Rightarrow> audit_code \<Rightarrow> string \<Rightarrow> int option \<Rightarrow> task_flow option \<Rightarrow> audit_finding" where
  "createFinding severity code detail ageMs flow =
     \<lparr>af_severity = severity, af_code = code, af_detail = detail, af_ageMs = ageMs, af_flow = flow\<rparr>"

definition severityRank :: "audit_severity \<Rightarrow> int" where
  "severityRank severity = (if severity = AuditError then 0 else 1)"

definition compareFindings :: "audit_finding \<Rightarrow> audit_finding \<Rightarrow> int" where
  "compareFindings left right =
     (let severityDiff = severityRank (af_severity left) - severityRank (af_severity right);
          leftAge = nullish (af_ageMs left) (-1); rightAge = nullish (af_ageMs right) (-1)
      in if severityDiff \<noteq> 0 then severityDiff
         else if leftAge \<noteq> rightAge then rightAge - leftAge
         else nullish (map_option tf_createdAt (af_flow left)) 0 - nullish (map_option tf_createdAt (af_flow right)) 0)"

definition getReferenceAt :: "task_flow \<Rightarrow> int" where
  "getReferenceAt flow = tf_updatedAt flow"

definition getLinkedTasks :: "task_env \<Rightarrow> string \<Rightarrow> task_record list task_call" where
  "getLinkedTasks env flowId = listTasksForFlowId env flowId"

definition hasBlockingMetadata :: "task_flow \<Rightarrow> bool" where
  "hasBlockingMetadata flow \<longleftrightarrow>
     nonBlank (tf_blockedTaskId flow) \<noteq> None \<or> nonBlank (tf_blockedSummary flow) \<noteq> None
     \<or> (tf_waitJson flow \<noteq> None \<and> tf_waitJson flow \<noteq> Some JNull)"

text \<open>An end at time 0 is falsy and is not checked.\<close>

definition findTimestampInconsistency :: "task_flow \<Rightarrow> audit_finding option" where
  "findTimestampInconsistency flow =
     (let finding = (\<lambda>detail. Some (createFinding AuditWarn InconsistentTimestamps detail None (Some flow)));
          ended = (case tf_endedAt flow of Some n \<Rightarrow> if n = 0 then None else Some n | None \<Rightarrow> None)
      in if tf_updatedAt flow < tf_createdAt flow then finding ''updatedAt is earlier than createdAt''
         else case ended of
                None \<Rightarrow> None
              | Some endedAt \<Rightarrow>
                  if endedAt < tf_createdAt flow then finding ''endedAt is earlier than createdAt''
                  else if endedAt < tf_updatedAt flow then finding ''endedAt is earlier than updatedAt''
                  else None)"

definition createEmptyTaskFlowAuditSummary :: audit_summary where
  "createEmptyTaskFlowAuditSummary = \<lparr>as_total = 0, as_warnings = 0, as_errors = 0, as_byCode = (\<lambda>_. 0)\<rparr>"

definition auditFlow :: "audit_options \<Rightarrow> int \<Rightarrow> task_flow \<Rightarrow> task_record list \<Rightarrow> audit_finding list" where
  "auditFlow options now flow linkedTasks =
     (let staleRunningMs = nullish (ao_staleRunningMs options) DEFAULT_STALE_RUNNING_MS;
          staleWaitingMs = nullish (ao_staleWaitingMs options) DEFAULT_STALE_WAITING_MS;
          staleBlockedMs = nullish (ao_staleBlockedMs options) DEFAULT_STALE_BLOCKED_MS;
          cancelStuckMs = nullish (ao_cancelStuckMs options) DEFAULT_CANCEL_STUCK_MS;
          ageMs = max 0 (now - getReferenceAt flow);
          status = tf_status flow
      in (if status = FlowRunning \<and> ageMs \<ge> staleRunningMs
          then [createFinding AuditError StaleRunning ''running TaskFlow has not advanced recently'' (Some ageMs) (Some flow)] else [])
       @ (if status = FlowWaiting \<and> ageMs \<ge> staleWaitingMs
          then [createFinding AuditWarn StaleWaiting ''waiting TaskFlow has not advanced recently'' (Some ageMs) (Some flow)] else [])
       @ (if status = FlowBlocked \<and> tf_endedAt flow = None \<and> ageMs \<ge> staleBlockedMs
          then [createFinding AuditWarn StaleBlocked ''blocked TaskFlow has not advanced recently'' (Some ageMs) (Some flow)] else [])
       @ (case tf_cancelRequestedAt flow of
            None \<Rightarrow> []
          | Some requestedAt \<Rightarrow>
              if status \<noteq> FlowCancelled \<and> status \<noteq> FlowFailed \<and> status \<noteq> FlowSucceeded \<and> status \<noteq> FlowLost
                 \<and> filter isTaskFlowCancellationPending linkedTasks = [] \<and> now - requestedAt \<ge> cancelStuckMs
              then [createFinding AuditWarn CancelStuck
                      ''cancel-requested TaskFlow has no active child tasks but is still nonterminal''
                      (Some (max 0 (now - requestedAt))) (Some flow)] else [])
       @ (if tf_syncMode flow = Managed \<and> (status = FlowRunning \<or> status = FlowWaiting \<or> status = FlowBlocked)
             \<and> ageMs \<ge> (if status = FlowRunning then staleRunningMs else if status = FlowWaiting then staleWaitingMs else staleBlockedMs)
             \<and> linkedTasks = [] \<and> \<not> hasBlockingMetadata flow
          then [createFinding (if status = FlowRunning then AuditError else AuditWarn) MissingLinkedTasks
                  ''managed TaskFlow has no linked tasks or wait state'' (Some ageMs) (Some flow)] else [])
       @ (case (tf_endedAt flow, nonBlank (tf_blockedTaskId flow)) of
            (None, Some blockedTaskId) \<Rightarrow>
              if list_ex (\<lambda>task. tr_taskId task = blockedTaskId) linkedTasks then []
              else [createFinding AuditWarn BlockedTaskMissing (''blocked TaskFlow points at missing task '' @ blockedTaskId)
                      (Some ageMs) (Some flow)]
          | _ \<Rightarrow> [])
       @ (case findTimestampInconsistency flow of None \<Rightarrow> [] | Some finding \<Rightarrow> [finding]))"

fun auditFlows :: "task_env \<Rightarrow> audit_options \<Rightarrow> int \<Rightarrow> task_flow list \<Rightarrow> audit_finding list task_call" where
  "auditFlows env options now [] = pureCall []"
| "auditFlows env options now (flow # flows) = bindCall (getLinkedTasks env (tf_flowId flow)) (\<lambda>linkedTasks.
     bindCall (auditFlows env options now flows) (\<lambda>rest. pureCall (auditFlow options now flow linkedTasks @ rest)))"

text \<open>\<open>describe\<close> gives the message of a restore failure.\<close>

definition listTaskFlowAuditFindings :: "(flow_error \<Rightarrow> string) \<Rightarrow> task_env \<Rightarrow> audit_options \<Rightarrow> audit_finding list task_call" where
  "listTaskFlowAuditFindings describe env options = bindCall (restoreFailure env) (\<lambda>failure.
     bindCall (case ao_flows options of
                 Some flows \<Rightarrow> pureCall flows
               | None \<Rightarrow> if failure \<noteq> None then pureCall [] else flowRecords env) (\<lambda>flows.
       bindCall (auditFlows env options (nullish (ao_now options) (te_now env)) flows) (\<lambda>findings.
         pureCall (js_toSorted compareFindings
           ((case failure of
               None \<Rightarrow> []
             | Some e \<Rightarrow> [createFinding AuditError RestoreFailedCode (''task-flow registry restore failed: '' @ describe e) None None])
            @ findings)))))"

definition addFinding :: "audit_summary \<Rightarrow> audit_finding \<Rightarrow> audit_summary" where
  "addFinding summary finding =
     summary\<lparr>as_total := as_total summary + 1,
       as_byCode := (as_byCode summary)(af_code finding := as_byCode summary (af_code finding) + 1),
       as_errors := as_errors summary + (if af_severity finding = AuditError then 1 else 0),
       as_warnings := as_warnings summary + (if af_severity finding = AuditError then 0 else 1)\<rparr>"

definition summarizeTaskFlowAuditFindings :: "audit_finding list \<Rightarrow> audit_summary" where
  "summarizeTaskFlowAuditFindings findings = foldl addFinding createEmptyTaskFlowAuditSummary findings"

definition noAuditOptions :: audit_options where
  "noAuditOptions = \<lparr>ao_now = None, ao_flows = None, ao_staleRunningMs = None, ao_staleWaitingMs = None,
     ao_staleBlockedMs = None, ao_cancelStuckMs = None\<rparr>"

definition getInspectableTaskFlowAuditSummary :: "(flow_error \<Rightarrow> string) \<Rightarrow> task_env \<Rightarrow> audit_summary task_call" where
  "getInspectableTaskFlowAuditSummary describe env =
     bindCall (listTaskFlowAuditFindings describe env noAuditOptions) (\<lambda>findings. pureCall (summarizeTaskFlowAuditFindings findings))"

end
