(* ===== verification/Task_Delivery.thy ===== *)
theory Task_Delivery
  imports Task_Mutation
begin

text \<open>
  Delivery of task updates to the requester: \<open>src/tasks/task-registry-delivery.ts\<close> with the messages of
  \<open>task-executor-policy.ts\<close>. A delivery runs synchronously up to its first \<open>await\<close>; what is left of it waits in the
  list of runs, for the admission of the process, for the messaging runtime, or for the answer of the channel. What a
  delivery does outside the registry (system events, heartbeat wakes, messages) is appended to an outbox.

  The world of a call has the outcome of the admission gate, the results of the awaited calls, and the functions of
  other subsystems: sanitizing of status texts, classification of session keys, and the channels that plugins register.
\<close>

subsection \<open>State\<close>

record delivery_owner =
  do_sessionKey :: "string option"
  do_requesterOrigin :: "js_value option"
  do_flowId :: "string option"

record task_message =
  ms_origin :: "js_value option"
  ms_content :: string
  ms_agentId :: "string option"
  ms_idempotencyKey :: string
  ms_sessionKey :: string

datatype task_effect =
    SystemEvent string string string "js_value option"
  | HeartbeatWake string string
  | MessageSent task_message

datatype delivery_run =
    TerminalAwaitsAdmission string
  | ChangeAwaitsAdmission string "task_event option"
  | TerminalAwaitsRuntime string task_record delivery_owner string string
  | TerminalAwaitsSend string string
  | ChangeAwaitsRuntime string task_record task_event string delivery_owner "js_value option"
  | ChangeAwaitsSend string task_event "js_value option"

record task_process =
  tp_registry :: task_registry
  tp_runs :: "delivery_run list"
  tp_outbox :: "task_effect list"

record delivery_world =
  dw_gate :: admission_outcome
  dw_runtimeLoads :: bool
  dw_sends :: bool
  dw_queues :: bool
  dw_sanitize :: "bool \<Rightarrow> string option \<Rightarrow> string"
  dw_title :: "string \<Rightarrow> string"
  dw_routesThroughSession :: "string option \<Rightarrow> bool"
  dw_deliverable :: "string \<Rightarrow> bool"
  dw_threads :: "string option \<Rightarrow> bool"

type_synonym 'a process_call = "task_process \<Rightarrow> (task_error + 'a) \<times> task_process"

definition lift :: "'a task_call \<Rightarrow> 'a process_call" where
  "lift f p = (case f (tp_registry p) of (r, st) \<Rightarrow> (r, p\<lparr>tp_registry := st\<rparr>))"

definition andThen :: "'a process_call \<Rightarrow> ('a \<Rightarrow> 'b process_call) \<Rightarrow> 'b process_call" where
  "andThen f g p = (case f p of (Inl e, p1) \<Rightarrow> (Inl e, p1) | (Inr x, p1) \<Rightarrow> g x p1)"

definition otherwise :: "'a process_call \<Rightarrow> 'a process_call \<Rightarrow> 'a process_call" where
  "otherwise f g p = (case f p of (Inl e, p1) \<Rightarrow> g p1 | (Inr x, p1) \<Rightarrow> (Inr x, p1))"

definition answer :: "'a \<Rightarrow> 'a process_call" where
  "answer x p = (Inr x, p)"

definition emit :: "task_effect list \<Rightarrow> task_process \<Rightarrow> task_process" where
  "emit effects p = p\<lparr>tp_outbox := tp_outbox p @ effects\<rparr>"

definition suspend :: "delivery_run \<Rightarrow> task_process \<Rightarrow> task_process" where
  "suspend run p = p\<lparr>tp_runs := tp_runs p @ [run]\<rparr>"

subsection \<open>Messages\<close>

definition orElse :: "string \<Rightarrow> string \<Rightarrow> string" where
  "orElse s t = (if s \<noteq> [] then s else t)"

definition resolveTaskDisplayTitle :: "delivery_world \<Rightarrow> task_record \<Rightarrow> string" where
  "resolveTaskDisplayTitle w task = dw_title w
     (orElse (js_trim (nullish (tr_label task) []))
       (case tr_runtime task of
          AcpTask \<Rightarrow> ''ACP background task''
        | SubagentTask \<Rightarrow> ''Subagent task''
        | _ \<Rightarrow> orElse (js_trim (tr_task task)) ''Background task''))"

definition resolveTaskRunLabel :: "task_record \<Rightarrow> string" where
  "resolveTaskRunLabel task =
     (case tr_runId task of
        None \<Rightarrow> []
      | Some runId \<Rightarrow> if runId = [] then [] else '' (run '' @ take 8 runId @ '')'')"

definition formatTaskTerminalMessage :: "delivery_world \<Rightarrow> bool \<Rightarrow> task_record \<Rightarrow> string" where
  "formatTaskTerminalMessage w parentSession task =
     (let name = resolveTaskDisplayTitle w task @ resolveTaskRunLabel task;
          summary = dw_sanitize w (tr_status task \<noteq> TaskSucceeded \<or> tr_terminalOutcome task = Some OutcomeBlocked) (tr_terminalSummary task);
          error = dw_sanitize w True (tr_error task);
          fallbackSummary = dw_sanitize w True (tr_terminalSummary task);
          reviewNext = ''Next: parent will review/verify before calling it done.''
      in case tr_status task of
           TaskSucceeded \<Rightarrow>
             if tr_terminalOutcome task = Some OutcomeBlocked
             then ''Background task blocked: '' @ name @ ''.'' @ (if summary \<noteq> [] then '' '' @ summary else [])
             else if parentSession
             then ''Background task ready for review: '' @ name @ ''. '' @ (if summary \<noteq> [] then summary @ '' '' else []) @ reviewNext
             else ''Background task done: '' @ name @ ''.'' @ (if summary \<noteq> [] then '' '' @ summary else [])
         | TaskTimedOut \<Rightarrow> ''Background task timed out: '' @ name @ ''.''
         | TaskLost \<Rightarrow>
             ''Background task lost: '' @ name @ ''. '' @ orElse error (orElse fallbackSummary ''Backing session disappeared.'')
         | TaskCancelled \<Rightarrow>
             (if tr_runtime task = SubagentTask then ''Background task cancellation requested: ''
              else ''Background task cancelled: '') @ name @ ''.''
         | _ \<Rightarrow>
             ''Background task failed: '' @ name @ ''.'' @
             (if error \<noteq> [] then '' '' @ error else if fallbackSummary \<noteq> [] then '' '' @ fallbackSummary else []))"

definition formatTaskBlockedFollowupMessage :: "delivery_world \<Rightarrow> task_record \<Rightarrow> string option" where
  "formatTaskBlockedFollowupMessage w task =
     (if tr_status task \<noteq> TaskSucceeded \<or> tr_terminalOutcome task \<noteq> Some OutcomeBlocked then None
      else Some (''Task needs follow-up: '' @ resolveTaskDisplayTitle w task @ resolveTaskRunLabel task @ ''. '' @
             orElse (dw_sanitize w True (tr_terminalSummary task)) ''Task is blocked and needs follow-up.''))"

definition formatTaskStateChangeMessage :: "delivery_world \<Rightarrow> task_record \<Rightarrow> task_event \<Rightarrow> string option" where
  "formatTaskStateChangeMessage w task event =
     (let title = resolveTaskDisplayTitle w task
      in case ev_taskKind event of
           StatusEvent TaskRunning \<Rightarrow> Some (''Background task started: '' @ title @ ''.'')
         | ProgressEvent \<Rightarrow>
             (let summary = dw_sanitize w False (ev_summary event)
              in if summary \<noteq> [] then Some (''Background task update: '' @ title @ ''. '' @ summary) else None)
         | _ \<Rightarrow> None)"

definition outcomeText :: "task_record \<Rightarrow> string" where
  "outcomeText task =
     (if tr_status task = TaskSucceeded
      then nullish (map_option terminalOutcomeText (tr_terminalOutcome task)) ''default'' else ''default'')"

definition taskTerminalDeliveryIdempotencyKey :: "task_record \<Rightarrow> string" where
  "taskTerminalDeliveryIdempotencyKey task =
     ''task-terminal:'' @ tr_taskId task @ '':'' @ taskStatusText (tr_status task) @ '':'' @ outcomeText task"

definition eventKindText :: "task_event_kind \<Rightarrow> string" where
  "eventKindText kind = (case kind of StatusEvent s \<Rightarrow> taskStatusText s | ProgressEvent \<Rightarrow> ''progress'')"

definition resolveTaskStateChangeIdempotencyKey :: "task_record \<Rightarrow> task_event \<Rightarrow> delivery_owner \<Rightarrow> string" where
  "resolveTaskStateChangeIdempotencyKey task event owner =
     (let tail = tr_taskId task @ '':'' @ string_of_int (ev_at event) @ '':'' @ eventKindText (ev_taskKind event)
      in case do_flowId owner of
           Some flowId \<Rightarrow> if flowId \<noteq> [] then ''flow-event:'' @ flowId @ '':'' @ tail else ''task-event:'' @ tail
         | None \<Rightarrow> ''task-event:'' @ tail)"

subsection \<open>The owner of a delivery\<close>

definition getLinkedFlowForDelivery :: "task_env \<Rightarrow> task_record \<Rightarrow> task_flow option process_call" where
  "getLinkedFlowForDelivery env task =
     (case nonBlank (tr_parentFlowId task) of
        None \<Rightarrow> answer None
      | Some flowId \<Rightarrow>
          if tr_scopeKind task \<noteq> SessionScope then answer None
          else andThen (lift (flowById env flowId)) (\<lambda>flow.
            answer (case flow of
                      None \<Rightarrow> None
                    | Some f \<Rightarrow>
                        if optionalString (Some (tf_ownerKey f)) \<noteq> optionalString (Some (tr_ownerKey task)) then None else Some f)))"

definition taskOrigin :: "task_process \<Rightarrow> task_record \<Rightarrow> js_value option" where
  "taskOrigin p task = Option.bind (map_of (tg_deliveryStates (tp_registry p)) (tr_taskId task)) td_requesterOrigin"

definition resolveTaskDeliveryOwner :: "task_env \<Rightarrow> task_record \<Rightarrow> delivery_owner process_call" where
  "resolveTaskDeliveryOwner env task = andThen (getLinkedFlowForDelivery env task) (\<lambda>flow p.
     (Inr (case flow of
             Some f \<Rightarrow>
               \<lparr>do_sessionKey = Some (js_trim (tf_ownerKey f)),
                do_requesterOrigin = Option.bind (nullish_or (tf_requesterOrigin f) (taskOrigin p task)) (te_normOrigin env),
                do_flowId = Some (tf_flowId f)\<rparr>
           | None \<Rightarrow>
               if tr_scopeKind task \<noteq> SessionScope
               then \<lparr>do_sessionKey = None, do_requesterOrigin = None, do_flowId = None\<rparr>
               else \<lparr>do_sessionKey = Some (js_trim (tr_ownerKey task)),
                     do_requesterOrigin = Option.bind (taskOrigin p task) (te_normOrigin env), do_flowId = None\<rparr>), p))"

definition resolveTaskTerminalIdempotencyKey :: "task_env \<Rightarrow> task_record \<Rightarrow> string process_call" where
  "resolveTaskTerminalIdempotencyKey env task = andThen (resolveTaskDeliveryOwner env task) (\<lambda>owner.
     answer (case do_flowId owner of
               Some flowId \<Rightarrow>
                 if flowId \<noteq> []
                 then ''flow-terminal:'' @ flowId @ '':'' @ tr_taskId task @ '':'' @ taskStatusText (tr_status task) @ '':'' @ outcomeText task
                 else taskTerminalDeliveryIdempotencyKey task
             | None \<Rightarrow> taskTerminalDeliveryIdempotencyKey task))"

definition originProperty :: "string \<Rightarrow> js_value option \<Rightarrow> js_value" where
  "originProperty name origin =
     (case origin of Some (JObj props) \<Rightarrow> nullish (map_of props name) JUndefined | _ \<Rightarrow> JUndefined)"

definition originText :: "string \<Rightarrow> js_value option \<Rightarrow> string option" where
  "originText name origin = (case originProperty name origin of JStr s \<Rightarrow> Some s | _ \<Rightarrow> None)"

definition canDeliverToRequesterOrigin :: "delivery_world \<Rightarrow> js_value option \<Rightarrow> bool" where
  "canDeliverToRequesterOrigin w origin =
     (case (nonBlank (originText ''channel'' origin), nonBlank (originText ''to'' origin)) of
        (Some channel, Some _) \<Rightarrow> dw_deliverable w channel
      | _ \<Rightarrow> False)"

definition canDeliverTaskToRequesterOrigin :: "delivery_world \<Rightarrow> task_env \<Rightarrow> task_record \<Rightarrow> bool process_call" where
  "canDeliverTaskToRequesterOrigin w env task = andThen (resolveTaskDeliveryOwner env task) (\<lambda>owner.
     answer (if dw_routesThroughSession w (do_sessionKey owner) then False
             else canDeliverToRequesterOrigin w (do_requesterOrigin owner)))"

definition threadIdText :: "js_value option \<Rightarrow> string" where
  "threadIdText origin =
     (case originProperty ''threadId'' origin of JStr s \<Rightarrow> js_trim s | JNum n \<Rightarrow> string_of_int n | _ \<Rightarrow> [])"

definition canDeliverParentReviewTaskToThreadOrigin :: "delivery_world \<Rightarrow> task_env \<Rightarrow> task_record \<Rightarrow> bool process_call" where
  "canDeliverParentReviewTaskToThreadOrigin w env task =
     (if \<not> shouldUseParentReviewTaskTerminalMessage task then answer False
      else andThen (resolveTaskDeliveryOwner env task) (\<lambda>owner.
        let origin = do_requesterOrigin owner
        in answer (threadIdText origin \<noteq> [] \<and> dw_threads w (originText ''channel'' origin) \<and> canDeliverToRequesterOrigin w origin)))"

definition resolveMissingOwnerDeliveryStatus :: "task_record \<Rightarrow> delivery_status" where
  "resolveMissingOwnerDeliveryStatus task = (if tr_scopeKind task = SystemScope then NotApplicable else ParentMissing)"

subsection \<open>System events\<close>

text \<open>Enqueueing a system event throws when \<open>dw_queues\<close> is false; the error has no further use.\<close>

definition queueSystemEvent ::
  "delivery_world \<Rightarrow> task_env \<Rightarrow> task_record \<Rightarrow> string \<Rightarrow> string \<Rightarrow> string \<Rightarrow> bool process_call" where
  "queueSystemEvent w env task contextKey source content = andThen (resolveTaskDeliveryOwner env task) (\<lambda>owner p.
     case nonBlank (do_sessionKey owner) of
       None \<Rightarrow> (Inr False, p)
     | Some ownerKey \<Rightarrow>
         if \<not> dw_queues w then (Inl SystemEventError, p)
         else (Inr True, emit [SystemEvent ownerKey contextKey content (do_requesterOrigin owner), HeartbeatWake source ownerKey] p))"

definition queueTaskSystemEvent :: "delivery_world \<Rightarrow> task_env \<Rightarrow> task_record \<Rightarrow> string \<Rightarrow> bool process_call" where
  "queueTaskSystemEvent w env task content =
     queueSystemEvent w env task (''task:'' @ tr_taskId task) ''background-task'' content"

definition queueBlockedTaskFollowup :: "delivery_world \<Rightarrow> task_env \<Rightarrow> task_record \<Rightarrow> bool process_call" where
  "queueBlockedTaskFollowup w env task =
     (case formatTaskBlockedFollowupMessage w task of
        None \<Rightarrow> answer False
      | Some followupText \<Rightarrow>
          queueSystemEvent w env task (''task:'' @ tr_taskId task @ '':blocked-followup'') ''background-task-blocked'' followupText)"

definition queueTerminalEvents :: "delivery_world \<Rightarrow> task_env \<Rightarrow> task_record \<Rightarrow> string \<Rightarrow> bool process_call" where
  "queueTerminalEvents w env task content = andThen (queueTaskSystemEvent w env task content) (\<lambda>_.
     if tr_terminalOutcome task = Some OutcomeBlocked then queueBlockedTaskFollowup w env task else answer True)"

subsection \<open>Terminal updates\<close>

definition deliveryPatch :: "task_env \<Rightarrow> delivery_status \<Rightarrow> task_patch" where
  "deliveryPatch env status = noPatch\<lparr>up_deliveryStatus := Some status, up_lastEventAt := Some (te_now env)\<rparr>"

definition setDeliveryStatus :: "task_env \<Rightarrow> string \<Rightarrow> delivery_status \<Rightarrow> task_record option process_call" where
  "setDeliveryStatus env taskId status = lift (updateTask env taskId (deliveryPatch env status))"

definition endDelivery :: "string \<Rightarrow> task_process \<Rightarrow> task_process" where
  "endDelivery taskId p =
     p\<lparr>tp_registry := (tp_registry p)\<lparr>tg_pendingDelivery := removeAll taskId (tg_pendingDelivery (tp_registry p))\<rparr>\<rparr>"

definition sessionEventText :: "delivery_world \<Rightarrow> task_record \<Rightarrow> string" where
  "sessionEventText w task = formatTaskTerminalMessage w (shouldUseParentReviewTaskTerminalMessage task) task"

text \<open>The \<open>catch\<close> branch after a direct delivery failed.\<close>

definition fallbackDelivery :: "delivery_world \<Rightarrow> task_env \<Rightarrow> string \<Rightarrow> string \<Rightarrow> task_process \<Rightarrow> task_process" where
  "fallbackDelivery w env taskId sessionText p =
     endDelivery taskId
       (case map_of (tg_tasks (tp_registry p)) taskId of
          None \<Rightarrow> p
        | Some task \<Rightarrow>
            if \<not> shouldAutoDeliverTaskTerminalUpdate task then p
            else snd (setDeliveryStatus env taskId DeliveryFailed
                   (snd (queueTerminalEvents w env task sessionText p))))"

definition terminalPeers :: "task_registry \<Rightarrow> task_record \<Rightarrow> task_record list" where
  "terminalPeers st latest =
     (case tr_runId latest of
        None \<Rightarrow> []
      | Some runId \<Rightarrow> if runId = [] then [] else getPeerTasksForDelivery st latest)"

definition suppressesDuplicate :: "task_registry \<Rightarrow> task_record \<Rightarrow> bool" where
  "suppressesDuplicate st latest =
     (let peers = terminalPeers st latest;
          isSubagentCancellation = tr_runtime latest = SubagentTask \<and> tr_status latest = TaskCancelled;
          preferred = pickPreferredRunIdTask
            (if isSubagentCancellation then filter shouldAutoDeliverTaskTerminalUpdate peers else peers);
          peerDeliveryCovered = isSubagentCancellation
            \<and> list_ex (\<lambda>candidate. tr_taskId candidate \<noteq> tr_taskId latest
                 \<and> (tr_deliveryStatus candidate = Delivered \<or> tr_deliveryStatus candidate = SessionQueued)) peers
      in shouldSuppressDuplicateTerminalDelivery latest (map_option tr_taskId preferred) peerDeliveryCovered)"

text \<open>The part up to the first \<open>await\<close>. It answers whether the delivery goes on with the messaging runtime.\<close>

definition startTerminalDelivery :: "delivery_world \<Rightarrow> task_env \<Rightarrow> string \<Rightarrow> task_record \<Rightarrow> bool process_call" where
  "startTerminalDelivery w env taskId latest p =
     (if suppressesDuplicate (tp_registry p) latest
      then andThen (setDeliveryStatus env taskId NotApplicable) (\<lambda>_. answer False) p
      else andThen (resolveTaskDeliveryOwner env latest) (\<lambda>owner.
        if nonBlank (do_sessionKey owner) = None
        then andThen (setDeliveryStatus env taskId (resolveMissingOwnerDeliveryStatus latest)) (\<lambda>_. answer False)
        else andThen (canDeliverParentReviewTaskToThreadOrigin w env latest) (\<lambda>parentReviewDirect.
          andThen (canDeliverTaskToRequesterOrigin w env latest) (\<lambda>canDeliverTask.
            let shouldRouteParentReview = shouldUseParentReviewTaskTerminalMessage latest;
                canDeliverDirect = canDeliverTask \<or> parentReviewDirect
            in if (shouldRouteParentReview \<and> \<not> parentReviewDirect) \<or> \<not> canDeliverDirect
               then andThen (otherwise
                 (andThen (queueTerminalEvents w env latest (sessionEventText w latest)) (\<lambda>_.
                   setDeliveryStatus env taskId (if shouldRouteParentReview \<and> canDeliverDirect then DeliveryPending else SessionQueued)))
                 (setDeliveryStatus env taskId DeliveryFailed)) (\<lambda>_. answer False)
               else (\<lambda>p1. (Inr True, suspend (TerminalAwaitsRuntime taskId latest owner
                 (if parentReviewDirect then sessionEventText w latest else formatTaskTerminalMessage w False latest)
                 (sessionEventText w latest)) p1))))) p)"

definition maybeDeliverTaskTerminalUpdateUnderAdmission :: "delivery_world \<Rightarrow> task_env \<Rightarrow> string \<Rightarrow> task_process \<Rightarrow> task_process" where
  "maybeDeliverTaskTerminalUpdateUnderAdmission w env taskId p =
     (case lift (ensureTaskRegistryReady env) p of
        (Inl e, p1) \<Rightarrow> p1
      | (Inr (), p1) \<Rightarrow>
          (case map_of (tg_tasks (tp_registry p1)) taskId of
             None \<Rightarrow> p1
           | Some latest \<Rightarrow>
               if \<not> shouldAutoDeliverTaskTerminalUpdate latest then p1
               else if taskId \<in> set (tg_pendingDelivery (tp_registry p1)) then p1
               else
                 let p2 = p1\<lparr>tp_registry := (tp_registry p1)\<lparr>tg_pendingDelivery := tg_pendingDelivery (tp_registry p1) @ [taskId]\<rparr>\<rparr>
                 in case startTerminalDelivery w env taskId latest p2 of
                      (Inr True, p3) \<Rightarrow> p3
                    | (_, p3) \<Rightarrow> endDelivery taskId p3))"

definition underAdmission ::
  "delivery_world \<Rightarrow> task_env \<Rightarrow> delivery_run \<Rightarrow> (task_process \<Rightarrow> task_process) \<Rightarrow> task_process \<Rightarrow> task_process" where
  "underAdmission w env waiting deliver p =
     (case lift (ensureTaskRegistryReady env) p of
        (Inl e, p1) \<Rightarrow> p1
      | (Inr (), p1) \<Rightarrow>
          (case dw_gate w of AdmitNow \<Rightarrow> deliver p1 | AdmitLater \<Rightarrow> suspend waiting p1 | AdmitRefused \<Rightarrow> p1))"

definition maybeDeliverTaskTerminalUpdate :: "delivery_world \<Rightarrow> task_env \<Rightarrow> string \<Rightarrow> task_process \<Rightarrow> task_process" where
  "maybeDeliverTaskTerminalUpdate w env taskId =
     underAdmission w env (TerminalAwaitsAdmission taskId) (maybeDeliverTaskTerminalUpdateUnderAdmission w env taskId)"

definition terminalMessage :: "task_env \<Rightarrow> task_record \<Rightarrow> delivery_owner \<Rightarrow> string \<Rightarrow> task_message process_call" where
  "terminalMessage env latest owner content = andThen (resolveTaskTerminalIdempotencyKey env latest) (\<lambda>key.
     answer \<lparr>ms_origin = do_requesterOrigin owner, ms_content = content,
       ms_agentId = map_option pk_agentId (parseAgentSessionKey (nonBlank (do_sessionKey owner))),
       ms_idempotencyKey = key, ms_sessionKey = nullish (nonBlank (do_sessionKey owner)) []\<rparr>)"

definition terminalRuntimeLoaded ::
  "delivery_world \<Rightarrow> task_env \<Rightarrow> string \<Rightarrow> task_record \<Rightarrow> delivery_owner \<Rightarrow> string \<Rightarrow> string \<Rightarrow> task_process \<Rightarrow> task_process" where
  "terminalRuntimeLoaded w env taskId latest owner content sessionText p =
     (if \<not> dw_runtimeLoads w then fallbackDelivery w env taskId sessionText p
      else
        case map_of (tg_tasks (tp_registry p)) taskId of
          None \<Rightarrow> endDelivery taskId p
        | Some task \<Rightarrow>
            if \<not> shouldAutoDeliverTaskTerminalUpdate task then endDelivery taskId p
            else
              case terminalMessage env latest owner content p of
                (Inl e, p1) \<Rightarrow> fallbackDelivery w env taskId sessionText p1
              | (Inr message, p1) \<Rightarrow> suspend (TerminalAwaitsSend taskId sessionText) (emit [MessageSent message] p1))"

definition terminalSendAnswered :: "delivery_world \<Rightarrow> task_env \<Rightarrow> string \<Rightarrow> string \<Rightarrow> task_process \<Rightarrow> task_process" where
  "terminalSendAnswered w env taskId sessionText p =
     (if \<not> dw_sends w then fallbackDelivery w env taskId sessionText p
      else
        case map_of (tg_tasks (tp_registry p)) taskId of
          None \<Rightarrow> endDelivery taskId p
        | Some task \<Rightarrow>
            if \<not> shouldAutoDeliverTaskTerminalUpdate task then endDelivery taskId p
            else
              case andThen (if tr_terminalOutcome task = Some OutcomeBlocked then queueBlockedTaskFollowup w env task else answer True)
                     (\<lambda>_. setDeliveryStatus env taskId Delivered) p of
                (Inl e, p1) \<Rightarrow> fallbackDelivery w env taskId sessionText p1
              | (Inr _, p1) \<Rightarrow> endDelivery taskId p1)"

subsection \<open>State changes\<close>

definition noteNotified :: "task_env \<Rightarrow> string \<Rightarrow> js_value option \<Rightarrow> int \<Rightarrow> task_process \<Rightarrow> task_process" where
  "noteNotified env taskId origin at p =
     (let st = snd (upsertTaskDeliveryState env
            \<lparr>td_taskId = taskId, td_requesterOrigin = origin, td_lastNotifiedEventAt = Some at\<rparr> (tp_registry p));
          p1 = p\<lparr>tp_registry := st\<rparr>
      in snd (lift (updateTask env taskId (noPatch\<lparr>up_lastEventAt := Some (te_now env)\<rparr>)) p1))"

definition startChangeDelivery ::
  "delivery_world \<Rightarrow> task_env \<Rightarrow> string \<Rightarrow> task_record \<Rightarrow> task_event \<Rightarrow> string \<Rightarrow> js_value option \<Rightarrow> task_process \<Rightarrow> task_process" where
  "startChangeDelivery w env taskId current event eventText origin p =
     (case resolveTaskDeliveryOwner env current p of
        (Inl e, p1) \<Rightarrow> p1
      | (Inr owner, p1) \<Rightarrow>
          if nonBlank (do_sessionKey owner) = None
          then snd (setDeliveryStatus env taskId (resolveMissingOwnerDeliveryStatus current) p1)
          else
            (case canDeliverTaskToRequesterOrigin w env current p1 of
               (Inl e, p2) \<Rightarrow> p2
             | (Inr True, p2) \<Rightarrow> suspend (ChangeAwaitsRuntime taskId current event eventText owner origin) p2
             | (Inr False, p2) \<Rightarrow>
                 (case queueTaskSystemEvent w env current eventText p2 of
                    (Inl e, p3) \<Rightarrow> p3
                  | (Inr _, p3) \<Rightarrow> noteNotified env taskId origin (ev_at event) p3)))"

definition maybeDeliverTaskStateChangeUpdateUnderAdmission ::
  "delivery_world \<Rightarrow> task_env \<Rightarrow> string \<Rightarrow> task_event option \<Rightarrow> task_process \<Rightarrow> task_process" where
  "maybeDeliverTaskStateChangeUpdateUnderAdmission w env taskId latestEvent p =
     (case lift (ensureTaskRegistryReady env) p of
        (Inl e, p1) \<Rightarrow> p1
      | (Inr (), p1) \<Rightarrow>
          (case map_of (tg_tasks (tp_registry p1)) taskId of
             None \<Rightarrow> p1
           | Some current \<Rightarrow>
               if \<not> shouldAutoDeliverTaskStateChange current then p1
               else
                 let deliveryState = getTaskDeliveryState (tp_registry p1) taskId
                 in case latestEvent of
                      None \<Rightarrow> p1
                    | Some event \<Rightarrow>
                        if nullish (Option.bind deliveryState td_lastNotifiedEventAt) 0 \<ge> ev_at event then p1
                        else
                          (case formatTaskStateChangeMessage w current event of
                             None \<Rightarrow> p1
                           | Some eventText \<Rightarrow>
                               startChangeDelivery w env taskId current event eventText
                                 (Option.bind deliveryState td_requesterOrigin) p1)))"

definition maybeDeliverTaskStateChangeUpdate ::
  "delivery_world \<Rightarrow> task_env \<Rightarrow> string \<Rightarrow> task_event option \<Rightarrow> task_process \<Rightarrow> task_process" where
  "maybeDeliverTaskStateChangeUpdate w env taskId latestEvent =
     underAdmission w env (ChangeAwaitsAdmission taskId latestEvent)
       (maybeDeliverTaskStateChangeUpdateUnderAdmission w env taskId latestEvent)"

definition changeRuntimeLoaded ::
  "delivery_world \<Rightarrow> task_env \<Rightarrow> string \<Rightarrow> task_record \<Rightarrow> task_event \<Rightarrow> string \<Rightarrow> delivery_owner \<Rightarrow> js_value option \<Rightarrow>
   task_process \<Rightarrow> task_process" where
  "changeRuntimeLoaded w env taskId current event eventText owner origin p =
     (if \<not> dw_runtimeLoads w then p
      else suspend (ChangeAwaitsSend taskId event origin)
        (emit [MessageSent \<lparr>ms_origin = do_requesterOrigin owner,
           ms_content = eventText,
           ms_agentId = map_option pk_agentId (parseAgentSessionKey (nonBlank (do_sessionKey owner))),
           ms_idempotencyKey = resolveTaskStateChangeIdempotencyKey current event owner,
           ms_sessionKey = nullish (nonBlank (do_sessionKey owner)) []\<rparr>] p))"

definition changeSendAnswered ::
  "delivery_world \<Rightarrow> task_env \<Rightarrow> string \<Rightarrow> task_event \<Rightarrow> js_value option \<Rightarrow> task_process \<Rightarrow> task_process" where
  "changeSendAnswered w env taskId event origin p =
     (if dw_sends w then noteNotified env taskId origin (ev_at event) p else p)"

subsection \<open>Resuming a run\<close>

definition resumeRun :: "delivery_world \<Rightarrow> task_env \<Rightarrow> delivery_run \<Rightarrow> task_process \<Rightarrow> task_process" where
  "resumeRun w env run p =
     (case run of
        TerminalAwaitsAdmission taskId \<Rightarrow>
          (case dw_gate w of
             AdmitNow \<Rightarrow> maybeDeliverTaskTerminalUpdateUnderAdmission w env taskId p
           | AdmitLater \<Rightarrow> suspend run p
           | AdmitRefused \<Rightarrow> p)
      | ChangeAwaitsAdmission taskId latestEvent \<Rightarrow>
          (case dw_gate w of
             AdmitNow \<Rightarrow> maybeDeliverTaskStateChangeUpdateUnderAdmission w env taskId latestEvent p
           | AdmitLater \<Rightarrow> suspend run p
           | AdmitRefused \<Rightarrow> p)
      | TerminalAwaitsRuntime taskId latest owner content sessionText \<Rightarrow>
          terminalRuntimeLoaded w env taskId latest owner content sessionText p
      | TerminalAwaitsSend taskId sessionText \<Rightarrow> terminalSendAnswered w env taskId sessionText p
      | ChangeAwaitsRuntime taskId current event eventText owner origin \<Rightarrow>
          changeRuntimeLoaded w env taskId current event eventText owner origin p
      | ChangeAwaitsSend taskId event origin \<Rightarrow> changeSendAnswered w env taskId event origin p)"

definition resumeNth :: "delivery_world \<Rightarrow> task_env \<Rightarrow> nat \<Rightarrow> task_process \<Rightarrow> task_process" where
  "resumeNth w env i p =
     (if i < length (tp_runs p)
      then resumeRun w env (tp_runs p ! i) (p\<lparr>tp_runs := take i (tp_runs p) @ drop (Suc i) (tp_runs p)\<rparr>) else p)"

end
