(* ===== verification/Task_Record_Api.thy ===== *)
theory Task_Record_Api
  imports Task_Delivery
begin

text \<open>
  The operations that callers use to create tasks and to report on them: \<open>src/tasks/task-registry-record-api.ts\<close> and
  \<open>task-registry-create-helpers.ts\<close>. An argument that may be absent, \<open>null\<close> or a value is an option of an option.
\<close>

subsection \<open>Links to flows\<close>

definition flowLinkError :: "string \<Rightarrow> string \<Rightarrow> task_flow option \<Rightarrow> task_error option" where
  "flowLinkError ownerKey flowId flow =
     (case flow of
        None \<Rightarrow> Some (LinkFlowNotFound flowId)
      | Some f \<Rightarrow>
          if optionalString (Some (tf_ownerKey f)) \<noteq> optionalString (Some ownerKey) then Some (LinkOwnerMismatch flowId)
          else if tf_cancelRequestedAt f \<noteq> None then Some (LinkCancelRequested flowId (tf_status f))
          else if isTerminalFlowStatus (tf_status f) then Some (LinkTerminal flowId (tf_status f))
          else None)"

definition assertParentFlowLinkAllowed :: "task_env \<Rightarrow> string \<Rightarrow> scope_kind \<Rightarrow> string option \<Rightarrow> unit process_call" where
  "assertParentFlowLinkAllowed env ownerKey scopeKind parentFlowId =
     (case nonBlank parentFlowId of
        None \<Rightarrow> answer ()
      | Some flowId \<Rightarrow>
          if scopeKind \<noteq> SessionScope then (\<lambda>p. (Inl (LinkNotSession flowId), p))
          else andThen (lift (flowById env flowId)) (\<lambda>flow p.
            case flowLinkError ownerKey flowId flow of Some e \<Rightarrow> (Inl e, p) | None \<Rightarrow> (Inr (), p)))"

subsection \<open>Updates of one task\<close>

definition updateById :: "task_env \<Rightarrow> string \<Rightarrow> task_patch \<Rightarrow> task_record option process_call" where
  "updateById env taskId patch = lift (whenTasksReady env (updateTask env taskId patch))"

definition setTaskCleanupAfterById :: "task_env \<Rightarrow> string \<Rightarrow> int \<Rightarrow> task_record option process_call" where
  "setTaskCleanupAfterById env taskId cleanupAfter = updateById env taskId (noPatch\<lparr>up_cleanupAfter := Some cleanupAfter\<rparr>)"

definition trimmedOrUndefined :: "string option \<Rightarrow> string option" where
  "trimmedOrUndefined s = nonBlank s"

definition summaryPatch :: "bool \<Rightarrow> string option option \<Rightarrow> string option option" where
  "summaryPatch preserve terminalSummary = map_option (if preserve then id else normalizeTaskSummary) terminalSummary"

definition markTaskTerminalById ::
  "task_env \<Rightarrow> string \<Rightarrow> task_status \<Rightarrow> string option option \<Rightarrow> int \<Rightarrow> int option \<Rightarrow> string option option \<Rightarrow>
   string option option \<Rightarrow> bool \<Rightarrow> terminal_outcome option option \<Rightarrow> js_value option \<Rightarrow> task_record option process_call" where
  "markTaskTerminalById env taskId status childSessionKey endedAt lastEventAt error terminalSummary preserve terminalOutcome detail =
     updateById env taskId (noPatch\<lparr>up_status := Some status,
       up_childSessionKey := map_option trimmedOrUndefined childSessionKey,
       up_endedAt := Some endedAt, up_lastEventAt := Some (nullish lastEventAt endedAt),
       up_terminalSummary := summaryPatch preserve terminalSummary,
       up_terminalOutcome := map_option (resolveTaskTerminalOutcome status) terminalOutcome,
       up_detail := detail, up_error := error\<rparr>)"

definition markTaskLostById ::
  "task_env \<Rightarrow> string \<Rightarrow> int \<Rightarrow> int option \<Rightarrow> string option \<Rightarrow> int option \<Rightarrow> task_record option process_call" where
  "markTaskLostById env taskId endedAt lastEventAt error cleanupAfter =
     updateById env taskId (noPatch\<lparr>up_status := Some TaskLost, up_endedAt := Some endedAt,
       up_lastEventAt := Some (nullish lastEventAt endedAt), up_error := map_option Some error,
       up_cleanupAfter := cleanupAfter\<rparr>)"

definition updateTaskNotifyPolicyById :: "task_env \<Rightarrow> string \<Rightarrow> notify_policy \<Rightarrow> task_record option process_call" where
  "updateTaskNotifyPolicyById env taskId notifyPolicy =
     updateById env taskId (noPatch\<lparr>up_notifyPolicy := Some notifyPolicy, up_lastEventAt := Some (te_now env)\<rparr>)"

definition linkTaskToFlowById :: "task_env \<Rightarrow> string \<Rightarrow> string \<Rightarrow> task_record option process_call" where
  "linkTaskToFlowById env taskId flowIdText = andThen (lift (ensureTaskRegistryReady env)) (\<lambda>_ p.
     let flowId = js_trim flowIdText
     in if flowId = [] then (Inr None, p)
        else case map_of (tg_tasks (tp_registry p)) taskId of
               None \<Rightarrow> (Inr None, p)
             | Some current \<Rightarrow>
                 if nonBlank (tr_parentFlowId current) \<noteq> None then (Inr (Some current), p)
                 else andThen (assertParentFlowLinkAllowed env (tr_ownerKey current) (tr_scopeKind current) (Some flowId))
                        (\<lambda>_. lift (updateTask env taskId (noPatch\<lparr>up_parentFlowId := Some flowId\<rparr>))) p)"

subsection \<open>Creating a task\<close>

record task_params =
  pa_runtime :: task_runtime
  pa_taskKind :: "string option"
  pa_sourceId :: "string option"
  pa_requesterSessionKey :: "string option"
  pa_ownerKey :: "string option"
  pa_scopeKind :: "scope_kind option"
  pa_requesterOrigin :: "js_value option"
  pa_childSessionKey :: "string option"
  pa_parentFlowId :: "string option"
  pa_parentTaskId :: "string option"
  pa_agentId :: "string option"
  pa_requesterAgentId :: "string option"
  pa_runId :: "string option"
  pa_label :: "string option"
  pa_task :: string
  pa_preferMetadata :: bool
  pa_status :: "task_status option"
  pa_deliveryStatus :: "delivery_status option"
  pa_notifyPolicy :: "notify_policy option"
  pa_startedAt :: "int option"
  pa_lastEventAt :: "int option"
  pa_cleanupAfter :: "int option"
  pa_progressSummary :: "string option"
  pa_terminalSummary :: "string option"
  pa_terminalOutcome :: "terminal_outcome option"
  pa_detail :: "js_value option"

definition sameText :: "string option \<Rightarrow> string option \<Rightarrow> bool" where
  "sameText a b \<longleftrightarrow> nullish (optionalString a) [] = nullish (optionalString b) []"

definition runScopeMatch :: "task_params \<Rightarrow> string \<Rightarrow> scope_kind \<Rightarrow> task_record \<Rightarrow> bool" where
  "runScopeMatch params ownerKey scopeKind task \<longleftrightarrow>
     tr_runtime task = pa_runtime params \<and> tr_scopeKind task = scopeKind \<and> sameText (Some (tr_ownerKey task)) (Some ownerKey)
     \<and> sameText (tr_childSessionKey task) (pa_childSessionKey params)
     \<and> (pa_runtime params = AcpTask \<or> sameText (tr_parentFlowId task) (pa_parentFlowId params))"

definition findExistingTaskForCreate :: "task_registry \<Rightarrow> task_params \<Rightarrow> string \<Rightarrow> scope_kind \<Rightarrow> task_record option" where
  "findExistingTaskForCreate st params ownerKey scopeKind =
     (case nonBlank (pa_runId params) of
        None \<Rightarrow> None
      | Some runId \<Rightarrow>
          let runScopeMatches = filter (runScopeMatch params ownerKey scopeKind) (getTasksByRunId st runId)
          in case find (\<lambda>task. sameText (tr_label task) (pa_label params) \<and> sameText (Some (tr_task task)) (Some (pa_task params)))
                    runScopeMatches of
               Some exact \<Rightarrow> Some exact
             | None \<Rightarrow> if pa_runtime params \<noteq> AcpTask then None else pickPreferredRunIdTask runScopeMatches)"

text \<open>A blank property of an existing task takes the trimmed value of the parameters.\<close>

definition fillBlank :: "string option \<Rightarrow> string option \<Rightarrow> string option" where
  "fillBlank existing given = (if nonBlank given \<noteq> None \<and> nonBlank existing = None then nonBlank given else None)"

definition mergePatch :: "task_record \<Rightarrow> task_params \<Rightarrow> string option \<Rightarrow> task_patch" where
  "mergePatch existing params agentId =
     (let nextLabel = nonBlank (pa_label params);
          notifyPolicy = ensureTaskNotifyPolicy (pa_notifyPolicy params) (pa_deliveryStatus params) (tr_ownerKey existing) (tr_scopeKind existing)
      in noPatch\<lparr>up_sourceId := fillBlank (tr_sourceId existing) (pa_sourceId params),
           up_taskKind := fillBlank (tr_taskKind existing) (pa_taskKind params),
           up_parentFlowId := fillBlank (tr_parentFlowId existing) (pa_parentFlowId params),
           up_parentTaskId := fillBlank (tr_parentTaskId existing) (pa_parentTaskId params),
           up_agentId := fillBlank (tr_agentId existing) agentId,
           up_requesterAgentId := fillBlank (tr_requesterAgentId existing) (pa_requesterAgentId params),
           up_label :=
             (if pa_preferMetadata params
              then (if nextLabel \<noteq> None \<and> nullish (optionalString (tr_label existing)) [] \<noteq> nullish nextLabel [] then nextLabel else None)
              else fillBlank (tr_label existing) (pa_label params)),
           up_task :=
             (if pa_preferMetadata params \<and> js_trim (pa_task params) \<noteq> []
                 \<and> nullish (optionalString (Some (tr_task existing))) [] \<noteq> js_trim (pa_task params)
              then Some (js_trim (pa_task params)) else None),
           up_deliveryStatus :=
             (if pa_deliveryStatus params = Some DeliveryPending \<and> tr_deliveryStatus existing \<noteq> Delivered
              then Some DeliveryPending else None),
           up_notifyPolicy :=
             (if notifyPolicy \<noteq> tr_notifyPolicy existing \<and> tr_notifyPolicy existing = NotifySilent then Some notifyPolicy else None),
           up_detail := pa_detail params\<rparr>)"

text \<open>The origin of the requester is stored when the task has none; a refused write ends the merge.\<close>

definition mergeOrigin :: "task_env \<Rightarrow> task_record \<Rightarrow> js_value option \<Rightarrow> task_process \<Rightarrow> bool \<times> task_process" where
  "mergeOrigin env existing origin p =
     (let requesterOrigin = Option.bind origin (te_normOrigin env);
          currentDeliveryState = map_of (tg_deliveryStates (tp_registry p)) (tr_taskId existing)
      in if requesterOrigin \<noteq> None \<and> Option.bind currentDeliveryState td_requesterOrigin = None
         then case upsertTaskDeliveryState env \<lparr>td_taskId = tr_taskId existing, td_requesterOrigin = requesterOrigin,
                     td_lastNotifiedEventAt = Option.bind currentDeliveryState td_lastNotifiedEventAt\<rparr> (tp_registry p) of
                (deliveryState, st) \<Rightarrow> (td_requesterOrigin deliveryState \<noteq> None, p\<lparr>tp_registry := st\<rparr>)
         else (True, p))"

definition mergeExistingTaskForCreate ::
  "task_env \<Rightarrow> task_record \<Rightarrow> task_params \<Rightarrow> string option \<Rightarrow> task_record option process_call" where
  "mergeExistingTaskForCreate env existing params agentId =
     andThen (lift (ensureLinkedTaskFlowRegistryReady env existing)) (\<lambda>_ p.
       case mergeOrigin env existing (pa_requesterOrigin params) p of
         (False, p1) \<Rightarrow> (Inr None, p1)
       | (True, p1) \<Rightarrow>
           andThen (if fillBlank (tr_parentFlowId existing) (pa_parentFlowId params) \<noteq> None
                    then assertParentFlowLinkAllowed env (tr_ownerKey existing) (tr_scopeKind existing) (pa_parentFlowId params)
                    else answer ())
             (\<lambda>_. if mergePatch existing params agentId = noPatch then answer (Some existing)
                  else lift (updateTask env (tr_taskId existing) (mergePatch existing params agentId))) p1)"

definition buildTaskRecord ::
  "task_env \<Rightarrow> string \<Rightarrow> task_params \<Rightarrow> string \<Rightarrow> string \<Rightarrow> scope_kind \<Rightarrow> string option \<Rightarrow> string option \<Rightarrow> task_record" where
  "buildTaskRecord env taskId params requesterSessionKey ownerKey scopeKind agentId requesterAgentId =
     (let now = te_now env;
          status = normalizeTaskStatus (pa_status params);
          deliveryStatus = nullish (pa_deliveryStatus params) (ensureDeliveryStatus ownerKey scopeKind);
          notifyPolicy = ensureTaskNotifyPolicy (pa_notifyPolicy params) (Some deliveryStatus) ownerKey scopeKind;
          lastEventAt = nullish (pa_lastEventAt params) (nullish (pa_startedAt params) now)
      in withCleanupAfter (normalizeTaskTimestamps
           \<lparr>tr_taskId = taskId, tr_runtime = pa_runtime params, tr_taskKind = optionalString (pa_taskKind params),
            tr_sourceId = optionalString (pa_sourceId params), tr_requesterSessionKey = requesterSessionKey,
            tr_ownerKey = ownerKey, tr_scopeKind = scopeKind, tr_childSessionKey = pa_childSessionKey params,
            tr_parentFlowId = optionalString (pa_parentFlowId params), tr_parentTaskId = optionalString (pa_parentTaskId params),
            tr_agentId = agentId, tr_requesterAgentId = requesterAgentId, tr_runId = optionalString (pa_runId params),
            tr_label = optionalString (pa_label params), tr_task = pa_task params, tr_status = status,
            tr_deliveryStatus = deliveryStatus, tr_notifyPolicy = notifyPolicy, tr_createdAt = now,
            tr_startedAt = pa_startedAt params, tr_endedAt = None, tr_lastEventAt = Some lastEventAt,
            tr_cleanupAfter = pa_cleanupAfter params, tr_toolUseCount = None, tr_lastToolName = None, tr_error = None,
            tr_progressSummary = normalizeTaskSummary (pa_progressSummary params),
            tr_terminalSummary = normalizeTaskSummary (pa_terminalSummary params),
            tr_terminalOutcome = resolveTaskTerminalOutcome status (pa_terminalOutcome params), tr_detail = pa_detail params\<rparr>))"

definition insertTask :: "string \<Rightarrow> task_record \<Rightarrow> task_delivery option \<Rightarrow> task_registry \<Rightarrow> task_registry" where
  "insertTask taskId task deliveryState st =
     st\<lparr>tg_tasks := AList.update taskId task (tg_tasks st),
        tg_deliveryStates :=
          (case deliveryState of None \<Rightarrow> tg_deliveryStates st | Some d \<Rightarrow> AList.update taskId d (tg_deliveryStates st)),
        tg_byRunId := addRunIdIndex taskId (tr_runId task) (tg_byRunId st),
        tg_byOwnerKey := addOwnerKeyIndex taskId task (tg_byOwnerKey st),
        tg_byParentFlowId := addParentFlowIdIndex taskId task (tg_byParentFlowId st),
        tg_byRelatedSessionKey := addRelatedSessionKeyIndex taskId task (tg_byRelatedSessionKey st)\<rparr>"

definition storeNewTask :: "delivery_world \<Rightarrow> task_env \<Rightarrow> string \<Rightarrow> task_record \<Rightarrow> js_value option \<Rightarrow> task_record option process_call" where
  "storeNewTask w env taskId task origin p =
     (let requesterOrigin = Option.bind origin (te_normOrigin env);
          deliveryState = map_option (\<lambda>origin1. \<lparr>td_taskId = taskId, td_requesterOrigin = Some origin1, td_lastNotifiedEventAt = None\<rparr>) requesterOrigin
      in case tryPersistTaskUpsert env task deliveryState (tp_registry p) of
           (False, st) \<Rightarrow> (Inr None, p\<lparr>tp_registry := st\<rparr>)
         | (True, st) \<Rightarrow>
             (case syncFlowFromTaskAfterTaskMutation env task (insertTask taskId task deliveryState st) of
                (Inl e, st1) \<Rightarrow> (Inl e, p\<lparr>tp_registry := st1\<rparr>)
              | (Inr (), st1) \<Rightarrow>
                  let p1 = p\<lparr>tp_registry := emitTaskRegistryObserverEvent (TaskUpserted task None) st1\<rparr>
                  in (Inr (Some task),
                      if isTerminalTaskStatus (tr_status task) then maybeDeliverTaskTerminalUpdate w env taskId p1 else p1)))"

definition createTaskRecord :: "delivery_world \<Rightarrow> task_env \<Rightarrow> string \<Rightarrow> task_params \<Rightarrow> task_record option process_call" where
  "createTaskRecord w env taskId params = andThen (lift (ensureTaskRegistryReady env)) (\<lambda>_.
     let requesterSessionKey = resolveTaskRequesterSessionKey (pa_requesterSessionKey params) (pa_ownerKey params) (pa_scopeKind params);
         scopeKind = resolveTaskScopeKind (pa_scopeKind params) requesterSessionKey;
         ownerKey = resolveTaskOwnerKey requesterSessionKey (pa_ownerKey params);
         agentId = resolveTaskAgentId (pa_agentId params) (pa_childSessionKey params) ownerKey requesterSessionKey;
         requesterAgentId = resolveTaskRequesterAgentId (pa_requesterAgentId params) ownerKey requesterSessionKey
     in andThen (\<lambda>p. (assertTaskOwner ownerKey scopeKind, p)) (\<lambda>_.
          andThen (assertParentFlowLinkAllowed env ownerKey scopeKind (pa_parentFlowId params)) (\<lambda>_ p.
            case findExistingTaskForCreate (tp_registry p) params ownerKey scopeKind of
              Some existing \<Rightarrow> mergeExistingTaskForCreate env existing params agentId p
            | None \<Rightarrow>
                storeNewTask w env taskId (buildTaskRecord env taskId params requesterSessionKey ownerKey scopeKind agentId requesterAgentId)
                  (pa_requesterOrigin params) p)))"

subsection \<open>Updates of a run\<close>

record run_update =
  ru_childSessionKey :: "string option option"
  ru_status :: "task_status option"
  ru_startedAt :: "int option"
  ru_endedAt :: "int option"
  ru_lastEventAt :: "int option"
  ru_error :: "string option"
  ru_clearError :: bool
  ru_progressSummary :: "string option option"
  ru_terminalSummary :: "string option option"
  ru_preserveTerminalSummary :: bool
  ru_terminalOutcome :: "terminal_outcome option option"
  ru_detail :: "js_value option"
  ru_eventSummary :: "string option"
  ru_suppressDelivery :: bool

definition noUpdate :: run_update where
  "noUpdate = \<lparr>ru_childSessionKey = None, ru_status = None, ru_startedAt = None, ru_endedAt = None, ru_lastEventAt = None,
     ru_error = None, ru_clearError = False, ru_progressSummary = None, ru_terminalSummary = None,
     ru_preserveTerminalSummary = False, ru_terminalOutcome = None, ru_detail = None, ru_eventSummary = None,
     ru_suppressDelivery = False\<rparr>"

definition runApplies :: "run_update \<Rightarrow> task_record \<Rightarrow> bool" where
  "runApplies u current =
     (case ru_status u of
        None \<Rightarrow> True
      | Some status \<Rightarrow> shouldApplyRunScopedStatusUpdate current status (ru_error u) (ru_endedAt u))"

definition runPatch :: "run_update \<Rightarrow> task_record \<Rightarrow> task_patch" where
  "runPatch u current =
     (let nextStatus = nullish (ru_status u) (tr_status current)
      in noPatch\<lparr>up_status := ru_status u, up_startedAt := ru_startedAt u, up_endedAt := ru_endedAt u,
           up_lastEventAt := ru_lastEventAt u, up_childSessionKey := map_option trimmedOrUndefined (ru_childSessionKey u),
           up_error :=
             (if ru_clearError u then Some None
              else if tr_status current = TaskCancelled \<and> nextStatus \<noteq> TaskCancelled \<and> ru_error u = None then Some None
              else map_option Some (ru_error u)),
           up_progressSummary := map_option normalizeTaskSummary (ru_progressSummary u),
           up_terminalSummary := summaryPatch (ru_preserveTerminalSummary u) (ru_terminalSummary u),
           up_terminalOutcome := map_option (resolveTaskTerminalOutcome nextStatus) (ru_terminalOutcome u),
           up_detail := ru_detail u,
           up_deliveryStatus := (if ru_suppressDelivery u then Some NotApplicable else None)\<rparr>)"

definition runEvent :: "task_env \<Rightarrow> run_update \<Rightarrow> task_record \<Rightarrow> task_event option" where
  "runEvent env u current =
     (let nextStatus = nullish (ru_status u) (tr_status current);
          eventAt = nullish (ru_lastEventAt u) (nullish (ru_endedAt u) (te_now env));
          statusChanges = (case ru_status u of None \<Rightarrow> False | Some s \<Rightarrow> s \<noteq> tr_status current);
          eventSummary = nullish_or (normalizeTaskSummary (ru_eventSummary u))
            (if nextStatus = TaskFailed then normalizeTaskSummary (nullish_or (ru_error u) (tr_error current))
             else if nextStatus = TaskSucceeded
             then normalizeTaskSummary (nullish_or (nullish (ru_terminalSummary u) None) (tr_terminalSummary current))
             else None)
      in if statusChanges \<or> normalizeTaskSummary (ru_eventSummary u) \<noteq> None
         then Some (appendTaskEvent eventAt (if statusChanges then StatusEvent nextStatus else ProgressEvent) eventSummary)
         else None)"

fun updateMatches :: "delivery_world \<Rightarrow> task_env \<Rightarrow> run_update \<Rightarrow> task_record list \<Rightarrow> task_record list process_call" where
  "updateMatches w env u [] p = (Inr [], p)"
| "updateMatches w env u (current # rest) p =
     (if \<not> runApplies u current then updateMatches w env u rest p
      else
        case lift (updateTask env (tr_taskId current) (runPatch u current)) p of
          (Inl e, p1) \<Rightarrow> (Inl e, p1)
        | (Inr None, p1) \<Rightarrow> updateMatches w env u rest p1
        | (Inr (Some task), p1) \<Rightarrow>
            let p2 = (if ru_suppressDelivery u then p1
                      else maybeDeliverTaskTerminalUpdate w env (tr_taskId task)
                             (maybeDeliverTaskStateChangeUpdate w env (tr_taskId task) (runEvent env u current) p1))
            in map_prod (map_sum id (Cons task)) id (updateMatches w env u rest p2))"

definition updateTaskStateByRunId ::
  "delivery_world \<Rightarrow> task_env \<Rightarrow> string \<Rightarrow> task_runtime option \<Rightarrow> string option \<Rightarrow> run_update \<Rightarrow> task_record list process_call" where
  "updateTaskStateByRunId w env runId runtime sessionKey u = andThen (lift (ensureTaskRegistryReady env)) (\<lambda>_ p.
     updateMatches w env u (getTasksByRunScope (tp_registry p) runId runtime sessionKey) p)"

fun patchMatches :: "task_env \<Rightarrow> task_patch \<Rightarrow> task_record list \<Rightarrow> task_record list process_call" where
  "patchMatches env patch [] p = (Inr [], p)"
| "patchMatches env patch (match # rest) p =
     (case lift (updateTask env (tr_taskId match) patch) p of
        (Inl e, p1) \<Rightarrow> (Inl e, p1)
      | (Inr None, p1) \<Rightarrow> patchMatches env patch rest p1
      | (Inr (Some task), p1) \<Rightarrow> map_prod (map_sum id (Cons task)) id (patchMatches env patch rest p1))"

definition updateTasksByRunId ::
  "task_env \<Rightarrow> string \<Rightarrow> task_patch \<Rightarrow> task_runtime option \<Rightarrow> string option \<Rightarrow> task_record list process_call" where
  "updateTasksByRunId env runId patch runtime sessionKey p =
     patchMatches env patch (getTasksByRunScope (tp_registry p) runId runtime sessionKey) p"

definition updateTaskDeliveryByRunId ::
  "task_env \<Rightarrow> string \<Rightarrow> task_runtime option \<Rightarrow> string option \<Rightarrow> delivery_status \<Rightarrow> string option \<Rightarrow> task_record list process_call" where
  "updateTaskDeliveryByRunId env runId runtime sessionKey deliveryStatus error = andThen (lift (ensureTaskRegistryReady env)) (\<lambda>_.
     updateTasksByRunId env runId (noPatch\<lparr>up_deliveryStatus := Some deliveryStatus, up_error := map_option Some error\<rparr>) runtime sessionKey)"

definition setTaskRunDeliveryStatusByRunId where
  "setTaskRunDeliveryStatusByRunId = updateTaskDeliveryByRunId"

definition markTaskRunningByRunId where
  "markTaskRunningByRunId w env runId runtime sessionKey startedAt lastEventAt progressSummary eventSummary =
     updateTaskStateByRunId w env runId runtime sessionKey (noUpdate\<lparr>ru_status := Some TaskRunning, ru_startedAt := startedAt,
       ru_lastEventAt := lastEventAt, ru_progressSummary := progressSummary, ru_eventSummary := eventSummary\<rparr>)"

definition recordTaskProgressByRunId where
  "recordTaskProgressByRunId w env runId runtime sessionKey lastEventAt progressSummary eventSummary =
     updateTaskStateByRunId w env runId runtime sessionKey (noUpdate\<lparr>ru_lastEventAt := lastEventAt,
       ru_progressSummary := progressSummary, ru_eventSummary := eventSummary\<rparr>)"

definition finalizeTaskRunByRunId where
  "finalizeTaskRunByRunId w env runId runtime sessionKey childSessionKey status startedAt endedAt lastEventAt error clearError
     progressSummary terminalSummary preserve terminalOutcome detail suppressDelivery =
     updateTaskStateByRunId w env runId runtime sessionKey (noUpdate\<lparr>ru_childSessionKey := childSessionKey,
       ru_status := Some status, ru_startedAt := startedAt, ru_endedAt := Some endedAt, ru_lastEventAt := lastEventAt,
       ru_error := error, ru_clearError := clearError, ru_progressSummary := progressSummary,
       ru_terminalSummary := terminalSummary, ru_preserveTerminalSummary := preserve, ru_terminalOutcome := terminalOutcome,
       ru_detail := detail, ru_suppressDelivery := suppressDelivery\<rparr>)"

end
