(* ===== verification/Task_Index.thy ===== *)
theory Task_Index
  imports Task_Record_Api
begin

text \<open>
  The key indexes of the registry of tasks against a scan of its records. The contract of an index says which ids it
  lists under a key after a record is added or removed; from it follow, once for all indexes, that the index keeps
  listing exactly the records with the key, and what a query through the index returns.
\<close>

subsection \<open>Ids under a key\<close>

definition holders :: "key_index \<Rightarrow> string \<Rightarrow> string list" where
  "holders index key = nullish (map_of index key) []"

lemma holders_Nil [simp]: "holders [] key = []"
  by (simp add: holders_def)

lemma js_set_add_not_Nil [simp]: "js_set_add xs x \<noteq> []"
  by (auto simp: js_set_add_def)

lemma holders_add:
  "holders (addIndexedKey index key taskId) k = (if k = key then js_set_add (holders index key) taskId else holders index k)"
  by (simp add: holders_def addIndexedKey_def update_conv')

lemma holders_delete:
  "holders (deleteIndexedKey index key taskId) k = (if k = key then removeAll taskId (holders index key) else holders index k)"
  by (cases "map_of index key") (auto simp: holders_def deleteIndexedKey_def Let_def update_conv' delete_conv')

lemma js_set_add_idem: "js_set_add (js_set_add xs x) x = js_set_add xs x"
  by (simp add: js_set_add_def)

lemma holders_add_all:
  "distinct keys \<Longrightarrow>
   holders (foldl (\<lambda>ix key. addIndexedKey ix key taskId) index keys) k
   = (if k \<in> set keys then js_set_add (holders index k) taskId else holders index k)"
  by (induction keys arbitrary: index) (auto simp: holders_add)

lemma holders_delete_all:
  "distinct keys \<Longrightarrow>
   holders (foldl (\<lambda>ix key. deleteIndexedKey ix key taskId) index keys) k
   = (if k \<in> set keys then removeAll taskId (holders index k) else holders index k)"
  by (induction keys arbitrary: index) (auto simp: holders_delete)

lemma set_tasksOfIds: "set (tasksOfIds st ids) = {task. \<exists>taskId \<in> set ids. map_of (tg_tasks st) taskId = Some task}"
proof (induction ids)
  case (Cons taskId ids)
  then show ?case by (cases "map_of (tg_tasks st) taskId") (auto simp: tasksOfIds_def List.map_filter_simps)
qed (simp add: tasksOfIds_def List.map_filter_simps)

subsection \<open>The contract of an index\<close>

locale task_index =
  fixes keysOf :: "task_record \<Rightarrow> string list"
    and add :: "string \<Rightarrow> task_record \<Rightarrow> key_index \<Rightarrow> key_index"
  assumes add_law:
    "holders (add taskId task index) key
     = (if key \<in> set (keysOf task) then js_set_add (holders index key) taskId else holders index key)"
begin

definition tracks :: "(string \<times> task_record) list \<Rightarrow> key_index \<Rightarrow> bool" where
  "tracks tasks index \<longleftrightarrow>
     (\<forall>key. distinct (holders index key)
        \<and> (\<forall>taskId. taskId \<in> set (holders index key) \<longleftrightarrow> (\<exists>task. map_of tasks taskId = Some task \<and> key \<in> set (keysOf task))))"

lemma tracksD:
  "tracks tasks index \<Longrightarrow> distinct (holders index key)"
  "tracks tasks index \<Longrightarrow> taskId \<in> set (holders index key) \<longleftrightarrow> (\<exists>task. map_of tasks taskId = Some task \<and> key \<in> set (keysOf task))"
  by (auto simp: tracks_def)

lemma tracks_empty: "tracks [] []"
  by (simp add: tracks_def)

lemma tracks_cong: "tracks tasks index \<Longrightarrow> map_of tasks' = map_of tasks \<Longrightarrow> tracks tasks' index"
  by (simp add: tracks_def)

lemma tracks_insert:
  assumes "tracks tasks index" "map_of tasks taskId = None"
  shows "tracks (AList.update taskId task tasks) (add taskId task index)"
  using assms unfolding tracks_def by (auto simp: add_law update_conv')

lemma tracks_same_keys:
  assumes "tracks tasks index" "map_of tasks taskId = Some current" "set (keysOf task) = set (keysOf current)"
  shows "tracks (AList.update taskId task tasks) index"
  using assms unfolding tracks_def by (auto simp: update_conv')

lemma tracks_rebuild_from:
  "tracks done index \<Longrightarrow> distinct (map fst (done @ tasks)) \<Longrightarrow>
   tracks (done @ tasks) (foldl (\<lambda>ix (taskId, task). add taskId task ix) index tasks)"
proof (induction tasks arbitrary: "done" index)
  case (Cons entry tasks)
  obtain taskId task where e: "entry = (taskId, task)" by (cases entry)
  have fresh: "map_of done taskId = None" using Cons.prems(2) by (auto simp: e map_of_eq_None_iff)
  have "map_of (AList.update taskId task done) = map_of (done @ [(taskId, task)])"
    using fresh by (auto simp: update_conv' map_add_def split: option.splits)
  then have "tracks (done @ [(taskId, task)]) (add taskId task index)"
    using tracks_insert [OF Cons.prems(1) fresh] by (rule_tac tracks_cong) auto
  from Cons.IH [OF this] Cons.prems(2) show ?case by (simp add: e)
qed simp

lemma tracks_rebuild:
  "distinct (map fst tasks) \<Longrightarrow> tracks tasks (foldl (\<lambda>ix (taskId, task). add taskId task ix) [] tasks)"
  using tracks_rebuild_from [OF tracks_empty] by simp

lemma ids_of_query:
  assumes "tracks (tg_tasks st) index"
  shows "set (tasksOfIds st (holders index key)) = {task. \<exists>taskId. map_of (tg_tasks st) taskId = Some task \<and> key \<in> set (keysOf task)}"
  by (auto simp: set_tasksOfIds tracksD(2) [OF assms])

end

locale removable_task_index = task_index +
  fixes del :: "string \<Rightarrow> task_record \<Rightarrow> key_index \<Rightarrow> key_index"
  assumes del_law:
    "holders (del taskId task index) key
     = (if key \<in> set (keysOf task) then removeAll taskId (holders index key) else holders index key)"
begin

lemma tracks_delete:
  assumes "tracks tasks index" "map_of tasks taskId = Some current"
  shows "tracks (AList.delete taskId tasks) (del taskId current index)"
  using assms unfolding tracks_def by (auto simp: del_law delete_conv' distinct_removeAll)

lemma tracks_change:
  assumes "tracks tasks index" "map_of tasks taskId = Some current"
  shows "tracks (AList.update taskId task tasks) (add taskId task (del taskId current index))"
proof -
  have "map_of (AList.delete taskId tasks) taskId = None" by (simp add: delete_conv')
  from tracks_insert [OF tracks_delete [OF assms] this, of task]
  show ?thesis by (rule tracks_cong) (simp add: update_conv' delete_conv' fun_eq_iff)
qed

end

subsection \<open>The four indexes\<close>

definition optionKeys :: "string option \<Rightarrow> string list" where
  "optionKeys key = (case key of None \<Rightarrow> [] | Some k \<Rightarrow> [k])"

definition runKeys :: "task_record \<Rightarrow> string list" where
  "runKeys task = optionKeys (nonBlank (tr_runId task))"

definition ownerKeys :: "task_record \<Rightarrow> string list" where
  "ownerKeys task = optionKeys (optionalString (Some (tr_ownerKey task)))"

definition flowKeys :: "task_record \<Rightarrow> string list" where
  "flowKeys task = optionKeys (nonBlank (tr_parentFlowId task))"

interpretation run_index: task_index runKeys "\<lambda>taskId task. addRunIdIndex taskId (tr_runId task)"
  by unfold_locales (simp add: runKeys_def optionKeys_def addRunIdIndex_def holders_add split: option.splits)

interpretation owner_index: removable_task_index ownerKeys addOwnerKeyIndex deleteOwnerKeyIndex
  by unfold_locales
    (simp_all add: ownerKeys_def optionKeys_def addOwnerKeyIndex_def deleteOwnerKeyIndex_def holders_add holders_delete split: option.splits)

interpretation flow_index: removable_task_index flowKeys addParentFlowIdIndex deleteParentFlowIdIndex
  by unfold_locales
    (simp_all add: flowKeys_def optionKeys_def addParentFlowIdIndex_def deleteParentFlowIdIndex_def holders_add holders_delete
       split: option.splits)

lemma distinct_session_keys: "distinct (getTaskRelatedSessionIndexKeys task)"
  by (simp add: getTaskRelatedSessionIndexKeys_def uniqueStrings_def uniqueValues_def)

interpretation session_index: removable_task_index getTaskRelatedSessionIndexKeys addRelatedSessionKeyIndex deleteRelatedSessionKeyIndex
  by unfold_locales
    (simp_all add: addRelatedSessionKeyIndex_def deleteRelatedSessionKeyIndex_def
       holders_add_all holders_delete_all distinct_session_keys)

definition indexes_ok :: "task_registry \<Rightarrow> bool" where
  "indexes_ok st \<longleftrightarrow>
     run_index.tracks (tg_tasks st) (tg_byRunId st) \<and> owner_index.tracks (tg_tasks st) (tg_byOwnerKey st)
     \<and> flow_index.tracks (tg_tasks st) (tg_byParentFlowId st) \<and> session_index.tracks (tg_tasks st) (tg_byRelatedSessionKey st)"

subsection \<open>What an indexed query returns\<close>

lemma set_newestTasksFirst [simp]: "set (newestTasksFirst xs) = snd ` set xs"
  by (simp add: newestTasksFirst_def)

lemma set_indexed_tasks:
  "snd ` set (List.map_filter (\<lambda>(i, taskId). map_option (Pair i) (m taskId)) (enumerate n ids)) = {task. \<exists>taskId \<in> set ids. m taskId = Some task}"
proof (induction ids arbitrary: n)
  case (Cons taskId ids)
  then show ?case by (cases "m taskId") (auto simp: List.map_filter_simps)
qed (simp add: List.map_filter_simps)

lemma set_listTasksFromIndex:
  "set (listTasksFromIndex st index key) = set (tasksOfIds st (holders index key))"
  by (cases "map_of index key") (simp_all add: listTasksFromIndex_def holders_def set_indexed_tasks set_tasksOfIds)

lemma getTasksByRunId_holders: "getTasksByRunId st runId = tasksOfIds st (holders (tg_byRunId st) (js_trim runId))"
  by (cases "map_of (tg_byRunId st) (js_trim runId)") (simp_all add: getTasksByRunId_def holders_def tasksOfIds_def List.map_filter_simps)

lemma distinct_tasksOfIds:
  assumes "distinct ids" "\<And>taskId task. map_of (tg_tasks st) taskId = Some task \<Longrightarrow> tr_taskId task = taskId"
  shows "distinct (map tr_taskId (tasksOfIds st ids))"
proof -
  have "map tr_taskId (tasksOfIds st ids) = filter (\<lambda>taskId. map_of (tg_tasks st) taskId \<noteq> None) ids"
    using assms(2) by (induction ids) (auto simp: tasksOfIds_def List.map_filter_simps split: option.splits)
  then show ?thesis using assms(1) by simp
qed

end
