(* ===== verification/Task_Registry_Steps.thy ===== *)
theory Task_Registry_Steps
  imports Task_Index
begin

text \<open>
  Every operation on the registry of tasks is a sequence of small steps on its core: the records, their delivery
  states, the indexes, the restore state and the tables. The invariant of the registry is shown once for the small
  steps; the decomposition of the operations carries it to the program.
\<close>

subsection \<open>Small steps\<close>

definition taskCore where
  "taskCore st = (tg_tasks st, tg_deliveryStates st, tg_byRunId st, tg_byOwnerKey st, tg_byParentFlowId st,
     tg_byRelatedSessionKey st, tg_restore st, tg_db st)"

text \<open>A patch that no operation may exceed: it keeps the run id and does not reopen a task that has ended.\<close>

definition admissible :: "task_patch \<Rightarrow> task_record \<Rightarrow> bool" where
  "admissible patch current \<longleftrightarrow>
     up_runId patch = None
     \<and> (isTerminalTaskStatus (tr_status current) \<longrightarrow> isTerminalTaskStatus (nullish (up_status patch) (tr_status current)))"

definition cleanable :: "task_record \<Rightarrow> bool" where
  "cleanable task \<longleftrightarrow>
     (isTerminalTaskStatus (tr_status task) \<longrightarrow> tr_cleanupAfter task = None \<longrightarrow> resolveTaskCleanupAfter task = None)"

definition record_ok :: "task_record \<Rightarrow> bool" where
  "record_ok task \<longleftrightarrow> timely task \<and> js_trim (tr_ownerKey task) = tr_ownerKey task
     \<and> (tr_scopeKind task = SessionScope \<longrightarrow> tr_ownerKey task \<noteq> []) \<and> cleanable task"

definition rowIds :: "task_registry \<Rightarrow> string list" where
  "rowIds st = map rw_task_id (tb_tasks (tg_db st))"

inductive micro :: "string set \<Rightarrow> task_registry \<Rightarrow> task_registry \<Rightarrow> bool" for T :: "string set" where
  quiet: "taskCore st' = taskCore st \<Longrightarrow> micro T st st'"
| load: "tg_restore st = TasksUninitialized \<Longrightarrow> loadSnapshot env (tg_db st) = Inr (tasks, deliveries) \<Longrightarrow>
    taskCore st' = taskCore (restoredRegistry tasks deliveries st) \<Longrightarrow> micro T st st'"
| fail: "tg_restore st = TasksUninitialized \<Longrightarrow>
    taskCore st' = taskCore ((clearTaskRegistryMemory st)\<lparr>tg_restore := TasksFailed e\<rparr>) \<Longrightarrow> micro T st st'"
| note_delivery: "taskCore st' = taskCore (st\<lparr>tg_db := upsertTaskDeliveryStateToSqlite d (tg_db st),
      tg_deliveryStates := AList.update (td_taskId d) d (tg_deliveryStates st)\<rparr>) \<Longrightarrow> micro T st st'"
| change: "map_of (tg_tasks st) taskId = Some current \<Longrightarrow> taskId \<in> T \<Longrightarrow> admissible patch current \<Longrightarrow>
    taskCore st' = taskCore (reindexTask taskId patch current (nextTask current patch)
      (st\<lparr>tg_db := upsertTaskWithDeliveryStateToSqlite (nextTask current patch) d (tg_db st)\<rparr>)) \<Longrightarrow> micro T st st'"
| add: "tg_restore st = TasksReady \<Longrightarrow> tr_taskId task = taskId \<Longrightarrow> taskId \<in> T \<Longrightarrow> taskId \<notin> set (rowIds st) \<Longrightarrow> record_ok task \<Longrightarrow>
    taskCore st' = taskCore (insertTask taskId task d (st\<lparr>tg_db := upsertTaskWithDeliveryStateToSqlite task d' (tg_db st)\<rparr>)) \<Longrightarrow>
    micro T st st'"

definition removeTask :: "string \<Rightarrow> task_record \<Rightarrow> task_registry \<Rightarrow> task_registry" where
  "removeTask taskId current st =
     (let tasks = AList.delete taskId (tg_tasks st)
      in st\<lparr>tg_db := deleteTaskAndDeliveryStateFromSqlite taskId (tg_db st),
            tg_byOwnerKey := deleteOwnerKeyIndex taskId current (tg_byOwnerKey st),
            tg_byParentFlowId := deleteParentFlowIdIndex taskId current (tg_byParentFlowId st),
            tg_byRelatedSessionKey := deleteRelatedSessionKeyIndex taskId current (tg_byRelatedSessionKey st),
            tg_tasks := tasks, tg_deliveryStates := AList.delete taskId (tg_deliveryStates st),
            tg_byRunId := rebuildRunIdIndex tasks\<rparr>)"

inductive macro :: "task_registry \<Rightarrow> task_registry \<Rightarrow> bool" where
  micros: "micro UNIV st st' \<Longrightarrow> macro st st'"
| wipe: "taskCore st' = taskCore ((clearTaskRegistryMemory st)\<lparr>tg_restore := TasksUninitialized\<rparr>) \<Longrightarrow> macro st st'"
| remove: "map_of (tg_tasks st) taskId = Some current \<Longrightarrow> taskCore st' = taskCore (removeTask taskId current st) \<Longrightarrow> macro st st'"

subsection \<open>The invariant\<close>

definition rowTask :: "task_row \<Rightarrow> task_record option" where
  "rowTask row = (case rowToTaskRecord row of Inl e \<Rightarrow> None | Inr task \<Rightarrow> Some task)"

definition row_ok :: "task_row \<Rightarrow> bool" where
  "row_ok row \<longleftrightarrow> (\<exists>task. rowToTaskRecord row = Inr task \<and> record_ok task \<and> durableTask task = task)"

definition storedTask :: "task_tables \<Rightarrow> string \<Rightarrow> task_record option" where
  "storedTask db taskId = Option.bind (find (\<lambda>row. rw_task_id row = taskId) (tb_tasks db)) rowTask"

definition table_ok :: "task_tables \<Rightarrow> bool" where
  "table_ok db \<longleftrightarrow> distinct (map rw_task_id (tb_tasks db)) \<and> (\<forall>row \<in> set (tb_tasks db). row_ok row)"

definition filed :: "(string \<times> task_record) list \<Rightarrow> bool" where
  "filed tasks \<longleftrightarrow> distinct (map fst tasks)
     \<and> (\<forall>taskId task. map_of tasks taskId = Some task \<longrightarrow> tr_taskId task = taskId \<and> record_ok task)"

definition registry_inv :: "task_registry \<Rightarrow> bool" where
  "registry_inv st \<longleftrightarrow> table_ok (tg_db st) \<and> filed (tg_tasks st) \<and> indexes_ok st
     \<and> (if tg_restore st = TasksReady then \<forall>taskId. storedTask (tg_db st) taskId = map_option durableTask (map_of (tg_tasks st) taskId)
        else tg_tasks st = [])"

lemma core_cong: "taskCore st' = taskCore st \<Longrightarrow> registry_inv st' = registry_inv st"
  by (simp add: taskCore_def registry_inv_def indexes_ok_def)

lemma nonEmptyColumn_idem [simp]: "nonEmptyColumn (nonEmptyColumn c) = nonEmptyColumn c"
  by (auto simp: nonEmptyColumn_def split: option.splits list.splits)

lemma durable_idem: "record_ok task \<Longrightarrow> durableTask (durableTask task) = durableTask task"
  by (simp add: durableTask_def record_ok_def)

lemma record_ok_durable: "record_ok (durableTask task) = record_ok task"
  by (simp add: record_ok_def durableTask_def timely_def cleanable_def resolveTaskCleanupAfter_def)

lemma durable_simps [simp]: "tr_taskId (durableTask task) = tr_taskId task" "tr_status (durableTask task) = tr_status task"
  by (simp_all add: durableTask_def)

lemma bind_ok: "record_ok task \<Longrightarrow> row_ok (bindTaskRecordBase task)"
  by (auto simp: row_ok_def restore_task_row durable_idem record_ok_durable)

lemma bind_id [simp]: "rw_task_id (bindTaskRecordBase task) = tr_taskId task"
  by (simp add: bindTaskRecordBase_def)

lemma bind_rowTask [simp]: "rowTask (bindTaskRecordBase task) = Some (durableTask task)"
  by (simp add: rowTask_def restore_task_row)

subsubsection \<open>Tables\<close>

lemma set_upsertTaskRow: "set (upsertTaskRow row rows) \<subseteq> insert row (set rows)"
  by (induction rows) auto

lemma ids_upsertTaskRow: "set (map rw_task_id (upsertTaskRow row rows)) = insert (rw_task_id row) (set (map rw_task_id rows))"
  by (induction rows) auto

lemma distinct_upsertTaskRow: "distinct (map rw_task_id rows) \<Longrightarrow> distinct (map rw_task_id (upsertTaskRow row rows))"
proof (induction rows)
  case (Cons r rows)
  then show ?case using ids_upsertTaskRow [of row rows] by auto
qed simp

lemma find_upsertTaskRow:
  "find (\<lambda>r. rw_task_id r = taskId) (upsertTaskRow row rows)
   = (if taskId = rw_task_id row then Some row else find (\<lambda>r. rw_task_id r = taskId) rows)"
  by (induction rows) auto

lemma find_filter_rows:
  "find (\<lambda>r. rw_task_id r = taskId) (filter (\<lambda>r. rw_task_id r \<noteq> gone) rows)
   = (if taskId = gone then None else find (\<lambda>r. rw_task_id r = taskId) rows)"
  by (induction rows) auto

lemma upsert_table_ok:
  assumes "table_ok db" "record_ok task"
  shows "table_ok (upsertTaskWithDeliveryStateToSqlite task d db)"
  using assms bind_ok [OF assms(2)] set_upsertTaskRow [of "bindTaskRecordBase task" "tb_tasks db"]
  by (auto simp: table_ok_def upsertTaskWithDeliveryStateToSqlite_def distinct_upsertTaskRow)

lemma stored_upsert [simp]:
  "storedTask (upsertTaskWithDeliveryStateToSqlite task d db) = (storedTask db)(tr_taskId task \<mapsto> durableTask task)"
  by (simp add: fun_eq_iff storedTask_def upsertTaskWithDeliveryStateToSqlite_def find_upsertTaskRow)

lemma stored_delete [simp]:
  "storedTask (deleteTaskAndDeliveryStateFromSqlite taskId db) = (storedTask db)(taskId := None)"
  by (simp add: fun_eq_iff storedTask_def deleteTaskAndDeliveryStateFromSqlite_def deleteTaskRowsWithDeliveryState_def find_filter_rows)

lemma delete_table_ok: "table_ok db \<Longrightarrow> table_ok (deleteTaskAndDeliveryStateFromSqlite taskId db)"
  by (auto simp: table_ok_def deleteTaskAndDeliveryStateFromSqlite_def deleteTaskRowsWithDeliveryState_def distinct_map_filter)

lemma delivery_table [simp]:
  "table_ok (upsertTaskDeliveryStateToSqlite d db) = table_ok db" "storedTask (upsertTaskDeliveryStateToSqlite d db) = storedTask db"
  by (simp_all add: table_ok_def upsertTaskDeliveryStateToSqlite_def fun_eq_iff storedTask_def)

subsubsection \<open>Reading the tables\<close>

lemma readTaskRows_ok:
  "\<forall>row \<in> set rows. row_ok row \<Longrightarrow>
   readTaskRows rows = Inr (map (\<lambda>row. (rw_task_id row, the (rowTask row))) rows)"
  by (induction rows) (auto simp: row_ok_def rowTask_def)

lemma row_okD:
  assumes "row_ok row"
  shows "rowTask row = Some (the (rowTask row))" "record_ok (the (rowTask row))" "durableTask (the (rowTask row)) = the (rowTask row)"
    "tr_taskId (the (rowTask row)) = rw_task_id row"
  using assms by (auto simp: row_ok_def rowTask_def dest: restored_task_id)

lemma map_of_rows:
  "\<forall>row \<in> set rows. row_ok row \<Longrightarrow>
   map_of (map (\<lambda>row. (rw_task_id row, the (rowTask row))) rows) taskId = Option.bind (find (\<lambda>row. rw_task_id row = taskId) rows) rowTask"
  by (induction rows) (auto dest: row_okD(1))

lemma map_of_sorted:
  assumes "distinct (map fst (map f rows))"
  shows "map_of (map f (js_toSorted cmp rows)) = map_of (map f rows)"
proof (rule map_of_inject_set [THEN iffD2])
  have d: "distinct rows" "inj_on (fst \<circ> f) (set rows)" using assms by (auto simp: distinct_map)
  show "distinct (map fst (map f (js_toSorted cmp rows)))"
    using d distinct_js_toSorted [OF d(1)] by (simp add: distinct_map)
  show "distinct (map fst (map f rows))" using assms by simp
qed simp

lemma load_tables:
  assumes "table_ok db" "loadSnapshot env db = Inr (tasks, deliveries)"
  shows "filed tasks" "map_of tasks taskId = storedTask db taskId" "map_option durableTask (storedTask db taskId) = storedTask db taskId"
proof -
  let ?f = "\<lambda>row. (rw_task_id row, the (rowTask row))"
  have rows: "\<forall>row \<in> set (js_toSorted compareTaskRows (tb_tasks db)). row_ok row" using assms(1) by (simp add: table_ok_def)
  have timely: "normalizeTaskTimestamps (the (rowTask row)) = the (rowTask row)" if "row \<in> set (tb_tasks db)" for row
    using that rows row_okD(2) [of row] by (simp add: record_ok_def normalizeTaskTimestamps_id)
  have loaded: "tasks = map ?f (selectTaskRows db)"
    using assms(2) readTaskRows_ok [OF rows] timely
    by (auto simp: loadSnapshot_def loadTaskRegistryStateFromSqlite_def selectTaskRows_def split: option.splits)
  have d: "distinct (map fst (map ?f (tb_tasks db)))" using assms(1) by (simp add: table_ok_def comp_def)
  have lookup: "map_of tasks k = storedTask db k" for k
    using map_of_sorted [OF d] map_of_rows [of "tb_tasks db"] assms(1)
    by (simp add: loaded selectTaskRows_def storedTask_def table_ok_def)
  have okRow: "record_ok task \<and> tr_taskId task = k \<and> durableTask task = task" if "storedTask db k = Some task" for k task
  proof -
    from that obtain row where "row \<in> set (tb_tasks db)" "rw_task_id row = k" "rowTask row = Some task"
      by (auto simp: storedTask_def Option.bind_eq_Some_conv find_Some_iff intro: nth_mem)
    then show ?thesis using assms(1) row_okD(2-4) [of row] by (simp add: table_ok_def)
  qed
  have "distinct (map fst tasks)"
    using d distinct_js_toSorted [of "tb_tasks db" compareTaskRows] by (simp add: loaded selectTaskRows_def comp_def distinct_map)
  then show "filed tasks" using okRow lookup by (simp add: filed_def)
  show "map_of tasks taskId = storedTask db taskId" by (rule lookup)
  show "map_option durableTask (storedTask db taskId) = storedTask db taskId"
    using okRow by (cases "storedTask db taskId") simp_all
qed

subsubsection \<open>Changes of one record\<close>

lemma withCleanupAfter_simps [simp]:
  "tr_taskId (withCleanupAfter t) = tr_taskId t" "tr_status (withCleanupAfter t) = tr_status t"
  "tr_runId (withCleanupAfter t) = tr_runId t" "tr_ownerKey (withCleanupAfter t) = tr_ownerKey t"
  "tr_scopeKind (withCleanupAfter t) = tr_scopeKind t" "tr_parentFlowId (withCleanupAfter t) = tr_parentFlowId t"
  "tr_childSessionKey (withCleanupAfter t) = tr_childSessionKey t" "timely (withCleanupAfter t) = timely t"
  by (simp_all add: withCleanupAfter_def timely_def)

lemma normalizeTaskTimestamps_simps [simp]:
  "tr_taskId (normalizeTaskTimestamps t) = tr_taskId t" "tr_status (normalizeTaskTimestamps t) = tr_status t"
  "tr_runId (normalizeTaskTimestamps t) = tr_runId t" "tr_ownerKey (normalizeTaskTimestamps t) = tr_ownerKey t"
  "tr_scopeKind (normalizeTaskTimestamps t) = tr_scopeKind t" "tr_parentFlowId (normalizeTaskTimestamps t) = tr_parentFlowId t"
  "tr_childSessionKey (normalizeTaskTimestamps t) = tr_childSessionKey t"
  by (simp_all add: normalizeTaskTimestamps_def Let_def)

lemma cleanable_withCleanupAfter: "cleanable (withCleanupAfter t)"
  by (simp add: cleanable_def withCleanupAfter_def resolveTaskCleanupAfter_def)

lemma nextTask_simps [simp]:
  "tr_taskId (nextTask t patch) = tr_taskId t" "tr_status (nextTask t patch) = nullish (up_status patch) (tr_status t)"
  "tr_runId (nextTask t patch) = nullish_or (up_runId patch) (tr_runId t)" "tr_ownerKey (nextTask t patch) = tr_ownerKey t"
  "tr_scopeKind (nextTask t patch) = tr_scopeKind t"
  "tr_parentFlowId (nextTask t patch) = nullish_or (up_parentFlowId patch) (tr_parentFlowId t)"
  by (simp_all add: nextTask_def applyTaskPatch_def)

lemma record_ok_nextTask: "record_ok t \<Longrightarrow> record_ok (nextTask t patch)"
  by (simp add: record_ok_def nextTask_def cleanable_withCleanupAfter normalizeTaskTimestamps_timely) (simp add: applyTaskPatch_def)

lemma reindexTask_simps [simp]:
  "tg_tasks (reindexTask taskId patch current t st) = AList.update taskId t (tg_tasks st)"
  "tg_db (reindexTask taskId patch current t st) = tg_db st"
  "tg_restore (reindexTask taskId patch current t st) = tg_restore st"
  by (simp_all add: reindexTask_def Let_def)

definition sessionMoves :: "task_record \<Rightarrow> task_record \<Rightarrow> bool" where
  "sessionMoves current t \<longleftrightarrow>
     optionalString (Some (tr_ownerKey current)) \<noteq> optionalString (Some (tr_ownerKey t))
     \<or> optionalString (tr_childSessionKey current) \<noteq> optionalString (tr_childSessionKey t)"

definition flowMoves :: "task_record \<Rightarrow> task_record \<Rightarrow> bool" where
  "flowMoves current t \<longleftrightarrow> map_option js_trim (tr_parentFlowId current) \<noteq> map_option js_trim (tr_parentFlowId t)"

lemma reindexTask_indexes:
  "tg_byOwnerKey (reindexTask taskId patch current t st) =
     (if sessionMoves current t then addOwnerKeyIndex taskId t (deleteOwnerKeyIndex taskId current (tg_byOwnerKey st)) else tg_byOwnerKey st)"
  "tg_byRelatedSessionKey (reindexTask taskId patch current t st) =
     (if sessionMoves current t
      then addRelatedSessionKeyIndex taskId t (deleteRelatedSessionKeyIndex taskId current (tg_byRelatedSessionKey st))
      else tg_byRelatedSessionKey st)"
  "tg_byParentFlowId (reindexTask taskId patch current t st) =
     (if flowMoves current t then addParentFlowIdIndex taskId t (deleteParentFlowIdIndex taskId current (tg_byParentFlowId st))
      else tg_byParentFlowId st)"
  by (simp_all add: reindexTask_def Let_def sessionMoves_def flowMoves_def)

lemma indexes_reindex:
  assumes "indexes_ok st" "map_of (tg_tasks st) taskId = Some current" "up_runId patch = None" "tr_runId t = tr_runId current"
  shows "indexes_ok (reindexTask taskId patch current t st)"
proof -
  let ?st = "reindexTask taskId patch current t st"
  have tr: "run_index.tracks (tg_tasks st) (tg_byRunId st)" "owner_index.tracks (tg_tasks st) (tg_byOwnerKey st)"
    "flow_index.tracks (tg_tasks st) (tg_byParentFlowId st)" "session_index.tracks (tg_tasks st) (tg_byRelatedSessionKey st)"
    using assms(1) by (simp_all add: indexes_ok_def)
  have run: "tg_byRunId ?st = tg_byRunId st" using assms(3) by (simp add: reindexTask_def Let_def)
  have "run_index.tracks (tg_tasks ?st) (tg_byRunId ?st)"
    using run_index.tracks_same_keys [OF tr(1) assms(2)] assms(4) by (simp add: run runKeys_def)
  moreover have "owner_index.tracks (tg_tasks ?st) (tg_byOwnerKey ?st)"
  proof (cases "sessionMoves current t")
    case True
    then show ?thesis using owner_index.tracks_change [OF tr(2) assms(2)] by (simp add: reindexTask_indexes)
  next
    case False
    then have "set (ownerKeys t) = set (ownerKeys current)" by (simp add: sessionMoves_def ownerKeys_def)
    with False show ?thesis using owner_index.tracks_same_keys [OF tr(2) assms(2)] by (simp add: reindexTask_indexes)
  qed
  moreover have "session_index.tracks (tg_tasks ?st) (tg_byRelatedSessionKey ?st)"
  proof (cases "sessionMoves current t")
    case True
    then show ?thesis using session_index.tracks_change [OF tr(4) assms(2)] by (simp add: reindexTask_indexes)
  next
    case False
    then have "set (getTaskRelatedSessionIndexKeys t) = set (getTaskRelatedSessionIndexKeys current)"
      by (simp add: sessionMoves_def getTaskRelatedSessionIndexKeys_def)
    with False show ?thesis using session_index.tracks_same_keys [OF tr(4) assms(2)] by (simp add: reindexTask_indexes)
  qed
  moreover have "flow_index.tracks (tg_tasks ?st) (tg_byParentFlowId ?st)"
  proof (cases "flowMoves current t")
    case True
    then show ?thesis using flow_index.tracks_change [OF tr(3) assms(2)] by (simp add: reindexTask_indexes)
  next
    case False
    then have "set (flowKeys t) = set (flowKeys current)"
      by (cases "tr_parentFlowId current"; cases "tr_parentFlowId t") (simp_all add: flowMoves_def flowKeys_def nonBlank_def)
    with False show ?thesis using flow_index.tracks_same_keys [OF tr(3) assms(2)] by (simp add: reindexTask_indexes)
  qed
  ultimately show ?thesis by (simp add: indexes_ok_def)
qed

lemma filed_update: "filed tasks \<Longrightarrow> tr_taskId t = taskId \<Longrightarrow> record_ok t \<Longrightarrow> filed (AList.update taskId t tasks)"
  by (auto simp: filed_def distinct_update update_conv' split: if_splits)

lemma filed_delete: "filed tasks \<Longrightarrow> filed (AList.delete taskId tasks)"
  by (auto simp: filed_def distinct_delete delete_conv' split: if_splits)

lemma indexes_insert:
  assumes "indexes_ok st" "map_of (tg_tasks st) taskId = None"
  shows "indexes_ok (insertTask taskId t d st)"
  using assms run_index.tracks_insert owner_index.tracks_insert flow_index.tracks_insert session_index.tracks_insert
  by (simp add: indexes_ok_def insertTask_def)

lemma rebuild_indexes:
  assumes "distinct (map fst tasks)"
  shows "run_index.tracks tasks (rebuildRunIdIndex tasks)" "owner_index.tracks tasks (rebuildOwnerKeyIndex tasks)"
    "flow_index.tracks tasks (rebuildParentFlowIdIndex tasks)" "session_index.tracks tasks (rebuildRelatedSessionKeyIndex tasks)"
  using run_index.tracks_rebuild [OF assms] owner_index.tracks_rebuild [OF assms] flow_index.tracks_rebuild [OF assms]
    session_index.tracks_rebuild [OF assms]
  by (simp_all add: rebuildRunIdIndex_def rebuildOwnerKeyIndex_def rebuildParentFlowIdIndex_def rebuildRelatedSessionKeyIndex_def)

lemma indexes_remove:
  assumes "indexes_ok st" "map_of (tg_tasks st) taskId = Some current" "distinct (map fst (tg_tasks st))"
  shows "indexes_ok (removeTask taskId current st)"
  using assms owner_index.tracks_delete flow_index.tracks_delete session_index.tracks_delete
    rebuild_indexes(1) [OF distinct_delete [OF assms(3)]]
  by (simp add: indexes_ok_def removeTask_def Let_def)

subsection \<open>The small steps keep the invariant\<close>

lemma ready_invD:
  assumes "registry_inv st" "map_of (tg_tasks st) taskId = Some task"
  shows "tg_restore st = TasksReady" "tr_taskId task = taskId" "record_ok task"
    "storedTask (tg_db st) k = map_option durableTask (map_of (tg_tasks st) k)"
  using assms by (auto simp: registry_inv_def filed_def split: if_splits)

lemma restored_simps [simp]:
  "tg_tasks (restoredRegistry tasks ds st) = tasks" "tg_restore (restoredRegistry tasks ds st) = TasksReady"
  "tg_db (restoredRegistry tasks ds st) = tg_db st" "tg_byRunId (restoredRegistry tasks ds st) = rebuildRunIdIndex tasks"
  "tg_byOwnerKey (restoredRegistry tasks ds st) = rebuildOwnerKeyIndex tasks"
  "tg_byParentFlowId (restoredRegistry tasks ds st) = rebuildParentFlowIdIndex tasks"
  "tg_byRelatedSessionKey (restoredRegistry tasks ds st) = rebuildRelatedSessionKeyIndex tasks"
  by (simp_all add: restoredRegistry_def Let_def emitTaskRegistryObserverEvent_def clearTaskRegistryMemory_def)

lemma load_inv:
  assumes "registry_inv st" "loadSnapshot env (tg_db st) = Inr (tasks, deliveries)"
  shows "registry_inv (restoredRegistry tasks deliveries st)"
proof -
  have t: "table_ok (tg_db st)" using assms(1) by (simp add: registry_inv_def)
  note l = load_tables [OF t assms(2)]
  have "distinct (map fst tasks)" using l(1) by (simp add: filed_def)
  then show ?thesis using t l by (simp add: registry_inv_def indexes_ok_def rebuild_indexes)
qed

lemma indexes_empty:
  "tg_tasks st = [] \<Longrightarrow> tg_byRunId st = [] \<Longrightarrow> tg_byOwnerKey st = [] \<Longrightarrow> tg_byParentFlowId st = [] \<Longrightarrow>
   tg_byRelatedSessionKey st = [] \<Longrightarrow> indexes_ok st"
  using run_index.tracks_empty owner_index.tracks_empty flow_index.tracks_empty session_index.tracks_empty
  by (simp add: indexes_ok_def)

lemma cleared_inv: "registry_inv st \<Longrightarrow> r \<noteq> TasksReady \<Longrightarrow> registry_inv ((clearTaskRegistryMemory st)\<lparr>tg_restore := r\<rparr>)"
  by (simp add: registry_inv_def clearTaskRegistryMemory_def filed_def indexes_empty)

lemma indexes_ok_db [simp]: "indexes_ok (st\<lparr>tg_db := x\<rparr>) = indexes_ok st"
  by (simp add: indexes_ok_def)

lemma change_inv:
  assumes "registry_inv st" "map_of (tg_tasks st) taskId = Some current" "admissible patch current"
  shows "registry_inv (reindexTask taskId patch current (nextTask current patch)
    (st\<lparr>tg_db := upsertTaskWithDeliveryStateToSqlite (nextTask current patch) d (tg_db st)\<rparr>))"
proof -
  note r = ready_invD [OF assms(1, 2)]
  have ok: "record_ok (nextTask current patch)" using r(3) by (rule record_ok_nextTask)
  have i: "indexes_ok st" using assms(1) by (simp add: registry_inv_def)
  show ?thesis using assms ok r i
      indexes_reindex [of "st\<lparr>tg_db := upsertTaskWithDeliveryStateToSqlite (nextTask current patch) d (tg_db st)\<rparr>" taskId current patch "nextTask current patch"]
    by (simp add: registry_inv_def admissible_def upsert_table_ok filed_update update_conv')
qed

lemma row_stored: "table_ok db \<Longrightarrow> taskId \<notin> set (map rw_task_id (tb_tasks db)) \<longleftrightarrow> storedTask db taskId = None"
proof -
  assume t: "table_ok db"
  have "rowTask row \<noteq> None" if "row \<in> set (tb_tasks db)" for row
    using t that row_okD(1) [of row] by (auto simp: table_ok_def)
  moreover have "taskId \<notin> set (map rw_task_id (tb_tasks db)) \<longleftrightarrow> find (\<lambda>row. rw_task_id row = taskId) (tb_tasks db) = None"
    by (auto simp: find_None_iff)
  moreover have "row \<in> set (tb_tasks db)" if "find (\<lambda>row. rw_task_id row = taskId) (tb_tasks db) = Some row" for row
    using that by (auto simp: find_Some_iff)
  ultimately show ?thesis by (cases "find (\<lambda>row. rw_task_id row = taskId) (tb_tasks db)") (simp_all add: storedTask_def)
qed

lemma add_inv:
  assumes "registry_inv st" "tg_restore st = TasksReady" "taskId \<notin> set (rowIds st)" "tr_taskId task = taskId" "record_ok task"
  shows "registry_inv (insertTask taskId task d (st\<lparr>tg_db := upsertTaskWithDeliveryStateToSqlite task d' (tg_db st)\<rparr>))"
proof -
  have t: "table_ok (tg_db st)" and f: "filed (tg_tasks st)" and i: "indexes_ok st"
    and s: "\<And>k. storedTask (tg_db st) k = map_option durableTask (map_of (tg_tasks st) k)"
    using assms(1, 2) by (simp_all add: registry_inv_def)
  have fresh: "map_of (tg_tasks st) taskId = None" using row_stored [OF t] assms(3) s [of taskId] by (simp add: rowIds_def)
  have "indexes_ok (insertTask taskId task d (st\<lparr>tg_db := upsertTaskWithDeliveryStateToSqlite task d' (tg_db st)\<rparr>))"
    using i fresh by (simp add: indexes_insert)
  then show ?thesis using t f s assms(2, 4, 5)
    by (simp add: registry_inv_def) (simp add: insertTask_def upsert_table_ok filed_update update_conv')
qed

lemma micro_inv: "micro T st st' \<Longrightarrow> registry_inv st \<Longrightarrow> registry_inv st'"
proof (induction rule: micro.induct)
  case (quiet st' st)
  then show ?case using core_cong by blast
next
  case (load st env tasks deliveries st')
  then show ?case using core_cong load_inv by blast
next
  case (fail st st' e)
  then show ?case using core_cong cleared_inv by blast
next
  case (note_delivery st' st d)
  then show ?case unfolding core_cong [OF note_delivery.hyps] by (simp add: registry_inv_def indexes_ok_def)
next
  case (change st taskId current patch st' d)
  then show ?case using core_cong change_inv by blast
next
  case (add st task taskId st' d d')
  then show ?case using core_cong add_inv by blast
qed

lemma macro_inv: "macro st st' \<Longrightarrow> registry_inv st \<Longrightarrow> registry_inv st'"
proof (induction rule: macro.induct)
  case (micros st st')
  then show ?case by (rule micro_inv)
next
  case (wipe st' st)
  then show ?case using core_cong cleared_inv by blast
next
  case (remove st taskId current st')
  note r = ready_invD [OF remove.prems remove.hyps(1)]
  have t: "table_ok (tg_db st)" and f: "filed (tg_tasks st)" and i: "indexes_ok st"
    using remove.prems by (simp_all add: registry_inv_def)
  have "indexes_ok (removeTask taskId current st)"
    using indexes_remove [OF i remove.hyps(1)] f by (simp add: filed_def)
  then show ?case unfolding core_cong [OF remove.hyps(2)] using t f r
    by (simp add: registry_inv_def) (simp add: removeTask_def Let_def delete_table_ok filed_delete delete_conv')
qed

end
