(* ===== verification/Task_Registry_Moves.thy ===== *)
theory Task_Registry_Moves
  imports Task_Registry_Steps
begin

text \<open>
  The operations of the registry of tasks as sequences of small steps: rules for the ways in which operations are put
  together, collected in \<open>moves\<close>, and one rule per operation.
\<close>

named_theorems moves

abbreviation steps :: "string set \<Rightarrow> task_registry \<Rightarrow> task_registry \<Rightarrow> bool" where
  "steps T \<equiv> (micro T)\<^sup>*\<^sup>*"

lemma steps_quiet: "taskCore st' = taskCore st \<Longrightarrow> steps T st st'"
  by (rule r_into_rtranclp, rule micro.quiet)

lemma steps_inv: "steps T st st' \<Longrightarrow> registry_inv st \<Longrightarrow> registry_inv st'"
  by (induction rule: rtranclp_induct) (auto intro: micro_inv)

lemma steps_macro: "steps UNIV st st' \<Longrightarrow> macro\<^sup>*\<^sup>* st st'"
  by (induction rule: rtranclp_induct) (auto intro: macro.micros rtranclp.rtrancl_into_rtrancl)

lemma micro_mono: "micro T st st' \<Longrightarrow> T \<subseteq> U \<Longrightarrow> micro U st st'"
  by (induction rule: micro.induct) (blast intro: micro.intros)+

lemma steps_mono: "steps T st st' \<Longrightarrow> T \<subseteq> U \<Longrightarrow> steps U st st'"
  by (induction rule: rtranclp_induct) (auto intro: micro_mono rtranclp.rtrancl_into_rtrancl)

text \<open>Once the registry is restored, steps on some tasks leave the others alone.\<close>

lemma core_eqD: "taskCore st' = taskCore st \<Longrightarrow> tg_tasks st' = tg_tasks st \<and> tg_restore st' = tg_restore st \<and> tg_db st' = tg_db st"
  by (simp add: taskCore_def)

lemma micro_frame:
  "micro T st st' \<Longrightarrow> tg_restore st = TasksReady \<Longrightarrow> taskId \<notin> T \<Longrightarrow>
   tg_restore st' = TasksReady \<and> map_of (tg_tasks st') taskId = map_of (tg_tasks st) taskId"
  by (induction rule: micro.induct) (auto dest!: core_eqD simp: insertTask_def update_conv' split: if_splits)

lemma micro_ready: "micro T st st' \<Longrightarrow> tg_restore st = TasksReady \<Longrightarrow> tg_restore st' = TasksReady"
  by (induction rule: micro.induct) (auto dest!: core_eqD simp: insertTask_def)

lemma steps_ready: "steps T st st' \<Longrightarrow> tg_restore st = TasksReady \<Longrightarrow> tg_restore st' = TasksReady"
  by (induction rule: rtranclp_induct) (auto intro: micro_ready)

lemma steps_frame:
  "steps T st st' \<Longrightarrow> tg_restore st = TasksReady \<Longrightarrow> taskId \<notin> T \<Longrightarrow>
   map_of (tg_tasks st') taskId = map_of (tg_tasks st) taskId"
  by (induction rule: rtranclp_induct) (auto dest: micro_frame steps_ready)

subsection \<open>Calls of the registry of flows and restoring\<close>

lemma core_frame [simp]:
  "taskCore (st\<lparr>tg_flows := a\<rparr>) = taskCore st" "taskCore (st\<lparr>tg_writes := b\<rparr>) = taskCore st" "taskCore (st\<lparr>tg_events := c\<rparr>) = taskCore st"
  "taskCore (st\<lparr>tg_retryTimers := d\<rparr>) = taskCore st" "taskCore (st\<lparr>tg_retryWaiters := w\<rparr>) = taskCore st" "taskCore (st\<lparr>tg_pendingDelivery := e\<rparr>) = taskCore st"
  by (simp_all add: taskCore_def)

lemma core_onFlows [simp]: "taskCore (snd (onFlows env f st)) = taskCore st"
  by (simp add: onFlows_def split: prod.splits)

lemma core_calls [simp]:
  "taskCore (snd (ensureFlows env st)) = taskCore st" "taskCore (snd (flowById env flowId st)) = taskCore st"
  "taskCore (snd (syncTaskFlow env task st)) = taskCore st" "taskCore (snd (expectRevision env flowId revision fp st)) = taskCore st"
  "taskCore (snd (ensureLinkedTaskFlowRegistryReady env task st)) = taskCore st"
  "taskCore (emitTaskRegistryObserverEvent event st) = taskCore st"
  "taskCore (scheduleTaskFlowSyncRetry task attempt st) = taskCore st"
  by (simp_all add: ensureFlows_def flowById_def syncTaskFlow_def expectRevision_def ensureLinkedTaskFlowRegistryReady_def
        emitTaskRegistryObserverEvent_def scheduleTaskFlowSyncRetry_def Let_def)

lemma core_sync [simp]: "taskCore (snd (syncFlowFromTaskAfterTaskMutation env task st)) = taskCore st"
proof -
  obtain r st1 where e: "syncTaskFlow env task st = (r, st1)" by fastforce
  then have "taskCore st1 = taskCore st" using core_calls(3) by (metis snd_conv)
  then show ?thesis by (simp add: syncFlowFromTaskAfterTaskMutation_def e split: sum.splits sync_result.splits)
qed

lemma micro_ensure: "micro T st (snd (ensureTaskRegistryReady env st))"
proof (cases "tg_restore st = TasksUninitialized")
  case True
  show ?thesis
  proof (cases "loadSnapshot env (tg_db st)")
    case (Inl e)
    then show ?thesis using True
      by (auto simp: ensureTaskRegistryReady_def restoreTaskRegistryOnce_def intro: micro.fail)
  next
    case (Inr x)
    then show ?thesis using True
      by (cases x) (auto simp: ensureTaskRegistryReady_def restoreTaskRegistryOnce_def intro: micro.load)
  qed
next
  case False
  then have "snd (ensureTaskRegistryReady env st) = st"
    by (cases "tg_restore st") (simp_all add: ensureTaskRegistryReady_def restoreTaskRegistryOnce_def)
  then show ?thesis by (simp add: micro.quiet)
qed

lemma steps_ensure: "steps T st (snd (ensureTaskRegistryReady env st))"
  using micro_ensure by (rule r_into_rtranclp)

lemma ensure_Inr: "ensureTaskRegistryReady env st = (Inr x, st1) \<Longrightarrow> tg_restore st1 = TasksReady \<and> tg_db st1 = tg_db st"
  by (auto simp: ensureTaskRegistryReady_def restoreTaskRegistryOnce_def split: task_restore.splits sum.splits)

lemma ensure_ready: "tg_restore st = TasksReady \<Longrightarrow> ensureTaskRegistryReady env st = (Inr (), st)"
  by (simp add: ensureTaskRegistryReady_def restoreTaskRegistryOnce_def)

lemma steps_whenReady:
  assumes "\<And>st1. tg_restore st1 = TasksReady \<Longrightarrow> tg_db st1 = tg_db st \<Longrightarrow> steps T st st1 \<Longrightarrow> steps T st1 (snd (f st1))"
  shows "steps T st (snd (whenTasksReady env f st))"
proof -
  obtain r st1 where e: "ensureTaskRegistryReady env st = (r, st1)" by fastforce
  have s: "steps T st st1" using steps_ensure [of T st env] by (simp add: e)
  show ?thesis
  proof (cases r)
    case (Inr u)
    have "steps T st1 (snd (f st1))" using ensure_Inr [OF e [unfolded Inr]] s by (simp add: assms)
    with s have "steps T st (snd (f st1))" by (rule rtranclp_trans)
    then show ?thesis by (simp add: whenTasksReady_def e Inr)
  qed (simp add: whenTasksReady_def e s)
qed

lemma steps_list: "steps T st (snd (listTasksForFlowId env flowId st))" "steps T st (snd (findLatestTaskForFlowId env flowId st))"
  "steps T st (snd (anyPendingTask env flowId st))"
proof -
  show s: "steps T st (snd (listTasksForFlowId env flowId st))"
    unfolding listTasksForFlowId_def by (rule steps_whenReady) (simp add: Let_def)
  then show "steps T st (snd (findLatestTaskForFlowId env flowId st))" "steps T st (snd (anyPendingTask env flowId st))"
    by (simp_all add: findLatestTaskForFlowId_def anyPendingTask_def)
qed

lemma steps_cancelAttempts: "steps T st (snd (cancelAttempts env n flowId endedAt flow st))"
proof (induction n arbitrary: flow st)
  case (Suc n)
  obtain r st1 where e: "expectRevision env flowId (tf_revision flow) (cancelledPatch endedAt) st = (r, st1)" by fastforce
  have s1: "steps T st st1" using steps_quiet [of st1 st T] core_calls(4) e by (metis snd_conv)
  obtain q st2 where e2: "anyPendingTask env flowId st1 = (q, st2)" by fastforce
  have s2: "steps T st1 st2" using steps_list(3) [of T st1 env flowId] by (simp add: e2)
  show ?case using s1 rtranclp_trans [OF rtranclp_trans [OF s1 s2] Suc.IH] rtranclp_trans [OF s1 s2]
    by (simp add: e e2 split: sum.splits option.splits)
qed simp

lemma steps_cancellation: "steps T st (snd (syncManagedFlowCancellationFromTask env task st))"
proof (cases "nonBlank (tr_parentFlowId task)")
  case (Some flowId)
  obtain r st1 where e: "flowById env flowId st = (r, st1)" by fastforce
  have s1: "steps T st st1" using steps_quiet [of st1 st T] core_calls(2) e by (metis snd_conv)
  obtain q st2 where e2: "anyPendingTask env flowId st1 = (q, st2)" by fastforce
  have s2: "steps T st1 st2" using steps_list(3) [of T st1 env flowId] by (simp add: e2)
  show ?thesis using s1 rtranclp_trans [OF rtranclp_trans [OF s1 s2] steps_cancelAttempts] rtranclp_trans [OF s1 s2]
    by (simp add: syncManagedFlowCancellationFromTask_def Some e e2 split: sum.splits option.splits)
qed (simp add: syncManagedFlowCancellationFromTask_def)

subsection \<open>Updates, deliveries and retries\<close>

lemma steps_carry: "steps T st (snd (carryToFlow env current t st))"
proof -
  obtain r st1 where e: "syncFlowFromTaskAfterTaskMutation env t st = (r, st1)" by fastforce
  have s1: "steps T st st1" using steps_quiet [of st1 st T] core_sync e by (metis snd_conv)
  have "steps T st1 (emitTaskRegistryObserverEvent event (snd (syncManagedFlowCancellationFromTask env t st1)))" for event
    using steps_cancellation steps_quiet [OF core_calls(6)] by (rule rtranclp_trans)
  then have "steps T st (emitTaskRegistryObserverEvent event (snd (syncManagedFlowCancellationFromTask env t st1)))" for event
    using s1 by (rule rtranclp_trans [rotated])
  then show ?thesis using s1 by (cases r) (simp_all add: carryToFlow_def e)
qed

lemma commit_cases:
  assumes "commit env write st = (ok, st1)"
  shows "taskCore st1 = taskCore (if ok then st\<lparr>tg_db := write (tg_db st)\<rparr> else st)"
  using assms by (auto simp: commit_def taskCore_def split: if_splits)

lemma core_reindex:
  "taskCore st1 = taskCore st \<Longrightarrow> taskCore (reindexTask taskId patch current t st1) = taskCore (reindexTask taskId patch current t st)"
  by (simp add: taskCore_def reindexTask_def Let_def)

lemma steps_update:
  assumes "\<And>current. map_of (tg_tasks st) taskId = Some current \<Longrightarrow> admissible patch current" "taskId \<in> T"
  shows "steps T st (snd (updateTask env taskId patch st))"
proof (cases "map_of (tg_tasks st) taskId")
  case (Some current)
  let ?t = "nextTask current patch"
  obtain r1 st1 where e1: "ensureLinkedTaskFlowRegistryReady env current st = (r1, st1)" by fastforce
  obtain r2 st2 where e2: "ensureLinkedTaskFlowRegistryReady env ?t st1 = (r2, st2)" by fastforce
  obtain ok st3 where e3: "tryPersistTaskUpsert env ?t None st2 = (ok, st3)" by fastforce
  have c1: "taskCore st1 = taskCore st" using core_calls(5) e1 by (metis snd_conv)
  have c2: "taskCore st2 = taskCore st" using core_calls(5) e2 c1 by (metis snd_conv)
  define d where "d = nullish_or None (map_of (tg_deliveryStates st2) (tr_taskId ?t))"
  have db: "tg_db st2 = tg_db st" using c2 by (simp add: taskCore_def)
  have c3: "taskCore st3 = taskCore (if ok then st2\<lparr>tg_db := upsertTaskWithDeliveryStateToSqlite ?t d (tg_db st2)\<rparr> else st2)"
    using commit_cases [OF e3 [unfolded tryPersistTaskUpsert_def]] by (simp add: d_def)
  have ch: "steps T st (reindexTask taskId patch current ?t st3)" if ok
  proof -
    have "taskCore st3 = taskCore (st\<lparr>tg_db := upsertTaskWithDeliveryStateToSqlite ?t d (tg_db st)\<rparr>)"
      using c3 c2 that by (simp add: taskCore_def)
    from core_reindex [OF this] show ?thesis
      using micro.change [OF Some assms(2) assms(1) [OF Some]] by blast
  qed
  have s: "steps T st st1" "steps T st st2" "\<not> ok \<Longrightarrow> steps T st st3" using c1 c2 c3 by (simp_all add: steps_quiet)
  have "steps T st (snd (carryToFlow env current ?t (reindexTask taskId patch current ?t st3)))" if ok
    using ch [OF that] steps_carry by (rule rtranclp_trans)
  with s show ?thesis by (cases r1; cases r2; cases ok) (simp_all add: updateTask_def Let_def Some e1 e2 e3)
qed (simp add: updateTask_def)

lemma updateTask_id:
  assumes "updateTask env taskId patch st = (Inr (Some t), st1)" "map_of (tg_tasks st) taskId = Some current"
  shows "t = nextTask current patch"
  using assms by (auto simp: updateTask_def Let_def carryToFlow_def split: prod.splits sum.splits bool.splits)

lemma steps_deliveryState: "steps T st (snd (upsertTaskDeliveryState env state st))"
proof -
  let ?next = "state\<lparr>td_requesterOrigin := Option.bind (td_requesterOrigin state) (te_normOrigin env)\<rparr>"
  obtain ok st1 where e: "tryPersistTaskDeliveryStateUpsert env ?next st = (ok, st1)" by fastforce
  have c: "taskCore st1 = taskCore (if ok then st\<lparr>tg_db := upsertTaskDeliveryStateToSqlite ?next (tg_db st)\<rparr> else st)"
    using commit_cases [OF e [unfolded tryPersistTaskDeliveryStateUpsert_def]] .
  have "steps T st st1" if "\<not> ok" using c that by (simp add: steps_quiet)
  moreover have "steps T st (st1\<lparr>tg_deliveryStates := AList.update (td_taskId state) ?next (tg_deliveryStates st1)\<rparr>)" if ok
    using c that by (intro r_into_rtranclp micro.note_delivery [where d = ?next]) (simp add: taskCore_def)
  ultimately show ?thesis by (auto simp: upsertTaskDeliveryState_def Let_def e split: bool.splits)
qed

lemma steps_retry: "steps T st (retryTaskFlowSync env taskId attempt st)"
proof (cases "map_of (tg_tasks st) taskId")
  case (Some current)
  show ?thesis
  proof (cases "nonBlank (tr_parentFlowId current)")
    case (Some flowId)
    obtain r st1 where e: "findLatestTaskForFlowId env flowId st = (r, st1)" by fastforce
    have s1: "steps T st st1" using steps_list(2) [of T st env flowId] by (simp add: e)
    obtain q st2 where e2: "syncTaskFlow env current st1 = (q, st2)" by fastforce
    have c2: "taskCore st2 = taskCore st1" using core_calls(3) e2 by (metis snd_conv)
    have s2: "steps T st st2" "steps T st (scheduleTaskFlowSyncRetry current n st2)" for n
      by (rule rtranclp_trans [OF s1], rule steps_quiet, simp add: c2)+
    show ?thesis using s1 s2
      by (auto simp: retryTaskFlowSync_def \<open>map_of (tg_tasks st) taskId = Some current\<close> Some e e2
            split: sum.splits sync_result.splits)
  qed (simp add: retryTaskFlowSync_def Some)
qed (simp add: retryTaskFlowSync_def)

end
