(* ===== verification/Task_Process_Moves.thy ===== *)
theory Task_Process_Moves
  imports Task_Registry_Moves
begin

text \<open>
  Deliveries and the operations that callers use, as sequences of small steps on the registry. A delivery touches
  the record of its own task only.
\<close>

subsection \<open>Composition\<close>

definition calls :: "string set \<Rightarrow> 'a process_call \<Rightarrow> bool" where
  "calls T f \<longleftrightarrow> (\<forall>p. steps T (tp_registry p) (tp_registry (snd (f p))))"

definition keeps :: "string set \<Rightarrow> (task_process \<Rightarrow> task_process) \<Rightarrow> bool" where
  "keeps T f \<longleftrightarrow> (\<forall>p. steps T (tp_registry p) (tp_registry (f p)))"

lemma callsI: "(\<And>p. steps T (tp_registry p) (tp_registry (snd (f p)))) \<Longrightarrow> calls T f"
  by (simp add: calls_def)

lemma callsD: "calls T f \<Longrightarrow> f p = (r, p1) \<Longrightarrow> steps T (tp_registry p) (tp_registry p1)"
  by (metis calls_def snd_conv)

lemma keepsI: "(\<And>p. steps T (tp_registry p) (tp_registry (f p))) \<Longrightarrow> keeps T f"
  by (simp add: keeps_def)

lemma keepsD: "keeps T f \<Longrightarrow> steps T (tp_registry p) (tp_registry (f p))"
  by (simp add: keeps_def)

lemma lift_registry [simp]: "tp_registry (snd (lift f p)) = snd (f (tp_registry p))"
  by (simp add: lift_def split: prod.splits)

lemma calls_lift [moves]: "(\<And>st. steps T st (snd (f st))) \<Longrightarrow> calls T (lift f)"
  by (simp add: calls_def)

lemma calls_answer [moves]: "calls T (answer x)"
  by (simp add: calls_def answer_def)

lemma calls_andThen [moves]:
  assumes "calls T f" "\<And>x. calls T (g x)"
  shows "calls T (andThen f g)"
proof (rule callsI)
  fix p
  obtain r p1 where e: "f p = (r, p1)" by fastforce
  have s: "steps T (tp_registry p) (tp_registry p1)" using callsD [OF assms(1) e] .
  show "steps T (tp_registry p) (tp_registry (snd (andThen f g p)))"
  proof (cases r)
    case (Inr x)
    have "steps T (tp_registry p1) (tp_registry (snd (g x p1)))" using assms(2) [of x] by (simp add: calls_def)
    with s show ?thesis by (simp add: andThen_def e Inr)
  qed (simp add: andThen_def e s)
qed

lemma calls_otherwise [moves]:
  assumes "calls T f" "calls T g"
  shows "calls T (otherwise f g)"
proof (rule callsI)
  fix p
  obtain r p1 where e: "f p = (r, p1)" by fastforce
  have s: "steps T (tp_registry p) (tp_registry p1)" using callsD [OF assms(1) e] .
  moreover have "steps T (tp_registry p1) (tp_registry (snd (g p1)))" using assms(2) by (simp add: calls_def)
  ultimately show "steps T (tp_registry p) (tp_registry (snd (otherwise f g p)))" by (cases r) (simp_all add: otherwise_def e)
qed

lemma calls_if [moves]: "(b \<Longrightarrow> calls T f) \<Longrightarrow> (\<not> b \<Longrightarrow> calls T g) \<Longrightarrow> calls T (if b then f else g)"
  by simp

lemma calls_option [moves]:
  "(x = None \<Longrightarrow> calls T f) \<Longrightarrow> (\<And>y. x = Some y \<Longrightarrow> calls T (g y)) \<Longrightarrow> calls T (case x of None \<Rightarrow> f | Some y \<Rightarrow> g y)"
  by (cases x) simp_all

lemma registry_frame [simp]:
  "tp_registry (emit effects p) = tp_registry p" "tp_registry (suspend run p) = tp_registry p"
  by (simp_all add: emit_def suspend_def)

lemma keeps_endDelivery: "keeps T (endDelivery taskId)"
  by (rule keepsI, rule steps_quiet) (simp add: endDelivery_def)

lemma steps_ending: "steps T st (tp_registry p) \<Longrightarrow> steps T st (tp_registry (endDelivery taskId p))"
  by (rule rtranclp_trans, assumption, rule keepsD [OF keeps_endDelivery])

subsection \<open>Owners and system events\<close>

lemma calls_flowById [moves]: "calls T (lift (flowById env flowId))"
  by (rule calls_lift, rule steps_quiet) simp

lemma calls_ensure [moves]: "calls T (lift (ensureTaskRegistryReady env))"
  by (rule calls_lift, rule steps_ensure)

lemma calls_linked [moves]: "calls T (lift (ensureLinkedTaskFlowRegistryReady env task))"
  by (rule calls_lift, rule steps_quiet) simp

lemma calls_value: "(\<And>p. tp_registry (snd (f p)) = tp_registry p) \<Longrightarrow> calls T f"
  by (simp add: calls_def)

lemma calls_owner [moves]: "calls T (resolveTaskDeliveryOwner env task)"
  unfolding resolveTaskDeliveryOwner_def getLinkedFlowForDelivery_def by (intro moves calls_value) simp

lemma calls_idempotencyKey [moves]: "calls T (resolveTaskTerminalIdempotencyKey env task)"
  unfolding resolveTaskTerminalIdempotencyKey_def by (intro moves)

lemma calls_canDeliver [moves]: "calls T (canDeliverTaskToRequesterOrigin w env task)"
  unfolding canDeliverTaskToRequesterOrigin_def by (intro moves)

lemma calls_canReview [moves]: "calls T (canDeliverParentReviewTaskToThreadOrigin w env task)"
  unfolding canDeliverParentReviewTaskToThreadOrigin_def Let_def by (intro moves)

lemma calls_queue [moves]: "calls T (queueSystemEvent w env task contextKey source content)"
  unfolding queueSystemEvent_def
  by (rule calls_andThen, rule calls_owner, rule calls_value) (simp split: option.splits)

lemma calls_queues [moves]:
  "calls T (queueTaskSystemEvent w env task content)" "calls T (queueBlockedTaskFollowup w env task)"
  unfolding queueTaskSystemEvent_def queueBlockedTaskFollowup_def by (intro moves)+

lemma calls_queueTerminal [moves]: "calls T (queueTerminalEvents w env task content)"
  unfolding queueTerminalEvents_def by (intro moves)

subsection \<open>Deliveries\<close>

lemma admissible_noStatus: "up_status patch = None \<Longrightarrow> up_runId patch = None \<Longrightarrow> admissible patch current"
  by (simp add: admissible_def)

lemma noPatch_simps [simp]: "up_status noPatch = None" "up_runId noPatch = None"
  by (simp_all add: noPatch_def)

lemma calls_setDeliveryStatus [moves]: "taskId \<in> T \<Longrightarrow> calls T (setDeliveryStatus env taskId status)"
  unfolding setDeliveryStatus_def deliveryPatch_def
  by (rule calls_lift, rule steps_update) (simp_all add: admissible_noStatus)

lemma keeps_fallback: "taskId \<in> T \<Longrightarrow> keeps T (fallbackDelivery w env taskId sessionText)"
proof (rule keepsI)
  fix p assume "taskId \<in> T"
  then have c: "calls T (setDeliveryStatus env taskId DeliveryFailed)" by (rule moves)
  have "steps T (tp_registry p) (tp_registry (snd (setDeliveryStatus env taskId DeliveryFailed (snd (queueTerminalEvents w env task sessionText p)))))"
    for task
    using calls_queueTerminal c unfolding calls_def by (blast intro: rtranclp_trans)
  then show "steps T (tp_registry p) (tp_registry (fallbackDelivery w env taskId sessionText p))"
    unfolding fallbackDelivery_def by (auto intro!: steps_ending split: option.splits)
qed

lemma calls_suspend [moves]: "calls T (\<lambda>p. (Inr x, suspend run p))"
  by (rule calls_value) simp

lemma calls_startTerminal:
  assumes "taskId \<in> T"
  shows "calls T (startTerminalDelivery w env taskId latest)"
proof (rule callsI)
  fix p
  have d: "calls T (setDeliveryStatus env taskId status)" for status using assms by (rule moves)
  have a: "calls T (andThen (setDeliveryStatus env taskId status) (\<lambda>_. answer False))" for status
    by (intro moves d)
  show "steps T (tp_registry p) (tp_registry (snd (startTerminalDelivery w env taskId latest p)))"
  proof (cases "suppressesDuplicate (tp_registry p) latest")
    case True
    then show ?thesis using a by (simp add: startTerminalDelivery_def calls_def)
  next
    case False
    then show ?thesis unfolding startTerminalDelivery_def Let_def if_not_P [OF False]
      by (intro calls_def [THEN iffD1, THEN spec]) (intro moves a d)
  qed
qed

lemma keeps_terminalUnder:
  assumes "taskId \<in> T"
  shows "keeps T (maybeDeliverTaskTerminalUpdateUnderAdmission w env taskId)"
proof (rule keepsI)
  fix p
  obtain r p1 where e: "lift (ensureTaskRegistryReady env) p = (r, p1)" by fastforce
  have s: "steps T (tp_registry p) (tp_registry p1)" using callsD [OF calls_ensure e] .
  define p2 where "p2 = p1\<lparr>tp_registry := (tp_registry p1)\<lparr>tg_pendingDelivery := tg_pendingDelivery (tp_registry p1) @ [taskId]\<rparr>\<rparr>"
  have "steps T (tp_registry p1) (tp_registry p2)" by (rule steps_quiet) (simp add: p2_def)
  with s have s2: "steps T (tp_registry p) (tp_registry p2)" by (rule rtranclp_trans)
  have s3: "steps T (tp_registry p) (tp_registry p3)" if "startTerminalDelivery w env taskId latest p2 = (q, p3)" for latest q p3
    using s2 callsD [OF calls_startTerminal [OF assms] that] by (rule rtranclp_trans)
  show "steps T (tp_registry p) (tp_registry (maybeDeliverTaskTerminalUpdateUnderAdmission w env taskId p))"
    unfolding maybeDeliverTaskTerminalUpdateUnderAdmission_def e Let_def
    by (auto simp: s p2_def [symmetric] intro!: steps_ending dest: s3 split: sum.splits option.splits prod.splits bool.splits)
qed

lemma keeps_underAdmission:
  assumes "keeps T deliver"
  shows "keeps T (underAdmission w env waiting deliver)"
proof (rule keepsI)
  fix p
  obtain r p1 where e: "lift (ensureTaskRegistryReady env) p = (r, p1)" by fastforce
  have s: "steps T (tp_registry p) (tp_registry p1)" using callsD [OF calls_ensure e] .
  then have "steps T (tp_registry p) (tp_registry (deliver p1))" using keepsD [OF assms] by (rule rtranclp_trans)
  with s show "steps T (tp_registry p) (tp_registry (underAdmission w env waiting deliver p))"
    by (cases r; cases "dw_gate w") (simp_all add: underAdmission_def e)
qed

lemma keeps_terminal: "taskId \<in> T \<Longrightarrow> keeps T (maybeDeliverTaskTerminalUpdate w env taskId)"
  unfolding maybeDeliverTaskTerminalUpdate_def by (intro keeps_underAdmission keeps_terminalUnder)

lemma keeps_runtimeLoaded: "taskId \<in> T \<Longrightarrow> keeps T (terminalRuntimeLoaded w env taskId latest owner content sessionText)"
proof (rule keepsI)
  fix p assume T: "taskId \<in> T"
  note f = keepsD [OF keeps_fallback [OF T]]
  obtain r p1 where e: "terminalMessage env latest owner content p = (r, p1)" by fastforce
  have "calls T (terminalMessage env latest owner content)" unfolding terminalMessage_def by (intro moves)
  from callsD [OF this e] have s: "steps T (tp_registry p) (tp_registry p1)" .
  then have "steps T (tp_registry p) (tp_registry (fallbackDelivery w env taskId sessionText p1))" using f by (rule rtranclp_trans)
  with s show "steps T (tp_registry p) (tp_registry (terminalRuntimeLoaded w env taskId latest owner content sessionText p))"
    by (cases r) (auto simp: terminalRuntimeLoaded_def e f intro: steps_ending split: option.splits)
qed

lemma keeps_sendAnswered: "taskId \<in> T \<Longrightarrow> keeps T (terminalSendAnswered w env taskId sessionText)"
proof (rule keepsI)
  fix p assume T: "taskId \<in> T"
  note f = keepsD [OF keeps_fallback [OF T]]
  show "steps T (tp_registry p) (tp_registry (terminalSendAnswered w env taskId sessionText p))"
  proof (cases "map_of (tg_tasks (tp_registry p)) taskId")
    case None
    then show ?thesis by (simp add: terminalSendAnswered_def f steps_ending)
  next
    case (Some task)
    define call where "call = andThen (if tr_terminalOutcome task = Some OutcomeBlocked then queueBlockedTaskFollowup w env task else answer True)
      (\<lambda>_. setDeliveryStatus env taskId Delivered)"
    have c: "calls T call" unfolding call_def by (intro moves T)
    obtain r p1 where e: "call p = (r, p1)" by fastforce
    have s: "steps T (tp_registry p) (tp_registry p1)" using callsD [OF c e] .
    then have "steps T (tp_registry p) (tp_registry (fallbackDelivery w env taskId sessionText p1))"
      using f by (rule rtranclp_trans)
    with s show ?thesis
      by (cases r) (simp_all add: terminalSendAnswered_def Some call_def [symmetric] e f steps_ending)
  qed
qed

lemma keeps_noteNotified: "taskId \<in> T \<Longrightarrow> keeps T (noteNotified env taskId origin at)"
proof (rule keepsI)
  fix p :: task_process assume T: "taskId \<in> T"
  define st where "st = snd (upsertTaskDeliveryState env
    \<lparr>td_taskId = taskId, td_requesterOrigin = origin, td_lastNotifiedEventAt = Some at\<rparr> (tp_registry p))"
  have "steps T (tp_registry p) st" unfolding st_def by (rule steps_deliveryState)
  moreover have "steps T st (snd (updateTask env taskId (noPatch\<lparr>up_lastEventAt := Some (te_now env)\<rparr>) st))"
    by (rule steps_update) (simp_all add: admissible_noStatus T)
  ultimately show "steps T (tp_registry p) (tp_registry (noteNotified env taskId origin at p))"
    by (simp add: noteNotified_def st_def [symmetric] Let_def)
qed

lemma keeps_startChange: "taskId \<in> T \<Longrightarrow> keeps T (startChangeDelivery w env taskId current event eventText origin)"
proof (rule keepsI)
  fix p assume T: "taskId \<in> T"
  obtain r1 p1 where e1: "resolveTaskDeliveryOwner env current p = (r1, p1)" by fastforce
  obtain r2 p2 where e2: "canDeliverTaskToRequesterOrigin w env current p1 = (r2, p2)" by fastforce
  obtain r3 p3 where e3: "queueTaskSystemEvent w env current eventText p2 = (r3, p3)" by fastforce
  have s1: "steps T (tp_registry p) (tp_registry p1)" using callsD [OF calls_owner e1] .
  have s2: "steps T (tp_registry p) (tp_registry p2)" using s1 callsD [OF calls_canDeliver e2] by (rule rtranclp_trans)
  have s3: "steps T (tp_registry p) (tp_registry p3)" using s2 callsD [OF calls_queues(1) e3] by (rule rtranclp_trans)
  have s4: "steps T (tp_registry p) (tp_registry (noteNotified env taskId origin at p3))" for at
    using s3 keepsD [OF keeps_noteNotified [OF T]] by (rule rtranclp_trans)
  have s5: "steps T (tp_registry p) (tp_registry (snd (setDeliveryStatus env taskId status p1)))" for status
    using s1 callsD [OF calls_setDeliveryStatus [OF T] surjective_pairing] by (rule rtranclp_trans)
  show "steps T (tp_registry p) (tp_registry (startChangeDelivery w env taskId current event eventText origin p))"
    by (simp add: startChangeDelivery_def e1 e2 e3 s1 s2 s3 s4 s5 split: sum.splits bool.splits)
qed

lemma keeps_changeUnder: "taskId \<in> T \<Longrightarrow> keeps T (maybeDeliverTaskStateChangeUpdateUnderAdmission w env taskId latestEvent)"
proof (rule keepsI)
  fix p assume T: "taskId \<in> T"
  obtain r p1 where e: "lift (ensureTaskRegistryReady env) p = (r, p1)" by fastforce
  have s: "steps T (tp_registry p) (tp_registry p1)" using callsD [OF calls_ensure e] .
  have "steps T (tp_registry p) (tp_registry (startChangeDelivery w env taskId current event eventText origin p1))"
    for current event eventText origin
    using s keepsD [OF keeps_startChange [OF T]] by (rule rtranclp_trans)
  with s show "steps T (tp_registry p) (tp_registry (maybeDeliverTaskStateChangeUpdateUnderAdmission w env taskId latestEvent p))"
    by (cases r) (simp_all add: maybeDeliverTaskStateChangeUpdateUnderAdmission_def e Let_def split: option.splits)
qed

lemma keeps_change: "taskId \<in> T \<Longrightarrow> keeps T (maybeDeliverTaskStateChangeUpdate w env taskId latestEvent)"
  unfolding maybeDeliverTaskStateChangeUpdate_def by (intro keeps_underAdmission keeps_changeUnder)

lemma keeps_resume: "keeps UNIV (resumeRun w env run)"
proof (rule keepsI)
  fix p
  show "steps UNIV (tp_registry p) (tp_registry (resumeRun w env run p))"
    using keepsD [OF keeps_terminalUnder] keepsD [OF keeps_changeUnder] keepsD [OF keeps_runtimeLoaded]
      keepsD [OF keeps_sendAnswered] keepsD [OF keeps_noteNotified]
    by (cases run) (simp_all add: resumeRun_def changeRuntimeLoaded_def changeSendAnswered_def split: admission_outcome.splits)
qed

subsection \<open>Updates by callers\<close>

lemma calls_updateById:
  assumes "\<And>current. admissible patch current" "taskId \<in> T"
  shows "calls T (updateById env taskId patch)"
  unfolding updateById_def by (rule calls_lift, rule steps_whenReady, rule steps_update) (simp_all add: assms)

lemma admissible_terminal: "isTerminalTaskStatus s \<Longrightarrow> up_status patch = Some s \<Longrightarrow> up_runId patch = None \<Longrightarrow> admissible patch current"
  by (simp add: admissible_def)

lemma calls_byId:
  "calls UNIV (setTaskCleanupAfterById env taskId cleanupAfter)"
  "calls UNIV (updateTaskNotifyPolicyById env taskId notifyPolicy)"
  "calls UNIV (markTaskLostById env taskId endedAt lastEventAt error cleanup)"
  unfolding setTaskCleanupAfterById_def updateTaskNotifyPolicyById_def markTaskLostById_def
  by (rule calls_updateById, simp_all add: admissible_def isTerminalTaskStatus_def)+

lemma calls_markTerminal:
  "isTerminalTaskStatus status \<Longrightarrow>
   calls UNIV (markTaskTerminalById env taskId status childSessionKey endedAt lastEventAt error terminalSummary preserve terminalOutcome detail)"
  unfolding markTaskTerminalById_def by (rule calls_updateById) (simp_all add: admissible_terminal)

lemma assertLink_core: "taskCore (tp_registry (snd (assertParentFlowLinkAllowed env ownerKey scopeKind flowId p))) = taskCore (tp_registry p)"
proof (cases "nonBlank flowId")
  case (Some f)
  obtain r p1 where e: "lift (flowById env f) p = (r, p1)" by fastforce
  have "taskCore (tp_registry p1) = taskCore (tp_registry p)" using lift_registry [of "flowById env f" p] by (simp add: e)
  then show ?thesis by (cases r) (simp_all add: assertParentFlowLinkAllowed_def Some andThen_def e split: option.splits)
qed (simp add: assertParentFlowLinkAllowed_def answer_def)

lemma calls_assertLink [moves]: "calls T (assertParentFlowLinkAllowed env ownerKey scopeKind flowId)"
  by (rule callsI, rule steps_quiet) (rule assertLink_core)

lemma calls_update [moves]:
  "up_status patch = None \<Longrightarrow> up_runId patch = None \<Longrightarrow> taskId \<in> T \<Longrightarrow> calls T (lift (updateTask env taskId patch))"
  by (rule calls_lift, rule steps_update) (simp_all add: admissible_noStatus)

lemma calls_link: "calls UNIV (linkTaskToFlowById env taskId flowIdText)"
proof -
  have "calls UNIV (andThen (assertParentFlowLinkAllowed env ownerKey scopeKind (Some flowId))
      (\<lambda>_. lift (updateTask env taskId (noPatch\<lparr>up_parentFlowId := Some flowId\<rparr>))))" for ownerKey scopeKind flowId
    by (intro moves) simp_all
  then have "calls UNIV (\<lambda>p. let flowId = js_trim flowIdText
     in if flowId = [] then (Inr None, p)
        else case map_of (tg_tasks (tp_registry p)) taskId of
               None \<Rightarrow> (Inr None, p)
             | Some current \<Rightarrow>
                 if nonBlank (tr_parentFlowId current) \<noteq> None then (Inr (Some current), p)
                 else andThen (assertParentFlowLinkAllowed env (tr_ownerKey current) (tr_scopeKind current) (Some flowId))
                        (\<lambda>_. lift (updateTask env taskId (noPatch\<lparr>up_parentFlowId := Some flowId\<rparr>))) p)"
    by (auto simp: calls_def Let_def split: option.splits)
  then show ?thesis unfolding linkTaskToFlowById_def by (intro calls_andThen calls_ensure)
qed

subsection \<open>Creating a task\<close>

lemma mergePatch_simps [simp]: "up_status (mergePatch existing params agentId) = None" "up_runId (mergePatch existing params agentId) = None"
  by (simp_all add: mergePatch_def Let_def)

lemma steps_deliveryStateD: "upsertTaskDeliveryState env state st = (d, st1) \<Longrightarrow> steps T st st1"
  using steps_deliveryState [of T st env state] by simp

lemma mergeOrigin_steps: "mergeOrigin env existing origin p = (b, p1) \<Longrightarrow> steps T (tp_registry p) (tp_registry p1)"
  by (auto simp: mergeOrigin_def Let_def split: if_splits prod.splits dest: steps_deliveryStateD)

lemma calls_merge: "tr_taskId existing \<in> T \<Longrightarrow> calls T (mergeExistingTaskForCreate env existing params agentId)"
proof -
  assume T: "tr_taskId existing \<in> T"
  let ?go = "andThen (if fillBlank (tr_parentFlowId existing) (pa_parentFlowId params) \<noteq> None
      then assertParentFlowLinkAllowed env (tr_ownerKey existing) (tr_scopeKind existing) (pa_parentFlowId params) else answer ())
    (\<lambda>_. if mergePatch existing params agentId = noPatch then answer (Some existing)
         else lift (updateTask env (tr_taskId existing) (mergePatch existing params agentId)))"
  have c: "calls T ?go" by (intro moves T) simp_all
  have "calls T (\<lambda>p. case mergeOrigin env existing (pa_requesterOrigin params) p of (False, p1) \<Rightarrow> (Inr None, p1) | (True, p1) \<Rightarrow> ?go p1)"
  proof (rule callsI)
    fix p
    obtain b p1 where e: "mergeOrigin env existing (pa_requesterOrigin params) p = (b, p1)" by fastforce
    have s: "steps T (tp_registry p) (tp_registry p1)" using mergeOrigin_steps [OF e] .
    moreover have "steps T (tp_registry p1) (tp_registry (snd (?go p1)))" using c by (simp add: calls_def)
    ultimately have "steps T (tp_registry p) (tp_registry (snd (?go p1)))" by (rule rtranclp_trans)
    with s show "steps T (tp_registry p) (tp_registry (snd (case mergeOrigin env existing (pa_requesterOrigin params) p of
        (False, p1) \<Rightarrow> (Inr None, p1) | (True, p1) \<Rightarrow> ?go p1)))" by (cases b) (simp_all only: e prod.case bool.case snd_conv)
  qed
  then show ?thesis unfolding mergeExistingTaskForCreate_def by (intro calls_andThen calls_linked)
qed

lemma build_simps [simp]:
  "tr_taskId (buildTaskRecord env taskId params requester ownerKey scopeKind a r) = taskId"
  "tr_status (buildTaskRecord env taskId params requester ownerKey scopeKind a r) = normalizeTaskStatus (pa_status params)"
  by (simp_all add: buildTaskRecord_def Let_def)

lemma record_ok_build:
  "assertTaskOwner ownerKey scopeKind = Inr () \<Longrightarrow> js_trim ownerKey = ownerKey \<Longrightarrow>
   record_ok (buildTaskRecord env taskId params requester ownerKey scopeKind a r)"
  by (auto simp: record_ok_def buildTaskRecord_def Let_def cleanable_withCleanupAfter normalizeTaskTimestamps_timely
        assertTaskOwner_def split: if_splits)

lemma steps_store:
  assumes "tg_restore (tp_registry p) = TasksReady" "taskId \<notin> set (rowIds (tp_registry p))" "taskId \<in> T"
    and "record_ok task" "tr_taskId task = taskId"
  shows "steps T (tp_registry p) (tp_registry (snd (storeNewTask w env taskId task origin p)))"
proof -
  define d where "d = map_option (\<lambda>origin1. \<lparr>td_taskId = taskId, td_requesterOrigin = Some origin1, td_lastNotifiedEventAt = None\<rparr>)
    (Option.bind origin (te_normOrigin env))"
  obtain ok st where e: "tryPersistTaskUpsert env task d (tp_registry p) = (ok, st)" by fastforce
  define d' where "d' = nullish_or d (map_of (tg_deliveryStates (tp_registry p)) (tr_taskId task))"
  have c: "taskCore st = taskCore (if ok then (tp_registry p)\<lparr>tg_db := upsertTaskWithDeliveryStateToSqlite task d' (tg_db (tp_registry p))\<rparr> else tp_registry p)"
    using commit_cases [OF e [unfolded tryPersistTaskUpsert_def]] by (simp add: d'_def)
  obtain r st1 where e1: "syncFlowFromTaskAfterTaskMutation env task (insertTask taskId task d st) = (r, st1)" by fastforce
  have c1: "taskCore st1 = taskCore (insertTask taskId task d st)" using core_sync e1 by (metis snd_conv)
  have s: "steps T (tp_registry p) st1" if ok
  proof (rule r_into_rtranclp, rule micro.add [OF assms(1, 5, 3, 2, 4)])
    show "taskCore st1 = taskCore (insertTask taskId task d ((tp_registry p)\<lparr>tg_db := upsertTaskWithDeliveryStateToSqlite task d' (tg_db (tp_registry p))\<rparr>))"
      using c c1 that by (cases d) (simp_all add: taskCore_def insertTask_def)
  qed
  define p1 where "p1 = p\<lparr>tp_registry := emitTaskRegistryObserverEvent (TaskUpserted task None) st1\<rparr>"
  have s1: "steps T (tp_registry p) (tp_registry p1)" if ok
    using s [OF that] by (rule rtranclp_trans) (simp add: p1_def steps_quiet)
  then have s2: "steps T (tp_registry p) (tp_registry (maybeDeliverTaskTerminalUpdate w env taskId p1))" if ok
    using that keepsD [OF keeps_terminal [OF assms(3)]] by (blast intro: rtranclp_trans)
  have "steps T (tp_registry p) st" if "\<not> ok" using c that by (simp add: steps_quiet)
  then show ?thesis using s s1 s2
    by (cases ok; cases r) (simp_all add: storeNewTask_def Let_def d_def [symmetric] e e1 p1_def [symmetric])
qed

definition freshId :: "task_process \<Rightarrow> string \<Rightarrow> bool" where
  "freshId p taskId \<longleftrightarrow> taskId \<notin> set (rowIds (tp_registry p))"

lemma steps_create:
  assumes "freshId p taskId"
  shows "steps UNIV (tp_registry p) (tp_registry (snd (createTaskRecord w env taskId params p)))"
proof -
  obtain r p1 where e: "lift (ensureTaskRegistryReady env) p = (r, p1)" by fastforce
  have s: "steps UNIV (tp_registry p) (tp_registry p1)" using callsD [OF calls_ensure e] .
  show ?thesis
  proof (cases r)
    case (Inr u)
    have e': "ensureTaskRegistryReady env (tp_registry p) = (Inr u, tp_registry p1)"
      using e [unfolded Inr] by (auto simp: lift_def split: prod.splits)
    define requester where "requester = resolveTaskRequesterSessionKey (pa_requesterSessionKey params) (pa_ownerKey params) (pa_scopeKind params)"
    define scopeKind where "scopeKind = resolveTaskScopeKind (pa_scopeKind params) requester"
    define ownerKey where "ownerKey = resolveTaskOwnerKey requester (pa_ownerKey params)"
    have trimmed: "js_trim ownerKey = ownerKey" by (simp add: ownerKey_def resolveTaskOwnerKey_def Let_def)
    obtain q p2 where e2: "assertParentFlowLinkAllowed env ownerKey scopeKind (pa_parentFlowId params) p1 = (q, p2)" by fastforce
    have c2: "taskCore (tp_registry p2) = taskCore (tp_registry p1)" using assertLink_core e2 by (metis snd_conv)
    have ready: "tg_restore (tp_registry p2) = TasksReady" "taskId \<notin> set (rowIds (tp_registry p2))"
      using ensure_Inr [OF e'] c2 assms by (simp_all add: taskCore_def freshId_def rowIds_def)
    have s2: "steps UNIV (tp_registry p) (tp_registry p2)" using s steps_quiet [OF c2] by (rule rtranclp_trans)
    have m: "steps UNIV (tp_registry p) (tp_registry (snd (mergeExistingTaskForCreate env existing params a p2)))" for existing a
      using s2 callsD [OF calls_merge surjective_pairing] by (rule rtranclp_trans) simp
    have n: "steps UNIV (tp_registry p) (tp_registry (snd (storeNewTask w env taskId
        (buildTaskRecord env taskId params requester ownerKey scopeKind a b) origin p2)))"
      if "assertTaskOwner ownerKey scopeKind = Inr ()" for a b origin
      using s2 steps_store [OF ready] record_ok_build [OF that trimmed] by (auto intro: rtranclp_trans)
    show ?thesis using s s2 m n
      by (simp add: createTaskRecord_def Let_def andThen_def e Inr requester_def [symmetric] scopeKind_def [symmetric] ownerKey_def [symmetric] e2
            split: sum.splits option.splits)
  qed (simp add: createTaskRecord_def andThen_def e s)
qed

end
