(* ===== verification/Task_Registry_Safety.thy ===== *)
theory Task_Registry_Safety
  imports Task_Process_Moves Task_Flow_Safety
begin

text \<open>
  The registry of tasks over whole histories: the operations of callers, the deliveries in flight, the retry timers,
  other users of the registry of flows, reloads and restarts of the process in any order and with any outcome of reads
  and writes. A history starts with empty tables.
\<close>

subsection \<open>Updates of a run\<close>

lemma runPatch_admissible: "runApplies u current \<Longrightarrow> admissible (runPatch u current) current"
  by (auto simp: runApplies_def admissible_def runPatch_def Let_def shouldApplyRunScopedStatusUpdate_def split: option.splits if_splits)

definition currentAll :: "task_registry \<Rightarrow> task_record list \<Rightarrow> bool" where
  "currentAll st ms \<longleftrightarrow> tg_restore st = TasksReady \<and> distinct (map tr_taskId ms)
     \<and> (\<forall>m \<in> set ms. map_of (tg_tasks st) (tr_taskId m) = Some m)"

lemma currentAllD:
  assumes "currentAll st (m # ms)"
  shows "tg_restore st = TasksReady" "distinct (map tr_taskId ms)" "map_of (tg_tasks st) (tr_taskId m) = Some m"
    "k \<in> set ms \<Longrightarrow> tr_taskId k \<noteq> tr_taskId m" "k \<in> set ms \<Longrightarrow> map_of (tg_tasks st) (tr_taskId k) = Some k"
  using assms unfolding currentAll_def by (simp_all, metis image_eqI)

lemma currentAll_frame:
  assumes "steps {tr_taskId m} st st1" "currentAll st (m # ms)"
  shows "currentAll st1 ms"
  unfolding currentAll_def
proof (intro conjI ballI)
  note c = currentAllD [OF assms(2)]
  show "tg_restore st1 = TasksReady" using steps_ready [OF assms(1) c(1)] .
  show "distinct (map tr_taskId ms)" by (rule c(2))
  show "map_of (tg_tasks st1) (tr_taskId k) = Some k" if "k \<in> set ms" for k
    using steps_frame [OF assms(1) c(1)] c(4, 5) [OF that] by simp
qed

lemma steps_updateMatches:
  "currentAll (tp_registry p) ms \<Longrightarrow> steps UNIV (tp_registry p) (tp_registry (snd (updateMatches w env u ms p)))"
proof (induction ms arbitrary: p)
  case (Cons m ms)
  show ?case
  proof (cases "runApplies u m")
    case False
    have "currentAll (tp_registry p) ms" using Cons.prems by (simp add: currentAll_def)
    with False show ?thesis using Cons.IH by simp
  next
    case True
    let ?T = "{tr_taskId m}"
    obtain r p1 where e: "lift (updateTask env (tr_taskId m) (runPatch u m)) p = (r, p1)" by fastforce
    have "steps ?T (tp_registry p) (snd (updateTask env (tr_taskId m) (runPatch u m) (tp_registry p)))"
      using currentAllD(3) [OF Cons.prems] runPatch_admissible [OF True] by (intro steps_update) simp_all
    then have s1: "steps ?T (tp_registry p) (tp_registry p1)" using lift_registry [of "updateTask env (tr_taskId m) (runPatch u m)" p]
      by (simp add: e)
    show ?thesis
    proof (cases r)
      case (Inl x)
      with s1 True show ?thesis by (simp add: e steps_mono)
    next
      case (Inr task)
      define p2 where "p2 = (case task of None \<Rightarrow> p1 | Some t \<Rightarrow> if ru_suppressDelivery u then p1
        else maybeDeliverTaskTerminalUpdate w env (tr_taskId t)
               (maybeDeliverTaskStateChangeUpdate w env (tr_taskId t) (runEvent env u m) p1))"
      have id: "tr_taskId t = tr_taskId m" if "task = Some t" for t
      proof -
        have "updateTask env (tr_taskId m) (runPatch u m) (tp_registry p) = (Inr (Some t), tp_registry p1)"
          using e by (auto simp: lift_def Inr that split: prod.splits)
        from updateTask_id [OF this currentAllD(3) [OF Cons.prems]] show ?thesis by simp
      qed
      have "steps ?T (tp_registry p1) (tp_registry (maybeDeliverTaskTerminalUpdate w env (tr_taskId m)
          (maybeDeliverTaskStateChangeUpdate w env (tr_taskId m) (runEvent env u m) p1)))"
        by (rule rtranclp_trans [OF keepsD [OF keeps_change] keepsD [OF keeps_terminal]]) simp_all
      moreover have "p2 = p1 \<or> p2 = maybeDeliverTaskTerminalUpdate w env (tr_taskId m)
          (maybeDeliverTaskStateChangeUpdate w env (tr_taskId m) (runEvent env u m) p1)"
      proof (cases task)
        case (Some t)
        show ?thesis by (simp add: p2_def Some id [OF Some])
      qed (simp add: p2_def)
      ultimately have "steps ?T (tp_registry p1) (tp_registry p2)" by (metis rtranclp.rtrancl_refl)
      with s1 have s2: "steps ?T (tp_registry p) (tp_registry p2)" by (rule rtranclp_trans)
      from Cons.IH [OF currentAll_frame [OF s2 Cons.prems]] steps_mono [OF s2 subset_UNIV]
      have "steps UNIV (tp_registry p) (tp_registry (snd (updateMatches w env u ms p2)))" by (rule rtranclp_trans [rotated])
      then show ?thesis using True by (cases task) (simp_all add: e Inr p2_def Let_def)
    qed
  qed
qed simp

lemma matches_current:
  assumes "registry_inv st" "tg_restore st = TasksReady"
  shows "currentAll st (getTasksByRunScope st runId runtime sessionKey)"
proof -
  have f: "map_of (tg_tasks st) taskId = Some t \<Longrightarrow> tr_taskId t = taskId" for taskId t
    using assms(1) by (simp add: registry_inv_def filed_def)
  have "run_index.tracks (tg_tasks st) (tg_byRunId st)" using assms(1) by (simp add: registry_inv_def indexes_ok_def)
  then have "distinct (map tr_taskId (getTasksByRunId st runId))"
    unfolding getTasksByRunId_holders by (intro distinct_tasksOfIds run_index.tracksD(1) f)
  then have d: "distinct (map tr_taskId (filter P (getTasksByRunId st runId)))" for P
    by (rule distinct_map_filter)
  have m: "map_of (tg_tasks st) (tr_taskId t) = Some t" if "t \<in> set (getTasksByRunId st runId)" for t
    using that f unfolding getTasksByRunId_holders set_tasksOfIds by fastforce
  have "currentAll st (filter P (getTasksByRunId st runId))" for P
    using d m assms(2) by (simp add: currentAll_def)
  moreover have "\<exists>P. getTasksByRunScope st runId runtime sessionKey = filter P (getTasksByRunId st runId)"
    by (cases "optionalString sessionKey") (auto simp: getTasksByRunScope_def Let_def intro: exI [of _ "\<lambda>_. False"])
  ultimately show ?thesis by metis
qed

lemma steps_runUpdate:
  assumes "registry_inv (tp_registry p)"
  shows "steps UNIV (tp_registry p) (tp_registry (snd (updateTaskStateByRunId w env runId runtime sessionKey u p)))"
proof -
  obtain r p1 where e: "lift (ensureTaskRegistryReady env) p = (r, p1)" by fastforce
  have s: "steps UNIV (tp_registry p) (tp_registry p1)" using callsD [OF calls_ensure e] .
  show ?thesis
  proof (cases r)
    case (Inr x)
    have "ensureTaskRegistryReady env (tp_registry p) = (Inr x, tp_registry p1)"
      using e [unfolded Inr] by (auto simp: lift_def split: prod.splits)
    from matches_current [OF steps_inv [OF s assms]] ensure_Inr [OF this]
    have "currentAll (tp_registry p1) (getTasksByRunScope (tp_registry p1) runId runtime sessionKey)" by blast
    from rtranclp_trans [OF s steps_updateMatches [OF this]] show ?thesis
      by (simp add: updateTaskStateByRunId_def andThen_def e Inr)
  qed (simp add: updateTaskStateByRunId_def andThen_def e s)
qed

lemma calls_patchMatches:
  assumes "up_status patch = None" "up_runId patch = None"
  shows "calls UNIV (patchMatches env patch ms)"
proof (induction ms)
  case (Cons m ms)
  show ?case
  proof (rule callsI)
    fix p
    obtain r p1 where e: "lift (updateTask env (tr_taskId m) patch) p = (r, p1)" by fastforce
    have s: "steps UNIV (tp_registry p) (tp_registry p1)" using callsD [OF calls_update [OF assms UNIV_I] e] .
    moreover have "steps UNIV (tp_registry p1) (tp_registry (snd (patchMatches env patch ms p1)))"
      using Cons.IH by (simp add: calls_def)
    ultimately have "steps UNIV (tp_registry p) (tp_registry (snd (patchMatches env patch ms p1)))" by (rule rtranclp_trans)
    with s show "steps UNIV (tp_registry p) (tp_registry (snd (patchMatches env patch (m # ms) p)))"
      by (simp add: e split: sum.splits option.splits)
  qed
qed (simp add: calls_def)

lemma calls_runDelivery: "calls UNIV (updateTaskDeliveryByRunId env runId runtime sessionKey deliveryStatus error)"
proof -
  have "calls UNIV (\<lambda>p. patchMatches env patch (getTasksByRunScope (tp_registry p) runId runtime sessionKey) p)"
    if "up_status patch = None" "up_runId patch = None" for patch
    using calls_patchMatches [OF that] by (simp add: calls_def)
  then show ?thesis unfolding updateTaskDeliveryByRunId_def updateTasksByRunId_def
    by (intro calls_andThen calls_ensure) simp
qed

subsection \<open>Deleting, reloading and restarting\<close>

text \<open>The three shapes of an operation: small steps, small steps followed by one removal, and forgetting of memory
  followed by small steps.\<close>

inductive operation :: "task_registry \<Rightarrow> task_registry \<Rightarrow> bool" where
  small: "steps UNIV st st' \<Longrightarrow> operation st st'"
| removal: "steps UNIV st a \<Longrightarrow> macro a st' \<Longrightarrow> operation st st'"
| forget: "macro st b \<Longrightarrow> taskCore b = taskCore ((clearTaskRegistryMemory st)\<lparr>tg_restore := TasksUninitialized\<rparr>) \<Longrightarrow>
    steps UNIV b st' \<Longrightarrow> operation st st'"

lemma operation_delete: "operation st (snd (deleteTaskRecordById env taskId st))"
proof -
  obtain r st0 where e: "ensureTaskRegistryReady env st = (r, st0)" by fastforce
  have m0: "steps UNIV st st0" using steps_ensure [of UNIV st env] by (simp add: e)
  show ?thesis
  proof (cases "map_of (tg_tasks st0) taskId")
    case None
    with m0 show ?thesis by (cases r) (simp_all add: deleteTaskRecordById_def whenTasksReady_def e operation.small)
  next
    case (Some current)
    obtain r1 st1 where e1: "ensureLinkedTaskFlowRegistryReady env current st0 = (r1, st1)" by fastforce
    have c1: "taskCore st1 = taskCore st0" using core_calls(5) e1 by (metis snd_conv)
    obtain ok st2 where e2: "tryPersistTaskDelete env taskId st1 = (ok, st2)" by fastforce
    have c2: "taskCore st2 = taskCore (if ok then st1\<lparr>tg_db := deleteTaskAndDeliveryStateFromSqlite taskId (tg_db st1)\<rparr> else st1)"
      using commit_cases [OF e2 [unfolded tryPersistTaskDelete_def]] .
    define st3 where "st3 = emitTaskRegistryObserverEvent (TaskDeleted (tr_taskId current) current)
        (st2\<lparr>tg_byOwnerKey := deleteOwnerKeyIndex taskId current (tg_byOwnerKey st2),
           tg_byParentFlowId := deleteParentFlowIdIndex taskId current (tg_byParentFlowId st2),
           tg_byRelatedSessionKey := deleteRelatedSessionKeyIndex taskId current (tg_byRelatedSessionKey st2),
           tg_tasks := AList.delete taskId (tg_tasks st2), tg_deliveryStates := AList.delete taskId (tg_deliveryStates st2),
           tg_byRunId := rebuildRunIdIndex (AList.delete taskId (tg_tasks st2))\<rparr>)"
    have "macro st0 st3" if ok
      using c1 c2 that by (intro macro.remove [OF Some]) (simp add: st3_def taskCore_def removeTask_def Let_def emitTaskRegistryObserverEvent_def)
    then have "operation st st3" if ok using operation.removal [OF m0] that by blast
    moreover have "operation st st1" using rtranclp_trans [OF m0 steps_quiet [OF c1]] by (rule operation.small)
    moreover have "operation st st2" if "\<not> ok"
      using c1 c2 that rtranclp_trans [OF m0 steps_quiet, of st2] by (simp add: operation.small)
    ultimately show ?thesis using operation.small [OF m0]
      by (cases r; cases r1; cases ok)
        (simp_all add: deleteTaskRecordById_def whenTasksReady_def e Some e1 e2 st3_def [symmetric] Let_def)
  qed
qed

lemma operation_reload: "operation st (snd (reloadTaskRegistryFromStore env st))"
  unfolding reloadTaskRegistryFromStore_def
  by (rule operation.forget [OF _ refl steps_ensure], rule macro.wipe) (rule refl)

lemma operation_inv: "operation st st' \<Longrightarrow> registry_inv st \<Longrightarrow> registry_inv st'"
  by (induction rule: operation.induct) (auto intro: steps_inv macro_inv)

subsection \<open>Histories\<close>

definition initial_tasks :: "task_process \<Rightarrow> bool" where
  "initial_tasks p \<longleftrightarrow> (let st = tp_registry p
     in tg_tasks st = [] \<and> tg_byRunId st = [] \<and> tg_byOwnerKey st = [] \<and> tg_byParentFlowId st = []
        \<and> tg_byRelatedSessionKey st = [] \<and> tg_restore st = TasksUninitialized \<and> tb_tasks (tg_db st) = [])"

definition onRegistry :: "(task_registry \<Rightarrow> task_registry) \<Rightarrow> task_process \<Rightarrow> task_process" where
  "onRegistry f p = p\<lparr>tp_registry := f (tp_registry p)\<rparr>"

text \<open>The database outlives the process; everything else starts over.\<close>

definition restartTasks :: "task_process \<Rightarrow> task_process" where
  "restartTasks p =
     \<lparr>tp_registry = (clearTaskRegistryMemory (tp_registry p))\<lparr>tg_restore := TasksUninitialized, tg_retryWaiters := [],
        tg_flows := processRestart (tg_flows (tp_registry p))\<rparr>, tp_runs = [], tp_outbox = tp_outbox p\<rparr>"

inductive task_step :: "task_process \<Rightarrow> task_process \<Rightarrow> bool" where
  create: "freshId p taskId \<Longrightarrow> task_step p (snd (createTaskRecord w env taskId params p))"
| cleanup: "task_step p (snd (setTaskCleanupAfterById env taskId cleanupAfter p))"
| terminal: "isTerminalTaskStatus status \<Longrightarrow>
    task_step p (snd (markTaskTerminalById env taskId status childSessionKey endedAt lastEventAt error summary preserve outcome detail p))"
| lost: "task_step p (snd (markTaskLostById env taskId endedAt lastEventAt error cleanup p))"
| notify: "task_step p (snd (updateTaskNotifyPolicyById env taskId notifyPolicy p))"
| link: "task_step p (snd (linkTaskToFlowById env taskId flowId p))"
| run: "task_step p (snd (updateTaskStateByRunId w env runId runtime sessionKey u p))"
| run_delivery: "task_step p (snd (updateTaskDeliveryByRunId env runId runtime sessionKey deliveryStatus error p))"
| delete: "task_step p (snd (lift (deleteTaskRecordById env taskId) p))"
| deliver: "task_step p (maybeDeliverTaskTerminalUpdate w env taskId p)"
| resume: "task_step p (resumeNth w env i p)"
| retry: "task_step p (onRegistry (retryTimerFires env gate taskId) p)"
| retry_admitted: "task_step p (onRegistry (retryAdmitted env) p)"
| query: "task_step p (snd (lift (ensureTaskRegistryReady env) p))"
| flow_call: "task_step p (onRegistry (\<lambda>st. st\<lparr>tg_flows := flows\<rparr>) p)"
| reload: "task_step p (snd (lift (reloadTaskRegistryFromStore env) p))"
| restart: "task_step p (restartTasks p)"

text \<open>Every operation is a sequence of small steps, of which only the deletion removes a record and only a reload or a
  restart forgets memory.\<close>

definition ended :: "task_registry \<Rightarrow> string \<Rightarrow> bool" where
  "ended st taskId \<longleftrightarrow> (\<exists>task. storedTask (tg_db st) taskId = Some task \<and> isTerminalTaskStatus (tr_status task))"

definition gone :: "task_registry \<Rightarrow> string \<Rightarrow> bool" where
  "gone st taskId \<longleftrightarrow> storedTask (tg_db st) taskId = None"

lemma steps_retries: "steps T st (retryTimerFires env gate taskId st)" "steps T st (retryAdmitted env st)"
proof -
  show "steps T st (retryTimerFires env gate taskId st)"
  proof (cases "map_of (tg_retryTimers st) taskId")
    case (Some attempt)
    define st1 where "st1 = st\<lparr>tg_retryTimers := AList.delete taskId (tg_retryTimers st)\<rparr>"
    have s: "steps T st st1" by (rule steps_quiet) (simp add: st1_def)
    have "steps T st (st1\<lparr>tg_retryWaiters := x\<rparr>)" for x by (rule steps_quiet) (simp add: st1_def)
    then show ?thesis using s rtranclp_trans [OF s steps_retry]
      by (cases gate) (simp_all add: retryTimerFires_def Some st1_def [symmetric] Let_def)
  qed (simp add: retryTimerFires_def)
  show "steps T st (retryAdmitted env st)"
  proof (cases "tg_retryWaiters st")
    case (Cons entry rest)
    have "steps T st (st\<lparr>tg_retryWaiters := rest\<rparr>)" by (rule steps_quiet) simp
    then show ?thesis using steps_retry by (cases entry) (auto simp: retryAdmitted_def Cons intro: rtranclp_trans)
  qed (simp add: retryAdmitted_def)
qed

lemma resumeNth_steps: "steps UNIV (tp_registry p) (tp_registry (resumeNth w env i p))"
  using keepsD [OF keeps_resume, of "p\<lparr>tp_runs := x\<rparr>" for x] by (simp add: resumeNth_def)

lemma calls_steps: "calls T f \<Longrightarrow> steps T (tp_registry p) (tp_registry (snd (f p)))"
  by (simp add: calls_def)

lemma operation_restart: "operation (tp_registry p) (tp_registry (restartTasks p))"
proof (rule operation.forget)
  show c: "taskCore (tp_registry (restartTasks p)) = taskCore ((clearTaskRegistryMemory (tp_registry p))\<lparr>tg_restore := TasksUninitialized\<rparr>)"
    by (simp add: restartTasks_def taskCore_def)
  show "macro (tp_registry p) (tp_registry (restartTasks p))" using c by (rule macro.wipe)
qed simp

lemma task_step_operation:
  assumes "task_step p p'" "registry_inv (tp_registry p)"
  shows "operation (tp_registry p) (tp_registry p')"
  using assms
proof cases
  case (create taskId w env params)
  then show ?thesis using steps_create operation.small by simp
next
  case (delete env taskId)
  then show ?thesis using operation_delete by simp
next
  case (reload env)
  then show ?thesis using operation_reload by simp
next
  case restart
  then show ?thesis using operation_restart by simp
next
  case (run w env runId runtime sessionKey u)
  then show ?thesis using steps_runUpdate [OF assms(2)] operation.small by simp
next
  case (terminal status env taskId childSessionKey endedAt lastEventAt error summary preserve outcome detail)
  then show ?thesis using calls_steps [OF calls_markTerminal] operation.small by simp
next
  case (flow_call flows)
  then show ?thesis using operation.small [OF steps_quiet] by (simp add: onRegistry_def)
qed (simp_all add: operation.small steps_retries resumeNth_steps onRegistry_def steps_ensure keepsD [OF keeps_terminal]
       calls_steps [OF calls_byId(1)] calls_steps [OF calls_byId(2)] calls_steps [OF calls_byId(3)] calls_steps [OF calls_link]
       calls_steps [OF calls_runDelivery])

lemma initial_inv: "initial_tasks p \<Longrightarrow> registry_inv (tp_registry p)"
  by (simp add: initial_tasks_def Let_def registry_inv_def indexes_empty filed_def table_ok_def)

interpretation task_history: inductive_invariant initial_tasks task_step "\<lambda>p. registry_inv (tp_registry p)"
proof
  show "registry_inv (tp_registry p)" if "initial_tasks p" for p using that by (rule initial_inv)
  show "registry_inv (tp_registry p')" if "registry_inv (tp_registry p)" "task_step p p'" for p p'
    using operation_inv [OF task_step_operation [OF that(2, 1)] that(1)] .
qed

lemma ended_core: "taskCore st' = taskCore st \<Longrightarrow> ended st' = ended st \<and> gone st' = gone st"
  by (simp add: taskCore_def ended_def gone_def fun_eq_iff)

lemma micro_ended:
  assumes "micro T st st'" "registry_inv st" "ended st taskId"
  shows "ended st' taskId"
  using assms
proof (induction rule: micro.induct)
  case (change st k current patch st' d)
  have "storedTask (tg_db st) k = Some (durableTask current)" using ready_invD(4) [OF change.prems(1) change.hyps(1)] change.hyps(1) by simp
  then show ?case using change.prems(2) change.hyps(3) ready_invD(2) [OF change.prems(1) change.hyps(1)]
    ended_core [OF change.hyps(4)] by (auto simp: ended_def admissible_def)
next
  case (add st task k st' d d')
  have "table_ok (tg_db st)" using add.prems(1) by (simp add: registry_inv_def)
  then have "storedTask (tg_db st) k = None" using add.hyps(4) row_stored by (simp add: rowIds_def)
  then show ?case using add.prems(2) ended_core [OF add.hyps(6)] add.hyps(2) by (auto simp: ended_def insertTask_def)
next
  case (note_delivery st' st d)
  then show ?case using ended_core [OF note_delivery.hyps] by (simp add: ended_def)
qed (auto dest!: core_eqD simp: ended_def clearTaskRegistryMemory_def)

lemma steps_ended: "steps T st st' \<Longrightarrow> registry_inv st \<Longrightarrow> ended st taskId \<Longrightarrow> ended st' taskId"
  by (induction rule: rtranclp_induct) (auto intro: micro_ended steps_inv)

lemma macro_ended:
  assumes "macro st st'" "registry_inv st" "ended st taskId"
  shows "ended st' taskId \<or> gone st' taskId"
  using assms
proof (induction rule: macro.induct)
  case (remove st k current st')
  then show ?case using ended_core [OF remove.hyps(2)] by (auto simp: ended_def gone_def removeTask_def Let_def)
next
  case (micros st st')
  then show ?case using micro_ended by blast
next
  case (wipe st' st)
  then show ?case using core_eqD [OF wipe.hyps] by (simp add: ended_def clearTaskRegistryMemory_def)
qed

lemma operation_ended:
  assumes "operation st st'" "registry_inv st" "ended st taskId"
  shows "ended st' taskId \<or> gone st' taskId"
  using assms
proof (induction rule: operation.induct)
  case (small st st')
  then show ?case using steps_ended by blast
next
  case (removal st a st')
  then show ?case using steps_ended steps_inv macro_ended by blast
next
  case (forget st b st')
  have "ended b taskId" using forget.prems(2) core_eqD [OF forget.hyps(2)] by (simp add: ended_def clearTaskRegistryMemory_def)
  then show ?case using steps_ended forget.hyps(1, 3) forget.prems(1) macro_inv by blast
qed

subsection \<open>Retries\<close>

inductive retry_step :: "task_registry \<Rightarrow> task_registry \<Rightarrow> bool" where
  fires: "taskId \<in> fst ` set (tg_retryTimers st) \<Longrightarrow> retry_step st (retryTimerFires env gate taskId st)"
| admitted: "tg_retryWaiters st \<noteq> [] \<Longrightarrow> retry_step st (retryAdmitted env st)"

definition attemptsLeft :: "nat \<Rightarrow> nat" where
  "attemptsLeft attempt = 2 * (length TASK_FLOW_SYNC_RETRY_DELAYS_MS - attempt)"

definition retryBudget :: "task_registry \<Rightarrow> nat" where
  "retryBudget st = (\<Sum>(taskId, attempt) \<leftarrow> tg_retryTimers st. attemptsLeft attempt + 2)
     + (\<Sum>(taskId, attempt) \<leftarrow> tg_retryWaiters st. attemptsLeft attempt + 1)"

lemma budget_cong: "tg_retryTimers st' = tg_retryTimers st \<Longrightarrow> tg_retryWaiters st' = tg_retryWaiters st \<Longrightarrow> retryBudget st' = retryBudget st"
  by (simp add: retryBudget_def)

lemma budget_schedule: "retryBudget (scheduleTaskFlowSyncRetry task (Suc attempt) st) \<le> retryBudget st + attemptsLeft attempt"
  by (simp add: scheduleTaskFlowSyncRetry_def Let_def retryBudget_def attemptsLeft_def TASK_FLOW_SYNC_RETRY_DELAYS_MS_def) arith

lemma budget_flows: "onFlows env f st = (r, st1) \<Longrightarrow> retryBudget st1 = retryBudget st"
  by (auto simp: onFlows_def retryBudget_def split: prod.splits)

lemma budget_restore: "ensureTaskRegistryReady env st = (r, st1) \<Longrightarrow> retryBudget st1 \<le> retryBudget st"
  by (auto simp: ensureTaskRegistryReady_def restoreTaskRegistryOnce_def restoredRegistry_def clearTaskRegistryMemory_def Let_def
        emitTaskRegistryObserverEvent_def retryBudget_def split: task_restore.splits sum.splits prod.splits if_splits)

lemma budget_latest: "findLatestTaskForFlowId env flowId st = (r, st1) \<Longrightarrow> retryBudget st1 \<le> retryBudget st"
  by (auto simp: findLatestTaskForFlowId_def listTasksForFlowId_def whenTasksReady_def Let_def split: prod.splits sum.splits
        dest: budget_restore)

lemma budget_retry: "retryBudget (retryTaskFlowSync env taskId attempt st) \<le> retryBudget st + attemptsLeft attempt"
proof (cases "Option.bind (map_of (tg_tasks st) taskId) (\<lambda>current. nonBlank (tr_parentFlowId current))")
  case None
  then show ?thesis by (auto simp: retryTaskFlowSync_def split: option.splits)
next
  case (Some flowId)
  then obtain current where current: "map_of (tg_tasks st) taskId = Some current" "nonBlank (tr_parentFlowId current) = Some flowId"
    by (auto simp: Option.bind_eq_Some_conv)
  obtain r st1 where e: "findLatestTaskForFlowId env flowId st = (r, st1)" by fastforce
  obtain q st2 where e2: "syncTaskFlow env current st1 = (q, st2)" by fastforce
  have "retryBudget st1 \<le> retryBudget st" "retryBudget st2 = retryBudget st1"
    using budget_latest [OF e] budget_flows [OF e2 [unfolded syncTaskFlow_def]] .
  then show ?thesis using budget_schedule [of current attempt st2]
    by (auto simp: retryTaskFlowSync_def current e e2 split: sum.splits sync_result.splits)
qed

lemma sum_delete:
  "map_of xs k = Some a \<Longrightarrow> (\<Sum>(x, n) \<leftarrow> AList.delete k xs. f n) + f a \<le> (\<Sum>(x, n) \<leftarrow> xs. (f n :: nat))"
proof (induction xs)
  case (Cons entry xs)
  obtain x n where entry: "entry = (x, n)" by (cases entry)
  have le: "(\<Sum>(x, n) \<leftarrow> AList.delete k ys. f n) \<le> (\<Sum>(x, n) \<leftarrow> ys. f n)" for ys
    by (induction ys) (auto simp: AList.delete_eq)
  show ?case using Cons le [of xs] by (auto simp: entry AList.delete_eq)
qed simp

lemma budget_step: "retry_step st st' \<Longrightarrow> retryBudget st' < retryBudget st"
proof (induction rule: retry_step.induct)
  case (fires taskId st env gate)
  then obtain attempt where a: "map_of (tg_retryTimers st) taskId = Some attempt"
    by (metis (no_types, lifting) imageE map_of_eq_None_iff not_None_eq imageI)
  define st1 where "st1 = st\<lparr>tg_retryTimers := AList.delete taskId (tg_retryTimers st)\<rparr>"
  have d: "retryBudget st1 + attemptsLeft attempt + 2 \<le> retryBudget st"
    using sum_delete [OF a, of "\<lambda>n. attemptsLeft n + 2"] by (simp add: retryBudget_def st1_def)
  moreover have "retryBudget (st1\<lparr>tg_retryWaiters := tg_retryWaiters st1 @ [(taskId, attempt)]\<rparr>) = retryBudget st1 + attemptsLeft attempt + 1"
    by (simp add: retryBudget_def)
  ultimately show ?case using budget_retry [of env taskId attempt st1]
    by (cases gate) (simp_all add: retryTimerFires_def a st1_def [symmetric] Let_def)
next
  case (admitted st env)
  then obtain taskId attempt rest where w: "tg_retryWaiters st = (taskId, attempt) # rest"
    by (metis neq_Nil_conv surj_pair)
  have "retryBudget (st\<lparr>tg_retryWaiters := rest\<rparr>) + attemptsLeft attempt + 1 = retryBudget st"
    by (simp add: retryBudget_def w)
  then show ?case using budget_retry [of env taskId attempt "st\<lparr>tg_retryWaiters := rest\<rparr>"]
    by (simp add: retryAdmitted_def w)
qed

subsection \<open>Properties\<close>

lemma filed_range: "filed tasks \<Longrightarrow> {task. \<exists>taskId. map_of tasks taskId = Some task \<and> P task} = {task \<in> snd ` set tasks. P task}"
  by (force simp: filed_def dest: map_of_SomeD)

lemma optionKeys_iff [simp]: "key \<in> set (optionKeys k) \<longleftrightarrow> k = Some key"
  by (cases k) (auto simp: optionKeys_def)

lemma indexed_sets:
  assumes "registry_inv st"
  shows "set (getTasksByRunId st runId) = {task \<in> snd ` set (tg_tasks st). nonBlank (tr_runId task) = Some (js_trim runId)}"
    and "set (listTasksFromIndex st (tg_byOwnerKey st) key) = {task \<in> snd ` set (tg_tasks st). optionalString (Some (tr_ownerKey task)) = Some key}"
    and "set (listTasksFromIndex st (tg_byParentFlowId st) key) = {task \<in> snd ` set (tg_tasks st). nonBlank (tr_parentFlowId task) = Some key}"
    and "set (listTasksFromIndex st (tg_byRelatedSessionKey st) key) = {task \<in> snd ` set (tg_tasks st). key \<in> set (getTaskRelatedSessionIndexKeys task)}"
proof -
  have f: "filed (tg_tasks st)" and i: "indexes_ok st" using assms by (simp_all add: registry_inv_def)
  show "set (getTasksByRunId st runId) = {task \<in> snd ` set (tg_tasks st). nonBlank (tr_runId task) = Some (js_trim runId)}"
    using i run_index.ids_of_query [of st "tg_byRunId st" "js_trim runId"] filed_range [OF f]
    by (simp add: getTasksByRunId_holders indexes_ok_def runKeys_def)
  show "set (listTasksFromIndex st (tg_byOwnerKey st) key) = {task \<in> snd ` set (tg_tasks st). optionalString (Some (tr_ownerKey task)) = Some key}"
    using i owner_index.ids_of_query [of st "tg_byOwnerKey st" key] filed_range [OF f]
    by (simp add: set_listTasksFromIndex indexes_ok_def ownerKeys_def)
  show "set (listTasksFromIndex st (tg_byParentFlowId st) key) = {task \<in> snd ` set (tg_tasks st). nonBlank (tr_parentFlowId task) = Some key}"
    using i flow_index.ids_of_query [of st "tg_byParentFlowId st" key] filed_range [OF f]
    by (simp add: set_listTasksFromIndex indexes_ok_def flowKeys_def)
  show "set (listTasksFromIndex st (tg_byRelatedSessionKey st) key) = {task \<in> snd ` set (tg_tasks st). key \<in> set (getTaskRelatedSessionIndexKeys task)}"
    using i session_index.ids_of_query [of st "tg_byRelatedSessionKey st" key] filed_range [OF f]
    by (simp add: set_listTasksFromIndex indexes_ok_def)
qed

lemma session_key_iff:
  "key \<in> set (getTaskRelatedSessionIndexKeys task) \<longleftrightarrow>
   optionalString (Some (tr_ownerKey task)) = Some key \<or> optionalString (tr_childSessionKey task) = Some key"
  by (auto simp: getTaskRelatedSessionIndexKeys_def uniqueStrings_def uniqueValues_def List.map_filter_simps split: option.splits)

lemma hasActive_eq:
  assumes "registry_inv st" "tg_restore st = TasksReady" "optionalString (Some sessionKey) = Some key"
  shows "fst (hasActiveTaskForChildSessionKey env sessionKey exclude st)
    = Inr (\<exists>task \<in> snd ` set (tg_tasks st). Some (tr_taskId task) \<noteq> exclude \<and> isActiveTaskStatus (tr_status task)
        \<and> optionalString (tr_childSessionKey task) = Some key)"
proof -
  have f: "filed (tg_tasks st)" and tracks: "session_index.tracks (tg_tasks st) (tg_byRelatedSessionKey st)"
    using assms(1) by (simp_all add: registry_inv_def indexes_ok_def)
  define hit where "hit task \<longleftrightarrow> Some (tr_taskId task) \<noteq> exclude \<and> isActiveTaskStatus (tr_status task)
    \<and> optionalString (tr_childSessionKey task) = Some key" for task :: task_record
  have "fst (hasActiveTaskForChildSessionKey env sessionKey exclude st)
    = Inr (\<exists>taskId \<in> set (holders (tg_byRelatedSessionKey st) key). Some taskId \<noteq> exclude
        \<and> (case map_of (tg_tasks st) taskId of None \<Rightarrow> False
           | Some task \<Rightarrow> isActiveTaskStatus (tr_status task) \<and> optionalString (tr_childSessionKey task) = Some key))"
    using assms(2, 3) by (simp add: hasActiveTaskForChildSessionKey_def whenTasksReady_def ensure_ready holders_def list_ex_iff split: option.splits)
  also have "\<dots> = Inr (\<exists>taskId task. map_of (tg_tasks st) taskId = Some task \<and> hit task)"
  proof -
    have id: "tr_taskId task = taskId" if "map_of (tg_tasks st) taskId = Some task" for taskId task
      using f that by (simp add: filed_def)
    have "taskId \<in> set (holders (tg_byRelatedSessionKey st) key)" if "map_of (tg_tasks st) taskId = Some task" "hit task" for taskId task
      using session_index.tracksD(2) [OF tracks, of taskId key] that by (auto simp: hit_def session_key_iff)
    moreover have "(Some taskId \<noteq> exclude \<and> (case map_of (tg_tasks st) taskId of None \<Rightarrow> False
        | Some task \<Rightarrow> isActiveTaskStatus (tr_status task) \<and> optionalString (tr_childSessionKey task) = Some key))
      \<longleftrightarrow> (\<exists>task. map_of (tg_tasks st) taskId = Some task \<and> hit task)" for taskId
      using id [of taskId] by (cases "map_of (tg_tasks st) taskId") (auto simp: hit_def)
    ultimately show ?thesis by (simp only: sum.inject) blast
  qed
  also have "\<dots> = Inr (\<exists>task \<in> snd ` set (tg_tasks st). hit task)"
    unfolding sum.inject using filed_range [OF f, of hit] by blast
  finally show ?thesis by (simp add: hit_def)
qed

text \<open>C25. The queries through the indexes return what a scan of all records would: in every reachable state that is or can
  be restored, the tasks of an owner, of a flow, of a related session and of a run are exactly the records whose trimmed
  property is the trimmed key, and the check for an active task of a child session sees every such task.\<close>

theorem indexed_queries_match_scan:
  assumes "reachable initial_tasks task_step p" "ensureTaskRegistryReady env (tp_registry p) = (Inr (), st)"
  shows "(\<exists>owned. listTasksForOwnerKey env key (tp_registry p) = (Inr owned, st)
        \<and> set owned = {task \<in> snd ` set (tg_tasks st). optionalString (Some key) \<noteq> None
            \<and> optionalString (Some (tr_ownerKey task)) = optionalString (Some key)})
    \<and> (\<exists>linked. listTasksForFlowId env flowId (tp_registry p) = (Inr linked, st)
        \<and> set linked = {task \<in> snd ` set (tg_tasks st). nonBlank (Some flowId) \<noteq> None \<and> nonBlank (tr_parentFlowId task) = nonBlank (Some flowId)})
    \<and> (\<exists>related. listTasksForRelatedSessionKey env key (tp_registry p) = (Inr related, st)
        \<and> set related = {task \<in> snd ` set (tg_tasks st). optionalString (Some key) \<noteq> None
            \<and> (optionalString (Some (tr_ownerKey task)) = optionalString (Some key) \<or> optionalString (tr_childSessionKey task) = optionalString (Some key))})
    \<and> set (getTasksByRunId st runId) = {task \<in> snd ` set (tg_tasks st). nonBlank (tr_runId task) = Some (js_trim runId)}
    \<and> fst (hasActiveTaskForChildSessionKey env key exclude (tp_registry p))
        = Inr (\<exists>task \<in> snd ` set (tg_tasks st). Some (tr_taskId task) \<noteq> exclude \<and> isActiveTaskStatus (tr_status task)
            \<and> optionalString (Some key) \<noteq> None \<and> optionalString (tr_childSessionKey task) = optionalString (Some key))"
proof -
  have "steps UNIV (tp_registry p) st" using steps_ensure [of UNIV "tp_registry p" env] by (simp add: assms(2))
  then have inv: "registry_inv st" using task_history.reachable_inv [OF assms(1)] by (rule steps_inv)
  have ready: "tg_restore st = TasksReady" using ensure_Inr [OF assms(2)] by simp
  note q = indexed_sets [OF inv]
  have active: "fst (hasActiveTaskForChildSessionKey env key exclude (tp_registry p)) = fst (hasActiveTaskForChildSessionKey env key exclude st)"
    by (simp add: hasActiveTaskForChildSessionKey_def whenTasksReady_def assms(2) ensure_ready [OF ready])
  have "fst (hasActiveTaskForChildSessionKey env key exclude st)
        = Inr (\<exists>task \<in> snd ` set (tg_tasks st). Some (tr_taskId task) \<noteq> exclude \<and> isActiveTaskStatus (tr_status task)
            \<and> optionalString (Some key) \<noteq> None \<and> optionalString (tr_childSessionKey task) = optionalString (Some key))"
  proof (cases "optionalString (Some key)")
    case None
    then show ?thesis by (simp add: hasActiveTaskForChildSessionKey_def whenTasksReady_def ensure_ready [OF ready])
  qed (simp add: hasActive_eq [OF inv ready])
  moreover have "nonBlank (Some flowId) = (if js_trim flowId = [] then None else Some (js_trim flowId))"
    by (simp add: nonBlank_def Let_def)
  ultimately show ?thesis unfolding active
    by (cases "optionalString (Some key)")
      (simp_all add: listTasksForOwnerKey_def listTasksForFlowId_def listTasksForRelatedSessionKey_def whenTasksReady_def assms(2) q session_key_iff Let_def)
qed

text \<open>C33. The tables hold what memory holds: from every reachable ready state, reloading from readable tables succeeds, leaves
  the tables as they are, and finds for every id the record that memory had, as the database keeps it.\<close>

theorem task_reload_round_trip:
  assumes "reachable initial_tasks task_step p" "tg_restore (tp_registry p) = TasksReady" "te_loadError env = None"
    and "reloadTaskRegistryFromStore env (tp_registry p) = (r, st)"
  shows "r = Inr () \<and> tg_restore st = TasksReady \<and> tg_db st = tg_db (tp_registry p)
    \<and> map_of (tg_tasks st) taskId = map_option durableTask (map_of (tg_tasks (tp_registry p)) taskId)"
proof -
  let ?st = "(clearTaskRegistryMemory (tp_registry p))\<lparr>tg_restore := TasksUninitialized\<rparr>"
  have inv: "registry_inv (tp_registry p)" using task_history.reachable_inv [OF assms(1)] .
  then have t: "table_ok (tg_db (tp_registry p))" by (simp add: registry_inv_def)
  have rows: "\<forall>row \<in> set (js_toSorted compareTaskRows (tb_tasks (tg_db (tp_registry p)))). row_ok row" using t by (simp add: table_ok_def)
  obtain tasks deliveries where l: "loadSnapshot env (tg_db (tp_registry p)) = Inr (tasks, deliveries)"
    using readTaskRows_ok [OF rows] by (simp add: loadSnapshot_def assms(3) loadTaskRegistryStateFromSqlite_def selectTaskRows_def)
  have db: "tg_db ?st = tg_db (tp_registry p)" "tg_restore ?st = TasksUninitialized" by (simp_all add: clearTaskRegistryMemory_def)
  have "ensureTaskRegistryReady env ?st = (Inr (), restoredRegistry tasks deliveries ?st)"
    unfolding ensureTaskRegistryReady_def restoreTaskRegistryOnce_def db by (simp add: l)
  then have "r = Inr ()" "st = restoredRegistry tasks deliveries ?st" using assms(4) by (simp_all add: reloadTaskRegistryFromStore_def)
  then show ?thesis using load_tables(2) [OF t l] inv assms(2) by (simp add: registry_inv_def db)
qed

text \<open>C37. In every reachable state each record is filed once, under its own id; its times are ordered (created, started,
  last event and end); a task in the session scope has an owner; and a task that has ended knows when it may be removed,
  unless it is a cron run, which its own retention removes. A registry that is not ready holds no record.\<close>

theorem task_records_are_well_formed:
  assumes "reachable initial_tasks task_step p"
  shows "distinct (map fst (tg_tasks (tp_registry p)))
    \<and> (\<forall>(taskId, task) \<in> set (tg_tasks (tp_registry p)).
         tr_taskId task = taskId \<and> timely task \<and> (tr_scopeKind task = SessionScope \<longrightarrow> js_trim (tr_ownerKey task) \<noteq> [])
         \<and> (isTerminalTaskStatus (tr_status task) \<and> tr_cleanupAfter task = None \<longrightarrow> tr_runtime task = CronTask \<and> tr_status task \<noteq> TaskLost))
    \<and> (tg_restore (tp_registry p) \<noteq> TasksReady \<longrightarrow> tg_tasks (tp_registry p) = [])"
proof -
  have inv: "registry_inv (tp_registry p)" using task_history.reachable_inv [OF assms] .
  then have f: "filed (tg_tasks (tp_registry p))" by (simp add: registry_inv_def)
  have one: "tr_taskId task = taskId \<and> timely task \<and> (tr_scopeKind task = SessionScope \<longrightarrow> js_trim (tr_ownerKey task) \<noteq> [])
      \<and> (isTerminalTaskStatus (tr_status task) \<and> tr_cleanupAfter task = None \<longrightarrow> tr_runtime task = CronTask \<and> tr_status task \<noteq> TaskLost)"
    if "(taskId, task) \<in> set (tg_tasks (tp_registry p))" for taskId task
  proof -
    have "tr_taskId task = taskId" "record_ok task" using f that by (simp_all add: filed_def)
    then show ?thesis by (auto simp: record_ok_def cleanable_def resolveTaskCleanupAfter_def split: if_splits)
  qed
  have "distinct (map fst (tg_tasks (tp_registry p)))" using f by (simp add: filed_def)
  moreover have "tg_restore (tp_registry p) \<noteq> TasksReady \<longrightarrow> tg_tasks (tp_registry p) = []"
    using inv by (simp add: registry_inv_def split: if_splits)
  ultimately show ?thesis using one by blast
qed

text \<open>C9. A task that has ended is never reopened: whatever a caller, a delivery, a retry, a reload or a restart does next,
  the task has either been deleted or is still in a terminal state.\<close>

theorem ended_tasks_stay_ended:
  assumes "reachable initial_tasks task_step p" "task_step p p'"
    and "map_of (tg_tasks (tp_registry p)) taskId = Some task" "isTerminalTaskStatus (tr_status task)"
    and "map_of (tg_tasks (tp_registry p')) taskId = Some task'"
  shows "isTerminalTaskStatus (tr_status task')"
proof -
  have inv: "registry_inv (tp_registry p)" "registry_inv (tp_registry p')"
    using task_history.reachable_step_inv [OF assms(1, 2)] by simp_all
  have "ended (tp_registry p) taskId"
    using ready_invD(4) [OF inv(1) assms(3), of taskId] assms(3, 4) by (simp add: ended_def)
  from operation_ended [OF task_step_operation [OF assms(2) inv(1)] inv(1) this]
  show ?thesis using ready_invD(4) [OF inv(2) assms(5), of taskId] assms(5) by (auto simp: ended_def gone_def)
qed

text \<open>C34. The retries of a flow update end: without new changes of tasks, a registry makes at most as many retry steps as its
  timers and waiting retries have attempts left, whatever the gate and the writes do.\<close>

theorem flow_sync_retries_end:
  assumes "(retry_step ^^ n) st st'"
  shows "n \<le> retryBudget st"
  using assms
proof (induction n arbitrary: st)
  case (Suc n)
  then obtain st1 where "retry_step st st1" "(retry_step ^^ n) st1 st'" by (blast dest: relpowp_Suc_D2)
  with Suc.IH [of st1] budget_step [of st st1] show ?case by simp
qed simp

subsection \<open>Example\<close>

definition exampleEnv :: task_env where
  "exampleEnv = \<lparr>te_readOrigin = (\<lambda>_. None), te_normOrigin = (\<lambda>_. None), te_now = 100, te_loadError = None,
     te_flowLoadError = None, te_commits = (\<lambda>_. True)\<rparr>"

definition exampleWorld :: delivery_world where
  "exampleWorld = \<lparr>dw_gate = AdmitRefused, dw_runtimeLoads = True, dw_sends = True, dw_queues = True,
     dw_sanitize = (\<lambda>_ s. nullish s []), dw_title = (\<lambda>s. s), dw_routesThroughSession = (\<lambda>_. False),
     dw_deliverable = (\<lambda>_. True), dw_threads = (\<lambda>_. False)\<rparr>"

definition emptyTasks :: task_process where
  "emptyTasks = \<lparr>tp_registry = \<lparr>tg_tasks = [], tg_deliveryStates = [], tg_byRunId = [], tg_byOwnerKey = [], tg_byParentFlowId = [],
     tg_byRelatedSessionKey = [], tg_pendingDelivery = [], tg_restore = TasksUninitialized, tg_retryTimers = [], tg_retryWaiters = [],
     tg_flows = emptyRegistry, tg_db = \<lparr>tb_tasks = [], tb_deliveries = []\<rparr>, tg_events = [], tg_writes = 0\<rparr>,
     tp_runs = [], tp_outbox = []\<rparr>"

definition exampleTask :: task_params where
  "exampleTask = \<lparr>pa_runtime = SubagentTask, pa_taskKind = None, pa_sourceId = None,
     pa_requesterSessionKey = Some ''agent:main:main'', pa_ownerKey = None, pa_scopeKind = None, pa_requesterOrigin = None,
     pa_childSessionKey = Some ''agent:main:child'', pa_parentFlowId = None, pa_parentTaskId = None, pa_agentId = None,
     pa_requesterAgentId = None, pa_runId = Some '' r1 '', pa_label = None, pa_task = ''summarize'', pa_preferMetadata = False,
     pa_status = None, pa_deliveryStatus = None, pa_notifyPolicy = None, pa_startedAt = None, pa_lastEventAt = None,
     pa_cleanupAfter = None, pa_progressSummary = None, pa_terminalSummary = None, pa_terminalOutcome = None, pa_detail = None\<rparr>"

definition createdTasks :: task_process where
  "createdTasks = snd (createTaskRecord exampleWorld exampleEnv ''t1'' exampleTask emptyTasks)"

definition endedTasks :: task_process where
  "endedTasks = snd (updateTaskStateByRunId exampleWorld exampleEnv ''r1'' None None
     (noUpdate\<lparr>ru_status := Some TaskSucceeded, ru_endedAt := Some 90\<rparr>) createdTasks)"

definition restartedRun :: task_process where
  "restartedRun = snd (updateTaskStateByRunId exampleWorld exampleEnv ''r1'' None None
     (noUpdate\<lparr>ru_status := Some TaskRunning\<rparr>) endedTasks)"

definition retryingTasks :: task_registry where
  "retryingTasks = (tp_registry emptyTasks)\<lparr>tg_retryTimers := [(''t1'', 0)]\<rparr>"

lemma example_tasks_reachable:
  "reachable initial_tasks task_step createdTasks" "reachable initial_tasks task_step endedTasks" "task_step endedTasks restartedRun"
proof -
  have s: "reachable initial_tasks task_step emptyTasks"
    by (rule reachable.start) (simp add: initial_tasks_def emptyTasks_def)
  show c: "reachable initial_tasks task_step createdTasks" unfolding createdTasks_def
    by (rule reachable.step [OF s], rule task_step.create) (simp add: freshId_def rowIds_def emptyTasks_def)
  show "reachable initial_tasks task_step endedTasks" unfolding endedTasks_def
    by (rule reachable.step [OF c], rule task_step.run)
  show "task_step endedTasks restartedRun" unfolding restartedRun_def by (rule task_step.run)
qed

lemma example_tasks_values:
  "tg_restore (tp_registry createdTasks) = TasksReady" "map fst (tg_tasks (tp_registry createdTasks)) = [''t1'']"
  "map_option tr_status (map_of (tg_tasks (tp_registry endedTasks)) ''t1'') = Some TaskSucceeded"
  "map_option tr_createdAt (map_of (tg_tasks (tp_registry endedTasks)) ''t1'') = Some 90"
  "map_option tr_status (map_of (tg_tasks (tp_registry restartedRun)) ''t1'') = Some TaskSucceeded"
  "map tr_taskId (getTasksByRunId (tp_registry createdTasks) ''r1'') = [''t1'']"
  by code_simp+

theorem indexed_queries_match_scan_witness:
  "set (getTasksByRunId (tp_registry createdTasks) ''r1'')
   = {task \<in> snd ` set (tg_tasks (tp_registry createdTasks)). nonBlank (tr_runId task) = Some (js_trim ''r1'')}"
  using indexed_queries_match_scan [OF example_tasks_reachable(1) ensure_ready [OF example_tasks_values(1)]] by blast

theorem task_reload_round_trip_witness:
  "fst (reloadTaskRegistryFromStore exampleEnv (tp_registry createdTasks)) = Inr ()"
  using task_reload_round_trip [OF example_tasks_reachable(1) example_tasks_values(1) _ surjective_pairing, of exampleEnv]
  by (simp add: exampleEnv_def)

theorem task_records_are_well_formed_witness:
  "tr_taskId (snd (hd (tg_tasks (tp_registry createdTasks)))) = ''t1'' \<and> timely (snd (hd (tg_tasks (tp_registry createdTasks))))"
proof -
  obtain task where t: "tg_tasks (tp_registry createdTasks) = [(''t1'', task)]"
    using example_tasks_values(2) by (auto simp: map_eq_Cons_conv)
  show ?thesis using task_records_are_well_formed [OF example_tasks_reachable(1)] unfolding t by simp
qed

theorem ended_tasks_stay_ended_witness:
  "isTerminalTaskStatus (tr_status (the (map_of (tg_tasks (tp_registry restartedRun)) ''t1'')))"
proof -
  obtain task where t: "map_of (tg_tasks (tp_registry endedTasks)) ''t1'' = Some task" "tr_status task = TaskSucceeded"
    using example_tasks_values(3) by auto
  obtain task' where t': "map_of (tg_tasks (tp_registry restartedRun)) ''t1'' = Some task'"
    using example_tasks_values(5) by auto
  show ?thesis using ended_tasks_stay_ended [OF example_tasks_reachable(2, 3) t(1) _ t'] t(2) unfolding t'
    by (simp add: isTerminalTaskStatus_def)
qed

theorem flow_sync_retries_end_witness: "1 \<le> retryBudget retryingTasks"
proof (rule flow_sync_retries_end)
  show "(retry_step ^^ 1) retryingTasks (retryTimerFires exampleEnv AdmitNow ''t1'' retryingTasks)"
    by (simp add: eq_OO retry_step.fires retryingTasks_def)
qed

end
