(* ===== verification/Task_Flow_Upkeep.thy ===== *)
theory Task_Flow_Upkeep
  imports Task_Flow_Maintenance Task_Registry_Safety
begin

text \<open>
  What maintenance does to each flow, as a function of the flow, the clock and whether a linked task is pending, and
  that the preview and the run of maintenance both agree with it.
\<close>

subsection \<open>Specification\<close>

datatype flow_upkeep = Repair | Finalize | Prune | Leave

text \<open>A flow has stopped when it reached an end or is blocked; the clock of its retention runs from its end, or from its
  last update as long as it has no end (a blocked flow has none). The update of a mirrored flow is late when it lies behind
  a plausible end.\<close>

definition stopped :: "task_flow \<Rightarrow> bool" where
  "stopped flow \<longleftrightarrow> tf_status flow \<in> {FlowSucceeded, FlowFailed, FlowCancelled, FlowLost, FlowBlocked}"

definition stoppedAt :: "task_flow \<Rightarrow> int" where
  "stoppedAt flow = (case tf_endedAt flow of Some t \<Rightarrow> t | None \<Rightarrow> tf_updatedAt flow)"

definition lateMirror :: "task_flow \<Rightarrow> bool" where
  "lateMirror flow \<longleftrightarrow> tf_syncMode flow = TaskMirrored \<and> stopped flow
     \<and> (\<exists>t. tf_endedAt flow = Some t \<and> tf_createdAt flow \<le> t \<and> t < tf_updatedAt flow)"

definition upkeep :: "bool \<Rightarrow> int \<Rightarrow> task_flow \<Rightarrow> flow_upkeep" where
  "upkeep pending now flow =
     (if lateMirror flow then Repair
      else if tf_syncMode flow = Managed \<and> tf_cancelRequestedAt flow \<noteq> None \<and> \<not> stopped flow \<and> \<not> pending then Finalize
      else if stopped flow \<and> \<not> pending \<and> stoppedAt flow + 7 * 24 * 60 * 60000 \<le> now then Prune
      else Leave)"

definition cancelEnd :: "int \<Rightarrow> task_flow \<Rightarrow> int" where
  "cancelEnd now flow = max now (max (tf_updatedAt flow) (nullish (tf_cancelRequestedAt flow) now))"

definition repairedFlow :: "task_flow \<Rightarrow> task_flow" where
  "repairedFlow flow = flow\<lparr>tf_updatedAt := nullish (tf_endedAt flow) 0, tf_revision := tf_revision flow + 1\<rparr>"

definition cancelledFlow :: "int \<Rightarrow> task_flow \<Rightarrow> task_flow" where
  "cancelledFlow now flow = flow\<lparr>tf_status := FlowCancelled, tf_blockedTaskId := None, tf_blockedSummary := None,
     tf_waitJson := Some JNull, tf_revision := tf_revision flow + 1, tf_updatedAt := cancelEnd now flow,
     tf_endedAt := Some (cancelEnd now flow)\<rparr>"

definition upkept :: "bool \<Rightarrow> int \<Rightarrow> task_flow \<Rightarrow> task_flow option" where
  "upkept pending now flow =
     (case upkeep pending now flow of
        Repair \<Rightarrow> Some (repairedFlow flow)
      | Finalize \<Rightarrow> Some (cancelledFlow now flow)
      | Prune \<Rightarrow> None
      | Leave \<Rightarrow> Some flow)"

definition upkeepCount :: "flow_upkeep \<Rightarrow> nat \<times> nat" where
  "upkeepCount u = (case u of Repair \<Rightarrow> (1, 0) | Finalize \<Rightarrow> (1, 0) | Prune \<Rightarrow> (0, 1) | Leave \<Rightarrow> (0, 0))"

text \<open>The linked tasks of a flow in a restored registry.\<close>

definition linkedTasks :: "task_registry \<Rightarrow> string \<Rightarrow> task_record list" where
  "linkedTasks st flowId = (if js_trim flowId = [] then [] else listTasksFromIndex st (tg_byParentFlowId st) (js_trim flowId))"

definition pendingTaskFor :: "task_registry \<Rightarrow> string \<Rightarrow> bool" where
  "pendingTaskFor st flowId = list_ex isTaskFlowCancellationPending (linkedTasks st flowId)"

definition flowMap :: "task_registry \<Rightarrow> string \<Rightarrow> task_flow option" where
  "flowMap st = map_of (fr_flows (tg_flows st))"

definition settled :: "task_registry \<Rightarrow> bool" where
  "settled st \<longleftrightarrow> tg_restore st = TasksReady \<and> fr_restore (tg_flows st) = RestoreReady
     \<and> (\<forall>k flow. flowMap st k = Some flow \<longrightarrow> wellFormedFlow flow \<and> tf_flowId flow = k)"

text \<open>The predicates of the code agree with the specification's.\<close>

lemma stopped_code: "isTerminalFlow flow = stopped flow"
  by (auto simp: isTerminalFlow_def stopped_def)

lemma lateMirror_code: "shouldRepairTerminalMirroredFlowTimestamp flow = lateMirror flow"
  by (auto simp: shouldRepairTerminalMirroredFlowTimestamp_def lateMirror_def stopped_code split: option.split)

lemma upkeep_code:
  "upkeep pending now flow =
     (if shouldRepairTerminalMirroredFlowTimestamp flow then Repair
      else if tf_syncMode flow = Managed \<and> tf_cancelRequestedAt flow \<noteq> None \<and> \<not> isTerminalFlow flow \<and> \<not> pending then Finalize
      else if isTerminalFlow flow \<and> \<not> pending \<and> now - resolveTerminalAt flow \<ge> TASK_FLOW_RETENTION_MS then Prune
      else Leave)"
proof -
  have "now - resolveTerminalAt flow \<ge> TASK_FLOW_RETENTION_MS \<longleftrightarrow> stoppedAt flow + 7 * 24 * 60 * 60000 \<le> now"
    by (cases "tf_endedAt flow") (auto simp: resolveTerminalAt_def stoppedAt_def TASK_FLOW_RETENTION_MS_def)
  then show ?thesis by (simp only: upkeep_def lateMirror_code stopped_code)
qed

text \<open>A call that changes flows only.\<close>

definition onlyFlows :: "task_registry \<Rightarrow> task_registry \<Rightarrow> bool" where
  "onlyFlows st st1 \<longleftrightarrow> settled st1 \<and> linkedTasks st1 = linkedTasks st"

lemma linked_frame [simp]: "linkedTasks (st\<lparr>tg_flows := a\<rparr>) = linkedTasks st" "linkedTasks (st\<lparr>tg_writes := b\<rparr>) = linkedTasks st"
  by (simp_all add: linkedTasks_def listTasksFromIndex_def fun_eq_iff split: option.splits)

lemma pending_cong: "onlyFlows st st1 \<Longrightarrow> pendingTaskFor st1 = pendingTaskFor st"
  by (simp add: onlyFlows_def pendingTaskFor_def fun_eq_iff)

lemma onlyFlows_trans: "onlyFlows st st1 \<Longrightarrow> onlyFlows st1 st2 \<Longrightarrow> onlyFlows st st2"
  by (simp add: onlyFlows_def)

lemma settled_writes: "settled st \<Longrightarrow> onlyFlows st (st\<lparr>tg_writes := n\<rparr>)"
  by (simp add: onlyFlows_def settled_def flowMap_def)

subsection \<open>The calls\<close>

lemma bindCall_Inr [simp]: "f st = (Inr x, st1) \<Longrightarrow> bindCall f g st = g x st1"
  by (simp add: bindCall_def)

lemma pureCall_simp [simp]: "pureCall x st = (Inr x, st)"
  by (simp add: pureCall_def)

lemma settled_ensure: "settled st \<Longrightarrow> ensureTaskFlowRegistryReady ro le (tg_flows st) = (None, tg_flows st)"
  by (simp add: settled_def ensureTaskFlowRegistryReady_def restoreTaskFlowRegistryOnce_def)

lemma settled_pending: "settled st \<Longrightarrow> hasActiveLinkedTasks env flowId st = (Inr (pendingTaskFor st flowId), st)"
  by (simp add: hasActiveLinkedTasks_def anyPendingTask_def listTasksForFlowId_def whenTasksReady_def settled_def
        ensureTaskRegistryReady_def restoreTaskRegistryOnce_def pendingTaskFor_def linkedTasks_def Let_def)

lemma settled_flowById: "settled st \<Longrightarrow> flowById env flowId st = (Inr (flowMap st flowId), st\<lparr>tg_writes := Suc (tg_writes st)\<rparr>)"
  by (simp add: flowById_def onFlows_def getTaskFlowById_def whenReady_def settled_ensure flowMap_def)

lemma settled_records:
  "settled st \<Longrightarrow> flowRecords env st = (Inr (js_toSorted newestFirst (map snd (fr_flows (tg_flows st)))), st\<lparr>tg_writes := Suc (tg_writes st)\<rparr>)"
  by (simp add: flowRecords_def onFlows_def listTaskFlowRecords_def whenReady_def settled_ensure)

lemma settled_prune:
  "settled st \<Longrightarrow> shouldPruneFlow env flow now st
     = (Inr (isTerminalFlow flow \<and> \<not> pendingTaskFor st (tf_flowId flow) \<and> now - resolveTerminalAt flow \<ge> TASK_FLOW_RETENTION_MS), st)"
  by (simp add: shouldPruneFlow_def bindCall_def settled_pending)

lemma settled_finalize:
  "settled st \<Longrightarrow> shouldFinalizeCancelledFlow env flow st
     = (Inr (tf_syncMode flow = Managed \<and> tf_cancelRequestedAt flow \<noteq> None \<and> \<not> isTerminalFlow flow \<and> \<not> pendingTaskFor st (tf_flowId flow)), st)"
  by (auto simp: shouldFinalizeCancelledFlow_def bindCall_def settled_pending)

lemma settled_update:
  assumes "settled st" "flowMap st k = Some flow" "applyFlowPatch (te_now env) flow patch = Inr flow1"
    and "wellFormedFlow flow1" "tf_flowId flow1 = k" "expectRevision env k (tf_revision flow) patch st = (r, st1)"
  shows "if te_commits env (tg_writes st)
    then r = Inr (Applied flow1) \<and> onlyFlows st st1 \<and> flowMap st1 = (flowMap st)(k \<mapsto> flow1)
    else r = Inr (PersistFailed flow) \<and> onlyFlows st st1 \<and> flowMap st1 = flowMap st"
proof -
  have m: "map_of (fr_flows (tg_flows st)) k = Some flow" using assms(2) by (simp add: flowMap_def)
  show ?thesis
  proof (cases "te_commits env (tg_writes st)")
    case True
    define fs where "fs = emitFlowRegistryObserverEvent (FlowUpserted flow1 (Some flow))
      ((tg_flows st)\<lparr>fr_rows := upsertTaskFlowRegistryRecordToSqlite flow1 (fr_rows (tg_flows st)),
        fr_flows := AList.update k flow1 (fr_flows (tg_flows st))\<rparr>)"
    have e: "r = Inr (Applied flow1)" "st1 = st\<lparr>tg_flows := fs, tg_writes := Suc (tg_writes st)\<rparr>"
      using assms(6) True
      by (simp_all add: expectRevision_def onFlows_def updateFlowRecordByIdExpectedRevision_def whenReady_def settled_ensure [OF assms(1)]
            m assms(3, 5) writeFlowRecord_def tryPersistFlowUpsert_def fs_def)
    have f: "flowMap st1 = (flowMap st)(k \<mapsto> flow1)" "fr_restore (tg_flows st1) = RestoreReady"
      using assms(1) by (simp_all add: e(2) flowMap_def fs_def emitFlowRegistryObserverEvent_def update_conv' settled_def)
    have "settled st1" using assms(1, 4, 5) f by (simp add: settled_def e(2))
    then show ?thesis using True e f by (simp add: onlyFlows_def)
  next
    case False
    have "r = Inr (PersistFailed flow)" "st1 = st\<lparr>tg_writes := Suc (tg_writes st)\<rparr>"
      using assms(6) False
      by (simp_all add: expectRevision_def onFlows_def updateFlowRecordByIdExpectedRevision_def whenReady_def settled_ensure [OF assms(1)]
            m assms(3) writeFlowRecord_def tryPersistFlowUpsert_def)
    then show ?thesis using False settled_writes [OF assms(1)] by (simp add: flowMap_def)
  qed
qed

lemma settled_delete:
  assumes "settled st" "flowMap st k = Some flow" "deleteFlow env k st = (r, st1)"
  shows "if te_commits env (tg_writes st) then r = Inr True \<and> onlyFlows st st1 \<and> flowMap st1 = (flowMap st)(k := None)
    else r = Inr False \<and> onlyFlows st st1 \<and> flowMap st1 = flowMap st"
proof -
  have m: "map_of (fr_flows (tg_flows st)) k = Some flow" using assms(2) by (simp add: flowMap_def)
  show ?thesis
  proof (cases "te_commits env (tg_writes st)")
    case True
    define fs where "fs = emitFlowRegistryObserverEvent (FlowDeleted k flow)
      ((tg_flows st)\<lparr>fr_rows := deleteTaskFlowRegistryRecordFromSqlite k (fr_rows (tg_flows st)),
        fr_flows := AList.delete k (fr_flows (tg_flows st))\<rparr>)"
    have e: "r = Inr True" "st1 = st\<lparr>tg_flows := fs, tg_writes := Suc (tg_writes st)\<rparr>"
      using assms(3) True
      by (simp_all add: deleteFlow_def onFlows_def deleteTaskFlowRecordById_def whenReady_def settled_ensure [OF assms(1)]
            m tryPersistFlowDelete_def fs_def)
    have f: "flowMap st1 = (flowMap st)(k := None)" "fr_restore (tg_flows st1) = RestoreReady"
      using assms(1) by (simp_all add: e(2) flowMap_def fs_def emitFlowRegistryObserverEvent_def delete_conv' settled_def)
    have "settled st1" using assms(1) f by (simp add: settled_def e(2))
    then show ?thesis using True e f by (simp add: onlyFlows_def)
  next
    case False
    have "r = Inr False" "st1 = st\<lparr>tg_writes := Suc (tg_writes st)\<rparr>"
      using assms(3) False
      by (simp_all add: deleteFlow_def onFlows_def deleteTaskFlowRecordById_def whenReady_def settled_ensure [OF assms(1)]
            m tryPersistFlowDelete_def)
    then show ?thesis using False settled_writes [OF assms(1)] by (simp add: flowMap_def)
  qed
qed

subsection \<open>Attempts\<close>

lemma patch_repair:
  assumes "wellFormedFlow flow" "shouldRepairTerminalMirroredFlowTimestamp flow"
  shows "applyFlowPatch now flow (emptyPatch\<lparr>fp_updatedAt := tf_endedAt flow\<rparr>) = Inr (repairedFlow flow)" "wellFormedFlow (repairedFlow flow)"
  using assms by (auto simp: applyFlowPatch_def emptyPatch_def shouldRepairTerminalMirroredFlowTimestamp_def repairedFlow_def
      wellFormedFlow_def Let_def split: option.splits)

lemma patch_cancel:
  assumes "wellFormedFlow flow" "tf_syncMode flow = Managed"
  shows "applyFlowPatch now' flow (cancelledPatch (cancelEnd now flow)) = Inr (cancelledFlow now flow)" "wellFormedFlow (cancelledFlow now flow)"
  using assms by (auto simp: applyFlowPatch_def emptyPatch_def cancelledPatch_def cancelledFlow_def wellFormedFlow_def assertControllerId_def
      cleanOption_def Let_def split: option.splits)

definition eitherWay :: "task_env \<Rightarrow> nat \<Rightarrow> task_registry \<Rightarrow> string \<Rightarrow> task_flow option \<Rightarrow> bool \<Rightarrow> task_registry \<Rightarrow> bool" where
  "eitherWay env n st k v ok st1 \<longleftrightarrow> onlyFlows st st1 \<and> flowMap st1 = (if ok then (flowMap st)(k := v) else flowMap st)
     \<and> (n \<noteq> 0 \<and> (\<forall>i. te_commits env i) \<longrightarrow> ok)"

lemma eitherWay_retry:
  assumes "onlyFlows st st1" "flowMap st1 = flowMap st" "\<not> te_commits env i" "eitherWay env n st1 k v ok st2"
  shows "eitherWay env (Suc n) st k v ok st2"
  using assms onlyFlows_trans unfolding eitherWay_def by metis

lemma eitherWay_done: "onlyFlows st st1 \<Longrightarrow> flowMap st1 = (flowMap st)(k := v) \<Longrightarrow> eitherWay env n st k v True st1"
  by (simp add: eitherWay_def)

lemma eitherWay_none: "settled st \<Longrightarrow> eitherWay env 0 st k v False st"
  by (simp add: eitherWay_def onlyFlows_def)

lemma repair_attempts:
  assumes "shouldRepairTerminalMirroredFlowTimestamp flow"
  shows "settled st \<Longrightarrow> flowMap st k = Some flow \<Longrightarrow>
    \<exists>ok st1. repairAttempts env n flow st = (Inr ok, st1) \<and> eitherWay env n st k (Some (repairedFlow flow)) ok st1"
proof (induction n arbitrary: st)
  case 0
  from eitherWay_none [OF 0(1)] show ?case by auto
next
  case (Suc n st)
  obtain r st1 where e: "expectRevision env k (tf_revision flow) (emptyPatch\<lparr>fp_updatedAt := tf_endedAt flow\<rparr>) st = (r, st1)" by fastforce
  have w: "wellFormedFlow flow" "tf_flowId flow = k" using Suc.prems by (simp_all add: settled_def)
  have "tf_flowId (repairedFlow flow) = k" using w by (simp add: repairedFlow_def)
  note u = settled_update [OF Suc.prems patch_repair(1) patch_repair(2) this e, OF w(1) assms w(1) assms]
  show ?case
  proof (cases "te_commits env (tg_writes st)")
    case True
    then have a: "r = Inr (Applied (repairedFlow flow))" "eitherWay env (Suc n) st k (Some (repairedFlow flow)) True st1"
      using u by (simp_all add: eitherWay_done)
    have "repairAttempts env (Suc n) flow st = (Inr True, st1)" by (simp add: assms w(2) bindCall_def e a(1))
    with a(2) show ?thesis by blast
  next
    case False
    then have s: "onlyFlows st st1" "flowMap st1 = flowMap st" "r = Inr (PersistFailed flow)" using u by simp_all
    then obtain ok st2 where d: "repairAttempts env n flow st1 = (Inr ok, st2)" "eitherWay env n st1 k (Some (repairedFlow flow)) ok st2"
      using Suc.IH [of st1] Suc.prems(2) by (auto simp: onlyFlows_def)
    have "repairAttempts env (Suc n) flow st = (Inr ok, st2)" by (simp add: assms w(2) bindCall_def e s(3) d(1))
    with eitherWay_retry [OF s(1, 2) False d(2)] show ?thesis by blast
  qed
qed

lemma finalize_attempts:
  assumes "tf_syncMode flow = Managed" "tf_cancelRequestedAt flow \<noteq> None" "\<not> isTerminalFlow flow"
  shows "settled st \<Longrightarrow> flowMap st k = Some flow \<Longrightarrow> \<not> pendingTaskFor st k \<Longrightarrow>
    \<exists>ok st1. finalizeAttempts env n now flow st = (Inr ok, st1) \<and> eitherWay env n st k (Some (cancelledFlow now flow)) ok st1"
proof (induction n arbitrary: st)
  case 0
  from eitherWay_none [OF 0(1)] show ?case by auto
next
  case (Suc n st)
  obtain r st1 where e: "expectRevision env k (tf_revision flow) (cancelledPatch (cancelEnd now flow)) st = (r, st1)" by fastforce
  have w: "wellFormedFlow flow" "tf_flowId flow = k" using Suc.prems by (simp_all add: settled_def)
  have "tf_flowId (cancelledFlow now flow) = k" using w by (simp add: cancelledFlow_def)
  note u = settled_update [OF Suc.prems(1, 2) patch_cancel(1) patch_cancel(2) this e, OF w(1) assms(1) w(1) assms(1)]
  show ?case
  proof (cases "te_commits env (tg_writes st)")
    case True
    then have a: "r = Inr (Applied (cancelledFlow now flow))" "eitherWay env (Suc n) st k (Some (cancelledFlow now flow)) True st1"
      using u by (simp_all add: eitherWay_done)
    have "finalizeAttempts env (Suc n) now flow st = (Inr True, st1)"
      by (simp add: w(2) bindCall_def cancelEnd_def [symmetric] e a(1) Let_def)
    with a(2) show ?thesis by blast
  next
    case False
    then have s: "onlyFlows st st1" "flowMap st1 = flowMap st" "r = Inr (PersistFailed flow)" using u by simp_all
    have p: "settled st1" "\<not> pendingTaskFor st1 k" using s(1) pending_cong [OF s(1)] Suc.prems(3) by (simp_all add: onlyFlows_def)
    then obtain ok st2 where d: "finalizeAttempts env n now flow st1 = (Inr ok, st2)" "eitherWay env n st1 k (Some (cancelledFlow now flow)) ok st2"
      using Suc.IH [of st1] Suc.prems(2) s(2) by auto
    have "finalizeAttempts env (Suc n) now flow st = (Inr ok, st2)"
      using settled_finalize [OF p(1), of env flow] assms p(2)
      by (simp add: w(2) bindCall_def cancelEnd_def [symmetric] e s(3) d(1) Let_def)
    with eitherWay_retry [OF s(1, 2) False d(2)] show ?thesis by blast
  qed
qed

subsection \<open>One flow\<close>

lemma preview_flow:
  assumes "settled st"
  shows "previewFlow env now flow st = (Inr (upkeepCount (upkeep (pendingTaskFor st (tf_flowId flow)) now flow)), st)"
  by (simp add: previewFlow_def bindCall_def settled_finalize [OF assms] settled_prune [OF assms] upkeep_code upkeepCount_def) auto

lemma maintain_flow:
  assumes "settled st" "flowMap st k = Some flow"
    and u_def: "u = upkeep (pendingTaskFor st k) now flow"
  shows "\<exists>ok st1. maintainFlow env now flow st = (Inr (if ok then upkeepCount u else (0, 0)), st1)
    \<and> eitherWay env 1 st k (upkept (pendingTaskFor st k) now flow) ok st1"
proof -
  have id: "tf_flowId flow = k" using assms(1, 2) by (simp add: settled_def)
  define st0 where "st0 = st\<lparr>tg_writes := Suc (tg_writes st)\<rparr>"
  have o: "onlyFlows st st0" "flowMap st0 = flowMap st" using settled_writes [OF assms(1)] by (simp_all add: st0_def flowMap_def)
  have s: "settled st0" "pendingTaskFor st0 = pendingTaskFor st" using o(1) pending_cong by (auto simp: onlyFlows_def)
  have m0: "flowMap st0 k = Some flow" using o(2) assms(2) by simp
  have found: "flowById env k st = (Inr (Some flow), st0)"
    using settled_flowById [OF assms(1)] assms(2) by (simp add: st0_def)
  have up: "eitherWay env 1 st k v ok st1" if "eitherWay env n st0 k v ok st1" "n \<noteq> 0" for v ok st1 n
    using that o onlyFlows_trans unfolding eitherWay_def by (metis one_neq_zero)
  show ?thesis
  proof (cases u)
    case Repair
    then have r: "shouldRepairTerminalMirroredFlowTimestamp flow" by (simp add: u_def upkeep_code split: if_splits)
    obtain ok st1 where
      d: "repairTerminalMirroredFlowTimestamp env flow st0 = (Inr ok, st1)" "eitherWay env 2 st0 k (Some (repairedFlow flow)) ok st1"
      using repair_attempts [OF r s(1) m0, of env 2] unfolding repairTerminalMirroredFlowTimestamp_def by blast
    have "maintainFlow env now flow st = (Inr (if ok then upkeepCount u else (0, 0)), st1)"
      unfolding maintainFlow_def by (simp add: bindCall_def found id r d(1) Repair upkeepCount_def)
    moreover have "upkept (pendingTaskFor st k) now flow = Some (repairedFlow flow)" by (simp add: upkept_def u_def [symmetric] Repair)
    moreover have "eitherWay env 1 st k (upkept (pendingTaskFor st k) now flow) ok st1" using up [OF d(2)] calculation(2) by simp
    ultimately show ?thesis by blast
  next
    case Finalize
    then have f: "\<not> shouldRepairTerminalMirroredFlowTimestamp flow" "tf_syncMode flow = Managed" "tf_cancelRequestedAt flow \<noteq> None"
      "\<not> isTerminalFlow flow" "\<not> pendingTaskFor st k" by (simp_all add: u_def upkeep_code split: if_splits)
    have "\<not> pendingTaskFor st0 k" using f(5) s(2) by simp
    then obtain ok st1 where
      d: "finalizeCancelledFlow env flow now st0 = (Inr ok, st1)" "eitherWay env 2 st0 k (Some (cancelledFlow now flow)) ok st1"
      using finalize_attempts [OF f(2-4) s(1) m0, of env 2 now] unfolding finalizeCancelledFlow_def by blast
    have "maintainFlow env now flow st = (Inr (if ok then upkeepCount u else (0, 0)), st1)"
      using settled_finalize [OF s(1), of env flow] f s(2)
      by (simp add: maintainFlow_def bindCall_def found id d(1) Finalize upkeepCount_def)
    moreover have "upkept (pendingTaskFor st k) now flow = Some (cancelledFlow now flow)" by (simp add: upkept_def u_def [symmetric] Finalize)
    moreover have "eitherWay env 1 st k (upkept (pendingTaskFor st k) now flow) ok st1" using up [OF d(2)] calculation(2) by simp
    ultimately show ?thesis by blast
  next
    case Prune
    then have f: "\<not> shouldRepairTerminalMirroredFlowTimestamp flow" "isTerminalFlow flow" "\<not> pendingTaskFor st k"
      "now - resolveTerminalAt flow \<ge> TASK_FLOW_RETENTION_MS" by (auto simp: u_def upkeep_code split: if_splits)
    obtain r st1 where e: "deleteFlow env k st0 = (r, st1)" by fastforce
    define ok where "ok = te_commits env (tg_writes st0)"
    have d: "r = Inr ok" "eitherWay env 1 st0 k None ok st1"
      using settled_delete [OF s(1) m0 e] by (auto simp: eitherWay_def ok_def split: if_splits)
    have "maintainFlow env now flow st = (Inr (if ok then upkeepCount u else (0, 0)), st1)"
      using settled_finalize [OF s(1), of env flow] settled_prune [OF s(1), of env flow now] f s(2)
      by (simp add: maintainFlow_def bindCall_def found id e d(1) Prune upkeepCount_def)
    moreover have "upkept (pendingTaskFor st k) now flow = None" by (simp add: upkept_def u_def [symmetric] Prune)
    moreover have "eitherWay env 1 st k (upkept (pendingTaskFor st k) now flow) ok st1" using up [OF d(2)] calculation(2) by simp
    ultimately show ?thesis by blast
  next
    case Leave
    then have f: "\<not> shouldRepairTerminalMirroredFlowTimestamp flow"
      "\<not> (tf_syncMode flow = Managed \<and> tf_cancelRequestedAt flow \<noteq> None \<and> \<not> isTerminalFlow flow \<and> \<not> pendingTaskFor st k)"
      "\<not> (isTerminalFlow flow \<and> \<not> pendingTaskFor st k \<and> now - resolveTerminalAt flow \<ge> TASK_FLOW_RETENTION_MS)"
      by (simp_all add: u_def upkeep_code split: if_splits)
    have "shouldFinalizeCancelledFlow env flow st0 = (Inr False, st0)" "shouldPruneFlow env flow now st0 = (Inr False, st0)"
      using settled_finalize [OF s(1), of env flow] settled_prune [OF s(1), of env flow now] f(2, 3) s(2) id by auto
    then have "maintainFlow env now flow st = (Inr (upkeepCount u), st0)"
      using f(1) by (simp add: maintainFlow_def bindCall_def found id Leave upkeepCount_def)
    moreover have "eitherWay env 1 st k (Some flow) True st0"
      using o assms(2) by (intro eitherWay_done) (auto simp: fun_eq_iff)
    ultimately show ?thesis by (intro exI [of _ True] exI [of _ st0]) (simp add: upkept_def u_def [symmetric] Leave)
  qed
qed

subsection \<open>All flows\<close>

definition currentFlows :: "task_registry \<Rightarrow> task_flow list \<Rightarrow> bool" where
  "currentFlows st flows \<longleftrightarrow> settled st \<and> distinct (map tf_flowId flows) \<and> list_all (\<lambda>flow. flowMap st (tf_flowId flow) = Some flow) flows"

lemma currentFlows_Cons:
  "currentFlows st (flow # flows) \<longleftrightarrow>
   currentFlows st flows \<and> flowMap st (tf_flowId flow) = Some flow \<and> tf_flowId flow \<notin> tf_flowId ` set flows"
  by (auto simp: currentFlows_def)

lemma currentFlows_frame:
  assumes "currentFlows st flows" "eitherWay env n st k v ok st1" "k \<notin> tf_flowId ` set flows"
  shows "currentFlows st1 flows"
proof -
  have "flowMap st1 (tf_flowId flow) = flowMap st (tf_flowId flow)" if "flow \<in> set flows" for flow
    using assms(2, 3) that by (auto simp: eitherWay_def)
  then show ?thesis using assms(1, 2) by (auto simp: currentFlows_def eitherWay_def onlyFlows_def list_all_iff)
qed

definition tally :: "(string \<Rightarrow> bool) \<Rightarrow> int \<Rightarrow> task_flow list \<Rightarrow> nat \<times> nat" where
  "tally pending now flows =
     (sum_list (map (\<lambda>flow. fst (upkeepCount (upkeep (pending (tf_flowId flow)) now flow))) flows),
      sum_list (map (\<lambda>flow. snd (upkeepCount (upkeep (pending (tf_flowId flow)) now flow))) flows))"

lemma tally_simps [simp]:
  "tally pending now [] = (0, 0)"
  "tally pending now (flow # flows) =
     (fst (upkeepCount (upkeep (pending (tf_flowId flow)) now flow)) + fst (tally pending now flows),
      snd (upkeepCount (upkeep (pending (tf_flowId flow)) now flow)) + snd (tally pending now flows))"
  by (simp_all add: tally_def)

lemma preview_all:
  "settled st \<Longrightarrow> countFlows (previewFlow env now) flows r p st
     = (Inr \<lparr>mt_reconciled = r + fst (tally (pendingTaskFor st) now flows), mt_pruned = p + snd (tally (pendingTaskFor st) now flows)\<rparr>, st)"
  by (induction flows arbitrary: r p) (simp_all add: bindCall_def preview_flow split_beta add.assoc)

definition upkeepOutcome :: "task_registry \<Rightarrow> int \<Rightarrow> task_registry \<Rightarrow> string \<Rightarrow> bool" where
  "upkeepOutcome st now st1 k \<longleftrightarrow> flowMap st1 k = Option.bind (flowMap st k) (upkept (pendingTaskFor st k) now)"

lemma maintain_all:
  "currentFlows st flows \<Longrightarrow> \<exists>summary st1. countFlows (maintainFlow env now) flows r p st = (Inr summary, st1)
     \<and> onlyFlows st st1
     \<and> (\<forall>k. k \<notin> tf_flowId ` set flows \<longrightarrow> flowMap st1 k = flowMap st k)
     \<and> (\<forall>k. k \<in> tf_flowId ` set flows \<longrightarrow> flowMap st1 k = flowMap st k \<or> upkeepOutcome st now st1 k)
     \<and> ((\<forall>i. te_commits env i) \<longrightarrow> (\<forall>k. k \<in> tf_flowId ` set flows \<longrightarrow> upkeepOutcome st now st1 k)
          \<and> summary = \<lparr>mt_reconciled = r + fst (tally (pendingTaskFor st) now flows), mt_pruned = p + snd (tally (pendingTaskFor st) now flows)\<rparr>)"
proof (induction flows arbitrary: st r p)
  case Nil
  then show ?case by (auto simp: onlyFlows_def currentFlows_def)
next
  case (Cons flow flows)
  let ?k = "tf_flowId flow"
  have c: "currentFlows st flows" "flowMap st ?k = Some flow" "?k \<notin> tf_flowId ` set flows"
    using Cons.prems by (simp_all add: currentFlows_Cons)
  then have "settled st" by (simp add: currentFlows_def)
  from maintain_flow [OF this c(2) refl, of env now] obtain ok st1 where
    m: "maintainFlow env now flow st = (Inr (if ok then upkeepCount (upkeep (pendingTaskFor st ?k) now flow) else (0, 0)), st1)"
       "eitherWay env 1 st ?k (upkept (pendingTaskFor st ?k) now flow) ok st1" by blast
  define c1 where "c1 = (if ok then upkeepCount (upkeep (pendingTaskFor st ?k) now flow) else (0, 0))"
  from Cons.IH [OF currentFlows_frame [OF c(1) m(2) c(3)], of "r + fst c1" "p + snd c1"] obtain summary st2 where
    r: "countFlows (maintainFlow env now) flows (r + fst c1) (p + snd c1) st1 = (Inr summary, st2)"
    and o: "onlyFlows st1 st2"
    and out: "\<And>k. k \<notin> tf_flowId ` set flows \<Longrightarrow> flowMap st2 k = flowMap st1 k"
    and inn: "\<And>k. k \<in> tf_flowId ` set flows \<Longrightarrow> flowMap st2 k = flowMap st1 k \<or> upkeepOutcome st1 now st2 k"
    and all: "\<forall>i. te_commits env i \<Longrightarrow> (\<forall>k. k \<in> tf_flowId ` set flows \<longrightarrow> upkeepOutcome st1 now st2 k)
      \<and> summary = \<lparr>mt_reconciled = r + fst c1 + fst (tally (pendingTaskFor st1) now flows),
                    mt_pruned = p + snd c1 + snd (tally (pendingTaskFor st1) now flows)\<rparr>" by blast
  have o1: "onlyFlows st st1" using m(2) by (simp add: eitherWay_def)
  have p1: "pendingTaskFor st1 = pendingTaskFor st" using pending_cong [OF o1] .
  have same: "flowMap st1 k = flowMap st k" if "k \<noteq> ?k" for k using m(2) that by (simp add: eitherWay_def)
  have outcome: "upkeepOutcome st1 now st2 k = upkeepOutcome st now st2 k" if "k \<noteq> ?k" for k
    by (simp add: upkeepOutcome_def p1 same [OF that])
  have here: "flowMap st2 ?k = flowMap st1 ?k" using out c(3) by simp
  have mine: "flowMap st1 ?k = (if ok then upkept (pendingTaskFor st ?k) now flow else flowMap st ?k)" using m(2) by (simp add: eitherWay_def)
  have count: "countFlows (maintainFlow env now) (flow # flows) r p st = (Inr summary, st2)"
    by (simp add: bindCall_def m(1) c1_def [symmetric] split_beta r)
  have 1: "flowMap st2 k = flowMap st k" if "k \<notin> tf_flowId ` set (flow # flows)" for k
    using that out [of k] same [of k] by auto
  have 2: "flowMap st2 k = flowMap st k \<or> upkeepOutcome st now st2 k" if "k \<in> tf_flowId ` set (flow # flows)" for k
  proof (cases "k = ?k")
    case True
    show ?thesis unfolding True upkeepOutcome_def here mine c(2) by simp
  next
    case False
    then have "k \<in> tf_flowId ` set flows" using that by auto
    from inn [OF this] show ?thesis unfolding outcome [OF False] same [OF False] .
  qed
  have 3: "upkeepOutcome st now st2 k" if "\<forall>i. te_commits env i" "k \<in> tf_flowId ` set (flow # flows)" for k
  proof (cases "k = ?k")
    case True
    have ok using m(2) that(1) by (simp add: eitherWay_def)
    then show ?thesis unfolding True upkeepOutcome_def here mine c(2) by simp
  next
    case False
    then have "k \<in> tf_flowId ` set flows" using that(2) by auto
    then show ?thesis using all [OF that(1)] outcome [OF False] by blast
  qed
  have 4: "summary = \<lparr>mt_reconciled = r + fst (tally (pendingTaskFor st) now (flow # flows)), mt_pruned = p + snd (tally (pendingTaskFor st) now (flow # flows))\<rparr>"
    if "\<forall>i. te_commits env i"
  proof -
    have ok using m(2) that by (simp add: eitherWay_def)
    then show ?thesis using all [OF that] by (simp add: c1_def p1 add.assoc)
  qed
  show ?case using count onlyFlows_trans [OF o1 o] 1 2 3 4 by blast
qed

lemma distinct_map_sorted: "distinct (map f xs) \<Longrightarrow> distinct (map f (js_toSorted cmp xs))"
  by (simp add: distinct_map distinct_js_toSorted)

lemma reachable_settled:
  assumes "reachable initial_flows (flow_step (te_readOrigin env)) (tg_flows st)"
    and "fr_restore (tg_flows st) = RestoreReady" "tg_restore st = TasksReady"
  shows "settled st" "currentFlows st (js_toSorted newestFirst (map snd (fr_flows (tg_flows st))))"
    "tf_flowId ` set (map snd (fr_flows (tg_flows st))) = dom (flowMap st)"
proof -
  have m: "mirrored (te_readOrigin env) (tg_flows st)"
    using mirrored_inv [OF flow_history.reachable_inv [OF assms(1)] assms(2)] .
  show s: "settled st" using mirrored_flow [OF m] assms(2, 3) by (simp add: settled_def flowMap_def)
  let ?flows = "map snd (fr_flows (tg_flows st))"
  have keys: "map tf_flowId ?flows = map fst (fr_flows (tg_flows st))" using m by (auto simp: mirrored_def)
  have d: "distinct (map fst (fr_flows (tg_flows st)))" using m by (simp add: mirrored_def)
  then have "distinct (map tf_flowId ?flows)" unfolding keys .
  then have "distinct (map tf_flowId (js_toSorted newestFirst ?flows))" by (rule distinct_map_sorted)
  moreover have "flowMap st (tf_flowId flow) = Some flow" if "flow \<in> set ?flows" for flow
    using that m d by (auto simp: flowMap_def mirrored_def)
  ultimately show "currentFlows st (js_toSorted newestFirst ?flows)" using s by (simp add: currentFlows_def list_all_iff)
  have "tf_flowId ` set ?flows = set (map fst (fr_flows (tg_flows st)))" unfolding keys [symmetric] by (simp only: set_map)
  then show "tf_flowId ` set ?flows = dom (flowMap st)" by (simp add: flowMap_def dom_map_of_conv_image_fst)
qed

lemma run_settled:
  assumes "currentFlows st flows" and flows_def: "flows = js_toSorted newestFirst (map snd (fr_flows (tg_flows st)))"
  obtains summary st1 where "runTaskFlowRegistryMaintenance env st = (Inr summary, st1)"
    "\<And>k. k \<notin> tf_flowId ` set flows \<Longrightarrow> flowMap st1 k = flowMap st k"
    "\<And>k. flowMap st1 k = flowMap st k \<or> upkeepOutcome st (te_now env) st1 k"
    "\<forall>i. te_commits env i \<Longrightarrow> (\<forall>k. k \<in> tf_flowId ` set flows \<longrightarrow> upkeepOutcome st (te_now env) st1 k)
      \<and> previewTaskFlowRegistryMaintenance env st = (Inr summary, st\<lparr>tg_writes := Suc (tg_writes st)\<rparr>)"
proof -
  have s: "settled st" using assms(1) by (simp add: currentFlows_def)
  define st0 where "st0 = st\<lparr>tg_writes := Suc (tg_writes st)\<rparr>"
  have o: "onlyFlows st st0" "flowMap st0 = flowMap st" using settled_writes [OF s] by (simp_all add: st0_def flowMap_def)
  have p: "pendingTaskFor st0 = pendingTaskFor st" using pending_cong [OF o(1)] .
  have s0: "settled st0" "currentFlows st0 flows" using assms(1) o by (simp_all add: currentFlows_def onlyFlows_def)
  have up: "upkeepOutcome st0 now st1 k = upkeepOutcome st now st1 k" for now st1 k by (simp add: upkeepOutcome_def o(2) p)
  have records: "flowRecords env st = (Inr flows, st0)" using settled_records [OF s] by (simp add: st0_def flows_def)
  from maintain_all [OF s0(2), of env "te_now env" 0 0] obtain summary st1 where
    r: "countFlows (maintainFlow env (te_now env)) flows 0 0 st0 = (Inr summary, st1)"
    and out: "\<And>k. k \<notin> tf_flowId ` set flows \<Longrightarrow> flowMap st1 k = flowMap st0 k"
    and inn: "\<And>k. k \<in> tf_flowId ` set flows \<Longrightarrow> flowMap st1 k = flowMap st0 k \<or> upkeepOutcome st0 (te_now env) st1 k"
    and all: "\<forall>i. te_commits env i \<Longrightarrow> (\<forall>k. k \<in> tf_flowId ` set flows \<longrightarrow> upkeepOutcome st0 (te_now env) st1 k)
      \<and> summary = \<lparr>mt_reconciled = 0 + fst (tally (pendingTaskFor st0) (te_now env) flows),
                    mt_pruned = 0 + snd (tally (pendingTaskFor st0) (te_now env) flows)\<rparr>" by blast
  have run: "runTaskFlowRegistryMaintenance env st = (Inr summary, st1)"
    by (simp add: runTaskFlowRegistryMaintenance_def bindCall_def records r)
  have prev: "previewTaskFlowRegistryMaintenance env st = (Inr summary, st0)" if "\<forall>i. te_commits env i"
    using all [OF that] preview_all [OF s0(1), of env "te_now env" flows 0 0]
    by (simp add: previewTaskFlowRegistryMaintenance_def bindCall_def records)
  show thesis
  proof (rule that [OF run])
    show "flowMap st1 k = flowMap st k" if "k \<notin> tf_flowId ` set flows" for k using out [OF that] o(2) by simp
    show "flowMap st1 k = flowMap st k \<or> upkeepOutcome st (te_now env) st1 k" for k
      using out [of k] inn [of k] o(2) up by (cases "k \<in> tf_flowId ` set flows") auto
    show "(\<forall>k. k \<in> tf_flowId ` set flows \<longrightarrow> upkeepOutcome st (te_now env) st1 k)
      \<and> previewTaskFlowRegistryMaintenance env st = (Inr summary, st\<lparr>tg_writes := Suc (tg_writes st)\<rparr>)" if "\<forall>i. te_commits env i"
      using all [OF that] prev [OF that] up by (simp add: st0_def)
  qed
qed

subsection \<open>Properties\<close>

text \<open>C24. The preview of maintenance is exact: over any reachable registry of flows, when both registries are ready and the
  writes commit, the run reports the counts that the preview reports, and it leaves each flow as the specification
  says: a terminal mirrored flow whose update is later than its end is repaired, a managed flow with a requested
  cancellation and no pending task is cancelled, an expired terminal flow without pending tasks is removed, and every
  other flow is untouched.\<close>

theorem maintenance_matches_preview:
  assumes "reachable initial_flows (flow_step (te_readOrigin env)) (tg_flows st)"
    and "fr_restore (tg_flows st) = RestoreReady" "tg_restore st = TasksReady" "\<forall>i. te_commits env i"
  shows "\<exists>summary st1 st2. previewTaskFlowRegistryMaintenance env st = (Inr summary, st1)
    \<and> runTaskFlowRegistryMaintenance env st = (Inr summary, st2)
    \<and> map_of (fr_flows (tg_flows st2)) flowId
        = Option.bind (map_of (fr_flows (tg_flows st)) flowId) (upkept (pendingTaskFor st flowId) (te_now env))"
proof -
  note r = reachable_settled [OF assms(1-3)]
  obtain summary st1 where
    run: "runTaskFlowRegistryMaintenance env st = (Inr summary, st1)"
    and out: "\<And>k. k \<notin> dom (flowMap st) \<Longrightarrow> flowMap st1 k = flowMap st k"
    and all: "(\<forall>k. k \<in> dom (flowMap st) \<longrightarrow> upkeepOutcome st (te_now env) st1 k)"
    and prev: "previewTaskFlowRegistryMaintenance env st = (Inr summary, st\<lparr>tg_writes := Suc (tg_writes st)\<rparr>)"
    using run_settled [OF r(2) refl, of env thesis] assms(4) r(3) by (simp only: set_js_toSorted) blast
  have "flowMap st1 flowId = Option.bind (flowMap st flowId) (upkept (pendingTaskFor st flowId) (te_now env))"
    using out [of flowId] all by (cases "flowMap st flowId") (auto simp: upkeepOutcome_def)
  then show ?thesis using run prev by (auto simp: flowMap_def)
qed

text \<open>C35. Whichever writes fail, maintenance removes a flow only when its status is succeeded, failed, cancelled, lost or
  blocked, none of its linked tasks is queued, running or a subagent whose kill is provisional, and seven days have passed
  since its end or, when it has no end, since its last update. In particular a queued, running or waiting flow is never
  removed, and a blocked one that was never ended is removed seven days after its last update.\<close>

theorem maintenance_prunes_only_expired:
  assumes "reachable initial_flows (flow_step (te_readOrigin env)) (tg_flows st)"
    and "fr_restore (tg_flows st) = RestoreReady" "tg_restore st = TasksReady"
    and "runTaskFlowRegistryMaintenance env st = (r, st1)"
    and "map_of (fr_flows (tg_flows st)) flowId = Some flow" "map_of (fr_flows (tg_flows st1)) flowId = None"
  shows "tf_status flow \<in> {FlowSucceeded, FlowFailed, FlowCancelled, FlowLost, FlowBlocked}
    \<and> (\<forall>task \<in> set (linkedTasks st flowId). tr_status task \<noteq> TaskQueued \<and> tr_status task \<noteq> TaskRunning
         \<and> \<not> isProvisionalSubagentKillTask task)
    \<and> (case tf_endedAt flow of Some t \<Rightarrow> t | None \<Rightarrow> tf_updatedAt flow) + 7 * 24 * 60 * 60000 \<le> te_now env"
proof -
  note s = reachable_settled [OF assms(1-3)]
  have "flowMap st1 flowId = flowMap st flowId \<or> upkeepOutcome st (te_now env) st1 flowId"
    using run_settled [OF s(2) refl, of env] assms(4) by (metis prod.inject)
  then have "upkept (pendingTaskFor st flowId) (te_now env) flow = None"
    using assms(5, 6) by (simp add: flowMap_def upkeepOutcome_def)
  then have "stopped flow" "\<not> pendingTaskFor st flowId" "stoppedAt flow + 7 * 24 * 60 * 60000 \<le> te_now env"
    by (auto simp: upkept_def upkeep_def split: flow_upkeep.splits if_splits)
  then show ?thesis
    by (auto simp: stopped_def stoppedAt_def pendingTaskFor_def list_ex_iff isTaskFlowCancellationPending_def)
qed

text \<open>A managed flow that is blocked when its cancellation is requested stays stuck: the audit reports it as cancelled
  but not terminal, while maintenance counts it as terminal and never finalizes it.\<close>

theorem blocked_cancellation_stays_stuck:
  assumes "tf_status flow = FlowBlocked" "tf_cancelRequestedAt flow = Some requestedAt"
    and "now - requestedAt \<ge> DEFAULT_CANCEL_STUCK_MS" "list_ex isTaskFlowCancellationPending tasks = False"
  shows "CancelStuck \<in> af_code ` set (auditFlow noAuditOptions now flow tasks)
    \<and> shouldFinalizeCancelledFlow env flow st = (Inr False, st)"
proof
  have "filter isTaskFlowCancellationPending tasks = []" using assms(4) by (auto simp: filter_empty_conv list_ex_iff)
  then show "CancelStuck \<in> af_code ` set (auditFlow noAuditOptions now flow tasks)"
    using assms(1-3) by (simp add: auditFlow_def Let_def noAuditOptions_def createFinding_def)
  show "shouldFinalizeCancelledFlow env flow st = (Inr False, st)"
    using assms(1) by (simp add: shouldFinalizeCancelledFlow_def isTerminalFlow_def)
qed

lemma count_codes:
  "as_total (foldl addFinding s fs) = as_total s + length fs \<and>
   as_errors (foldl addFinding s fs) + as_warnings (foldl addFinding s fs) = as_errors s + as_warnings s + length fs \<and>
   as_byCode (foldl addFinding s fs) code = as_byCode s code + length (filter (\<lambda>f. af_code f = code) fs)"
  by (induction fs arbitrary: s) (simp_all add: addFinding_def)

text \<open>The summary of an audit counts every finding once, by severity and by code.\<close>

theorem audit_summary_counts:
  "as_total (summarizeTaskFlowAuditFindings findings) = length findings
   \<and> as_errors (summarizeTaskFlowAuditFindings findings) + as_warnings (summarizeTaskFlowAuditFindings findings) = length findings
   \<and> as_byCode (summarizeTaskFlowAuditFindings findings) code = length (filter (\<lambda>f. af_code f = code) findings)"
  using count_codes [of createEmptyTaskFlowAuditSummary findings code]
  by (simp add: summarizeTaskFlowAuditFindings_def createEmptyTaskFlowAuditSummary_def)

subsection \<open>Example\<close>

definition finishedFlows :: flow_registry where
  "finishedFlows = snd (updateFlowRecordByIdExpectedRevision (\<lambda>_. None) None True 6 ''f'' 0 (finishPatch 6 None None None None) exampleRegistry)"

definition expiredTasks :: task_registry where
  "expiredTasks = (tp_registry emptyTasks)\<lparr>tg_restore := TasksReady, tg_flows := finishedFlows\<rparr>"

definition weekLater :: task_env where
  "weekLater = exampleEnv\<lparr>te_now := 700000000\<rparr>"

lemma finished_reachable: "reachable initial_flows (flow_step (te_readOrigin weekLater)) (tg_flows expiredTasks)"
proof -
  have "te_readOrigin weekLater = (\<lambda>_. None)" by (simp add: weekLater_def exampleEnv_def)
  then show ?thesis unfolding expiredTasks_def finishedFlows_def
    using reachable.step [OF example_reachable(1) flow_step.update] by simp
qed

lemma expired_values:
  "fr_restore (tg_flows expiredTasks) = RestoreReady" "tg_restore expiredTasks = TasksReady"
  "map_option tf_status (map_of (fr_flows (tg_flows expiredTasks)) ''f'') = Some FlowSucceeded"
  "map_of (fr_flows (tg_flows (snd (runTaskFlowRegistryMaintenance weekLater expiredTasks)))) ''f'' = None"
  by code_simp+

theorem maintenance_matches_preview_witness:
  "fst (previewTaskFlowRegistryMaintenance weekLater expiredTasks) = fst (runTaskFlowRegistryMaintenance weekLater expiredTasks)"
proof -
  have "\<forall>i. te_commits weekLater i" by (simp add: weekLater_def exampleEnv_def)
  from maintenance_matches_preview [OF finished_reachable expired_values(1, 2) this, of "''f''"] show ?thesis by auto
qed

theorem maintenance_prunes_only_expired_witness:
  "tf_status (the (map_of (fr_flows (tg_flows expiredTasks)) ''f''))
     \<in> {FlowSucceeded, FlowFailed, FlowCancelled, FlowLost, FlowBlocked}"
proof -
  obtain flow where f: "map_of (fr_flows (tg_flows expiredTasks)) ''f'' = Some flow" using expired_values(3) by auto
  from maintenance_prunes_only_expired [OF finished_reachable expired_values(1, 2) surjective_pairing f expired_values(4)]
  have "tf_status flow \<in> {FlowSucceeded, FlowFailed, FlowCancelled, FlowLost, FlowBlocked}" by blast
  then show ?thesis unfolding f option.sel .
qed

end
