(* ===== verification/Channel_Ids.thy ===== *)
theory Channel_Ids
  imports Identifiers
begin

text \<open>
  Canonical channel ids: \<open>src/channels/ids.ts\<close>, \<open>registry-normalize.ts\<close>, the lookup view of \<open>registry-lookup.ts\<close>, and
  \<open>src/utils/message-channel-core.ts\<close> with its constants. The generated metadata, the catalog read at run time and the
  registered plugins are the fields of \<open>channel_world\<close>; the cache of the lookup view is not part of the state. When no
  alias is the id of another channel, a canonical id is its own canonical id.
\<close>

subsection \<open>Catalogs\<close>

record channel_metadata =
  cm_channelId :: string
  cm_configurable :: "bool option"
  cm_aliases :: "string list option"
  cm_order :: "int option"

record chat_channel_entry =
  cc_id :: string
  cc_aliases :: "string list"
  cc_order :: int

record channel_plugin =
  cp_id :: "string option"
  cp_aliases :: "string list option"

record channel_world =
  cw_metadata :: "channel_metadata list"
  cw_localeCompare :: "string \<Rightarrow> string \<Rightarrow> int"
  cw_catalog :: "chat_channel_entry list"
  cw_plugins :: "channel_plugin list"

subsection \<open>Built-in channels\<close>

definition MAX_CHANNEL_ORDER :: int where
  "MAX_CHANNEL_ORDER = 9007199254740991"

definition bundledEntry :: "channel_metadata \<Rightarrow> chat_channel_entry" where
  "bundledEntry entry =
     \<lparr>cc_id = nullish (normalizeOptionalLowercaseString (JStr (cm_channelId entry))) (cm_channelId entry),
      cc_aliases = nullish (cm_aliases entry) [], cc_order = nullish (cm_order entry) MAX_CHANNEL_ORDER\<rparr>"

definition compareEntries :: "channel_world \<Rightarrow> chat_channel_entry \<Rightarrow> chat_channel_entry \<Rightarrow> int" where
  "compareEntries w left right =
     (let d = cc_order left - cc_order right in if d \<noteq> 0 then d else cw_localeCompare w (cc_id left) (cc_id right))"

definition listBundledChatChannelEntries :: "channel_world \<Rightarrow> chat_channel_entry list" where
  "listBundledChatChannelEntries w =
     js_toSorted (compareEntries w) (map bundledEntry (filter (\<lambda>entry. cm_configurable entry \<noteq> Some False) (cw_metadata w)))"

definition CHAT_CHANNEL_ORDER :: "channel_world \<Rightarrow> string list" where
  "CHAT_CHANNEL_ORDER w = map cc_id (listBundledChatChannelEntries w)"

text \<open>The object of aliases: a later entry replaces an earlier one.\<close>

definition CHAT_CHANNEL_ALIASES :: "channel_world \<Rightarrow> (string \<times> string) list" where
  "CHAT_CHANNEL_ALIASES w =
     rev (concat (map (\<lambda>entry. map (\<lambda>alias. (alias, cc_id entry)) (cc_aliases entry)) (listBundledChatChannelEntries w)))"

text \<open>A name that the object of aliases inherits resolves to no channel; in lower case there are two such names.\<close>

definition resolveChatAlias :: "channel_world \<Rightarrow> string \<Rightarrow> string option" where
  "resolveChatAlias w normalized =
     (case map_of (CHAT_CHANNEL_ALIASES w) normalized of
        Some channel \<Rightarrow> Some channel
      | None \<Rightarrow> if normalized \<in> {''constructor'', ''__proto__''} then None else Some normalized)"

definition normalizeRuntimeBundledChatChannelId :: "channel_world \<Rightarrow> string \<Rightarrow> string option" where
  "normalizeRuntimeBundledChatChannelId w normalized =
     map_option cc_id (find (\<lambda>entry. cc_id entry = normalized \<or> normalized \<in> set (cc_aliases entry)) (cw_catalog w))"

definition normalizeChatChannelId :: "channel_world \<Rightarrow> string option \<Rightarrow> string option" where
  "normalizeChatChannelId w raw =
     (case Option.bind raw (normalizeOptionalLowercaseString \<circ> JStr) of
        None \<Rightarrow> None
      | Some normalized \<Rightarrow>
          (case resolveChatAlias w normalized of
             Some resolved \<Rightarrow>
               if resolved \<in> set (CHAT_CHANNEL_ORDER w) then Some resolved
               else normalizeRuntimeBundledChatChannelId w normalized
           | None \<Rightarrow> normalizeRuntimeBundledChatChannelId w normalized))"

subsection \<open>Registered plugins\<close>

definition setLookupEntry :: "string option \<Rightarrow> 'a \<Rightarrow> (string \<times> 'a) list \<Rightarrow> (string \<times> 'a) list" where
  "setLookupEntry key entry m =
     (case key of
        None \<Rightarrow> m
      | Some k \<Rightarrow> if k = [] \<or> map_of m k \<noteq> None then m else m @ [(k, entry)])"

definition pluginKey :: "channel_plugin \<Rightarrow> string option" where
  "pluginKey entry = normalizeOptionalLowercaseString (JStr (nullish (cp_id entry) []))"

definition aliasKey :: "string \<Rightarrow> string option" where
  "aliasKey alias = normalizeOptionalLowercaseString (JStr alias)"

text \<open>Ids are registered before aliases.\<close>

definition registeredChannelPluginLookup :: "channel_world \<Rightarrow> (string \<times> channel_plugin) list" where
  "registeredChannelPluginLookup w =
     fold (\<lambda>entry m. fold (\<lambda>alias. setLookupEntry (aliasKey alias) entry) (nullish (cp_aliases entry) []) m) (cw_plugins w)
       (fold (\<lambda>entry. setLookupEntry (pluginKey entry) entry) (cw_plugins w) [])"

definition findRegisteredChannelPluginEntry :: "channel_world \<Rightarrow> string \<Rightarrow> channel_plugin option" where
  "findRegisteredChannelPluginEntry w key = map_of (registeredChannelPluginLookup w) key"

definition normalizeAnyChannelId :: "channel_world \<Rightarrow> string option \<Rightarrow> string option" where
  "normalizeAnyChannelId w raw =
     (case Option.bind raw (normalizeOptionalLowercaseString \<circ> JStr) of
        None \<Rightarrow> None
      | Some key \<Rightarrow> Option.bind (findRegisteredChannelPluginEntry w key) cp_id)"

subsection \<open>Message channels\<close>

definition INTERNAL_MESSAGE_CHANNEL :: string where
  "INTERNAL_MESSAGE_CHANNEL = ''webchat''"

definition INTERNAL_NON_DELIVERY_CHANNELS :: "string list" where
  "INTERNAL_NON_DELIVERY_CHANNELS = [''heartbeat'', ''cron'', ''webhook'', ''voice'', ''sessions_send'']"

definition isInternalNonDeliveryChannel :: "string \<Rightarrow> bool" where
  "isInternalNonDeliveryChannel v \<longleftrightarrow> List.member INTERNAL_NON_DELIVERY_CHANNELS v"

definition internalSessionConversationId :: "string \<Rightarrow> string option \<Rightarrow> string option" where
  "internalSessionConversationId channelId sessionKey =
     (if channelId = INTERNAL_MESSAGE_CHANNEL then sessionKey else None)"

definition normalizeMessageChannel :: "channel_world \<Rightarrow> string option \<Rightarrow> string option" where
  "normalizeMessageChannel w raw =
     (case Option.bind raw (normalizeOptionalLowercaseString \<circ> JStr) of
        None \<Rightarrow> None
      | Some normalized \<Rightarrow>
          if normalized = INTERNAL_MESSAGE_CHANNEL then Some INTERNAL_MESSAGE_CHANNEL
          else
            (case normalizeChatChannelId w (Some normalized) of
               Some builtIn \<Rightarrow> if builtIn \<noteq> [] then Some builtIn
                 else Some (nullish (normalizeAnyChannelId w (Some normalized)) normalized)
             | None \<Rightarrow> Some (nullish (normalizeAnyChannelId w (Some normalized)) normalized)))"

definition isDeliverableMessageChannel :: "channel_world \<Rightarrow> string \<Rightarrow> bool" where
  "isDeliverableMessageChannel w v \<longleftrightarrow>
     (case normalizeMessageChannel w (Some v) of
        None \<Rightarrow> False
      | Some normalized \<Rightarrow> normalized \<noteq> INTERNAL_MESSAGE_CHANNEL \<and> normalized = v)"

subsection \<open>Canonical ids\<close>

text \<open>The catalogs name channels by clean ids, and an alias that is also an id names its own channel.\<close>

definition cleanId :: "string \<Rightarrow> bool" where
  "cleanId s \<longleftrightarrow> s \<noteq> [] \<and> js_trim s = s \<and> js_toLowerCase s = s"

definition channelIds :: "channel_world \<Rightarrow> string list" where
  "channelIds w = CHAT_CHANNEL_ORDER w @ map cc_id (cw_catalog w) @ List.map_filter cp_id (cw_plugins w)"

definition channelAliases :: "channel_world \<Rightarrow> (string \<times> string) list" where
  "channelAliases w = CHAT_CHANNEL_ALIASES w
     @ concat (map (\<lambda>entry. map (\<lambda>alias. (alias, cc_id entry)) (cc_aliases entry)) (cw_catalog w))
     @ concat (map (\<lambda>entry. case cp_id entry of None \<Rightarrow> []
         | Some channel \<Rightarrow> map (\<lambda>alias. (alias, channel)) (List.map_filter aliasKey (nullish (cp_aliases entry) []))) (cw_plugins w))"

definition canonicalChannels :: "channel_world \<Rightarrow> bool" where
  "canonicalChannels w \<longleftrightarrow> list_all cleanId (channelIds w)
     \<and> list_all (\<lambda>(alias, channel). alias = channel \<or> \<not> List.member (channelIds w) alias) (channelAliases w)"

lemma lowercase_clean: "cleanId s \<Longrightarrow> normalizeOptionalLowercaseString (JStr s) = Some s"
  by (simp add: cleanId_def normalizeOptionalLowercaseString_def normalizeOptionalString_def normalizeNullableString_def)

lemma lowercase_cleans: "normalizeOptionalLowercaseString v = Some s \<Longrightarrow> cleanId s"
  by (auto simp: cleanId_def normalizeOptionalLowercaseString_def normalizeOptionalString_def normalizeNullableString_def
      Let_def js_trim_lower split: js_value.splits if_splits)

lemma canonical_id_clean: "canonicalChannels w \<Longrightarrow> channel \<in> set (channelIds w) \<Longrightarrow> cleanId channel"
  by (simp add: canonicalChannels_def list_all_iff)

lemma canonical_alias:
  "canonicalChannels w \<Longrightarrow> (a, channel) \<in> set (channelAliases w) \<Longrightarrow> a \<in> set (channelIds w) \<Longrightarrow> a = channel"
  by (auto simp: canonicalChannels_def list_all_iff)

lemma chat_alias_of_id:
  assumes "canonicalChannels w" "channel \<in> set (channelIds w)"
  shows "resolveChatAlias w channel \<in> {None, Some channel}"
proof (cases "map_of (CHAT_CHANNEL_ALIASES w) channel")
  case (Some target)
  then have "(channel, target) \<in> set (channelAliases w)" by (auto simp: channelAliases_def dest: map_of_SomeD)
  from canonical_alias [OF assms(1) this assms(2)] Some show ?thesis by (simp add: resolveChatAlias_def)
qed (simp add: resolveChatAlias_def)

lemma runtime_id_of_id:
  assumes "canonicalChannels w" "channel \<in> set (channelIds w)"
  shows "normalizeRuntimeBundledChatChannelId w channel \<in> {None, Some channel}"
proof (cases "find (\<lambda>entry. cc_id entry = channel \<or> channel \<in> set (cc_aliases entry)) (cw_catalog w)")
  case (Some entry)
  then have e: "entry \<in> set (cw_catalog w)" "cc_id entry = channel \<or> channel \<in> set (cc_aliases entry)"
    by (auto simp: find_Some_iff)
  then have "cc_id entry = channel" using canonical_alias [OF assms(1) _ assms(2), of "cc_id entry"]
    by (auto simp: channelAliases_def)
  with Some show ?thesis by (simp add: normalizeRuntimeBundledChatChannelId_def)
qed (simp add: normalizeRuntimeBundledChatChannelId_def)

lemma runtime_finds_id: "channel \<in> cc_id ` set (cw_catalog w) \<Longrightarrow> normalizeRuntimeBundledChatChannelId w channel \<noteq> None"
  by (auto simp: normalizeRuntimeBundledChatChannelId_def find_None_iff)

lemma chat_id_known:
  assumes "normalizeChatChannelId w raw = Some channel"
  shows "channel \<in> set (CHAT_CHANNEL_ORDER w) \<or> channel \<in> cc_id ` set (cw_catalog w)"
  using assms by (auto simp: normalizeChatChannelId_def normalizeRuntimeBundledChatChannelId_def find_Some_iff
      split: option.splits if_splits)

lemma in_map_filter: "x \<in> set xs \<Longrightarrow> f x = Some y \<Longrightarrow> y \<in> set (List.map_filter f xs)"
  by (force simp: List.map_filter_def)

lemma known_channel_ids:
  "set (CHAT_CHANNEL_ORDER w) \<subseteq> set (channelIds w)" "cc_id ` set (cw_catalog w) \<subseteq> set (channelIds w)"
  "entry \<in> set (cw_plugins w) \<Longrightarrow> cp_id entry = Some channel \<Longrightarrow> channel \<in> set (channelIds w)"
  by (auto simp: channelIds_def in_map_filter)

lemma chat_id_of_id:
  assumes w: "canonicalChannels w" and id: "channel \<in> set (channelIds w)"
  shows "normalizeChatChannelId w (Some channel) \<in> {None, Some channel}"
  using chat_alias_of_id [OF w id] runtime_id_of_id [OF w id] lowercase_clean [OF canonical_id_clean [OF w id]]
  by (auto simp: normalizeChatChannelId_def split: option.splits)

text \<open>The lookup view holds plugins under their ids or aliases only.\<close>

definition listedUnder :: "channel_world \<Rightarrow> string \<Rightarrow> channel_plugin \<Rightarrow> bool" where
  "listedUnder w key entry \<longleftrightarrow> entry \<in> set (cw_plugins w)
     \<and> (pluginKey entry = Some key \<or> (\<exists>a \<in> set (nullish (cp_aliases entry) []). aliasKey a = Some key))"

lemma setLookupEntry_get:
  "map_of (setLookupEntry key entry m) k = Some e \<Longrightarrow> map_of m k = Some e \<or> key = Some k \<and> e = entry"
  by (auto simp: setLookupEntry_def split: option.splits if_splits)

lemma fold_setLookupEntry_get:
  assumes "map_of (fold (\<lambda>x. setLookupEntry (key x) (val x)) xs m) k = Some e"
  shows "map_of m k = Some e \<or> (\<exists>x \<in> set xs. key x = Some k \<and> e = val x)"
  using assms
proof (induction xs arbitrary: m)
  case (Cons x xs)
  from Cons.IH [of "setLookupEntry (key x) (val x) m"] Cons.prems setLookupEntry_get [of "key x" "val x" m k e] show ?case by auto
qed simp

lemma fold_fold_setLookupEntry_get:
  assumes "map_of (fold (\<lambda>x. fold (\<lambda>y. setLookupEntry (key y) x) (ys x)) xs m) k = Some e"
  shows "map_of m k = Some e \<or> e \<in> set xs \<and> (\<exists>y \<in> set (ys e). key y = Some k)"
  using assms
proof (induction xs arbitrary: m)
  case (Cons x xs)
  from Cons.IH [of "fold (\<lambda>y. setLookupEntry (key y) x) (ys x) m"] Cons.prems
    fold_setLookupEntry_get [where xs = "ys x" and key = key and val = "\<lambda>_. x" and m = m and k = k and e = e] show ?case by auto
qed simp

lemma found_plugin_listed:
  assumes "findRegisteredChannelPluginEntry w key = Some entry"
  shows "listedUnder w key entry"
proof -
  let ?ids = "fold (\<lambda>entry. setLookupEntry (pluginKey entry) entry) (cw_plugins w) []"
  from assms have "map_of ?ids key = Some entry
      \<or> entry \<in> set (cw_plugins w) \<and> (\<exists>a \<in> set (nullish (cp_aliases entry) []). aliasKey a = Some key)"
    unfolding findRegisteredChannelPluginEntry_def registeredChannelPluginLookup_def by (rule fold_fold_setLookupEntry_get)
  moreover have "entry \<in> set (cw_plugins w) \<and> pluginKey entry = Some key" if "map_of ?ids key = Some entry"
    using fold_setLookupEntry_get [OF that] by auto
  ultimately show ?thesis by (auto simp: listedUnder_def)
qed

lemma any_id_of_id:
  assumes w: "canonicalChannels w" and id: "channel \<in> set (channelIds w)"
  shows "normalizeAnyChannelId w (Some channel) \<in> {None, Some channel}"
proof (cases "normalizeAnyChannelId w (Some channel)")
  case (Some found)
  then obtain entry where f: "findRegisteredChannelPluginEntry w channel = Some entry" "cp_id entry = Some found"
    using lowercase_clean [OF canonical_id_clean [OF w id]] by (auto simp: normalizeAnyChannelId_def split: bind_splits)
  from found_plugin_listed [OF f(1)] have l: "listedUnder w channel entry" .
  then have "cleanId found" using canonical_id_clean [OF w known_channel_ids(3)] f(2) by (auto simp: listedUnder_def)
  then have "pluginKey entry = Some found" using f(2) by (simp add: pluginKey_def lowercase_clean)
  moreover have "channel = found" if "a \<in> set (nullish (cp_aliases entry) [])" "aliasKey a = Some channel" for a
  proof (rule canonical_alias [OF w _ id])
    show "(channel, found) \<in> set (channelAliases w)"
      using l f(2) in_map_filter [of a _ aliasKey, OF that] by (force simp: channelAliases_def listedUnder_def)
  qed
  ultimately show ?thesis using l Some by (auto simp: listedUnder_def)
qed simp

text \<open>Normalizing a channel twice is normalizing it once.\<close>

lemma message_channel_of_id:
  assumes "canonicalChannels w" "channel \<in> set (channelIds w)"
  shows "normalizeMessageChannel w (Some channel) = Some channel"
  using chat_id_of_id [OF assms] any_id_of_id [OF assms] canonical_id_clean [OF assms]
  by (auto simp: normalizeMessageChannel_def lowercase_clean cleanId_def split: option.splits)

lemma message_channel_stable:
  assumes w: "canonicalChannels w" and c: "normalizeMessageChannel w raw = Some channel"
  shows "cleanId channel \<and> normalizeMessageChannel w (Some channel) = Some channel"
proof (cases "channel \<in> set (channelIds w)")
  case True
  then show ?thesis using message_channel_of_id canonical_id_clean w by blast
next
  case False
  from c obtain n where n: "Option.bind raw (normalizeOptionalLowercaseString \<circ> JStr) = Some n"
    by (auto simp: normalizeMessageChannel_def split: option.splits)
  then have "cleanId n" by (auto simp: lowercase_cleans split: bind_splits)
  have "normalizeChatChannelId w (Some n) \<noteq> Some channel"
    using chat_id_known [of w "Some n" channel] known_channel_ids(1, 2) False by blast
  moreover have "normalizeAnyChannelId w (Some n) \<noteq> Some channel"
    using found_plugin_listed known_channel_ids(3) False
    by (fastforce simp: normalizeAnyChannelId_def listedUnder_def split: bind_splits option.splits)
  ultimately have "channel = n" using c n
    by (cases "normalizeAnyChannelId w (Some n)") (auto simp: normalizeMessageChannel_def split: option.splits if_splits)
  with c n \<open>cleanId n\<close> show ?thesis by (simp add: normalizeMessageChannel_def lowercase_clean)
qed

end
