(* ===== verification/Channel_Routes.thy ===== *)
theory Channel_Routes
  imports Identifiers Json_Text
begin

text \<open>
  Routes to a conversation on a channel: \<open>src/plugin-sdk/channel-route.ts\<close>. Loose input is normalized to a route; two
  routes are compared exactly, by conversation, or by a key that is the JSON text of their parts. The key determines the
  parts, so equal keys are exact matches.
\<close>

subsection \<open>Routes\<close>

datatype route_chat_type = RouteDirect | RouteGroup | RouteChannel

datatype route_thread_kind = TopicThread | ThreadThread | ReplyThread

datatype route_thread_source = ExplicitThread | TargetThread | SessionThread | TurnThread

record route_target =
  rt_to :: string
  rt_rawTo :: "string option"
  rt_chatType :: "route_chat_type option"

record route_thread =
  th_id :: js_value
  th_kind :: "route_thread_kind option"
  th_source :: "route_thread_source option"

record channel_route =
  cr_channel :: "string option"
  cr_accountId :: "string option"
  cr_target :: "route_target option"
  cr_thread :: "route_thread option"

record channel_route_input =
  ci_channel :: js_value
  ci_accountId :: js_value
  ci_to :: js_value
  ci_rawTo :: js_value
  ci_chatType :: "route_chat_type option"
  ci_threadId :: js_value
  ci_threadKind :: "route_thread_kind option"
  ci_threadSource :: "route_thread_source option"

definition normalizeRouteThreadId :: "js_value \<Rightarrow> js_value option" where
  "normalizeRouteThreadId v = normalizeOptionalThreadValue v"

definition stringifyRouteThreadId :: "js_value option \<Rightarrow> string option" where
  "stringifyRouteThreadId v = map_option js_String (Option.bind v normalizeRouteThreadId)"

definition normalizeChannelRouteRef :: "channel_route_input option \<Rightarrow> channel_route option" where
  "normalizeChannelRouteRef input =
     (case input of
        None \<Rightarrow> None
      | Some i \<Rightarrow>
          (let channel = normalizeLowercaseStringOrEmpty (ci_channel i);
               accountId = (case ci_accountId i of JStr s \<Rightarrow> normalizeOptionalAccountId (Some s) | _ \<Rightarrow> None);
               to = normalizeOptionalString (ci_to i);
               rawTo = normalizeOptionalString (ci_rawTo i);
               threadId = normalizeRouteThreadId (ci_threadId i)
           in if channel = [] \<and> to = None \<and> accountId = None \<and> threadId = None then None
              else Some \<lparr>cr_channel = (if channel \<noteq> [] then Some channel else None), cr_accountId = accountId,
                cr_target = map_option (\<lambda>t. \<lparr>rt_to = t, rt_rawTo = (if rawTo \<noteq> Some t then rawTo else None),
                  rt_chatType = ci_chatType i\<rparr>) to,
                cr_thread = map_option (\<lambda>t. \<lparr>th_id = t, th_kind = ci_threadKind i, th_source = ci_threadSource i\<rparr>) threadId\<rparr>))"

definition channelRouteTarget :: "channel_route option \<Rightarrow> string option" where
  "channelRouteTarget route = map_option rt_to (Option.bind route cr_target)"

definition channelRouteThreadId :: "channel_route option \<Rightarrow> js_value option" where
  "channelRouteThreadId route = map_option th_id (Option.bind route cr_thread)"

text \<open>Input that names the target only: it carries no kind or source of the thread.\<close>

definition normalizeChannelRouteTarget :: "channel_route_input option \<Rightarrow> channel_route option" where
  "normalizeChannelRouteTarget input = normalizeChannelRouteRef input"

subsection \<open>Explicit targets\<close>

record explicit_target =
  et_to :: string
  et_threadId :: "js_value option"
  et_chatType :: "route_chat_type option"

record parsed_target =
  pt_channel :: string
  pt_rawTo :: string
  pt_to :: string
  pt_threadId :: "js_value option"
  pt_chatType :: "route_chat_type option"

definition resolveChannelRouteTargetWithParser ::
  "string \<Rightarrow> string option \<Rightarrow> js_value option \<Rightarrow> (string \<Rightarrow> string \<Rightarrow> explicit_target option) \<Rightarrow> parsed_target option" where
  "resolveChannelRouteTargetWithParser rawChannel rawTarget rawThreadId parseExplicitTarget =
     (let channel = normalizeLowercaseStringOrEmpty (JStr rawChannel)
      in case Option.bind rawTarget (normalizeOptionalString \<circ> JStr) of
           None \<Rightarrow> None
         | Some rawTo \<Rightarrow>
             if channel = [] then None
             else
               (let parsed = parseExplicitTarget channel rawTo;
                    fallbackThreadId = Option.bind rawThreadId normalizeOptionalThreadValue
                in Some \<lparr>pt_channel = channel, pt_rawTo = rawTo, pt_to = nullish (map_option et_to parsed) rawTo,
                     pt_threadId = Option.bind (nullish_or (Option.bind parsed et_threadId) fallbackThreadId) normalizeOptionalThreadValue,
                     pt_chatType = Option.bind parsed et_chatType\<rparr>))"

subsection \<open>Comparison\<close>

definition routeParts :: "channel_route option \<Rightarrow> string list" where
  "routeParts route =
     [nullish (Option.bind route cr_channel) [], nullish (channelRouteTarget route) [],
      nullish (Option.bind route cr_accountId) [], nullish (stringifyRouteThreadId (channelRouteThreadId route)) []]"

definition channelRouteDedupeKey :: "channel_route_input option \<Rightarrow> string" where
  "channelRouteDedupeKey input = jsonStrings (routeParts (normalizeChannelRouteTarget input))"

definition threadIdsEqual :: "js_value option \<Rightarrow> js_value option \<Rightarrow> bool" where
  "threadIdsEqual left right \<longleftrightarrow> stringifyRouteThreadId left = stringifyRouteThreadId right"

definition accountsCompatible :: "string option \<Rightarrow> string option \<Rightarrow> bool" where
  "accountsCompatible left right \<longleftrightarrow> left \<in> {None, Some []} \<or> right \<in> {None, Some []} \<or> left = right"

definition accountsEqual :: "string option \<Rightarrow> string option \<Rightarrow> bool" where
  "accountsEqual left right \<longleftrightarrow> nullish left [] = nullish right []"

definition channelRoutesMatchExact :: "channel_route option \<Rightarrow> channel_route option \<Rightarrow> bool" where
  "channelRoutesMatchExact left right =
     (case (left, right) of
        (Some l, Some r) \<Rightarrow> cr_channel l = cr_channel r \<and> channelRouteTarget left = channelRouteTarget right
          \<and> accountsEqual (cr_accountId l) (cr_accountId r)
          \<and> threadIdsEqual (channelRouteThreadId left) (channelRouteThreadId right)
      | _ \<Rightarrow> False)"

definition channelRoutesShareConversation :: "channel_route option \<Rightarrow> channel_route option \<Rightarrow> bool" where
  "channelRoutesShareConversation left right =
     (case (left, right) of
        (Some l, Some r) \<Rightarrow>
          if cr_channel l \<noteq> cr_channel r \<or> channelRouteTarget left \<noteq> channelRouteTarget right
             \<or> \<not> accountsCompatible (cr_accountId l) (cr_accountId r) then False
          else if channelRouteThreadId left = None \<or> channelRouteThreadId right = None then True
          else threadIdsEqual (channelRouteThreadId left) (channelRouteThreadId right)
      | _ \<Rightarrow> False)"

definition channelRouteTargetsMatchExact :: "channel_route_input option \<Rightarrow> channel_route_input option \<Rightarrow> bool" where
  "channelRouteTargetsMatchExact left right \<longleftrightarrow>
     channelRoutesMatchExact (normalizeChannelRouteTarget left) (normalizeChannelRouteTarget right)"

definition channelRouteTargetsShareConversation :: "channel_route_input option \<Rightarrow> channel_route_input option \<Rightarrow> bool" where
  "channelRouteTargetsShareConversation left right \<longleftrightarrow>
     channelRoutesShareConversation (normalizeChannelRouteTarget left) (normalizeChannelRouteTarget right)"

subsection \<open>Compact keys\<close>

datatype route_key_input = KeyRoute channel_route | KeyTarget channel_route_input

definition textValue :: "string option \<Rightarrow> js_value" where
  "textValue s = (case s of None \<Rightarrow> JUndefined | Some t \<Rightarrow> JStr t)"

definition routeInput :: "string option \<Rightarrow> string option \<Rightarrow> string option \<Rightarrow> js_value option \<Rightarrow> channel_route_input" where
  "routeInput channel to accountId threadId =
     \<lparr>ci_channel = textValue channel, ci_accountId = textValue accountId, ci_to = textValue to, ci_rawTo = JUndefined,
      ci_chatType = None, ci_threadId = nullish threadId JUndefined, ci_threadKind = None, ci_threadSource = None\<rparr>"

definition normalizeChannelRouteKeyInput :: "route_key_input option \<Rightarrow> channel_route option" where
  "normalizeChannelRouteKeyInput route =
     (case route of
        None \<Rightarrow> None
      | Some (KeyRoute r) \<Rightarrow>
          normalizeChannelRouteRef (Some (routeInput (cr_channel r) (channelRouteTarget (Some r)) (cr_accountId r) (channelRouteThreadId (Some r))))
      | Some (KeyTarget i) \<Rightarrow> normalizeChannelRouteTarget (Some i))"

definition channelRouteCompactKey :: "route_key_input option \<Rightarrow> string option" where
  "channelRouteCompactKey route =
     (let normalized = normalizeChannelRouteKeyInput route
      in if Option.bind normalized cr_channel \<in> {None, Some []} \<or> channelRouteTarget normalized \<in> {None, Some []} then None
         else Some (js_join ''|'' (routeParts normalized)))"

subsection \<open>Normalized routes\<close>

lemma string_of_int_nonempty [simp]: "string_of_int n \<noteq> []"
  by (simp add: string_of_int_def string_of_nat.simps)

lemma optional_string_text: "normalizeOptionalString v = Some s \<Longrightarrow> s \<noteq> [] \<and> js_trim s = s"
  by (auto simp: normalizeOptionalString_def normalizeNullableString_def Let_def split: js_value.splits if_splits)

lemma optional_string_trimmed [simp]: "s \<noteq> [] \<Longrightarrow> js_trim s = s \<Longrightarrow> normalizeOptionalString (JStr s) = Some s"
  by (simp add: normalizeOptionalString_def normalizeNullableString_def)

lemma thread_value_cases:
  assumes "normalizeOptionalThreadValue v = Some t"
  obtains (number) n where "t = JNum n" | (word) s where "t = JStr s" "s \<noteq> []" "js_trim s = s"
  using assms by (auto simp: normalizeOptionalThreadValue_def dest: optional_string_text split: js_value.splits)

lemma thread_value_stable: "normalizeOptionalThreadValue v = Some t \<Longrightarrow> normalizeOptionalThreadValue t = Some t"
  by (erule thread_value_cases) (simp_all add: normalizeOptionalThreadValue_def)

lemma stringified_thread_nonempty: "stringifyRouteThreadId v \<noteq> Some []"
  by (auto simp: stringifyRouteThreadId_def normalizeRouteThreadId_def split: bind_splits elim!: thread_value_cases)

lemma optional_string_nonempty [simp]: "normalizeOptionalString v \<noteq> Some []"
  by (auto dest: optional_string_text)

text \<open>What a normalized route holds, as a function of the input.\<close>

definition inputChannel :: "channel_route_input \<Rightarrow> string option" where
  "inputChannel i = (let channel = normalizeLowercaseStringOrEmpty (ci_channel i) in if channel \<noteq> [] then Some channel else None)"

definition inputAccount :: "channel_route_input \<Rightarrow> string option" where
  "inputAccount i = (case ci_accountId i of JStr s \<Rightarrow> normalizeOptionalAccountId (Some s) | _ \<Rightarrow> None)"

lemma normalized_route_fields:
  assumes "normalizeChannelRouteRef (Some i) = Some r"
  shows "cr_channel r = inputChannel i" "cr_accountId r = inputAccount i"
    "channelRouteTarget (Some r) = normalizeOptionalString (ci_to i)"
    "channelRouteThreadId (Some r) = normalizeOptionalThreadValue (ci_threadId i)"
  using assms by (auto simp: normalizeChannelRouteRef_def channelRouteTarget_def channelRouteThreadId_def inputChannel_def
      inputAccount_def normalizeRouteThreadId_def Let_def option.map_comp comp_def option.map_ident split: if_splits)

lemma normalized_route_None:
  "normalizeChannelRouteRef (Some i) = None \<longleftrightarrow> inputChannel i = None \<and> inputAccount i = None
     \<and> normalizeOptionalString (ci_to i) = None \<and> normalizeOptionalThreadValue (ci_threadId i) = None"
  by (auto simp: normalizeChannelRouteRef_def inputChannel_def inputAccount_def normalizeRouteThreadId_def Let_def)

lemma normalized_route_parts:
  assumes "normalizeChannelRouteRef input = Some r"
  shows "cr_channel r \<noteq> Some []" "channelRouteTarget (Some r) \<noteq> Some []"
proof -
  obtain i where i: "normalizeChannelRouteRef (Some i) = Some r" using assms by (cases input) (auto simp: normalizeChannelRouteRef_def)
  show "cr_channel r \<noteq> Some []" "channelRouteTarget (Some r) \<noteq> Some []"
    by (simp_all add: normalized_route_fields [OF i] inputChannel_def Let_def)
qed

lemma nullish_text_eq: "s \<noteq> Some [] \<Longrightarrow> t \<noteq> Some [] \<Longrightarrow> nullish s [] = nullish t [] \<longleftrightarrow> s = t"
  by (cases s; cases t) auto

lemma routeParts_eq_exact:
  assumes "normalizeChannelRouteRef left = Some l" "normalizeChannelRouteRef right = Some r"
  shows "routeParts (Some l) = routeParts (Some r) \<longleftrightarrow> channelRoutesMatchExact (Some l) (Some r)"
  using normalized_route_parts [OF assms(1)] normalized_route_parts [OF assms(2)] stringified_thread_nonempty
  by (auto simp: routeParts_def channelRoutesMatchExact_def accountsEqual_def threadIdsEqual_def nullish_text_eq)

lemma account_nonempty: "normalizeOptionalAccountId v \<noteq> Some []"
  by (auto simp: normalizeOptionalAccountId_def normalizeCanonicalAccountId_def Let_def split: if_splits)

lemma routeParts_named:
  assumes "normalizeChannelRouteRef input = Some r"
  shows "routeParts (Some r) \<noteq> routeParts None"
proof -
  obtain i where i: "normalizeChannelRouteRef (Some i) = Some r" using assms by (cases input) (auto simp: normalizeChannelRouteRef_def)
  have a: "inputAccount i \<noteq> Some []" using account_nonempty by (auto simp: inputAccount_def split: js_value.splits)
  have t: "stringifyRouteThreadId (normalizeOptionalThreadValue v) = None \<longleftrightarrow> normalizeOptionalThreadValue v = None" for v
    by (cases "normalizeOptionalThreadValue v")
      (auto simp: stringifyRouteThreadId_def normalizeRouteThreadId_def dest: thread_value_stable)
  have "routeParts (Some r) \<noteq> [[], [], [], []]"
    using normalized_route_None [of i] i normalized_route_parts [OF i] a t
      stringified_thread_nonempty [of "normalizeOptionalThreadValue (ci_threadId i)"]
    by (auto simp: routeParts_def normalized_route_fields [OF i] nullish_text_eq [of _ None, simplified])
  then show ?thesis by (simp add: routeParts_def channelRouteTarget_def channelRouteThreadId_def stringifyRouteThreadId_def)
qed

text \<open>C10. The key of a route determines the route: two inputs have the same key exactly when their routes match, or when
  neither names a route.\<close>

theorem dedupe_key_is_exact:
  "channelRouteDedupeKey left = channelRouteDedupeKey right
   \<longleftrightarrow> channelRouteTargetsMatchExact left right \<or> (normalizeChannelRouteTarget left = None \<and> normalizeChannelRouteTarget right = None)"
proof -
  let ?l = "normalizeChannelRouteTarget left" and ?r = "normalizeChannelRouteTarget right"
  have "channelRouteDedupeKey left = channelRouteDedupeKey right \<longleftrightarrow> routeParts ?l = routeParts ?r"
    using jsonStrings_inj [of "routeParts ?l" "routeParts ?r"] by (auto simp: channelRouteDedupeKey_def routeParts_def)
  also have "\<dots> \<longleftrightarrow> channelRouteTargetsMatchExact left right \<or> ?l = None \<and> ?r = None"
  proof (cases "?l = None \<or> ?r = None")
    case True
    then have "\<not> channelRouteTargetsMatchExact left right"
      by (auto simp: channelRouteTargetsMatchExact_def channelRoutesMatchExact_def split: option.splits)
    then show ?thesis using True routeParts_named by (metis normalizeChannelRouteTarget_def option.exhaust)
  next
    case False
    then show ?thesis using routeParts_eq_exact
      by (auto simp: channelRouteTargetsMatchExact_def normalizeChannelRouteTarget_def)
  qed
  finally show ?thesis .
qed

text \<open>Routes that match exactly share their conversation.\<close>

lemma exact_routes_share_conversation:
  "channelRoutesMatchExact left right \<Longrightarrow> channelRoutesShareConversation left right"
  by (cases left; cases right)
    (auto simp: channelRoutesMatchExact_def channelRoutesShareConversation_def accountsEqual_def accountsCompatible_def nullish_def
      split: option.splits)

end
