(* ===== verification/Delivery_Context.thy ===== *)
theory Delivery_Context
  imports Channel_Ids Channel_Routes
begin

text \<open>
  Where answers go: \<open>src/utils/delivery-context.shared.ts\<close>. A delivery context names a channel, a target on it, an
  account and a thread. Normalizing a context twice is normalizing it once. Merging two contexts never combines the
  target of one account or channel with another account or channel. The persisted delivery state of a session has one
  context and a route that agrees with it.
\<close>

record delivery_context =
  dc_channel :: "string option"
  dc_to :: "string option"
  dc_accountId :: "string option"
  dc_threadId :: "js_value option"

subsection \<open>Normalization\<close>

definition normalizeDeliveryContext :: "channel_world \<Rightarrow> delivery_context option \<Rightarrow> delivery_context option" where
  "normalizeDeliveryContext w context =
     (case context of
        None \<Rightarrow> None
      | Some c \<Rightarrow>
          (let channel = map_option (\<lambda>s. nullish (normalizeMessageChannel w (Some s)) (js_trim s)) (dc_channel c)
           in case normalizeChannelRouteTarget (Some (routeInput channel (dc_to c) (dc_accountId c) (dc_threadId c))) of
                None \<Rightarrow> None
              | Some route \<Rightarrow> Some \<lparr>dc_channel = cr_channel route, dc_to = channelRouteTarget (Some route),
                  dc_accountId = normalizeOptionalAccountId (cr_accountId route), dc_threadId = channelRouteThreadId (Some route)\<rparr>))"

text \<open>The parameter \<open>route\<close> is \<open>None\<close> for a payload that is no object.\<close>

definition normalizeDeliveryChannelRoute :: "channel_route option \<Rightarrow> channel_route option" where
  "normalizeDeliveryChannelRoute route =
     (case route of
        None \<Rightarrow> None
      | Some r \<Rightarrow> normalizeChannelRouteRef (Some
          \<lparr>ci_channel = textValue (cr_channel r), ci_accountId = textValue (cr_accountId r),
           ci_to = textValue (map_option rt_to (cr_target r)), ci_rawTo = textValue (Option.bind (cr_target r) rt_rawTo),
           ci_chatType = Option.bind (cr_target r) rt_chatType, ci_threadId = nullish (map_option th_id (cr_thread r)) JUndefined,
           ci_threadKind = Option.bind (cr_thread r) th_kind, ci_threadSource = Option.bind (cr_thread r) th_source\<rparr>))"

definition deliveryContextFromChannelRoute :: "channel_world \<Rightarrow> channel_route option \<Rightarrow> delivery_context option" where
  "deliveryContextFromChannelRoute w route =
     (let normalized = normalizeDeliveryChannelRoute route
      in normalizeDeliveryContext w (Some \<lparr>dc_channel = Option.bind normalized cr_channel, dc_to = channelRouteTarget normalized,
           dc_accountId = Option.bind normalized cr_accountId, dc_threadId = channelRouteThreadId normalized\<rparr>))"

definition contextInput :: "delivery_context \<Rightarrow> channel_route_input" where
  "contextInput c = routeInput (dc_channel c) (dc_to c) (dc_accountId c) (dc_threadId c)"

definition channelRouteFromDeliveryContext :: "channel_world \<Rightarrow> delivery_context option \<Rightarrow> channel_route option" where
  "channelRouteFromDeliveryContext w context =
     normalizeChannelRouteTarget (map_option contextInput (normalizeDeliveryContext w context))"

definition mergeRouteMetadataWithDeliveryContext ::
  "channel_world \<Rightarrow> channel_route option \<Rightarrow> delivery_context \<Rightarrow> channel_route option" where
  "mergeRouteMetadataWithDeliveryContext w route context =
     (case route of
        None \<Rightarrow> channelRouteFromDeliveryContext w (Some context)
      | Some r \<Rightarrow> normalizeChannelRouteRef (Some
          \<lparr>ci_channel = textValue (nullish_or (cr_channel r) (dc_channel context)),
           ci_accountId = textValue (nullish_or (cr_accountId r) (dc_accountId context)),
           ci_to = textValue (nullish_or (channelRouteTarget route) (dc_to context)),
           ci_rawTo = textValue (Option.bind (cr_target r) rt_rawTo), ci_chatType = Option.bind (cr_target r) rt_chatType,
           ci_threadId = nullish (nullish_or (channelRouteThreadId route) (dc_threadId context)) JUndefined,
           ci_threadKind = Option.bind (cr_thread r) th_kind, ci_threadSource = Option.bind (cr_thread r) th_source\<rparr>))"

subsection \<open>Merging\<close>

definition fieldsConflict :: "string option \<Rightarrow> string option \<Rightarrow> bool" where
  "fieldsConflict left right \<longleftrightarrow> left \<notin> {None, Some []} \<and> right \<notin> {None, Some []} \<and> left \<noteq> right"

definition mergeDeliveryContext ::
  "channel_world \<Rightarrow> delivery_context option \<Rightarrow> delivery_context option \<Rightarrow> delivery_context option" where
  "mergeDeliveryContext w primary fallback =
     (let p = normalizeDeliveryContext w primary; f = normalizeDeliveryContext w fallback;
          field = (\<lambda>get. Option.bind p get); other = (\<lambda>get. Option.bind f get)
      in if p = None \<and> f = None then None
         else
           (let channelsConflict = fieldsConflict (field dc_channel) (other dc_channel);
                accountsConflict = fieldsConflict (field dc_accountId) (other dc_accountId);
                routesConflict = (channelsConflict \<or> accountsConflict)
            in normalizeDeliveryContext w (Some
                 \<lparr>dc_channel = (if accountsConflict then field dc_channel else nullish_or (field dc_channel) (other dc_channel)),
                  dc_to = (if routesConflict then field dc_to else nullish_or (field dc_to) (other dc_to)),
                  dc_accountId = (if routesConflict then field dc_accountId else nullish_or (field dc_accountId) (other dc_accountId)),
                  dc_threadId = (if routesConflict then Option.bind p dc_threadId
                     else nullish_or (Option.bind p dc_threadId) (Option.bind f dc_threadId))\<rparr>)))"

definition deliveryContextKey :: "channel_world \<Rightarrow> delivery_context option \<Rightarrow> string option" where
  "deliveryContextKey w context =
     channelRouteCompactKey (map_option (KeyTarget \<circ> contextInput) (normalizeDeliveryContext w context))"

subsection \<open>Internal routes\<close>

definition isInternalRouteContext :: "delivery_context option \<Rightarrow> bool" where
  "isInternalRouteContext context =
     (case Option.bind context dc_channel of
        None \<Rightarrow> False
      | Some channel \<Rightarrow> channel \<noteq> [] \<and> (channel = INTERNAL_MESSAGE_CHANNEL \<or> isInternalNonDeliveryChannel channel))"

definition hasExternalDeliveryTarget :: "channel_world \<Rightarrow> delivery_context option \<Rightarrow> bool" where
  "hasExternalDeliveryTarget w context =
     (case normalizeMessageChannel w (Option.bind context dc_channel) of
        None \<Rightarrow> False
      | Some channel \<Rightarrow> channel \<noteq> [] \<and> \<not> isInternalNonDeliveryChannel channel \<and> isDeliverableMessageChannel w channel
          \<and> Option.bind context dc_to \<notin> {None, Some []})"

definition mergeExternalDeliveryContextOverInternalRoute ::
  "channel_world \<Rightarrow> delivery_context option \<Rightarrow> delivery_context option \<Rightarrow> delivery_context option" where
  "mergeExternalDeliveryContextOverInternalRoute w deliveryContext internalContext =
     normalizeDeliveryContext w (Some
       \<lparr>dc_channel = Option.bind deliveryContext dc_channel, dc_to = Option.bind deliveryContext dc_to,
        dc_accountId = nullish_or (Option.bind deliveryContext dc_accountId) (Option.bind internalContext dc_accountId),
        dc_threadId = nullish_or (Option.bind deliveryContext dc_threadId) (Option.bind internalContext dc_threadId)\<rparr>)"

subsection \<open>The delivery state of a session\<close>

record session_origin =
  so_label :: "string option"
  so_provider :: "string option"
  so_surface :: "string option"
  so_chatType :: "route_chat_type option"
  so_from :: "string option"
  so_to :: "string option"
  so_nativeChannelId :: "string option"
  so_nativeDirectUserId :: "string option"
  so_accountId :: "string option"
  so_threadId :: "js_value option"

definition noOrigin :: session_origin where
  "noOrigin = \<lparr>so_label = None, so_provider = None, so_surface = None, so_chatType = None, so_from = None, so_to = None,
     so_nativeChannelId = None, so_nativeDirectUserId = None, so_accountId = None, so_threadId = None\<rparr>"

datatype session_delivery =
    NoDelivery
  | InternalDelivery
  | ExternalDelivery channel_route delivery_context session_origin

record delivery_facts =
  df_route :: "channel_route option"
  df_context :: "delivery_context option"
  df_origin :: "session_origin option"

definition deliveryOrigin :: "session_origin option \<Rightarrow> delivery_context \<Rightarrow> channel_route \<Rightarrow> session_origin" where
  "deliveryOrigin given merged route =
     (let origin = nullish given noOrigin
      in origin\<lparr>so_provider := nullish_or (so_provider origin) (dc_channel merged), so_to := nullish_or (so_to origin) (dc_to merged),
           so_accountId := nullish_or (so_accountId origin) (dc_accountId merged),
           so_threadId := nullish_or (so_threadId origin) (dc_threadId merged),
           so_chatType := nullish_or (so_chatType origin) (Option.bind (cr_target route) rt_chatType)\<rparr>)"

definition originContext :: "channel_world \<Rightarrow> session_origin option \<Rightarrow> delivery_context option" where
  "originContext w origin = normalizeDeliveryContext w (Some
     \<lparr>dc_channel = Option.bind origin so_provider, dc_to = Option.bind origin so_to, dc_accountId = Option.bind origin so_accountId,
      dc_threadId = Option.bind origin so_threadId\<rparr>)"

definition mergedDeliveryContext :: "channel_world \<Rightarrow> delivery_facts \<Rightarrow> bool \<times> delivery_context option" where
  "mergedDeliveryContext w facts =
     (let routeContext = deliveryContextFromChannelRoute w (normalizeDeliveryChannelRoute (df_route facts));
          originCtx = originContext w (df_origin facts);
          context = normalizeDeliveryContext w (df_context facts);
          routeIsInternalFallback = (isInternalRouteContext routeContext \<and> hasExternalDeliveryTarget w context)
      in (routeIsInternalFallback,
          if routeIsInternalFallback
          then mergeExternalDeliveryContextOverInternalRoute w context (mergeDeliveryContext w routeContext originCtx)
          else mergeDeliveryContext w routeContext (mergeDeliveryContext w context originCtx)))"

definition normalizeSessionDeliveryState :: "channel_world \<Rightarrow> delivery_facts option \<Rightarrow> session_delivery" where
  "normalizeSessionDeliveryState w params =
     (case params of
        None \<Rightarrow> NoDelivery
      | Some facts \<Rightarrow>
          (case mergedDeliveryContext w facts of
             (_, None) \<Rightarrow> NoDelivery
           | (routeIsInternalFallback, Some merged) \<Rightarrow>
               if isInternalRouteContext (Some merged) then InternalDelivery
               else
                 (case mergeRouteMetadataWithDeliveryContext w
                    (if routeIsInternalFallback then None else normalizeDeliveryChannelRoute (df_route facts)) merged of
                    None \<Rightarrow> NoDelivery
                  | Some route \<Rightarrow> ExternalDelivery route merged (deliveryOrigin (df_origin facts) merged route))))"

definition isCanonicalSessionDeliveryState :: "js_value \<Rightarrow> bool" where
  "isCanonicalSessionDeliveryState v =
     (case v of
        JObj properties \<Rightarrow>
          (let get = (\<lambda>name. nullish (map_of properties name) JUndefined);
               isObject = (\<lambda>x. case x of JArr _ \<Rightarrow> True | JObj _ \<Rightarrow> True | _ \<Rightarrow> False)
           in get ''kind'' = JStr ''none'' \<or> get ''kind'' = JStr ''internal''
              \<or> (get ''kind'' = JStr ''external'' \<and> isObject (get ''route'') \<and> isObject (get ''context'') \<and> isObject (get ''origin'')))
      | _ \<Rightarrow> False)"

record delivery_projection =
  dp_route :: "channel_route option"
  dp_deliveryContext :: "delivery_context option"
  dp_origin :: "session_origin option"
  dp_channel :: "string option"
  dp_lastChannel :: "string option"
  dp_lastTo :: "string option"
  dp_lastAccountId :: "string option"
  dp_lastThreadId :: "js_value option"

definition projectSessionDeliveryFields :: "session_delivery option \<Rightarrow> delivery_projection" where
  "projectSessionDeliveryFields delivery =
     (case delivery of
        Some (ExternalDelivery route context origin) \<Rightarrow>
          \<lparr>dp_route = Some route, dp_deliveryContext = Some context, dp_origin = Some origin,
           dp_channel = nullish_or (dc_channel context) (so_provider origin), dp_lastChannel = dc_channel context,
           dp_lastTo = dc_to context, dp_lastAccountId = dc_accountId context, dp_lastThreadId = dc_threadId context\<rparr>
      | _ \<Rightarrow> \<lparr>dp_route = None, dp_deliveryContext = None, dp_origin = None, dp_channel = None, dp_lastChannel = None,
             dp_lastTo = None, dp_lastAccountId = None, dp_lastThreadId = None\<rparr>)"

definition deliveryContextFromSession :: "session_delivery option \<Rightarrow> delivery_context option" where
  "deliveryContextFromSession delivery = (case delivery of Some (ExternalDelivery _ context _) \<Rightarrow> Some context | _ \<Rightarrow> None)"

definition sessionDeliveryRoute :: "session_delivery option \<Rightarrow> channel_route option" where
  "sessionDeliveryRoute delivery = (case delivery of Some (ExternalDelivery route _ _) \<Rightarrow> Some route | _ \<Rightarrow> None)"

definition sessionDeliveryOrigin :: "session_delivery option \<Rightarrow> session_origin option" where
  "sessionDeliveryOrigin delivery = (case delivery of Some (ExternalDelivery _ _ origin) \<Rightarrow> Some origin | _ \<Rightarrow> None)"

definition sessionDeliveryChannel :: "session_delivery option \<Rightarrow> string option" where
  "sessionDeliveryChannel delivery =
     (case delivery of
        Some (ExternalDelivery _ context origin) \<Rightarrow> nullish_or (dc_channel context) (so_provider origin)
      | _ \<Rightarrow> None)"

subsection \<open>Normalizing twice\<close>

lemma account_trimmed:
  "normalizeOptionalAccountId v = Some a \<Longrightarrow> canonical_id a \<and> \<not> isBlockedObjectKey a"
  using canonicalizeAccountId_canonical by (auto simp: normalizeOptionalAccountId_def normalizeCanonicalAccountId_def Let_def split: if_splits)

lemma account_stable: "stable_id s \<Longrightarrow> \<not> isBlockedObjectKey s \<Longrightarrow> normalizeOptionalAccountId (Some s) = Some s"
  using stable_id_clean [of s]
  by (auto simp: normalizeOptionalAccountId_def normalizeCanonicalAccountId_def canonicalizeAccountId_def Let_def stable_id_def
      canonical_id_def trimmed_id clean_lower canonical_lower)

lemma last_stripDashes: "stripDashes s \<noteq> [] \<Longrightarrow> last (stripDashes s) \<noteq> CHR ''-''"
  unfolding stripDashes_def by (metis (full_types) hd_dropWhile last_rev rev_is_Nil_conv)

lemma length_stripDashes: "length (stripDashes s) \<le> length s"
  unfolding stripDashes_def by (metis length_dropWhile_le length_rev le_trans)

lemma account_twice:
  assumes "normalizeOptionalAccountId (normalizeOptionalAccountId v) = Some b"
  shows "normalizeOptionalAccountId (Some b) = Some b"
proof -
  obtain a where a: "normalizeOptionalAccountId v = Some a" using assms by (cases "normalizeOptionalAccountId v") (auto simp: normalizeOptionalAccountId_def)
  from account_trimmed [OF a] have c: "canonical_id a" and nb: "\<not> isBlockedObjectKey a" by simp_all
  from account_trimmed [OF assms] have b: "canonical_id b" "\<not> isBlockedObjectKey b" by simp_all
  have "stable_id b"
  proof (cases "stable_id a")
    case True
    with account_stable [OF True nb] assms a show ?thesis by simp
  next
    case False
    then have "\<not> valid_id a" using c by (cases a) (auto simp: stable_id_def valid_id_def ascii_upper_def)
    with assms a c have "b = sanitizeId a"
      by (auto simp: normalizeOptionalAccountId_def normalizeCanonicalAccountId_def canonicalizeAccountId_def Let_def canonical_id_def
          trimmed_id clean_lower canonical_lower split: if_splits)
    moreover have "length (stripDashes a) \<le> 64" using c length_stripDashes [of a] by (simp add: canonical_id_def)
    ultimately have "b = stripDashes a" using c by (simp add: sanitizeId_def replaceRuns_id canonical_id_def)
    then show ?thesis using b last_stripDashes [of a] by (auto simp: stable_id_def canonical_id_def)
  qed
  then show ?thesis by (rule account_stable) (rule b)
qed

text \<open>The parts of contexts and routes, and how normalization acts on each of them.\<close>

type_synonym delivery_parts = "string option \<times> string option \<times> string option \<times> js_value option"

definition contextParts :: "delivery_context option \<Rightarrow> delivery_parts" where
  "contextParts c = (Option.bind c dc_channel, Option.bind c dc_to, Option.bind c dc_accountId, Option.bind c dc_threadId)"

definition partsOfRoute :: "channel_route option \<Rightarrow> delivery_parts" where
  "partsOfRoute r = (Option.bind r cr_channel, channelRouteTarget r, Option.bind r cr_accountId, channelRouteThreadId r)"

definition lowerOf :: "string option \<Rightarrow> string option" where
  "lowerOf s = Option.bind s (normalizeOptionalLowercaseString \<circ> JStr)"

definition channelOf :: "channel_world \<Rightarrow> string option \<Rightarrow> string option" where
  "channelOf w channel = lowerOf (map_option (\<lambda>s. nullish (normalizeMessageChannel w (Some s)) (js_trim s)) channel)"

definition textOf :: "string option \<Rightarrow> string option" where
  "textOf s = Option.bind s (normalizeOptionalString \<circ> JStr)"

definition threadOf :: "js_value option \<Rightarrow> js_value option" where
  "threadOf v = Option.bind v normalizeOptionalThreadValue"

lemma undefined_texts [simp]:
  "normalizeOptionalString JUndefined = None" "normalizeOptionalLowercaseString JUndefined = None"
  "normalizeOptionalThreadValue JUndefined = None" "normalizeOptionalAccountId None = None"
  by (simp_all add: normalizeOptionalString_def normalizeNullableString_def normalizeOptionalLowercaseString_def
      normalizeOptionalThreadValue_def normalizeOptionalAccountId_def)

lemma lowercase_nonempty [simp]: "normalizeOptionalLowercaseString v \<noteq> Some []"
  by (auto dest: lowercase_cleans simp: cleanId_def)

lemma route_ref_parts:
  "partsOfRoute (normalizeChannelRouteRef (Some i))
   = (normalizeOptionalLowercaseString (ci_channel i), normalizeOptionalString (ci_to i),
      (case ci_accountId i of JStr s \<Rightarrow> normalizeOptionalAccountId (Some s) | _ \<Rightarrow> None), normalizeOptionalThreadValue (ci_threadId i))"
proof -
  have c: "inputChannel i = normalizeOptionalLowercaseString (ci_channel i)"
    by (cases "normalizeOptionalLowercaseString (ci_channel i)")
      (auto simp: inputChannel_def normalizeLowercaseStringOrEmpty_def Let_def)
  show ?thesis
  proof (cases "normalizeChannelRouteRef (Some i)")
    case None
    then show ?thesis using normalized_route_None [of i] c
      by (simp add: partsOfRoute_def channelRouteTarget_def channelRouteThreadId_def inputAccount_def)
  next
    case (Some r)
    from normalized_route_fields [OF Some] Some c show ?thesis by (simp add: partsOfRoute_def inputAccount_def)
  qed
qed

lemma text_value_parts [simp]:
  "normalizeOptionalLowercaseString (textValue s) = lowerOf s" "normalizeOptionalString (textValue s) = textOf s"
  "(case textValue s of JStr a \<Rightarrow> normalizeOptionalAccountId (Some a) | _ \<Rightarrow> None) = normalizeOptionalAccountId s"
  "normalizeOptionalThreadValue (nullish v JUndefined) = threadOf v"
  by (cases s; simp add: textValue_def lowerOf_def textOf_def)+ (cases v; simp add: threadOf_def)

lemma no_route_parts [simp]: "channelRouteTarget None = None" "channelRouteThreadId None = None"
  by (simp_all add: channelRouteTarget_def channelRouteThreadId_def)

lemma context_parts:
  "contextParts (normalizeDeliveryContext w (Some c))
   = (channelOf w (dc_channel c), textOf (dc_to c), normalizeOptionalAccountId (normalizeOptionalAccountId (dc_accountId c)), threadOf (dc_threadId c))"
proof -
  let ?channel = "map_option (\<lambda>s. nullish (normalizeMessageChannel w (Some s)) (js_trim s)) (dc_channel c)"
  let ?r = "normalizeChannelRouteTarget (Some (routeInput ?channel (dc_to c) (dc_accountId c) (dc_threadId c)))"
  have "partsOfRoute ?r = (channelOf w (dc_channel c), textOf (dc_to c), normalizeOptionalAccountId (dc_accountId c), threadOf (dc_threadId c))"
    by (simp add: normalizeChannelRouteTarget_def route_ref_parts routeInput_def channelOf_def)
  then show ?thesis
    by (cases ?r) (auto simp: normalizeDeliveryContext_def contextParts_def partsOfRoute_def Let_def)
qed

lemma textOf_stable [simp]: "textOf (textOf s) = textOf s"
  by (cases "textOf s") (auto simp: textOf_def split: bind_splits dest: optional_string_text)

lemma threadOf_stable [simp]: "threadOf (threadOf v) = threadOf v"
  by (cases "threadOf v") (auto simp: threadOf_def split: bind_splits dest: thread_value_stable)

lemma account_thrice [simp]:
  "normalizeOptionalAccountId (normalizeOptionalAccountId (normalizeOptionalAccountId v)) = normalizeOptionalAccountId (normalizeOptionalAccountId v)"
  using account_twice by (cases "normalizeOptionalAccountId (normalizeOptionalAccountId v)") auto

lemma lowerOf_stable [simp]: "lowerOf (lowerOf s) = lowerOf s"
  by (cases "lowerOf s") (auto simp: lowerOf_def split: bind_splits dest: lowercase_cleans lowercase_clean)

lemma message_channel_lower: "normalizeMessageChannel w (lowerOf s) = normalizeMessageChannel w s"
proof -
  have "Option.bind (lowerOf s) (normalizeOptionalLowercaseString \<circ> JStr) = Option.bind s (normalizeOptionalLowercaseString \<circ> JStr)"
    using lowerOf_stable [of s] by (simp only: lowerOf_def)
  then show ?thesis unfolding normalizeMessageChannel_def by (simp only:)
qed

lemma channelOf_eq: "channelOf w s = lowerOf (normalizeMessageChannel w s)"
proof (cases s)
  case (Some t)
  show ?thesis
  proof (cases "normalizeMessageChannel w (Some t)")
    case None
    then have "js_trim t = []"
      by (auto simp: normalizeMessageChannel_def normalizeOptionalLowercaseString_def normalizeOptionalString_def
          normalizeNullableString_def Let_def split: option.splits if_splits)
    with None Some show ?thesis
      by (simp add: channelOf_def lowerOf_def normalizeOptionalLowercaseString_def normalizeOptionalString_def normalizeNullableString_def)
  qed (simp add: channelOf_def Some)
qed (simp add: channelOf_def lowerOf_def normalizeMessageChannel_def)

lemma channelOf_lower [simp]: "channelOf w (lowerOf s) = channelOf w s"
  by (simp add: channelOf_eq message_channel_lower)

lemma channelOf_stable:
  assumes "canonicalChannels w"
  shows "channelOf w (channelOf w s) = channelOf w s"
proof (cases "normalizeMessageChannel w s")
  case (Some c)
  from message_channel_stable [OF assms Some] have "cleanId c" "normalizeMessageChannel w (Some c) = Some c" by simp_all
  with Some show ?thesis by (simp add: channelOf_eq lowerOf_def lowercase_clean)
qed (simp add: channelOf_eq lowerOf_def normalizeMessageChannel_def)

lemma channelOf_named: "canonicalChannels w \<Longrightarrow> channelOf w s = None \<longleftrightarrow> lowerOf s = None"
  using message_channel_stable [of w s] by (cases "normalizeMessageChannel w s")
    (auto simp: channelOf_eq lowerOf_def lowercase_clean normalizeMessageChannel_def split: option.splits if_splits)

subsection \<open>Merging keeps the owner of a route\<close>

definition ownersConflict :: "delivery_parts \<Rightarrow> delivery_parts \<Rightarrow> bool" where
  "ownersConflict = (\<lambda>(channel, _, account, _) (channel', _, account', _).
     channel \<noteq> None \<and> channel' \<noteq> None \<and> channel \<noteq> channel' \<or> account \<noteq> None \<and> account' \<noteq> None \<and> account \<noteq> account')"

definition mergedParts :: "delivery_parts \<Rightarrow> delivery_parts \<Rightarrow> delivery_parts" where
  "mergedParts p f =
     (if ownersConflict p f then p
      else case (p, f) of ((channel, to, account, thread), (channel', to', account', thread')) \<Rightarrow>
        (nullish_or channel channel', nullish_or to to', nullish_or account account', nullish_or thread thread'))"

definition normalParts :: "channel_world \<Rightarrow> delivery_parts \<Rightarrow> bool" where
  "normalParts w = (\<lambda>(channel, to, account, thread). channelOf w channel = channel \<and> textOf to = to
     \<and> normalizeOptionalAccountId account = account \<and> threadOf thread = thread)"

lemma normal_context_parts:
  assumes "canonicalChannels w"
  shows "normalParts w (contextParts (normalizeDeliveryContext w c))"
  using channelOf_stable [OF assms]
  by (cases c) (simp_all add: context_parts normalParts_def, simp_all add: normalizeDeliveryContext_def contextParts_def textOf_def
      threadOf_def channelOf_def lowerOf_def)

lemma nullish_or_parts:
  "f p = p \<Longrightarrow> f q = q \<Longrightarrow> f (nullish_or p q) = nullish_or p q"
  by (cases p) simp_all

lemma mergedParts_normal: "normalParts w p \<Longrightarrow> normalParts w f \<Longrightarrow> normalParts w (mergedParts p f)"
  by (cases p; cases f) (auto simp: mergedParts_def normalParts_def nullish_or_parts)

lemma normal_parts_nonempty: "normalParts w (channel, to, account, thread) \<Longrightarrow> channel \<noteq> Some [] \<and> account \<noteq> Some []"
  using account_nonempty [of account] by (auto simp: normalParts_def channelOf_def lowerOf_def split: bind_splits)

lemma merge_parts:
  assumes w: "canonicalChannels w"
  shows "contextParts (mergeDeliveryContext w primary fallback)
    = mergedParts (contextParts (normalizeDeliveryContext w primary)) (contextParts (normalizeDeliveryContext w fallback))"
proof -
  let ?p = "normalizeDeliveryContext w primary" and ?f = "normalizeDeliveryContext w fallback"
  obtain c t a h where p: "contextParts ?p = (c, t, a, h)" by (cases "contextParts ?p")
  obtain c' t' a' h' where f: "contextParts ?f = (c', t', a', h')" by (cases "contextParts ?f")
  have np: "normalParts w (c, t, a, h)" and nf: "normalParts w (c', t', a', h')"
    using normal_context_parts [OF w] p f by metis+
  show ?thesis
  proof (cases "?p = None \<and> ?f = None")
    case True
    then show ?thesis by (simp add: mergeDeliveryContext_def Let_def contextParts_def mergedParts_def ownersConflict_def)
  next
    case False
    have conflicts: "fieldsConflict c c' \<longleftrightarrow> c \<noteq> None \<and> c' \<noteq> None \<and> c \<noteq> c'" "fieldsConflict a a' \<longleftrightarrow> a \<noteq> None \<and> a' \<noteq> None \<and> a \<noteq> a'"
      using normal_parts_nonempty [OF np] normal_parts_nonempty [OF nf] by (auto simp: fieldsConflict_def)
    have parts: "Option.bind ?p dc_channel = c" "Option.bind ?p dc_to = t" "Option.bind ?p dc_accountId = a" "Option.bind ?p dc_threadId = h"
      "Option.bind ?f dc_channel = c'" "Option.bind ?f dc_to = t'" "Option.bind ?f dc_accountId = a'" "Option.bind ?f dc_threadId = h'"
      using p f by (simp_all add: contextParts_def)
    have "mergeDeliveryContext w primary fallback
      = normalizeDeliveryContext w (Some (case mergedParts (c, t, a, h) (c', t', a', h') of
          (channel, to, account, thread) \<Rightarrow> \<lparr>dc_channel = channel, dc_to = to, dc_accountId = account, dc_threadId = thread\<rparr>))"
      unfolding mergeDeliveryContext_def Let_def if_not_P [OF False] parts
      by (cases "fieldsConflict a a'"; cases "fieldsConflict c c'")
        (auto simp: mergedParts_def ownersConflict_def conflicts simp del: not_None_eq not_Some_eq)
    then have "contextParts (mergeDeliveryContext w primary fallback)
      = contextParts (normalizeDeliveryContext w (Some (case mergedParts (c, t, a, h) (c', t', a', h') of
          (channel, to, account, thread) \<Rightarrow> \<lparr>dc_channel = channel, dc_to = to, dc_accountId = account, dc_threadId = thread\<rparr>)))"
      by (rule arg_cong)
    also have "\<dots> = mergedParts (c, t, a, h) (c', t', a', h')"
      using mergedParts_normal [OF np nf] by (auto simp: context_parts normalParts_def split: prod.splits)
    finally show ?thesis by (simp add: p f)
  qed
qed

text \<open>C16. Merging two contexts keeps the target and the thread with the channel and the account that own them: the result is
  the first context when the two name different channels or accounts, and otherwise takes each missing part from the
  second. So a target of the second context is used only on its own channel and account.\<close>

theorem merge_keeps_route_owner:
  assumes "canonicalChannels w"
    and "contextParts (normalizeDeliveryContext w primary) = (channel, to, account, thread)"
    and "contextParts (normalizeDeliveryContext w fallback) = (channel', to', account', thread')"
    and "contextParts (mergeDeliveryContext w primary fallback) = (channel'', to'', account'', thread'')"
  shows "(channel'', to'', account'', thread'') = mergedParts (channel, to, account, thread) (channel', to', account', thread')
    \<and> (to'' \<noteq> to \<or> thread'' \<noteq> thread \<longrightarrow> (channel' \<noteq> None \<longrightarrow> channel'' = channel') \<and> (account' \<noteq> None \<longrightarrow> account'' = account'))"
proof -
  from merge_parts [OF assms(1), of primary fallback] assms(2-4)
  have m: "(channel'', to'', account'', thread'') = mergedParts (channel, to, account, thread) (channel', to', account', thread')" by simp
  then show ?thesis by (auto simp: mergedParts_def ownersConflict_def split: if_splits)
qed

subsection \<open>The route of a session agrees with its context\<close>

lemma delivery_route_parts:
  "partsOfRoute (normalizeDeliveryChannelRoute r)
   = (lowerOf (Option.bind r cr_channel), textOf (channelRouteTarget r), normalizeOptionalAccountId (Option.bind r cr_accountId),
      threadOf (channelRouteThreadId r))"
proof (cases r)
  case (Some route)
  show ?thesis
    by (simp add: Some normalizeDeliveryChannelRoute_def route_ref_parts channelRouteTarget_def channelRouteThreadId_def)
qed (simp add: normalizeDeliveryChannelRoute_def partsOfRoute_def lowerOf_def textOf_def threadOf_def)

lemma route_context_parts:
  "contextParts (deliveryContextFromChannelRoute w r)
   = (channelOf w (Option.bind r cr_channel), textOf (channelRouteTarget r),
      normalizeOptionalAccountId (normalizeOptionalAccountId (Option.bind r cr_accountId)), threadOf (channelRouteThreadId r))"
  using delivery_route_parts [of r] by (simp add: deliveryContextFromChannelRoute_def Let_def context_parts partsOfRoute_def)

lemma context_route_parts:
  assumes "normalParts w (contextParts (Some c))"
  shows "contextParts (deliveryContextFromChannelRoute w (channelRouteFromDeliveryContext w (Some c))) = contextParts (Some c)"
proof -
  have n: "contextParts (normalizeDeliveryContext w (Some c)) = contextParts (Some c)"
    using assms by (simp add: context_parts) (simp add: contextParts_def normalParts_def)
  show ?thesis
  proof (cases "normalizeDeliveryContext w (Some c)")
    case None
    with n have "contextParts (Some c) = (None, None, None, None)" by (simp add: contextParts_def)
    with None show ?thesis
      by (simp add: route_context_parts channelRouteFromDeliveryContext_def normalizeChannelRouteTarget_def normalizeChannelRouteRef_def
          channelOf_def lowerOf_def textOf_def threadOf_def)
  next
    case (Some d)
    then have "partsOfRoute (channelRouteFromDeliveryContext w (Some c))
        = (lowerOf (dc_channel d), textOf (dc_to d), normalizeOptionalAccountId (dc_accountId d), threadOf (dc_threadId d))"
      by (simp add: channelRouteFromDeliveryContext_def normalizeChannelRouteTarget_def contextInput_def routeInput_def route_ref_parts)
    moreover from n Some assms have "normalParts w (contextParts (Some d))" by simp
    ultimately show ?thesis using n Some
      by (simp add: route_context_parts partsOfRoute_def) (simp add: contextParts_def normalParts_def)
  qed
qed

lemma overlaid_part:
  assumes "normal (clean x) = normal x" "normal x \<noteq> None \<Longrightarrow> m = normal x" "normal m = m" "normal x = None \<Longrightarrow> clean x = None"
  shows "normal (nullish_or (clean x) m) = m"
  using assms by (cases "clean x") auto

lemma route_metadata_parts:
  assumes w: "canonicalChannels w" and m: "normalParts w (contextParts (Some merged))"
    and r: "partsOfRoute (Some r) = (lowerOf channel, textOf to, account, threadOf thread)" "normalizeOptionalAccountId account = account"
    and merged: "contextParts (Some merged) = mergedParts (channelOf w channel, textOf to, account, threadOf thread) f"
  shows "contextParts (deliveryContextFromChannelRoute w (mergeRouteMetadataWithDeliveryContext w (Some r) merged)) = contextParts (Some merged)"
proof -
  obtain c t a h where parts: "contextParts (Some merged) = (c, t, a, h)" by (cases "contextParts (Some merged)")
  have n: "channelOf w c = c" "textOf t = t" "normalizeOptionalAccountId a = a" "threadOf h = h"
    using m by (simp_all add: parts normalParts_def)
  have taken: "channelOf w channel \<noteq> None \<longrightarrow> c = channelOf w channel" "textOf to \<noteq> None \<longrightarrow> t = textOf to"
    "account \<noteq> None \<longrightarrow> a = account" "threadOf thread \<noteq> None \<longrightarrow> h = threadOf thread"
    using merged by (cases f; auto simp: parts mergedParts_def split: if_splits)+
  have "partsOfRoute (mergeRouteMetadataWithDeliveryContext w (Some r) merged)
      = (lowerOf (nullish_or (lowerOf channel) c), textOf (nullish_or (textOf to) t),
         normalizeOptionalAccountId (nullish_or account a), threadOf (nullish_or (threadOf thread) h))"
  proof -
    have "cr_channel r = lowerOf channel" "channelRouteTarget (Some r) = textOf to" "cr_accountId r = account"
      "channelRouteThreadId (Some r) = threadOf thread" using r(1) by (simp_all add: partsOfRoute_def)
    moreover have "dc_channel merged = c" "dc_to merged = t" "dc_accountId merged = a" "dc_threadId merged = h"
      using parts by (simp_all add: contextParts_def)
    ultimately show ?thesis by (simp add: mergeRouteMetadataWithDeliveryContext_def route_ref_parts)
  qed
  moreover have "channelOf w (nullish_or (lowerOf channel) c) = c"
    by (rule overlaid_part [where normal = "channelOf w" and clean = lowerOf]) (use n taken channelOf_named [OF w] in auto)
  moreover have "textOf (nullish_or (textOf to) t) = t" 
    by (rule overlaid_part [where normal = textOf and clean = textOf]) (use n taken in auto)
  moreover have "normalizeOptionalAccountId (nullish_or account a) = a" using n taken r(2) by (cases account) simp_all
  moreover have "threadOf (nullish_or (threadOf thread) h) = h" 
    by (rule overlaid_part [where normal = threadOf and clean = threadOf]) (use n taken in auto)
  ultimately show ?thesis using n by (simp add: route_context_parts parts) (simp add: partsOfRoute_def)
qed

lemma renormalized_parts:
  assumes "canonicalChannels w"
  shows "contextParts (normalizeDeliveryContext w (normalizeDeliveryContext w c)) = contextParts (normalizeDeliveryContext w c)"
proof (cases "normalizeDeliveryContext w c")
  case (Some d)
  with normal_context_parts [OF assms, of c] show ?thesis
    by (simp add: context_parts) (simp add: contextParts_def normalParts_def)
qed (simp add: normalizeDeliveryContext_def)

lemma merged_context_normal:
  assumes "canonicalChannels w" "mergedDeliveryContext w facts = (internal, Some merged)"
  shows "normalParts w (contextParts (Some merged))"
proof -
  have "normalParts w (contextParts (mergeDeliveryContext w p f))" for p f
    unfolding merge_parts [OF assms(1)] by (intro mergedParts_normal normal_context_parts assms(1))
  moreover have "normalParts w (contextParts (mergeExternalDeliveryContextOverInternalRoute w p f))" for p f
    unfolding mergeExternalDeliveryContextOverInternalRoute_def by (rule normal_context_parts [OF assms(1)])
  ultimately show ?thesis using assms(2) by (auto simp: mergedDeliveryContext_def Let_def split: if_splits) metis+
qed

lemma merged_context_of_route:
  assumes w: "canonicalChannels w" and m: "mergedDeliveryContext w facts = (False, merged)"
    and "normalizeOptionalAccountId (normalizeOptionalAccountId (Option.bind (df_route facts) cr_accountId))
           = normalizeOptionalAccountId (Option.bind (df_route facts) cr_accountId)"
  shows "\<exists>f. contextParts merged = mergedParts (channelOf w (Option.bind (df_route facts) cr_channel), textOf (channelRouteTarget (df_route facts)),
    normalizeOptionalAccountId (Option.bind (df_route facts) cr_accountId), threadOf (channelRouteThreadId (df_route facts))) f"
proof -
  let ?rc = "deliveryContextFromChannelRoute w (normalizeDeliveryChannelRoute (df_route facts))"
  obtain g where g: "merged = mergeDeliveryContext w ?rc g"
    using m by (auto simp: mergedDeliveryContext_def Let_def split: if_splits)
  have "contextParts (normalizeDeliveryContext w ?rc) = contextParts ?rc"
    unfolding deliveryContextFromChannelRoute_def Let_def by (rule renormalized_parts [OF w])
  also have "\<dots> = (channelOf w (Option.bind (df_route facts) cr_channel), textOf (channelRouteTarget (df_route facts)),
      normalizeOptionalAccountId (Option.bind (df_route facts) cr_accountId), threadOf (channelRouteThreadId (df_route facts)))"
    using delivery_route_parts [of "df_route facts"] assms(3) by (simp add: route_context_parts) (simp add: partsOfRoute_def)
  finally have rc: "contextParts (normalizeDeliveryContext w ?rc) = (channelOf w (Option.bind (df_route facts) cr_channel),
      textOf (channelRouteTarget (df_route facts)), normalizeOptionalAccountId (Option.bind (df_route facts) cr_accountId),
      threadOf (channelRouteThreadId (df_route facts)))" .
  show ?thesis unfolding g merge_parts [OF w] rc by (rule exI) (rule refl)
qed

text \<open>The delivery state of a session is closed: an external state is not internal, and the context that its route gives
  has the parts of its context.\<close>

theorem session_delivery_is_closed:
  assumes "canonicalChannels w" "normalizeSessionDeliveryState w (Some facts) = ExternalDelivery route context origin"
    and "normalizeOptionalAccountId (normalizeOptionalAccountId (Option.bind (df_route facts) cr_accountId))
           = normalizeOptionalAccountId (Option.bind (df_route facts) cr_accountId)"
  shows "contextParts (deliveryContextFromChannelRoute w (Some route)) = contextParts (Some context)
    \<and> \<not> isInternalRouteContext (Some context)"
proof -
  let ?r = "normalizeDeliveryChannelRoute (df_route facts)"
  obtain internal where m: "mergedDeliveryContext w facts = (internal, Some context)"
    and i: "\<not> isInternalRouteContext (Some context)"
    and route: "mergeRouteMetadataWithDeliveryContext w (if internal then None else ?r) context = Some route"
    using assms(2) by (auto simp: normalizeSessionDeliveryState_def split: prod.splits option.splits if_splits)
  have n: "normalParts w (contextParts (Some context))" using merged_context_normal [OF assms(1) m] .
  have "contextParts (deliveryContextFromChannelRoute w (Some route)) = contextParts (Some context)"
  proof (cases "if internal then None else ?r")
    case None
    with route context_route_parts [OF n] show ?thesis by (simp add: mergeRouteMetadataWithDeliveryContext_def)
  next
    case (Some r)
    then have "\<not> internal" "?r = Some r" by (auto split: if_splits)
    then have "mergedDeliveryContext w facts = (False, Some context)" using m by simp
    then obtain f where f: "contextParts (Some context) = mergedParts (channelOf w (Option.bind (df_route facts) cr_channel),
        textOf (channelRouteTarget (df_route facts)), normalizeOptionalAccountId (Option.bind (df_route facts) cr_accountId),
        threadOf (channelRouteThreadId (df_route facts))) f"
      using merged_context_of_route [OF assms(1) _ assms(3)] by blast
    have "partsOfRoute (Some r) = (lowerOf (Option.bind (df_route facts) cr_channel), textOf (channelRouteTarget (df_route facts)),
        normalizeOptionalAccountId (Option.bind (df_route facts) cr_accountId), threadOf (channelRouteThreadId (df_route facts)))"
      using delivery_route_parts [of "df_route facts"] \<open>?r = Some r\<close> by simp
    from route_metadata_parts [OF assms(1) n this assms(3) f] route Some show ?thesis by simp
  qed
  with i show ?thesis by simp
qed

subsection \<open>Examples\<close>

definition sampleChannels :: channel_world where
  "sampleChannels = \<lparr>cw_metadata = [\<lparr>cm_channelId = ''telegram'', cm_configurable = None, cm_aliases = Some [''tg''], cm_order = Some 1\<rparr>],
     cw_localeCompare = (\<lambda>_ _. 0), cw_catalog = [], cw_plugins = [\<lparr>cp_id = Some ''matrix'', cp_aliases = Some [''mx'']\<rparr>]\<rparr>"

definition sampleContext :: delivery_context where
  "sampleContext = \<lparr>dc_channel = Some ''TG'', dc_to = None, dc_accountId = Some ''work'', dc_threadId = None\<rparr>"

definition sampleFallback :: delivery_context where
  "sampleFallback = \<lparr>dc_channel = Some ''telegram'', dc_to = Some ''42'', dc_accountId = Some ''home'', dc_threadId = None\<rparr>"

lemma sample_channels_canonical: "canonicalChannels sampleChannels"
  by code_simp

theorem merge_keeps_route_owner_witness:
  "contextParts (mergeDeliveryContext sampleChannels (Some sampleContext) (Some sampleFallback)) = (Some ''telegram'', None, Some ''work'', None)"
proof -
  have p: "contextParts (normalizeDeliveryContext sampleChannels (Some sampleContext)) = (Some ''telegram'', None, Some ''work'', None)"
    and f: "contextParts (normalizeDeliveryContext sampleChannels (Some sampleFallback)) = (Some ''telegram'', Some ''42'', Some ''home'', None)"
    by code_simp+
  obtain c t a h where m: "contextParts (mergeDeliveryContext sampleChannels (Some sampleContext) (Some sampleFallback)) = (c, t, a, h)"
    by (cases "contextParts (mergeDeliveryContext sampleChannels (Some sampleContext) (Some sampleFallback))")
  from merge_keeps_route_owner [OF sample_channels_canonical p f m] m show ?thesis by (simp add: mergedParts_def ownersConflict_def)
qed

definition sampleFacts :: delivery_facts where
  "sampleFacts = \<lparr>df_route = Some \<lparr>cr_channel = Some ''webchat'', cr_accountId = None, cr_target = None, cr_thread = None\<rparr>,
     df_context = Some sampleFallback, df_origin = None\<rparr>"

theorem session_delivery_is_closed_witness:
  "(case normalizeSessionDeliveryState sampleChannels (Some sampleFacts) of
      ExternalDelivery route context origin \<Rightarrow> contextParts (deliveryContextFromChannelRoute sampleChannels (Some route)) = contextParts (Some context)
    | _ \<Rightarrow> False)"
proof (cases "normalizeSessionDeliveryState sampleChannels (Some sampleFacts)")
  case (ExternalDelivery route ctx origin)
  have "normalizeOptionalAccountId (normalizeOptionalAccountId (Option.bind (df_route sampleFacts) cr_accountId))
      = normalizeOptionalAccountId (Option.bind (df_route sampleFacts) cr_accountId)" by code_simp
  from session_delivery_is_closed [OF sample_channels_canonical ExternalDelivery this] show ?thesis by (simp add: ExternalDelivery)
next
  case NoDelivery
  moreover have "normalizeSessionDeliveryState sampleChannels (Some sampleFacts) \<noteq> NoDelivery" by code_simp
  ultimately show ?thesis by simp
next
  case InternalDelivery
  moreover have "normalizeSessionDeliveryState sampleChannels (Some sampleFacts) \<noteq> InternalDelivery" by code_simp
  ultimately show ?thesis by simp
qed

end
