(* ===== verification/System_Events.thy ===== *)
theory System_Events
  imports Delivery_Context Transition_System "HOL-Library.Multiset" "HOL-Library.Sublist"
begin

text \<open>
  The queues of system events that are put in front of the next prompt of a session: \<open>src/infra/system-events.ts\<close>. The
  module keeps one bounded queue per session; an event is dropped when it repeats a pending one, may replace the pending
  event of its source, and leaves the queue when a prompt that showed it was accepted.
\<close>

subsection \<open>State\<close>

record system_event =
  se_text :: string
  se_ts :: int
  se_contextKey :: "string option"
  se_deliveryContext :: "delivery_context option"

record session_queue =
  sq_queue :: "system_event list"
  sq_lastContextKey :: "string option"

type_synonym event_queues = "(string \<times> session_queue) list"

record event_options =
  eo_sessionKey :: string
  eo_contextKey :: "string option"
  eo_deliveryContext :: "delivery_context option"
  eo_replace :: bool

datatype event_error = SessionKeyRequired | ContextKeyRequired

definition MAX_EVENTS :: nat where
  "MAX_EVENTS = 20"

definition requireSessionKey :: "string option \<Rightarrow> event_error + string" where
  "requireSessionKey key =
     (let trimmed = nullish (textOf key) [] in if trimmed = [] then Inl SessionKeyRequired else Inr trimmed)"

definition normalizeContextKey :: "string option \<Rightarrow> string option" where
  "normalizeContextKey key = lowerOf key"

definition emptyQueue :: session_queue where
  "emptyQueue = \<lparr>sq_queue = [], sq_lastContextKey = None\<rparr>"

definition getSessionQueue :: "string \<Rightarrow> event_queues \<Rightarrow> event_error + session_queue option" where
  "getSessionQueue sessionKey queues =
     (case requireSessionKey (Some sessionKey) of Inl e \<Rightarrow> Inl e | Inr key \<Rightarrow> Inr (map_of queues key))"

definition getOrCreateSessionQueue :: "string \<Rightarrow> event_queues \<Rightarrow> session_queue \<times> event_queues" where
  "getOrCreateSessionQueue key queues =
     (case map_of queues key of
        Some existing \<Rightarrow> (existing, queues)
      | None \<Rightarrow> (emptyQueue, AList.update key emptyQueue queues))"

subsection \<open>Comparison of events\<close>

definition areDeliveryContextsEqual :: "delivery_context option \<Rightarrow> delivery_context option \<Rightarrow> bool" where
  "areDeliveryContextsEqual left right =
     (case (left, right) of
        (None, None) \<Rightarrow> True
      | (Some l, Some r) \<Rightarrow> channelRouteDedupeKey (Some (contextInput l)) = channelRouteDedupeKey (Some (contextInput r))
      | _ \<Rightarrow> False)"

definition isDuplicateSystemEvent :: "system_event \<Rightarrow> string \<Rightarrow> string option \<Rightarrow> delivery_context option \<Rightarrow> bool" where
  "isDuplicateSystemEvent existing text contextKey deliveryContext \<longleftrightarrow> se_text existing = text \<and> se_contextKey existing = contextKey
     \<and> areDeliveryContextsEqual (se_deliveryContext existing) deliveryContext"

definition areSystemEventsEqual :: "system_event \<Rightarrow> system_event \<Rightarrow> bool" where
  "areSystemEventsEqual left right \<longleftrightarrow> se_text left = se_text right \<and> se_ts left = se_ts right
     \<and> se_contextKey left = se_contextKey right \<and> areDeliveryContextsEqual (se_deliveryContext left) (se_deliveryContext right)"

definition isSystemEventContextChanged :: "string \<Rightarrow> string option \<Rightarrow> event_queues \<Rightarrow> event_error + bool" where
  "isSystemEventContextChanged sessionKey contextKey queues =
     (case getSessionQueue sessionKey queues of
        Inl e \<Rightarrow> Inl e
      | Inr existing \<Rightarrow> Inr (normalizeContextKey contextKey \<noteq> Option.bind existing sq_lastContextKey))"

definition findDuplicateInQueue :: "system_event list \<Rightarrow> string \<Rightarrow> string option \<Rightarrow> delivery_context option \<Rightarrow> bool" where
  "findDuplicateInQueue queue text contextKey deliveryContext =
     (if contextKey = None then queue \<noteq> [] \<and> isDuplicateSystemEvent (last queue) text contextKey deliveryContext
      else list_ex (\<lambda>event. isDuplicateSystemEvent event text contextKey deliveryContext) queue)"

subsection \<open>Queueing\<close>

definition shiftOverflow :: "system_event list \<Rightarrow> system_event list" where
  "shiftOverflow queue = (if length queue > MAX_EVENTS then tl queue else queue)"

definition ownsSlot :: "string \<Rightarrow> delivery_context option \<Rightarrow> system_event \<Rightarrow> bool" where
  "ownsSlot contextKey deliveryContext event \<longleftrightarrow> se_contextKey event = Some contextKey
     \<and> areDeliveryContextsEqual (se_deliveryContext event) deliveryContext"

definition replaceSystemEventEntry ::
  "channel_world \<Rightarrow> int \<Rightarrow> string \<Rightarrow> event_options \<Rightarrow> event_queues \<Rightarrow> (event_error + system_event option) \<times> event_queues" where
  "replaceSystemEventEntry w now text options queues =
     (case requireSessionKey (Some (eo_sessionKey options)) of
        Inl e \<Rightarrow> (Inl e, queues)
      | Inr key \<Rightarrow>
          (case getOrCreateSessionQueue key queues of
             (entry, queues1) \<Rightarrow>
               let cleaned = js_trim text
               in if cleaned = [] then (Inr None, queues1)
                  else
                    (case normalizeContextKey (eo_contextKey options) of
                       None \<Rightarrow> (Inl ContextKeyRequired, queues1)
                     | Some contextKey \<Rightarrow>
                         (let deliveryContext = normalizeDeliveryContext w (eo_deliveryContext options);
                              matching = filter (ownsSlot contextKey deliveryContext) (sq_queue entry)
                          in if length matching = 1 \<and> se_text (hd matching) = cleaned then (Inr None, queues1)
                             else
                               (let event = \<lparr>se_text = cleaned, se_ts = now, se_contextKey = Some contextKey,
                                      se_deliveryContext = deliveryContext\<rparr>;
                                    rest = filter (\<lambda>event. \<not> ownsSlot contextKey deliveryContext event) (sq_queue entry)
                                in (Inr (Some event), AList.update key
                                     \<lparr>sq_queue = shiftOverflow (rest @ [event]), sq_lastContextKey = Some contextKey\<rparr> queues1))))))"

definition enqueueSystemEventEntry ::
  "channel_world \<Rightarrow> int \<Rightarrow> string \<Rightarrow> event_options \<Rightarrow> event_queues \<Rightarrow> (event_error + system_event option) \<times> event_queues" where
  "enqueueSystemEventEntry w now text options queues =
     (if eo_replace options then replaceSystemEventEntry w now text options queues
      else
        (case requireSessionKey (Some (eo_sessionKey options)) of
           Inl e \<Rightarrow> (Inl e, queues)
         | Inr key \<Rightarrow>
             (case getOrCreateSessionQueue key queues of
                (entry, queues1) \<Rightarrow>
                  (let cleaned = js_trim text; contextKey = normalizeContextKey (eo_contextKey options);
                       deliveryContext = normalizeDeliveryContext w (eo_deliveryContext options)
                   in if cleaned = [] then (Inr None, queues1)
                      else if findDuplicateInQueue (sq_queue entry) cleaned contextKey deliveryContext then (Inr None, queues1)
                      else
                        (let event = \<lparr>se_text = cleaned, se_ts = now, se_contextKey = contextKey, se_deliveryContext = deliveryContext\<rparr>
                         in (Inr (Some event), AList.update key
                              \<lparr>sq_queue = shiftOverflow (sq_queue entry @ [event]),
                               sq_lastContextKey = (if contextKey \<noteq> None then contextKey else sq_lastContextKey entry)\<rparr> queues1))))))"

definition enqueueSystemEvent ::
  "channel_world \<Rightarrow> int \<Rightarrow> string \<Rightarrow> event_options \<Rightarrow> event_queues \<Rightarrow> (event_error + bool) \<times> event_queues" where
  "enqueueSystemEvent w now text options queues =
     map_prod (map_sum id (\<lambda>event. event \<noteq> None)) id (enqueueSystemEventEntry w now text options queues)"

subsection \<open>Reading and consuming\<close>

definition drainSystemEventEntries :: "string \<Rightarrow> event_queues \<Rightarrow> (event_error + system_event list) \<times> event_queues" where
  "drainSystemEventEntries sessionKey queues =
     (case requireSessionKey (Some sessionKey) of
        Inl e \<Rightarrow> (Inl e, queues)
      | Inr key \<Rightarrow>
          (case map_of queues key of
             None \<Rightarrow> (Inr [], queues)
           | Some entry \<Rightarrow> if sq_queue entry = [] then (Inr [], queues) else (Inr (sq_queue entry), AList.delete key queues)))"

definition drainSystemEvents :: "string \<Rightarrow> event_queues \<Rightarrow> (event_error + string list) \<times> event_queues" where
  "drainSystemEvents sessionKey queues = map_prod (map_sum id (map se_text)) id (drainSystemEventEntries sessionKey queues)"

text \<open>The key of the last event that has one.\<close>

fun latestContextKey :: "system_event list \<Rightarrow> string option" where
  "latestContextKey [] = None"
| "latestContextKey (event # rest) =
     (case latestContextKey rest of Some key \<Rightarrow> Some key | None \<Rightarrow> se_contextKey event)"

definition resetQueueState :: "string \<Rightarrow> system_event list \<Rightarrow> event_queues \<Rightarrow> event_queues" where
  "resetQueueState key queue queues =
     (if queue = [] then AList.delete key queues
      else AList.update key \<lparr>sq_queue = queue, sq_lastContextKey = latestContextKey queue\<rparr> queues)"

text \<open>The first pending event that equals the consumed one.\<close>

fun spliceEvent :: "system_event \<Rightarrow> system_event list \<Rightarrow> system_event option \<times> system_event list" where
  "spliceEvent consumed [] = (None, [])"
| "spliceEvent consumed (event # rest) =
     (if areSystemEventsEqual event consumed then (Some event, rest)
      else map_prod id (Cons event) (spliceEvent consumed rest))"

fun spliceEvents :: "system_event list \<Rightarrow> system_event list \<Rightarrow> system_event list \<times> system_event list" where
  "spliceEvents [] queue = ([], queue)"
| "spliceEvents (consumed # others) queue =
     (case spliceEvent consumed queue of
        (None, queue1) \<Rightarrow> spliceEvents others queue1
      | (Some event, queue1) \<Rightarrow> map_prod (Cons event) id (spliceEvents others queue1))"

definition consumeSelectedSystemEventEntries ::
  "string \<Rightarrow> system_event list \<Rightarrow> event_queues \<Rightarrow> (event_error + system_event list) \<times> event_queues" where
  "consumeSelectedSystemEventEntries sessionKey consumedEntries queues =
     (case requireSessionKey (Some sessionKey) of
        Inl e \<Rightarrow> (Inl e, queues)
      | Inr key \<Rightarrow>
          (case map_of queues key of
             None \<Rightarrow> (Inr [], queues)
           | Some entry \<Rightarrow>
               if sq_queue entry = [] \<or> consumedEntries = [] then (Inr [], queues)
               else (case spliceEvents consumedEntries (sq_queue entry) of
                       (removed, queue) \<Rightarrow> (Inr removed, resetQueueState key queue queues))))"

definition consumeSystemEventEntries ::
  "string \<Rightarrow> system_event list \<Rightarrow> event_queues \<Rightarrow> (event_error + system_event list) \<times> event_queues" where
  "consumeSystemEventEntries sessionKey consumedEntries queues =
     (case requireSessionKey (Some sessionKey) of
        Inl e \<Rightarrow> (Inl e, queues)
      | Inr key \<Rightarrow>
          (case map_of queues key of
             None \<Rightarrow> (Inr [], queues)
           | Some entry \<Rightarrow>
               if sq_queue entry = [] \<or> consumedEntries = [] then (Inr [], queues)
               else if length consumedEntries > length (sq_queue entry)
                       \<or> \<not> list_all2 areSystemEventsEqual (take (length consumedEntries) (sq_queue entry)) consumedEntries
               then consumeSelectedSystemEventEntries key consumedEntries queues
               else (Inr (take (length consumedEntries) (sq_queue entry)),
                     resetQueueState key (drop (length consumedEntries) (sq_queue entry)) queues)))"

definition peekSystemEventEntries :: "string \<Rightarrow> event_queues \<Rightarrow> event_error + system_event list" where
  "peekSystemEventEntries sessionKey queues =
     (case getSessionQueue sessionKey queues of
        Inl e \<Rightarrow> Inl e
      | Inr entry \<Rightarrow> Inr (nullish (map_option sq_queue entry) []))"

definition peekSystemEvents :: "string \<Rightarrow> event_queues \<Rightarrow> event_error + string list" where
  "peekSystemEvents sessionKey queues = map_sum id (map se_text) (peekSystemEventEntries sessionKey queues)"

definition hasSystemEvents :: "string \<Rightarrow> event_queues \<Rightarrow> event_error + bool" where
  "hasSystemEvents sessionKey queues = map_sum id (\<lambda>queue. queue \<noteq> []) (peekSystemEventEntries sessionKey queues)"

definition resolveSystemEventDeliveryContext :: "channel_world \<Rightarrow> system_event list \<Rightarrow> delivery_context option" where
  "resolveSystemEventDeliveryContext w events =
     foldl (\<lambda>resolved event. mergeDeliveryContext w (se_deliveryContext event) resolved) None events"

subsection \<open>A prompt in flight\<close>

definition pendingEvents :: "string \<Rightarrow> event_queues \<Rightarrow> system_event list" where
  "pendingEvents key queues = nullish (map_option sq_queue (map_of queues key)) []"

text \<open>Events are compared by what they say, when and where.\<close>

definition eventIdentity :: "system_event \<Rightarrow> string \<times> int \<times> string option \<times> string option" where
  "eventIdentity e = (se_text e, se_ts e, se_contextKey e, map_option (channelRouteDedupeKey \<circ> Some \<circ> contextInput) (se_deliveryContext e))"

lemma contexts_equal_iff:
  "areDeliveryContextsEqual left right
   \<longleftrightarrow> map_option (channelRouteDedupeKey \<circ> Some \<circ> contextInput) left = map_option (channelRouteDedupeKey \<circ> Some \<circ> contextInput) right"
  by (cases left; cases right) (simp_all add: areDeliveryContextsEqual_def)

lemma events_equal_iff: "areSystemEventsEqual left right \<longleftrightarrow> eventIdentity left = eventIdentity right"
  by (simp add: areSystemEventsEqual_def eventIdentity_def contexts_equal_iff)

lemma pending_update [simp]: "pendingEvents key (AList.update k entry queues) = (if k = key then sq_queue entry else pendingEvents key queues)"
  by (simp add: pendingEvents_def update_conv')

lemma pending_delete [simp]: "pendingEvents key (AList.delete k queues) = (if k = key then [] else pendingEvents key queues)"
  by (simp add: pendingEvents_def delete_conv')

lemma pending_created:
  assumes "getOrCreateSessionQueue k queues = (entry, queues1)"
  shows "pendingEvents key queues1 = pendingEvents key queues" "sq_queue entry = pendingEvents k queues"
  using assms by (auto simp: getOrCreateSessionQueue_def emptyQueue_def pendingEvents_def update_conv' split: option.splits)

lemma pending_reset [simp]: "pendingEvents key (resetQueueState k queue queues) = (if k = key then queue else pendingEvents key queues)"
  by (simp add: resetQueueState_def)

text \<open>An event with a key is not repeated in its queue.\<close>

definition repeats :: "system_event \<Rightarrow> system_event \<Rightarrow> bool" where
  "repeats e e' \<longleftrightarrow> se_contextKey e' \<noteq> None \<and> isDuplicateSystemEvent e (se_text e') (se_contextKey e') (se_deliveryContext e')"

definition event_ok :: "system_event \<Rightarrow> bool" where
  "event_ok e \<longleftrightarrow> se_text e \<noteq> [] \<and> js_trim (se_text e) = se_text e \<and> lowerOf (se_contextKey e) = se_contextKey e"

lemma event_ok_new:
  assumes "js_trim message \<noteq> []"
  shows "event_ok \<lparr>se_text = js_trim message, se_ts = now, se_contextKey = normalizeContextKey key, se_deliveryContext = deliveryContext\<rparr>"
  using assms by (simp add: event_ok_def normalizeContextKey_def)

text \<open>Queueing an event drops the events it replaces, adds itself at the end, and may push the oldest event out.\<close>

definition queuedAfter :: "int \<Rightarrow> system_event list \<Rightarrow> system_event list \<Rightarrow> bool" where
  "queuedAfter now queue queue' \<longleftrightarrow> queue' = queue
     \<or> (\<exists>P event. se_ts event = now \<and> event_ok event \<and> (\<forall>x \<in> set (filter P queue). \<not> repeats x event)
          \<and> queue' = shiftOverflow (filter P queue @ [event]))"

lemma event_replace_effect:
  assumes "replaceSystemEventEntry w now message options queues = (r, queues1)"
  shows "queuedAfter now (pendingEvents key queues) (pendingEvents key queues1)"
proof (cases "pendingEvents key queues1 = pendingEvents key queues")
  case False
  then obtain entry queues2 contextKey where c: "getOrCreateSessionQueue key queues = (entry, queues2)" "js_trim message \<noteq> []"
      "normalizeContextKey (eo_contextKey options) = Some contextKey"
    and q: "pendingEvents key queues1
      = (let deliveryContext = normalizeDeliveryContext w (eo_deliveryContext options)
         in shiftOverflow (filter (\<lambda>event. \<not> ownsSlot contextKey deliveryContext event) (sq_queue entry)
              @ [\<lparr>se_text = js_trim message, se_ts = now, se_contextKey = Some contextKey, se_deliveryContext = deliveryContext\<rparr>]))"
    using assms by (auto simp: replaceSystemEventEntry_def Let_def pending_created split: sum.splits prod.splits option.splits if_splits)
  let ?event = "\<lparr>se_text = js_trim message, se_ts = now, se_contextKey = Some contextKey,
    se_deliveryContext = normalizeDeliveryContext w (eo_deliveryContext options)\<rparr>"
  have "event_ok ?event" using event_ok_new [OF c(2), of now "eo_contextKey options"] c(3) by simp
  moreover have "\<not> repeats x ?event" if "\<not> ownsSlot contextKey (normalizeDeliveryContext w (eo_deliveryContext options)) x" for x
    using that by (auto simp: repeats_def isDuplicateSystemEvent_def ownsSlot_def)
  ultimately show ?thesis unfolding queuedAfter_def q Let_def pending_created(2) [OF c(1)]
    by (intro disjI2 exI [of _ "\<lambda>event. \<not> ownsSlot contextKey (normalizeDeliveryContext w (eo_deliveryContext options)) event"] exI [of _ ?event]) simp
qed (simp add: queuedAfter_def)

lemma event_enqueue_effect:
  assumes "enqueueSystemEventEntry w now message options queues = (r, queues1)"
  shows "queuedAfter now (pendingEvents key queues) (pendingEvents key queues1)"
proof (cases "eo_replace options \<or> pendingEvents key queues1 = pendingEvents key queues")
  case True
  with assms event_replace_effect [of w now message options queues r queues1 key] show ?thesis
    by (cases "eo_replace options") (simp_all add: enqueueSystemEventEntry_def queuedAfter_def)
next
  case False
  let ?contextKey = "normalizeContextKey (eo_contextKey options)" and ?dc = "normalizeDeliveryContext w (eo_deliveryContext options)"
  let ?event = "\<lparr>se_text = js_trim message, se_ts = now, se_contextKey = ?contextKey, se_deliveryContext = ?dc\<rparr>"
  obtain k where k: "requireSessionKey (Some (eo_sessionKey options)) = Inr k"
    using assms False by (cases "requireSessionKey (Some (eo_sessionKey options))") (auto simp: enqueueSystemEventEntry_def)
  obtain entry queues2 where g: "getOrCreateSessionQueue k queues = (entry, queues2)" by fastforce
  have r: "queues1 = (if js_trim message = [] \<or> findDuplicateInQueue (sq_queue entry) (js_trim message) ?contextKey ?dc then queues2
      else AList.update k \<lparr>sq_queue = shiftOverflow (sq_queue entry @ [?event]),
             sq_lastContextKey = (if ?contextKey \<noteq> None then ?contextKey else sq_lastContextKey entry)\<rparr> queues2)"
    using assms False by (cases "js_trim message = [] \<or> findDuplicateInQueue (sq_queue entry) (js_trim message) ?contextKey ?dc")
      (auto simp add: enqueueSystemEventEntry_def k g Let_def simp del: not_None_eq split: if_splits)
  then have "k = key" "js_trim message \<noteq> []" "\<not> findDuplicateInQueue (sq_queue entry) (js_trim message) ?contextKey ?dc"
    using False pending_created(1) [OF g, of key] by (auto split: if_splits)
  with g r have c: "getOrCreateSessionQueue key queues = (entry, queues2)" "js_trim message \<noteq> []"
      "\<not> findDuplicateInQueue (sq_queue entry) (js_trim message) ?contextKey ?dc"
    and q: "pendingEvents key queues1 = shiftOverflow (sq_queue entry @ [?event])" by simp_all
  have "\<not> repeats x ?event" if "x \<in> set (sq_queue entry)" for x
    using c(3) that by (auto simp: repeats_def findDuplicateInQueue_def list_ex_iff)
  moreover have "event_ok ?event" by (rule event_ok_new [OF c(2)])
  ultimately show ?thesis unfolding queuedAfter_def q pending_created(2) [OF c(1), symmetric]
    by (intro disjI2 exI [of _ "\<lambda>_. True"] exI [of _ ?event]) simp
qed

text \<open>What was pending when a prompt was built stays in front of what came later.\<close>

definition sinceSeen :: "system_event list \<Rightarrow> system_event list \<Rightarrow> system_event list \<Rightarrow> bool" where
  "sinceSeen seen olds news \<longleftrightarrow> subseq olds seen \<and> (\<forall>event \<in> set news. \<forall>x \<in> set seen. se_ts x < se_ts event)"

lemma subseq_filter_olds: "subseq olds seen \<Longrightarrow> subseq (filter P olds) seen"
  using subseq_filter_left subseq_order.trans by blast

lemma shift_since:
  assumes "sinceSeen seen olds news"
  shows "\<exists>olds' news'. shiftOverflow (olds @ news) = olds' @ news' \<and> sinceSeen seen olds' news'"
proof (cases olds)
  case Nil
  then show ?thesis using assms
    by (intro exI [of _ "[]"] exI [of _ "shiftOverflow news"]) (cases news; auto simp: sinceSeen_def shiftOverflow_def)
next
  case (Cons event rest)
  then have "subseq rest seen" using assms by (metis sinceSeen_def subseq_Cons')
  then have "sinceSeen seen rest news" using assms by (simp add: sinceSeen_def)
  then have "\<exists>olds' news'. rest @ news = olds' @ news' \<and> sinceSeen seen olds' news'" by blast
  moreover have "\<exists>olds' news'. olds @ news = olds' @ news' \<and> sinceSeen seen olds' news'" using assms by blast
  ultimately show ?thesis using Cons by (simp add: shiftOverflow_def)
qed

lemma enqueue_since:
  assumes "enqueueSystemEventEntry w now text options queues = (r, queues1)"
    and "pendingEvents key queues = olds @ news" "sinceSeen seen olds news" "\<forall>x \<in> set seen. se_ts x < now"
  shows "\<exists>olds' news'. pendingEvents key queues1 = olds' @ news' \<and> sinceSeen seen olds' news'"
proof (cases "pendingEvents key queues1 = pendingEvents key queues")
  case True
  with assms(2, 3) show ?thesis by auto
next
  case False
  with event_enqueue_effect [OF assms(1), of key] obtain P event where e: "se_ts event = now"
    "pendingEvents key queues1 = shiftOverflow (filter P olds @ (filter P news @ [event]))" using assms(2) by (auto simp: queuedAfter_def)
  have "sinceSeen seen (filter P olds) (filter P news @ [event])"
    using assms(3, 4) e(1) subseq_filter_olds by (auto simp: sinceSeen_def)
  from shift_since [OF this] e(2) show ?thesis by simp
qed

text \<open>Events that arrive while the prompt is in flight, for any session.\<close>

fun enqueueAll :: "channel_world \<Rightarrow> (int \<times> string \<times> event_options) list \<Rightarrow> event_queues \<Rightarrow> event_queues" where
  "enqueueAll w [] queues = queues"
| "enqueueAll w ((now, text, options) # arrivals) queues = enqueueAll w arrivals (snd (enqueueSystemEventEntry w now text options queues))"

lemma enqueueAll_since:
  assumes "pendingEvents key queues = olds @ news" "sinceSeen seen olds news"
    and "\<forall>(now, text, options) \<in> set arrivals. \<forall>x \<in> set seen. se_ts x < now"
  shows "\<exists>olds' news'. pendingEvents key (enqueueAll w arrivals queues) = olds' @ news' \<and> sinceSeen seen olds' news'"
  using assms
proof (induction w arrivals queues arbitrary: olds news rule: enqueueAll.induct)
  case (2 w now message options arrivals queues)
  obtain r queues1 where e: "enqueueSystemEventEntry w now message options queues = (r, queues1)" by fastforce
  from 2 enqueue_since [OF e 2(2, 3)] show ?case by (fastforce simp: e)
qed auto

text \<open>Taking consumed events out of the queue.\<close>

lemma spliceEvent_none: "eventIdentity consumed \<notin> eventIdentity ` set queue \<Longrightarrow> spliceEvent consumed queue = (None, queue)"
  by (induction queue) (auto simp: events_equal_iff)

lemma spliceEvent_append:
  "eventIdentity consumed \<notin> eventIdentity ` set news
   \<Longrightarrow> spliceEvent consumed (olds @ news) = map_prod id (\<lambda>olds'. olds' @ news) (spliceEvent consumed olds)"
  by (induction olds) (auto simp: spliceEvent_none events_equal_iff map_prod_def split: prod.splits)

lemma spliceEvents_append:
  assumes "eventIdentity ` set consumed \<inter> eventIdentity ` set news = {}"
  shows "spliceEvents consumed (olds @ news) = map_prod id (\<lambda>olds'. olds' @ news) (spliceEvents consumed olds)"
  using assms
proof (induction consumed olds rule: spliceEvents.induct)
  case (2 consumed others queue)
  obtain found queue1 where s: "spliceEvent consumed queue = (found, queue1)" by fastforce
  have n: "eventIdentity consumed \<notin> eventIdentity ` set news" using 2 by auto
  show ?case using 2 by (cases found) (auto simp: s spliceEvent_append [OF n] map_prod_def split: prod.splits)
qed simp

lemma spliceEvent_mset:
  assumes "spliceEvent consumed queue = (found, rest)"
  shows "mset queue = (case found of None \<Rightarrow> {#} | Some event \<Rightarrow> {#event#}) + mset rest"
  using assms
proof (induction queue arbitrary: rest)
  case (Cons event queue)
  obtain found1 rest1 where s: "spliceEvent consumed queue = (found1, rest1)" by fastforce
  show ?case using Cons.prems Cons.IH [of rest1] s by (auto split: if_splits option.splits)
qed simp

lemma spliceEvent_identities:
  assumes "spliceEvent consumed queue = (found, rest)"
  shows "mset (map eventIdentity rest) = mset (map eventIdentity queue) - {#eventIdentity consumed#}"
  using assms
proof (induction queue arbitrary: rest)
  case (Cons event queue)
  obtain found1 rest1 where s: "spliceEvent consumed queue = (found1, rest1)" by fastforce
  show ?case
  proof (cases "eventIdentity event = eventIdentity consumed")
    case True
    with Cons.prems show ?thesis by (simp add: events_equal_iff)
  next
    case False
    with Cons.prems have "rest = event # rest1" "spliceEvent consumed queue = (found, rest1)"
      by (simp_all add: events_equal_iff s)
    with Cons.IH [of rest1] False show ?thesis by (simp add: diff_add_mset_swap)
  qed
qed simp

lemma spliceEvents_mset: "spliceEvents consumed queue = (removed, rest) \<Longrightarrow> mset queue = mset removed + mset rest"
proof (induction consumed queue arbitrary: removed rest rule: spliceEvents.induct)
  case (2 consumed others queue)
  obtain found queue1 where s: "spliceEvent consumed queue = (found, queue1)" by fastforce
  obtain removed1 rest1 where t: "spliceEvents others queue1 = (removed1, rest1)" by fastforce
  from 2 spliceEvent_mset [OF s] s t show ?case by (cases found) auto
qed auto

lemma spliceEvents_identities:
  "spliceEvents consumed queue = (removed, rest)
   \<Longrightarrow> mset (map eventIdentity rest) = mset (map eventIdentity queue) - mset (map eventIdentity consumed)"
proof (induction consumed queue arbitrary: removed rest rule: spliceEvents.induct)
  case (2 consumed others queue)
  obtain found queue1 where s: "spliceEvent consumed queue = (found, queue1)" by fastforce
  obtain removed1 rest1 where t: "spliceEvents others queue1 = (removed1, rest1)" by fastforce
  from 2 spliceEvent_identities [OF s] s t show ?case by (cases found) (auto simp: diff_diff_add_mset)
qed auto

lemma subseq_mset: "subseq xs ys \<Longrightarrow> mset xs \<subseteq># mset ys"
  by (induction rule: list_emb.induct) (auto intro: subset_mset.order_trans)

text \<open>Consuming the events that were seen takes exactly those that are still pending.\<close>

lemma splice_seen:
  assumes "sinceSeen seen olds news" "spliceEvents seen (olds @ news) = (removed, rest)"
  shows "mset removed = mset olds \<and> rest = news"
proof -
  have "eventIdentity ` set seen \<inter> eventIdentity ` set news = {}"
    using assms(1) by (fastforce simp: sinceSeen_def eventIdentity_def)
  then obtain olds' where o: "spliceEvents seen olds = (removed, olds')" "rest = olds' @ news"
    using assms(2) by (cases "spliceEvents seen olds") (auto simp: spliceEvents_append)
  have "mset (map eventIdentity olds) \<subseteq># mset (map eventIdentity seen)"
    using assms(1) by (intro subseq_mset) (simp add: sinceSeen_def subseq_map)
  then have "mset (map eventIdentity olds) - mset (map eventIdentity seen) = {#}" by (rule Diff_eq_empty_iff_mset [THEN iffD2])
  with spliceEvents_identities [OF o(1)] have "olds' = []" by simp
  with o spliceEvents_mset [OF o(1)] show ?thesis by simp
qed

lemma prefix_seen:
  assumes "sinceSeen seen olds news" "length seen \<le> length (olds @ news)"
    and "list_all2 areSystemEventsEqual (take (length seen) (olds @ news)) seen"
  shows "take (length seen) (olds @ news) = olds \<and> drop (length seen) (olds @ news) = news"
proof -
  have "length olds \<le> length seen" using assms(1) by (auto simp: sinceSeen_def dest: list_emb_length)
  moreover have "\<not> length olds < length seen"
  proof
    assume l: "length olds < length seen"
    then have "areSystemEventsEqual (take (length seen) (olds @ news) ! length olds) (seen ! length olds)"
      using assms(2) by (intro list_all2_nthD2 [OF assms(3)]) simp
    then have "areSystemEventsEqual ((olds @ news) ! length olds) (seen ! length olds)"
      using l by (simp only: nth_take)
    moreover have "0 < length news" using l assms(2) by (cases news) auto
    then have "(olds @ news) ! length olds \<in> set news" by (simp add: nth_append)
    ultimately show False using assms(1) l by (fastforce simp: sinceSeen_def areSystemEventsEqual_def)
  qed
  ultimately show ?thesis by simp
qed

lemma require_key:
  assumes "requireSessionKey (Some sessionKey) = Inr key"
  shows "textOf (Some sessionKey) = Some key" "key \<noteq> []"
  using assms by (auto simp: requireSessionKey_def Let_def nullish_def split: option.splits if_splits)

lemma require_key_stable:
  assumes "requireSessionKey (Some sessionKey) = Inr key"
  shows "requireSessionKey (Some key) = Inr key"
proof -
  have "textOf (Some key) = Some key" using textOf_stable [of "Some sessionKey"] unfolding require_key(1) [OF assms] .
  with require_key(2) [OF assms] show ?thesis by (simp add: requireSessionKey_def)
qed

lemma subseq_spliceEvent: "subseq (snd (spliceEvent consumed queue)) queue"
  by (induction queue) (auto simp: map_prod_def split: prod.splits)

lemma subseq_spliceEvents: "subseq (snd (spliceEvents consumed queue)) queue"
proof (induction consumed queue rule: spliceEvents.induct)
  case (2 consumed others queue)
  obtain found queue1 where s: "spliceEvent consumed queue = (found, queue1)" by fastforce
  with subseq_spliceEvent [of consumed queue] have "subseq queue1 queue" by simp
  with 2 s show ?case by (cases found) (auto intro: subseq_order.trans)
qed simp

text \<open>What a consumption of any events does to the queue it finds.\<close>

definition takenFrom :: "system_event list \<Rightarrow> system_event list \<Rightarrow> system_event list \<Rightarrow> system_event list \<Rightarrow> bool" where
  "takenFrom seen pending removed rest \<longleftrightarrow>
     (if pending = [] \<or> seen = [] then removed = [] \<and> rest = pending
      else if length seen \<le> length pending \<and> list_all2 areSystemEventsEqual (take (length seen) pending) seen
      then removed = take (length seen) pending \<and> rest = drop (length seen) pending
      else spliceEvents seen pending = (removed, rest))"

lemma consume_takes:
  assumes k: "requireSessionKey (Some sessionKey) = Inr key"
    and call: "consumeSystemEventEntries sessionKey seen queues = (r, queues')"
  shows "\<exists>removed. r = Inr removed \<and> takenFrom seen (pendingEvents key queues) removed (pendingEvents key queues')"
proof (cases "pendingEvents key queues = [] \<or> seen = []")
  case True
  with call have "r = Inr [] \<and> queues' = queues"
    by (auto simp: consumeSystemEventEntries_def k pendingEvents_def split: option.splits)
  with True show ?thesis by (simp add: takenFrom_def)
next
  case False
  then obtain entry where entry: "map_of queues key = Some entry" "sq_queue entry = pendingEvents key queues"
    by (cases "map_of queues key") (auto simp: pendingEvents_def)
  let ?pending = "pendingEvents key queues"
  show ?thesis
  proof (cases "length seen > length ?pending \<or> \<not> list_all2 areSystemEventsEqual (take (length seen) ?pending) seen")
    case selected: True
    obtain removed rest where s: "spliceEvents seen ?pending = (removed, rest)" by fastforce
    have "r = Inr removed \<and> queues' = resetQueueState key rest queues"
      using call selected False s entry
      by (auto simp: consumeSystemEventEntries_def consumeSelectedSystemEventEntries_def k require_key_stable [OF k])
    with s selected False show ?thesis by (auto simp: takenFrom_def)
  next
    case prefix: False
    then have "r = Inr (take (length seen) ?pending) \<and> queues' = resetQueueState key (drop (length seen) ?pending) queues"
      using call False entry by (auto simp: consumeSystemEventEntries_def k)
    with prefix False show ?thesis by (simp add: takenFrom_def)
  qed
qed

lemma equal_identities: "list_all2 areSystemEventsEqual xs ys \<Longrightarrow> map eventIdentity xs = map eventIdentity ys"
  by (induction rule: list_all2_induct) (simp_all add: events_equal_iff)

lemma taken_parts:
  assumes "takenFrom seen pending removed rest"
  shows "mset pending = mset removed + mset rest" and "subseq rest pending"
    and "mset (map eventIdentity rest) = mset (map eventIdentity pending) - mset (map eventIdentity seen)"
proof -
  consider "pending = [] \<or> seen = []" "removed = []" "rest = pending"
    | "list_all2 areSystemEventsEqual (take (length seen) pending) seen"
      "removed = take (length seen) pending" "rest = drop (length seen) pending"
    | "spliceEvents seen pending = (removed, rest)"
    using assms by (auto simp: takenFrom_def split: if_splits)
  then have "mset pending = mset removed + mset rest \<and> subseq rest pending
      \<and> mset (map eventIdentity rest) = mset (map eventIdentity pending) - mset (map eventIdentity seen)"
  proof cases
    case 2
    have p: "pending = removed @ rest" by (simp add: 2)
    have "map eventIdentity removed = map eventIdentity seen"
      unfolding 2(2) by (rule equal_identities [OF 2(1)])
    with p show ?thesis using suffix_imp_subseq [OF suffix_appendI [OF suffix_order.refl]] by simp
  next
    case 3
    with subseq_spliceEvents [of seen pending] spliceEvents_mset spliceEvents_identities show ?thesis by simp
  qed auto
  then show "mset pending = mset removed + mset rest" and "subseq rest pending"
    and "mset (map eventIdentity rest) = mset (map eventIdentity pending) - mset (map eventIdentity seen)" by blast+
qed

lemma taken_since:
  assumes "takenFrom seen (olds @ news) removed rest" "sinceSeen seen olds news"
  shows "rest = news \<and> mset removed = mset olds"
proof (cases "olds @ news = [] \<or> seen = []")
  case True
  then have "olds = []" using assms(2) by (auto simp: sinceSeen_def)
  with True assms(1) show ?thesis by (simp add: takenFrom_def)
next
  case False
  with assms splice_seen [OF assms(2)] prefix_seen [OF assms(2)] show ?thesis
    by (simp add: takenFrom_def del: take_append drop_append split: if_splits)
qed

text \<open>C20. A prompt takes what it showed. Whatever events are queued, for any session and at any time, between the moment a
  prompt reads the pending events of its session and the moment it consumes what it read: the events handed out and the events
  left over together are the pending ones, what is left keeps its order, and an event (a text, a timestamp, a context key and
  a route) is left exactly as many times as it is pending more often than it was shown. When every event queued meanwhile is
  later than the shown ones, that means: exactly the shown events that are still pending, which stand in front of the queue,
  are handed out, and exactly the later ones are left.\<close>

theorem prompt_consumes_what_it_showed:
  assumes "peekSystemEventEntries sessionKey queues = Inr seen"
    and "consumeSystemEventEntries sessionKey seen (enqueueAll w arrivals queues) = (r, queues')"
  shows "\<exists>pending removed rest. peekSystemEventEntries sessionKey (enqueueAll w arrivals queues) = Inr pending
    \<and> r = Inr removed \<and> peekSystemEventEntries sessionKey queues' = Inr rest
    \<and> mset pending = mset removed + mset rest \<and> subseq rest pending
    \<and> mset (map eventIdentity rest) = mset (map eventIdentity pending) - mset (map eventIdentity seen)
    \<and> ((\<forall>(now, text, options) \<in> set arrivals. \<forall>x \<in> set seen. se_ts x < now) \<longrightarrow>
         (\<exists>olds. pending = olds @ rest \<and> subseq olds seen \<and> mset removed = mset olds
            \<and> (\<forall>event \<in> set rest. \<forall>x \<in> set seen. se_ts x < se_ts event)))"
proof -
  let ?q = "enqueueAll w arrivals queues"
  obtain key where k: "requireSessionKey (Some sessionKey) = Inr key" and seen: "seen = pendingEvents key queues"
    using assms(1) by (auto simp: peekSystemEventEntries_def getSessionQueue_def pendingEvents_def split: sum.splits)
  have peek: "peekSystemEventEntries sessionKey q = Inr (pendingEvents key q)" for q
    by (simp add: peekSystemEventEntries_def getSessionQueue_def pendingEvents_def k)
  from consume_takes [OF k assms(2)] obtain removed where r: "r = Inr removed"
    and taken: "takenFrom seen (pendingEvents key ?q) removed (pendingEvents key queues')" by blast
  have "\<exists>olds. pendingEvents key ?q = olds @ pendingEvents key queues' \<and> subseq olds seen \<and> mset removed = mset olds
      \<and> (\<forall>event \<in> set (pendingEvents key queues'). \<forall>x \<in> set seen. se_ts x < se_ts event)"
    if later: "\<forall>(now, text, options) \<in> set arrivals. \<forall>x \<in> set seen. se_ts x < now"
  proof -
    have "sinceSeen seen seen []" by (simp add: sinceSeen_def)
    from enqueueAll_since [OF _ this later, of key queues w] seen
    obtain olds news where p: "pendingEvents key ?q = olds @ news" and since: "sinceSeen seen olds news" by auto
    from taken_since [OF taken [unfolded p] since] p since show ?thesis by (auto simp: sinceSeen_def)
  qed
  with taken_parts [OF taken] show ?thesis using peek r by blast
qed

subsection \<open>Well-formed queues\<close>

inductive event_step :: "channel_world \<Rightarrow> event_queues \<Rightarrow> event_queues \<Rightarrow> bool" for w where
  enqueue: "event_step w queues (snd (enqueueSystemEventEntry w now text options queues))"
| drain: "event_step w queues (snd (drainSystemEventEntries sessionKey queues))"
| consume: "event_step w queues (snd (consumeSystemEventEntries sessionKey events queues))"
| consumeSelected: "event_step w queues (snd (consumeSelectedSystemEventEntries sessionKey events queues))"

definition initial_events :: "event_queues \<Rightarrow> bool" where
  "initial_events queues \<longleftrightarrow> queues = []"

definition queue_ok :: "system_event list \<Rightarrow> bool" where
  "queue_ok queue \<longleftrightarrow> length queue \<le> MAX_EVENTS \<and> list_all event_ok queue \<and> sorted_wrt (\<lambda>e e'. \<not> repeats e e') queue"

definition events_inv :: "event_queues \<Rightarrow> bool" where
  "events_inv queues \<longleftrightarrow> (\<forall>key. queue_ok (pendingEvents key queues))"

lemma queue_ok_Nil [simp]: "queue_ok []"
  by (simp add: queue_ok_def)

lemma sorted_wrt_part: "subseq xs ys \<Longrightarrow> sorted_wrt R ys \<Longrightarrow> sorted_wrt R xs"
  by (induction rule: list_emb.induct) (auto dest: list_emb_set)

lemma queue_ok_subseq:
  assumes "queue_ok queue" "subseq queue1 queue"
  shows "queue_ok queue1"
proof -
  have "length queue1 \<le> length queue" "set queue1 \<subseteq> set queue" using assms(2) by (auto dest: list_emb_length list_emb_set)
  moreover have "sorted_wrt (\<lambda>e e'. \<not> repeats e e') queue1"
    using assms by (auto simp: queue_ok_def intro: sorted_wrt_part)
  ultimately show ?thesis using assms(1) by (auto simp: queue_ok_def list_all_iff)
qed

lemma queue_ok_push:
  assumes "queue_ok queue" "event_ok e" "\<forall>x \<in> set queue. \<not> repeats x e"
  shows "queue_ok (shiftOverflow (queue @ [e]))"
proof -
  have s: "sorted_wrt (\<lambda>e e'. \<not> repeats e e') (queue @ [e])" using assms by (simp add: queue_ok_def sorted_wrt_append)
  show ?thesis
  proof (cases "length (queue @ [e]) > MAX_EVENTS")
    case True
    then obtain x rest where q: "queue = x # rest" by (cases queue) (auto simp: MAX_EVENTS_def)
    with s True assms show ?thesis by (simp add: shiftOverflow_def queue_ok_def)
  next
    case False
    with s assms show ?thesis by (simp add: shiftOverflow_def queue_ok_def)
  qed
qed

lemma queue_ok_queued:
  assumes "queue_ok queue" "queuedAfter now queue queue'"
  shows "queue_ok queue'"
proof (cases "queue' = queue")
  case False
  then obtain P event where e: "event_ok event" "\<forall>x \<in> set (filter P queue). \<not> repeats x event" "queue' = shiftOverflow (filter P queue @ [event])"
    using assms(2) by (auto simp: queuedAfter_def)
  have "queue_ok (filter P queue)" by (rule queue_ok_subseq [OF assms(1)]) simp
  from queue_ok_push [OF this e(1, 2)] e(3) show ?thesis by simp
qed (use assms in simp)

lemma consumed_subseq:
  "subseq (pendingEvents key (snd (consumeSelectedSystemEventEntries sessionKey events queues))) (pendingEvents key queues)"
  "subseq (pendingEvents key (snd (consumeSystemEventEntries sessionKey events queues))) (pendingEvents key queues)"
  "subseq (pendingEvents key (snd (drainSystemEventEntries sessionKey queues))) (pendingEvents key queues)"
proof -
  show selected: "subseq (pendingEvents key (snd (consumeSelectedSystemEventEntries sessionKey events queues))) (pendingEvents key queues)" for sessionKey
    using subseq_spliceEvents [of events] by (auto simp: consumeSelectedSystemEventEntries_def pendingEvents_def [of _ queues] split: sum.splits option.splits prod.splits)
      (metis snd_conv)+
  show "subseq (pendingEvents key (snd (consumeSystemEventEntries sessionKey events queues))) (pendingEvents key queues)"
    using selected by (auto simp: consumeSystemEventEntries_def pendingEvents_def [of _ queues] split: sum.splits option.splits)
  show "subseq (pendingEvents key (snd (drainSystemEventEntries sessionKey queues))) (pendingEvents key queues)"
    by (auto simp: drainSystemEventEntries_def split: sum.splits option.splits)
qed

lemma events_inv_subseq:
  assumes "events_inv queues" "\<And>key. subseq (pendingEvents key queues1) (pendingEvents key queues)"
  shows "events_inv queues1"
  unfolding events_inv_def
proof
  fix key
  have "queue_ok (pendingEvents key queues)" using assms(1) by (simp add: events_inv_def)
  then show "queue_ok (pendingEvents key queues1)" by (rule queue_ok_subseq) (rule assms(2))
qed

interpretation event_history: inductive_invariant initial_events "event_step w" events_inv for w
proof
  fix queues assume "initial_events queues"
  then show "events_inv queues" by (simp add: initial_events_def events_inv_def pendingEvents_def)
next
  fix queues queues' assume i: "events_inv queues" and s: "event_step w queues queues'"
  from s show "events_inv queues'"
  proof cases
    case (enqueue now message options)
    obtain r queues1 where e: "enqueueSystemEventEntry w now message options queues = (r, queues1)" by fastforce
    have "queue_ok (pendingEvents key queues1)" for key
      using queue_ok_queued [OF _ event_enqueue_effect [OF e, of key]] i by (simp add: events_inv_def)
    then show ?thesis by (simp add: events_inv_def enqueue e)
  qed (auto intro: events_inv_subseq [OF i] consumed_subseq)
qed

text \<open>In every reachable state a session has at most twenty pending events, their texts are trimmed and not empty, their
  context keys are normalized, and no two with the same context key say the same for the same route.\<close>

theorem event_queues_are_bounded:
  assumes "reachable initial_events (event_step w) queues" "peekSystemEventEntries sessionKey queues = Inr events"
  shows "length events \<le> 20 \<and> list_all event_ok events
    \<and> sorted_wrt (\<lambda>e e'. \<not> (se_contextKey e' \<noteq> None
        \<and> isDuplicateSystemEvent e (se_text e') (se_contextKey e') (se_deliveryContext e'))) events"
proof -
  obtain key where "events = pendingEvents key queues"
    using assms(2) by (auto simp: peekSystemEventEntries_def getSessionQueue_def pendingEvents_def split: sum.splits)
  with event_history.reachable_inv [OF assms(1)] have "queue_ok events" by (simp add: events_inv_def)
  then show ?thesis by (simp add: queue_ok_def MAX_EVENTS_def repeats_def)
qed

text \<open>A blank event for a new session leaves an empty queue behind, which draining the session does not remove.\<close>

theorem blank_event_leaves_queue:
  assumes "map_of queues key = None" "requireSessionKey (Some key) = Inr key" "js_trim message = []" "eo_sessionKey options = key"
    and "enqueueSystemEventEntry w now message options queues = (r, queues1)"
  shows "map_of (snd (drainSystemEventEntries key queues1)) key = Some emptyQueue"
  using assms by (auto simp: enqueueSystemEventEntry_def replaceSystemEventEntry_def getOrCreateSessionQueue_def drainSystemEventEntries_def
      emptyQueue_def update_conv' split: if_splits)

subsection \<open>Examples\<close>

definition eventFor :: "string \<Rightarrow> string option \<Rightarrow> bool \<Rightarrow> event_options" where
  "eventFor sessionKey contextKey replace = \<lparr>eo_sessionKey = sessionKey, eo_contextKey = contextKey, eo_deliveryContext = None, eo_replace = replace\<rparr>"

definition sampleQueues :: event_queues where
  "sampleQueues = snd (enqueueSystemEventEntry sampleChannels 2 ''two'' (eventFor ''main'' None False)
     (snd (enqueueSystemEventEntry sampleChannels 1 ''one'' (eventFor ''main'' (Some ''Job'') False) [])))"

definition sampleArrivals :: "(int \<times> string \<times> event_options) list" where
  "sampleArrivals = [(5, ''one again'', eventFor ''main'' (Some ''job'') True)]"

definition sampleSeen :: "system_event list" where
  "sampleSeen = [\<lparr>se_text = ''one'', se_ts = 1, se_contextKey = Some ''job'', se_deliveryContext = None\<rparr>,
     \<lparr>se_text = ''two'', se_ts = 2, se_contextKey = None, se_deliveryContext = None\<rparr>]"

lemma sample_seen: "peekSystemEventEntries ''main'' sampleQueues = Inr sampleSeen"
  by code_simp

theorem prompt_consumes_what_it_showed_witness:
  "\<exists>removed rest olds. fst (consumeSystemEventEntries ''main'' sampleSeen (enqueueAll sampleChannels sampleArrivals sampleQueues)) = Inr removed
    \<and> peekSystemEventEntries ''main'' (snd (consumeSystemEventEntries ''main'' sampleSeen (enqueueAll sampleChannels sampleArrivals sampleQueues))) = Inr rest
    \<and> peekSystemEventEntries ''main'' (enqueueAll sampleChannels sampleArrivals sampleQueues) = Inr (olds @ rest)
    \<and> subseq olds sampleSeen \<and> mset removed = mset olds"
proof -
  have later: "\<forall>(now, text, options) \<in> set sampleArrivals. \<forall>x \<in> set sampleSeen. se_ts x < now"
    by (simp add: sampleArrivals_def sampleSeen_def)
  let ?q = "enqueueAll sampleChannels sampleArrivals sampleQueues"
  obtain pending removed rest where parts: "peekSystemEventEntries ''main'' ?q = Inr pending"
      "fst (consumeSystemEventEntries ''main'' sampleSeen ?q) = Inr removed"
      "peekSystemEventEntries ''main'' (snd (consumeSystemEventEntries ''main'' sampleSeen ?q)) = Inr rest"
      "\<exists>olds. pending = olds @ rest \<and> subseq olds sampleSeen \<and> mset removed = mset olds"
    using prompt_consumes_what_it_showed [OF sample_seen surjective_pairing] later by blast
  from parts(4) obtain olds where "pending = olds @ rest \<and> subseq olds sampleSeen \<and> mset removed = mset olds" by blast
  with parts(1-3) show ?thesis by blast
qed

theorem event_queues_are_bounded_witness: "length sampleSeen \<le> 20 \<and> list_all event_ok sampleSeen"
proof -
  have "reachable initial_events (event_step sampleChannels) sampleQueues"
    unfolding sampleQueues_def by (rule reachable.step [OF reachable.step [OF reachable.start]], unfold initial_events_def)
      (rule refl event_step.enqueue)+
  from event_queues_are_bounded [OF this sample_seen] show ?thesis by blast
qed

end
