(* ===== verification/Spec2Isabelle.thy ===== *)
theory Spec2Isabelle
  imports Access_Runtime Route_Resolution Suspend_Coordinator Heartbeat_Schedule Rate_Limits Text_Chunking Board_Store
    Safe_Bin_Grammar Task_Flow_Upkeep System_Events
begin

text \<open>
  \<^bold>\<open>Verification of the OpenClaw gateway core.\<close>

  OpenClaw is a gateway between chat channels and agents. A message that arrives on a channel is first
  admitted or refused (ingress access), then routed to an agent and a session (routing and session keys),
  then executed as a command on a lane of the process (command queue) under the gate that drains the
  process for restarts and suspensions (work admission). Clients that authenticate against the gateway pass
  a rate limiter. Answers are split into messages of bounded size (text chunking), and sessions have boards of
  widgets whose network and tool access a user grants (boards). The host may suspend the process when it is idle
  (active work, suspend coordinator). Agents wake up on a schedule and on events (heartbeats), run simple commands
  without asking (safe bins), and leave work running in the background, whose tasks and flows outlive the process in
  a database and report back to the session that asked for them (tasks and flows). Reports wait as system events for
  the next prompt and carry the delivery context of the answer.

  \<^bold>\<open>Theories and sources.\<close> File names are relative to the repository; \<open>core/\<close> abbreviates
  \<open>packages/normalization-core/src/\<close>.

  \<^item> \<open>Prelude\<close>: the fragment of JavaScript's library in use, with the collections \<open>js_simps\<close>
    and \<open>split_opts\<close>. \<open>Transition_System\<close>: reachability and the locale of inductive invariants that
    the step relations interpret.
  \<^item> \<open>Normalization\<close>, \<open>Number_Coercion\<close>: \<open>core/string-coerce.ts\<close>,
    \<open>core/string-normalization.ts\<close>, \<open>core/number-coercion.ts\<close>.
  \<^item> \<open>Access_Types\<close>, \<open>Access_Gating\<close>, \<open>Access_Decision\<close>, \<open>Access_State\<close>,
    \<open>Access_Identity\<close>, \<open>Access_Runtime\<close>: the directory \<open>src/channels/message-access/\<close> with
    \<open>command-gating.ts\<close>, \<open>mention-gating.ts\<close> and \<open>allow-from.ts\<close> of \<open>src/channels/\<close>. The
    decision pipeline refines a policy specification that calls none of its gates; a dispatched event passed every gate;
    stored pairings and mutable identifiers admit nobody they should not; the resolver is shown end to end
    for plain allowlists.
  \<^item> \<open>Identifiers\<close>, \<open>Session_Key\<close>: \<open>core/agent-id.ts\<close>, \<open>src/routing/account-id.ts\<close>,
    \<open>src/routing/account-lookup.ts\<close>, \<open>src/sessions/session-key-utils.ts\<close>,
    \<open>src/routing/session-key.ts\<close>. Identifiers are safe keys, memo tables are transparent and bounded,
    session keys parse back and keep direct sessions apart.
  \<^item> \<open>Route_Config\<close>, \<open>Route_Resolution\<close>: rosters, bindings and \<open>src/routing/resolve-route.ts\<close>
    with its caches and index, against a specification without either. The theorem names the one case in which the
    cache shows: a message with a blank peer id and one without a peer share an entry.
  \<^item> \<open>Command_Queue\<close>, \<open>Work_Admission\<close>, \<open>Gateway_Process\<close>:
    \<open>src/process/command-queue.ts\<close>, \<open>src/process/gateway-work-admission.ts\<close> and the two together.
    Each is a record of the module's state, one function per exported operation and an inductive step
    relation over all of them; the theorems are invariants of every reachable state (each command settles
    once, lanes are ordered, bounded and work-conserving, no waiter is forgotten, root work is counted
    exactly) and of every continuation (restart drain is final, a draining process only finishes its commands,
    leases are exclusive).
  \<^item> \<open>Rate_Limits\<close>: \<open>src/gateway/auth-rate-limit.ts\<close> and
    \<open>src/infra/fixed-window-rate-limit.ts\<close>. Lockouts begin and end when they should, hold against any
    calls, and the table is bounded.
  \<^item> \<open>Text_Chunking\<close>: \<open>core/utf16-slice.ts\<close>, \<open>src/shared/text-chunking.ts\<close>, and the plain and
    newline modes of \<open>src/auto-reply/chunk.ts\<close>. No text is lost, limits hold, surrogate pairs stay whole.
  \<^item> \<open>Board_Layout\<close>, \<open>Board_Capabilities\<close>, \<open>Board_Store\<close>: the boards of widgets beside a session,
    \<open>src/boards/board-layout.ts\<close>, \<open>board-capabilities.ts\<close> with the policy part of
    \<open>src/agents/sandbox-host.ts\<close>, and \<open>board-store.ts\<close>. Layout operations keep boards in order; the
    locale \<open>widget_view\<close> gives what they keep of every widget; a grant covers what was approved and no more.

  \<^item> \<open>Active_Work\<close>, \<open>Suspend_Coordinator\<close>: \<open>src/infra/gateway-active-work.ts\<close> and
    \<open>gateway-suspend-coordinator.ts\<close> over the gateway process. A suspension has one owner, is granted only to an
    idle process behind the closed gate, and ends or is retried when its timer fires.
  \<^item> \<open>Heartbeat_Wake\<close>, \<open>Heartbeat_Schedule\<close>: \<open>src/infra/heartbeat-wake.ts\<close> with \<open>heartbeat-reason.ts\<close>,
    and \<open>heartbeat-schedule.ts\<close>, \<open>heartbeat-cooldown.ts\<close>, \<open>heartbeat-wake-policy.ts\<close> with the record that
    \<open>heartbeat-runner-scheduler.ts\<close> keeps per agent. Wakes stay scheduled and keep the jobs they carry across retries
    and replaced handlers; the search for the next active slot finds what a scan finds, but for the end of the horizon;
    deferrals end, and over every history of an agent the flood guard bounds the recorded runs.
  \<^item> \<open>Safe_Bins\<close>, \<open>Safe_Bin_Grammar\<close>: the modules \<open>src/infra/exec-safe-bin-*.ts\<close> with \<open>isSafeBinUsage\<close>.
    The validator of arguments accepts exactly a grammar over the flags of the profile; denied flags are refused in
    every spelling; the commands that the built-in profiles accept are characterised exactly, with the two names that
    every object inherits as the exception.
  \<^item> \<open>Task_Flow_Store\<close>, \<open>Task_Flows\<close>, \<open>Task_Flow_Safety\<close>: \<open>src/tasks/task-flow-registry.ts\<close> with its
    types, its store and \<open>task-flow-owner-access.ts\<close>. The locale \<open>write_through\<close> states what a table owes to
    the memory that mirrors it. Updates under an expected revision are never lost, a reload finds what memory had, and
    after a failed restore every operation has a fixed answer and changes nothing until a reload.
  \<^item> \<open>Task_Records\<close>, \<open>Task_Store\<close>, \<open>Task_Registry\<close>, \<open>Task_Mutation\<close>, \<open>Task_Delivery\<close>,
    \<open>Task_Record_Api\<close>: the registry of tasks, \<open>src/tasks/task-registry-*.ts\<close> with \<open>task-executor-policy.ts\<close> and
    \<open>task-retention.ts\<close>. The state is the record \<open>task_registry\<close> (memory, four indexes, tables, retry timers and
    the registry of flows) inside \<open>task_process\<close> (effects on the outside and deliveries that wait for the loading of
    the runtime or for the answer to a message). An operation answers an error or a value and the new state.
  \<^item> \<open>Task_Index\<close>, \<open>Task_Registry_Steps\<close>, \<open>Task_Registry_Moves\<close>, \<open>Task_Process_Moves\<close>,
    \<open>Task_Registry_Safety\<close>: the locales \<open>task_index\<close> and \<open>removable_task_index\<close> are the contract of an index,
    interpreted for the index of runs, owners, flows and sessions. Every operation is decomposed into small steps on
    the core of the registry, for which the invariant is shown once. Over all histories, indexed queries equal scans,
    tables hold what memory holds, records are well-formed, ended tasks stay ended, and retries end.
  \<^item> \<open>Task_Flow_Maintenance\<close>, \<open>Task_Flow_Upkeep\<close>: \<open>task-flow-registry.maintenance.ts\<close> and
    \<open>task-flow-registry.audit.ts\<close>. A run of maintenance does what its preview announces and what a specification
    per flow says, which is written without the predicates of the code, and removes only flows that stopped (or were
    last updated while blocked) seven days ago.
  \<^item> \<open>Json_Text\<close>, \<open>Channel_Ids\<close>, \<open>Channel_Routes\<close>, \<open>Delivery_Context\<close>: \<open>JSON.stringify\<close> of strings as a code
    that can be read back (locale \<open>prefix_code\<close>); \<open>src/channels/ids.ts\<close> with the lookup of plugin channels and
    \<open>src/utils/message-channel-core.ts\<close>; \<open>src/plugin-sdk/channel-route.ts\<close>;
    \<open>src/utils/delivery-context.shared.ts\<close>. Canonical channel ids are stable, the key of a route determines the route,
    merged contexts never combine the target of one account with another, and the route and the context in the delivery
    state of a session agree.
  \<^item> \<open>System_Events\<close>: \<open>src/infra/system-events.ts\<close>. Queues are bounded and free of repetitions, and a prompt consumes
    the events it showed, where events with the same text, time, key and route cannot be told apart.

  \<^bold>\<open>Conventions.\<close> Objects are records, unions are datatypes, optional properties are options, thrown
  errors and rejected promises are sums or options. Objects that the code shares and compares by identity
  (lanes, configurations, root admissions) live in explicit stores under object numbers. A JavaScript
  \<open>Map\<close> is an association list in insertion order, so eviction order is the code's. Copies that the code makes to
  protect its objects are the records themselves. Every loop is a total function: the recursion is structural or
  comes with its termination proof, and no fuel occurs; where the code bounds its attempts by a number, that number
  is the argument of the recursion. The properties of the development carry the identifiers C1 to C40 in their
  comments.

  \<^bold>\<open>Limits of the model.\<close> Strings are sequences of code units below U+0100 except in
  \<open>Text_Chunking\<close>, which keeps all 16 bits. Numbers are integers. Clocks, locale comparison, address
  and URL parsing, digests and asynchronous readers are parameters. Weak maps keyed by configuration objects are maps over
  object numbers. The route cache key, a JSON text in the code, and the scope key of a run, a joined text, are the
  tuples of their components. Callbacks that the gate runs while it holds its state do not call back into the gate.
  The timers that race a queued task inside \<open>runQueueEntryTask\<close> appear as the outcome of the task. The file system
  probes behind a safe bin are parameters. A read or a write of the database succeeds or fails as a whole, as the
  environment of the call says (\<open>te_commits\<close>, \<open>te_loadError\<close>); the normalizer and the reader of delivery
  contexts, the sanitizer of status texts and what the channels support are parameters too (\<open>task_env\<close>,
  \<open>delivery_world\<close>). A call of the task registry reads the clock once. Channel catalogs and registered
  plugins are fixed during a call (\<open>channel_world\<close>). The histories of the registries of tasks and flows start with
  empty tables, so rows of older versions are not covered, and the wakes of an agent are served one after the other.

  \<^bold>\<open>Not modelled.\<close> Logging and debug output; the schema migration of \<open>getQueueState\<close>; stores and runtimes
  that tests install. Operating system processes, network and files, plugin loading, model providers and the user
  interfaces are input and output around the modelled parts. Configuration validation and cron expressions rest on
  third-party parsers. Task cancellation, agent events and task maintenance take their decisions from the agent
  runtime, session stores and process tables. Session lifecycle admission rests on asynchronous context storage and
  on locks in the session store, the pairing store on files, and Markdown chunking on a Markdown parser.
\<close>

end
